(* ===== verification/Prelude.thy ===== *)
theory Prelude
  imports Main "HOL-Library.Word" "HOL-Library.Multiset"
begin

text \<open>
  Types and generic facts shared by every theory of the development: the machine integer
  types of the C code, the result type of operations that can end in a firmware shutdown or in
  an access the C code does not define, and lemmas on words, lists and updates that the
  component proofs use.
\<close>

unbundle bit_operations_syntax

section \<open>Machine integers\<close>

type_synonym u8 = "8 word"
type_synonym u16 = "16 word"
type_synonym u32 = "32 word"
type_synonym u64 = "64 word"

section \<open>Results of operations\<close>

text \<open>
  \<open>Ret a s\<close>: the C function returned \<open>a\<close> in state \<open>s\<close>.
  \<open>Shut msg s\<close>: it called \<open>shutdown(msg)\<close>, which does not return (it jumps to the
  main loop) and leaves the state as it was at that moment.
  \<open>Fault\<close>: it followed a null pointer, left the bounds of an object or waits without end.
\<close>

datatype ('s, 'a) res = Ret 'a 's | Shut string 's | Fault

definition bnd :: "('s, 'a) res \<Rightarrow> ('a \<Rightarrow> 's \<Rightarrow> ('s, 'b) res) \<Rightarrow> ('s, 'b) res" where
  "bnd m f = (case m of Ret a s \<Rightarrow> f a s | Shut e s \<Rightarrow> Shut e s | Fault \<Rightarrow> Fault)"

text \<open>\<open>andthen m f\<close> continues with the state only, for C functions whose value is not used.\<close>

definition andthen :: "('s, 'a) res \<Rightarrow> ('s \<Rightarrow> ('s, 'b) res) \<Rightarrow> ('s, 'b) res" where
  "andthen m f = bnd m (\<lambda>_. f)"

named_theorems res_simps "evaluation of sequenced results"

lemma bnd_simps [simp, res_simps]:
  "bnd (Ret a s) f = f a s"
  "bnd (Shut e s) f = Shut e s"
  "bnd Fault f = Fault"
  by (simp_all add: bnd_def)

lemma andthen_simps [simp, res_simps]:
  "andthen (Ret a s) g = g s"
  "andthen (Shut e s) g = Shut e s"
  "andthen Fault g = Fault"
  by (simp_all add: andthen_def)

lemma bnd_assoc: "bnd (bnd m f) g = bnd m (\<lambda>a s. bnd (f a s) g)"
  by (cases m) simp_all

lemma bnd_eq_Ret: "bnd m f = Ret b t \<longleftrightarrow> (\<exists>a s. m = Ret a s \<and> f a s = Ret b t)"
  by (cases m) auto

lemma andthen_eq_Ret: "andthen m g = Ret b t \<longleftrightarrow> (\<exists>a s. m = Ret a s \<and> g s = Ret b t)"
  by (cases m) auto

definition returns :: "('s, 'a) res \<Rightarrow> bool" where
  "returns r = (case r of Ret _ _ \<Rightarrow> True | _ \<Rightarrow> False)"

definition no_fault :: "('s, 'a) res \<Rightarrow> bool" where
  "no_fault r = (case r of Fault \<Rightarrow> False | _ \<Rightarrow> True)"

lemma returns_simps [simp, res_simps]:
  "returns (Ret a s)" "\<not> returns (Shut e s)" "\<not> returns Fault"
  by (simp_all add: returns_def)

lemma no_fault_simps [simp, res_simps]:
  "no_fault (Ret a s)" "no_fault (Shut e s)" "\<not> no_fault Fault"
  by (simp_all add: no_fault_def)

lemma returns_iff: "returns r \<longleftrightarrow> (\<exists>a s. r = Ret a s)"
  by (cases r) auto

lemma no_fault_bnd:
  "no_fault m \<Longrightarrow> (\<And>a s. m = Ret a s \<Longrightarrow> no_fault (f a s)) \<Longrightarrow> no_fault (bnd m f)"
  by (cases m) auto

section \<open>Words\<close>

text \<open>Truth of a C condition on a masked word, and the C boolean as a byte.\<close>

definition bit_set :: "'a::len word \<Rightarrow> 'a word \<Rightarrow> bool" where
  "bit_set w m \<longleftrightarrow> w AND m \<noteq> 0"

definition of_flag :: "bool \<Rightarrow> 'a::len word" where
  "of_flag b = (if b then 1 else 0)"

lemma of_flag_simps [simp]: "of_flag True = 1" "of_flag False = 0"
  by (simp_all add: of_flag_def)

text \<open>Signed comparison against zero is the test of the top bit.\<close>

lemma bit_top_iff_unat: "bit (w :: 'a::len word) (LENGTH('a) - 1) \<longleftrightarrow> 2 ^ (LENGTH('a) - 1) \<le> unat w"
proof -
  let ?k = "LENGTH('a) - 1"
  have "LENGTH('a) = Suc ?k" by simp
  moreover have "unat w < 2 ^ LENGTH('a)" by (rule unsigned_less)
  ultimately have lt: "unat w < 2 * 2 ^ ?k" by (metis power_Suc)
  have "bit w ?k \<longleftrightarrow> bit (unat w) ?k" by (simp add: bit_unsigned_iff)
  also have "\<dots> \<longleftrightarrow> odd (unat w div 2 ^ ?k)" by (simp only: bit_iff_odd)
  also have "\<dots> \<longleftrightarrow> 2 ^ ?k \<le> unat w"
  proof (cases "2 ^ ?k \<le> unat w")
    case True
    with lt have "unat w div 2 ^ ?k = 1" by (intro div_nat_eqI) simp_all
    with True show ?thesis by simp
  next
    case False
    then show ?thesis by simp
  qed
  finally show ?thesis .
qed

lemma sint_neg_iff_unat: "sint (w :: 'a::len word) < 0 \<longleftrightarrow> 2 ^ (LENGTH('a) - 1) \<le> unat w"
  using bit_top_iff_unat [of w] by (simp add: bit_last_iff)

lemma unat_minus_wrap:
  "unat (a - b :: 'a::len word) =
     (if unat b \<le> unat a then unat a - unat b else 2 ^ LENGTH('a) + unat a - unat b)"
proof (cases "b \<le> a")
  case True
  then show ?thesis by (simp add: unat_sub word_le_nat_alt)
next
  case False
  then have "unat a < unat b" by (simp add: word_le_nat_alt)
  moreover have "unat b < 2 ^ LENGTH('a)" by (rule unsigned_less)
  ultimately show ?thesis
    using unat_sub_if' [of a b] by auto
qed

lemma sint_small:
  assumes "unat (w :: 'a::len word) < 2 ^ (LENGTH('a) - 1)"
  shows "sint w = int (unat w)"
proof -
  have "int (unat w) < 2 ^ (LENGTH('a) - 1)" using assms by (metis of_nat_less_iff of_nat_numeral of_nat_power)
  then have "signed_take_bit (LENGTH('a) - 1) (int (unat w)) = int (unat w)"
    by (intro signed_take_bit_int_eq_self) (auto intro: order_trans [of _ 0])
  then show ?thesis by (simp add: sint_uint)
qed

lemma unat_of_nat_small: "n < 2 ^ LENGTH('a) \<Longrightarrow> unat (of_nat n :: 'a::len word) = n"
  by (simp add: unsigned_of_nat take_bit_nat_eq_self)

lemma unat_inc:
  assumes "Suc (unat w) < 2 ^ LENGTH('a)"
  shows "unat (w + 1 :: 'a::len word) = Suc (unat w)"
proof -
  have "unat w + unat (1 :: 'a word) < 2 ^ LENGTH('a)" using assms by simp
  then have "unat (w + 1) = unat w + unat (1 :: 'a word)" by (rule unat_add_lem [THEN iffD1])
  then show ?thesis by simp
qed

lemma unat_ucast_up:
  assumes "LENGTH('a) \<le> LENGTH('b)"
  shows "unat (ucast (w :: 'a::len word) :: 'b::len word) = unat w"
proof -
  have "unat w < 2 ^ LENGTH('a)" by (rule unsigned_less)
  also have "(2 :: nat) ^ LENGTH('a) \<le> 2 ^ LENGTH('b)" using assms by simp
  finally show ?thesis by (simp add: unsigned_ucast_eq take_bit_nat_eq_self)
qed

text \<open>Small values travel in 32-bit arguments.\<close>

lemma ucast_args [simp]:
  "(ucast (ucast (x :: u8) :: u32) :: u8) = x"
  "(ucast (ucast (y :: u16) :: u32) :: u16) = y"
  by (rule bit_word_eqI; simp add: bit_ucast_iff)+

text \<open>The bits of the masks the code uses.\<close>

named_theorems mask_bits "bits of constant masks"

lemma bit_mask_int [mask_bits]:
  "bit (0x7f :: int) n \<longleftrightarrow> n < 7"
  "bit (0x1f :: int) n \<longleftrightarrow> n < 5"
  "bit (0x0f :: int) n \<longleftrightarrow> n < 4"
  using bit_mask_iff [where 'a = int, of 7 n] bit_mask_iff [where 'a = int, of 5 n]
    bit_mask_iff [where 'a = int, of 4 n]
  by (simp_all add: mask_eq_exp_minus_1)

lemma bit_exp_int [mask_bits]:
  "bit (0x80 :: int) n \<longleftrightarrow> n = 7"
  "bit (0x10 :: int) n \<longleftrightarrow> n = 4"
  using bit_push_bit_iff [where 'a = int, of 7 1 n] bit_push_bit_iff [where 'a = int, of 4 1 n]
  by (auto simp: bit_1_iff)

lemma and_0x80_iff: "(w :: 'a::len word) AND 0x80 = 0 \<longleftrightarrow> \<not> bit w 7"
proof
  assume a: "w AND 0x80 = 0"
  show "\<not> bit w 7"
  proof
    assume b: "bit w 7"
    then have "bit (w AND 0x80) 7" by (auto simp: bit_and_iff mask_bits dest: bit_imp_le_length)
    with a show False by simp
  qed
next
  assume a: "\<not> bit w 7"
  show "w AND 0x80 = 0"
    by (rule bit_word_eqI) (use a in \<open>auto simp: bit_and_iff mask_bits\<close>)
qed

text \<open>Flag bytes: the single-bit constants the code tests, sets and clears.\<close>

named_theorems flag_bits "single-bit flags"

lemma bit_set_exp: "bit_set w (2 ^ k) \<longleftrightarrow> bit w k"
  by (simp add: bit_set_def and_exp_eq_0_iff_not_bit)

lemma bit_set_num [flag_bits]:
  "bit_set w 1 \<longleftrightarrow> bit w 0" "bit_set w 2 \<longleftrightarrow> bit w 1" "bit_set w 4 \<longleftrightarrow> bit w 2"
  "bit_set w 8 \<longleftrightarrow> bit w 3" "bit_set w 16 \<longleftrightarrow> bit w 4" "bit_set w 32 \<longleftrightarrow> bit w 5"
  "bit_set w 64 \<longleftrightarrow> bit w 6" "bit_set w 128 \<longleftrightarrow> bit w 7"
  using bit_set_exp [of w 0] bit_set_exp [of w 1] bit_set_exp [of w 2] bit_set_exp [of w 3]
    bit_set_exp [of w 4] bit_set_exp [of w 5] bit_set_exp [of w 6] bit_set_exp [of w 7] by simp_all

lemma bit_exp_word: "bit (2 ^ k :: 'a::len word) n \<longleftrightarrow> n = k \<and> k < LENGTH('a)"
  by (auto simp: bit_exp_iff)

lemma bit_flag [flag_bits]:
  "bit (1 :: 'a::len word) n \<longleftrightarrow> n = 0" "bit (2 :: 'a word) n \<longleftrightarrow> n = 1 \<and> 1 < LENGTH('a)"
  "bit (4 :: 'a word) n \<longleftrightarrow> n = 2 \<and> 2 < LENGTH('a)" "bit (8 :: 'a word) n \<longleftrightarrow> n = 3 \<and> 3 < LENGTH('a)"
  "bit (16 :: 'a word) n \<longleftrightarrow> n = 4 \<and> 4 < LENGTH('a)" "bit (32 :: 'a word) n \<longleftrightarrow> n = 5 \<and> 5 < LENGTH('a)"
  "bit (64 :: 'a word) n \<longleftrightarrow> n = 6 \<and> 6 < LENGTH('a)" "bit (128 :: 'a word) n \<longleftrightarrow> n = 7 \<and> 7 < LENGTH('a)"
  by (simp_all add: bit_1_iff bit_exp_word [of 1, simplified] bit_exp_word [of 2, simplified]
      bit_exp_word [of 3, simplified] bit_exp_word [of 4, simplified] bit_exp_word [of 5, simplified]
      bit_exp_word [of 6, simplified] bit_exp_word [of 7, simplified])

lemmas [flag_bits] = bit_or_iff bit_and_iff bit_xor_iff bit_not_iff

section \<open>Lists\<close>

lemma take_drop_nth: "i + n \<le> length xs \<Longrightarrow> k < n \<Longrightarrow> take n (drop i xs) ! k = xs ! (i + k)"
  by simp

text \<open>Writing a run of bytes into a buffer, as \<open>memcpy(&buf[i], ys, length ys)\<close> does.\<close>

definition blit :: "'a list \<Rightarrow> nat \<Rightarrow> 'a list \<Rightarrow> 'a list" where
  "blit xs i ys = take i xs @ ys @ drop (i + length ys) xs"

lemma length_blit [simp]: "i + length ys \<le> length xs \<Longrightarrow> length (blit xs i ys) = length xs"
  by (simp add: blit_def)

lemma take_blit: "i + length ys \<le> length xs \<Longrightarrow> take (i + length ys) (blit xs i ys) = take i xs @ ys"
  by (simp add: blit_def)

lemma nth_blit:
  assumes "i + length ys \<le> length xs" "k < length xs"
  shows "blit xs i ys ! k = (if i \<le> k \<and> k < i + length ys then ys ! (k - i) else xs ! k)"
  using assms by (auto simp: blit_def nth_append min_def)

end
