(* ===== verification/Crc.thy ===== *)
theory Crc
  imports Prelude
begin

text \<open>
  The checksum of message blocks: \<open>crc16_ccitt\<close> of the firmware
  (\<open>klipper/src/generic/crc16_ccitt.c\<close>) and the host's copy \<open>msgblock_crc16_ccitt\<close>
  (\<open>klipper/klippy/chelper/msgblock.c\<close>). The lemmas show that one loop step loses no
  information, in the checksum and in the byte, so that replacing any one byte of a message by
  another changes its checksum.
\<close>

section \<open>Definitions\<close>

text \<open>
  The loop body. \<open>data\<close> is a \<open>uint8_t\<close>, so the shift by 4 drops the upper bits; the
  final expression is computed on \<open>int\<close> and cut to \<open>uint16_t\<close> when stored.
\<close>

definition crc_step :: "u16 \<Rightarrow> u8 \<Rightarrow> u16" where
  "crc_step crc byte =
     (let data1 = byte XOR ucast crc;
          data = data1 XOR push_bit 4 data1
      in (push_bit 8 (ucast data) OR drop_bit 8 crc)
           XOR ucast (drop_bit 4 data) XOR push_bit 3 (ucast data))"

text \<open>The loop over the first \<open>len\<close> bytes, on the bytes as a list.\<close>

fun crc_loop :: "u16 \<Rightarrow> u8 list \<Rightarrow> u16" where
  "crc_loop crc [] = crc"
| "crc_loop crc (b # bs) = crc_loop (crc_step crc b) bs"

definition crc16_ccitt :: "u8 list \<Rightarrow> nat \<Rightarrow> u16" where
  "crc16_ccitt buf len = crc_loop 0xffff (take len buf)"

text \<open>The host has its own copy of the same loop.\<close>

definition msgblock_crc16_ccitt :: "u8 list \<Rightarrow> nat \<Rightarrow> u16" where
  "msgblock_crc16_ccitt buf len = crc_loop 0xffff (take len buf)"

lemma host_crc_eq: "msgblock_crc16_ccitt = crc16_ccitt"
  by (simp add: fun_eq_iff msgblock_crc16_ccitt_def crc16_ccitt_def)

section \<open>One step loses no information\<close>

text \<open>The nibble mixing \<open>x ^ (x << 4)\<close> on a byte is its own inverse.\<close>

definition mix :: "u8 \<Rightarrow> u8" where
  "mix x = x XOR push_bit 4 x"

lemma mix_mix: "mix (mix x) = x"
proof (rule bit_word_eqI)
  fix n assume n: "n < LENGTH(8)"
  then have "n \<in> {0,1,2,3,4,5,6,7}" by auto
  then show "bit (mix (mix x)) n = bit x n"
    by (auto simp: mix_def bit_simps)
qed

text \<open>The high byte of the new checksum determines the mixed byte.\<close>

definition hi_byte :: "u16 \<Rightarrow> u8" where
  "hi_byte c = ucast (drop_bit 8 c)"

definition lo_byte :: "u16 \<Rightarrow> u8" where
  "lo_byte c = ucast c"

lemma u16_bytes_eqI:
  assumes "hi_byte a = hi_byte b" "lo_byte a = lo_byte b"
  shows "a = b"
proof (rule bit_word_eqI)
  fix n assume n: "n < LENGTH(16)"
  show "bit a n = bit b n"
  proof (cases "n < 8")
    case True
    have "bit (lo_byte a) n = bit (lo_byte b) n" using assms by simp
    then show ?thesis using True by (simp add: lo_byte_def bit_simps)
  next
    case False
    have "bit (hi_byte a) (n - 8) = bit (hi_byte b) (n - 8)" using assms by simp
    moreover have "n - 8 < 8" using False n by simp
    ultimately show ?thesis using False n by (simp add: hi_byte_def bit_simps)
  qed
qed

definition mixed :: "u16 \<Rightarrow> u8 \<Rightarrow> u8" where
  "mixed crc byte = mix (byte XOR lo_byte crc)"

lemma crc_step_mixed:
  "crc_step crc byte =
     (push_bit 8 (ucast (mixed crc byte)) OR drop_bit 8 crc)
       XOR ucast (drop_bit 4 (mixed crc byte)) XOR push_bit 3 (ucast (mixed crc byte))"
  by (simp add: crc_step_def Let_def mixed_def mix_def lo_byte_def)

lemma hi_byte_combine:
  fixes d :: u8 and c :: u16
  shows "hi_byte ((push_bit 8 (ucast d) OR drop_bit 8 c) XOR ucast (drop_bit 4 d) XOR push_bit 3 (ucast d))
    = d XOR drop_bit 5 d" (is "?l = ?r")
proof (rule bit_word_eqI)
  fix n assume n: "n < LENGTH(8)"
  then have "\<not> bit c (n + 16)" by (auto dest: bit_imp_le_length)
  moreover have "\<not> bit d (n + 12)" by (auto dest: bit_imp_le_length)
  ultimately show "bit ?l n = bit ?r n"
    using n by (simp add: hi_byte_def bit_simps add.commute)
qed

lemma lo_byte_combine:
  fixes d :: u8 and c :: u16
  shows "lo_byte ((push_bit 8 (ucast d) OR drop_bit 8 c) XOR ucast (drop_bit 4 d) XOR push_bit 3 (ucast d))
    = hi_byte c XOR drop_bit 4 d XOR push_bit 3 d" (is "?l = ?r")
proof (rule bit_word_eqI)
  fix n assume n: "n < LENGTH(8)"
  then show "bit ?l n = bit ?r n"
    by (cases "n < 3") (auto simp: lo_byte_def hi_byte_def bit_simps add.commute)
qed

lemma crc_step_hi: "hi_byte (crc_step crc byte) = mixed crc byte XOR drop_bit 5 (mixed crc byte)"
  by (simp only: crc_step_mixed hi_byte_combine)

lemma crc_step_lo:
  "lo_byte (crc_step crc byte) =
     hi_byte crc XOR drop_bit 4 (mixed crc byte) XOR push_bit 3 (mixed crc byte)"
  by (simp only: crc_step_mixed lo_byte_combine)

lemma fold5_inj:
  fixes x y :: u8
  assumes "x XOR drop_bit 5 x = y XOR drop_bit 5 y"
  shows "x = y"
proof -
  have inv: "(z XOR drop_bit 5 z) XOR drop_bit 5 (z XOR drop_bit 5 z) = z" for z :: u8
  proof (rule bit_word_eqI)
    fix n assume n: "n < LENGTH(8)"
    then have "n \<in> {0,1,2,3,4,5,6,7}" by auto
    then show "bit ((z XOR drop_bit 5 z) XOR drop_bit 5 (z XOR drop_bit 5 z)) n = bit z n"
      by (auto simp: bit_simps)
  qed
  from inv [of x] inv [of y] assms show ?thesis by metis
qed

lemma mixed_eq_if_step_eq: "crc_step c x = crc_step c' x' \<Longrightarrow> mixed c x = mixed c' x'"
  by (rule fold5_inj) (metis crc_step_hi)

lemma mixed_eqD: "mixed c x = mixed c' x' \<Longrightarrow> x XOR lo_byte c = x' XOR lo_byte c'"
  unfolding mixed_def by (metis mix_mix)

lemma xor_cancel: "(a XOR b = a XOR c) = (b = (c :: 'a::len word))"
  by (metis xor.assoc xor_self_eq xor.left_neutral)

lemma crc_step_inj_byte: "crc_step c x = crc_step c y \<Longrightarrow> x = y"
  using mixed_eqD [OF mixed_eq_if_step_eq] by (metis xor_cancel xor.commute)

lemma crc_step_inj_crc:
  assumes "crc_step c x = crc_step d x"
  shows "c = d"
proof (rule u16_bytes_eqI)
  have m: "mixed c x = mixed d x" using assms by (rule mixed_eq_if_step_eq)
  then show "lo_byte c = lo_byte d" using mixed_eqD xor_cancel by blast
  show "hi_byte c = hi_byte d"
  proof -
    let ?m = "mixed d x"
    have "hi_byte c XOR (drop_bit 4 ?m XOR push_bit 3 ?m) = hi_byte d XOR (drop_bit 4 ?m XOR push_bit 3 ?m)"
      using crc_step_lo [of c x] crc_step_lo [of d x] assms m by (simp add: xor.assoc)
    then show ?thesis by (simp only: xor.commute [of "hi_byte _"] xor_cancel)
  qed
qed

lemma crc_loop_append: "crc_loop c (xs @ ys) = crc_loop (crc_loop c xs) ys"
  by (induction xs arbitrary: c) auto

lemma crc_loop_inj_crc: "crc_loop c xs = crc_loop d xs \<Longrightarrow> c = d"
  by (induction xs arbitrary: c d) (auto dest: crc_step_inj_crc)

text \<open>Two messages that differ in exactly one byte have different checksums.\<close>

lemma crc_loop_one_byte:
  assumes "x \<noteq> y"
  shows "crc_loop c (xs @ x # ys) \<noteq> crc_loop c (xs @ y # ys)"
  using assms by (auto simp: crc_loop_append dest: crc_loop_inj_crc crc_step_inj_byte)

lemma crc16_prefix: "len \<le> length xs \<Longrightarrow> crc16_ccitt (xs @ ys) len = crc16_ccitt xs len"
  by (simp add: crc16_ccitt_def)

lemma crc16_all: "len = length xs \<Longrightarrow> crc16_ccitt (xs @ ys) len = crc_loop 0xffff xs"
  by (simp add: crc16_ccitt_def)

end
