(* ===== verification/Vlq.thy ===== *)
theory Vlq
  imports Prelude
begin

text \<open>
  The variable length quantity used for integers in messages: \<open>encode_int\<close> and
  \<open>parse_int\<close> of the firmware (\<open>klipper/src/command.c\<close>) and the host's identical copies
  (\<open>klipper/klippy/chelper/msgblock.c\<close>). Bytes written through the pointer are returned as a
  list; a read through the pointer is a read of a byte list at an index, and a read past its
  end is \<open>None\<close>. The main lemma is that parsing an encoded value returns the value and
  consumes exactly the bytes written, for every 32-bit value.
\<close>

section \<open>Encoding\<close>

text \<open>The bytes at the labels of \<open>encode_int\<close>, lowest group last.\<close>

definition vlq_byte :: "nat \<Rightarrow> u32 \<Rightarrow> u8" where
  "vlq_byte k v = ucast ((drop_bit k v AND 0x7f) OR 0x80)"

definition vlq_last :: "u32 \<Rightarrow> u8" where
  "vlq_last v = ucast (v AND 0x7f)"

definition encode_int :: "u32 \<Rightarrow> u8 list" where
  "encode_int v =
     (let sv = sint v;
          f4 = [vlq_last v];
          f3 = vlq_byte 7 v # f4;
          f2 = vlq_byte 14 v # f3;
          f1 = vlq_byte 21 v # f2
      in if sv < 3 * 2 ^ 5 \<and> sv \<ge> - (2 ^ 5) then f4
         else if sv < 3 * 2 ^ 12 \<and> sv \<ge> - (2 ^ 12) then f3
         else if sv < 3 * 2 ^ 19 \<and> sv \<ge> - (2 ^ 19) then f2
         else if sv < 3 * 2 ^ 26 \<and> sv \<ge> - (2 ^ 26) then f1
         else ucast (drop_bit 28 v OR 0x80) # f1)"

text \<open>The host's copy, statement for statement the same.\<close>

definition host_encode_int :: "u32 \<Rightarrow> u8 list" where
  "host_encode_int v =
     (let sv = sint v;
          f4 = [vlq_last v];
          f3 = vlq_byte 7 v # f4;
          f2 = vlq_byte 14 v # f3;
          f1 = vlq_byte 21 v # f2
      in if sv < 3 * 2 ^ 5 \<and> sv \<ge> - (2 ^ 5) then f4
         else if sv < 3 * 2 ^ 12 \<and> sv \<ge> - (2 ^ 12) then f3
         else if sv < 3 * 2 ^ 19 \<and> sv \<ge> - (2 ^ 19) then f2
         else if sv < 3 * 2 ^ 26 \<and> sv \<ge> - (2 ^ 26) then f1
         else ucast (drop_bit 28 v OR 0x80) # f1)"

section \<open>Parsing\<close>

text \<open>
  The \<open>while (c & 0x80)\<close> loop: \<open>p\<close> is the index of the next byte, \<open>c\<close> the last byte read.
\<close>

function parse_loop :: "u8 list \<Rightarrow> nat \<Rightarrow> u8 \<Rightarrow> u32 \<Rightarrow> (u32 \<times> nat) option" where
  "parse_loop buf p c v =
     (if c AND 0x80 = 0 then Some (v, p)
      else if p < length buf
           then parse_loop buf (Suc p) (buf ! p) (push_bit 7 v OR (ucast (buf ! p) AND 0x7f))
           else None)"
  by pat_completeness auto
termination
  by (relation "measure (\<lambda>(buf, p, c, v). length buf - p)") auto

declare parse_loop.simps [simp del]

definition parse_first :: "u8 \<Rightarrow> u32" where
  "parse_first c =
     (let v = ucast c AND 0x7f
      in if c AND 0x60 = 0x60 then v OR (- 0x20) else v)"

definition parse_int :: "u8 list \<Rightarrow> nat \<Rightarrow> (u32 \<times> nat) option" where
  "parse_int buf p =
     (if p < length buf then parse_loop buf (Suc p) (buf ! p) (parse_first (buf ! p)) else None)"

definition host_parse_int :: "u8 list \<Rightarrow> nat \<Rightarrow> (u32 \<times> nat) option" where
  "host_parse_int buf p =
     (if p < length buf then parse_loop buf (Suc p) (buf ! p) (parse_first (buf ! p)) else None)"

lemma host_vlq_eq: "host_encode_int = encode_int" "host_parse_int = parse_int"
  by (simp_all add: fun_eq_iff host_encode_int_def encode_int_def host_parse_int_def parse_int_def)

section \<open>Shape of the encoding\<close>

lemma encode_int_length: "1 \<le> length (encode_int v) \<and> length (encode_int v) \<le> 5"
  by (simp add: encode_int_def Let_def)

lemma encode_int_nonempty [simp]: "encode_int v \<noteq> []"
  using encode_int_length [of v] by auto

section \<open>Reading is confined to the buffer\<close>

lemma parse_loop_bounds: "parse_loop buf p c v = Some (w, q) \<Longrightarrow> p \<le> length buf \<Longrightarrow> p \<le> q \<and> q \<le> length buf"
proof (induction buf p c v rule: parse_loop.induct)
  case (1 buf p c v)
  then show ?case
    by (subst (asm) (2) parse_loop.simps) (auto split: if_splits)
qed

lemma parse_int_bounds: "parse_int buf p = Some (w, q) \<Longrightarrow> p < q \<and> q \<le> length buf"
  by (auto simp: parse_int_def dest: parse_loop_bounds split: if_splits)

text \<open>A byte without its top bit stops the loop: parsing cannot pass it.\<close>

lemma parse_loop_stops:
  assumes "p \<le> k" "k < length buf" "buf ! k AND 0x80 = 0"
  shows "\<exists>w q. parse_loop buf p c v = Some (w, q) \<and> q \<le> Suc k"
  using assms
proof (induction buf p c v rule: parse_loop.induct)
  case (1 buf p c v)
  show ?case
  proof (cases "c AND 0x80 = 0")
    case True
    with 1(2) show ?thesis by (subst parse_loop.simps) simp
  next
    case False
    have p: "p < length buf" using 1(2,3) by simp
    show ?thesis
    proof (cases "p = k")
      case True
      with False p 1(4) show ?thesis
        by (subst parse_loop.simps, subst parse_loop.simps) simp
    next
      case ne: False
      with 1 False p show ?thesis
        by (subst parse_loop.simps) simp
    qed
  qed
qed

lemma parse_int_stops:
  assumes "p \<le> k" "k < length buf" "buf ! k AND 0x80 = 0"
  obtains w q where "parse_int buf p = Some (w, q)" "p < q" "q \<le> Suc k"
proof -
  have "\<exists>w q. parse_int buf p = Some (w, q) \<and> q \<le> Suc k"
  proof (cases "p = k")
    case True
    then show ?thesis using assms by (auto simp: parse_int_def parse_loop.simps [of buf "Suc k"])
  next
    case False
    then show ?thesis
      using assms parse_loop_stops [of "Suc p" k buf] by (simp add: parse_int_def)
  qed
  then show thesis using that parse_int_bounds by blast
qed

section \<open>Round trip\<close>

text \<open>
  \<open>agrees k v w\<close>: after the groups above bit \<open>k\<close> have been read, the accumulator \<open>w\<close>
  holds bits \<open>k\<close> to 31 of \<open>v\<close> (its higher bits are shifted out by the groups to come).
\<close>

definition agrees :: "nat \<Rightarrow> u32 \<Rightarrow> u32 \<Rightarrow> bool" where
  "agrees k v w \<longleftrightarrow> (\<forall>n. n + k < 32 \<longrightarrow> bit w n = bit v (n + k))"

lemma agrees_0: "agrees 0 v w \<Longrightarrow> w = v"
  by (rule bit_word_eqI) (simp add: agrees_def)

lemma bit_group: "bit (push_bit 7 w OR (ucast (c :: u8) AND 0x7f) :: u32) n \<longleftrightarrow>
    n < 32 \<and> (if n < 7 then bit c n else bit w (n - 7))"
  by (auto simp: bit_simps mask_bits)

lemma bit_vlq_byte: "n < 7 \<Longrightarrow> bit (vlq_byte k v) n = bit v (n + k)"
  by (auto simp: vlq_byte_def bit_simps mask_bits add.commute)

lemma bit_vlq_last: "n < 7 \<Longrightarrow> bit (vlq_last v) n = bit v n"
  by (auto simp: vlq_last_def bit_simps mask_bits)

lemma vlq_byte_more: "vlq_byte k v AND 0x80 \<noteq> 0"
  by (simp add: and_0x80_iff vlq_byte_def bit_simps mask_bits)

lemma vlq_top_more: "ucast (drop_bit 28 v OR 0x80 :: u32) AND (0x80 :: u8) \<noteq> 0"
  by (simp add: and_0x80_iff bit_simps mask_bits)

lemma vlq_last_stop: "vlq_last v AND 0x80 = 0"
  by (simp add: and_0x80_iff vlq_last_def bit_simps mask_bits)

lemma agrees_step:
  "agrees (k + 7) v w \<Longrightarrow> agrees k v (push_bit 7 w OR (ucast (vlq_byte k v) AND 0x7f))"
  by (auto simp: agrees_def bit_group bit_vlq_byte)

lemma agrees_last:
  "agrees 7 v w \<Longrightarrow> push_bit 7 w OR (ucast (vlq_last v) AND 0x7f) = v"
  by (rule agrees_0) (auto simp: agrees_def bit_group bit_vlq_last)

text \<open>Reading one group, and the run of groups below the first byte.\<close>

lemma parse_group:
  assumes "c AND 0x80 \<noteq> 0"
  shows "parse_loop (xs @ b # ys) (length xs) c w =
    parse_loop (xs @ b # ys) (Suc (length xs)) b (push_bit 7 w OR (ucast b AND 0x7f))"
  using assms by (subst parse_loop.simps) simp

fun vlq_groups :: "nat \<Rightarrow> u32 \<Rightarrow> u8 list" where
  "vlq_groups 0 v = [vlq_last v]"
| "vlq_groups (Suc k) v = vlq_byte (7 * Suc k) v # vlq_groups k v"

lemma parse_groups:
  assumes "c AND 0x80 \<noteq> 0" "agrees (7 * Suc k) v w"
  shows "parse_loop (xs @ vlq_groups k v @ ys) (length xs) c w
    = Some (v, length xs + length (vlq_groups k v))"
  using assms
proof (induction k arbitrary: xs c w)
  case 0
  then show ?case
    using parse_group [OF 0(1), of xs "vlq_last v" ys w] agrees_last [of v w]
    by (simp add: parse_loop.simps [of _ "Suc _"] vlq_last_stop)
next
  case (Suc k)
  let ?b = "vlq_byte (7 * Suc k) v"
  let ?w = "push_bit 7 w OR (ucast ?b AND 0x7f)"
  have "agrees (7 * Suc k) v ?w" using Suc.prems(2) by (intro agrees_step) (simp add: add.commute)
  from Suc.IH [OF vlq_byte_more this, of "xs @ [?b]" "7 * Suc k" v]
  show ?case
    using parse_group [OF Suc.prems(1), of xs ?b "vlq_groups k v @ ys" w] by simp
qed

text \<open>The first byte carries the sign when the value fits its length.\<close>

lemma range_bits:
  assumes "- (2 ^ K) \<le> sint (v :: u32)" "sint v < 3 * 2 ^ K" "K + 2 \<le> n" "n < 32"
  shows "bit v n = (bit v K \<and> bit v (Suc K))"
proof -
  let ?x = "sint v div 2 ^ K"
  have b: "bit v m = bit ?x (m - K)" if "K \<le> m" "m < 32" for m
  proof -
    have "bit v m = bit (sint v) m" using that by (simp add: bit_sint_iff)
    also have "\<dots> = bit (drop_bit K (sint v)) (m - K)" using that by (simp add: bit_drop_bit_eq)
    finally show ?thesis by (simp add: drop_bit_eq_div)
  qed
  have "- 1 \<le> ?x"
  proof -
    have "(- 1 * 2 ^ K) div 2 ^ K \<le> ?x" using assms(1) by (intro zdiv_mono1) simp_all
    moreover have "(- 1 * 2 ^ K) div 2 ^ K = (- 1 :: int)" by (rule nonzero_mult_div_cancel_right) simp
    ultimately show ?thesis by linarith
  qed
  moreover have "?x < 3"
  proof -
    have "?x \<le> (3 * 2 ^ K - 1) div 2 ^ K" using assms(2) by (intro zdiv_mono1) simp_all
    also have "\<dots> = (- 1 + 3 * 2 ^ K) div 2 ^ K" by simp
    also have "\<dots> = 3 + (- 1) div 2 ^ K" by (rule div_mult_self1) simp
    also have "\<dots> < 3" using div_neg_pos_less0 [of "- 1" "2 ^ K"] by simp
    finally show ?thesis .
  qed
  ultimately have "?x \<in> {-1, 0, 1, 2}" by auto
  moreover have m: "n - K = Suc (Suc (n - K - 2))" using assms(3) by simp
  ultimately show ?thesis
    using b [of n] b [of K] b [of "Suc K"] assms(3,4)
    by (subst (asm) m) (auto simp: bit_0 bit_Suc)
qed

lemma and_60_bits: "(c :: u8) AND 0x60 = 0x60 \<longleftrightarrow> bit c 5 \<and> bit c 6"
proof
  assume a: "c AND 0x60 = 0x60"
  have "bit (0x60 :: u8) 5" "bit (0x60 :: u8) 6" by (simp_all add: bit_numeral_rec)
  with a show "bit c 5 \<and> bit c 6" by (metis bit_and_iff)
next
  assume a: "bit c 5 \<and> bit c 6"
  show "c AND 0x60 = 0x60"
  proof (rule bit_word_eqI)
    fix n assume "n < LENGTH(8)"
    then have "n \<in> {0,1,2,3,4,5,6,7}" by auto
    then show "bit (c AND 0x60) n = bit (0x60 :: u8) n"
      using a by (auto simp: bit_and_iff bit_numeral_rec)
  qed
qed

lemma bit_parse_first:
  "n < 32 \<Longrightarrow> bit (parse_first c) n =
    (if n < 7 then bit c n \<or> (bit c 5 \<and> bit c 6 \<and> 5 \<le> n) else bit c 5 \<and> bit c 6)"
  by (auto simp: parse_first_def Let_def and_60_bits bit_simps mask_bits)

lemma agrees_first:
  assumes "- (2 ^ (k + 5)) \<le> sint v" "sint v < 3 * 2 ^ (k + 5)"
  shows "agrees k v (parse_first (vlq_byte k v))"
  unfolding agrees_def
proof (intro allI impI)
  fix n assume n: "n + k < 32"
  show "bit (parse_first (vlq_byte k v)) n = bit v (n + k)"
  proof (cases "n < 7")
    case True
    then have "n < 5 \<or> n = 5 \<or> n = 6" by auto
    then show ?thesis using n by (auto simp: bit_parse_first bit_vlq_byte)
  next
    case False
    then show ?thesis
      using n range_bits [OF assms, of "n + k"] by (simp add: bit_parse_first bit_vlq_byte add.commute)
  qed
qed

lemma parse_first_last:
  assumes "- (2 ^ 5) \<le> sint v" "sint v < 3 * 2 ^ 5"
  shows "parse_first (vlq_last v) = v"
proof -
  have "agrees 0 v (parse_first (vlq_last v))"
    unfolding agrees_def
  proof (intro allI impI)
    fix n :: nat assume n: "n + 0 < 32"
    show "bit (parse_first (vlq_last v)) n = bit v (n + 0)"
    proof (cases "n < 7")
      case True
      then have "n < 5 \<or> n = 5 \<or> n = 6" by auto
      then show ?thesis by (auto simp: bit_parse_first bit_vlq_last)
    next
      case False
      then show ?thesis
        using n range_bits [OF assms, of n] by (simp add: bit_parse_first bit_vlq_last)
    qed
  qed
  then show ?thesis by (rule agrees_0)
qed

lemma agrees_top: "agrees 28 v (parse_first (ucast (drop_bit 28 v OR 0x80 :: u32)))"
proof -
  have b: "n < 7 \<Longrightarrow> bit (ucast (drop_bit 28 v OR 0x80 :: u32) :: u8) n = (bit v (n + 28))" for n
    by (auto simp: bit_simps mask_bits add.commute)
  have "\<not> bit v 33" by (auto dest: bit_imp_le_length)
  then show ?thesis
    by (auto simp: agrees_def bit_parse_first b)
qed

lemma encode_groups:
  "encode_int v =
     (let sv = sint v
      in if sv < 3 * 2 ^ 5 \<and> sv \<ge> - (2 ^ 5) then [vlq_last v]
         else if sv < 3 * 2 ^ 12 \<and> sv \<ge> - (2 ^ 12) then vlq_byte 7 v # vlq_groups 0 v
         else if sv < 3 * 2 ^ 19 \<and> sv \<ge> - (2 ^ 19) then vlq_byte 14 v # vlq_groups 1 v
         else if sv < 3 * 2 ^ 26 \<and> sv \<ge> - (2 ^ 26) then vlq_byte 21 v # vlq_groups 2 v
         else ucast (drop_bit 28 v OR 0x80) # vlq_groups 3 v)"
  by (simp add: encode_int_def Let_def numeral_eq_Suc)

lemma parse_first_groups:
  assumes "b AND 0x80 \<noteq> 0" "agrees (7 * Suc k) v (parse_first b)"
  shows "parse_int (xs @ (b # vlq_groups k v) @ ys) (length xs)
    = Some (v, length xs + length (b # vlq_groups k v))"
  using parse_groups [OF assms, of "xs @ [b]" ys] by (simp add: parse_int_def)

lemma parse_encode:
  "parse_int (xs @ encode_int v @ ys) (length xs) = Some (v, length xs + length (encode_int v))"
proof -
  let ?in = "\<lambda>k. sint v < 3 * 2 ^ (k + 5) \<and> sint v \<ge> - (2 ^ (k + 5))"
  consider "?in 0" | "\<not> ?in 0" "?in 7" | "\<not> ?in 0" "\<not> ?in 7" "?in 14"
    | "\<not> ?in 0" "\<not> ?in 7" "\<not> ?in 14" "?in 21"
    | "\<not> ?in 0" "\<not> ?in 7" "\<not> ?in 14" "\<not> ?in 21" by blast
  then show ?thesis
  proof cases
    case 1
    then have "encode_int v = [vlq_last v]" by (simp add: encode_groups Let_def)
    then show ?thesis
      using 1 parse_first_last [of v] by (simp add: parse_int_def parse_loop.simps vlq_last_stop)
  next
    case 2
    then have "encode_int v = vlq_byte 7 v # vlq_groups 0 v" by (auto simp: encode_groups Let_def)
    then show ?thesis
      using 2 parse_first_groups [OF vlq_byte_more, of 0 v 7 v xs ys] agrees_first [of 7 v] by simp
  next
    case 3
    then have "encode_int v = vlq_byte 14 v # vlq_groups 1 v" by (auto simp: encode_groups Let_def)
    then show ?thesis
      using 3 parse_first_groups [OF vlq_byte_more, of 1 v 14 v xs ys] agrees_first [of 14 v] by simp
  next
    case 4
    then have "encode_int v = vlq_byte 21 v # vlq_groups 2 v" by (auto simp: encode_groups Let_def)
    then show ?thesis
      using 4 parse_first_groups [OF vlq_byte_more, of 2 v 21 v xs ys] agrees_first [of 21 v] by simp
  next
    case 5
    then have "encode_int v = ucast (drop_bit 28 v OR 0x80) # vlq_groups 3 v"
      by (auto simp: encode_groups Let_def)
    then show ?thesis
      using parse_first_groups [OF vlq_top_more, of 3 v v xs ys] agrees_top [of v] by simp
  qed
qed

end
