(* ===== verification/Command.thy ===== *)
theory Command
  imports Crc Vlq
begin

text \<open>
  Message parsing, encoding and dispatch of the firmware: \<open>klipper/src/command.c\<close> and the
  types of \<open>klipper/src/command.h\<close>. A receive buffer is the list of the bytes received so far
  and pointers into it are indices; a read past its end, a write past the end of a destination
  or a mismatched variadic argument is \<open>Fault\<close>. The transport's \<open>console_sendf\<close>, the
  shutdown test and report of the scheduler and the command handlers are parameters.
\<close>

section \<open>Message format\<close>

definition MESSAGE_MIN :: nat where "MESSAGE_MIN = 5"
definition MESSAGE_MAX :: nat where "MESSAGE_MAX = 64"
definition MESSAGE_HEADER_SIZE :: nat where "MESSAGE_HEADER_SIZE = 2"
definition MESSAGE_TRAILER_SIZE :: nat where "MESSAGE_TRAILER_SIZE = 3"
definition MESSAGE_SEQ_MASK :: u8 where "MESSAGE_SEQ_MASK = 0x0f"
definition MESSAGE_DEST :: u8 where "MESSAGE_DEST = 0x10"
definition MESSAGE_SYNC :: u8 where "MESSAGE_SYNC = 0x7E"

lemmas message_consts = MESSAGE_MIN_def MESSAGE_MAX_def MESSAGE_HEADER_SIZE_def
  MESSAGE_TRAILER_SIZE_def MESSAGE_SEQ_MASK_def MESSAGE_DEST_def MESSAGE_SYNC_def

datatype param_type = PT_uint32 | PT_int32 | PT_uint16 | PT_int16 | PT_byte
  | PT_string | PT_progmem_buffer | PT_buffer

fun is_int_pt :: "param_type \<Rightarrow> bool" where
  "is_int_pt PT_string = False"
| "is_int_pt PT_progmem_buffer = False"
| "is_int_pt PT_buffer = False"
| "is_int_pt _ = True"

record command_encoder =
  ce_msg_id :: u8
  ce_max_size :: nat
  ce_param_types :: "param_type list"

record 'f command_parser =
  cp_msg_id :: u8
  cp_num_args :: nat
  cp_in_shutdown :: bool
  cp_param_types :: "param_type list"
  cp_func :: 'f

text \<open>The static variables of \<open>command.c\<close>; a transport extends this record.\<close>

record cmd_state =
  next_sequence :: u8
  in_sendf :: bool
  sync_need_sync :: bool
  sync_need_valid :: bool

definition cmd_init :: cmd_state where
  "cmd_init = \<lparr>next_sequence = MESSAGE_DEST, in_sendf = False,
     sync_need_sync = False, sync_need_valid = False\<rparr>"

section \<open>Pointers in messages\<close>

text \<open>
  \<open>wide\<close>: pointers are larger than 32 bits, and \<open>rb\<close> is the address of the console receive
  buffer; an address is a natural number.
\<close>

definition command_encode_ptr :: "bool \<Rightarrow> nat \<Rightarrow> nat \<Rightarrow> u32" where
  "command_encode_ptr wide rb p = (if wide then of_nat (p - rb) else of_nat p)"

definition command_decode_ptr :: "bool \<Rightarrow> nat \<Rightarrow> u32 \<Rightarrow> nat" where
  "command_decode_ptr wide rb v = (if wide then rb + unat v else unat v)"

section \<open>Parsing a command\<close>

text \<open>
  The \<open>while (num_params--)\<close> loop of \<open>command_parsef\<close>: \<open>args\<close> holds the arguments stored so
  far, of which the caller's array has room for \<open>num_args\<close>; \<open>enc\<close> is \<open>command_encode_ptr\<close>
  on an index of the buffer.
\<close>

fun parsef_loop :: "(nat \<Rightarrow> u32) \<Rightarrow> u8 list \<Rightarrow> nat \<Rightarrow> nat \<Rightarrow> nat \<Rightarrow> param_type list \<Rightarrow> u32 list
    \<Rightarrow> 's \<Rightarrow> ('s, nat \<times> u32 list) res" where
  "parsef_loop enc buf maxend num_args p [] args s = Ret (p, args) s"
| "parsef_loop enc buf maxend num_args p (t # ts) args s =
     (if p > maxend then Shut ''Command parser error'' s
      else if is_int_pt t then
        (case parse_int buf p of
           None \<Rightarrow> Fault
         | Some (v, p') \<Rightarrow>
             if length args < num_args
             then parsef_loop enc buf maxend num_args p' ts (args @ [v]) s else Fault)
      else if t = PT_buffer then
        (if p < length buf then
           (let len = unat (buf ! p); p1 = Suc p
            in if p1 + len > maxend then Shut ''Command parser error'' s
               else if Suc (length args) < num_args
               then parsef_loop enc buf maxend num_args (p1 + len) ts
                      (args @ [of_nat len, enc p1]) s
               else Fault)
         else Fault)
      else Shut ''Command parser error'' s)"

definition command_parsef :: "(nat \<Rightarrow> u32) \<Rightarrow> u8 list \<Rightarrow> nat \<Rightarrow> nat \<Rightarrow> 'f command_parser
    \<Rightarrow> 's \<Rightarrow> ('s, nat \<times> u32 list) res" where
  "command_parsef enc buf p maxend cp s =
     parsef_loop enc buf maxend (cp_num_args cp) p (cp_param_types cp) [] s"

section \<open>Encoding a message\<close>

text \<open>A variadic argument: an integer as passed, or the memory a pointer argument points to.\<close>

datatype varg = VInt u32 | VPtr "u8 list"

text \<open>\<open>int16\<close>: \<open>int\<close> has 16 bits (AVR), so that small parameters are passed as 16-bit values.\<close>

definition va_int :: "bool \<Rightarrow> param_type \<Rightarrow> u32 \<Rightarrow> u32" where
  "va_int int16 t w =
     (if int16 \<and> t \<in> {PT_uint16, PT_int16, PT_byte}
      then (if t = PT_int16 then scast (ucast w :: u16) else ucast (ucast w :: u16))
      else w)"

text \<open>
  The parameter loop of \<open>command_encodef\<close>. \<open>out\<close> holds the bytes written from
  \<open>&buf[MESSAGE_HEADER_SIZE]\<close> on; \<open>room\<close> is \<open>maxend\<close> as an offset from there.
\<close>

fun encodef_loop :: "bool \<Rightarrow> nat \<Rightarrow> param_type list \<Rightarrow> varg list \<Rightarrow> u8 list \<Rightarrow> 's
    \<Rightarrow> ('s, u8 list) res" where
  "encodef_loop int16 room [] args out s = Ret out s"
| "encodef_loop int16 room (t # ts) args out s =
     (if length out > room then Shut ''Message encode error'' s
      else if is_int_pt t then
        (case args of
           VInt w # rest \<Rightarrow> encodef_loop int16 room ts rest (out @ encode_int (va_int int16 t w)) s
         | _ \<Rightarrow> Fault)
      else if t = PT_string then
        (case args of
           VPtr mem # rest \<Rightarrow>
             (let str = take (room - Suc (length out)) (takeWhile (\<lambda>c. c \<noteq> 0) mem)
              in encodef_loop int16 room ts rest (out @ [of_nat (length str)] @ str) s)
         | _ \<Rightarrow> Fault)
      else
        (case args of
           VInt w # VPtr mem # rest \<Rightarrow>
             (let v = min (unat w) (room - length out)
              in if length mem < v then Fault
                 else encodef_loop int16 room ts rest (out @ [of_nat v] @ take v mem) s)
         | _ \<Rightarrow> Fault))"

text \<open>The value returned is the message length and the payload written after the header.\<close>

definition command_encodef :: "bool \<Rightarrow> command_encoder \<Rightarrow> varg list \<Rightarrow> 's
    \<Rightarrow> ('s, nat \<times> u8 list) res" where
  "command_encodef int16 ce args s =
     (if ce_max_size ce \<le> MESSAGE_MIN then Ret (ce_max_size ce, []) s
      else bnd (encodef_loop int16 (ce_max_size ce - MESSAGE_MIN) (ce_param_types ce) args
                  [ce_msg_id ce] s)
             (\<lambda>out. Ret (MESSAGE_HEADER_SIZE + length out + MESSAGE_TRAILER_SIZE, out)))"

text \<open>
  \<open>command_add_frame\<close> on the memory from \<open>buf\<close> on; \<open>None\<close> when it would write outside it.
\<close>

definition command_add_frame :: "u8 \<Rightarrow> u8 list \<Rightarrow> nat \<Rightarrow> u8 list option" where
  "command_add_frame seq buf msglen =
     (if msglen < MESSAGE_TRAILER_SIZE \<or> length buf < 2 \<or> length buf < msglen then None
      else
        (let buf1 = buf[0 := of_nat msglen];
             buf2 = buf1[1 := seq];
             crc = crc16_ccitt buf2 (msglen - MESSAGE_TRAILER_SIZE);
             buf3 = buf2[msglen - 3 + 0 := ucast (drop_bit 8 crc)];
             buf4 = buf3[msglen - 3 + 1 := ucast crc]
         in Some (buf4[msglen - 1 := MESSAGE_SYNC])))"

text \<open>
  \<open>command_encode_and_frame\<close> on the memory \<open>buf\<close> it is given; the new memory and the message
  length are returned.
\<close>

definition command_encode_and_frame ::
    "bool \<Rightarrow> u8 list \<Rightarrow> command_encoder \<Rightarrow> varg list \<Rightarrow> 'a cmd_state_scheme
      \<Rightarrow> ('a cmd_state_scheme, nat \<times> u8 list) res" where
  "command_encode_and_frame int16 buf ce args s =
     bnd (command_encodef int16 ce args s)
       (\<lambda>(msglen, out) s.
          if length buf < MESSAGE_HEADER_SIZE + length out then Fault
          else case command_add_frame (next_sequence s) (blit buf MESSAGE_HEADER_SIZE out) msglen of
                 None \<Rightarrow> Fault
               | Some b \<Rightarrow> Ret (msglen, b) s)"

section \<open>Sending\<close>

type_synonym 's console = "command_encoder \<Rightarrow> varg list \<Rightarrow> 's \<Rightarrow> ('s, unit) res"

definition encode_acknak :: command_encoder where
  "encode_acknak = \<lparr>ce_msg_id = 0, ce_max_size = MESSAGE_MIN, ce_param_types = []\<rparr>"

definition command_sendf :: "'a cmd_state_scheme console \<Rightarrow> 'a cmd_state_scheme console" where
  "command_sendf console_sendf ce args s =
     (if in_sendf s then Ret () s
      else andthen (console_sendf ce args (s\<lparr>in_sendf := True\<rparr>))
             (\<lambda>s. Ret () (s\<lparr>in_sendf := False\<rparr>)))"

definition sendf_shutdown :: "'a cmd_state_scheme \<Rightarrow> 'a cmd_state_scheme" where
  "sendf_shutdown s = s\<lparr>in_sendf := False\<rparr>"

definition command_send_ack ::
    "'a cmd_state_scheme console \<Rightarrow> 'a cmd_state_scheme \<Rightarrow> ('a cmd_state_scheme, unit) res" where
  "command_send_ack console_sendf s = command_sendf console_sendf encode_acknak [] s"

section \<open>Routing\<close>

text \<open>\<open>index\<close> is the generated table \<open>command_index\<close>.\<close>

definition command_lookup_parser :: "'f command_parser list \<Rightarrow> nat \<Rightarrow> 's \<Rightarrow> ('s, 'f command_parser) res" where
  "command_lookup_parser index cmdid s =
     (if cmdid = 0 \<or> cmdid \<ge> length index then Shut ''Invalid command'' s
      else Ret (index ! cmdid) s)"

text \<open>\<open>memchr\<close> for the synchronisation byte.\<close>

fun find_sync :: "u8 list \<Rightarrow> nat option" where
  "find_sync [] = None"
| "find_sync (b # bs) = (if b = MESSAGE_SYNC then Some 0 else map_option Suc (find_sync bs))"

text \<open>The checks that decide whether a message block starts the buffer.\<close>

datatype block_status = NeedMore | BadBlock | Block nat

definition check_block :: "u8 list \<Rightarrow> block_status" where
  "check_block buf =
     (if length buf < MESSAGE_MIN then NeedMore
      else
        (let msglen = unat (buf ! 0)
         in if msglen < MESSAGE_MIN \<or> msglen > MESSAGE_MAX then BadBlock
            else
              (let msgseq = buf ! 1
               in if msgseq AND NOT MESSAGE_SEQ_MASK \<noteq> MESSAGE_DEST then BadBlock
                  else if length buf < msglen then NeedMore
                  else if buf ! (msglen - 1) \<noteq> MESSAGE_SYNC then BadBlock
                  else
                    (let msgcrc = push_bit 8 (ucast (buf ! (msglen - 3))) OR ucast (buf ! (msglen - 3 + 1));
                         crc = crc16_ccitt buf (msglen - MESSAGE_TRAILER_SIZE)
                     in if crc \<noteq> msgcrc then BadBlock else Block msglen))))"

text \<open>The exits of \<open>command_find_block\<close>: the label \<open>nak\<close> and the label \<open>need_sync\<close>.\<close>

definition find_nak :: "'a cmd_state_scheme console \<Rightarrow> nat \<Rightarrow> 'a cmd_state_scheme
    \<Rightarrow> ('a cmd_state_scheme, int \<times> nat) res" where
  "find_nak console_sendf pop s =
     andthen (command_sendf console_sendf encode_acknak [] s) (\<lambda>s. Ret (-1, pop) s)"

definition find_need_sync :: "'a cmd_state_scheme console \<Rightarrow> u8 list \<Rightarrow> 'a cmd_state_scheme
    \<Rightarrow> ('a cmd_state_scheme, int \<times> nat) res" where
  "find_need_sync console_sendf buf s =
     (let (pop, s1) =
        (case find_sync buf of
           Some i \<Rightarrow> (Suc i, s\<lparr>sync_need_sync := False\<rparr>)
         | None \<Rightarrow> (length buf, s))
      in if sync_need_valid s1 then Ret (-1, pop) s1
         else find_nak console_sendf pop (s1\<lparr>sync_need_valid := True\<rparr>))"

text \<open>\<open>buf\<close> holds exactly the \<open>buf_len\<close> bytes received; the value is the pair of the C
  return value and \<open>*pop_count\<close>.\<close>

definition command_find_block :: "'a cmd_state_scheme console \<Rightarrow> u8 list \<Rightarrow> 'a cmd_state_scheme
    \<Rightarrow> ('a cmd_state_scheme, int \<times> nat) res" where
  "command_find_block console_sendf buf s =
     (if buf \<noteq> [] \<and> sync_need_sync s then find_need_sync console_sendf buf s
      else
        (case check_block buf of
           NeedMore \<Rightarrow> Ret (0, 0) s
         | BadBlock \<Rightarrow>
             if buf ! 0 = MESSAGE_SYNC then Ret (-1, 1) s
             else find_need_sync console_sendf buf (s\<lparr>sync_need_sync := True\<rparr>)
         | Block msglen \<Rightarrow>
             (let s1 = s\<lparr>sync_need_valid := False\<rparr>; msgseq = buf ! 1
              in if msgseq \<noteq> next_sequence s1 then find_nak console_sendf msglen s1
                 else Ret (1, msglen)
                        (s1\<lparr>next_sequence := ((msgseq + 1) AND MESSAGE_SEQ_MASK) OR MESSAGE_DEST\<rparr>))))"

text \<open>
  What \<open>command_dispatch\<close> uses besides the buffer: the command table, the scheduler's shutdown
  state and report, the handlers, and the receive buffer's place in memory.
\<close>

record ('f, 's) dispatch_env =
  de_index :: "'f command_parser list"
  de_is_shutdown :: "'s \<Rightarrow> bool"
  de_report :: "'s \<Rightarrow> ('s, unit) res"
  de_call :: "'f \<Rightarrow> u32 list \<Rightarrow> 's \<Rightarrow> ('s, unit) res"
  de_ptr :: "nat \<Rightarrow> u32"

text \<open>The \<open>while (p < msgend)\<close> loop; every round reads at least the command id, so the
  number of bytes is enough fuel.\<close>

fun dispatch_loop :: "('f, 's) dispatch_env \<Rightarrow> u8 list \<Rightarrow> nat \<Rightarrow> nat \<Rightarrow> nat \<Rightarrow> 's \<Rightarrow> ('s, unit) res" where
  "dispatch_loop e buf msgend 0 p s = (if p < msgend then Fault else Ret () s)"
| "dispatch_loop e buf msgend (Suc fuel) p s =
     (if p < msgend then
        (if p < length buf then
           bnd (command_lookup_parser (de_index e) (unat (buf ! p)) s)
             (\<lambda>cp s. bnd (command_parsef (de_ptr e) buf (Suc p) msgend cp s)
               (\<lambda>(p', args) s.
                  if de_is_shutdown e s \<and> \<not> cp_in_shutdown cp
                  then andthen (de_report e s) (dispatch_loop e buf msgend fuel p')
                  else andthen (de_call e (cp_func cp) args s) (dispatch_loop e buf msgend fuel p')))
         else Fault)
      else Ret () s)"

definition command_dispatch :: "('f, 's) dispatch_env \<Rightarrow> u8 list \<Rightarrow> nat \<Rightarrow> 's \<Rightarrow> ('s, unit) res" where
  "command_dispatch e buf msglen s =
     dispatch_loop e buf (msglen - MESSAGE_TRAILER_SIZE) msglen MESSAGE_HEADER_SIZE s"

definition command_find_and_dispatch :: "'a cmd_state_scheme console \<Rightarrow> ('f, 'a cmd_state_scheme) dispatch_env
    \<Rightarrow> u8 list \<Rightarrow> 'a cmd_state_scheme \<Rightarrow> ('a cmd_state_scheme, int \<times> nat) res" where
  "command_find_and_dispatch console_sendf e buf s =
     bnd (command_find_block console_sendf buf s)
       (\<lambda>(ret, pop) s.
          if ret > 0
          then andthen (command_dispatch e buf pop s)
                 (\<lambda>s. andthen (command_send_ack console_sendf s) (Ret (ret, pop)))
          else Ret (ret, pop) s)"

end
