(* ===== verification/Msgblock.thy ===== *)
theory Msgblock
  imports Command
begin

text \<open>
  The host's side of the wire protocol: \<open>klipper/klippy/chelper/msgblock.c\<close>. Checking a
  receive buffer for a message block, decoding and encoding lists of integers, queue messages
  and the extension of 32-bit clocks to 64 bits. The conversions of clocks to floating point
  times are not modelled.
\<close>

section \<open>Definitions\<close>

text \<open>
  \<open>struct queue_message\<close>; of the union, the members used on a command queue.
\<close>

record queue_message =
  qm_len :: nat
  qm_msg :: "u8 list"
  min_clock :: u64
  req_clock :: u64
  notify_id :: u64

definition MESSAGE_PAYLOAD_MAX :: nat where "MESSAGE_PAYLOAD_MAX = MESSAGE_MAX - MESSAGE_MIN"

text \<open>The label \<open>error\<close> of \<open>msgblock_check\<close>: the return value and the new \<open>*need_sync\<close>.\<close>

definition msgblock_error :: "u8 list \<Rightarrow> int \<times> bool" where
  "msgblock_error buf =
     (case find_sync buf of
        Some next_sync \<Rightarrow> (- (int next_sync + 1), False)
      | None \<Rightarrow> (- int (length buf), True))"

definition msgblock_check :: "bool \<Rightarrow> u8 list \<Rightarrow> int \<times> bool" where
  "msgblock_check need_sync buf =
     (if length buf < MESSAGE_MIN then (0, need_sync)
      else if need_sync then msgblock_error buf
      else
        (let msglen = unat (buf ! 0)
         in if msglen < MESSAGE_MIN \<or> msglen > MESSAGE_MAX then msgblock_error buf
            else
              (let msgseq = buf ! 1
               in if msgseq AND NOT MESSAGE_SEQ_MASK \<noteq> MESSAGE_DEST then msgblock_error buf
                  else if length buf < msglen then (0, need_sync)
                  else if buf ! (msglen - 1) \<noteq> MESSAGE_SYNC then msgblock_error buf
                  else
                    (let msgcrc = push_bit 8 (ucast (buf ! (msglen - 3))) OR ucast (buf ! (msglen - 3 + 1));
                         crc = msgblock_crc16_ccitt buf (msglen - MESSAGE_TRAILER_SIZE)
                     in if crc \<noteq> msgcrc then msgblock_error buf else (int msglen, need_sync)))))"

text \<open>The loop of \<open>msgblock_decode\<close>: the return value and the integers stored; \<open>None\<close> is a
  read outside the message memory.\<close>

fun decode_loop :: "u8 list \<Rightarrow> nat \<Rightarrow> nat \<Rightarrow> nat \<Rightarrow> u32 list \<Rightarrow> (int \<times> u32 list) option" where
  "decode_loop msg end p 0 data = Some (if p \<noteq> end then -1 else 0, data)"
| "decode_loop msg end p (Suc n) data =
     (if p \<ge> end then Some (-1, data)
      else case host_parse_int msg p of
             None \<Rightarrow> None
           | Some (v, p') \<Rightarrow> decode_loop msg end p' n (data @ [v]))"

definition msgblock_decode :: "nat \<Rightarrow> u8 list \<Rightarrow> nat \<Rightarrow> (int \<times> u32 list) option" where
  "msgblock_decode data_len msg msg_len =
     decode_loop msg (msg_len - MESSAGE_TRAILER_SIZE) MESSAGE_HEADER_SIZE data_len []"

definition message_alloc :: queue_message where
  "message_alloc = \<lparr>qm_len = 0, qm_msg = replicate MESSAGE_MAX 0,
     min_clock = 0, req_clock = 0, notify_id = 0\<rparr>"

definition message_fill :: "u8 list \<Rightarrow> queue_message option" where
  "message_fill data =
     (if length data > MESSAGE_MAX then None
      else Some (message_alloc\<lparr>qm_msg := blit (qm_msg message_alloc) 0 data, qm_len := length data\<rparr>))"

text \<open>
  The loop of \<open>message_alloc_and_encode\<close>: \<open>None\<close> when \<open>encode_int\<close> would write past \<open>msg\<close>;
  \<open>len = 0\<close> after an encode error.
\<close>

fun encode_loop :: "u32 list \<Rightarrow> nat \<Rightarrow> u8 list \<Rightarrow> (nat \<times> u8 list) option" where
  "encode_loop [] p msg = Some (p, msg)"
| "encode_loop (v # vs) p msg =
     (let e = host_encode_int v; p' = p + length e
      in if p' > length msg then None
         else if p' > MESSAGE_PAYLOAD_MAX then Some (0, blit msg p e)
         else encode_loop vs p' (blit msg p e))"

definition message_alloc_and_encode :: "u32 list \<Rightarrow> queue_message option" where
  "message_alloc_and_encode data =
     (case encode_loop data 0 (qm_msg message_alloc) of
        None \<Rightarrow> None
      | Some (len, msg) \<Rightarrow> Some (message_alloc\<lparr>qm_len := len, qm_msg := msg\<rparr>))"

fun message_queue_free :: "queue_message list \<Rightarrow> queue_message list" where
  "message_queue_free [] = []"
| "message_queue_free (qm # root) = message_queue_free root"

text \<open>\<open>last_clock\<close> of the clock estimate, extended by the low 32 bits of a newer clock.\<close>

definition clock_from_clock32 :: "u64 \<Rightarrow> u32 \<Rightarrow> u64" where
  "clock_from_clock32 last_clock clock32 =
     last_clock + scast (ucast (ucast clock32 - last_clock) :: u32)"

section \<open>Encoding queue messages\<close>

lemma encode_loop_ok:
  assumes "p \<le> MESSAGE_PAYLOAD_MAX" "length msg = MESSAGE_MAX"
  shows "\<exists>q m. encode_loop vs p msg = Some (q, m) \<and> length m = MESSAGE_MAX \<and> q \<le> MESSAGE_PAYLOAD_MAX"
  using assms
proof (induction vs arbitrary: p msg)
  case (Cons v vs)
  have "length (host_encode_int v) \<le> 5" using encode_int_length by (simp add: host_vlq_eq)
  then show ?case
    using Cons by (auto simp: Let_def message_consts MESSAGE_PAYLOAD_MAX_def)
qed simp

lemma encode_loop_bytes:
  assumes "encode_loop vs p msg = Some (q, m)" "p + length (concat (map encode_int vs)) \<le> MESSAGE_PAYLOAD_MAX"
    "length msg = MESSAGE_MAX"
  shows "q = p + length (concat (map encode_int vs)) \<and> take q m = take p msg @ concat (map encode_int vs)"
  using assms
proof (induction vs arbitrary: p msg)
  case (Cons v vs)
  let ?e = "encode_int v"
  have "p + length ?e \<le> MESSAGE_PAYLOAD_MAX" using Cons.prems(2) by simp
  then have fits: "p + length ?e \<le> length msg" "p + length ?e \<le> MESSAGE_PAYLOAD_MAX"
    using Cons.prems(3) by (simp_all add: message_consts MESSAGE_PAYLOAD_MAX_def)
  then have "encode_loop vs (p + length ?e) (blit msg p ?e) = Some (q, m)"
    using Cons.prems(1) by (simp add: Let_def host_vlq_eq)
  then have ih: "q = p + length ?e + length (concat (map encode_int vs)) \<and>
      take q m = take (p + length ?e) (blit msg p ?e) @ concat (map encode_int vs)"
    by (rule Cons.IH) (use Cons.prems(2,3) fits in simp_all)
  note q = ih [THEN conjunct1] and t = ih [THEN conjunct2]
  show ?case
  proof
    show "q = p + length (concat (map encode_int (v # vs)))" using q by simp
    show "take q m = take p msg @ concat (map encode_int (v # vs))"
      using t fits(1) by (simp add: take_blit)
  qed
qed simp

text \<open>The decoder reads back a list of encoded integers.\<close>

lemma decode_loop_encoded:
  "decode_loop (xs @ concat (map encode_int vs) @ ys) (length xs + length (concat (map encode_int vs)))
      (length xs) (length vs) data = Some (0, data @ vs)"
proof (induction vs arbitrary: xs data)
  case (Cons v vs)
  have "host_parse_int (xs @ encode_int v @ concat (map encode_int vs) @ ys) (length xs)
      = Some (v, length xs + length (encode_int v))"
    unfolding host_vlq_eq by (rule parse_encode)
  moreover have "0 < length (encode_int v)" by simp
  ultimately show ?case
    using Cons.IH [of "xs @ encode_int v" "data @ [v]"] by (simp add: add.assoc)
qed simp

lemma decode_loop_no_oob:
  assumes "end \<le> k" "k < length msg" "msg ! k AND 0x80 = 0"
  shows "decode_loop msg end p n data \<noteq> None"
  using assms
proof (induction n arbitrary: p data)
  case (Suc n)
  show ?case
  proof (cases "p \<ge> end")
    case False
    then have "p \<le> k" using Suc.prems by simp
    from parse_int_stops [OF this Suc.prems(2,3)]
    obtain w q where "parse_int msg p = Some (w, q)" by metis
    then show ?thesis using False Suc by (simp add: host_vlq_eq)
  qed simp
qed simp

section \<open>Clock extension\<close>

text \<open>Truncation from 64 to 32 bits commutes with the arithmetic of the clocks.\<close>

lemma of_int_take_bit_64: "(of_int (take_bit 64 z) :: u32) = of_int z"
  by (rule bit_word_eqI) (simp add: bit_of_int_iff bit_take_bit_iff)

lemma ucast_u32_of_int: "(ucast (of_int z :: u64) :: u32) = of_int z"
  by (simp add: unsigned_of_int of_int_take_bit_64)

lemma ucast_u32_eq: "(ucast (w :: u64) :: u32) = of_int (uint w)"
  using ucast_u32_of_int [of "uint w"] by simp

lemma ucast_u32_diff: "(ucast (a - b :: u64) :: u32) = ucast a - ucast b"
proof -
  have "a - b = of_int (uint a - uint b)" by simp
  then have "(ucast (a - b) :: u32) = of_int (uint a - uint b)" by (simp only: ucast_u32_of_int)
  then show ?thesis by (simp only: ucast_u32_eq of_int_diff)
qed

lemma ucast_u32_add: "(ucast (a + b :: u64) :: u32) = ucast a + ucast b"
proof -
  have "a + b = of_int (uint a + uint b)" by simp
  then have "(ucast (a + b) :: u32) = of_int (uint a + uint b)" by (simp only: ucast_u32_of_int)
  then show ?thesis by (simp only: ucast_u32_eq of_int_add)
qed

lemma ucast_u32_up: "(ucast (ucast (w :: u32) :: u64) :: u32) = w"
  by (rule bit_word_eqI) (simp add: bit_simps)

lemma scast_of_int_u32:
  assumes "- (2 ^ 31) \<le> d" "d < 2 ^ 31"
  shows "(scast (of_int d :: u32) :: u64) = of_int d"
proof -
  have "sint (of_int d :: u32) = d"
    using assms by (simp add: signed_of_int signed_take_bit_int_eq_self)
  then show ?thesis by (metis of_int_sint)
qed

text \<open>
  The extended clock is the one 64-bit clock within half a 32-bit range of the last known
  clock that has the given low bits.
\<close>

lemma clock_from_clock32_exact:
  assumes "- (2 ^ 31) \<le> d" "d < 2 ^ 31"
  shows "clock_from_clock32 lc (ucast (lc + of_int d)) = lc + of_int d"
  using assms
  by (simp add: clock_from_clock32_def ucast_u32_diff ucast_u32_up ucast_u32_add
      ucast_u32_of_int scast_of_int_u32)

lemma clock_from_clock32_low: "ucast (clock_from_clock32 lc c) = c"
proof -
  have "(ucast (scast (w :: u32) :: u64) :: u32) = w" for w
    by (rule bit_word_eqI) (simp add: bit_simps)
  then show ?thesis
    by (simp add: clock_from_clock32_def ucast_u32_diff ucast_u32_up ucast_u32_add)
qed

end
