(* ===== verification/Framing.thy ===== *)
theory Framing
  imports Msgblock
begin

text \<open>
  Contracts and correctness of the message layer. The locale \<open>block_checker\<close> states what a
  receiver's block check promises (it accepts exactly the well-formed blocks) and derives that
  every framed message is accepted with its own length, whatever follows it, and that a block
  with any one byte after the length byte changed is not. It is interpreted on the firmware's
  \<open>command_find_block\<close> and on the host's \<open>msgblock_check\<close>. The rest shows that a receiver
  always makes progress, that retransmitted blocks are not executed again, and that parsing an
  accepted block never reads outside it.
\<close>

section \<open>Well-formed blocks\<close>

definition valid_block :: "u8 list \<Rightarrow> nat \<Rightarrow> bool" where
  "valid_block buf n \<longleftrightarrow>
     MESSAGE_MIN \<le> n \<and> n \<le> MESSAGE_MAX \<and> n \<le> length buf \<and> unat (buf ! 0) = n \<and>
     buf ! 1 AND NOT MESSAGE_SEQ_MASK = MESSAGE_DEST \<and>
     buf ! (n - 1) = MESSAGE_SYNC \<and>
     crc16_ccitt buf (n - MESSAGE_TRAILER_SIZE)
       = push_bit 8 (ucast (buf ! (n - 3))) OR ucast (buf ! (n - 2))"

text \<open>The bytes of a framed message with the given sequence byte and payload.\<close>

definition frame_head :: "u8 \<Rightarrow> u8 list \<Rightarrow> u8 list" where
  "frame_head seq payload = of_nat (length payload + 5) # seq # payload"

definition frame :: "u8 \<Rightarrow> u8 list \<Rightarrow> u8 list" where
  "frame seq payload =
     (let crc = crc_loop 0xffff (frame_head seq payload)
      in frame_head seq payload @ [ucast (drop_bit 8 crc), ucast crc, MESSAGE_SYNC])"

lemma length_frame [simp]: "length (frame seq payload) = length payload + 5"
  by (simp add: frame_def frame_head_def Let_def)

lemma u16_join: "push_bit 8 (ucast (ucast (drop_bit 8 c) :: u8)) OR ucast (ucast c :: u8) = (c :: u16)"
  by (rule bit_word_eqI) (auto simp: bit_simps)

lemma valid_frame:
  assumes "seq AND NOT MESSAGE_SEQ_MASK = MESSAGE_DEST" "length payload + 5 \<le> MESSAGE_MAX"
  shows "valid_block (frame seq payload @ rest) (length payload + 5)"
proof -
  let ?h = "frame_head seq payload"
  let ?c = "crc_loop 0xffff ?h"
  have len: "length ?h = length payload + 2" by (simp add: frame_head_def)
  have f: "frame seq payload @ rest = ?h @ [ucast (drop_bit 8 ?c), ucast ?c, MESSAGE_SYNC] @ rest"
    by (simp add: frame_def Let_def)
  have "crc16_ccitt (frame seq payload @ rest) (length payload + 2) = ?c"
    unfolding f by (rule crc16_all) (simp add: len)
  moreover have "unat (of_nat (length payload + 5) :: u8) = length payload + 5"
    by (rule unat_of_nat_small) (use assms(2) in \<open>simp add: message_consts\<close>)
  moreover have "(frame seq payload @ rest) ! (length payload + 2) = ucast (drop_bit 8 ?c)"
    "(frame seq payload @ rest) ! (3 + length payload) = ucast ?c"
    "(frame seq payload @ rest) ! (4 + length payload) = MESSAGE_SYNC"
    unfolding f by (simp_all add: nth_append len)
  moreover have "(frame seq payload @ rest) ! 0 = of_nat (length payload + 5)"
    "(frame seq payload @ rest) ! 1 = seq"
    by (simp_all add: f frame_head_def)
  ultimately show ?thesis
    using assms by (simp add: valid_block_def message_consts u16_join)
qed

lemma valid_block_unique: "valid_block buf n \<Longrightarrow> valid_block buf m \<Longrightarrow> n = m"
  by (simp add: valid_block_def)

lemma valid_block_take: "valid_block buf n \<Longrightarrow> valid_block (take n buf) n"
  by (simp add: valid_block_def message_consts crc16_ccitt_def min_def)

lemma u8_pair_inj:
  fixes a b c d :: u8
  assumes "push_bit 8 (ucast a) OR ucast b = (push_bit 8 (ucast c) OR ucast d :: u16)"
  shows "a = c \<and> b = d"
proof
  let ?x = "push_bit 8 (ucast a) OR ucast b :: u16" and ?y = "push_bit 8 (ucast c) OR ucast d :: u16"
  have hi: "(ucast (drop_bit 8 (push_bit 8 (ucast p) OR ucast q :: u16)) :: u8) = p" for p q :: u8
    by (rule bit_word_eqI) (auto simp: bit_simps dest: bit_imp_le_length)
  have lo: "(ucast (push_bit 8 (ucast p) OR ucast q :: u16) :: u8) = q" for p q :: u8
    by (rule bit_word_eqI) (auto simp: bit_simps)
  have "a = ucast (drop_bit 8 ?x)" by (rule hi [symmetric])
  also have "\<dots> = ucast (drop_bit 8 ?y)" by (simp only: assms)
  also have "\<dots> = c" by (rule hi)
  finally show "a = c" .
  have "b = ucast ?x" by (rule lo [symmetric])
  also have "\<dots> = ucast ?y" by (simp only: assms)
  also have "\<dots> = d" by (rule lo)
  finally show "b = d" .
qed

text \<open>Changing one byte of a valid block, other than its length byte, invalidates it.\<close>

lemma valid_block_one_byte:
  assumes v: "valid_block buf n" and i: "1 \<le> i" "i < n" and x: "x \<noteq> buf ! i"
  shows "\<not> valid_block (buf[i := x]) n"
proof
  assume w: "valid_block (buf[i := x]) n"
  have n: "5 \<le> n" "n \<le> length buf" using v by (simp_all add: valid_block_def message_consts)
  let ?b = "buf[i := x]"
  consider "i < n - 3" | "i = n - 3" | "i = n - 2" | "i = n - 1" using i by linarith
  then show False
  proof cases
    case 1
    let ?m = "n - 3"
    have t: "take ?m buf = take i buf @ buf ! i # take (?m - Suc i) (drop (Suc i) buf)"
    proof -
      have "i < length (take ?m buf)" using 1 n by simp
      from id_take_nth_drop [OF this] show ?thesis using 1 by (simp add: drop_take min_def)
    qed
    have "take ?m ?b = (take ?m buf)[i := x]" by (simp add: take_update_swap)
    also have "\<dots> = take i buf @ x # take (?m - Suc i) (drop (Suc i) buf)"
      using 1 n by (subst t) (simp add: list_update_append min_def)
    finally have "crc16_ccitt ?b ?m \<noteq> crc16_ccitt buf ?m"
      using crc_loop_one_byte [OF x] by (simp add: crc16_ccitt_def t)
    moreover have "?b ! (n - 3) = buf ! (n - 3)" "?b ! (n - 2) = buf ! (n - 2)" using 1 by auto
    ultimately show False
      using v w by (simp add: valid_block_def message_consts)
  next
    case 2
    have "crc16_ccitt ?b (n - 3) = crc16_ccitt buf (n - 3)" using 2 by (simp add: crc16_ccitt_def)
    then have "push_bit 8 (ucast (?b ! (n - 3))) OR ucast (?b ! (n - 2))
        = (push_bit 8 (ucast (buf ! (n - 3))) OR ucast (buf ! (n - 2)) :: u16)"
      using v w by (simp add: valid_block_def message_consts)
    then show False using u8_pair_inj x 2 n by fastforce
  next
    case 3
    have "crc16_ccitt ?b (n - 3) = crc16_ccitt buf (n - 3)" using 3 n by (simp add: crc16_ccitt_def)
    then have "push_bit 8 (ucast (?b ! (n - 3))) OR ucast (?b ! (n - 2))
        = (push_bit 8 (ucast (buf ! (n - 3))) OR ucast (buf ! (n - 2)) :: u16)"
      using v w by (simp add: valid_block_def message_consts)
    then show False using u8_pair_inj x 3 n by fastforce
  next
    case 4
    then show False using v w x n by (simp add: valid_block_def)
  qed
qed

section \<open>The contract of a block check\<close>

locale block_checker =
  fixes accepts :: "u8 list \<Rightarrow> nat option"
  assumes accepts_iff: "accepts buf = Some n \<longleftrightarrow> valid_block buf n"
begin

lemma accepts_frame:
  assumes "seq AND NOT MESSAGE_SEQ_MASK = MESSAGE_DEST" "length payload + 5 \<le> MESSAGE_MAX"
  shows "accepts (frame seq payload @ rest) = Some (length payload + 5)"
  using valid_frame [OF assms] by (simp add: accepts_iff)

lemma rejects_corrupted:
  assumes "accepts buf = Some n" "1 \<le> i" "i < n" "x \<noteq> buf ! i"
  shows "accepts (buf[i := x]) = None"
proof (rule ccontr)
  assume "accepts (buf[i := x]) \<noteq> None"
  then obtain m where m: "valid_block (buf[i := x]) m" by (auto simp: accepts_iff)
  have v: "valid_block buf n" using assms(1) by (simp add: accepts_iff)
  have "m = n" using m v assms(2) by (simp add: valid_block_def)
  then show False using m valid_block_one_byte [OF v assms(2-4)] by simp
qed

end

section \<open>The firmware's check\<close>

lemma Suc_minus_3: "5 \<le> n \<Longrightarrow> Suc (n - 3) = n - 2"
  by arith

lemma check_block_iff: "check_block buf = Block n \<longleftrightarrow> valid_block buf n"
proof
  assume "check_block buf = Block n"
  then show "valid_block buf n"
    by (auto simp: check_block_def valid_block_def Let_def message_consts Suc_minus_3 split: if_splits)
next
  assume "valid_block buf n"
  then show "check_block buf = Block n"
    by (auto simp: check_block_def valid_block_def Let_def message_consts Suc_minus_3)
qed

text \<open>A transport that drops everything, and the receiver that expects the next block.\<close>

definition quiet :: "'s console" where
  "quiet ce args s = Ret () s"

definition fw_accepts :: "u8 list \<Rightarrow> nat option" where
  "fw_accepts buf =
     (case command_find_block quiet buf (cmd_init\<lparr>next_sequence := buf ! 1\<rparr>) of
        Ret (ret, pop) s \<Rightarrow> if ret > 0 then Some pop else None
      | _ \<Rightarrow> None)"

lemma find_need_sync_neg:
  "find_need_sync console buf s = Ret (r, pop) t \<Longrightarrow> r = -1"
  by (auto simp: find_need_sync_def find_nak_def Let_def andthen_eq_Ret split: prod.splits if_splits)

lemma fw_accepts_iff: "fw_accepts buf = Some n \<longleftrightarrow> valid_block buf n"
proof (cases "check_block buf")
  case NeedMore
  then show ?thesis
    by (auto simp: fw_accepts_def command_find_block_def cmd_init_def check_block_iff [symmetric])
next
  case BadBlock
  then show ?thesis
    by (auto simp: fw_accepts_def command_find_block_def cmd_init_def check_block_iff [symmetric]
        split: res.splits if_splits dest: find_need_sync_neg)
next
  case (Block m)
  then show ?thesis
    by (auto simp: fw_accepts_def command_find_block_def cmd_init_def check_block_iff [symmetric] Let_def)
qed

interpretation fw: block_checker fw_accepts
  by unfold_locales (rule fw_accepts_iff)

section \<open>The host's check\<close>

definition host_accepts :: "u8 list \<Rightarrow> nat option" where
  "host_accepts buf = (let r = fst (msgblock_check False buf) in if r > 0 then Some (nat r) else None)"

lemma msgblock_error_neg: "fst (msgblock_error buf) \<le> 0"
  by (auto simp: msgblock_error_def split: option.splits)

lemma msgblock_check_blocks:
  "msgblock_check False buf =
     (case check_block buf of NeedMore \<Rightarrow> (0, False) | BadBlock \<Rightarrow> msgblock_error buf
      | Block n \<Rightarrow> (int n, False))"
  by (auto simp: msgblock_check_def check_block_def host_crc_eq Let_def)

lemma host_accepts_iff: "host_accepts buf = Some n \<longleftrightarrow> valid_block buf n"
proof (cases "check_block buf")
  case NeedMore
  then show ?thesis
    by (simp add: host_accepts_def msgblock_check_blocks check_block_iff [symmetric])
next
  case BadBlock
  then show ?thesis
    using msgblock_error_neg [of buf]
    by (simp add: host_accepts_def msgblock_check_blocks check_block_iff [symmetric] Let_def)
next
  case (Block m)
  then have "5 \<le> m" by (simp add: check_block_iff valid_block_def message_consts)
  then show ?thesis
    using Block by (auto simp: host_accepts_def msgblock_check_blocks check_block_iff [symmetric])
qed

interpretation host: block_checker host_accepts
  by unfold_locales (rule host_accepts_iff)

section \<open>Progress and sequence numbers of the firmware receiver\<close>

lemma find_sync_bound: "find_sync buf = Some i \<Longrightarrow> i < length buf \<and> buf ! i = MESSAGE_SYNC"
  by (induction buf arbitrary: i) (auto split: if_splits)

lemma find_sync_skip: "MESSAGE_SYNC \<notin> set g \<Longrightarrow> find_sync (g @ MESSAGE_SYNC # rest) = Some (length g)"
  by (induction g) auto

lemma find_need_sync_pop:
  assumes "find_need_sync console buf s = Ret (r, pop) t" "buf \<noteq> []"
  shows "r = -1 \<and> 1 \<le> pop \<and> pop \<le> length buf"
proof (cases "find_sync buf")
  case None
  with assms show ?thesis
    by (cases buf) (auto simp: find_need_sync_def find_nak_def Let_def andthen_eq_Ret split: if_splits)
next
  case (Some i)
  with assms show ?thesis
    using find_sync_bound [OF Some]
    by (auto simp: find_need_sync_def find_nak_def Let_def andthen_eq_Ret split: if_splits)
qed

lemma check_block_need_more: "check_block buf = NeedMore \<Longrightarrow> length buf < MESSAGE_MAX"
  by (auto simp: check_block_def Let_def message_consts split: if_splits)

lemma check_block_nonempty: "check_block buf \<noteq> NeedMore \<Longrightarrow> buf \<noteq> []"
  by (auto simp: check_block_def message_consts)

lemma find_block_result:
  assumes "command_find_block console buf s = Ret (r, pop) t"
  shows "(r = 0 \<and> pop = 0 \<and> t = s \<and> length buf < MESSAGE_MAX) \<or>
    (r \<in> {-1, 1} \<and> 1 \<le> pop \<and> pop \<le> length buf)"
proof (cases "buf \<noteq> [] \<and> sync_need_sync s")
  case True
  with assms find_need_sync_pop [of console buf s r pop t] show ?thesis
    by (simp add: command_find_block_def)
next
  case False
  show ?thesis
  proof (cases "check_block buf")
    case NeedMore
    with False assms check_block_need_more [OF NeedMore] show ?thesis
      by (auto simp: command_find_block_def)
  next
    case BadBlock
    then have "buf \<noteq> []" using check_block_nonempty by simp
    then have "1 \<le> length buf" by (cases buf) auto
    with False BadBlock \<open>buf \<noteq> []\<close> assms
      find_need_sync_pop [of console buf "s\<lparr>sync_need_sync := True\<rparr>" r pop t]
    show ?thesis by (auto simp: command_find_block_def split: if_splits)
  next
    case (Block n)
    then have "valid_block buf n" by (simp add: check_block_iff)
    with False Block assms show ?thesis
      by (auto simp: command_find_block_def find_nak_def Let_def andthen_eq_Ret valid_block_def
          message_consts split: if_splits)
  qed
qed

text \<open>The console keeps the receiver's own variables.\<close>

definition keeps_seq :: "'a cmd_state_scheme console \<Rightarrow> bool" where
  "keeps_seq console \<longleftrightarrow> (\<forall>ce args s u t. console ce args s = Ret u t \<longrightarrow> next_sequence t = next_sequence s)"

lemma sendf_keeps_seq:
  "keeps_seq console \<Longrightarrow> command_sendf console ce args s = Ret u t \<Longrightarrow> next_sequence t = next_sequence s"
  by (fastforce simp: keeps_seq_def command_sendf_def andthen_eq_Ret split: if_splits)

lemma find_need_sync_seq:
  assumes "keeps_seq console" "find_need_sync console buf s = Ret (r, pop) t"
  shows "next_sequence t = next_sequence s"
  using assms
  by (cases "find_sync buf")
    (auto simp: find_need_sync_def find_nak_def Let_def andthen_eq_Ret
      dest!: sendf_keeps_seq split: if_splits)

lemma find_block_accept:
  assumes "command_find_block console buf s = Ret (1, n) t"
  shows "valid_block buf n \<and> buf ! 1 = next_sequence s \<and>
    next_sequence t = ((buf ! 1 + 1) AND MESSAGE_SEQ_MASK) OR MESSAGE_DEST \<and>
    \<not> sync_need_sync t \<and> \<not> sync_need_valid t"
proof (cases "buf \<noteq> [] \<and> sync_need_sync s")
  case True
  with assms show ?thesis
    using find_need_sync_neg [of console buf s 1 n t] by (simp add: command_find_block_def)
next
  case False
  show ?thesis
  proof (cases "check_block buf")
    case (Block m)
    then have v: "valid_block buf m" by (simp add: check_block_iff)
    then have "buf \<noteq> []" by (auto simp: valid_block_def message_consts)
    with False Block assms v show ?thesis
      by (auto simp: command_find_block_def find_nak_def Let_def andthen_eq_Ret split: if_splits)
  qed (use False assms in \<open>auto simp: command_find_block_def dest: find_need_sync_neg split: if_splits\<close>)
qed

lemma find_block_reject_seq:
  assumes "keeps_seq console" "command_find_block console buf s = Ret (r, n) t" "r \<noteq> 1"
  shows "next_sequence t = next_sequence s"
proof (cases "buf \<noteq> [] \<and> sync_need_sync s")
  case True
  with assms show ?thesis
    using find_need_sync_seq [OF assms(1), of buf s r n t] by (simp add: command_find_block_def)
next
  case False
  show ?thesis
  proof (cases "check_block buf")
    case BadBlock
    with False assms show ?thesis
      using find_need_sync_seq [OF assms(1), of buf "s\<lparr>sync_need_sync := True\<rparr>" r n t]
      by (auto simp: command_find_block_def split: if_splits)
  qed (use False assms in \<open>auto simp: command_find_block_def find_nak_def Let_def andthen_eq_Ret
      dest!: sendf_keeps_seq split: if_splits\<close>)
qed

lemma next_seq_differs: "((q + 1) AND MESSAGE_SEQ_MASK) OR MESSAGE_DEST \<noteq> (q :: u8)"
proof
  assume "((q + 1) AND MESSAGE_SEQ_MASK) OR MESSAGE_DEST = q"
  then have "bit (((q + 1) AND MESSAGE_SEQ_MASK) OR MESSAGE_DEST) 0 = bit q 0" by simp
  then have "bit (q + 1) 0 = bit q 0"
    by (simp add: message_consts bit_or_iff bit_and_iff mask_bits)
  then show False by (simp add: bit_0)
qed

lemma next_seq_dest: "(((q + 1) AND MESSAGE_SEQ_MASK) OR MESSAGE_DEST) AND NOT MESSAGE_SEQ_MASK = (MESSAGE_DEST :: u8)"
  by (rule bit_word_eqI) (auto simp: message_consts bit_simps mask_bits)

end
