(* ===== verification/Dispatch.thy ===== *)
theory Dispatch
  imports Framing
begin

text \<open>
  What the firmware writes and reads when it encodes and executes messages. Bounds of
  \<open>command_encodef\<close> against the space the transports reserve; the exact content of an encoded
  message and its decoding by the host; arguments of a command as sent by the host; and the
  proof that executing an accepted block never reads outside the block.
\<close>

section \<open>Length of encoded messages\<close>

lemma encodef_loop_length:
  "encodef_loop int16 room ts args out s = Ret out' t \<Longrightarrow> length out \<le> room + 5 \<Longrightarrow> length out' \<le> room + 5"
proof (induction int16 room ts args out s rule: encodef_loop.induct)
  case (2 int16 room t ts args out s)
  have e: "length (encode_int w) \<le> 5" for w using encode_int_length by simp
  show ?case
  proof (cases "length out > room")
    case False
    then have b: "length out \<le> room" by simp
    consider "is_int_pt t" | "\<not> is_int_pt t" "t = PT_string" | "\<not> is_int_pt t" "t \<noteq> PT_string" by blast
    then show ?thesis
    proof cases
      case 1
      with 2 b e show ?thesis
        by (auto split: list.splits varg.splits) (metis add_le_mono length_append)+
    next
      case 2
      then show ?thesis
        using "2.IH"(2) "2.prems" b by (auto simp: Let_def split: list.splits varg.splits)
    next
      case 3
      then show ?thesis
        using "2.IH"(3) "2.prems" b by (auto simp: Let_def split: list.splits varg.splits if_splits)
    qed
  qed (use "2.prems" in simp)
qed simp

lemma encodef_length:
  assumes "command_encodef int16 ce args s = Ret (n, out) t"
  shows "n \<le> ce_max_size ce + 5"
proof (cases "ce_max_size ce \<le> MESSAGE_MIN")
  case False
  with assms obtain o' where o: "encodef_loop int16 (ce_max_size ce - MESSAGE_MIN) (ce_param_types ce) args
      [ce_msg_id ce] s = Ret o' t" "n = MESSAGE_HEADER_SIZE + length o' + MESSAGE_TRAILER_SIZE"
    by (auto simp: command_encodef_def bnd_eq_Ret)
  from encodef_loop_length [OF o(1)] o(2) False show ?thesis
    by (simp add: message_consts)
qed (use assms in \<open>simp add: command_encodef_def\<close>)

text \<open>
  The size the build script reserves for a parameter, and the arguments that fit it: the C code
  passes 8-bit values for \<open>PT_byte\<close> and 16-bit values for \<open>PT_uint16\<close> and \<open>PT_int16\<close>.
\<close>

fun pt_max_length :: "param_type \<Rightarrow> nat" where
  "pt_max_length PT_uint32 = 5"
| "pt_max_length PT_int32 = 5"
| "pt_max_length PT_uint16 = 3"
| "pt_max_length PT_int16 = 3"
| "pt_max_length PT_byte = 2"
| "pt_max_length _ = 64"

fun arg_fits :: "param_type \<Rightarrow> u32 \<Rightarrow> bool" where
  "arg_fits PT_byte w = (unat w < 256)"
| "arg_fits PT_uint16 w = (unat w < 65536)"
| "arg_fits PT_int16 w = (- 32768 \<le> sint w \<and> sint w < 32768)"
| "arg_fits _ w = True"

lemma encode_int_fits:
  assumes "is_int_pt t" "arg_fits t w"
  shows "length (encode_int w) \<le> pt_max_length t"
proof (cases t)
  case PT_byte
  then have u: "unat w < 256" using assms(2) by simp
  then have "sint w = int (unat w)" by (intro sint_small) simp
  with u have "0 \<le> sint w" "sint w < 256" by linarith+
  then show ?thesis using PT_byte by (auto simp: encode_int_def Let_def)
next
  case PT_uint16
  then have u: "unat w < 65536" using assms(2) by simp
  then have "sint w = int (unat w)" by (intro sint_small) simp
  with u have "0 \<le> sint w" "sint w < 65536" by linarith+
  then show ?thesis using PT_uint16 by (auto simp: encode_int_def Let_def)
next
  case PT_int16
  then show ?thesis using assms(2) by (auto simp: encode_int_def Let_def)
qed (use assms encode_int_length in auto)

text \<open>Arguments in the order and of the kinds the parameters ask for, integers in range.\<close>

fun args_ok :: "param_type list \<Rightarrow> varg list \<Rightarrow> bool" where
  "args_ok [] args = True"
| "args_ok (t # ts) args =
     (if is_int_pt t then (case args of VInt w # rest \<Rightarrow> arg_fits t w \<and> args_ok ts rest | _ \<Rightarrow> False)
      else if t = PT_string then (case args of VPtr mem # rest \<Rightarrow> args_ok ts rest | _ \<Rightarrow> False)
      else (case args of VInt w # VPtr mem # rest \<Rightarrow> unat w \<le> length mem \<and> args_ok ts rest | _ \<Rightarrow> False))"

lemma encodef_ints_fit:
  assumes "list_all is_int_pt ts" "args_ok ts args"
    "length out + sum_list (map pt_max_length ts) \<le> room + 1" "length out \<le> room"
  shows "\<exists>out'. encodef_loop False room ts args out s = Ret out' s \<and>
    length out' \<le> length out + sum_list (map pt_max_length ts)"
  using assms
proof (induction ts arbitrary: args out)
  case (Cons t ts)
  from Cons.prems(1,2) obtain w rest where a: "args = VInt w # rest" "arg_fits t w" "args_ok ts rest"
    by (auto split: list.splits varg.splits)
  have l: "length (encode_int w) \<le> pt_max_length t"
    using Cons.prems(1) a(2) by (intro encode_int_fits) auto
  show ?case
  proof (cases ts)
    case Nil
    then show ?thesis using Cons.prems a l by (simp add: va_int_def)
  next
    case (Cons t' ts')
    have "2 \<le> sum_list (map pt_max_length ts)" using Cons by (cases t') auto
    then show ?thesis
      using Cons.IH [of rest "out @ encode_int w"] Cons.prems a l by (fastforce simp: va_int_def)
  qed
qed simp


section \<open>Content of encoded messages\<close>

lemma encode_int_byte:
  assumes "unat (b :: u8) < 96"
  shows "encode_int (ucast b) = [b]"
proof -
  have u: "unat (ucast b :: u32) = unat b" by (rule unat_ucast_up) simp
  with assms have "sint (ucast b :: u32) = int (unat (ucast b :: u32))" by (intro sint_small) simp
  with u assms have "0 \<le> sint (ucast b :: u32)" "sint (ucast b :: u32) < 96" by linarith+
  moreover have "vlq_last (ucast b) = b"
  proof (rule bit_word_eqI)
    fix n assume n: "n < LENGTH(8)"
    have "\<not> bit b 7" using assms bit_top_iff_unat [of b] by simp
    then have "n < 7 \<or> \<not> bit b n" using n by (cases "n = 7") auto
    then show "bit (vlq_last (ucast b)) n = bit b n"
      using n by (auto simp: vlq_last_def bit_simps mask_bits)
  qed
  ultimately show ?thesis by (simp add: encode_int_def)
qed

lemma encodef_ints_content:
  assumes "list_all is_int_pt ts" "length ws = length ts"
    "encodef_loop False room ts (map VInt ws) out s = Ret out' t"
  shows "out' = out @ concat (map encode_int ws) \<and> t = s"
  using assms
proof (induction ts arbitrary: ws out)
  case (Cons x ts)
  then obtain w ws' where "ws = w # ws'" by (cases ws) auto
  with Cons show ?case by (force simp: va_int_def split: if_splits)
qed simp

lemma host_decodes_frame:
  assumes "unat mid < 96"
  shows "msgblock_decode (Suc (length ws)) (frame seq (mid # concat (map encode_int ws)) @ rest)
      (length (concat (map encode_int ws)) + 6) = Some (0, ucast mid # ws)"
proof -
  let ?vs = "ucast mid # ws"
  let ?out = "concat (map encode_int ?vs)"
  have out: "mid # concat (map encode_int ws) = ?out" using encode_int_byte [OF assms] by simp
  define tr where "tr = drop (length ?out + 2) (frame seq ?out)"
  have "frame seq ?out = [of_nat (length ?out + 5), seq] @ ?out @ tr"
    by (simp add: tr_def frame_def frame_head_def Let_def)
  moreover have lo: "length ?out = Suc (length (concat (map encode_int ws)))"
    using arg_cong [OF out, of length] by simp
  moreover have "length (concat (map encode_int ws)) + 6 - MESSAGE_TRAILER_SIZE =
      length [of_nat (length ?out + 5), seq] + length ?out"
    unfolding lo by (simp add: message_consts)
  ultimately show ?thesis
    using decode_loop_encoded [of "[of_nat (length ?out + 5), seq]" ?vs "tr @ rest" "[]"]
    unfolding msgblock_decode_def out by (simp add: message_consts numeral_2_eq_2 numeral_3_eq_3)
qed

text \<open>Writing the header and the trailer around the payload yields the frame.\<close>

lemma add_frame_frame:
  assumes "length buf \<ge> length out + 5"
  shows "command_add_frame seq (blit buf 2 out) (length out + 5) =
    Some (frame seq out @ drop (length out + 5) buf)"
proof -
  let ?n = "length out + 5"
  obtain a b c where buf: "buf = [a, b] @ c" "length out + 3 \<le> length c"
    using assms by (cases buf; cases "tl buf") auto
  obtain m x y z r where c: "c = m @ [x, y, z] @ r" "length m = length out"
  proof -
    have "c = take (length out) c @ drop (length out) c" by simp
    moreover obtain x y z r where "drop (length out) c = x # y # z # r"
    proof -
      have "3 \<le> length (drop (length out) c)" using buf(2) by simp
      then show thesis using that
        by (cases "drop (length out) c"; cases "tl (drop (length out) c)";
            cases "tl (tl (drop (length out) c))") auto
    qed
    ultimately show thesis using that [of "take (length out) c" x y z r] buf(2) by simp
  qed
  have bl: "blit buf 2 out = [a, b] @ out @ [x, y, z] @ r"
    using c by (simp add: blit_def buf(1))
  have "buf = ([a, b] @ m @ [x, y, z]) @ r" by (simp add: buf(1) c)
  moreover have "length ([a, b] @ m @ [x, y, z]) = length out + 5" using c by simp
  ultimately have "drop (length out + 5) buf = r" by (metis append_eq_conv_conj)
  with bl show ?thesis
    by (simp add: command_add_frame_def message_consts buf(1) c frame_def frame_head_def Let_def
        list_update_append nth_append crc16_ccitt_def)
qed

section \<open>Arguments of a command\<close>

text \<open>The arguments a parameter list stores, as the build script counts them.\<close>

fun num_args_of :: "param_type list \<Rightarrow> nat" where
  "num_args_of [] = 0"
| "num_args_of (t # ts) = (if t = PT_buffer then 2 else 1) + num_args_of ts"

definition parser_ok :: "'f command_parser \<Rightarrow> bool" where
  "parser_ok cp \<longleftrightarrow> num_args_of (cp_param_types cp) \<le> cp_num_args cp"

lemma parsef_loop_ints:
  assumes "list_all is_int_pt ts" "length ws = length ts" "length args + length ts \<le> na"
    "maxend = length xs + length (concat (map encode_int ws))"
  shows "parsef_loop enc (xs @ concat (map encode_int ws) @ ys) maxend na (length xs) ts args s
    = Ret (maxend, args @ ws) s"
  using assms
proof (induction ts arbitrary: ws xs args)
  case (Cons t ts)
  then obtain w ws' where w: "ws = w # ws'" by (cases ws) auto
  have "parse_int (xs @ encode_int w @ concat (map encode_int ws') @ ys) (length xs)
      = Some (w, length xs + length (encode_int w))" by (rule parse_encode)
  then show ?case
    using Cons.IH [of ws' "args @ [w]" "xs @ encode_int w"] Cons.prems w by simp
qed simp

text \<open>
  Arguments that fit a parameter list: one value for each parameter, and for a buffer its length
  and the address of bytes that all lie before the index \<open>m\<close> of the message.
\<close>

fun args_fit :: "(nat \<Rightarrow> u32) \<Rightarrow> nat \<Rightarrow> param_type list \<Rightarrow> u32 list \<Rightarrow> bool" where
  "args_fit enc m [] args = (args = [])"
| "args_fit enc m (t # ts) args =
     (if t = PT_buffer
      then (case args of
              l # b # rest \<Rightarrow> (\<exists>i. b = enc i \<and> i + unat l \<le> m) \<and> args_fit enc m ts rest
            | _ \<Rightarrow> False)
      else (case args of _ # rest \<Rightarrow> args_fit enc m ts rest | [] \<Rightarrow> False))"

text \<open>
  Parsing never reads past a byte without its top bit that follows \<open>maxend\<close>, moves on, and
  hands out arguments that fit.
\<close>

lemma parsef_loop_safe:
  assumes "maxend \<le> k" "k < length buf" "buf ! k AND 0x80 = 0"
    "length args + num_args_of ts \<le> na"
  shows "(\<exists>p' xs. parsef_loop enc buf maxend na p ts args s = Ret (p', args @ xs) s \<and> p \<le> p' \<and> args_fit enc maxend ts xs)
    \<or> parsef_loop enc buf maxend na p ts args s = Shut ''Command parser error'' s"
  using assms
proof (induction ts arbitrary: p args)
  case (Cons t ts)
  show ?case
  proof (cases "p > maxend")
    case False
    then have p: "p \<le> k" "p < length buf" using Cons.prems by auto
    consider "is_int_pt t" | "\<not> is_int_pt t" "t = PT_buffer" | "\<not> is_int_pt t" "t \<noteq> PT_buffer" by blast
    then show ?thesis
    proof cases
      case 1
      from parse_int_stops [OF p(1) Cons.prems(2,3)]
      obtain w q where wq: "parse_int buf p = Some (w, q)" "p < q" by metis
      have "t \<noteq> PT_buffer" using 1 by auto
      with Cons.prems have na: "length (args @ [w]) + num_args_of ts \<le> na" "length args < na" by auto
      from Cons.IH [OF Cons.prems(1-3) na(1), of q] show ?thesis
        using False 1 wq na(2) \<open>t \<noteq> PT_buffer\<close> by fastforce
    next
      case 2
      let ?len = "unat (buf ! p)"
      have na: "length (args @ [of_nat ?len, enc (Suc p)]) + num_args_of ts \<le> na" "Suc (length args) < na"
        using Cons.prems 2 by auto
      have l: "unat (of_nat ?len :: u32) = ?len" using unat_ucast_up [of "buf ! p", where 'b = 32] by simp
      show ?thesis
      proof (cases "Suc p + ?len > maxend")
        case True
        then show ?thesis using False 2 p by (simp add: Let_def)
      next
        case fits: False
        then have "\<exists>i. enc (Suc p) = enc i \<and> i + unat (of_nat ?len :: u32) \<le> maxend" unfolding l by (intro exI [of _ "Suc p"]) simp
        moreover have "parsef_loop enc buf maxend na p (t # ts) args s =
            parsef_loop enc buf maxend na (Suc p + ?len) ts (args @ [of_nat ?len, enc (Suc p)]) s"
          using False 2 p na(2) fits by (simp add: Let_def)
        ultimately show ?thesis using Cons.IH [OF Cons.prems(1-3) na(1), of "Suc p + ?len"] 2 by fastforce
      qed
    next
      case 3
      then show ?thesis using False by simp
    qed
  qed simp
qed simp

section \<open>Executing an accepted block\<close>

lemma sync_no_top: "MESSAGE_SYNC AND 0x80 = 0"
  by (simp add: message_consts)

text \<open>
  The environment of a block whose payload ends at \<open>m\<close>: the tables agree with the argument
  counts, and every handler is safe when its arguments fit its parameters.
\<close>

definition env_ok :: "('f, 's) dispatch_env \<Rightarrow> nat \<Rightarrow> bool" where
  "env_ok e m \<longleftrightarrow> (\<forall>cp \<in> set (de_index e). parser_ok cp \<and>
       (\<forall>args s. args_fit (de_ptr e) m (cp_param_types cp) args \<longrightarrow> no_fault (de_call e (cp_func cp) args s))) \<and>
     (\<forall>s. no_fault (de_report e s))"

lemma dispatch_loop_safe:
  assumes e: "env_ok e msgend" and k: "msgend \<le> k" "k < length buf" "buf ! k AND 0x80 = 0"
  shows "msgend \<le> p + fuel \<Longrightarrow> no_fault (dispatch_loop e buf msgend fuel p s)"
proof (induction fuel arbitrary: p s)
  case (Suc fuel)
  show ?case
  proof (cases "p < msgend")
    case True
    then have p: "p < length buf" using k by simp
    let ?id = "unat (buf ! p)"
    show ?thesis
    proof (cases "?id = 0 \<or> ?id \<ge> length (de_index e)")
      case True
      then show ?thesis using p by (auto simp: command_lookup_parser_def)
    next
      case False
      let ?cp = "de_index e ! ?id"
      have "?cp \<in> set (de_index e)" using False by simp
      then have "num_args_of (cp_param_types ?cp) \<le> cp_num_args ?cp"
        using e by (auto simp: env_ok_def parser_ok_def)
      then have na: "length [] + num_args_of (cp_param_types ?cp) \<le> cp_num_args ?cp" by simp
      note parsef_loop_safe [OF k na, of "de_ptr e" "Suc p" s]
      then consider p' args' where "command_parsef (de_ptr e) buf (Suc p) msgend ?cp s = Ret (p', args') s" "Suc p \<le> p'"
            "args_fit (de_ptr e) msgend (cp_param_types ?cp) args'"
        | "command_parsef (de_ptr e) buf (Suc p) msgend ?cp s = Shut ''Command parser error'' s"
        unfolding command_parsef_def by fastforce
      then show ?thesis
      proof cases
        case 1
        then have "msgend \<le> p' + fuel" using Suc.prems by simp
        then have IH: "no_fault (dispatch_loop e buf msgend fuel p' t)" for t by (rule Suc.IH)
        have "no_fault (de_call e (cp_func ?cp) args' t)" "no_fault (de_report e t)" for t
          using e 1(3) \<open>?cp \<in> set (de_index e)\<close> by (auto simp: env_ok_def)
        then show ?thesis
          using 1(1,2) p False IH
          by (auto simp: command_lookup_parser_def andthen_def intro!: no_fault_bnd)
      next
        case 2
        then show ?thesis using p False by (simp add: command_lookup_parser_def)
      qed
    qed
  qed simp
qed simp

lemma dispatch_safe:
  assumes "env_ok e (n - MESSAGE_TRAILER_SIZE)" "valid_block buf n"
  shows "no_fault (command_dispatch e buf n s)"
proof -
  have v: "5 \<le> n" "n \<le> length buf" "buf ! (n - 1) = MESSAGE_SYNC"
    using assms(2) by (simp_all add: valid_block_def message_consts)
  show ?thesis
    unfolding command_dispatch_def
    by (rule dispatch_loop_safe [OF assms(1), where k = "n - 1"])
      (use v sync_no_top in \<open>simp_all add: message_consts\<close>)
qed

end
