(* ===== verification/Protocol_Correct.thy ===== *)
theory Protocol_Correct
  imports Dispatch
begin

text \<open>
  What the message layer promises, on both ends of the wire: integers and messages survive the
  transport, damaged and repeated blocks are not executed, parsing stays inside the received
  block, and the extension of 32-bit clocks is exact. Every property is followed by an
  instance of it on concrete data where it has hypotheses.
\<close>

section \<open>Integers and blocks\<close>

text \<open>
  Every 32-bit integer survives the variable length encoding, in the firmware's routines and in
  the host's, wherever it stands in a message; the encoding takes one to five bytes.
\<close>

theorem vlq_roundtrip:
  "parse_int (xs @ encode_int v @ ys) (length xs) = Some (v, length xs + length (encode_int v)) \<and>
   host_parse_int (xs @ host_encode_int v @ ys) (length xs) = Some (v, length xs + length (host_encode_int v)) \<and>
   length (encode_int v) \<in> {1..5}"
  using parse_encode encode_int_length [of v] by (simp add: host_vlq_eq)

text \<open>
  C34: The firmware and the host accept the same blocks of the same length at the start of a buffer,
  although the two checks are separate code.
\<close>

theorem both_ends_agree: "fw_accepts buf = host_accepts buf"
proof (cases "fw_accepts buf")
  case None
  then show ?thesis using fw.accepts_iff host.accepts_iff by (metis not_Some_eq)
next
  case (Some n)
  then show ?thesis using fw.accepts_iff host.accepts_iff by metis
qed

text \<open>
  C6: A block in which any one byte behind the length byte is changed is rejected by both
  ends, whichever byte it is and whatever it becomes.
\<close>

theorem corrupted_block_rejected:
  assumes "fw_accepts buf = Some n" "1 \<le> i" "i < n" "x \<noteq> buf ! i"
  shows "fw_accepts (buf[i := x]) = None \<and> host_accepts (buf[i := x]) = None"
  using fw.rejects_corrupted [OF assms] both_ends_agree by simp

lemma dest_dest: "MESSAGE_DEST AND NOT MESSAGE_SEQ_MASK = MESSAGE_DEST"
  by (simp add: message_consts)

theorem corrupted_block_rejected_witness:
  "fw_accepts (frame MESSAGE_DEST []) = Some 5 \<and> fw_accepts ((frame MESSAGE_DEST [])[1 := 0x11]) = None"
proof -
  have a: "fw_accepts (frame MESSAGE_DEST []) = Some 5"
    using fw.accepts_frame [OF dest_dest, of "[]" "[]"] by (simp add: message_consts)
  have x: "(0x11 :: u8) \<noteq> frame MESSAGE_DEST [] ! 1" by (simp add: frame_def frame_head_def message_consts Let_def)
  show ?thesis using a corrupted_block_rejected [OF a _ _ x] by simp
qed

section \<open>The firmware's receiver\<close>

lemma find_block_wrong_seq:
  assumes "valid_block buf n" "\<not> sync_need_sync s" "buf ! 1 \<noteq> next_sequence s"
  shows "command_find_block console buf s = find_nak console n (s\<lparr>sync_need_valid := False\<rparr>)"
  using assms by (simp add: command_find_block_def check_block_iff [THEN iffD2] Let_def)

text \<open>
  A block that was accepted is not accepted again: the same bytes in front of the buffer
  are taken out and answered, but not executed, and the expected sequence number stays.
\<close>

theorem repeated_block_not_executed:
  assumes c: "keeps_seq console" and a: "command_find_block console buf s = Ret (1, n) t"
    and b: "command_find_block console (take n buf @ rest) t = Ret (r, k) u"
  shows "r = -1 \<and> k = n \<and> next_sequence u = next_sequence t"
proof -
  note acc = find_block_accept [OF a]
  have len: "n \<le> length buf" "MESSAGE_MIN \<le> n" using acc by (simp_all add: valid_block_def)
  have v: "valid_block (take n buf @ rest) n"
    using acc [THEN conjunct1] len crc16_prefix [of "n - MESSAGE_TRAILER_SIZE" "take n buf" rest]
      crc16_prefix [of "n - MESSAGE_TRAILER_SIZE" "take n buf" "drop n buf"]
    by (simp add: valid_block_def nth_append message_consts)
  have sq: "(take n buf @ rest) ! 1 = buf ! 1" using len by (simp add: nth_append message_consts)
  have "(take n buf @ rest) ! 1 \<noteq> next_sequence t"
    using acc next_seq_differs [of "buf ! 1"] unfolding sq by metis
  then have "command_find_block console (take n buf @ rest) t = find_nak console n (t\<lparr>sync_need_valid := False\<rparr>)"
    using v acc by (intro find_block_wrong_seq) simp_all
  then have "andthen (command_sendf console encode_acknak [] (t\<lparr>sync_need_valid := False\<rparr>)) (Ret (-1, n)) = Ret (r, k) u"
    using b by (simp add: find_nak_def)
  then obtain v u1 where "command_sendf console encode_acknak [] (t\<lparr>sync_need_valid := False\<rparr>) = Ret v u1"
    "Ret (-1, n) u1 = Ret (r, k) u" unfolding andthen_eq_Ret by blast
  then show ?thesis using sendf_keeps_seq [OF c] by fastforce
qed

lemma quiet_keeps_seq: "keeps_seq quiet"
  by (simp add: keeps_seq_def quiet_def)

lemma find_block_frame:
  assumes "next_sequence s AND NOT MESSAGE_SEQ_MASK = MESSAGE_DEST" "length payload + 5 \<le> MESSAGE_MAX" "\<not> sync_need_sync s"
  shows "command_find_block console (frame (next_sequence s) payload @ rest) s = Ret (1, length payload + 5)
    (s\<lparr>sync_need_valid := False, next_sequence := ((next_sequence s + 1) AND MESSAGE_SEQ_MASK) OR MESSAGE_DEST\<rparr>)"
proof -
  have c: "check_block (frame (next_sequence s) payload @ rest) = Block (length payload + 5)"
    using valid_frame [OF assms(1,2)] check_block_iff by blast
  have "(frame (next_sequence s) payload @ rest) ! 1 = next_sequence s" by (simp add: frame_def frame_head_def Let_def)
  then show ?thesis using c assms(3) by (simp add: command_find_block_def Let_def)
qed

theorem repeated_block_not_executed_witness:
  "\<exists>t u. command_find_block quiet (frame MESSAGE_DEST []) cmd_init = Ret (1, 5) t \<and>
     command_find_block quiet (frame MESSAGE_DEST []) t = Ret (-1, 5) u \<and> next_sequence u = next_sequence t"
proof -
  let ?t = "cmd_init\<lparr>sync_need_valid := False, next_sequence := 0x11\<rparr>"
  have a: "command_find_block quiet (frame MESSAGE_DEST []) cmd_init = Ret (1, 5) ?t"
    using find_block_frame [of cmd_init "[]" quiet "[]"] dest_dest by (simp add: cmd_init_def message_consts)
  have f: "take 5 (frame MESSAGE_DEST []) @ [] = frame MESSAGE_DEST []" by simp
  have "command_find_block quiet (frame MESSAGE_DEST []) ?t = find_nak quiet 5 (?t\<lparr>sync_need_valid := False\<rparr>)"
  proof (rule find_block_wrong_seq)
    show "valid_block (frame MESSAGE_DEST []) 5" using valid_frame [OF dest_dest, of "[]" "[]"] by (simp add: message_consts)
    show "frame MESSAGE_DEST [] ! 1 \<noteq> next_sequence ?t" by (simp add: frame_def frame_head_def MESSAGE_DEST_def Let_def)
  qed (simp add: cmd_init_def)
  then obtain u where b: "command_find_block quiet (take 5 (frame MESSAGE_DEST []) @ []) ?t = Ret (-1, 5) u"
    unfolding f by (simp add: find_nak_def command_sendf_def quiet_def cmd_init_def)
  show ?thesis
    using a b repeated_block_not_executed [OF quiet_keeps_seq a b] unfolding f by metis
qed



text \<open>
  C25: Executing an accepted block never reads outside the block nor overruns the argument
  array, whatever bytes it holds, and passes a handler only buffers inside the block: if every
  handler is safe on such arguments, it returns or ends in a firmware shutdown.
\<close>

theorem dispatch_memory_safe:
  assumes "env_ok e (n - MESSAGE_TRAILER_SIZE)" "valid_block buf n"
  shows "no_fault (command_dispatch e buf n s)"
  by (rule dispatch_safe [OF assms])

text \<open>A command table with one command, \<open>id=1 value=%u\<close>, that stores its argument.\<close>

definition demo_parser :: "nat command_parser" where
  "demo_parser = \<lparr>cp_msg_id = 1, cp_num_args = 1, cp_in_shutdown = False, cp_param_types = [PT_uint32], cp_func = 1\<rparr>"

definition demo_env :: "(nat, u32 list cmd_state_scheme) dispatch_env" where
  "demo_env = \<lparr>de_index = [demo_parser\<lparr>cp_param_types := [], cp_num_args := 0\<rparr>, demo_parser],
     de_is_shutdown = (\<lambda>_. False), de_report = Ret (),
     de_call = (\<lambda>f args s. Ret () (s\<lparr>cmd_state.more := args\<rparr>)), de_ptr = of_nat\<rparr>"

lemma demo_env_ok: "env_ok demo_env m"
  by (simp add: env_ok_def demo_env_def demo_parser_def parser_ok_def)

theorem dispatch_memory_safe_witness:
  "no_fault (command_dispatch demo_env (frame MESSAGE_DEST [1, 2]) 7 (cmd_state.extend cmd_init []))"
proof -
  have "valid_block (frame MESSAGE_DEST [1, 2]) 7"
    using valid_frame [OF dest_dest, of "[1, 2]" "[]"] by (simp add: message_consts)
  then show ?thesis by (rule dispatch_memory_safe [OF demo_env_ok])
qed

section \<open>Messages across the wire\<close>

text \<open>
  C9: A response that the firmware encodes with integer parameters in their ranges fits the size that the
  encoder declares, is accepted by the host's check with its length, and decodes on the host to
  the message id and the arguments.
\<close>

theorem host_reads_response:
  assumes enc: "list_all is_int_pt (ce_param_types ce)" "length ws = length (ce_param_types ce)"
    "args_ok (ce_param_types ce) (map VInt ws)" "unat (ce_msg_id ce) < 96"
    and sz: "ce_max_size ce = MESSAGE_MIN + 1 + sum_list (map pt_max_length (ce_param_types ce))"
      "ce_max_size ce \<le> MESSAGE_MAX" "ce_max_size ce \<le> length buf"
    and sq: "next_sequence s AND NOT MESSAGE_SEQ_MASK = MESSAGE_DEST"
  shows "\<exists>n mem. command_encode_and_frame False buf ce (map VInt ws) s = Ret (n, mem) s \<and>
    n \<le> ce_max_size ce \<and> length mem = length buf \<and> host_accepts mem = Some n \<and>
    msgblock_decode (Suc (length ws)) mem n = Some (0, ucast (ce_msg_id ce) # ws)"
proof -
  let ?ts = "ce_param_types ce" and ?room = "ce_max_size ce - MESSAGE_MIN"
  have room: "length [ce_msg_id ce] + sum_list (map pt_max_length ?ts) \<le> ?room + 1" "length [ce_msg_id ce] \<le> ?room"
    using sz(1) by (simp_all add: message_consts)
  obtain out where o: "encodef_loop False ?room ?ts (map VInt ws) [ce_msg_id ce] s = Ret out s"
    "length out \<le> 1 + sum_list (map pt_max_length ?ts)"
    using encodef_ints_fit [OF enc(1,3) room, of s] by auto
  have out: "out = ce_msg_id ce # concat (map encode_int ws)"
    using encodef_ints_content [OF enc(1,2) o(1)] by simp
  have big: "\<not> ce_max_size ce \<le> MESSAGE_MIN" using sz(1) by (simp add: message_consts)
  have ef: "command_encodef False ce (map VInt ws) s = Ret (length out + 5, out) s"
    using o(1) big by (simp add: command_encodef_def message_consts)
  have len: "length out + 5 \<le> ce_max_size ce" using o(2) sz(1) by (simp add: message_consts)
  then have lb: "length out + 5 \<le> length buf" using sz(3) by simp
  let ?f = "frame (next_sequence s) out" and ?d = "drop (length out + 5) buf"
  have fr: "command_encode_and_frame False buf ce (map VInt ws) s = Ret (length out + 5, ?f @ ?d) s"
    using ef add_frame_frame [OF lb, of "next_sequence s"] lb
    by (simp add: command_encode_and_frame_def message_consts)
  have acc: "host_accepts (?f @ ?d) = Some (length out + 5)"
    using len sz(2) by (intro host.accepts_frame [OF sq]) simp
  have "msgblock_decode (Suc (length ws)) (?f @ ?d) (length (concat (map encode_int ws)) + 6) = Some (0, ucast (ce_msg_id ce) # ws)"
    unfolding out by (rule host_decodes_frame [OF enc(4)])
  moreover have "length (concat (map encode_int ws)) + 6 = length out + 5" by (simp add: out)
  ultimately have dec: "msgblock_decode (Suc (length ws)) (?f @ ?d) (length out + 5) = Some (0, ucast (ce_msg_id ce) # ws)"
    by metis
  have "length (?f @ ?d) = length buf" using lb by simp
  then show ?thesis using fr acc len dec by blast
qed

text \<open>A response with a byte and a 32-bit number.\<close>

definition demo_encoder :: command_encoder where
  "demo_encoder = \<lparr>ce_msg_id = 70, ce_max_size = 13, ce_param_types = [PT_byte, PT_uint32]\<rparr>"

theorem host_reads_response_witness:
  "\<exists>n mem. command_encode_and_frame False (replicate 16 0) demo_encoder (map VInt [200, 0xffffffff]) cmd_init = Ret (n, mem) cmd_init \<and>
     host_accepts mem = Some n \<and> msgblock_decode (Suc (length [200, 0xffffffff :: u32])) mem n = Some (0, ucast (ce_msg_id demo_encoder) # [200, 0xffffffff])"
proof -
  have "list_all is_int_pt (ce_param_types demo_encoder)" "length [200, 0xffffffff :: u32] = length (ce_param_types demo_encoder)"
    "args_ok (ce_param_types demo_encoder) (map VInt [200, 0xffffffff])" "unat (ce_msg_id demo_encoder) < 96"
    "ce_max_size demo_encoder = MESSAGE_MIN + 1 + sum_list (map pt_max_length (ce_param_types demo_encoder))"
    "ce_max_size demo_encoder \<le> MESSAGE_MAX" "ce_max_size demo_encoder \<le> length (replicate 16 (0 :: u8))"
    "next_sequence cmd_init AND NOT MESSAGE_SEQ_MASK = MESSAGE_DEST"
    by (simp_all add: demo_encoder_def cmd_init_def message_consts)
  from host_reads_response [OF this] show ?thesis by blast
qed

text \<open>
  A command whose integer arguments the host encodes is parsed by the firmware into those
  arguments, wherever the command stands in the block.
\<close>

theorem firmware_reads_command:
  assumes "list_all is_int_pt (cp_param_types cp)" "length ws = length (cp_param_types cp)"
    "length ws \<le> cp_num_args cp"
  shows "command_parsef enc (xs @ concat (map host_encode_int ws) @ ys) (length xs)
      (length xs + length (concat (map host_encode_int ws))) cp s =
    Ret (length xs + length (concat (map host_encode_int ws)), ws) s"
  using parsef_loop_ints [of "cp_param_types cp" ws "[]" "cp_num_args cp" "length xs + length (concat (map encode_int ws))" xs enc ys s] assms
  by (simp add: command_parsef_def host_vlq_eq)

theorem firmware_reads_command_witness:
  "command_parsef of_nat ([9, 9] @ concat (map host_encode_int [300]) @ [7]) (length [9, 9 :: u8])
     (length [9, 9 :: u8] + length (concat (map host_encode_int [300]))) demo_parser () =
   Ret (length [9, 9 :: u8] + length (concat (map host_encode_int [300])), [300]) ()"
  by (rule firmware_reads_command) (simp_all add: demo_parser_def)

text \<open>
  A clock that lies less than \<open>2^31\<close> ticks before or behind the last known one is
  recovered exactly from its low 32 bits.
\<close>

theorem clock_extension_exact:
  assumes "- (2 ^ 31) \<le> d" "d < 2 ^ 31"
  shows "clock_from_clock32 lc (ucast (lc + of_int d)) = lc + of_int d"
  by (rule clock_from_clock32_exact [OF assms])

theorem clock_extension_exact_witness:
  "clock_from_clock32 0x1fffffff0 (ucast (0x1fffffff0 + of_int 0x20 :: u64)) = 0x200000010"
  using clock_extension_exact [of "0x20" "0x1fffffff0"] by simp

section \<open>The size of a message with a buffer\<close>

text \<open>The encoder of \<open>identify_response\<close>.\<close>

definition identify_encoder :: command_encoder where
  "identify_encoder = \<lparr>ce_msg_id = 0, ce_max_size = 64, ce_param_types = [PT_uint32, PT_progmem_buffer]\<rparr>"

text \<open>
  The room for a buffer argument is measured from its length byte, so a buffer as long as
  the room makes the message one byte longer than the size declared for it; with the largest
  size the result is longer than any block the receiver accepts.
\<close>

theorem buffer_overruns_max_size:
  "\<exists>out. command_encodef False identify_encoder [VInt 0, VInt 60, VPtr (replicate 60 1)] cmd_init = Ret (65, out) cmd_init \<and>
     ce_max_size identify_encoder = 64 \<and> MESSAGE_MAX = 64"
proof -
  have e: "encode_int 0 = [0]" by (simp add: encode_int_def vlq_last_def)
  have "sint (60 :: u32) = 60" by simp
  then show ?thesis
    by (simp add: command_encodef_def identify_encoder_def message_consts va_int_def e)
qed

end
