(* ===== verification/Timing.thy ===== *)
theory Timing
  imports Prelude
begin

text \<open>
  The 32-bit clock of the micro-controller (\<open>klipper/src/generic/timer_irq.c\<close>): conversion of
  microseconds to ticks and the wrap-around comparison \<open>timer_is_before\<close>. Times are ordered
  through their offset from a base: the comparison is a strict order on any window of less
  than \<open>2^31\<close> ticks after the base, which is what the timer list relies on.
\<close>

section \<open>Definitions\<close>

text \<open>\<open>freq\<close> is the build constant \<open>CONFIG_CLOCK_FREQ\<close>.\<close>

definition timer_from_us :: "u32 \<Rightarrow> u32 \<Rightarrow> u32" where
  "timer_from_us freq us = us * (freq div 1000000)"

definition timer_is_before :: "u32 \<Rightarrow> u32 \<Rightarrow> bool" where
  "timer_is_before time1 time2 \<longleftrightarrow> sint (time1 - time2) < 0"

text \<open>Offset of a time from a base.\<close>

definition off :: "u32 \<Rightarrow> u32 \<Rightarrow> nat" where
  "off b w = unat (w - b)"

section \<open>Order of times\<close>

lemma before_unat: "timer_is_before a b \<longleftrightarrow> 2 ^ 31 \<le> unat (a - b)"
  by (simp add: timer_is_before_def sint_neg_iff_unat)

lemma before_irrefl [simp]: "\<not> timer_is_before a a"
  by (simp add: before_unat)

lemma off_self [simp]: "off b b = 0"
  by (simp add: off_def)

lemma off_less: "off b w < 2 ^ 32"
  using unsigned_less [of "w - b"] by (simp add: off_def)

lemma unat_diff_off:
  "unat (a - c) = (if off b c \<le> off b a then off b a - off b c else 2 ^ 32 + off b a - off b c)"
proof -
  have "a - c = (a - b) - (c - b)" by simp
  then show ?thesis
    using unat_minus_wrap [of "a - b" "c - b"] by (simp add: off_def)
qed

lemma before_off:
  assumes "off b x < 2 ^ 31" "off b y < 2 ^ 31"
  shows "timer_is_before x y \<longleftrightarrow> off b x < off b y"
  using assms by (auto simp: before_unat unat_diff_off [where b = b])

lemma before_antipode: "timer_is_before w (p + 0x80000000) \<longleftrightarrow> \<not> timer_is_before w p"
proof -
  have o: "off p (p + 0x80000000) = 2 ^ 31" by (simp add: off_def)
  have "off p w < 2 ^ 32" by (rule off_less)
  then show ?thesis
    by (auto simp: before_unat unat_diff_off [where b = p and a = w] o)
qed

lemma off_inj: "off b x = off b y \<Longrightarrow> x = y"
proof -
  assume "off b x = off b y"
  then have "x - b = y - b" by (simp only: off_def unsigned_word_eqI)
  then show "x = y" by simp
qed

lemma off_add:
  assumes "off b w + unat d < 2 ^ 32"
  shows "off b (w + d) = off b w + unat d"
proof -
  have e: "w + d - b = (w - b) + d" by simp
  have "unat (w - b) + unat d < 2 ^ LENGTH(32)" using assms by (simp add: off_def)
  then have "unat ((w - b) + d) = unat (w - b) + unat d" by (rule unat_add_lem [THEN iffD1])
  then show ?thesis by (simp only: off_def e)
qed

lemma off_antipode: "off b p < 2 ^ 31 \<Longrightarrow> off b (p + 0x80000000) = off b p + 2 ^ 31"
  by (subst off_add) simp_all

text \<open>Times moved from one base to a later one.\<close>

lemma off_rebase:
  assumes "off b c \<le> off b w"
  shows "off c w = off b w - off b c"
  using assms unat_diff_off [of w c b] by (simp add: off_def)

text \<open>A delay shorter than half the clock range leads to a later time.\<close>

lemma not_before_add: "unat d < 2 ^ 31 \<Longrightarrow> \<not> timer_is_before (t + d) t"
  by (simp add: before_unat)

lemma before_add: "0 < unat d \<Longrightarrow> unat d \<le> 2 ^ 31 \<Longrightarrow> timer_is_before t (t + d)"
proof -
  assume d: "0 < unat d" "unat d \<le> 2 ^ 31"
  have "t - (t + d) = 0 - d" by simp
  moreover have "unat (0 - d) = 2 ^ 32 - unat d"
    using d unat_minus_wrap [of 0 d] by simp
  ultimately show ?thesis using d by (simp add: before_unat)
qed

end
