(* ===== verification/Sched.thy ===== *)
theory Sched
  imports Timing
begin

text \<open>
  The scheduler of the firmware, \<open>klipper/src/sched.c\<close> with the types of
  \<open>klipper/src/sched.h\<close>: the linked list of timers, waking of tasks, the main loop round and
  shutdown handling. Timers are nodes of an explicit store, named by the object that embeds
  them; the store holds their \<open>next\<close> pointers, callbacks and wake times. Definitions only:
  the theory \<open>Sched_List\<close> relates the store to lists.
\<close>

section \<open>State\<close>

text \<open>
  The address of a \<open>struct timer\<close>: one of the scheduler's own, the board's wrap timer, or the
  \<open>k\<close>-th timer embedded in the object with the given oid.
\<close>

datatype tid = TPeriodic | TSentinel | TDeleted | TWrap | TObj nat nat

text \<open>The timer callbacks of the modelled files, as values of \<open>func\<close> pointers.\<close>

datatype timer_func =
    Fn_periodic_event | Fn_sentinel_event | Fn_deleted_event | Fn_timer_wrap_event
  | Fn_stepper_event_full | Fn_trsync_report_event | Fn_trsync_expire_event
  | Fn_endstop_event | Fn_endstop_oversample_event
  | Fn_digital_toggle_event | Fn_digital_load_event | Fn_pwm_event | Fn_pwm_end_event
  | Fn_analog_in_event | Fn_buttons_event | Fn_counter_event
  | Fn_tmcuart_read_event | Fn_tmcuart_read_sync_event | Fn_tmcuart_send_finish_event
  | Fn_tmcuart_send_event | Fn_tmcuart_send_sync_event
  | Fn_thermocouple_event | Fn_angle_event | Fn_adxl345_event | Fn_lis2dw_event
  | Fn_mpu9250_event

record timer =
  t_next :: "tid option"
  t_func :: "timer_func option"
  waketime :: u32

datatype sf = SF_DONE | SF_RESCHEDULE

text \<open>Arguments of a response: integers or bytes.\<close>

datatype rarg = RInt u32 | RBytes "u8 list"

text \<open>
  \<open>SchedStatus\<close>, the timers, the static counter of \<open>sched_add_timer\<close>, the responses passed to
  \<open>sendf\<close> (latest last, named by the first word of the format) and the number of calls of
  \<open>timer_kick\<close>.
\<close>

record sched =
  timers :: "tid \<Rightarrow> timer"
  timer_list :: tid
  last_insert :: tid
  tasks_status :: int
  shutdown_status :: u8
  shutdown_reason :: string
  too_close_c :: int
  sent :: "(string \<times> rarg list) list"
  kicks :: nat

definition sendf :: "string \<Rightarrow> rarg list \<Rightarrow> 'a sched_scheme \<Rightarrow> 'a sched_scheme" where
  "sendf fmt args s = s\<lparr>sent := sent s @ [(fmt, args)]\<rparr>"

definition timer_kick :: "'a sched_scheme \<Rightarrow> 'a sched_scheme" where
  "timer_kick s = s\<lparr>kicks := Suc (kicks s)\<rparr>"

text \<open>Assignments to fields of a timer.\<close>

definition set_next :: "tid \<Rightarrow> tid option \<Rightarrow> 'a sched_scheme \<Rightarrow> 'a sched_scheme" where
  "set_next t n s = s\<lparr>timers := (timers s)(t := (timers s t)\<lparr>t_next := n\<rparr>)\<rparr>"

definition set_wake :: "tid \<Rightarrow> u32 \<Rightarrow> 'a sched_scheme \<Rightarrow> 'a sched_scheme" where
  "set_wake t w s = s\<lparr>timers := (timers s)(t := (timers s t)\<lparr>waketime := w\<rparr>)\<rparr>"

definition set_func :: "tid \<Rightarrow> timer_func option \<Rightarrow> 'a sched_scheme \<Rightarrow> 'a sched_scheme" where
  "set_func t f s = s\<lparr>timers := (timers s)(t := (timers s t)\<lparr>t_func := f\<rparr>)\<rparr>"

abbreviation wake :: "'a sched_scheme \<Rightarrow> tid \<Rightarrow> u32" where
  "wake s t \<equiv> waketime (timers s t)"

section \<open>Tasks\<close>

definition TS_IDLE :: int where "TS_IDLE = -1"
definition TS_REQUESTED :: int where "TS_REQUESTED = 0"
definition TS_RUNNING :: int where "TS_RUNNING = 1"

definition sched_wake_tasks :: "'a sched_scheme \<Rightarrow> 'a sched_scheme" where
  "sched_wake_tasks s = s\<lparr>tasks_status := TS_REQUESTED\<rparr>"

definition sched_tasks_busy :: "'a sched_scheme \<Rightarrow> bool" where
  "sched_tasks_busy s \<longleftrightarrow> tasks_status s \<ge> TS_REQUESTED"

text \<open>\<open>upd\<close> and \<open>get\<close> access the \<open>wake\<close> byte of the \<open>struct task_wake\<close> passed.\<close>

definition sched_wake_task ::
    "((u8 \<Rightarrow> u8) \<Rightarrow> 'a sched_scheme \<Rightarrow> 'a sched_scheme) \<Rightarrow> 'a sched_scheme \<Rightarrow> 'a sched_scheme" where
  "sched_wake_task upd s = upd (\<lambda>_. 1) (sched_wake_tasks s)"

definition sched_check_wake ::
    "('a sched_scheme \<Rightarrow> u8) \<Rightarrow> ((u8 \<Rightarrow> u8) \<Rightarrow> 'a sched_scheme \<Rightarrow> 'a sched_scheme)
      \<Rightarrow> 'a sched_scheme \<Rightarrow> bool \<times> 'a sched_scheme" where
  "sched_check_wake get upd s = (if get s = 0 then (False, s) else (True, upd (\<lambda>_. 0) s))"

section \<open>Shutdown\<close>

definition sched_is_shutdown :: "'a sched_scheme \<Rightarrow> bool" where
  "sched_is_shutdown s \<longleftrightarrow> shutdown_status s \<noteq> 0"

definition sched_shutdown :: "string \<Rightarrow> 'a sched_scheme \<Rightarrow> ('a sched_scheme, 'b) res" where
  "sched_shutdown reason s = Shut reason s"

definition sched_try_shutdown :: "string \<Rightarrow> 'a sched_scheme \<Rightarrow> ('a sched_scheme, unit) res" where
  "sched_try_shutdown reason s =
     (if shutdown_status s = 0 then sched_shutdown reason s else Ret () s)"

definition sched_clear_shutdown :: "'a sched_scheme \<Rightarrow> ('a sched_scheme, unit) res" where
  "sched_clear_shutdown s =
     (if shutdown_status s = 0 then Shut ''Shutdown cleared when not shutdown'' s
      else if shutdown_status s = 2 then Ret () s
      else Ret () (s\<lparr>shutdown_status := 0\<rparr>))"

text \<open>The identifier of a static string is generated; \<open>str_id\<close> maps the text to it.\<close>

definition sched_report_shutdown :: "(string \<Rightarrow> u32) \<Rightarrow> 'a sched_scheme \<Rightarrow> 'a sched_scheme" where
  "sched_report_shutdown str_id s = sendf ''is_shutdown'' [RInt (str_id (shutdown_reason s))] s"

section \<open>Timers\<close>

text \<open>
  The walk of \<open>insert_timer\<close>: from \<open>pos\<close> to the first timer that \<open>w\<close> is before. The value
  is the pair \<open>prev, pos\<close> at the break, \<open>Some None\<close> if the walk follows the null pointer at the
  end of the list, \<open>None\<close> if it does not end.
\<close>

partial_function (option) insert_pos :: "(tid \<Rightarrow> timer) \<Rightarrow> tid \<Rightarrow> u32 \<Rightarrow> (tid \<times> tid) option option" where
  "insert_pos ts prev w =
     (case t_next (ts prev) of
        None \<Rightarrow> Some None
      | Some pos \<Rightarrow>
          if timer_is_before w (waketime (ts pos)) then Some (Some (prev, pos))
          else insert_pos ts pos w)"

definition insert_timer :: "tid \<Rightarrow> tid \<Rightarrow> u32 \<Rightarrow> 'a sched_scheme \<Rightarrow> ('a sched_scheme, unit) res" where
  "insert_timer pos t w s =
     (case insert_pos (timers s) pos w of
        Some (Some (prev, nx)) \<Rightarrow> Ret () (set_next prev (Some t) (set_next t (Some nx) s))
      | _ \<Rightarrow> Fault)"

text \<open>The last part of the first branch of \<open>sched_add_timer\<close>.\<close>

definition add_front :: "tid \<Rightarrow> u32 \<Rightarrow> 'a sched_scheme \<Rightarrow> 'a sched_scheme" where
  "add_front add w s =
     (let tl = timer_list s;
          s1 = (if tl = TDeleted then set_next add (t_next (timers s TDeleted)) s
                else set_next add (Some tl) s);
          s2 = set_next TDeleted (Some add) (set_wake TDeleted w s1)
      in timer_kick (s2\<lparr>timer_list := TDeleted\<rparr>))"

text \<open>
  \<open>now1\<close> and \<open>now2\<close> are the values of the two calls of \<open>timer_read_time\<close>. The expression
  \<open>timer_read_time()+0.001\<close> is computed in floating point and cut back to 32 bits when stored,
  which is the clock value read. \<open>try_shutdown\<close> does nothing once the firmware is shut down.
\<close>

definition sched_add_timer :: "u32 \<Rightarrow> u32 \<Rightarrow> tid \<Rightarrow> 'a sched_scheme \<Rightarrow> ('a sched_scheme, unit) res" where
  "sched_add_timer now1 now2 add s =
     (let w = wake s add; tl = timer_list s
      in if timer_is_before w (wake s tl) then
           (if timer_is_before w now1 then
              (let s1 = s\<lparr>too_close_c := too_close_c s + 1\<rparr>
               in if too_close_c s1 \<ge> 3 then
                    andthen (sched_try_shutdown ''Timer too close'' s1)
                      (\<lambda>s. Ret () (add_front add w s))
                  else
                    (let w2 = now2 in insert_timer tl add w2 (set_wake add w2 s1)))
            else Ret () (add_front add w s))
         else insert_timer tl add w s)"

text \<open>The search loop of \<open>sched_del_timer\<close>: the node whose \<open>next\<close> is \<open>del\<close>.\<close>

partial_function (option) find_prev :: "(tid \<Rightarrow> timer) \<Rightarrow> tid \<Rightarrow> tid \<Rightarrow> tid option option" where
  "find_prev ts pos del =
     (case t_next (ts pos) of
        None \<Rightarrow> Some None
      | Some n \<Rightarrow> if n = del then Some (Some pos) else find_prev ts n del)"

definition sched_del_timer :: "tid \<Rightarrow> 'a sched_scheme \<Rightarrow> ('a sched_scheme, unit) res" where
  "sched_del_timer del s =
     (let fin = (\<lambda>s. Ret () (if last_insert s = del then s\<lparr>last_insert := TPeriodic\<rparr> else s))
      in if timer_list s = del then
           fin ((set_next TDeleted (t_next (timers s del)) (set_wake TDeleted (wake s del) s))
                  \<lparr>timer_list := TDeleted\<rparr>)
         else
           (case find_prev (timers s) (timer_list s) del of
              None \<Rightarrow> Fault
            | Some None \<Rightarrow> fin s
            | Some (Some pos) \<Rightarrow> fin (set_next pos (t_next (timers s del)) s)))"

text \<open>The scheduler's own callbacks; \<open>freq\<close> is \<open>CONFIG_CLOCK_FREQ\<close>.\<close>

definition periodic_event :: "u32 \<Rightarrow> 'a sched_scheme \<Rightarrow> ('a sched_scheme, sf) res" where
  "periodic_event freq s =
     (let s1 = sched_wake_tasks s;
          s2 = set_wake TPeriodic (wake s1 TPeriodic + timer_from_us freq 100000) s1
      in Ret SF_RESCHEDULE (set_wake TSentinel (wake s2 TPeriodic + 0x80000000) s2))"

definition sentinel_event :: "'a sched_scheme \<Rightarrow> ('a sched_scheme, sf) res" where
  "sentinel_event s = Shut ''sentinel timer called'' s"

definition deleted_event :: "'a sched_scheme \<Rightarrow> ('a sched_scheme, sf) res" where
  "deleted_event s = Ret SF_DONE s"

text \<open>
  \<open>call f t\<close> is the call of a callback: of \<open>t->func\<close>, or of \<open>stepper_event\<close> for a null
  \<open>func\<close> when the stepper is inlined. The value is the wake time returned to the board.
\<close>

definition sched_timer_dispatch ::
    "(timer_func option \<Rightarrow> tid \<Rightarrow> 'a sched_scheme \<Rightarrow> ('a sched_scheme, sf) res)
      \<Rightarrow> 'a sched_scheme \<Rightarrow> ('a sched_scheme, u32) res" where
  "sched_timer_dispatch call s =
     (let t = timer_list s
      in bnd (call (t_func (timers s t)) t s)
        (\<lambda>res s.
           let updated = wake s t
           in case t_next (timers s t) of
                None \<Rightarrow> Fault
              | Some nx \<Rightarrow>
                  if res = SF_DONE then
                    Ret (wake s nx)
                      (s\<lparr>timer_list := nx,
                         last_insert := (if last_insert s = t then nx else last_insert s)\<rparr>)
                  else if \<not> timer_is_before updated (wake s nx) then
                    (let next_waketime = wake s nx;
                         s1 = s\<lparr>timer_list := nx\<rparr>;
                         pos = (if timer_is_before updated (wake s1 (last_insert s1))
                                then timer_list s1 else last_insert s1)
                     in andthen (insert_timer pos t updated s1)
                          (\<lambda>s. Ret next_waketime (s\<lparr>last_insert := t\<rparr>)))
                  else Ret updated s))"

definition sched_timer_reset :: "'a sched_scheme \<Rightarrow> 'a sched_scheme" where
  "sched_timer_reset s =
     (let s1 = s\<lparr>timer_list := TDeleted\<rparr>;
          s2 = set_wake TDeleted (wake s1 TPeriodic) s1;
          s3 = set_next TDeleted (Some TPeriodic) (s2\<lparr>last_insert := TPeriodic\<rparr>)
      in timer_kick (set_next TPeriodic (Some TSentinel) s3))"

section \<open>Shutdown handlers and the main loop\<close>

text \<open>\<open>shutdownfuncs\<close> is the generated \<open>ctr_run_shutdownfuncs\<close>; \<open>cur\<close> the clock read.\<close>

definition run_shutdown ::
    "(string \<Rightarrow> u32) \<Rightarrow> ('a sched_scheme \<Rightarrow> ('a sched_scheme, unit) res) \<Rightarrow> u32 \<Rightarrow> string
      \<Rightarrow> 'a sched_scheme \<Rightarrow> ('a sched_scheme, unit) res" where
  "run_shutdown str_id shutdownfuncs cur reason s =
     (let s1 = (if shutdown_status s = 0 then s\<lparr>shutdown_reason := reason\<rparr> else s);
          s2 = sched_timer_reset (s1\<lparr>shutdown_status := 2\<rparr>)
      in andthen (shutdownfuncs s2)
           (\<lambda>s. Ret () (sendf ''shutdown'' [RInt cur, RInt (str_id (shutdown_reason s))]
                          (s\<lparr>shutdown_status := 1\<rparr>))))"

text \<open>
  \<open>irq_wait\<close> in the sleep loop runs interrupts until one requests tasks; \<open>irqs\<close> lists what the
  interrupts do. The loop ends only when tasks are requested.
\<close>

fun sleep_loop :: "('a sched_scheme \<Rightarrow> ('a sched_scheme, unit) res) list
    \<Rightarrow> 'a sched_scheme \<Rightarrow> ('a sched_scheme, unit) res" where
  "sleep_loop [] s = Fault"
| "sleep_loop (irq # irqs) s =
     andthen (irq s) (\<lambda>s. if tasks_status s \<noteq> TS_REQUESTED then sleep_loop irqs s else Ret () s)"

text \<open>
  One round of \<open>run_tasks\<close>. \<open>t0\<close>, \<open>t1\<close> and \<open>cur\<close> are the clock reads of the round, \<open>irqs\<close> the
  interrupts while sleeping, \<open>taskfuncs\<close> the generated list of tasks; the value is the new
  \<open>start\<close>.
\<close>

definition run_tasks_round ::
    "('a sched_scheme \<Rightarrow> ('a sched_scheme, unit) res) list
      \<Rightarrow> ('a sched_scheme \<Rightarrow> ('a sched_scheme, unit) res)
      \<Rightarrow> (u32 \<Rightarrow> u32 \<Rightarrow> 'a sched_scheme \<Rightarrow> 'a sched_scheme)
      \<Rightarrow> u32 \<Rightarrow> u32 \<Rightarrow> u32 \<Rightarrow> u32 \<Rightarrow> 'a sched_scheme \<Rightarrow> ('a sched_scheme, u32) res" where
  "run_tasks_round irqs taskfuncs stats_update t0 t1 cur start s =
     bnd (if tasks_status s \<noteq> TS_REQUESTED
          then andthen (sleep_loop irqs (s\<lparr>tasks_status := TS_IDLE\<rparr>)) (Ret (start - t0 + t1))
          else Ret start s)
       (\<lambda>start s.
          andthen (taskfuncs (s\<lparr>tasks_status := TS_RUNNING\<rparr>))
            (\<lambda>s. Ret cur (stats_update start cur s)))"

text \<open>
  Control after \<open>setjmp\<close> in \<open>sched_main\<close>: a shutdown out of the tasks or of an interrupt runs
  the shutdown handlers and re-enters the task loop.
\<close>

definition sched_main_resume ::
    "(string \<Rightarrow> u32) \<Rightarrow> ('a sched_scheme \<Rightarrow> ('a sched_scheme, unit) res) \<Rightarrow> u32
      \<Rightarrow> ('a sched_scheme, 'b) res \<Rightarrow> ('a sched_scheme, unit) res" where
  "sched_main_resume str_id shutdownfuncs cur r =
     (case r of
        Ret _ s \<Rightarrow> Ret () s
      | Shut reason s \<Rightarrow> run_shutdown str_id shutdownfuncs cur reason s
      | Fault \<Rightarrow> Fault)"

text \<open>The state at startup, from the static initialisers.\<close>

definition timers_init :: "tid \<Rightarrow> timer" where
  "timers_init t =
     (case t of
        TPeriodic \<Rightarrow> \<lparr>t_next = Some TSentinel, t_func = Some Fn_periodic_event, waketime = 0\<rparr>
      | TSentinel \<Rightarrow> \<lparr>t_next = None, t_func = Some Fn_sentinel_event, waketime = 0x80000000\<rparr>
      | TDeleted \<Rightarrow> \<lparr>t_next = None, t_func = Some Fn_deleted_event, waketime = 0\<rparr>
      | TWrap \<Rightarrow> \<lparr>t_next = None, t_func = Some Fn_timer_wrap_event, waketime = 0xffffff\<rparr>
      | TObj _ _ \<Rightarrow> \<lparr>t_next = None, t_func = None, waketime = 0\<rparr>)"

definition sched_init :: sched where
  "sched_init = \<lparr>timers = timers_init, timer_list = TPeriodic, last_insert = TPeriodic,
     tasks_status = 0, shutdown_status = 0, shutdown_reason = [], too_close_c = 0,
     sent = [], kicks = 0\<rparr>"

end
