(* ===== verification/Sched_List.thy ===== *)
theory Sched_List
  imports Sched
begin

text \<open>
  The linked list of timers as a list: what the walk of \<open>insert_timer\<close> finds, and that
  adding, removing, dispatching and resetting timers implement insertion into, deletion from and
  rotation of a list ordered by wake time, for lists within half a clock range of a base time
  \<open>b\<close>. The locale \<open>timer_queue\<close> is the contract the firmware modules use.
\<close>

section \<open>Linked segments\<close>

fun seg :: "(tid \<Rightarrow> timer) \<Rightarrow> tid option \<Rightarrow> tid list \<Rightarrow> tid option \<Rightarrow> bool" where
  "seg ts p [] q \<longleftrightarrow> p = q"
| "seg ts p (x # xs) q \<longleftrightarrow> p = Some x \<and> seg ts (t_next (ts x)) xs q"

lemma seg_append: "seg ts p (xs @ ys) q \<longleftrightarrow> (\<exists>r. seg ts p xs r \<and> seg ts r ys q)"
  by (induction xs arbitrary: p) auto

lemma seg_cong: "(\<And>x. x \<in> set xs \<Longrightarrow> t_next (ts x) = t_next (ts' x)) \<Longrightarrow> seg ts p xs q = seg ts' p xs q"
  by (induction xs arbitrary: p) auto

lemma seg_upd [simp]: "y \<notin> set xs \<Longrightarrow> seg (ts(y := v)) p xs q = seg ts p xs q"
  by (rule seg_cong) auto

lemma seg_upd_next [simp]: "t_next v = t_next (ts y) \<Longrightarrow> seg (ts(y := v)) p xs q = seg ts p xs q"
  by (rule seg_cong) auto

lemma seg_None [simp]: "seg ts None xs q \<longleftrightarrow> xs = [] \<and> q = None"
  by (cases xs) auto

section \<open>Timer stores\<close>

text \<open>What the assignments change.\<close>

lemma timers_set [simp]:
  "timers (set_next t n s) = (timers s)(t := (timers s t)\<lparr>t_next := n\<rparr>)"
  "timers (set_wake t w s) = (timers s)(t := (timers s t)\<lparr>waketime := w\<rparr>)"
  "timers (set_func t f s) = (timers s)(t := (timers s t)\<lparr>t_func := f\<rparr>)"
  "timers (timer_kick s) = timers s"
  "timers (sendf m args s) = timers s"
  "timers (sched_wake_tasks s) = timers s"
  by (simp_all add: set_next_def set_wake_def set_func_def timer_kick_def sendf_def
      sched_wake_tasks_def)

lemma timer_list_set [simp]:
  "timer_list (set_next t n s) = timer_list s"
  "timer_list (set_wake t w s) = timer_list s"
  "timer_list (set_func t f s) = timer_list s"
  "timer_list (timer_kick s) = timer_list s"
  "timer_list (sendf m args s) = timer_list s"
  "timer_list (sched_wake_tasks s) = timer_list s"
  by (simp_all add: set_next_def set_wake_def set_func_def timer_kick_def sendf_def
      sched_wake_tasks_def)

lemma last_insert_set [simp]:
  "last_insert (set_next t n s) = last_insert s"
  "last_insert (set_wake t w s) = last_insert s"
  "last_insert (set_func t f s) = last_insert s"
  "last_insert (timer_kick s) = last_insert s"
  "last_insert (sendf m args s) = last_insert s"
  "last_insert (sched_wake_tasks s) = last_insert s"
  by (simp_all add: set_next_def set_wake_def set_func_def timer_kick_def sendf_def
      sched_wake_tasks_def)

lemma too_close_c_set [simp]:
  "too_close_c (set_next t n s) = too_close_c s"
  "too_close_c (set_wake t w s) = too_close_c s"
  "too_close_c (timer_kick s) = too_close_c s"
  by (simp_all add: set_next_def set_wake_def timer_kick_def)

lemma more_set [simp]:
  "sched.more (set_next t n s) = sched.more s"
  "sched.more (set_wake t w s) = sched.more s"
  "sched.more (set_func t f s) = sched.more s"
  "sched.more (timer_kick s) = sched.more s"
  "sched.more (sendf m args s) = sched.more s"
  "sched.more (sched_wake_tasks s) = sched.more s"
  by (simp_all add: set_next_def set_wake_def set_func_def timer_kick_def sendf_def
      sched_wake_tasks_def)

section \<open>Searches\<close>

abbreviation (input) upto :: "(tid \<Rightarrow> timer) \<Rightarrow> u32 \<Rightarrow> tid \<Rightarrow> bool" where
  "upto ts w x \<equiv> \<not> timer_is_before w (waketime (ts x))"

text \<open>The walk of \<open>insert_timer\<close> stops at the first timer of the list that \<open>w\<close> is before.\<close>

lemma insert_pos_found:
  assumes "seg ts (t_next (ts p)) xs None" "\<exists>x \<in> set xs. timer_is_before w (waketime (ts x))"
  shows "insert_pos ts p w =
    Some (Some (last (p # takeWhile (upto ts w) xs), hd (dropWhile (upto ts w) xs)))"
  using assms
proof (induction xs arbitrary: p)
  case Nil
  then show ?case by simp
next
  case (Cons x xs)
  show ?case
  proof (cases "timer_is_before w (waketime (ts x))")
    case True
    with Cons.prems show ?thesis by (simp add: insert_pos.simps [of ts p])
  next
    case False
    with Cons.prems Cons.IH [of x] show ?thesis by (simp add: insert_pos.simps [of ts p])
  qed
qed

text \<open>With no such timer it follows the null pointer at the end.\<close>

lemma insert_pos_not_found:
  assumes "seg ts (t_next (ts p)) xs None" "\<forall>x \<in> set xs. \<not> timer_is_before w (waketime (ts x))"
  shows "insert_pos ts p w = Some None"
  using assms by (induction xs arbitrary: p) (simp_all add: insert_pos.simps)


lemma find_prev_found:
  assumes "seg ts (t_next (ts p)) (xs @ [d]) q" "d \<notin> set xs"
  shows "find_prev ts p d = Some (Some (last (p # xs)))"
  using assms
proof (induction xs arbitrary: p)
  case Nil
  then show ?case by (simp add: find_prev.simps)
next
  case (Cons x xs)
  then show ?case by (auto simp: find_prev.simps [of ts p])
qed

lemma find_prev_not_found:
  assumes "seg ts (t_next (ts p)) xs None" "d \<notin> set xs"
  shows "find_prev ts p d = Some None"
  using assms by (induction xs arbitrary: p) (auto simp: find_prev.simps)

section \<open>Linking and unlinking\<close>

text \<open>The two assignments of \<open>insert_timer\<close> put \<open>t\<close> between \<open>prev\<close> and its successor.\<close>

lemma seg_link:
  assumes "seg ts p (xs @ ys) q" "xs \<noteq> []" "ys \<noteq> []" "distinct (xs @ ys)" "t \<notin> set (xs @ ys)"
  shows "seg (ts(t := (ts t)\<lparr>t_next := Some (hd ys)\<rparr>, last xs := (ts (last xs))\<lparr>t_next := Some t\<rparr>))
           p (xs @ t # ys) q"
proof -
  obtain zs z where xs: "xs = zs @ [z]" using assms(2) by (cases xs rule: rev_cases) auto
  obtain y ws where ys: "ys = y # ws" using assms(3) by (cases ys) auto
  show ?thesis using assms unfolding xs ys by (auto simp: seg_append)
qed

lemma last_not_in: "xs \<noteq> [] \<Longrightarrow> t \<notin> set (xs @ ys) \<Longrightarrow> last xs \<noteq> t"
  using last_in_set by auto

text \<open>The assignment of \<open>sched_del_timer\<close> takes \<open>d\<close> out.\<close>

lemma seg_unlink:
  assumes "seg ts p (xs @ d # ys) q" "xs \<noteq> []" "distinct (xs @ d # ys)"
  shows "seg (ts(last xs := (ts (last xs))\<lparr>t_next := t_next (ts d)\<rparr>)) p (xs @ ys) q"
proof -
  obtain zs z where xs: "xs = zs @ [z]" using assms(2) by (cases xs rule: rev_cases) auto
  show ?thesis using assms(1,3) unfolding xs by (auto simp: seg_append)
qed

section \<open>Lists ordered by a key\<close>

text \<open>\<open>t\<close> goes behind the elements whose key is at most \<open>n\<close>: later additions run later.\<close>

definition insert_at :: "('i \<Rightarrow> nat) \<Rightarrow> nat \<Rightarrow> 'i \<Rightarrow> 'i list \<Rightarrow> 'i list" where
  "insert_at k n t xs = takeWhile (\<lambda>x. k x \<le> n) xs @ t # dropWhile (\<lambda>x. k x \<le> n) xs"

lemma insert_at_simps [simp]:
  "insert_at k n t [] = [t]"
  "insert_at k n t (x # xs) = (if k x \<le> n then x # insert_at k n t xs else t # x # xs)"
  by (simp_all add: insert_at_def)

lemma set_insert_at [simp]: "set (insert_at k n t xs) = insert t (set xs)"
  by (induction xs) auto

lemma distinct_insert_at [simp]: "distinct (insert_at k n t xs) \<longleftrightarrow> t \<notin> set xs \<and> distinct xs"
  by (induction xs) auto

lemma length_insert_at [simp]: "length (insert_at k n t xs) = Suc (length xs)"
  by (induction xs) auto

lemma insert_at_not_Nil [simp]: "insert_at k n t xs \<noteq> []"
  by (cases xs) auto

lemma sorted_insert_at: "sorted (map k xs) \<Longrightarrow> k t = n \<Longrightarrow> sorted (map k (insert_at k n t xs))"
  by (induction xs) auto

lemma insert_at_append_le: "\<forall>x \<in> set xs. k x \<le> n \<Longrightarrow> insert_at k n t (xs @ ys) = xs @ insert_at k n t ys"
  by (induction xs) auto

lemma insert_at_first: "\<forall>x \<in> set xs. n < k x \<Longrightarrow> insert_at k n t xs = t # xs"
  by (cases xs) auto

lemma insert_at_cong: "(\<And>x. x \<in> set xs \<Longrightarrow> k x = k' x) \<Longrightarrow> insert_at k n t xs = insert_at k' n t xs"
  by (induction xs) auto

lemma filter_insert_at_out: "\<not> P t \<Longrightarrow> filter P (insert_at k n t xs) = filter P xs"
  by (induction xs) auto

lemma filter_neq_id: "t \<notin> set xs \<Longrightarrow> filter (\<lambda>x. x \<noteq> t) xs = xs"
  by (auto simp: filter_id_conv)

lemma insert_at_remove: "t \<notin> set xs \<Longrightarrow> filter (\<lambda>x. x \<noteq> t) (insert_at k n t xs) = xs"
  by (induction xs) (auto simp: filter_id_conv)

section \<open>Well-formed timer lists\<close>

text \<open>
  \<open>sched_ok b s xs\<close>: \<open>xs\<close> are the timers linked from \<open>timer_list\<close> without the sentinel that
  ends the list. The deleted timer occurs only in front, the periodic timer always; all wake
  times lie in the half clock range that starts at \<open>b\<close> and are in order; the sentinel is half a
  clock range behind the periodic timer.
\<close>

definition key :: "u32 \<Rightarrow> 'a sched_scheme \<Rightarrow> tid \<Rightarrow> nat" where
  "key b s x = off b (wake s x)"

definition window :: "u32 \<Rightarrow> 'a sched_scheme \<Rightarrow> tid list \<Rightarrow> bool" where
  "window b s xs \<longleftrightarrow> sorted (map (key b s) xs) \<and> (\<forall>x \<in> set xs. key b s x < 2 ^ 31)"

definition sched_ok :: "u32 \<Rightarrow> 'a sched_scheme \<Rightarrow> tid list \<Rightarrow> bool" where
  "sched_ok b s xs \<longleftrightarrow>
     seg (timers s) (Some (timer_list s)) (xs @ [TSentinel]) None \<and>
     distinct (xs @ [TSentinel]) \<and> TPeriodic \<in> set xs \<and> TDeleted \<notin> set (tl xs) \<and>
     last_insert s \<in> set xs \<and> last_insert s \<noteq> TDeleted \<and>
     wake s TSentinel = wake s TPeriodic + 0x80000000 \<and> window b s xs"

text \<open>The timers that wait to run, the periodic timer among them.\<close>

definition pending :: "tid list \<Rightarrow> tid list" where
  "pending xs = filter (\<lambda>x. x \<noteq> TDeleted) xs"

lemma key_cong: "wake s x = wake s' x \<Longrightarrow> key b s x = key b s' x"
  by (simp add: key_def)

lemma window_Cons:
  "window b s (x # xs) \<longleftrightarrow> key b s x < 2 ^ 31 \<and> (\<forall>y \<in> set xs. key b s x \<le> key b s y) \<and> window b s xs"
  by (auto simp: window_def)

lemma window_cong:
  "(\<And>x. x \<in> set xs \<Longrightarrow> wake s x = wake s' x) \<Longrightarrow> window b s xs = window b s' xs"
proof (induction xs)
  case (Cons x xs)
  then have "wake s y = wake s' y" if "y \<in> set (x # xs)" for y using that by blast
  with Cons.IH show ?case by (simp add: window_Cons key_def)
qed (simp add: window_def)

lemma window_append:
  "window b s (xs @ ys) \<longleftrightarrow> window b s xs \<and> window b s ys \<and>
     (\<forall>x \<in> set xs. \<forall>y \<in> set ys. key b s x \<le> key b s y)"
  by (auto simp: window_def sorted_append)

lemma window_updates [simp]:
  "window b (s\<lparr>timer_list := x\<rparr>) xs = window b s xs"
  "window b (s\<lparr>last_insert := x\<rparr>) xs = window b s xs"
  by (rule window_cong, simp)+

lemma window_insert_at:
  "window b s xs \<Longrightarrow> key b s t < 2 ^ 31 \<Longrightarrow> window b s (insert_at (key b s) (key b s t) t xs)"
  by (simp add: window_def sorted_insert_at)

lemma window_filter: "window b s xs \<Longrightarrow> window b s (filter P xs)"
  by (induction xs) (auto simp: window_Cons)

lemma sched_ok_cong:
  assumes "timers s' = timers s" "timer_list s' = timer_list s" "last_insert s' = last_insert s"
  shows "sched_ok b s' xs \<longleftrightarrow> sched_ok b s xs"
proof -
  have "window b s' xs = window b s xs" using assms(1) by (intro window_cong) simp
  with assms show ?thesis by (simp add: sched_ok_def)
qed

lemma sched_ok_links:
  assumes "\<And>x. t_next (timers s' x) = t_next (timers s x)" "\<And>x. wake s' x = wake s x"
    "timer_list s' = timer_list s" "last_insert s' = last_insert s"
  shows "sched_ok b s' xs \<longleftrightarrow> sched_ok b s xs"
proof -
  have "window b s' xs = window b s xs" using assms(2) by (intro window_cong)
  moreover have "seg (timers s') p xs' q = seg (timers s) p xs' q" for p xs' q using assms(1) by (intro seg_cong)
  ultimately show ?thesis using assms(2-) by (simp add: sched_ok_def)
qed

text \<open>The base moves forward with time as long as it stays before every pending timer.\<close>

lemma key_rebase: "off b c \<le> key b s x \<Longrightarrow> key c s x = key b s x - off b c"
  unfolding key_def by (rule off_rebase)

lemma window_rebase:
  "window b s xs \<Longrightarrow> (\<forall>x \<in> set xs. off b c \<le> key b s x) \<Longrightarrow> window c s xs"
proof (induction xs)
  case (Cons x xs)
  then have w: "window c s xs" by (simp add: window_Cons)
  have k: "key c s y = key b s y - off b c" if "y \<in> set (x # xs)" for y
    using Cons.prems(2) that by (intro key_rebase) blast
  from Cons.prems(1) have "key b s x < 2 ^ 31" "\<forall>y \<in> set xs. key b s x \<le> key b s y"
    by (simp_all add: window_Cons)
  then show ?case using w k by (simp add: window_Cons less_imp_diff_less diff_le_mono)
qed (simp add: window_def)

lemma sched_ok_rebase:
  "sched_ok b s xs \<Longrightarrow> (\<forall>x \<in> set xs. off b c \<le> key b s x) \<Longrightarrow> sched_ok c s xs"
  by (auto simp: sched_ok_def intro: window_rebase)

lemma before_key:
  "off b w < 2 ^ 31 \<Longrightarrow> key b s x < 2 ^ 31 \<Longrightarrow> timer_is_before w (wake s x) \<longleftrightarrow> off b w < key b s x"
  by (simp add: key_def before_off)

section \<open>Insertion\<close>

lemma insert_timer_at:
  assumes "insert_pos (timers s) p w = Some (Some (a, b))" "a \<noteq> t"
  shows "insert_timer p t w s = Ret () (s\<lparr>timers := (timers s)
    (t := (timers s t)\<lparr>t_next := Some b\<rparr>, a := (timers s a)\<lparr>t_next := Some t\<rparr>)\<rparr>)"
  using assms by (simp add: insert_timer_def set_next_def)

text \<open>
  \<open>insert_timer\<close> started at a timer of the list that \<open>w\<close> is not before: it finds the place of
  an ordered insertion into the rest, as long as something there (at the latest the sentinel)
  stops the walk.
\<close>

lemma insert_timer_list:
  assumes seg: "seg (timers s) q (ys @ zs @ [TSentinel]) None" and ys: "ys \<noteq> []"
    and dist: "distinct (ys @ zs @ [TSentinel])" and t: "t \<notin> set (ys @ zs @ [TSentinel])"
    and w: "off b w < 2 ^ 31" and win: "\<forall>x \<in> set zs. key b s x < 2 ^ 31"
    and stop: "\<exists>x \<in> set (zs @ [TSentinel]). timer_is_before w (wake s x)"
  shows "\<exists>ts. insert_timer (last ys) t w s = Ret () (s\<lparr>timers := ts\<rparr>) \<and>
    seg ts q (ys @ insert_at (key b s) (off b w) t zs @ [TSentinel]) None \<and>
    (\<forall>x. waketime (ts x) = wake s x)"
proof -
  let ?P = "upto (timers s) w"
  let ?l = "takeWhile ?P (zs @ [TSentinel])" and ?r = "dropWhile ?P (zs @ [TSentinel])"
  obtain us u where u: "ys = us @ [u]" using ys by (cases ys rule: rev_cases) auto
  have "seg (timers s) (t_next (timers s u)) (zs @ [TSentinel]) None"
    using seg unfolding u by (auto simp: seg_append)
  from insert_pos_found [OF this stop]
  have found: "insert_pos (timers s) u w = Some (Some (last (u # ?l), hd ?r))" .
  have r: "?r \<noteq> []" using stop by (auto simp: dropWhile_eq_Nil_conv)
  have split: "ys @ zs @ [TSentinel] = (ys @ ?l) @ ?r" by simp
  have seg2: "seg (timers s) q ((ys @ ?l) @ ?r) None" using seg by (simp only: split)
  have d2: "distinct ((ys @ ?l) @ ?r)" using dist by (simp only: split)
  have t2: "t \<notin> set ((ys @ ?l) @ ?r)" by (rule t [unfolded split])
  have last: "last (u # ?l) = last (ys @ ?l)" by (simp add: u)
  define ts where "ts = (timers s)(t := (timers s t)\<lparr>t_next := Some (hd ?r)\<rparr>,
    last (ys @ ?l) := (timers s (last (ys @ ?l)))\<lparr>t_next := Some t\<rparr>)"
  have ne: "last (ys @ ?l) \<noteq> t" by (rule last_not_in [OF _ t2]) (simp add: ys)
  have "insert_timer u t w s = Ret () (s\<lparr>timers := ts\<rparr>)"
    unfolding ts_def by (rule insert_timer_at [OF found [unfolded last] ne])
  moreover have "seg ts q ((ys @ ?l) @ t # ?r) None"
    unfolding ts_def by (rule seg_link [OF seg2 _ r d2 t2]) (simp add: ys)
  moreover have "?l @ t # ?r = insert_at (key b s) (off b w) t zs @ [TSentinel]"
  proof -
    have P: "?P x \<longleftrightarrow> key b s x \<le> off b w" if "x \<in> set zs" for x
      using before_key [OF w bspec [OF win that]] by auto
    show ?thesis
    proof (cases "\<exists>x \<in> set zs. \<not> ?P x")
      case True
      then obtain x where "x \<in> set zs" "\<not> ?P x" by blast
      then have "?l = takeWhile ?P zs" "?r = dropWhile ?P zs @ [TSentinel]"
        by (simp_all add: takeWhile_append1 dropWhile_append1)
      moreover have "takeWhile ?P zs = takeWhile (\<lambda>x. key b s x \<le> off b w) zs"
        "dropWhile ?P zs = dropWhile (\<lambda>x. key b s x \<le> off b w) zs"
        using P by (auto cong: takeWhile_cong dropWhile_cong)
      ultimately show ?thesis by (simp add: insert_at_def)
    next
      case False
      then have all: "\<forall>x \<in> set zs. ?P x" by blast
      with stop have "\<not> ?P TSentinel" by auto
      with all have "?l = zs" "?r = [TSentinel]"
        by (simp_all add: takeWhile_append2 dropWhile_append2)
      moreover have "insert_at (key b s) (off b w) t (zs @ []) = zs @ [t]"
        by (subst insert_at_append_le) (use all P in auto)
      ultimately show ?thesis by simp
    qed
  qed
  moreover have "\<forall>x. waketime (ts x) = wake s x" by (simp add: ts_def)
  ultimately show ?thesis by (auto simp: u)
qed

text \<open>Something of a well-formed list stops the walk: the periodic timer or the sentinel.\<close>

lemma sentinel_stops:
  assumes "wake s TSentinel = wake s TPeriodic + 0x80000000"
  shows "timer_is_before w (wake s TPeriodic) \<or> timer_is_before w (wake s TSentinel)"
  by (simp add: assms before_antipode)

lemma wake_stops:
  assumes "wake s TSentinel = wake s TPeriodic + 0x80000000" "TPeriodic \<in> set zs \<or> \<not> timer_is_before w (wake s TPeriodic)"
  shows "\<exists>x \<in> set (zs @ [TSentinel]). timer_is_before w (wake s x)"
  using sentinel_stops [OF assms(1), of w] assms(2) by auto

section \<open>Adding a timer\<close>

lemma pending_Cons: "TDeleted \<notin> set xs \<Longrightarrow> pending (x # xs) = (if x = TDeleted then xs else x # xs)"
  by (auto simp: pending_def filter_id_conv)

lemma sched_ok_Cons:
  "sched_ok b s xs \<Longrightarrow> \<exists>rest. xs = timer_list s # rest \<and> TDeleted \<notin> set rest"
  by (cases xs) (auto simp: sched_ok_def)

lemma head_least: "sched_ok b s xs \<Longrightarrow> x \<in> set xs \<Longrightarrow> key b s (timer_list s) \<le> key b s x"
  using sched_ok_Cons [of b s xs] by (auto simp: sched_ok_def window_Cons)

lemma head_in: "sched_ok b s xs \<Longrightarrow> timer_list s \<in> set xs"
  using sched_ok_Cons [of b s xs] by auto

lemma sched_ok_key: "sched_ok b s xs \<Longrightarrow> x \<in> set xs \<Longrightarrow> key b s x < 2 ^ 31"
  by (simp add: sched_ok_def window_def)

text \<open>A timer before all others: the deleted timer goes in front of it.\<close>

lemma add_front_ok:
  assumes ok: "sched_ok b s xs" and t: "t \<notin> set xs" "t \<noteq> TSentinel" "t \<noteq> TDeleted"
    and w: "off b w < 2 ^ 31" "w = wake s t" and before: "timer_is_before w (wake s (timer_list s))"
  shows "\<exists>ys. sched_ok b (add_front t w s) ys \<and> pending ys = t # pending xs"
proof -
  obtain h rest where xs: "xs = h # rest" and h: "h = timer_list s" and nd: "TDeleted \<notin> set rest"
    using sched_ok_Cons [OF ok] by auto
  define old where "old = pending xs"
  have old: "old = (if h = TDeleted then rest else h # rest)" by (simp add: old_def xs pending_Cons nd)
  have lt: "off b w < key b s h" using before w ok by (simp add: h [symmetric] before_key sched_ok_def xs window_Cons)
  let ?s = "add_front t w s" and ?ys = "TDeleted # t # old"
  have wk: "wake ?s x = (if x = TDeleted then w else wake s x)" for x
    using t by (auto simp: add_front_def Let_def h)
  have kt: "key b s t < 2 ^ 31" using w unfolding key_def by simp
  have wo: "window b s old" using ok by (auto simp: old xs sched_ok_def window_Cons)
  have le: "\<forall>y \<in> set old. key b s t < key b s y"
    using ok lt by (auto simp: old xs sched_ok_def window_Cons key_def w(2))
  have kk: "key b ?s x = key b s (if x = TDeleted then t else x)" for x
    unfolding key_def wk using w(2) by simp
  have nold: "TDeleted \<notin> set old" using nd by (auto simp: old)
  have "window b ?s old = window b s old" using nold by (intro window_cong) (auto simp: wk)
  then have win: "window b ?s ?ys"
    using wo kt le nold t(3) unfolding window_Cons kk by (auto simp: less_imp_le)
  have seg: "seg (timers ?s) (Some (timer_list ?s)) (?ys @ [TSentinel]) None"
    using ok t nd by (auto simp: add_front_def Let_def sched_ok_def xs old h)
  have li: "last_insert ?s = last_insert s" by (simp add: add_front_def Let_def)
  have "sched_ok b ?s ?ys"
    using seg win ok t nold wk unfolding sched_ok_def li by (auto simp: old xs)
  moreover have "pending ?ys = t # pending xs" using t(3) by (simp add: old_def pending_def)
  ultimately show ?thesis by blast
qed

lemma add_front_wake:
  "wake (add_front t w s) x = (if x = TDeleted then w else wake s x)"
  "sched.more (add_front t w s) = sched.more s"
  by (auto simp: add_front_def Let_def)

text \<open>Any other timer goes to its place behind the head of the list.\<close>

lemma insert_behind_head:
  assumes ok: "sched_ok b s xs" and t: "t \<notin> set xs" "t \<noteq> TSentinel" "t \<noteq> TDeleted"
    and w: "key b s t < 2 ^ 31" and before: "\<not> timer_is_before (wake s t) (wake s (timer_list s))"
  shows "\<exists>s' ys. insert_timer (timer_list s) t (wake s t) s = Ret () s' \<and> sched_ok b s' ys \<and>
    pending ys = insert_at (key b s) (key b s t) t (pending xs) \<and>
    (\<forall>x. wake s' x = wake s x) \<and> sched.more s' = sched.more s"
proof -
  obtain rest where xs: "xs = timer_list s # rest" and nd: "TDeleted \<notin> set rest"
    using sched_ok_Cons [OF ok] by auto
  let ?k = "key b s" and ?n = "off b (wake s t)"
  have n: "?n = key b s t" by (simp add: key_def)
  have le: "?k (timer_list s) \<le> ?n"
    using before before_key [of b "wake s t" s] w ok by (simp add: n sched_ok_def xs window_Cons not_less)
  have stop: "\<exists>x \<in> set (rest @ [TSentinel]). timer_is_before (wake s t) (wake s x)"
    using ok before by (intro wake_stops) (auto simp: sched_ok_def xs)
  obtain ts where i: "insert_timer (last [timer_list s]) t (wake s t) s = Ret () (s\<lparr>timers := ts\<rparr>)"
    and sg: "seg ts (Some (timer_list s)) ([timer_list s] @ insert_at ?k ?n t rest @ [TSentinel]) None"
    and wk: "\<forall>x. waketime (ts x) = wake s x"
    using insert_timer_list [of s "Some (timer_list s)" "[timer_list s]" rest t b "wake s t"]
      ok t w stop by (auto simp: sched_ok_def xs window_Cons n window_def)
  let ?s = "s\<lparr>timers := ts\<rparr>" and ?ys = "timer_list s # insert_at ?k ?n t rest"
  have ys: "?ys = insert_at ?k ?n t xs" using le by (simp add: xs)
  have "window b ?s ?ys = window b s (insert_at ?k ?n t xs)"
    unfolding ys using wk by (intro window_cong) simp
  then have win: "window b ?s ?ys" using window_insert_at [of b s xs t] ok w by (simp add: sched_ok_def n)
  have "sched_ok b ?s ?ys"
    using sg win ok t nd wk unfolding sched_ok_def by (auto simp: xs)
  moreover have "pending ?ys = insert_at ?k ?n t (pending xs)"
    using t le nd by (simp add: xs pending_Cons)
  ultimately show ?thesis using i wk unfolding n by auto
qed

lemma sched_add_timer_ok:
  assumes ok: "sched_ok b s xs" and t: "t \<notin> set xs" "t \<noteq> TSentinel" "t \<noteq> TDeleted"
    and w: "key b s t < 2 ^ 31"
    and soon: "timer_is_before (wake s t) (wake s (timer_list s)) \<Longrightarrow> \<not> timer_is_before (wake s t) now1"
  shows "\<exists>s' ys. sched_add_timer now1 now2 t s = Ret () s' \<and> sched_ok b s' ys \<and>
    pending ys = insert_at (key b s) (key b s t) t (pending xs) \<and>
    (\<forall>x. x \<noteq> TDeleted \<longrightarrow> wake s' x = wake s x) \<and> sched.more s' = sched.more s"
proof (cases "timer_is_before (wake s t) (wake s (timer_list s))")
  case True
  have "off b (wake s t) < 2 ^ 31" using w by (simp add: key_def)
  from add_front_ok [OF ok t this refl True]
  obtain ys where ys: "sched_ok b (add_front t (wake s t) s) ys" "pending ys = t # pending xs" by blast
  have "off b (wake s t) < key b s (timer_list s)"
    using True before_key [OF \<open>off b (wake s t) < 2 ^ 31\<close> sched_ok_key [OF ok head_in [OF ok]]] by blast
  then have "key b s t < key b s (timer_list s)" by (simp add: key_def)
  then have "\<forall>x \<in> set xs. key b s t < key b s x"
    using head_least [OF ok] by (auto intro: less_le_trans)
  then have "insert_at (key b s) (key b s t) t (pending xs) = t # pending xs"
    by (intro insert_at_first) (simp add: pending_def)
  moreover have "sched_add_timer now1 now2 t s = Ret () (add_front t (wake s t) s)"
    using True soon by (simp add: sched_add_timer_def Let_def)
  ultimately show ?thesis using ys by (auto simp: add_front_wake)
next
  case False
  with insert_behind_head [OF ok t w] show ?thesis by (auto simp: sched_add_timer_def Let_def)
qed

section \<open>Removing a timer\<close>

lemma sched_del_timer_ok:
  assumes ok: "sched_ok b s xs" and t: "t \<noteq> TPeriodic" "t \<noteq> TSentinel" "t \<noteq> TDeleted"
  shows "\<exists>s' ys. sched_del_timer t s = Ret () s' \<and> sched_ok b s' ys \<and>
    pending ys = filter (\<lambda>x. x \<noteq> t) (pending xs) \<and>
    (\<forall>x. x \<noteq> TDeleted \<longrightarrow> wake s' x = wake s x) \<and> sched.more s' = sched.more s"
proof -
  obtain rest where xs: "xs = timer_list s # rest" and nd: "TDeleted \<notin> set rest"
    using sched_ok_Cons [OF ok] by auto
  let ?li = "if last_insert s = t then TPeriodic else last_insert s"
  show ?thesis
  proof (cases "timer_list s = t")
    case True
    let ?s = "(set_next TDeleted (t_next (timers s t)) (set_wake TDeleted (wake s t) s))
      \<lparr>timer_list := TDeleted, last_insert := ?li\<rparr>" and ?ys = "TDeleted # rest"
    have del: "sched_del_timer t s = Ret () ?s" using True by (auto simp: sched_del_timer_def)
    have wk: "wake ?s x = (if x = TDeleted then wake s t else wake s x)" for x by simp
    have "window b ?s rest = window b s rest" using nd by (intro window_cong) auto
    moreover have "key b ?s TDeleted = key b s t" "\<forall>y \<in> set rest. key b ?s y = key b s y"
      using nd by (auto simp: key_def)
    ultimately have win: "window b ?s ?ys"
      using ok True by (auto simp: xs sched_ok_def window_Cons)
    have sg: "seg (timers ?s) (Some TDeleted) (?ys @ [TSentinel]) None"
      using ok True nd by (auto simp: sched_ok_def xs)
    have "sched_ok b ?s ?ys"
      using sg win ok nd t wk True unfolding sched_ok_def by (auto simp: xs)
    moreover have "pending ?ys = filter (\<lambda>x. x \<noteq> t) (pending xs)"
      using ok nd True t by (auto simp: xs pending_Cons sched_ok_def filter_neq_id)
    ultimately show ?thesis using del by auto
  next
    case False
    show ?thesis
    proof (cases "t \<in> set rest")
      case True
      then obtain us vs where r: "rest = us @ t # vs" by (meson split_list)
      let ?p = "last (timer_list s # us)"
      have sg0: "seg (timers s) (Some (timer_list s)) ((timer_list s # us) @ t # vs @ [TSentinel]) None"
        and d: "distinct ((timer_list s # us) @ t # vs @ [TSentinel])"
        using ok by (simp_all add: sched_ok_def xs r)
      have "seg (timers s) (t_next (timers s (timer_list s))) (us @ [t]) (t_next (timers s t))"
        using sg0 by (auto simp: seg_append)
      then have fp: "find_prev (timers s) (timer_list s) t = Some (Some ?p)"
        by (rule find_prev_found) (use d in simp)
      let ?s = "(set_next ?p (t_next (timers s t)) s)\<lparr>last_insert := ?li\<rparr>"
      let ?ys = "timer_list s # us @ vs"
      have del: "sched_del_timer t s = Ret () ?s"
        using False fp by (auto simp: sched_del_timer_def Let_def simp del: last.simps)
      have sg: "seg (timers ?s) (Some (timer_list s)) (?ys @ [TSentinel]) None"
        using seg_unlink [OF sg0 _ d] by (simp del: last.simps)
      have "window b ?s ?ys = window b s ?ys" by (intro window_cong) auto
      then have win: "window b ?s ?ys" using ok by (simp add: sched_ok_def xs r window_Cons window_append)
      have "sched_ok b ?s ?ys"
        using sg win ok nd t False unfolding sched_ok_def by (auto simp: xs r)
      moreover have "?ys = filter (\<lambda>x. x \<noteq> t) xs"
        using d False by (simp add: xs r filter_neq_id)
      then have "pending ?ys = filter (\<lambda>x. x \<noteq> t) (pending xs)"
        by (simp only: pending_def filter_filter conj_commute)
      moreover have "\<forall>x. wake ?s x = wake s x" by simp
      ultimately show ?thesis using del by (auto simp del: last.simps)
    next
      case nin: False
      have "find_prev (timers s) (timer_list s) t = Some None"
        by (rule find_prev_not_found [of _ _ "rest @ [TSentinel]"])
          (use ok nin t in \<open>auto simp: sched_ok_def xs\<close>)
      moreover have "last_insert s \<noteq> t" using ok nin False by (auto simp: sched_ok_def xs)
      ultimately have "sched_del_timer t s = Ret () s" using False by (simp add: sched_del_timer_def)
      moreover have "pending xs = filter (\<lambda>x. x \<noteq> t) (pending xs)"
        using nin False by (simp add: pending_def xs filter_neq_id)
      ultimately show ?thesis using ok by auto
    qed
  qed
qed

section \<open>Dispatching the head\<close>

text \<open>
  \<open>dispatch_ok b s t rest\<close> describes the state after the callback of the head \<open>t\<close>: the
  callback may have changed the wake time of \<open>t\<close> (and, for the periodic timer, the sentinel's)
  and added or removed timers behind \<open>t\<close>, but \<open>t\<close> is still in front.
\<close>

definition dispatch_ok :: "u32 \<Rightarrow> 'a sched_scheme \<Rightarrow> tid \<Rightarrow> tid list \<Rightarrow> bool" where
  "dispatch_ok b s t rest \<longleftrightarrow>
     timer_list s = t \<and> seg (timers s) (Some t) (t # rest @ [TSentinel]) None \<and>
     distinct (t # rest @ [TSentinel]) \<and> TDeleted \<notin> set rest \<and> TPeriodic \<in> set (t # rest) \<and>
     last_insert s \<in> set (t # rest) \<and> last_insert s \<noteq> TDeleted \<and>
     wake s TSentinel = wake s TPeriodic + 0x80000000 \<and> window b s rest"

lemma sched_ok_dispatch_ok: "sched_ok b s (t # rest) \<Longrightarrow> dispatch_ok b s t rest"
  by (auto simp: sched_ok_def dispatch_ok_def window_Cons)

lemma dispatch_done:
  assumes "dispatch_ok b s1 t rest" "t \<noteq> TPeriodic"
    and "call (t_func (timers s (timer_list s))) (timer_list s) s = Ret SF_DONE s1" "timer_list s = t"
  shows "\<exists>s2. sched_timer_dispatch call s = Ret (wake s2 (timer_list s2)) s2 \<and> sched_ok b s2 rest \<and>
    timers s2 = timers s1 \<and> sched.more s2 = sched.more s1"
proof -
  from assms obtain nx us where rest: "rest = nx # us" by (cases rest) (auto simp: dispatch_ok_def)
  show ?thesis
    using assms by (auto simp: sched_timer_dispatch_def Let_def dispatch_ok_def sched_ok_def rest)
qed

text \<open>
  Rescheduling: starting the walk at \<open>last_insert\<close> instead of the head finds the same place.
\<close>

lemma insert_timer_self:
  assumes "t_next (timers s t) = Some nx" "\<not> timer_is_before w (wake s nx)"
  shows "insert_timer t t w s = insert_timer nx t w s"
  using assms by (simp add: insert_timer_def insert_pos.simps [of _ t])

lemma dispatch_resched:
  assumes ok: "dispatch_ok b s1 t rest" and t: "t \<noteq> TDeleted" and w: "key b s1 t < 2 ^ 31"
    and call: "call (t_func (timers s (timer_list s))) (timer_list s) s = Ret SF_RESCHEDULE s1"
    and tl: "timer_list s = t"
  shows "\<exists>s2. sched_timer_dispatch call s = Ret (wake s2 (timer_list s2)) s2 \<and>
    sched_ok b s2 (insert_at (key b s1) (key b s1 t) t rest) \<and>
    (\<forall>x. wake s2 x = wake s1 x) \<and> sched.more s2 = sched.more s1"
proof -
  let ?w = "wake s1 t" and ?n = "key b s1 t"
  have n: "off b ?w = ?n" by (simp add: key_def)
  have wr: "window b s1 rest" and tr: "t \<notin> set rest" and nx: "t_next (timers s1 t) = Some (hd (rest @ [TSentinel]))"
    using ok by (auto simp: dispatch_ok_def seg_append hd_append split: list.splits)
      (cases rest; auto)+
  have before: "timer_is_before ?w (wake s1 x) \<longleftrightarrow> ?n < key b s1 x" if "x \<in> set rest" for x
    using before_key [of b ?w s1 x] w wr that by (simp add: n window_def)
  show ?thesis
  proof (cases "timer_is_before ?w (wake s1 (hd (rest @ [TSentinel])))")
    case True
    have "\<forall>x \<in> set rest. ?n < key b s1 x"
    proof (cases rest)
      case (Cons y ys)
      with True before wr have "?n < key b s1 y" "\<forall>x \<in> set ys. key b s1 y \<le> key b s1 x"
        by (auto simp: window_Cons)
      then show ?thesis by (auto simp: Cons)
    qed simp
    then have "insert_at (key b s1) ?n t rest = t # rest" "window b s1 (t # rest)"
      using wr w by (auto simp: window_Cons insert_at_first less_imp_le)
    moreover have "sched_timer_dispatch call s = Ret ?w s1"
      using True nx call tl by (simp add: sched_timer_dispatch_def Let_def)
    ultimately show ?thesis using ok by (auto simp: dispatch_ok_def sched_ok_def)
  next
    case False
    then have "rest \<noteq> []" using ok by (auto simp: dispatch_ok_def before_antipode)
    then obtain nx us where rest: "rest = nx # us" by (cases rest) auto
    let ?s = "s1\<lparr>timer_list := nx\<rparr>"
    define pos where "pos = (if timer_is_before ?w (wake s1 (last_insert s1)) then nx else last_insert s1)"
    have nxle: "key b s1 nx \<le> ?n" using False before by (simp add: rest)
    obtain ys zs where split: "rest = ys @ zs" and ys: "ys \<noteq> []" and le: "\<forall>x \<in> set ys. key b s1 x \<le> ?n"
      and pos: "insert_timer pos t ?w ?s = insert_timer (last ys) t ?w ?s"
    proof (cases "pos = nx \<or> pos = t")
      case True
      then have "insert_timer pos t ?w ?s = insert_timer nx t ?w ?s"
        using insert_timer_self [of ?s t nx ?w] nx False by (auto simp: rest)
      then show ?thesis using that [of "[nx]" us] nxle by (simp add: rest)
    next
      case F: False
      then have "pos \<in> set rest" "\<not> timer_is_before ?w (wake s1 pos)"
        using ok by (auto simp: pos_def dispatch_ok_def split: if_splits)
      then obtain us vs where r: "rest = (us @ [pos]) @ vs" "key b s1 pos \<le> ?n"
        using before by (metis append.assoc append_Cons append_Nil linorder_not_less split_list)
      then show ?thesis using that [of "us @ [pos]" vs] wr by (fastforce simp: window_append window_Cons)
    qed
    have stop: "\<exists>x \<in> set (zs @ [TSentinel]). timer_is_before ?w (wake ?s x)"
    proof (rule wake_stops)
      show "TPeriodic \<in> set zs \<or> \<not> timer_is_before ?w (wake ?s TPeriodic)"
        using ok le before [of TPeriodic] by (auto simp: dispatch_ok_def split not_less)
    qed (use ok in \<open>simp add: dispatch_ok_def\<close>)
    have "seg (timers ?s) (Some nx) (ys @ zs @ [TSentinel]) None" "distinct (ys @ zs @ [TSentinel])"
      "t \<notin> set (ys @ zs @ [TSentinel])"
      using ok nx by (auto simp: dispatch_ok_def rest [symmetric] append_assoc [symmetric] split [symmetric]
          simp del: append_assoc) (simp_all add: rest)
    note i = insert_timer_list [OF this(1) ys this(2,3) _ _ stop, of b]
    have keys: "key b ?s = key b s1" by (simp add: key_def fun_eq_iff)
    obtain ts where ins: "insert_timer pos t ?w ?s = Ret () (?s\<lparr>timers := ts\<rparr>)"
      and sg: "seg ts (Some nx) (ys @ insert_at (key b s1) ?n t zs @ [TSentinel]) None"
      and wk: "\<forall>x. waketime (ts x) = wake s1 x"
      using i w wr unfolding pos keys by (auto simp: n split window_def)
    let ?s2 = "?s\<lparr>timers := ts, last_insert := t\<rparr>" and ?xs = "insert_at (key b s1) ?n t rest"
    have xs: "?xs = ys @ insert_at (key b s1) ?n t zs" unfolding split by (rule insert_at_append_le [OF le])
    have "window b ?s2 ?xs = window b s1 ?xs" using wk by (intro window_cong) simp
    then have win: "window b ?s2 ?xs" using window_insert_at [OF wr w] by simp
    have d: "distinct (?xs @ [TSentinel])" "TPeriodic \<in> set ?xs" "TDeleted \<notin> set ?xs" "t \<in> set ?xs"
      "wake s1 TSentinel = wake s1 TPeriodic + 0x80000000"
      using ok t by (auto simp: dispatch_ok_def)
    have ntl: "TDeleted \<notin> set (tl ?xs)" using d(3) by (cases ?xs) simp_all
    have sg': "seg ts (Some nx) (?xs @ [TSentinel]) None" using sg by (simp add: xs)
    have "sched_ok b ?s2 ?xs"
      unfolding sched_ok_def using sg' win d ntl t wk by simp
    moreover have "sched_timer_dispatch call s = Ret (wake ?s2 nx) ?s2"
      using ins False nx call tl wk
      by (simp add: sched_timer_dispatch_def Let_def rest pos_def split: if_splits)
    ultimately show ?thesis using wk by auto
  qed
qed

section \<open>What the operations leave alone\<close>

lemma insert_timer_frame:
  "insert_timer pos t w s = Ret u s' \<Longrightarrow> s' = s\<lparr>timers := timers s'\<rparr>"
  by (auto simp: insert_timer_def set_next_def split: option.splits)

lemma sched_del_frame:
  "sched_del_timer t s = Ret u s' \<Longrightarrow>
    s' = s\<lparr>timers := timers s', timer_list := timer_list s', last_insert := last_insert s'\<rparr>"
  by (auto simp: sched_del_timer_def Let_def set_next_def set_wake_def split: option.splits if_splits)

lemma sched_add_frame:
  "sched_add_timer now1 now2 t s = Ret u s' \<Longrightarrow>
    s' = s\<lparr>timers := timers s', timer_list := timer_list s', too_close_c := too_close_c s',
      kicks := kicks s'\<rparr>"
  by (auto simp: sched_add_timer_def Let_def sched_try_shutdown_def sched_shutdown_def insert_timer_def
      add_front_def set_next_def set_wake_def timer_kick_def split: if_splits option.splits)

section \<open>The scheduler's own timers, reset and startup\<close>

lemma deleted_event_dispatch_ok:
  "sched_ok b s (TDeleted # rest) \<Longrightarrow> deleted_event s = Ret SF_DONE s \<and> dispatch_ok b s TDeleted rest"
  by (simp add: deleted_event_def sched_ok_dispatch_ok)

text \<open>The periodic timer moves on by 100ms and takes the sentinel with it.\<close>

lemma periodic_event_dispatch_ok:
  assumes "sched_ok b s (TPeriodic # rest)"
  shows "\<exists>s1. periodic_event freq s = Ret SF_RESCHEDULE s1 \<and> dispatch_ok b s1 TPeriodic rest \<and>
    wake s1 TPeriodic = wake s TPeriodic + timer_from_us freq 100000 \<and>
    (\<forall>x. x \<noteq> TPeriodic \<longrightarrow> x \<noteq> TSentinel \<longrightarrow> wake s1 x = wake s x) \<and>
    tasks_status s1 = TS_REQUESTED \<and> sched.more s1 = sched.more s"
proof -
  let ?s1 = "snd (case periodic_event freq s of Ret r s1 \<Rightarrow> (r, s1))"
  have "window b ?s1 rest = window b s rest"
    using assms by (intro window_cong) (auto simp: periodic_event_def Let_def sched_ok_def)
  then show ?thesis
    using assms
    by (auto simp: periodic_event_def Let_def dispatch_ok_def sched_ok_def window_Cons
        sched_wake_tasks_def set_wake_def)
qed

lemma sched_timer_reset_ok:
  assumes "sched_ok b s xs"
  shows "sched_ok b (sched_timer_reset s) [TDeleted, TPeriodic]"
    "t_next (timers s TSentinel) = None \<Longrightarrow> pending [TDeleted, TPeriodic] = [TPeriodic]"
  using assms by (auto simp: sched_timer_reset_def Let_def sched_ok_def pending_def seg_append
      window_def key_def set_next_def set_wake_def timer_kick_def)

lemma sched_init_ok: "sched_ok 0 sched_init [TPeriodic]"
  by (simp add: sched_ok_def sched_init_def timers_init_def window_def key_def)

section \<open>Timers added too late\<close>

text \<open>The state in which the walk starts when the wake time has been moved to \<open>now2\<close>.\<close>

definition moved_late :: "u32 \<Rightarrow> tid \<Rightarrow> 'a sched_scheme \<Rightarrow> 'a sched_scheme" where
  "moved_late now2 t s = set_wake t now2 (s\<lparr>too_close_c := too_close_c s + 1\<rparr>)"

lemma moved_late_simps [simp]:
  "timer_list (moved_late n t s) = timer_list s"
  "last_insert (moved_late n t s) = last_insert s"
  "wake (moved_late n t s) x = (if x = t then n else wake s x)"
  "t_next (timers (moved_late n t s) x) = t_next (timers s x)"
  "sched.more (moved_late n t s) = sched.more s"
  by (simp_all add: moved_late_def)

lemma moved_late_ok:
  assumes "sched_ok b s xs" "t \<notin> set xs" "t \<noteq> TSentinel"
  shows "sched_ok b (moved_late now2 t s) xs"
proof -
  have "window b (moved_late now2 t s) xs = window b s xs" using assms by (intro window_cong) auto
  moreover have "seg (timers (moved_late now2 t s)) p ys q = seg (timers s) p ys q" for p ys q
    by (rule seg_cong) simp
  ultimately show ?thesis using assms by (auto simp: sched_ok_def)
qed

lemma sched_add_timer_late:
  assumes "timer_is_before (wake s t) (wake s (timer_list s))" "timer_is_before (wake s t) now1"
    "too_close_c s < 2"
  shows "sched_add_timer now1 now2 t s = insert_timer (timer_list s) t now2 (moved_late now2 t s)"
  using assms by (simp add: sched_add_timer_def Let_def moved_late_def)

text \<open>
  If the head of the list is due, a late timer is moved to the current time and takes its place
  in order.
\<close>

lemma late_timer_moved:
  assumes ok: "sched_ok b s xs" and t: "t \<notin> set xs" "t \<noteq> TSentinel" "t \<noteq> TDeleted"
    and late: "timer_is_before (wake s t) (wake s (timer_list s))" "timer_is_before (wake s t) now1"
    "too_close_c s < 2"
    and due: "off b now2 < 2 ^ 31" "\<not> timer_is_before now2 (wake s (timer_list s))"
  shows "\<exists>s' ys. sched_add_timer now1 now2 t s = Ret () s' \<and> sched_ok b s' ys \<and>
    pending ys = insert_at (key b s) (off b now2) t (pending xs) \<and> wake s' t = now2"
proof -
  let ?m = "moved_late now2 t s"
  have nt: "timer_list s \<noteq> t" using t(1) head_in [OF ok] by auto
  have k: "key b ?m t = off b now2" by (simp add: key_def)
  have wt: "wake ?m t = now2" by simp
  have "key b ?m t < 2 ^ 31" using due(1) by (simp only: k)
  moreover have "\<not> timer_is_before (wake ?m t) (wake ?m (timer_list ?m))" using due(2) nt by simp
  ultimately obtain s' ys where "insert_timer (timer_list ?m) t (wake ?m t) ?m = Ret () s'"
    "sched_ok b s' ys" "pending ys = insert_at (key b ?m) (key b ?m t) t (pending xs)"
    "\<forall>x. wake s' x = wake ?m x"
    using insert_behind_head [OF moved_late_ok [OF ok t(1,2)] t] by blast
  moreover have "insert_at (key b ?m) n t (pending xs) = insert_at (key b s) n t (pending xs)" for n
    using t by (intro insert_at_cong) (auto simp: pending_def key_def)
  ultimately show ?thesis
    using sched_add_timer_late [OF late] by (auto simp: k wt)
qed

text \<open>
  If only the periodic timer is pending and not yet due, the walk passes the sentinel: the moved
  time is before the periodic timer, so by the wrap-around comparison it is not before the
  sentinel, and the walk follows the sentinel's null pointer.
\<close>

lemma late_timer_null:
  assumes ok: "sched_ok b s [TPeriodic]" and t: "t \<noteq> TPeriodic" "t \<noteq> TSentinel"
    and late: "timer_is_before (wake s t) (wake s TPeriodic)" "timer_is_before (wake s t) now1"
    "too_close_c s < 2" and idle: "timer_is_before now2 (wake s TPeriodic)"
  shows "sched_add_timer now1 now2 t s = Fault"
proof -
  let ?m = "moved_late now2 t s"
  have tl: "timer_list s = TPeriodic" using ok by (auto simp: sched_ok_def)
  have sen: "wake s TSentinel = wake s TPeriodic + 0x80000000" using ok by (simp add: sched_ok_def)
  have "insert_pos (timers ?m) TPeriodic now2 = Some None"
  proof (rule insert_pos_not_found)
    show "seg (timers ?m) (t_next (timers ?m TPeriodic)) [TSentinel] None"
      using moved_late_ok [OF ok, of t now2] t by (simp add: sched_ok_def)
    show "\<forall>x \<in> set [TSentinel]. \<not> timer_is_before now2 (wake ?m x)"
      using idle t by (simp add: sen before_antipode)
  qed
  then show ?thesis
    using late by (simp add: sched_add_timer_late tl insert_timer_def)
qed

text \<open>With another timer behind the head, the moved timer goes behind a head that is later.\<close>

lemma late_timer_behind_head:
  assumes ok: "sched_ok b s (h # r # rest)" and t: "t \<notin> set (h # r # rest)" "t \<noteq> TSentinel"
    and late: "timer_is_before (wake s t) (wake s h)" "timer_is_before (wake s t) now1"
    "too_close_c s < 2" and now2: "off b now2 < 2 ^ 31" "timer_is_before now2 (wake s h)"
  shows "\<exists>s'. sched_add_timer now1 now2 t s = Ret () s' \<and>
    seg (timers s') (Some h) (h # t # r # rest @ [TSentinel]) None \<and>
    timer_list s' = h \<and> timer_is_before (wake s' t) (wake s' h)"
proof -
  let ?m = "moved_late now2 t s"
  have tl: "timer_list s = h" using ok by (simp add: sched_ok_def)
  have ht: "h \<noteq> t" using t by auto
  have mok: "sched_ok b ?m (h # r # rest)" using moved_late_ok [OF ok t] .
  have "off b now2 < key b ?m r"
    using now2 ht t(1) before_key [OF now2(1) sched_ok_key [OF ok, of h]] ok
    by (auto simp: sched_ok_def window_Cons key_def)
  then have br: "timer_is_before now2 (wake ?m r)"
    using before_key [OF now2(1) sched_ok_key [OF mok, of r]] by simp
  have sg: "seg (timers ?m) (Some h) (h # r # rest @ [TSentinel]) None"
    using mok by (simp add: sched_ok_def tl)
  then have "insert_pos (timers ?m) h now2 = Some (Some (h, r))"
    using br by (simp add: insert_pos.simps)
  note i = insert_timer_at [OF this ht]
  have "distinct ([h] @ r # rest @ [TSentinel])" using ok by (auto simp: sched_ok_def)
  moreover have "t \<notin> set ([h] @ r # rest @ [TSentinel])" using t by auto
  ultimately have "seg ((timers ?m)(t := (timers ?m t)\<lparr>t_next := Some r\<rparr>,
      h := (timers ?m h)\<lparr>t_next := Some t\<rparr>)) (Some h) ([h] @ t # r # rest @ [TSentinel]) None"
    using seg_link [of "timers ?m" "Some h" "[h]" "r # rest @ [TSentinel]" None t] sg by simp
  then show ?thesis
    using late now2 ht by (simp add: sched_add_timer_late tl i)
qed

text \<open>The counter stops the firmware at the third late timer since power-up.\<close>

lemma late_timer_shutdown:
  assumes "timer_is_before (wake s t) (wake s (timer_list s))" "timer_is_before (wake s t) now1"
    "2 \<le> too_close_c s" "shutdown_status s = 0"
  shows "\<exists>s'. sched_add_timer now1 now2 t s = Shut ''Timer too close'' s'"
  using assms by (simp add: sched_add_timer_def Let_def sched_try_shutdown_def sched_shutdown_def)

lemma too_close_c_reset: "too_close_c (sched_timer_reset s) = too_close_c s"
  by (simp add: sched_timer_reset_def Let_def)

section \<open>The timer queue as the modules use it\<close>

text \<open>
  The contract of \<open>sched_add_timer\<close> and \<open>sched_del_timer\<close>: \<open>ok b s q\<close> says that the
  queue of state \<open>s\<close> is \<open>q\<close>, with all times in the half clock range from \<open>b\<close>; \<open>rest\<close> is
  the part of the state that is not the scheduler's.
\<close>

locale timer_queue =
  fixes ok :: "u32 \<Rightarrow> 's \<Rightarrow> 'i list \<Rightarrow> bool"
    and add :: "u32 \<Rightarrow> u32 \<Rightarrow> 'i \<Rightarrow> 's \<Rightarrow> ('s, unit) res"
    and del :: "'i \<Rightarrow> 's \<Rightarrow> ('s, unit) res"
    and setw :: "'i \<Rightarrow> u32 \<Rightarrow> 's \<Rightarrow> 's"
    and wk :: "'s \<Rightarrow> 'i \<Rightarrow> u32"
    and user :: "'i \<Rightarrow> bool"
    and rest :: "'s \<Rightarrow> 'r"
  assumes add_law: "ok b s q \<Longrightarrow> user t \<Longrightarrow> t \<notin> set q \<Longrightarrow> off b (wk s t) < 2 ^ 31 \<Longrightarrow>
      \<not> timer_is_before (wk s t) now1 \<Longrightarrow>
      \<exists>s'. add now1 now2 t s = Ret () s' \<and>
        ok b s' (insert_at (\<lambda>x. off b (wk s x)) (off b (wk s t)) t q) \<and>
        (\<forall>x. user x \<longrightarrow> wk s' x = wk s x) \<and> rest s' = rest s"
    and del_law: "ok b s q \<Longrightarrow> user t \<Longrightarrow>
      \<exists>s'. del t s = Ret () s' \<and> ok b s' (filter (\<lambda>x. x \<noteq> t) q) \<and>
        (\<forall>x. user x \<longrightarrow> wk s' x = wk s x) \<and> rest s' = rest s"
    and setw_law: "ok b s q \<Longrightarrow> user t \<Longrightarrow> t \<notin> set q \<Longrightarrow> ok b (setw t w s) q"
      "wk (setw t w s) x = (if x = t then w else wk s x)" "rest (setw t w s) = rest s"
    and ordered: "ok b s q \<Longrightarrow> sorted (map (\<lambda>x. off b (wk s x)) q)"
    and once: "ok b s q \<Longrightarrow> distinct q"
begin

text \<open>The sequence with which the modules start or restart a timer.\<close>

definition rearm :: "u32 \<Rightarrow> u32 \<Rightarrow> 'i \<Rightarrow> u32 \<Rightarrow> 's \<Rightarrow> ('s, unit) res" where
  "rearm now1 now2 t w s = andthen (del t s) (\<lambda>s. add now1 now2 t (setw t w s))"

lemma rearm_ok:
  assumes "ok b s q" "user t" "off b w < 2 ^ 31" "\<not> timer_is_before w now1"
  shows "\<exists>s' q'. rearm now1 now2 t w s = Ret () s' \<and> ok b s' q' \<and> wk s' t = w \<and>
    set q' = insert t (set q) \<and> filter (\<lambda>x. x \<noteq> t) q' = filter (\<lambda>x. x \<noteq> t) q \<and> rest s' = rest s"
proof -
  obtain s1 where 1: "del t s = Ret () s1" "ok b s1 (filter (\<lambda>x. x \<noteq> t) q)" "rest s1 = rest s"
    using del_law [OF assms(1,2)] by blast
  let ?q = "filter (\<lambda>x. x \<noteq> t) q"
  have "ok b (setw t w s1) ?q" using setw_law(1) [OF 1(2) assms(2)] by simp
  from add_law [OF this assms(2), of now1 now2]
  obtain s2 where 2: "add now1 now2 t (setw t w s1) = Ret () s2"
    "ok b s2 (insert_at (\<lambda>x. off b (wk (setw t w s1) x)) (off b w) t ?q)"
    "\<forall>x. user x \<longrightarrow> wk s2 x = wk (setw t w s1) x" "rest s2 = rest s1"
    using assms by (auto simp: setw_law)
  have "filter (\<lambda>x. x \<noteq> t) (insert_at k n t ?q) = ?q" for k n by (rule insert_at_remove) simp
  then show ?thesis using 1 2 assms(2) by (auto simp: rearm_def setw_law)
qed

text \<open>Whatever is queued, the head is due first.\<close>

lemma head_first:
  "ok b s (x # q) \<Longrightarrow> y \<in> set q \<Longrightarrow> off b (wk s x) \<le> off b (wk s y)"
  using ordered by fastforce

end

definition queue_ok :: "u32 \<Rightarrow> 'a sched_scheme \<Rightarrow> tid list \<Rightarrow> bool" where
  "queue_ok b s q \<longleftrightarrow> (\<exists>xs. sched_ok b s xs \<and> pending xs = q)"

definition user_timer :: "tid \<Rightarrow> bool" where
  "user_timer t \<longleftrightarrow> t \<noteq> TPeriodic \<and> t \<noteq> TSentinel \<and> t \<noteq> TDeleted"

lemma sched_ok_set_wake:
  assumes "sched_ok b s xs" "t \<notin> set xs" "t \<noteq> TSentinel"
  shows "sched_ok b (set_wake t w s) xs"
proof -
  have "window b (set_wake t w s) xs = window b s xs" using assms by (intro window_cong) auto
  then show ?thesis using assms by (auto simp: sched_ok_def)
qed

lemma queue_ok_ordered: "queue_ok b s q \<Longrightarrow> window b s q \<and> distinct q"
  by (auto simp: queue_ok_def pending_def sched_ok_def intro: window_filter)

lemma queue_ok_add:
  assumes "queue_ok b s q" "user_timer t" "t \<notin> set q" "off b (wake s t) < 2 ^ 31"
    "\<not> timer_is_before (wake s t) now1"
  shows "\<exists>s'. sched_add_timer now1 now2 t s = Ret () s' \<and>
    queue_ok b s' (insert_at (\<lambda>x. off b (wake s x)) (off b (wake s t)) t q) \<and>
    (\<forall>x. user_timer x \<longrightarrow> wake s' x = wake s x) \<and> sched.more s' = sched.more s"
proof -
  obtain xs where xs: "sched_ok b s xs" "pending xs = q" using assms(1) by (auto simp: queue_ok_def)
  have "t \<notin> set xs" "t \<noteq> TSentinel" "t \<noteq> TDeleted" "key b s t < 2 ^ 31"
    using assms xs by (auto simp: pending_def user_timer_def key_def)
  from sched_add_timer_ok [OF xs(1) this assms(5), of now2]
  show ?thesis by (fastforce simp: queue_ok_def xs(2) user_timer_def key_def [abs_def])
qed

interpretation tq: timer_queue queue_ok sched_add_timer sched_del_timer set_wake wake user_timer sched.more
proof unfold_locales
  show "\<exists>s'. sched_del_timer t s = Ret () s' \<and> queue_ok b s' (filter (\<lambda>x. x \<noteq> t) q) \<and>
      (\<forall>x. user_timer x \<longrightarrow> wake s' x = wake s x) \<and> sched.more s' = sched.more s"
    if "queue_ok b s q" "user_timer t" for b t q and s :: "'a sched_scheme"
    using that sched_del_timer_ok [of b s _ t] by (fastforce simp: queue_ok_def user_timer_def)
  show "queue_ok b (set_wake t w s) q" if "queue_ok b s q" "user_timer t" "t \<notin> set q"
    for b t w q and s :: "'a sched_scheme"
    using that sched_ok_set_wake [of b s _ t w] by (fastforce simp: queue_ok_def user_timer_def pending_def)
qed (auto simp: window_def key_def [abs_def] intro: queue_ok_add dest: queue_ok_ordered)

section \<open>Shutdown\<close>

text \<open>
  \<open>run_shutdown\<close> keeps the first reason, leaves only the scheduler's own timer in the queue
  before the handlers run and ends in status 1.
\<close>

lemma run_shutdown_ok:
  assumes "run_shutdown str_id f cur reason s = Ret () s'"
  shows "shutdown_status s' = 1"
    "\<exists>s1 s2. f s1 = Ret () s2 \<and> shutdown_status s1 = 2 \<and>
      shutdown_reason s1 = (if shutdown_status s = 0 then reason else shutdown_reason s)"
  using assms by (auto simp: run_shutdown_def Let_def andthen_eq_Ret sendf_def
      sched_timer_reset_def timer_kick_def set_next_def set_wake_def)

end
