(* ===== verification/Timer_Irq.thy ===== *)
theory Timer_Irq
  imports Sched_List
begin

text \<open>
  Running timers from the board's timer interrupt: \<open>timer_dispatch_many\<close> and \<open>timer_task\<close> of
  \<open>klipper/src/generic/timer_irq.c\<close>, and the ARM version of them with the wrap timer of
  \<open>klipper/src/generic/armcm_timer.c\<close>. The clock values read, and the other interrupts that run
  while the loop waits, are arguments.
\<close>

section \<open>State\<close>

text \<open>\<open>systick_load\<close> is the value of the 24-bit countdown register of an ARM SysTick.\<close>

record timer_irq = sched +
  timer_repeat_until :: u32
  systick_load :: "24 word"

definition TIMER_IDLE_REPEAT_TICKS :: "u32 \<Rightarrow> u32" where "TIMER_IDLE_REPEAT_TICKS freq = timer_from_us freq 500"
definition TIMER_REPEAT_TICKS :: "u32 \<Rightarrow> u32" where "TIMER_REPEAT_TICKS freq = timer_from_us freq 100"
definition TIMER_MIN_TRY_TICKS :: "u32 \<Rightarrow> u32" where "TIMER_MIN_TRY_TICKS freq = timer_from_us freq 2"
definition TIMER_DEFER_REPEAT_TICKS :: "u32 \<Rightarrow> u32" where "TIMER_DEFER_REPEAT_TICKS freq = timer_from_us freq 5"

section \<open>The dispatch loop\<close>

text \<open>The waiting loop, over the clock values it reads: whether it ends.\<close>

fun wait_ready :: "u32 \<Rightarrow> u32 \<Rightarrow> u32 list \<Rightarrow> bool" where
  "wait_ready next diff [] \<longleftrightarrow> \<not> 0 < sint diff"
| "wait_ready next diff (r # rs) \<longleftrightarrow> (if 0 < sint diff then wait_ready next (next - r) rs else True)"

text \<open>
  What one round of the loop reads and meets: \<open>now\<close>, the clock values of the waiting loop and
  the interrupts that run in it.
\<close>

record 's round =
  rd_now :: u32
  rd_reads :: "u32 list"
  rd_irqs :: "'s \<Rightarrow> ('s, unit) res"

text \<open>
  The loop; \<open>tru\<close> is the local variable. \<open>None\<close>: still running after the rounds given.
  The value is the pair \<open>next, now\<close> at the first return and \<open>now\<close> with the deferral at the
  second, so that both versions of the C function are instances.
\<close>

datatype wakeup = Next u32 u32 | Defer u32

fun dispatch_rounds ::
    "u32 \<Rightarrow> ('a timer_irq_scheme \<Rightarrow> ('a timer_irq_scheme, u32) res) \<Rightarrow> 'a timer_irq_scheme round list
      \<Rightarrow> u32 \<Rightarrow> 'a timer_irq_scheme \<Rightarrow> ('a timer_irq_scheme, wakeup) res option" where
  "dispatch_rounds freq dispatch [] tru s = None"
| "dispatch_rounds freq dispatch (rd # rds) tru s =
     (case dispatch s of
        Shut e s \<Rightarrow> Some (Shut e s)
      | Fault \<Rightarrow> Some Fault
      | Ret next s \<Rightarrow>
          (let now = rd_now rd; diff = next - now
           in if sint diff > sint (TIMER_MIN_TRY_TICKS freq) then Some (Ret (Next next now) s)
              else
                (case (if timer_is_before tru now then
                         andthen (if sint diff < sint (- timer_from_us freq 1000)
                                  then sched_try_shutdown ''Rescheduled timer in the past'' s else Ret () s)
                           (\<lambda>s. if sched_tasks_busy s
                                then Ret None (s\<lparr>timer_repeat_until := now + TIMER_REPEAT_TICKS freq\<rparr>)
                                else (let tru = now + TIMER_IDLE_REPEAT_TICKS freq
                                      in Ret (Some tru) (s\<lparr>timer_repeat_until := tru\<rparr>)))
                       else Ret (Some tru) s) of
                   Shut e s \<Rightarrow> Some (Shut e s)
                 | Fault \<Rightarrow> Some Fault
                 | Ret None s \<Rightarrow> Some (Ret (Defer now) s)
                 | Ret (Some tru) s \<Rightarrow>
                     (if wait_ready next diff (rd_reads rd) then
                        (case rd_irqs rd s of
                           Ret _ s \<Rightarrow> dispatch_rounds freq dispatch rds tru s
                         | Shut e s \<Rightarrow> Some (Shut e s)
                         | Fault \<Rightarrow> Some Fault)
                      else None))))"

text \<open>The generic version returns an absolute time.\<close>

definition timer_dispatch_many ::
    "u32 \<Rightarrow> ('a timer_irq_scheme \<Rightarrow> ('a timer_irq_scheme, u32) res) \<Rightarrow> 'a timer_irq_scheme round list
      \<Rightarrow> 'a timer_irq_scheme \<Rightarrow> ('a timer_irq_scheme, u32) res option" where
  "timer_dispatch_many freq dispatch rds s =
     map_option (\<lambda>r. bnd r (\<lambda>w s. Ret (case w of Next next _ \<Rightarrow> next
                                          | Defer now \<Rightarrow> now + TIMER_DEFER_REPEAT_TICKS freq) s))
       (dispatch_rounds freq dispatch rds (timer_repeat_until s) s)"

definition timer_task :: "u32 \<Rightarrow> 'a timer_irq_scheme \<Rightarrow> 'a timer_irq_scheme" where
  "timer_task now s =
     (if timer_is_before (timer_repeat_until s) now then s\<lparr>timer_repeat_until := now\<rparr> else s)"

section \<open>The ARM timer\<close>

text \<open>This version of the loop returns the distance to the next timer.\<close>

definition arm_dispatch_many ::
    "u32 \<Rightarrow> ('a timer_irq_scheme \<Rightarrow> ('a timer_irq_scheme, u32) res) \<Rightarrow> 'a timer_irq_scheme round list
      \<Rightarrow> 'a timer_irq_scheme \<Rightarrow> ('a timer_irq_scheme, u32) res option" where
  "arm_dispatch_many freq dispatch rds s =
     map_option (\<lambda>r. bnd r (\<lambda>w s. Ret (case w of Next next now \<Rightarrow> next - now
                                          | Defer _ \<Rightarrow> TIMER_DEFER_REPEAT_TICKS freq) s))
       (dispatch_rounds freq dispatch rds (timer_repeat_until s) s)"

text \<open>Writing the reload register: it keeps the low 24 bits.\<close>

definition timer_set_diff :: "u32 \<Rightarrow> 'a timer_irq_scheme \<Rightarrow> 'a timer_irq_scheme" where
  "timer_set_diff value s = s\<lparr>systick_load := ucast value\<rparr>"

definition SysTick_Handler ::
    "u32 \<Rightarrow> ('a timer_irq_scheme \<Rightarrow> ('a timer_irq_scheme, u32) res) \<Rightarrow> 'a timer_irq_scheme round list
      \<Rightarrow> 'a timer_irq_scheme \<Rightarrow> ('a timer_irq_scheme, unit) res option" where
  "SysTick_Handler freq dispatch rds s =
     map_option (\<lambda>r. bnd r (\<lambda>diff s. Ret () (timer_set_diff diff s))) (arm_dispatch_many freq dispatch rds s)"

definition timer_wrap_event :: "'a sched_scheme \<Rightarrow> ('a sched_scheme, sf) res" where
  "timer_wrap_event s = Ret SF_RESCHEDULE (set_wake TWrap (wake s TWrap + 0xffffff) s)"

text \<open>\<open>now1\<close> and \<open>now2\<close> are the clock reads of \<open>sched_add_timer\<close>.\<close>

definition timer_reset :: "u32 \<Rightarrow> u32 \<Rightarrow> u32 \<Rightarrow> 'a sched_scheme \<Rightarrow> ('a sched_scheme, unit) res" where
  "timer_reset freq now1 now2 s =
     (if timer_from_us freq 100000 \<le> 0xffffff then Ret () s else sched_add_timer now1 now2 TWrap s)"

section \<open>When the loop returns\<close>

text \<open>
  The loop returns a time that lies ahead of the clock it last read, by more than the minimum
  or by the deferral; and it returns with the deferral only to let requested tasks run.
\<close>

definition woken_ok :: "u32 \<Rightarrow> u32 set \<Rightarrow> wakeup \<Rightarrow> 'a timer_irq_scheme \<Rightarrow> bool" where
  "woken_ok freq nows w s =
     (case w of
        Next nxt now \<Rightarrow> now \<in> nows \<and> sint (nxt - now) > sint (TIMER_MIN_TRY_TICKS freq)
      | Defer now \<Rightarrow> now \<in> nows \<and> sched_tasks_busy s \<and> timer_repeat_until s = now + TIMER_REPEAT_TICKS freq)"

lemma woken_ok_mono: "woken_ok freq A w s \<Longrightarrow> A \<subseteq> B \<Longrightarrow> woken_ok freq B w s"
  by (auto simp: woken_ok_def split: wakeup.splits)

lemma dispatch_rounds_ahead:
  "dispatch_rounds freq dispatch rds tru s = Some (Ret w s') \<Longrightarrow> woken_ok freq (rd_now ` set rds) w s'"
proof (induction rds arbitrary: tru s)
  case (Cons rd rds)
  have rest: "woken_ok freq (rd_now ` set (rd # rds)) w s'"
    if "dispatch_rounds freq dispatch rds tru' t = Some (Ret w s')" for tru' t
    using Cons.IH [OF that] by (rule woken_ok_mono) auto
  let ?now = "rd_now rd"
  from Cons.prems obtain nxt s1 where d: "dispatch s = Ret nxt s1" by (cases "dispatch s") auto
  consider "sint (nxt - ?now) > sint (TIMER_MIN_TRY_TICKS freq)"
    | "\<not> sint (nxt - ?now) > sint (TIMER_MIN_TRY_TICKS freq)" "\<not> timer_is_before tru ?now"
    | "\<not> sint (nxt - ?now) > sint (TIMER_MIN_TRY_TICKS freq)" "timer_is_before tru ?now" by blast
  then show ?case
  proof cases
    case 1
    then show ?thesis using Cons.prems d by (auto simp: Let_def woken_ok_def)
  next
    case 2
    then show ?thesis using Cons.prems d rest by (auto simp: Let_def split: if_splits res.splits)
  next
    case 3
    then show ?thesis using Cons.prems d rest
      by (auto simp: Let_def sched_try_shutdown_def sched_shutdown_def sched_tasks_busy_def woken_ok_def split: if_splits res.splits)
  qed
qed simp

text \<open>
  Tasks are not starved: once the clock has passed the limit, a round that finds a timer due
  and tasks requested ends the interrupt.
\<close>

lemma dispatch_rounds_yields:
  assumes "dispatch s = Ret nxt s1" "\<not> sint (nxt - rd_now rd) > sint (TIMER_MIN_TRY_TICKS freq)"
    "timer_is_before tru (rd_now rd)" "sched_tasks_busy s1"
  shows "dispatch_rounds freq dispatch (rd # rds) tru s =
    Some (if sint (nxt - rd_now rd) < sint (- timer_from_us freq 1000) \<and> shutdown_status s1 = 0
          then Shut ''Rescheduled timer in the past'' s1
          else Ret (Defer (rd_now rd)) (s1\<lparr>timer_repeat_until := rd_now rd + TIMER_REPEAT_TICKS freq\<rparr>))"
  using assms by (simp add: Let_def sched_try_shutdown_def sched_shutdown_def sched_tasks_busy_def)

text \<open>After \<open>timer_task\<close> the limit is not behind the clock.\<close>

lemma timer_task_limit: "\<not> timer_is_before (timer_repeat_until (timer_task now s)) now"
  by (simp add: timer_task_def)

section \<open>The countdown register does not overflow\<close>

text \<open>
  While the wrap timer (or, on slower chips, the periodic timer) is pending and not more than
  \<open>0xffffff\<close> ticks ahead of the clock, the distance to the timer at the head of the list fits
  the 24-bit register.
\<close>

lemma head_within:
  assumes ok: "sched_ok b s xs" and t: "t \<in> set xs" and now: "off b now < 2 ^ 31" "off b now \<le> key b s (timer_list s)"
    and le: "unat (wake s t - now) \<le> 0xffffff" "off b now \<le> key b s t"
  shows "unat (wake s (timer_list s) - now) \<le> 0xffffff"
proof -
  have "key b s (timer_list s) \<le> key b s t" using head_least [OF ok t] .
  then show ?thesis using now le unat_diff_off [of "wake s t" now b] unat_diff_off [of "wake s (timer_list s)" now b]
    by (simp add: key_def)
qed

lemma timer_set_diff_exact: "unat d \<le> 0xffffff \<Longrightarrow> unat (systick_load (timer_set_diff d s)) = unat d"
  by (simp add: timer_set_diff_def unsigned_ucast_eq take_bit_nat_eq_self)

lemma wrap_event_dispatch_ok:
  assumes ok: "sched_ok b s (TWrap # rest)" and lim: "key b s TWrap + 0xffffff < 2 ^ 31"
  shows "\<exists>s'. timer_wrap_event s = Ret SF_RESCHEDULE s' \<and> dispatch_ok b s' TWrap rest \<and>
     key b s' TWrap = key b s TWrap + 0xffffff"
proof -
  let ?s1 = "set_wake TWrap (wake s TWrap + 0xffffff) s"
  have "TWrap \<notin> set rest" using ok by (auto simp: sched_ok_def)
  then have "window b ?s1 rest = window b s rest" by (intro window_cong) (auto simp: set_wake_def)
  moreover have "key b ?s1 TWrap = key b s TWrap + 0xffffff"
    using lim off_add [of b "wake s TWrap" "0xffffff"] by (simp add: key_def set_wake_def)
  ultimately show ?thesis
    using ok by (auto simp: timer_wrap_event_def dispatch_ok_def sched_ok_def window_Cons set_wake_def)
qed

end
