(* ===== verification/Basecmd.thy ===== *)
theory Basecmd
  imports Sched_List
begin

text \<open>
  \<open>klipper/src/basecmd.c\<close>: the bump allocator, the pool of move nodes with the queues the
  modules build from it, the object id table, configuration, clock and statistics commands.
  Addresses are natural numbers. Move nodes are kept in a store from addresses to nodes; the
  free list and the queues are linked through it. Definitions only.
\<close>

section \<open>State\<close>

text \<open>
  What the build and the board fix: the dynamic memory area, sizes of C types, clock frequency,
  the stepper options of \<open>autoconf.h\<close>, and which pin numbers the board accepts.
\<close>

record board =
  dynmem_start :: nat
  dynmem_end :: nat
  ptr_align :: nat
  sizeof_move_node :: nat
  sizeof_oid_s :: nat
  clock_freq :: u32
  inline_stepper_hack :: bool
  have_both_edge :: bool
  mach_avr :: bool
  out_pin_ok :: "u32 \<Rightarrow> bool"
  in_pin_ok :: "u32 \<Rightarrow> bool"
  pwm_pin_ok :: "u32 \<Rightarrow> bool"
  adc_pin_ok :: "u32 \<Rightarrow> bool"

text \<open>
  A node holds the \<open>next\<close> pointer and what the module that owns it put behind it: the fields of
  \<open>struct stepper_move\<close>, of \<open>struct digital_move\<close> or of \<open>struct pwm_move\<close>.
\<close>

datatype move_data =
    Raw
  | StepperMove (sm_interval: u32) (sm_count: u16) (sm_add: u16) (sm_flags: u8)
  | DigitalMove (dm_waketime: u32) (dm_on_duration: u32)
  | PwmMove (pm_waketime: u32) (pm_value: u16)

record move_node =
  mn_next :: "nat option"
  mn_data :: move_data

record move_queue_head =
  mq_first :: "nat option"
  mq_last :: "nat option"

text \<open>The \<open>type\<close> pointers of the object table: the address of each \<open>config\<close> command.\<close>

datatype oid_type =
    T_stepper | T_endstop | T_trsync | T_digital_out | T_pwm_out | T_analog_in | T_buttons
  | T_counter | T_tmcuart | T_spi | T_spi_shutdown | T_i2c | T_thermocouple | T_spi_angle
  | T_adxl345 | T_lis2dw | T_mpu9250 | T_neopixel | T_hd44780 | T_st7920 | T_sdio

record oid_s =
  os_type :: "oid_type option"
  os_data :: "nat option"

record mcu = sched +
  alloc_end :: nat
  move_free_list :: "nat option"
  move_nodes :: "nat \<Rightarrow> move_node"
  move_list :: "nat option"
  move_count :: u16
  move_item_size :: u8
  oids :: "oid_s list option"
  oid_count :: u8
  config_crc :: u32
  stats_send_time :: u32
  stats_send_time_high :: u32
  stats_count :: u32
  stats_sum :: u32
  stats_sumsq :: u32
  pin_out :: "u32 \<Rightarrow> bool"

text \<open>What clearing a fresh object does to a timer embedded in it.\<close>

definition clear_timer :: "tid \<Rightarrow> 'a sched_scheme \<Rightarrow> 'a sched_scheme" where
  "clear_timer t s =
     s\<lparr>timers := (timers s)(t := \<lparr>t_next = None, t_func = None, waketime = 0\<rparr>)\<rparr>"

text \<open>\<open>int_fast8_t\<close> is one byte on AVR and a word of 32 bits on ARM.\<close>

definition int_fast8 :: "board \<Rightarrow> u32 \<Rightarrow> int" where
  "int_fast8 bd w = (if mach_avr bd then sint (ucast w :: u8) else sint w)"

text \<open>Output pins, as the modules drive them through the board's gpio functions.\<close>

definition gpio_out_write :: "u32 \<Rightarrow> bool \<Rightarrow> 'a mcu_scheme \<Rightarrow> 'a mcu_scheme" where
  "gpio_out_write pin v s = s\<lparr>pin_out := (pin_out s)(pin := v)\<rparr>"

definition gpio_out_toggle :: "u32 \<Rightarrow> 'a mcu_scheme \<Rightarrow> 'a mcu_scheme" where
  "gpio_out_toggle pin s = s\<lparr>pin_out := (pin_out s)(pin := \<not> pin_out s pin)\<rparr>"

definition gpio_out_setup :: "board \<Rightarrow> u32 \<Rightarrow> bool \<Rightarrow> 'a mcu_scheme \<Rightarrow> ('a mcu_scheme, u32) res" where
  "gpio_out_setup bd pin v s =
     (if out_pin_ok bd pin then Ret pin (gpio_out_write pin v s) else Shut ''Not an output pin'' s)"

definition gpio_in_setup :: "board \<Rightarrow> u32 \<Rightarrow> 'a mcu_scheme \<Rightarrow> ('a mcu_scheme, u32) res" where
  "gpio_in_setup bd pin s =
     (if in_pin_ok bd pin then Ret pin s else Shut ''Not a valid input pin'' s)"

section \<open>Low level allocation\<close>

definition align :: "nat \<Rightarrow> nat \<Rightarrow> nat" where
  "align a x = (x + (a - 1)) div a * a"

definition alloc_init :: "board \<Rightarrow> 'a mcu_scheme \<Rightarrow> 'a mcu_scheme" where
  "alloc_init bd s = s\<lparr>alloc_end := align (ptr_align bd) (dynmem_start bd)\<rparr>"

definition alloc_chunk :: "board \<Rightarrow> nat \<Rightarrow> 'a mcu_scheme \<Rightarrow> ('a mcu_scheme, nat) res" where
  "alloc_chunk bd sz s =
     (if alloc_end s + sz > dynmem_end bd then Shut ''alloc_chunk failed'' s
      else Ret (alloc_end s) (s\<lparr>alloc_end := alloc_end s + align (ptr_align bd) sz\<rparr>))"

text \<open>The counting loop of \<open>alloc_chunks\<close>; \<open>count\<close> is the number of iterations left.\<close>

fun can_alloc_loop :: "nat \<Rightarrow> nat \<Rightarrow> nat \<Rightarrow> nat \<Rightarrow> nat \<times> nat" where
  "can_alloc_loop sz end 0 p = (0, p)"
| "can_alloc_loop sz end (Suc cnt) p =
     (if p + sz \<le> end then
        (case can_alloc_loop sz end cnt (p + sz) of (n, q) \<Rightarrow> (Suc n, q))
      else (0, p))"

definition alloc_chunks ::
    "board \<Rightarrow> nat \<Rightarrow> nat \<Rightarrow> 'a mcu_scheme \<Rightarrow> ('a mcu_scheme, nat \<times> u16) res" where
  "alloc_chunks bd sz cnt s =
     (case can_alloc_loop sz (dynmem_end bd) cnt (alloc_end s) of
        (can_alloc, p) \<Rightarrow>
          if can_alloc = 0 then Shut ''alloc_chunks failed'' s
          else bnd (alloc_chunk bd (p - alloc_end s) s)
                 (\<lambda>data. Ret (data, of_nat can_alloc)))"

section \<open>Move queue\<close>

definition is_finalized :: "'a mcu_scheme \<Rightarrow> bool" where
  "is_finalized s \<longleftrightarrow> move_count s \<noteq> 0"

definition set_mn_next :: "nat \<Rightarrow> nat option \<Rightarrow> 'a mcu_scheme \<Rightarrow> 'a mcu_scheme" where
  "set_mn_next m n s = s\<lparr>move_nodes := (move_nodes s)(m := (move_nodes s m)\<lparr>mn_next := n\<rparr>)\<rparr>"

definition set_mn_data :: "nat \<Rightarrow> move_data \<Rightarrow> 'a mcu_scheme \<Rightarrow> 'a mcu_scheme" where
  "set_mn_data m d s = s\<lparr>move_nodes := (move_nodes s)(m := (move_nodes s m)\<lparr>mn_data := d\<rparr>)\<rparr>"

definition move_free :: "nat \<Rightarrow> 'a mcu_scheme \<Rightarrow> 'a mcu_scheme" where
  "move_free m s = (set_mn_next m (move_free_list s) s)\<lparr>move_free_list := Some m\<rparr>"

definition move_alloc :: "'a mcu_scheme \<Rightarrow> ('a mcu_scheme, nat) res" where
  "move_alloc s =
     (case move_free_list s of
        None \<Rightarrow> Shut ''Move queue overflow'' s
      | Some mf \<Rightarrow> Ret mf (s\<lparr>move_free_list := mn_next (move_nodes s mf)\<rparr>))"

definition move_queue_empty :: "move_queue_head \<Rightarrow> bool" where
  "move_queue_empty mh \<longleftrightarrow> mq_first mh = None"

definition move_queue_first :: "move_queue_head \<Rightarrow> nat option" where
  "move_queue_first mh = mq_first mh"

text \<open>The value is that of the C function with the updated head.\<close>

definition move_queue_push ::
    "nat \<Rightarrow> move_queue_head \<Rightarrow> 'a mcu_scheme \<Rightarrow> ('a mcu_scheme, bool \<times> move_queue_head) res" where
  "move_queue_push m mh s =
     (let s1 = set_mn_next m None s
      in if mq_first mh \<noteq> None then
           (case mq_last mh of
              None \<Rightarrow> Fault
            | Some l \<Rightarrow> Ret (False, mh\<lparr>mq_last := Some m\<rparr>) (set_mn_next l (Some m) s1))
         else Ret (True, mh\<lparr>mq_first := Some m, mq_last := Some m\<rparr>) s1)"

definition move_queue_pop ::
    "move_queue_head \<Rightarrow> 'a mcu_scheme \<Rightarrow> ('a mcu_scheme, nat \<times> move_queue_head) res" where
  "move_queue_pop mh s =
     (case mq_first mh of
        None \<Rightarrow> Fault
      | Some mn \<Rightarrow> Ret (mn, mh\<lparr>mq_first := mn_next (move_nodes s mn)\<rparr>) s)"

definition move_queue_clear :: "move_queue_head \<Rightarrow> move_queue_head" where
  "move_queue_clear mh = mh\<lparr>mq_first := None\<rparr>"

definition move_queue_setup ::
    "nat \<Rightarrow> 'a mcu_scheme \<Rightarrow> ('a mcu_scheme, move_queue_head) res" where
  "move_queue_setup sz s =
     (if sz > 255 \<or> is_finalized s then Shut ''Invalid move request size'' s
      else Ret \<lparr>mq_first = None, mq_last = None\<rparr>
             (if sz > unat (move_item_size s) then s\<lparr>move_item_size := of_nat sz\<rparr> else s))"

text \<open>The loop of \<open>move_reset\<close> over the nodes \<open>i .. n - 1\<close>, each linked to its successor.\<close>

fun move_reset_loop :: "nat \<Rightarrow> nat \<Rightarrow> nat \<Rightarrow> nat \<Rightarrow> 'a mcu_scheme \<Rightarrow> 'a mcu_scheme" where
  "move_reset_loop base sz i 0 s = s"
| "move_reset_loop base sz i (Suc n) s =
     move_reset_loop base sz (Suc i) n
       (set_mn_next (base + i * sz) (Some (base + (i + 1) * sz)) s)"

definition move_reset :: "'a mcu_scheme \<Rightarrow> ('a mcu_scheme, unit) res" where
  "move_reset s =
     (if move_count s = 0 then Ret () s
      else (case move_list s of
              None \<Rightarrow> Fault
            | Some base \<Rightarrow>
                (let sz = unat (move_item_size s);
                     n = unat (move_count s) - 1;
                     s1 = move_reset_loop base sz 0 n s
                 in Ret () ((set_mn_next (base + n * sz) None s1)\<lparr>move_free_list := Some base\<rparr>))))"

definition move_finalize :: "board \<Rightarrow> 'a mcu_scheme \<Rightarrow> ('a mcu_scheme, unit) res" where
  "move_finalize bd s =
     (if is_finalized s then Shut ''Already finalized'' s
      else bnd (move_queue_setup (sizeof_move_node bd) s) (\<lambda>_ s.
           bnd (alloc_chunks bd (unat (move_item_size s)) 1024 s) (\<lambda>(base, avail) s.
             move_reset (s\<lparr>move_list := Some base, move_count := avail\<rparr>))))"

section \<open>Object ids\<close>

definition oid_lookup :: "u8 \<Rightarrow> oid_type \<Rightarrow> 'a mcu_scheme \<Rightarrow> ('a mcu_scheme, nat option) res" where
  "oid_lookup oid ty s =
     (if oid \<ge> oid_count s then Shut ''Invalid oid type'' s
      else (case oids s of
              None \<Rightarrow> Fault
            | Some tab \<Rightarrow>
                if os_type (tab ! unat oid) \<noteq> Some ty then Shut ''Invalid oid type'' s
                else Ret (os_data (tab ! unat oid)) s))"

definition oid_alloc ::
    "board \<Rightarrow> u8 \<Rightarrow> oid_type \<Rightarrow> nat \<Rightarrow> 'a mcu_scheme \<Rightarrow> ('a mcu_scheme, nat) res" where
  "oid_alloc bd oid ty sz s =
     (if oid \<ge> oid_count s then Shut ''Can't assign oid'' s
      else (case oids s of
              None \<Rightarrow> Fault
            | Some tab \<Rightarrow>
                if os_type (tab ! unat oid) \<noteq> None \<or> is_finalized s
                then Shut ''Can't assign oid'' s
                else
                  (let tab1 = tab[unat oid := (tab ! unat oid)\<lparr>os_type := Some ty\<rparr>]
                   in bnd (alloc_chunk bd sz (s\<lparr>oids := Some tab1\<rparr>)) (\<lambda>data s.
                        Ret data (s\<lparr>oids := Some (tab1[unat oid :=
                                     (tab1 ! unat oid)\<lparr>os_data := Some data\<rparr>])\<rparr>)))))"

text \<open>The search loop of \<open>oid_next\<close> from index \<open>i\<close>: the index found.\<close>

fun oid_next_loop :: "oid_type \<Rightarrow> nat \<Rightarrow> oid_s list \<Rightarrow> nat option" where
  "oid_next_loop ty i [] = None"
| "oid_next_loop ty i (o1 # os) =
     (if os_type o1 = Some ty then Some i else oid_next_loop ty (Suc i) os)"

definition oid_table :: "'a mcu_scheme \<Rightarrow> oid_s list" where
  "oid_table s = take (unat (oid_count s)) (case oids s of None \<Rightarrow> [] | Some tab \<Rightarrow> tab)"

text \<open>
  \<open>oid_next\<close> from the index after \<open>*i\<close> (\<open>0\<close> for the \<open>-1\<close> of \<open>foreach_oid\<close>): the next index
  with its data pointer.
\<close>

definition oid_next :: "nat \<Rightarrow> oid_type \<Rightarrow> 'a mcu_scheme \<Rightarrow> (nat \<times> nat option) option" where
  "oid_next i ty s =
     (case oid_next_loop ty i (drop i (oid_table s)) of
        None \<Rightarrow> None
      | Some j \<Rightarrow> Some (j, os_data (oid_table s ! j)))"

text \<open>
  The macro \<open>foreach_oid\<close>: the loop ends at the first object without data, as at the end of
  the table.
\<close>

fun foreach_oid_from ::
    "nat \<Rightarrow> nat \<Rightarrow> oid_type \<Rightarrow> (u8 \<Rightarrow> 'a mcu_scheme \<Rightarrow> ('a mcu_scheme, unit) res)
      \<Rightarrow> 'a mcu_scheme \<Rightarrow> ('a mcu_scheme, unit) res" where
  "foreach_oid_from 0 i ty body s = Ret () s"
| "foreach_oid_from (Suc fuel) i ty body s =
     (case oid_next i ty s of
        None \<Rightarrow> Ret () s
      | Some (j, None) \<Rightarrow> Ret () s
      | Some (j, Some _) \<Rightarrow>
          andthen (body (of_nat j) s) (\<lambda>s. foreach_oid_from fuel (Suc j) ty body s))"

definition foreach_oid ::
    "oid_type \<Rightarrow> (u8 \<Rightarrow> 'a mcu_scheme \<Rightarrow> ('a mcu_scheme, unit) res)
      \<Rightarrow> 'a mcu_scheme \<Rightarrow> ('a mcu_scheme, unit) res" where
  "foreach_oid ty body s = foreach_oid_from 256 0 ty body s"

text \<open>An access through the pointer \<open>oid_lookup\<close> returned.\<close>

definition deref :: "nat option \<Rightarrow> ('s \<Rightarrow> ('s, 'b) res) \<Rightarrow> 's \<Rightarrow> ('s, 'b) res" where
  "deref p f s = (case p of None \<Rightarrow> Fault | Some _ \<Rightarrow> f s)"

definition with_oid ::
    "u8 \<Rightarrow> oid_type \<Rightarrow> ('a mcu_scheme \<Rightarrow> ('a mcu_scheme, 'b) res) \<Rightarrow> 'a mcu_scheme
      \<Rightarrow> ('a mcu_scheme, 'b) res" where
  "with_oid oid ty f s = bnd (oid_lookup oid ty s) (\<lambda>p s. deref p f s)"

definition command_allocate_oids :: "board \<Rightarrow> u32 list \<Rightarrow> 'a mcu_scheme \<Rightarrow> ('a mcu_scheme, unit) res" where
  "command_allocate_oids bd args s =
     (if oids s \<noteq> None then Shut ''oids already allocated'' s
      else (let cnt = ucast (args ! 0) :: u8
            in bnd (alloc_chunk bd (sizeof_oid_s bd * unat cnt) s) (\<lambda>_ s.
                 Ret () (s\<lparr>oids := Some (replicate (unat cnt) \<lparr>os_type = None, os_data = None\<rparr>),
                           oid_count := cnt\<rparr>))))"

section \<open>Configuration\<close>

definition command_get_config :: "u32 list \<Rightarrow> 'a mcu_scheme \<Rightarrow> ('a mcu_scheme, unit) res" where
  "command_get_config args s =
     Ret () (sendf ''config'' [RInt (of_flag (is_finalized s)), RInt (config_crc s),
                               RInt (of_flag (sched_is_shutdown s)), RInt (ucast (move_count s))] s)"

definition command_finalize_config :: "board \<Rightarrow> u32 list \<Rightarrow> 'a mcu_scheme \<Rightarrow> ('a mcu_scheme, unit) res" where
  "command_finalize_config bd args s =
     andthen (move_finalize bd s) (\<lambda>s. Ret () (s\<lparr>config_crc := args ! 0\<rparr>))"

definition config_reset :: "board \<Rightarrow> u32 list \<Rightarrow> 'a mcu_scheme \<Rightarrow> ('a mcu_scheme, unit) res" where
  "config_reset bd args s =
     (if \<not> sched_is_shutdown s then Shut ''config_reset only available when shutdown'' s
      else sched_clear_shutdown (sched_timer_reset (alloc_init bd
             (s\<lparr>config_crc := 0, oid_count := 0, oids := None, move_free_list := None,
                move_list := None, move_count := 0, move_item_size := 0\<rparr>))))"

section \<open>Clock and statistics\<close>

definition command_get_clock :: "u32 \<Rightarrow> u32 list \<Rightarrow> 'a mcu_scheme \<Rightarrow> ('a mcu_scheme, unit) res" where
  "command_get_clock now args s = Ret () (sendf ''clock'' [RInt now] s)"

definition uptime_high :: "u32 \<Rightarrow> 'a mcu_scheme \<Rightarrow> u32" where
  "uptime_high cur s = stats_send_time_high s + of_flag (cur < stats_send_time s)"

definition command_get_uptime :: "u32 \<Rightarrow> u32 list \<Rightarrow> 'a mcu_scheme \<Rightarrow> ('a mcu_scheme, unit) res" where
  "command_get_uptime cur args s =
     Ret () (sendf ''uptime'' [RInt (uptime_high cur s), RInt cur] s)"

definition div_round_up :: "u32 \<Rightarrow> u32 \<Rightarrow> u32" where
  "div_round_up n d = (n + d - 1) div d"

text \<open>The sum of squares with the guards against overflow.\<close>

definition next_sumsq :: "u32 \<Rightarrow> u32 \<Rightarrow> u32" where
  "next_sumsq sumsq diff =
     (let nextsumsq =
        (if diff \<le> 0xffff then sumsq + div_round_up (diff * diff) 256
         else if diff \<le> 0xfffff then sumsq + div_round_up diff 256 * diff
         else 0xffffffff)
      in if nextsumsq < sumsq then 0xffffffff else nextsumsq)"

definition stats_update :: "board \<Rightarrow> u32 \<Rightarrow> u32 \<Rightarrow> 'a mcu_scheme \<Rightarrow> 'a mcu_scheme" where
  "stats_update bd start cur s =
     (let diff = cur - start;
          s1 = s\<lparr>stats_count := stats_count s + 1, stats_sum := stats_sum s + diff,
                 stats_sumsq := next_sumsq (stats_sumsq s) diff\<rparr>
      in if timer_is_before cur (stats_send_time s1 + timer_from_us (clock_freq bd) 5000000) then s1
         else
           (let s2 = sendf ''stats'' [RInt (stats_count s1), RInt (stats_sum s1), RInt (stats_sumsq s1)] s1;
                s3 = (if cur < stats_send_time s2
                      then s2\<lparr>stats_send_time_high := stats_send_time_high s2 + 1\<rparr> else s2)
            in s3\<lparr>stats_send_time := cur, stats_count := 0, stats_sum := 0, stats_sumsq := 0\<rparr>))"

section \<open>Other commands\<close>

definition command_emergency_stop :: "u32 list \<Rightarrow> 'a mcu_scheme \<Rightarrow> ('a mcu_scheme, unit) res" where
  "command_emergency_stop args s = sched_shutdown ''Command request'' s"

definition command_clear_shutdown :: "u32 list \<Rightarrow> 'a mcu_scheme \<Rightarrow> ('a mcu_scheme, unit) res" where
  "command_clear_shutdown args s = sched_clear_shutdown s"

text \<open>\<open>dict\<close> is \<open>command_identify_data\<close>, generated at build time.\<close>

definition identify_count :: "u8 list \<Rightarrow> u32 \<Rightarrow> u8 \<Rightarrow> u8" where
  "identify_count dict offset cnt =
     (let isize = of_nat (length dict) :: u32
      in if offset \<ge> isize then 0
         else if offset + ucast cnt > isize then ucast (isize - offset)
         else cnt)"

definition command_identify :: "u8 list \<Rightarrow> u32 list \<Rightarrow> 'a mcu_scheme \<Rightarrow> ('a mcu_scheme, unit) res" where
  "command_identify dict args s =
     (let offset = args ! 0;
          cnt = identify_count dict offset (ucast (args ! 1))
      in Ret () (sendf ''identify_response''
           [RInt offset, RBytes (take (unat cnt) (drop (unat offset) dict))] s))"

end
