(* ===== verification/Move_Pool.thy ===== *)
theory Move_Pool
  imports Basecmd
begin

text \<open>
  Facts about the services of \<open>basecmd.c\<close>: the pool of move nodes and the queues built from it
  as lists, the object id table as a map, disjointness of allocations, the saturating statistics
  and the 64-bit uptime. The locales \<open>node_pool\<close> and \<open>object_table\<close> are the contracts the
  modules rely on.
\<close>

section \<open>Linked nodes\<close>

fun mlist :: "(nat \<Rightarrow> move_node) \<Rightarrow> nat option \<Rightarrow> nat list \<Rightarrow> bool" where
  "mlist ns p [] \<longleftrightarrow> p = None"
| "mlist ns p (x # xs) \<longleftrightarrow> p = Some x \<and> mlist ns (mn_next (ns x)) xs"

lemma mlist_cong: "(\<And>x. x \<in> set xs \<Longrightarrow> mn_next (ns x) = mn_next (ns' x)) \<Longrightarrow> mlist ns p xs = mlist ns' p xs"
  by (induction xs arbitrary: p) auto

lemma mlist_upd [simp]: "y \<notin> set xs \<Longrightarrow> mlist (ns(y := v)) p xs = mlist ns p xs"
  by (rule mlist_cong) auto

lemma mlist_snoc:
  "mlist ns p xs \<Longrightarrow> xs \<noteq> [] \<Longrightarrow> distinct xs \<Longrightarrow> m \<notin> set xs \<Longrightarrow>
   mlist (ns(m := v\<lparr>mn_next := None\<rparr>, last xs := (ns (last xs))\<lparr>mn_next := Some m\<rparr>)) p (xs @ [m])"
proof (induction xs arbitrary: p)
  case (Cons x xs)
  then show ?case
  proof (cases "xs = []")
    case False
    with Cons have "x \<noteq> last xs" by auto
    with False Cons show ?thesis by auto
  qed auto
qed simp

lemma set_mn_simps [simp]:
  "move_nodes (set_mn_next m n s) = (move_nodes s)(m := (move_nodes s m)\<lparr>mn_next := n\<rparr>)"
  "move_nodes (set_mn_data m d s) = (move_nodes s)(m := (move_nodes s m)\<lparr>mn_data := d\<rparr>)"
  "move_free_list (set_mn_next m n s) = move_free_list s"
  "move_free_list (set_mn_data m d s) = move_free_list s"
  "mcu.more (set_mn_next m n s) = mcu.more s"
  "mcu.more (set_mn_data m d s) = mcu.more s"
  "sched.truncate (set_mn_next m n s) = sched.truncate s"
  "sched.truncate (set_mn_data m d s) = sched.truncate s"
  by (simp_all add: set_mn_next_def set_mn_data_def sched.defs)

section \<open>The pool\<close>

definition free_nodes :: "'a mcu_scheme \<Rightarrow> nat list \<Rightarrow> bool" where
  "free_nodes s fs \<longleftrightarrow> mlist (move_nodes s) (move_free_list s) fs \<and> distinct fs"

text \<open>The queue \<open>mh\<close> holds the nodes \<open>xs\<close>, first to run first.\<close>

definition mq_ok :: "'a mcu_scheme \<Rightarrow> move_queue_head \<Rightarrow> nat list \<Rightarrow> bool" where
  "mq_ok s mh xs \<longleftrightarrow> mlist (move_nodes s) (mq_first mh) xs \<and> distinct xs \<and>
     (xs \<noteq> [] \<longrightarrow> mq_last mh = Some (last xs))"

lemma move_alloc_ok:
  "free_nodes s (n # fs) \<Longrightarrow>
    \<exists>s'. move_alloc s = Ret n s' \<and> free_nodes s' fs \<and> move_nodes s' = move_nodes s \<and>
      s' = s\<lparr>move_free_list := move_free_list s'\<rparr>"
  by (simp add: free_nodes_def move_alloc_def)

lemma move_alloc_empty: "free_nodes s [] \<Longrightarrow> move_alloc s = Shut ''Move queue overflow'' s"
  by (simp add: free_nodes_def move_alloc_def)

lemma move_free_ok: "free_nodes s fs \<Longrightarrow> n \<notin> set fs \<Longrightarrow> free_nodes (move_free n s) (n # fs)"
  by (simp add: free_nodes_def move_free_def)

text \<open>The contract of the pool, with the free nodes as a list.\<close>

locale node_pool =
  fixes alloc :: "'s \<Rightarrow> ('s, 'n) res" and free :: "'n \<Rightarrow> 's \<Rightarrow> 's"
    and frees :: "'s \<Rightarrow> 'n list \<Rightarrow> bool"
  assumes alloc_law: "frees s (n # fs) \<Longrightarrow> \<exists>s'. alloc s = Ret n s' \<and> frees s' fs"
    and empty_law: "frees s [] \<Longrightarrow> \<not> returns (alloc s)"
    and free_law: "frees s fs \<Longrightarrow> n \<notin> set fs \<Longrightarrow> frees (free n s) (n # fs)"
    and once: "frees s fs \<Longrightarrow> distinct fs"
begin

fun alloc_n :: "nat \<Rightarrow> 's \<Rightarrow> ('s, 'n list) res" where
  "alloc_n 0 s = Ret [] s"
| "alloc_n (Suc k) s = bnd (alloc s) (\<lambda>n s. bnd (alloc_n k s) (\<lambda>ns s. Ret (n # ns) s))"

lemma alloc_n_some: "frees s (xs @ fs) \<Longrightarrow> \<exists>s'. alloc_n (length xs) s = Ret xs s' \<and> frees s' fs"
proof (induction xs arbitrary: s)
  case (Cons x xs)
  then obtain s1 where "alloc s = Ret x s1" "frees s1 (xs @ fs)" using alloc_law by fastforce
  with Cons.IH show ?case by fastforce
qed simp

text \<open>Exactly as many nodes as are free can be taken, each once.\<close>

lemma capacity: "frees s fs \<Longrightarrow> returns (alloc_n k s) \<longleftrightarrow> k \<le> length fs"
proof (induction k arbitrary: s fs)
  case (Suc k)
  show ?case
  proof (cases fs)
    case Nil
    with Suc.prems have "\<not> returns (alloc s)" using empty_law by simp
    then show ?thesis using Nil by (cases "alloc s") auto
  next
    case (Cons n gs)
    with Suc.prems obtain s1 where "alloc s = Ret n s1" "frees s1 gs" using alloc_law by blast
    with Suc.IH [of s1 gs] Cons show ?thesis by (cases "alloc_n k s1") auto
  qed
qed simp

lemma free_after_alloc: "frees s (n # fs) \<Longrightarrow> \<exists>s'. alloc s = Ret n s' \<and> frees (free n s') (n # fs)"
  using alloc_law free_law once by (metis distinct.simps(2))

end

interpretation mp: node_pool move_alloc move_free free_nodes
proof
  show "\<exists>s'. move_alloc s = Ret n s' \<and> free_nodes s' fs" if "free_nodes s (n # fs)"
    for s :: "'a mcu_scheme" and n fs
    using move_alloc_ok [OF that] by blast
qed (simp_all add: move_alloc_empty move_free_ok, simp add: free_nodes_def)

section \<open>Queues\<close>

text \<open>Push and pop are append and tail, and leave lists of other nodes alone.\<close>

lemma move_queue_push_ok:
  assumes "mq_ok s mh xs" "m \<notin> set xs"
  shows "\<exists>mh' s'. move_queue_push m mh s = Ret (xs = [], mh') s' \<and> mq_ok s' mh' (xs @ [m]) \<and>
    (\<forall>ys p. set ys \<inter> insert m (set xs) = {} \<longrightarrow> mlist (move_nodes s') p ys = mlist (move_nodes s) p ys) \<and>
    (\<forall>x. mn_data (move_nodes s' x) = mn_data (move_nodes s x)) \<and>
    s' = s\<lparr>move_nodes := move_nodes s'\<rparr>"
proof (cases "xs = []")
  case True
  then show ?thesis using assms by (auto simp: move_queue_push_def mq_ok_def set_mn_next_def)
next
  case False
  then have ne: "mq_first mh \<noteq> None" "mq_last mh = Some (last xs)" "last xs \<in> set xs" "last xs \<noteq> m"
    using assms by (cases xs; auto simp: mq_ok_def)+
  have "mlist ((move_nodes s)(m := (move_nodes s m)\<lparr>mn_next := None\<rparr>,
      last xs := (move_nodes s (last xs))\<lparr>mn_next := Some m\<rparr>)) (mq_first mh) (xs @ [m])"
    using assms False by (intro mlist_snoc) (auto simp: mq_ok_def)
  moreover have "mlist ((move_nodes s)(m := (move_nodes s m)\<lparr>mn_next := None\<rparr>,
      last xs := (move_nodes s (last xs))\<lparr>mn_next := Some m\<rparr>)) p ys = mlist (move_nodes s) p ys"
    if "set ys \<inter> insert m (set xs) = {}" for p ys
  proof -
    have "m \<notin> set ys" "last xs \<notin> set ys" using that ne(3) by auto
    then show ?thesis by simp
  qed
  ultimately show ?thesis
    using assms ne by (auto simp: move_queue_push_def mq_ok_def set_mn_next_def)
qed

lemma move_queue_pop_ok:
  "mq_ok s mh (x # xs) \<Longrightarrow> \<exists>mh'. move_queue_pop mh s = Ret (x, mh') s \<and> mq_ok s mh' xs"
  by (auto simp: move_queue_pop_def mq_ok_def)

lemma move_queue_empty_iff: "mq_ok s mh xs \<Longrightarrow> move_queue_empty mh \<longleftrightarrow> xs = []"
  by (cases xs) (auto simp: mq_ok_def move_queue_empty_def)

lemma mq_ok_free:
  "mq_ok s mh xs \<Longrightarrow> n \<notin> set xs \<Longrightarrow> mq_ok (move_free n s) mh xs"
  by (simp add: mq_ok_def move_free_def)

lemma mq_ok_nodes: "move_nodes s' = move_nodes s \<Longrightarrow> mq_ok s' mh xs = mq_ok s mh xs"
  by (simp add: mq_ok_def)

section \<open>Building the pool\<close>

definition node_at :: "nat \<Rightarrow> nat \<Rightarrow> nat \<Rightarrow> nat" where
  "node_at base sz i = base + i * sz"

lemma node_at_eq: "0 < sz \<Longrightarrow> node_at base sz i = node_at base sz j \<longleftrightarrow> i = j"
  by (simp add: node_at_def)

lemma move_reset_loop_before:
  "0 < sz \<Longrightarrow> i < j \<Longrightarrow>
    move_nodes (move_reset_loop base sz j n s) (node_at base sz i) = move_nodes s (node_at base sz i)"
  by (induction n arbitrary: j s) (auto simp: node_at_def)

lemma move_reset_loop_ok:
  assumes "0 < sz"
  shows "mlist ((move_nodes (move_reset_loop base sz i n s)) (node_at base sz (i + n) := v\<lparr>mn_next := None\<rparr>))
          (Some (node_at base sz i)) (map (node_at base sz) [i..<i + Suc n])"
proof (induction n arbitrary: i s)
  case (Suc n)
  let ?s = "set_mn_next (node_at base sz i) (Some (node_at base sz (Suc i))) s"
  have e: "move_reset_loop base sz i (Suc n) s = move_reset_loop base sz (Suc i) n ?s"
    by (simp add: node_at_def)
  have u: "[i..<i + Suc (Suc n)] = i # [Suc i..<Suc i + Suc n]" by (simp add: upt_conv_Cons)
  have "node_at base sz i \<noteq> node_at base sz (i + Suc n)" using node_at_eq [OF assms] by simp
  then show ?case
    using Suc.IH [of "Suc i" ?s] move_reset_loop_before [OF assms, of i "Suc i" base n ?s]
    unfolding e u by (simp del: upt_Suc)
qed simp

lemma inj_node_at: "0 < sz \<Longrightarrow> inj_on (node_at base sz) A"
  by (simp add: inj_on_def node_at_eq)

text \<open>After \<open>move_reset\<close> all nodes of the area are free, in order.\<close>

lemma move_reset_loop_free_list [simp]:
  "move_free_list (move_reset_loop base sz i n s) = move_free_list s"
  by (induction n arbitrary: i s) auto

lemma move_reset_ok:
  assumes "move_count s \<noteq> 0" "move_list s = Some base" "move_item_size s \<noteq> 0"
  shows "\<exists>s'. move_reset s = Ret () s' \<and>
    free_nodes s' (map (node_at base (unat (move_item_size s))) [0..<unat (move_count s)])"
proof -
  let ?sz = "unat (move_item_size s)"
  have sz: "0 < ?sz" using assms(3) by (simp add: unat_gt_0)
  from assms(1) obtain n where n: "unat (move_count s) = Suc n"
    by (metis gr0_implies_Suc unat_gt_0)
  let ?t = "move_reset_loop base ?sz 0 n s"
  have "mlist ((move_nodes ?t)(node_at base ?sz n := (move_nodes ?t (node_at base ?sz n))\<lparr>mn_next := None\<rparr>))
      (Some base) (map (node_at base ?sz) [0..<Suc n])"
    using move_reset_loop_ok [OF sz, of base 0 n s] by (simp add: node_at_def [of _ _ 0] del: upt_Suc)
  moreover have "distinct (map (node_at base ?sz) [0..<Suc n])"
    using inj_node_at [OF sz] by (simp add: distinct_map del: upt_Suc)
  ultimately show ?thesis
    using assms n by (simp add: move_reset_def Let_def free_nodes_def node_at_def [of _ _ n, symmetric] del: upt_Suc)
qed

section \<open>Allocation\<close>

lemma align_ge: "0 < a \<Longrightarrow> x \<le> align a x"
proof -
  assume a: "0 < a"
  have "x + (a - 1) < (x + (a - 1)) div a * a + a" using a by (metis add.commute dividend_less_times_div mult.commute)
  then show ?thesis using a by (simp add: align_def)
qed

lemma alloc_chunk_ok:
  assumes "alloc_chunk bd sz s = Ret p s'" "0 < ptr_align bd"
  shows "p = alloc_end s" "p + sz \<le> dynmem_end bd" "p + sz \<le> alloc_end s'"
    "s' = s\<lparr>alloc_end := alloc_end s'\<rparr>"
  using assms align_ge [of "ptr_align bd" sz] by (auto simp: alloc_chunk_def split: if_splits)

text \<open>A run of allocations, the areas they return.\<close>

fun alloc_all :: "board \<Rightarrow> nat list \<Rightarrow> 'a mcu_scheme \<Rightarrow> ('a mcu_scheme, (nat \<times> nat) list) res" where
  "alloc_all bd [] s = Ret [] s"
| "alloc_all bd (sz # szs) s =
     bnd (alloc_chunk bd sz s) (\<lambda>p s. bnd (alloc_all bd szs s) (\<lambda>as s. Ret ((p, sz) # as) s))"

lemma alloc_all_ok:
  assumes "alloc_all bd szs s = Ret areas s'" "0 < ptr_align bd"
  shows "\<forall>(p, sz) \<in> set areas. alloc_end s \<le> p \<and> p + sz \<le> dynmem_end bd"
    "sorted_wrt (\<lambda>(p, sz) (q, _). p + sz \<le> q) areas" "alloc_end s \<le> alloc_end s'"
  using assms
proof (induction szs arbitrary: s areas)
  case (Cons sz szs)
  {
    case 1
    then show ?case using Cons.IH(1) alloc_chunk_ok [of bd sz s] by (fastforce simp: bnd_eq_Ret)
  next
    case 2
    then show ?case using Cons.IH(1,2) alloc_chunk_ok [of bd sz s] by (fastforce simp: bnd_eq_Ret)
  next
    case 3
    then show ?case using Cons.IH(3) alloc_chunk_ok [of bd sz s] by (fastforce simp: bnd_eq_Ret)
  }
qed auto

lemma can_alloc_loop_ok:
  "0 < sz \<Longrightarrow> can_alloc_loop sz end n p = (min n ((end - p) div sz), p + min n ((end - p) div sz) * sz)"
proof (induction n arbitrary: p)
  case (Suc n)
  show ?case
  proof (cases "p + sz \<le> end")
    case True
    then have "(end - p) div sz = Suc ((end - (p + sz)) div sz)"
      using Suc.prems by (metis add.commute diff_diff_left le_add_diff_inverse2 le_div_geq le_diff_conv2 add_leD1)
    with True Suc show ?thesis by simp
  next
    case False
    then have "end - p < sz" using Suc.prems by linarith
    then have "(end - p) div sz = 0" by simp
    with False show ?thesis by simp
  qed
qed simp

section \<open>Object ids\<close>

text \<open>An entry has a type exactly if it has data; the table has \<open>oid_count\<close> entries.\<close>

definition oids_ok :: "'a mcu_scheme \<Rightarrow> bool" where
  "oids_ok s \<longleftrightarrow> (case oids s of
      None \<Rightarrow> oid_count s = 0
    | Some tab \<Rightarrow> length tab = unat (oid_count s) \<and>
        (\<forall>e \<in> set tab. os_type e = None \<longleftrightarrow> os_data e = None))"

definition holds :: "'a mcu_scheme \<Rightarrow> u8 \<Rightarrow> (oid_type \<times> nat) option" where
  "holds s oid =
     (case oids s of
        None \<Rightarrow> None
      | Some tab \<Rightarrow>
          if oid < oid_count s then
            (case (os_type (tab ! unat oid), os_data (tab ! unat oid)) of
               (Some ty, Some d) \<Rightarrow> Some (ty, d) | _ \<Rightarrow> None)
          else None)"

lemma oid_lookup_ok:
  assumes "oids_ok s"
  shows "oid_lookup oid ty s =
    (case holds s oid of
       Some (ty', d) \<Rightarrow> if ty' = ty then Ret (Some d) s else Shut ''Invalid oid type'' s
     | None \<Rightarrow> Shut ''Invalid oid type'' s)"
proof (cases "oid < oid_count s")
  case True
  then obtain tab where tab: "oids s = Some tab" "unat oid < length tab"
    "os_type (tab ! unat oid) = None \<longleftrightarrow> os_data (tab ! unat oid) = None"
    using assms by (auto simp: oids_ok_def word_less_nat_alt split: option.splits)
  with True show ?thesis
    by (auto simp: oid_lookup_def holds_def not_le split: option.splits)
next
  case False
  then show ?thesis by (simp add: oid_lookup_def holds_def not_less [symmetric] split: option.splits)
qed

lemma oid_alloc_ok:
  assumes ok: "oids_ok s" and a: "oid_alloc bd oid ty sz s = Ret d s'"
  shows "oids_ok s'" "holds s oid = None" "holds s' = (holds s)(oid := Some (ty, d))"
    "oid_count s' = oid_count s" "alloc_chunk bd sz s = Ret d (s\<lparr>alloc_end := alloc_end s'\<rparr>)"
proof -
  have lt: "oid < oid_count s" using a by (auto simp: oid_alloc_def not_le split: if_splits)
  obtain tab where tab: "oids s = Some tab" "length tab = unat (oid_count s)" "unat oid < length tab"
    using lt ok by (auto simp: oids_ok_def word_less_nat_alt split: option.splits)
  have s': "os_type (tab ! unat oid) = None" "d = alloc_end s"
    "\<not> alloc_end s + sz > dynmem_end bd"
    "s' = s\<lparr>oids := Some (tab[unat oid := (tab ! unat oid)\<lparr>os_type := Some ty, os_data := Some d\<rparr>]),
            alloc_end := alloc_end s + align (ptr_align bd) sz\<rparr>"
    using a lt tab by (auto simp: oid_alloc_def alloc_chunk_def Let_def bnd_eq_Ret not_le
        split: if_splits)
  show "oids_ok s'" using ok tab s' by (auto simp: oids_ok_def dest!: subsetD [OF set_update_subset_insert])
  show "holds s oid = None" using tab lt s' by (simp add: holds_def)
  show "holds s' = (holds s)(oid := Some (ty, d))"
    using tab lt s' by (auto simp: holds_def fun_eq_iff nth_list_update word_unat_eq_iff word_less_nat_alt)
  show "oid_count s' = oid_count s" "alloc_chunk bd sz s = Ret d (s\<lparr>alloc_end := alloc_end s'\<rparr>)"
    using s' by (simp_all add: alloc_chunk_def)
qed

text \<open>The contract of the table, with its contents as a map.\<close>

locale object_table =
  fixes look :: "'o \<Rightarrow> 'ty \<Rightarrow> 's \<Rightarrow> ('s, 'd option) res"
    and al :: "'o \<Rightarrow> 'ty \<Rightarrow> nat \<Rightarrow> 's \<Rightarrow> ('s, 'd) res"
    and holds :: "'s \<Rightarrow> 'o \<Rightarrow> ('ty \<times> 'd) option"
    and ok :: "'s \<Rightarrow> bool"
  assumes look_law: "ok s \<Longrightarrow> look o1 ty s = Ret p s1 \<longleftrightarrow>
      (\<exists>d. holds s o1 = Some (ty, d) \<and> p = Some d) \<and> s1 = s"
    and al_law: "ok s \<Longrightarrow> al o1 ty n s = Ret d s' \<Longrightarrow>
      ok s' \<and> holds s o1 = None \<and> holds s' = (holds s)(o1 := Some (ty, d))"
begin

lemma look_after_al: "ok s \<Longrightarrow> al o1 ty n s = Ret d s' \<Longrightarrow> look o1 ty s' = Ret (Some d) s'"
  using al_law look_law by fastforce

lemma look_other:
  "ok s \<Longrightarrow> al o1 ty n s = Ret d s' \<Longrightarrow> o2 \<noteq> o1 \<Longrightarrow>
    look o2 ty2 s' = Ret p s' \<longleftrightarrow> look o2 ty2 s = Ret p s"
  using al_law [of s o1 ty n d s'] by (simp add: look_law)

lemma wrong_type: "ok s \<Longrightarrow> al o1 ty n s = Ret d s' \<Longrightarrow> ty2 \<noteq> ty \<Longrightarrow> \<not> returns (look o1 ty2 s')"
  using al_law [of s o1 ty n d s'] by (cases "look o1 ty2 s'") (auto simp: look_law)

lemma al_once: "ok s \<Longrightarrow> al o1 ty n s = Ret d s' \<Longrightarrow> \<not> returns (al o1 ty2 m s')"
proof
  assume a: "ok s" "al o1 ty n s = Ret d s'" "returns (al o1 ty2 m s')"
  then obtain d2 s2 where "al o1 ty2 m s' = Ret d2 s2" by (auto simp: returns_iff)
  moreover have "ok s'" "holds s' o1 = Some (ty, d)" using al_law [OF a(1,2)] by simp_all
  ultimately show False using al_law by fastforce
qed

end

interpretation ot: object_table oid_lookup "oid_alloc bd" holds oids_ok for bd
  by unfold_locales (auto simp: oid_lookup_ok oid_alloc_ok split: option.splits if_splits)

lemma with_oid_eq:
  "oids_ok s \<Longrightarrow> with_oid oid ty f s =
    (case holds s oid of
       Some (ty', d) \<Rightarrow> if ty' = ty then f s else Shut ''Invalid oid type'' s
     | None \<Rightarrow> Shut ''Invalid oid type'' s)"
  by (auto simp: with_oid_def oid_lookup_ok deref_def split: option.splits)

section \<open>Visiting all objects of a type\<close>

definition oids_of :: "oid_type \<Rightarrow> 'a mcu_scheme \<Rightarrow> nat list" where
  "oids_of ty s = filter (\<lambda>j. os_type (oid_table s ! j) = Some ty) [0..<length (oid_table s)]"

fun run_all :: "('o \<Rightarrow> 's \<Rightarrow> ('s, unit) res) \<Rightarrow> 'o list \<Rightarrow> 's \<Rightarrow> ('s, unit) res" where
  "run_all body [] s = Ret () s"
| "run_all body (x # xs) s = andthen (body x s) (run_all body xs)"

lemma oid_next_loop_drop:
  assumes "i \<le> length tab"
  shows "oid_next_loop ty i (drop i tab) =
    (case filter (\<lambda>j. os_type (tab ! j) = Some ty) [i..<length tab] of [] \<Rightarrow> None | j # _ \<Rightarrow> Some j)"
  using assms
proof (induction "length tab - i" arbitrary: i)
  case (Suc n)
  then have lt: "i < length tab" by simp
  then have "drop i tab = tab ! i # drop (Suc i) tab" by (simp add: Cons_nth_drop_Suc)
  with Suc lt show ?case by (simp add: upt_conv_Cons)
qed simp

lemma filter_upt_head:
  "filter P [i..<n] = j # js \<Longrightarrow> js = filter P [Suc j..<n] \<and> i \<le> j \<and> j < n \<and> P j"
proof (induction "n - i" arbitrary: i)
  case (Suc m)
  then have "m = n - Suc i" by simp
  with Suc show ?case by (cases "P i") (fastforce simp: upt_conv_Cons split: if_splits)+
qed simp

text \<open>\<open>foreach_oid\<close> runs its body on every object of the type, in order.\<close>

lemma foreach_oid_from_run:
  assumes body: "\<And>x s u s'. body x s = Ret u s' \<Longrightarrow> oids s' = oids s \<and> oid_count s' = oid_count s"
    and "oids_ok s" "length (oid_table s) \<le> i + fuel" "i \<le> length (oid_table s)"
  shows "foreach_oid_from fuel i ty body s =
    run_all body (map of_nat (filter (\<lambda>j. os_type (oid_table s ! j) = Some ty) [i..<length (oid_table s)])) s"
  using assms(2-)
proof (induction fuel arbitrary: i s)
  case (Suc fuel)
  let ?f = "filter (\<lambda>j. os_type (oid_table s ! j) = Some ty) [i..<length (oid_table s)]"
  note nx = oid_next_loop_drop [OF Suc.prems(3), of ty]
  show ?case
  proof (cases ?f)
    case Nil
    then show ?thesis by (simp add: oid_next_def nx)
  next
    case (Cons j js)
    note j = filter_upt_head [OF Cons]
    from j Suc.prems(1) obtain d where d: "os_data (oid_table s ! j) = Some d"
      by (auto simp: oids_ok_def oid_table_def split: option.splits)
        (metis nth_mem option.exhaust option.distinct(1))
    have "foreach_oid_from fuel (Suc j) ty body s' = run_all body (map of_nat js) s'"
      if "body (of_nat j) s = Ret u s'" for u s'
    proof -
      have t: "oid_table s' = oid_table s" "oids_ok s'" using body [OF that] Suc.prems(1)
        by (simp_all add: oid_table_def oids_ok_def cong: option.case_cong)
      show ?thesis using Suc.IH [of s' "Suc j"] Suc.prems(2) j by (simp add: t)
    qed
    then show ?thesis
      using Cons d by (cases "body (of_nat j) s") (simp_all add: oid_next_def nx)
  qed
qed simp

lemma foreach_oid_run:
  assumes "\<And>x s u s'. body x s = Ret u s' \<Longrightarrow> oids s' = oids s \<and> oid_count s' = oid_count s" "oids_ok s"
  shows "foreach_oid ty body s = run_all body (map of_nat (oids_of ty s)) s"
proof -
  have "unat (oid_count s) < 2 ^ LENGTH(8)" by (rule unsigned_less)
  then have "length (oid_table s) \<le> 0 + 256" by (simp add: oid_table_def)
  from foreach_oid_from_run [where body = body, OF assms this]
  show ?thesis unfolding foreach_oid_def oids_of_def by simp
qed

lemma oids_of_distinct: "distinct (map (of_nat :: nat \<Rightarrow> u8) (oids_of ty s))"
proof -
  have "unat (oid_count s) < 2 ^ LENGTH(8)" by (rule unsigned_less)
  then have "j < 256" if "j \<in> set (oids_of ty s)" for j
    using that by (auto simp: oids_of_def oid_table_def)
  then have "inj_on (of_nat :: nat \<Rightarrow> u8) (set (oids_of ty s))"
    by (auto simp: inj_on_def dest!: arg_cong [of _ _ unat] simp: unat_of_nat_small)
  then show ?thesis by (simp add: distinct_map oids_of_def)
qed

section \<open>Statistics, uptime and identification\<close>

lemma div_round_up_unat:
  assumes "unat n + unat d \<le> 2 ^ 32" "0 < unat d"
  shows "unat (div_round_up n d) = (unat n + unat d - 1) div unat d"
proof -
  have "unat (n + d - 1) = unat n + unat d - 1"
  proof -
    have e: "n + d - 1 = n + (d - 1)" by simp
    moreover have "unat (d - 1) = unat d - 1" using assms(2) by (metis unat_minus_one unat_0 less_irrefl)
    moreover have "unat n + unat (d - 1) < 2 ^ LENGTH(32)" using assms calculation by simp
    then have "unat (n + (d - 1)) = unat n + unat (d - 1)" by (rule unat_add_lem [THEN iffD1])
    ultimately show ?thesis using assms(2) unfolding e by simp
  qed
  then show ?thesis by (simp add: div_round_up_def unat_div)
qed

lemma sat_add: "unat (if q + p < q then 0xffffffff else q + p :: u32) = min 0xffffffff (unat q + unat p)"
proof -
  have b: "unat q < 2 ^ 32" "unat p < 2 ^ 32" using unsigned_less [of q] unsigned_less [of p] by simp_all
  have e: "unat (q + p) = (if unat q + unat p < 2 ^ 32 then unat q + unat p else unat q + unat p - 2 ^ 32)"
    using unat_plus_if' [of q p] by simp
  show ?thesis
  proof (cases "unat q + unat p < 2 ^ 32")
    case True
    then have "\<not> q + p < q" using e by (simp add: word_less_nat_alt)
    with True e show ?thesis by simp
  next
    case False
    then have "q + p < q" using e b by (simp add: word_less_nat_alt)
    with False show ?thesis by simp
  qed
qed

lemma div_step:
  fixes t t0 :: nat
  assumes "t0 \<le> t" "t < t0 + n"
  shows "t div n = t0 div n + (if t mod n < t0 mod n then 1 else 0)"
proof -
  have n: "0 < n" using assms by simp
  have e: "t = t div n * n + t mod n" "t0 = t0 div n * n + t0 mod n" by simp_all
  have m: "t mod n < n" "t0 mod n < n" using n by simp_all
  have "t0 div n \<le> t div n" using assms(1) by (rule div_le_mono)
  moreover have "t div n \<le> (t0 + n) div n" using assms(2) by (intro div_le_mono) simp
  then have "t div n \<le> Suc (t0 div n)" using n by (simp add: div_add_self2)
  ultimately consider "t div n = t0 div n" | "t div n = Suc (t0 div n)" by linarith
  then show ?thesis
  proof cases
    case 1
    then show ?thesis using e assms(1) by (metis add_le_cancel_left not_less add_0_right)
  next
    case 2
    then have "t = t0 div n * n + n + t mod n" using e(1) by simp
    then have "t mod n < t0 mod n" using e(2) assms(2) by linarith
    with 2 show ?thesis by simp
  qed
qed

text \<open>
  The sum of squares saturates: no intermediate product wraps, and a wrapped sum is replaced by
  the maximum. Above 0xfffff ticks the result is the maximum at once.
\<close>

lemma next_sumsq_exact:
  assumes "unat diff \<le> 0xffff"
  shows "unat (next_sumsq q diff) = min 0xffffffff (unat q + (unat diff * unat diff + 255) div 256)"
proof -
  let ?p = "div_round_up (diff * diff) 256"
  have le: "unat diff * unat diff \<le> 0xffff * 0xffff" using assms by (intro mult_le_mono) simp_all
  then have "unat diff * unat diff < 2 ^ LENGTH(32)" by simp
  then have m: "unat (diff * diff) = unat diff * unat diff" by (rule unat_mult_lem [THEN iffD1])
  have p: "unat ?p = (unat diff * unat diff + 255) div 256"
    using le m by (subst div_round_up_unat) simp_all
  have "diff \<le> 0xffff" using assms by (simp add: word_le_nat_alt)
  then have "next_sumsq q diff = (if q + ?p < q then 0xffffffff else q + ?p)"
    by (simp add: next_sumsq_def Let_def)
  moreover have "unat (if q + ?p < q then 0xffffffff else q + ?p) = min 0xffffffff (unat q + unat ?p)"
    by (rule sat_add)
  ultimately show ?thesis using p by simp
qed

lemma next_sumsq_coarse:
  assumes "0xffff < unat diff" "unat diff \<le> 0xfffff"
  shows "unat (next_sumsq q diff) = min 0xffffffff (unat q + (unat diff + 255) div 256 * unat diff)"
proof -
  let ?r = "div_round_up diff 256" and ?p = "div_round_up diff 256 * diff"
  have r: "unat ?r = (unat diff + 255) div 256" using assms by (subst div_round_up_unat) simp_all
  have "unat ?r * unat diff \<le> 4096 * 0xfffff" using assms by (intro mult_le_mono) (simp_all add: r)
  then have "unat ?r * unat diff < 2 ^ LENGTH(32)" by simp
  then have p: "unat ?p = unat ?r * unat diff" by (rule unat_mult_lem [THEN iffD1])
  have "\<not> diff \<le> 0xffff" "diff \<le> 0xfffff" using assms by (simp_all add: word_le_nat_alt)
  then have "next_sumsq q diff = (if q + ?p < q then 0xffffffff else q + ?p)"
    by (simp add: next_sumsq_def Let_def)
  moreover have "unat (if q + ?p < q then 0xffffffff else q + ?p) = min 0xffffffff (unat q + unat ?p)"
    by (rule sat_add)
  ultimately show ?thesis using p r by simp
qed

text \<open>The 64-bit uptime is exact if statistics were sent less than one clock period ago.\<close>

lemma uptime_exact:
  assumes "unat (stats_send_time s) = t0 mod 2 ^ 32" "unat (stats_send_time_high s) = t0 div 2 ^ 32"
    "t0 \<le> t" "t < t0 + 2 ^ 32" "t < 2 ^ 64" "unat cur = t mod 2 ^ 32"
  shows "unat (uptime_high cur s) * 2 ^ 32 + unat cur = t"
proof -
  have lt: "cur < stats_send_time s \<longleftrightarrow> t mod 2 ^ 32 < t0 mod 2 ^ 32"
    using assms by (simp add: word_less_nat_alt)
  have d: "t div 2 ^ 32 = t0 div 2 ^ 32 + (if t mod 2 ^ 32 < t0 mod 2 ^ 32 then 1 else 0)"
    using assms(3,4) by (rule div_step)
  have "t div 2 ^ 32 < 2 ^ 32" using assms(5) by (simp add: div_less_iff_less_mult)
  then have "unat (stats_send_time_high s) + unat (of_flag (cur < stats_send_time s) :: u32) < 2 ^ LENGTH(32)"
    using d assms(2) lt by (auto simp: of_flag_def split: if_splits)
  then have "unat (uptime_high cur s) = unat (stats_send_time_high s) + unat (of_flag (cur < stats_send_time s) :: u32)"
    unfolding uptime_high_def by (rule unat_add_lem [THEN iffD1])
  also have "\<dots> = t div 2 ^ 32" using d assms(2) lt by (auto simp: of_flag_def)
  finally show ?thesis using assms(6) by (simp add: div_mult_mod_eq)
qed

lemma identify_count_ok:
  assumes "length dict + 255 < 2 ^ 32"
  shows "unat (identify_count dict offset cnt) = min (unat cnt) (length dict - unat offset)"
proof -
  let ?n = "of_nat (length dict) :: u32"
  have n: "unat ?n = length dict" using assms by (intro unat_of_nat_small) simp
  have c: "unat (ucast cnt :: u32) = unat cnt" by (rule unat_ucast_up) simp
  have c8: "unat cnt < 256" using unsigned_less [of cnt] by simp
  show ?thesis
  proof (cases "?n \<le> offset")
    case True
    then show ?thesis using n by (simp add: identify_count_def word_le_nat_alt)
  next
    case False
    then have o: "unat offset < length dict" using n by (simp add: word_le_nat_alt)
    have "unat offset + unat (ucast cnt :: u32) < 2 ^ LENGTH(32)" using o c c8 assms by simp
    then have s: "unat (offset + ucast cnt) = unat offset + unat cnt"
      using unat_add_lem [THEN iffD1] c by metis
    have d: "unat (?n - offset) = length dict - unat offset"
      using o n by (simp add: unat_minus_wrap)
    show ?thesis
    proof (cases "offset + ucast cnt > ?n")
      case True
      then have "length dict - unat offset < unat cnt" using s n o by (simp add: word_less_nat_alt)
      with True False d c8 show ?thesis
        by (simp add: identify_count_def Let_def unsigned_ucast_eq take_bit_nat_eq_self)
    next
      case F: False
      then have "unat cnt \<le> length dict - unat offset" using s n o by (simp add: word_less_nat_alt)
      with False F show ?thesis by (simp add: identify_count_def Let_def)
    qed
  qed
qed

end
