(* ===== verification/Kernel_Correct.thy ===== *)
theory Kernel_Correct
  imports Timer_Irq Move_Pool
begin

text \<open>
  What the firmware's kernel promises: the timer list refines a queue ordered by time under
  adding, removing and running timers, and where the code departs from it; shutdown; the
  dispatch loop of the timer interrupt; the allocator, the pool of move nodes, the object table,
  and the clock commands.
\<close>

section \<open>The timer list as a queue ordered by time\<close>

text \<open>
  C12: Adding a timer that is not yet due inserts it into the queue of waiting timers at its
  time, behind those with the same time, and touches nothing else. The queue is the list of
  linked timers without the deleted placeholder; all times lie in half the clock range from a
  base, so that the wrapping comparison orders them.
\<close>

theorem timer_added_in_order:
  assumes "sched_ok b s xs" "t \<notin> set xs" "t \<noteq> TSentinel" "t \<noteq> TDeleted" "key b s t < 2 ^ 31"
    "timer_is_before (wake s t) (wake s (timer_list s)) \<longrightarrow> \<not> timer_is_before (wake s t) now1"
  shows "\<exists>s' ys. sched_add_timer now1 now2 t s = Ret () s' \<and> sched_ok b s' ys \<and>
    pending ys = insert_at (key b s) (key b s t) t (pending xs) \<and>
    (\<forall>x. x \<noteq> TDeleted \<longrightarrow> wake s' x = wake s x) \<and> sched.more s' = sched.more s"
  using assms by (intro sched_add_timer_ok) auto

text \<open>A timer at clock 1000 behind the periodic timer, at clock 0.\<close>

definition demo_sched :: sched where
  "demo_sched = set_wake (TObj 3 0) 1000 sched_init"

lemma demo_sched_ok: "sched_ok 0 demo_sched [TPeriodic]"
  by (simp add: demo_sched_def sched_ok_def sched_init_def timers_init_def window_def key_def set_wake_def)

lemma demo_sched_key: "key 0 demo_sched (TObj 3 0) = 1000" "key 0 demo_sched TPeriodic = 0"
  by (simp_all add: demo_sched_def key_def set_wake_def off_def sched_init_def timers_init_def)

theorem timer_added_in_order_witness:
  "\<exists>s' ys. sched_add_timer 500 500 (TObj 3 0) demo_sched = Ret () s' \<and> sched_ok 0 s' ys \<and> pending ys = [TPeriodic, TObj 3 0]"
proof -
  have "timer_list demo_sched = TPeriodic" by (simp add: demo_sched_def set_wake_def sched_init_def)
  then have nb: "\<not> timer_is_before (wake demo_sched (TObj 3 0)) (wake demo_sched (timer_list demo_sched))"
    using before_key [of 0 "wake demo_sched (TObj 3 0)" demo_sched TPeriodic] demo_sched_key by (simp add: key_def)
  have "insert_at (key 0 demo_sched) (key 0 demo_sched (TObj 3 0)) (TObj 3 0) (pending [TPeriodic]) = [TPeriodic, TObj 3 0]"
    by (simp add: demo_sched_key pending_def)
  then show ?thesis
    using timer_added_in_order [OF demo_sched_ok, of "TObj 3 0" 500 500] nb demo_sched_key(1) by auto
qed

text \<open>
  Removing a timer takes it out of the queue and leaves the order and the other timers
  alone; removing a timer that does not wait changes nothing in the queue.
\<close>

theorem timer_removed:
  assumes "sched_ok b s xs" "t \<noteq> TPeriodic" "t \<noteq> TSentinel" "t \<noteq> TDeleted"
  shows "\<exists>s' ys. sched_del_timer t s = Ret () s' \<and> sched_ok b s' ys \<and>
    pending ys = filter (\<lambda>x. x \<noteq> t) (pending xs) \<and>
    (\<forall>x. x \<noteq> TDeleted \<longrightarrow> wake s' x = wake s x) \<and> sched.more s' = sched.more s"
  by (rule sched_del_timer_ok [OF assms])

theorem timer_removed_witness:
  "\<exists>s s' ys. sched_add_timer 500 500 (TObj 3 0) demo_sched = Ret () s \<and> sched_del_timer (TObj 3 0) s = Ret () s' \<and>
     sched_ok 0 s' ys \<and> pending ys = [TPeriodic]"
proof -
  have "timer_list demo_sched = TPeriodic" by (simp add: demo_sched_def set_wake_def sched_init_def)
  then have nb: "\<not> timer_is_before (wake demo_sched (TObj 3 0)) (wake demo_sched (timer_list demo_sched))"
    using before_key [of 0 "wake demo_sched (TObj 3 0)" demo_sched TPeriodic] demo_sched_key by (simp add: key_def)
  obtain s xs where s: "sched_add_timer 500 500 (TObj 3 0) demo_sched = Ret () s" "sched_ok 0 s xs"
    "pending xs = insert_at (key 0 demo_sched) (key 0 demo_sched (TObj 3 0)) (TObj 3 0) (pending [TPeriodic])"
    using sched_add_timer_ok [OF demo_sched_ok, of "TObj 3 0" 500 500] nb demo_sched_key(1) by auto
  have "pending xs = [TPeriodic, TObj 3 0]" using s(3) by (simp add: demo_sched_key pending_def)
  then show ?thesis using s(1) timer_removed [OF s(2), of "TObj 3 0"] by auto
qed

text \<open>
  C13: Running the timer at the head: when its callback asks to be rescheduled at a new time, the
  timer is put back at its place in the queue; the walk that starts at \<open>last_insert\<close> finds the
  same place as a walk from the head, and the board is told the time of the new head.
\<close>

theorem timer_rescheduled:
  assumes "dispatch_ok b s1 t rest" "t \<noteq> TDeleted" "key b s1 t < 2 ^ 31"
    "call (t_func (timers s (timer_list s))) (timer_list s) s = Ret SF_RESCHEDULE s1" "timer_list s = t"
  shows "\<exists>s2. sched_timer_dispatch call s = Ret (wake s2 (timer_list s2)) s2 \<and>
    sched_ok b s2 (insert_at (key b s1) (key b s1 t) t rest) \<and>
    (\<forall>x. wake s2 x = wake s1 x) \<and> sched.more s2 = sched.more s1"
  using assms by (intro dispatch_resched [where call = call and s = s])

theorem timer_rescheduled_witness:
  "\<exists>s2. sched_timer_dispatch (\<lambda>f t. periodic_event 16000000) sched_init = Ret (wake s2 (timer_list s2)) s2 \<and>
     sched_ok 0 s2 [TPeriodic] \<and> wake s2 TPeriodic = 1600000"
proof -
  obtain s1 where s1: "periodic_event 16000000 sched_init = Ret SF_RESCHEDULE s1" "dispatch_ok 0 s1 TPeriodic []"
    "wake s1 TPeriodic = wake sched_init TPeriodic + timer_from_us 16000000 100000"
    using periodic_event_dispatch_ok [OF sched_init_ok, of 16000000] by blast
  have w: "wake s1 TPeriodic = 1600000"
    using s1(3) by (simp add: sched_init_def timers_init_def timer_from_us_def)
  then have "key 0 s1 TPeriodic < 2 ^ 31" by (simp add: key_def off_def)
  moreover have "timer_list sched_init = TPeriodic" by (simp add: sched_init_def)
  ultimately show ?thesis
    using timer_rescheduled [OF s1(2), of "\<lambda>f t. periodic_event 16000000" sched_init] s1(1) w by auto
qed

section \<open>Timers added too late\<close>

text \<open>
  C35: A timer added after its time, while only the periodic timer waits and is still ahead of
  the clock, makes \<open>sched_add_timer\<close> follow a null pointer: its time is moved to now, but the
  walk starts behind the periodic timer, and even the sentinel is before now.
\<close>

theorem late_timer_follows_null:
  assumes "sched_ok b s [TPeriodic]" "t \<noteq> TPeriodic" "t \<noteq> TSentinel"
    "timer_is_before (wake s t) (wake s TPeriodic)" "timer_is_before (wake s t) now1" "too_close_c s < 2"
    "timer_is_before now2 (wake s TPeriodic)"
  shows "sched_add_timer now1 now2 t s = Fault"
  by (rule late_timer_null [OF assms])

text \<open>The periodic timer at clock 5000, and a timer that should have run at clock 1000.\<close>

definition late_sched :: sched where
  "late_sched = set_wake TPeriodic 5000 (set_wake TSentinel 0x80001388 demo_sched)"

lemma late_sched_ok: "sched_ok 0 late_sched [TPeriodic]"
  by (simp add: late_sched_def demo_sched_def sched_ok_def sched_init_def timers_init_def window_def key_def
      set_wake_def off_def)

theorem late_timer_follows_null_witness: "sched_add_timer 2000 2001 (TObj 3 0) late_sched = Fault"
  by (rule late_timer_follows_null [OF late_sched_ok])
    (simp_all add: late_sched_def demo_sched_def set_wake_def sched_init_def before_unat timers_init_def)

text \<open>
  A timer added after its time while another timer is next is put behind that timer although
  its new time is before it: the list is out of order, and the timer runs later than the time
  it was moved to.
\<close>

theorem late_timer_out_of_order:
  assumes "sched_ok b s (h # r # rest)" "t \<notin> set (h # r # rest)" "t \<noteq> TSentinel"
    "timer_is_before (wake s t) (wake s h)" "timer_is_before (wake s t) now1" "too_close_c s < 2"
    "off b now2 < 2 ^ 31" "timer_is_before now2 (wake s h)"
  shows "\<exists>s'. sched_add_timer now1 now2 t s = Ret () s' \<and>
    seg (timers s') (Some h) (h # t # r # rest @ [TSentinel]) None \<and>
    timer_list s' = h \<and> timer_is_before (wake s' t) (wake s' h)"
  by (rule late_timer_behind_head [OF assms])

text \<open>A timer at clock 4000 and the periodic timer at clock 5000.\<close>

definition late_sched2 :: sched where
  "late_sched2 = (set_next (TObj 4 0) (Some TPeriodic) (set_wake (TObj 4 0) 4000 late_sched))
     \<lparr>timer_list := TObj 4 0\<rparr>"

theorem late_timer_out_of_order_witness:
  "\<exists>s'. sched_add_timer 2000 2001 (TObj 3 0) late_sched2 = Ret () s' \<and>
     seg (timers s') (Some (TObj 4 0)) [TObj 4 0, TObj 3 0, TPeriodic, TSentinel] None \<and>
     timer_is_before (wake s' (TObj 3 0)) (wake s' (TObj 4 0))"
proof -
  have "sched_ok 0 late_sched2 [TObj 4 0, TPeriodic]"
    by (simp add: late_sched2_def late_sched_def demo_sched_def sched_ok_def sched_init_def timers_init_def window_def
        key_def set_wake_def set_next_def off_def)
  from late_timer_out_of_order [OF this, of "TObj 3 0" 2000 2001] show ?thesis
    by (auto simp: late_sched2_def late_sched_def demo_sched_def set_wake_def set_next_def sched_init_def before_unat
        timers_init_def off_def)
qed

text \<open>
  The count of late timers is never reset: after two of them at any time since power-up,
  the next one shuts the firmware down, even after a shutdown was cleared in between.
\<close>

theorem third_late_timer_shuts_down:
  assumes "timer_is_before (wake s t) (wake s (timer_list s))" "timer_is_before (wake s t) now1"
    "2 \<le> too_close_c s" "shutdown_status s = 0"
  shows "(\<exists>s'. sched_add_timer now1 now2 t s = Shut ''Timer too close'' s') \<and>
    too_close_c (sched_timer_reset s) = too_close_c s"
  using late_timer_shutdown [OF assms] too_close_c_reset by blast

theorem third_late_timer_shuts_down_witness:
  "\<exists>s'. sched_add_timer 2000 2001 (TObj 3 0) (late_sched\<lparr>too_close_c := 2\<rparr>) = Shut ''Timer too close'' s'"
  using third_late_timer_shuts_down [of "late_sched\<lparr>too_close_c := 2\<rparr>" "TObj 3 0" 2000 2001]
  by (simp add: late_sched_def demo_sched_def set_wake_def sched_init_def before_unat timers_init_def)

section \<open>Shutdown\<close>

text \<open>
  A shutdown keeps the first reason, runs the shutdown handlers once with the status that
  cannot be cleared, and leaves the firmware shut down: then commands to clear it work, and a
  further \<open>try_shutdown\<close> does nothing.
\<close>

theorem shutdown_runs_handlers:
  assumes "run_shutdown str_id handlers cur reason s = Ret () s'"
  shows "shutdown_status s' = 1 \<and>
    (\<exists>s1 s2. handlers s1 = Ret () s2 \<and> shutdown_status s1 = 2 \<and> sched_clear_shutdown s1 = Ret () s1 \<and>
       shutdown_reason s1 = (if shutdown_status s = 0 then reason else shutdown_reason s)) \<and>
    sched_try_shutdown other s' = Ret () s' \<and> sched_clear_shutdown s' = Ret () (s'\<lparr>shutdown_status := 0\<rparr>)"
proof -
  obtain s1 s2 where h: "handlers s1 = Ret () s2" "shutdown_status s1 = 2"
    "shutdown_reason s1 = (if shutdown_status s = 0 then reason else shutdown_reason s)"
    using run_shutdown_ok(2) [OF assms] by blast
  moreover have "sched_clear_shutdown s1 = Ret () s1" using h(2) by (simp add: sched_clear_shutdown_def)
  moreover have "sched_try_shutdown other s' = Ret () s'" "sched_clear_shutdown s' = Ret () (s'\<lparr>shutdown_status := 0\<rparr>)"
    using run_shutdown_ok(1) [OF assms] by (simp_all add: sched_try_shutdown_def sched_clear_shutdown_def)
  ultimately show ?thesis using run_shutdown_ok(1) [OF assms] by blast
qed

theorem shutdown_runs_handlers_witness:
  "\<exists>s'. run_shutdown (\<lambda>_. 7) (Ret ()) 100 ''stop'' sched_init = Ret () s' \<and> shutdown_status s' = 1 \<and>
     sched_try_shutdown ''again'' s' = Ret () s'"
proof -
  obtain s' where r: "run_shutdown (\<lambda>_. 7) (Ret ()) 100 ''stop'' sched_init = Ret () s'"
    by (simp add: run_shutdown_def sched_init_def)
  from shutdown_runs_handlers [OF r, of "''again''"] show ?thesis using r by blast
qed

section \<open>The timer interrupt\<close>

text \<open>
  The dispatch loop never gives the board a time in the past: it returns the time of
  the next timer when that is ahead of the clock by more than the minimum, or a time five
  microseconds ahead, the latter only while tasks wait to run.
\<close>

theorem dispatch_many_returns_ahead:
  assumes "timer_dispatch_many freq dispatch rds s = Some (Ret w s')"
    "0 \<le> sint (TIMER_MIN_TRY_TICKS freq)"
  shows "\<exists>now \<in> rd_now ` set rds. 0 < sint (w - now) \<or>
    w = now + TIMER_DEFER_REPEAT_TICKS freq \<and> sched_tasks_busy s' \<and> timer_repeat_until s' = now + TIMER_REPEAT_TICKS freq"
proof -
  obtain v where v: "dispatch_rounds freq dispatch rds (timer_repeat_until s) s = Some (Ret v s')"
    "w = (case v of Next nxt _ \<Rightarrow> nxt | Defer now \<Rightarrow> now + TIMER_DEFER_REPEAT_TICKS freq)"
    using assms(1) by (auto simp: timer_dispatch_many_def bnd_eq_Ret)
  then show ?thesis using dispatch_rounds_ahead [OF v(1)] assms(2)
    by (cases v) (force simp: woken_ok_def)+
qed

definition demo_irq :: timer_irq where
  "demo_irq = sched.extend demo_sched (timer_irq.fields 0 0)"

theorem dispatch_many_returns_ahead_witness:
  "timer_dispatch_many 16000000 (Ret 5000) [\<lparr>rd_now = 1000, rd_reads = [], rd_irqs = Ret ()\<rparr>] demo_irq = Some (Ret 5000 demo_irq) \<and>
   (\<exists>now \<in> {1000}. 0 < sint (5000 - now :: u32))"
proof -
  have r: "timer_dispatch_many 16000000 (Ret 5000) [\<lparr>rd_now = 1000, rd_reads = [], rd_irqs = Ret ()\<rparr>] demo_irq = Some (Ret 5000 demo_irq)"
    by (simp add: timer_dispatch_many_def TIMER_MIN_TRY_TICKS_def timer_from_us_def)
  have m: "0 \<le> sint (TIMER_MIN_TRY_TICKS 16000000)" by (simp add: TIMER_MIN_TRY_TICKS_def timer_from_us_def)
  from dispatch_many_returns_ahead [OF r m] show ?thesis using r
    by (auto simp: TIMER_DEFER_REPEAT_TICKS_def timer_from_us_def)
qed

text \<open>
  Timers cannot keep tasks from running: once the clock has passed the limit of repeated
  timers, the first round that finds a timer due and tasks requested ends the interrupt, or shuts
  the firmware down if that timer is more than a millisecond late.
\<close>

theorem dispatch_many_yields:
  assumes "dispatch s = Ret nxt s1" "\<not> sint (nxt - rd_now rd) > sint (TIMER_MIN_TRY_TICKS freq)"
    "timer_is_before (timer_repeat_until s) (rd_now rd)" "sched_tasks_busy s1"
  shows "timer_dispatch_many freq dispatch (rd # rds) s =
    Some (if sint (nxt - rd_now rd) < sint (- timer_from_us freq 1000) \<and> shutdown_status s1 = 0
          then Shut ''Rescheduled timer in the past'' s1
          else Ret (rd_now rd + TIMER_DEFER_REPEAT_TICKS freq)
                 (s1\<lparr>timer_repeat_until := rd_now rd + TIMER_REPEAT_TICKS freq\<rparr>))"
  using dispatch_rounds_yields [of dispatch s, OF assms] by (simp add: timer_dispatch_many_def)

theorem dispatch_many_yields_witness:
  "timer_dispatch_many 16000000 (Ret 900) [\<lparr>rd_now = 1000, rd_reads = [], rd_irqs = Ret ()\<rparr>] demo_irq =
     Some (Ret 1080 (demo_irq\<lparr>timer_repeat_until := 2600\<rparr>))"
proof -
  let ?rd = "\<lparr>rd_now = 1000, rd_reads = [], rd_irqs = Ret ()\<rparr>"
  have "(Ret 900 :: timer_irq \<Rightarrow> _) demo_irq = Ret 900 demo_irq"
    "\<not> sint (900 - rd_now ?rd) > sint (TIMER_MIN_TRY_TICKS 16000000)"
    "timer_is_before (timer_repeat_until demo_irq) (rd_now ?rd)" "sched_tasks_busy demo_irq"
    by (simp_all add: TIMER_MIN_TRY_TICKS_def timer_from_us_def demo_irq_def before_unat sched_tasks_busy_def
        TS_REQUESTED_def demo_sched_def set_wake_def sched_init_def sched.defs timer_irq.defs)
  note h = dispatch_many_yields [where dispatch = "Ret 900" and s = demo_irq, OF this, of "[]"]
  show ?thesis
    using h by (simp add: TIMER_REPEAT_TICKS_def TIMER_DEFER_REPEAT_TICKS_def timer_from_us_def)
qed

section \<open>Memory\<close>

text \<open>
  Areas that the allocator hands out lie inside the dynamic memory, behind the ones handed out
  before, and do not overlap.
\<close>

theorem allocations_disjoint:
  assumes "alloc_all bd szs s = Ret areas s'" "0 < ptr_align bd"
  shows "(\<forall>(p, sz) \<in> set areas. alloc_end s \<le> p \<and> p + sz \<le> dynmem_end bd) \<and>
    sorted_wrt (\<lambda>(p, sz) (q, _). p + sz \<le> q) areas"
  using alloc_all_ok [OF assms] by blast

definition demo_board :: board where
  "demo_board = \<lparr>dynmem_start = 100, dynmem_end = 500, ptr_align = 8, sizeof_move_node = 4, sizeof_oid_s = 8,
     clock_freq = 16000000, inline_stepper_hack = True, have_both_edge = True, mach_avr = False,
     out_pin_ok = (\<lambda>p. p < 64), in_pin_ok = (\<lambda>p. p < 64), pwm_pin_ok = (\<lambda>p. p < 64), adc_pin_ok = (\<lambda>p. p < 64)\<rparr>"

definition demo_mcu :: mcu where
  "demo_mcu = sched.extend sched_init (mcu.fields 104 None (\<lambda>_. \<lparr>mn_next = None, mn_data = Raw\<rparr>) None 0 0 None 0 0
     0 0 0 0 0 (\<lambda>_. False))"

lemma demo_mcu_sel [simp]:
  "alloc_end demo_mcu = 104" "move_free_list demo_mcu = None" "oids demo_mcu = None" "oid_count demo_mcu = 0"
  "move_count demo_mcu = 0" "stats_send_time demo_mcu = 0" "stats_send_time_high demo_mcu = 0"
  "timers demo_mcu = timers_init" "shutdown_status demo_mcu = 0"
  by (simp_all add: demo_mcu_def sched.defs mcu.defs sched_init_def)

theorem allocations_disjoint_witness:
  "\<exists>s'. alloc_all demo_board [5, 20] demo_mcu = Ret [(104, 5), (112, 20)] s' \<and> sorted_wrt (\<lambda>(p, sz) (q, _). p + sz \<le> q) [(104, 5), (112 :: nat, 20 :: nat)]"
proof -
  obtain s' where r: "alloc_all demo_board [5, 20] demo_mcu = Ret [(104, 5), (112, 20)] s'"
    by (simp add: alloc_chunk_def demo_board_def align_def)
  from allocations_disjoint [OF r] show ?thesis using r by (simp add: demo_board_def)
qed

text \<open>
  The pool of move nodes gives out as many nodes as are free, no matter in which order they
  were released, and then shuts down instead of handing out a node in use.
\<close>

theorem move_pool_capacity:
  assumes "free_nodes s fs"
  shows "returns (mp.alloc_n k s) \<longleftrightarrow> k \<le> length fs"
  by (rule mp.capacity [OF assms])

theorem move_pool_capacity_witness:
  "returns (mp.alloc_n 1 (demo_mcu\<lparr>move_free_list := Some 200\<rparr>)) \<and> \<not> returns (mp.alloc_n 2 (demo_mcu\<lparr>move_free_list := Some 200\<rparr>))"
proof -
  have "move_nodes demo_mcu 200 = \<lparr>mn_next = None, mn_data = Raw\<rparr>" by (simp add: demo_mcu_def sched.defs mcu.defs)
  then have f: "free_nodes (demo_mcu\<lparr>move_free_list := Some 200\<rparr>) [200]" by (simp add: free_nodes_def)
  show ?thesis using move_pool_capacity [OF f, of 1] move_pool_capacity [OF f, of 2] by simp
qed

text \<open>
  After \<open>move_finalize\<close> has laid out the pool, every node of it is free, at its own place.
\<close>

theorem move_pool_reset:
  assumes "move_count s \<noteq> 0" "move_list s = Some base" "move_item_size s \<noteq> 0"
  shows "\<exists>s'. move_reset s = Ret () s' \<and>
    free_nodes s' (map (node_at base (unat (move_item_size s))) [0..<unat (move_count s)])"
  by (rule move_reset_ok [OF assms])

theorem move_pool_reset_witness:
  "\<exists>s'. move_reset (demo_mcu\<lparr>move_count := 3, move_list := Some 200, move_item_size := 16\<rparr>) = Ret () s' \<and>
     free_nodes s' [200, 216, 232]"
  using move_pool_reset [of "demo_mcu\<lparr>move_count := 3, move_list := Some 200, move_item_size := 16\<rparr>" 200]
  by (simp add: node_at_def upt_rec)

text \<open>
  C36: An object id leads to the object that was allocated for it and to no other: a lookup with
  its type gives its data, with another type it shuts down, other ids are not affected, and
  the id cannot be allocated again.
\<close>

theorem object_table_contract:
  assumes "oids_ok s" "oid_alloc bd oid ty n s = Ret d s'"
  shows "oid_lookup oid ty s' = Ret (Some d) s' \<and> (ty2 \<noteq> ty \<longrightarrow> \<not> returns (oid_lookup oid ty2 s')) \<and>
    (oid2 \<noteq> oid \<longrightarrow> (oid_lookup oid2 ty2 s' = Ret p s' \<longleftrightarrow> oid_lookup oid2 ty2 s = Ret p s)) \<and>
    \<not> returns (oid_alloc bd oid ty2 m s')"
  using ot.look_after_al [OF assms] ot.wrong_type [OF assms, of ty2] ot.look_other [OF assms, of oid2 ty2 p]
    ot.al_once [OF assms, of ty2 m] by blast+

definition demo_oids :: mcu where
  "demo_oids = demo_mcu\<lparr>oids := Some [\<lparr>os_type = None, os_data = None\<rparr>, \<lparr>os_type = None, os_data = None\<rparr>], oid_count := 2\<rparr>"

lemma demo_oids_ok: "oids_ok demo_oids"
  by (simp add: oids_ok_def demo_oids_def)

theorem object_table_contract_witness:
  "\<exists>d s'. oid_alloc demo_board 1 T_stepper 40 demo_oids = Ret d s' \<and>
     oid_lookup 1 T_stepper s' = Ret (Some d) s' \<and> \<not> returns (oid_lookup 1 T_endstop s')"
proof -
  have a: "\<exists>d s'. oid_alloc demo_board 1 T_stepper 40 demo_oids = Ret d s'"
    by (simp add: oid_alloc_def alloc_chunk_def demo_oids_def demo_board_def is_finalized_def Let_def word_le_nat_alt)
  then obtain d s' where a: "oid_alloc demo_board 1 T_stepper 40 demo_oids = Ret d s'" by blast
  show ?thesis using a object_table_contract [OF demo_oids_ok a, of T_endstop] by blast
qed

section \<open>Clock and statistics\<close>

text \<open>
  The firmware's 64-bit uptime is exact: while statistics were sent within the last clock
  period, the high word kept with them and the 32-bit clock give the true time.
\<close>

theorem uptime_is_exact:
  assumes "unat (stats_send_time s) = t0 mod 2 ^ 32" "unat (stats_send_time_high s) = t0 div 2 ^ 32"
    "t0 \<le> t" "t < t0 + 2 ^ 32" "t < 2 ^ 64" "unat cur = t mod 2 ^ 32"
  shows "unat (uptime_high cur s) * 2 ^ 32 + unat cur = t"
  by (rule uptime_exact [OF assms])

theorem uptime_is_exact_witness:
  "unat (uptime_high 5 (demo_mcu\<lparr>stats_send_time := 0xfffffff0, stats_send_time_high := 2\<rparr>)) * 2 ^ 32 + unat (5 :: u32) = 3 * 2 ^ 32 + 5"
  by (rule uptime_is_exact [of _ "2 * 2 ^ 32 + 0xfffffff0"]) simp_all

text \<open>
  The sum of squared task times, in units of 256 square ticks, is exact up to rounding up for
  short intervals and stays at the largest value instead of wrapping.
\<close>

theorem stats_sumsq_saturates:
  assumes "unat diff \<le> 0xfffff"
  shows "unat (next_sumsq q diff) = min 0xffffffff (unat q +
    (if unat diff \<le> 0xffff then (unat diff * unat diff + 255) div 256 else (unat diff + 255) div 256 * unat diff))"
  using assms next_sumsq_exact [of diff q] next_sumsq_coarse [of diff q] by (cases "unat diff \<le> 0xffff") auto

theorem stats_sumsq_saturates_witness: "unat (next_sumsq 0xffffff00 0x1000) = 0xffffffff"
  using stats_sumsq_saturates [of "0x1000" "0xffffff00"] by simp

end
