(* ===== verification/Trsync.thy ===== *)
theory Trsync
  imports Move_Pool
begin

text \<open>
  Synchronised triggers, \<open>klipper/src/trsync.c\<close>: a \<open>trsync\<close> object fires once, on a command, on
  its timeout or on an end stop, and calls the callbacks registered in its list of signals.
  Pointers to \<open>trsync\<close> objects and to signals are the object ids of the objects that hold
  them.
\<close>

section \<open>State\<close>

datatype signal_func = Sg_stepper_stop

record trsync_signal =
  sg_next :: "u8 option"
  sg_func :: "signal_func option"

record trsync =
  ts_report_ticks :: u32
  ts_signals :: "u8 option"
  ts_flags :: u8
  ts_trigger_reason :: u8
  ts_expire_reason :: u8

definition TSF_CAN_TRIGGER :: u8 where "TSF_CAN_TRIGGER = 1"
definition TSF_REPORT :: u8 where "TSF_REPORT = 4"

record trsync_sys = mcu +
  trsyncs :: "u8 \<Rightarrow> trsync"
  signals :: "u8 \<Rightarrow> trsync_signal"
  trsync_wake :: u8

definition trsync_zero :: trsync where
  "trsync_zero = \<lparr>ts_report_ticks = 0, ts_signals = None, ts_flags = 0, ts_trigger_reason = 0,
     ts_expire_reason = 0\<rparr>"

abbreviation report_time :: "u8 \<Rightarrow> tid" where "report_time oid \<equiv> TObj (unat oid) 0"
abbreviation expire_time :: "u8 \<Rightarrow> tid" where "expire_time oid \<equiv> TObj (unat oid) 1"

definition upd_trsync :: "u8 \<Rightarrow> (trsync \<Rightarrow> trsync) \<Rightarrow> 'a trsync_sys_scheme \<Rightarrow> 'a trsync_sys_scheme" where
  "upd_trsync oid f s = s\<lparr>trsyncs := (trsyncs s)(oid := f (trsyncs s oid))\<rparr>"

definition set_signal :: "u8 \<Rightarrow> trsync_signal \<Rightarrow> 'a trsync_sys_scheme \<Rightarrow> 'a trsync_sys_scheme" where
  "set_signal g v s = s\<lparr>signals := (signals s)(g := v)\<rparr>"

definition no_signal :: trsync_signal where
  "no_signal = \<lparr>sg_next = None, sg_func = None\<rparr>"

definition wake_trsync :: "'a trsync_sys_scheme \<Rightarrow> 'a trsync_sys_scheme" where
  "wake_trsync s = sched_wake_task (\<lambda>f s. s\<lparr>trsync_wake := f (trsync_wake s)\<rparr>) s"

section \<open>Triggering\<close>

text \<open>
  The loop that dispatches the signals. \<open>func f g reason\<close> is the call through the function
  pointer. \<open>n\<close> bounds the rounds; each round takes one object out of the list, and there are
  256 object ids.
\<close>

fun dispatch_signals ::
    "(signal_func \<Rightarrow> u8 \<Rightarrow> u8 \<Rightarrow> 'a trsync_sys_scheme \<Rightarrow> ('a trsync_sys_scheme, unit) res)
      \<Rightarrow> nat \<Rightarrow> u8 \<Rightarrow> u8 \<Rightarrow> 'a trsync_sys_scheme \<Rightarrow> ('a trsync_sys_scheme, unit) res" where
  "dispatch_signals func n oid reason s =
     (case ts_signals (trsyncs s oid) of
        None \<Rightarrow> Ret () s
      | Some g \<Rightarrow>
          (case n of
             0 \<Rightarrow> Fault
           | Suc n \<Rightarrow>
               (let fn = sg_func (signals s g);
                    s1 = upd_trsync oid (ts_signals_update (\<lambda>_. sg_next (signals s g))) s;
                    s2 = set_signal g no_signal s1
                in case fn of
                     None \<Rightarrow> Fault
                   | Some fn \<Rightarrow>
                       andthen (func fn g reason s2) (dispatch_signals func n oid reason))))"

definition trsync_do_trigger ::
    "(signal_func \<Rightarrow> u8 \<Rightarrow> u8 \<Rightarrow> 'a trsync_sys_scheme \<Rightarrow> ('a trsync_sys_scheme, unit) res)
      \<Rightarrow> u8 \<Rightarrow> u8 \<Rightarrow> 'a trsync_sys_scheme \<Rightarrow> ('a trsync_sys_scheme, unit) res" where
  "trsync_do_trigger func oid reason s =
     (let flags = ts_flags (trsyncs s oid)
      in if \<not> bit_set flags TSF_CAN_TRIGGER then Ret () s
         else
           (let s1 = upd_trsync oid (\<lambda>t. t\<lparr>ts_trigger_reason := reason,
                       ts_flags := (flags AND NOT TSF_CAN_TRIGGER) OR TSF_REPORT\<rparr>) s
            in andthen (dispatch_signals func 256 oid reason s1) (\<lambda>s. Ret () (wake_trsync s))))"

definition trsync_expire_event ::
    "(signal_func \<Rightarrow> u8 \<Rightarrow> u8 \<Rightarrow> 'a trsync_sys_scheme \<Rightarrow> ('a trsync_sys_scheme, unit) res)
      \<Rightarrow> u8 \<Rightarrow> 'a trsync_sys_scheme \<Rightarrow> ('a trsync_sys_scheme, sf) res" where
  "trsync_expire_event func oid s =
     andthen (trsync_do_trigger func oid (ts_expire_reason (trsyncs s oid)) s) (Ret SF_DONE)"

definition trsync_report_event :: "u8 \<Rightarrow> 'a trsync_sys_scheme \<Rightarrow> ('a trsync_sys_scheme, sf) res" where
  "trsync_report_event oid s =
     (let s1 = upd_trsync oid (\<lambda>t. t\<lparr>ts_flags := ts_flags t OR TSF_REPORT\<rparr>) s;
          s2 = wake_trsync s1
      in Ret SF_RESCHEDULE
           (set_wake (report_time oid)
              (wake s2 (report_time oid) + ts_report_ticks (trsyncs s2 oid)) s2))"

section \<open>Configuration\<close>

text \<open>\<open>sz\<close> is \<open>sizeof(struct trsync)\<close>.\<close>

definition command_config_trsync ::
    "board \<Rightarrow> nat \<Rightarrow> u32 list \<Rightarrow> 'a trsync_sys_scheme \<Rightarrow> ('a trsync_sys_scheme, unit) res" where
  "command_config_trsync bd sz args s =
     (let oid = ucast (args ! 0)
      in bnd (oid_alloc bd oid T_trsync sz s) (\<lambda>_ s.
           Ret () (set_func (expire_time oid) (Some Fn_trsync_expire_event)
                    (set_func (report_time oid) (Some Fn_trsync_report_event)
                      (clear_timer (expire_time oid) (clear_timer (report_time oid)
                        (upd_trsync oid (\<lambda>_. trsync_zero) s)))))))"

definition trsync_add_signal ::
    "u8 \<Rightarrow> u8 \<Rightarrow> signal_func option \<Rightarrow> 'a trsync_sys_scheme \<Rightarrow> ('a trsync_sys_scheme, unit) res" where
  "trsync_add_signal oid g fn s =
     (if sg_func (signals s g) \<noteq> None \<or> fn = None
      then Shut ''Can't add signal that is already active'' s
      else Ret () (upd_trsync oid (\<lambda>t. t\<lparr>ts_signals := Some g\<rparr>)
                    (set_signal g \<lparr>sg_next = ts_signals (trsyncs s oid), sg_func = fn\<rparr> s)))"

text \<open>The loop of \<open>trsync_clear\<close> over the list of signals, bounded as above.\<close>

fun clear_signals :: "nat \<Rightarrow> u8 option \<Rightarrow> 'a trsync_sys_scheme \<Rightarrow> ('a trsync_sys_scheme, unit) res" where
  "clear_signals n None s = Ret () s"
| "clear_signals 0 (Some g) s = Fault"
| "clear_signals (Suc n) (Some g) s =
     clear_signals n (sg_next (signals s g)) (set_signal g no_signal s)"

definition trsync_clear :: "u8 \<Rightarrow> 'a trsync_sys_scheme \<Rightarrow> ('a trsync_sys_scheme, unit) res" where
  "trsync_clear oid s =
     andthen (sched_del_timer (report_time oid) s) (\<lambda>s.
     andthen (sched_del_timer (expire_time oid) s) (\<lambda>s.
     andthen (clear_signals 256 (ts_signals (trsyncs s oid)) s) (\<lambda>s.
       Ret () (upd_trsync oid (\<lambda>t. t\<lparr>ts_signals := None, ts_flags := 0, ts_trigger_reason := 0,
                                   ts_expire_reason := 0\<rparr>) s))))"

text \<open>\<open>now1\<close>, \<open>now2\<close> are the clock reads of a possible \<open>sched_add_timer\<close>.\<close>

definition command_trsync_start ::
    "u32 \<Rightarrow> u32 \<Rightarrow> u32 list \<Rightarrow> 'a trsync_sys_scheme \<Rightarrow> ('a trsync_sys_scheme, unit) res" where
  "command_trsync_start now1 now2 args s =
     (let oid = ucast (args ! 0)
      in with_oid oid T_trsync (\<lambda>s.
           andthen (trsync_clear oid s) (\<lambda>s.
             let s1 = upd_trsync oid (\<lambda>t. t\<lparr>ts_flags := TSF_CAN_TRIGGER\<rparr>) s;
                 s2 = set_wake (report_time oid) (args ! 1) s1;
                 s3 = upd_trsync oid (\<lambda>t. t\<lparr>ts_report_ticks := args ! 2\<rparr>) s2
             in andthen (if ts_report_ticks (trsyncs s3 oid) \<noteq> 0
                         then sched_add_timer now1 now2 (report_time oid) s3 else Ret () s3)
                  (\<lambda>s. Ret () (upd_trsync oid (\<lambda>t. t\<lparr>ts_expire_reason := ucast (args ! 3)\<rparr>) s)))) s)"

definition command_trsync_set_timeout ::
    "u32 \<Rightarrow> u32 \<Rightarrow> u32 list \<Rightarrow> 'a trsync_sys_scheme \<Rightarrow> ('a trsync_sys_scheme, unit) res" where
  "command_trsync_set_timeout now1 now2 args s =
     (let oid = ucast (args ! 0)
      in with_oid oid T_trsync (\<lambda>s.
           if bit_set (ts_flags (trsyncs s oid)) TSF_CAN_TRIGGER then
             andthen (sched_del_timer (expire_time oid) s) (\<lambda>s.
               sched_add_timer now1 now2 (expire_time oid) (set_wake (expire_time oid) (args ! 1) s))
           else Ret () s) s)"

section \<open>Reports\<close>

definition trsync_report :: "u8 \<Rightarrow> u8 \<Rightarrow> u8 \<Rightarrow> u32 \<Rightarrow> 'a trsync_sys_scheme \<Rightarrow> 'a trsync_sys_scheme" where
  "trsync_report oid flags reason clock s =
     sendf ''trsync_state'' [RInt (ucast oid), RInt (of_flag (bit_set flags TSF_CAN_TRIGGER)),
       RInt (ucast reason), RInt clock] s"

definition command_trsync_trigger ::
    "(signal_func \<Rightarrow> u8 \<Rightarrow> u8 \<Rightarrow> 'a trsync_sys_scheme \<Rightarrow> ('a trsync_sys_scheme, unit) res)
      \<Rightarrow> u32 list \<Rightarrow> 'a trsync_sys_scheme \<Rightarrow> ('a trsync_sys_scheme, unit) res" where
  "command_trsync_trigger func args s =
     (let oid = ucast (args ! 0)
      in with_oid oid T_trsync (\<lambda>s.
           andthen (trsync_do_trigger func oid (ucast (args ! 1)) s) (\<lambda>s.
           andthen (sched_del_timer (report_time oid) s) (\<lambda>s.
           andthen (sched_del_timer (expire_time oid) s) (\<lambda>s.
             let s1 = upd_trsync oid (\<lambda>t. t\<lparr>ts_flags := 0\<rparr>) s
             in Ret () (trsync_report oid 0 (ts_trigger_reason (trsyncs s1 oid)) 0 s1))))) s)"

text \<open>\<open>clock oid\<close> is the clock read for the report of an object.\<close>

definition trsync_task :: "(u8 \<Rightarrow> u32) \<Rightarrow> 'a trsync_sys_scheme \<Rightarrow> ('a trsync_sys_scheme, unit) res" where
  "trsync_task clock s =
     (case sched_check_wake trsync_wake (\<lambda>f s. s\<lparr>trsync_wake := f (trsync_wake s)\<rparr>) s of
        (False, s) \<Rightarrow> Ret () s
      | (True, s) \<Rightarrow>
          foreach_oid T_trsync (\<lambda>oid s.
            let flags = ts_flags (trsyncs s oid)
            in if \<not> bit_set flags TSF_REPORT then Ret () s
               else
                 (let reason = ts_trigger_reason (trsyncs s oid);
                      s1 = upd_trsync oid (\<lambda>t. t\<lparr>ts_flags := flags AND NOT TSF_REPORT\<rparr>) s
                  in Ret () (trsync_report oid flags reason (clock oid) s1))) s)"

definition trsync_shutdown :: "'a trsync_sys_scheme \<Rightarrow> ('a trsync_sys_scheme, unit) res" where
  "trsync_shutdown s = foreach_oid T_trsync trsync_clear s"

section \<open>Triggers fire once and reach every signal\<close>

text \<open>The signals registered with an object, latest first.\<close>

fun sglist :: "(u8 \<Rightarrow> trsync_signal) \<Rightarrow> u8 option \<Rightarrow> u8 list \<Rightarrow> bool" where
  "sglist sg p [] \<longleftrightarrow> p = None"
| "sglist sg p (g # gs) \<longleftrightarrow> p = Some g \<and> sg_func (sg g) \<noteq> None \<and> sglist sg (sg_next (sg g)) gs"

lemma sglist_cong: "(\<And>x. x \<in> set gs \<Longrightarrow> sg x = sg' x) \<Longrightarrow> sglist sg p gs = sglist sg' p gs"
  by (induction gs arbitrary: p) auto

lemma trsync_updates [simp]:
  "trsyncs (upd_trsync oid f s) = (trsyncs s)(oid := f (trsyncs s oid))"
  "signals (upd_trsync oid f s) = signals s"
  "trsyncs (set_signal g v s) = trsyncs s"
  "signals (set_signal g v s) = (signals s)(g := v)"
  "trsyncs (wake_trsync s) = trsyncs s"
  "signals (wake_trsync s) = signals s"
  by (simp_all add: upd_trsync_def set_signal_def wake_trsync_def sched_wake_task_def sched_wake_tasks_def)

text \<open>The calls the dispatch loop makes, as a fold over the list of signals.\<close>

fun call_signals ::
    "(signal_func \<Rightarrow> u8 \<Rightarrow> u8 \<Rightarrow> 'a trsync_sys_scheme \<Rightarrow> ('a trsync_sys_scheme, unit) res)
      \<Rightarrow> u8 \<Rightarrow> u8 list \<Rightarrow> u8 \<Rightarrow> 'a trsync_sys_scheme \<Rightarrow> ('a trsync_sys_scheme, unit) res" where
  "call_signals func oid [] reason s = Ret () s"
| "call_signals func oid (g # gs) reason s =
     andthen (func (the (sg_func (signals s g))) g reason
               (set_signal g no_signal
                  (upd_trsync oid (ts_signals_update (\<lambda>_. sg_next (signals s g))) s)))
       (call_signals func oid gs reason)"

text \<open>Callbacks that leave the triggers and signals alone.\<close>

definition keeps_signals ::
    "(signal_func \<Rightarrow> u8 \<Rightarrow> u8 \<Rightarrow> 'a trsync_sys_scheme \<Rightarrow> ('a trsync_sys_scheme, unit) res) \<Rightarrow> bool" where
  "keeps_signals func \<longleftrightarrow> (\<forall>fn g reason s s'. func fn g reason s = Ret () s' \<longrightarrow>
     trsyncs s' = trsyncs s \<and> signals s' = signals s)"

lemma keeps_signalsD:
  "keeps_signals func \<Longrightarrow> func fn g reason s = Ret u s' \<Longrightarrow> trsyncs s' = trsyncs s \<and> signals s' = signals s"
  unfolding keeps_signals_def by simp

lemma dispatch_signals_calls:
  assumes "keeps_signals func" "sglist (signals s) (ts_signals (trsyncs s oid)) gs" "distinct gs"
    "length gs \<le> n"
  shows "dispatch_signals func n oid reason s = call_signals func oid gs reason s"
  using assms(2-)
proof (induction gs arbitrary: s n)
  case (Cons g gs)
  then obtain m where n: "n = Suc m" by (cases n) auto
  from Cons.prems obtain fn where fn: "sg_func (signals s g) = Some fn" by auto
  let ?s = "set_signal g no_signal (upd_trsync oid (ts_signals_update (\<lambda>_. sg_next (signals s g))) s)"
  have "dispatch_signals func m oid reason s' = call_signals func oid gs reason s'"
    if "func fn g reason ?s = Ret u s'" for u s'
  proof (rule Cons.IH)
    have k: "trsyncs s' = trsyncs ?s" "signals s' = signals ?s"
      using keeps_signalsD [OF assms(1) that] by auto
    have "sglist (signals ?s) p gs = sglist (signals s) p gs" for p
      using Cons.prems by (intro sglist_cong) auto
    then show "sglist (signals s') (ts_signals (trsyncs s' oid)) gs" using Cons.prems unfolding k by simp
  qed (use Cons.prems n in auto)
  then show ?case
    using Cons.prems fn n by (cases "func fn g reason ?s") (simp_all add: Let_def)
qed simp

lemma dispatch_signals_done:
  assumes "keeps_signals func" "dispatch_signals func n oid reason s = Ret () s'"
  shows "ts_signals (trsyncs s' oid) = None \<and> ts_flags (trsyncs s' oid) = ts_flags (trsyncs s oid) \<and>
    ts_trigger_reason (trsyncs s' oid) = ts_trigger_reason (trsyncs s oid)"
  using assms(2)
proof (induction n arbitrary: s)
  case 0
  then show ?case by (auto split: option.splits)
next
  case (Suc n)
  show ?case
  proof (cases "ts_signals (trsyncs s oid)")
    case None
    with Suc.prems show ?thesis by simp
  next
    case (Some g)
    let ?s = "set_signal g no_signal (upd_trsync oid (ts_signals_update (\<lambda>_. sg_next (signals s g))) s)"
    from Suc.prems Some obtain fn s1 where 1: "func fn g reason ?s = Ret () s1"
      "dispatch_signals func n oid reason s1 = Ret () s'"
      by (auto simp: Let_def andthen_eq_Ret split: option.splits)
    then show ?thesis using Suc.IH [OF 1(2)] keeps_signalsD [OF assms(1) 1(1)] by simp
  qed
qed

text \<open>A trigger records the first reason, empties the list and cannot fire again.\<close>

lemma trigger_flags: "\<not> bit_set ((f AND NOT TSF_CAN_TRIGGER) OR TSF_REPORT) TSF_CAN_TRIGGER"
  by (simp add: TSF_CAN_TRIGGER_def TSF_REPORT_def flag_bits)

lemma trsync_do_trigger_done:
  assumes "keeps_signals func" "trsync_do_trigger func oid reason s = Ret () s'"
    "bit_set (ts_flags (trsyncs s oid)) TSF_CAN_TRIGGER"
  shows "ts_signals (trsyncs s' oid) = None" "ts_trigger_reason (trsyncs s' oid) = reason"
    "\<not> bit_set (ts_flags (trsyncs s' oid)) TSF_CAN_TRIGGER" "bit_set (ts_flags (trsyncs s' oid)) TSF_REPORT"
proof -
  obtain s1 where 1: "dispatch_signals func 256 oid reason (upd_trsync oid (\<lambda>t. t\<lparr>ts_trigger_reason := reason,
        ts_flags := (ts_flags (trsyncs s oid) AND NOT TSF_CAN_TRIGGER) OR TSF_REPORT\<rparr>) s) = Ret () s1"
    "s' = wake_trsync s1"
    using assms(2,3) by (auto simp: trsync_do_trigger_def andthen_eq_Ret Let_def simp del: dispatch_signals.simps)
  note d = dispatch_signals_done [OF assms(1) 1(1)]
  show "ts_signals (trsyncs s' oid) = None" "ts_trigger_reason (trsyncs s' oid) = reason"
    "\<not> bit_set (ts_flags (trsyncs s' oid)) TSF_CAN_TRIGGER"
    using d trigger_flags by (simp_all add: 1(2))
  show "bit_set (ts_flags (trsyncs s' oid)) TSF_REPORT"
    using d by (simp add: 1(2) TSF_REPORT_def flag_bits)
qed

lemma trsync_do_trigger_idle:
  "\<not> bit_set (ts_flags (trsyncs s oid)) TSF_CAN_TRIGGER \<Longrightarrow> trsync_do_trigger func oid reason s = Ret () s"
  by (simp add: trsync_do_trigger_def)

end
