(* ===== verification/Stepper.thy ===== *)
theory Stepper
  imports Trsync
begin

text \<open>
  Stepper motors, \<open>klipper/src/stepper.c\<close>: moves \<open>(interval, count, add)\<close> queued by the host are
  turned into step pulses by timer events. All build variants are modelled; \<open>have_single\<close>,
  \<open>have_edge\<close> and \<open>have_avr\<close> are the macros at the top of the file. Definitions only.
\<close>

section \<open>State\<close>

definition MF_DIR :: u8 where "MF_DIR = 1"
definition POSITION_BIAS :: u32 where "POSITION_BIAS = 0x40000000"
definition SF_LAST_DIR :: u8 where "SF_LAST_DIR = 1"
definition SF_NEXT_DIR :: u8 where "SF_NEXT_DIR = 2"
definition SF_INVERT_STEP :: u8 where "SF_INVERT_STEP = 4"
definition SF_NEED_RESET :: u8 where "SF_NEED_RESET = 8"
definition SF_SINGLE_SCHED :: u8 where "SF_SINGLE_SCHED = 16"
definition SF_HAVE_ADD :: u8 where "SF_HAVE_ADD = 32"

record stepper =
  st_interval :: u32
  st_add :: u16
  st_count :: u32
  next_step_time :: u32
  step_pulse_ticks :: u32
  step_pin :: u32
  dir_pin :: u32
  position :: u32
  st_mq :: move_queue_head
  st_flags :: u8

record stepper_sys = trsync_sys +
  steppers :: "u8 \<Rightarrow> stepper"

definition stepper_zero :: stepper where
  "stepper_zero = \<lparr>st_interval = 0, st_add = 0, st_count = 0, next_step_time = 0,
     step_pulse_ticks = 0, step_pin = 0, dir_pin = 0, position = 0,
     st_mq = \<lparr>mq_first = None, mq_last = None\<rparr>, st_flags = 0\<rparr>"

abbreviation step_timer :: "u8 \<Rightarrow> tid" where "step_timer oid \<equiv> TObj (unat oid) 0"

definition upd_stepper :: "u8 \<Rightarrow> (stepper \<Rightarrow> stepper) \<Rightarrow> 'a stepper_sys_scheme \<Rightarrow> 'a stepper_sys_scheme" where
  "upd_stepper oid f s = s\<lparr>steppers := (steppers s)(oid := f (steppers s oid))\<rparr>"

definition have_single :: "board \<Rightarrow> bool" where
  "have_single bd \<longleftrightarrow> inline_stepper_hack bd \<and> (have_both_edge bd \<or> mach_avr bd)"

definition have_edge :: "board \<Rightarrow> bool" where
  "have_edge bd \<longleftrightarrow> inline_stepper_hack bd \<and> have_both_edge bd"

definition have_avr :: "board \<Rightarrow> bool" where
  "have_avr bd \<longleftrightarrow> inline_stepper_hack bd \<and> \<not> have_both_edge bd \<and> mach_avr bd"

section \<open>Step events\<close>

text \<open>\<open>add\<close> is a signed 16-bit value, added to 32-bit intervals.\<close>

definition sadd :: "u16 \<Rightarrow> u32" where "sadd a = scast a"

definition stepper_load_next :: "board \<Rightarrow> u8 \<Rightarrow> 'a stepper_sys_scheme \<Rightarrow> ('a stepper_sys_scheme, sf) res" where
  "stepper_load_next bd oid s =
     (let st = steppers s oid
      in if move_queue_empty (st_mq st) then
           Ret SF_DONE (upd_stepper oid (\<lambda>st. st\<lparr>st_count := 0\<rparr>) s)
         else bnd (move_queue_pop (st_mq st) s) (\<lambda>(mn, mq) s.
           case mn_data (move_nodes s mn) of
             StepperMove iv cnt ad fl \<Rightarrow>
               (let s1 = upd_stepper oid (\<lambda>st. st\<lparr>st_mq := mq, st_add := ad,
                                             st_interval := iv + sadd ad\<rparr>) s;
                    s2 = (if have_single bd \<and> bit_set (st_flags st) SF_SINGLE_SCHED then
                            upd_stepper oid (\<lambda>st. st\<lparr>st_count := ucast cnt,
                              st_flags := (if have_avr bd then
                                             (if ad \<noteq> 0 then st_flags st OR SF_HAVE_ADD
                                              else st_flags st AND NOT SF_HAVE_ADD)
                                           else st_flags st)\<rparr>)
                              (set_wake (step_timer oid) (wake s1 (step_timer oid) + iv) s1)
                          else
                            (let nst = next_step_time st + iv
                             in set_wake (step_timer oid) nst
                                  (upd_stepper oid (\<lambda>st. st\<lparr>next_step_time := nst,
                                                     st_count := ucast cnt * 2\<rparr>) s1)));
                    s3 = (if bit_set fl MF_DIR then
                            gpio_out_toggle (dir_pin st)
                              (upd_stepper oid (\<lambda>st. st\<lparr>position := - position st + ucast cnt\<rparr>) s2)
                          else upd_stepper oid (\<lambda>st. st\<lparr>position := position st + ucast cnt\<rparr>) s2)
                in Ret SF_RESCHEDULE (move_free mn s3))
           | _ \<Rightarrow> Fault))"

definition stepper_event_edge :: "board \<Rightarrow> u8 \<Rightarrow> 'a stepper_sys_scheme \<Rightarrow> ('a stepper_sys_scheme, sf) res" where
  "stepper_event_edge bd oid s =
     (let s1 = gpio_out_toggle (step_pin (steppers s oid)) s;
          st = steppers s1 oid;
          cnt = st_count st - 1
      in if cnt \<noteq> 0 then
           Ret SF_RESCHEDULE
             (upd_stepper oid (\<lambda>st. st\<lparr>st_count := cnt, st_interval := st_interval st + sadd (st_add st)\<rparr>)
               (set_wake (step_timer oid) (wake s1 (step_timer oid) + st_interval st) s1))
         else stepper_load_next bd oid s1)"

text \<open>The AVR variant works on the low 16 bits of \<open>count\<close> (a little-endian machine).\<close>

definition set_low16 :: "u32 \<Rightarrow> u16 \<Rightarrow> u32" where
  "set_low16 w v = (w AND 0xffff0000) OR ucast v"

definition stepper_event_avr :: "board \<Rightarrow> u8 \<Rightarrow> 'a stepper_sys_scheme \<Rightarrow> ('a stepper_sys_scheme, sf) res" where
  "stepper_event_avr bd oid s =
     (let s1 = gpio_out_toggle (step_pin (steppers s oid)) s;
          st = steppers s1 oid;
          cnt = ucast (st_count st) - 1 :: u16
      in if cnt \<noteq> 0 then
           (let s2 = upd_stepper oid (\<lambda>st. st\<lparr>st_count := set_low16 (st_count st) cnt\<rparr>) s1;
                s3 = set_wake (step_timer oid) (wake s2 (step_timer oid) + st_interval st) s2;
                s4 = gpio_out_toggle (step_pin st) s3
            in Ret SF_RESCHEDULE
                 (if bit_set (st_flags st) SF_HAVE_ADD
                  then upd_stepper oid (\<lambda>st. st\<lparr>st_interval := st_interval st + sadd (st_add st)\<rparr>) s4
                  else s4))
         else bnd (stepper_load_next bd oid s1) (\<lambda>ret s.
                Ret ret (gpio_out_toggle (step_pin (steppers s oid)) s)))"

text \<open>\<open>curtime\<close> is the clock read of the event.\<close>

definition stepper_event_full ::
    "board \<Rightarrow> u32 \<Rightarrow> u8 \<Rightarrow> 'a stepper_sys_scheme \<Rightarrow> ('a stepper_sys_scheme, sf) res" where
  "stepper_event_full bd curtime oid s =
     (let s1 = gpio_out_toggle (step_pin (steppers s oid)) s;
          min_next_time = curtime + step_pulse_ticks (steppers s1 oid);
          s2 = upd_stepper oid (\<lambda>st. st\<lparr>st_count := st_count st - 1\<rparr>) s1;
          st = steppers s2 oid;
          reschedule_min = (\<lambda>s. Ret SF_RESCHEDULE (set_wake (step_timer oid) min_next_time s))
      in if bit_set (st_count st) 1 then reschedule_min s2
         else if st_count st \<noteq> 0 then
           (let nst = next_step_time st + st_interval st;
                s3 = upd_stepper oid (\<lambda>st. st\<lparr>next_step_time := nst,
                       st_interval := st_interval st + sadd (st_add st)\<rparr>) s2
            in if timer_is_before nst min_next_time then reschedule_min s3
               else Ret SF_RESCHEDULE (set_wake (step_timer oid) nst s3))
         else bnd (stepper_load_next bd oid s2) (\<lambda>ret s.
           if ret = SF_DONE \<or> \<not> timer_is_before (wake s (step_timer oid)) min_next_time then Ret ret s
           else
             (let diff = wake s (step_timer oid) - min_next_time
              in if sint diff < sint (- timer_from_us (clock_freq bd) 1000)
                 then Shut ''Stepper too far in past'' s
                 else reschedule_min s)))"

definition stepper_event ::
    "board \<Rightarrow> u32 \<Rightarrow> u8 \<Rightarrow> 'a stepper_sys_scheme \<Rightarrow> ('a stepper_sys_scheme, sf) res" where
  "stepper_event bd curtime oid s =
     (if have_edge bd then stepper_event_edge bd oid s
      else if have_avr bd then stepper_event_avr bd oid s
      else stepper_event_full bd curtime oid s)"

section \<open>Commands\<close>

definition AVR_STEP_INSNS :: u32 where "AVR_STEP_INSNS = 40"

text \<open>
  \<open>sz\<close> is \<open>sizeof(struct stepper)\<close>, \<open>msz\<close> is \<open>sizeof(struct stepper_move)\<close>.
\<close>

definition command_config_stepper ::
    "board \<Rightarrow> nat \<Rightarrow> nat \<Rightarrow> u32 list \<Rightarrow> 'a stepper_sys_scheme \<Rightarrow> ('a stepper_sys_scheme, unit) res" where
  "command_config_stepper bd sz msz args s =
     (let oid = ucast (args ! 0)
      in bnd (oid_alloc bd oid T_stepper sz s) (\<lambda>_ s.
         let invert_step = int_fast8 bd (args ! 3);
             flags = (if invert_step > 0 then SF_INVERT_STEP else 0);
             s1 = clear_timer (step_timer oid)
                    (set_signal oid no_signal (upd_stepper oid (\<lambda>_. stepper_zero\<lparr>st_flags := flags\<rparr>) s))
         in bnd (gpio_out_setup bd (args ! 1) (bit_set flags SF_INVERT_STEP) s1) (\<lambda>sp s.
            bnd (gpio_out_setup bd (args ! 2) False s) (\<lambda>dp s.
              let s2 = upd_stepper oid (\<lambda>st. st\<lparr>step_pin := sp, dir_pin := dp,
                         position := - POSITION_BIAS, step_pulse_ticks := args ! 4\<rparr>) s
              in bnd (move_queue_setup msz s2) (\<lambda>mq s.
                 let s3 = upd_stepper oid (\<lambda>st. st\<lparr>st_mq := mq\<rparr>) s;
                     single = upd_stepper oid (\<lambda>st. st\<lparr>st_flags := st_flags st OR SF_SINGLE_SCHED\<rparr>);
                     full = set_func (step_timer oid) (Some Fn_stepper_event_full)
                 in Ret ()
                      (if have_edge bd then
                         (if args ! 4 = 0 \<and> invert_step < 0 then single s3 else full s3)
                       else if have_avr bd then
                         (if args ! 4 \<le> AVR_STEP_INSNS then single s3 else full s3)
                       else if \<not> inline_stepper_hack bd then full s3
                       else s3))))))"

text \<open>\<open>now1\<close>, \<open>now2\<close> are the clock reads of a possible \<open>sched_add_timer\<close>.\<close>

definition command_queue_step ::
    "board \<Rightarrow> u32 \<Rightarrow> u32 \<Rightarrow> u32 list \<Rightarrow> 'a stepper_sys_scheme \<Rightarrow> ('a stepper_sys_scheme, unit) res" where
  "command_queue_step bd now1 now2 args s =
     (let oid = ucast (args ! 0)
      in with_oid oid T_stepper (\<lambda>s.
         bnd (move_alloc s) (\<lambda>m s.
           let cnt = ucast (args ! 2) :: u16
           in if cnt = 0 then Shut ''Invalid count parameter'' s
              else
                (let st = steppers s oid;
                     flags = st_flags st;
                     turn = (bit_set flags SF_LAST_DIR \<noteq> bit_set flags SF_NEXT_DIR);
                     flags1 = (if turn then flags XOR SF_LAST_DIR else flags);
                     s1 = set_mn_data m (StepperMove (args ! 1) cnt (ucast (args ! 3))
                            (if turn then MF_DIR else 0)) s
                 in if st_count st \<noteq> 0 then
                      bnd (move_queue_push m (st_mq st) s1) (\<lambda>(_, mq) s.
                        Ret () (upd_stepper oid (\<lambda>st. st\<lparr>st_flags := flags1, st_mq := mq\<rparr>) s))
                    else if bit_set flags1 SF_NEED_RESET then Ret () (move_free m s1)
                    else
                      bnd (move_queue_push m (st_mq st) s1) (\<lambda>(_, mq) s.
                      bnd (stepper_load_next bd oid
                             (upd_stepper oid (\<lambda>st. st\<lparr>st_flags := flags1, st_mq := mq\<rparr>) s)) (\<lambda>_ s.
                        sched_add_timer now1 now2 (step_timer oid) s))))) s)"

definition command_set_next_step_dir ::
    "u32 list \<Rightarrow> 'a stepper_sys_scheme \<Rightarrow> ('a stepper_sys_scheme, unit) res" where
  "command_set_next_step_dir args s =
     (let oid = ucast (args ! 0)
      in with_oid oid T_stepper (\<lambda>s.
         let nextdir = (if args ! 1 \<noteq> 0 then SF_NEXT_DIR else 0)
         in Ret () (upd_stepper oid (\<lambda>st. st\<lparr>st_flags :=
              (st_flags st AND NOT SF_NEXT_DIR) OR nextdir\<rparr>) s)) s)"

definition command_reset_step_clock ::
    "u32 list \<Rightarrow> 'a stepper_sys_scheme \<Rightarrow> ('a stepper_sys_scheme, unit) res" where
  "command_reset_step_clock args s =
     (let oid = ucast (args ! 0)
      in with_oid oid T_stepper (\<lambda>s.
         if st_count (steppers s oid) \<noteq> 0 then Shut ''Can't reset time when stepper active'' s
         else Ret () (set_wake (step_timer oid) (args ! 1)
                (upd_stepper oid (\<lambda>st. st\<lparr>next_step_time := args ! 1,
                   st_flags := st_flags st AND NOT SF_NEED_RESET\<rparr>) s))) s)"

definition stepper_get_position :: "board \<Rightarrow> stepper \<Rightarrow> u32" where
  "stepper_get_position bd st =
     (let p = (if have_single bd \<and> bit_set (st_flags st) SF_SINGLE_SCHED
               then position st - st_count st
               else position st - st_count st div 2)
      in if bit_set p 0x80000000 then - p else p)"

definition command_stepper_get_position ::
    "board \<Rightarrow> u32 list \<Rightarrow> 'a stepper_sys_scheme \<Rightarrow> ('a stepper_sys_scheme, unit) res" where
  "command_stepper_get_position bd args s =
     (let oid = ucast (args ! 0)
      in with_oid oid T_stepper (\<lambda>s.
         Ret () (sendf ''stepper_position'' [RInt (ucast oid),
           RInt (stepper_get_position bd (steppers s oid) - POSITION_BIAS)] s)) s)"

section \<open>Stopping\<close>

text \<open>
  The loop of \<open>stepper_stop\<close> that frees the queued moves; \<open>n\<close> bounds its rounds (a queue has
  at most \<open>move_count\<close> nodes).
\<close>

fun free_moves :: "nat \<Rightarrow> move_queue_head \<Rightarrow> 'a mcu_scheme \<Rightarrow> ('a mcu_scheme, move_queue_head) res" where
  "free_moves n mq s =
     (if move_queue_empty mq then Ret mq s
      else (case n of
              0 \<Rightarrow> Fault
            | Suc n \<Rightarrow> bnd (move_queue_pop mq s) (\<lambda>(mn, mq) s. free_moves n mq (move_free mn s))))"

declare free_moves.simps [simp del]

text \<open>The assignments of \<open>stepper_stop\<close> between \<open>sched_del_timer\<close> and the loop.\<close>

definition stepper_halt :: "board \<Rightarrow> u8 \<Rightarrow> 'a stepper_sys_scheme \<Rightarrow> 'a stepper_sys_scheme" where
  "stepper_halt bd oid s =
     (let s1 = set_wake (step_timer oid) 0 (upd_stepper oid (\<lambda>st. st\<lparr>next_step_time := 0\<rparr>) s);
          s2 = upd_stepper oid (\<lambda>st. st\<lparr>position := - stepper_get_position bd st\<rparr>) s1;
          s3 = upd_stepper oid (\<lambda>st. st\<lparr>st_count := 0,
                 st_flags := (st_flags st AND (SF_INVERT_STEP OR SF_SINGLE_SCHED)) OR SF_NEED_RESET\<rparr>) s2;
          st = steppers s3 oid;
          s4 = gpio_out_write (dir_pin st) False s3
      in if \<not> (have_edge bd \<and> bit_set (st_flags st) SF_SINGLE_SCHED)
         then gpio_out_write (step_pin st) (bit_set (st_flags st) SF_INVERT_STEP) s4 else s4)"

definition stepper_stop ::
    "board \<Rightarrow> signal_func \<Rightarrow> u8 \<Rightarrow> u8 \<Rightarrow> 'a stepper_sys_scheme \<Rightarrow> ('a stepper_sys_scheme, unit) res" where
  "stepper_stop bd fn oid reason s =
     andthen (sched_del_timer (step_timer oid) s) (\<lambda>s.
       let s1 = stepper_halt bd oid s
       in bnd (free_moves (unat (move_count s1)) (st_mq (steppers s1 oid)) s1) (\<lambda>mq s.
            Ret () (upd_stepper oid (\<lambda>st. st\<lparr>st_mq := mq\<rparr>) s)))"

definition command_stepper_stop_on_trigger ::
    "u32 list \<Rightarrow> 'a stepper_sys_scheme \<Rightarrow> ('a stepper_sys_scheme, unit) res" where
  "command_stepper_stop_on_trigger args s =
     (let oid = ucast (args ! 0); ts = ucast (args ! 1)
      in bnd (oid_lookup oid T_stepper s) (\<lambda>p s.
         with_oid ts T_trsync (deref p (\<lambda>s.
           trsync_add_signal ts oid (Some Sg_stepper_stop) s)) s))"

definition stepper_shutdown :: "board \<Rightarrow> 'a stepper_sys_scheme \<Rightarrow> ('a stepper_sys_scheme, unit) res" where
  "stepper_shutdown bd s =
     foreach_oid T_stepper (\<lambda>oid s.
       stepper_stop bd Sg_stepper_stop oid 0
         (upd_stepper oid (\<lambda>st. st\<lparr>st_mq := move_queue_clear (st_mq st)\<rparr>) s)) s"

end
