(* ===== verification/Stepper_Props.thy ===== *)
theory Stepper_Props
  imports Stepper
begin

text \<open>
  Properties of the stepper: the step times of a move are those the host computed it for
  (\<open>interval*k + add*k*(k-1)/2\<close>), in the single scheduled and in the double scheduled variant;
  the position counter follows the queued moves through changes of direction; a stopped stepper
  has released its moves and steps no more until its clock is reset.
\<close>

section \<open>State updates\<close>

lemma stepper_updates [simp]:
  "steppers (upd_stepper oid f s) = (steppers s)(oid := f (steppers s oid))"
  "timers (upd_stepper oid f s) = timers s"
  "move_nodes (upd_stepper oid f s) = move_nodes s"
  "move_free_list (upd_stepper oid f s) = move_free_list s"
  "pin_out (upd_stepper oid f s) = pin_out s"
  "move_count (upd_stepper oid f s) = move_count s"
  by (simp_all add: upd_stepper_def)

lemma pin_updates [simp]:
  "pin_out (gpio_out_toggle p s) = (pin_out s)(p := \<not> pin_out s p)"
  "pin_out (gpio_out_write p v s) = (pin_out s)(p := v)"
  "timers (gpio_out_toggle p s) = timers s"
  "timers (gpio_out_write p v s) = timers s"
  "move_nodes (gpio_out_toggle p s) = move_nodes s"
  "move_nodes (gpio_out_write p v s) = move_nodes s"
  "move_free_list (gpio_out_toggle p s) = move_free_list s"
  "move_free_list (gpio_out_write p v s) = move_free_list s"
  "move_count (gpio_out_write p v s) = move_count s"
  by (simp_all add: gpio_out_toggle_def gpio_out_write_def)

lemma steppers_others [simp]:
  "steppers (gpio_out_toggle p s) = steppers s"
  "steppers (gpio_out_write p v s) = steppers s"
  "steppers (set_wake t w s) = steppers s"
  "steppers (set_next t n s) = steppers s"
  "steppers (move_free m s) = steppers s"
  by (simp_all add: gpio_out_toggle_def gpio_out_write_def set_wake_def set_next_def move_free_def
      set_mn_next_def)

lemma mcu_others [simp]:
  "pin_out (set_wake t w s) = pin_out s"
  "move_nodes (set_wake t w s) = move_nodes s"
  "move_free_list (set_wake t w s) = move_free_list s"
  "move_count (set_wake t w s) = move_count s"
  "pin_out (move_free m s) = pin_out s"
  "timers (move_free m s) = timers s"
  by (simp_all add: set_wake_def move_free_def set_mn_next_def)

section \<open>Times of the steps of a move\<close>

text \<open>\<open>step_clock w iv ad k\<close>: the time of step \<open>k\<close> (from 1) of a move that starts at \<open>w\<close>.\<close>

definition tri :: "nat \<Rightarrow> nat" where "tri k = k * (k - 1) div 2"

lemma tri_simps [simp]: "tri 0 = 0" "tri (Suc k) = tri k + k"
proof -
  show "tri (Suc k) = tri k + k"
  proof (cases k)
    case (Suc m)
    have "Suc k * k = k * (k - 1) + 2 * k" by (simp add: Suc)
    then show ?thesis by (simp add: tri_def)
  qed (simp add: tri_def)
qed (simp add: tri_def)

definition step_clock :: "u32 \<Rightarrow> u32 \<Rightarrow> u16 \<Rightarrow> nat \<Rightarrow> u32" where
  "step_clock w iv ad k = w + of_nat k * iv + of_nat (tri k) * sadd ad"

definition step_interval :: "u32 \<Rightarrow> u16 \<Rightarrow> nat \<Rightarrow> u32" where
  "step_interval iv ad k = iv + of_nat k * sadd ad"

lemma step_clock_Suc: "step_clock w iv ad (Suc k) = step_clock w iv ad k + step_interval iv ad k"
  by (simp add: step_clock_def step_interval_def algebra_simps)

lemma step_interval_Suc: "step_interval iv ad (Suc k) = step_interval iv ad k + sadd ad"
  by (simp add: step_interval_def algebra_simps)

text \<open>The steps of a move are due at increasing times if its interval stays positive.\<close>

fun edge_events :: "board \<Rightarrow> u8 \<Rightarrow> nat \<Rightarrow> 'a stepper_sys_scheme \<Rightarrow> ('a stepper_sys_scheme, unit) res" where
  "edge_events bd oid 0 s = Ret () s"
| "edge_events bd oid (Suc k) s =
     bnd (stepper_event_edge bd oid s) (\<lambda>ret s. if ret = SF_RESCHEDULE then edge_events bd oid k s else Fault)"

text \<open>
  The state of a stepper in the middle of a move of \<open>n\<close> steps after \<open>k\<close> of them, single
  scheduled.
\<close>

definition mid_edge :: "u8 \<Rightarrow> u32 \<Rightarrow> u32 \<Rightarrow> u16 \<Rightarrow> nat \<Rightarrow> nat \<Rightarrow> 'a stepper_sys_scheme \<Rightarrow> bool" where
  "mid_edge oid w iv ad n k s \<longleftrightarrow>
     wake s (step_timer oid) = step_clock w iv ad (Suc k) \<and>
     st_interval (steppers s oid) = step_interval iv ad (Suc k) \<and>
     st_add (steppers s oid) = ad \<and> st_count (steppers s oid) = of_nat (n - k)"

lemma of_nat_pred:
  assumes "0 < m" "m < 2 ^ 32"
  shows "(of_nat m :: u32) - 1 = of_nat (m - 1)" "(of_nat m :: u32) = 1 \<longleftrightarrow> m = 1"
proof -
  show "(of_nat m :: u32) - 1 = of_nat (m - 1)" using assms by (simp add: of_nat_diff)
  have u: "unat (of_nat m :: u32) = m" using assms by (intro unat_of_nat_small) simp
  show "(of_nat m :: u32) = 1 \<longleftrightarrow> m = 1"
  proof
    assume "(of_nat m :: u32) = 1"
    then have "unat (of_nat m :: u32) = unat (1 :: u32)" by (rule arg_cong)
    then show "m = 1" using u by simp
  qed simp
qed

lemma stepper_event_edge_mid:
  assumes "mid_edge oid w iv ad n k s" "Suc k < n" "n < 2 ^ 16"
  shows "\<exists>s'. stepper_event_edge bd oid s = Ret SF_RESCHEDULE s' \<and> mid_edge oid w iv ad n (Suc k) s' \<and>
    pin_out s' = (pin_out s)(step_pin (steppers s oid) := \<not> pin_out s (step_pin (steppers s oid))) \<and>
    step_pin (steppers s' oid) = step_pin (steppers s oid) \<and> st_mq (steppers s' oid) = st_mq (steppers s oid) \<and>
    position (steppers s' oid) = position (steppers s oid) \<and> st_flags (steppers s' oid) = st_flags (steppers s oid) \<and>
    move_nodes s' = move_nodes s"
proof -
  have "(of_nat (n - k) :: u32) - 1 = of_nat (n - Suc k)" "(of_nat (n - k) :: u32) \<noteq> 1"
    using of_nat_pred [of "n - k"] assms by simp_all
  then show ?thesis
    using assms(1) step_clock_Suc [of w iv ad "Suc k"] step_interval_Suc [of iv ad "Suc k"]
    by (simp add: stepper_event_edge_def Let_def mid_edge_def)
qed

lemma edge_events_mid:
  assumes "mid_edge oid w iv ad n k s" "k + j < n" "n < 2 ^ 16"
  shows "\<exists>s'. edge_events bd oid j s = Ret () s' \<and> mid_edge oid w iv ad n (k + j) s' \<and>
    pin_out s' = (pin_out s)(step_pin (steppers s oid) := pin_out s (step_pin (steppers s oid)) \<noteq> odd j) \<and>
    position (steppers s' oid) = position (steppers s oid) \<and> st_flags (steppers s' oid) = st_flags (steppers s oid)"
  using assms
proof (induction j arbitrary: k s)
  case (Suc j)
  obtain s1 where 1: "stepper_event_edge bd oid s = Ret SF_RESCHEDULE s1" "mid_edge oid w iv ad n (Suc k) s1"
    "pin_out s1 = (pin_out s)(step_pin (steppers s oid) := \<not> pin_out s (step_pin (steppers s oid)))"
    "step_pin (steppers s1 oid) = step_pin (steppers s oid)" "position (steppers s1 oid) = position (steppers s oid)"
    "st_flags (steppers s1 oid) = st_flags (steppers s oid)"
    using stepper_event_edge_mid [OF Suc.prems(1) _ Suc.prems(3)] Suc.prems(2) by auto
  have "Suc k + j < n" using Suc.prems(2) by simp
  from Suc.IH [OF 1(2) this Suc.prems(3)] show ?case using 1 by auto
qed auto

section \<open>Loading a move\<close>

definition single :: "board \<Rightarrow> stepper \<Rightarrow> bool" where
  "single bd st \<longleftrightarrow> have_single bd \<and> bit_set (st_flags st) SF_SINGLE_SCHED"

lemma have_add_keeps_single:
  "bit_set (f OR SF_HAVE_ADD) SF_SINGLE_SCHED = bit_set f SF_SINGLE_SCHED"
  "bit_set (f AND NOT SF_HAVE_ADD) SF_SINGLE_SCHED = bit_set f SF_SINGLE_SCHED"
  by (simp_all add: flag_bits SF_HAVE_ADD_def SF_SINGLE_SCHED_def)

text \<open>
  The new position counter: the sign is the direction, \<open>MF_DIR\<close> flips it, and the steps of the
  move are added at once.
\<close>

lemma stepper_load_next_ok:
  assumes q: "mq_ok s (st_mq (steppers s oid)) (mn # xs)"
    and d: "mn_data (move_nodes s mn) = StepperMove iv cnt ad fl"
    and f: "free_nodes s fs" "mn \<notin> set fs"
  shows "\<exists>s'. stepper_load_next bd oid s = Ret SF_RESCHEDULE s' \<and>
    st_interval (steppers s' oid) = iv + sadd ad \<and> st_add (steppers s' oid) = ad \<and>
    (if single bd (steppers s oid)
     then wake s' (step_timer oid) = wake s (step_timer oid) + iv \<and> st_count (steppers s' oid) = ucast cnt
     else wake s' (step_timer oid) = next_step_time (steppers s oid) + iv \<and>
       next_step_time (steppers s' oid) = next_step_time (steppers s oid) + iv \<and>
       st_count (steppers s' oid) = ucast cnt * 2) \<and>
    position (steppers s' oid) =
      (if bit_set fl MF_DIR then - position (steppers s oid) else position (steppers s oid)) + ucast cnt \<and>
    single bd (steppers s' oid) = single bd (steppers s oid) \<and> step_pin (steppers s' oid) = step_pin (steppers s oid) \<and>
    step_pulse_ticks (steppers s' oid) = step_pulse_ticks (steppers s oid) \<and>
    mq_ok s' (st_mq (steppers s' oid)) xs \<and> free_nodes s' (mn # fs) \<and>
    pin_out s' = (if bit_set fl MF_DIR
      then (pin_out s)(dir_pin (steppers s oid) := \<not> pin_out s (dir_pin (steppers s oid))) else pin_out s)"
proof -
  obtain mq where mq: "move_queue_pop (st_mq (steppers s oid)) s = Ret (mn, mq) s" "mq_ok s mq xs"
    using move_queue_pop_ok [OF q] by blast
  have nx: "mn \<notin> set xs" using q by (simp add: mq_ok_def)
  have ne: "\<not> move_queue_empty (st_mq (steppers s oid))" using move_queue_empty_iff [OF q] by simp
  let ?P = "\<lambda>s3. free_nodes (move_free mn s3) (mn # fs) \<and> mq_ok (move_free mn s3) mq xs"
  have fr: "?P s3" if "move_nodes s3 = move_nodes s" "move_free_list s3 = move_free_list s"
    for s3 :: "'a stepper_sys_scheme"
    using move_free_ok [of s3 fs mn] mq_ok_free [of s3 mq xs mn] f mq(2) nx that
    by (simp add: free_nodes_def mq_ok_def)
  show ?thesis
    using mq(1) ne d by (simp add: stepper_load_next_def Let_def single_def fr have_add_keeps_single)
qed

lemma load_mid_edge:
  assumes "mq_ok s (st_mq (steppers s oid)) (mn # xs)"
    "mn_data (move_nodes s mn) = StepperMove iv cnt ad fl" "free_nodes s fs" "mn \<notin> set fs"
    "single bd (steppers s oid)"
  shows "\<exists>s'. stepper_load_next bd oid s = Ret SF_RESCHEDULE s' \<and>
    mid_edge oid (wake s (step_timer oid)) iv ad (unat cnt) 0 s' \<and>
    position (steppers s' oid) =
      (if bit_set fl MF_DIR then - position (steppers s oid) else position (steppers s oid)) + ucast cnt \<and>
    single bd (steppers s' oid) = single bd (steppers s oid) \<and> step_pin (steppers s' oid) = step_pin (steppers s oid) \<and>
    step_pulse_ticks (steppers s' oid) = step_pulse_ticks (steppers s oid)"
proof -
  have "(ucast cnt :: u32) = of_nat (unat cnt)" by simp
  then show ?thesis
    using stepper_load_next_ok [OF assms(1-4), of bd] assms(5)
    by (auto simp: mid_edge_def step_clock_def step_interval_def)
qed

section \<open>Double scheduled steps\<close>

definition mid_full :: "u8 \<Rightarrow> u32 \<Rightarrow> u32 \<Rightarrow> u16 \<Rightarrow> nat \<Rightarrow> nat \<Rightarrow> 'a stepper_sys_scheme \<Rightarrow> bool" where
  "mid_full oid w iv ad n k s \<longleftrightarrow>
     next_step_time (steppers s oid) = step_clock w iv ad (Suc k) \<and>
     st_interval (steppers s oid) = step_interval iv ad (Suc k) \<and>
     st_add (steppers s oid) = ad \<and> st_count (steppers s oid) = of_nat (2 * (n - k))"

lemma load_mid_full:
  assumes "mq_ok s (st_mq (steppers s oid)) (mn # xs)"
    "mn_data (move_nodes s mn) = StepperMove iv cnt ad fl" "free_nodes s fs" "mn \<notin> set fs"
    "\<not> single bd (steppers s oid)"
  shows "\<exists>s'. stepper_load_next bd oid s = Ret SF_RESCHEDULE s' \<and>
    mid_full oid (next_step_time (steppers s oid)) iv ad (unat cnt) 0 s' \<and>
    position (steppers s' oid) =
      (if bit_set fl MF_DIR then - position (steppers s oid) else position (steppers s oid)) + ucast cnt \<and>
    single bd (steppers s' oid) = single bd (steppers s oid) \<and> step_pin (steppers s' oid) = step_pin (steppers s oid) \<and>
    step_pulse_ticks (steppers s' oid) = step_pulse_ticks (steppers s oid)"
proof -
  have "(ucast cnt :: u32) * 2 = of_nat (2 * unat cnt)" by simp
  then show ?thesis
    using stepper_load_next_ok [OF assms(1-4), of bd] assms(5)
    by (auto simp: mid_full_def step_clock_def step_interval_def)
qed

text \<open>
  A step and its unstep, at clock readings \<open>c1\<close> and \<open>c2\<close>: however late the events run, the
  time of the next step stays on the schedule; only the wake time is pushed back to respect
  the pulse duration.
\<close>

lemma stepper_event_full_unstep:
  assumes "mid_full oid w iv ad n k s" "k < n" "n < 2 ^ 16"
  shows "\<exists>s'. stepper_event_full bd c oid s = Ret SF_RESCHEDULE s' \<and>
    steppers s' oid = (steppers s oid)\<lparr>st_count := of_nat (2 * (n - k) - 1)\<rparr> \<and>
    wake s' (step_timer oid) = c + step_pulse_ticks (steppers s oid)"
proof -
  have "(of_nat (2 * (n - k)) :: u32) - 1 = of_nat (2 * (n - k) - 1)"
    by (rule of_nat_pred) (use assms in auto)
  moreover have "bit_set (of_nat (2 * (n - k) - 1) :: u32) 1"
    using assms by (simp add: flag_bits bit_0)
  ultimately show ?thesis
    using assms(1) by (auto simp: stepper_event_full_def Let_def mid_full_def)
qed

lemma stepper_event_full_step:
  assumes c: "st_count (steppers s oid) = of_nat (2 * (n - k) - 1)" and k: "Suc k < n" "n < 2 ^ 16"
  shows "\<exists>s'. stepper_event_full bd c oid s = Ret SF_RESCHEDULE s' \<and>
    (let st = steppers s oid; t = next_step_time st + st_interval st; m = c + step_pulse_ticks st
     in steppers s' oid = st\<lparr>st_count := of_nat (2 * (n - Suc k)), next_step_time := t,
          st_interval := st_interval st + sadd (st_add st)\<rparr> \<and>
        wake s' (step_timer oid) = (if timer_is_before t m then m else t))"
proof -
  have e: "2 * (n - k) - 1 - 1 = 2 * (n - Suc k)" using k by auto
  have 1: "(of_nat (2 * (n - k) - 1) :: u32) - 1 = of_nat (2 * (n - Suc k))"
    unfolding e [symmetric] by (rule of_nat_pred) (use k in auto)
  have 2: "\<not> bit_set (of_nat (2 * (n - Suc k)) :: u32) 1" by (simp add: flag_bits bit_0)
  have "unat (of_nat (2 * (n - Suc k)) :: u32) = 2 * (n - Suc k)" using k by (intro unat_of_nat_small) simp
  then have 3: "(of_nat (2 * (n - Suc k)) :: u32) \<noteq> 0" using k by (metis unat_0 diff_is_0_eq mult_is_0 not_less zero_neq_numeral)
  show ?thesis
    using 1 2 3 by (auto simp: stepper_event_full_def Let_def c)
qed

lemma stepper_full_pair:
  assumes "mid_full oid w iv ad n k s" "Suc k < n" "n < 2 ^ 16"
  shows "\<exists>s'. bnd (stepper_event_full bd c1 oid s) (\<lambda>_. stepper_event_full bd c2 oid) = Ret SF_RESCHEDULE s' \<and>
    mid_full oid w iv ad n (Suc k) s' \<and>
    position (steppers s' oid) = position (steppers s oid) \<and> st_flags (steppers s' oid) = st_flags (steppers s oid) \<and>
    step_pulse_ticks (steppers s' oid) = step_pulse_ticks (steppers s oid) \<and>
    (let t = step_clock w iv ad (Suc (Suc k)); m = c2 + step_pulse_ticks (steppers s oid)
     in wake s' (step_timer oid) = (if timer_is_before t m then m else t))"
proof -
  have "k < n" using assms(2) by simp
  from stepper_event_full_unstep [OF assms(1) this assms(3), of bd c1]
  obtain s1 where 1: "stepper_event_full bd c1 oid s = Ret SF_RESCHEDULE s1"
    "steppers s1 oid = (steppers s oid)\<lparr>st_count := of_nat (2 * (n - k) - 1)\<rparr>" by blast
  have "st_count (steppers s1 oid) = of_nat (2 * (n - k) - 1)" by (subst 1(2)) simp
  from stepper_event_full_step [OF this assms(2,3), of bd c2]
  obtain s2 where 2: "stepper_event_full bd c2 oid s1 = Ret SF_RESCHEDULE s2"
    "let st = steppers s1 oid; t = next_step_time st + st_interval st; m = c2 + step_pulse_ticks st
     in steppers s2 oid = st\<lparr>st_count := of_nat (2 * (n - Suc k)), next_step_time := t,
          st_interval := st_interval st + sadd (st_add st)\<rparr> \<and>
        wake s2 (step_timer oid) = (if timer_is_before t m then m else t)" by blast
  then show ?thesis
    using assms(1) 1(1) step_clock_Suc [of w iv ad "Suc k"] step_interval_Suc [of iv ad "Suc k"]
    unfolding 1(2) by (auto simp: mid_full_def Let_def)
qed

section \<open>Position\<close>

text \<open>
  \<open>pos_code fwd l\<close>: how the counter represents the biased position \<open>l\<close> while the stepper
  moves forward or backward; it is kept below the sign bit.
\<close>

definition pos_code :: "bool \<Rightarrow> nat \<Rightarrow> u32" where
  "pos_code fwd l = (if fwd then of_nat l else - of_nat l)"

lemma pos_code_turn: "- pos_code fwd l = pos_code (\<not> fwd) l"
  by (simp add: pos_code_def)

lemma pos_code_forward: "pos_code True l + of_nat n = pos_code True (l + n)"
  by (simp add: pos_code_def)

lemma pos_code_backward: "n \<le> l \<Longrightarrow> pos_code False l + of_nat n = pos_code False (l - n)"
  by (simp add: pos_code_def of_nat_diff)

lemma bit_top_set: "bit_set (w :: u32) 0x80000000 \<longleftrightarrow> 2 ^ 31 \<le> unat w"
proof -
  have "bit_set w (2 ^ 31) \<longleftrightarrow> bit w 31" by (rule bit_set_exp)
  moreover have "bit w 31 \<longleftrightarrow> 2 ^ 31 \<le> unat w" using bit_top_iff_unat [of w] by simp
  ultimately show ?thesis by simp
qed

lemma unat_neg: "0 < l \<Longrightarrow> l < 2 ^ 32 \<Longrightarrow> unat (- of_nat l :: u32) = 2 ^ 32 - l"
proof -
  assume l: "0 < l" "l < 2 ^ 32"
  have u: "unat (of_nat l :: u32) = l" using l by (intro unat_of_nat_small) simp
  have "(- of_nat l :: u32) = 0 - of_nat l" by simp
  then have "unat (- of_nat l :: u32) = unat (0 - of_nat l :: u32)" by (rule arg_cong)
  also have "\<dots> = 2 ^ 32 - l" using l u unat_minus_wrap [of "0 :: u32" "of_nat l"] by simp
  finally show ?thesis .
qed

lemma pos_decode:
  assumes "0 < l" "l < 2 ^ 31"
  shows "(if bit_set (pos_code fwd l) 0x80000000 then - pos_code fwd l else pos_code fwd l) = of_nat l"
proof (cases fwd)
  case True
  have "unat (of_nat l :: u32) = l" using assms by (intro unat_of_nat_small) simp
  with True assms show ?thesis by (simp add: pos_code_def bit_top_set)
next
  case False
  moreover have "(2147483648 :: nat) \<le> 4294967296 - l" using assms by simp
  ultimately show ?thesis using assms by (simp add: pos_code_def bit_top_set unat_neg)
qed

text \<open>
  The position in the middle of a move: of the steps added when the move was loaded, those not
  yet taken are subtracted again in the direction of the move.
\<close>

definition steps_left :: "board \<Rightarrow> stepper \<Rightarrow> nat" where
  "steps_left bd st = (if single bd st then unat (st_count st) else unat (st_count st) div 2)"

lemma stepper_get_position_ok:
  assumes "position st = pos_code fwd l" "0 < l" "l < 2 ^ 31"
    and "if fwd then steps_left bd st < l else l + steps_left bd st < 2 ^ 31"
  shows "stepper_get_position bd st =
    of_nat (if fwd then l - steps_left bd st else l + steps_left bd st)"
proof -
  let ?n = "steps_left bd st" and ?l = "if fwd then l - steps_left bd st else l + steps_left bd st"
  have d: "(of_nat ?n :: u32) = (if single bd st then st_count st else st_count st div 2)"
  proof (cases "single bd st")
    case False
    have "unat (st_count st div 2) = unat (st_count st) div 2" by (simp add: unat_div)
    then have "of_nat (unat (st_count st) div 2) = (of_nat (unat (st_count st div 2)) :: u32)" by simp
    then show ?thesis using False by (simp add: steps_left_def)
  qed (simp add: steps_left_def)
  have "pos_code fwd l - of_nat ?n = pos_code fwd ?l"
    using assms(4) by (auto simp: pos_code_def of_nat_diff)
  then have "stepper_get_position bd st =
      (if bit_set (pos_code fwd ?l) 0x80000000 then - pos_code fwd ?l else pos_code fwd ?l)"
    unfolding stepper_get_position_def Let_def assms(1) single_def [symmetric] by (simp add: d split: if_splits)
  also have "\<dots> = of_nat ?l" by (rule pos_decode) (use assms in \<open>auto split: if_splits\<close>)
  finally show ?thesis .
qed

section \<open>Stopping\<close>

lemma free_moves_ok:
  assumes "mq_ok s mq xs" "free_nodes s fs" "set xs \<inter> set fs = {}" "length xs \<le> n"
  shows "\<exists>mq' s'. free_moves n mq s = Ret mq' s' \<and> mq_ok s' mq' [] \<and> free_nodes s' (rev xs @ fs) \<and>
    (\<forall>y. y \<notin> set xs \<longrightarrow> move_nodes s' y = move_nodes s y) \<and>
    s' = s\<lparr>move_nodes := move_nodes s', move_free_list := move_free_list s'\<rparr>"
  using assms
proof (induction xs arbitrary: n mq s fs)
  case Nil
  then show ?case using move_queue_empty_iff [OF Nil(1)] by (simp add: free_moves.simps)
next
  case (Cons x xs)
  obtain m where n: "n = Suc m" using Cons.prems(4) by (cases n) auto
  obtain mq1 where 1: "move_queue_pop mq s = Ret (x, mq1) s" "mq_ok s mq1 xs"
    using move_queue_pop_ok [OF Cons.prems(1)] by blast
  have x: "x \<notin> set xs" "x \<notin> set fs" using Cons.prems by (auto simp: mq_ok_def)
  have "set xs \<inter> set (x # fs) = {}" using x Cons.prems(3) by auto
  from Cons.IH [OF mq_ok_free [OF 1(2) x(1)] move_free_ok [OF Cons.prems(2) x(2)] this, of m]
  obtain mq' s' where "free_moves m mq1 (move_free x s) = Ret mq' s'" "mq_ok s' mq' []"
    "free_nodes s' (rev xs @ x # fs)" "\<forall>y. y \<notin> set xs \<longrightarrow> move_nodes s' y = move_nodes (move_free x s) y"
    "s' = (move_free x s)\<lparr>move_nodes := move_nodes s', move_free_list := move_free_list s'\<rparr>"
    using Cons.prems(4) n by auto
  moreover have "(move_free x s)\<lparr>move_nodes := ns, move_free_list := fl\<rparr> = s\<lparr>move_nodes := ns, move_free_list := fl\<rparr>"
    for ns fl by (simp add: move_free_def set_mn_next_def)
  moreover have "\<not> move_queue_empty mq" using move_queue_empty_iff [OF Cons.prems(1)] by simp
  moreover have "move_nodes (move_free x s) y = move_nodes s y" if "y \<noteq> x" for y
    using that by (simp add: move_free_def)
  ultimately show ?case using 1(1) by (simp add: n free_moves.simps [of "Suc m"])
qed

lemma del_frame_stepper:
  assumes "sched_del_timer t s = Ret u s'"
  shows "steppers s' = steppers s" "move_nodes s' = move_nodes s" "move_free_list s' = move_free_list s"
    "move_count s' = move_count s" "pin_out s' = pin_out s"
  by (subst sched_del_frame [OF assms], simp)+

text \<open>
  The stopped stepper: no pulse is scheduled, nothing is queued, all moves are back in the pool,
  the position is the one reached and \<open>SF_NEED_RESET\<close> blocks new moves.
\<close>

lemma stepper_stop_flags:
  "bit_set ((f AND (SF_INVERT_STEP OR SF_SINGLE_SCHED)) OR SF_NEED_RESET) SF_NEED_RESET"
  "\<not> bit_set ((f AND (SF_INVERT_STEP OR SF_SINGLE_SCHED)) OR SF_NEED_RESET) SF_LAST_DIR"
  "\<not> bit_set ((f AND (SF_INVERT_STEP OR SF_SINGLE_SCHED)) OR SF_NEED_RESET) SF_NEXT_DIR"
  "bit_set ((f AND (SF_INVERT_STEP OR SF_SINGLE_SCHED)) OR SF_NEED_RESET) SF_SINGLE_SCHED = bit_set f SF_SINGLE_SCHED"
  by (simp_all add: flag_bits SF_NEED_RESET_def SF_LAST_DIR_def SF_NEXT_DIR_def SF_SINGLE_SCHED_def SF_INVERT_STEP_def)

lemma list_updates [simp]:
  "timer_list (upd_stepper oid f s) = timer_list s" "last_insert (upd_stepper oid f s) = last_insert s"
  "timer_list (gpio_out_write p v s) = timer_list s" "last_insert (gpio_out_write p v s) = last_insert s"
  by (simp_all add: upd_stepper_def gpio_out_write_def)

lemma stepper_halt_ok:
  "sched_ok b s ts \<Longrightarrow> step_timer oid \<notin> set ts \<Longrightarrow> sched_ok b (stepper_halt bd oid s) ts"
  "steppers (stepper_halt bd oid s) oid = (steppers s oid)\<lparr>next_step_time := 0,
     position := - stepper_get_position bd (steppers s oid), st_count := 0,
     st_flags := (st_flags (steppers s oid) AND (SF_INVERT_STEP OR SF_SINGLE_SCHED)) OR SF_NEED_RESET\<rparr>"
  "move_nodes (stepper_halt bd oid s) = move_nodes s"
  "move_count (stepper_halt bd oid s) = move_count s"
  "move_free_list (stepper_halt bd oid s) = move_free_list s"
  "o2 \<noteq> oid \<Longrightarrow> steppers (stepper_halt bd oid s) o2 = steppers s o2"
  "trsyncs (stepper_halt bd oid s) = trsyncs s"
  "signals (stepper_halt bd oid s) = signals s"
proof -
  have gp: "stepper_get_position bd (st\<lparr>next_step_time := 0\<rparr>) = stepper_get_position bd st" for st
    by (simp add: stepper_get_position_def)
  show "steppers (stepper_halt bd oid s) oid = (steppers s oid)\<lparr>next_step_time := 0,
     position := - stepper_get_position bd (steppers s oid), st_count := 0,
     st_flags := (st_flags (steppers s oid) AND (SF_INVERT_STEP OR SF_SINGLE_SCHED)) OR SF_NEED_RESET\<rparr>"
    by (simp add: stepper_halt_def Let_def gp)
  show "move_nodes (stepper_halt bd oid s) = move_nodes s"
    "move_count (stepper_halt bd oid s) = move_count s"
    "move_free_list (stepper_halt bd oid s) = move_free_list s"
    by (simp_all add: stepper_halt_def Let_def)
  show "steppers (stepper_halt bd oid s) o2 = steppers s o2" if "o2 \<noteq> oid"
    using that by (simp add: stepper_halt_def Let_def)
  show "trsyncs (stepper_halt bd oid s) = trsyncs s" "signals (stepper_halt bd oid s) = signals s"
    by (simp_all add: stepper_halt_def Let_def upd_stepper_def gpio_out_write_def set_wake_def)
  assume a: "sched_ok b s ts" "step_timer oid \<notin> set ts"
  have "sched_ok b (stepper_halt bd oid s) ts = sched_ok b (set_wake (step_timer oid) 0 s) ts"
    by (rule sched_ok_cong) (simp_all add: stepper_halt_def Let_def)
  then show "sched_ok b (stepper_halt bd oid s) ts" using sched_ok_set_wake [OF a] by simp
qed

lemma stepper_stop_ok:
  assumes ok: "sched_ok b s ts" and q: "mq_ok s (st_mq (steppers s oid)) xs" "free_nodes s fs"
    "set xs \<inter> set fs = {}" "length xs \<le> unat (move_count s)"
  shows "\<exists>s' ts'. stepper_stop bd fn oid reason s = Ret () s' \<and>
    sched_ok b s' ts' \<and> pending ts' = filter (\<lambda>x. x \<noteq> step_timer oid) (pending ts) \<and>
    st_count (steppers s' oid) = 0 \<and> bit_set (st_flags (steppers s' oid)) SF_NEED_RESET \<and>
    mq_ok s' (st_mq (steppers s' oid)) [] \<and> free_nodes s' (rev xs @ fs) \<and>
    position (steppers s' oid) = - stepper_get_position bd (steppers s oid) \<and>
    (\<forall>o2. o2 \<noteq> oid \<longrightarrow> steppers s' o2 = steppers s o2) \<and>
    (\<forall>y. y \<notin> set xs \<longrightarrow> move_nodes s' y = move_nodes s y) \<and> move_count s' = move_count s \<and>
    trsyncs s' = trsyncs s \<and> signals s' = signals s"
proof -
  obtain s1 ts1 where 1: "sched_del_timer (step_timer oid) s = Ret () s1" "sched_ok b s1 ts1"
    "pending ts1 = filter (\<lambda>x. x \<noteq> step_timer oid) (pending ts)"
    using sched_del_timer_ok [OF ok, of "step_timer oid"] by auto
  have nin: "step_timer oid \<notin> set ts1"
  proof
    assume "step_timer oid \<in> set ts1"
    then have "step_timer oid \<in> set (pending ts1)" by (simp add: pending_def)
    then show False by (simp add: 1(3))
  qed
  define s5 where "s5 = stepper_halt bd oid s1"
  have stop: "stepper_stop bd fn oid reason s =
      bnd (free_moves (unat (move_count s5)) (st_mq (steppers s5 oid)) s5) (\<lambda>mq s.
        Ret () (upd_stepper oid (\<lambda>st. st\<lparr>st_mq := mq\<rparr>) s))"
    by (simp add: stepper_stop_def 1(1) s5_def Let_def)
  note fr = del_frame_stepper [OF 1(1)]
  note h = stepper_halt_ok [where bd = bd and oid = oid and s = s1, folded s5_def, unfolded fr]
  have so: "sched_ok b s5 ts1" using h(1) [OF 1(2) nin] .
  have "mq_ok s5 (st_mq (steppers s5 oid)) xs" using q(1) by (simp add: mq_ok_def h)
  moreover have "free_nodes s5 fs" using q(2) by (simp add: free_nodes_def h)
  ultimately obtain mq' s6 where 6: "free_moves (unat (move_count s5)) (st_mq (steppers s5 oid)) s5 = Ret mq' s6"
    "mq_ok s6 mq' []" "free_nodes s6 (rev xs @ fs)"
    "\<forall>y. y \<notin> set xs \<longrightarrow> move_nodes s6 y = move_nodes s5 y"
    "s6 = s5\<lparr>move_nodes := move_nodes s6, move_free_list := move_free_list s6\<rparr>"
    using free_moves_ok [OF _ _ q(3)] q(4) h(4) by metis
  let ?s = "upd_stepper oid (\<lambda>st. st\<lparr>st_mq := mq'\<rparr>) s6"
  have mc6: "move_count s6 = move_count s5" by (subst 6(5)) simp
  have st6: "steppers s6 = steppers s5" by (subst 6(5)) simp
  have tr: "trsyncs s6 = trsyncs s" "signals s6 = signals s"
    by (subst 6(5), simp add: h, subst sched_del_frame [OF 1(1)], simp)+
  have "sched_ok b s6 ts1 = sched_ok b s5 ts1" by (rule sched_ok_cong; subst 6(5); simp)
  moreover have "sched_ok b ?s ts1 = sched_ok b s6 ts1" by (rule sched_ok_cong) simp_all
  ultimately have "sched_ok b ?s ts1" using so by simp
  moreover have "mq_ok ?s mq' []" "free_nodes ?s (rev xs @ fs)" using 6(2,3) by (simp_all add: mq_ok_def free_nodes_def)
  moreover have "trsyncs ?s = trsyncs s" "signals ?s = signals s" using tr by (simp_all add: upd_stepper_def)
  ultimately show ?thesis
    using 6(1,4) 1(3) by (auto simp: stop st6 mc6 h stepper_stop_flags)
qed

end
