(* ===== verification/Endstop.thy ===== *)
theory Endstop
  imports Stepper_Props
begin

text \<open>
  End stops, \<open>klipper/src/endstop.c\<close>: a pin is sampled until it matches a number of times in a
  row, then the trigger of the end stop fires. With the properties of the sampling and of the
  chain from an end stop through its trigger to the steppers that stop.
\<close>

section \<open>State\<close>

record endstop =
  es_pin :: u32
  rest_time :: u32
  sample_time :: u32
  nextwake :: u32
  es_ts :: "u8 option"
  es_flags :: u8
  sample_count :: u8
  trigger_count :: u8
  es_trigger_reason :: u8

definition ESF_PIN_HIGH :: u8 where "ESF_PIN_HIGH = 1"
definition ESF_HOMING :: u8 where "ESF_HOMING = 2"

record endstop_sys = stepper_sys +
  endstops :: "u8 \<Rightarrow> endstop"

definition endstop_zero :: endstop where
  "endstop_zero = \<lparr>es_pin = 0, rest_time = 0, sample_time = 0, nextwake = 0, es_ts = None,
     es_flags = 0, sample_count = 0, trigger_count = 0, es_trigger_reason = 0\<rparr>"

abbreviation es_timer :: "u8 \<Rightarrow> tid" where "es_timer oid \<equiv> TObj (unat oid) 0"

definition upd_endstop :: "u8 \<Rightarrow> (endstop \<Rightarrow> endstop) \<Rightarrow> 'a endstop_sys_scheme \<Rightarrow> 'a endstop_sys_scheme" where
  "upd_endstop oid f s = s\<lparr>endstops := (endstops s)(oid := f (endstops s oid))\<rparr>"

text \<open>The call through the function pointer of a signal.\<close>

definition call_signal ::
    "board \<Rightarrow> signal_func \<Rightarrow> u8 \<Rightarrow> u8 \<Rightarrow> 'a stepper_sys_scheme \<Rightarrow> ('a stepper_sys_scheme, unit) res" where
  "call_signal bd fn g reason s = (case fn of Sg_stepper_stop \<Rightarrow> stepper_stop bd fn g reason s)"

section \<open>Events\<close>

text \<open>\<open>val\<close> is the value read from the pin; the expression in the C code for "no match".\<close>

definition es_no_match :: "bool \<Rightarrow> u8 \<Rightarrow> bool" where
  "es_no_match val flags = bit_set (if val then NOT flags else flags) ESF_PIN_HIGH"

definition endstop_oversample_event ::
    "board \<Rightarrow> bool \<Rightarrow> u8 \<Rightarrow> 'a endstop_sys_scheme \<Rightarrow> ('a endstop_sys_scheme, sf) res" where
  "endstop_oversample_event bd val oid s =
     (let e = endstops s oid
      in if es_no_match val (es_flags e) then
           Ret SF_RESCHEDULE (upd_endstop oid (\<lambda>e. e\<lparr>trigger_count := sample_count e\<rparr>)
             (set_wake (es_timer oid) (nextwake e)
               (set_func (es_timer oid) (Some Fn_endstop_event) s)))
         else
           (let cnt = trigger_count e - 1
            in if cnt = 0 then
                 (case es_ts e of
                    None \<Rightarrow> Fault
                  | Some ts \<Rightarrow>
                      andthen (trsync_do_trigger (call_signal bd) ts (es_trigger_reason e) s)
                        (Ret SF_DONE))
               else
                 Ret SF_RESCHEDULE (set_wake (es_timer oid) (wake s (es_timer oid) + sample_time e)
                   (upd_endstop oid (\<lambda>e. e\<lparr>trigger_count := cnt\<rparr>) s))))"

text \<open>\<open>val2\<close> is the second read, in the nested call of the oversample handler.\<close>

definition endstop_event ::
    "board \<Rightarrow> bool \<Rightarrow> bool \<Rightarrow> u8 \<Rightarrow> 'a endstop_sys_scheme \<Rightarrow> ('a endstop_sys_scheme, sf) res" where
  "endstop_event bd val val2 oid s =
     (let e = endstops s oid;
          nw = wake s (es_timer oid) + rest_time e
      in if es_no_match val (es_flags e) then Ret SF_RESCHEDULE (set_wake (es_timer oid) nw s)
         else endstop_oversample_event bd val2 oid
                (set_func (es_timer oid) (Some Fn_endstop_oversample_event)
                  (upd_endstop oid (\<lambda>e. e\<lparr>nextwake := nw\<rparr>) s)))"

section \<open>Commands\<close>

definition command_config_endstop ::
    "board \<Rightarrow> nat \<Rightarrow> u32 list \<Rightarrow> 'a endstop_sys_scheme \<Rightarrow> ('a endstop_sys_scheme, unit) res" where
  "command_config_endstop bd sz args s =
     (let oid = ucast (args ! 0)
      in bnd (oid_alloc bd oid T_endstop sz s) (\<lambda>_ s.
         bnd (gpio_in_setup bd (args ! 1)
                (clear_timer (es_timer oid) (upd_endstop oid (\<lambda>_. endstop_zero) s))) (\<lambda>pin s.
           Ret () (upd_endstop oid (\<lambda>e. e\<lparr>es_pin := pin\<rparr>) s))))"

definition command_endstop_home ::
    "u32 \<Rightarrow> u32 \<Rightarrow> u32 list \<Rightarrow> 'a endstop_sys_scheme \<Rightarrow> ('a endstop_sys_scheme, unit) res" where
  "command_endstop_home now1 now2 args s =
     (let oid = ucast (args ! 0)
      in with_oid oid T_endstop (\<lambda>s.
         andthen (sched_del_timer (es_timer oid) s) (\<lambda>s.
           let s1 = upd_endstop oid (\<lambda>e. e\<lparr>sample_time := args ! 2, sample_count := ucast (args ! 3)\<rparr>)
                      (set_wake (es_timer oid) (args ! 1) s)
           in if sample_count (endstops s1 oid) = 0 then
                Ret () (upd_endstop oid (\<lambda>e. e\<lparr>es_ts := None, es_flags := 0\<rparr>) s1)
              else
                (let s2 = upd_endstop oid (\<lambda>e. e\<lparr>rest_time := args ! 4,
                            trigger_count := sample_count e,
                            es_flags := ESF_HOMING OR (if args ! 5 \<noteq> 0 then ESF_PIN_HIGH else 0)\<rparr>)
                            (set_func (es_timer oid) (Some Fn_endstop_event) s1);
                     ts = ucast (args ! 6)
                 in bnd (oid_lookup ts T_trsync s2) (\<lambda>p s.
                      sched_add_timer now1 now2 (es_timer oid)
                        (upd_endstop oid (\<lambda>e. e\<lparr>es_ts := map_option (\<lambda>_. ts) p,
                           es_trigger_reason := ucast (args ! 7)\<rparr>) s))))) s)"

definition command_endstop_query_state ::
    "bool \<Rightarrow> u32 list \<Rightarrow> 'a endstop_sys_scheme \<Rightarrow> ('a endstop_sys_scheme, unit) res" where
  "command_endstop_query_state val args s =
     (let oid = ucast (args ! 0)
      in with_oid oid T_endstop (\<lambda>s.
         let e = endstops s oid
         in Ret () (sendf ''endstop_state'' [RInt (ucast oid),
              RInt (of_flag (bit_set (es_flags e) ESF_HOMING)), RInt (nextwake e),
              RInt (of_flag val)] s)) s)"

section \<open>Sampling\<close>

lemma es_no_match_iff: "es_no_match val flags \<longleftrightarrow> val \<noteq> bit_set flags ESF_PIN_HIGH"
  by (simp add: es_no_match_def ESF_PIN_HIGH_def flag_bits)

lemma endstop_updates [simp]:
  "endstops (upd_endstop oid f s) = (endstops s)(oid := f (endstops s oid))"
  "timers (upd_endstop oid f s) = timers s"
  "endstops (set_wake t w s) = endstops s"
  "endstops (set_func t fn s) = endstops s"
  by (simp_all add: upd_endstop_def set_wake_def set_func_def)

text \<open>The handler of the timer, by its function pointer.\<close>

definition es_event ::
    "board \<Rightarrow> bool \<Rightarrow> bool \<Rightarrow> u8 \<Rightarrow> 'a endstop_sys_scheme \<Rightarrow> ('a endstop_sys_scheme, sf) res" where
  "es_event bd val val2 oid s =
     (if t_func (timers s (es_timer oid)) = Some Fn_endstop_event then endstop_event bd val val2 oid s
      else endstop_oversample_event bd val oid s)"

text \<open>
  \<open>es_inv oid n k s\<close>: the end stop needs \<open>n\<close> samples and the last \<open>k\<close> matched, without a
  break. The handler is the oversampling one exactly while \<open>k\<close> is not zero.
\<close>

definition es_inv :: "u8 \<Rightarrow> nat \<Rightarrow> nat \<Rightarrow> 'a endstop_sys_scheme \<Rightarrow> bool" where
  "es_inv oid n k s \<longleftrightarrow> k < n \<and> unat (sample_count (endstops s oid)) = n \<and>
     unat (trigger_count (endstops s oid)) = n - k \<and>
     t_func (timers s (es_timer oid)) =
       Some (if k = 0 then Fn_endstop_event else Fn_endstop_oversample_event)"

lemma unat_dec: "0 < unat (w :: u8) \<Longrightarrow> unat (w - 1) = unat w - 1"
  by (metis unat_minus_one unat_0 less_irrefl)

lemma unat_eq_one: "unat (w :: u8) = 1 \<longleftrightarrow> w = 1"
  by (simp add: word_unat_eq_iff)

text \<open>What a sample leaves alone: everything but the timers and the counters of the end stop.\<close>

definition es_frame :: "u8 \<Rightarrow> 'a endstop_sys_scheme \<Rightarrow> 'a endstop_sys_scheme \<Rightarrow> bool" where
  "es_frame oid s s' \<longleftrightarrow> (\<exists>es ts. s' = s\<lparr>endstops := es, timers := ts\<rparr> \<and>
     (es oid)\<lparr>trigger_count := 0, nextwake := 0\<rparr> = (endstops s oid)\<lparr>trigger_count := 0, nextwake := 0\<rparr>)"

lemma es_frame_refl: "es_frame oid s s"
  unfolding es_frame_def by (rule exI [of _ "endstops s"], rule exI [of _ "timers s"]) simp

lemma es_frame_trans:
  assumes "es_frame oid s s1" "es_frame oid s1 s2"
  shows "es_frame oid s s2"
proof -
  obtain es ts es2 ts2 where "s1 = s\<lparr>endstops := es, timers := ts\<rparr>" "s2 = s1\<lparr>endstops := es2, timers := ts2\<rparr>"
    "(es oid)\<lparr>trigger_count := 0, nextwake := 0\<rparr> = (endstops s oid)\<lparr>trigger_count := 0, nextwake := 0\<rparr>"
    "(es2 oid)\<lparr>trigger_count := 0, nextwake := 0\<rparr> = (endstops s1 oid)\<lparr>trigger_count := 0, nextwake := 0\<rparr>"
    using assms unfolding es_frame_def by blast
  then show ?thesis unfolding es_frame_def by (intro exI [of _ es2] exI [of _ ts2]) simp
qed

lemma es_frame_fields:
  assumes "es_frame oid s s'"
  shows "trsyncs s' = trsyncs s" "signals s' = signals s" "steppers s' = steppers s" "move_nodes s' = move_nodes s"
    "move_free_list s' = move_free_list s" "move_count s' = move_count s" "timer_list s' = timer_list s"
    "last_insert s' = last_insert s" "pin_out s' = pin_out s"
    "es_flags (endstops s' oid) = es_flags (endstops s oid)" "es_ts (endstops s' oid) = es_ts (endstops s oid)"
    "es_trigger_reason (endstops s' oid) = es_trigger_reason (endstops s oid)"
proof -
  obtain es ts where s': "s' = s\<lparr>endstops := es, timers := ts\<rparr>"
    and e: "(es oid)\<lparr>trigger_count := 0, nextwake := 0\<rparr> = (endstops s oid)\<lparr>trigger_count := 0, nextwake := 0\<rparr>"
    using assms unfolding es_frame_def by blast
  show "es_flags (endstops s' oid) = es_flags (endstops s oid)" using arg_cong [OF e, of es_flags] by (simp add: s')
  show "es_ts (endstops s' oid) = es_ts (endstops s oid)" using arg_cong [OF e, of es_ts] by (simp add: s')
  show "es_trigger_reason (endstops s' oid) = es_trigger_reason (endstops s oid)"
    using arg_cong [OF e, of es_trigger_reason] by (simp add: s')
  show "trsyncs s' = trsyncs s" "signals s' = signals s" "steppers s' = steppers s" "move_nodes s' = move_nodes s"
    "move_free_list s' = move_free_list s" "move_count s' = move_count s" "timer_list s' = timer_list s"
    "last_insert s' = last_insert s" "pin_out s' = pin_out s"
    by (simp_all add: s')
qed

lemma es_frame_steps:
  "es_frame oid s (set_wake t w s)" "es_frame oid s (set_func t f s)"
  "es_frame oid s (upd_endstop oid (\<lambda>e. e\<lparr>trigger_count := c e\<rparr>) s)"
  "es_frame oid s (upd_endstop oid (\<lambda>e. e\<lparr>nextwake := d e\<rparr>) s)"
  unfolding es_frame_def set_wake_def set_func_def upd_endstop_def
   apply (rule exI [of _ "endstops s"], rule exI, rule conjI, simp, simp)
   apply (rule exI [of _ "endstops s"], rule exI, rule conjI, simp, simp)
  by (rule exI, rule exI [of _ "timers s"], rule conjI, simp, simp)+

text \<open>A sample that does not match starts over; the wake time shows the rest period.\<close>

lemma es_event_no_match:
  assumes "es_inv oid n k s" "val \<noteq> bit_set (es_flags (endstops s oid)) ESF_PIN_HIGH"
  shows "\<exists>s'. es_event bd val val2 oid s = Ret SF_RESCHEDULE s' \<and> es_inv oid n 0 s' \<and> es_frame oid s s' \<and>
    wake s' (es_timer oid) = (if k = 0 then wake s (es_timer oid) + rest_time (endstops s oid)
      else nextwake (endstops s oid))"
proof (cases "k = 0")
  case True
  then show ?thesis
    using assms es_frame_steps(1) [of oid s "es_timer oid"]
    by (simp add: es_event_def es_inv_def endstop_event_def es_no_match_iff Let_def)
next
  case False
  let ?s1 = "set_wake (es_timer oid) (nextwake (endstops s oid)) (set_func (es_timer oid) (Some Fn_endstop_event) s)"
  let ?s2 = "upd_endstop oid (\<lambda>e. e\<lparr>trigger_count := sample_count e\<rparr>) ?s1"
  have "es_frame oid s ?s2" by (intro es_frame_trans [OF _ es_frame_steps(3)] es_frame_trans [OF _ es_frame_steps(1)] es_frame_steps(2))
  with False show ?thesis
    using assms by (simp add: es_event_def es_inv_def endstop_oversample_event_def es_no_match_iff Let_def)
qed

text \<open>A sample that matches counts; the last one needed fires the trigger and ends sampling.\<close>

lemma oversample_match:
  assumes "k < n" "unat (trigger_count (endstops s oid)) = n - k" "unat (sample_count (endstops s oid)) = n"
    "t_func (timers s (es_timer oid)) = Some Fn_endstop_oversample_event"
    "val = bit_set (es_flags (endstops s oid)) ESF_PIN_HIGH" "es_ts (endstops s oid) = Some ts"
  shows "if Suc k = n
    then endstop_oversample_event bd val oid s =
      andthen (trsync_do_trigger (call_signal bd) ts (es_trigger_reason (endstops s oid)) s) (Ret SF_DONE)
    else \<exists>s'. endstop_oversample_event bd val oid s = Ret SF_RESCHEDULE s' \<and> es_inv oid n (Suc k) s' \<and>
      es_frame oid s s' \<and> wake s' (es_timer oid) = wake s (es_timer oid) + sample_time (endstops s oid)"
proof -
  let ?c = "trigger_count (endstops s oid)"
  have z: "?c = 1 \<longleftrightarrow> Suc k = n" using assms(1,2) unat_eq_one [of ?c] by auto
  have d: "unat (?c - 1) = n - Suc k" using assms(1,2) by (simp add: unat_dec)
  show ?thesis
  proof (cases "Suc k = n")
    case True
    then have "?c = 1" using z by simp
    with True assms(5,6) show ?thesis
      by (simp add: endstop_oversample_event_def Let_def es_no_match_iff)
  next
    case False
    then have c: "?c \<noteq> 1" "Suc k < n" using z assms(1) by simp_all
    let ?s = "set_wake (es_timer oid) (wake s (es_timer oid) + sample_time (endstops s oid))
      (upd_endstop oid (\<lambda>e. e\<lparr>trigger_count := ?c - 1\<rparr>) s)"
    have "es_frame oid s ?s" by (intro es_frame_trans [OF es_frame_steps(3) es_frame_steps(1)])
    with False c assms d show ?thesis
      by (simp add: endstop_oversample_event_def Let_def es_no_match_iff es_inv_def)
  qed
qed

lemma es_event_match:
  assumes "es_inv oid n k s" "val = bit_set (es_flags (endstops s oid)) ESF_PIN_HIGH" "val2 = val"
    "es_ts (endstops s oid) = Some ts"
  shows "if Suc k = n
    then \<exists>s1. es_event bd val val2 oid s =
        andthen (trsync_do_trigger (call_signal bd) ts (es_trigger_reason (endstops s oid)) s1) (Ret SF_DONE) \<and>
      es_frame oid s s1 \<and> (\<forall>x. t_next (timers s1 x) = t_next (timers s x) \<and> wake s1 x = wake s x)
    else \<exists>s'. es_event bd val val2 oid s = Ret SF_RESCHEDULE s' \<and> es_inv oid n (Suc k) s' \<and> es_frame oid s s' \<and>
      wake s' (es_timer oid) = wake s (es_timer oid) + sample_time (endstops s oid)"
proof (cases "k = 0")
  case True
  let ?s = "set_func (es_timer oid) (Some Fn_endstop_oversample_event)
    (upd_endstop oid (\<lambda>e. e\<lparr>nextwake := wake s (es_timer oid) + rest_time e\<rparr>) s)"
  have e: "es_event bd val val2 oid s = endstop_oversample_event bd val2 oid ?s"
    using True assms by (simp add: es_event_def es_inv_def endstop_event_def Let_def es_no_match_iff upd_endstop_def)
  have fr: "es_frame oid s ?s" by (intro es_frame_trans [OF es_frame_steps(4) es_frame_steps(2)])
  note m = oversample_match [of k n ?s oid val2 ts bd]
  have h: "k < n" "unat (trigger_count (endstops ?s oid)) = n - k" "unat (sample_count (endstops ?s oid)) = n"
    "t_func (timers ?s (es_timer oid)) = Some Fn_endstop_oversample_event"
    "val2 = bit_set (es_flags (endstops ?s oid)) ESF_PIN_HIGH" "es_ts (endstops ?s oid) = Some ts"
    using assms True by (auto simp: es_inv_def)
  have tr: "es_trigger_reason (endstops ?s oid) = es_trigger_reason (endstops s oid)" using es_frame_fields [OF fr] by simp
  have lk: "\<forall>x. t_next (timers ?s x) = t_next (timers s x) \<and> wake ?s x = wake s x" by (simp add: set_func_def)
  have wk: "wake ?s (es_timer oid) + sample_time (endstops ?s oid) = wake s (es_timer oid) + sample_time (endstops s oid)"
    by (simp add: set_func_def)
  show ?thesis
  proof (cases "Suc k = n")
    case n: True
    note d = m [OF h, unfolded if_P [OF n] tr]
    show ?thesis unfolding e if_P [OF n] by (rule exI [of _ ?s]) (intro conjI d fr lk)
  next
    case n: False
    then obtain s' where "endstop_oversample_event bd val2 oid ?s = Ret SF_RESCHEDULE s'" "es_inv oid n (Suc k) s'"
      "es_frame oid ?s s'" "wake s' (es_timer oid) = wake ?s (es_timer oid) + sample_time (endstops ?s oid)"
      using m [OF h] unfolding if_not_P [OF n] by blast
    then show ?thesis unfolding e if_not_P [OF n] wk using es_frame_trans [OF fr] by blast
  qed
next
  case False
  then have e: "es_event bd val val2 oid s = endstop_oversample_event bd val oid s"
    using assms(1) by (simp add: es_event_def es_inv_def)
  have "if Suc k = n
    then endstop_oversample_event bd val oid s =
      andthen (trsync_do_trigger (call_signal bd) ts (es_trigger_reason (endstops s oid)) s) (Ret SF_DONE)
    else \<exists>s'. endstop_oversample_event bd val oid s = Ret SF_RESCHEDULE s' \<and> es_inv oid n (Suc k) s' \<and>
      es_frame oid s s' \<and> wake s' (es_timer oid) = wake s (es_timer oid) + sample_time (endstops s oid)"
    by (rule oversample_match) (use assms False in \<open>auto simp: es_inv_def\<close>)
  then show ?thesis
    using es_frame_refl [of oid s] unfolding e by (cases "Suc k = n") (simp; blast)+
qed

section \<open>From the trigger to the steppers\<close>

lemma free_moves_frame:
  "free_moves n mq s = Ret mq' s' \<Longrightarrow>
    s' = s\<lparr>move_nodes := move_nodes s', move_free_list := move_free_list s'\<rparr>"
proof (induction n arbitrary: mq s)
  case 0
  then show ?case by (simp add: free_moves.simps [of 0] split: if_splits)
next
  case (Suc n)
  show ?case
  proof (cases "move_queue_empty mq")
    case False
    then obtain mn mq1 where "free_moves n mq1 (move_free mn s) = Ret mq' s'"
      using Suc.prems
      by (auto simp: free_moves.simps [of "Suc n"] move_queue_pop_def bnd_eq_Ret split: option.splits)
    from Suc.IH [OF this] show ?thesis by (simp add: move_free_def set_mn_next_def)
  qed (use Suc.prems in \<open>simp add: free_moves.simps [of "Suc n"]\<close>)
qed

lemma stepper_stop_keeps: "keeps_signals (call_signal bd)"
proof -
  have "trsyncs s' = trsyncs s \<and> signals s' = signals s"
    if ret: "call_signal bd fn g reason s = Ret () s'" for fn g reason and s s' :: "'a stepper_sys_scheme"
  proof -
    have "fn = Sg_stepper_stop" by (cases fn) simp
    with ret obtain s1 mq s2 where 1: "sched_del_timer (step_timer g) s = Ret () s1"
      "free_moves (unat (move_count (stepper_halt bd g s1))) (st_mq (steppers (stepper_halt bd g s1) g))
        (stepper_halt bd g s1) = Ret mq s2" "s' = upd_stepper g (\<lambda>st. st\<lparr>st_mq := mq\<rparr>) s2"
      by (auto simp: call_signal_def stepper_stop_def Let_def andthen_eq_Ret bnd_eq_Ret)
    have "trsyncs s1 = trsyncs s" "signals s1 = signals s"
      by (subst sched_del_frame [OF 1(1)], simp)+
    moreover have "trsyncs s2 = trsyncs (stepper_halt bd g s1)" "signals s2 = signals (stepper_halt bd g s1)"
      by (subst free_moves_frame [OF 1(2)], simp)+
    ultimately show ?thesis by (simp add: 1(3) upd_stepper_def stepper_halt_ok)
  qed
  then show ?thesis by (simp add: keeps_signals_def)
qed

text \<open>
  \<open>fleet s gs qs fs\<close>: each stepper of \<open>gs\<close> has its queue \<open>qs\<close>, the free nodes are \<open>fs\<close>, and no
  node is in two of these lists.
\<close>

definition fleet :: "'a stepper_sys_scheme \<Rightarrow> u8 list \<Rightarrow> (u8 \<Rightarrow> nat list) \<Rightarrow> nat list \<Rightarrow> bool" where
  "fleet s gs qs fs \<longleftrightarrow> distinct gs \<and> free_nodes s fs \<and>
     (\<forall>g \<in> set gs. mq_ok s (st_mq (steppers s g)) (qs g) \<and> length (qs g) \<le> unat (move_count s) \<and>
        set (qs g) \<inter> set fs = {} \<and> (\<forall>h \<in> set gs. h \<noteq> g \<longrightarrow> set (qs g) \<inter> set (qs h) = {}))"

definition stopped :: "stepper \<Rightarrow> bool" where
  "stopped st \<longleftrightarrow> st_count st = 0 \<and> bit_set (st_flags st) SF_NEED_RESET \<and> move_queue_empty (st_mq st)"

lemma call_signals_stop:
  assumes "fleet s gs qs fs" "sched_ok b s ts" "\<forall>g \<in> set gs. sg_func (signals s g) = Some Sg_stepper_stop"
  shows "\<exists>s' ts' fs'. call_signals (call_signal bd) oid gs reason s = Ret () s' \<and> sched_ok b s' ts' \<and>
    free_nodes s' fs' \<and> set fs' = set fs \<union> (\<Union>g \<in> set gs. set (qs g)) \<and>
    pending ts' = filter (\<lambda>x. \<forall>g \<in> set gs. x \<noteq> step_timer g) (pending ts) \<and>
    (\<forall>g \<in> set gs. stopped (steppers s' g)) \<and> (\<forall>o2. o2 \<notin> set gs \<longrightarrow> steppers s' o2 = steppers s o2)"
  using assms
proof (induction gs arbitrary: s fs ts)
  case Nil
  then show ?case by (auto simp: fleet_def)
next
  case (Cons g gs)
  let ?s = "set_signal g no_signal (upd_trsync oid (ts_signals_update (\<lambda>_. sg_next (signals s g))) s)"
  have same: "steppers ?s = steppers s" "move_nodes ?s = move_nodes s" "move_free_list ?s = move_free_list s"
    "move_count ?s = move_count s" "timers ?s = timers s" "timer_list ?s = timer_list s" "last_insert ?s = last_insert s"
    by (simp_all add: set_signal_def upd_trsync_def)
  have fl: "mq_ok ?s (st_mq (steppers ?s g)) (qs g)" "free_nodes ?s fs" "set (qs g) \<inter> set fs = {}"
    "length (qs g) \<le> unat (move_count ?s)"
    using Cons.prems(1) by (simp_all add: fleet_def mq_ok_def free_nodes_def same)
  have so: "sched_ok b ?s ts" using Cons.prems(2) sched_ok_cong [OF same(5-7)] by simp
  obtain s1 ts1 where 1: "stepper_stop bd Sg_stepper_stop g reason ?s = Ret () s1" "sched_ok b s1 ts1"
    "pending ts1 = filter (\<lambda>x. x \<noteq> step_timer g) (pending ts)" "st_count (steppers s1 g) = 0"
    "bit_set (st_flags (steppers s1 g)) SF_NEED_RESET" "mq_ok s1 (st_mq (steppers s1 g)) []"
    "free_nodes s1 (rev (qs g) @ fs)" "\<forall>o2. o2 \<noteq> g \<longrightarrow> steppers s1 o2 = steppers s o2"
    "\<forall>y. y \<notin> set (qs g) \<longrightarrow> move_nodes s1 y = move_nodes s y" "move_count s1 = move_count s" "signals s1 = signals ?s"
    using stepper_stop_ok [OF so fl, of bd Sg_stepper_stop reason] unfolding same by blast
  have "mq_ok s1 (st_mq (steppers s1 h)) (qs h)" if "h \<in> set gs" for h
  proof -
    from that Cons.prems(1) have h: "h \<noteq> g" "mq_ok s (st_mq (steppers s h)) (qs h)" "set (qs g) \<inter> set (qs h) = {}"
      by (auto simp: fleet_def)
    then have "mlist (move_nodes s1) p (qs h) = mlist (move_nodes s) p (qs h)" for p
      using 1(9) by (intro mlist_cong) (metis IntI empty_iff)
    with h 1(8) show ?thesis by (simp add: mq_ok_def)
  qed
  then have "fleet s1 gs qs (rev (qs g) @ fs)" using Cons.prems(1) 1(7,10) by (auto simp: fleet_def)
  moreover have "\<forall>h \<in> set gs. sg_func (signals s1 h) = Some Sg_stepper_stop"
    using Cons.prems(1,3) by (auto simp: 1(11) fleet_def)
  ultimately obtain s2 ts2 fs2 where 2: "call_signals (call_signal bd) oid gs reason s1 = Ret () s2"
    "sched_ok b s2 ts2" "free_nodes s2 fs2" "set fs2 = set (rev (qs g) @ fs) \<union> (\<Union>g \<in> set gs. set (qs g))"
    "pending ts2 = filter (\<lambda>x. \<forall>g \<in> set gs. x \<noteq> step_timer g) (pending ts1)"
    "\<forall>g \<in> set gs. stopped (steppers s2 g)" "\<forall>o2. o2 \<notin> set gs \<longrightarrow> steppers s2 o2 = steppers s1 o2"
    using Cons.IH [OF _ 1(2)] by blast
  have "g \<notin> set gs" using Cons.prems(1) by (simp add: fleet_def)
  then have "stopped (steppers s2 g)" using 1(4-6) 2(7) by (simp add: stopped_def move_queue_empty_def mq_ok_def)
  moreover have "call_signals (call_signal bd) oid (g # gs) reason s = Ret () s2"
    using Cons.prems(3) 1(1) 2(1) by (simp add: call_signal_def)
  moreover have "pending ts2 = filter (\<lambda>x. \<forall>h \<in> set (g # gs). x \<noteq> step_timer h) (pending ts)"
    unfolding 2(5) 1(3) filter_filter by (rule filter_cong) auto
  ultimately show ?case using 2 1(8) by auto
qed

end
