(* ===== verification/Motion_Correct.thy ===== *)
theory Motion_Correct
  imports Endstop Kernel_Correct "HOL-Library.Sublist"
begin

text \<open>
  What the motion code of the firmware promises: steps happen on the schedule of the move,
  the reported position counts the steps taken, a trigger fires once, an end stop fires after
  the requested number of matching samples in a row, and the steppers registered with its trigger
  stop.
\<close>

section \<open>End stops\<close>

text \<open>
  The timer events of an end stop over a list of pin values, until one asks not to be
  rescheduled; the two reads of one event see the same value.
\<close>

fun es_run :: "board \<Rightarrow> u8 \<Rightarrow> bool list \<Rightarrow> 'a endstop_sys_scheme \<Rightarrow> ('a endstop_sys_scheme, sf) res" where
  "es_run bd oid [] s = Ret SF_RESCHEDULE s"
| "es_run bd oid (v # vs) s =
     bnd (es_event bd v v oid s) (\<lambda>ret s. if ret = SF_DONE then Ret SF_DONE s else es_run bd oid vs s)"

lemma sublist_skip:
  assumes "x \<notin> set xs"
  shows "sublist xs (ys @ x # zs) \<longleftrightarrow> sublist xs ys \<or> sublist xs zs"
proof (induction ys)
  case Nil
  then show ?case using assms by (cases xs) (auto simp: sublist_Cons_right)
next
  case (Cons y ys)
  have "prefix xs (y # ys @ x # zs) \<longleftrightarrow> prefix xs (y # ys)"
  proof
    assume "prefix xs (y # ys @ x # zs)"
    then obtain us where "(y # ys) @ x # zs = xs @ us" by (auto elim: prefixE)
    then obtain vs where "y # ys = xs @ vs \<and> us = vs @ x # zs \<or> xs = (y # ys) @ vs \<and> x # zs = vs @ us"
      unfolding append_eq_append_conv2 by auto
    with assms show "prefix xs (y # ys)" by (cases vs) auto
  next
    assume "prefix xs (y # ys)"
    then show "prefix xs (y # ys @ x # zs)" by (metis append_Cons prefix_prefix)
  qed
  with Cons.IH show ?case by (auto simp: sublist_Cons_right)
qed

lemma sublist_replicate_short: "k < n \<Longrightarrow> \<not> sublist (replicate n p) (replicate k p)"
  using sublist_length_le by fastforce

lemma trigger_bnd:
  "bnd (andthen m (Ret SF_DONE)) (\<lambda>ret s. if ret = SF_DONE then Ret SF_DONE s else f s) = andthen m (Ret SF_DONE)"
  by (cases m) simp_all

lemma es_run_streak:
  assumes "es_inv oid n k s" "p = bit_set (es_flags (endstops s oid)) ESF_PIN_HIGH" "es_ts (endstops s oid) = Some ts"
  shows "if sublist (replicate n p) (replicate k p @ vals)
    then \<exists>s1. es_run bd oid vals s =
        andthen (trsync_do_trigger (call_signal bd) ts (es_trigger_reason (endstops s oid)) s1) (Ret SF_DONE) \<and>
      es_frame oid s s1
    else \<exists>s'. es_run bd oid vals s = Ret SF_RESCHEDULE s' \<and> es_frame oid s s'"
  using assms
proof (induction vals arbitrary: k s)
  case Nil
  then have "\<not> sublist (replicate n p) (replicate k p)" by (simp add: es_inv_def sublist_replicate_short)
  then show ?case using es_frame_refl by simp
next
  case (Cons v vals)
  note inv = Cons.prems(1) and p = Cons.prems(2) and ts = Cons.prems(3)
  have kn: "k < n" using inv by (simp add: es_inv_def)
  have go: ?case
    if r: "es_event bd v v oid s = Ret SF_RESCHEDULE s1" "es_inv oid n j s1" "es_frame oid s s1"
      and e: "sublist (replicate n p) (replicate k p @ v # vals) \<longleftrightarrow> sublist (replicate n p) (replicate j p @ vals)"
    for s1 j
  proof -
    note fr = es_frame_fields [OF r(3)]
    have "es_run bd oid (v # vals) s = es_run bd oid vals s1" using r(1) by simp
    moreover note Cons.IH [of j s1] r(2) p ts fr(10-12)
    ultimately show ?thesis
      unfolding e using es_frame_trans [OF r(3)]
      by (cases "sublist (replicate n p) (replicate j p @ vals)") auto
  qed
  show ?case
  proof (cases "v = p")
    case False
    then obtain s1 where "es_event bd v v oid s = Ret SF_RESCHEDULE s1" "es_inv oid n 0 s1" "es_frame oid s s1"
      using es_event_no_match [OF inv, of v bd v] p by auto
    moreover have "sublist (replicate n p) (replicate k p @ v # vals) \<longleftrightarrow> sublist (replicate n p) (replicate 0 p @ vals)"
      using sublist_skip [of v "replicate n p" "replicate k p" vals] sublist_replicate_short [OF kn, of p] False by auto
    ultimately show ?thesis by (rule go)
  next
    case True
    note m = es_event_match [where bd = bd, OF inv True [unfolded p] refl ts]
    show ?thesis
    proof (cases "Suc k = n")
      case n: True
      obtain s1 where 1: "es_event bd v v oid s =
          andthen (trsync_do_trigger (call_signal bd) ts (es_trigger_reason (endstops s oid)) s1) (Ret SF_DONE)"
        "es_frame oid s s1" using m n by auto
      have "replicate k p @ v # vals = replicate n p @ vals" using True by (simp add: replicate_app_Cons_same flip: n)
      then have "sublist (replicate n p) (replicate k p @ v # vals)" by (metis sublist_appendI append_Nil)
      then show ?thesis using 1 by (auto simp: trigger_bnd)
    next
      case False
      then obtain s1 where "es_event bd v v oid s = Ret SF_RESCHEDULE s1" "es_inv oid n (Suc k) s1" "es_frame oid s s1"
        using m by auto
      moreover have "replicate k p @ v # vals = replicate (Suc k) p @ vals" using True by (simp add: replicate_app_Cons_same)
      then have "sublist (replicate n p) (replicate k p @ v # vals) \<longleftrightarrow> sublist (replicate n p) (replicate (Suc k) p @ vals)"
        by metis
      ultimately show ?thesis by (rule go)
    qed
  qed
qed

section \<open>From the trigger to the steppers\<close>

text \<open>
  \<open>armed\<close>: the trigger \<open>ts\<close> can fire, and exactly the steppers \<open>gs\<close> have registered to be
  stopped by it.
\<close>

definition armed :: "'a stepper_sys_scheme \<Rightarrow> u8 \<Rightarrow> u8 list \<Rightarrow> bool" where
  "armed s ts gs \<longleftrightarrow> bit_set (ts_flags (trsyncs s ts)) TSF_CAN_TRIGGER \<and>
     sglist (signals s) (ts_signals (trsyncs s ts)) gs \<and> (\<forall>g \<in> set gs. sg_func (signals s g) = Some Sg_stepper_stop)"

lemma u8_list_bound: "distinct (gs :: u8 list) \<Longrightarrow> length gs \<le> 256"
proof -
  assume "distinct gs"
  then have "length gs = card (set gs)" by (simp add: distinct_card)
  also have "\<dots> \<le> card (UNIV :: u8 set)" by (intro card_mono) simp_all
  finally show ?thesis by (simp add: card_word)
qed

lemma fleet_cong:
  assumes "steppers s' = steppers s" "move_nodes s' = move_nodes s" "move_free_list s' = move_free_list s"
    "move_count s' = move_count s"
  shows "fleet s' gs qs fs = fleet s gs qs fs"
  by (simp add: fleet_def mq_ok_def free_nodes_def assms)

lemma trigger_stops:
  assumes "armed s ts gs" "fleet s gs qs fs" "sched_ok b s tq"
  shows "\<exists>s' tq' fs'. trsync_do_trigger (call_signal bd) ts reason s = Ret () s' \<and> sched_ok b s' tq' \<and>
    free_nodes s' fs' \<and> set fs' = set fs \<union> (\<Union>g \<in> set gs. set (qs g)) \<and>
    pending tq' = filter (\<lambda>x. \<forall>g \<in> set gs. x \<noteq> step_timer g) (pending tq) \<and>
    (\<forall>g \<in> set gs. stopped (steppers s' g)) \<and> (\<forall>g. g \<notin> set gs \<longrightarrow> steppers s' g = steppers s g)"
proof -
  let ?s = "upd_trsync ts (\<lambda>t. t\<lparr>ts_trigger_reason := reason,
     ts_flags := (ts_flags (trsyncs s ts) AND NOT TSF_CAN_TRIGGER) OR TSF_REPORT\<rparr>) s"
  have same: "steppers ?s = steppers s" "move_nodes ?s = move_nodes s" "move_free_list ?s = move_free_list s"
    "move_count ?s = move_count s" "timers ?s = timers s" "timer_list ?s = timer_list s" "last_insert ?s = last_insert s"
    by (simp_all add: upd_trsync_def)
  have d: "distinct gs" using assms(2) by (simp add: fleet_def)
  obtain s1 tq1 fs1 where 1: "call_signals (call_signal bd) ts gs reason ?s = Ret () s1" "sched_ok b s1 tq1"
    "free_nodes s1 fs1" "set fs1 = set fs \<union> (\<Union>g \<in> set gs. set (qs g))"
    "pending tq1 = filter (\<lambda>x. \<forall>g \<in> set gs. x \<noteq> step_timer g) (pending tq)"
    "\<forall>g \<in> set gs. stopped (steppers s1 g)" "\<forall>g. g \<notin> set gs \<longrightarrow> steppers s1 g = steppers ?s g"
    using call_signals_stop [of ?s gs qs fs b tq bd ts reason] assms fleet_cong [OF same(1-4)] sched_ok_cong [OF same(5-7)]
    by (auto simp: armed_def)
  have "dispatch_signals (call_signal bd) 256 ts reason ?s = call_signals (call_signal bd) ts gs reason ?s"
    using assms(1) d u8_list_bound [OF d] by (intro dispatch_signals_calls [OF stepper_stop_keeps]) (simp_all add: armed_def)
  then have r: "trsync_do_trigger (call_signal bd) ts reason s = Ret () (wake_trsync s1)"
    using assms(1) 1(1) by (simp add: trsync_do_trigger_def armed_def del: dispatch_signals.simps)
  have w: "timers (wake_trsync s1) = timers s1" "timer_list (wake_trsync s1) = timer_list s1"
    "last_insert (wake_trsync s1) = last_insert s1" "steppers (wake_trsync s1) = steppers s1"
    "move_nodes (wake_trsync s1) = move_nodes s1" "move_free_list (wake_trsync s1) = move_free_list s1"
    by (simp_all add: wake_trsync_def sched_wake_task_def sched_wake_tasks_def)
  show ?thesis
    by (rule exI [of _ "wake_trsync s1"], rule exI [of _ tq1], rule exI [of _ fs1])
      (use r 1 same sched_ok_cong [OF w(1-3)] in \<open>simp add: w free_nodes_def\<close>)
qed

text \<open>
  C7: Homing is safe: when the last of the required samples matches, the end stop's event fires its
  trigger, and when it returns every stepper registered with the trigger has stopped: its timer
  is off the timer list, its queue is empty with the moves back in the pool, it holds its position
  and takes no moves until it is reset. Other steppers and timers go on. The trigger keeps the
  reason, will be reported and cannot fire again.
\<close>

theorem homing_stops_steppers:
  assumes "es_inv oid (Suc k) k s" "val = bit_set (es_flags (endstops s oid)) ESF_PIN_HIGH"
    "es_ts (endstops s oid) = Some ts" "armed s ts gs" "fleet s gs qs fs" "sched_ok b s tq"
  shows "\<exists>s' tq' fs'. es_event bd val val oid s = Ret SF_DONE s' \<and> sched_ok b s' tq' \<and>
    pending tq' = filter (\<lambda>x. \<forall>g \<in> set gs. x \<noteq> step_timer g) (pending tq) \<and>
    free_nodes s' fs' \<and> set fs' = set fs \<union> (\<Union>g \<in> set gs. set (qs g)) \<and>
    (\<forall>g \<in> set gs. stopped (steppers s' g)) \<and> (\<forall>g. g \<notin> set gs \<longrightarrow> steppers s' g = steppers s g) \<and>
    ts_trigger_reason (trsyncs s' ts) = es_trigger_reason (endstops s oid) \<and>
    \<not> bit_set (ts_flags (trsyncs s' ts)) TSF_CAN_TRIGGER \<and> bit_set (ts_flags (trsyncs s' ts)) TSF_REPORT"
proof -
  let ?r = "es_trigger_reason (endstops s oid)"
  obtain s1 where 1: "es_event bd val val oid s = andthen (trsync_do_trigger (call_signal bd) ts ?r s1) (Ret SF_DONE)"
    "es_frame oid s s1" "\<forall>x. t_next (timers s1 x) = t_next (timers s x) \<and> wake s1 x = wake s x"
    using es_event_match [where bd = bd, OF assms(1,2) refl assms(3)] by auto
  note fr = es_frame_fields [OF 1(2)]
  have a: "armed s1 ts gs" using assms(4) by (simp add: armed_def fr)
  have f: "fleet s1 gs qs fs" using assms(5) fleet_cong [OF fr(3-6)] by simp
  have "sched_ok b s1 tq = sched_ok b s tq" by (rule sched_ok_links) (use 1(3) fr in auto)
  with assms(6) have "sched_ok b s1 tq" by simp
  from trigger_stops [OF a f this, of bd ?r] obtain s' tq' fs' where
    2: "trsync_do_trigger (call_signal bd) ts ?r s1 = Ret () s'" "sched_ok b s' tq'"
    "free_nodes s' fs'" "set fs' = set fs \<union> (\<Union>g \<in> set gs. set (qs g))"
    "pending tq' = filter (\<lambda>x. \<forall>g \<in> set gs. x \<noteq> step_timer g) (pending tq)"
    "\<forall>g \<in> set gs. stopped (steppers s' g)" "\<forall>g. g \<notin> set gs \<longrightarrow> steppers s' g = steppers s1 g" by blast
  have "bit_set (ts_flags (trsyncs s1 ts)) TSF_CAN_TRIGGER" using assms(4) fr by (simp add: armed_def)
  note t = trsync_do_trigger_done [OF stepper_stop_keeps 2(1) this]
  show ?thesis
    by (rule exI [of _ s'], rule exI [of _ tq'], rule exI [of _ fs']) (use 1(1) 2 t fr in simp)
qed

text \<open>
  An end stop that is asked for \<open>n\<close> samples fires its trigger exactly if the values read from
  the pin contain \<open>n\<close> matching ones in a row; otherwise it goes on sampling and touches
  nothing but its own counters and timer.
\<close>

theorem endstop_fires_after_streak:
  assumes "es_inv oid n 0 s" "es_ts (endstops s oid) = Some ts"
  shows "if sublist (replicate n (bit_set (es_flags (endstops s oid)) ESF_PIN_HIGH)) vals
    then \<exists>s1. es_run bd oid vals s =
        andthen (trsync_do_trigger (call_signal bd) ts (es_trigger_reason (endstops s oid)) s1) (Ret SF_DONE) \<and>
      es_frame oid s s1
    else \<exists>s'. es_run bd oid vals s = Ret SF_RESCHEDULE s' \<and> es_frame oid s s'"
  using es_run_streak [OF assms(1) refl assms(2), of vals bd] by simp

text \<open>
  A trigger fires once: after it fired, triggering it again, for whatever reason, from an end stop,
  a timeout or the host, changes nothing.
\<close>

theorem trigger_fires_once:
  assumes "keeps_signals func" "bit_set (ts_flags (trsyncs s ts)) TSF_CAN_TRIGGER"
    "trsync_do_trigger func ts reason s = Ret () s'"
  shows "trsync_do_trigger func ts reason2 s' = Ret () s' \<and> trsync_expire_event func ts s' = Ret SF_DONE s' \<and>
    ts_trigger_reason (trsyncs s' ts) = reason \<and> ts_signals (trsyncs s' ts) = None"
proof -
  note d = trsync_do_trigger_done [OF assms(1,3,2)]
  then show ?thesis using trsync_do_trigger_idle [of s' ts func] by (simp add: trsync_expire_event_def)
qed

section \<open>Steps on schedule\<close>



text \<open>
  Pairs of step and unstep events of a double scheduled stepper, each event with the clock it
  reads.
\<close>

fun full_events :: "board \<Rightarrow> u8 \<Rightarrow> (u32 \<times> u32) list \<Rightarrow> 'a stepper_sys_scheme \<Rightarrow> ('a stepper_sys_scheme, unit) res" where
  "full_events bd oid [] s = Ret () s"
| "full_events bd oid ((c1, c2) # cs) s =
     bnd (bnd (stepper_event_full bd c1 oid s) (\<lambda>_. stepper_event_full bd c2 oid))
       (\<lambda>ret s. if ret = SF_RESCHEDULE then full_events bd oid cs s else Fault)"

text \<open>The wake time after the pair that was at the clocks \<open>c\<close>, when step \<open>t\<close> is next.\<close>

definition pushed :: "u32 \<Rightarrow> u32 \<Rightarrow> u32" where
  "pushed t m = (if timer_is_before t m then m else t)"

lemma full_events_mid:
  assumes "mid_full oid w iv ad n k s" "k + length cs < n" "n < 2 ^ 16"
  shows "\<exists>s'. full_events bd oid cs s = Ret () s' \<and> mid_full oid w iv ad n (k + length cs) s' \<and>
    position (steppers s' oid) = position (steppers s oid) \<and> st_flags (steppers s' oid) = st_flags (steppers s oid) \<and>
    (cs \<noteq> [] \<longrightarrow> wake s' (step_timer oid) =
       pushed (step_clock w iv ad (Suc (k + length cs))) (snd (last cs) + step_pulse_ticks (steppers s oid)))"
  using assms
proof (induction cs arbitrary: k s)
  case (Cons c cs)
  obtain c1 c2 where c: "c = (c1, c2)" by fastforce
  have "Suc k < n" using Cons.prems(2) by simp
  from stepper_full_pair [OF Cons.prems(1) this Cons.prems(3), of bd c1 c2] obtain s1 where
    1: "bnd (stepper_event_full bd c1 oid s) (\<lambda>_. stepper_event_full bd c2 oid) = Ret SF_RESCHEDULE s1"
    "mid_full oid w iv ad n (Suc k) s1" "position (steppers s1 oid) = position (steppers s oid)"
    "st_flags (steppers s1 oid) = st_flags (steppers s oid)"
    "step_pulse_ticks (steppers s1 oid) = step_pulse_ticks (steppers s oid)"
    "wake s1 (step_timer oid) = pushed (step_clock w iv ad (Suc (Suc k))) (c2 + step_pulse_ticks (steppers s oid))"
    by (auto simp: Let_def pushed_def)
  have "Suc k + length cs < n" using Cons.prems(2) by simp
  from Cons.IH [OF 1(2) this Cons.prems(3)] obtain s2 where
    2: "full_events bd oid cs s1 = Ret () s2" "mid_full oid w iv ad n (Suc k + length cs) s2"
    "position (steppers s2 oid) = position (steppers s1 oid)" "st_flags (steppers s2 oid) = st_flags (steppers s1 oid)"
    "cs \<noteq> [] \<longrightarrow> wake s2 (step_timer oid) =
       pushed (step_clock w iv ad (Suc (Suc k + length cs))) (snd (last cs) + step_pulse_ticks (steppers s1 oid))" by blast
  have r: "full_events bd oid (c # cs) s = Ret () s2" using 1(1) 2(1) by (simp add: c)
  show ?case
  proof (cases "cs = []")
    case True
    then have "s2 = s1" using 2(1) by simp
    then show ?thesis using r 1(2-4) 1(6) True by (simp add: c)
  next
    case False
    then show ?thesis using r 2(2-5) 1(3-5) by simp
  qed
qed simp

text \<open>
  Double scheduled steps: however late the step and unstep events of the first \<open>j\<close> steps
  run, step \<open>j + 1\<close> stays on the schedule of the move; it is put off only until the pulse
  duration after the last unstep has passed.
\<close>

theorem double_steps_on_schedule:
  assumes "mq_ok s (st_mq (steppers s oid)) (mn # xs)" "mn_data (move_nodes s mn) = StepperMove iv cnt ad fl"
    "free_nodes s fs" "mn \<notin> set fs" "\<not> single bd (steppers s oid)" "length cs < unat cnt" "cs \<noteq> []"
  shows "\<exists>s1 s2. stepper_load_next bd oid s = Ret SF_RESCHEDULE s1 \<and> full_events bd oid cs s1 = Ret () s2 \<and>
    next_step_time (steppers s2 oid) = step_clock (next_step_time (steppers s oid)) iv ad (Suc (length cs)) \<and>
    wake s2 (step_timer oid) = pushed (next_step_time (steppers s2 oid))
      (snd (last cs) + step_pulse_ticks (steppers s oid))"
proof -
  obtain s1 where 1: "stepper_load_next bd oid s = Ret SF_RESCHEDULE s1"
    "mid_full oid (next_step_time (steppers s oid)) iv ad (unat cnt) 0 s1"
    "step_pulse_ticks (steppers s1 oid) = step_pulse_ticks (steppers s oid)"
    using load_mid_full [OF assms(1-5)] by blast
  have "unat cnt < 2 ^ 16" using unsigned_less [of cnt] by simp
  then show ?thesis
    using full_events_mid [OF 1(2), of cs bd] assms(6,7) 1 by (fastforce simp: mid_full_def)
qed

section \<open>Position\<close>

lemma position_mid:
  assumes "position st = pos_code fwd (if fwd then l + n else l - n)" "steps_left bd st = n - j" "j \<le> n" "0 < l"
    "if fwd then l + n < 2 ^ 31 else n < l \<and> l < 2 ^ 31"
  shows "stepper_get_position bd st = of_nat (if fwd then l + j else l - j)"
proof -
  have "if fwd then n - j < l + n else l - n + (n - j) < 2 ^ 31" using assms(3-5) by (cases fwd) auto
  then show ?thesis
    using stepper_get_position_ok [of st fwd "if fwd then l + n else l - n" bd] assms by (cases fwd) auto
qed

lemma pos_code_load:
  assumes "fwd = (f \<noteq> turn)" "fwd \<or> unat cnt \<le> l"
  shows "(if turn then - pos_code f l else pos_code f l) + ucast (cnt :: u16) =
     pos_code fwd (if fwd then l + unat cnt else l - unat cnt)"
proof -
  have u: "(ucast cnt :: u32) = of_nat (unat cnt)" by simp
  have t: "(if turn then - pos_code f l else pos_code f l) = pos_code fwd l"
    using assms(1) by (cases turn) (auto simp: pos_code_turn)
  have "pos_code fwd l + of_nat (unat cnt) = pos_code fwd (if fwd then l + unat cnt else l - unat cnt)"
    using assms(2) by (cases fwd) (simp_all only: if_True if_False pos_code_forward pos_code_backward simp_thms)
  then show ?thesis unfolding t u .
qed

text \<open>
  The position that the firmware reports is exact in the middle of a move: \<open>j\<close> steps
  into it, it is the position before the move plus or minus \<open>j\<close>, for single and for double
  scheduled steppers and whether or not the move turns the direction.
\<close>

theorem position_counts_steps:
  assumes "mq_ok s (st_mq (steppers s oid)) (mn # xs)" "mn_data (move_nodes s mn) = StepperMove iv cnt ad fl"
    "free_nodes s fs" "mn \<notin> set fs" "position (steppers s oid) = pos_code f l" "0 < l" "length cs < unat cnt"
    and fwd: "fwd = (f \<noteq> bit_set fl MF_DIR)"
    and range: "if fwd then l + unat cnt < 2 ^ 31 else unat cnt < l \<and> l < 2 ^ 31"
  shows "\<exists>s1 s2. stepper_load_next bd oid s = Ret SF_RESCHEDULE s1 \<and>
    (if single bd (steppers s oid) then edge_events bd oid (length cs) s1 else full_events bd oid cs s1) = Ret () s2 \<and>
    stepper_get_position bd (steppers s2 oid) = of_nat (if fwd then l + length cs else l - length cs)"
proof -
  have c: "unat cnt < 2 ^ 16" using unsigned_less [of cnt] by simp
  have p: "(if bit_set fl MF_DIR then - pos_code f l else pos_code f l) + ucast cnt =
      pos_code fwd (if fwd then l + unat cnt else l - unat cnt)"
    by (rule pos_code_load [OF fwd]) (use range in \<open>auto split: if_splits\<close>)
  have fin: ?thesis
    if "stepper_load_next bd oid s = Ret SF_RESCHEDULE s1"
      "(if single bd (steppers s oid) then edge_events bd oid (length cs) s1 else full_events bd oid cs s1) = Ret () s2"
      "position (steppers s2 oid) = pos_code fwd (if fwd then l + unat cnt else l - unat cnt)"
      "steps_left bd (steppers s2 oid) = unat cnt - length cs" for s1 s2
    using that position_mid [OF that(3,4) _ assms(6) range] assms(7) by auto
  show ?thesis
  proof (cases "single bd (steppers s oid)")
    case True
    obtain s1 where 1: "stepper_load_next bd oid s = Ret SF_RESCHEDULE s1"
      "mid_edge oid (wake s (step_timer oid)) iv ad (unat cnt) 0 s1"
      "position (steppers s1 oid) = pos_code fwd (if fwd then l + unat cnt else l - unat cnt)"
      "single bd (steppers s1 oid)"
      using load_mid_edge [OF assms(1-4) True] True p unfolding assms(5) by auto
    obtain s2 where 2: "edge_events bd oid (length cs) s1 = Ret () s2"
      "mid_edge oid (wake s (step_timer oid)) iv ad (unat cnt) (length cs) s2"
      "position (steppers s2 oid) = position (steppers s1 oid)" "st_flags (steppers s2 oid) = st_flags (steppers s1 oid)"
      using edge_events_mid [OF 1(2) _ c, of "length cs" bd] assms(7) by auto
    have "unat (of_nat (unat cnt - length cs) :: u32) = unat cnt - length cs"
      by (rule unat_of_nat_small) (use c in simp)
    then have "steps_left bd (steppers s2 oid) = unat cnt - length cs"
      using 1(4) 2(2,4) by (simp add: steps_left_def single_def mid_edge_def)
    then show ?thesis using 1 2 True by (intro fin [of s1 s2]) simp_all
  next
    case False
    obtain s1 where 1: "stepper_load_next bd oid s = Ret SF_RESCHEDULE s1"
      "mid_full oid (next_step_time (steppers s oid)) iv ad (unat cnt) 0 s1"
      "position (steppers s1 oid) = pos_code fwd (if fwd then l + unat cnt else l - unat cnt)"
      "\<not> single bd (steppers s1 oid)"
      using load_mid_full [OF assms(1-4) False] False p unfolding assms(5) by auto
    obtain s2 where 2: "full_events bd oid cs s1 = Ret () s2"
      "mid_full oid (next_step_time (steppers s oid)) iv ad (unat cnt) (length cs) s2"
      "position (steppers s2 oid) = position (steppers s1 oid)" "st_flags (steppers s2 oid) = st_flags (steppers s1 oid)"
      using full_events_mid [OF 1(2) _ c, of cs bd] assms(7) by auto
    have "unat (of_nat (2 * (unat cnt - length cs)) :: u32) = 2 * (unat cnt - length cs)"
      by (rule unat_of_nat_small) (use c in simp)
    then have "steps_left bd (steppers s2 oid) = unat cnt - length cs"
      using 1(4) 2(2,4) by (auto simp: steps_left_def single_def mid_full_def)
    then show ?thesis using 1 2 False by (intro fin [of s1 s2]) simp_all
  qed
qed

section \<open>Instances\<close>

text \<open>
  A small machine: stepper 1 in the middle of homing with the move at node 200 queued, end stop
  2 about to take its last sample, trigger 3.
\<close>

definition demo_timers :: "tid \<Rightarrow> timer" where
  "demo_timers = timers_init
     (TObj 2 0 := \<lparr>t_next = Some (TObj 1 0), t_func = Some Fn_endstop_oversample_event, waketime = 100\<rparr>,
      TObj 1 0 := \<lparr>t_next = Some TPeriodic, t_func = None, waketime = 150\<rparr>,
      TPeriodic := \<lparr>t_next = Some TSentinel, t_func = Some Fn_periodic_event, waketime = 200\<rparr>,
      TSentinel := \<lparr>t_next = None, t_func = Some Fn_sentinel_event, waketime = 0x800000c8\<rparr>)"

definition demo_nodes :: "nat \<Rightarrow> move_node" where
  "demo_nodes = (\<lambda>_. \<lparr>mn_next = None, mn_data = Raw\<rparr>)(200 := \<lparr>mn_next = None, mn_data = StepperMove 1000 5 2 1\<rparr>)"

definition demo_stepper :: "u8 \<Rightarrow> stepper" where
  "demo_stepper flags = stepper_zero\<lparr>st_count := 4, step_pin := 7, dir_pin := 8, position := 0x40000000, step_pulse_ticks := 32,
     next_step_time := 100, st_mq := \<lparr>mq_first = Some 200, mq_last = Some 200\<rparr>, st_flags := flags\<rparr>"

definition demo_motion :: "u8 \<Rightarrow> endstop_sys" where
  "demo_motion flags = stepper_sys.extend (trsync_sys.extend (mcu.extend
      (demo_mcu\<lparr>timers := demo_timers, timer_list := TObj 2 0, move_nodes := demo_nodes, move_count := 4,
         move_free_list := Some 216\<rparr>)
      (trsync_sys.fields (\<lambda>_. trsync_zero\<lparr>ts_flags := TSF_CAN_TRIGGER, ts_signals := Some 1\<rparr>)
         (\<lambda>_. \<lparr>sg_next = None, sg_func = Some Sg_stepper_stop\<rparr>) 0))
      (stepper_sys.fields (\<lambda>_. demo_stepper flags)))
      (endstop_sys.fields (\<lambda>_. endstop_zero\<lparr>es_flags := 3, sample_count := 4, trigger_count := 1, es_ts := Some 3,
         es_trigger_reason := 1\<rparr>))"

lemma demo_motion_sel [simp]:
  "timers (demo_motion flags) = demo_timers" "timer_list (demo_motion flags) = TObj 2 0"
  "last_insert (demo_motion flags) = TPeriodic" "move_nodes (demo_motion flags) = demo_nodes"
  "move_free_list (demo_motion flags) = Some 216" "move_count (demo_motion flags) = 4"
  "trsyncs (demo_motion flags) x = trsync_zero\<lparr>ts_flags := TSF_CAN_TRIGGER, ts_signals := Some 1\<rparr>"
  "signals (demo_motion flags) x = \<lparr>sg_next = None, sg_func = Some Sg_stepper_stop\<rparr>"
  "steppers (demo_motion flags) x = demo_stepper flags"
  "endstops (demo_motion flags) x = endstop_zero\<lparr>es_flags := 3, sample_count := 4, trigger_count := 1, es_ts := Some 3,
     es_trigger_reason := 1\<rparr>"
  by (simp_all add: demo_motion_def demo_mcu_def sched_init_def sched.defs mcu.defs trsync_sys.defs stepper_sys.defs
      endstop_sys.defs)

lemma demo_motion_ok:
  "es_inv 2 (Suc 3) 3 (demo_motion f)" "armed (demo_motion f) 3 [1]" "fleet (demo_motion f) [1] (\<lambda>_. [200]) [216]"
  "sched_ok 0 (demo_motion f) [TObj 2 0, TObj 1 0, TPeriodic]"
  "mq_ok (demo_motion f) (st_mq (demo_stepper f)) [200]" "free_nodes (demo_motion f) [216]"
  "mn_data (demo_nodes 200) = StepperMove 1000 5 2 1"
  by (simp_all add: es_inv_def armed_def fleet_def mq_ok_def free_nodes_def sched_ok_def window_def key_def off_def
      demo_timers_def demo_nodes_def demo_stepper_def stepper_zero_def endstop_zero_def TSF_CAN_TRIGGER_def
      flag_bits)

theorem homing_stops_steppers_witness:
  "\<exists>s'. es_event demo_board True True 2 (demo_motion 0) = Ret SF_DONE s' \<and> stopped (steppers s' 1) \<and>
     ts_trigger_reason (trsyncs s' 3) = 1"
proof -
  have "True = bit_set (es_flags (endstops (demo_motion 0) 2)) ESF_PIN_HIGH" "es_ts (endstops (demo_motion 0) 2) = Some 3"
    by (simp_all add: ESF_PIN_HIGH_def bit_set_def)
  from homing_stops_steppers [where bd = demo_board, OF demo_motion_ok(1) this demo_motion_ok(2-4)]
  show ?thesis by (auto simp: ESF_PIN_HIGH_def bit_set_def)
qed

text \<open>The end stop before its first sample.\<close>

definition demo_idle :: endstop_sys where
  "demo_idle = (demo_motion 0)\<lparr>endstops := (\<lambda>_. endstop_zero\<lparr>es_flags := 3, sample_count := 2, trigger_count := 2, es_ts := Some 3\<rparr>),
     timers := demo_timers(TObj 2 0 := \<lparr>t_next = Some (TObj 1 0), t_func = Some Fn_endstop_event, waketime = 100\<rparr>)\<rparr>"

theorem endstop_fires_after_streak_witness:
  "\<exists>s'. es_run demo_board 2 [True, False, True, False] demo_idle = Ret SF_RESCHEDULE s' \<and> es_frame 2 demo_idle s'"
proof -
  have i: "es_inv 2 2 0 demo_idle" "es_ts (endstops demo_idle 2) = Some 3"
    by (simp_all add: es_inv_def demo_idle_def)
  have "\<not> sublist (replicate 2 (bit_set (es_flags (endstops demo_idle 2)) ESF_PIN_HIGH)) [True, False, True, False]"
    by (simp add: demo_idle_def ESF_PIN_HIGH_def bit_set_def numeral_2_eq_2 sublist_Cons_right)
  then show ?thesis
    using endstop_fires_after_streak [OF i, of "[True, False, True, False]" demo_board] by simp
qed

theorem trigger_fires_once_witness:
  "\<exists>s'. trsync_do_trigger (call_signal demo_board) 3 1 (demo_motion 0) = Ret () s' \<and>
     trsync_do_trigger (call_signal demo_board) 3 2 s' = Ret () s' \<and> ts_trigger_reason (trsyncs s' 3) = 1"
proof -
  obtain s' where r: "trsync_do_trigger (call_signal demo_board) 3 1 (demo_motion 0) = Ret () s'"
    using trigger_stops [OF demo_motion_ok(2-4)] by blast
  have "bit_set (ts_flags (trsyncs (demo_motion 0) 3)) TSF_CAN_TRIGGER"
    by (simp add: TSF_CAN_TRIGGER_def bit_set_def)
  from trigger_fires_once [OF stepper_stop_keeps this r, of 2] show ?thesis using r by blast
qed

lemma demo_single: "single demo_board (demo_stepper 16)" "\<not> single demo_board (demo_stepper 0)"
  by (simp_all add: single_def have_single_def demo_board_def demo_stepper_def stepper_zero_def SF_SINGLE_SCHED_def bit_set_def)

lemma demo_load:
  "mq_ok (demo_motion f) (st_mq (steppers (demo_motion f) 1)) [200]"
  "mn_data (move_nodes (demo_motion f) 200) = StepperMove 1000 5 2 1" "200 \<notin> set [216 :: nat]"
  using demo_motion_ok(5,7) by simp_all


theorem double_steps_on_schedule_witness:
  "\<exists>s1 s2. stepper_load_next demo_board 1 (demo_motion 0) = Ret SF_RESCHEDULE s1 \<and>
     full_events demo_board 1 [(1100, 1150), (2110, 2400)] s1 = Ret () s2 \<and>
     next_step_time (steppers s2 1) = step_clock 100 1000 2 3 \<and>
     wake s2 (TObj 1 0) = pushed (step_clock 100 1000 2 3) 2432"
  using double_steps_on_schedule [where bd = demo_board and cs = "[(1100, 1150), (2110, 2400)]", OF demo_load(1,2) demo_motion_ok(6) demo_load(3), of 0]
    demo_single by (auto simp: demo_stepper_def numeral_3_eq_3)

theorem position_counts_steps_witness:
  "\<exists>s1 s2. stepper_load_next demo_board 1 (demo_motion 16) = Ret SF_RESCHEDULE s1 \<and>
     edge_events demo_board 1 (length [(0, 0), (0, 0 :: nat)]) s1 = Ret () s2 \<and>
     stepper_get_position demo_board (steppers s2 1) = 0x3ffffffe"
proof -
  have p: "position (steppers (demo_motion 16) 1) = pos_code True 0x40000000"
    by (simp add: demo_stepper_def pos_code_def)
  have "bit_set (1 :: u8) MF_DIR" by (simp add: MF_DIR_def bit_set_def)
  then show ?thesis
    using position_counts_steps [OF demo_load(1,2) demo_motion_ok(6) demo_load(3) p, of "[(0, 0), (0, 0)]" False demo_board]
      demo_single by auto
qed

end
