(* ===== verification/Outputs.thy ===== *)
theory Outputs
  imports Move_Pool
begin

text \<open>
  Output pins under host control: digital outputs with software pwm
  (\<open>klipper/src/gpiocmds.c\<close>) and hardware pwm (\<open>klipper/src/pwmcmds.c\<close>). Updates wait in a move
  queue; an output away from its default must be updated within \<open>max_duration\<close>. With the
  theorems on that time limit.
\<close>

section \<open>State\<close>

record digital_out_s =
  on_duration :: u32
  off_duration :: u32
  end_time :: u32
  do_pin :: u32
  do_max_duration :: u32
  cycle_time :: u32
  do_mq :: move_queue_head
  do_flags :: u8

definition DF_ON :: u8 where "DF_ON = 1"
definition DF_TOGGLING :: u8 where "DF_TOGGLING = 2"
definition DF_CHECK_END :: u8 where "DF_CHECK_END = 4"
definition DF_DEFAULT_ON :: u8 where "DF_DEFAULT_ON = 16"

record pwm_out_s =
  po_pin :: u32
  po_max_duration :: u32
  default_value :: u16
  po_mq :: move_queue_head

text \<open>\<open>pwm_level\<close> is the duty value of each pwm pin, as last written.\<close>

record outputs_sys = mcu +
  digital_outs :: "u8 \<Rightarrow> digital_out_s"
  pwm_outs :: "u8 \<Rightarrow> pwm_out_s"
  pwm_level :: "u32 \<Rightarrow> u16"

definition empty_mq :: move_queue_head where "empty_mq = \<lparr>mq_first = None, mq_last = None\<rparr>"

definition digital_out_zero :: digital_out_s where
  "digital_out_zero = \<lparr>on_duration = 0, off_duration = 0, end_time = 0, do_pin = 0,
     do_max_duration = 0, cycle_time = 0, do_mq = empty_mq, do_flags = 0\<rparr>"

definition pwm_out_zero :: pwm_out_s where
  "pwm_out_zero = \<lparr>po_pin = 0, po_max_duration = 0, default_value = 0, po_mq = empty_mq\<rparr>"

abbreviation out_timer :: "u8 \<Rightarrow> tid" where "out_timer oid \<equiv> TObj (unat oid) 0"

definition upd_do :: "u8 \<Rightarrow> (digital_out_s \<Rightarrow> digital_out_s) \<Rightarrow> 'a outputs_sys_scheme \<Rightarrow> 'a outputs_sys_scheme" where
  "upd_do oid f s = s\<lparr>digital_outs := (digital_outs s)(oid := f (digital_outs s oid))\<rparr>"

definition upd_po :: "u8 \<Rightarrow> (pwm_out_s \<Rightarrow> pwm_out_s) \<Rightarrow> 'a outputs_sys_scheme \<Rightarrow> 'a outputs_sys_scheme" where
  "upd_po oid f s = s\<lparr>pwm_outs := (pwm_outs s)(oid := f (pwm_outs s oid))\<rparr>"

section \<open>Digital outputs\<close>

definition digital_toggle_event :: "u8 \<Rightarrow> 'a outputs_sys_scheme \<Rightarrow> ('a outputs_sys_scheme, sf) res" where
  "digital_toggle_event oid s =
     (let s1 = upd_do oid (\<lambda>d. d\<lparr>do_flags := do_flags d XOR DF_ON\<rparr>)
                 (gpio_out_toggle (do_pin (digital_outs s oid)) s);
          d = digital_outs s1 oid;
          w = wake s1 (out_timer oid) +
                (if bit_set (do_flags d) DF_ON then on_duration d else off_duration d)
      in if bit_set (do_flags d) DF_CHECK_END \<and> \<not> timer_is_before w (end_time d) then
           Ret SF_RESCHEDULE (set_wake (out_timer oid) (end_time d)
             (set_func (out_timer oid) (Some Fn_digital_load_event) s1))
         else Ret SF_RESCHEDULE (set_wake (out_timer oid) w s1))"

text \<open>
  The new flags and end time computed by the first half of \<open>digital_load_event\<close>, from the
  on time of the update, the object and the wake time of the event.
\<close>

definition load_flags :: "u32 \<Rightarrow> digital_out_s \<Rightarrow> u32 \<Rightarrow> u8 \<times> u32" where
  "load_flags on d w =
     (let flags = (if on \<noteq> 0 then DF_ON else 0)
      in if flags = 0 \<or> on \<ge> cycle_time d then
           (if (flags = 0) \<noteq> (\<not> bit_set (do_flags d) DF_DEFAULT_ON) \<and> do_max_duration d \<noteq> 0
            then (flags OR DF_CHECK_END, w + do_max_duration d) else (flags, 0))
         else
           (let flags = flags OR DF_TOGGLING
            in if do_max_duration d \<noteq> 0 then (flags OR DF_CHECK_END, w + do_max_duration d)
               else (flags, 0)))"

text \<open>The last part: the next event of the timer.\<close>

definition load_schedule :: "u8 \<Rightarrow> u32 \<Rightarrow> u8 \<Rightarrow> u32 \<Rightarrow> 'a outputs_sys_scheme \<Rightarrow> ('a outputs_sys_scheme, sf) res" where
  "load_schedule oid on flags et s =
     (if \<not> bit_set flags DF_TOGGLING then
        (if \<not> bit_set flags DF_CHECK_END then Ret SF_DONE s
         else Ret SF_RESCHEDULE (set_wake (out_timer oid) et s))
      else
        (let w = wake s (out_timer oid) + on
         in if bit_set flags DF_CHECK_END \<and> \<not> timer_is_before w et then
              Ret SF_RESCHEDULE (set_wake (out_timer oid) et s)
            else Ret SF_RESCHEDULE
                   (upd_do oid (\<lambda>d. d\<lparr>on_duration := on, off_duration := cycle_time d - on\<rparr>)
                     (set_wake (out_timer oid) w
                       (set_func (out_timer oid) (Some Fn_digital_toggle_event) s)))))"

definition digital_load_event :: "u8 \<Rightarrow> 'a outputs_sys_scheme \<Rightarrow> ('a outputs_sys_scheme, sf) res" where
  "digital_load_event oid s =
     (let d = digital_outs s oid
      in if move_queue_empty (do_mq d) then
           Shut ''Missed scheduling of next digital out event'' s
         else bnd (move_queue_pop (do_mq d) s) (\<lambda>(mn, mq) s.
           case mn_data (move_nodes s mn) of
             DigitalMove _ on \<Rightarrow>
               (let s1 = move_free mn (gpio_out_write (do_pin d) (on \<noteq> 0)
                           (upd_do oid (\<lambda>d. d\<lparr>do_mq := mq\<rparr>) s));
                    (flags, et) = load_flags on d (wake s1 (out_timer oid));
                    fin = (\<lambda>flags et.
                      load_schedule oid on flags et
                        (upd_do oid (\<lambda>d. d\<lparr>end_time := et,
                           do_flags := flags OR (do_flags d AND DF_DEFAULT_ON)\<rparr>) s1))
                in case move_queue_first mq of
                     None \<Rightarrow> fin flags et
                   | Some nn \<Rightarrow>
                       (case mn_data (move_nodes s1 nn) of
                          DigitalMove w _ \<Rightarrow>
                            if bit_set flags DF_CHECK_END \<and> timer_is_before et w
                            then Shut ''Scheduled digital out event will exceed max_duration'' s1
                            else fin (flags OR DF_CHECK_END) w
                        | _ \<Rightarrow> Fault))
           | _ \<Rightarrow> Fault))"

definition command_config_digital_out ::
    "board \<Rightarrow> nat \<Rightarrow> nat \<Rightarrow> u32 list \<Rightarrow> 'a outputs_sys_scheme \<Rightarrow> ('a outputs_sys_scheme, unit) res" where
  "command_config_digital_out bd sz msz args s =
     (let oid = ucast (args ! 0)
      in bnd (gpio_out_setup bd (args ! 1) (args ! 2 \<noteq> 0) s) (\<lambda>pin s.
         bnd (oid_alloc bd oid T_digital_out sz s) (\<lambda>_ s.
         let s1 = clear_timer (out_timer oid) (upd_do oid (\<lambda>_. digital_out_zero\<lparr>do_pin := pin,
                    do_flags := (if args ! 2 \<noteq> 0 then DF_ON else 0) OR
                                (if args ! 3 \<noteq> 0 then DF_DEFAULT_ON else 0),
                    do_max_duration := args ! 4\<rparr>) s)
         in bnd (move_queue_setup msz s1) (\<lambda>mq s.
              Ret () (upd_do oid (\<lambda>d. d\<lparr>do_mq := mq\<rparr>) s)))))"

definition command_set_digital_out_pwm_cycle ::
    "u32 list \<Rightarrow> 'a outputs_sys_scheme \<Rightarrow> ('a outputs_sys_scheme, unit) res" where
  "command_set_digital_out_pwm_cycle args s =
     (let oid = ucast (args ! 0)
      in with_oid oid T_digital_out (\<lambda>s.
           if \<not> move_queue_empty (do_mq (digital_outs s oid))
           then Shut ''Can not set soft pwm cycle ticks while updates pending'' s
           else Ret () (upd_do oid (\<lambda>d. d\<lparr>cycle_time := args ! 1\<rparr>) s)) s)"

definition command_queue_digital_out ::
    "u32 \<Rightarrow> u32 \<Rightarrow> u32 list \<Rightarrow> 'a outputs_sys_scheme \<Rightarrow> ('a outputs_sys_scheme, unit) res" where
  "command_queue_digital_out now1 now2 args s =
     (let oid = ucast (args ! 0); time = args ! 1
      in with_oid oid T_digital_out (\<lambda>s.
         bnd (move_alloc s) (\<lambda>m s.
         bnd (move_queue_push m (do_mq (digital_outs s oid))
                (set_mn_data m (DigitalMove time (args ! 2)) s)) (\<lambda>(first, mq) s.
           let s1 = upd_do oid (\<lambda>d. d\<lparr>do_mq := mq\<rparr>) s;
               d = digital_outs s1 oid;
               flags = do_flags d
           in if \<not> first then Ret () s1
              else if bit_set flags DF_CHECK_END \<and> timer_is_before (end_time d) time
              then Shut ''Scheduled digital out event will exceed max_duration'' s1
              else
                (let s2 = upd_do oid (\<lambda>d. d\<lparr>end_time := time, do_flags := flags OR DF_CHECK_END\<rparr>) s1
                 in if bit_set flags DF_TOGGLING \<and> timer_is_before (wake s2 (out_timer oid)) time
                    then Ret () s2
                    else andthen (sched_del_timer (out_timer oid) s2) (\<lambda>s.
                      sched_add_timer now1 now2 (out_timer oid)
                        (set_func (out_timer oid) (Some Fn_digital_load_event)
                          (set_wake (out_timer oid) time s))))))) s)"

text \<open>\<open>now\<close> is the clock read of the handler itself.\<close>

definition command_update_digital_out ::
    "u32 \<Rightarrow> u32 \<Rightarrow> u32 \<Rightarrow> u32 list \<Rightarrow> 'a outputs_sys_scheme \<Rightarrow> ('a outputs_sys_scheme, unit) res" where
  "command_update_digital_out now now1 now2 args s =
     (let oid = ucast (args ! 0)
      in with_oid oid T_digital_out (\<lambda>s.
         andthen (sched_del_timer (out_timer oid) s) (\<lambda>s.
           let d = digital_outs s oid
           in if \<not> move_queue_empty (do_mq d)
              then Shut ''update_digital_out not valid with active queue'' s
              else
                (let on = (ucast (args ! 1) :: u8) \<noteq> 0;
                     on_flag = (if on then DF_ON else 0);
                     keep = do_flags d AND DF_DEFAULT_ON;
                     s1 = gpio_out_write (do_pin d) on s
                 in if (\<not> on) \<noteq> (\<not> bit_set (do_flags d) DF_DEFAULT_ON) \<and> do_max_duration d \<noteq> 0 then
                      (let et = now + do_max_duration d
                       in sched_add_timer now1 now2 (out_timer oid)
                            (upd_do oid (\<lambda>d. d\<lparr>end_time := et, do_flags := (keep OR on_flag) OR DF_CHECK_END\<rparr>)
                              (set_func (out_timer oid) (Some Fn_digital_load_event)
                                (set_wake (out_timer oid) et s1))))
                    else Ret () (upd_do oid (\<lambda>d. d\<lparr>do_flags := keep OR on_flag\<rparr>) s1)))) s)"

definition digital_out_shutdown :: "'a outputs_sys_scheme \<Rightarrow> ('a outputs_sys_scheme, unit) res" where
  "digital_out_shutdown s =
     foreach_oid T_digital_out (\<lambda>oid s.
       let d = digital_outs s oid; def = bit_set (do_flags d) DF_DEFAULT_ON
       in Ret () (upd_do oid (\<lambda>d. d\<lparr>do_flags := (if def then DF_ON OR DF_DEFAULT_ON else 0),
                                  do_mq := move_queue_clear (do_mq d)\<rparr>)
                   (gpio_out_write (do_pin d) def s))) s"

definition command_set_digital_out ::
    "board \<Rightarrow> u32 list \<Rightarrow> 'a outputs_sys_scheme \<Rightarrow> ('a outputs_sys_scheme, unit) res" where
  "command_set_digital_out bd args s =
     bnd (gpio_out_setup bd (args ! 0) (args ! 1 \<noteq> 0) s) (\<lambda>_. Ret ())"

section \<open>Hardware pwm\<close>

definition gpio_pwm_write :: "u32 \<Rightarrow> u16 \<Rightarrow> 'a outputs_sys_scheme \<Rightarrow> 'a outputs_sys_scheme" where
  "gpio_pwm_write pin v s = s\<lparr>pwm_level := (pwm_level s)(pin := v)\<rparr>"

definition gpio_pwm_setup ::
    "board \<Rightarrow> u32 \<Rightarrow> u32 \<Rightarrow> u16 \<Rightarrow> 'a outputs_sys_scheme \<Rightarrow> ('a outputs_sys_scheme, u32) res" where
  "gpio_pwm_setup bd pin cyc v s =
     (if pwm_pin_ok bd pin then Ret pin (gpio_pwm_write pin v s) else Shut ''Not a valid PWM pin'' s)"

definition pwm_end_event :: "u8 \<Rightarrow> 'a outputs_sys_scheme \<Rightarrow> ('a outputs_sys_scheme, sf) res" where
  "pwm_end_event oid s = Shut ''Missed scheduling of next hard pwm event'' s"

definition pwm_event :: "u8 \<Rightarrow> 'a outputs_sys_scheme \<Rightarrow> ('a outputs_sys_scheme, sf) res" where
  "pwm_event oid s =
     (let p = pwm_outs s oid
      in bnd (move_queue_pop (po_mq p) s) (\<lambda>(mn, mq) s.
           case mn_data (move_nodes s mn) of
             PwmMove _ v \<Rightarrow>
               (let s1 = move_free mn (gpio_pwm_write (po_pin p) v (upd_po oid (\<lambda>p. p\<lparr>po_mq := mq\<rparr>) s))
                in case move_queue_first mq of
                     None \<Rightarrow>
                       if v = default_value p \<or> po_max_duration p = 0 then Ret SF_DONE s1
                       else Ret SF_RESCHEDULE
                              (set_func (out_timer oid) (Some Fn_pwm_end_event)
                                (set_wake (out_timer oid) (wake s1 (out_timer oid) + po_max_duration p) s1))
                   | Some nn \<Rightarrow>
                       (case mn_data (move_nodes s1 nn) of
                          PwmMove w _ \<Rightarrow>
                            if v \<noteq> default_value p \<and> po_max_duration p \<noteq> 0 \<and>
                               timer_is_before (wake s1 (out_timer oid) + po_max_duration p) w
                            then Shut ''Scheduled pwm event will exceed max_duration'' s1
                            else Ret SF_RESCHEDULE (set_wake (out_timer oid) w s1)
                        | _ \<Rightarrow> Fault))
           | _ \<Rightarrow> Fault))"

definition command_config_pwm_out ::
    "board \<Rightarrow> nat \<Rightarrow> nat \<Rightarrow> u32 list \<Rightarrow> 'a outputs_sys_scheme \<Rightarrow> ('a outputs_sys_scheme, unit) res" where
  "command_config_pwm_out bd sz msz args s =
     (let oid = ucast (args ! 0)
      in bnd (gpio_pwm_setup bd (args ! 1) (args ! 2) (ucast (args ! 3)) s) (\<lambda>pin s.
         bnd (oid_alloc bd oid T_pwm_out sz s) (\<lambda>_ s.
         let s1 = set_func (out_timer oid) (Some Fn_pwm_event) (clear_timer (out_timer oid)
                    (upd_po oid (\<lambda>_. pwm_out_zero\<lparr>po_pin := pin, default_value := ucast (args ! 4),
                       po_max_duration := args ! 5\<rparr>) s))
         in bnd (move_queue_setup msz s1) (\<lambda>mq s.
              Ret () (upd_po oid (\<lambda>p. p\<lparr>po_mq := mq\<rparr>) s)))))"

definition command_queue_pwm_out ::
    "u32 \<Rightarrow> u32 \<Rightarrow> u32 list \<Rightarrow> 'a outputs_sys_scheme \<Rightarrow> ('a outputs_sys_scheme, unit) res" where
  "command_queue_pwm_out now1 now2 args s =
     (let oid = ucast (args ! 0); time = args ! 1
      in with_oid oid T_pwm_out (\<lambda>s.
         bnd (move_alloc s) (\<lambda>m s.
         bnd (move_queue_push m (po_mq (pwm_outs s oid))
                (set_mn_data m (PwmMove time (ucast (args ! 2))) s)) (\<lambda>(first, mq) s.
           let s1 = upd_po oid (\<lambda>p. p\<lparr>po_mq := mq\<rparr>) s
           in if \<not> first then Ret () s1
              else andthen (sched_del_timer (out_timer oid) s1) (\<lambda>s.
                if t_func (timers s (out_timer oid)) = Some Fn_pwm_end_event \<and>
                   timer_is_before (wake s (out_timer oid)) time
                then Shut ''Scheduled pwm event will exceed max_duration'' s
                else sched_add_timer now1 now2 (out_timer oid)
                       (set_wake (out_timer oid) time
                         (set_func (out_timer oid) (Some Fn_pwm_event) s)))))) s)"

definition pwm_shutdown :: "'a outputs_sys_scheme \<Rightarrow> ('a outputs_sys_scheme, unit) res" where
  "pwm_shutdown s =
     foreach_oid T_pwm_out (\<lambda>oid s.
       let p = pwm_outs s oid
       in Ret () (upd_po oid (\<lambda>p. p\<lparr>po_mq := move_queue_clear (po_mq p)\<rparr>)
                   (set_func (out_timer oid) (Some Fn_pwm_event)
                     (gpio_pwm_write (po_pin p) (default_value p) s)))) s"

definition command_set_pwm_out ::
    "board \<Rightarrow> u32 list \<Rightarrow> 'a outputs_sys_scheme \<Rightarrow> ('a outputs_sys_scheme, unit) res" where
  "command_set_pwm_out bd args s =
     bnd (gpio_pwm_setup bd (args ! 0) (args ! 1) (ucast (args ! 2)) s) (\<lambda>_. Ret ())"

end
