(* ===== verification/Output_Props.thy ===== *)
theory Output_Props
  imports Outputs
begin

text \<open>
  Safety of outputs with a maximum duration: away from its default an output has a scheduled end
  no later than \<open>max_duration\<close> after its last update, the timer runs no later than that end,
  missing updates shut the firmware down, and a shutdown puts every output to its default.
\<close>

section \<open>State updates\<close>

lemma outputs_updates [simp]:
  "digital_outs (upd_do oid f s) = (digital_outs s)(oid := f (digital_outs s oid))"
  "timers (upd_do oid f s) = timers s" "pin_out (upd_do oid f s) = pin_out s"
  "move_nodes (upd_do oid f s) = move_nodes s"
  "pwm_outs (upd_po oid g s) = (pwm_outs s)(oid := g (pwm_outs s oid))"
  "timers (upd_po oid g s) = timers s" "pwm_level (upd_po oid g s) = pwm_level s"
  "move_nodes (upd_po oid g s) = move_nodes s"
  by (simp_all add: upd_do_def upd_po_def)

lemma outputs_others [simp]:
  "digital_outs (gpio_out_write p v s) = digital_outs s"
  "digital_outs (gpio_out_toggle p s) = digital_outs s"
  "digital_outs (set_wake t w s) = digital_outs s"
  "digital_outs (set_func t fn s) = digital_outs s"
  "digital_outs (move_free m s) = digital_outs s"
  "pin_out (gpio_out_write p v s) = (pin_out s)(p := v)"
  "pin_out (gpio_out_toggle p s) = (pin_out s)(p := \<not> pin_out s p)"
  "timers (gpio_out_write p v s) = timers s"
  "timers (gpio_out_toggle p s) = timers s"
  "pin_out (set_wake t w s) = pin_out s" "pin_out (set_func t fn s) = pin_out s"
  "pin_out (move_free m s) = pin_out s" "timers (move_free m s) = timers s"
  by (simp_all add: gpio_out_write_def gpio_out_toggle_def set_wake_def set_func_def move_free_def
      set_mn_next_def)

lemma pwm_others [simp]:
  "pwm_outs (gpio_pwm_write p v s) = pwm_outs s"
  "pwm_level (gpio_pwm_write p v s) = (pwm_level s)(p := v)"
  "timers (gpio_pwm_write p v s) = timers s"
  "pwm_outs (set_wake t w s) = pwm_outs s" "pwm_outs (set_func t fn s) = pwm_outs s"
  "pwm_outs (move_free m s) = pwm_outs s"
  "pwm_level (set_wake t w s) = pwm_level s" "pwm_level (set_func t fn s) = pwm_level s"
  "pwm_level (move_free m s) = pwm_level s"
  by (simp_all add: gpio_pwm_write_def set_wake_def set_func_def move_free_def set_mn_next_def)

lemmas df_flags = DF_ON_def DF_TOGGLING_def DF_CHECK_END_def DF_DEFAULT_ON_def flag_bits

section \<open>Digital outputs\<close>

text \<open>The output is away from its default: toggling, or at the other level.\<close>

definition away :: "digital_out_s \<Rightarrow> 'a outputs_sys_scheme \<Rightarrow> bool" where
  "away d s \<longleftrightarrow> bit_set (do_flags d) DF_TOGGLING \<or>
     pin_out s (do_pin d) \<noteq> bit_set (do_flags d) DF_DEFAULT_ON"

text \<open>A time that is the end time or before it.\<close>

definition by_end :: "u32 \<Rightarrow> u32 \<Rightarrow> bool" where
  "by_end w et \<longleftrightarrow> w = et \<or> timer_is_before w et"

lemma load_flags_cases:
  assumes "load_flags on d w = (fl, et)"
  shows "bit_set fl DF_TOGGLING \<longleftrightarrow> on \<noteq> 0 \<and> on < cycle_time d" "\<not> bit_set fl DF_DEFAULT_ON"
    "bit_set fl DF_CHECK_END \<longleftrightarrow> do_max_duration d \<noteq> 0 \<and>
       (on \<noteq> 0 \<and> on < cycle_time d \<or> (on \<noteq> 0) \<noteq> bit_set (do_flags d) DF_DEFAULT_ON)"
    "bit_set fl DF_CHECK_END \<Longrightarrow> et = w + do_max_duration d"
  using assms by (auto simp: load_flags_def Let_def df_flags not_le split: if_splits)

lemma load_schedule_ok:
  assumes "load_schedule oid on fl et s = Ret r s'"
  shows "digital_outs s' oid = (digital_outs s oid)\<lparr>on_duration := on_duration (digital_outs s' oid),
      off_duration := off_duration (digital_outs s' oid)\<rparr>"
    "pin_out s' = pin_out s" "bit_set fl DF_CHECK_END \<Longrightarrow> r = SF_RESCHEDULE \<and> by_end (wake s' (out_timer oid)) et"
    "\<not> bit_set fl DF_CHECK_END \<Longrightarrow> \<not> bit_set fl DF_TOGGLING \<Longrightarrow> r = SF_DONE"
  using assms by (auto simp: load_schedule_def Let_def by_end_def split: if_splits)

lemma digital_load_event_safe:
  assumes "digital_load_event oid s = Ret r s'" "do_max_duration (digital_outs s oid) \<noteq> 0"
    "away (digital_outs s' oid) s'"
  shows "r = SF_RESCHEDULE" "bit_set (do_flags (digital_outs s' oid)) DF_CHECK_END"
    "by_end (wake s' (out_timer oid)) (end_time (digital_outs s' oid))"
    "\<not> timer_is_before (wake s (out_timer oid) + do_max_duration (digital_outs s oid))
       (end_time (digital_outs s' oid))"
proof -
  let ?d = "digital_outs s oid" and ?w = "wake s (out_timer oid)"
  obtain mn mq w0 on where pop: "move_queue_pop (do_mq ?d) s = Ret (mn, mq) s"
    "mn_data (move_nodes s mn) = DigitalMove w0 on"
    using assms(1) by (auto simp: digital_load_event_def bnd_eq_Ret move_queue_pop_def Let_def
        split: if_splits option.splits move_data.splits)
  obtain fl et where lf: "load_flags on ?d ?w = (fl, et)" by (cases "load_flags on ?d ?w") auto
  note c = load_flags_cases [OF lf]
  define s1 where "s1 = move_free mn (gpio_out_write (do_pin ?d) (on \<noteq> 0) (upd_do oid (\<lambda>d. d\<lparr>do_mq := mq\<rparr>) s))"
  have s1: "wake s1 (out_timer oid) = ?w" "digital_outs s1 oid = ?d\<lparr>do_mq := mq\<rparr>"
    "pin_out s1 (do_pin ?d) = (on \<noteq> 0)"
    by (simp_all add: s1_def)
  have "\<exists>fl2 et2. load_schedule oid on fl2 et2 (upd_do oid (\<lambda>d. d\<lparr>end_time := et2,
      do_flags := fl2 OR (do_flags d AND DF_DEFAULT_ON)\<rparr>) s1) = Ret r s' \<and>
    ((fl2 = fl \<and> et2 = et) \<or> (fl2 = fl OR DF_CHECK_END \<and> \<not> (bit_set fl DF_CHECK_END \<and> timer_is_before et et2)))"
    using assms(1) pop lf by (auto simp: digital_load_event_def Let_def s1(1) simp flip: s1_def
        split: if_splits option.splits move_data.splits)
  then obtain fl2 et2 where f: "load_schedule oid on fl2 et2 (upd_do oid (\<lambda>d. d\<lparr>end_time := et2,
      do_flags := fl2 OR (do_flags d AND DF_DEFAULT_ON)\<rparr>) s1) = Ret r s'"
    and f2: "(fl2 = fl \<and> et2 = et) \<or> (fl2 = fl OR DF_CHECK_END \<and> \<not> (bit_set fl DF_CHECK_END \<and> timer_is_before et et2))"
    by blast
  note ls = load_schedule_ok [OF f]
  have d': "do_flags (digital_outs s' oid) = fl2 OR (do_flags ?d AND DF_DEFAULT_ON)"
    "end_time (digital_outs s' oid) = et2" "do_pin (digital_outs s' oid) = do_pin ?d"
    using s1(2) by (subst ls(1), simp)+
  have tog: "bit_set fl2 DF_TOGGLING = bit_set fl DF_TOGGLING" "\<not> bit_set fl2 DF_DEFAULT_ON"
    "bit_set fl DF_CHECK_END \<Longrightarrow> bit_set fl2 DF_CHECK_END"
    using f2 c(2) by (auto simp: df_flags)
  have "pin_out s' (do_pin ?d) = (on \<noteq> 0)" using ls(2) s1(3) by simp
  then have away: "bit_set fl DF_TOGGLING \<or> (on \<noteq> 0) \<noteq> bit_set (do_flags ?d) DF_DEFAULT_ON"
    using assms(3) tog(1,2) by (auto simp: away_def d' df_flags)
  then have ce: "bit_set fl DF_CHECK_END" using c(1,3) assms(2) by auto
  then have ce2: "bit_set fl2 DF_CHECK_END" by (rule tog(3))
  then show "r = SF_RESCHEDULE" "by_end (wake s' (out_timer oid)) (end_time (digital_outs s' oid))"
    using ls(3) d' by simp_all
  show "bit_set (do_flags (digital_outs s' oid)) DF_CHECK_END" using ce2 by (simp add: d' df_flags)
  show "\<not> timer_is_before (?w + do_max_duration ?d) (end_time (digital_outs s' oid))"
    using f2 ce c(4) [OF ce] by (auto simp: d')
qed

text \<open>Toggling keeps the end: the timer never runs past it, and at the end the next update loads.\<close>

lemma digital_toggle_event_ok:
  fixes s :: "'a outputs_sys_scheme"
  assumes "bit_set (do_flags (digital_outs s oid)) DF_CHECK_END"
  shows "\<exists>s'. digital_toggle_event oid s = Ret SF_RESCHEDULE s' \<and>
    end_time (digital_outs s' oid) = end_time (digital_outs s oid) \<and>
    bit_set (do_flags (digital_outs s' oid)) DF_CHECK_END \<and>
    by_end (wake s' (out_timer oid)) (end_time (digital_outs s' oid)) \<and>
    pin_out s' = (pin_out s)(do_pin (digital_outs s oid) := \<not> pin_out s (do_pin (digital_outs s oid))) \<and>
    (bit_set (do_flags (digital_outs s' oid)) DF_ON \<longleftrightarrow> \<not> bit_set (do_flags (digital_outs s oid)) DF_ON)"
  using assms by (auto simp: digital_toggle_event_def Let_def by_end_def df_flags)

lemma digital_load_missing:
  "move_queue_empty (do_mq (digital_outs s oid)) \<Longrightarrow>
    digital_load_event oid s = Shut ''Missed scheduling of next digital out event'' s"
  by (simp add: digital_load_event_def Let_def)

section \<open>Shutdown puts outputs to their defaults\<close>

lemma digital_shutdown_body:
  assumes "(\<lambda>oid s. let d = digital_outs s oid; def = bit_set (do_flags d) DF_DEFAULT_ON
       in Ret () (upd_do oid (\<lambda>d. d\<lparr>do_flags := (if def then DF_ON OR DF_DEFAULT_ON else 0),
                                  do_mq := move_queue_clear (do_mq d)\<rparr>)
                   (gpio_out_write (do_pin d) def s))) x s = Ret u s'"
  shows "oids s' = oids s \<and> oid_count s' = oid_count s"
  using assms by (auto simp: Let_def upd_do_def gpio_out_write_def)

definition defaulted :: "'a outputs_sys_scheme \<Rightarrow> digital_out_s \<Rightarrow> u8 \<Rightarrow> bool" where
  "defaulted s d oid \<longleftrightarrow> pin_out s (do_pin d) = bit_set (do_flags d) DF_DEFAULT_ON \<and>
     move_queue_empty (do_mq (digital_outs s oid)) \<and>
     bit_set (do_flags (digital_outs s oid)) DF_DEFAULT_ON = bit_set (do_flags d) DF_DEFAULT_ON"

lemma run_all_defaults:
  assumes "distinct xs" "inj_on (\<lambda>x. do_pin (digital_outs s x)) (set xs)"
  shows "\<exists>s'. run_all (\<lambda>oid s. let d = digital_outs s oid; def = bit_set (do_flags d) DF_DEFAULT_ON
       in Ret () (upd_do oid (\<lambda>d. d\<lparr>do_flags := (if def then DF_ON OR DF_DEFAULT_ON else 0),
                                  do_mq := move_queue_clear (do_mq d)\<rparr>)
                   (gpio_out_write (do_pin d) def s))) xs s = Ret () s' \<and>
    (\<forall>x \<in> set xs. defaulted s' (digital_outs s x) x) \<and>
    (\<forall>x. x \<notin> set xs \<longrightarrow> digital_outs s' x = digital_outs s x) \<and>
    (\<forall>p. (\<forall>x \<in> set xs. p \<noteq> do_pin (digital_outs s x)) \<longrightarrow> pin_out s' p = pin_out s p)"
  using assms
proof (induction xs arbitrary: s)
  case (Cons x xs)
  let ?d = "digital_outs s x" and ?def = "bit_set (do_flags (digital_outs s x)) DF_DEFAULT_ON"
  let ?s = "upd_do x (\<lambda>d. d\<lparr>do_flags := (if ?def then DF_ON OR DF_DEFAULT_ON else 0),
      do_mq := move_queue_clear (do_mq d)\<rparr>) (gpio_out_write (do_pin ?d) ?def s)"
  have same: "digital_outs ?s y = digital_outs s y" if "y \<in> set xs" for y using that Cons.prems(1) by auto
  then have "inj_on (\<lambda>y. do_pin (digital_outs ?s y)) (set xs)" using Cons.prems(2) by (auto simp: inj_on_def)
  from Cons.IH [OF _ this] Cons.prems(1) obtain s' where s': "run_all (\<lambda>oid s. let d = digital_outs s oid;
          def = bit_set (do_flags d) DF_DEFAULT_ON
       in Ret () (upd_do oid (\<lambda>d. d\<lparr>do_flags := (if def then DF_ON OR DF_DEFAULT_ON else 0),
                                  do_mq := move_queue_clear (do_mq d)\<rparr>)
                   (gpio_out_write (do_pin d) def s))) xs ?s = Ret () s'"
    "\<forall>y \<in> set xs. defaulted s' (digital_outs ?s y) y"
    "\<forall>y. y \<notin> set xs \<longrightarrow> digital_outs s' y = digital_outs ?s y"
    "\<forall>p. (\<forall>y \<in> set xs. p \<noteq> do_pin (digital_outs ?s y)) \<longrightarrow> pin_out s' p = pin_out ?s p" by auto
  have x: "x \<notin> set xs" "\<forall>y \<in> set xs. do_pin ?d \<noteq> do_pin (digital_outs s y)"
    using Cons.prems by (auto simp: inj_on_def)
  have "pin_out s' (do_pin ?d) = pin_out ?s (do_pin ?d)" using s'(4) x(2) same by simp
  moreover have "digital_outs s' x = digital_outs ?s x" using s'(3) x(1) by simp
  ultimately have "defaulted s' ?d x"
    by (simp add: defaulted_def move_queue_clear_def move_queue_empty_def df_flags)
  moreover have "defaulted s' (digital_outs s y) y" if "y \<in> set xs" for y
    using bspec [OF s'(2) that] unfolding same [OF that] .
  moreover have "pin_out s' p = pin_out s p" if "\<forall>y \<in> set (x # xs). p \<noteq> do_pin (digital_outs s y)" for p
    using s'(4) that same by simp
  ultimately show ?case using s'(1,3) by (simp add: Let_def)
qed simp

lemma digital_out_shutdown_ok:
  assumes "oids_ok s" "inj_on (\<lambda>x. do_pin (digital_outs s x)) (of_nat ` set (oids_of T_digital_out s))"
  shows "\<exists>s'. digital_out_shutdown s = Ret () s' \<and>
    (\<forall>j \<in> set (oids_of T_digital_out s). defaulted s' (digital_outs s (of_nat j)) (of_nat j))"
  using run_all_defaults [of "map of_nat (oids_of T_digital_out s)" s] assms(2)
    foreach_oid_run [OF digital_shutdown_body assms(1)] oids_of_distinct [of T_digital_out s]
  unfolding digital_out_shutdown_def by auto

section \<open>Hardware pwm\<close>

text \<open>
  After an update away from the default value either the next update or the shutdown of
  \<open>pwm_end_event\<close> comes no later than \<open>max_duration\<close> after it.
\<close>

lemma pwm_event_safe:
  assumes "pwm_event oid s = Ret r s'" "po_max_duration (pwm_outs s oid) \<noteq> 0"
    "pwm_level s' (po_pin (pwm_outs s oid)) \<noteq> default_value (pwm_outs s oid)"
  shows "r = SF_RESCHEDULE \<and>
    \<not> timer_is_before (wake s (out_timer oid) + po_max_duration (pwm_outs s oid)) (wake s' (out_timer oid)) \<and>
    (move_queue_empty (po_mq (pwm_outs s' oid)) \<longrightarrow>
       t_func (timers s' (out_timer oid)) = Some Fn_pwm_end_event)"
  using assms by (auto simp: pwm_event_def bnd_eq_Ret move_queue_pop_def Let_def move_queue_first_def
      move_queue_empty_def split: if_splits option.splits move_data.splits)

end
