(* ===== verification/Inputs.thy ===== *)
theory Inputs
  imports Move_Pool
begin

text \<open>
  Sampled inputs: analog inputs (\<open>klipper/src/adccmds.c\<close>), debounced buttons
  (\<open>klipper/src/buttons.c\<close>) and pulse counters (\<open>klipper/src/pulse_counter.c\<close>). Values read
  from the hardware are arguments of the events.
\<close>

section \<open>State\<close>

record analog_in =
  ai_rest_time :: u32
  ai_sample_time :: u32
  next_begin_time :: u32
  ai_value :: u16
  min_value :: u16
  max_value :: u16
  ai_pin :: u32
  invalid_count :: u8
  range_check_count :: u8
  ai_state :: u8
  ai_sample_count :: u8

text \<open>\<open>reports\<close> is the array of 8 bytes; \<open>bt_pins\<close> has \<open>button_count\<close> entries.\<close>

record buttons =
  rest_ticks :: u32
  pressed :: u8
  last_pressed :: u8
  report_count :: u8
  reports :: "u8 list"
  ack_count :: u8
  retransmit_state :: u8
  retransmit_count :: u8
  button_count :: u8
  bt_pins :: "u32 list"

record counter =
  poll_ticks :: u32
  ct_sample_ticks :: u32
  next_sample_time :: u32
  ct_count :: u32
  last_count_time :: u32
  ct_flags :: u8
  ct_pin :: u32

record inputs_sys = mcu +
  analog_ins :: "u8 \<Rightarrow> analog_in"
  analog_wake :: u8
  button_sets :: "u8 \<Rightarrow> buttons"
  buttons_wake :: u8
  counters :: "u8 \<Rightarrow> counter"
  counter_wake :: u8

definition BF_NO_RETRANSMIT :: u8 where "BF_NO_RETRANSMIT = 0x80"
definition BF_PENDING :: u8 where "BF_PENDING = 0xff"
definition BF_ACKED :: u8 where "BF_ACKED = 0xfe"
definition CF_PENDING :: u8 where "CF_PENDING = 1"

definition analog_in_zero :: analog_in where
  "analog_in_zero = \<lparr>ai_rest_time = 0, ai_sample_time = 0, next_begin_time = 0, ai_value = 0,
     min_value = 0, max_value = 0, ai_pin = 0, invalid_count = 0, range_check_count = 0,
     ai_state = 0, ai_sample_count = 0\<rparr>"

definition buttons_zero :: "u8 \<Rightarrow> buttons" where
  "buttons_zero n = \<lparr>rest_ticks = 0, pressed = 0, last_pressed = 0, report_count = 0,
     reports = replicate 8 0, ack_count = 0, retransmit_state = 0, retransmit_count = 0,
     button_count = n, bt_pins = replicate (unat n) 0\<rparr>"

definition counter_zero :: counter where
  "counter_zero = \<lparr>poll_ticks = 0, ct_sample_ticks = 0, next_sample_time = 0, ct_count = 0,
     last_count_time = 0, ct_flags = 0, ct_pin = 0\<rparr>"

abbreviation in_timer :: "u8 \<Rightarrow> tid" where "in_timer oid \<equiv> TObj (unat oid) 0"

definition upd_ai :: "u8 \<Rightarrow> (analog_in \<Rightarrow> analog_in) \<Rightarrow> 'a inputs_sys_scheme \<Rightarrow> 'a inputs_sys_scheme" where
  "upd_ai oid f s = s\<lparr>analog_ins := (analog_ins s)(oid := f (analog_ins s oid))\<rparr>"

definition upd_bt :: "u8 \<Rightarrow> (buttons \<Rightarrow> buttons) \<Rightarrow> 'a inputs_sys_scheme \<Rightarrow> 'a inputs_sys_scheme" where
  "upd_bt oid f s = s\<lparr>button_sets := (button_sets s)(oid := f (button_sets s oid))\<rparr>"

definition upd_ct :: "u8 \<Rightarrow> (counter \<Rightarrow> counter) \<Rightarrow> 'a inputs_sys_scheme \<Rightarrow> 'a inputs_sys_scheme" where
  "upd_ct oid f s = s\<lparr>counters := (counters s)(oid := f (counters s oid))\<rparr>"

definition wake_analog :: "'a inputs_sys_scheme \<Rightarrow> 'a inputs_sys_scheme" where
  "wake_analog s = sched_wake_task (\<lambda>f s. s\<lparr>analog_wake := f (analog_wake s)\<rparr>) s"

definition wake_buttons :: "'a inputs_sys_scheme \<Rightarrow> 'a inputs_sys_scheme" where
  "wake_buttons s = sched_wake_task (\<lambda>f s. s\<lparr>buttons_wake := f (buttons_wake s)\<rparr>) s"

definition wake_counter :: "'a inputs_sys_scheme \<Rightarrow> 'a inputs_sys_scheme" where
  "wake_counter s = sched_wake_task (\<lambda>f s. s\<lparr>counter_wake := f (counter_wake s)\<rparr>) s"

section \<open>Analog inputs\<close>

text \<open>
  \<open>delay\<close> is what \<open>gpio_adc_sample\<close> returns (0 when a sample is ready), \<open>v\<close> what
  \<open>gpio_adc_read\<close> returns.
\<close>

text \<open>The range check of a completed measurement.\<close>

definition analog_range_check :: "u8 \<Rightarrow> 'a inputs_sys_scheme \<Rightarrow> ('a inputs_sys_scheme, unit) res" where
  "analog_range_check oid s =
     (let a = analog_ins s oid
      in if ai_value a \<ge> min_value a \<and> ai_value a \<le> max_value a then
           Ret () (upd_ai oid (\<lambda>a. a\<lparr>invalid_count := 0\<rparr>) s)
         else
           (let s1 = upd_ai oid (\<lambda>a. a\<lparr>invalid_count := invalid_count a + 1\<rparr>) s
            in if invalid_count (analog_ins s1 oid) \<ge> range_check_count a then
                 andthen (sched_try_shutdown ''ADC out of range'' s1)
                   (\<lambda>s. Ret () (upd_ai oid (\<lambda>a. a\<lparr>invalid_count := 0\<rparr>) s))
               else Ret () s1))"

definition analog_in_event :: "u32 \<Rightarrow> u16 \<Rightarrow> u8 \<Rightarrow> 'a inputs_sys_scheme \<Rightarrow> ('a inputs_sys_scheme, sf) res" where
  "analog_in_event delay v oid s =
     (if delay \<noteq> 0 then Ret SF_RESCHEDULE (set_wake (in_timer oid) (wake s (in_timer oid) + delay) s)
      else
        (let a = analog_ins s oid;
             (state, val) = (if ai_state a \<ge> ai_sample_count a then (0, v) else (ai_state a, v + ai_value a));
             s1 = upd_ai oid (\<lambda>a. a\<lparr>ai_value := val, ai_state := state + 1\<rparr>) s
         in if ai_state (analog_ins s1 oid) < ai_sample_count a then
              Ret SF_RESCHEDULE (set_wake (in_timer oid) (wake s1 (in_timer oid) + ai_sample_time a) s1)
            else
              andthen (analog_range_check oid s1) (\<lambda>s.
                let s2 = upd_ai oid (\<lambda>a. a\<lparr>next_begin_time := next_begin_time a + ai_rest_time a\<rparr>)
                           (wake_analog s)
                in Ret SF_RESCHEDULE (set_wake (in_timer oid) (next_begin_time (analog_ins s2 oid)) s2))))"

definition command_config_analog_in ::
    "board \<Rightarrow> nat \<Rightarrow> u32 list \<Rightarrow> 'a inputs_sys_scheme \<Rightarrow> ('a inputs_sys_scheme, unit) res" where
  "command_config_analog_in bd sz args s =
     (let oid = ucast (args ! 0)
      in if \<not> adc_pin_ok bd (args ! 1) then Shut ''Not a valid ADC pin'' s
         else bnd (oid_alloc bd oid T_analog_in sz s) (\<lambda>_ s.
           Ret () (set_func (in_timer oid) (Some Fn_analog_in_event) (clear_timer (in_timer oid)
             (upd_ai oid (\<lambda>_. analog_in_zero\<lparr>ai_pin := args ! 1, ai_state := 1\<rparr>) s)))))"

definition command_query_analog_in ::
    "u32 \<Rightarrow> u32 \<Rightarrow> u32 list \<Rightarrow> 'a inputs_sys_scheme \<Rightarrow> ('a inputs_sys_scheme, unit) res" where
  "command_query_analog_in now1 now2 args s =
     (let oid = ucast (args ! 0)
      in with_oid oid T_analog_in (\<lambda>s.
         andthen (sched_del_timer (in_timer oid) s) (\<lambda>s.
           let s1 = set_wake (in_timer oid) (args ! 1) s;
               n = ucast (args ! 3);
               s2 = upd_ai oid (\<lambda>a. a\<lparr>next_begin_time := args ! 1, ai_sample_time := args ! 2,
                      ai_sample_count := n, ai_state := n + 1, ai_rest_time := args ! 4,
                      min_value := ucast (args ! 5), max_value := ucast (args ! 6),
                      range_check_count := ucast (args ! 7)\<rparr>) s1
           in if n = 0 then Ret () s2 else sched_add_timer now1 now2 (in_timer oid) s2)) s)"

definition analog_in_task :: "'a inputs_sys_scheme \<Rightarrow> ('a inputs_sys_scheme, unit) res" where
  "analog_in_task s =
     (case sched_check_wake analog_wake (\<lambda>f s. s\<lparr>analog_wake := f (analog_wake s)\<rparr>) s of
        (False, s) \<Rightarrow> Ret () s
      | (True, s) \<Rightarrow>
          foreach_oid T_analog_in (\<lambda>oid s.
            let a = analog_ins s oid
            in if ai_state a \<noteq> ai_sample_count a then Ret () s
               else Ret () (sendf ''analog_in_state'' [RInt (ucast oid), RInt (next_begin_time a),
                      RInt (ucast (ai_value a))] (upd_ai oid (\<lambda>a. a\<lparr>ai_state := ai_state a + 1\<rparr>) s))) s)"

text \<open>\<open>clk oid\<close> are the clock reads of the timer that is started again.\<close>

definition analog_in_shutdown ::
    "(u8 \<Rightarrow> u32 \<times> u32) \<Rightarrow> 'a inputs_sys_scheme \<Rightarrow> ('a inputs_sys_scheme, unit) res" where
  "analog_in_shutdown clk s =
     foreach_oid T_analog_in (\<lambda>oid s.
       let a = analog_ins s oid
       in if ai_sample_count a \<noteq> 0 then
            (let nbt = next_begin_time a + ai_rest_time a
             in sched_add_timer (fst (clk oid)) (snd (clk oid)) (in_timer oid)
                  (set_wake (in_timer oid) nbt
                    (upd_ai oid (\<lambda>a. a\<lparr>ai_state := ai_sample_count a + 1, next_begin_time := nbt\<rparr>) s)))
          else Ret () s) s"

section \<open>Buttons\<close>

text \<open>The byte read from the pins, \<open>vals\<close> in the order of the pins, at most 8.\<close>

fun read_status :: "bool list \<Rightarrow> u8 \<Rightarrow> u8 \<Rightarrow> u8" where
  "read_status [] b status = status"
| "read_status (v # vs) b status = read_status vs (push_bit 1 b) (if v then status OR b else status)"

text \<open>The debouncing part of \<open>buttons_event\<close>.\<close>

definition buttons_debounce :: "u8 \<Rightarrow> u8 \<Rightarrow> 'a inputs_sys_scheme \<Rightarrow> 'a inputs_sys_scheme" where
  "buttons_debounce status oid s =
     (let b = button_sets s oid;
          diff = status XOR pressed b;
          debounced = NOT (status XOR last_pressed b)
      in if diff \<noteq> 0 \<and> diff AND debounced \<noteq> 0 then
           (let p = (pressed b AND NOT debounced) OR (status AND debounced);
                s1 = upd_bt oid (\<lambda>b. b\<lparr>pressed := p\<rparr>) s
            in if report_count b < 8 then
                 upd_bt oid (\<lambda>b. b\<lparr>retransmit_state := BF_PENDING\<rparr>)
                   (wake_buttons (upd_bt oid (\<lambda>b. b\<lparr>reports := (reports b)[unat (report_count b) := p],
                      report_count := report_count b + 1\<rparr>) s1))
               else s1)
         else s)"

definition buttons_event :: "bool list \<Rightarrow> u8 \<Rightarrow> 'a inputs_sys_scheme \<Rightarrow> ('a inputs_sys_scheme, sf) res" where
  "buttons_event vals oid s =
     (let status = read_status (take (unat (button_count (button_sets s oid))) vals) 1 0;
          s1 = upd_bt oid (\<lambda>b. b\<lparr>last_pressed := status\<rparr>) (buttons_debounce status oid s);
          rs = retransmit_state (button_sets s1 oid);
          s2 = (if \<not> bit_set rs BF_NO_RETRANSMIT then
                  upd_bt oid (\<lambda>b. b\<lparr>retransmit_state := rs - 1\<rparr>)
                    (if bit_set (rs - 1) BF_NO_RETRANSMIT then wake_buttons s1 else s1)
                else s1)
      in Ret SF_RESCHEDULE
           (set_wake (in_timer oid) (wake s2 (in_timer oid) + rest_ticks (button_sets s2 oid)) s2))"

text \<open>\<open>psz\<close> is \<open>sizeof(struct gpio_in)\<close>.\<close>

definition command_config_buttons ::
    "board \<Rightarrow> nat \<Rightarrow> nat \<Rightarrow> u32 list \<Rightarrow> 'a inputs_sys_scheme \<Rightarrow> ('a inputs_sys_scheme, unit) res" where
  "command_config_buttons bd sz psz args s =
     (let oid = ucast (args ! 0); n = ucast (args ! 1) :: u8
      in if n > 8 then Shut ''Max of 8 buttons'' s
         else bnd (oid_alloc bd oid T_buttons (sz + psz * unat n) s) (\<lambda>_ s.
           Ret () (set_func (in_timer oid) (Some Fn_buttons_event) (clear_timer (in_timer oid)
             (upd_bt oid (\<lambda>_. buttons_zero n) s)))))"

definition command_buttons_add ::
    "board \<Rightarrow> u32 list \<Rightarrow> 'a inputs_sys_scheme \<Rightarrow> ('a inputs_sys_scheme, unit) res" where
  "command_buttons_add bd args s =
     (let oid = ucast (args ! 0); pos = ucast (args ! 1) :: u8
      in with_oid oid T_buttons (\<lambda>s.
           if pos \<ge> button_count (button_sets s oid)
           then Shut ''Set button past maximum button count'' s
           else bnd (gpio_in_setup bd (args ! 2) s) (\<lambda>pin s.
             Ret () (upd_bt oid (\<lambda>b. b\<lparr>bt_pins := (bt_pins b)[unat pos := pin]\<rparr>) s))) s)"

definition command_buttons_query ::
    "u32 \<Rightarrow> u32 \<Rightarrow> u32 list \<Rightarrow> 'a inputs_sys_scheme \<Rightarrow> ('a inputs_sys_scheme, unit) res" where
  "command_buttons_query now1 now2 args s =
     (let oid = ucast (args ! 0)
      in with_oid oid T_buttons (\<lambda>s.
         andthen (sched_del_timer (in_timer oid) s) (\<lambda>s.
           let s1 = set_wake (in_timer oid) (args ! 1) s;
               s2 = upd_bt oid (\<lambda>b. b\<lparr>rest_ticks := args ! 2, pressed := ucast (args ! 4),
                      last_pressed := ucast (args ! 4), ack_count := 0, report_count := 0,
                      retransmit_state := BF_ACKED, retransmit_count := ucast (args ! 3)\<rparr>) s1
           in if retransmit_count (button_sets s2 oid) \<ge> BF_NO_RETRANSMIT
              then Shut ''Invalid buttons retransmit count'' s2
              else if rest_ticks (button_sets s2 oid) = 0 then Ret () s2
              else sched_add_timer now1 now2 (in_timer oid) s2)) s)"

text \<open>The copy loop moves the remaining reports to the front of the array.\<close>

definition command_buttons_ack :: "u32 list \<Rightarrow> 'a inputs_sys_scheme \<Rightarrow> ('a inputs_sys_scheme, unit) res" where
  "command_buttons_ack args s =
     (let oid = ucast (args ! 0); cnt = ucast (args ! 1) :: u8
      in with_oid oid T_buttons (\<lambda>s.
         let s1 = upd_bt oid (\<lambda>b. b\<lparr>ack_count := ack_count b + cnt\<rparr>) s
         in Ret ()
              (if cnt \<ge> report_count (button_sets s1 oid) then
                 upd_bt oid (\<lambda>b. b\<lparr>report_count := 0, retransmit_state := BF_ACKED\<rparr>) s1
               else
                 upd_bt oid (\<lambda>b.
                   let pending = report_count b - cnt
                   in b\<lparr>reports := blit (reports b) 0 (take (unat pending) (drop (unat cnt) (reports b))),
                        report_count := pending\<rparr>) s1)) s)"

definition buttons_task :: "'a inputs_sys_scheme \<Rightarrow> ('a inputs_sys_scheme, unit) res" where
  "buttons_task s =
     (case sched_check_wake buttons_wake (\<lambda>f s. s\<lparr>buttons_wake := f (buttons_wake s)\<rparr>) s of
        (False, s) \<Rightarrow> Ret () s
      | (True, s) \<Rightarrow>
          foreach_oid T_buttons (\<lambda>oid s.
            let b = button_sets s oid
            in if retransmit_state b \<noteq> BF_PENDING \<or> report_count b = 0 then Ret () s
               else Ret () (sendf ''buttons_state'' [RInt (ucast oid), RInt (ucast (ack_count b)),
                      RBytes (take (unat (report_count b)) (reports b))]
                      (upd_bt oid (\<lambda>b. b\<lparr>retransmit_state := retransmit_count b\<rparr>) s))) s)"

section \<open>Pulse counters\<close>

definition counter_event :: "bool \<Rightarrow> u8 \<Rightarrow> 'a inputs_sys_scheme \<Rightarrow> ('a inputs_sys_scheme, sf) res" where
  "counter_event val oid s =
     (let time = wake s (in_timer oid);
          c = counters s oid;
          s1 = (if bit_set (ct_count c) 1 \<noteq> val
                then upd_ct oid (\<lambda>c. c\<lparr>ct_count := ct_count c + 1, last_count_time := time\<rparr>) s
                else s);
          s2 = (if timer_is_before (next_sample_time c) time then
                  wake_counter (upd_ct oid (\<lambda>c. c\<lparr>ct_flags := ct_flags c OR CF_PENDING,
                    next_sample_time := time + ct_sample_ticks c\<rparr>) s1)
                else s1)
      in Ret SF_RESCHEDULE (set_wake (in_timer oid) (wake s2 (in_timer oid) + poll_ticks c) s2))"

definition command_config_counter ::
    "board \<Rightarrow> nat \<Rightarrow> u32 list \<Rightarrow> 'a inputs_sys_scheme \<Rightarrow> ('a inputs_sys_scheme, unit) res" where
  "command_config_counter bd sz args s =
     (let oid = ucast (args ! 0)
      in bnd (oid_alloc bd oid T_counter sz s) (\<lambda>_ s.
         bnd (gpio_in_setup bd (args ! 1)
                (clear_timer (in_timer oid) (upd_ct oid (\<lambda>_. counter_zero) s))) (\<lambda>pin s.
           Ret () (set_func (in_timer oid) (Some Fn_counter_event)
             (upd_ct oid (\<lambda>c. c\<lparr>ct_pin := pin\<rparr>) s)))))"

definition command_query_counter ::
    "u32 \<Rightarrow> u32 \<Rightarrow> u32 list \<Rightarrow> 'a inputs_sys_scheme \<Rightarrow> ('a inputs_sys_scheme, unit) res" where
  "command_query_counter now1 now2 args s =
     (let oid = ucast (args ! 0)
      in with_oid oid T_counter (\<lambda>s.
         andthen (sched_del_timer (in_timer oid) s) (\<lambda>s.
           sched_add_timer now1 now2 (in_timer oid)
             (upd_ct oid (\<lambda>c. c\<lparr>poll_ticks := args ! 2, ct_sample_ticks := args ! 3,
                next_sample_time := args ! 1\<rparr>) (set_wake (in_timer oid) (args ! 1) s)))) s)"

definition counter_task :: "'a inputs_sys_scheme \<Rightarrow> ('a inputs_sys_scheme, unit) res" where
  "counter_task s =
     (case sched_check_wake counter_wake (\<lambda>f s. s\<lparr>counter_wake := f (counter_wake s)\<rparr>) s of
        (False, s) \<Rightarrow> Ret () s
      | (True, s) \<Rightarrow>
          foreach_oid T_counter (\<lambda>oid s.
            let c = counters s oid
            in if \<not> bit_set (ct_flags c) CF_PENDING then Ret () s
               else Ret () (sendf ''counter_state'' [RInt (ucast oid), RInt (wake s (in_timer oid)),
                      RInt (ct_count c), RInt (last_count_time c)]
                      (upd_ct oid (\<lambda>c. c\<lparr>ct_flags := ct_flags c AND NOT CF_PENDING\<rparr>) s))) s)"

end
