(* ===== verification/Input_Props.thy ===== *)
theory Input_Props
  imports Inputs
begin

text \<open>
  Properties of the sampled inputs: a button changes only when two readings in a row agree, the
  reports form a queue that the host empties by acknowledging, a measurement is the sum of its
  samples, too many measurements out of range stop the firmware, and a counter counts edges.
\<close>

section \<open>State updates\<close>

lemma inputs_updates [simp]:
  "button_sets (upd_bt oid f s) = (button_sets s)(oid := f (button_sets s oid))"
  "button_sets (wake_buttons s) = button_sets s" "button_sets (set_wake t w s) = button_sets s"
  "timers (upd_bt oid f s) = timers s"
  "analog_ins (upd_ai oid g s) = (analog_ins s)(oid := g (analog_ins s oid))"
  "analog_ins (wake_analog s) = analog_ins s" "analog_ins (set_wake t w s) = analog_ins s"
  "timers (upd_ai oid g s) = timers s" "timers (wake_analog s) = timers s"
  "counters (upd_ct oid h s) = (counters s)(oid := h (counters s oid))"
  "counters (wake_counter s) = counters s" "counters (set_wake t w s) = counters s"
  "timers (upd_ct oid h s) = timers s" "timers (wake_counter s) = timers s"
  "timers (wake_buttons s) = timers s" "shutdown_status (upd_ai oid g s) = shutdown_status s"
  "shutdown_status (set_wake t w s) = shutdown_status s"
  by (simp_all add: upd_bt_def upd_ai_def upd_ct_def wake_buttons_def wake_analog_def wake_counter_def
      sched_wake_task_def sched_wake_tasks_def set_wake_def)

section \<open>Buttons\<close>

text \<open>The status byte has bit \<open>i\<close> set if pin \<open>i\<close> reads high.\<close>

lemma read_status_bits:
  "k + length vs \<le> 8 \<Longrightarrow>
    bit (read_status vs (push_bit k 1) st) i \<longleftrightarrow> bit st i \<or> (k \<le> i \<and> i < k + length vs \<and> vs ! (i - k))"
proof (induction vs arbitrary: k st)
  case (Cons v vs)
  have p: "push_bit 1 (push_bit k 1 :: u8) = push_bit (Suc k) 1" by simp
  have b: "bit (push_bit k 1 :: u8) i \<longleftrightarrow> i = k" using Cons.prems
    by (auto simp: bit_exp_word)
  have e: "read_status (v # vs) (push_bit k 1) st =
      read_status vs (push_bit (Suc k) 1) (if v then st OR push_bit k 1 else st)"
    by (simp only: read_status.simps p)
  have "bit (read_status (v # vs) (push_bit k 1) st) i \<longleftrightarrow>
      bit (if v then st OR push_bit k 1 else st) i \<or> (Suc k \<le> i \<and> i < Suc k + length vs \<and> vs ! (i - Suc k))"
    unfolding e by (rule Cons.IH) (use Cons.prems in simp)
  also have "\<dots> \<longleftrightarrow> bit st i \<or> (k \<le> i \<and> i < k + length (v # vs) \<and> (v # vs) ! (i - k))"
    using b by (cases "i = k") (auto simp: bit_or_iff Suc_le_eq nth_Cons' split: if_splits)
  finally show ?case .
qed auto

text \<open>The debounced value: a bit follows the pin when the last two readings agree.\<close>

lemma buttons_debounce_bits:
  assumes "i < 8"
  shows "bit (pressed (button_sets (buttons_debounce status oid s) oid)) i \<longleftrightarrow>
    (let b = button_sets s oid
     in if bit status i = bit (last_pressed b) i then bit status i else bit (pressed b) i)"
proof (cases "status XOR pressed (button_sets s oid) \<noteq> 0 \<and>
    (status XOR pressed (button_sets s oid)) AND NOT (status XOR last_pressed (button_sets s oid)) \<noteq> 0")
  case True
  then show ?thesis using assms by (auto simp: buttons_debounce_def Let_def flag_bits)
next
  case False
  then have "(status XOR pressed (button_sets s oid)) AND NOT (status XOR last_pressed (button_sets s oid)) = 0"
    by auto
  then have "\<not> bit ((status XOR pressed (button_sets s oid)) AND NOT (status XOR last_pressed (button_sets s oid))) i"
    by simp
  then have "bit (pressed (button_sets s oid)) i =
      (if bit status i = bit (last_pressed (button_sets s oid)) i then bit status i
       else bit (pressed (button_sets s oid)) i)"
    using assms by (auto simp: flag_bits)
  moreover have "buttons_debounce status oid s = s"
    unfolding buttons_debounce_def Let_def by (rule if_not_P [OF False])
  ultimately show ?thesis by (simp add: Let_def)
qed

text \<open>
  \<open>bt_inv oid hist k s\<close>: \<open>hist\<close> are all reports since the query, of which \<open>k\<close> have been
  acknowledged; the array holds the others.
\<close>

definition unacked :: "buttons \<Rightarrow> u8 list" where
  "unacked b = take (unat (report_count b)) (reports b)"

definition bt_inv :: "u8 \<Rightarrow> u8 list \<Rightarrow> nat \<Rightarrow> 'a inputs_sys_scheme \<Rightarrow> bool" where
  "bt_inv oid hist k s \<longleftrightarrow> (let b = button_sets s oid
     in length (reports b) = 8 \<and> unat (report_count b) \<le> 8 \<and> k \<le> length hist \<and>
        unacked b = drop k hist \<and> ack_count b = of_nat k)"

lemma buttons_event_inv:
  assumes "bt_inv oid hist k s"
  shows "\<exists>s' hist'. buttons_event vals oid s = Ret SF_RESCHEDULE s' \<and> bt_inv oid hist' k s' \<and>
    (hist' = hist \<or> hist' = hist @ [pressed (button_sets s' oid)])"
proof -
  let ?b = "button_sets s oid"
  define status where "status = read_status (take (unat (button_count ?b)) vals) 1 0"
  let ?s1 = "buttons_debounce status oid s"
  have 1: "bt_inv oid hist k ?s1 \<or> bt_inv oid (hist @ [pressed (button_sets ?s1 oid)]) k ?s1"
  proof (cases "report_count ?b < 8")
    case False
    then show ?thesis using assms by (auto simp: buttons_debounce_def Let_def bt_inv_def unacked_def)
  next
    case True
    then have lt: "unat (report_count ?b) < 8" by (simp add: word_less_nat_alt)
    have suc: "unat (report_count ?b + 1) = Suc (unat (report_count ?b))"
      using lt by (intro unat_inc) simp
    have "take (Suc (unat (report_count ?b))) ((reports ?b)[unat (report_count ?b) := p]) = unacked ?b @ [p]" for p
      using assms lt by (simp add: bt_inv_def Let_def unacked_def take_Suc_conv_app_nth)
    then show ?thesis
      using assms lt suc by (auto simp: buttons_debounce_def Let_def bt_inv_def unacked_def)
  qed
  obtain s2 where 2: "buttons_event vals oid s = Ret SF_RESCHEDULE s2"
    "reports (button_sets s2 oid) = reports (button_sets ?s1 oid)"
    "report_count (button_sets s2 oid) = report_count (button_sets ?s1 oid)"
    "ack_count (button_sets s2 oid) = ack_count (button_sets ?s1 oid)"
    "pressed (button_sets s2 oid) = pressed (button_sets ?s1 oid)"
    by (simp add: buttons_event_def status_def [symmetric] Let_def)
  have "bt_inv oid h k s2 = bt_inv oid h k ?s1" for h by (simp add: bt_inv_def unacked_def Let_def 2)
  with 1 2 show ?thesis by metis
qed


lemma buttons_ack_inv:
  fixes cnt :: u8
  assumes inv: "bt_inv oid hist k s" and oid: "oids_ok s" "holds s oid = Some (T_buttons, d)"
    and cnt: "unat cnt \<le> unat (report_count (button_sets s oid))"
  shows "\<exists>s'. command_buttons_ack [ucast oid, ucast cnt] s = Ret () s' \<and> bt_inv oid hist (k + unat cnt) s'"
proof -
  let ?b = "button_sets s oid"
  have rc: "unat (report_count ?b) \<le> 8" "length (reports ?b) = 8" "unacked ?b = drop k hist" "k \<le> length hist"
    "ack_count ?b = of_nat k"
    using inv by (simp_all add: bt_inv_def Let_def)
  have len: "length hist = k + unat (report_count ?b)"
  proof -
    have "length (unacked ?b) = length hist - k" by (simp add: rc(3))
    moreover have "length (unacked ?b) = unat (report_count ?b)" using rc(1,2) by (simp add: unacked_def)
    ultimately show ?thesis using rc(4) by simp
  qed
  have ack: "ack_count ?b + cnt = of_nat (k + unat cnt)" using rc(5) by simp
  show ?thesis
  proof (cases "cnt \<ge> report_count ?b")
    case True
    then have "unat cnt = unat (report_count ?b)" using cnt by (simp add: word_le_nat_alt)
    with True show ?thesis
      using oid rc len ack by (auto simp: command_buttons_ack_def with_oid_eq Let_def bt_inv_def unacked_def)
  next
    case False
    then have lt: "unat cnt < unat (report_count ?b)" by (simp add: word_less_nat_alt not_le)
    then have sub: "unat (report_count ?b - cnt) = unat (report_count ?b) - unat cnt"
      by (simp add: unat_minus_wrap)
    have "take (unat (report_count ?b) - unat cnt)
        (blit (reports ?b) 0 (take (unat (report_count ?b) - unat cnt) (drop (unat cnt) (reports ?b)))) =
      drop (unat cnt) (unacked ?b)"
      using rc(1,2) lt by (simp add: blit_def unacked_def drop_take)
    also have "\<dots> = drop (k + unat cnt) hist" by (simp add: rc(3) add.commute)
    finally have un: "take (unat (report_count ?b) - unat cnt)
        (blit (reports ?b) 0 (take (unat (report_count ?b) - unat cnt) (drop (unat cnt) (reports ?b)))) =
      drop (k + unat cnt) hist" .
    let ?f = "\<lambda>b. let pending = report_count b - cnt
      in b\<lparr>reports := blit (reports b) 0 (take (unat pending) (drop (unat cnt) (reports b))), report_count := pending\<rparr>"
    let ?s = "upd_bt oid ?f (upd_bt oid (\<lambda>b. b\<lparr>ack_count := ack_count b + cnt\<rparr>) s)"
    have "command_buttons_ack [ucast oid, ucast cnt] s = Ret () ?s"
      using False oid by (simp add: command_buttons_ack_def with_oid_eq Let_def)
    moreover have "unat (report_count ?b) - unat cnt \<le> 8" "k + unat cnt \<le> length hist"
      using rc lt len by simp_all
    then have "bt_inv oid hist (k + unat cnt) ?s"
      unfolding bt_inv_def unacked_def using rc(2) lt
      by (simp add: Let_def sub un ack del: of_nat_add take_blit)
    ultimately show ?thesis by blast
  qed
qed

section \<open>Analog inputs\<close>

text \<open>
  \<open>an_inv oid n vs s\<close>: of the \<open>n\<close> samples of a measurement the values \<open>vs\<close> have been read.
\<close>

definition an_inv :: "u8 \<Rightarrow> nat \<Rightarrow> u16 list \<Rightarrow> 'a inputs_sys_scheme \<Rightarrow> bool" where
  "an_inv oid n vs s \<longleftrightarrow> (let a = analog_ins s oid
     in unat (ai_sample_count a) = n \<and>
        (if vs = [] then n \<le> unat (ai_state a)
         else unat (ai_state a) = length vs \<and> ai_value a = sum_list vs \<and> length vs \<le> n))"

lemma analog_state_step:
  assumes "an_inv oid n vs s" "length vs < n" "n < 256"
  defines "a \<equiv> analog_ins s oid"
  shows "(if ai_state a \<ge> ai_sample_count a then (0, v) else (ai_state a, v + ai_value a)) =
    (of_nat (length vs), sum_list (vs @ [v]))"
proof (cases "vs = []")
  case True
  then show ?thesis using assms by (simp add: an_inv_def Let_def word_le_nat_alt)
next
  case False
  then have "unat (ai_state a) = length vs" "ai_value a = sum_list vs" "unat (ai_sample_count a) = n"
    using assms by (simp_all add: an_inv_def Let_def)
  moreover have "ai_state a = of_nat (length vs)"
  proof -
    have "of_nat (unat (ai_state a)) = (of_nat (length vs) :: u8)" by (simp only: calculation(1))
    then show ?thesis by simp
  qed
  ultimately show ?thesis using assms(2) by (simp add: word_le_nat_alt add.commute)
qed

lemma analog_sample:
  assumes "an_inv oid n vs s" "Suc (length vs) < n" "n < 256"
  shows "\<exists>s'. analog_in_event 0 v oid s = Ret SF_RESCHEDULE s' \<and> an_inv oid n (vs @ [v]) s' \<and>
    wake s' (in_timer oid) = wake s (in_timer oid) + ai_sample_time (analog_ins s oid) \<and>
    shutdown_status s' = shutdown_status s \<and>
    (analog_ins s' oid)\<lparr>ai_value := 0, ai_state := 0\<rparr> = (analog_ins s oid)\<lparr>ai_value := 0, ai_state := 0\<rparr>"
proof -
  have l: "length vs < n" using assms(2) by simp
  have u: "unat (of_nat (length vs) + 1 :: u8) = Suc (length vs)"
  proof -
    have "unat (of_nat (length vs) :: u8) = length vs" using assms by (intro unat_of_nat_small) simp
    then show ?thesis using assms by (subst unat_inc) simp_all
  qed
  have n: "unat (ai_sample_count (analog_ins s oid)) = n" using assms(1) by (simp add: an_inv_def Let_def)
  then have lt: "(of_nat (length vs) + 1 :: u8) < ai_sample_count (analog_ins s oid)"
    using assms(2) u by (simp only: word_less_nat_alt)
  show ?thesis
    using assms(2) u lt n
    by (simp add: analog_in_event_def Let_def analog_state_step [OF assms(1) l assms(3)] an_inv_def
        split del: if_split)
qed

text \<open>The last sample: the value is the sum of all, and the range check decides.\<close>

lemma analog_last_sample:
  assumes "an_inv oid n vs s" "Suc (length vs) = n" "n < 256"
  shows "\<exists>s1. analog_in_event 0 v oid s = andthen (analog_range_check oid s1) (\<lambda>s.
      let s2 = upd_ai oid (\<lambda>a. a\<lparr>next_begin_time := next_begin_time a + ai_rest_time a\<rparr>) (wake_analog s)
      in Ret SF_RESCHEDULE (set_wake (in_timer oid) (next_begin_time (analog_ins s2 oid)) s2)) \<and>
    ai_value (analog_ins s1 oid) = sum_list (vs @ [v]) \<and>
    analog_ins s1 oid = (analog_ins s oid)\<lparr>ai_value := sum_list (vs @ [v]), ai_state := ai_sample_count (analog_ins s oid)\<rparr> \<and>
    shutdown_status s1 = shutdown_status s"
proof -
  have l: "length vs < n" using assms(2) by simp
  have n: "unat (ai_sample_count (analog_ins s oid)) = n" using assms(1) by (simp add: an_inv_def Let_def)
  have u: "unat (of_nat (length vs) + 1 :: u8) = Suc (length vs)"
  proof -
    have "unat (of_nat (length vs) :: u8) = length vs" using assms by (intro unat_of_nat_small) simp
    then show ?thesis using assms by (subst unat_inc) simp_all
  qed
  then have e: "(of_nat (length vs) + 1 :: u8) = ai_sample_count (analog_ins s oid)"
    using n assms(2) by (simp only: word_unat_eq_iff)
  show ?thesis
    by (rule exI [of _ "upd_ai oid (\<lambda>a. a\<lparr>ai_value := sum_list (vs @ [v]), ai_state := of_nat (length vs) + 1\<rparr>) s"])
      (simp add: analog_in_event_def Let_def analog_state_step [OF assms(1) l assms(3)] e split del: if_split)
qed

text \<open>Consecutive measurements out of range are counted; the last one allowed stops the firmware.\<close>

lemma analog_range_check_ok:
  fixes s :: "'a inputs_sys_scheme" and oid :: u8
  defines "a \<equiv> analog_ins s oid"
  assumes "unat (invalid_count a) < unat (range_check_count a)" "shutdown_status s = 0"
  shows "if min_value a \<le> ai_value a \<and> ai_value a \<le> max_value a
    then \<exists>s'. analog_range_check oid s = Ret () s' \<and> invalid_count (analog_ins s' oid) = 0 \<and>
      ai_value (analog_ins s' oid) = ai_value a
    else if Suc (unat (invalid_count a)) < unat (range_check_count a)
    then \<exists>s'. analog_range_check oid s = Ret () s' \<and>
      unat (invalid_count (analog_ins s' oid)) = Suc (unat (invalid_count a)) \<and>
      ai_value (analog_ins s' oid) = ai_value a
    else \<exists>s'. analog_range_check oid s = Shut ''ADC out of range'' s'"
proof -
  have "Suc (unat (invalid_count a)) < 2 ^ LENGTH(8)"
  proof -
    have "unat (range_check_count a) < 2 ^ LENGTH(8)" by (rule unsigned_less)
    then show ?thesis using assms(2) by simp
  qed
  then have u: "unat (invalid_count a + 1) = Suc (unat (invalid_count a))" by (rule unat_inc)
  have s1: "shutdown_status (upd_ai oid f s) = 0" for f using assms(3) by (simp add: upd_ai_def)
  show ?thesis
    using assms(2) u s1
    by (auto simp: analog_range_check_def Let_def a_def word_le_nat_alt sched_try_shutdown_def
        sched_shutdown_def)
qed

section \<open>Counters\<close>

fun counter_events :: "bool list \<Rightarrow> u8 \<Rightarrow> 'a inputs_sys_scheme \<Rightarrow> ('a inputs_sys_scheme, unit) res" where
  "counter_events [] oid s = Ret () s"
| "counter_events (v # vs) oid s = andthen (counter_event v oid s) (counter_events vs oid)"

fun edges :: "bool \<Rightarrow> bool list \<Rightarrow> nat" where
  "edges p [] = 0"
| "edges p (v # vs) = (if v \<noteq> p then 1 else 0) + edges v vs"

lemma counter_event_step:
  "\<exists>s'. counter_event v oid s = Ret SF_RESCHEDULE s' \<and>
    ct_count (counters s' oid) = ct_count (counters s oid) +
      (if v \<noteq> bit_set (ct_count (counters s oid)) 1 then 1 else 0) \<and>
    bit_set (ct_count (counters s' oid)) 1 = v"
  by (auto simp: counter_event_def Let_def flag_bits bit_0)

text \<open>The count grows by the number of changes of the pin, seen from the last parity.\<close>

lemma counter_events_count:
  "\<exists>s'. counter_events vs oid s = Ret () s' \<and>
    ct_count (counters s' oid) = ct_count (counters s oid) + of_nat (edges (bit_set (ct_count (counters s oid)) 1) vs)"
proof (induction vs arbitrary: s)
  case (Cons v vs)
  obtain s1 where 1: "counter_event v oid s = Ret SF_RESCHEDULE s1"
    "ct_count (counters s1 oid) = ct_count (counters s oid) +
      (if v \<noteq> bit_set (ct_count (counters s oid)) 1 then 1 else 0)"
    "bit_set (ct_count (counters s1 oid)) 1 = v"
    using counter_event_step by blast
  from Cons.IH [of s1] 1 show ?case by auto
qed auto

end
