(* ===== verification/Tmcuart.thy ===== *)
theory Tmcuart
  imports Move_Pool
begin

text \<open>
  The single-wire UART of TMC stepper drivers, \<open>klipper/src/tmcuart.c\<close>: bits are sent by toggling
  the line from timer events and read by sampling it, with an optional measurement of the
  actual bit time. The theorems relate the line and the samples to the bits of the message.
\<close>

section \<open>State\<close>

text \<open>
  \<open>pos\<close>, \<open>read_count\<close> and \<open>write_count\<close> are bytes of the C struct; they count bits of the
  ten data bytes, at most 80, or the 64 sync polls.
\<close>

record tmcuart_s =
  tu_tx_pin :: u32
  tu_rx_pin :: u32
  tu_flags :: u8
  tu_pos :: nat
  tu_read_count :: nat
  tu_write_count :: nat
  cfg_bit_time :: u32
  tu_bit_time :: u32
  tu_data :: "u8 list"

record tmcuart_sys = mcu +
  tmcuarts :: "u8 \<Rightarrow> tmcuart_s"
  tmcuart_wake :: u8

definition TU_LINE_HIGH :: u8 where "TU_LINE_HIGH = 1"
definition TU_ACTIVE :: u8 where "TU_ACTIVE = 2"
definition TU_READ_SYNC :: u8 where "TU_READ_SYNC = 4"
definition TU_REPORT :: u8 where "TU_REPORT = 8"
definition TU_PULLUP :: u8 where "TU_PULLUP = 16"
definition TU_SINGLE_WIRE :: u8 where "TU_SINGLE_WIRE = 32"
definition DATA_SIZE :: nat where "DATA_SIZE = 10"

definition tmcuart_zero :: tmcuart_s where
  "tmcuart_zero = \<lparr>tu_tx_pin = 0, tu_rx_pin = 0, tu_flags = 0, tu_pos = 0, tu_read_count = 0,
     tu_write_count = 0, cfg_bit_time = 0, tu_bit_time = 0, tu_data = replicate DATA_SIZE 0\<rparr>"

abbreviation tu_timer :: "u8 \<Rightarrow> tid" where "tu_timer oid \<equiv> TObj (unat oid) 0"

definition upd_tu :: "u8 \<Rightarrow> (tmcuart_s \<Rightarrow> tmcuart_s) \<Rightarrow> 'a tmcuart_sys_scheme \<Rightarrow> 'a tmcuart_sys_scheme" where
  "upd_tu oid f s = s\<lparr>tmcuarts := (tmcuarts s)(oid := f (tmcuarts s oid))\<rparr>"

definition wake_tmcuart :: "'a tmcuart_sys_scheme \<Rightarrow> 'a tmcuart_sys_scheme" where
  "wake_tmcuart s = sched_wake_task (\<lambda>f s. s\<lparr>tmcuart_wake := f (tmcuart_wake s)\<rparr>) s"

text \<open>\<open>t->timer.waketime += d\<close>\<close>

definition tu_later :: "u8 \<Rightarrow> u32 \<Rightarrow> 'a tmcuart_sys_scheme \<Rightarrow> 'a tmcuart_sys_scheme" where
  "tu_later oid d s = set_wake (tu_timer oid) (wake s (tu_timer oid) + d) s"

text \<open>A bit of the data bytes, least significant bit of each byte first.\<close>

definition data_bit :: "u8 list \<Rightarrow> nat \<Rightarrow> bool" where
  "data_bit data i \<longleftrightarrow> bit (data ! (i div 8)) (i mod 8)"

definition set_data_bit :: "u8 list \<Rightarrow> nat \<Rightarrow> bool \<Rightarrow> u8 list" where
  "set_data_bit data i v =
     (let mask = push_bit (i mod 8) 1
      in data[i div 8 := (if v then data ! (i div 8) OR mask else data ! (i div 8) AND NOT mask)])"

section \<open>Events\<close>

text \<open>Resetting the line writes a high level (and makes the pin an output again).\<close>

definition tmcuart_reset_line :: "u8 \<Rightarrow> 'a tmcuart_sys_scheme \<Rightarrow> 'a tmcuart_sys_scheme" where
  "tmcuart_reset_line oid s =
     (let s1 = gpio_out_write (tu_tx_pin (tmcuarts s oid)) True s
      in upd_tu oid (\<lambda>t. t\<lparr>tu_flags := (tu_flags t AND (TU_PULLUP OR TU_SINGLE_WIRE)) OR TU_LINE_HIGH\<rparr>) s1)"

definition tmcuart_finalize :: "u8 \<Rightarrow> 'a tmcuart_sys_scheme \<Rightarrow> ('a tmcuart_sys_scheme, sf) res" where
  "tmcuart_finalize oid s =
     Ret SF_DONE (wake_tmcuart (upd_tu oid (\<lambda>t. t\<lparr>tu_flags := tu_flags t OR TU_REPORT\<rparr>) (tmcuart_reset_line oid s)))"

text \<open>\<open>v\<close> is what \<open>gpio_in_read\<close> returns.\<close>

definition tmcuart_read_event :: "bool \<Rightarrow> u8 \<Rightarrow> 'a tmcuart_sys_scheme \<Rightarrow> ('a tmcuart_sys_scheme, sf) res" where
  "tmcuart_read_event v oid s =
     (let t = tmcuarts s oid; pos = tu_pos t
      in if length (tu_data t) \<le> pos div 8 then Fault
         else
           (let s1 = upd_tu oid (\<lambda>t. t\<lparr>tu_data := set_data_bit (tu_data t) pos v\<rparr>) s; pos = (pos + 1) mod 256
            in if pos \<ge> tu_read_count t then tmcuart_finalize oid s1
               else Ret SF_RESCHEDULE (tu_later oid (tu_bit_time t) (upd_tu oid (\<lambda>t. t\<lparr>tu_pos := pos\<rparr>) s1))))"

definition tmcuart_read_sync_event :: "bool \<Rightarrow> u8 \<Rightarrow> 'a tmcuart_sys_scheme \<Rightarrow> ('a tmcuart_sys_scheme, sf) res" where
  "tmcuart_read_sync_event v oid s =
     (if \<not> v \<and> bit_set (tu_flags (tmcuarts s oid)) TU_READ_SYNC then
        tmcuart_read_event v oid
          (set_func (tu_timer oid) (Some Fn_tmcuart_read_event) (upd_tu oid (\<lambda>t. t\<lparr>tu_pos := 0\<rparr>) s))
      else
        (let s1 = (if v then upd_tu oid (\<lambda>t. t\<lparr>tu_flags := tu_flags t OR TU_READ_SYNC\<rparr>) s else s);
             pos = tu_pos (tmcuarts s1 oid);
             s2 = upd_tu oid (\<lambda>t. t\<lparr>tu_pos := (pos + 1) mod 256\<rparr>) s1
         in if pos \<ge> 64 then tmcuart_finalize oid (upd_tu oid (\<lambda>t. t\<lparr>tu_read_count := 0\<rparr>) s2)
            else Ret SF_RESCHEDULE (tu_later oid (tu_bit_time (tmcuarts s2 oid)) s2)))"

text \<open>In single-wire mode the pin becomes an input here; the driver then holds the line.\<close>

definition tmcuart_send_finish_event :: "u8 \<Rightarrow> 'a tmcuart_sys_scheme \<Rightarrow> ('a tmcuart_sys_scheme, sf) res" where
  "tmcuart_send_finish_event oid s =
     (if tu_read_count (tmcuarts s oid) = 0 then tmcuart_finalize oid s
      else Ret SF_RESCHEDULE
             (tu_later oid (tu_bit_time (tmcuarts s oid) * 4)
               (set_func (tu_timer oid) (Some Fn_tmcuart_read_sync_event) (upd_tu oid (\<lambda>t. t\<lparr>tu_pos := 0\<rparr>) s))))"

text \<open>
  The loop that looks for the next bit different from the line: its position (\<open>None\<close> at the
  end of the data) and the time until then.
\<close>

function next_toggle :: "u8 list \<Rightarrow> nat \<Rightarrow> u32 \<Rightarrow> bool \<Rightarrow> nat \<Rightarrow> u32 \<Rightarrow> nat option \<times> u32" where
  "next_toggle data wc bit_time line pos nxt =
     (let pos = pos + 1
      in if pos \<ge> wc then (None, nxt)
         else if data_bit data pos \<noteq> line then (Some pos, nxt)
         else next_toggle data wc bit_time line pos (nxt + bit_time))"
  by pat_completeness auto

termination by (relation "measure (\<lambda>(data, wc, bt, line, pos, nxt). wc - pos)") auto

declare next_toggle.simps [simp del]

definition tmcuart_send_event :: "u8 \<Rightarrow> 'a tmcuart_sys_scheme \<Rightarrow> ('a tmcuart_sys_scheme, sf) res" where
  "tmcuart_send_event oid s =
     (let s1 = upd_tu oid (\<lambda>t. t\<lparr>tu_flags := tu_flags t XOR TU_LINE_HIGH\<rparr>)
                 (gpio_out_toggle (tu_tx_pin (tmcuarts s oid)) s);
          t = tmcuarts s1 oid
      in case next_toggle (tu_data t) (tu_write_count t) (tu_bit_time t) (bit_set (tu_flags t) TU_LINE_HIGH)
                (tu_pos t) (tu_bit_time t) of
           (None, nxt) \<Rightarrow>
             Ret SF_RESCHEDULE (tu_later oid nxt (set_func (tu_timer oid) (Some Fn_tmcuart_send_finish_event) s1))
         | (Some pos, nxt) \<Rightarrow>
             Ret SF_RESCHEDULE (tu_later oid nxt (upd_tu oid (\<lambda>t. t\<lparr>tu_pos := pos\<rparr>) s1)))"

text \<open>\<open>DIV_ROUND_CLOSEST\<close> with the division of C, which cuts towards zero.\<close>

definition div_round_closest :: "int \<Rightarrow> int \<Rightarrow> int" where
  "div_round_closest x d = (let y = x + d div 2 in if y \<ge> 0 then y div d else - ((- y) div d))"

text \<open>\<open>cur\<close> is the clock read.\<close>

definition tmcuart_send_sync_event :: "u32 \<Rightarrow> u8 \<Rightarrow> 'a tmcuart_sys_scheme \<Rightarrow> ('a tmcuart_sys_scheme, sf) res" where
  "tmcuart_send_sync_event cur oid s =
     (let s1 = upd_tu oid (\<lambda>t. t\<lparr>tu_flags := tu_flags t XOR TU_LINE_HIGH, tu_pos := (tu_pos t + 1) mod 256\<rparr>)
                 (gpio_out_toggle (tu_tx_pin (tmcuarts s oid)) s);
          t = tmcuarts s1 oid; offset = cur - wake s1 (tu_timer oid)
      in if tu_pos t = 1 then
           Ret SF_RESCHEDULE (tu_later oid (cfg_bit_time t) (upd_tu oid (\<lambda>t. t\<lparr>tu_bit_time := offset\<rparr>) s1))
         else if tu_pos t \<ge> 5 then
           (let diff = offset - tu_bit_time t;
                bt = cfg_bit_time t + of_int (div_round_closest (sint diff) 4);
                s2 = set_func (tu_timer oid) (Some Fn_tmcuart_send_event) (upd_tu oid (\<lambda>t. t\<lparr>tu_bit_time := bt\<rparr>) s1)
            in Ret SF_RESCHEDULE (tu_later oid (diff + bt) s2))
         else Ret SF_RESCHEDULE (tu_later oid (cfg_bit_time t) s1))"

section \<open>Commands\<close>

definition command_config_tmcuart ::
    "board \<Rightarrow> nat \<Rightarrow> u32 list \<Rightarrow> 'a tmcuart_sys_scheme \<Rightarrow> ('a tmcuart_sys_scheme, unit) res" where
  "command_config_tmcuart bd sz args s =
     (let oid = ucast (args ! 0); pull_up = ucast (args ! 2) :: u8; rx_pin = args ! 1; tx_pin = args ! 3
      in bnd (oid_alloc bd oid T_tmcuart sz s) (\<lambda>_ s.
         bnd (gpio_in_setup bd rx_pin (clear_timer (tu_timer oid) (upd_tu oid (\<lambda>_. tmcuart_zero) s))) (\<lambda>rx s.
         bnd (gpio_out_setup bd tx_pin True s) (\<lambda>tx s.
           Ret () (upd_tu oid (\<lambda>t. t\<lparr>tu_rx_pin := rx, tu_tx_pin := tx, cfg_bit_time := args ! 4,
                     tu_flags := TU_LINE_HIGH OR (if pull_up \<noteq> 0 then TU_PULLUP else 0)
                                 OR (if rx_pin = tx_pin then TU_SINGLE_WIRE else 0)\<rparr>) s)))))"

text \<open>
  \<open>write\<close> are the bytes that the pointer of the third argument leads to; \<open>now\<close>, \<open>now1\<close>, \<open>now2\<close>
  the clock reads; \<open>freq\<close> the clock frequency.
\<close>

definition command_tmcuart_send ::
    "board \<Rightarrow> (u32 \<Rightarrow> u8 list) \<Rightarrow> u32 \<Rightarrow> u32 \<Rightarrow> u32 \<Rightarrow> u32 list \<Rightarrow> 'a tmcuart_sys_scheme
      \<Rightarrow> ('a tmcuart_sys_scheme, unit) res" where
  "command_tmcuart_send bd mem now now1 now2 args s =
     (let oid = ucast (args ! 0)
      in with_oid oid T_tmcuart (\<lambda>s.
           if bit_set (tu_flags (tmcuarts s oid)) TU_ACTIVE then Ret () s
           else
             (let write_len = unat (ucast (args ! 1) :: u8); read_len = unat (ucast (args ! 3) :: u8)
              in if write_len > DATA_SIZE \<or> read_len > DATA_SIZE then Shut ''tmcuart data too large'' s
                 else
                   (let s1 = upd_tu oid (\<lambda>t. t\<lparr>tu_data := blit (tu_data t) 0 (take write_len (mem (args ! 2))),
                               tu_pos := 0,
                               tu_flags := (tu_flags t AND (TU_LINE_HIGH OR TU_PULLUP OR TU_SINGLE_WIRE)) OR TU_ACTIVE,
                               tu_write_count := write_len * 8 mod 256, tu_read_count := read_len * 8 mod 256\<rparr>) s;
                        s2 = (if write_len \<ge> 1 \<and> tu_data (tmcuarts s1 oid) ! 0 AND 0x3f = 0x2a
                              then set_func (tu_timer oid) (Some Fn_tmcuart_send_sync_event) s1
                              else set_func (tu_timer oid) (Some Fn_tmcuart_send_event)
                                     (upd_tu oid (\<lambda>t. t\<lparr>tu_bit_time := cfg_bit_time t\<rparr>) s1))
                    in sched_add_timer now1 now2 (tu_timer oid)
                         (set_wake (tu_timer oid) (now + timer_from_us (clock_freq bd) 200) s2)))) s)"

definition tmcuart_task :: "'a tmcuart_sys_scheme \<Rightarrow> ('a tmcuart_sys_scheme, unit) res" where
  "tmcuart_task s =
     (case sched_check_wake tmcuart_wake (\<lambda>f s. s\<lparr>tmcuart_wake := f (tmcuart_wake s)\<rparr>) s of
        (False, s) \<Rightarrow> Ret () s
      | (True, s) \<Rightarrow>
          foreach_oid T_tmcuart (\<lambda>oid s.
            if \<not> bit_set (tu_flags (tmcuarts s oid)) TU_REPORT then Ret () s
            else
              (let s1 = upd_tu oid (\<lambda>t. t\<lparr>tu_flags := tu_flags t AND NOT TU_REPORT\<rparr>) s; t = tmcuarts s1 oid
               in Ret () (sendf ''tmcuart_response''
                    [RInt (ucast oid), RBytes (take (tu_read_count t div 8) (tu_data t))] s1))) s)"

definition tmcuart_shutdown :: "'a tmcuart_sys_scheme \<Rightarrow> ('a tmcuart_sys_scheme, unit) res" where
  "tmcuart_shutdown s = foreach_oid T_tmcuart (\<lambda>oid s. Ret () (tmcuart_reset_line oid s)) s"

section \<open>The line while a message is sent\<close>

lemma next_toggle_spec:
  assumes "next_toggle data wc bt line pos nxt = (r, n)" "pos < wc"
  shows "\<exists>q. pos < q \<and> q \<le> wc \<and> n = nxt + of_nat (q - pos - 1) * bt \<and>
    (\<forall>i. pos < i \<and> i < q \<longrightarrow> data_bit data i = line) \<and>
    r = (if q = wc then None else Some q) \<and> (q < wc \<longrightarrow> data_bit data q \<noteq> line)"
  using assms
proof (induction data wc bt line pos nxt rule: next_toggle.induct)
  case (1 data wc bt line pos nxt)
  note eq = next_toggle.simps [of data wc bt line pos nxt]
  consider "pos + 1 \<ge> wc" | "pos + 1 < wc" "data_bit data (pos + 1) \<noteq> line"
    | "pos + 1 < wc" "data_bit data (pos + 1) = line" by linarith
  then show ?case
  proof cases
    case 1
    then have "r = None" "n = nxt" "wc = pos + 1" using "1.prems" eq by simp_all
    then show ?thesis by (intro exI [of _ wc]) auto
  next
    case 2
    then have "r = Some (pos + 1)" "n = nxt" using "1.prems" eq by (simp_all add: Let_def)
    then show ?thesis using 2 by (intro exI [of _ "pos + 1"]) auto
  next
    case 3
    then have "next_toggle data wc bt line (pos + 1) (nxt + bt) = (r, n)" using "1.prems"(1) eq by (simp add: Let_def)
    moreover have "\<not> wc \<le> pos + 1" "\<not> data_bit data (pos + 1) \<noteq> line" using 3 by simp_all
    ultimately obtain q where q: "pos + 1 < q" "q \<le> wc"
      "n = nxt + bt + of_nat (q - (pos + 1) - 1) * bt"
      "\<forall>i. pos + 1 < i \<and> i < q \<longrightarrow> data_bit data i = line"
      "r = (if q = wc then None else Some q)" "q < wc \<longrightarrow> data_bit data q \<noteq> line"
      using "1.IH" [OF refl] 3(1) by blast
    define k where "k = q - (pos + 1) - 1"
    have "q - pos - 1 = Suc k" using q(1) by (simp add: k_def)
    then have "n = nxt + of_nat (q - pos - 1) * bt" using q(3) unfolding k_def [symmetric] by (simp add: algebra_simps)
    moreover have "\<forall>i. pos < i \<and> i < q \<longrightarrow> data_bit data i = line"
    proof (intro allI impI)
      fix i assume "pos < i \<and> i < q"
      then show "data_bit data i = line" using q(4) 3 by (cases "i = pos + 1") auto
    qed
    ultimately show ?thesis using q by (intro exI [of _ q]) simp
  qed
qed

text \<open>The line flag agrees with the pin, and the bit at \<open>pos\<close> is about to be sent.\<close>

definition tu_line :: "u8 \<Rightarrow> 'a tmcuart_sys_scheme \<Rightarrow> bool" where
  "tu_line oid s = pin_out s (tu_tx_pin (tmcuarts s oid))"

definition sending :: "u8 \<Rightarrow> u8 list \<Rightarrow> nat \<Rightarrow> u32 \<Rightarrow> nat \<Rightarrow> 'a tmcuart_sys_scheme \<Rightarrow> bool" where
  "sending oid data wc bt pos s \<longleftrightarrow>
     (let t = tmcuarts s oid
      in bit_set (tu_flags t) TU_LINE_HIGH = tu_line oid s \<and> tu_data t = data \<and> tu_write_count t = wc \<and>
         tu_bit_time t = bt \<and> tu_pos t = pos \<and> pos < wc \<and> data_bit data pos \<noteq> tu_line oid s)"

lemma send_event_step:
  assumes "sending oid data wc bt pos s"
  shows "\<exists>q s'. tmcuart_send_event oid s = Ret SF_RESCHEDULE s' \<and> pos < q \<and> q \<le> wc \<and>
    wake s' (tu_timer oid) = wake s (tu_timer oid) + of_nat (q - pos) * bt \<and>
    (\<forall>i. pos \<le> i \<and> i < q \<longrightarrow> data_bit data i = tu_line oid s') \<and>
    (if q = wc then t_func (timers s' (tu_timer oid)) = Some Fn_tmcuart_send_finish_event
     else t_func (timers s' (tu_timer oid)) = t_func (timers s (tu_timer oid)) \<and> sending oid data wc bt q s')"
proof -
  let ?t = "tmcuarts s oid"
  let ?L = "\<not> tu_line oid s"
  have pre: "bit_set (tu_flags ?t) TU_LINE_HIGH = tu_line oid s" "tu_data ?t = data" "tu_write_count ?t = wc"
    "tu_bit_time ?t = bt" "tu_pos ?t = pos" "pos < wc" "data_bit data pos = ?L"
    using assms by (auto simp: sending_def Let_def)
  have fl: "bit_set (tu_flags ?t XOR TU_LINE_HIGH) TU_LINE_HIGH = ?L"
    using pre(1) by (simp add: TU_LINE_HIGH_def flag_bits)
  obtain r n where nt: "next_toggle data wc bt ?L pos bt = (r, n)" by (metis prod.exhaust)
  from next_toggle_spec [OF nt pre(6)] obtain q where q: "pos < q" "q \<le> wc" "n = bt + of_nat (q - pos - 1) * bt"
    "\<forall>i. pos < i \<and> i < q \<longrightarrow> data_bit data i = ?L" "r = (if q = wc then None else Some q)"
    "q < wc \<longrightarrow> data_bit data q \<noteq> ?L" by auto
  define k where "k = q - pos - 1"
  have "q - pos = Suc k" using q(1) by (simp add: k_def)
  then have n: "n = of_nat (q - pos) * bt" using q(3) unfolding k_def [symmetric] by (simp add: algebra_simps)
  have eqs: "\<forall>i. pos \<le> i \<and> i < q \<longrightarrow> data_bit data i = ?L" using q(4) pre(7) by (metis le_neq_implies_less)
  define s1 where "s1 = upd_tu oid (\<lambda>t. t\<lparr>tu_flags := tu_flags t XOR TU_LINE_HIGH\<rparr>) (gpio_out_toggle (tu_tx_pin ?t) s)"
  have s1: "tmcuarts s1 oid = ?t\<lparr>tu_flags := tu_flags ?t XOR TU_LINE_HIGH\<rparr>" "pin_out s1 (tu_tx_pin ?t) = ?L"
    "timers s1 = timers s"
    by (simp_all add: s1_def upd_tu_def gpio_out_toggle_def tu_line_def)
  have ev: "tmcuart_send_event oid s = (case r of
      None \<Rightarrow> Ret SF_RESCHEDULE (tu_later oid n (set_func (tu_timer oid) (Some Fn_tmcuart_send_finish_event) s1))
    | Some p \<Rightarrow> Ret SF_RESCHEDULE (tu_later oid n (upd_tu oid (\<lambda>t. t\<lparr>tu_pos := p\<rparr>) s1)))"
    using nt pre by (simp add: tmcuart_send_event_def s1_def [symmetric] s1(1) fl Let_def)
  show ?thesis
  proof (cases "q = wc")
    case True
    then have ev': "tmcuart_send_event oid s = Ret SF_RESCHEDULE
        (tu_later oid n (set_func (tu_timer oid) (Some Fn_tmcuart_send_finish_event) s1))"
      using ev q(5) by simp
    show ?thesis
      by (rule exI [of _ q], rule exI, rule conjI, rule ev')
        (use True q(1,2) eqs s1 n in \<open>simp add: tu_later_def set_wake_def set_func_def tu_line_def\<close>)
  next
    case False
    then have ev': "tmcuart_send_event oid s = Ret SF_RESCHEDULE (tu_later oid n (upd_tu oid (\<lambda>t. t\<lparr>tu_pos := q\<rparr>) s1))"
      using ev q(5) by simp
    show ?thesis
      by (rule exI [of _ q], rule exI, rule conjI, rule ev')
        (use False q(1,2,6) eqs s1 n pre fl in
          \<open>simp add: tu_later_def set_wake_def upd_tu_def tu_line_def sending_def Let_def\<close>)
  qed
qed

text \<open>
  The events from one until the finish event is set: the level of the line after each, with
  the time it is held.
\<close>

fun send_levels :: "nat \<Rightarrow> u8 \<Rightarrow> 'a tmcuart_sys_scheme \<Rightarrow> (bool \<times> u32) list option" where
  "send_levels 0 oid s = None"
| "send_levels (Suc n) oid s =
     (case tmcuart_send_event oid s of
        Ret _ s' \<Rightarrow>
          (let l = (tu_line oid s', wake s' (tu_timer oid) - wake s (tu_timer oid))
           in if t_func (timers s' (tu_timer oid)) = Some Fn_tmcuart_send_finish_event then Some [l]
              else map_option (\<lambda>ls. l # ls) (send_levels n oid s'))
      | _ \<Rightarrow> None)"

definition hold :: "u32 \<Rightarrow> bool \<times> nat \<Rightarrow> bool \<times> u32" where
  "hold bt = (\<lambda>(l, n). (l, of_nat n * bt))"

lemma send_levels_bits:
  assumes "sending oid data wc bt pos s" "wc - pos \<le> n" "t_func (timers s (tu_timer oid)) \<noteq> Some Fn_tmcuart_send_finish_event"
  shows "\<exists>ls. send_levels n oid s = Some (map (hold bt) ls) \<and> (\<forall>(l, k) \<in> set ls. 0 < k) \<and>
    concat (map (\<lambda>(l, k). replicate k l) ls) = map (data_bit data) [pos..<wc]"
  using assms
proof (induction n arbitrary: pos s)
  case 0
  then show ?case by (simp add: sending_def Let_def)
next
  case (Suc n)
  from send_event_step [OF Suc.prems(1)] obtain q s' where st: "tmcuart_send_event oid s = Ret SF_RESCHEDULE s'"
    "pos < q" "q \<le> wc" "wake s' (tu_timer oid) = wake s (tu_timer oid) + of_nat (q - pos) * bt"
    "\<forall>i. pos \<le> i \<and> i < q \<longrightarrow> data_bit data i = tu_line oid s'"
    "if q = wc then t_func (timers s' (tu_timer oid)) = Some Fn_tmcuart_send_finish_event
     else t_func (timers s' (tu_timer oid)) = t_func (timers s (tu_timer oid)) \<and> sending oid data wc bt q s'" by blast
  let ?l = "(tu_line oid s', q - pos)"
  have rep: "replicate (q - pos) (tu_line oid s') = map (data_bit data) [pos..<q]"
    using st(5) by (intro nth_equalityI) simp_all
  have h: "(tu_line oid s', wake s' (tu_timer oid) - wake s (tu_timer oid)) = hold bt ?l"
    using st(4) by (simp add: hold_def)
  show ?case
  proof (cases "q = wc")
    case True
    then have "send_levels (Suc n) oid s = Some (map (hold bt) [?l])" using st(1,6) by (simp add: h)
    then show ?thesis using rep st(2) True by (intro exI [of _ "[?l]"]) simp
  next
    case False
    then have nf: "t_func (timers s' (tu_timer oid)) \<noteq> Some Fn_tmcuart_send_finish_event" and sd: "sending oid data wc bt q s'"
      using st(6) Suc.prems(3) by simp_all
    have "wc - q \<le> n" using st(2) Suc.prems(2) by simp
    from Suc.IH [OF sd this nf] obtain ls where ls: "send_levels n oid s' = Some (map (hold bt) ls)"
      "\<forall>(l, k) \<in> set ls. 0 < k" "concat (map (\<lambda>(l, k). replicate k l) ls) = map (data_bit data) [q..<wc]" by blast
    have "send_levels (Suc n) oid s = Some (map (hold bt) (?l # ls))" using st(1) ls(1) nf by (simp add: h)
    moreover have "[pos..<wc] = [pos..<q] @ [q..<wc]" using st(2,3) by (metis less_imp_le upt_add_eq_append le_add_diff_inverse)
    ultimately show ?thesis using ls(2,3) rep st(2) by (intro exI [of _ "?l # ls"]) simp
  qed
qed

section \<open>Reading bits\<close>

lemma length_set_data_bit [simp]: "length (set_data_bit data i v) = length data"
  by (simp add: set_data_bit_def Let_def)

lemma data_bit_set:
  assumes "i < 8 * length data"
  shows "data_bit (set_data_bit data i v) j = (if j = i then v else data_bit data j)"
proof (cases "j div 8 = i div 8")
  case False
  then show ?thesis by (auto simp: data_bit_def set_data_bit_def Let_def nth_list_update_neq)
next
  case True
  have i: "i div 8 < length data" using assms by (simp add: div_less_iff_less_mult mult.commute)
  have j: "j = i \<longleftrightarrow> j mod 8 = i mod 8" using True by (metis div_mod_decomp)
  have m: "bit (2 ^ (i mod 8) :: u8) k \<longleftrightarrow> k = i mod 8" for k
    by (auto simp: bit_exp_word)
  have l: "k < 8 \<Longrightarrow> bit (NOT (w :: u8)) k = (\<not> bit w k)" for w k by (simp add: bit_not_iff)
  show ?thesis
    using True i j by (simp add: data_bit_def set_data_bit_def Let_def bit_or_iff bit_and_iff m l)
qed

text \<open>Feeding samples to the read event until it is done.\<close>

fun read_run :: "bool list \<Rightarrow> u8 \<Rightarrow> 'a tmcuart_sys_scheme \<Rightarrow> 'a tmcuart_sys_scheme option" where
  "read_run [] oid s = None"
| "read_run (v # vs) oid s =
     (case tmcuart_read_event v oid s of
        Ret SF_RESCHEDULE s' \<Rightarrow> read_run vs oid s'
      | Ret SF_DONE s' \<Rightarrow> if vs = [] then Some s' else None
      | _ \<Rightarrow> None)"

lemma read_run_bits:
  assumes "length (tu_data (tmcuarts s oid)) = DATA_SIZE" "tu_read_count (tmcuarts s oid) \<le> 8 * DATA_SIZE"
    "tu_pos (tmcuarts s oid) < tu_read_count (tmcuarts s oid)"
    "length vs = tu_read_count (tmcuarts s oid) - tu_pos (tmcuarts s oid)"
  shows "\<exists>s'. read_run vs oid s = Some s' \<and> tu_read_count (tmcuarts s' oid) = tu_read_count (tmcuarts s oid) \<and>
    length (tu_data (tmcuarts s' oid)) = DATA_SIZE \<and>
    (\<forall>i < tu_pos (tmcuarts s oid). data_bit (tu_data (tmcuarts s' oid)) i = data_bit (tu_data (tmcuarts s oid)) i) \<and>
    (\<forall>i < length vs. data_bit (tu_data (tmcuarts s' oid)) (tu_pos (tmcuarts s oid) + i) = vs ! i) \<and>
    bit_set (tu_flags (tmcuarts s' oid)) TU_REPORT \<and> \<not> bit_set (tu_flags (tmcuarts s' oid)) TU_ACTIVE \<and>
    tmcuart_wake s' = 1"
  using assms
proof (induction vs arbitrary: s)
  case Nil
  then show ?case by simp
next
  case (Cons v vs)
  let ?t = "tmcuarts s oid"
  let ?p = "tu_pos ?t" and ?d = "set_data_bit (tu_data ?t) (tu_pos ?t) v"
  have p: "?p < 80" "?p < 8 * length (tu_data ?t)" "(?p + 1) mod 256 = ?p + 1" "\<not> length (tu_data ?t) \<le> ?p div 8"
    using Cons.prems by (simp_all add: DATA_SIZE_def)
  define s1 where "s1 = upd_tu oid (\<lambda>t. t\<lparr>tu_data := set_data_bit (tu_data t) ?p v\<rparr>) s"
  have s1: "tmcuarts s1 oid = ?t\<lparr>tu_data := ?d\<rparr>" by (simp add: s1_def upd_tu_def)
  have ev: "tmcuart_read_event v oid s = (if ?p + 1 \<ge> tu_read_count ?t then tmcuart_finalize oid s1
      else Ret SF_RESCHEDULE (tu_later oid (tu_bit_time ?t) (upd_tu oid (\<lambda>t. t\<lparr>tu_pos := ?p + 1\<rparr>) s1)))"
    using p by (simp add: tmcuart_read_event_def Let_def s1_def)
  note db = data_bit_set [OF p(2), of v]
  show ?case
  proof (cases "?p + 1 \<ge> tu_read_count ?t")
    case True
    then have "tu_read_count ?t - ?p \<le> 1" by simp
    then have "length vs = 0" using Cons.prems(4) by (simp only: length_Cons)
    then have vs: "vs = []" by simp
    let ?s' = "wake_tmcuart (upd_tu oid (\<lambda>t. t\<lparr>tu_flags := tu_flags t OR TU_REPORT\<rparr>) (tmcuart_reset_line oid s1))"
    have f: "tu_flags (tmcuarts ?s' oid) = ((tu_flags ?t AND (TU_PULLUP OR TU_SINGLE_WIRE)) OR TU_LINE_HIGH) OR TU_REPORT"
      "tu_data (tmcuarts ?s' oid) = ?d" "tu_read_count (tmcuarts ?s' oid) = tu_read_count ?t" "tmcuart_wake ?s' = 1"
      using s1 by (simp_all add: wake_tmcuart_def sched_wake_task_def sched_wake_tasks_def upd_tu_def
          tmcuart_reset_line_def gpio_out_write_def Let_def)
    have "bit_set (tu_flags (tmcuarts ?s' oid)) TU_REPORT" "\<not> bit_set (tu_flags (tmcuarts ?s' oid)) TU_ACTIVE"
      unfolding f by (simp_all add: TU_REPORT_def TU_ACTIVE_def TU_PULLUP_def TU_SINGLE_WIRE_def TU_LINE_HIGH_def flag_bits)
    moreover have one: "tu_read_count ?t = ?p + 1" using True Cons.prems(3) by simp
    ultimately show ?thesis
      using ev True vs Cons.prems(1) f db by (simp add: tmcuart_finalize_def)
  next
    case False
    let ?s2 = "tu_later oid (tu_bit_time ?t) (upd_tu oid (\<lambda>t. t\<lparr>tu_pos := ?p + 1\<rparr>) s1)"
    have t2: "tmcuarts ?s2 oid = ?t\<lparr>tu_data := ?d, tu_pos := ?p + 1\<rparr>"
      using s1 by (simp add: tu_later_def set_wake_def upd_tu_def)
    obtain s' where ih: "read_run vs oid ?s2 = Some s'" "tu_read_count (tmcuarts s' oid) = tu_read_count ?t"
      "length (tu_data (tmcuarts s' oid)) = DATA_SIZE"
      "\<forall>i < ?p + 1. data_bit (tu_data (tmcuarts s' oid)) i = data_bit ?d i"
      "\<forall>i < length vs. data_bit (tu_data (tmcuarts s' oid)) (?p + 1 + i) = vs ! i"
      "bit_set (tu_flags (tmcuarts s' oid)) TU_REPORT" "\<not> bit_set (tu_flags (tmcuarts s' oid)) TU_ACTIVE" "tmcuart_wake s' = 1"
    proof -
      have "length (tu_data (tmcuarts ?s2 oid)) = DATA_SIZE" "tu_read_count (tmcuarts ?s2 oid) \<le> 8 * DATA_SIZE"
        "tu_pos (tmcuarts ?s2 oid) < tu_read_count (tmcuarts ?s2 oid)"
        using Cons.prems False unfolding t2 by simp_all
      moreover have "Suc (length vs) = tu_read_count ?t - ?p" using Cons.prems(4) by simp
      then have "length vs = tu_read_count ?t - (?p + 1)" by arith
      then have "length vs = tu_read_count (tmcuarts ?s2 oid) - tu_pos (tmcuarts ?s2 oid)"
        unfolding t2 by simp
      ultimately show ?thesis using Cons.IH [of ?s2] that unfolding t2 by auto
    qed
    have "read_run (v # vs) oid s = Some s'" using ev False ih(1) by simp
    moreover have "\<forall>i < length (v # vs). data_bit (tu_data (tmcuarts s' oid)) (?p + i) = (v # vs) ! i"
    proof (intro allI impI)
      fix i assume "i < length (v # vs)"
      then show "data_bit (tu_data (tmcuarts s' oid)) (?p + i) = (v # vs) ! i"
        using ih(4,5) db by (cases i) simp_all
    qed
    moreover have "\<forall>i < ?p. data_bit (tu_data (tmcuarts s' oid)) i = data_bit (tu_data ?t) i"
      using ih(4) db by simp
    ultimately show ?thesis using ih by blast
  qed
qed

text \<open>While a transfer is under way another request leaves everything as it is.\<close>

lemma tmcuart_send_busy:
  assumes "oid_lookup (ucast (args ! 0)) T_tmcuart s = Ret (Some p) s"
    "bit_set (tu_flags (tmcuarts s (ucast (args ! 0)))) TU_ACTIVE"
  shows "command_tmcuart_send bd mem now now1 now2 args s = Ret () s"
  using assms by (simp add: command_tmcuart_send_def with_oid_def deref_def Let_def)

end
