(* ===== verification/Io_Correct.thy ===== *)
theory Io_Correct
  imports Output_Props Input_Props Tmcuart Kernel_Correct
begin

text \<open>
  What the pin modules of the firmware promise: outputs return to their defaults in time and at a
  shutdown, buttons are debounced, measurements and edge counts are exact, and the line of a
  TMC uart carries the bits of the message.
\<close>

section \<open>Outputs\<close>

text \<open>
  A digital output with a maximum duration is never left away from its default unattended: an
  update that takes it away schedules the next event no later than its end time, that is no
  later than \<open>max_duration\<close> after the update, and the flag that makes the event check it.
\<close>

theorem digital_output_bounded:
  assumes "digital_load_event oid s = Ret r s'" "do_max_duration (digital_outs s oid) \<noteq> 0"
    "away (digital_outs s' oid) s'"
  shows "r = SF_RESCHEDULE \<and> bit_set (do_flags (digital_outs s' oid)) DF_CHECK_END \<and>
    by_end (wake s' (out_timer oid)) (end_time (digital_outs s' oid)) \<and>
    \<not> timer_is_before (wake s (out_timer oid) + do_max_duration (digital_outs s oid)) (end_time (digital_outs s' oid))"
  using digital_load_event_safe [OF assms] by blast

text \<open>
  At a shutdown every configured digital output is driven to its default level, its queue is
  emptied and it stays at the default, whatever it was doing.
\<close>

theorem outputs_default_at_shutdown:
  assumes "oids_ok s" "inj_on (\<lambda>x. do_pin (digital_outs s x)) (of_nat ` set (oids_of T_digital_out s))"
  shows "\<exists>s'. digital_out_shutdown s = Ret () s' \<and>
    (\<forall>j \<in> set (oids_of T_digital_out s). defaulted s' (digital_outs s (of_nat j)) (of_nat j))"
  by (rule digital_out_shutdown_ok [OF assms])

text \<open>
  After an update of a hardware pwm output away from its default value, either the next update or the
  event that shuts the firmware down comes no later than \<open>max_duration\<close> after it.
\<close>

theorem pwm_output_bounded:
  assumes "pwm_event oid s = Ret r s'" "po_max_duration (pwm_outs s oid) \<noteq> 0"
    "pwm_level s' (po_pin (pwm_outs s oid)) \<noteq> default_value (pwm_outs s oid)"
  shows "r = SF_RESCHEDULE \<and>
    \<not> timer_is_before (wake s (out_timer oid) + po_max_duration (pwm_outs s oid)) (wake s' (out_timer oid)) \<and>
    (move_queue_empty (po_mq (pwm_outs s' oid)) \<longrightarrow> t_func (timers s' (out_timer oid)) = Some Fn_pwm_end_event)"
  by (rule pwm_event_safe [OF assms])

section \<open>Inputs\<close>

text \<open>
  Buttons are debounced: a sampling event takes over a pin's value into the reported state only if
  it equals the value of the sample before; otherwise the reported bit stays.
\<close>

theorem buttons_debounced:
  assumes "length vals = unat (button_count (button_sets s oid))" "length vals \<le> 8" "i < length vals"
  shows "\<exists>s'. buttons_event vals oid s = Ret SF_RESCHEDULE s' \<and>
    bit (pressed (button_sets s' oid)) i =
      (if vals ! i = bit (last_pressed (button_sets s oid)) i then vals ! i else bit (pressed (button_sets s oid)) i) \<and>
    bit (last_pressed (button_sets s' oid)) i = vals ! i"
proof -
  define status where "status = read_status (take (unat (button_count (button_sets s oid))) vals) 1 0"
  have st: "bit status i = vals ! i"
    using assms read_status_bits [of 0 vals 0 i] by (simp add: status_def)
  have i: "i < 8" using assms by simp
  have "\<exists>s'. buttons_event vals oid s = Ret SF_RESCHEDULE s' \<and>
    pressed (button_sets s' oid) = pressed (button_sets (buttons_debounce status oid s) oid) \<and>
    last_pressed (button_sets s' oid) = status"
    by (simp add: buttons_event_def status_def [symmetric] Let_def)
  then show ?thesis using buttons_debounce_bits [OF i, of status oid s] st by (auto simp: Let_def)
qed

text \<open>The events of an analog input whose samples are ready with the values \<open>vs\<close>.\<close>

fun analog_run :: "u16 list \<Rightarrow> u8 \<Rightarrow> 'a inputs_sys_scheme \<Rightarrow> ('a inputs_sys_scheme, sf) res" where
  "analog_run [] oid s = Ret SF_RESCHEDULE s"
| "analog_run (v # vs) oid s = bnd (analog_in_event 0 v oid s) (\<lambda>_ s. analog_run vs oid s)"

text \<open>The end of a measurement: the next one is scheduled.\<close>

definition analog_next :: "u8 \<Rightarrow> 'a inputs_sys_scheme \<Rightarrow> ('a inputs_sys_scheme, sf) res" where
  "analog_next oid s =
     (let s2 = upd_ai oid (\<lambda>a. a\<lparr>next_begin_time := next_begin_time a + ai_rest_time a\<rparr>) (wake_analog s)
      in Ret SF_RESCHEDULE (set_wake (in_timer oid) (next_begin_time (analog_ins s2 oid)) s2))"

lemma analog_next_ok:
  "\<exists>s'. analog_next oid s = Ret SF_RESCHEDULE s' \<and> ai_value (analog_ins s' oid) = ai_value (analog_ins s oid) \<and>
    invalid_count (analog_ins s' oid) = invalid_count (analog_ins s oid)"
  by (simp add: analog_next_def Let_def)

lemma analog_run_samples:
  assumes "an_inv oid n us s" "length us + length vs = n" "vs \<noteq> []" "n < 256"
  shows "\<exists>s1. analog_run vs oid s = andthen (analog_range_check oid s1) (analog_next oid) \<and>
    ai_value (analog_ins s1 oid) = sum_list (us @ vs) \<and> shutdown_status s1 = shutdown_status s \<and>
    (analog_ins s1 oid)\<lparr>ai_value := 0, ai_state := 0\<rparr> = (analog_ins s oid)\<lparr>ai_value := 0, ai_state := 0\<rparr>"
  using assms
proof (induction vs arbitrary: us s)
  case (Cons v vs)
  show ?case
  proof (cases "vs = []")
    case True
    with Cons.prems have "Suc (length us) = n" by simp
    from analog_last_sample [OF Cons.prems(1) this Cons.prems(4), of v, folded analog_next_def]
    obtain s1 where 1: "analog_in_event 0 v oid s = andthen (analog_range_check oid s1) (analog_next oid)"
      "ai_value (analog_ins s1 oid) = sum_list (us @ [v])" "shutdown_status s1 = shutdown_status s"
      "analog_ins s1 oid = (analog_ins s oid)\<lparr>ai_value := sum_list (us @ [v]), ai_state := ai_sample_count (analog_ins s oid)\<rparr>"
      by blast
    have "analog_run (v # vs) oid s = andthen (analog_range_check oid s1) (analog_next oid)"
      unfolding True analog_run.simps 1(1)
      by (cases "analog_range_check oid s1") (simp_all add: analog_next_def Let_def)
    then show ?thesis using 1(2-4) True by (intro exI [of _ s1]) simp
  next
    case False
    with Cons.prems have "Suc (length us) < n" by (cases vs) auto
    from analog_sample [OF Cons.prems(1) this Cons.prems(4), of v] obtain s1 where
      1: "analog_in_event 0 v oid s = Ret SF_RESCHEDULE s1" "an_inv oid n (us @ [v]) s1" "shutdown_status s1 = shutdown_status s"
      "(analog_ins s1 oid)\<lparr>ai_value := 0, ai_state := 0\<rparr> = (analog_ins s oid)\<lparr>ai_value := 0, ai_state := 0\<rparr>" by blast
    have "length (us @ [v]) + length vs = n" using Cons.prems by simp
    from Cons.IH [OF 1(2) this False Cons.prems(4)] show ?thesis using 1 by auto
  qed
qed simp

lemma unat_sum_list:
  "sum_list (map unat vs) < 2 ^ LENGTH('a) \<Longrightarrow> unat (sum_list (vs :: 'a::len word list)) = sum_list (map unat vs)"
proof (induction vs)
  case (Cons v vs)
  then have "unat v + unat (sum_list vs) < 2 ^ LENGTH('a)" by simp
  then have "unat (v + sum_list vs) = unat v + unat (sum_list vs)" by (rule unat_add_lem [THEN iffD1])
  then show ?case using Cons by simp
qed simp

text \<open>
  A measurement of an analog input is the sum of its samples, exact as long as it fits 16 bits. In
  range it clears the count of bad measurements; out of range it counts one more, and the last
  one allowed in a row shuts the firmware down.
\<close>

theorem analog_measurement:
  fixes s :: "'a inputs_sys_scheme" and oid :: u8
  defines "a \<equiv> analog_ins s oid"
  assumes inv: "an_inv oid (length vs) [] s" and vs: "vs \<noteq> []" "length vs < 256" "sum_list (map unat vs) < 2 ^ 16"
    and st: "unat (invalid_count a) < unat (range_check_count a)" "shutdown_status s = 0"
  shows "if unat (min_value a) \<le> sum_list (map unat vs) \<and> sum_list (map unat vs) \<le> unat (max_value a)
    then \<exists>s'. analog_run vs oid s = Ret SF_RESCHEDULE s' \<and> unat (ai_value (analog_ins s' oid)) = sum_list (map unat vs) \<and>
      invalid_count (analog_ins s' oid) = 0
    else if Suc (unat (invalid_count a)) < unat (range_check_count a)
    then \<exists>s'. analog_run vs oid s = Ret SF_RESCHEDULE s' \<and> unat (ai_value (analog_ins s' oid)) = sum_list (map unat vs) \<and>
      unat (invalid_count (analog_ins s' oid)) = Suc (unat (invalid_count a))
    else \<exists>s'. analog_run vs oid s = Shut ''ADC out of range'' s'"
proof -
  have "length [] + length vs = length vs" by simp
  from analog_run_samples [OF inv this vs(1,2)] obtain s1 where
    1: "analog_run vs oid s = andthen (analog_range_check oid s1) (analog_next oid)"
    "ai_value (analog_ins s1 oid) = sum_list vs" "shutdown_status s1 = shutdown_status s"
    "(analog_ins s1 oid)\<lparr>ai_value := 0, ai_state := 0\<rparr> = a\<lparr>ai_value := 0, ai_state := 0\<rparr>" by (auto simp: a_def)
  have v: "unat (ai_value (analog_ins s1 oid)) = sum_list (map unat vs)" using 1(2) vs(3) by (simp add: unat_sum_list)
  have c: "invalid_count (analog_ins s1 oid) = invalid_count a" "range_check_count (analog_ins s1 oid) = range_check_count a"
    "min_value (analog_ins s1 oid) = min_value a" "max_value (analog_ins s1 oid) = max_value a"
    using arg_cong [OF 1(4), of invalid_count] arg_cong [OF 1(4), of range_check_count]
      arg_cong [OF 1(4), of min_value] arg_cong [OF 1(4), of max_value] by simp_all
  note rc = analog_range_check_ok [of s1 oid, unfolded c word_le_nat_alt v]
  show ?thesis
    using rc st 1(3) analog_next_ok [of oid] v unfolding 1(1) by (fastforce split: if_splits)
qed

text \<open>
  A pulse counter counts every change of its pin that the polling sees, starting from the level that
  the parity of the count stands for.
\<close>

theorem counter_counts_edges:
  "\<exists>s'. counter_events vs oid s = Ret () s' \<and>
    ct_count (counters s' oid) = ct_count (counters s oid) + of_nat (edges (bit_set (ct_count (counters s oid)) 1) vs)"
  by (rule counter_events_count)

section \<open>TMC uart\<close>

text \<open>
  The line of a TMC uart carries the message: the levels between the send events, each held a
  whole number of bit times, spell the bits from the current position to the end.
\<close>

theorem uart_sends_message_bits:
  assumes "sending oid data wc bt pos s" "t_func (timers s (tu_timer oid)) \<noteq> Some Fn_tmcuart_send_finish_event"
  shows "\<exists>ls. send_levels (wc - pos) oid s = Some (map (hold bt) ls) \<and> (\<forall>(l, k) \<in> set ls. 0 < k) \<and>
    concat (map (\<lambda>(l, k). replicate k l) ls) = map (data_bit data) [pos..<wc]"
  by (rule send_levels_bits [OF assms(1) order_refl assms(2)])

section \<open>Instances\<close>

text \<open>
  Two digital outputs, on, with an update to a tenth of the cycle time queued, and two pwm
  outputs with an update to 100.
\<close>

definition demo_outs :: outputs_sys where
  "demo_outs = mcu.extend
     (demo_mcu\<lparr>oids := Some [\<lparr>os_type = Some T_digital_out, os_data = Some 104\<rparr>, \<lparr>os_type = Some T_digital_out, os_data = Some 168\<rparr>],
        oid_count := 2,
        move_nodes := (\<lambda>_. \<lparr>mn_next = None, mn_data = Raw\<rparr>)
          (200 := \<lparr>mn_next = None, mn_data = DigitalMove 1000 160\<rparr>, 216 := \<lparr>mn_next = None, mn_data = PwmMove 1000 100\<rparr>)\<rparr>)
     (outputs_sys.fields
        (\<lambda>x. digital_out_zero\<lparr>do_pin := ucast x, do_max_duration := 5000, cycle_time := 1600, do_flags := 1,
           do_mq := \<lparr>mq_first = Some 200, mq_last = Some 200\<rparr>\<rparr>)
        (\<lambda>x. pwm_out_zero\<lparr>po_pin := ucast x, po_max_duration := 5000, po_mq := \<lparr>mq_first = Some 216, mq_last = Some 216\<rparr>\<rparr>)
        (\<lambda>_. 0))"

lemmas demo_outs_simps = demo_outs_def demo_mcu_def sched_init_def sched.defs mcu.defs outputs_sys.defs digital_out_zero_def
  pwm_out_zero_def timers_init_def

theorem digital_output_bounded_witness:
  "\<exists>s'. digital_load_event 0 demo_outs = Ret SF_RESCHEDULE s' \<and> wake s' (TObj 0 0) = 160 \<and>
     end_time (digital_outs s' 0) = 5000 \<and> by_end (wake s' (TObj 0 0)) (end_time (digital_outs s' 0))"
proof -
  let ?p = "\<lambda>s'. wake s' (TObj 0 0) = 160 \<and> end_time (digital_outs s' 0) = 5000 \<and> away (digital_outs s' 0) s'"
  have "\<exists>s'. digital_load_event 0 demo_outs = Ret SF_RESCHEDULE s' \<and> ?p s'"
    by (simp add: digital_load_event_def load_flags_def load_schedule_def move_queue_empty_def move_queue_pop_def
        move_queue_first_def move_free_def set_mn_next_def gpio_out_write_def upd_do_def set_wake_def set_func_def
        away_def df_flags before_unat demo_outs_simps Let_def)
  then obtain s' where r: "digital_load_event 0 demo_outs = Ret SF_RESCHEDULE s'" "?p s'" by blast
  have "do_max_duration (digital_outs demo_outs 0) \<noteq> 0" by (simp add: demo_outs_simps)
  from digital_output_bounded [OF r(1) this] show ?thesis using r by auto
qed

theorem outputs_default_at_shutdown_witness:
  "\<exists>s'. digital_out_shutdown demo_outs = Ret () s' \<and> defaulted s' (digital_outs demo_outs 1) 1"
proof -
  have o: "oids_ok demo_outs" "oids_of T_digital_out demo_outs = [0, 1]"
    by (simp_all add: oids_ok_def oids_of_def oid_table_def demo_outs_simps upt_rec)
  have "inj_on (\<lambda>x. do_pin (digital_outs demo_outs x)) (of_nat ` set (oids_of T_digital_out demo_outs))"
    unfolding o(2) by (simp add: demo_outs_simps)
  from outputs_default_at_shutdown [OF o(1) this] show ?thesis unfolding o(2) by auto
qed

theorem pwm_output_bounded_witness:
  "\<exists>s'. pwm_event 1 demo_outs = Ret SF_RESCHEDULE s' \<and> t_func (timers s' (TObj 1 0)) = Some Fn_pwm_end_event \<and>
     \<not> timer_is_before (wake demo_outs (TObj 1 0) + 5000) (wake s' (TObj 1 0))"
proof -
  let ?p = "\<lambda>s'. pwm_level s' 1 = 100 \<and> move_queue_empty (po_mq (pwm_outs s' 1))"
  have "\<exists>s'. pwm_event 1 demo_outs = Ret SF_RESCHEDULE s' \<and> ?p s'"
    by (simp add: pwm_event_def move_queue_empty_def move_queue_first_def move_queue_pop_def move_free_def set_mn_next_def gpio_pwm_write_def
        upd_po_def set_wake_def set_func_def demo_outs_simps Let_def)
  then obtain s' where r: "pwm_event 1 demo_outs = Ret SF_RESCHEDULE s'" "?p s'" by blast
  have d: "po_max_duration (pwm_outs demo_outs 1) = 5000" "po_pin (pwm_outs demo_outs 1) = 1"
    "default_value (pwm_outs demo_outs 1) = 0" by (simp_all add: demo_outs_simps)
  from pwm_output_bounded [OF r(1)] show ?thesis using r d by auto
qed

text \<open>Buttons with the first of three pins seen high once, and an analog input about to take three samples.\<close>

definition demo_inputs :: inputs_sys where
  "demo_inputs = mcu.extend demo_mcu
     (inputs_sys.fields (\<lambda>_. analog_in_zero\<lparr>ai_sample_count := 3, ai_state := 4, max_value := 4095, range_check_count := 1\<rparr>) 0
        (\<lambda>_. (buttons_zero 3)\<lparr>last_pressed := 1\<rparr>) 0 (\<lambda>_. counter_zero) 0)"

lemma demo_inputs_sel:
  "button_sets demo_inputs x = (buttons_zero 3)\<lparr>last_pressed := 1\<rparr>"
  "analog_ins demo_inputs x = analog_in_zero\<lparr>ai_sample_count := 3, ai_state := 4, max_value := 4095, range_check_count := 1\<rparr>"
  "shutdown_status demo_inputs = 0"
  by (simp_all add: demo_inputs_def demo_mcu_def sched_init_def sched.defs mcu.defs inputs_sys.defs)

theorem buttons_debounced_witness:
  "\<exists>s'. buttons_event [True, True, False] 5 demo_inputs = Ret SF_RESCHEDULE s' \<and> bit (pressed (button_sets s' 5)) 0"
  using buttons_debounced [of "[True, True, False]" demo_inputs 5 0] by (auto simp: demo_inputs_sel buttons_zero_def)

theorem analog_measurement_witness:
  "\<exists>s'. analog_run [2000, 2000, 2000] 1 demo_inputs = Shut ''ADC out of range'' s'"
  using analog_measurement [of 1 "[2000, 2000, 2000]" demo_inputs]
  by (simp add: an_inv_def demo_inputs_sel analog_in_zero_def)

text \<open>A uart that sends the byte \<open>0x2a\<close>, its line idle.\<close>

definition demo_uart :: tmcuart_sys where
  "demo_uart = mcu.extend (demo_mcu\<lparr>pin_out := \<lambda>_. True\<rparr>)
     (tmcuart_sys.fields (\<lambda>_. tmcuart_zero\<lparr>tu_flags := 1, tu_write_count := 8, tu_bit_time := 100, tu_data := [0x2a]\<rparr>) 0)"

theorem uart_sends_message_bits_witness:
  "\<exists>ls. send_levels 8 1 demo_uart = Some (map (hold 100) ls) \<and>
     concat (map (\<lambda>(l, k). replicate k l) ls) = [False, True, False, True, False, True, False, False]"
proof -
  have "\<not> bit (0x2a :: u8) 0" by simp
  then have s: "sending 1 [0x2a] 8 100 0 demo_uart" "t_func (timers demo_uart (TObj 1 0)) \<noteq> Some Fn_tmcuart_send_finish_event"
    by (simp_all add: sending_def tu_line_def demo_uart_def demo_mcu_def sched_init_def sched.defs mcu.defs tmcuart_sys.defs
        tmcuart_zero_def data_bit_def TU_LINE_HIGH_def bit_set_def timers_init_def)
  have "map (data_bit [0x2a]) [0..<8] = [False, True, False, True, False, True, False, False]"
    by (simp add: data_bit_def upt_rec)
  then show ?thesis using uart_sends_message_bits [OF s(1)] s(2) by auto
qed

end
