(* ===== verification/Serial.thy ===== *)
theory Serial
  imports Framing Dispatch
begin

text \<open>
  The interrupt driven serial console, \<open>klipper/src/generic/serial_irq.c\<close>: receive and
  transmit buffers shared between the tasks and the interrupts of the serial port, and the
  contract of a receive buffer that is emptied while it is being filled (locale
  \<open>racing_buffer\<close>), which the CAN console meets as well. Interrupts that arrive while a task
  runs are explicit arguments, placed where the code re-reads the shared positions.
\<close>

section \<open>State\<close>

text \<open>
  \<open>tx_line\<close> are the bytes the transmit interrupt has taken, \<open>task_wakes\<close> counts the calls of
  \<open>sched_wake_tasks\<close>.
\<close>

record serial = cmd_state +
  receive_buf :: "u8 list"
  receive_pos :: nat
  transmit_buf :: "u8 list"
  transmit_pos :: nat
  transmit_max :: nat
  tx_line :: "u8 list"
  task_wakes :: nat

definition RX_BUFFER_SIZE :: nat where "RX_BUFFER_SIZE = 192"
definition TX_BUFFER_SIZE :: nat where "TX_BUFFER_SIZE = 96"

definition wake_tasks :: "'a serial_scheme \<Rightarrow> 'a serial_scheme" where
  "wake_tasks s = s\<lparr>task_wakes := Suc (task_wakes s)\<rparr>"

section \<open>Interrupts\<close>

definition serial_rx_byte :: "u8 \<Rightarrow> 'a serial_scheme \<Rightarrow> 'a serial_scheme" where
  "serial_rx_byte data s =
     (let s1 = (if data = MESSAGE_SYNC then wake_tasks s else s)
      in if receive_pos s1 \<ge> RX_BUFFER_SIZE then s1
         else s1\<lparr>receive_buf := (receive_buf s1)[receive_pos s1 := data],
                 receive_pos := Suc (receive_pos s1)\<rparr>)"

definition serial_get_tx_byte :: "'a serial_scheme \<Rightarrow> u8 option \<times> 'a serial_scheme" where
  "serial_get_tx_byte s =
     (if transmit_pos s \<ge> transmit_max s then (None, s)
      else (Some (transmit_buf s ! transmit_pos s), s\<lparr>transmit_pos := Suc (transmit_pos s)\<rparr>))"

text \<open>A burst of received bytes, and \<open>n\<close> transmit interrupts.\<close>

definition rx_burst :: "u8 list \<Rightarrow> 'a serial_scheme \<Rightarrow> 'a serial_scheme" where
  "rx_burst bs s = foldl (\<lambda>s b. serial_rx_byte b s) s bs"

fun tx_irqs :: "nat \<Rightarrow> 'a serial_scheme \<Rightarrow> 'a serial_scheme" where
  "tx_irqs 0 s = s"
| "tx_irqs (Suc n) s =
     tx_irqs n (case serial_get_tx_byte s of
                  (None, s) \<Rightarrow> s | (Some b, s) \<Rightarrow> s\<lparr>tx_line := tx_line s @ [b]\<rparr>)"

section \<open>Receiving\<close>

definition memmove :: "'a list \<Rightarrow> nat \<Rightarrow> nat \<Rightarrow> nat \<Rightarrow> 'a list" where
  "memmove buf dst src n = blit buf dst (take n (drop src buf))"

definition pop_copy :: "nat \<Rightarrow> nat \<Rightarrow> nat \<Rightarrow> 'a serial_scheme \<Rightarrow> 'a serial_scheme" where
  "pop_copy dst src n s = wake_tasks (s\<lparr>receive_buf := memmove (receive_buf s) dst src n\<rparr>)"

text \<open>
  The loop of \<open>console_pop_input\<close>: each pair gives the bytes that arrive in a round before and
  after the copy. \<open>None\<close>: the loop is still running when the list ends.
\<close>

fun pop_loop :: "nat \<Rightarrow> nat \<Rightarrow> (u8 list \<times> u8 list) list \<Rightarrow> 'a serial_scheme \<Rightarrow> 'a serial_scheme option" where
  "pop_loop len copied [] s = None"
| "pop_loop len copied ((b1, b2) # bs) s =
     (let rpos = receive_pos s;
          s1 = rx_burst b1 s;
          needcopy = rpos - len;
          s2 = (if needcopy \<noteq> 0 then pop_copy copied (copied + len) (needcopy - copied) s1 else s1);
          copied = (if needcopy \<noteq> 0 then needcopy else copied);
          s3 = rx_burst b2 s2
      in if rpos \<noteq> receive_pos s3 then pop_loop len copied bs s3
         else Some (s3\<lparr>receive_pos := needcopy\<rparr>))"

definition console_pop_input ::
    "(u8 list \<times> u8 list) list \<Rightarrow> nat \<Rightarrow> 'a serial_scheme \<Rightarrow> ('a serial_scheme, unit) res" where
  "console_pop_input irqs len s = (case pop_loop len 0 irqs s of None \<Rightarrow> Fault | Some s \<Rightarrow> Ret () s)"

section \<open>Transmitting\<close>

text \<open>
  \<open>n1\<close>, \<open>n2\<close>, \<open>n3\<close> transmit interrupts arrive after the positions are read, after
  \<open>transmit_max\<close> is cleared, and while the message is generated.
\<close>

text \<open>
  The first part makes room: \<open>None\<close> if the message does not fit, otherwise the index it is
  written to.
\<close>

definition sendf_room :: "nat \<Rightarrow> nat \<Rightarrow> nat \<Rightarrow> 'a serial_scheme \<Rightarrow> nat option \<times> 'a serial_scheme" where
  "sendf_room n1 n2 max_size s =
     (let tpos = transmit_pos s; tmax = transmit_max s;
          (tpos, tmax, s) = (if tpos \<ge> tmax then (0, 0, s\<lparr>transmit_max := 0, transmit_pos := 0\<rparr>)
                             else (tpos, tmax, tx_irqs n1 s))
      in if tmax + max_size > TX_BUFFER_SIZE then
           (if tmax + max_size - tpos > TX_BUFFER_SIZE then (None, s)
            else
              (let s1 = tx_irqs n2 (s\<lparr>transmit_max := 0\<rparr>);
                   tpos = transmit_pos s1;
                   tmax = tmax - tpos
               in (Some tmax, s1\<lparr>transmit_buf := memmove (transmit_buf s1) 0 tpos tmax,
                                 transmit_pos := 0, transmit_max := tmax\<rparr>)))
         else (Some tmax, s))"

definition console_sendf :: "nat \<Rightarrow> nat \<Rightarrow> nat \<Rightarrow> bool \<Rightarrow> 'a serial_scheme console" where
  "console_sendf n1 n2 n3 int16 ce args s =
     (case sendf_room n1 n2 (ce_max_size ce) s of
        (None, s) \<Rightarrow> Ret () s
      | (Some tmax, s) \<Rightarrow>
          bnd (command_encode_and_frame int16 (drop tmax (transmit_buf s)) ce args s)
            (\<lambda>(msglen, mem) s.
               Ret () ((tx_irqs n3 (s\<lparr>transmit_buf := take tmax (transmit_buf s) @ mem\<rparr>))
                         \<lparr>transmit_max := tmax + msglen\<rparr>)))"

section \<open>The console task\<close>

text \<open>
  \<open>boot\<close> is the board's \<open>bootloader_request\<close> where there is one; \<open>sendf\<close> is the transport's
  \<open>console_sendf\<close>; \<open>irqs\<close> are the interrupts during \<open>console_pop_input\<close>.
\<close>

definition boot_request :: "u8 list" where
  "boot_request = [0x20, 0x1c, 0x20, 0x52, 0x65, 0x71, 0x75, 0x65, 0x73, 0x74, 0x20, 0x53, 0x65,
     0x72, 0x69, 0x61, 0x6c, 0x20, 0x42, 0x6f, 0x6f, 0x74, 0x6c, 0x6f, 0x61, 0x64, 0x65, 0x72,
     0x21, 0x21, 0x20, 0x7e]"

definition console_task ::
    "('a serial_scheme \<Rightarrow> ('a serial_scheme, unit) res) option \<Rightarrow> 'a serial_scheme console
      \<Rightarrow> ('f, 'a serial_scheme) dispatch_env \<Rightarrow> (u8 list \<times> u8 list) list
      \<Rightarrow> 'a serial_scheme \<Rightarrow> ('a serial_scheme, unit) res" where
  "console_task boot sendf e irqs s =
     bnd (command_find_block sendf (take (receive_pos s) (receive_buf s)) s) (\<lambda>(ret, pop_count) s.
       andthen (if ret > 0 then command_dispatch e (receive_buf s) pop_count s else Ret () s) (\<lambda>s.
         if ret = 0 then Ret () s
         else
           andthen (case boot of
                      None \<Rightarrow> Ret () s
                    | Some b \<Rightarrow>
                        if ret < 0 \<and> pop_count = 32 \<and> take 32 (receive_buf s) = boot_request
                        then b s else Ret () s) (\<lambda>s.
           andthen (console_pop_input irqs pop_count s) (\<lambda>s.
             if ret > 0 then command_send_ack sendf s else Ret () s))))"

section \<open>Emptying a buffer while it is being filled\<close>

text \<open>
  The contract: interrupts \<open>irq e\<close>, for well-formed events, append the bytes \<open>dat s e\<close> behind \<open>pos\<close> as long as
  there is room; the copy moves bytes inside the buffer. \<open>loop\<close> is the loop that removes \<open>len\<close>
  bytes from the front.
\<close>

locale racing_buffer =
  fixes ok :: "'e \<Rightarrow> bool" and buf :: "'s \<Rightarrow> u8 list" and pos :: "'s \<Rightarrow> nat" and dat :: "'s \<Rightarrow> 'e \<Rightarrow> u8 list"
    and irq :: "'e \<Rightarrow> 's \<Rightarrow> 's" and copy :: "nat \<Rightarrow> nat \<Rightarrow> nat \<Rightarrow> 's \<Rightarrow> 's" and setpos :: "nat \<Rightarrow> 's \<Rightarrow> 's"
    and loop :: "nat \<Rightarrow> nat \<Rightarrow> ('e \<times> 'e) list \<Rightarrow> 's \<Rightarrow> 's option" and cap :: nat
  assumes irq_law: "ok e \<Longrightarrow> length (buf s) = cap \<Longrightarrow> pos s + length (dat s e) \<le> cap \<Longrightarrow>
      pos (irq e s) = pos s + length (dat s e) \<and> buf (irq e s) = blit (buf s) (pos s) (dat s e) \<and>
      dat (irq e s) = dat s"
    and copy_law: "buf (copy d o1 n s) = memmove (buf s) d o1 n" "pos (copy d o1 n s) = pos s"
      "dat (copy d o1 n s) = dat s"
    and setpos_law: "buf (setpos n s) = buf s" "pos (setpos n s) = n"
    and loop_Nil: "loop len c [] s = None"
    and loop_Cons: "loop len c ((i, j) # es) s =
      (let rpos = pos s; s1 = irq i s; nc = rpos - len;
           s2 = (if nc \<noteq> 0 then copy c (c + len) (nc - c) s1 else s1);
           c = (if nc \<noteq> 0 then nc else c); s3 = irq j s2
       in if rpos \<noteq> pos s3 then loop len c es s3 else Some (setpos nc s3))"
begin

definition contents :: "'s \<Rightarrow> u8 list" where "contents s = take (pos s) (buf s)"

definition arriving :: "'s \<Rightarrow> ('e \<times> 'e) list \<Rightarrow> u8 list" where
  "arriving s es = concat (map (\<lambda>(i, j). dat s i @ dat s j) es)"

definition busy :: "'s \<Rightarrow> ('e \<times> 'e) list \<Rightarrow> ('e \<times> 'e) list" where
  "busy s es = takeWhile (\<lambda>(i, j). dat s i @ dat s j \<noteq> []) es"

text \<open>
  In the middle of the loop: of the byte stream \<open>T\<close> received since the start, the first \<open>c\<close>
  bytes behind \<open>len\<close> are in place and the rest is where it arrived.
\<close>

definition mid :: "nat \<Rightarrow> u8 list \<Rightarrow> nat \<Rightarrow> 's \<Rightarrow> bool" where
  "mid len T c s \<longleftrightarrow> length (buf s) = cap \<and> pos s = length T \<and> pos s \<le> cap \<and> c + len \<le> pos s \<and>
     take c (buf s) = take c (drop len T) \<and> drop (c + len) (take (pos s) (buf s)) = drop (c + len) T"

lemma mid_irq:
  assumes "mid len T c s" "length T + length (dat s e) \<le> cap" "ok e"
  shows "mid len (T @ dat s e) c (irq e s) \<and> dat (irq e s) = dat s"
proof -
  have i: "pos (irq e s) = pos s + length (dat s e)" "buf (irq e s) = blit (buf s) (pos s) (dat s e)"
    "dat (irq e s) = dat s"
    using irq_law [of e s] assms by (simp_all add: mid_def)
  have l: "pos s + length (dat s e) \<le> length (buf s)" "c + len \<le> pos s" "length T = pos s"
    using assms by (simp_all add: mid_def)
  have "take c (blit (buf s) (pos s) (dat s e)) = take c (buf s)"
    using l by (simp add: blit_def min_def)
  moreover have "drop (c + len) (take (pos s + length (dat s e)) (blit (buf s) (pos s) (dat s e))) =
      drop (c + len) (take (pos s) (buf s)) @ dat s e"
    using l by (simp add: take_blit)
  ultimately show ?thesis using assms l i by (simp add: mid_def)
qed

lemma mid_copy:
  assumes "mid len T c s" "n + len \<le> length T" "c \<le> n"
  shows "mid len T n (copy c (c + len) (n - c) s)"
proof -
  have m: "length (buf s) = cap" "pos s = length T" "pos s \<le> cap" "c + len \<le> pos s"
    "take c (buf s) = take c (drop len T)" "drop (c + len) (take (length T) (buf s)) = drop (c + len) T"
    using assms(1) unfolding mid_def by auto
  let ?x = "take (n - c) (drop (c + len) (buf s))"
  have le: "n - c \<le> length T - (c + len)" using assms by arith
  have "?x = take (n - c) (drop (c + len) (take (length T) (buf s)))"
    by (simp only: drop_take take_take min_absorb1 [OF le])
  then have x: "?x = take (n - c) (drop c (drop len T))" by (simp add: m(6) add.commute)
  have lx: "length ?x = n - c" using assms m by simp
  have "take n (blit (buf s) c ?x) = take c (buf s) @ ?x"
    using take_blit [of c ?x "buf s"] lx assms m by simp
  also have "\<dots> = take n (drop len T)"
    unfolding x m(5) using assms(3) by (metis le_add_diff_inverse take_add)
  finally have a: "take n (blit (buf s) c ?x) = take n (drop len T)" .
  have "drop (n + len) (blit (buf s) c ?x) = drop (n + len) (buf s)"
    using lx assms m by (simp add: blit_def add.commute)
  then have "drop (n + len) (take (length T) (blit (buf s) c ?x)) = drop (n + len) (take (length T) (buf s))"
    by (simp add: drop_take)
  also have "\<dots> = drop (n - c) (drop (c + len) (take (length T) (buf s)))"
    using assms(3) by (simp add: add.commute)
  also have "\<dots> = drop (n + len) T" unfolding m(6) using assms(3) by (simp add: add.commute)
  finally have b: "drop (n + len) (take (length T) (blit (buf s) c ?x)) = drop (n + len) T" .
  have "length (blit (buf s) c ?x) = cap" using lx assms m by (subst length_blit) simp_all
  then show ?thesis using a b m assms by (simp add: mid_def copy_law memmove_def)
qed

lemma loop_mid:
  assumes "mid len T c s" "length T + length (arriving s (busy s es)) \<le> cap" "len \<le> length T"
    "list_all (\<lambda>(i, j). ok i \<and> ok j) es"
  shows "(busy s es = es \<longrightarrow> loop len c es s = None) \<and>
    (busy s es \<noteq> es \<longrightarrow> (\<exists>s'. loop len c es s = Some s' \<and> length (buf s') = cap \<and>
       contents s' = drop len (T @ arriving s (busy s es))))"
  using assms
proof (induction es arbitrary: T c s)
  case Nil
  then show ?case by (simp add: loop_Nil busy_def)
next
  case (Cons ij es)
  obtain i j where ij: "ij = (i, j)" by (cases ij)
  have okij: "ok i" "ok j" "list_all (\<lambda>(i, j). ok i \<and> ok j) es" using Cons.prems(4) by (simp_all add: ij)
  let ?nc = "length T - len"
  have pos: "pos s = length T" "c + len \<le> length T" using Cons.prems(1) by (simp_all add: mid_def)
  define s1 where "s1 = irq i s"
  define s2 where "s2 = (if ?nc \<noteq> 0 then copy c (c + len) (?nc - c) s1 else s1)"
  define s3 where "s3 = irq j s2"
  let ?c = "if ?nc \<noteq> 0 then ?nc else c"
  have c: "?c = ?nc" using pos by auto
  have busy: "busy s (ij # es) = (if dat s i @ dat s j = [] then [] else ij # busy s es)"
    by (simp add: busy_def ij)
  have room: "length T + (length (dat s i) + length (dat s j)) \<le> cap"
  proof (cases "dat s i @ dat s j = []")
    case True
    then show ?thesis using Cons.prems(1) by (simp add: mid_def)
  next
    case False
    then have "busy s (ij # es) = ij # busy s es" using busy by simp
    then show ?thesis using Cons.prems(2) by (simp add: arriving_def ij)
  qed
  have 1: "mid len (T @ dat s i) c s1" "dat s1 = dat s"
    using mid_irq [OF Cons.prems(1) _ okij(1)] room by (simp_all add: s1_def)
  have 2: "mid len (T @ dat s i) ?nc s2" "dat s2 = dat s"
  proof -
    show "mid len (T @ dat s i) ?nc s2"
      using mid_copy [OF 1(1), of ?nc] pos c 1(1) Cons.prems(3) by (auto simp: s2_def split: if_splits)
    show "dat s2 = dat s" using 1(2) by (simp add: s2_def copy_law)
  qed
  have 3: "mid len (T @ dat s i @ dat s j) ?nc s3" "dat s3 = dat s"
    using mid_irq [OF 2(1) _ okij(2)] room 2(2) by (simp_all add: s3_def)
  have p3: "pos s3 = length T + (length (dat s i) + length (dat s j))" using 3(1) by (simp add: mid_def)
  have step: "loop len c (ij # es) s = (if length T \<noteq> pos s3 then loop len ?nc es s3 else Some (setpos ?nc s3))"
    unfolding ij loop_Cons Let_def pos(1) using c by (simp add: s1_def s2_def s3_def)
  show ?case
  proof (cases "dat s i @ dat s j = []")
    case True
    then have "loop len c (ij # es) s = Some (setpos ?nc s3)" using step p3 by simp
    moreover have "take ?nc (buf s3) = drop len T"
      using 3(1) True by (simp add: mid_def)
    moreover have "length (buf s3) = cap" using 3(1) by (simp add: mid_def)
    ultimately show ?thesis
      using busy True by (simp add: contents_def setpos_law arriving_def)
  next
    case False
    then have st: "loop len c (ij # es) s = loop len ?nc es s3" using step p3 by auto
    have b: "busy s3 es = busy s es" "arriving s3 x = arriving s x" for x
      using 3(2) by (simp_all add: busy_def arriving_def)
    have bz: "busy s (ij # es) = ij # busy s es" using False unfolding busy by simp
    have ar: "arriving s (busy s (ij # es)) = (dat s i @ dat s j) @ arriving s (busy s es)"
      unfolding bz by (simp add: arriving_def ij)
    have "length (T @ dat s i @ dat s j) + length (arriving s3 (busy s3 es)) \<le> cap"
      using Cons.prems(2) unfolding ar b by simp
    moreover have "?nc + len \<le> length (T @ dat s i @ dat s j)" "len \<le> length (T @ dat s i @ dat s j)"
      using Cons.prems(3) by simp_all
    ultimately show ?thesis
      using Cons.IH [OF 3(1) _ _ okij(3)] Cons.prems(3) unfolding st ar b by (simp add: bz)
  qed
qed

text \<open>
  The loop removes exactly \<open>len\<close> bytes: whatever arrives meanwhile is kept behind the rest. It
  ends in the first round in which nothing arrives.
\<close>

lemma loop_ok:
  assumes "length (buf s) = cap" "pos s \<le> cap" "len \<le> pos s"
    "pos s + length (arriving s (busy s es)) \<le> cap" "list_all (\<lambda>(i, j). ok i \<and> ok j) es"
  shows "(busy s es = es \<longrightarrow> loop len 0 es s = None) \<and>
    (busy s es \<noteq> es \<longrightarrow> (\<exists>s'. loop len 0 es s = Some s' \<and> length (buf s') = cap \<and>
       contents s' = drop len (contents s @ arriving s (busy s es))))"
proof -
  have m: "mid len (contents s) 0 s" and l: "length (contents s) = pos s"
    using assms by (simp_all add: mid_def contents_def)
  show ?thesis using loop_mid [OF m, of es] assms l by simp
qed

end

section \<open>The serial receive buffer\<close>

lemma rx_burst_ok:
  assumes "length (receive_buf s) = RX_BUFFER_SIZE" "receive_pos s + length bs \<le> RX_BUFFER_SIZE"
  shows "receive_pos (rx_burst bs s) = receive_pos s + length bs \<and>
    receive_buf (rx_burst bs s) = blit (receive_buf s) (receive_pos s) bs"
  using assms
proof (induction bs arbitrary: s)
  case (Cons b bs)
  let ?s = "serial_rx_byte b s"
  have 1: "receive_pos ?s = Suc (receive_pos s)" "receive_buf ?s = (receive_buf s)[receive_pos s := b]"
    using Cons.prems by (simp_all add: serial_rx_byte_def Let_def wake_tasks_def)
  have "blit ((receive_buf s)[receive_pos s := b]) (Suc (receive_pos s)) bs =
      blit (receive_buf s) (receive_pos s) (b # bs)"
    using Cons.prems by (simp add: blit_def take_Suc_conv_app_nth)
  then show ?case
    using Cons.IH [of ?s] Cons.prems 1 by (simp add: rx_burst_def)
qed (simp add: rx_burst_def blit_def)

interpretation rx: racing_buffer "\<lambda>_. True" receive_buf receive_pos "\<lambda>s e. e" rx_burst pop_copy
  "\<lambda>n s. s\<lparr>receive_pos := n\<rparr>" pop_loop RX_BUFFER_SIZE
  by unfold_locales (simp_all add: rx_burst_ok pop_copy_def wake_tasks_def Let_def)

section \<open>The transmit buffer\<close>

definition tx_ok :: "'a serial_scheme \<Rightarrow> bool" where
  "tx_ok s \<longleftrightarrow> length (transmit_buf s) = TX_BUFFER_SIZE \<and> transmit_pos s \<le> transmit_max s \<and>
     transmit_max s \<le> TX_BUFFER_SIZE"

text \<open>Bytes that wait to be sent, and the whole stream with the bytes already sent.\<close>

definition tx_pending :: "'a serial_scheme \<Rightarrow> u8 list" where
  "tx_pending s = drop (transmit_pos s) (take (transmit_max s) (transmit_buf s))"

definition tx_stream :: "'a serial_scheme \<Rightarrow> u8 list" where
  "tx_stream s = tx_line s @ tx_pending s"

lemma tx_irqs_ok:
  assumes "tx_ok s"
  shows "tx_ok (tx_irqs n s) \<and> tx_stream (tx_irqs n s) = tx_stream s \<and>
    transmit_buf (tx_irqs n s) = transmit_buf s \<and> transmit_max (tx_irqs n s) = transmit_max s \<and>
    next_sequence (tx_irqs n s) = next_sequence s"
  using assms
proof (induction n arbitrary: s)
  case (Suc n)
  show ?case
  proof (cases "transmit_pos s \<ge> transmit_max s")
    case True
    then show ?thesis using Suc by (simp add: serial_get_tx_byte_def)
  next
    case False
    let ?s = "s\<lparr>transmit_pos := Suc (transmit_pos s), tx_line := tx_line s @ [transmit_buf s ! transmit_pos s]\<rparr>"
    have "drop (transmit_pos s) (take (transmit_max s) (transmit_buf s)) =
        transmit_buf s ! transmit_pos s # drop (Suc (transmit_pos s)) (take (transmit_max s) (transmit_buf s))"
      using False Suc.prems by (subst Cons_nth_drop_Suc [symmetric]) (simp_all add: tx_ok_def)
    then have "tx_stream ?s = tx_stream s" by (simp add: tx_stream_def tx_pending_def)
    moreover have "tx_ok ?s" using False Suc.prems by (simp add: tx_ok_def)
    ultimately show ?thesis using Suc.IH [of ?s] False by (simp add: serial_get_tx_byte_def)
  qed
qed simp

lemma sendf_room_ok:
  assumes ok: "tx_ok s"
  shows "\<exists>r s1. sendf_room n1 n2 m s = (r, s1) \<and> tx_ok s1 \<and> tx_stream s1 = tx_stream s \<and>
    next_sequence s1 = next_sequence s \<and>
    (if length (tx_pending s) + m > TX_BUFFER_SIZE then r = None
     else r = Some (transmit_max s1) \<and> transmit_max s1 + m \<le> TX_BUFFER_SIZE)"
proof -
  have pl: "length (tx_pending s) = transmit_max s - transmit_pos s" using ok by (simp add: tx_ok_def tx_pending_def)
  show ?thesis
  proof (cases "transmit_pos s \<ge> transmit_max s")
    case True
    let ?s = "s\<lparr>transmit_max := 0, transmit_pos := 0\<rparr>"
    have "tx_ok ?s" "tx_stream ?s = tx_stream s" using ok True by (simp_all add: tx_ok_def tx_stream_def tx_pending_def)
    then show ?thesis using True pl by (auto simp: sendf_room_def Let_def)
  next
    case False
    let ?s = "tx_irqs n1 s"
    note i = tx_irqs_ok [OF ok, of n1]
    show ?thesis
    proof (cases "transmit_max s + m > TX_BUFFER_SIZE \<and> \<not> transmit_max s + m - transmit_pos s > TX_BUFFER_SIZE")
      case F: False
      then show ?thesis
        using False i pl ok by (auto simp: sendf_room_def Let_def tx_ok_def)
    next
      case True
      have quiet: "tx_irqs n (t\<lparr>transmit_max := 0\<rparr>) = t\<lparr>transmit_max := 0\<rparr>" for n and t :: "'a serial_scheme"
        by (induction n) (simp_all add: serial_get_tx_byte_def)
      let ?n = "transmit_max s - transmit_pos ?s"
      let ?t = "?s\<lparr>transmit_buf := memmove (transmit_buf ?s) 0 (transmit_pos ?s) ?n, transmit_pos := 0, transmit_max := ?n\<rparr>"
      have le: "transmit_pos ?s \<le> transmit_max s" "transmit_max s \<le> TX_BUFFER_SIZE" "length (transmit_buf s) = TX_BUFFER_SIZE"
        using i ok by (simp_all add: tx_ok_def)
      have mv: "take ?n (memmove (transmit_buf s) 0 (transmit_pos ?s) ?n) = drop (transmit_pos ?s) (take (transmit_max s) (transmit_buf s))"
        using le by (simp add: memmove_def blit_def drop_take)
      have "length (memmove (transmit_buf s) 0 (transmit_pos ?s) ?n) = TX_BUFFER_SIZE"
        using le unfolding memmove_def by (subst length_blit) auto
      moreover have "?n \<le> TX_BUFFER_SIZE" using le by arith
      ultimately have "tx_ok ?t" using i le by (simp add: tx_ok_def)
      moreover have "tx_stream ?t = tx_stream s"
      proof -
        have "transmit_max ?s = transmit_max s" "transmit_buf ?s = transmit_buf s" "tx_stream ?s = tx_stream s"
          using i by simp_all
        then show ?thesis using mv by (simp add: tx_stream_def tx_pending_def)
      qed
      moreover have "transmit_pos s \<le> transmit_pos ?s"
      proof -
        have "length (tx_line s @ tx_pending s) = length (tx_line ?s @ tx_pending ?s)" using i by (simp add: tx_stream_def)
        moreover have "length (tx_line s) \<le> length (tx_line ?s)"
        proof -
          have "length (tx_line t) \<le> length (tx_line (tx_irqs n t))" for n and t :: "'a serial_scheme"
          proof (induction n arbitrary: t)
            case (Suc n)
            then show ?case by (fastforce simp: serial_get_tx_byte_def intro: order_trans [OF _ Suc.IH] split: if_splits)
          qed simp
          then show ?thesis .
        qed
        ultimately show ?thesis using i ok by (auto simp: tx_pending_def tx_ok_def)
      qed
      moreover have "sendf_room n1 n2 m s = (Some ?n, ?t)"
        using True False i by (simp add: sendf_room_def Let_def quiet)
      ultimately show ?thesis using True i pl le by auto
    qed
  qed
qed

lemma encodef_loop_state:
  "encodef_loop int16 room ts args out s = Ret r s' \<Longrightarrow> s' = s \<and> encodef_loop int16 room ts args out t = Ret r t"
proof (induction int16 room ts args out s rule: encodef_loop.induct)
  case (2 int16 room x ts args out s)
  then show ?case
    by (auto simp: Let_def split: if_splits list.splits varg.splits)
qed simp

lemma encodef_state:
  assumes "command_encodef int16 ce args s = Ret r s'"
  shows "s' = s \<and> command_encodef int16 ce args t = Ret r t"
proof (cases "ce_max_size ce \<le> MESSAGE_MIN")
  case False
  then obtain o1 where o1: "encodef_loop int16 (ce_max_size ce - MESSAGE_MIN) (ce_param_types ce) args [ce_msg_id ce] s = Ret o1 s'"
    "r = (MESSAGE_HEADER_SIZE + length o1 + MESSAGE_TRAILER_SIZE, o1)"
    using assms by (auto simp: command_encodef_def bnd_eq_Ret)
  from encodef_loop_state [OF o1(1), of t] False o1(2) show ?thesis by (simp add: command_encodef_def)
qed (use assms in \<open>simp add: command_encodef_def\<close>)

text \<open>
  A message either is dropped as a whole, exactly when it might not fit behind what is still
  waiting, or is appended to the stream as one frame. Bytes are sent in order, none is lost and
  none is sent twice, whenever the transmit interrupts come.
\<close>

lemma console_sendf_ok:
  assumes ok: "tx_ok s" and enc: "command_encodef int16 ce args s = Ret (length out + 5, out) s'"
    and fits: "length out + 5 \<le> ce_max_size ce"
  shows "\<exists>s2. console_sendf n1 n2 n3 int16 ce args s = Ret () s2 \<and> tx_ok s2 \<and>
    tx_stream s2 = tx_stream s @
      (if length (tx_pending s) + ce_max_size ce > TX_BUFFER_SIZE then [] else frame (next_sequence s) out)"
proof -
  obtain r s1 where r: "sendf_room n1 n2 (ce_max_size ce) s = (r, s1)" "tx_ok s1" "tx_stream s1 = tx_stream s"
    "next_sequence s1 = next_sequence s"
    "if length (tx_pending s) + ce_max_size ce > TX_BUFFER_SIZE then r = None
     else r = Some (transmit_max s1) \<and> transmit_max s1 + ce_max_size ce \<le> TX_BUFFER_SIZE"
    using sendf_room_ok [OF ok] by blast
  show ?thesis
  proof (cases "length (tx_pending s) + ce_max_size ce > TX_BUFFER_SIZE")
    case True
    then show ?thesis using r by (simp add: console_sendf_def)
  next
    case False
    let ?m = "transmit_max s1" and ?f = "frame (next_sequence s) out"
    let ?mem = "drop ?m (transmit_buf s1)"
    have room: "r = Some ?m" "?m + ce_max_size ce \<le> TX_BUFFER_SIZE" using r(5) False by simp_all
    have len: "length out + 5 \<le> length ?mem" using r(2) room(2) fits unfolding tx_ok_def by simp
    then have fr: "command_encode_and_frame int16 ?mem ce args s1 =
        Ret (length out + 5, ?f @ drop (length out + 5) ?mem) s1"
      using encodef_state [OF enc, of s1] add_frame_frame [OF len, of "next_sequence s1"] r(4)
      by (simp add: command_encode_and_frame_def message_consts)
    let ?s2 = "s1\<lparr>transmit_buf := take ?m (transmit_buf s1) @ ?f @ drop (length out + 5) ?mem\<rparr>"
    have ok2: "tx_ok ?s2" "tx_stream ?s2 = tx_stream s1" "take ?m (transmit_buf ?s2) = take ?m (transmit_buf s1)"
      using r(2) len by (auto simp: tx_ok_def tx_stream_def tx_pending_def)
    define s3 where "s3 = tx_irqs n3 ?s2"
    let ?s4 = "s3\<lparr>transmit_max := ?m + (length out + 5)\<rparr>"
    have i: "tx_ok s3" "tx_stream s3 = tx_stream ?s2" "transmit_buf s3 = transmit_buf ?s2" "transmit_max s3 = ?m"
      using tx_irqs_ok [OF ok2(1), of n3] unfolding s3_def by simp_all
    have m96: "?m + (length out + 5) \<le> TX_BUFFER_SIZE" using room fits by arith
    have p3: "transmit_pos s3 \<le> ?m" using i(1,4) by (simp add: tx_ok_def)
    have lb: "?m \<le> length (transmit_buf s1)" using r(2) by (simp add: tx_ok_def)
    then have "take (?m + (length out + 5)) (transmit_buf ?s2) = take ?m (transmit_buf s1) @ ?f"
      by simp
    then have "tx_pending ?s4 = tx_pending s3 @ ?f"
      using p3 lb by (simp add: tx_pending_def i(3,4))
    then have "tx_stream ?s4 = tx_stream s @ ?f" using i(2) ok2(2) r(3) by (simp add: tx_stream_def)
    moreover have "tx_ok ?s4" using i(1) m96 p3 by (simp add: tx_ok_def)
    moreover have "console_sendf n1 n2 n3 int16 ce args s = Ret () ?s4"
      using r(1) room(1) by (simp add: console_sendf_def fr s3_def)
    ultimately show ?thesis using False by simp
  qed
qed

end
