(* ===== verification/Canserial.thy ===== *)
theory Canserial
  imports Serial
begin

text \<open>
  The console over CAN bus, \<open>klipper/src/generic/canserial.c\<close> with the message type of
  \<open>canbus.h\<close>: transmission in packets of at most eight bytes, the queue of admin messages that
  the receive interrupt fills, assignment of node ids, and the receive buffer, which meets the
  contract \<open>racing_buffer\<close> of the serial console. Interrupts during a task are arguments,
  as in \<open>Serial\<close>.
\<close>

section \<open>State\<close>

record canbus_msg =
  cm_id :: u32
  cm_dlc :: u32
  cm_data :: "u8 list"

text \<open>
  \<open>struct canbus_data\<close>, and the bus: the filter last set, the results that the hardware's
  \<open>canhw_send\<close> will give (the hardware stays busy after them), the messages it took, and
  whether the tasks were woken.
\<close>

record canbus_data = cmd_state +
  assigned_id :: u32
  uuid :: "u8 list"
  can_tx_wake :: u8
  can_transmit_pos :: nat
  can_transmit_max :: nat
  can_rx_wake :: u8
  can_receive_pos :: nat
  admin_pull_pos :: u32
  admin_push_pos :: u32
  admin_queue :: "canbus_msg list"
  can_transmit_buf :: "u8 list"
  can_receive_buf :: "u8 list"
  hw_filter :: u32
  hw_results :: "int list"
  hw_sent :: "canbus_msg list"
  can_tasks_requested :: bool

definition CANBUS_UUID_LEN :: nat where "CANBUS_UUID_LEN = 6"
definition CANBUS_ID_ADMIN :: u32 where "CANBUS_ID_ADMIN = 0x3f0"
definition CANBUS_ID_ADMIN_RESP :: u32 where "CANBUS_ID_ADMIN_RESP = 0x3f1"
definition CANBUS_CMD_QUERY_UNASSIGNED :: u8 where "CANBUS_CMD_QUERY_UNASSIGNED = 0x00"
definition CANBUS_CMD_SET_KLIPPER_NODEID :: u8 where "CANBUS_CMD_SET_KLIPPER_NODEID = 0x01"
definition CANBUS_CMD_REQUEST_BOOTLOADER :: u8 where "CANBUS_CMD_REQUEST_BOOTLOADER = 0x02"
definition CANBUS_RESP_NEED_NODEID :: u8 where "CANBUS_RESP_NEED_NODEID = 0x20"
definition ADMIN_QUEUE_SIZE :: nat where "ADMIN_QUEUE_SIZE = 8"

definition CANMSG_DATA_LEN :: "canbus_msg \<Rightarrow> nat" where
  "CANMSG_DATA_LEN msg = (if unat (cm_dlc msg) > 8 then 8 else unat (cm_dlc msg))"

definition canbus_send :: "canbus_msg \<Rightarrow> 'a canbus_data_scheme \<Rightarrow> int \<times> 'a canbus_data_scheme" where
  "canbus_send msg s =
     (case hw_results s of
        [] \<Rightarrow> (-1, s)
      | r # rs \<Rightarrow>
          (r, if r > 0 then s\<lparr>hw_results := rs, hw_sent := hw_sent s @ [msg]\<rparr> else s\<lparr>hw_results := rs\<rparr>))"

definition canbus_set_filter :: "u32 \<Rightarrow> 'a canbus_data_scheme \<Rightarrow> 'a canbus_data_scheme" where
  "canbus_set_filter i s = s\<lparr>hw_filter := i\<rparr>"

section \<open>Data transmission over CAN\<close>

definition canserial_notify_tx :: "'a canbus_data_scheme \<Rightarrow> 'a canbus_data_scheme" where
  "canserial_notify_tx s = s\<lparr>can_tx_wake := 1, can_tasks_requested := True\<rparr>"

text \<open>The sending loop: at most \<open>n\<close> packets; the value is \<open>tpos\<close> at the end.\<close>

fun can_tx_loop :: "nat \<Rightarrow> u32 \<Rightarrow> nat \<Rightarrow> nat \<Rightarrow> 'a canbus_data_scheme \<Rightarrow> nat \<times> 'a canbus_data_scheme" where
  "can_tx_loop 0 mid tpos tmax s = (tpos, s)"
| "can_tx_loop (Suc n) mid tpos tmax s =
     (let avail = tmax - tpos; now = (if avail > 8 then 8 else avail)
      in if tmax \<le> tpos then (tpos, s)
         else
           (let msg = \<lparr>cm_id = mid, cm_dlc = of_nat now, cm_data = take now (drop tpos (can_transmit_buf s))\<rparr>;
                (ret, s1) = canbus_send msg s
            in if ret \<le> 0 then (tpos, s1) else can_tx_loop n mid (tpos + now) tmax s1))"

definition canserial_tx_task :: "'a canbus_data_scheme \<Rightarrow> 'a canbus_data_scheme" where
  "canserial_tx_task s =
     (if can_tx_wake s = 0 then s
      else
        (let s = s\<lparr>can_tx_wake := 0\<rparr>
         in if assigned_id s = 0 then s\<lparr>can_transmit_max := 0, can_transmit_pos := 0\<rparr>
            else
              (case can_tx_loop (Suc (can_transmit_max s)) (assigned_id s + 1) (can_transmit_pos s) (can_transmit_max s) s of
                 (tpos, s) \<Rightarrow> s\<lparr>can_transmit_pos := tpos\<rparr>)))"

text \<open>Space for the message: the index it is written to, \<open>None\<close> if it does not fit.\<close>

definition can_sendf_room :: "nat \<Rightarrow> 'a canbus_data_scheme \<Rightarrow> nat option \<times> 'a canbus_data_scheme" where
  "can_sendf_room max_size s =
     (let tpos = can_transmit_pos s; tmax = can_transmit_max s;
          (tpos, tmax, s) = (if tpos \<ge> tmax then (0, 0, s\<lparr>can_transmit_max := 0, can_transmit_pos := 0\<rparr>)
                             else (tpos, tmax, s))
      in if tmax + max_size > TX_BUFFER_SIZE then
           (if tmax + max_size - tpos > TX_BUFFER_SIZE then (None, s)
            else
              (let tmax = tmax - tpos
               in (Some tmax, s\<lparr>can_transmit_buf := memmove (can_transmit_buf s) 0 tpos tmax,
                                can_transmit_pos := 0, can_transmit_max := tmax\<rparr>)))
         else (Some tmax, s))"

definition can_console_sendf :: "bool \<Rightarrow> 'a canbus_data_scheme console" where
  "can_console_sendf int16 ce args s =
     (case can_sendf_room (ce_max_size ce) s of
        (None, s) \<Rightarrow> Ret () s
      | (Some tmax, s) \<Rightarrow>
          bnd (command_encode_and_frame int16 (drop tmax (can_transmit_buf s)) ce args s)
            (\<lambda>(msglen, mem) s.
               Ret () (canserial_notify_tx
                 (s\<lparr>can_transmit_buf := take tmax (can_transmit_buf s) @ mem,
                    can_transmit_max := tmax + msglen\<rparr>))))"

section \<open>Admin commands\<close>

definition can_check_uuid :: "canbus_msg \<Rightarrow> 'a canbus_data_scheme \<Rightarrow> bool" where
  "can_check_uuid msg s \<longleftrightarrow> unat (cm_dlc msg) \<ge> 7 \<and> take CANBUS_UUID_LEN (drop 1 (cm_data msg)) = uuid s"

definition can_get_nodeid :: "'a canbus_data_scheme \<Rightarrow> u32" where
  "can_get_nodeid s = (if assigned_id s = 0 then 0 else drop_bit 1 (assigned_id s - 0x100))"

definition can_decode_nodeid :: "u32 \<Rightarrow> u32" where
  "can_decode_nodeid nodeid = push_bit 1 nodeid + 0x100"

text \<open>The retry loop of \<open>can_process_query_unassigned\<close>; \<open>None\<close>: still retrying after \<open>n\<close> attempts.\<close>

fun send_retry :: "nat \<Rightarrow> canbus_msg \<Rightarrow> 'a canbus_data_scheme \<Rightarrow> 'a canbus_data_scheme option" where
  "send_retry 0 msg s = None"
| "send_retry (Suc n) msg s =
     (case canbus_send msg s of (ret, s) \<Rightarrow> if ret \<ge> 0 then Some s else send_retry n msg s)"

definition can_process_query_unassigned :: "nat \<Rightarrow> 'a canbus_data_scheme \<Rightarrow> ('a canbus_data_scheme, unit) res" where
  "can_process_query_unassigned n s =
     (if assigned_id s \<noteq> 0 then Ret () s
      else
        (let send = \<lparr>cm_id = CANBUS_ID_ADMIN_RESP, cm_dlc = 8,
                     cm_data = [CANBUS_RESP_NEED_NODEID] @ uuid s @ [CANBUS_CMD_SET_KLIPPER_NODEID]\<rparr>
         in case send_retry n send s of None \<Rightarrow> Fault | Some s \<Rightarrow> Ret () s))"

definition can_id_conflict :: "'a canbus_data_scheme \<Rightarrow> ('a canbus_data_scheme, unit) res" where
  "can_id_conflict s =
     Shut ''Another CAN node assigned this ID'' (canbus_set_filter 0 (s\<lparr>assigned_id := 0\<rparr>))"

definition can_process_set_klipper_nodeid ::
    "canbus_msg \<Rightarrow> 'a canbus_data_scheme \<Rightarrow> ('a canbus_data_scheme, unit) res" where
  "can_process_set_klipper_nodeid msg s =
     (if unat (cm_dlc msg) < 8 then Ret () s
      else
        (let newid = can_decode_nodeid (ucast (cm_data msg ! 7))
         in if can_check_uuid msg s then
              (if newid \<noteq> assigned_id s then Ret () (canbus_set_filter newid (s\<lparr>assigned_id := newid\<rparr>))
               else Ret () s)
            else if newid = assigned_id s then can_id_conflict s
            else Ret () s))"

text \<open>\<open>boot\<close> is \<open>bootloader_request\<close> where the build has it.\<close>

definition can_process_request_bootloader ::
    "('a canbus_data_scheme \<Rightarrow> ('a canbus_data_scheme, unit) res) option \<Rightarrow> canbus_msg
      \<Rightarrow> 'a canbus_data_scheme \<Rightarrow> ('a canbus_data_scheme, unit) res" where
  "can_process_request_bootloader boot msg s =
     (case boot of
        None \<Rightarrow> Ret () s
      | Some b \<Rightarrow> if \<not> can_check_uuid msg s then Ret () s else b s)"

definition can_process_admin ::
    "nat \<Rightarrow> ('a canbus_data_scheme \<Rightarrow> ('a canbus_data_scheme, unit) res) option \<Rightarrow> canbus_msg
      \<Rightarrow> 'a canbus_data_scheme \<Rightarrow> ('a canbus_data_scheme, unit) res" where
  "can_process_admin n boot msg s =
     (if cm_dlc msg = 0 then Ret () s
      else
        (let cmd = cm_data msg ! 0
         in if cmd = CANBUS_CMD_QUERY_UNASSIGNED then can_process_query_unassigned n s
            else if cmd = CANBUS_CMD_SET_KLIPPER_NODEID then can_process_set_klipper_nodeid msg s
            else if cmd = CANBUS_CMD_REQUEST_BOOTLOADER then can_process_request_bootloader boot msg s
            else Ret () s))"

section \<open>Reading packets\<close>

definition canserial_notify_rx :: "'a canbus_data_scheme \<Rightarrow> 'a canbus_data_scheme" where
  "canserial_notify_rx s = s\<lparr>can_rx_wake := 1, can_tasks_requested := True\<rparr>"

definition canserial_process_data :: "canbus_msg \<Rightarrow> 'a canbus_data_scheme \<Rightarrow> 'a canbus_data_scheme" where
  "canserial_process_data msg s =
     (let mid = cm_id msg
      in if assigned_id s \<noteq> 0 \<and> mid = assigned_id s then
           (let rpos = can_receive_pos s; len = CANMSG_DATA_LEN msg
            in if len > RX_BUFFER_SIZE - rpos then s
               else canserial_notify_rx
                      (s\<lparr>can_receive_buf := blit (can_receive_buf s) rpos (take len (cm_data msg)),
                         can_receive_pos := rpos + len\<rparr>))
         else if mid = CANBUS_ID_ADMIN \<or> assigned_id s \<noteq> 0 \<and> mid = assigned_id s + 1 then
           (let pushp = admin_push_pos s
            in if pushp \<ge> admin_pull_pos s + of_nat ADMIN_QUEUE_SIZE then s
               else canserial_notify_rx
                      (s\<lparr>admin_queue := (admin_queue s)[unat pushp mod ADMIN_QUEUE_SIZE := msg],
                         admin_push_pos := pushp + 1\<rparr>))
         else s)"

definition can_burst :: "canbus_msg list \<Rightarrow> 'a canbus_data_scheme \<Rightarrow> 'a canbus_data_scheme" where
  "can_burst ms s = foldl (\<lambda>s m. canserial_process_data m s) s ms"

definition can_pop_copy :: "nat \<Rightarrow> nat \<Rightarrow> nat \<Rightarrow> 'a canbus_data_scheme \<Rightarrow> 'a canbus_data_scheme" where
  "can_pop_copy dst src n s =
     canserial_notify_rx (s\<lparr>can_receive_buf := memmove (can_receive_buf s) dst src n\<rparr>)"

text \<open>The loop of \<open>console_pop_input\<close>, with the messages received in each round.\<close>

fun can_pop_loop :: "nat \<Rightarrow> nat \<Rightarrow> (canbus_msg list \<times> canbus_msg list) list \<Rightarrow> 'a canbus_data_scheme
    \<Rightarrow> 'a canbus_data_scheme option" where
  "can_pop_loop len copied [] s = None"
| "can_pop_loop len copied ((b1, b2) # bs) s =
     (let rpos = can_receive_pos s;
          s1 = can_burst b1 s;
          needcopy = rpos - len;
          s2 = (if needcopy \<noteq> 0 then can_pop_copy copied (copied + len) (needcopy - copied) s1 else s1);
          copied = (if needcopy \<noteq> 0 then needcopy else copied);
          s3 = can_burst b2 s2
      in if rpos \<noteq> can_receive_pos s3 then can_pop_loop len copied bs s3
         else Some (s3\<lparr>can_receive_pos := needcopy\<rparr>))"

definition can_console_pop_input ::
    "(canbus_msg list \<times> canbus_msg list) list \<Rightarrow> nat \<Rightarrow> 'a canbus_data_scheme
      \<Rightarrow> ('a canbus_data_scheme, unit) res" where
  "can_console_pop_input irqs len s = (case can_pop_loop len 0 irqs s of None \<Rightarrow> Fault | Some s \<Rightarrow> Ret () s)"

text \<open>
  The admin loop of \<open>canserial_rx_task\<close>: each list gives the messages received before the
  round reads \<open>admin_push_pos\<close>. \<open>Fault\<close>: the loop is still running when they end.
\<close>

fun admin_loop ::
    "nat \<Rightarrow> ('a canbus_data_scheme \<Rightarrow> ('a canbus_data_scheme, unit) res) option \<Rightarrow> canbus_msg list list
      \<Rightarrow> 'a canbus_data_scheme \<Rightarrow> ('a canbus_data_scheme, unit) res" where
  "admin_loop n boot [] s = Fault"
| "admin_loop n boot (b # bs) s =
     (let s = can_burst b s; pushp = admin_push_pos s; pullp = admin_pull_pos s
      in if pushp = pullp then Ret () s
         else
           (let msg = admin_queue s ! (unat pullp mod ADMIN_QUEUE_SIZE); mid = cm_id msg
            in andthen (if assigned_id s \<noteq> 0 \<and> mid = assigned_id s + 1 then can_id_conflict s
                        else if mid = CANBUS_ID_ADMIN then can_process_admin n boot msg s
                        else Ret () s)
                 (\<lambda>s. admin_loop n boot bs (s\<lparr>admin_pull_pos := pullp + 1\<rparr>))))"

definition canserial_rx_task ::
    "nat \<Rightarrow> ('a canbus_data_scheme \<Rightarrow> ('a canbus_data_scheme, unit) res) option \<Rightarrow> bool
      \<Rightarrow> ('f, 'a canbus_data_scheme) dispatch_env \<Rightarrow> canbus_msg list list
      \<Rightarrow> (canbus_msg list \<times> canbus_msg list) list \<Rightarrow> 'a canbus_data_scheme
      \<Rightarrow> ('a canbus_data_scheme, unit) res" where
  "canserial_rx_task n boot int16 e irqs1 irqs2 s =
     (if can_rx_wake s = 0 then Ret () s
      else
        andthen (admin_loop n boot irqs1 (s\<lparr>can_rx_wake := 0\<rparr>)) (\<lambda>s.
        bnd (command_find_block (can_console_sendf int16) (take (can_receive_pos s) (can_receive_buf s)) s)
          (\<lambda>(ret, pop_count) s.
        andthen (if ret > 0 then command_dispatch e (can_receive_buf s) pop_count s else Ret () s) (\<lambda>s.
          if ret = 0 then Ret () s
          else andthen (can_console_pop_input irqs2 pop_count s) (\<lambda>s.
                 if ret > 0 then command_send_ack (can_console_sendf int16) s else Ret () s)))))"

section \<open>Setup and shutdown\<close>

text \<open>\<open>ce\<close> is the generated encoder of the response \<open>canbus_id\<close>.\<close>

definition command_get_canbus_id ::
    "bool \<Rightarrow> command_encoder \<Rightarrow> 'a canbus_data_scheme \<Rightarrow> ('a canbus_data_scheme, unit) res" where
  "command_get_canbus_id int16 ce s =
     command_sendf (can_console_sendf int16) ce
       [VInt (of_nat CANBUS_UUID_LEN), VPtr (uuid s), VInt (can_get_nodeid s)] s"

text \<open>\<open>fasthash64\<close> is the vendored hash function; the boards store it least byte first.\<close>

definition canserial_set_uuid ::
    "(u8 list \<Rightarrow> u64 \<Rightarrow> u64) \<Rightarrow> u8 list \<Rightarrow> 'a canbus_data_scheme \<Rightarrow> 'a canbus_data_scheme" where
  "canserial_set_uuid fasthash64 raw_uuid s =
     (let hash = fasthash64 raw_uuid 0xA16231A7
      in canserial_notify_rx
           (s\<lparr>uuid := map (\<lambda>i. ucast (drop_bit (8 * i) hash)) [0..<CANBUS_UUID_LEN]\<rparr>))"

definition canserial_shutdown :: "'a canbus_data_scheme \<Rightarrow> 'a canbus_data_scheme" where
  "canserial_shutdown s = canserial_notify_rx (canserial_notify_tx s)"

section \<open>Node ids\<close>

lemma decode_nodeid_bounds:
  assumes "unat i < 256"
  shows "unat (can_decode_nodeid i) = 2 * unat i + 0x100"
proof -
  have "unat i * unat (2 :: u32) < 2 ^ LENGTH(32)" using assms by simp
  then have "unat (i * 2) = unat i * unat (2 :: u32)" by (rule unat_mult_lem [THEN iffD1])
  then have 1: "unat (push_bit 1 i) = 2 * unat i" by (simp add: push_bit_eq_mult)
  have "unat (push_bit 1 i) + unat (0x100 :: u32) < 2 ^ LENGTH(32)" using assms 1 by simp
  then have "unat (push_bit 1 i + 0x100) = unat (push_bit 1 i) + unat (0x100 :: u32)" by (rule unat_add_lem [THEN iffD1])
  then show ?thesis by (simp only: can_decode_nodeid_def 1) simp
qed

lemma decode_nodeid_nonzero:
  assumes "unat i < 256"
  shows "can_decode_nodeid i \<noteq> 0"
proof
  assume "can_decode_nodeid i = 0"
  then have "unat (can_decode_nodeid i) = 0" by simp
  then show False using decode_nodeid_bounds [OF assms] by simp
qed

lemma get_decode_nodeid:
  assumes "unat i < 256" "assigned_id s = can_decode_nodeid i"
  shows "can_get_nodeid s = i"
proof -
  have "unat i * unat (2 :: u32) < 2 ^ LENGTH(32)" using assms by simp
  then have "unat (i * 2) = unat i * unat (2 :: u32)" by (rule unat_mult_lem [THEN iffD1])
  then have "unat (drop_bit 1 (push_bit 1 i)) = unat i"
    by (simp add: push_bit_eq_mult drop_bit_eq_div unat_div)
  then have "drop_bit 1 (push_bit 1 i) = i" by (simp only: unsigned_word_eqI)
  then show ?thesis using assms decode_nodeid_nonzero [OF assms(1)] by (simp add: can_get_nodeid_def can_decode_nodeid_def)
qed

section \<open>The receive buffer\<close>

text \<open>The bytes of a burst of messages that belong to the console.\<close>

definition msg_ok :: "canbus_msg \<Rightarrow> bool" where
  "msg_ok m \<longleftrightarrow> length (cm_data m) = 8"

definition can_data :: "'a canbus_data_scheme \<Rightarrow> canbus_msg list \<Rightarrow> u8 list" where
  "can_data s ms = concat (map (\<lambda>m. if assigned_id s \<noteq> 0 \<and> cm_id m = assigned_id s
                                     then take (CANMSG_DATA_LEN m) (cm_data m) else []) ms)"

lemma data_len_le: "CANMSG_DATA_LEN m \<le> 8"
  by (simp add: CANMSG_DATA_LEN_def)

lemma can_burst_ok:
  assumes "length (can_receive_buf s) = RX_BUFFER_SIZE" "list_all msg_ok ms"
    "can_receive_pos s + length (can_data s ms) \<le> RX_BUFFER_SIZE"
  shows "can_receive_pos (can_burst ms s) = can_receive_pos s + length (can_data s ms) \<and>
    can_receive_buf (can_burst ms s) = blit (can_receive_buf s) (can_receive_pos s) (can_data s ms) \<and>
    assigned_id (can_burst ms s) = assigned_id s"
  using assms
proof (induction ms arbitrary: s)
  case Nil
  then show ?case by (simp add: can_burst_def can_data_def blit_def)
next
  case (Cons m ms)
  let ?s = "canserial_process_data m s"
  have a: "assigned_id ?s = assigned_id s"
    by (simp add: canserial_process_data_def canserial_notify_rx_def Let_def)
  have st: "can_burst (m # ms) s = can_burst ms ?s" by (simp add: can_burst_def)
  have dt: "can_data ?s ms = can_data s ms" by (simp add: can_data_def a)
  show ?case
  proof (cases "assigned_id s \<noteq> 0 \<and> cm_id m = assigned_id s")
    case False
    then have "can_receive_pos ?s = can_receive_pos s" "can_receive_buf ?s = can_receive_buf s" "can_data s (m # ms) = can_data s ms"
      by (auto simp: canserial_process_data_def canserial_notify_rx_def Let_def can_data_def)
    then show ?thesis using Cons.IH [of ?s] Cons.prems dt a unfolding st by simp
  next
    case True
    let ?d = "take (CANMSG_DATA_LEN m) (cm_data m)"
    have ld: "length ?d = CANMSG_DATA_LEN m" using Cons.prems(2) data_len_le [of m] by (simp add: msg_ok_def)
    have d: "can_data s (m # ms) = ?d @ can_data s ms" using True by (simp add: can_data_def)
    have room: "can_receive_pos s + (CANMSG_DATA_LEN m + length (can_data s ms)) \<le> RX_BUFFER_SIZE"
      using Cons.prems(3) ld unfolding d by simp
    have s': "can_receive_pos ?s = can_receive_pos s + CANMSG_DATA_LEN m"
      "can_receive_buf ?s = blit (can_receive_buf s) (can_receive_pos s) ?d"
      using True room by (auto simp: canserial_process_data_def canserial_notify_rx_def Let_def)
    have "blit (blit (can_receive_buf s) (can_receive_pos s) ?d) (can_receive_pos s + CANMSG_DATA_LEN m) (can_data s ms) =
        blit (can_receive_buf s) (can_receive_pos s) (can_data s (m # ms))"
      using room Cons.prems(1) ld by (simp add: blit_def d add.commute add.left_commute)
    moreover have "length (can_receive_buf ?s) = RX_BUFFER_SIZE"
      unfolding s' using room Cons.prems(1) ld by (subst length_blit) simp_all
    ultimately show ?thesis using Cons.IH [of ?s] Cons.prems room dt a ld unfolding st s' d by simp
  qed
qed

interpretation can: racing_buffer "list_all msg_ok" can_receive_buf can_receive_pos can_data can_burst can_pop_copy
  "\<lambda>n s. s\<lparr>can_receive_pos := n\<rparr>" can_pop_loop RX_BUFFER_SIZE
proof (unfold_locales, goal_cases)
  case (1 e s)
  then show ?case using can_burst_ok [of s e] by (simp add: can_data_def fun_eq_iff)
qed (simp_all add: can_pop_copy_def canserial_notify_rx_def can_data_def Let_def fun_eq_iff)

section \<open>The transmit buffer\<close>

definition can_tx_ok :: "'a canbus_data_scheme \<Rightarrow> bool" where
  "can_tx_ok s \<longleftrightarrow> length (can_transmit_buf s) = TX_BUFFER_SIZE \<and>
     can_transmit_pos s \<le> can_transmit_max s \<and> can_transmit_max s \<le> TX_BUFFER_SIZE"

definition can_tx_pending :: "'a canbus_data_scheme \<Rightarrow> u8 list" where
  "can_tx_pending s = drop (can_transmit_pos s) (take (can_transmit_max s) (can_transmit_buf s))"

text \<open>The console bytes on the bus: the data of the packets with the console's id.\<close>

definition bus_bytes :: "u32 \<Rightarrow> canbus_msg list \<Rightarrow> u8 list" where
  "bus_bytes mid ms = concat (map (\<lambda>m. if cm_id m = mid then cm_data m else []) ms)"

definition packets_ok :: "u32 \<Rightarrow> canbus_msg list \<Rightarrow> bool" where
  "packets_ok mid ps \<longleftrightarrow> (\<forall>p \<in> set ps. cm_id p = mid \<and> length (cm_data p) = unat (cm_dlc p) \<and>
     0 < unat (cm_dlc p) \<and> unat (cm_dlc p) \<le> 8)"

text \<open>\<open>ps\<close> are good packets that carry the bytes from \<open>tpos\<close> to \<open>t\<close>.\<close>

definition carries :: "u32 \<Rightarrow> canbus_msg list \<Rightarrow> nat \<Rightarrow> nat \<Rightarrow> u8 list \<Rightarrow> bool" where
  "carries mid ps tpos t buf \<longleftrightarrow> tpos \<le> t \<and> packets_ok mid ps \<and> bus_bytes mid ps = drop tpos (take t buf)"

lemma carries_Nil [simp]: "carries mid [] t t buf"
  by (simp add: carries_def packets_ok_def bus_bytes_def)

lemma carries_Cons:
  assumes "carries mid ps (tpos + k) t buf" "0 < k" "k \<le> 8" "t \<le> length buf"
  shows "carries mid (\<lparr>cm_id = mid, cm_dlc = of_nat k, cm_data = take k (drop tpos buf)\<rparr> # ps) tpos t buf"
proof -
  have dlc: "unat (of_nat k :: u32) = k" using assms by (intro unat_of_nat_small) simp
  have t: "tpos + k \<le> t" using assms(1) by (simp add: carries_def)
  have "take k (drop tpos (take t buf)) = take k (drop tpos buf)" using t by (simp add: take_drop min_def)
  moreover have "drop k (drop tpos (take t buf)) = drop (tpos + k) (take t buf)" by (simp add: add.commute)
  ultimately have "take k (drop tpos buf) @ drop (tpos + k) (take t buf) = drop tpos (take t buf)"
    by (metis append_take_drop_id)
  then show ?thesis using assms t by (simp add: carries_def packets_ok_def bus_bytes_def dlc)
qed

lemma can_tx_loop_ok:
  assumes "tpos \<le> tmax" "tmax \<le> length (can_transmit_buf s)" "can_tx_loop n mid tpos tmax s = (t, s')"
  shows "\<exists>ps rs. s' = s\<lparr>hw_sent := hw_sent s @ ps, hw_results := rs\<rparr> \<and>
      carries mid ps tpos t (can_transmit_buf s) \<and> t \<le> tmax"
  using assms
proof (induction n arbitrary: tpos s)
  case 0
  then show ?case by (intro exI [of _ "[]"] exI [of _ "hw_results s"]) simp
next
  case (Suc n)
  define k where "k = (if tmax - tpos > 8 then 8 else tmax - tpos)"
  define m where "m = \<lparr>cm_id = mid, cm_dlc = of_nat k, cm_data = take k (drop tpos (can_transmit_buf s))\<rparr>"
  consider "tmax \<le> tpos" | "\<not> tmax \<le> tpos" "hw_results s = []"
    | r rs where "\<not> tmax \<le> tpos" "hw_results s = r # rs" "r \<le> 0"
    | r rs where "\<not> tmax \<le> tpos" "hw_results s = r # rs" "0 < r"
    using list.exhaust linorder_not_le by metis
  then show ?case
  proof cases
    case 1
    then have "t = tpos" "s' = s" using Suc.prems(3) by (simp_all add: Let_def)
    then show ?thesis using Suc.prems(1) by (intro exI [of _ "[]"] exI [of _ "hw_results s"]) simp
  next
    case 2
    then have "t = tpos" "s' = s" using Suc.prems(3) by (simp_all add: canbus_send_def Let_def)
    then show ?thesis using Suc.prems(1) by (intro exI [of _ "[]"] exI [of _ "hw_results s"]) simp
  next
    case (3 r rs)
    then have "t = tpos" "s' = s\<lparr>hw_results := rs\<rparr>" using Suc.prems(3) by (simp_all add: canbus_send_def Let_def)
    then show ?thesis using Suc.prems(1) by (intro exI [of _ "[]"] exI [of _ rs]) simp
  next
    case (4 r rs)
    have k: "0 < k" "k \<le> 8" "tpos + k \<le> tmax" using 4(1) by (auto simp: k_def split: if_splits)
    let ?s1 = "s\<lparr>hw_results := rs, hw_sent := hw_sent s @ [m]\<rparr>"
    have st: "can_tx_loop n mid (tpos + k) tmax ?s1 = (t, s')"
      using Suc.prems(3) 4 by (simp add: canbus_send_def Let_def k_def [symmetric] m_def [symmetric])
    obtain ps rs' where ih: "s' = ?s1\<lparr>hw_sent := hw_sent ?s1 @ ps, hw_results := rs'\<rparr>"
      "carries mid ps (tpos + k) t (can_transmit_buf s)" "t \<le> tmax"
      using Suc.IH [OF _ _ st] Suc.prems k by auto
    have "carries mid (m # ps) tpos t (can_transmit_buf s)"
      unfolding m_def using carries_Cons [OF ih(2)] k ih(3) Suc.prems(2) by simp
    then show ?thesis using ih(1,3) by (intro exI [of _ "m # ps"] exI [of _ rs']) simp
  qed
qed

lemma drop_take_join:
  assumes "p \<le> t" "t \<le> m"
  shows "drop p (take t b) @ drop t (take m b) = drop p (take m b)"
proof -
  have "drop p (take t c) @ drop t c = drop p c" for c :: "'a list"
  proof (cases "t \<le> length c")
    case True
    have "drop p (take t c @ drop t c) = drop p (take t c) @ drop t c" using assms True by (subst drop_append) simp
    then show ?thesis by simp
  qed simp
  from this [of "take m b"] show ?thesis using assms by (simp add: min_def)
qed

text \<open>
  The transmit task puts a prefix of the waiting bytes on the bus, in order, in packets of one
  to eight bytes; what the hardware does not take stays in the buffer.
\<close>

lemma canserial_tx_ok:
  assumes ok: "can_tx_ok s" and "can_tx_wake s \<noteq> 0" "assigned_id s \<noteq> 0"
  shows "\<exists>ps. hw_sent (canserial_tx_task s) = hw_sent s @ ps \<and> packets_ok (assigned_id s + 1) ps \<and>
    bus_bytes (assigned_id s + 1) ps @ can_tx_pending (canserial_tx_task s) = can_tx_pending s \<and>
    can_tx_ok (canserial_tx_task s)"
proof -
  let ?s = "s\<lparr>can_tx_wake := 0\<rparr>"
  obtain t s' where l: "can_tx_loop (Suc (can_transmit_max ?s)) (assigned_id ?s + 1) (can_transmit_pos ?s) (can_transmit_max ?s) ?s = (t, s')"
    by (metis prod.exhaust)
  have b: "can_transmit_pos ?s \<le> can_transmit_max ?s" "can_transmit_max ?s \<le> length (can_transmit_buf ?s)"
    using ok by (simp_all add: can_tx_ok_def)
  obtain ps rs where p: "s' = ?s\<lparr>hw_sent := hw_sent s @ ps, hw_results := rs\<rparr>"
    "carries (assigned_id s + 1) ps (can_transmit_pos s) t (can_transmit_buf s)" "t \<le> can_transmit_max s"
    using can_tx_loop_ok [OF b l] by auto
  have e: "canserial_tx_task s = s'\<lparr>can_transmit_pos := t\<rparr>"
    using assms(2,3) l by (simp add: canserial_tx_task_def Let_def del: can_tx_loop.simps)
  let ?b = "can_transmit_buf s" and ?m = "can_transmit_max s" and ?p = "can_transmit_pos s"
  have "?p \<le> t" using p(2) by (simp add: carries_def)
  then have "drop ?p (take t ?b) @ drop t (take ?m ?b) = drop ?p (take ?m ?b)"
    using p(3) by (rule drop_take_join)
  then show ?thesis
    using p ok unfolding e by (intro exI [of _ ps]) (simp add: can_tx_pending_def carries_def can_tx_ok_def)
qed

section \<open>Admin messages\<close>

definition admin_pending :: "'a canbus_data_scheme \<Rightarrow> canbus_msg list" where
  "admin_pending s = map (\<lambda>i. admin_queue s ! (i mod ADMIN_QUEUE_SIZE)) [unat (admin_pull_pos s)..<unat (admin_push_pos s)]"

text \<open>The positions count messages since power-up; the invariant holds while they have not wrapped.\<close>

definition admin_ok :: "'a canbus_data_scheme \<Rightarrow> bool" where
  "admin_ok s \<longleftrightarrow> length (admin_queue s) = ADMIN_QUEUE_SIZE \<and> admin_pull_pos s \<le> admin_push_pos s \<and>
     unat (admin_push_pos s) \<le> unat (admin_pull_pos s) + ADMIN_QUEUE_SIZE \<and>
     unat (admin_pull_pos s) + ADMIN_QUEUE_SIZE < 2 ^ 32"

definition is_admin :: "canbus_msg \<Rightarrow> 'a canbus_data_scheme \<Rightarrow> bool" where
  "is_admin msg s \<longleftrightarrow> \<not> (assigned_id s \<noteq> 0 \<and> cm_id msg = assigned_id s) \<and>
     (cm_id msg = CANBUS_ID_ADMIN \<or> assigned_id s \<noteq> 0 \<and> cm_id msg = assigned_id s + 1)"

text \<open>An admin message is queued behind the others, or dropped when eight are waiting.\<close>

lemma process_admin_queue:
  assumes ok: "admin_ok s"
  shows "admin_ok (canserial_process_data msg s) \<and>
    admin_pending (canserial_process_data msg s) =
      (if is_admin msg s \<and> length (admin_pending s) < ADMIN_QUEUE_SIZE then admin_pending s @ [msg] else admin_pending s)"
proof (cases "is_admin msg s")
  case False
  then show ?thesis using ok
    by (auto simp: is_admin_def canserial_process_data_def canserial_notify_rx_def Let_def admin_ok_def admin_pending_def)
next
  case True
  let ?pl = "unat (admin_pull_pos s)" and ?ph = "unat (admin_push_pos s)"
  have b: "?pl \<le> ?ph" "?ph \<le> ?pl + 8" "?pl + 8 < 2 ^ 32" "length (admin_queue s) = 8"
    using ok by (simp_all add: admin_ok_def ADMIN_QUEUE_SIZE_def word_le_nat_alt)
  have "?pl + unat (8 :: u32) < 2 ^ LENGTH(32)" using b(3) by simp
  then have "unat (admin_pull_pos s + 8) = ?pl + unat (8 :: u32)" by (rule unat_add_lem [THEN iffD1])
  then have p8: "unat (admin_pull_pos s + 8) = ?pl + 8" by simp
  then have full: "admin_push_pos s \<ge> admin_pull_pos s + of_nat ADMIN_QUEUE_SIZE \<longleftrightarrow> \<not> length (admin_pending s) < ADMIN_QUEUE_SIZE"
    using b by (auto simp: word_le_nat_alt ADMIN_QUEUE_SIZE_def admin_pending_def)
  show ?thesis
  proof (cases "length (admin_pending s) < ADMIN_QUEUE_SIZE")
    case F: False
    then have "canserial_process_data msg s = s"
      using True full by (auto simp: is_admin_def canserial_process_data_def Let_def)
    then show ?thesis using ok F by simp
  next
    case F: True
    then have e: "canserial_process_data msg s = canserial_notify_rx
        (s\<lparr>admin_queue := (admin_queue s)[?ph mod ADMIN_QUEUE_SIZE := msg], admin_push_pos := admin_push_pos s + 1\<rparr>)"
      using True full by (auto simp: is_admin_def canserial_process_data_def Let_def)
    have lt: "?ph < ?pl + 8" using F b by (simp add: admin_pending_def ADMIN_QUEUE_SIZE_def)
    then have inc: "unat (admin_push_pos s + 1) = Suc ?ph" using b by (intro unat_inc) simp
    have ne: "?ph mod 8 \<noteq> i mod 8" if "?pl \<le> i" "i < ?ph" for i
    proof
      assume "?ph mod 8 = i mod 8"
      then have "i mod 8 = ?ph mod 8" by simp
      then have "8 dvd ?ph - i" using that by (metis mod_eq_dvd_iff_nat less_imp_le)
      moreover have "0 < ?ph - i" "?ph - i < 8" using that lt by simp_all
      ultimately show False by (auto dest: dvd_imp_le)
    qed
    have "map (\<lambda>i. (admin_queue s)[?ph mod 8 := msg] ! (i mod 8)) [?pl..<?ph] = map (\<lambda>i. admin_queue s ! (i mod 8)) [?pl..<?ph]"
      by (intro map_cong refl nth_list_update_neq) (use ne in auto)
    then show ?thesis
      using F True b lt unfolding e
      by (simp add: canserial_notify_rx_def admin_ok_def admin_pending_def inc word_le_nat_alt ADMIN_QUEUE_SIZE_def)
  qed
qed

text \<open>
  A node takes the id sent to its uuid; the same id sent to another uuid takes it away and
  shuts the firmware down; other assignments change nothing.
\<close>

lemma set_nodeid_ok:
  assumes "8 \<le> unat (cm_dlc msg)"
  shows "(can_check_uuid msg s \<longrightarrow>
       (\<exists>s'. can_process_set_klipper_nodeid msg s = Ret () s' \<and> can_get_nodeid s' = ucast (cm_data msg ! 7) \<and>
          assigned_id s' = can_decode_nodeid (ucast (cm_data msg ! 7)) \<and>
          (hw_filter s = assigned_id s \<longrightarrow> hw_filter s' = assigned_id s'))) \<and>
    (\<not> can_check_uuid msg s \<and> assigned_id s = can_decode_nodeid (ucast (cm_data msg ! 7)) \<longrightarrow>
       (\<exists>s'. can_process_set_klipper_nodeid msg s = Shut ''Another CAN node assigned this ID'' s' \<and>
          assigned_id s' = 0 \<and> hw_filter s' = 0)) \<and>
    (\<not> can_check_uuid msg s \<and> assigned_id s \<noteq> can_decode_nodeid (ucast (cm_data msg ! 7)) \<longrightarrow>
       can_process_set_klipper_nodeid msg s = Ret () s)"
proof -
  let ?i = "ucast (cm_data msg ! 7) :: u32"
  have "unat (cm_data msg ! 7) < 2 ^ LENGTH(8)" by (rule unsigned_less)
  then have i: "unat ?i < 256" by (simp add: unat_ucast_up)
  have g: "can_get_nodeid t = ?i" if "assigned_id t = can_decode_nodeid ?i" for t :: "'a canbus_data_scheme"
    using get_decode_nodeid [OF i that] .
  show ?thesis
    using assms g by (auto simp: can_process_set_klipper_nodeid_def Let_def can_id_conflict_def canbus_set_filter_def)
qed

end
