(* ===== verification/Console_Correct.thy ===== *)
theory Console_Correct
  imports Canserial Protocol_Correct
begin

text \<open>
  What the two consoles promise: bytes that arrive while a task takes a block out of the receive
  buffer are not lost, and responses are sent as whole frames, in order.
\<close>

section \<open>Receiving\<close>

text \<open>
  The interrupts of the rounds up to the first one in which nothing arrives.
\<close>

definition racing :: "(u8 list \<times> u8 list) list \<Rightarrow> u8 list" where
  "racing irqs = concat (map (\<lambda>(i, j). i @ j) (takeWhile (\<lambda>(i, j). i @ j \<noteq> []) irqs))"

text \<open>
  C26: Taking \<open>len\<close> bytes out of the serial receive buffer races with the receive interrupt safely: the
  loop ends with the first round without an interrupt, and the buffer then holds what was
  behind the \<open>len\<close> bytes and everything that arrived meanwhile, in order.
\<close>

theorem serial_pop_keeps_arriving_bytes:
  assumes "length (receive_buf s) = RX_BUFFER_SIZE" "receive_pos s + length (racing irqs) \<le> RX_BUFFER_SIZE"
    "len \<le> receive_pos s" "([], []) \<in> set irqs"
  shows "\<exists>s'. console_pop_input irqs len s = Ret () s' \<and> length (receive_buf s') = RX_BUFFER_SIZE \<and>
    take (receive_pos s') (receive_buf s') = drop len (take (receive_pos s) (receive_buf s) @ racing irqs)"
proof -
  have r: "rx.arriving s (rx.busy s irqs) = racing irqs" by (simp add: rx.arriving_def rx.busy_def racing_def)
  have "rx.busy s irqs \<noteq> irqs"
  proof
    assume "rx.busy s irqs = irqs"
    then have "([], []) \<in> set (takeWhile (\<lambda>(i, j). i @ j \<noteq> []) irqs)" using assms(4) unfolding rx.busy_def by metis
    then show False by (auto dest: set_takeWhileD)
  qed
  moreover have "list_all (\<lambda>(i, j). True \<and> True) irqs" by (simp add: list_all_iff)
  ultimately show ?thesis
    using rx.loop_ok [of s len irqs] assms unfolding r by (auto simp: console_pop_input_def rx.contents_def)
qed

text \<open>
  The same for the CAN console, where the interrupts are CAN messages: messages with the node's
  id are appended, and admin messages and messages of other nodes do not disturb the buffer.
\<close>

theorem can_pop_keeps_arriving_bytes:
  assumes "length (can_receive_buf s) = RX_BUFFER_SIZE" "len \<le> can_receive_pos s"
    "\<forall>(i, j) \<in> set irqs. list_all msg_ok i \<and> list_all msg_ok j"
    "can_receive_pos s + length (concat (map (\<lambda>(i, j). can_data s (i @ j)) irqs)) \<le> RX_BUFFER_SIZE"
    "\<exists>(i, j) \<in> set irqs. can_data s (i @ j) = []"
  shows "\<exists>s' n. can_console_pop_input irqs len s = Ret () s' \<and>
    take (can_receive_pos s') (can_receive_buf s') = drop len (take (can_receive_pos s) (can_receive_buf s) @
      concat (map (\<lambda>(i, j). can_data s (i @ j)) (take n irqs)))"
proof -
  have dt: "can_data s i @ can_data s j = can_data s (i @ j)" for i j by (simp add: can_data_def)
  obtain n where n: "can.busy s irqs = take n irqs"
    unfolding can.busy_def by (metis takeWhile_eq_take)
  have a: "can.arriving s xs = concat (map (\<lambda>(i, j). can_data s (i @ j)) xs)" for xs
    by (simp add: can.arriving_def dt)
  have "irqs = take n irqs @ drop n irqs" by simp
  then have "length (can.arriving s (take n irqs)) \<le> length (can.arriving s irqs)"
    unfolding a by (metis concat_append length_append map_append le_add1)
  then have room: "can_receive_pos s + length (can.arriving s (can.busy s irqs)) \<le> RX_BUFFER_SIZE"
    using assms(4) unfolding n by (simp add: a)
  have "can.busy s irqs \<noteq> irqs"
  proof
    assume "can.busy s irqs = irqs"
    then have "\<forall>x \<in> set irqs. case x of (i, j) \<Rightarrow> can_data s i @ can_data s j \<noteq> []"
      unfolding can.busy_def takeWhile_eq_all_conv .
    moreover obtain i j where ij: "(i, j) \<in> set irqs" "can_data s (i @ j) = []" using assms(5) by blast
    ultimately have "can_data s i @ can_data s j \<noteq> []" by blast
    then show False using ij(2) dt by simp
  qed
  moreover have "list_all (\<lambda>(i, j). list_all msg_ok i \<and> list_all msg_ok j) irqs"
    using assms(3) by (simp add: list_all_iff)
  ultimately show ?thesis
    using can.loop_ok [of s len irqs] assms(1,2) room unfolding n
    by (auto simp: can_console_pop_input_def can.contents_def a)
qed

section \<open>Sending\<close>

text \<open>
  A response on the serial console is dropped as a whole, exactly when it might not fit behind
  what still waits, or appended as one frame to the stream of bytes on the line; transmit
  interrupts at any point of the call neither lose, repeat nor reorder bytes.
\<close>

theorem serial_stream_is_frames:
  assumes "tx_ok s" "command_encodef int16 ce args s = Ret (length out + 5, out) s'" "length out + 5 \<le> ce_max_size ce"
  shows "\<exists>s2. console_sendf n1 n2 n3 int16 ce args s = Ret () s2 \<and> tx_ok s2 \<and>
    tx_stream s2 = tx_stream s @
      (if length (tx_pending s) + ce_max_size ce > TX_BUFFER_SIZE then [] else frame (next_sequence s) out)"
  by (rule console_sendf_ok [OF assms])

text \<open>
  The CAN transmit task moves a prefix of the waiting bytes onto the bus, in order, in packets of one to
  eight bytes with the node's transmit id; what the hardware does not take stays waiting.
\<close>

theorem can_stream_in_packets:
  assumes "can_tx_ok s" "can_tx_wake s \<noteq> 0" "assigned_id s \<noteq> 0"
  shows "\<exists>ps. hw_sent (canserial_tx_task s) = hw_sent s @ ps \<and> packets_ok (assigned_id s + 1) ps \<and>
    bus_bytes (assigned_id s + 1) ps @ can_tx_pending (canserial_tx_task s) = can_tx_pending s \<and>
    can_tx_ok (canserial_tx_task s)"
  by (rule canserial_tx_ok [OF assms])

text \<open>
  Node ids: a node takes the id sent to its uuid and reports that id; the same id sent to
  another uuid takes it away and shuts the firmware down; other assignments change nothing.
\<close>

theorem can_node_id_assignment:
  assumes "8 \<le> unat (cm_dlc msg)"
  shows "(can_check_uuid msg s \<longrightarrow>
       (\<exists>s'. can_process_set_klipper_nodeid msg s = Ret () s' \<and> can_get_nodeid s' = ucast (cm_data msg ! 7) \<and>
          assigned_id s' = can_decode_nodeid (ucast (cm_data msg ! 7)) \<and>
          (hw_filter s = assigned_id s \<longrightarrow> hw_filter s' = assigned_id s'))) \<and>
    (\<not> can_check_uuid msg s \<and> assigned_id s = can_decode_nodeid (ucast (cm_data msg ! 7)) \<longrightarrow>
       (\<exists>s'. can_process_set_klipper_nodeid msg s = Shut ''Another CAN node assigned this ID'' s' \<and>
          assigned_id s' = 0 \<and> hw_filter s' = 0)) \<and>
    (\<not> can_check_uuid msg s \<and> assigned_id s \<noteq> can_decode_nodeid (ucast (cm_data msg ! 7)) \<longrightarrow>
       can_process_set_klipper_nodeid msg s = Ret () s)"
  by (rule set_nodeid_ok [OF assms])

section \<open>Instances\<close>

definition demo_serial :: serial where
  "demo_serial = cmd_state.extend cmd_init
     (serial.fields (map of_nat [0..<192]) 6 (replicate 96 0) 10 90 [] 0)"

lemma demo_serial_sel [simp]:
  "receive_buf demo_serial = map of_nat [0..<192]" "receive_pos demo_serial = 6"
  "transmit_buf demo_serial = replicate 96 0" "transmit_pos demo_serial = 10" "transmit_max demo_serial = 90"
  "tx_line demo_serial = []" "next_sequence demo_serial = MESSAGE_DEST"
  by (simp_all add: demo_serial_def cmd_init_def cmd_state.defs serial.defs)

theorem serial_pop_keeps_arriving_bytes_witness:
  "\<exists>s'. console_pop_input [([7], [8, 9]), ([], [1]), ([], [])] 5 demo_serial = Ret () s' \<and>
     take (receive_pos s') (receive_buf s') = [5, 7, 8, 9, 1]"
proof -
  have r: "racing [([7], [8, 9]), ([], [1]), ([], [])] = [7, 8, 9, 1]" by (simp add: racing_def)
  have t: "take 6 (map of_nat [0..<192]) = [0, 1, 2, 3, 4, 5 :: u8]" by (simp add: take_map upt_rec)
  show ?thesis
    using serial_pop_keeps_arriving_bytes [of demo_serial "[([7], [8, 9]), ([], [1]), ([], [])]" 5]
    unfolding r demo_serial_sel t by (auto simp: RX_BUFFER_SIZE_def)
qed

lemma encode_acknak_out: "command_encodef int16 encode_acknak [] s = Ret (length ([] :: u8 list) + 5, []) s"
  by (simp add: command_encodef_def encode_acknak_def message_consts)

theorem serial_stream_is_frames_witness:
  "\<exists>s2. console_sendf 1 2 3 False encode_acknak [] demo_serial = Ret () s2 \<and>
     tx_stream s2 = replicate 80 0 @ frame MESSAGE_DEST []"
proof -
  have ok: "tx_ok demo_serial" "tx_stream demo_serial = replicate 80 0" "tx_pending demo_serial = replicate 80 0"
    by (simp_all add: tx_ok_def tx_stream_def tx_pending_def TX_BUFFER_SIZE_def)
  have "length ([] :: u8 list) + 5 \<le> ce_max_size encode_acknak" "length (tx_pending demo_serial) + ce_max_size encode_acknak \<le> TX_BUFFER_SIZE"
    unfolding ok by (simp_all add: encode_acknak_def message_consts TX_BUFFER_SIZE_def)
  then show ?thesis
    using serial_stream_is_frames [where ?n1.0 = 1 and ?n2.0 = 2 and ?n3.0 = 3 and ?int16.0 = False, OF ok(1) encode_acknak_out]
    unfolding ok by auto
qed

text \<open>A CAN node with id \<open>0x106\<close> that has ten bytes to send; the hardware takes one packet.\<close>

definition demo_can :: canbus_data where
  "demo_can = cmd_state.extend cmd_init
     (canbus_data.fields 0x106 [1, 2, 3, 4, 5, 6] 1 0 10 0 3 0 0 (replicate 8 \<lparr>cm_id = 0, cm_dlc = 0, cm_data = []\<rparr>)
        (replicate 96 7) (replicate 192 5) 0x106 [1] [] False)"

lemma demo_can_sel [simp]:
  "assigned_id demo_can = 0x106" "uuid demo_can = [1, 2, 3, 4, 5, 6]" "can_tx_wake demo_can = 1"
  "can_transmit_pos demo_can = 0" "can_transmit_max demo_can = 10" "can_transmit_buf demo_can = replicate 96 7"
  "can_receive_buf demo_can = replicate 192 5" "can_receive_pos demo_can = 3" "hw_sent demo_can = []" "hw_filter demo_can = 0x106"
  by (simp_all add: demo_can_def cmd_init_def cmd_state.defs canbus_data.defs)

theorem can_stream_in_packets_witness:
  "\<exists>ps. hw_sent (canserial_tx_task demo_can) = ps \<and> bus_bytes 0x107 ps @ can_tx_pending (canserial_tx_task demo_can) = replicate 10 7"
proof -
  have "can_tx_ok demo_can" by (simp add: can_tx_ok_def TX_BUFFER_SIZE_def)
  moreover have "can_tx_pending demo_can = replicate 10 7" by (simp add: can_tx_pending_def)
  ultimately show ?thesis using can_stream_in_packets [of demo_can] by auto
qed

theorem can_pop_keeps_arriving_bytes_witness:
  "\<exists>s' n. can_console_pop_input [([\<lparr>cm_id = 0x106, cm_dlc = 2, cm_data = replicate 8 9\<rparr>], []), ([], [])] 1 demo_can = Ret () s' \<and>
     take (can_receive_pos s') (can_receive_buf s') = drop 1 ([5, 5, 5] @ concat (map (\<lambda>(i, j). can_data demo_can (i @ j))
       (take n [([\<lparr>cm_id = 0x106, cm_dlc = 2, cm_data = replicate 8 9\<rparr>], []), ([], [])])))"
proof -
  have "take 3 (replicate 192 5) = [5, 5, 5 :: u8]" by (simp add: numeral_3_eq_3)
  then show ?thesis
    using can_pop_keeps_arriving_bytes [of demo_can 1 "[([\<lparr>cm_id = 0x106, cm_dlc = 2, cm_data = replicate 8 9\<rparr>], []), ([], [])]"]
    by (simp add: RX_BUFFER_SIZE_def msg_ok_def can_data_def CANMSG_DATA_LEN_def)
qed

theorem can_node_id_assignment_witness:
  "\<exists>s'. can_process_set_klipper_nodeid \<lparr>cm_id = 0x3f0, cm_dlc = 8, cm_data = [1, 1, 2, 3, 4, 5, 6, 42]\<rparr> demo_can = Ret () s' \<and>
     can_get_nodeid s' = 42 \<and> hw_filter s' = assigned_id s'"
proof -
  let ?m = "\<lparr>cm_id = 0x3f0, cm_dlc = 8, cm_data = [1, 1, 2, 3, 4, 5, 6, 42 :: u8]\<rparr>"
  have "can_check_uuid ?m demo_can"
    by (simp add: can_check_uuid_def CANBUS_UUID_LEN_def word_le_nat_alt)
  then show ?thesis using can_node_id_assignment [of ?m demo_can] by auto
qed

end
