(* ===== verification/Stepcompress.thy ===== *)
theory Stepcompress
  imports Msgblock
begin

text \<open>
  Step compression on the host, \<open>klipper/klippy/chelper/stepcompress.c\<close>: the queue of step
  times of a stepper, the search for \<open>queue_step\<close> commands that reproduce them within the
  allowed error, the check of every command found, and the merging of the commands of several
  steppers under the micro-controller's limit of queued moves. Definitions only.

  Step times reach this code as floating point numbers; the theory starts from the clock
  computed from them. The signed \<open>int32_t\<close> arithmetic of the search is exact here, since its
  overflow is undefined in C; the unsigned arithmetic of the check wraps.
\<close>

section \<open>State\<close>

record history_steps =
  hs_first_clock :: u64
  hs_last_clock :: u64
  start_position :: int
  hs_step_count :: int
  hs_interval :: int
  hs_add :: int

text \<open>
  \<open>queue_mem\<close> is the memory from \<open>queue\<close> to \<open>queue_end\<close>; \<open>queue_pos\<close> and \<open>queue_next\<close> are
  indices into it. The history list has the latest entry first. \<open>print_clock\<close> stands for
  \<open>last_step_print_time\<close>, a floating point number: it is the clock from which that was computed last, \<open>None\<close>
  for the zero of a new object.
\<close>

record stepcompress =
  queue_mem :: "u32 list"
  queue_pos :: nat
  queue_next :: nat
  max_error :: u32
  print_clock :: "u64 option"
  last_step_clock :: u64
  msg_queue :: "queue_message list"
  sc_oid :: u32
  queue_step_msgtag :: u32
  set_next_step_dir_msgtag :: u32
  sdir :: int
  invert_sdir :: int
  next_step_clock :: u64
  next_step_dir :: int
  last_position :: int
  history_list :: "history_steps list"

text \<open>\<open>add\<close> is an \<open>int16_t\<close>, kept as its 16 bits.\<close>

record step_move =
  mv_interval :: u32
  mv_count :: u16
  mv_add :: u16

definition QUEUE_START_SIZE :: nat where "QUEUE_START_SIZE = 1024"
definition CLOCK_DIFF_MAX :: u64 where "CLOCK_DIFF_MAX = 0x30000000"
definition ERROR_RET :: int where "ERROR_RET = -989898989"
definition QUADRATIC_DEV :: u32 where "QUADRATIC_DEV = 11"

text \<open>The step time at \<open>queue_pos[i]\<close>.\<close>

definition queue_at :: "stepcompress \<Rightarrow> nat \<Rightarrow> u32" where
  "queue_at sc i = queue_mem sc ! (queue_pos sc + i)"

section \<open>Step compression\<close>

text \<open>The division of C cuts towards zero.\<close>

definition c_div :: "int \<Rightarrow> int \<Rightarrow> int" where
  "c_div n d = (if n \<ge> 0 then n div d else - ((- n) div d))"

definition idiv_up :: "int \<Rightarrow> int \<Rightarrow> int" where
  "idiv_up n d = (if n \<ge> 0 then c_div (n + d - 1) d else c_div n d)"

definition idiv_down :: "int \<Rightarrow> int \<Rightarrow> int" where
  "idiv_down n d = (if n \<ge> 0 then c_div n d else c_div (n - d + 1) d)"

record points =
  minp :: u32
  maxp :: u32

definition minmax_point :: "stepcompress \<Rightarrow> nat \<Rightarrow> points" where
  "minmax_point sc i =
     (let lsc = ucast (last_step_clock sc) :: u32;
          point = queue_at sc i - lsc;
          prevpoint = (if i > 0 then queue_at sc (i - 1) - lsc else 0);
          max_err = (point - prevpoint) div 2;
          max_err = (if max_err > max_error sc then max_error sc else max_err)
      in \<lparr>minp = point - max_err, maxp = point\<rparr>)"

text \<open>
  The inner loop of \<open>compress_bisect_add\<close>: \<open>Reached interval count\<close> when all points are
  covered, otherwise the values at the \<open>break\<close>.
\<close>

datatype bisect_inner = Reached int nat | Stopped nat int int int points

function bisect_inner_loop :: "stepcompress \<Rightarrow> nat \<Rightarrow> int \<Rightarrow> nat \<Rightarrow> int \<Rightarrow> int \<Rightarrow> int \<Rightarrow> bisect_inner" where
  "bisect_inner_loop sc n add nextcount nextmin nextmax interval =
     (let nextcount = nextcount + 1
      in if nextcount - 1 \<ge> n then Reached interval (nextcount - 1)
         else
           (let nextpoint = minmax_point sc (nextcount - 1);
                k = int nextcount;
                nextaddfactor = k * (k - 1) div 2;
                c = add * nextaddfactor;
                nextmin = (if nextmin * k < sint (minp nextpoint) - c
                           then idiv_up (sint (minp nextpoint) - c) k else nextmin);
                nextmax = (if nextmax * k > sint (maxp nextpoint) - c
                           then idiv_down (sint (maxp nextpoint) - c) k else nextmax)
            in if nextmin > nextmax then Stopped nextcount nextmin nextmax interval nextpoint
               else bisect_inner_loop sc n add nextcount nextmin nextmax nextmax))"
  by pat_completeness auto

termination by (relation "measure (\<lambda>(sc, n, add, nextcount, _). n - nextcount)") auto

declare bisect_inner_loop.simps [simp del]

text \<open>The best sequence found so far.\<close>

record best =
  bestinterval :: int
  bestcount :: int
  bestadd :: int
  bestreach :: int
  zerointerval :: int
  zerocount :: int

definition best_init :: best where
  "best_init = \<lparr>bestinterval = 0, bestcount = 1, bestadd = 1, bestreach = - (2 ^ 31),
     zerointerval = 0, zerocount = 0\<rparr>"

definition mk_move :: "int \<Rightarrow> int \<Rightarrow> int \<Rightarrow> step_move" where
  "mk_move interval cnt add = \<lparr>mv_interval = of_int interval, mv_count = of_int cnt, mv_add = of_int add\<rparr>"

text \<open>One round of the outer loop: a result, a \<open>break\<close>, or the state of the next round.\<close>

datatype bisect_outer = Found step_move | Break best | Again int int int int best

definition bisect_round ::
    "stepcompress \<Rightarrow> nat \<Rightarrow> int \<Rightarrow> int \<Rightarrow> int \<Rightarrow> int \<Rightarrow> int \<Rightarrow> best \<Rightarrow> bisect_outer" where
  "bisect_round sc n add minadd maxadd outer_min outer_max b =
     (case bisect_inner_loop sc n add 1 outer_min outer_max outer_max of
        Reached interval cnt \<Rightarrow> Found (mk_move interval (int cnt) add)
      | Stopped nextcount nextmin nextmax interval nextpoint \<Rightarrow>
          (let k = int nextcount;
               cnt = k - 1;
               addfactor = cnt * (cnt - 1) div 2;
               reach = add * addfactor + interval * cnt;
               better = reach > bestreach b \<or> reach = bestreach b \<and> interval > bestinterval b;
               b1 = (if better then b\<lparr>bestinterval := interval, bestcount := cnt, bestadd := add, bestreach := reach\<rparr> else b);
               b2 = (if better \<and> add = 0 then b1\<lparr>zerointerval := interval, zerocount := cnt\<rparr> else b1)
           in if better \<and> cnt > 0x200 then Break b2
              else
                (let nextaddfactor = k * (k - 1) div 2;
                     nextreach = add * nextaddfactor + interval * k;
                     short = nextreach < sint (minp nextpoint);
                     minadd = (if short then add + 1 else minadd);
                     outer_max = (if short then nextmax else outer_max);
                     maxadd = (if short then maxadd else add - 1);
                     outer_min = (if short then outer_min else nextmin);
                     errdelta = int (unat (max_error sc * QUADRATIC_DEV)) div (cnt * cnt);
                     minadd = (if cnt > 1 \<and> minadd < add - errdelta then add - errdelta else minadd);
                     maxadd = (if cnt > 1 \<and> maxadd > add + errdelta then add + errdelta else maxadd);
                     c = outer_max * k;
                     minadd = (if minadd * nextaddfactor < sint (minp nextpoint) - c
                               then idiv_up (sint (minp nextpoint) - c) nextaddfactor else minadd);
                     c = outer_min * k;
                     maxadd = (if maxadd * nextaddfactor > sint (maxp nextpoint) - c
                               then idiv_down (sint (maxp nextpoint) - c) nextaddfactor else maxadd)
                 in if minadd > maxadd then Break b2 else Again minadd maxadd outer_min outer_max b2)))"

text \<open>
  The outer loop. The range of \<open>add\<close> shrinks in every round, so \<open>0x10001\<close> rounds are enough
  (\<open>bisect_terminates\<close>); \<open>None\<close>: still running.
\<close>

fun bisect_loop ::
    "nat \<Rightarrow> stepcompress \<Rightarrow> nat \<Rightarrow> int \<Rightarrow> int \<Rightarrow> int \<Rightarrow> int \<Rightarrow> int \<Rightarrow> best \<Rightarrow> (step_move + best) option" where
  "bisect_loop 0 sc n add minadd maxadd outer_min outer_max b = None"
| "bisect_loop (Suc fuel) sc n add minadd maxadd outer_min outer_max b =
     (case bisect_round sc n add minadd maxadd outer_min outer_max b of
        Found m \<Rightarrow> Some (Inl m)
      | Break b \<Rightarrow> Some (Inr b)
      | Again minadd maxadd outer_min outer_max b \<Rightarrow>
          bisect_loop fuel sc n (maxadd - c_div (maxadd - minadd) 4) minadd maxadd outer_min outer_max b)"

definition compress_bisect_add :: "stepcompress \<Rightarrow> step_move option" where
  "compress_bisect_add sc =
     (let n = min (queue_next sc - queue_pos sc) 65535;
          point = minmax_point sc 0
      in case bisect_loop 0x10001 sc n 0 (- 0x8000) 0x7fff (sint (minp point)) (sint (maxp point)) best_init of
           None \<Rightarrow> None
         | Some (Inl m) \<Rightarrow> Some m
         | Some (Inr b) \<Rightarrow>
             Some (if zerocount b + c_div (zerocount b) 16 \<ge> bestcount b
                   then mk_move (zerointerval b) (zerocount b) 0
                   else mk_move (bestinterval b) (bestcount b) (bestadd b)))"

section \<open>Step compress checking\<close>

text \<open>The loop of \<open>check_line\<close>: \<open>n\<close> points left, \<open>i\<close> the index of the next.\<close>

fun check_points :: "stepcompress \<Rightarrow> u32 \<Rightarrow> nat \<Rightarrow> nat \<Rightarrow> u32 \<Rightarrow> u32 \<Rightarrow> bool" where
  "check_points sc add 0 i p interval \<longleftrightarrow> True"
| "check_points sc add (Suc n) i p interval \<longleftrightarrow>
     (let point = minmax_point sc i; p = p + interval
      in \<not> (p < minp point \<or> p > maxp point) \<and> \<not> interval \<ge> 0x80000000 \<and>
         check_points sc add n (Suc i) p (interval + add))"

definition check_line :: "stepcompress \<Rightarrow> step_move \<Rightarrow> int" where
  "check_line sc move =
     (if mv_count move = 0 \<or> mv_interval move = 0 \<and> mv_add move = 0 \<and> mv_count move > 1
         \<or> mv_interval move \<ge> 0x80000000 then ERROR_RET
      else if check_points sc (scast (mv_add move)) (unat (mv_count move)) 0 0 (mv_interval move) then 0
      else ERROR_RET)"

section \<open>Queueing commands\<close>

definition stepcompress_alloc :: "u32 \<Rightarrow> stepcompress" where
  "stepcompress_alloc oid =
     \<lparr>queue_mem = [], queue_pos = 0, queue_next = 0, max_error = 0, print_clock = None, last_step_clock = 0, msg_queue = [],
      sc_oid = oid, queue_step_msgtag = 0, set_next_step_dir_msgtag = 0, sdir = -1, invert_sdir = 0,
      next_step_clock = 0, next_step_dir = 0, last_position = 0, history_list = []\<rparr>"

definition stepcompress_fill :: "u32 \<Rightarrow> u32 \<Rightarrow> u32 \<Rightarrow> stepcompress \<Rightarrow> stepcompress" where
  "stepcompress_fill err qs_tag dir_tag sc =
     sc\<lparr>max_error := err, queue_step_msgtag := qs_tag, set_next_step_dir_msgtag := dir_tag\<rparr>"

definition stepcompress_set_invert_sdir :: "u32 \<Rightarrow> stepcompress \<Rightarrow> stepcompress" where
  "stepcompress_set_invert_sdir invert sc =
     (let invert = (if invert \<noteq> 0 then 1 else 0)
      in if invert \<noteq> invert_sdir sc
         then sc\<lparr>invert_sdir := invert, sdir := (if sdir sc \<ge> 0 then xor (sdir sc) 1 else sdir sc)\<rparr>
         else sc)"

text \<open>The list holds the latest entry first and is freed from its end.\<close>

definition free_history :: "u64 \<Rightarrow> stepcompress \<Rightarrow> stepcompress" where
  "free_history end_clock sc =
     sc\<lparr>history_list := rev (dropWhile (\<lambda>hs. \<not> hs_last_clock hs > end_clock) (rev (history_list sc)))\<rparr>"

definition stepcompress_get_step_dir :: "stepcompress \<Rightarrow> int" where
  "stepcompress_get_step_dir sc = next_step_dir sc"

definition calc_last_step_print_time :: "stepcompress \<Rightarrow> stepcompress" where
  "calc_last_step_print_time sc = sc\<lparr>print_clock := Some (last_step_clock sc)\<rparr>"

definition stepcompress_history_expire :: "u64 \<Rightarrow> stepcompress \<Rightarrow> stepcompress" where
  "stepcompress_history_expire end_clock sc = free_history end_clock sc"

definition queue_msg :: "queue_message \<Rightarrow> stepcompress \<Rightarrow> stepcompress" where
  "queue_msg qm sc = sc\<lparr>msg_queue := msg_queue sc @ [qm]\<rparr>"

definition add_move :: "u64 \<Rightarrow> step_move \<Rightarrow> stepcompress \<Rightarrow> (stepcompress, unit) res" where
  "add_move first_clock move sc =
     (let cnt = unat (mv_count move);
          addfactor = cnt * (cnt - 1) div 2;
          ticks = scast (mv_add move) * of_nat addfactor + mv_interval move * of_nat (cnt - 1) :: u32;
          last_clock = first_clock + ucast ticks
      in case message_alloc_and_encode [queue_step_msgtag sc, sc_oid sc, mv_interval move,
                ucast (mv_count move), scast (mv_add move)] of
           None \<Rightarrow> Fault
         | Some qm \<Rightarrow>
             (let qm = qm\<lparr>min_clock := last_step_clock sc,
                          req_clock := (if mv_count move = 1 \<and> first_clock \<ge> last_step_clock sc + CLOCK_DIFF_MAX
                                        then first_clock else last_step_clock sc)\<rparr>;
                  steps = (if sdir sc \<noteq> 0 then int cnt else - int cnt);
                  hs = \<lparr>hs_first_clock = first_clock, hs_last_clock = last_clock, start_position = last_position sc,
                        hs_step_count = steps, hs_interval = sint (mv_interval move), hs_add = sint (mv_add move)\<rparr>
              in Ret () ((queue_msg qm sc)\<lparr>last_step_clock := last_clock,
                           last_position := last_position sc + steps,
                           history_list := hs # history_list sc\<rparr>)))"

text \<open>
  The loop of \<open>queue_flush\<close>; every round takes at least one step out of the queue, so their
  number is enough fuel. The value is the C return value.
\<close>

fun flush_loop :: "nat \<Rightarrow> u64 \<Rightarrow> stepcompress \<Rightarrow> (stepcompress, int) res" where
  "flush_loop fuel move_clock sc =
     (if \<not> last_step_clock sc < move_clock then Ret 0 sc
      else
        (case fuel of
           0 \<Rightarrow> Fault
         | Suc fuel \<Rightarrow>
             (case compress_bisect_add sc of
                None \<Rightarrow> Fault
              | Some move \<Rightarrow>
                  if check_line sc move \<noteq> 0 then Ret ERROR_RET sc
                  else
                    andthen (add_move (last_step_clock sc + ucast (mv_interval move)) move sc) (\<lambda>sc.
                      if queue_pos sc + unat (mv_count move) \<ge> queue_next sc
                      then Ret 0 (sc\<lparr>queue_pos := 0, queue_next := 0\<rparr>)
                      else flush_loop fuel move_clock (sc\<lparr>queue_pos := queue_pos sc + unat (mv_count move)\<rparr>)))))"

declare flush_loop.simps [simp del]

definition queue_flush :: "u64 \<Rightarrow> stepcompress \<Rightarrow> (stepcompress, int) res" where
  "queue_flush move_clock sc =
     (if queue_pos sc \<ge> queue_next sc then Ret 0 sc
      else bnd (flush_loop (queue_next sc - queue_pos sc) move_clock sc) (\<lambda>ret sc.
             if ret \<noteq> 0 then Ret ret sc else Ret 0 (calc_last_step_print_time sc)))"

definition stepcompress_flush_far :: "u64 \<Rightarrow> stepcompress \<Rightarrow> (stepcompress, int) res" where
  "stepcompress_flush_far abs_step_clock sc =
     (let move = \<lparr>mv_interval = ucast (abs_step_clock - last_step_clock sc), mv_count = 1, mv_add = 0\<rparr>
      in andthen (add_move abs_step_clock move sc) (\<lambda>sc. Ret 0 (calc_last_step_print_time sc)))"

definition set_next_step_dir :: "int \<Rightarrow> stepcompress \<Rightarrow> (stepcompress, int) res" where
  "set_next_step_dir dir sc =
     (if sdir sc = dir then Ret 0 sc
      else bnd (queue_flush (- 1) sc) (\<lambda>ret sc.
             if ret \<noteq> 0 then Ret ret sc
             else (let sc = sc\<lparr>sdir := dir\<rparr>
                   in case message_alloc_and_encode [set_next_step_dir_msgtag sc, sc_oid sc,
                             of_int (xor dir (invert_sdir sc))] of
                        None \<Rightarrow> Fault
                      | Some qm \<Rightarrow> Ret 0 (queue_msg (qm\<lparr>req_clock := last_step_clock sc\<rparr>) sc))))"

text \<open>\<open>*sc->queue_next++ = v\<close>\<close>

definition queue_put :: "u32 \<Rightarrow> stepcompress \<Rightarrow> (stepcompress, int) res" where
  "queue_put v sc =
     (if queue_next sc \<ge> length (queue_mem sc) then Fault
      else Ret 0 (sc\<lparr>queue_mem := (queue_mem sc)[queue_next sc := v], queue_next := Suc (queue_next sc)\<rparr>))"

definition queue_append_far :: "stepcompress \<Rightarrow> (stepcompress, int) res" where
  "queue_append_far sc =
     (let step_clock = next_step_clock sc
      in bnd (queue_flush (step_clock - CLOCK_DIFF_MAX + 1) (sc\<lparr>next_step_clock := 0\<rparr>)) (\<lambda>ret sc.
           if ret \<noteq> 0 then Ret ret sc
           else if step_clock \<ge> last_step_clock sc + CLOCK_DIFF_MAX then stepcompress_flush_far step_clock sc
           else queue_put (ucast step_clock) sc))"

text \<open>The doubling loop of \<open>queue_append_extend\<close>.\<close>

function grow_alloc :: "nat \<Rightarrow> nat \<Rightarrow> nat" where
  "grow_alloc in_use alloc = (if 0 < alloc \<and> in_use \<ge> alloc then grow_alloc in_use (alloc * 2) else alloc)"
  by pat_completeness auto

termination by (relation "measure (\<lambda>(in_use, alloc). Suc in_use - alloc)") auto

declare grow_alloc.simps [simp del]

text \<open>Fresh memory has no defined contents; the code does not read it.\<close>

definition queue_append_extend :: "stepcompress \<Rightarrow> (stepcompress, int) res" where
  "queue_append_extend sc =
     bnd (if queue_next sc - queue_pos sc > 65535 + 2000 then
            (let flush = queue_mem sc ! (queue_next sc - 65535) - ucast (last_step_clock sc)
             in queue_flush (last_step_clock sc + ucast flush) sc)
          else Ret 0 sc)
       (\<lambda>ret sc.
          if ret \<noteq> 0 then Ret ret sc
          else
            (let sc =
               (if queue_next sc \<ge> length (queue_mem sc) then
                  (let in_use = queue_next sc - queue_pos sc
                   in if queue_pos sc > 0 then
                        sc\<lparr>queue_mem := blit (queue_mem sc) 0 (take in_use (drop (queue_pos sc) (queue_mem sc))),
                           queue_pos := 0, queue_next := in_use\<rparr>
                      else
                        (let alloc = length (queue_mem sc);
                             alloc = grow_alloc in_use (if alloc = 0 then QUEUE_START_SIZE else alloc)
                         in sc\<lparr>queue_mem := queue_mem sc @ replicate (alloc - length (queue_mem sc)) 0,
                               queue_pos := 0, queue_next := in_use\<rparr>))
                else sc)
             in bnd (queue_put (ucast (next_step_clock sc)) sc) (\<lambda>_ sc. Ret 0 (sc\<lparr>next_step_clock := 0\<rparr>))))"

definition queue_append :: "stepcompress \<Rightarrow> (stepcompress, int) res" where
  "queue_append sc =
     bnd (if next_step_dir sc \<noteq> sdir sc then set_next_step_dir (next_step_dir sc) sc else Ret 0 sc) (\<lambda>ret sc.
       if ret \<noteq> 0 then Ret ret sc
       else if next_step_clock sc \<ge> last_step_clock sc + CLOCK_DIFF_MAX then queue_append_far sc
       else if queue_next sc \<ge> length (queue_mem sc) then queue_append_extend sc
       else bnd (queue_put (ucast (next_step_clock sc)) sc) (\<lambda>_ sc. Ret 0 (sc\<lparr>next_step_clock := 0\<rparr>)))"

text \<open>
  \<open>rel_sc\<close> is the step time in ticks after the last step, converted from floating point; \<open>close d\<close> is the test
  \<open>diff < SDS_FILTER_TIME * mcu_freq\<close> of a difference in ticks. The theory \<open>Step_Times\<close> has the function with its
  floating point arguments.
\<close>

definition append_step :: "(int \<Rightarrow> bool) \<Rightarrow> int \<Rightarrow> u64 \<Rightarrow> stepcompress \<Rightarrow> (stepcompress, int) res" where
  "append_step close dir rel_sc sc =
     (let step_clock = last_step_clock sc + rel_sc
      in if next_step_clock sc \<noteq> 0 \<and> dir \<noteq> next_step_dir sc \<and> close (sint (step_clock - next_step_clock sc))
         then Ret 0 (sc\<lparr>next_step_clock := 0, next_step_dir := dir\<rparr>)
         else bnd (if next_step_clock sc \<noteq> 0 then queue_append sc else Ret 0 sc) (\<lambda>ret sc.
                if ret \<noteq> 0 then Ret ret sc
                else Ret 0 (sc\<lparr>next_step_clock := step_clock, next_step_dir := dir\<rparr>)))"

definition stepcompress_commit :: "stepcompress \<Rightarrow> (stepcompress, int) res" where
  "stepcompress_commit sc = (if next_step_clock sc \<noteq> 0 then queue_append sc else Ret 0 sc)"

definition stepcompress_flush :: "u64 \<Rightarrow> stepcompress \<Rightarrow> (stepcompress, int) res" where
  "stepcompress_flush move_clock sc =
     bnd (if next_step_clock sc \<noteq> 0 \<and> move_clock \<ge> next_step_clock sc then queue_append sc else Ret 0 sc)
       (\<lambda>ret sc. if ret \<noteq> 0 then Ret ret sc else queue_flush move_clock sc)"

definition stepcompress_reset :: "u64 \<Rightarrow> stepcompress \<Rightarrow> (stepcompress, int) res" where
  "stepcompress_reset clock sc =
     bnd (stepcompress_flush (- 1) sc) (\<lambda>ret sc.
       if ret \<noteq> 0 then Ret ret sc else Ret 0 (calc_last_step_print_time (sc\<lparr>last_step_clock := clock, sdir := -1\<rparr>)))"

definition stepcompress_set_last_position :: "u64 \<Rightarrow> int \<Rightarrow> stepcompress \<Rightarrow> (stepcompress, int) res" where
  "stepcompress_set_last_position clock pos sc =
     bnd (stepcompress_flush (- 1) sc) (\<lambda>ret sc.
       if ret \<noteq> 0 then Ret ret sc
       else Ret 0 (sc\<lparr>last_position := pos,
              history_list := \<lparr>hs_first_clock = clock, hs_last_clock = clock, start_position = pos,
                               hs_step_count = 0, hs_interval = 0, hs_add = 0\<rparr> # history_list sc\<rparr>))"

text \<open>\<open>solve\<close> is the floating point solution of the quadratic equation, cut to an integer.\<close>

fun find_position :: "(int \<Rightarrow> int \<Rightarrow> int \<Rightarrow> int) \<Rightarrow> u64 \<Rightarrow> int \<Rightarrow> history_steps list \<Rightarrow> int" where
  "find_position solve clock pos [] = pos"
| "find_position solve clock pos (hs # hss) =
     (if clock < hs_first_clock hs then find_position solve clock (start_position hs) hss
      else if clock \<ge> hs_last_clock hs then start_position hs + hs_step_count hs
      else
        (let ticks = sint (ucast (clock - hs_first_clock hs) :: u32) + hs_interval hs;
             offset = (if hs_add hs = 0 then c_div ticks (hs_interval hs)
                       else solve (hs_add hs) (hs_interval hs) ticks)
         in if hs_step_count hs < 0 then start_position hs - offset else start_position hs + offset))"

definition stepcompress_find_past_position :: "(int \<Rightarrow> int \<Rightarrow> int \<Rightarrow> int) \<Rightarrow> u64 \<Rightarrow> stepcompress \<Rightarrow> int" where
  "stepcompress_find_past_position solve clock sc = find_position solve clock (last_position sc) (history_list sc)"

definition stepcompress_queue_msg :: "u32 list \<Rightarrow> stepcompress \<Rightarrow> (stepcompress, int) res" where
  "stepcompress_queue_msg data sc =
     bnd (stepcompress_flush (- 1) sc) (\<lambda>ret sc.
       if ret \<noteq> 0 then Ret ret sc
       else case message_alloc_and_encode data of
              None \<Rightarrow> Fault
            | Some qm \<Rightarrow> Ret 0 (queue_msg (qm\<lparr>req_clock := last_step_clock sc\<rparr>) sc))"

definition stepcompress_queue_mq_msg :: "u64 \<Rightarrow> u32 list \<Rightarrow> stepcompress \<Rightarrow> (stepcompress, int) res" where
  "stepcompress_queue_mq_msg clock data sc =
     bnd (stepcompress_flush (- 1) sc) (\<lambda>ret sc.
       if ret \<noteq> 0 then Ret ret sc
       else case message_alloc_and_encode data of
              None \<Rightarrow> Fault
            | Some qm \<Rightarrow> Ret 0 (queue_msg (qm\<lparr>min_clock := clock, req_clock := clock\<rparr>) sc))"

text \<open>The entries copied out, at most \<open>n\<close>.\<close>

fun extract_old :: "nat \<Rightarrow> u64 \<Rightarrow> u64 \<Rightarrow> history_steps list \<Rightarrow> history_steps list" where
  "extract_old n start_clock end_clock [] = []"
| "extract_old n start_clock end_clock (hs # hss) =
     (if start_clock \<ge> hs_last_clock hs \<or> n = 0 then []
      else if end_clock \<le> hs_first_clock hs then extract_old n start_clock end_clock hss
      else hs # extract_old (n - 1) start_clock end_clock hss)"

definition stepcompress_extract_old :: "nat \<Rightarrow> u64 \<Rightarrow> u64 \<Rightarrow> stepcompress \<Rightarrow> history_steps list" where
  "stepcompress_extract_old n start_clock end_clock sc = extract_old n start_clock end_clock (history_list sc)"

section \<open>Synchronisation of several steppers\<close>

text \<open>\<open>sync_sent\<close> are the batches handed to the serial queue.\<close>

record steppersync =
  sc_list :: "stepcompress list"
  move_clocks :: "u64 list"
  sync_sent :: "queue_message list list"

definition MAX_CLOCK :: u64 where "MAX_CLOCK = 0x7fffffffffffffff"

definition steppersync_alloc :: "stepcompress list \<Rightarrow> nat \<Rightarrow> steppersync" where
  "steppersync_alloc scs move_num = \<lparr>sc_list = scs, move_clocks = replicate move_num 0, sync_sent = []\<rparr>"

text \<open>The clock of a child in the heap, \<open>UINT64_MAX\<close> outside it.\<close>

definition child_clock :: "u64 list \<Rightarrow> nat \<Rightarrow> u64" where
  "child_clock mc pos = (if pos < length mc then mc ! pos else - 1)"

lemma child_clock_max: "\<not> k \<le> child_clock mc p \<Longrightarrow> p < length mc"
  by (auto simp: child_clock_def split: if_splits)

lemma child_in_range:
  assumes "\<not> (clock \<le> child_clock mc p \<and> clock \<le> child_clock mc q)"
  shows "child_clock mc p < child_clock mc q \<Longrightarrow> p < length mc"
    "\<not> child_clock mc p < child_clock mc q \<Longrightarrow> q < length mc"
  using assms child_clock_max [of clock mc p] child_clock_max [of clock mc q]
    child_clock_max [of "child_clock mc q" mc p] child_clock_max [of "child_clock mc p" mc q]
  by (auto simp: not_le not_less)

function heap_replace_from :: "u64 list \<Rightarrow> u64 \<Rightarrow> nat \<Rightarrow> u64 list" where
  "heap_replace_from mc clock pos =
     (let child1_pos = 2 * pos + 1; child2_pos = 2 * pos + 2;
          child1_clock = child_clock mc child1_pos; child2_clock = child_clock mc child2_pos
      in if clock \<le> child1_clock \<and> clock \<le> child2_clock then mc[pos := clock]
         else if child1_clock < child2_clock
         then heap_replace_from (mc[pos := child1_clock]) clock child1_pos
         else heap_replace_from (mc[pos := child2_clock]) clock child2_pos)"
  by pat_completeness auto

termination
proof (relation "measure (\<lambda>(mc, clock, pos). length mc - pos)", goal_cases)
  case (2 mc clock pos c1 c2 k1 k2)
  then show ?case using child_in_range(1) [of clock mc c1 c2] by simp
next
  case (3 mc clock pos c1 c2 k1 k2)
  then show ?case using child_in_range(2) [of clock mc c1 c2] by simp
qed simp

declare heap_replace_from.simps [simp del]

definition heap_replace :: "u64 \<Rightarrow> steppersync \<Rightarrow> steppersync" where
  "heap_replace clock ss = ss\<lparr>move_clocks := heap_replace_from (move_clocks ss) clock 0\<rparr>"

text \<open>Flushing each stepper up to the first error.\<close>

fun flush_all :: "u64 \<Rightarrow> stepcompress list \<Rightarrow> stepcompress list \<Rightarrow> (stepcompress list, int) res" where
  "flush_all move_clock done [] = Ret 0 done"
| "flush_all move_clock done (sc # scs) =
     (case stepcompress_flush move_clock sc of
        Ret ret sc \<Rightarrow> if ret \<noteq> 0 then Ret ret (done @ sc # scs) else flush_all move_clock (done @ [sc]) scs
      | Shut e _ \<Rightarrow> Shut e (done @ sc # scs)
      | Fault \<Rightarrow> Fault)"

text \<open>The search for the message with the lowest \<open>req_clock\<close>: the index of its stepper.\<close>

fun find_lowest :: "nat \<Rightarrow> u64 \<Rightarrow> nat option \<Rightarrow> stepcompress list \<Rightarrow> nat option" where
  "find_lowest i clock found [] = found"
| "find_lowest i clock found (sc # scs) =
     (case msg_queue sc of
        m # _ \<Rightarrow> if req_clock m < clock then find_lowest (Suc i) (req_clock m) (Some i) scs
                  else find_lowest (Suc i) clock found scs
      | [] \<Rightarrow> find_lowest (Suc i) clock found scs)"

text \<open>
  The merging loop: the messages batched. Every round takes one message out of a queue, so
  their number is enough fuel.
\<close>

fun merge_loop :: "nat \<Rightarrow> u64 \<Rightarrow> queue_message list \<Rightarrow> steppersync \<Rightarrow> queue_message list \<times> steppersync" where
  "merge_loop 0 move_clock msgs ss = (msgs, ss)"
| "merge_loop (Suc fuel) move_clock msgs ss =
     (case find_lowest 0 MAX_CLOCK None (sc_list ss) of
        None \<Rightarrow> (msgs, ss)
      | Some i \<Rightarrow>
          (let sc = sc_list ss ! i; qm = hd (msg_queue sc)
           in if min_clock qm \<noteq> 0 \<and> req_clock qm > move_clock then (msgs, ss)
              else
                (let next_avail = move_clocks ss ! 0;
                     ss = (if min_clock qm \<noteq> 0 then heap_replace (min_clock qm) ss else ss);
                     ss = ss\<lparr>sc_list := (sc_list ss)[i := sc\<lparr>msg_queue := tl (msg_queue sc)\<rparr>]\<rparr>
                 in merge_loop fuel move_clock (msgs @ [qm\<lparr>min_clock := next_avail\<rparr>]) ss)))"

definition queued :: "stepcompress list \<Rightarrow> nat" where
  "queued scs = sum_list (map (\<lambda>sc. length (msg_queue sc)) scs)"

definition steppersync_history_expire :: "u64 \<Rightarrow> steppersync \<Rightarrow> steppersync" where
  "steppersync_history_expire end_clock ss =
     ss\<lparr>sc_list := map (stepcompress_history_expire end_clock) (sc_list ss)\<rparr>"

definition steppersync_flush :: "u64 \<Rightarrow> u64 \<Rightarrow> steppersync \<Rightarrow> (steppersync, int) res" where
  "steppersync_flush move_clock clear_history_clock ss =
     (case flush_all move_clock [] (sc_list ss) of
        Fault \<Rightarrow> Fault
      | Shut e scs \<Rightarrow> Shut e (ss\<lparr>sc_list := scs\<rparr>)
      | Ret ret scs \<Rightarrow>
          (if ret \<noteq> 0 then Ret ret (ss\<lparr>sc_list := scs\<rparr>)
           else
             (case merge_loop (Suc (queued scs)) move_clock [] (ss\<lparr>sc_list := scs\<rparr>) of
                (msgs, ss) \<Rightarrow>
                  Ret 0 (steppersync_history_expire clear_history_clock
                    (if msgs \<noteq> [] then ss\<lparr>sync_sent := sync_sent ss @ [msgs]\<rparr> else ss)))))"

end
