(* ===== verification/Stepcompress_Props.thy ===== *)
theory Stepcompress_Props
  imports Stepcompress Stepper_Props "HOL-Library.Multiset"
begin

text \<open>
  Properties of the host's step compression: the search for commands ends, a command that passes
  the check reproduces the requested step times within the allowed error when the firmware runs
  it, flushing turns the queue into such commands, and the heap of move slots.
\<close>

section \<open>The search ends\<close>

lemma int_div_less_iff:
  assumes "0 < (d :: int)"
  shows "n div d < m \<longleftrightarrow> n < m * d"
proof
  assume "n div d < m"
  then have "(n div d + 1) * d \<le> m * d" using assms by (intro mult_right_mono) simp_all
  moreover have "n < (n div d + 1) * d" using pos_mod_bound [OF assms, of n] mult_div_mod_eq [of d n]
    unfolding distrib_right mult.commute [of "n div d" d] by linarith
  ultimately show "n < m * d" by simp
next
  assume n: "n < m * d"
  show "n div d < m"
  proof (rule ccontr)
    assume "\<not> n div d < m"
    then have "m * d \<le> (n div d) * d" using assms by (intro mult_right_mono) simp_all
    also have "\<dots> \<le> n"
      using pos_mod_sign [OF assms, of n] mult_div_mod_eq [of d n] unfolding mult.commute [of "n div d" d] by linarith
    finally show False using n by simp
  qed
qed

lemma idiv_up_gt:
  assumes "0 < d" "m * d < n"
  shows "m < idiv_up n d"
proof (cases "0 \<le> n")
  case True
  have "\<not> n + d - 1 < (m + 1) * d" using assms(2) by (simp add: algebra_simps)
  then have "\<not> (n + d - 1) div d < m + 1" using int_div_less_iff [OF assms(1)] by blast
  then show ?thesis using True assms(1) by (simp add: idiv_up_def c_div_def)
next
  case False
  have "- n < - m * d" using assms(2) by simp
  then have "(- n) div d < - m" using int_div_less_iff [OF assms(1)] by blast
  then show ?thesis using False by (simp add: idiv_up_def c_div_def)
qed

lemma idiv_down_less:
  assumes "0 < d" "n < m * d"
  shows "idiv_down n d < m"
proof (cases "0 \<le> n")
  case True
  then show ?thesis using assms int_div_less_iff [OF assms(1)] by (simp add: idiv_down_def c_div_def)
next
  case False
  have "\<not> d - 1 - n < (1 - m) * d" using assms(2) by (simp add: algebra_simps)
  then have "\<not> (d - 1 - n) div d < 1 - m" using int_div_less_iff [OF assms(1)] by blast
  moreover have "- (n - d + 1) = d - 1 - n" by simp
  ultimately show ?thesis using False assms(1) by (simp only: idiv_down_def c_div_def if_False) simp
qed

lemma bisect_inner_count:
  assumes "1 \<le> nc" "nc \<le> n"
  shows "case bisect_inner_loop sc n add nc mi ma iv of
    Reached _ c \<Rightarrow> c = n | Stopped nc' _ _ _ _ \<Rightarrow> nc < nc' \<and> nc' \<le> n"
  using assms
proof (induction sc n add nc mi ma iv rule: bisect_inner_loop.induct)
  case (1 sc n add nc mi ma iv)
  show ?case
  proof (cases "n \<le> nc")
    case True
    then show ?thesis using 1(3) by (subst bisect_inner_loop.simps) (simp add: Let_def)
  next
    case False
    define pt where "pt = minmax_point sc nc"
    define k where "k = int (nc + 1)"
    define c where "c = add * (k * (k - 1) div 2)"
    define mi' where "mi' = (if mi * k < sint (minp pt) - c then idiv_up (sint (minp pt) - c) k else mi)"
    define ma' where "ma' = (if ma * k > sint (maxp pt) - c then idiv_down (sint (maxp pt) - c) k else ma)"
    have r: "bisect_inner_loop sc n add nc mi ma iv =
        (if mi' > ma' then Stopped (nc + 1) mi' ma' iv pt else bisect_inner_loop sc n add (nc + 1) mi' ma' ma')"
      unfolding bisect_inner_loop.simps [of sc n add nc mi ma iv] Let_def add_diff_cancel_right' if_not_P [OF False]
        ma'_def mi'_def c_def k_def pt_def by (rule refl)
    have "\<not> n \<le> nc + 1 - 1" using False by simp
    note ih = 1(1) [OF refl this refl refl refl refl refl, unfolded add_diff_cancel_right',
      folded pt_def k_def, folded c_def, folded mi'_def ma'_def]
    show ?thesis using ih False unfolding r by (auto split: bisect_inner.splits)
  qed
qed

text \<open>\<open>counted n b\<close>: the sequences remembered have a length that the queue holds.\<close>

definition counted :: "nat \<Rightarrow> best \<Rightarrow> bool" where
  "counted n b \<longleftrightarrow> 1 \<le> bestcount b \<and> bestcount b \<le> int n \<and> 0 \<le> zerocount b \<and> zerocount b \<le> int n"

lemma bisect_round_narrows:
  assumes "1 \<le> n" "counted n b"
  shows "case bisect_round sc n add minadd maxadd omin omax b of
    Found m \<Rightarrow> mv_count m = of_nat n
  | Break b' \<Rightarrow> counted n b'
  | Again minadd' maxadd' _ _ b' \<Rightarrow> counted n b' \<and> minadd' \<le> maxadd' \<and>
      min minadd (add + 1) \<le> minadd' \<and> maxadd' \<le> max maxadd (add - 1) \<and> (add < minadd' \<or> maxadd' < add)"
proof (cases "bisect_inner_loop sc n add 1 omin omax omax")
  case (Reached iv c)
  then show ?thesis
    using bisect_inner_count [of 1 n sc add omin omax omax] assms(1) by (simp add: bisect_round_def mk_move_def)
next
  case (Stopped k nmin nmax iv pt)
  then have k: "2 \<le> k" "k \<le> n" using bisect_inner_count [of 1 n sc add omin omax omax] assms(1) by simp_all
  have "2 * 1 \<le> int k * (int k - 1)" using k(1) by (intro mult_mono) simp_all
  then have f: "0 < int k * (int k - 1) div 2" by linarith
  define cnt where "cnt = int k - 1"
  define reach where "reach = add * (cnt * (cnt - 1) div 2) + iv * cnt"
  define better where "better \<longleftrightarrow> reach > bestreach b \<or> reach = bestreach b \<and> iv > bestinterval b"
  define b1 where "b1 = (if better then b\<lparr>bestinterval := iv, bestcount := cnt, bestadd := add, bestreach := reach\<rparr> else b)"
  define b2 where "b2 = (if better \<and> add = 0 then b1\<lparr>zerointerval := iv, zerocount := cnt\<rparr> else b1)"
  define f where "f = int k * (int k - 1) div 2"
  define short where "short \<longleftrightarrow> add * f + iv * int k < sint (minp pt)"
  define m1 where "m1 = (if short then add + 1 else minadd)"
  define M1 where "M1 = (if short then maxadd else add - 1)"
  define omax' where "omax' = (if short then nmax else omax)"
  define omin' where "omin' = (if short then omin else nmin)"
  define e where "e = int (unat (max_error sc * QUADRATIC_DEV)) div (cnt * cnt)"
  define m2 where "m2 = (if cnt > 1 \<and> m1 < add - e then add - e else m1)"
  define M2 where "M2 = (if cnt > 1 \<and> M1 > add + e then add + e else M1)"
  define m3 where "m3 = (if m2 * f < sint (minp pt) - omax' * int k then idiv_up (sint (minp pt) - omax' * int k) f else m2)"
  define M3 where "M3 = (if M2 * f > sint (maxp pt) - omin' * int k then idiv_down (sint (maxp pt) - omin' * int k) f else M2)"
  note defs = cnt_def reach_def better_def b1_def b2_def f_def short_def m1_def M1_def omax'_def omin'_def e_def
    m2_def M2_def m3_def M3_def
  have r: "bisect_round sc n add minadd maxadd omin omax b =
      (if better \<and> cnt > 0x200 then Break b2 else if m3 > M3 then Break b2 else Again m3 M3 omin' omax' b2)"
    unfolding bisect_round_def Stopped bisect_inner.case Let_def defs by (rule refl)
  have "counted n b2" using assms(2) k by (auto simp: counted_def b2_def b1_def cnt_def)
  moreover have "m1 \<le> m2" "m2 \<le> m3" "M3 \<le> M2" "M2 \<le> M1"
    using f idiv_up_gt [of f m2] idiv_down_less [of f _ M2] by (auto simp: m2_def M2_def m3_def M3_def simp flip: f_def intro: less_imp_le)
  moreover have "if short then m1 = add + 1 \<and> M1 = maxadd else m1 = minadd \<and> M1 = add - 1" by (simp add: m1_def M1_def)
  ultimately show ?thesis unfolding r by (auto split: if_splits)
qed

text \<open>\<open>bisect_terminates\<close>: every round leaves fewer values of \<open>add\<close> to try.\<close>

definition move_fits :: "nat \<Rightarrow> step_move \<Rightarrow> bool" where
  "move_fits n m \<longleftrightarrow> 1 \<le> unat (mv_count m) \<and> unat (mv_count m) \<le> n"

lemma quarter_in_range: "a \<le> b \<Longrightarrow> a \<le> b - c_div (b - a) 4 \<and> b - c_div (b - a) 4 \<le> (b :: int)"
  by (simp add: c_div_def) linarith

lemma bisect_terminates:
  assumes "1 \<le> n" "counted n b" "minadd \<le> add" "add \<le> maxadd" "nat (maxadd - minadd) < fuel"
  shows "(\<exists>m. bisect_loop fuel sc n add minadd maxadd omin omax b = Some (Inl m) \<and> mv_count m = of_nat n) \<or>
    (\<exists>b'. bisect_loop fuel sc n add minadd maxadd omin omax b = Some (Inr b') \<and> counted n b')"
  using assms(2-)
proof (induction fuel arbitrary: add minadd maxadd omin omax b)
  case (Suc fuel)
  note r = bisect_round_narrows [OF assms(1) Suc.prems(1), where sc = sc and add = add and minadd = minadd and
      maxadd = maxadd and omin = omin and omax = omax]
  show ?case
  proof (cases "bisect_round sc n add minadd maxadd omin omax b")
    case (Again mi ma omi oma b')
    let ?add = "ma - c_div (ma - mi) 4"
    have a: "counted n b'" "mi \<le> ma" "minadd \<le> mi" "ma \<le> maxadd" "add < mi \<or> ma < add"
      using r Suc.prems unfolding Again by auto
    have "nat (ma - mi) < fuel" using a Suc.prems by auto
    then show ?thesis
      using Suc.IH [of b' mi ?add ma omi oma] quarter_in_range [OF a(2)] a(1) Again by simp
  qed (use r in auto)
qed simp

lemma unat_of_int_count:
  assumes "0 \<le> c" "c \<le> 65535"
  shows "unat (of_int c :: u16) = nat c"
  using assms by (simp add: unsigned_of_int take_bit_int_eq_self)

lemma compress_bisect_add_ok:
  assumes "queue_pos sc < queue_next sc"
  shows "\<exists>m. compress_bisect_add sc = Some m \<and> move_fits (queue_next sc - queue_pos sc) m"
proof -
  define n where "n = min (queue_next sc - queue_pos sc) 65535"
  have n: "1 \<le> n" "n \<le> queue_next sc - queue_pos sc" "n \<le> 65535" using assms by (simp_all add: n_def)
  let ?mi = "sint (minp (minmax_point sc 0))" and ?ma = "sint (maxp (minmax_point sc 0))"
  have b: "counted n best_init" using n by (simp add: counted_def best_init_def)
  have fits: "move_fits (queue_next sc - queue_pos sc) (mk_move iv c ad)" if "1 \<le> c" "c \<le> int n" for iv c ad
  proof -
    have "0 \<le> c" "c \<le> 65535" using that n by simp_all
    then have "unat (mv_count (mk_move iv c ad)) = nat c" by (simp add: mk_move_def unat_of_int_count)
    with that n show ?thesis unfolding move_fits_def by linarith
  qed
  consider m where "bisect_loop 0x10001 sc n 0 (- 0x8000) 0x7fff ?mi ?ma best_init = Some (Inl m)" "mv_count m = of_nat n"
    | b' where "bisect_loop 0x10001 sc n 0 (- 0x8000) 0x7fff ?mi ?ma best_init = Some (Inr b')" "counted n b'"
    using bisect_terminates [OF n(1) b, of "- 0x8000" 0 "0x7fff" "0x10001" sc ?mi ?ma] by auto
  then show ?thesis
  proof cases
    case (1 m)
    have "unat (of_nat n :: u16) = n" using unat_of_int_count [of "int n"] n by simp
    then show ?thesis using 1 n by (simp add: compress_bisect_add_def Let_def move_fits_def flip: n_def)
  next
    case (2 b')
    have "1 \<le> zerocount b'" if "zerocount b' + c_div (zerocount b') 16 \<ge> bestcount b'"
      using that 2(2) by (auto simp: counted_def c_div_def split: if_splits intro: ccontr)
    then have "\<exists>iv c ad. compress_bisect_add sc = Some (mk_move iv c ad) \<and> 1 \<le> c \<and> c \<le> int n"
      using 2 by (auto simp: compress_bisect_add_def Let_def counted_def simp flip: n_def)
    then show ?thesis using fits by auto
  qed
qed

section \<open>Commands within the error\<close>

text \<open>
  \<open>step_near sc iv ad k\<close>: when a move \<open>(iv, _, ad)\<close> starts at the last step clock, its step \<open>k\<close>
  (from 0) is not after the requested time, and ahead of it by at most \<open>max_error\<close> and at most half
  the time since the request before. All clocks are taken modulo \<open>2 ^ 32\<close>, as the firmware does.
\<close>

definition request_before :: "stepcompress \<Rightarrow> nat \<Rightarrow> u32" where
  "request_before sc k = (if k > 0 then queue_at sc (k - 1) else ucast (last_step_clock sc))"

definition step_near :: "stepcompress \<Rightarrow> u32 \<Rightarrow> u16 \<Rightarrow> nat \<Rightarrow> bool" where
  "step_near sc iv ad k \<longleftrightarrow>
     (let early = unat (queue_at sc k - step_clock (ucast (last_step_clock sc)) iv ad (Suc k))
      in early \<le> unat (max_error sc) \<and> early \<le> unat (queue_at sc k - request_before sc k) div 2)"

lemma between_near:
  assumes "(q :: 'a::len word) \<le> p" "p - e \<le> q"
  shows "unat (p - q) \<le> unat e"
proof (cases "e \<le> p")
  case True
  then have "unat (p - e) = unat p - unat e" "unat (p - q) = unat p - unat q"
    using assms(1) by (simp_all add: unat_sub)
  moreover have "unat (p - e) \<le> unat q" using assms(2) by (simp add: word_le_nat_alt)
  ultimately show ?thesis by simp
next
  case False
  have "unat (p - q) \<le> unat p" using assms(1) by (simp add: unat_sub)
  then show ?thesis using False by (simp add: word_le_nat_alt)
qed

lemma minmax_near:
  assumes "minp (minmax_point sc k) \<le> p" "p \<le> maxp (minmax_point sc k)"
    "p = step_clock 0 iv ad (Suc k)"
  shows "step_near sc iv ad k"
proof -
  let ?lsc = "ucast (last_step_clock sc) :: u32"
  let ?point = "queue_at sc k - ?lsc"
  let ?gap = "queue_at sc k - request_before sc k"
  let ?e = "if ?gap div 2 > max_error sc then max_error sc else ?gap div 2"
  have m: "minmax_point sc k = \<lparr>minp = ?point - ?e, maxp = ?point\<rparr>"
    by (simp add: minmax_point_def request_before_def Let_def)
  have "?point - p = queue_at sc k - step_clock ?lsc iv ad (Suc k)"
    by (simp add: assms(3) step_clock_def algebra_simps)
  moreover have "unat (?point - p) \<le> unat ?e" by (rule between_near) (use assms(1,2) in \<open>simp_all only: m points.select_convs\<close>)
  moreover have "unat ?e \<le> unat (max_error sc)" "unat ?e \<le> unat ?gap div 2"
    by (auto simp: word_less_nat_alt word_le_nat_alt unat_div)
  ultimately show ?thesis unfolding step_near_def Let_def by (simp only:) (rule conjI; rule order_trans; assumption)
qed

lemma check_points_near:
  assumes "check_points sc (sadd ad) n i (step_clock 0 iv ad i) (step_interval iv ad i)" "k < n"
  shows "step_near sc iv ad (i + k) \<and> step_interval iv ad (i + k) < 0x80000000"
  using assms
proof (induction n arbitrary: i k)
  case (Suc n)
  then have p: "check_points sc (sadd ad) n (Suc i) (step_clock 0 iv ad (Suc i)) (step_interval iv ad (Suc i))"
    "minp (minmax_point sc i) \<le> step_clock 0 iv ad (Suc i)" "step_clock 0 iv ad (Suc i) \<le> maxp (minmax_point sc i)"
    "step_interval iv ad i < 0x80000000"
    by (simp_all add: Let_def step_clock_Suc step_interval_Suc not_less not_le)
  show ?case
  proof (cases k)
    case 0
    then show ?thesis using minmax_near [OF p(2,3) refl] p(4) by simp
  next
    case (Suc j)
    then show ?thesis using Suc.IH [OF p(1), of j] Suc.prems(2) by simp
  qed
qed simp

lemma check_line_near:
  assumes "check_line sc mv = 0" "k < unat (mv_count mv)"
  shows "step_near sc (mv_interval mv) (mv_add mv) k" "step_interval (mv_interval mv) (mv_add mv) k < 0x80000000"
proof -
  have "step_clock 0 (mv_interval mv) (mv_add mv) 0 = 0" "step_interval (mv_interval mv) (mv_add mv) 0 = mv_interval mv"
    by (simp_all add: step_clock_def step_interval_def tri_def)
  then have "check_points sc (sadd (mv_add mv)) (unat (mv_count mv)) 0 (step_clock 0 (mv_interval mv) (mv_add mv) 0)
      (step_interval (mv_interval mv) (mv_add mv) 0)"
    using assms(1) by (simp add: check_line_def ERROR_RET_def sadd_def split: if_splits)
  from check_points_near [OF this assms(2)]
  show "step_near sc (mv_interval mv) (mv_add mv) k" "step_interval (mv_interval mv) (mv_add mv) k < 0x80000000" by simp_all
qed

section \<open>Flushing the queue\<close>

definition pending_steps :: "stepcompress \<Rightarrow> u32 list" where
  "pending_steps sc = take (queue_next sc - queue_pos sc) (drop (queue_pos sc) (queue_mem sc))"

lemma queue_at_pending: "k < queue_next sc - queue_pos sc \<Longrightarrow> queue_next sc \<le> length (queue_mem sc) \<Longrightarrow>
    queue_at sc k = pending_steps sc ! k"
  by (simp add: queue_at_def pending_steps_def)

text \<open>The clocks at which the firmware steps for a list of moves, and the clock of the last step.\<close>

definition move_end :: "u32 \<Rightarrow> step_move \<Rightarrow> u32" where
  "move_end w m = step_clock w (mv_interval m) (mv_add m) (unat (mv_count m))"

definition move_times :: "u32 \<Rightarrow> step_move \<Rightarrow> u32 list" where
  "move_times w m = map (\<lambda>k. step_clock w (mv_interval m) (mv_add m) (Suc k)) [0..<unat (mv_count m)]"

fun moves_times :: "u32 \<Rightarrow> step_move list \<Rightarrow> u32 list" where
  "moves_times w [] = []"
| "moves_times w (m # ms) = move_times w m @ moves_times (move_end w m) ms"

definition near :: "u32 \<Rightarrow> u32 \<Rightarrow> u32 \<Rightarrow> bool" where
  "near err r t \<longleftrightarrow> unat (r - t) \<le> unat err"

text \<open>The \<open>queue_step\<close> message of a move.\<close>

definition step_msg :: "stepcompress \<Rightarrow> step_move \<Rightarrow> queue_message \<Rightarrow> bool" where
  "step_msg sc m qm \<longleftrightarrow>
     (\<exists>q. message_alloc_and_encode [queue_step_msgtag sc, sc_oid sc, mv_interval m, ucast (mv_count m), scast (mv_add m)] = Some q \<and>
        qm_len qm = qm_len q \<and> qm_msg qm = qm_msg q)"

lemma message_encode_ok: "\<exists>qm. message_alloc_and_encode vs = Some qm"
  using encode_loop_ok [of 0 "qm_msg message_alloc" vs]
  by (auto simp: message_alloc_and_encode_def message_alloc_def)

text \<open>What one command changes.\<close>

lemma add_move_ok:
  assumes "1 \<le> unat (mv_count m)" "f = last_step_clock sc + ucast (mv_interval m)"
  shows "\<exists>sc' qm. add_move f m sc = Ret () sc' \<and> step_msg sc m qm \<and> msg_queue sc' = msg_queue sc @ [qm] \<and>
    ucast (last_step_clock sc') = move_end (ucast (last_step_clock sc)) m \<and>
    last_position sc' = last_position sc + (if sdir sc \<noteq> 0 then int (unat (mv_count m)) else - int (unat (mv_count m))) \<and>
    sc'\<lparr>msg_queue := msg_queue sc, last_step_clock := last_step_clock sc, last_position := last_position sc,
       history_list := history_list sc\<rparr> = sc"
proof -
  let ?n = "unat (mv_count m)"
  let ?t = "scast (mv_add m) * of_nat (?n * (?n - 1) div 2) + mv_interval m * of_nat (?n - 1) :: u32"
  obtain q where q: "message_alloc_and_encode [queue_step_msgtag sc, sc_oid sc, mv_interval m, ucast (mv_count m),
      scast (mv_add m)] = Some q" using message_encode_ok by blast
  obtain j where j: "?n = Suc j" using assms(1) by (cases ?n) simp_all
  have "tri (Suc j) = Suc j * j div 2" by (simp only: tri_def diff_Suc_1)
  moreover have "ucast (f + ucast ?t) = (ucast (last_step_clock sc) :: u32) + mv_interval m + ?t"
    unfolding assms(2) by (simp add: ucast_u32_add ucast_u32_up)
  ultimately have "ucast (f + ucast ?t) = move_end (ucast (last_step_clock sc)) m"
    unfolding move_end_def step_clock_def sadd_def j by (simp only: diff_Suc_1 of_nat_Suc) (simp only: algebra_simps mult_1_left mult_1_right)
  then show ?thesis
    using q by (auto simp: add_move_def step_msg_def queue_msg_def Let_def)
qed

text \<open>
  \<open>flushed sc sc' ms qms\<close>: the first steps of the queue left it as the moves \<open>ms\<close>, in the messages
  \<open>qms\<close>, within the error; the clock and the position of the last step are those the firmware reaches.
\<close>

definition same_setup :: "stepcompress \<Rightarrow> stepcompress \<Rightarrow> bool" where
  "same_setup sc sc' \<longleftrightarrow> max_error sc' = max_error sc \<and> queue_step_msgtag sc' = queue_step_msgtag sc \<and>
     set_next_step_dir_msgtag sc' = set_next_step_dir_msgtag sc \<and> sc_oid sc' = sc_oid sc \<and> sdir sc' = sdir sc \<and>
     invert_sdir sc' = invert_sdir sc \<and> next_step_clock sc' = next_step_clock sc \<and> next_step_dir sc' = next_step_dir sc \<and>
     queue_mem sc' = queue_mem sc"

definition flushed :: "stepcompress \<Rightarrow> stepcompress \<Rightarrow> step_move list \<Rightarrow> queue_message list \<Rightarrow> bool" where
  "flushed sc sc' ms qms \<longleftrightarrow>
     (let w = ucast (last_step_clock sc); ts = moves_times w ms; n = length ts
      in list_all2 (near (max_error sc)) (take n (pending_steps sc)) ts \<and> pending_steps sc' = drop n (pending_steps sc) \<and>
         list_all2 (step_msg sc) ms qms \<and> msg_queue sc' = msg_queue sc @ qms \<and>
         ucast (last_step_clock sc') = foldl move_end w ms \<and>
         last_position sc' = last_position sc + (if sdir sc \<noteq> 0 then int n else - int n) \<and> same_setup sc sc')"

lemma flushed_none: "flushed sc sc [] []"
  by (simp add: flushed_def same_setup_def)

lemma flushed_Cons:
  assumes 1: "flushed sc sc1 [m] [qm]" and 2: "flushed sc1 sc' ms qms"
  shows "flushed sc sc' (m # ms) (qm # qms)"
proof -
  let ?w = "ucast (last_step_clock sc) :: u32" and ?w1 = "ucast (last_step_clock sc1) :: u32"
  let ?t1 = "move_times ?w m" and ?t2 = "moves_times ?w1 ms"
  have s: "max_error sc1 = max_error sc" "sdir sc1 = sdir sc" "step_msg sc1 = step_msg sc" "same_setup sc sc'"
    using 1 2 by (auto simp: flushed_def same_setup_def Let_def step_msg_def fun_eq_iff)
  have w1: "?w1 = move_end ?w m" using 1 by (simp add: flushed_def Let_def)
  have a: "list_all2 (near (max_error sc)) (take (length ?t1) (pending_steps sc)) ?t1"
    "pending_steps sc1 = drop (length ?t1) (pending_steps sc)" using 1 by (simp_all add: flushed_def Let_def)
  have b: "list_all2 (near (max_error sc)) (take (length ?t2) (pending_steps sc1)) ?t2"
    "pending_steps sc' = drop (length ?t2) (pending_steps sc1)" using 2 s by (simp_all add: flushed_def Let_def)
  have "list_all2 (near (max_error sc)) (take (length ?t1 + length ?t2) (pending_steps sc)) (?t1 @ ?t2)"
    using list_all2_appendI [OF a(1) b(1)] by (simp add: a(2) take_add)
  moreover have "last_position sc' = last_position sc + (if sdir sc \<noteq> 0 then int (length ?t1 + length ?t2) else - int (length ?t1 + length ?t2))"
    using 1 2 s by (simp add: flushed_def Let_def)
  ultimately show ?thesis
    using 1 2 a b s w1 by (simp add: flushed_def Let_def add.commute)
qed

lemma length_pending: "queue_next sc \<le> length (queue_mem sc) \<Longrightarrow> length (pending_steps sc) = queue_next sc - queue_pos sc"
  by (simp add: pending_steps_def)

lemma checked_near:
  assumes "check_line sc m = 0" "unat (mv_count m) \<le> queue_next sc - queue_pos sc" "queue_next sc \<le> length (queue_mem sc)"
  shows "list_all2 (near (max_error sc)) (take (unat (mv_count m)) (pending_steps sc)) (move_times (ucast (last_step_clock sc)) m)"
proof -
  have "near (max_error sc) (pending_steps sc ! k) (step_clock (ucast (last_step_clock sc)) (mv_interval m) (mv_add m) (Suc k))"
    if "k < unat (mv_count m)" for k
    using check_line_near(1) [OF assms(1) that] queue_at_pending [of k sc] that assms(2,3)
    by (simp add: step_near_def near_def Let_def)
  then show ?thesis
    using assms(2,3) by (simp add: list_all2_conv_all_nth move_times_def length_pending)
qed

text \<open>One round: the move found is taken over, and the steps leave the queue.\<close>

lemma flush_one:
  assumes "check_line sc m = 0" "move_fits (queue_next sc - queue_pos sc) m" "queue_next sc \<le> length (queue_mem sc)"
  shows "\<exists>sc1 qm. add_move (last_step_clock sc + ucast (mv_interval m)) m sc = Ret () sc1 \<and>
    queue_pos sc1 = queue_pos sc \<and> queue_next sc1 = queue_next sc \<and> queue_mem sc1 = queue_mem sc \<and>
    (queue_pos sc + unat (mv_count m) < queue_next sc \<longrightarrow>
       flushed sc (sc1\<lparr>queue_pos := queue_pos sc + unat (mv_count m)\<rparr>) [m] [qm]) \<and>
    (queue_pos sc + unat (mv_count m) \<ge> queue_next sc \<longrightarrow>
       flushed sc (sc1\<lparr>queue_pos := 0, queue_next := 0\<rparr>) [m] [qm])"
proof -
  let ?n = "unat (mv_count m)"
  have n: "1 \<le> ?n" "?n \<le> queue_next sc - queue_pos sc" using assms(2) by (simp_all add: move_fits_def)
  obtain sc1 qm where 1: "add_move (last_step_clock sc + ucast (mv_interval m)) m sc = Ret () sc1" "step_msg sc m qm"
    "msg_queue sc1 = msg_queue sc @ [qm]" "ucast (last_step_clock sc1) = move_end (ucast (last_step_clock sc)) m"
    "last_position sc1 = last_position sc + (if sdir sc \<noteq> 0 then int ?n else - int ?n)"
    "sc1\<lparr>msg_queue := msg_queue sc, last_step_clock := last_step_clock sc, last_position := last_position sc,
       history_list := history_list sc\<rparr> = sc" using add_move_ok [OF n(1) refl] by blast
  have f: "queue_pos sc1 = queue_pos sc" "queue_next sc1 = queue_next sc" "queue_mem sc1 = queue_mem sc" "same_setup sc sc1"
    using 1(6) [THEN arg_cong, of queue_pos] 1(6) [THEN arg_cong, of queue_next] 1(6) [THEN arg_cong, of queue_mem]
      1(6) [THEN arg_cong, of max_error] 1(6) [THEN arg_cong, of queue_step_msgtag]
      1(6) [THEN arg_cong, of set_next_step_dir_msgtag] 1(6) [THEN arg_cong, of sc_oid] 1(6) [THEN arg_cong, of sdir]
      1(6) [THEN arg_cong, of invert_sdir] 1(6) [THEN arg_cong, of next_step_clock] 1(6) [THEN arg_cong, of next_step_dir]
    by (simp_all add: same_setup_def)
  have t: "length (move_times (ucast (last_step_clock sc)) m) = ?n" by (simp add: move_times_def)
  have fl: "flushed sc sc2 [m] [qm]"
    if "pending_steps sc2 = drop ?n (pending_steps sc)" "same_setup sc1 sc2" "msg_queue sc2 = msg_queue sc1"
      "last_step_clock sc2 = last_step_clock sc1" "last_position sc2 = last_position sc1" for sc2
    using that 1(2-5) f(4) checked_near [OF assms(1) n(2) assms(3)] t
    by (simp add: flushed_def same_setup_def Let_def)
  have "pending_steps (sc1\<lparr>queue_pos := queue_pos sc + ?n\<rparr>) = drop ?n (pending_steps sc)"
    by (simp add: pending_steps_def f drop_take add.commute)
  moreover have "pending_steps (sc1\<lparr>queue_pos := 0, queue_next := 0\<rparr>) = drop ?n (pending_steps sc)"
    if "queue_pos sc + ?n \<ge> queue_next sc" using that by (simp add: pending_steps_def)
  ultimately show ?thesis
    by (intro exI [of _ sc1] exI [of _ qm] conjI impI fl 1(1) f(1-3)) (simp_all add: same_setup_def)
qed

lemma flush_loop_ok:
  assumes "queue_pos sc < queue_next sc" "queue_next sc \<le> length (queue_mem sc)" "queue_next sc - queue_pos sc \<le> fuel"
  shows "\<exists>r sc' ms qms. flush_loop fuel mc sc = Ret r sc' \<and> flushed sc sc' ms qms \<and> queue_next sc' \<le> length (queue_mem sc') \<and>
    (r = 0 \<and> (pending_steps sc' = [] \<or> mc \<le> last_step_clock sc') \<or> r = ERROR_RET)"
  using assms
proof (induction fuel arbitrary: sc)
  case (Suc fuel)
  show ?case
  proof (cases "last_step_clock sc < mc")
    case False
    then show ?thesis using flushed_none Suc.prems by (subst flush_loop.simps) fastforce
  next
    case True
    obtain m where m: "compress_bisect_add sc = Some m" "move_fits (queue_next sc - queue_pos sc) m"
      using compress_bisect_add_ok [OF Suc.prems(1)] by blast
    show ?thesis
    proof (cases "check_line sc m = 0")
      case False
      then show ?thesis using True m flushed_none Suc.prems by (subst flush_loop.simps) fastforce
    next
      case ok: True
      from flush_one [OF ok m(2) Suc.prems(2)] obtain sc1 qm where
        1: "add_move (last_step_clock sc + ucast (mv_interval m)) m sc = Ret () sc1" "queue_pos sc1 = queue_pos sc"
          "queue_next sc1 = queue_next sc" "queue_mem sc1 = queue_mem sc" and
        more: "queue_pos sc + unat (mv_count m) < queue_next sc \<longrightarrow>
          flushed sc (sc1\<lparr>queue_pos := queue_pos sc + unat (mv_count m)\<rparr>) [m] [qm]" and
        all: "queue_pos sc + unat (mv_count m) \<ge> queue_next sc \<longrightarrow> flushed sc (sc1\<lparr>queue_pos := 0, queue_next := 0\<rparr>) [m] [qm]"
        by blast
      note u = flush_loop.simps [of "Suc fuel" mc sc]
      show ?thesis
      proof (cases "queue_pos sc + unat (mv_count m) \<ge> queue_next sc")
        case last: True
        then have r: "flush_loop (Suc fuel) mc sc = Ret 0 (sc1\<lparr>queue_pos := 0, queue_next := 0\<rparr>)"
          using True m ok 1 by (simp add: u andthen_def)
        show ?thesis unfolding r using last all by (auto simp: pending_steps_def)
      next
        case False
        let ?sc2 = "sc1\<lparr>queue_pos := queue_pos sc + unat (mv_count m)\<rparr>"
        have r: "flush_loop (Suc fuel) mc sc = flush_loop fuel mc ?sc2" using False True m ok 1 by (simp add: u andthen_def)
        have "queue_pos ?sc2 < queue_next ?sc2" "queue_next ?sc2 \<le> length (queue_mem ?sc2)"
          "queue_next ?sc2 - queue_pos ?sc2 \<le> fuel" using False 1 Suc.prems m(2) by (auto simp: move_fits_def)
        from Suc.IH [OF this] obtain r2 sc' ms qms where
          2: "flush_loop fuel mc ?sc2 = Ret r2 sc'" "flushed ?sc2 sc' ms qms" "queue_next sc' \<le> length (queue_mem sc')"
            "r2 = 0 \<and> (pending_steps sc' = [] \<or> mc \<le> last_step_clock sc') \<or> r2 = ERROR_RET" by blast
        have "flushed sc ?sc2 [m] [qm]" using more False by simp
        from flushed_Cons [OF this 2(2)] show ?thesis using 2 unfolding r by blast
      qed
    qed
  qed
qed simp

lemma calc_time_simps [simp]:
  "flushed sc (calc_last_step_print_time sc') ms qms = flushed sc sc' ms qms"
  "pending_steps (calc_last_step_print_time sc) = pending_steps sc"
  "queue_next (calc_last_step_print_time sc) = queue_next sc" "queue_mem (calc_last_step_print_time sc) = queue_mem sc"
  "last_step_clock (calc_last_step_print_time sc) = last_step_clock sc"
  by (simp_all add: calc_last_step_print_time_def flushed_def same_setup_def pending_steps_def Let_def)

lemma queue_flush_ok:
  assumes "queue_next sc \<le> length (queue_mem sc)"
  shows "\<exists>r sc' ms qms. queue_flush mc sc = Ret r sc' \<and> flushed sc sc' ms qms \<and> queue_next sc' \<le> length (queue_mem sc') \<and>
    (r = 0 \<and> (pending_steps sc' = [] \<or> mc \<le> last_step_clock sc') \<or> r = ERROR_RET)"
proof (cases "queue_pos sc < queue_next sc")
  case True
  from flush_loop_ok [OF this assms order_refl, of mc] obtain r sc' ms qms where
    r: "flush_loop (queue_next sc - queue_pos sc) mc sc = Ret r sc'" "flushed sc sc' ms qms" "queue_next sc' \<le> length (queue_mem sc')"
      "r = 0 \<and> (pending_steps sc' = [] \<or> mc \<le> last_step_clock sc') \<or> r = ERROR_RET" by blast
  show ?thesis
    by (rule exI [of _ r], rule exI [of _ "if r = 0 then calc_last_step_print_time sc' else sc'"], rule exI [of _ ms], rule exI [of _ qms])
      (use r True in \<open>auto simp: queue_flush_def ERROR_RET_def\<close>)
next
  case False
  then show ?thesis using flushed_none [of sc] assms by (auto simp: queue_flush_def pending_steps_def)
qed

section \<open>The heap of move slots\<close>

text \<open>\<open>move_clocks\<close> is a binary heap with the least clock at its root.\<close>

definition parent :: "nat \<Rightarrow> nat" where "parent q = (q - 1) div 2"

definition is_heap :: "u64 list \<Rightarrow> bool" where
  "is_heap mc \<longleftrightarrow> (\<forall>q < length mc. 0 < q \<longrightarrow> mc ! parent q \<le> mc ! q)"

text \<open>The clock may go into \<open>pos\<close> when the parent of \<open>pos\<close> is not later.\<close>

definition parent_le :: "u64 list \<Rightarrow> u64 \<Rightarrow> nat \<Rightarrow> bool" where
  "parent_le mc clock pos \<longleftrightarrow> (0 < pos \<longrightarrow> mc ! parent pos \<le> clock)"

lemma parent_simps: "parent (2 * pos + 1) = pos" "parent (2 * pos + 2) = pos" "0 < q \<Longrightarrow> parent q < q"
  by (simp_all add: parent_def)

lemma child_cases: "0 < q \<Longrightarrow> parent q = pos \<Longrightarrow> q = 2 * pos + 1 \<or> q = 2 * pos + 2"
  unfolding parent_def by presburger

lemma heap_put:
  assumes "is_heap mc" "pos < length mc" "parent_le mc v pos"
    "v \<le> child_clock mc (2 * pos + 1)" "v \<le> child_clock mc (2 * pos + 2)"
  shows "is_heap (mc[pos := v])"
  unfolding is_heap_def
proof (intro allI impI)
  fix q assume q: "q < length (mc[pos := v])" "0 < q"
  show "mc[pos := v] ! parent q \<le> mc[pos := v] ! q"
  proof (cases "q = pos")
    case True
    then show ?thesis using assms(2,3) q(2) parent_simps(3) [OF q(2)] by (simp add: parent_le_def)
  next
    case False
    show ?thesis
    proof (cases "parent q = pos")
      case True
      have "v \<le> child_clock mc q"
        using child_cases [OF q(2) True] by (elim disjE) (simp_all only: assms(4,5))
      then show ?thesis using True False q(1) assms(2) by (simp add: child_clock_def)
    next
      case 2: False
      then show ?thesis using False q assms(1) by (simp add: is_heap_def)
    qed
  qed
qed

lemma heap_child_move:
  assumes "is_heap mc" "parent_le mc clock pos" "pos < length mc" "parent q = pos" "pos < q" "q < length mc"
    "mc ! q < clock" "mc ! q \<le> child_clock mc (2 * pos + 1)" "mc ! q \<le> child_clock mc (2 * pos + 2)"
  shows "is_heap (mc[pos := mc ! q])" "parent_le (mc[pos := mc ! q]) clock q"
    "mset ((mc[pos := mc ! q])[q := clock]) = mset (mc[pos := clock])"
proof -
  have le: "mc ! pos \<le> mc ! q" using assms(1,4,5,6) by (auto simp: is_heap_def)
  have "parent_le mc (mc ! q) pos"
    unfolding parent_le_def
  proof
    assume "0 < pos"
    then have "mc ! parent pos \<le> mc ! pos" using assms(1,3) by (simp add: is_heap_def)
    also note le
    finally show "mc ! parent pos \<le> mc ! q" .
  qed
  then show "is_heap (mc[pos := mc ! q])" by (rule heap_put [OF assms(1,3) _ assms(8,9)])
  show "parent_le (mc[pos := mc ! q]) clock q" using assms by (simp add: parent_le_def)
  show "mset ((mc[pos := mc ! q])[q := clock]) = mset (mc[pos := clock])"
    using assms(3,5,6) by (simp add: mset_update)
qed

lemma heap_replace_from_ok:
  assumes "is_heap mc" "parent_le mc clock pos" "pos < length mc"
  shows "is_heap (heap_replace_from mc clock pos) \<and> mset (heap_replace_from mc clock pos) = mset (mc[pos := clock])"
  using assms
proof (induction mc clock pos rule: heap_replace_from.induct)
  case (1 mc clock pos)
  let ?c1 = "child_clock mc (2 * pos + 1)" and ?c2 = "child_clock mc (2 * pos + 2)"
  note u = heap_replace_from.simps [of mc clock pos, unfolded Let_def]
  consider "clock \<le> ?c1 \<and> clock \<le> ?c2" | "\<not> (clock \<le> ?c1 \<and> clock \<le> ?c2)" "?c1 < ?c2"
    | "\<not> (clock \<le> ?c1 \<and> clock \<le> ?c2)" "\<not> ?c1 < ?c2" by blast
  then show ?case
  proof cases
    case a: 1
    then have "heap_replace_from mc clock pos = mc[pos := clock]" by (simp add: u)
    then show ?thesis using heap_put [OF 1(3,5,4)] a by simp
  next
    case a: 2
    have q: "2 * pos + 1 < length mc" by (rule child_in_range(1) [OF a])
    then have c: "?c1 = mc ! (2 * pos + 1)" by (simp add: child_clock_def)
    have r: "heap_replace_from mc clock pos = heap_replace_from (mc[pos := ?c1]) clock (2 * pos + 1)"
      unfolding u if_not_P [OF a(1)] if_P [OF a(2)] by (rule refl)
    have v: "mc ! (2 * pos + 1) < clock" "mc ! (2 * pos + 1) \<le> ?c1" "mc ! (2 * pos + 1) \<le> ?c2" using a unfolding c by auto
    have "pos < 2 * pos + 1" by simp
    note h = heap_child_move [OF 1(3-5) parent_simps(1) this q v, folded c]
    show ?thesis using 1(1) [OF refl refl refl refl a(1,2) h(1,2)] h(3) q unfolding r by simp
  next
    case a: 3
    have q: "2 * pos + 2 < length mc" by (rule child_in_range(2) [OF a])
    then have c: "?c2 = mc ! (2 * pos + 2)" by (simp add: child_clock_def)
    have r: "heap_replace_from mc clock pos = heap_replace_from (mc[pos := ?c2]) clock (2 * pos + 2)"
      unfolding u if_not_P [OF a(1)] if_not_P [OF a(2)] by (rule refl)
    have v: "mc ! (2 * pos + 2) < clock" "mc ! (2 * pos + 2) \<le> ?c1" "mc ! (2 * pos + 2) \<le> ?c2" using a unfolding c by auto
    have "pos < 2 * pos + 2" by simp
    note h = heap_child_move [OF 1(3-5) parent_simps(2) this q v, folded c]
    show ?thesis using 1(2) [OF refl refl refl refl a(1,2) h(1,2)] h(3) q unfolding r by simp
  qed
qed

lemma heap_root_least:
  assumes "is_heap mc" "i < length mc"
  shows "mc ! 0 \<le> mc ! i"
  using assms(2)
proof (induction i rule: less_induct)
  case (less i)
  show ?case
  proof (cases "i = 0")
    case False
    then have "parent i < i" "mc ! parent i \<le> mc ! i" using assms(1) less.prems parent_simps(3) by (auto simp: is_heap_def)
    moreover have "mc ! 0 \<le> mc ! parent i" by (rule less.IH) (use calculation less.prems in simp_all)
    ultimately show ?thesis by simp
  qed simp
qed

lemma heap_root_Min: "is_heap mc \<Longrightarrow> mc \<noteq> [] \<Longrightarrow> mc ! 0 = Min_mset (mset mc)"
  by (rule Min_eqI [symmetric]) (auto simp: in_set_conv_nth heap_root_least)

lemma heap_replace_ok:
  assumes "is_heap (move_clocks ss)" "move_clocks ss \<noteq> []"
  shows "is_heap (move_clocks (heap_replace clock ss))"
    "mset (move_clocks (heap_replace clock ss)) = add_mset clock (mset (move_clocks ss) - {#Min_mset (mset (move_clocks ss))#})"
    "sc_list (heap_replace clock ss) = sc_list ss" "sync_sent (heap_replace clock ss) = sync_sent ss"
proof -
  have "parent_le (move_clocks ss) clock 0" by (simp add: parent_le_def)
  note h = heap_replace_from_ok [OF assms(1) this]
  show "is_heap (move_clocks (heap_replace clock ss))" "sc_list (heap_replace clock ss) = sc_list ss"
    "sync_sent (heap_replace clock ss) = sync_sent ss" using h assms(2) by (simp_all add: heap_replace_def)
  show "mset (move_clocks (heap_replace clock ss)) = add_mset clock (mset (move_clocks ss) - {#Min_mset (mset (move_clocks ss))#})"
    using h assms(2) heap_root_Min [OF assms] by (simp add: heap_replace_def mset_update)
qed

section \<open>Merging the messages of the steppers\<close>

definition heads_from :: "u64 \<Rightarrow> stepcompress list \<Rightarrow> bool" where
  "heads_from clock scs \<longleftrightarrow> (\<forall>sc \<in> set scs. \<forall>q r. msg_queue sc = q # r \<longrightarrow> clock \<le> req_clock q)"

lemma heads_from_simps:
  "heads_from clock []"
  "heads_from clock (sc # scs) \<longleftrightarrow> (\<forall>q r. msg_queue sc = q # r \<longrightarrow> clock \<le> req_clock q) \<and> heads_from clock scs"
  by (simp_all add: heads_from_def)

lemma heads_from_le: "heads_from c scs \<Longrightarrow> d \<le> c \<Longrightarrow> heads_from d scs"
  by (auto simp: heads_from_def intro: order_trans)

lemma find_lowest_None: "find_lowest i clock found scs = None \<Longrightarrow> found = None \<and> heads_from clock scs"
  by (induction i clock found scs rule: find_lowest.induct)
    (auto simp: heads_from_simps split: list.splits if_splits)

lemma find_lowest_Some:
  "find_lowest i clock found scs = Some k \<Longrightarrow>
    found = Some k \<and> heads_from clock scs \<or>
    (\<exists>l qm rest. k = i + l \<and> l < length scs \<and> msg_queue (scs ! l) = qm # rest \<and> req_clock qm < clock \<and>
       heads_from (req_clock qm) scs)"
proof (induction i clock found scs rule: find_lowest.induct)
  case (1 i clock found)
  then show ?case by (simp add: heads_from_simps)
next
  case (2 i clock found sc scs)
  show ?case
  proof (cases "msg_queue sc")
    case Nil
    then have "found = Some k \<and> heads_from clock scs \<or>
      (\<exists>l qm rest. k = Suc i + l \<and> l < length scs \<and> msg_queue (scs ! l) = qm # rest \<and> req_clock qm < clock \<and>
         heads_from (req_clock qm) scs)" using 2 by simp
    then show ?thesis
    proof (elim disjE exE conjE)
      fix l qm rest assume "k = Suc i + l" "l < length scs" "msg_queue (scs ! l) = qm # rest" "req_clock qm < clock"
        "heads_from (req_clock qm) scs"
      then show ?thesis using Nil by (intro disjI2 exI [of _ "Suc l"] exI [of _ qm] exI [of _ rest]) (simp add: heads_from_simps)
    qed (simp add: Nil heads_from_simps)
  next
    case (Cons m r)
    show ?thesis
    proof (cases "req_clock m < clock")
      case True
      then have "Some i = Some k \<and> heads_from (req_clock m) scs \<or>
        (\<exists>l qm rest. k = Suc i + l \<and> l < length scs \<and> msg_queue (scs ! l) = qm # rest \<and> req_clock qm < req_clock m \<and>
           heads_from (req_clock qm) scs)" using 2 Cons by simp
      then show ?thesis
      proof (elim disjE exE conjE)
        fix l qm rest assume "k = Suc i + l" "l < length scs" "msg_queue (scs ! l) = qm # rest" "req_clock qm < req_clock m"
          "heads_from (req_clock qm) scs"
        then show ?thesis using Cons True
          by (intro disjI2 exI [of _ "Suc l"] exI [of _ qm] exI [of _ rest]) (auto simp: heads_from_simps intro: less_imp_le)
      next
        assume "Some i = Some k" "heads_from (req_clock m) scs"
        then show ?thesis using Cons True
          by (intro disjI2 exI [of _ 0] exI [of _ m] exI [of _ r]) (simp add: heads_from_simps)
      qed
    next
      case False
      then have "found = Some k \<and> heads_from clock scs \<or>
        (\<exists>l qm rest. k = Suc i + l \<and> l < length scs \<and> msg_queue (scs ! l) = qm # rest \<and> req_clock qm < clock \<and>
           heads_from (req_clock qm) scs)" using 2 Cons by simp
      then show ?thesis
      proof (elim disjE exE conjE)
        fix l qm rest assume "k = Suc i + l" "l < length scs" "msg_queue (scs ! l) = qm # rest" "req_clock qm < clock"
          "heads_from (req_clock qm) scs"
        then show ?thesis using Cons False
          by (intro disjI2 exI [of _ "Suc l"] exI [of _ qm] exI [of _ rest]) (auto simp: heads_from_simps)
      qed (use False Cons in \<open>simp add: heads_from_simps not_less\<close>)
    qed
  qed
qed

lemma find_lowest_least:
  assumes "find_lowest 0 clock None scs = Some k"
  obtains qm rest where "k < length scs" "msg_queue (scs ! k) = qm # rest" "heads_from (req_clock qm) scs"
  using find_lowest_Some [OF assms] by auto

definition sorted_queues :: "stepcompress list \<Rightarrow> bool" where
  "sorted_queues scs \<longleftrightarrow> (\<forall>sc \<in> set scs. sorted (map req_clock (msg_queue sc)))"

text \<open>
  The slot clocks that the messages of a batch get: always the least one, which is then replaced
  by the clock at which the move of the message starts.
\<close>

fun slot_clocks :: "u64 multiset \<Rightarrow> queue_message list \<Rightarrow> u64 list" where
  "slot_clocks M [] = []"
| "slot_clocks M (qm # qms) =
     Min_mset M # slot_clocks (if min_clock qm \<noteq> 0 then add_mset (min_clock qm) (M - {#Min_mset M#}) else M) qms"

definition batch_of :: "u64 multiset \<Rightarrow> queue_message list \<Rightarrow> queue_message list" where
  "batch_of M qms = map2 (\<lambda>qm c. qm\<lparr>min_clock := c\<rparr>) qms (slot_clocks M qms)"

text \<open>A batch with the index of the stepper of each message, as an interleaving of the queues.\<close>

definition interleaves :: "(nat \<times> queue_message) list \<Rightarrow> stepcompress list \<Rightarrow> stepcompress list \<Rightarrow> bool" where
  "interleaves os scs scs' \<longleftrightarrow> length scs' = length scs \<and>
     (\<forall>i < length scs. msg_queue (scs ! i) = map snd (filter (\<lambda>(j, _). j = i) os) @ msg_queue (scs' ! i)) \<and>
     (\<forall>(j, _) \<in> set os. j < length scs)"

lemma sorted_heads:
  assumes "sorted_queues scs" "heads_from c scs" "sc \<in> set scs" "q \<in> set (msg_queue sc)"
  shows "c \<le> req_clock q"
proof (cases "msg_queue sc")
  case (Cons m r)
  then have "c \<le> req_clock m" "req_clock m \<le> req_clock q" using assms by (auto simp: heads_from_def sorted_queues_def)
  then show ?thesis by simp
qed (use assms(4) in simp)

text \<open>Taking the first message out of a queue.\<close>

definition take_msg :: "nat \<Rightarrow> stepcompress list \<Rightarrow> stepcompress list" where
  "take_msg i scs = scs[i := (scs ! i)\<lparr>msg_queue := tl (msg_queue (scs ! i))\<rparr>]"

lemma take_msg_sorted:
  assumes "sorted_queues scs" "i < length scs"
  shows "sorted_queues (take_msg i scs)"
proof -
  have "sorted (map req_clock (msg_queue (scs ! i)))" using assms by (simp add: sorted_queues_def)
  then have "sorted (map req_clock (tl (msg_queue (scs ! i))))" by (metis map_tl sorted_tl)
  then show ?thesis using assms(1) by (auto simp: sorted_queues_def take_msg_def dest!: set_update_subset_insert [THEN subsetD])
qed

lemma take_msg_interleaves:
  assumes "interleaves os (take_msg i scs) scs'" "i < length scs" "msg_queue (scs ! i) = qm # rest"
  shows "interleaves ((i, qm) # os) scs scs'"
proof -
  have e: "msg_queue (scs ! j) = (if j = i then [qm] else []) @ msg_queue (take_msg i scs ! j)" if "j < length scs" for j
    using assms(2,3) that by (simp add: take_msg_def nth_list_update)
  have l: "length (take_msg i scs) = length scs" by (simp add: take_msg_def)
  have "msg_queue (scs ! j) = map snd (filter (\<lambda>(k, _). k = j) ((i, qm) # os)) @ msg_queue (scs' ! j)"
    if j: "j < length scs" for j
    using assms(1) j unfolding e [OF j] by (simp add: interleaves_def l)
  then show ?thesis using assms(1,2) by (simp add: interleaves_def l)
qed

lemma interleaves_in:
  assumes "interleaves os scs scs'" "(j, q) \<in> set os"
  shows "\<exists>sc \<in> set scs. q \<in> set (msg_queue sc)"
proof -
  have j: "j < length scs" using assms by (auto simp: interleaves_def)
  have "q \<in> set (map snd (filter (\<lambda>(k, _). k = j) os))" using assms(2) by force
  then have "q \<in> set (msg_queue (scs ! j))" using assms(1) j by (simp add: interleaves_def)
  then show ?thesis using j by auto
qed

lemma queued_take_msg:
  assumes "i < length scs" "msg_queue (scs ! i) = qm # rest"
  shows "queued scs = Suc (queued (take_msg i scs))"
proof -
  have "length (msg_queue (scs ! i)) \<le> queued scs" 
    using assms(1) elem_le_sum_list [of i "map (\<lambda>sc. length (msg_queue sc)) scs"] by (simp add: queued_def)
  then show ?thesis using assms by (simp add: queued_def take_msg_def map_update sum_list_update)
qed

lemma size_replace_Min:
  assumes "(M :: u64 multiset) \<noteq> {#}"
  shows "size (add_mset c (M - {#Min_mset M#})) = size M"
proof -
  have "Min_mset M \<in># M" using assms by (intro Min_in) simp_all
  then have "add_mset (Min_mset M) (M - {#Min_mset M#}) = M" by (rule insert_DiffM)
  then show ?thesis by (metis size_add_mset)
qed

lemma merge_loop_ok:
  assumes "is_heap (move_clocks ss)" "move_clocks ss \<noteq> []" "sorted_queues (sc_list ss)" "queued (sc_list ss) < fuel"
    "move_clock < MAX_CLOCK"
  shows "\<exists>os ss'. merge_loop fuel move_clock msgs ss = (msgs @ batch_of (mset (move_clocks ss)) (map snd os), ss') \<and>
    interleaves os (sc_list ss) (sc_list ss') \<and> sorted (map (req_clock \<circ> snd) os) \<and>
    is_heap (move_clocks ss') \<and> length (move_clocks ss') = length (move_clocks ss) \<and> sync_sent ss' = sync_sent ss \<and>
    (\<forall>sc \<in> set (sc_list ss'). \<forall>q \<in> set (msg_queue sc). move_clock < req_clock q)"
  using assms(1-4)
proof (induction fuel arbitrary: msgs ss)
  case (Suc fuel)
  have stop: ?case if "merge_loop (Suc fuel) move_clock msgs ss = (msgs, ss)" "heads_from c (sc_list ss)" "move_clock < c" for c
  proof -
    have "\<forall>sc \<in> set (sc_list ss). \<forall>q \<in> set (msg_queue sc). move_clock < req_clock q"
      using sorted_heads [OF Suc.prems(3) that(2)] that(3) by (meson less_le_trans)
    then show ?thesis using that(1) Suc.prems
      by (intro exI [of _ "[]"] exI [of _ ss]) (simp add: batch_of_def interleaves_def)
  qed
  show ?case
  proof (cases "find_lowest 0 MAX_CLOCK None (sc_list ss)")
    case None
    then have "heads_from MAX_CLOCK (sc_list ss)" using find_lowest_None by blast
    then show ?thesis using stop assms(5) None by simp
  next
    case (Some i)
    from find_lowest_least [OF Some] obtain qm rest where
      q: "i < length (sc_list ss)" "msg_queue (sc_list ss ! i) = qm # rest" "heads_from (req_clock qm) (sc_list ss)" .
    show ?thesis
    proof (cases "min_clock qm \<noteq> 0 \<and> req_clock qm > move_clock")
      case True
      then show ?thesis using stop q Some by (simp add: Let_def)
    next
      case False
      let ?M = "mset (move_clocks ss)"
      let ?M1 = "if min_clock qm \<noteq> 0 then add_mset (min_clock qm) (?M - {#Min_mset ?M#}) else ?M"
      let ?ss0 = "if min_clock qm \<noteq> 0 then heap_replace (min_clock qm) ss else ss"
      define ss1 where "ss1 = ?ss0\<lparr>sc_list := take_msg i (sc_list ss)\<rparr>"
      note h = heap_replace_ok [OF Suc.prems(1,2), of "min_clock qm"]
      have s1: "sc_list ss1 = take_msg i (sc_list ss)" "sync_sent ss1 = sync_sent ss" using h(4) by (simp_all add: ss1_def)
      have r: "merge_loop (Suc fuel) move_clock msgs ss =
          merge_loop fuel move_clock (msgs @ [qm\<lparr>min_clock := move_clocks ss ! 0\<rparr>]) ss1"
        using False Some q(2) h(3) by (auto simp: ss1_def Let_def take_msg_def)
      have m: "mset (move_clocks ss1) = ?M1" "is_heap (move_clocks ss1)" using h(1,2) Suc.prems(1) by (simp_all add: ss1_def)
      have "size ?M1 = size ?M" using size_replace_Min [of ?M] Suc.prems(2) by simp
      then have len: "length (move_clocks ss1) = length (move_clocks ss)" by (simp only: size_mset [symmetric] m(1))
      then have ne: "move_clocks ss1 \<noteq> []" using Suc.prems(2) by auto
      have so: "sorted_queues (sc_list ss1)" using take_msg_sorted [OF Suc.prems(3) q(1)] by (simp add: ss1_def)
      have qu: "queued (sc_list ss1) < fuel" using queued_take_msg [OF q(1,2)] Suc.prems(4) by (simp add: ss1_def)
      from Suc.IH [OF m(2) ne so qu, of "msgs @ [qm\<lparr>min_clock := move_clocks ss ! 0\<rparr>]"] obtain os ss' where
        2: "merge_loop fuel move_clock (msgs @ [qm\<lparr>min_clock := move_clocks ss ! 0\<rparr>]) ss1 =
            ((msgs @ [qm\<lparr>min_clock := move_clocks ss ! 0\<rparr>]) @ batch_of (mset (move_clocks ss1)) (map snd os), ss')"
          "interleaves os (take_msg i (sc_list ss)) (sc_list ss')" "sorted (map (req_clock \<circ> snd) os)"
          "is_heap (move_clocks ss')" "length (move_clocks ss') = length (move_clocks ss1)" "sync_sent ss' = sync_sent ss"
          "\<forall>sc \<in> set (sc_list ss'). \<forall>q \<in> set (msg_queue sc). move_clock < req_clock q" unfolding s1 by blast
      have b: "batch_of ?M (map snd ((i, qm) # os)) = qm\<lparr>min_clock := move_clocks ss ! 0\<rparr> # batch_of ?M1 (map snd os)"
        using heap_root_Min [OF Suc.prems(1,2)] by (simp add: batch_of_def)
      have i: "interleaves ((i, qm) # os) (sc_list ss) (sc_list ss')" by (rule take_msg_interleaves [OF 2(2) q(1,2)])
      have "req_clock qm \<le> req_clock q" if "(j, q) \<in> set os" for j q
        using interleaves_in [OF i, of j q] that sorted_heads [OF Suc.prems(3) q(3)] by auto
      then have "sorted (map (req_clock \<circ> snd) ((i, qm) # os))" using 2(3) by auto
      then show ?thesis using 2 i r len unfolding m(1)
        by (intro exI [of _ "(i, qm) # os"] exI [of _ ss']) (simp only: b append_assoc append.simps simp_thms)
    qed
  qed
qed simp

end
