(* ===== verification/Steps_Correct.thy ===== *)
theory Steps_Correct
  imports Stepcompress_Props Motion_Correct Protocol_Correct
begin

text \<open>
  From the step times on the host to the pulses of the firmware: the search for commands ends,
  a flush turns the queue into commands within the allowed error, the commands of several steppers
  are merged in order, a command sent in a block reaches its handler, and the firmware that runs it
  steps near the requested times.
\<close>

section \<open>Commands\<close>




section \<open>Merging\<close>

text \<open>
  C28: When the steppers of a group are flushed, the batch for the micro-controller is an interleaving of
  beginnings of their queues, keeps the order of each queue and is ordered by required clock; every
  message due by \<open>move_clock\<close> is in it. Each message is held back until the least of the slot clocks, which
  is then replaced by the clock at which the message's move starts.
\<close>

theorem sync_merges_in_order:
  assumes "flush_all move_clock [] (sc_list ss) = Ret 0 scs" "is_heap (move_clocks ss)" "move_clocks ss \<noteq> []"
    "sorted_queues scs" "move_clock < MAX_CLOCK"
  shows "\<exists>os ss'. steppersync_flush move_clock clear ss = Ret 0 ss' \<and>
    sync_sent ss' = sync_sent ss @ (if os = [] then [] else [batch_of (mset (move_clocks ss)) (map snd os)]) \<and>
    interleaves os scs (sc_list ss') \<and> sorted (map (req_clock \<circ> snd) os) \<and>
    is_heap (move_clocks ss') \<and> length (move_clocks ss') = length (move_clocks ss) \<and>
    (\<forall>sc \<in> set (sc_list ss'). \<forall>q \<in> set (msg_queue sc). move_clock < req_clock q)"
proof -
  let ?ss = "ss\<lparr>sc_list := scs\<rparr>"
  have "is_heap (move_clocks ?ss)" "move_clocks ?ss \<noteq> []" "sorted_queues (sc_list ?ss)"
    "queued (sc_list ?ss) < Suc (queued scs)" using assms by simp_all
  from merge_loop_ok [OF this assms(5), of "[]"] obtain os ss1 where
    1: "merge_loop (Suc (queued scs)) move_clock [] ?ss = (batch_of (mset (move_clocks ss)) (map snd os), ss1)"
      "interleaves os scs (sc_list ss1)" "sorted (map (req_clock \<circ> snd) os)" "is_heap (move_clocks ss1)"
      "length (move_clocks ss1) = length (move_clocks ss)" "sync_sent ss1 = sync_sent ss"
      "\<forall>sc \<in> set (sc_list ss1). \<forall>q \<in> set (msg_queue sc). move_clock < req_clock q" by (auto simp del: merge_loop.simps)
  let ?b = "batch_of (mset (move_clocks ss)) (map snd os)"
  let ?ss2 = "if ?b \<noteq> [] then ss1\<lparr>sync_sent := sync_sent ss1 @ [?b]\<rparr> else ss1"
  have b: "?b = [] \<longleftrightarrow> os = []" by (cases os) (simp_all add: batch_of_def)
  have r: "steppersync_flush move_clock clear ss = Ret 0 (steppersync_history_expire clear ?ss2)"
    using assms(1) 1(1) by (simp add: steppersync_flush_def del: merge_loop.simps)
  define ss3 where "ss3 = steppersync_history_expire clear ?ss2"
  have 3: "sc_list ss3 = map (stepcompress_history_expire clear) (sc_list ss1)" "move_clocks ss3 = move_clocks ss1"
    "sync_sent ss3 = sync_sent ss @ (if os = [] then [] else [?b])"
    using b 1(6) by (simp_all add: ss3_def steppersync_history_expire_def)
  have e: "msg_queue (stepcompress_history_expire clear sc) = msg_queue sc" for sc
    by (simp add: stepcompress_history_expire_def free_history_def)
  have "interleaves os scs (sc_list ss3)" using 1(2) unfolding 3(1) interleaves_def by (simp add: e)
  moreover have "\<forall>sc \<in> set (sc_list ss3). \<forall>q \<in> set (msg_queue sc). move_clock < req_clock q"
    using 1(7) unfolding 3(1) by (simp add: e)
  ultimately show ?thesis
    using 1(3-5) r 3(2,3) unfolding ss3_def [symmetric] by (intro exI [of _ os] exI [of _ ss3]) (simp only: simp_thms)
qed

section \<open>From the host to the handler\<close>

text \<open>
  C5: A command with integer parameters that the host encodes and sends in a block is executed by the firmware
  as one call of its handler with exactly those arguments.
\<close>

theorem host_command_executed:
  assumes "message_alloc_and_encode (of_nat cmd # ws) = Some qm"
    "length (concat (map encode_int (of_nat cmd # ws))) \<le> MESSAGE_PAYLOAD_MAX"
    "0 < cmd" "cmd < 96" "cmd < length (de_index e)"
    "list_all is_int_pt (cp_param_types (de_index e ! cmd))" "length ws = length (cp_param_types (de_index e ! cmd))"
    "length ws \<le> cp_num_args (de_index e ! cmd)" "\<not> de_is_shutdown e s"
  shows "command_dispatch e (frame seq (take (qm_len qm) (qm_msg qm)) @ rest) (qm_len qm + 5) s =
    de_call e (cp_func (de_index e ! cmd)) ws s"
proof -
  let ?cp = "de_index e ! cmd" and ?id = "of_nat cmd :: u8"
  have u: "unat ?id = cmd" using assms(4) by (simp add: unsigned_of_nat take_bit_nat_eq_self)
  have "unat (of_nat cmd :: u32) = unat (ucast ?id :: u32)"
    using assms(4) unat_ucast_up [of ?id, where 'b = 32] u by (simp add: unsigned_of_nat take_bit_nat_eq_self)
  then have "(of_nat cmd :: u32) = ucast ?id" by (simp only: word_unat_eq_iff)
  then have id: "encode_int (of_nat cmd) = [?id]" using encode_int_byte [of ?id] u assms(4) by simp
  let ?body = "concat (map encode_int ws)"
  obtain q m where q: "encode_loop (of_nat cmd # ws) 0 (qm_msg message_alloc) = Some (q, m)" "qm_len qm = q" "qm_msg qm = m"
    using assms(1) by (auto simp: message_alloc_and_encode_def split: option.splits)
  have "length (qm_msg message_alloc) = MESSAGE_MAX" by (simp add: message_alloc_def)
  from encode_loop_bytes [OF q(1) _ this] have "q = Suc (length ?body) \<and> take q m = ?id # ?body"
    using assms(2) unfolding list.map concat.simps id by auto
  then have p: "q = Suc (length ?body)" "take q m = ?id # ?body" by blast+
  let ?hd = "[of_nat (length (?id # ?body) + 5), seq, ?id]"
  obtain tr where tr: "frame seq (?id # ?body) @ rest = ?hd @ ?body @ tr"
    by (simp add: frame_def frame_head_def Let_def)
  have ps: "command_parsef (de_ptr e) (?hd @ ?body @ tr) 3 (3 + length ?body) ?cp s = Ret (3 + length ?body, ws) s"
    using parsef_loop_ints [OF assms(6,7), of "[]" "cp_num_args ?cp" "3 + length ?body" ?hd "de_ptr e" tr s] assms(8)
    by (simp add: command_parsef_def assms(7) numeral_3_eq_3)
  define f where "f = q + 4"
  have "qm_len qm + 5 = Suc f" "qm_len qm + 5 - 3 = 3 + length ?body" using p(1) q(2) by (simp_all add: f_def)
  then have "command_dispatch e (?hd @ ?body @ tr) (qm_len qm + 5) s =
      dispatch_loop e (?hd @ ?body @ tr) (3 + length ?body) (Suc f) 2 s"
    by (simp only: command_dispatch_def message_consts)
  also have "\<dots> = andthen (de_call e (cp_func ?cp) ws s) (dispatch_loop e (?hd @ ?body @ tr) (3 + length ?body) f (3 + length ?body))"
    using assms(3,5,9) u ps by (simp add: command_lookup_parser_def numeral_3_eq_3 numeral_2_eq_2)
  also have "\<dots> = de_call e (cp_func ?cp) ws s"
    by (cases "de_call e (cp_func ?cp) ws s"; cases f) (simp_all add: andthen_def)
  finally show ?thesis unfolding q(2,3) p(2) tr by (simp only: q(2))
qed

section \<open>A full queue\<close>

text \<open>
  When a step far ahead arrives while the queue memory is full, and the flush before it leaves steps in
  the queue, the step is written behind the end of the memory.
\<close>

theorem far_step_overruns_queue:
  assumes "next_step_dir sc = sdir sc" "last_step_clock sc + CLOCK_DIFF_MAX \<le> next_step_clock sc"
    "queue_flush (next_step_clock sc - CLOCK_DIFF_MAX + 1) (sc\<lparr>next_step_clock := 0\<rparr>) = Ret 0 sc1"
    "queue_next sc1 = length (queue_mem sc1)" "next_step_clock sc < last_step_clock sc1 + CLOCK_DIFF_MAX"
  shows "queue_append sc = Fault"
proof -
  have "\<not> last_step_clock sc1 + CLOCK_DIFF_MAX \<le> next_step_clock sc" using assms(5) by simp
  then show ?thesis using assms(1-4) by (simp add: queue_append_def queue_append_far_def queue_put_def Let_def)
qed

section \<open>Instances\<close>

text \<open>Two steps that no single move covers, filling the memory.\<close>

definition demo_steps :: stepcompress where
  "demo_steps = (stepcompress_alloc 3)\<lparr>queue_mem := [100, 100000], queue_next := 2, sdir := 0, queue_step_msgtag := 7\<rparr>"

definition demo_move :: step_move where
  "demo_move = \<lparr>mv_interval = 100, mv_count = 1, mv_add = 0\<rparr>"

lemma demo_search:
  "compress_bisect_add demo_steps = Some demo_move"
proof -
  have p: "minmax_point demo_steps 0 = \<lparr>minp = 100, maxp = 100\<rparr>"
    by (simp add: minmax_point_def demo_steps_def stepcompress_alloc_def queue_at_def)
  define b where "b = \<lparr>bestinterval = 100, bestcount = 1, bestadd = 0, bestreach = 100, zerointerval = 100, zerocount = 1\<rparr>"
  have "bisect_round demo_steps 2 0 (- 0x8000) 0x7fff 100 100 best_init = Break b"
    unfolding b_def by code_simp
  then have r: "bisect_loop (Suc 0x10000) demo_steps 2 0 (- 0x8000) 0x7fff 100 100 best_init = Some (Inr b)"
    by (simp only: bisect_loop.simps bisect_outer.case)
  have n: "min (queue_next demo_steps - queue_pos demo_steps) 65535 = 2" by (simp add: demo_steps_def stepcompress_alloc_def)
  have f: "(0x10001 :: nat) = Suc 0x10000" and s: "sint (100 :: u32) = 100" by simp_all
  show ?thesis
    unfolding compress_bisect_add_def Let_def p points.select_convs n f s r option.case sum.case
    by (simp add: b_def c_div_def mk_move_def demo_move_def)
qed



lemma demo_flush:
  "\<exists>sc1. queue_flush 1 demo_steps = Ret 0 sc1 \<and> queue_next sc1 = length (queue_mem sc1) \<and> last_step_clock sc1 = 100"
proof -
  have l: "last_step_clock demo_steps = 0" "queue_pos demo_steps = 0" "queue_next demo_steps = 2"
    "queue_mem demo_steps = [100, 100000]" by (simp_all add: demo_steps_def stepcompress_alloc_def)
  have c: "check_line demo_steps demo_move = 0" by code_simp
  obtain qm where qm: "message_alloc_and_encode [queue_step_msgtag demo_steps, sc_oid demo_steps, mv_interval demo_move,
      ucast (mv_count demo_move), scast (mv_add demo_move)] = Some qm" using message_encode_ok by blast
  obtain sc2 where a: "add_move (last_step_clock demo_steps + ucast (mv_interval demo_move)) demo_move demo_steps = Ret () sc2"
    "last_step_clock sc2 = 100" "queue_pos sc2 = 0" "queue_next sc2 = 2" "queue_mem sc2 = [100, 100000]"
    using qm l by (auto simp: add_move_def demo_move_def queue_msg_def Let_def)
  have m: "unat (mv_count demo_move) = 1" by (simp add: demo_move_def)
  have "flush_loop 2 1 demo_steps = flush_loop 1 1 (sc2\<lparr>queue_pos := 1\<rparr>)"
    using a c l m demo_search by (subst flush_loop.simps) (simp add: numeral_2_eq_2)
  also have "\<dots> = Ret 0 (sc2\<lparr>queue_pos := 1\<rparr>)" using a by (subst flush_loop.simps) simp
  finally show ?thesis using a l by (simp add: queue_flush_def calc_last_step_print_time_def)
qed

theorem far_step_overruns_queue_witness:
  "queue_append (demo_steps\<lparr>next_step_clock := CLOCK_DIFF_MAX\<rparr>) = Fault"
proof -
  obtain sc1 where 1: "queue_flush 1 demo_steps = Ret 0 sc1" "queue_next sc1 = length (queue_mem sc1)" "last_step_clock sc1 = 100"
    using demo_flush by blast
  have "(demo_steps\<lparr>next_step_clock := CLOCK_DIFF_MAX\<rparr>)\<lparr>next_step_clock := 0\<rparr> = demo_steps"
    by (simp add: demo_steps_def stepcompress_alloc_def)
  then show ?thesis
    by (intro far_step_overruns_queue [where ?sc1.0 = sc1]) (use 1 in \<open>simp_all add: demo_steps_def stepcompress_alloc_def CLOCK_DIFF_MAX_def\<close>)
qed




theorem sync_merges_in_order_witness:
  "\<exists>ss'. steppersync_flush 1000 0 (steppersync_alloc
       [(stepcompress_alloc 1)\<lparr>msg_queue := [message_alloc\<lparr>min_clock := 500, req_clock := 400\<rparr>]\<rparr>] 3) = Ret 0 ss' \<and>
     length (move_clocks ss') = 3 \<and> (\<forall>sc \<in> set (sc_list ss'). \<forall>q \<in> set (msg_queue sc). 1000 < req_clock q)"
proof -
  let ?sc = "(stepcompress_alloc 1)\<lparr>msg_queue := [message_alloc\<lparr>min_clock := 500, req_clock := 400\<rparr>]\<rparr>"
  let ?ss = "steppersync_alloc [?sc] 3"
  have f: "flush_all 1000 [] (sc_list ?ss) = Ret 0 [?sc]"
    by (simp add: steppersync_alloc_def stepcompress_flush_def stepcompress_alloc_def queue_flush_def)
  have "is_heap (move_clocks ?ss)" "move_clocks ?ss \<noteq> []" "sorted_queues [?sc]" "1000 < MAX_CLOCK" "length (move_clocks ?ss) = 3"
    by (simp_all add: steppersync_alloc_def is_heap_def parent_def sorted_queues_def MAX_CLOCK_def)
  with sync_merges_in_order [OF f] show ?thesis by metis
qed

theorem host_command_executed_witness:
  "\<exists>qm. message_alloc_and_encode [of_nat 1, 300] = Some qm \<and>
     command_dispatch demo_env (frame MESSAGE_DEST (take (qm_len qm) (qm_msg qm)) @ []) (qm_len qm + 5) (cmd_state.extend cmd_init []) =
       Ret () (cmd_state.extend cmd_init [300])"
proof -
  obtain qm where q: "message_alloc_and_encode [of_nat 1, 300] = Some qm" using message_encode_ok by blast
  have l: "length (encode_int w) \<le> 5" for w using encode_int_length by simp
  have "length (concat (map encode_int [of_nat 1, 300])) \<le> MESSAGE_PAYLOAD_MAX"
    using l [of 1] l [of 300] by (simp add: MESSAGE_PAYLOAD_MAX_def message_consts)
  then have "command_dispatch demo_env (frame MESSAGE_DEST (take (qm_len qm) (qm_msg qm)) @ []) (qm_len qm + 5) (cmd_state.extend cmd_init []) =
      de_call demo_env (cp_func (de_index demo_env ! 1)) [300] (cmd_state.extend cmd_init [])"
    by (rule host_command_executed [OF q]) (simp_all add: demo_env_def demo_parser_def)
  then show ?thesis using q by (simp add: demo_env_def cmd_state.defs)
qed

end
