(* ===== verification/Floating.thy ===== *)
theory Floating
  imports Prelude
begin

text \<open>
  Floating point of the host. A C double is a value of a type \<open>'t\<close> with the operations of a record
  \<open>'t fp\<close>, which is an argument of every definition that computes with doubles. Nothing is assumed about the
  arithmetic unless a theorem says so; the theory \<open>Real_Arith\<close> has the instance of exact real numbers.
\<close>

text \<open>
  \<open>f_lit\<close> is a constant by its text in the source (a decimal number or \<open>M_PI\<close>); \<open>f_of_int\<close> converts an integer;
  \<open>f_i64\<close> and \<open>f_u64\<close> are casts to integers, which C leaves undefined out of range.
\<close>

record 't fp =
  f_lit :: "string \<Rightarrow> 't"
  f_of_int :: "int \<Rightarrow> 't"
  f_add :: "'t \<Rightarrow> 't \<Rightarrow> 't"
  f_sub :: "'t \<Rightarrow> 't \<Rightarrow> 't"
  f_mul :: "'t \<Rightarrow> 't \<Rightarrow> 't"
  f_div :: "'t \<Rightarrow> 't \<Rightarrow> 't"
  f_neg :: "'t \<Rightarrow> 't"
  f_less :: "'t \<Rightarrow> 't \<Rightarrow> bool"
  f_le :: "'t \<Rightarrow> 't \<Rightarrow> bool"
  f_eq :: "'t \<Rightarrow> 't \<Rightarrow> bool"
  f_abs :: "'t \<Rightarrow> 't"
  f_ceil :: "'t \<Rightarrow> 't"
  f_sqrt :: "'t \<Rightarrow> 't"
  f_sin :: "'t \<Rightarrow> 't"
  f_cos :: "'t \<Rightarrow> 't"
  f_atan2 :: "'t \<Rightarrow> 't \<Rightarrow> 't"
  f_i64 :: "'t \<Rightarrow> int"
  f_u64 :: "'t \<Rightarrow> int"

text \<open>A double as a condition: it is not equal to zero. \<open>f_zero\<close> is also the value of cleared memory.\<close>

definition f_zero :: "'t fp \<Rightarrow> 't" where "f_zero F = f_lit F ''0.''"

definition f_true :: "'t fp \<Rightarrow> 't \<Rightarrow> bool" where "f_true F x \<longleftrightarrow> \<not> f_eq F x (f_zero F)"

end
