(* ===== verification/Pollreactor.thy ===== *)
theory Pollreactor
  imports Floating
begin

text \<open>
  The event loop of the host, \<open>klipper/klippy/chelper/pollreactor.c\<close>: timers with wake-up times and
  callbacks for readable file descriptors.
\<close>

section \<open>Constants\<close>

definition PR_NOW :: "'t fp \<Rightarrow> 't" where "PR_NOW F = f_lit F ''0.''"
definition PR_NEVER :: "'t fp \<Rightarrow> 't" where "PR_NEVER F = f_lit F ''9999999999999999.''"

section \<open>State\<close>

text \<open>
  The timers by their position; the file descriptors' callbacks are arguments of the loop. Records
  of users extend this one, so that a callback works on the whole state.
\<close>

record 't pollreactor =
  must_exit :: bool
  next_timer :: 't
  timer_wake :: "nat \<Rightarrow> 't"

definition pollreactor_alloc :: "'t fp \<Rightarrow> 't pollreactor" where
  "pollreactor_alloc F = \<lparr>must_exit = False, next_timer = PR_NEVER F, timer_wake = (\<lambda>_. PR_NEVER F)\<rparr>"

definition pollreactor_add_timer :: "'t fp \<Rightarrow> nat \<Rightarrow> ('t, 'a) pollreactor_scheme \<Rightarrow> ('t, 'a) pollreactor_scheme" where
  "pollreactor_add_timer F pos s = s\<lparr>timer_wake := (timer_wake s)(pos := PR_NEVER F)\<rparr>"

definition pollreactor_get_timer :: "nat \<Rightarrow> ('t, 'a) pollreactor_scheme \<Rightarrow> 't" where
  "pollreactor_get_timer pos s = timer_wake s pos"

definition pollreactor_update_timer ::
    "'t fp \<Rightarrow> nat \<Rightarrow> 't \<Rightarrow> ('t, 'a) pollreactor_scheme \<Rightarrow> ('t, 'a) pollreactor_scheme" where
  "pollreactor_update_timer F pos w s =
     s\<lparr>timer_wake := (timer_wake s)(pos := w), next_timer := (if f_less F w (next_timer s) then w else next_timer s)\<rparr>"

definition pollreactor_do_exit :: "('t, 'a) pollreactor_scheme \<Rightarrow> ('t, 'a) pollreactor_scheme" where
  "pollreactor_do_exit s = s\<lparr>must_exit := True\<rparr>"

definition pollreactor_is_exit :: "('t, 'a) pollreactor_scheme \<Rightarrow> bool" where
  "pollreactor_is_exit s = must_exit s"

section \<open>The loop\<close>

text \<open>
  The loop over the timers from position \<open>i\<close>: \<open>cb i eventtime\<close> is the callback of timer \<open>i\<close>, its value
  the next wake-up time. The value is the flag \<open>busy\<close>.
\<close>

fun timers_loop :: "'t fp \<Rightarrow> (nat \<Rightarrow> 't \<Rightarrow> ('t, 'a) pollreactor_scheme \<Rightarrow> (('t, 'a) pollreactor_scheme, 't) res)
    \<Rightarrow> 't \<Rightarrow> nat list \<Rightarrow> bool \<Rightarrow> ('t, 'a) pollreactor_scheme \<Rightarrow> (('t, 'a) pollreactor_scheme, bool) res" where
  "timers_loop F cb eventtime [] busy s = Ret busy s"
| "timers_loop F cb eventtime (i # is) busy s =
     (let t = timer_wake s i; due = f_le F t eventtime
      in bnd (if due then bnd (cb i eventtime s) (\<lambda>t s. Ret t (s\<lparr>timer_wake := (timer_wake s)(i := t)\<rparr>)) else Ret t s)
           (\<lambda>t s. timers_loop F cb eventtime is (busy \<or> due)
              (if f_less F t (next_timer s) then s\<lparr>next_timer := t\<rparr> else s)))"

text \<open>The value is the timeout of the poll in milliseconds.\<close>

definition pollreactor_check_timers ::
    "'t fp \<Rightarrow> (nat \<Rightarrow> 't \<Rightarrow> ('t, 'a) pollreactor_scheme \<Rightarrow> (('t, 'a) pollreactor_scheme, 't) res)
    \<Rightarrow> nat \<Rightarrow> 't \<Rightarrow> bool \<Rightarrow> ('t, 'a) pollreactor_scheme \<Rightarrow> (('t, 'a) pollreactor_scheme, int) res" where
  "pollreactor_check_timers F cb num_timers eventtime busy s =
     bnd (if f_le F (next_timer s) eventtime
          then timers_loop F cb eventtime [0..<num_timers] busy (s\<lparr>next_timer := PR_NEVER F\<rparr>)
          else Ret busy s)
       (\<lambda>busy s.
          if busy then Ret 0 s
          else
            (let timeout = f_ceil F (f_mul F (f_sub F (next_timer s) eventtime) (f_lit F ''1000.''))
             in Ret (if f_less F timeout (f_lit F ''1.'') then 1
                     else if f_less F (f_lit F ''1000.'') timeout then 1000 else f_i64 F timeout) s))"

text \<open>The calls of the callbacks of the ready descriptors.\<close>

fun fds_loop :: "(nat \<Rightarrow> 't \<Rightarrow> ('t, 'a) pollreactor_scheme \<Rightarrow> (('t, 'a) pollreactor_scheme, unit) res)
    \<Rightarrow> 't \<Rightarrow> nat list \<Rightarrow> ('t, 'a) pollreactor_scheme \<Rightarrow> (('t, 'a) pollreactor_scheme, unit) res" where
  "fds_loop cb eventtime [] s = Ret () s"
| "fds_loop cb eventtime (fd # fds) s = andthen (cb fd eventtime s) (fds_loop cb eventtime fds)"

text \<open>
  What one \<open>poll\<close> returns: an error, or the positions of the ready descriptors (none: timeout),
  with the time read after it. \<open>pollreactor_run\<close> for a list of these; it goes on when the list ends.
\<close>

datatype 't poll_result = Poll_error 't | Poll_ready "nat list" 't

fun pollreactor_run ::
    "'t fp \<Rightarrow> (nat \<Rightarrow> 't \<Rightarrow> ('t, 'a) pollreactor_scheme \<Rightarrow> (('t, 'a) pollreactor_scheme, 't) res)
    \<Rightarrow> (nat \<Rightarrow> 't \<Rightarrow> ('t, 'a) pollreactor_scheme \<Rightarrow> (('t, 'a) pollreactor_scheme, unit) res)
    \<Rightarrow> nat \<Rightarrow> 't poll_result list \<Rightarrow> 't \<Rightarrow> bool \<Rightarrow> ('t, 'a) pollreactor_scheme \<Rightarrow> (('t, 'a) pollreactor_scheme, unit) res" where
  "pollreactor_run F tcb fcb n [] eventtime busy s = Ret () s"
| "pollreactor_run F tcb fcb n (pr # prs) eventtime busy s =
     (if must_exit s then Ret () s
      else
        bnd (pollreactor_check_timers F tcb n eventtime busy s) (\<lambda>timeout s.
          case pr of
            Poll_error t \<Rightarrow> pollreactor_run F tcb fcb n prs t False (s\<lparr>must_exit := True\<rparr>)
          | Poll_ready fds t \<Rightarrow>
              andthen (fds_loop fcb t fds s) (pollreactor_run F tcb fcb n prs t (fds \<noteq> []))))"

end
