(* ===== verification/Serialqueue.thy ===== *)
theory Serialqueue
  imports Pollreactor Msgblock
begin

text \<open>
  The host's end of the link, \<open>klipper/klippy/chelper/serialqueue.c\<close>: queues of commands with the clocks
  at which they may and must be sent, message blocks that are kept until they are acknowledged and
  retransmitted, received messages and their notifications. Definitions only.

  A C double is of the type \<open>'t\<close> with the operations of \<open>Pollreactor\<close>; the theory also has the
  conversions of clocks and times of \<open>msgblock.c\<close>. The mutexes are not modelled: every function
  holds \<open>lock\<close> while it changes the state, so its effect is one step.
\<close>

section \<open>Clock estimation\<close>

record 't clock_estimate =
  ce_last_clock :: u64
  ce_conv_clock :: u64
  ce_conv_time :: 't
  ce_est_freq :: 't

definition clock_to_time :: "'t fp \<Rightarrow> 't clock_estimate \<Rightarrow> u64 \<Rightarrow> 't" where
  "clock_to_time F ce clock =
     f_add F (ce_conv_time ce) (f_div F (f_of_int F (sint (clock - ce_conv_clock ce))) (ce_est_freq ce))"

definition clock_from_time :: "'t fp \<Rightarrow> 't clock_estimate \<Rightarrow> 't \<Rightarrow> u64" where
  "clock_from_time F ce time =
     of_int (f_i64 F (f_add F (f_mul F (f_sub F time (ce_conv_time ce)) (ce_est_freq ce)) (f_lit F ''.5''))) + ce_conv_clock ce"

section \<open>State\<close>

text \<open>\<open>struct queue_message\<close> with the members of the union that are used on sent and receive queues.\<close>

record 't timed_message =
  tm_len :: nat
  tm_msg :: "u8 list"
  sent_time :: 't
  receive_time :: 't
  tm_notify_id :: u64

record command_queue =
  upcoming_queue :: "queue_message list"
  ready_queue :: "queue_message list"

record fastreader =
  fr_id :: nat
  fr_prefix :: "u8 list"

datatype fd_type = SQT_UART | SQT_CAN | SQT_DEBUGFILE

text \<open>
  Command queues are followed by an identifier in the store \<open>cqs\<close>. \<open>wire\<close> and \<open>can_wire\<close> are what was
  written to the descriptor, \<open>kicks\<close> and \<open>wakes\<close> count the wake-ups of the background and of the receiving
  thread, \<open>reads\<close> and \<open>writes\<close> the readings of the clock and the writes of CAN frames so far. A message on
  \<open>notify_queue\<close> has the number of its block in \<open>req_clock\<close>.
\<close>

record 't serialqueue = "'t pollreactor" +
  serial_fd_type :: fd_type
  client_id :: u32
  input_buf :: "u8 list"
  need_sync :: bool
  input_pos :: nat
  receive_waiting :: bool
  receive_window :: int
  bittime_adjust :: 't
  idle_time :: 't
  sq_ce :: "'t clock_estimate"
  last_receive_sent_time :: 't
  send_seq :: u64
  receive_seq :: u64
  ignore_nak_seq :: u64
  last_ack_seq :: u64
  retransmit_seq :: u64
  rtt_sample_seq :: u64
  sent_queue :: "'t timed_message list"
  srtt :: 't
  rttvar :: 't
  rto :: 't
  pending_queues :: "nat list"
  cqs :: "nat \<Rightarrow> command_queue"
  ready_bytes :: int
  upcoming_bytes :: int
  need_ack_bytes :: int
  last_ack_bytes :: int
  need_kick_clock :: u64
  notify_queue :: "queue_message list"
  last_write_fail_time :: 't
  receive_queue :: "'t timed_message list"
  fast_readers :: "fastreader list"
  old_sent :: "'t timed_message list"
  old_receive :: "'t timed_message list"
  bytes_write :: u32
  bytes_read :: u32
  bytes_retransmit :: u32
  bytes_invalid :: u32
  wire :: "u8 list list"
  can_wire :: "(u32 \<times> u8 list) list"
  kicks :: nat
  wakes :: nat
  reads :: nat
  writes :: nat

text \<open>
  What the code gets from outside: floating point, the readings of the clock and which writes of CAN
  frames succeed, each by its number, and the callbacks of fast readers.
\<close>

record ('t, 's) sq_env =
  env_fp :: "'t fp"
  mono :: "nat \<Rightarrow> 't"
  wr_ok :: "nat \<Rightarrow> bool"
  call_fastreader :: "fastreader \<Rightarrow> u8 list \<Rightarrow> nat \<Rightarrow> 's \<Rightarrow> ('s, unit) res"

definition SQPT_RETRANSMIT :: nat where "SQPT_RETRANSMIT = 0"
definition SQPT_COMMAND :: nat where "SQPT_COMMAND = 1"
definition MAX_PENDING_BLOCKS :: nat where "MAX_PENDING_BLOCKS = 12"
definition MAX_CLOCK64 :: u64 where "MAX_CLOCK64 = 0x7fffffffffffffff"
definition BACKGROUND_PRIORITY_CLOCK :: u64 where "BACKGROUND_PRIORITY_CLOCK = 0x7fffffff00000000"
definition DEBUG_QUEUE_SENT :: nat where "DEBUG_QUEUE_SENT = 100"
definition DEBUG_QUEUE_RECEIVE :: nat where "DEBUG_QUEUE_RECEIVE = 100"
definition INPUT_BUF_SIZE :: nat where "INPUT_BUF_SIZE = 4096"

abbreviation upd_timer :: "'t fp \<Rightarrow> nat \<Rightarrow> 't \<Rightarrow> ('t, 'a) serialqueue_scheme \<Rightarrow> ('t, 'a) serialqueue_scheme" where
  "upd_timer \<equiv> pollreactor_update_timer"

definition f_zero :: "'t fp \<Rightarrow> 't \<Rightarrow> bool" where
  "f_zero F x \<longleftrightarrow> f_eq F x (f_lit F ''0.'')"

definition get_monotonic :: "('t, ('t, 'a) serialqueue_scheme) sq_env \<Rightarrow> ('t, 'a) serialqueue_scheme
    \<Rightarrow> 't \<times> ('t, 'a) serialqueue_scheme" where
  "get_monotonic E s = (mono E (reads s), s\<lparr>reads := Suc (reads s)\<rparr>)"

text \<open>Empty messages fill a debug queue; adding one drops the oldest.\<close>

definition empty_message :: "'t fp \<Rightarrow> 't timed_message" where
  "empty_message F = \<lparr>tm_len = 0, tm_msg = replicate MESSAGE_MAX 0, sent_time = f_lit F ''0.'',
     receive_time = f_lit F ''0.'', tm_notify_id = 0\<rparr>"

definition debug_queue_alloc :: "'t fp \<Rightarrow> nat \<Rightarrow> 't timed_message list" where
  "debug_queue_alloc F n = replicate n (empty_message F)"

definition debug_queue_add :: "'t timed_message list \<Rightarrow> 't timed_message \<Rightarrow> 't timed_message list" where
  "debug_queue_add root qm = tl (root @ [qm])"

definition check_wake_receive :: "('t, 'a) serialqueue_scheme \<Rightarrow> ('t, 'a) serialqueue_scheme" where
  "check_wake_receive s = (if receive_waiting s then s\<lparr>receive_waiting := False, wakes := Suc (wakes s)\<rparr> else s)"

definition kick_bg_thread :: "('t, 'a) serialqueue_scheme \<Rightarrow> ('t, 'a) serialqueue_scheme" where
  "kick_bg_thread s = s\<lparr>kicks := Suc (kicks s)\<rparr>"

text \<open>47 is \<open>CANBUS_PACKET_BITS\<close>, 4 is \<open>CANBUS_IFS_BITS\<close>.\<close>

definition calculate_bittime :: "'t fp \<Rightarrow> ('t, 'a) serialqueue_scheme \<Rightarrow> nat \<Rightarrow> 't" where
  "calculate_bittime F s bytes =
     (let b = of_nat bytes :: u32
      in if serial_fd_type s = SQT_CAN then
           (let pkts = (b + 7) div 8; bits = b * 8 + pkts * 47 - 4
            in f_mul F (bittime_adjust s) (f_of_int F (uint bits)))
         else f_mul F (bittime_adjust s) (f_of_int F (uint b)))"

section \<open>Acknowledgements\<close>

text \<open>
  The loop of \<open>update_receive_seq\<close>; the list is the rest of \<open>sent_queue\<close>.
\<close>

fun pop_sent :: "'t fp \<Rightarrow> u64 \<Rightarrow> u64 \<Rightarrow> 't timed_message list \<Rightarrow> ('t, 'a) serialqueue_scheme \<Rightarrow> ('t, 'a) serialqueue_scheme" where
  "pop_sent F rseq sent_seq [] s =
     s\<lparr>sent_queue := [], send_seq := rseq, last_receive_sent_time := f_lit F ''0.''\<rparr>"
| "pop_sent F rseq sent_seq (sent # rest) s =
     (let s1 = s\<lparr>need_ack_bytes := need_ack_bytes s - int (tm_len sent), sent_queue := rest,
                 old_sent := debug_queue_add (old_sent s) sent\<rparr>
      in if rseq = sent_seq + 1
         then s1\<lparr>last_receive_sent_time := receive_time sent, last_ack_bytes := int (tm_len sent)\<rparr>
         else pop_sent F rseq (sent_seq + 1) rest s1)"

text \<open>The computation of the retransmission timeout after a sample.\<close>

definition update_rtt :: "'t fp \<Rightarrow> 't \<Rightarrow> u64 \<Rightarrow> ('t, 'a) serialqueue_scheme \<Rightarrow> ('t, 'a) serialqueue_scheme" where
  "update_rtt F eventtime rseq s =
     (if rtt_sample_seq s \<noteq> 0 \<and> rseq > rtt_sample_seq s \<and> \<not> f_zero F (last_receive_sent_time s) then
        (let delta = f_sub F eventtime (last_receive_sent_time s);
             s1 = (if f_zero F (srtt s) then
                     s\<lparr>rttvar := f_div F delta (f_lit F ''2.0''), srtt := f_mul F delta (f_lit F ''10.0'')\<rparr>
                   else
                     s\<lparr>rttvar := f_div F (f_add F (f_mul F (f_lit F ''3.0'') (rttvar s)) (f_abs F (f_sub F (srtt s) delta)))
                                   (f_lit F ''4.0''),
                       srtt := f_div F (f_add F (f_mul F (f_lit F ''7.0'') (srtt s)) delta) (f_lit F ''8.0'')\<rparr>);
             rttvar4 = f_mul F (rttvar s1) (f_lit F ''4.0'');
             rttvar4 = (if f_less F rttvar4 (f_lit F ''0.001'') then f_lit F ''0.001'' else rttvar4);
             r = f_add F (srtt s1) rttvar4;
             r = (if f_less F r (f_lit F ''0.025'') then f_lit F ''0.025''
                  else if f_less F (f_lit F ''5.000'') r then f_lit F ''5.000'' else r)
         in s1\<lparr>rto := r, rtt_sample_seq := 0\<rparr>)
      else s)"

definition update_receive_seq :: "'t fp \<Rightarrow> 't \<Rightarrow> u64 \<Rightarrow> ('t, 'a) serialqueue_scheme \<Rightarrow> ('t, 'a) serialqueue_scheme" where
  "update_receive_seq F eventtime rseq s =
     (let s1 = (pop_sent F rseq (receive_seq s) (sent_queue s) s)\<lparr>receive_seq := rseq\<rparr>;
          s2 = update_rtt F eventtime rseq (upd_timer F SQPT_COMMAND (PR_NOW F) s1)
      in case sent_queue s2 of
           [] \<Rightarrow> upd_timer F SQPT_RETRANSMIT (PR_NEVER F) s2
         | sent # _ \<Rightarrow>
             upd_timer F SQPT_RETRANSMIT
               (f_add F (f_add F eventtime (rto s2)) (calculate_bittime F s2 (tm_len sent))) s2)"

section \<open>Input\<close>

text \<open>
  The notifications that the received sequence number completes.
\<close>

fun pop_notify :: "'t \<Rightarrow> u64 \<Rightarrow> queue_message list \<Rightarrow> bool \<Rightarrow> ('t, 'a) serialqueue_scheme \<Rightarrow> bool \<times> ('t, 'a) serialqueue_scheme" where
  "pop_notify eventtime wake_seq [] must_wake s = (must_wake, s\<lparr>notify_queue := []\<rparr>)"
| "pop_notify eventtime wake_seq (qm # rest) must_wake s =
     (if req_clock qm > wake_seq then (must_wake, s\<lparr>notify_queue := qm # rest\<rparr>)
      else pop_notify eventtime wake_seq rest True
             (s\<lparr>receive_queue := receive_queue s @ [\<lparr>tm_len = 0, tm_msg = qm_msg qm, sent_time = last_receive_sent_time s,
                 receive_time = eventtime, tm_notify_id = notify_id qm\<rparr>]\<rparr>))"

text \<open>The part after the notifications: an acknowledgement, or a message for the receive queue.\<close>

definition handle_content :: "('t, ('t, 'a) serialqueue_scheme) sq_env \<Rightarrow> nat \<Rightarrow> u64 \<Rightarrow> bool \<Rightarrow> ('t, 'a) serialqueue_scheme
    \<Rightarrow> bool \<times> ('t, 'a) serialqueue_scheme" where
  "handle_content E len rseq must_wake s =
     (let F = env_fp E
      in if len = MESSAGE_MIN then
           (must_wake,
            if last_ack_seq s < rseq then s\<lparr>last_ack_seq := rseq\<rparr>
            else if rseq > ignore_nak_seq s \<and> sent_queue s \<noteq> [] then upd_timer F SQPT_RETRANSMIT (PR_NOW F) s
            else s)
         else
           (let (now, s1) = get_monotonic E s;
                m = \<lparr>tm_len = len, tm_msg = take len (input_buf s1) @ replicate (MESSAGE_MAX - len) 0,
                     sent_time = (if rseq > retransmit_seq s1 then last_receive_sent_time s1 else f_lit F ''0.''),
                     receive_time = f_sub F now (calculate_bittime F s1 len), tm_notify_id = 0\<rparr>
            in (True, s1\<lparr>receive_queue := receive_queue s1 @ [m]\<rparr>)))"

text \<open>The first fast reader whose prefix the message has.\<close>

fun find_fastreader :: "nat \<Rightarrow> u8 list \<Rightarrow> fastreader list \<Rightarrow> fastreader option" where
  "find_fastreader len buf [] = None"
| "find_fastreader len buf (fr # frs) =
     (if len < length (fr_prefix fr) + MESSAGE_MIN
         \<or> take (length (fr_prefix fr)) (drop MESSAGE_HEADER_SIZE buf) \<noteq> fr_prefix fr
      then find_fastreader len buf frs else Some fr)"

definition handle_message :: "('t, ('t, 'a) serialqueue_scheme) sq_env \<Rightarrow> 't \<Rightarrow> nat \<Rightarrow> ('t, 'a) serialqueue_scheme
    \<Rightarrow> (('t, 'a) serialqueue_scheme, unit) res" where
  "handle_message E eventtime len s =
     (let F = env_fp E;
          rseq_delta = (ucast (input_buf s ! 1) - receive_seq s) AND ucast MESSAGE_SEQ_MASK;
          rseq = receive_seq s + rseq_delta
      in if rseq \<noteq> receive_seq s \<and> rseq > send_seq s \<and> receive_seq s \<noteq> 1 then
           Ret () (s\<lparr>bytes_invalid := bytes_invalid s + of_nat len\<rparr>)
         else
           (let s1 = (if rseq \<noteq> receive_seq s then update_receive_seq F eventtime rseq s else s);
                s2 = s1\<lparr>bytes_read := bytes_read s1 + of_nat len\<rparr>;
                wake_seq = rseq - 1 - (if len > MESSAGE_MIN then 1 else 0);
                (must_wake, s3) = pop_notify eventtime wake_seq (notify_queue s2) False s2;
                (must_wake, s4) = handle_content E len rseq must_wake s3;
                s5 = (if must_wake then check_wake_receive s4 else s4)
            in case find_fastreader len (input_buf s5) (fast_readers s5) of
                 None \<Rightarrow> Ret () s5
               | Some fr \<Rightarrow> call_fastreader E fr (input_buf s5) len s5))"

text \<open>The loop over the messages in the input buffer; every round takes bytes out of it.\<close>

fun input_loop :: "nat \<Rightarrow> ('t, ('t, 'a) serialqueue_scheme) sq_env \<Rightarrow> 't \<Rightarrow> ('t, 'a) serialqueue_scheme
    \<Rightarrow> (('t, 'a) serialqueue_scheme, unit) res" where
  "input_loop 0 E eventtime s = Fault"
| "input_loop (Suc fuel) E eventtime s =
     (let (len, ns) = msgblock_check (need_sync s) (take (input_pos s) (input_buf s));
          s1 = s\<lparr>need_sync := ns\<rparr>;
          n = nat \<bar>len\<bar>
      in if len = 0 then Ret () s1
         else
           andthen (if len > 0 then handle_message E eventtime n s1
                    else Ret () (s1\<lparr>bytes_invalid := bytes_invalid s1 + of_nat n\<rparr>)) (\<lambda>s.
             if input_pos s < n then Fault
             else
               (let rest = input_pos s - n
                in input_loop fuel E eventtime
                     (s\<lparr>input_pos := rest, input_buf := blit (input_buf s) 0 (take rest (drop n (input_buf s)))\<rparr>))))"

text \<open>What a read of the descriptor gives: a failure or end of file, bytes, or a CAN frame.\<close>

datatype fd_read = Rd_fail | Rd_bytes "u8 list" | Rd_can u32 "u8 list"

definition put_input :: "u8 list \<Rightarrow> ('t, 'a) serialqueue_scheme \<Rightarrow> (('t, 'a) serialqueue_scheme, unit) res" where
  "put_input bs s =
     (if input_pos s + length bs > length (input_buf s) then Fault
      else Ret () (s\<lparr>input_buf := blit (input_buf s) (input_pos s) bs, input_pos := input_pos s + length bs\<rparr>))"

definition input_event :: "('t, ('t, 'a) serialqueue_scheme) sq_env \<Rightarrow> fd_read \<Rightarrow> 't \<Rightarrow> ('t, 'a) serialqueue_scheme
    \<Rightarrow> (('t, 'a) serialqueue_scheme, unit) res" where
  "input_event E rd eventtime s =
     (let go = (\<lambda>bs. andthen (put_input bs s) (\<lambda>s. input_loop (Suc (input_pos s)) E eventtime s))
      in case rd of
           Rd_fail \<Rightarrow> Ret () (pollreactor_do_exit s)
         | Rd_can cid bs \<Rightarrow> if cid \<noteq> client_id s + 1 then Ret () s else go bs
         | Rd_bytes bs \<Rightarrow> go bs)"

definition kick_event :: "('t, ('t, 'a) serialqueue_scheme) sq_env \<Rightarrow> 't \<Rightarrow> ('t, 'a) serialqueue_scheme
    \<Rightarrow> (('t, 'a) serialqueue_scheme, unit) res" where
  "kick_event E eventtime s = Ret () (upd_timer (env_fp E) SQPT_COMMAND (PR_NOW (env_fp E)) s)"

section \<open>Output\<close>

text \<open>
  The CAN frames of a write; a failed one ends it. The time of the first failure is remembered for the
  decision to halt.
\<close>

fun write_can :: "nat \<Rightarrow> ('t, ('t, 'a) serialqueue_scheme) sq_env \<Rightarrow> u8 list \<Rightarrow> ('t, 'a) serialqueue_scheme
    \<Rightarrow> ('t, 'a) serialqueue_scheme" where
  "write_can fuel E buf s =
     (if buf = [] then s
      else case fuel of
        0 \<Rightarrow> s
      | Suc fuel \<Rightarrow>
          (let F = env_fp E; size = min 8 (length buf); s1 = s\<lparr>writes := Suc (writes s)\<rparr>
           in if \<not> wr_ok E (writes s) then
                (let (curtime, s2) = get_monotonic E s1
                 in if f_zero F (last_write_fail_time s2) then s2\<lparr>last_write_fail_time := curtime\<rparr>
                    else if f_less F (f_add F (last_write_fail_time s2) (f_lit F ''10.0'')) curtime
                    then pollreactor_do_exit s2 else s2)
              else write_can fuel E (drop size buf)
                     (s1\<lparr>can_wire := can_wire s1 @ [(client_id s1, take size buf)], last_write_fail_time := f_lit F ''0.0''\<rparr>)))"

declare write_can.simps [simp del]

definition do_write :: "('t, ('t, 'a) serialqueue_scheme) sq_env \<Rightarrow> u8 list \<Rightarrow> ('t, 'a) serialqueue_scheme
    \<Rightarrow> ('t, 'a) serialqueue_scheme" where
  "do_write E buf s =
     (if serial_fd_type s \<noteq> SQT_CAN
      then s\<lparr>writes := Suc (writes s), wire := (if wr_ok E (writes s) then wire s @ [buf] else wire s)\<rparr>
      else write_can (length buf) E buf s)"

definition msg_bytes :: "'t timed_message \<Rightarrow> u8 list" where
  "msg_bytes m = take (tm_len m) (tm_msg m)"

text \<open>\<open>Fault\<close>: the blocks do not fit the buffer of \<open>MESSAGE_MAX * MAX_PENDING_BLOCKS + 1\<close> bytes.\<close>

definition retransmit_event :: "('t, ('t, 'a) serialqueue_scheme) sq_env \<Rightarrow> 't \<Rightarrow> ('t, 'a) serialqueue_scheme
    \<Rightarrow> (('t, 'a) serialqueue_scheme, 't) res" where
  "retransmit_event E eventtime s =
     (let F = env_fp E;
          buf = MESSAGE_SYNC # concat (map msg_bytes (sent_queue s));
          first_buflen = (case sent_queue s of [] \<Rightarrow> 0 | qm # _ \<Rightarrow> tm_len qm + 1)
      in if length buf > MESSAGE_MAX * MAX_PENDING_BLOCKS + 1 then Fault
         else
           (let s1 = do_write E buf s;
                s2 = s1\<lparr>bytes_retransmit := bytes_retransmit s1 + of_nat (length buf)\<rparr>;
                s3 = (if f_eq F (pollreactor_get_timer SQPT_RETRANSMIT s2) (PR_NOW F) then
                        s2\<lparr>ignore_nak_seq := (if receive_seq s2 < retransmit_seq s2 then retransmit_seq s2 else receive_seq s2)\<rparr>
                      else
                        (let r = f_mul F (rto s2) (f_lit F ''2.0'')
                         in s2\<lparr>rto := (if f_less F (f_lit F ''5.000'') r then f_lit F ''5.000'' else r),
                               ignore_nak_seq := send_seq s2\<rparr>));
                s4 = s3\<lparr>retransmit_seq := send_seq s3, rtt_sample_seq := 0,
                        idle_time := f_add F eventtime (calculate_bittime F s3 (length buf))\<rparr>
            in Ret (f_add F (f_add F eventtime (rto s4)) (calculate_bittime F s4 first_buflen)) s4))"

text \<open>The queue whose first ready message has the lowest \<open>req_clock\<close>.\<close>

fun find_ready :: "(nat \<Rightarrow> command_queue) \<Rightarrow> u64 \<Rightarrow> (nat \<times> queue_message) option \<Rightarrow> nat list \<Rightarrow> (nat \<times> queue_message) option" where
  "find_ready qs clock found [] = found"
| "find_ready qs clock found (q # rest) =
     (case ready_queue (qs q) of
        m # _ \<Rightarrow> if req_clock m < clock then find_ready qs (req_clock m) (Some (q, m)) rest
                  else find_ready qs clock found rest
      | [] \<Rightarrow> find_ready qs clock found rest)"

definition set_cq :: "nat \<Rightarrow> command_queue \<Rightarrow> ('t, 'a) serialqueue_scheme \<Rightarrow> ('t, 'a) serialqueue_scheme" where
  "set_cq q c s = s\<lparr>cqs := (cqs s)(q := c)\<rparr>"

definition cq_empty :: "command_queue \<Rightarrow> bool" where
  "cq_empty c \<longleftrightarrow> ready_queue c = [] \<and> upcoming_queue c = []"

text \<open>Taking the message \<open>qm\<close> off the queue \<open>q\<close> into the block.\<close>

definition take_ready :: "nat \<Rightarrow> queue_message \<Rightarrow> ('t, 'a) serialqueue_scheme \<Rightarrow> ('t, 'a) serialqueue_scheme" where
  "take_ready q qm s =
     (let c = (cqs s q)\<lparr>ready_queue := tl (ready_queue (cqs s q))\<rparr>;
          s1 = set_cq q c s;
          s2 = (if cq_empty c then s1\<lparr>pending_queues := remove1 q (pending_queues s1)\<rparr> else s1);
          s3 = s2\<lparr>ready_bytes := ready_bytes s2 - int (qm_len qm)\<rparr>
      in if notify_id qm \<noteq> 0 then s3\<lparr>notify_queue := notify_queue s3 @ [qm\<lparr>req_clock := send_seq s3\<rparr>]\<rparr> else s3)"

text \<open>
  The loop that fills a block: \<open>pay\<close> is the payload so far. Every round takes a message off a ready
  queue. Without a queue the code would follow a null pointer.
\<close>

fun fill_block :: "nat \<Rightarrow> u8 list \<Rightarrow> ('t, 'a) serialqueue_scheme \<Rightarrow> (('t, 'a) serialqueue_scheme, u8 list) res" where
  "fill_block fuel pay s =
     (if ready_bytes s = 0 then Ret pay s
      else case fuel of
        0 \<Rightarrow> Fault
      | Suc fuel \<Rightarrow>
          (case find_ready (cqs s) MAX_CLOCK64 None (pending_queues s) of
             None \<Rightarrow> Fault
           | Some (q, qm) \<Rightarrow>
               if MESSAGE_HEADER_SIZE + length pay + qm_len qm > MESSAGE_MAX - MESSAGE_TRAILER_SIZE then Ret pay s
               else fill_block fuel (pay @ take (qm_len qm) (qm_msg qm)) (take_ready q qm s)))"

declare fill_block.simps [simp del]

definition n_ready :: "('t, 'a) serialqueue_scheme \<Rightarrow> nat" where
  "n_ready s = sum_list (map (\<lambda>q. length (ready_queue (cqs s q))) (pending_queues s))"

text \<open>The bytes of a block: \<open>buf\<close> with its header and trailer filled in.\<close>

definition make_block :: "u64 \<Rightarrow> u8 list \<Rightarrow> u8 list" where
  "make_block seq pay =
     (let len = MESSAGE_HEADER_SIZE + length pay + MESSAGE_TRAILER_SIZE;
          head = of_nat len # (MESSAGE_DEST OR (ucast seq AND MESSAGE_SEQ_MASK)) # pay;
          crc = msgblock_crc16_ccitt head (len - MESSAGE_TRAILER_SIZE)
      in head @ [ucast (drop_bit 8 crc), ucast (crc AND 0xff), MESSAGE_SYNC])"

definition store_block :: "'t fp \<Rightarrow> nat \<Rightarrow> 't \<Rightarrow> u8 list \<Rightarrow> ('t, 'a) serialqueue_scheme \<Rightarrow> ('t, 'a) serialqueue_scheme" where
  "store_block F pending eventtime block s =
     (let len = length block;
          idletime = (if f_less F (idle_time s) eventtime then eventtime else idle_time s);
          idletime = f_add F idletime (calculate_bittime F s (pending + len));
          out = \<lparr>tm_len = len, tm_msg = block @ replicate (MESSAGE_MAX - len) 0, sent_time = eventtime,
                 receive_time = idletime, tm_notify_id = 0\<rparr>;
          s1 = (if sent_queue s = [] then upd_timer F SQPT_RETRANSMIT (f_add F idletime (rto s)) s else s);
          s2 = (if rtt_sample_seq s1 = 0 then s1\<lparr>rtt_sample_seq := send_seq s1\<rparr> else s1)
      in s2\<lparr>send_seq := send_seq s2 + 1, need_ack_bytes := need_ack_bytes s2 + int len, sent_queue := sent_queue s2 @ [out]\<rparr>)"

definition build_and_send_command :: "'t fp \<Rightarrow> nat \<Rightarrow> 't \<Rightarrow> ('t, 'a) serialqueue_scheme
    \<Rightarrow> (('t, 'a) serialqueue_scheme, u8 list) res" where
  "build_and_send_command F pending eventtime s =
     bnd (fill_block (n_ready s) [] s) (\<lambda>pay s.
       let block = make_block (send_seq s) pay
       in Ret block (store_block F pending eventtime block s))"

text \<open>Messages whose \<open>min_clock\<close> has come move from the upcoming to the ready queue.\<close>

definition move_ready :: "u64 \<Rightarrow> nat \<Rightarrow> ('t, 'a) serialqueue_scheme \<Rightarrow> ('t, 'a) serialqueue_scheme" where
  "move_ready ack_clock q s =
     (let c = cqs s q;
          ms = takeWhile (\<lambda>m. \<not> ack_clock < min_clock m) (upcoming_queue c);
          n = int (sum_list (map qm_len ms))
      in (set_cq q (c\<lparr>upcoming_queue := drop (length ms) (upcoming_queue c), ready_queue := ready_queue c @ ms\<rparr>) s)
           \<lparr>upcoming_bytes := upcoming_bytes s - n, ready_bytes := ready_bytes s + n\<rparr>)"

text \<open>
  The loop over the pending queues: the lowest \<open>min_clock\<close> of a stalled and the lowest \<open>req_clock\<close> of a ready
  message; \<open>bgclock\<close> is the clock for messages of background priority.
\<close>

fun ready_loop :: "u64 \<Rightarrow> u64 \<Rightarrow> nat list \<Rightarrow> u64 \<Rightarrow> u64 \<Rightarrow> ('t, 'a) serialqueue_scheme
    \<Rightarrow> u64 \<times> u64 \<times> ('t, 'a) serialqueue_scheme" where
  "ready_loop ack_clock bgclock [] stalled ready s = (stalled, ready, s)"
| "ready_loop ack_clock bgclock (q # rest) stalled ready s =
     (let s1 = move_ready ack_clock q s;
          stalled = (case upcoming_queue (cqs s1 q) of
                       m # _ \<Rightarrow> if min_clock m < stalled then min_clock m else stalled | [] \<Rightarrow> stalled);
          ready = (case ready_queue (cqs s1 q) of
                     m # _ \<Rightarrow> (let rc = (if req_clock m = BACKGROUND_PRIORITY_CLOCK then bgclock else req_clock m)
                               in if rc < ready then rc else ready)
                   | [] \<Rightarrow> ready)
      in ready_loop ack_clock bgclock rest stalled ready s1)"

text \<open>Whether an acknowledgement is needed before the next block.\<close>

definition window_full :: "('t, 'a) serialqueue_scheme \<Rightarrow> bool" where
  "window_full s \<longleftrightarrow>
     send_seq s - receive_seq s \<ge> of_nat MAX_PENDING_BLOCKS \<and> receive_seq s \<noteq> - 1 \<or>
     send_seq s > receive_seq s \<and> receive_window s \<noteq> 0 \<and>
       need_ack_bytes s + int MESSAGE_MAX + (if last_ack_seq s < receive_seq s then last_ack_bytes s else 0) > receive_window s"

definition check_send_command :: "'t fp \<Rightarrow> nat \<Rightarrow> 't \<Rightarrow> ('t, 'a) serialqueue_scheme \<Rightarrow> 't \<times> ('t, 'a) serialqueue_scheme" where
  "check_send_command F pending eventtime s =
     (if window_full s then (PR_NEVER F, s)
      else
        (let idletime = (if f_less F (idle_time s) eventtime then eventtime else idle_time s);
             idletime = f_add F idletime (calculate_bittime F s (pending + MESSAGE_MIN));
             ack_clock = clock_from_time F (sq_ce s) idletime;
             bgtime = (if pending \<noteq> 0 then idletime else idle_time s);
             bgoffset = f_add F (f_lit F ''0.250'') (f_lit F ''0.005'');
             bgclock = clock_from_time F (sq_ce s) (f_add F bgtime bgoffset);
             (min_stalled_clock, min_ready_clock, s1) =
               ready_loop ack_clock bgclock (pending_queues s) MAX_CLOCK64 MAX_CLOCK64 s
         in if ready_bytes s1 \<ge> int MESSAGE_PAYLOAD_MAX then (PR_NOW F, s1)
            else if f_zero F (ce_est_freq (sq_ce s1)) then
              (if ready_bytes s1 \<noteq> 0 then (PR_NOW F, s1)
               else (PR_NEVER F, s1\<lparr>need_kick_clock := MAX_CLOCK64\<rparr>))
            else
              (let reqclock_delta = of_int (f_u64 F (f_mul F (f_lit F ''0.250'') (ce_est_freq (sq_ce s1))))
               in if min_ready_clock \<le> ack_clock + reqclock_delta then (PR_NOW F, s1)
                  else
                    (let wantclock = min_ready_clock - reqclock_delta;
                         wantclock = (if min_stalled_clock < wantclock then min_stalled_clock else wantclock)
                     in (f_add F idletime (f_div F (f_of_int F (uint (wantclock - ack_clock))) (ce_est_freq (sq_ce s1))),
                         s1\<lparr>need_kick_clock := wantclock\<rparr>)))))"

text \<open>Writing the blocks collected in the buffer.\<close>

definition flush_blocks :: "('t, ('t, 'a) serialqueue_scheme) sq_env \<Rightarrow> 't \<Rightarrow> u8 list \<Rightarrow> ('t, 'a) serialqueue_scheme
    \<Rightarrow> ('t, 'a) serialqueue_scheme" where
  "flush_blocks E eventtime buf s =
     (if buf = [] then s
      else
        (let F = env_fp E; s1 = do_write E buf s; s2 = s1\<lparr>bytes_write := bytes_write s1 + of_nat (length buf)\<rparr>;
             idletime = (if f_less F (idle_time s2) eventtime then eventtime else idle_time s2)
         in s2\<lparr>idle_time := f_add F idletime (calculate_bittime F s2 (length buf))\<rparr>))"

text \<open>
  The loop of \<open>command_event\<close>: \<open>None\<close> when the rounds given are not enough. \<open>PR_NOW\<close> is recognised by the
  comparison of the C code.
\<close>

fun command_loop :: "nat \<Rightarrow> ('t, ('t, 'a) serialqueue_scheme) sq_env \<Rightarrow> 't \<Rightarrow> u8 list \<Rightarrow> ('t, 'a) serialqueue_scheme
    \<Rightarrow> (('t, 'a) serialqueue_scheme, 't) res option" where
  "command_loop 0 E eventtime buf s = None"
| "command_loop (Suc fuel) E eventtime buf s =
     (let F = env_fp E;
          (waketime, s1) = check_send_command F (length buf) eventtime s;
          now = f_eq F waketime (PR_NOW F);
          full = length buf + MESSAGE_MAX > MESSAGE_MAX * MAX_PENDING_BLOCKS;
          s2 = (if \<not> now \<or> full then flush_blocks E eventtime buf s1 else s1);
          buf = (if \<not> now \<or> full then [] else buf)
      in if \<not> now then Some (Ret waketime s2)
         else
           (case build_and_send_command F (length buf) eventtime s2 of
              Ret block s3 \<Rightarrow> command_loop fuel E eventtime (buf @ block) s3
            | Shut e s3 \<Rightarrow> Some (Shut e s3)
            | Fault \<Rightarrow> Some Fault))"

definition command_event :: "nat \<Rightarrow> ('t, ('t, 'a) serialqueue_scheme) sq_env \<Rightarrow> 't \<Rightarrow> ('t, 'a) serialqueue_scheme
    \<Rightarrow> (('t, 'a) serialqueue_scheme, 't) res option" where
  "command_event fuel E eventtime s = command_loop fuel E eventtime [] s"

section \<open>Interface\<close>

definition serialqueue_alloc :: "'t fp \<Rightarrow> fd_type \<Rightarrow> u32 \<Rightarrow> 't serialqueue" where
  "serialqueue_alloc F fd cid =
     (let z = f_lit F ''0.''; debug = (fd = SQT_DEBUGFILE)
      in pollreactor.extend
           (pollreactor_add_timer F SQPT_COMMAND (pollreactor_add_timer F SQPT_RETRANSMIT (pollreactor_alloc F)))
           \<lparr>serial_fd_type = fd, client_id = cid, input_buf = replicate INPUT_BUF_SIZE 0, need_sync = False, input_pos = 0,
             receive_waiting = False, receive_window = 0, bittime_adjust = z, idle_time = z,
             sq_ce = \<lparr>ce_last_clock = 0, ce_conv_clock = 0, ce_conv_time = z, ce_est_freq = z\<rparr>,
             last_receive_sent_time = z, send_seq = 1, receive_seq = (if debug then - 1 else 1), ignore_nak_seq = 0,
             last_ack_seq = 0, retransmit_seq = 0, rtt_sample_seq = 0, sent_queue = [], srtt = z, rttvar = z,
             rto = (if debug then PR_NEVER F else f_lit F ''0.025''), pending_queues = [],
             cqs = (\<lambda>_. \<lparr>upcoming_queue = [], ready_queue = []\<rparr>), ready_bytes = 0, upcoming_bytes = 0,
             need_ack_bytes = 0, last_ack_bytes = 0, need_kick_clock = MAX_CLOCK64, notify_queue = [],
             last_write_fail_time = z, receive_queue = [], fast_readers = [],
             old_sent = debug_queue_alloc F DEBUG_QUEUE_SENT, old_receive = debug_queue_alloc F DEBUG_QUEUE_RECEIVE,
             bytes_write = 0, bytes_read = 0, bytes_retransmit = 0, bytes_invalid = 0, wire = [], can_wire = [],
             kicks = 0, wakes = 0, reads = 0, writes = 0\<rparr>)"

text \<open>
  Ending the background thread: joining it is the end of \<open>background_thread\<close>. \<open>serialqueue_free\<close> empties
  the queues, those of the pending command queues too.
\<close>

definition serialqueue_exit :: "('t, 'a) serialqueue_scheme \<Rightarrow> ('t, 'a) serialqueue_scheme" where
  "serialqueue_exit s = kick_bg_thread (pollreactor_do_exit s)"

definition serialqueue_alloc_commandqueue :: command_queue where
  "serialqueue_alloc_commandqueue = \<lparr>upcoming_queue = [], ready_queue = []\<rparr>"

definition serialqueue_free :: "('t, 'a) serialqueue_scheme \<Rightarrow> ('t, 'a) serialqueue_scheme" where
  "serialqueue_free s =
     (let s1 = (if pollreactor_is_exit s then s else serialqueue_exit s)
      in s1\<lparr>sent_queue := [], receive_queue := [], notify_queue := [], old_sent := [], old_receive := [],
            cqs := (\<lambda>q. if q \<in> set (pending_queues s1) then serialqueue_alloc_commandqueue else cqs s1 q),
            pending_queues := []\<rparr>)"

definition serialqueue_add_fastreader :: "fastreader \<Rightarrow> ('t, 'a) serialqueue_scheme \<Rightarrow> ('t, 'a) serialqueue_scheme" where
  "serialqueue_add_fastreader fr s = s\<lparr>fast_readers := fast_readers s @ [fr]\<rparr>"

definition serialqueue_rm_fastreader :: "fastreader \<Rightarrow> ('t, 'a) serialqueue_scheme \<Rightarrow> ('t, 'a) serialqueue_scheme" where
  "serialqueue_rm_fastreader fr s = s\<lparr>fast_readers := filter (\<lambda>f. fr_id f \<noteq> fr_id fr) (fast_readers s)\<rparr>"

text \<open>A message may be sent at most \<open>2 ^ 31\<close> ticks before it is required.\<close>

definition fix_min_clock :: "queue_message \<Rightarrow> queue_message" where
  "fix_min_clock qm =
     (if min_clock qm + 0x80000000 < req_clock qm \<and> req_clock qm \<noteq> BACKGROUND_PRIORITY_CLOCK
      then qm\<lparr>min_clock := req_clock qm - 0x80000000\<rparr> else qm)"

definition serialqueue_send_batch :: "nat \<Rightarrow> queue_message list \<Rightarrow> ('t, 'a) serialqueue_scheme \<Rightarrow> ('t, 'a) serialqueue_scheme" where
  "serialqueue_send_batch q msgs s =
     (let msgs = map fix_min_clock msgs; len = sum_list (map qm_len msgs)
      in if len = 0 then s
         else
           (let c = cqs s q;
                s1 = (if cq_empty c then s\<lparr>pending_queues := pending_queues s @ [q]\<rparr> else s);
                s2 = set_cq q (c\<lparr>upcoming_queue := upcoming_queue c @ msgs\<rparr>) s1;
                s3 = s2\<lparr>upcoming_bytes := upcoming_bytes s2 + int len\<rparr>
            in if min_clock (hd msgs) < need_kick_clock s3 then kick_bg_thread (s3\<lparr>need_kick_clock := 0\<rparr>) else s3))"

definition serialqueue_send_one :: "nat \<Rightarrow> queue_message \<Rightarrow> ('t, 'a) serialqueue_scheme \<Rightarrow> ('t, 'a) serialqueue_scheme" where
  "serialqueue_send_one q qm s = serialqueue_send_batch q [qm] s"

definition serialqueue_send :: "nat \<Rightarrow> u8 list \<Rightarrow> u64 \<Rightarrow> u64 \<Rightarrow> u64 \<Rightarrow> ('t, 'a) serialqueue_scheme
    \<Rightarrow> (('t, 'a) serialqueue_scheme, unit) res" where
  "serialqueue_send q msg minc reqc nid s =
     (case message_fill msg of
        None \<Rightarrow> Fault
      | Some qm \<Rightarrow> Ret () (serialqueue_send_one q (qm\<lparr>min_clock := minc, req_clock := reqc, notify_id := nid\<rparr>) s))"

text \<open>
  One turn of the loop in \<open>serialqueue_pull\<close>: wait for the condition, the end of the background thread, or
  a message.
\<close>

datatype 't pull = Pull_wait | Pull_exit | Pull_msg "'t timed_message"

definition serialqueue_pull :: "('t, 'a) serialqueue_scheme \<Rightarrow> 't pull \<times> ('t, 'a) serialqueue_scheme" where
  "serialqueue_pull s =
     (case receive_queue s of
        [] \<Rightarrow> if pollreactor_is_exit s then (Pull_exit, s) else (Pull_wait, s\<lparr>receive_waiting := True\<rparr>)
      | qm # rest \<Rightarrow>
          (let s1 = s\<lparr>receive_queue := rest\<rparr>
           in (Pull_msg qm,
               if tm_len qm \<noteq> 0 then s1\<lparr>old_receive := debug_queue_add (old_receive s1) qm\<rparr> else s1)))"

definition serialqueue_set_wire_frequency :: "'t fp \<Rightarrow> 't \<Rightarrow> ('t, 'a) serialqueue_scheme \<Rightarrow> ('t, 'a) serialqueue_scheme" where
  "serialqueue_set_wire_frequency F freq s =
     s\<lparr>bittime_adjust := f_div F (if serial_fd_type s = SQT_CAN then f_lit F ''1.'' else f_lit F ''10.'') freq\<rparr>"

definition serialqueue_set_receive_window :: "int \<Rightarrow> ('t, 'a) serialqueue_scheme \<Rightarrow> ('t, 'a) serialqueue_scheme" where
  "serialqueue_set_receive_window w s = s\<lparr>receive_window := w\<rparr>"

definition serialqueue_set_clock_est :: "'t \<Rightarrow> 't \<Rightarrow> u64 \<Rightarrow> u64 \<Rightarrow> ('t, 'a) serialqueue_scheme \<Rightarrow> ('t, 'a) serialqueue_scheme" where
  "serialqueue_set_clock_est freq conv_time conv_clock last_clock s =
     s\<lparr>sq_ce := \<lparr>ce_last_clock = last_clock, ce_conv_clock = conv_clock, ce_conv_time = conv_time, ce_est_freq = freq\<rparr>\<rparr>"

definition serialqueue_get_clock_est :: "('t, 'a) serialqueue_scheme \<Rightarrow> 't clock_estimate" where
  "serialqueue_get_clock_est s = sq_ce s"

text \<open>The messages handed out; the debug queue is filled with empty ones again.\<close>

definition serialqueue_extract_old :: "'t fp \<Rightarrow> bool \<Rightarrow> nat \<Rightarrow> ('t, 'a) serialqueue_scheme
    \<Rightarrow> 't timed_message list \<times> ('t, 'a) serialqueue_scheme" where
  "serialqueue_extract_old F sentq max_n s =
     (let replacement = debug_queue_alloc F (if sentq then DEBUG_QUEUE_SENT else DEBUG_QUEUE_RECEIVE);
          current = (if sentq then old_sent s else old_receive s)
      in (take max_n (filter (\<lambda>qm. tm_len qm \<noteq> 0) current),
          if sentq then s\<lparr>old_sent := replacement\<rparr> else s\<lparr>old_receive := replacement\<rparr>))"

text \<open>Freeing a queue: refused while it holds messages.\<close>

definition serialqueue_free_commandqueue :: "nat \<Rightarrow> ('t, 'a) serialqueue_scheme \<Rightarrow> bool" where
  "serialqueue_free_commandqueue q s = cq_empty (cqs s q)"

text \<open>The background thread: the event loop with the callbacks of this file, and a last wake-up.\<close>

definition sq_timer :: "nat \<Rightarrow> ('t, ('t, 'a) serialqueue_scheme) sq_env \<Rightarrow> nat \<Rightarrow> 't \<Rightarrow> ('t, 'a) serialqueue_scheme
    \<Rightarrow> (('t, 'a) serialqueue_scheme, 't) res" where
  "sq_timer fuel E pos eventtime s =
     (if pos = SQPT_RETRANSMIT then retransmit_event E eventtime s
      else case command_event fuel E eventtime s of None \<Rightarrow> Fault | Some r \<Rightarrow> r)"

text \<open>\<open>rd t\<close> is what the serial descriptor gives when it is read at the time \<open>t\<close>.\<close>

definition sq_fd :: "('t, ('t, 'a) serialqueue_scheme) sq_env \<Rightarrow> ('t \<Rightarrow> fd_read) \<Rightarrow> nat \<Rightarrow> 't \<Rightarrow> ('t, 'a) serialqueue_scheme
    \<Rightarrow> (('t, 'a) serialqueue_scheme, unit) res" where
  "sq_fd E rd pos eventtime s = (if pos = 0 then input_event E (rd eventtime) eventtime s else kick_event E eventtime s)"

definition background_thread :: "nat \<Rightarrow> ('t, ('t, 'a) serialqueue_scheme) sq_env \<Rightarrow> ('t \<Rightarrow> fd_read) \<Rightarrow> 't poll_result list \<Rightarrow> 't
    \<Rightarrow> ('t, 'a) serialqueue_scheme \<Rightarrow> (('t, 'a) serialqueue_scheme, unit) res" where
  "background_thread fuel E rd polls eventtime s =
     bnd (pollreactor_run (env_fp E) (sq_timer fuel E) (sq_fd E rd) 2 polls eventtime True s)
       (\<lambda>_ s. Ret () (check_wake_receive s))"

end
