(* ===== verification/Serialqueue_Props.thy ===== *)
theory Serialqueue_Props
  imports Serialqueue Framing
begin

text \<open>
  Properties of the host's end of the link: sequence numbers on the wire, the window of blocks that wait
  for an acknowledgement, the queues of commands, and the loops.
\<close>

section \<open>Sequence numbers\<close>

text \<open>The sequence byte of block number \<open>n\<close>.\<close>

definition seq_byte :: "nat \<Rightarrow> u8" where
  "seq_byte n = MESSAGE_DEST OR (of_nat n AND MESSAGE_SEQ_MASK)"

lemma and_15: "w AND (15 :: 'a::len word) = take_bit 4 w"
proof -
  have "(15 :: 'a word) = mask 4" by (simp add: mask_eq_exp_minus_1)
  then show ?thesis by (simp only: take_bit_eq_mask)
qed

lemma unat_take_bit_4: "unat (take_bit 4 (w :: 'a::len word)) = unat w mod 16"
  unfolding unsigned_take_bit_eq by (simp add: take_bit_eq_mod)

lemma seq_byte_bits: "seq_byte n = 16 + of_nat (n mod 16)"
proof -
  have "unat (take_bit 4 (of_nat n :: u8)) = unat (of_nat (n mod 16) :: u8)"
    unfolding unat_take_bit_4 by (simp add: unsigned_of_nat take_bit_eq_mod mod_mod_cancel)
  then have "of_nat n AND (15 :: u8) = of_nat (n mod 16)"
    unfolding and_15 word_unat_eq_iff .
  moreover have "16 OR of_nat (n mod 16) = (16 :: u8) + of_nat (n mod 16)"
  proof (rule disjunctive_add [symmetric])
    fix k
    have "(16 :: u8) = 2 ^ 4" by simp
    then have "bit (16 :: u8) k \<longrightarrow> k = 4" by (simp only: bit_exp_iff) blast
    moreover have "\<not> bit (of_nat (n mod 16) :: u8) 4"
    proof -
      have "unat (of_nat (n mod 16) :: u8) = n mod 16" by (simp add: unsigned_of_nat take_bit_nat_eq_self_iff less_imp_le_nat)
      then have "unat (of_nat (n mod 16) :: u8) div 16 = 0" by simp
      then have "\<not> bit (unat (of_nat (n mod 16) :: u8)) 4" by (simp only: bit_iff_odd) simp
      then show ?thesis by (simp only: bit_unsigned_iff) simp
    qed
    ultimately show "\<not> bit (16 :: u8) k \<or> \<not> bit (of_nat (n mod 16) :: u8) k" by blast
  qed
  ultimately show ?thesis by (simp add: seq_byte_def message_consts)
qed

lemma unat_seq_byte: "unat (seq_byte n) = 16 + n mod 16"
proof -
  have "n mod 16 < 16" by simp
  then show ?thesis unfolding seq_byte_bits by (simp add: unsigned_of_nat unat_word_ariths take_bit_nat_eq_self)
qed

lemma seq_byte_eq: "seq_byte n = seq_byte m \<longleftrightarrow> n mod 16 = m mod 16"
  by (simp add: word_unat_eq_iff unat_seq_byte)

lemma seq_byte_Suc: "((seq_byte n + 1) AND MESSAGE_SEQ_MASK) OR MESSAGE_DEST = seq_byte (Suc n)"
proof -
  have "unat (take_bit 4 (seq_byte n + 1)) = unat (take_bit 4 (of_nat (Suc n) :: u8))"
  proof -
    have 1: "unat (seq_byte n + 1) = 17 + n mod 16" using unat_seq_byte [of n] by (simp add: unat_word_ariths)
    have 2: "unat (of_nat (Suc n) :: u8) mod 16 = Suc n mod 16"
      by (simp only: unsigned_of_nat) (simp add: take_bit_eq_mod mod_mod_cancel del: of_nat_Suc)
    have "(17 + n mod 16) mod 16 = (Suc n + 16) mod 16" by (simp add: mod_add_right_eq)
    then have 3: "(17 + n mod 16) mod 16 = Suc n mod 16" by (simp only: mod_add_self2)
    show ?thesis unfolding unat_take_bit_4 1 2 3 ..
  qed
  then have "(seq_byte n + 1) AND 15 = of_nat (Suc n) AND (15 :: u8)" unfolding and_15 word_unat_eq_iff .
  then show ?thesis unfolding seq_byte_def [of "Suc n"] by (simp only: message_consts or.commute)
qed

lemma mod16_cancel: "(x + r) mod 16 = (r + d) mod (16 :: nat) \<Longrightarrow> x mod 16 = d mod 16"
  using mod_add_cong [of "x + r" 16 "r + d" "15 * r" "15 * r"] by (simp add: add.commute add.assoc flip: mult_Suc)

text \<open>
  The number of a received block from its sequence byte, relative to the number \<open>r\<close> expected: right as long as
  it is less than 16 ahead.
\<close>

lemma receive_delta:
  assumes "unat r \<le> c" "c < unat r + 16" "c < 2 ^ 64"
  shows "r + ((ucast (seq_byte c) - r) AND ucast MESSAGE_SEQ_MASK) = (of_nat c :: u64)"
proof -
  have m: "(ucast MESSAGE_SEQ_MASK :: u64) = 15" by (simp add: message_consts)
  have "unat (ucast (seq_byte c) - r) mod 16 = (c - unat r)"
  proof -
    have u: "unat (ucast (seq_byte c) :: u64) = 16 + c mod 16" using unat_ucast_up [of "seq_byte c", where 'b = 64] unat_seq_byte by simp
    have "(unat (ucast (seq_byte c) - r) + unat r) mod 16 = (unat (ucast (seq_byte c) :: u64)) mod 16"
    proof -
      have "unat r < 2 ^ 64" using unsigned_less [of r] by simp
      then have "unat (ucast (seq_byte c) - r) + unat r = unat (ucast (seq_byte c) :: u64) \<or>
          unat (ucast (seq_byte c) - r) + unat r = 1152921504606846976 * 16 + unat (ucast (seq_byte c) :: u64)"
        unfolding unat_minus_wrap by auto
      then show ?thesis by (elim disjE) (simp_all only: mod_mult_self3)
    qed
    then have "(unat (ucast (seq_byte c) - r) + unat r) mod 16 = (16 + c) mod 16" unfolding u by (simp only: mod_add_right_eq)
    then have "(unat (ucast (seq_byte c) - r) + unat r) mod 16 = (unat r + (c - unat r)) mod 16" using assms(1) by simp
    then have "unat (ucast (seq_byte c) - r) mod 16 = (c - unat r) mod 16" by (rule mod16_cancel)
    then show ?thesis using assms(1,2) by simp
  qed
  then have d: "unat ((ucast (seq_byte c) - r) AND 15) = c - unat r" unfolding and_15 unat_take_bit_4 .
  have "of_nat (unat ((ucast (seq_byte c) - r) AND 15)) = (ucast (seq_byte c) - r) AND 15" by simp
  then have "(ucast (seq_byte c) - r) AND 15 = of_nat (c - unat r)" unfolding d by simp
  then show ?thesis unfolding m using assms(1) by (simp add: of_nat_diff)
qed

lemma seq_byte_dest: "seq_byte n AND NOT MESSAGE_SEQ_MASK = MESSAGE_DEST"
  unfolding seq_byte_def by (rule bit_word_eqI) (auto simp: message_consts bit_simps mask_bits)

lemma seq_byte_ucast: "MESSAGE_DEST OR (ucast (w :: u64) AND MESSAGE_SEQ_MASK) = seq_byte (unat w)"
  by (simp add: seq_byte_def)

section \<open>The window of unacknowledged blocks\<close>

text \<open>The message holds block number \<open>n\<close> with the payload \<open>pay\<close>.\<close>

definition holds_block :: "nat \<Rightarrow> u8 list \<Rightarrow> 't timed_message \<Rightarrow> bool" where
  "holds_block n pay m \<longleftrightarrow> length pay \<le> MESSAGE_PAYLOAD_MAX \<and> msg_bytes m = frame (seq_byte n) pay \<and> tm_len m = length pay + 5"

text \<open>
  \<open>pays\<close> are the payloads of the blocks that wait for an acknowledgement.
\<close>

definition link_ok :: "('t, 'a) serialqueue_scheme \<Rightarrow> u8 list list \<Rightarrow> bool" where
  "link_ok s pays \<longleftrightarrow>
     unat (send_seq s) = unat (receive_seq s) + length pays \<and> length pays \<le> MAX_PENDING_BLOCKS \<and>
     list_all2 (\<lambda>(n, pay) m. holds_block n pay m) (zip [unat (receive_seq s)..<unat (send_seq s)] pays) (sent_queue s) \<and>
     need_ack_bytes s = int (sum_list (map tm_len (sent_queue s)))"

text \<open>What the link depends on.\<close>

definition link_state :: "('t, 'a) serialqueue_scheme \<Rightarrow> u64 \<times> u64 \<times> 't timed_message list \<times> int" where
  "link_state s = (send_seq s, receive_seq s, sent_queue s, need_ack_bytes s)"

lemma link_ok_cong: "link_state s' = link_state s \<Longrightarrow> link_ok s' pays = link_ok s pays"
  by (simp add: link_ok_def link_state_def)

lemma link_okD:
  assumes "link_ok s pays"
  shows "length (sent_queue s) = length pays" "unat (send_seq s) = unat (receive_seq s) + length pays"
    "length pays \<le> MAX_PENDING_BLOCKS"
    "i < length pays \<Longrightarrow> holds_block (unat (receive_seq s) + i) (pays ! i) (sent_queue s ! i)"
proof -
  have l: "length (zip [unat (receive_seq s)..<unat (send_seq s)] pays) = length pays" using assms by (simp add: link_ok_def)
  show "length (sent_queue s) = length pays" using assms l list_all2_lengthD unfolding link_ok_def by metis
  show "unat (send_seq s) = unat (receive_seq s) + length pays" "length pays \<le> MAX_PENDING_BLOCKS" using assms by (simp_all add: link_ok_def)
  assume "i < length pays"
  then show "holds_block (unat (receive_seq s) + i) (pays ! i) (sent_queue s ! i)"
    using assms l by (auto simp: link_ok_def list_all2_conv_all_nth)
qed

lemma upd_timer_link [simp]:
  "link_state (upd_timer F p w s) = link_state s" "send_seq (upd_timer F p w s) = send_seq s"
  "receive_seq (upd_timer F p w s) = receive_seq s" "sent_queue (upd_timer F p w s) = sent_queue s"
  "need_ack_bytes (upd_timer F p w s) = need_ack_bytes s"
  by (simp_all add: pollreactor_update_timer_def link_state_def)

lemma update_rtt_link [simp]: "link_state (update_rtt F t rseq s) = link_state s"
  by (simp add: update_rtt_def link_state_def Let_def)

lemma pop_sent_link:
  assumes "0 < d" "d < 2 ^ 64"
  shows "link_state (pop_sent F (r + of_nat d) r sent s) =
    (if d \<le> length sent
     then (send_seq s, receive_seq s, drop d sent, need_ack_bytes s - int (sum_list (map tm_len (take d sent))))
     else (r + of_nat d, receive_seq s, [], need_ack_bytes s - int (sum_list (map tm_len sent))))"
  using assms
proof (induction sent arbitrary: d r s)
  case (Cons m sent)
  have e: "r + of_nat d = r + 1 \<longleftrightarrow> d = 1"
  proof -
    have "unat (of_nat d :: u64) = d" using Cons.prems(2) by (simp add: unsigned_of_nat take_bit_nat_eq_self)
    then have "(of_nat d :: u64) = 1 \<longleftrightarrow> d = 1" by (metis of_nat_1 unat_1)
    then show ?thesis by simp
  qed
  show ?case
  proof (cases "d = 1")
    case True
    then show ?thesis by (simp add: Let_def link_state_def)
  next
    case False
    then obtain k where k: "d = Suc k" "0 < k" using Cons.prems(1) by (cases d) simp_all
    have "r + 1 + of_nat k = r + of_nat d" by (simp add: k(1))
    note ih = Cons.IH [OF k(2), of "r + 1", unfolded this]
    let ?s1 = "s\<lparr>need_ack_bytes := need_ack_bytes s - int (tm_len m), sent_queue := sent,
      old_sent := debug_queue_add (old_sent s) m\<rparr>"
    have "pop_sent F (r + of_nat d) r (m # sent) s = pop_sent F (r + of_nat d) (r + 1) sent ?s1" using e False by (simp add: Let_def)
    then show ?thesis using ih [of ?s1] Cons.prems(2) by (simp add: k(1) del: of_nat_Suc)
  qed
qed (simp add: link_state_def)

lemma update_receive_link:
  assumes "link_ok s pays" "0 < d" "unat (receive_seq s) + d < 2 ^ 64" "rseq = receive_seq s + of_nat d"
  shows "link_ok (update_receive_seq F t rseq s) (drop d pays)" "receive_seq (update_receive_seq F t rseq s) = rseq"
    "d \<le> length pays \<Longrightarrow> send_seq (update_receive_seq F t rseq s) = send_seq s"
proof -
  let ?s' = "update_receive_seq F t rseq s"
  have d: "d < 2 ^ 64" using assms(3) by simp
  note p = pop_sent_link [OF assms(2) d, of F "receive_seq s" "sent_queue s" s]
  let ?p = "pop_sent F rseq (receive_seq s) (sent_queue s) s"
  have l: "link_state ?s' = link_state (?p\<lparr>receive_seq := rseq\<rparr>)"
    by (simp add: update_receive_seq_def Let_def split: list.split)
  have r: "unat rseq = unat (receive_seq s) + d" using assms(3) d unfolding assms(4) by (simp add: unat_word_ariths unsigned_of_nat take_bit_nat_eq_self)
  note w = link_okD [OF assms(1)]
  show "receive_seq ?s' = rseq" using l by (simp add: link_state_def)
  show send: "send_seq ?s' = send_seq s" if "d \<le> length pays"
    using l p that w(1) assms(4) by (simp add: link_state_def)
  show "link_ok ?s' (drop d pays)"
  proof (cases "d \<le> length pays")
    case True
    have "sent_queue ?s' = drop d (sent_queue s)" "need_ack_bytes ?s' = int (sum_list (map tm_len (drop d (sent_queue s))))"
      using l p True w(1) assms(1,4)
        sum_list_append [of "map tm_len (take d (sent_queue s))" "map tm_len (drop d (sent_queue s))"]
      by (simp_all add: link_state_def link_ok_def flip: map_append)
    moreover have "zip [unat rseq..<unat (send_seq s)] (drop d pays) = drop d (zip [unat (receive_seq s)..<unat (send_seq s)] pays)"
      unfolding r by (simp add: drop_zip drop_upt)
    moreover have "length pays - d \<le> MAX_PENDING_BLOCKS" using w(3) by linarith
    ultimately show ?thesis
      using assms(1) w(2) r True \<open>receive_seq ?s' = rseq\<close> send [OF True]
      by (simp add: link_ok_def list_all2_dropI)
  next
    case False
    then have "sent_queue ?s' = []" "need_ack_bytes ?s' = 0" "send_seq ?s' = rseq"
      using l p w(1) assms(1,4) by (simp_all add: link_state_def link_ok_def)
    then show ?thesis using False \<open>receive_seq ?s' = rseq\<close> by (simp add: link_ok_def)
  qed
qed

section \<open>Building blocks\<close>

lemma make_block_frame:
  assumes "length pay \<le> MESSAGE_PAYLOAD_MAX"
  shows "make_block seq pay = frame (seq_byte (unat seq)) pay"
proof -
  have b: "ucast (crc AND 0xff) = (ucast crc :: u8)" for crc :: u16
  proof (rule bit_word_eqI)
    fix n assume "n < LENGTH(8)"
    then have "bit (255 :: u16) n"
      using bit_mask_iff [where ?'a = "16 word", of 8 n] by (simp add: mask_eq_exp_minus_1 possible_bit_def)
    then show "bit (ucast (crc AND 0xff) :: u8) n = bit (ucast crc :: u8) n" by (simp add: bit_simps)
  qed
  have h: "of_nat (MESSAGE_HEADER_SIZE + length pay + MESSAGE_TRAILER_SIZE) # seq_byte (unat seq) # pay = frame_head (seq_byte (unat seq)) pay"
    by (simp add: frame_head_def message_consts add.commute)
  have l: "MESSAGE_HEADER_SIZE + length pay + MESSAGE_TRAILER_SIZE - MESSAGE_TRAILER_SIZE = length (frame_head (seq_byte (unat seq)) pay)"
    by (simp add: frame_head_def message_consts)
  show ?thesis
    unfolding make_block_def Let_def seq_byte_ucast h l b msgblock_crc16_ccitt_def frame_def by simp
qed

lemma take_ready_link [simp]: "link_state (take_ready q qm s) = link_state s"
  by (simp add: take_ready_def link_state_def set_cq_def Let_def)

lemma fill_block_link:
  assumes "fill_block n pay s = Ret pay' s'" "length pay \<le> MESSAGE_PAYLOAD_MAX"
  shows "link_state s' = link_state s \<and> length pay' \<le> MESSAGE_PAYLOAD_MAX"
  using assms
proof (induction n arbitrary: pay s)
  case 0
  then show ?case by (subst (asm) fill_block.simps) (simp split: if_splits)
next
  case (Suc n)
  note u = fill_block.simps [of "Suc n" pay s]
  show ?case
  proof (cases "ready_bytes s = 0")
    case True
    then show ?thesis using Suc.prems by (simp add: u)
  next
    case False
    then obtain q qm where f: "find_ready (cqs s) MAX_CLOCK64 None (pending_queues s) = Some (q, qm)"
      using Suc.prems(1) by (cases "find_ready (cqs s) MAX_CLOCK64 None (pending_queues s)") (auto simp: u)
    show ?thesis
    proof (cases "MESSAGE_HEADER_SIZE + length pay + qm_len qm > MESSAGE_MAX - MESSAGE_TRAILER_SIZE")
      case True
      then show ?thesis using Suc.prems False f by (simp add: u)
    next
      case fits: False
      then have "fill_block n (pay @ take (qm_len qm) (qm_msg qm)) (take_ready q qm s) = Ret pay' s'"
        using Suc.prems(1) False f by (simp add: u)
      moreover have "length (pay @ take (qm_len qm) (qm_msg qm)) \<le> MESSAGE_PAYLOAD_MAX"
        using fits by (simp add: message_consts MESSAGE_PAYLOAD_MAX_def)
      ultimately show ?thesis using Suc.IH by fastforce
    qed
  qed
qed

lemma store_block_link:
  "link_state (store_block F p t block s) =
     (send_seq s + 1, receive_seq s, sent_queue s @ [sent_queue (store_block F p t block s) ! length (sent_queue s)],
      need_ack_bytes s + int (length block))"
  "msg_bytes (sent_queue (store_block F p t block s) ! length (sent_queue s)) = block"
  "tm_len (sent_queue (store_block F p t block s) ! length (sent_queue s)) = length block"
  by (simp_all add: store_block_def Let_def link_state_def msg_bytes_def nth_append)

text \<open>A block is sent when the window is not full.\<close>

lemma build_and_send_link:
  assumes "link_ok s pays" "length pays < MAX_PENDING_BLOCKS" "unat (send_seq s) + 1 < 2 ^ 64"
    "build_and_send_command F p t s = Ret block s'"
  shows "\<exists>pay. block = frame (seq_byte (unat (send_seq s))) pay \<and> length pay \<le> MESSAGE_PAYLOAD_MAX \<and>
    link_ok s' (pays @ [pay]) \<and> receive_seq s' = receive_seq s"
proof -
  obtain pay s1 where 1: "fill_block (n_ready s) [] s = Ret pay s1" "block = make_block (send_seq s1) pay"
    "s' = store_block F p t block s1" using assms(4) by (auto simp: build_and_send_command_def bnd_eq_Ret Let_def)
  have f: "link_state s1 = link_state s" "length pay \<le> MESSAGE_PAYLOAD_MAX" using fill_block_link [OF 1(1)] by simp_all
  then have e: "send_seq s1 = send_seq s" "receive_seq s1 = receive_seq s" "sent_queue s1 = sent_queue s"
    "need_ack_bytes s1 = need_ack_bytes s" by (simp_all add: link_state_def)
  have block: "block = frame (seq_byte (unat (send_seq s))) pay" unfolding 1(2) e make_block_frame [OF f(2)] ..
  define m where "m = sent_queue s' ! length (sent_queue s)"
  have s': "send_seq s' = send_seq s + 1" "receive_seq s' = receive_seq s" "sent_queue s' = sent_queue s @ [m]"
    "need_ack_bytes s' = need_ack_bytes s + int (length block)" "msg_bytes m = block" "tm_len m = length block"
    using store_block_link [of F p t block s1] unfolding 1(3) [symmetric] e m_def link_state_def by simp_all
  have u: "unat (send_seq s + 1) = Suc (unat (send_seq s))" using assms(3) by (simp add: unat_word_ariths)
  have "holds_block (unat (send_seq s)) pay m" using s'(5,6) block f(2) by (simp add: holds_block_def)
  moreover have "zip [unat (receive_seq s)..<unat (send_seq s + 1)] (pays @ [pay]) =
      zip [unat (receive_seq s)..<unat (send_seq s)] pays @ [(unat (send_seq s), pay)]"
    using link_okD(2) [OF assms(1)] unfolding u by simp
  moreover have "list_all2 (\<lambda>(n, pay) m. holds_block n pay m) (zip [unat (receive_seq s)..<unat (send_seq s)] pays) (sent_queue s)"
    using assms(1) unfolding link_ok_def by blast
  ultimately have "list_all2 (\<lambda>(n, pay) m. holds_block n pay m)
      (zip [unat (receive_seq s)..<unat (send_seq s + 1)] (pays @ [pay])) (sent_queue s @ [m])"
    by (simp only: list_all2_appendI list_all2_Cons list_all2_Nil simp_thms prod.case)
  moreover have "need_ack_bytes s' = int (sum_list (map tm_len (sent_queue s @ [m])))"
    using assms(1) s'(4,6) by (simp add: link_ok_def)
  ultimately have "link_ok s' (pays @ [pay])"
    using assms(2) link_okD(2) [OF assms(1)] u unfolding link_ok_def s'(1-3) by simp
  then show ?thesis using block f(2) s'(2) by blast
qed

section \<open>Sending\<close>

lemma link_state_simps:
  "link_state (s\<lparr>writes := w\<rparr>) = link_state s" "link_state (s\<lparr>reads := w\<rparr>) = link_state s"
  "link_state (s\<lparr>last_write_fail_time := t\<rparr>) = link_state s" "link_state (s\<lparr>must_exit := b\<rparr>) = link_state s"
  "link_state (s\<lparr>can_wire := cw\<rparr>) = link_state s" "link_state (s\<lparr>wire := ws\<rparr>) = link_state s"
  "link_state (s\<lparr>bytes_write := n\<rparr>) = link_state s" "link_state (s\<lparr>idle_time := t\<rparr>) = link_state s"
  "link_state (s\<lparr>need_kick_clock := c\<rparr>) = link_state s" "link_state (set_cq q cq s) = link_state s"
  "link_state (s\<lparr>upcoming_bytes := i\<rparr>) = link_state s" "link_state (s\<lparr>ready_bytes := i\<rparr>) = link_state s"
  "link_state (s\<lparr>bytes_retransmit := n\<rparr>) = link_state s" "link_state (s\<lparr>ignore_nak_seq := q64\<rparr>) = link_state s"
  "link_state (s\<lparr>rto := t\<rparr>) = link_state s" "link_state (s\<lparr>retransmit_seq := q64\<rparr>) = link_state s"
  "link_state (s\<lparr>rtt_sample_seq := q64\<rparr>) = link_state s" "link_state (s\<lparr>bytes_read := n\<rparr>) = link_state s"
  "link_state (s\<lparr>bytes_invalid := n\<rparr>) = link_state s" "link_state (s\<lparr>last_ack_seq := q64\<rparr>) = link_state s"
  "link_state (s\<lparr>receive_queue := rq\<rparr>) = link_state s" "link_state (s\<lparr>notify_queue := nq\<rparr>) = link_state s"
  "link_state (s\<lparr>need_sync := b\<rparr>) = link_state s" "link_state (s\<lparr>input_pos := k\<rparr>) = link_state s"
  "link_state (s\<lparr>input_buf := ib\<rparr>) = link_state s" "link_state (check_wake_receive s) = link_state s"
  by (simp_all add: link_state_def set_cq_def check_wake_receive_def)

lemma write_can_link: "link_state (write_can n E buf s) = link_state s"
proof (induction n arbitrary: buf s)
  case 0
  then show ?case by (subst write_can.simps) simp
next
  case (Suc n)
  show ?case
    by (subst write_can.simps) (simp add: Let_def Suc.IH get_monotonic_def pollreactor_do_exit_def link_state_simps)
qed

lemma do_write_link [simp]: "link_state (do_write E buf s) = link_state s"
  using write_can_link [of "length buf" E buf s] by (simp add: do_write_def link_state_def)

lemma ready_loop_link: "link_state (snd (snd (ready_loop ack bg qs st rd s))) = link_state s"
proof (induction qs arbitrary: st rd s)
  case (Cons q qs)
  have "link_state (move_ready ack q s) = link_state s" by (simp add: move_ready_def Let_def link_state_simps)
  then show ?case using Cons.IH by (simp add: Let_def)
qed simp

lemma check_send_link: "link_state (snd (check_send_command F p t s)) = link_state s"
  unfolding check_send_command_def Let_def by (simp add: split_beta link_state_simps ready_loop_link)

lemma flush_blocks_link [simp]: "link_state (flush_blocks E t buf s) = link_state s"
  by (simp add: flush_blocks_def Let_def link_state_simps)

text \<open>A block is only sent while fewer than \<open>MAX_PENDING_BLOCKS\<close> wait for an acknowledgement.\<close>

lemma window_open:
  assumes "link_ok s pays" "receive_seq s \<noteq> - 1" "\<not> window_full s"
  shows "length pays < MAX_PENDING_BLOCKS"
proof -
  have "receive_seq s \<le> send_seq s" using link_okD(2) [OF assms(1)] by (simp add: word_le_nat_alt)
  then have "unat (send_seq s - receive_seq s) = length pays" using link_okD(2) [OF assms(1)] by (simp add: unat_sub)
  moreover have "send_seq s - receive_seq s < of_nat MAX_PENDING_BLOCKS" using assms(2,3) by (auto simp: window_full_def)
  ultimately show ?thesis by (simp add: word_less_nat_alt MAX_PENDING_BLOCKS_def)
qed

lemma check_send_now:
  assumes "f_eq F (fst (check_send_command F p t s)) (PR_NOW F)" "\<not> f_eq F (PR_NEVER F) (PR_NOW F)"
  shows "\<not> window_full s"
  using assms by (auto simp: check_send_command_def)

text \<open>\<open>command_event\<close> ends after at most 13 rounds and keeps the window.\<close>

lemma command_loop_link:
  assumes "link_ok s pays" "receive_seq s \<noteq> - 1" "unat (receive_seq s) + MAX_PENDING_BLOCKS + 1 < 2 ^ 64"
    "\<not> f_eq (env_fp E) (PR_NEVER (env_fp E)) (PR_NOW (env_fp E))" "MAX_PENDING_BLOCKS - length pays < fuel"
  shows "\<exists>r. command_loop fuel E t buf s = Some r \<and>
    (\<forall>w s'. r = Ret w s' \<longrightarrow> receive_seq s' = receive_seq s \<and> (\<exists>new. link_ok s' (pays @ new)))"
  using assms
proof (induction fuel arbitrary: pays buf s)
  case (Suc fuel)
  let ?F = "env_fp E"
  obtain w s1 where 1: "check_send_command ?F (length buf) t s = (w, s1)" by fastforce
  have l1: "link_state s1 = link_state s" using check_send_link [of ?F "length buf" t s] 1 by simp
  let ?now = "f_eq ?F w (PR_NOW ?F)" and ?full = "length buf + MESSAGE_MAX > MESSAGE_MAX * MAX_PENDING_BLOCKS"
  define s2 where "s2 = (if \<not> ?now \<or> ?full then flush_blocks E t buf s1 else s1)"
  define buf2 where "buf2 = (if \<not> ?now \<or> ?full then [] else buf)"
  have l2: "link_state s2 = link_state s" using l1 by (simp add: s2_def)
  then have ok2: "link_ok s2 pays" "receive_seq s2 = receive_seq s" "send_seq s2 = send_seq s"
    using Suc.prems(1) link_ok_cong by (auto simp: link_state_def)
  have u: "command_loop (Suc fuel) E t buf s = (if \<not> ?now then Some (Ret w s2)
      else case build_and_send_command ?F (length buf2) t s2 of
        Ret block s3 \<Rightarrow> command_loop fuel E t (buf2 @ block) s3 | Shut e s3 \<Rightarrow> Some (Shut e s3) | Fault \<Rightarrow> Some Fault)"
    unfolding command_loop.simps Let_def 1 prod.case s2_def buf2_def by (rule refl)
  show ?case
  proof (cases ?now)
    case False
    then show ?thesis using ok2 by (intro exI [of _ "Ret w s2"]) (auto simp: u simp del: command_loop.simps intro: exI [of _ "[]"])
  next
    case True
    have room: "length pays < MAX_PENDING_BLOCKS"
      using window_open [OF Suc.prems(1,2)] check_send_now [of ?F "length buf" t s] True Suc.prems(4) 1 by simp
    show ?thesis
    proof (cases "build_and_send_command ?F (length buf2) t s2")
      case (Ret block s3)
      have "unat (send_seq s2) + 1 < 2 ^ 64" using link_okD(2) [OF Suc.prems(1)] ok2(3) room Suc.prems(3) by simp
      from build_and_send_link [OF ok2(1) room this Ret] obtain pay where
        3: "link_ok s3 (pays @ [pay])" "receive_seq s3 = receive_seq s" using ok2(2) by auto
      have "MAX_PENDING_BLOCKS - length (pays @ [pay]) < fuel" using Suc.prems(5) room by simp
      from Suc.IH [OF 3(1) _ _ Suc.prems(4) this, of "buf2 @ block"] 3(2) Suc.prems(2,3) obtain r where
        4: "command_loop fuel E t (buf2 @ block) s3 = Some r"
          "\<forall>w s'. r = Ret w s' \<longrightarrow> receive_seq s' = receive_seq s \<and> (\<exists>new. link_ok s' ((pays @ [pay]) @ new))" by (auto simp del: command_loop.simps)
      then show ?thesis using True Ret by (intro exI [of _ r]) (auto simp: u simp del: command_loop.simps)
    qed (use True in \<open>simp_all add: u del: command_loop.simps\<close>)
  qed
qed simp

section \<open>Retransmission\<close>

text \<open>The blocks with the payloads \<open>pays\<close>, numbered from \<open>r\<close>.\<close>

definition frames_from :: "nat \<Rightarrow> u8 list list \<Rightarrow> u8 list list" where
  "frames_from r pays = map (\<lambda>(n, pay). frame (seq_byte n) pay) (zip [r..<r + length pays] pays)"

lemma sent_frames:
  assumes "link_ok s pays"
  shows "map msg_bytes (sent_queue s) = frames_from (unat (receive_seq s)) pays"
proof (rule nth_equalityI)
  note w = link_okD [OF assms]
  show "length (map msg_bytes (sent_queue s)) = length (frames_from (unat (receive_seq s)) pays)"
    using w(1) by (simp add: frames_from_def)
  fix i assume "i < length (map msg_bytes (sent_queue s))"
  then have i: "i < length pays" using w(1) by simp
  then show "map msg_bytes (sent_queue s) ! i = frames_from (unat (receive_seq s)) pays ! i"
    using w(1) w(4) [OF i] by (simp add: frames_from_def holds_block_def)
qed

lemma frames_length:
  assumes "\<forall>pay \<in> set pays. length pay \<le> MESSAGE_PAYLOAD_MAX"
  shows "length (concat (frames_from r pays)) \<le> MESSAGE_MAX * length pays"
  using assms
proof (induction pays arbitrary: r)
  case (Cons pay pays)
  have "frames_from r (pay # pays) = frame (seq_byte r) pay # frames_from (Suc r) pays"
    by (simp add: frames_from_def upt_conv_Cons del: upt_Suc)
  moreover have "length (frame (seq_byte r) pay) \<le> MESSAGE_MAX" using Cons.prems by (simp add: MESSAGE_PAYLOAD_MAX_def message_consts)
  ultimately show ?case using Cons.IH [of "Suc r"] Cons.prems by simp
qed (simp add: frames_from_def)

lemma link_payloads: "link_ok s pays \<Longrightarrow> pay \<in> set pays \<Longrightarrow> length pay \<le> MESSAGE_PAYLOAD_MAX"
  using link_okD(4) by (fastforce simp: in_set_conv_nth holds_block_def)

lemma retransmit_link:
  assumes "link_ok s pays"
  shows "\<exists>w s'. retransmit_event E t s = Ret w s' \<and> link_state s' = link_state s \<and>
    (serial_fd_type s \<noteq> SQT_CAN \<and> wr_ok E (writes s) \<longrightarrow>
       wire s' = wire s @ [MESSAGE_SYNC # concat (frames_from (unat (receive_seq s)) pays)])"
proof -
  have e: "map msg_bytes (sent_queue s) = frames_from (unat (receive_seq s)) pays" by (rule sent_frames [OF assms])
  have "length (concat (frames_from (unat (receive_seq s)) pays)) \<le> MESSAGE_MAX * length pays"
    using frames_length link_payloads [OF assms] by blast
  also have "\<dots> \<le> MESSAGE_MAX * MAX_PENDING_BLOCKS" using link_okD(3) [OF assms] by simp
  finally have l: "\<not> length (MESSAGE_SYNC # concat (frames_from (unat (receive_seq s)) pays)) > MESSAGE_MAX * MAX_PENDING_BLOCKS + 1"
    by simp
  have w: "wire (do_write E buf s) = wire s @ [buf]" if "serial_fd_type s \<noteq> SQT_CAN" "wr_ok E (writes s)" for buf
    using that by (simp add: do_write_def)
  show ?thesis
    unfolding retransmit_event_def e Let_def if_not_P [OF l]
    by (intro exI conjI impI, rule refl) (simp_all add: link_state_simps w)
qed

section \<open>Receiving\<close>

lemma pop_notify_link: "link_state (snd (pop_notify t wk nq mw s)) = link_state s"
  by (induction t wk nq mw s rule: pop_notify.induct) (simp_all add: link_state_simps)

lemma handle_content_link: "link_state (snd (handle_content E len rseq mw s)) = link_state s"
  by (simp add: handle_content_def Let_def get_monotonic_def link_state_simps)

text \<open>The input buffer. Fast readers return and leave it and the link alone.\<close>

definition input_state :: "('t, 'a) serialqueue_scheme \<Rightarrow> u8 list \<times> nat \<times> bool" where
  "input_state s = (input_buf s, input_pos s, need_sync s)"

definition readers_ok :: "('t, ('t, 'a) serialqueue_scheme) sq_env \<Rightarrow> bool" where
  "readers_ok E \<longleftrightarrow> (\<forall>fr buf len s. \<exists>s'. call_fastreader E fr buf len s = Ret () s' \<and>
     link_state s' = link_state s \<and> input_state s' = input_state s)"

lemma input_state_simps [simp]:
  "input_state (upd_timer F p w s) = input_state s" "input_state (update_rtt F t rseq s) = input_state s"
  "input_state (check_wake_receive s) = input_state s" "input_state (s\<lparr>bytes_read := n\<rparr>) = input_state s"
  "input_state (s\<lparr>reads := r\<rparr>) = input_state s" "input_state (s\<lparr>receive_queue := rq\<rparr>) = input_state s"
  "input_state (s\<lparr>last_ack_seq := q64\<rparr>) = input_state s" "input_state (s\<lparr>receive_seq := q64\<rparr>) = input_state s"
  "input_state (s\<lparr>sent_queue := q, send_seq := q64, last_receive_sent_time := t\<rparr>) = input_state s"
  "input_state (s\<lparr>need_ack_bytes := i, sent_queue := q, old_sent := old\<rparr>) = input_state s"
  "input_state (s\<lparr>last_receive_sent_time := t, last_ack_bytes := i\<rparr>) = input_state s"
  by (simp_all add: input_state_def pollreactor_update_timer_def update_rtt_def Let_def check_wake_receive_def)

lemma pop_sent_input [simp]: "input_state (pop_sent F rseq q sent s) = input_state s"
  by (induction F rseq q sent s rule: pop_sent.induct) (simp_all add: Let_def input_state_def)

lemma update_receive_input [simp]: "input_state (update_receive_seq F t rseq s) = input_state s"
  by (simp add: update_receive_seq_def Let_def split: list.split)

lemma pop_notify_input: "input_state (snd (pop_notify t wk nq mw s)) = input_state s"
  by (induction t wk nq mw s rule: pop_notify.induct) (simp_all add: input_state_def)

lemma handle_content_input: "input_state (snd (handle_content E len rseq mw s)) = input_state s"
  by (simp add: handle_content_def Let_def get_monotonic_def)

lemma handle_message_link:
  assumes "link_ok s pays" "readers_ok E" "input_buf s ! 1 = seq_byte c"
    "unat (receive_seq s) \<le> c" "c \<le> unat (receive_seq s) + length pays \<or> receive_seq s = 1 \<and> c < 17"
  shows "\<exists>s'. handle_message E t len s = Ret () s' \<and> input_state s' = input_state s \<and>
    unat (receive_seq s') = c \<and> (c \<le> unat (receive_seq s) + length pays \<longrightarrow> send_seq s' = send_seq s) \<and>
    link_ok s' (drop (c - unat (receive_seq s)) pays)"
proof -
  let ?F = "env_fp E"
  note w = link_okD [OF assms(1)]
  have "unat (send_seq s) < 2 ^ 64" using unsigned_less [of "send_seq s"] by simp
  then have c: "c < unat (receive_seq s) + 16" "c < 2 ^ 64"
    using assms(5) w(2,3) by (auto simp: MAX_PENDING_BLOCKS_def)
  define rseq where "rseq = receive_seq s + ((ucast (input_buf s ! 1) - receive_seq s) AND ucast MESSAGE_SEQ_MASK)"
  have r: "rseq = of_nat c" unfolding rseq_def assms(3) by (rule receive_delta [OF assms(4) c])
  then have ur: "unat rseq = c" using c(2) by (simp add: unsigned_of_nat take_bit_nat_eq_self)
  have le: "rseq \<le> send_seq s \<or> receive_seq s = 1" using ur assms(5) w(2) by (auto simp: word_le_nat_alt)
  define s1 where "s1 = (if rseq \<noteq> receive_seq s then update_receive_seq ?F t rseq s else s)"
  have 1: "link_ok s1 (drop (c - unat (receive_seq s)) pays)" "receive_seq s1 = rseq"
      "c \<le> unat (receive_seq s) + length pays \<longrightarrow> send_seq s1 = send_seq s"
  proof -
    have "link_ok s1 (drop (c - unat (receive_seq s)) pays) \<and> receive_seq s1 = rseq \<and>
        (c \<le> unat (receive_seq s) + length pays \<longrightarrow> send_seq s1 = send_seq s)"
    proof (cases "rseq = receive_seq s")
      case True
      then show ?thesis using assms(1) ur by (simp add: s1_def)
    next
      case False
      then have d: "0 < c - unat (receive_seq s)" 
      proof -
        have "unat (receive_seq s) \<noteq> c" using False ur by (auto simp: word_unat_eq_iff)
        then show ?thesis using assms(4) by simp
      qed
      have q: "rseq = receive_seq s + of_nat (c - unat (receive_seq s))" using r assms(4) by (simp add: of_nat_diff)
      have b: "unat (receive_seq s) + (c - unat (receive_seq s)) < 2 ^ 64" using assms(4) c(2) by simp
      show ?thesis using update_receive_link [OF assms(1) d b q, of ?F t] False by (auto simp: s1_def)
    qed
    then show "link_ok s1 (drop (c - unat (receive_seq s)) pays)" "receive_seq s1 = rseq"
      "c \<le> unat (receive_seq s) + length pays \<longrightarrow> send_seq s1 = send_seq s" by simp_all
  qed
  define s2 where "s2 = s1\<lparr>bytes_read := bytes_read s1 + of_nat len\<rparr>"
  obtain mw s3 where 3: "pop_notify t (rseq - 1 - (if len > MESSAGE_MIN then 1 else 0)) (notify_queue s2) False s2 = (mw, s3)" by fastforce
  obtain mw2 s4 where 4: "handle_content E len rseq mw s3 = (mw2, s4)" by fastforce
  define s5 where "s5 = (if mw2 then check_wake_receive s4 else s4)"
  have l: "link_state s5 = link_state s1"
    using pop_notify_link [of t "rseq - 1 - (if len > MESSAGE_MIN then 1 else 0)" "notify_queue s2" False s2]
      handle_content_link [of E len rseq mw s3] 3 4 by (simp add: s5_def s2_def link_state_simps)
  have i: "input_state s5 = input_state s"
    using pop_notify_input [of t "rseq - 1 - (if len > MESSAGE_MIN then 1 else 0)" "notify_queue s2" False s2]
      handle_content_input [of E len rseq mw s3] 3 4 by (simp add: s5_def s2_def s1_def)
  have no: "\<not> (rseq \<noteq> receive_seq s \<and> rseq > send_seq s \<and> receive_seq s \<noteq> 1)" using le by auto
  have u: "handle_message E t len s = (case find_fastreader len (input_buf s5) (fast_readers s5) of
      None \<Rightarrow> Ret () s5 | Some fr \<Rightarrow> call_fastreader E fr (input_buf s5) len s5)"
    unfolding handle_message_def Let_def rseq_def [symmetric] if_not_P [OF no] s1_def [symmetric] s2_def [symmetric]
      3 4 prod.case s5_def by (rule refl)
  have "\<exists>s'. handle_message E t len s = Ret () s' \<and> link_state s' = link_state s1 \<and> input_state s' = input_state s"
  proof (cases "find_fastreader len (input_buf s5) (fast_readers s5)")
    case None
    then show ?thesis unfolding u using l i by simp
  next
    case (Some fr)
    obtain s' where "call_fastreader E fr (input_buf s5) len s5 = Ret () s'" "link_state s' = link_state s5" "input_state s' = input_state s5"
      using assms(2) unfolding readers_ok_def by blast
    then show ?thesis unfolding u Some option.case using l i by simp
  qed
  then obtain s' where s': "handle_message E t len s = Ret () s'" "link_state s' = link_state s1" "input_state s' = input_state s" by blast
  have "link_ok s' (drop (c - unat (receive_seq s)) pays)" using 1(1) link_ok_cong [OF s'(2)] by blast
  moreover have "receive_seq s' = rseq" "c \<le> unat (receive_seq s) + length pays \<longrightarrow> send_seq s' = send_seq s"
    using s'(2) 1(2,3) by (simp_all add: link_state_def)
  ultimately show ?thesis using s'(1,3) ur by auto
qed

text \<open>Reading a whole message when the input buffer is empty.\<close>

definition input_ready :: "('t, 'a) serialqueue_scheme \<Rightarrow> bool" where
  "input_ready s \<longleftrightarrow> input_pos s = 0 \<and> \<not> need_sync s \<and> length (input_buf s) = INPUT_BUF_SIZE"

lemma msgblock_check_frame:
  assumes "length pay \<le> MESSAGE_PAYLOAD_MAX"
  shows "msgblock_check False (frame (seq_byte c) pay) = (int (length pay + 5), False)"
proof -
  have "length pay + 5 \<le> MESSAGE_MAX" using assms by (simp add: MESSAGE_PAYLOAD_MAX_def message_consts)
  from valid_frame [OF seq_byte_dest this, of _ "[]"] show ?thesis
    by (simp add: msgblock_check_blocks check_block_iff [symmetric])
qed

lemma frame_seq: "frame q pay ! 1 = q"
  by (simp add: frame_def frame_head_def Let_def)

lemma input_event_link:
  assumes "link_ok s pays" "readers_ok E" "input_ready s" "length pay \<le> MESSAGE_PAYLOAD_MAX"
    "unat (receive_seq s) \<le> c" "c \<le> unat (receive_seq s) + length pays \<or> receive_seq s = 1 \<and> c < 17"
  shows "\<exists>s'. input_event E (Rd_bytes (frame (seq_byte c) pay)) t s = Ret () s' \<and> input_ready s' \<and>
    unat (receive_seq s') = c \<and> (c \<le> unat (receive_seq s) + length pays \<longrightarrow> send_seq s' = send_seq s) \<and> link_ok s' (drop (c - unat (receive_seq s)) pays)"
proof -
  let ?f = "frame (seq_byte c) pay" and ?n = "length pay + 5"
  have n: "?n \<le> 64" using assms(4) by (simp add: MESSAGE_PAYLOAD_MAX_def message_consts)
  note s = assms(3) [unfolded input_ready_def INPUT_BUF_SIZE_def]
  define s1 where "s1 = s\<lparr>input_buf := blit (input_buf s) 0 ?f, input_pos := ?n, need_sync := False\<rparr>"
  have tk: "take ?n (blit (input_buf s) 0 ?f) = ?f" by (simp add: blit_def)
  have put: "put_input ?f s = Ret () (s\<lparr>input_buf := blit (input_buf s) 0 ?f, input_pos := ?n\<rparr>)" using n s by (simp add: put_input_def)
  have ls: "link_state s1 = link_state s" by (simp add: s1_def link_state_def)
  then have 1: "link_ok s1 pays" "receive_seq s1 = receive_seq s" "send_seq s1 = send_seq s"
    using assms(1) link_ok_cong by (auto simp: link_state_def)
  have b: "input_buf s1 ! 1 = seq_byte c" using frame_seq [of "seq_byte c" pay] by (simp add: s1_def blit_def nth_append)
  from handle_message_link [OF 1(1) assms(2) b, of t ?n] assms(5,6) 1 obtain s2 where
    2: "handle_message E t ?n s1 = Ret () s2" "input_state s2 = input_state s1" "unat (receive_seq s2) = c"
      "c \<le> unat (receive_seq s) + length pays \<longrightarrow> send_seq s2 = send_seq s" "link_ok s2 (drop (c - unat (receive_seq s)) pays)" by auto
  have i2: "input_pos s2 = ?n" "need_sync s2 = False" "length (input_buf s2) = INPUT_BUF_SIZE"
    using 2(2) s n by (simp_all add: input_state_def s1_def length_blit INPUT_BUF_SIZE_def)
  define s3 where "s3 = s2\<lparr>input_pos := 0, input_buf := blit (input_buf s2) 0 []\<rparr>"
  have l1: "input_loop (Suc m) E t (s\<lparr>input_buf := blit (input_buf s) 0 ?f, input_pos := ?n\<rparr>) = input_loop m E t s3" for m
    using s i2 msgblock_check_frame [OF assms(4), of c] 2(1) tk by (simp add: s1_def s3_def nat_add_distrib)
  have l2: "input_loop ?n E t s3 = Ret () (s3\<lparr>need_sync := False\<rparr>)"
    using i2(2) by (simp add: numeral_eq_Suc s3_def msgblock_check_def message_consts)
  have l3: "link_state (s3\<lparr>need_sync := False\<rparr>) = link_state s2" by (simp add: s3_def link_state_simps)
  have "link_ok (s3\<lparr>need_sync := False\<rparr>) (drop (c - unat (receive_seq s)) pays)" "receive_seq (s3\<lparr>need_sync := False\<rparr>) = receive_seq s2"
    "send_seq (s3\<lparr>need_sync := False\<rparr>) = send_seq s2"
    using 2(5) link_ok_cong [OF l3] l3 by (simp_all add: link_state_def)
  moreover have "input_event E (Rd_bytes ?f) t s = Ret () (s3\<lparr>need_sync := False\<rparr>)"
    unfolding input_event_def Let_def fd_read.case put andthen_simps using l1 [of ?n] l2 by simp
  moreover have "input_ready (s3\<lparr>need_sync := False\<rparr>)" using i2(3) by (simp add: s3_def input_ready_def blit_def)
  ultimately show ?thesis using 2(3,4) by auto
qed

section \<open>What is written\<close>

text \<open>What was written to the descriptor and whether it is a CAN socket.\<close>

definition line_state :: "('t, 'a) serialqueue_scheme \<Rightarrow> u8 list list \<times> bool" where
  "line_state s = (wire s, serial_fd_type s = SQT_CAN)"

lemma line_state_simps:
  "line_state (s\<lparr>ready_bytes := i\<rparr>) = line_state s" "line_state (s\<lparr>upcoming_bytes := i\<rparr>) = line_state s"
  "line_state (set_cq q cq s) = line_state s" "line_state (s\<lparr>need_kick_clock := c\<rparr>) = line_state s"
  "line_state (s\<lparr>pending_queues := qs\<rparr>) = line_state s" "line_state (s\<lparr>notify_queue := nq\<rparr>) = line_state s"
  "line_state (s\<lparr>rtt_sample_seq := q64\<rparr>) = line_state s" "line_state (upd_timer F p w s) = line_state s"
  "line_state (s\<lparr>send_seq := q64, need_ack_bytes := i, sent_queue := sent\<rparr>) = line_state s"
  by (simp_all add: line_state_def set_cq_def pollreactor_update_timer_def)

lemma ready_loop_line: "line_state (snd (snd (ready_loop ack bg qs st rd s))) = line_state s"
proof (induction qs arbitrary: st rd s)
  case (Cons q qs)
  have "line_state (move_ready ack q s) = line_state s" by (simp add: move_ready_def Let_def line_state_simps)
  then show ?case using Cons.IH by (simp add: Let_def)
qed simp

lemma check_send_line: "line_state (snd (check_send_command F p t s)) = line_state s"
  unfolding check_send_command_def Let_def by (simp add: split_beta line_state_simps ready_loop_line)

lemma fill_block_line: "fill_block n pay s = Ret pay' s' \<Longrightarrow> line_state s' = line_state s"
proof (induction n arbitrary: pay s)
  case 0
  then show ?case by (subst (asm) fill_block.simps) (simp split: if_splits)
next
  case (Suc n)
  have t: "line_state (take_ready q qm s) = line_state s" for q qm by (simp add: take_ready_def Let_def line_state_simps)
  show ?case
    using Suc.prems Suc.IH t by (subst (asm) fill_block.simps) (fastforce split: if_splits option.splits)
qed

lemma build_and_send_line:
  assumes "build_and_send_command F p t s = Ret block s'"
  shows "line_state s' = line_state s \<and> map msg_bytes (sent_queue s') = map msg_bytes (sent_queue s) @ [block]"
proof -
  obtain pay s1 where 1: "fill_block (n_ready s) [] s = Ret pay s1" "block = make_block (send_seq s1) pay"
    "s' = store_block F p t block s1" using assms by (auto simp: build_and_send_command_def bnd_eq_Ret Let_def)
  have e: "sent_queue s1 = sent_queue s" using fill_block_link [OF 1(1)] by (simp add: link_state_def)
  define m where "m = sent_queue s' ! length (sent_queue s)"
  have "sent_queue s' = sent_queue s @ [m]" "msg_bytes m = block"
    using store_block_link [of F p t block s1] unfolding 1(3) [symmetric] e m_def link_state_def by simp_all
  moreover have "line_state s' = line_state s1" by (simp add: 1(3) store_block_def Let_def line_state_simps)
  ultimately show ?thesis using fill_block_line [OF 1(1)] by simp
qed

text \<open>On a serial line whose writes succeed, \<open>command_event\<close> writes the blocks that it puts on \<open>sent_queue\<close>.\<close>

lemma command_loop_wire:
  assumes "command_loop fuel E t buf s = Some (Ret w s')" "serial_fd_type s \<noteq> SQT_CAN" "\<And>n. wr_ok E n"
  shows "\<exists>blocks. map msg_bytes (sent_queue s') = map msg_bytes (sent_queue s) @ blocks \<and>
    concat (wire s') = concat (wire s) @ buf @ concat blocks"
  using assms(1,2)
proof (induction fuel arbitrary: buf s)
  case (Suc fuel)
  let ?F = "env_fp E"
  obtain w1 s1 where 1: "check_send_command ?F (length buf) t s = (w1, s1)" by fastforce
  have l1: "link_state s1 = link_state s" "line_state s1 = line_state s"
    using check_send_link [of ?F "length buf" t s] check_send_line [of ?F "length buf" t s] 1 by simp_all
  let ?now = "f_eq ?F w1 (PR_NOW ?F)" and ?full = "length buf + MESSAGE_MAX > MESSAGE_MAX * MAX_PENDING_BLOCKS"
  define s2 where "s2 = (if \<not> ?now \<or> ?full then flush_blocks E t buf s1 else s1)"
  define buf2 where "buf2 = (if \<not> ?now \<or> ?full then [] else buf)"
  have fl: "concat (wire (flush_blocks E t buf s1)) = concat (wire s1) @ buf \<and>
      serial_fd_type (flush_blocks E t buf s1) = serial_fd_type s1" if "serial_fd_type s1 \<noteq> SQT_CAN"
    using that assms(3) by (simp add: flush_blocks_def do_write_def Let_def)
  have 2: "concat (wire s2) @ buf2 = concat (wire s) @ buf" "serial_fd_type s2 \<noteq> SQT_CAN" "sent_queue s2 = sent_queue s"
  proof -
    have "wire s1 = wire s" "serial_fd_type s1 \<noteq> SQT_CAN" using l1(2) Suc.prems(2) by (auto simp: line_state_def)
    then show "concat (wire s2) @ buf2 = concat (wire s) @ buf" "serial_fd_type s2 \<noteq> SQT_CAN"
      using fl by (auto simp: s2_def buf2_def)
    have "link_state s2 = link_state s" using l1(1) by (simp add: s2_def)
    then show "sent_queue s2 = sent_queue s" by (simp add: link_state_def)
  qed
  have u: "command_loop (Suc fuel) E t buf s = (if \<not> ?now then Some (Ret w1 s2)
      else case build_and_send_command ?F (length buf2) t s2 of
        Ret block s3 \<Rightarrow> command_loop fuel E t (buf2 @ block) s3 | Shut e s3 \<Rightarrow> Some (Shut e s3) | Fault \<Rightarrow> Some Fault)"
    unfolding command_loop.simps Let_def 1 prod.case s2_def buf2_def by (rule refl)
  show ?case
  proof (cases ?now)
    case False
    then have "s' = s2" "buf2 = []" using Suc.prems(1) by (simp_all add: u buf2_def del: command_loop.simps)
    then show ?thesis using 2 by simp
  next
    case True
    then obtain block s3 where 3: "build_and_send_command ?F (length buf2) t s2 = Ret block s3"
      "command_loop fuel E t (buf2 @ block) s3 = Some (Ret w s')"
      using Suc.prems(1) by (auto simp: u simp del: command_loop.simps split: res.splits)
    have l3: "line_state s3 = line_state s2" "map msg_bytes (sent_queue s3) = map msg_bytes (sent_queue s2) @ [block]"
      using build_and_send_line [OF 3(1)] by simp_all
    then have "serial_fd_type s3 \<noteq> SQT_CAN" "wire s3 = wire s2" using 2(2) by (auto simp: line_state_def)
    from Suc.IH [OF 3(2) this(1)] this(2) obtain blocks where
      "map msg_bytes (sent_queue s') = map msg_bytes (sent_queue s3) @ blocks"
      "concat (wire s') = concat (wire s2) @ (buf2 @ block) @ concat blocks" by auto
    then show ?thesis using l3(2) 2(1,3) by (intro exI [of _ "block # blocks"]) simp
  qed
qed simp

text \<open>The input buffer is left alone by everything that sends.\<close>

lemma input_state_send_simps:
  "input_state (s\<lparr>ready_bytes := i\<rparr>) = input_state s" "input_state (s\<lparr>upcoming_bytes := i\<rparr>) = input_state s"
  "input_state (set_cq q cq s) = input_state s" "input_state (s\<lparr>need_kick_clock := c\<rparr>) = input_state s"
  "input_state (s\<lparr>pending_queues := qs\<rparr>) = input_state s" "input_state (s\<lparr>notify_queue := nq\<rparr>) = input_state s"
  "input_state (s\<lparr>rtt_sample_seq := q64\<rparr>) = input_state s" "input_state (s\<lparr>writes := w\<rparr>) = input_state s"
  "input_state (s\<lparr>send_seq := q64, need_ack_bytes := i, sent_queue := sent\<rparr>) = input_state s"
  "input_state (s\<lparr>last_write_fail_time := t\<rparr>) = input_state s" "input_state (s\<lparr>must_exit := b\<rparr>) = input_state s"
  "input_state (s\<lparr>can_wire := cw\<rparr>) = input_state s" "input_state (s\<lparr>wire := ws\<rparr>) = input_state s"
  "input_state (s\<lparr>bytes_write := n\<rparr>) = input_state s" "input_state (s\<lparr>idle_time := t\<rparr>) = input_state s"
  "input_state (s\<lparr>bytes_retransmit := n\<rparr>) = input_state s" "input_state (s\<lparr>ignore_nak_seq := q64\<rparr>) = input_state s"
  "input_state (s\<lparr>rto := t\<rparr>) = input_state s" "input_state (s\<lparr>retransmit_seq := q64\<rparr>) = input_state s"
  by (simp_all add: input_state_def set_cq_def)

lemma write_can_input: "input_state (write_can n E buf s) = input_state s"
proof (induction n arbitrary: buf s)
  case 0
  then show ?case by (subst write_can.simps) simp
next
  case (Suc n)
  show ?case
    by (subst write_can.simps) (simp add: Let_def Suc.IH get_monotonic_def pollreactor_do_exit_def input_state_send_simps)
qed

lemma do_write_input: "input_state (do_write E buf s) = input_state s"
  using write_can_input [of "length buf" E buf s] by (simp add: do_write_def input_state_def)

lemma ready_loop_input: "input_state (snd (snd (ready_loop ack bg qs st rd s))) = input_state s"
proof (induction qs arbitrary: st rd s)
  case (Cons q qs)
  have "input_state (move_ready ack q s) = input_state s" by (simp add: move_ready_def Let_def input_state_send_simps)
  then show ?case using Cons.IH by (simp add: Let_def)
qed simp

lemma check_send_input: "input_state (snd (check_send_command F p t s)) = input_state s"
  unfolding check_send_command_def Let_def by (simp add: split_beta input_state_send_simps ready_loop_input)

lemma fill_block_input: "fill_block n pay s = Ret pay' s' \<Longrightarrow> input_state s' = input_state s"
proof (induction n arbitrary: pay s)
  case 0
  then show ?case by (subst (asm) fill_block.simps) (simp split: if_splits)
next
  case (Suc n)
  have t: "input_state (take_ready q qm s) = input_state s" for q qm by (simp add: take_ready_def Let_def input_state_send_simps)
  show ?case
    using Suc.prems Suc.IH t by (subst (asm) fill_block.simps) (fastforce split: if_splits option.splits)
qed

lemma build_and_send_input:
  assumes "build_and_send_command F p t s = Ret block s'"
  shows "input_state s' = input_state s"
proof -
  obtain pay s1 where "fill_block (n_ready s) [] s = Ret pay s1" "s' = store_block F p t block s1"
    using assms by (auto simp: build_and_send_command_def bnd_eq_Ret Let_def)
  then show ?thesis using fill_block_input by (fastforce simp: store_block_def Let_def input_state_send_simps)
qed

lemma flush_blocks_input: "input_state (flush_blocks E t buf s) = input_state s"
  by (simp add: flush_blocks_def Let_def input_state_send_simps do_write_input)

lemma command_loop_input: "command_loop fuel E t buf s = Some (Ret w s') \<Longrightarrow> input_state s' = input_state s"
proof (induction fuel arbitrary: buf s)
  case (Suc fuel)
  obtain w1 s1 where 1: "check_send_command (env_fp E) (length buf) t s = (w1, s1)" by fastforce
  have i: "input_state s1 = input_state s" using check_send_input [of "env_fp E" "length buf" t s] 1 by simp
  show ?case
    using Suc.prems Suc.IH i
    by (fastforce simp: 1 Let_def flush_blocks_input dest!: build_and_send_input split: if_splits res.splits)
qed simp

lemma retransmit_input: "retransmit_event E t s = Ret w s' \<Longrightarrow> input_state s' = input_state s"
  by (auto simp: retransmit_event_def Let_def input_state_send_simps do_write_input split: if_splits)

end
