(* ===== verification/Link_Correct.thy ===== *)
theory Link_Correct
  imports Serialqueue_Props Serial Protocol_Correct
begin

text \<open>
  The link as a whole: the host's \<open>serialqueue.c\<close>, the firmware's \<open>command.c\<close> over \<open>serial_irq.c\<close>, and a
  line in each direction that may lose any block. The blocks the firmware executes are the blocks the
  host built, in order, each once, however blocks and acknowledgements are lost and retransmitted.
\<close>

section \<open>The system\<close>

text \<open>
  \<open>down\<close> are the blocks on their way to the firmware, \<open>up\<close> those on their way to the host, from the transmit
  buffer on. \<open>sent\<close> and \<open>executed\<close> record the payloads of the blocks built and of those executed.
\<close>

record 't link =
  host :: "'t serialqueue"
  down :: "u8 list list"
  fw :: serial
  up :: "u8 list list"
  sent :: "u8 list list"
  executed :: "u8 list list"

definition payload :: "u8 list \<Rightarrow> u8 list" where
  "payload f = take (length f - MESSAGE_MIN) (drop MESSAGE_HEADER_SIZE f)"

text \<open>What a call added to the firmware's output.\<close>

definition queued :: "'a serial_scheme \<Rightarrow> 'b serial_scheme \<Rightarrow> u8 list list" where
  "queued s s' = (let b = drop (length (tx_stream s)) (tx_stream s') in if b = [] then [] else [b])"

text \<open>
  The steps. \<open>command\<close> and \<open>retransmit\<close> are the timers of the background thread, with the blocks they write;
  \<open>block\<close> is the firmware's check of what its buffer holds, a block and whatever follows it, and
  \<open>response\<close> any message of a handler, or the acknowledgement after the execution, at any time; \<open>interrupt\<close> are
  transmit interrupts. \<open>read\<close> is the host's input. \<open>other\<close> is anything on the host that
  leaves the link and the input buffer alone, such as queueing commands. Blocks get lost.
\<close>

inductive link_step :: "('t, 't serialqueue) sq_env \<Rightarrow> 't link \<Rightarrow> 't link \<Rightarrow> bool" for E where
  command: "command_event fuel E t (host l) = Some (Ret w s') \<Longrightarrow>
    unat (receive_seq (host l)) + MAX_PENDING_BLOCKS + 1 < 2 ^ 64 \<Longrightarrow>
    blocks = map msg_bytes (drop (length (sent_queue (host l))) (sent_queue s')) \<Longrightarrow>
    link_step E l (l\<lparr>host := s', down := down l @ blocks, sent := sent l @ map payload blocks\<rparr>)"
| retransmit: "retransmit_event E t (host l) = Ret w s' \<Longrightarrow>
    link_step E l (l\<lparr>host := s', down := down l @ [MESSAGE_SYNC] # map msg_bytes (sent_queue (host l))\<rparr>)"
| lost_down: "down l = fs @ f # gs \<Longrightarrow> link_step E l (l\<lparr>down := fs @ gs\<rparr>)"
| block: "down l = f # fs \<Longrightarrow>
    command_find_block (console_sendf n1 n2 n3 int16) (f @ rest) (fw l) = Ret (r, n) s' \<Longrightarrow> r \<noteq> 0 \<Longrightarrow>
    link_step E l (l\<lparr>down := fs, fw := s', up := up l @ queued (fw l) s',
      executed := executed l @ (if r > 0 then [payload f] else [])\<rparr>)"
| response: "command_encodef int16 ce args (fw l) = Ret (length out + 5, out) s1 \<Longrightarrow>
    length out + 5 \<le> ce_max_size ce \<Longrightarrow> ce_max_size ce \<le> MESSAGE_MAX \<Longrightarrow>
    command_sendf (console_sendf n1 n2 n3 int16) ce args (fw l) = Ret () s' \<Longrightarrow>
    link_step E l (l\<lparr>fw := s', up := up l @ queued (fw l) s'\<rparr>)"
| interrupt: "link_step E l (l\<lparr>fw := tx_irqs n (fw l)\<rparr>)"
| lost_up: "up l = fs @ f # gs \<Longrightarrow> link_step E l (l\<lparr>up := fs @ gs\<rparr>)"
| read: "up l = f # fs \<Longrightarrow> input_event E (Rd_bytes f) t (host l) = Ret () s' \<Longrightarrow>
    link_step E l (l\<lparr>up := fs, host := s'\<rparr>)"
| other: "link_state s' = link_state (host l) \<Longrightarrow> input_state s' = input_state (host l) \<Longrightarrow>
    link_step E l (l\<lparr>host := s'\<rparr>)"

text \<open>A link in step with nothing on its way.\<close>

definition link_start :: "'t link \<Rightarrow> bool" where
  "link_start l \<longleftrightarrow> link_ok (host l) [] \<and> input_ready (host l) \<and> down l = [] \<and> up l = [] \<and> sent l = [] \<and> executed l = [] \<and>
     next_sequence (fw l) = seq_byte (unat (receive_seq (host l))) \<and> \<not> sync_need_sync (fw l) \<and> \<not> in_sendf (fw l) \<and> tx_ok (fw l)"

section \<open>The firmware's answers\<close>

text \<open>The serial console leaves the variables of \<open>command.c\<close> alone.\<close>

definition cmd_part :: "'a serial_scheme \<Rightarrow> u8 \<times> bool \<times> bool" where
  "cmd_part s = (next_sequence s, in_sendf s, sync_need_sync s)"

lemma tx_irqs_cmd [simp]: "cmd_part (tx_irqs n s) = cmd_part s"
  by (induction n arbitrary: s) (simp_all add: serial_get_tx_byte_def cmd_part_def)

lemma cmd_part_simps [simp]:
  "cmd_part (s\<lparr>transmit_buf := b\<rparr>) = cmd_part s" "cmd_part (s\<lparr>transmit_max := m\<rparr>) = cmd_part s"
  "cmd_part (s\<lparr>transmit_max := m, transmit_pos := k\<rparr>) = cmd_part s" "cmd_part (s\<lparr>transmit_pos := k\<rparr>) = cmd_part s"
  "cmd_part (s\<lparr>transmit_buf := b, transmit_pos := k, transmit_max := m\<rparr>) = cmd_part s"
  by (simp_all add: cmd_part_def)

lemma sendf_room_cmd: "sendf_room n1 n2 m s = (r, s') \<Longrightarrow> cmd_part s' = cmd_part s"
  by (auto simp: sendf_room_def Let_def split: if_splits)

lemma console_cmd: "console_sendf n1 n2 n3 int16 ce args s = Ret u s' \<Longrightarrow> cmd_part s' = cmd_part s"
proof -
  assume a: "console_sendf n1 n2 n3 int16 ce args s = Ret u s'"
  obtain r s1 where r: "sendf_room n1 n2 (ce_max_size ce) s = (r, s1)" by fastforce
  note r1 = sendf_room_cmd [OF r]
  show "cmd_part s' = cmd_part s"
  proof (cases r)
    case None
    then show ?thesis using a r r1 by (simp add: console_sendf_def)
  next
    case (Some m)
    then obtain k mem s2 where 2: "command_encode_and_frame int16 (drop m (transmit_buf s1)) ce args s1 = Ret (k, mem) s2"
      "s' = (tx_irqs n3 (s2\<lparr>transmit_buf := take m (transmit_buf s2) @ mem\<rparr>))\<lparr>transmit_max := m + k\<rparr>"
      using a r by (auto simp: console_sendf_def bnd_eq_Ret)
    obtain x out s3 where 3: "command_encodef int16 ce args s1 = Ret (x, out) s3" "s2 = s3"
      using 2(1) by (auto simp: command_encode_and_frame_def bnd_eq_Ret split: if_splits option.splits)
    have "s3 = s1" by (rule conjunct1 [OF encodef_state [OF 3(1)]])
    then show ?thesis using 2(2) 3(2) r1 by simp
  qed
qed

lemma queued_nil: "tx_stream s' = tx_stream s \<Longrightarrow> queued s s' = []"
  by (simp add: queued_def)

lemma queued_frame: "tx_stream s' = tx_stream s @ frame q out \<Longrightarrow> queued s s' = [frame q out]"
  by (simp add: queued_def frame_def frame_head_def Let_def)

lemma sendf_answer:
  assumes "tx_ok s" "command_encodef int16 ce args s = Ret (length out + 5, out) s1"
    "length out + 5 \<le> ce_max_size ce" "command_sendf (console_sendf n1 n2 n3 int16) ce args s = Ret () s'"
  shows "tx_ok s' \<and> cmd_part s' = cmd_part s \<and> queued s s' \<in> {[], [frame (next_sequence s) out]}"
proof (cases "in_sendf s")
  case True
  then show ?thesis using assms by (simp add: command_sendf_def queued_nil)
next
  case False
  let ?s = "s\<lparr>in_sendf := True\<rparr>"
  have ok: "tx_ok ?s" "tx_stream ?s = tx_stream s" using assms(1) by (simp_all add: tx_ok_def tx_stream_def tx_pending_def)
  have e: "command_encodef int16 ce args ?s = Ret (length out + 5, out) ?s" using encodef_state [OF assms(2), of ?s] by simp
  obtain s2 where 2: "console_sendf n1 n2 n3 int16 ce args ?s = Ret () s2" "s' = s2\<lparr>in_sendf := False\<rparr>"
    using assms(4) False by (auto simp: command_sendf_def andthen_eq_Ret)
  have "tx_ok s2 \<and> tx_stream s2 \<in> {tx_stream s, tx_stream s @ frame (next_sequence s) out}"
    using console_sendf_ok [OF ok(1) e assms(3), of n1 n2 n3] 2(1) ok(2) by auto
  moreover have "cmd_part s2 = cmd_part ?s" using console_cmd [OF 2(1)] .
  moreover have "tx_ok s' = tx_ok s2" "tx_stream s' = tx_stream s2" by (simp_all add: 2(2) tx_ok_def tx_stream_def tx_pending_def)
  ultimately show ?thesis using False 2(2) by (auto simp: cmd_part_def queued_nil queued_frame)
qed

lemma acknak_out: "command_encodef int16 encode_acknak [] s = Ret (length ([] :: u8 list) + 5, []) s"
  by (simp add: command_encodef_def encode_acknak_def message_consts)

lemma nak_answer:
  assumes "tx_ok s" "find_nak (console_sendf n1 n2 n3 int16) n s = Ret (r, k) s'"
  shows "r = -1 \<and> k = n \<and> tx_ok s' \<and> cmd_part s' = cmd_part s \<and> queued s s' \<in> {[], [frame (next_sequence s) []]}"
proof -
  have "command_sendf (console_sendf n1 n2 n3 int16) encode_acknak [] s = Ret () s'" "r = -1" "k = n"
    using assms(2) by (auto simp: find_nak_def andthen_eq_Ret)
  with sendf_answer [OF assms(1) acknak_out _ this(1)] show ?thesis by (simp add: encode_acknak_def message_consts)
qed

text \<open>
  What the firmware does with a block at the start of its buffer: it executes the block with the expected
  number, and answers any other one with the number that it expects. A stray synchronisation byte is skipped.
\<close>

lemma find_block_answer:
  assumes "tx_ok s" "\<not> sync_need_sync s" "next_sequence s = seq_byte c" "length pay \<le> MESSAGE_PAYLOAD_MAX"
    "command_find_block (console_sendf n1 n2 n3 int16) (frame (seq_byte k) pay @ rest) s = Ret (r, n) s'"
  shows "n = length (frame (seq_byte k) pay) \<and> tx_ok s' \<and> \<not> sync_need_sync s' \<and> in_sendf s' = in_sendf s \<and>
    (if seq_byte k = seq_byte c then r = 1 \<and> next_sequence s' = seq_byte (Suc c) \<and> queued s s' = []
     else r = -1 \<and> next_sequence s' = seq_byte c \<and> queued s s' \<in> {[], [frame (seq_byte c) []]})"
proof -
  let ?f = "frame (seq_byte k) pay" and ?s = "s\<lparr>sync_need_valid := False\<rparr>"
  have len: "length pay + 5 \<le> MESSAGE_MAX" using assms(4) by (simp add: MESSAGE_PAYLOAD_MAX_def message_consts)
  have cb: "check_block (?f @ rest) = Block (length pay + 5)"
    using valid_frame [OF seq_byte_dest len] check_block_iff by blast
  have b1: "(?f @ rest) ! 1 = seq_byte k" using frame_seq [of "seq_byte k" pay] by (simp add: nth_append)
  have ok: "tx_ok ?s" "cmd_part ?s = cmd_part s" "queued s s2 = queued ?s s2" for s2 :: "'a serial_scheme"
    using assms(1) by (simp_all add: tx_ok_def cmd_part_def queued_def tx_stream_def tx_pending_def)
  show ?thesis
  proof (cases "seq_byte k = seq_byte c")
    case True
    then have "Ret (1, length pay + 5) (?s\<lparr>next_sequence := seq_byte (Suc c)\<rparr>) = Ret (r, n) s'"
      using assms(2,3,5) cb b1 seq_byte_Suc [of c] by (simp add: command_find_block_def Let_def)
    then have "r = 1" "n = length pay + 5" "s' = ?s\<lparr>next_sequence := seq_byte (Suc c)\<rparr>" by auto
    moreover from this(3) have "tx_stream s' = tx_stream s" by (simp add: tx_stream_def tx_pending_def)
    ultimately show ?thesis using True assms(1,2) by (simp add: tx_ok_def queued_nil)
  next
    case False
    then have "find_nak (console_sendf n1 n2 n3 int16) (length pay + 5) ?s = Ret (r, n) s'"
      using assms(2,3,5) cb b1 by (simp add: command_find_block_def Let_def)
    from nak_answer [OF ok(1) this] show ?thesis
      using False assms(2,3) ok(2) unfolding ok(3) by (auto simp: cmd_part_def)
  qed
qed

lemma find_block_sync:
  assumes "\<not> sync_need_sync s" "command_find_block console ([MESSAGE_SYNC] @ rest) s = Ret (r, n) s'" "r \<noteq> 0"
  shows "r = -1 \<and> n = 1 \<and> s' = s"
proof -
  have "check_block ([MESSAGE_SYNC] @ rest) \<in> {NeedMore, BadBlock}" by (auto simp: check_block_def message_consts)
  then show ?thesis using assms by (auto simp: command_find_block_def split: block_status.splits)
qed

section \<open>The invariant\<close>

text \<open>
  Block number \<open>k\<close> has the payload \<open>sent l ! (k - r0)\<close>. The firmware has executed those before \<open>c\<close>.
  A block on its way down is less than 13 behind \<open>c\<close> and less than 12 behind any block
  ahead of it, so that 4 bits of its number identify it; the answers on their way up do not
  decrease.
\<close>

definition block_of :: "nat \<Rightarrow> u8 list list \<Rightarrow> nat \<Rightarrow> u8 list" where
  "block_of r0 pays k = frame (seq_byte k) (pays ! (k - r0))"

definition down_ok :: "nat \<Rightarrow> u8 list list \<Rightarrow> nat \<Rightarrow> u8 list list \<Rightarrow> bool" where
  "down_ok r0 pays c fs \<longleftrightarrow>
     (\<exists>ks. filter (\<lambda>f. f \<noteq> [MESSAGE_SYNC]) fs = map (block_of r0 pays) ks \<and>
        (\<forall>k \<in> set ks. r0 \<le> k \<and> k < r0 + length pays \<and> c \<le> k + MAX_PENDING_BLOCKS) \<and>
        sorted_wrt (\<lambda>a b. a < b + MAX_PENDING_BLOCKS) ks)"

definition up_ok :: "nat \<Rightarrow> nat \<Rightarrow> u8 list list \<Rightarrow> bool" where
  "up_ok r c fs \<longleftrightarrow>
     (\<exists>ks. fs = map (\<lambda>(k, pay). frame (seq_byte k) pay) ks \<and>
        (\<forall>(k, pay) \<in> set ks. r \<le> k \<and> k \<le> c \<and> length pay \<le> MESSAGE_PAYLOAD_MAX) \<and> sorted (map fst ks))"

definition host_ok :: "nat \<Rightarrow> u8 list list \<Rightarrow> 't serialqueue \<Rightarrow> bool" where
  "host_ok r0 pays s \<longleftrightarrow> link_ok s (drop (unat (receive_seq s) - r0) pays) \<and> input_ready s \<and>
     r0 \<le> unat (receive_seq s) \<and> unat (receive_seq s) \<le> r0 + length pays \<and> unat (send_seq s) = r0 + length pays \<and>
     (\<forall>pay \<in> set pays. length pay \<le> MESSAGE_PAYLOAD_MAX)"

definition fw_ok :: "nat \<Rightarrow> serial \<Rightarrow> bool" where
  "fw_ok c s \<longleftrightarrow> next_sequence s = seq_byte c \<and> \<not> sync_need_sync s \<and> \<not> in_sendf s \<and> tx_ok s"

definition link_inv :: "nat \<Rightarrow> nat \<Rightarrow> 't link \<Rightarrow> bool" where
  "link_inv r0 c l \<longleftrightarrow> host_ok r0 (sent l) (host l) \<and> fw_ok c (fw l) \<and>
     unat (receive_seq (host l)) \<le> c \<and> c \<le> r0 + length (sent l) \<and> executed l = take (c - r0) (sent l) \<and>
     down_ok r0 (sent l) c (down l) \<and> up_ok (unat (receive_seq (host l))) c (up l)"

lemma link_inv_start:
  assumes "link_start l"
  shows "link_inv (unat (receive_seq (host l))) (unat (receive_seq (host l))) l"
  using assms by (auto simp: link_start_def link_inv_def host_ok_def fw_ok_def down_ok_def up_ok_def link_ok_def)

lemma host_okD:
  assumes "host_ok r0 pays s"
  shows "r0 + length pays \<le> unat (receive_seq s) + MAX_PENDING_BLOCKS"
  using assms link_okD(3) by (fastforce simp: host_ok_def)

subsection \<open>The lines\<close>

lemma block_of_long [simp]: "block_of r0 pays k \<noteq> [MESSAGE_SYNC]"
  by (simp add: block_of_def frame_def frame_head_def Let_def)

lemma down_ok_lose: "down_ok r0 pays c (fs @ f # gs) \<Longrightarrow> down_ok r0 pays c (fs @ gs)"
proof -
  assume "down_ok r0 pays c (fs @ f # gs)"
  then obtain ks where ks: "filter (\<lambda>f. f \<noteq> [MESSAGE_SYNC]) (fs @ f # gs) = map (block_of r0 pays) ks"
    "\<forall>k \<in> set ks. r0 \<le> k \<and> k < r0 + length pays \<and> c \<le> k + MAX_PENDING_BLOCKS"
    "sorted_wrt (\<lambda>a b. a < b + MAX_PENDING_BLOCKS) ks" unfolding down_ok_def by blast
  show ?thesis
  proof (cases "f = [MESSAGE_SYNC]")
    case True
    then have "filter (\<lambda>f. f \<noteq> [MESSAGE_SYNC]) (fs @ gs) = map (block_of r0 pays) ks" using ks(1) by simp
    then show ?thesis using ks(2,3) unfolding down_ok_def by blast
  next
    case False
    then obtain as k bs where "ks = as @ k # bs" "filter (\<lambda>f. f \<noteq> [MESSAGE_SYNC]) fs = map (block_of r0 pays) as"
      "filter (\<lambda>f. f \<noteq> [MESSAGE_SYNC]) gs = map (block_of r0 pays) bs"
      using ks(1) by (auto simp: map_eq_append_conv append_eq_map_conv Cons_eq_map_conv map_eq_Cons_conv)
    then show ?thesis using ks(2,3) unfolding down_ok_def
      by (intro exI [of _ "as @ bs"]) (simp add: sorted_wrt_append)
  qed
qed

lemma up_ok_lose: "up_ok r c (fs @ f # gs) \<Longrightarrow> up_ok r c (fs @ gs)"
proof -
  assume "up_ok r c (fs @ f # gs)"
  then obtain ks where ks: "fs @ f # gs = map (\<lambda>(k, pay). frame (seq_byte k) pay) ks"
    "\<forall>(k, pay) \<in> set ks. r \<le> k \<and> k \<le> c \<and> length pay \<le> MESSAGE_PAYLOAD_MAX" "sorted (map fst ks)" unfolding up_ok_def by blast
  then obtain as k bs where "ks = as @ k # bs" "fs = map (\<lambda>(k, pay). frame (seq_byte k) pay) as"
    "gs = map (\<lambda>(k, pay). frame (seq_byte k) pay) bs"
    by (auto simp: append_eq_map_conv Cons_eq_map_conv)
  then show ?thesis using ks(2,3) unfolding up_ok_def by (intro exI [of _ "as @ bs"]) (auto simp: sorted_append)
qed

text \<open>Blocks that the host writes: all that it may write are after \<open>r\<close>.\<close>

lemma down_ok_append:
  assumes "down_ok r0 pays c fs" "r0 \<le> a" "r0 + length (pays @ new) \<le> a + MAX_PENDING_BLOCKS" "c \<le> r0 + length pays"
    "filter (\<lambda>f. f \<noteq> [MESSAGE_SYNC]) gs = map (block_of r0 (pays @ new)) [a..<r0 + length (pays @ new)]"
  shows "down_ok r0 (pays @ new) c (fs @ gs)"
proof -
  obtain ks where ks: "filter (\<lambda>f. f \<noteq> [MESSAGE_SYNC]) fs = map (block_of r0 pays) ks"
    "\<forall>k \<in> set ks. r0 \<le> k \<and> k < r0 + length pays \<and> c \<le> k + MAX_PENDING_BLOCKS"
    "sorted_wrt (\<lambda>a b. a < b + MAX_PENDING_BLOCKS) ks" using assms(1) unfolding down_ok_def by blast
  have "map (block_of r0 pays) ks = map (block_of r0 (pays @ new)) ks"
    using ks(2) by (auto simp: block_of_def nth_append)
  then have 1: "filter (\<lambda>f. f \<noteq> [MESSAGE_SYNC]) (fs @ gs) = map (block_of r0 (pays @ new)) (ks @ [a..<r0 + length (pays @ new)])"
    using ks(1) assms(5) by simp
  have 2: "sorted_wrt (\<lambda>a b. a < b + MAX_PENDING_BLOCKS) (ks @ [a..<r0 + length (pays @ new)])"
  proof -
    have "x < y + MAX_PENDING_BLOCKS" if "x \<in> set ks" "a \<le> y" for x y
    proof -
      have "x < r0 + length (pays @ new)" using ks(2) that(1) by fastforce
      also have "\<dots> \<le> y + MAX_PENDING_BLOCKS" using assms(3) that(2) by simp
      finally show ?thesis .
    qed
    moreover have "sorted_wrt (\<lambda>a b. a < b + MAX_PENDING_BLOCKS) [a..<r0 + length (pays @ new)]"
      by (rule sorted_wrt_mono_rel [OF _ sorted_wrt_upt]) simp
    ultimately show ?thesis using ks(3) by (simp add: sorted_wrt_append)
  qed
  have 3: "\<forall>k \<in> set (ks @ [a..<r0 + length (pays @ new)]). r0 \<le> k \<and> k < r0 + length (pays @ new) \<and> c \<le> k + MAX_PENDING_BLOCKS"
    using ks(2) assms(2,3,4) by auto
  show ?thesis unfolding down_ok_def using 1 2 3 by blast
qed

lemma up_ok_append:
  assumes "up_ok r c fs" "r \<le> c" "length pay \<le> MESSAGE_PAYLOAD_MAX" "gs \<in> {[], [frame (seq_byte c) pay]}"
  shows "up_ok r c (fs @ gs)"
proof -
  obtain ks where ks: "fs = map (\<lambda>(k, pay). frame (seq_byte k) pay) ks"
    "\<forall>(k, pay) \<in> set ks. r \<le> k \<and> k \<le> c \<and> length pay \<le> MESSAGE_PAYLOAD_MAX" "sorted (map fst ks)"
    using assms(1) unfolding up_ok_def by blast
  show ?thesis
  proof (cases "gs = []")
    case True
    then show ?thesis using assms(1) by simp
  next
    case False
    then have "fs @ gs = map (\<lambda>(k, pay). frame (seq_byte k) pay) (ks @ [(c, pay)])" using assms(4) ks(1) by simp
    moreover have "sorted (map fst (ks @ [(c, pay)]))" using ks(2,3) by (fastforce simp: sorted_append)
    ultimately show ?thesis using ks(2) assms(2,3) unfolding up_ok_def by (intro exI [of _ "ks @ [(c, pay)]"]) auto
  qed
qed

lemma up_ok_mono: "up_ok r c fs \<Longrightarrow> c \<le> c' \<Longrightarrow> up_ok r c' fs"
  unfolding up_ok_def by (elim exE conjE, rule exI, intro conjI, assumption) (fastforce, assumption)

subsection \<open>The host's steps\<close>

lemma frames_from_block:
  "frames_from r pays = map (\<lambda>k. frame (seq_byte k) (pays ! (k - r))) [r..<r + length pays]"
  by (rule nth_equalityI) (simp_all add: frames_from_def)

lemma frames_from_drop:
  assumes "r0 \<le> r" "r \<le> r0 + length pays"
  shows "frames_from r (drop (r - r0) pays) = map (block_of r0 pays) [r..<r0 + length pays]"
proof -
  have "r + length (drop (r - r0) pays) = r0 + length pays" using assms by simp
  then show ?thesis unfolding frames_from_block using assms by (auto simp: block_of_def add.commute [of r0] intro!: map_cong)
qed

lemma no_sync_blocks: "filter (\<lambda>f. f \<noteq> [MESSAGE_SYNC]) (map (block_of r0 pays) ks) = map (block_of r0 pays) ks"
  by (induction ks) simp_all

lemma payload_frame: "payload (frame q pay) = pay"
  by (simp add: payload_def frame_def frame_head_def Let_def message_consts)

lemma input_ready_cong: "input_state s' = input_state s \<Longrightarrow> input_ready s' = input_ready s"
  by (simp add: input_ready_def input_state_def)

lemma inv_command:
  assumes "link_inv r0 c l" "\<not> f_eq (env_fp E) (PR_NEVER (env_fp E)) (PR_NOW (env_fp E))"
    "command_event fuel E t (host l) = Some (Ret w s')" "unat (receive_seq (host l)) + MAX_PENDING_BLOCKS + 1 < 2 ^ 64"
    "blocks = map msg_bytes (drop (length (sent_queue (host l))) (sent_queue s'))"
  shows "link_inv r0 c (l\<lparr>host := s', down := down l @ blocks, sent := sent l @ map payload blocks\<rparr>)"
proof -
  let ?s = "host l" and ?r = "unat (receive_seq (host l))" and ?P = "sent l"
  let ?D = "drop (?r - r0) ?P"
  have h: "host_ok r0 ?P ?s" "?r \<le> c" "c \<le> r0 + length ?P" using assms(1) by (simp_all add: link_inv_def)
  then have lk: "link_ok ?s ?D" and r: "r0 \<le> ?r" "?r \<le> r0 + length ?P" and n: "unat (send_seq ?s) = r0 + length ?P"
    and pm: "\<forall>pay \<in> set ?P. length pay \<le> MESSAGE_PAYLOAD_MAX"
    by (simp_all add: host_ok_def)
  have "receive_seq ?s \<noteq> - 1"
  proof
    assume "receive_seq ?s = - 1"
    then have "?r = 2 ^ 64 - 1" by (simp add: unsigned_minus_1_eq_mask mask_eq_exp_minus_1)
    then show False using assms(4) by simp
  qed
  note lp = command_loop_link [OF lk this assms(4,2)]
  have ge: "command_loop fuel E t [] ?s = Some (Ret w s')" using assms(3) by (simp add: command_event_def)
  have mono: "command_loop (fuel + k) E t buf s = Some res" if "command_loop fuel E t buf s = Some res" for k buf s res
    using that
  proof (induction fuel arbitrary: buf s)
    case (Suc fuel)
    then show ?case by (auto simp: Let_def split: prod.splits if_splits res.splits)
  qed simp
  have "MAX_PENDING_BLOCKS - length ?D < fuel + Suc MAX_PENDING_BLOCKS" by simp
  from lp [OF this, of t "[]"] mono [OF ge, of "Suc MAX_PENDING_BLOCKS"] obtain new where
    new: "receive_seq s' = receive_seq ?s" "link_ok s' (?D @ new)" by auto
  have dn: "?D @ new = drop (?r - r0) (?P @ new)" using r by simp
  have lq: "length (sent_queue ?s) = length ?D" using link_okD(1) [OF lk] .
  have fr: "map msg_bytes (sent_queue s') = map (block_of r0 (?P @ new)) [?r..<r0 + length (?P @ new)]"
    unfolding sent_frames [OF new(2)] new(1) dn using r by (intro frames_from_drop) simp_all
  have blocks: "blocks = map (block_of r0 (?P @ new)) [r0 + length ?P..<r0 + length (?P @ new)]"
  proof -
    have "blocks = drop (length ?D) (map msg_bytes (sent_queue s'))" unfolding assms(5) lq drop_map ..
    also have "\<dots> = map (block_of r0 (?P @ new)) (drop (length ?D) [?r..<r0 + length (?P @ new)])" unfolding fr drop_map ..
    also have "drop (length ?D) [?r..<r0 + length (?P @ new)] = [?r + length ?D..<r0 + length (?P @ new)]" by simp
    also have "?r + length ?D = r0 + length ?P" using r by simp
    finally show ?thesis .
  qed
  have pl: "map payload blocks = new"
    unfolding blocks by (rule nth_equalityI) (simp_all add: block_of_def payload_frame nth_append)
  have sn: "unat (send_seq s') = r0 + length (?P @ new)" using link_okD(2) [OF new(2)] new(1) r by simp
  have le: "r0 + length (?P @ new) \<le> ?r + MAX_PENDING_BLOCKS" using link_okD(3) [OF new(2)] r by simp
  have "\<forall>pay \<in> set (?P @ new). length pay \<le> MESSAGE_PAYLOAD_MAX" using pm link_payloads [OF new(2)] by auto
  then have "host_ok r0 (?P @ new) s'"
    using new r sn input_ready_cong [OF command_loop_input [OF ge]] h(1) unfolding host_ok_def dn [symmetric] by simp
  moreover have "down_ok r0 (?P @ new) c (down l @ blocks)"
  proof (rule down_ok_append)
    show "down_ok r0 ?P c (down l)" using assms(1) by (simp add: link_inv_def)
    show "filter (\<lambda>f. f \<noteq> [MESSAGE_SYNC]) blocks = map (block_of r0 (?P @ new)) [r0 + length ?P..<r0 + length (?P @ new)]"
      unfolding blocks by (rule no_sync_blocks)
  qed (use h(3) le r in simp_all)
  ultimately show ?thesis
    using assms(1) new(1) h(3) unfolding link_inv_def pl by simp
qed

lemma inv_retransmit:
  assumes "link_inv r0 c l" "retransmit_event E t (host l) = Ret w s'"
  shows "link_inv r0 c (l\<lparr>host := s', down := down l @ [MESSAGE_SYNC] # map msg_bytes (sent_queue (host l))\<rparr>)"
proof -
  let ?s = "host l" and ?r = "unat (receive_seq (host l))" and ?P = "sent l"
  have h: "host_ok r0 ?P ?s" "c \<le> r0 + length ?P" using assms(1) by (simp_all add: link_inv_def)
  then have lk: "link_ok ?s (drop (?r - r0) ?P)" and r: "r0 \<le> ?r" "?r \<le> r0 + length ?P" by (simp_all add: host_ok_def)
  have ls: "link_state s' = link_state ?s" using retransmit_link [OF lk, of E t] assms(2) by auto
  then have sq: "receive_seq s' = receive_seq ?s" "send_seq s' = send_seq ?s" by (simp_all add: link_state_def)
  have "host_ok r0 ?P s'"
    using h(1) sq link_ok_cong [OF ls] input_ready_cong [OF retransmit_input [OF assms(2)]] by (simp add: host_ok_def)
  moreover have "down_ok r0 (?P @ []) c (down l @ [MESSAGE_SYNC] # map msg_bytes (sent_queue ?s))"
  proof (rule down_ok_append)
    show "down_ok r0 ?P c (down l)" using assms(1) by (simp add: link_inv_def)
    show "r0 + length (?P @ []) \<le> ?r + MAX_PENDING_BLOCKS" using host_okD [OF h(1)] by simp
    show "filter (\<lambda>f. f \<noteq> [MESSAGE_SYNC]) ([MESSAGE_SYNC] # map msg_bytes (sent_queue ?s)) =
        map (block_of r0 (?P @ [])) [?r..<r0 + length (?P @ [])]"
      using sent_frames [OF lk] frames_from_drop [OF r] by (simp add: no_sync_blocks)
  qed (use h(2) r in simp_all)
  ultimately show ?thesis using assms(1) sq unfolding link_inv_def by simp
qed

lemma inv_read:
  assumes "link_inv r0 c l" "readers_ok E" "up l = f # fs" "input_event E (Rd_bytes f) t (host l) = Ret () s'"
  shows "link_inv r0 c (l\<lparr>up := fs, host := s'\<rparr>)"
proof -
  let ?s = "host l" and ?r = "unat (receive_seq (host l))" and ?P = "sent l"
  have h: "host_ok r0 ?P ?s" "?r \<le> c" "c \<le> r0 + length ?P" using assms(1) by (simp_all add: link_inv_def)
  then have lk: "link_ok ?s (drop (?r - r0) ?P)" and r: "r0 \<le> ?r" "?r \<le> r0 + length ?P" and i: "input_ready ?s"
    by (simp_all add: host_ok_def)
  obtain k pay ks where ks: "f = frame (seq_byte k) pay" "fs = map (\<lambda>(k, pay). frame (seq_byte k) pay) ks"
    "?r \<le> k" "k \<le> c" "length pay \<le> MESSAGE_PAYLOAD_MAX"
    "\<forall>(j, p) \<in> set ks. k \<le> j \<and> j \<le> c \<and> length p \<le> MESSAGE_PAYLOAD_MAX" "sorted (map fst ks)"
    using assms(1,3) unfolding link_inv_def up_ok_def by (fastforce simp: Cons_eq_map_conv)
  have le: "k \<le> ?r + length (drop (?r - r0) ?P)" using ks(4) h(3) r by simp
  from input_event_link [OF lk assms(2) i ks(5,3) disjI1 [OF le], of t] assms(4) ks(1) le have
    n: "input_ready s'" "unat (receive_seq s') = k" "send_seq s' = send_seq ?s" "link_ok s' (drop (k - ?r) (drop (?r - r0) ?P))"
    by auto
  have "drop (k - ?r) (drop (?r - r0) ?P) = drop (k - r0) ?P" using ks(3) r by simp
  then have "host_ok r0 ?P s'" using n h(1,3) ks(3,4) r unfolding host_ok_def by simp
  moreover have "up_ok k c fs" using ks(2,6,7) unfolding up_ok_def by blast
  ultimately show ?thesis using assms(1) n(2) ks(4) unfolding link_inv_def by simp
qed

lemma inv_other:
  assumes "link_inv r0 c l" "link_state s' = link_state (host l)" "input_state s' = input_state (host l)"
  shows "link_inv r0 c (l\<lparr>host := s'\<rparr>)"
  using assms(1) link_ok_cong [OF assms(2)] input_ready_cong [OF assms(3)] assms(2)
  by (simp add: link_inv_def host_ok_def link_state_def)

subsection \<open>The firmware's steps\<close>

lemma inv_response:
  assumes "link_inv r0 c l" "command_encodef int16 ce args (fw l) = Ret (length out + 5, out) s1"
    "length out + 5 \<le> ce_max_size ce" "ce_max_size ce \<le> MESSAGE_MAX"
    "command_sendf (console_sendf n1 n2 n3 int16) ce args (fw l) = Ret () s'"
  shows "link_inv r0 c (l\<lparr>fw := s', up := up l @ queued (fw l) s'\<rparr>)"
proof -
  have f: "fw_ok c (fw l)" "unat (receive_seq (host l)) \<le> c" using assms(1) by (simp_all add: link_inv_def)
  have "tx_ok s' \<and> cmd_part s' = cmd_part (fw l) \<and> queued (fw l) s' \<in> {[], [frame (seq_byte c) out]}"
    using sendf_answer [OF _ assms(2,3,5)] f(1) by (simp add: fw_ok_def)
  moreover have "length out \<le> MESSAGE_PAYLOAD_MAX" using assms(3,4) by (simp add: MESSAGE_PAYLOAD_MAX_def message_consts)
  ultimately show ?thesis
    using assms(1) f up_ok_append [of _ c "up l" out "queued (fw l) s'"] by (auto simp: link_inv_def fw_ok_def cmd_part_def)
qed

lemma inv_interrupt:
  assumes "link_inv r0 c l"
  shows "link_inv r0 c (l\<lparr>fw := tx_irqs n (fw l)\<rparr>)"
  using assms tx_irqs_ok [of "fw l" n] tx_irqs_cmd [of n "fw l"] by (simp add: link_inv_def fw_ok_def cmd_part_def)

text \<open>The block executed is the next one: two numbers less than 16 apart with the same sequence byte are equal.\<close>

lemma seq_byte_near:
  assumes "seq_byte k = seq_byte c" "k < c + 16" "c < k + 16"
  shows "k = c"
proof -
  have m: "k mod 16 = c mod 16" using assms(1) by (simp add: seq_byte_eq)
  have near: "a = b" if "a mod 16 = b mod 16" "b \<le> a" "a < b + 16" for a b :: nat
  proof -
    have "16 dvd a - b" using that(1) unfolding mod_eq_dvd_iff_nat [OF that(2)] .
    then have "a - b = 0 \<or> 16 \<le> a - b" using dvd_imp_le by blast
    then show ?thesis using that(2,3) by arith
  qed
  show ?thesis using near [of k c] near [of c k] m assms(2,3) by (cases "c \<le> k") simp_all
qed

lemma inv_block:
  assumes "link_inv r0 c l" "down l = f # fs"
    "command_find_block (console_sendf n1 n2 n3 int16) (f @ rest) (fw l) = Ret (r, n) s'" "r \<noteq> 0"
  shows "n = length f" "\<exists>c'. link_inv r0 c' (l\<lparr>down := fs, fw := s', up := up l @ queued (fw l) s',
    executed := executed l @ (if r > 0 then [payload f] else [])\<rparr>)"
proof -
  have w: "fw_ok c (fw l)" "unat (receive_seq (host l)) \<le> c" "host_ok r0 (sent l) (host l)"
    using assms(1) by (simp_all add: link_inv_def)
  then have r0: "r0 \<le> c" by (simp add: host_ok_def)
  obtain ks where ks: "filter (\<lambda>f. f \<noteq> [MESSAGE_SYNC]) (f # fs) = map (block_of r0 (sent l)) ks"
    "\<forall>k \<in> set ks. r0 \<le> k \<and> k < r0 + length (sent l) \<and> c \<le> k + MAX_PENDING_BLOCKS"
    "sorted_wrt (\<lambda>a b. a < b + MAX_PENDING_BLOCKS) ks" using assms(1,2) unfolding link_inv_def down_ok_def by fastforce
  have "n = length f \<and> (\<exists>c'. link_inv r0 c' (l\<lparr>down := fs, fw := s', up := up l @ queued (fw l) s',
    executed := executed l @ (if r > 0 then [payload f] else [])\<rparr>))"
  proof (cases "f = [MESSAGE_SYNC]")
    case True
    have "r = -1 \<and> n = 1 \<and> s' = fw l"
      by (rule find_block_sync [OF _ _ assms(4)]) (use assms(3) w(1) True in \<open>simp_all add: fw_ok_def\<close>)
    moreover have "down_ok r0 (sent l) c fs" using ks True unfolding down_ok_def by auto
    ultimately show ?thesis using assms(1) True by (auto simp: link_inv_def queued_def intro!: exI [of _ c])
  next
    case False
    then obtain k js where k: "ks = k # js" "f = block_of r0 (sent l) k"
      "filter (\<lambda>f. f \<noteq> [MESSAGE_SYNC]) fs = map (block_of r0 (sent l)) js" using ks(1) by (auto simp: Cons_eq_map_conv)
    let ?pay = "sent l ! (k - r0)"
    have kr: "r0 \<le> k" "k < r0 + length (sent l)" "c \<le> k + MAX_PENDING_BLOCKS" using ks(2) k(1) by simp_all
    then have "?pay \<in> set (sent l)" by simp
    then have pm: "length ?pay \<le> MESSAGE_PAYLOAD_MAX" using w(3) by (simp add: host_ok_def)
    have fr: "f = frame (seq_byte k) ?pay" by (simp add: k(2) block_of_def)
    note fb = find_block_answer [of "fw l" c ?pay n1 n2 n3 int16 k rest r n s']
    have a: "n = length f \<and> tx_ok s' \<and> \<not> sync_need_sync s' \<and> in_sendf s' = in_sendf (fw l) \<and>
        (if seq_byte k = seq_byte c then r = 1 \<and> next_sequence s' = seq_byte (Suc c) \<and> queued (fw l) s' = []
         else r = -1 \<and> next_sequence s' = seq_byte c \<and> queued (fw l) s' \<in> {[], [frame (seq_byte c) []]})"
      unfolding fr by (rule fb) (use w(1) pm assms(3) fr in \<open>simp_all add: fw_ok_def\<close>)
    have js: "\<forall>j \<in> set js. r0 \<le> j \<and> j < r0 + length (sent l) \<and> c \<le> j + MAX_PENDING_BLOCKS \<and> k < j + MAX_PENDING_BLOCKS"
      "sorted_wrt (\<lambda>a b. a < b + MAX_PENDING_BLOCKS) js" using ks(2,3) k(1) by auto
    show ?thesis
    proof (cases "seq_byte k = seq_byte c")
      case True
      have "k < c + 16" using kr host_okD [OF w(3)] w(2) by (simp add: MAX_PENDING_BLOCKS_def)
      moreover have "c < k + 16" using kr by (simp add: MAX_PENDING_BLOCKS_def)
      ultimately have kc: "k = c" by (rule seq_byte_near [OF True])
      have "fw_ok (Suc c) s'" using a True w(1) by (simp add: fw_ok_def)
      moreover have "down_ok r0 (sent l) (Suc c) fs"
        using js k(3) unfolding down_ok_def kc by (intro exI [of _ js]) auto
      moreover have "up_ok (unat (receive_seq (host l))) (Suc c) (up l)"
        using assms(1) up_ok_mono [of _ c _ "Suc c"] by (simp add: link_inv_def)
      moreover have "executed l @ [payload f] = take (Suc c - r0) (sent l)"
        using assms(1) kr r0 kc unfolding fr payload_frame
        by (simp add: link_inv_def Suc_diff_le take_Suc_conv_app_nth)
      moreover have "queued (fw l) s' = []" "r = 1" using a True by simp_all
      ultimately show ?thesis using a assms(1) w(2) kr kc by (auto simp: link_inv_def intro!: exI [of _ "Suc c"])
    next
      case ne: False
      then have b: "fw_ok c s'" "queued (fw l) s' \<in> {[], [frame (seq_byte c) []]}" "r = -1" using a w(1) by (simp_all add: fw_ok_def)
      have "up_ok (unat (receive_seq (host l))) c (up l @ queued (fw l) s')"
        by (rule up_ok_append [OF _ w(2) _ b(2)]) (use assms(1) in \<open>simp_all add: link_inv_def\<close>)
      moreover have "down_ok r0 (sent l) c fs" using js k(3) unfolding down_ok_def by (intro exI [of _ js]) simp
      ultimately show ?thesis using a b assms(1) by (auto simp: link_inv_def intro!: exI [of _ c])
    qed
  qed
  then show "n = length f" "\<exists>c'. link_inv r0 c' (l\<lparr>down := fs, fw := s', up := up l @ queued (fw l) s',
    executed := executed l @ (if r > 0 then [payload f] else [])\<rparr>)" by blast+
qed

lemma inv_step:
  assumes "link_step E l l'" "readers_ok E" "\<not> f_eq (env_fp E) (PR_NEVER (env_fp E)) (PR_NOW (env_fp E))" "link_inv r0 c l"
  shows "\<exists>c'. link_inv r0 c' l'"
  using assms(1)
proof cases
  case (command fuel t w s' blocks)
  show ?thesis using inv_command [OF assms(4,3) command(2-4)] command(1) by blast
next
  case (retransmit t w s')
  then show ?thesis using inv_retransmit [OF assms(4)] by blast
next
  case (lost_down fs f gs)
  then show ?thesis using assms(4) down_ok_lose by (fastforce simp: link_inv_def)
next
  case (block f fs n1 n2 n3 int16 rest r n s')
  show ?thesis using inv_block(2) [OF assms(4) block(2-4)] block(1) by simp
next
  case (response int16 ce args out s1 n1 n2 n3 s')
  show ?thesis using inv_response [OF assms(4) response(2-5)] response(1) by blast
next
  case (interrupt n)
  then show ?thesis using inv_interrupt [OF assms(4)] by blast
next
  case (lost_up fs f gs)
  then show ?thesis using assms(4) up_ok_lose by (fastforce simp: link_inv_def)
next
  case (read f fs t s')
  show ?thesis using inv_read [OF assms(4,2) read(2,3)] read(1) by blast
next
  case (other s')
  then show ?thesis using inv_other [OF assms(4)] by blast
qed

lemma inv_reach:
  assumes "(link_step E)\<^sup>*\<^sup>* l0 l" "readers_ok E" "\<not> f_eq (env_fp E) (PR_NEVER (env_fp E)) (PR_NOW (env_fp E))" "link_start l0"
  shows "\<exists>c. link_inv (unat (receive_seq (host l0))) c l"
  using assms(1)
proof induction
  case base
  then show ?case using link_inv_start [OF assms(4)] by blast
next
  case (step l l')
  then show ?case using inv_step [OF step.hyps(2) assms(2,3)] by blast
qed

section \<open>Delivery\<close>

text \<open>
  C3: Whatever blocks and answers are lost, and however often the host retransmits, the firmware executes the
  blocks that the host built in the order in which it built them, each exactly once: what it has executed is
  an initial part of what was built. Every block that the host takes for acknowledged has been executed, and
  never more than \<open>MAX_PENDING_BLOCKS\<close> blocks wait for that.
\<close>

theorem blocks_executed_once_in_order:
  assumes "link_start l0" "(link_step E)\<^sup>*\<^sup>* l0 l" "readers_ok E" "\<not> f_eq (env_fp E) (PR_NEVER (env_fp E)) (PR_NOW (env_fp E))"
  shows "executed l = take (length (executed l)) (sent l) \<and>
    unat (receive_seq (host l)) - unat (receive_seq (host l0)) \<le> length (executed l) \<and>
    length (sent l) \<le> unat (receive_seq (host l)) - unat (receive_seq (host l0)) + MAX_PENDING_BLOCKS"
proof -
  obtain c where c: "link_inv (unat (receive_seq (host l0))) c l" using inv_reach [OF assms(2-4,1)] by blast
  then have h: "host_ok (unat (receive_seq (host l0))) (sent l) (host l)" by (simp add: link_inv_def)
  have "length (executed l) = c - unat (receive_seq (host l0))" using c by (auto simp: link_inv_def)
  then show ?thesis using c host_okD [OF h] h by (auto simp: link_inv_def host_ok_def)
qed

subsection \<open>Recovery\<close>








section \<open>What is on the line\<close>

text \<open>
  On a serial line whose writes succeed, what the steps \<open>command\<close> and \<open>retransmit\<close> put on their way is what the
  code writes: \<open>command_event\<close> writes the blocks it adds to \<open>sent_queue\<close>, one behind the other, and
  \<open>retransmit_event\<close> always returns and writes a synchronisation byte and all blocks that wait for an acknowledgement.
\<close>

theorem line_carries_blocks:
  assumes "link_ok s pays" "serial_fd_type s \<noteq> SQT_CAN" "\<And>n. wr_ok E n"
  shows "(\<forall>w s'. command_event fuel E t s = Some (Ret w s') \<longrightarrow>
      concat (wire s') = concat (wire s) @ concat (map msg_bytes (drop (length (sent_queue s)) (sent_queue s')))) \<and>
    (\<exists>w s'. retransmit_event E t s = Ret w s' \<and> wire s' = wire s @ [MESSAGE_SYNC # concat (map msg_bytes (sent_queue s))])"
proof (intro conjI allI impI)
  fix w s' assume "command_event fuel E t s = Some (Ret w s')"
  then have "command_loop fuel E t [] s = Some (Ret w s')" by (simp add: command_event_def)
  from command_loop_wire [OF this assms(2,3)] obtain blocks where
    b: "map msg_bytes (sent_queue s') = map msg_bytes (sent_queue s) @ blocks" "concat (wire s') = concat (wire s) @ concat blocks"
    by auto
  have "map msg_bytes (drop (length (sent_queue s)) (sent_queue s')) = drop (length (map msg_bytes (sent_queue s))) (map msg_bytes (sent_queue s'))"
    by (simp add: drop_map)
  then have "map msg_bytes (drop (length (sent_queue s)) (sent_queue s')) = blocks" unfolding b(1) by simp
  then show "concat (wire s') = concat (wire s) @ concat (map msg_bytes (drop (length (sent_queue s)) (sent_queue s')))"
    using b(2) by simp
next
  show "\<exists>w s'. retransmit_event E t s = Ret w s' \<and> wire s' = wire s @ [MESSAGE_SYNC # concat (map msg_bytes (sent_queue s))]"
    using retransmit_link [OF assms(1), of E t] assms(2,3) unfolding sent_frames [OF assms(1)] by blast
qed

section \<open>The start of a connection\<close>

text \<open>
  The first answer of the firmware puts the two ends in step: whatever number \<open>c\<close> the firmware expects (16, from
  the byte \<open>0x10\<close>, after a reset), the host continues with it. When the host has built blocks up to \<open>c\<close> or beyond,
  those from \<open>c\<close> on still wait for an acknowledgement; otherwise nothing waits and the next block is number \<open>c\<close>.
\<close>

theorem connection_start:
  assumes "link_ok s pays" "receive_seq s = 1" "input_ready s" "readers_ok E" "length pay \<le> MESSAGE_PAYLOAD_MAX" "1 \<le> c" "c < 17"
  shows "\<exists>s'. input_event E (Rd_bytes (frame (seq_byte c) pay)) t s = Ret () s' \<and> input_ready s' \<and>
    receive_seq s' = of_nat c \<and> send_seq s' = of_nat (max c (1 + length pays)) \<and>
    map msg_bytes (sent_queue s') = frames_from c (drop (c - 1) pays)"
proof -
  have u: "unat (receive_seq s) = 1" using assms(2) by simp
  obtain s' where s': "input_event E (Rd_bytes (frame (seq_byte c) pay)) t s = Ret () s'" "input_ready s'"
      "unat (receive_seq s') = c" "link_ok s' (drop (c - 1) pays)"
    using input_event_link [OF assms(1,4,3,5), of c t] assms(2,6,7) by auto
  have r: "receive_seq s' = of_nat c" unfolding s'(3) [symmetric] by simp
  have n: "unat (send_seq s') = max c (1 + length pays)" using link_okD(2) [OF s'(4)] s'(3) assms(6) by auto
  have "send_seq s' = of_nat (max c (1 + length pays))" unfolding n [symmetric] by simp
  then show ?thesis using s'(1,2) r sent_frames [OF s'(4)] unfolding s'(3) by blast
qed

section \<open>An instance\<close>

text \<open>Times are integers; a host with one command to send, and a firmware that expects block 1.\<close>

definition demo_fp :: "int fp" where
  "demo_fp = \<lparr>f_lit = (\<lambda>x. if x = ''0.'' then 0 else if x = ''9999999999999999.'' then 9999 else 1), f_of_int = (\<lambda>n. n),
     f_add = (+), f_sub = (-), f_mul = (*), f_div = (div), f_neg = uminus, f_less = (<), f_le = (\<le>), f_eq = (=), f_abs = abs,
     f_ceil = (\<lambda>n. n), f_sqrt = (\<lambda>n. n), f_sin = (\<lambda>n. 0), f_cos = (\<lambda>n. 1), f_atan2 = (\<lambda>y x. 0), f_i64 = (\<lambda>n. n), f_u64 = (\<lambda>n. n)\<rparr>"

definition demo_sq_env :: "(int, int serialqueue) sq_env" where
  "demo_sq_env = \<lparr>env_fp = demo_fp, mono = int, wr_ok = (\<lambda>_. True), call_fastreader = (\<lambda>fr buf len s. Ret () s)\<rparr>"

definition demo_host :: "int serialqueue" where
  "demo_host = serialqueue_send_one 0 (message_alloc\<lparr>qm_len := 1, qm_msg := 7 # replicate 63 0\<rparr>) (serialqueue_alloc demo_fp SQT_UART 0)"

definition demo_fw :: serial where
  "demo_fw = cmd_state.extend (cmd_init\<lparr>next_sequence := 0x11\<rparr>) (serial.fields (replicate 192 0) 0 (replicate 96 0) 0 0 [] 0)"

definition demo_link :: "int link" where
  "demo_link = \<lparr>host = demo_host, down = [], fw = demo_fw, up = [], sent = [], executed = []\<rparr>"

lemma demo_env: "readers_ok demo_sq_env" "\<not> f_eq (env_fp demo_sq_env) (PR_NEVER (env_fp demo_sq_env)) (PR_NOW (env_fp demo_sq_env))"
  by (simp_all add: readers_ok_def demo_sq_env_def demo_fp_def PR_NEVER_def PR_NOW_def)

lemma demo_fw_sel [simp]:
  "next_sequence demo_fw = 0x11" "sync_need_sync demo_fw = False" "in_sendf demo_fw = False" "transmit_buf demo_fw = replicate 96 0"
  "transmit_pos demo_fw = 0" "transmit_max demo_fw = 0" "tx_line demo_fw = []"
  by (simp_all add: demo_fw_def cmd_init_def cmd_state.defs serial.defs)

lemma seq_byte_1: "seq_byte 1 = 0x11"
  by (simp add: seq_byte_def message_consts)

lemma demo_host_sel [simp]:
  "send_seq demo_host = 1" "receive_seq demo_host = 1" "sent_queue demo_host = []" "need_ack_bytes demo_host = 0"
  "input_pos demo_host = 0" "need_sync demo_host = False" "length (input_buf demo_host) = INPUT_BUF_SIZE"
  "pending_queues demo_host = [0]" "ready_bytes demo_host = 0" "receive_window demo_host = 0" "serial_fd_type demo_host = SQT_UART"
  "cqs demo_host 0 = \<lparr>upcoming_queue = [message_alloc\<lparr>qm_len := 1, qm_msg := 7 # replicate 63 0\<rparr>], ready_queue = []\<rparr>"
  "sq_ce demo_host = \<lparr>ce_last_clock = 0, ce_conv_clock = 0, ce_conv_time = 0, ce_est_freq = 0\<rparr>"
  by (simp_all add: demo_host_def serialqueue_send_one_def serialqueue_send_batch_def Let_def kick_bg_thread_def set_cq_def
      serialqueue_alloc_def pollreactor.defs serialqueue.defs demo_fp_def cq_empty_def fix_min_clock_def message_alloc_def)

lemma demo_start: "link_start demo_link"
  using seq_byte_1 by (simp add: link_start_def demo_link_def link_ok_def input_ready_def tx_ok_def TX_BUFFER_SIZE_def)

lemma demo_check:
  "check_send_command demo_fp 0 5 demo_host = (0, move_ready 5 0 demo_host)"
  by (simp add: check_send_command_def window_full_def Let_def demo_fp_def clock_from_time_def calculate_bittime_def move_ready_def set_cq_def
      message_alloc_def f_zero_def PR_NOW_def MESSAGE_PAYLOAD_MAX_def message_consts MAX_PENDING_BLOCKS_def)

definition demo_ready :: "int serialqueue" where
  "demo_ready = move_ready 5 0 demo_host"

abbreviation demo_msg :: queue_message where
  "demo_msg \<equiv> message_alloc\<lparr>qm_len := 1, qm_msg := 7 # replicate 63 0\<rparr>"

lemma demo_ready_sel [simp]:
  "send_seq demo_ready = 1" "receive_seq demo_ready = 1" "sent_queue demo_ready = []"
  "pending_queues demo_ready = [0]" "ready_bytes demo_ready = 1" "receive_window demo_ready = 0" "serial_fd_type demo_ready = SQT_UART"
  "cqs demo_ready 0 = \<lparr>upcoming_queue = [], ready_queue = [demo_msg]\<rparr>"
  "sq_ce demo_ready = \<lparr>ce_last_clock = 0, ce_conv_clock = 0, ce_conv_time = 0, ce_est_freq = 0\<rparr>"
  by (simp_all add: demo_ready_def move_ready_def Let_def set_cq_def message_alloc_def)

lemma demo_build:
  "build_and_send_command demo_fp 0 5 demo_ready = Ret (make_block 1 [7]) (store_block demo_fp 0 5 (make_block 1 [7]) (take_ready 0 demo_msg demo_ready))"
proof -
  have m: "0 < MAX_CLOCK64" by (simp add: MAX_CLOCK64_def)
  have q: "qm_len demo_msg = 1" "qm_msg demo_msg = 7 # replicate 63 0" "req_clock demo_msg = 0" by (simp_all add: message_alloc_def)
  have f: "find_ready (cqs demo_ready) MAX_CLOCK64 None (pending_queues demo_ready) = Some (0, demo_msg)" using m q by simp
  have t: "ready_bytes (take_ready 0 demo_msg demo_ready) = 0" "send_seq (take_ready 0 demo_msg demo_ready) = 1"
    by (simp_all add: take_ready_def set_cq_def Let_def message_alloc_def)
  have n: "n_ready demo_ready = Suc 0" by (simp add: n_ready_def)
  have "fill_block (Suc 0) [] demo_ready = Ret [7] (take_ready 0 demo_msg demo_ready)"
    using f t q by (simp add: fill_block.simps message_consts)
  then show ?thesis using t by (simp add: build_and_send_command_def n Let_def)
qed

lemma demo_command:
  "\<exists>s'. command_event (Suc (Suc 0)) demo_sq_env 5 demo_host = Some (Ret 9999 s') \<and> map msg_bytes (sent_queue s') = [frame 0x11 [7]]"
proof -
  let ?b = "make_block 1 [7]"
  define s3 where "s3 = store_block demo_fp 0 5 ?b (take_ready 0 demo_msg demo_ready)"
  have F: "env_fp demo_sq_env = demo_fp" "PR_NOW demo_fp = 0" "PR_NEVER demo_fp = 9999" "f_eq demo_fp = (=)"
    by (simp_all add: demo_sq_env_def demo_fp_def PR_NOW_def PR_NEVER_def)
  have b: "build_and_send_command demo_fp 0 5 demo_ready = Ret ?b s3" unfolding s3_def by (rule demo_build)
  have sq: "map msg_bytes (sent_queue s3) = [?b]" using build_and_send_line [OF b] by simp
  have r: "send_seq s3 = 2" "receive_seq s3 = 1" "ready_bytes s3 = 0" "pending_queues s3 = []" "receive_window s3 = 0"
      "ce_est_freq (sq_ce s3) = 0"
    by (simp_all add: s3_def store_block_def take_ready_def set_cq_def Let_def message_alloc_def cq_empty_def pollreactor_update_timer_def)
  have w: "\<not> window_full s3" by (simp add: window_full_def r MAX_PENDING_BLOCKS_def word_le_nat_alt)
  have z: "f_zero demo_fp 0" by (simp add: f_zero_def demo_fp_def)
  have c: "check_send_command demo_fp (length ?b) 5 s3 = (9999, s3\<lparr>need_kick_clock := MAX_CLOCK64\<rparr>)"
    using w by (simp add: check_send_command_def Let_def r F z MESSAGE_PAYLOAD_MAX_def message_consts)
  define s4 where "s4 = flush_blocks demo_sq_env 5 ?b (s3\<lparr>need_kick_clock := MAX_CLOCK64\<rparr>)"
  have 1: "command_loop (Suc 0) demo_sq_env 5 ?b s3 = Some (Ret 9999 s4)" by (simp add: c F Let_def s4_def)
  have "command_event (Suc (Suc 0)) demo_sq_env 5 demo_host = Some (Ret 9999 s4)"
    using demo_check 1 b by (simp add: command_event_def Let_def F MAX_PENDING_BLOCKS_def message_consts flip: demo_ready_def)
  moreover have "sent_queue s4 = sent_queue s3"
    using flush_blocks_link [of demo_sq_env 5 ?b "s3\<lparr>need_kick_clock := MAX_CLOCK64\<rparr>"] by (simp add: s4_def link_state_def)
  moreover have "?b = frame 0x11 [7]" using make_block_frame [of "[7]" 1] seq_byte_1 by (simp add: MESSAGE_PAYLOAD_MAX_def message_consts)
  ultimately show ?thesis using sq by simp
qed

text \<open>The command sent and executed.\<close>

lemma demo_run:
  "\<exists>l. (link_step demo_sq_env)\<^sup>*\<^sup>* demo_link l \<and> sent l = [[7]] \<and> executed l = [[7]]"
proof -
  obtain s' where s': "command_event (Suc (Suc 0)) demo_sq_env 5 demo_host = Some (Ret 9999 s')" "map msg_bytes (sent_queue s') = [frame 0x11 [7]]"
    using demo_command by (elim exE conjE)
  let ?f = "frame 0x11 [7]"
  define l1 where "l1 = demo_link\<lparr>host := s', down := [?f], sent := [[7]]\<rparr>"
  have h: "host demo_link = demo_host" "down demo_link = []" "sent demo_link = []" by (simp_all add: demo_link_def)
  have 1: "link_step demo_sq_env demo_link l1"
  proof -
    have "unat (receive_seq (host demo_link)) + MAX_PENDING_BLOCKS + 1 < 2 ^ 64" unfolding h by (simp add: MAX_PENDING_BLOCKS_def)
    moreover have "[?f] = map msg_bytes (drop (length (sent_queue (host demo_link))) (sent_queue s'))" unfolding h using s'(2) by simp
    moreover have "command_event (Suc (Suc 0)) demo_sq_env 5 (host demo_link) = Some (Ret 9999 s')" unfolding h by (rule s'(1))
    ultimately have "link_step demo_sq_env demo_link (demo_link\<lparr>host := s', down := down demo_link @ [?f], sent := sent demo_link @ map payload [?f]\<rparr>)"
      by (intro link_step.command)
    then show ?thesis by (simp add: l1_def h payload_frame)
  qed
  have "next_sequence demo_fw AND NOT MESSAGE_SEQ_MASK = MESSAGE_DEST" by (simp add: message_consts)
  from find_block_frame [OF this, of "[7]" "console_sendf 0 0 0 False" "[]"] obtain s2 where
    s2: "command_find_block (console_sendf 0 0 0 False) (?f @ []) (fw l1) = Ret (1, 6) s2"
    by (auto simp: l1_def demo_link_def message_consts)
  have d: "down l1 = ?f # []" by (simp add: l1_def)
  have "link_step demo_sq_env l1 (l1\<lparr>down := [], fw := s2, up := up l1 @ queued (fw l1) s2, executed := executed l1 @ (if (1 :: int) > 0 then [payload ?f] else [])\<rparr>)"
    by (rule link_step.block [OF d s2]) simp
  from rtranclp.rtrancl_into_rtrancl [OF r_into_rtranclp [of "link_step demo_sq_env", OF 1] this] show ?thesis
    by (intro exI, intro conjI, assumption) (simp_all add: l1_def demo_link_def payload_frame)
qed

theorem blocks_executed_once_in_order_witness:
  "\<exists>l. (link_step demo_sq_env)\<^sup>*\<^sup>* demo_link l \<and> executed l = [[7]] \<and>
    unat (receive_seq (host l)) - unat (receive_seq (host demo_link)) \<le> 1"
proof -
  obtain l where l: "(link_step demo_sq_env)\<^sup>*\<^sup>* demo_link l" "sent l = [[7]]" "executed l = [[7]]" using demo_run by blast
  show ?thesis using blocks_executed_once_in_order [OF demo_start l(1) demo_env] l by (intro exI [of _ l]) simp
qed


theorem connection_start_witness:
  "\<exists>s'. input_event demo_sq_env (Rd_bytes (frame 0x10 [])) 5 demo_host = Ret () s' \<and> receive_seq s' = 16 \<and> send_seq s' = 16 \<and> sent_queue s' = []"
proof -
  have "link_ok demo_host []" "input_ready demo_host" using demo_start by (simp_all add: link_start_def demo_link_def)
  moreover have "seq_byte 16 = 0x10" by (simp add: seq_byte_bits)
  ultimately show ?thesis using connection_start [of demo_host "[]" demo_sq_env "[]" 16 5] demo_env(1) by (auto simp: frames_from_def)
qed

theorem line_carries_blocks_witness:
  "\<exists>w s'. retransmit_event demo_sq_env 5 demo_host = Ret w s' \<and> wire s' = [[MESSAGE_SYNC]]"
proof -
  have "link_ok demo_host []" using demo_start by (simp add: link_start_def demo_link_def)
  moreover have "wire demo_host = []"
    by (simp add: demo_host_def serialqueue_send_one_def serialqueue_send_batch_def Let_def kick_bg_thread_def set_cq_def
        serialqueue_alloc_def pollreactor.defs serialqueue.defs)
  ultimately show ?thesis using line_carries_blocks [of demo_host "[]" demo_sq_env 1 5] by (simp add: demo_sq_env_def)
qed

end
