(* ===== verification/Trdispatch.thy ===== *)
theory Trdispatch
  imports Serialqueue
begin

text \<open>
  The dispatch of triggers between micro-controllers on the host, \<open>klipper/klippy/chelper/trdispatch.c\<close>: while a move
  is homed, every micro-controller reports regularly; a report that it was triggered makes the host trigger all
  others, and a micro-controller may only go on while reports of the others keep arriving. Definitions only.
\<close>

section \<open>State\<close>

text \<open>
  \<open>tdm_sq\<close> and \<open>tdm_cq\<close> identify the serial queue and the command queue of a micro-controller. The structures are
  known by their position on \<open>tdm_list\<close>.
\<close>

record 't trdispatch_mcu =
  tdm_fr :: fastreader
  tdm_sq :: nat
  tdm_cq :: nat
  tdm_trsync_oid :: u32
  set_timeout_msgtag :: u32
  trigger_msgtag :: u32
  last_status_clock :: u64
  expire_clock :: u64
  tdm_expire_ticks :: u64
  min_extend_ticks :: u64
  tdm_ce :: "'t clock_estimate"

record 't trdispatch =
  tdm_list :: "'t trdispatch_mcu list"
  td_is_active :: bool
  td_can_trigger :: bool
  dispatch_reason :: u32
  sqs :: "nat \<Rightarrow> 't serialqueue"

definition upd_sq :: "nat \<Rightarrow> ('t serialqueue \<Rightarrow> 't serialqueue) \<Rightarrow> 't trdispatch \<Rightarrow> 't trdispatch" where
  "upd_sq q f s = s\<lparr>sqs := (sqs s)(q := f (sqs s q))\<rparr>"

definition upd_tdm :: "nat \<Rightarrow> ('t trdispatch_mcu \<Rightarrow> 't trdispatch_mcu) \<Rightarrow> 't trdispatch \<Rightarrow> 't trdispatch" where
  "upd_tdm i f s = s\<lparr>tdm_list := (tdm_list s)[i := f (tdm_list s ! i)]\<rparr>"

section \<open>Sending\<close>

text \<open>\<open>Fault\<close>: the message would not fit its memory.\<close>

definition send_trsync_trigger :: "nat \<Rightarrow> 't trdispatch \<Rightarrow> ('t trdispatch, unit) res" where
  "send_trsync_trigger i s =
     (let tdm = tdm_list s ! i
      in case message_alloc_and_encode [trigger_msgtag tdm, tdm_trsync_oid tdm, dispatch_reason s] of
           None \<Rightarrow> Fault
         | Some qm \<Rightarrow> Ret () (upd_sq (tdm_sq tdm) (serialqueue_send_one (tdm_cq tdm) qm) s))"

definition send_trsync_set_timeout :: "nat \<Rightarrow> 't trdispatch \<Rightarrow> ('t trdispatch, unit) res" where
  "send_trsync_set_timeout i s =
     (let tdm = tdm_list s ! i
      in case message_alloc_and_encode [set_timeout_msgtag tdm, tdm_trsync_oid tdm, ucast (expire_clock tdm)] of
           None \<Rightarrow> Fault
         | Some qm \<Rightarrow>
             Ret () (upd_sq (tdm_sq tdm) (serialqueue_send_one (tdm_cq tdm) (qm\<lparr>req_clock := expire_clock tdm\<rparr>)) s))"

section \<open>Reports\<close>

text \<open>The loop that triggers all micro-controllers, from the position \<open>i\<close> on.\<close>

fun send_triggers :: "nat list \<Rightarrow> 't trdispatch \<Rightarrow> ('t trdispatch, unit) res" where
  "send_triggers [] s = Ret () s"
| "send_triggers (i # is) s = andthen (send_trsync_trigger i s) (send_triggers is)"

text \<open>
  The search for the least time of the last report and the second least: the values are \<open>min_time\<close>,
  \<open>next_min_time\<close> and \<open>min_tdm\<close>.
\<close>

fun find_min_times :: "'t fp \<Rightarrow> 't trdispatch \<Rightarrow> nat list \<Rightarrow> 't \<Rightarrow> 't \<Rightarrow> nat option \<Rightarrow> 't \<times> 't \<times> nat option" where
  "find_min_times F s [] min_time next_min_time min_tdm = (min_time, next_min_time, min_tdm)"
| "find_min_times F s (i # is) min_time next_min_time min_tdm =
     (let m = tdm_list s ! i; status_time = clock_to_time F (tdm_ce m) (last_status_clock m)
      in if f_less F status_time next_min_time then
           (if f_less F status_time min_time then find_min_times F s is status_time min_time (Some i)
            else find_min_times F s is min_time status_time min_tdm)
         else find_min_times F s is min_time next_min_time min_tdm)"

text \<open>The comparison \<open>(int64_t)(expire - m->expire_clock) >= m->min_extend_ticks\<close> is one of unsigned numbers.\<close>

fun send_timeouts :: "'t fp \<Rightarrow> 't \<Rightarrow> 't \<Rightarrow> nat option \<Rightarrow> nat list \<Rightarrow> 't trdispatch \<Rightarrow> ('t trdispatch, unit) res" where
  "send_timeouts F min_time next_min_time min_tdm [] s = Ret () s"
| "send_timeouts F min_time next_min_time min_tdm (i # is) s =
     (let m = tdm_list s ! i;
          status_time = (if min_tdm = Some i then next_min_time else min_time);
          expire = clock_from_time F (tdm_ce m) status_time + tdm_expire_ticks m
      in andthen (if expire - expire_clock m \<ge> min_extend_ticks m
                  then send_trsync_set_timeout i (upd_tdm i (\<lambda>m. m\<lparr>expire_clock := expire\<rparr>) s)
                  else Ret () s)
           (send_timeouts F min_time next_min_time min_tdm is))"

text \<open>\<open>i\<close> is the micro-controller whose fast reader matched, \<open>data\<close> the message of length \<open>len\<close>.\<close>

definition handle_trsync_state :: "'t fp \<Rightarrow> nat \<Rightarrow> u8 list \<Rightarrow> nat \<Rightarrow> 't trdispatch \<Rightarrow> ('t trdispatch, unit) res" where
  "handle_trsync_state F i data len s =
     (case msgblock_decode 5 data len of
        None \<Rightarrow> Fault
      | Some (ret, vals) \<Rightarrow>
          if ret \<noteq> 0 \<or> vals ! 1 \<noteq> tdm_trsync_oid (tdm_list s ! i) then Ret () s
          else if \<not> td_can_trigger s then Ret () s
          else if vals ! 2 = 0 then send_triggers [0..<length (tdm_list s)] (s\<lparr>td_can_trigger := False\<rparr>)
          else
            (let ce = serialqueue_get_clock_est (sqs s (tdm_sq (tdm_list s ! i)));
                 s1 = upd_tdm i (\<lambda>m. m\<lparr>tdm_ce := ce, last_status_clock := clock_from_clock32 (ce_last_clock ce) (vals ! 4)\<rparr>) s;
                 (min_time, next_min_time, min_tdm) =
                   find_min_times F s1 [0..<length (tdm_list s1)] (PR_NEVER F) (PR_NEVER F) None;
                 next_min_time = (if f_eq F next_min_time (PR_NEVER F) then min_time else next_min_time)
             in send_timeouts F min_time next_min_time min_tdm [0..<length (tdm_list s1)] s1))"

section \<open>Interface\<close>

fun add_fastreaders :: "'t trdispatch_mcu list \<Rightarrow> 't trdispatch \<Rightarrow> 't trdispatch" where
  "add_fastreaders [] s = s"
| "add_fastreaders (tdm # tdms) s = add_fastreaders tdms (upd_sq (tdm_sq tdm) (serialqueue_add_fastreader (tdm_fr tdm)) s)"

definition trdispatch_start :: "u32 \<Rightarrow> 't trdispatch \<Rightarrow> 't trdispatch" where
  "trdispatch_start reason s =
     (if td_is_active s \<or> tdm_list s = [] then s
      else add_fastreaders (tdm_list s) (s\<lparr>dispatch_reason := reason, td_is_active := True, td_can_trigger := True\<rparr>))"

fun rm_fastreaders :: "'t trdispatch_mcu list \<Rightarrow> 't trdispatch \<Rightarrow> 't trdispatch" where
  "rm_fastreaders [] s = s"
| "rm_fastreaders (tdm # tdms) s = rm_fastreaders tdms (upd_sq (tdm_sq tdm) (serialqueue_rm_fastreader (tdm_fr tdm)) s)"

definition trdispatch_stop :: "'t trdispatch \<Rightarrow> 't trdispatch" where
  "trdispatch_stop s = (if \<not> td_is_active s then s else rm_fastreaders (tdm_list s) (s\<lparr>td_is_active := False\<rparr>))"

definition trdispatch_alloc :: "(nat \<Rightarrow> 't serialqueue) \<Rightarrow> 't trdispatch" where
  "trdispatch_alloc qs = \<lparr>tdm_list = [], td_is_active = False, td_can_trigger = False, dispatch_reason = 0, sqs = qs\<rparr>"

text \<open>\<open>frid\<close> identifies the new fast reader; \<open>ce\<close> is the zeroed clock estimate.\<close>

definition trdispatch_mcu_alloc :: "'t fp \<Rightarrow> nat \<Rightarrow> nat \<Rightarrow> nat \<Rightarrow> u32 \<Rightarrow> u32 \<Rightarrow> u32 \<Rightarrow> u32 \<Rightarrow> 't trdispatch
    \<Rightarrow> ('t trdispatch, nat) res" where
  "trdispatch_mcu_alloc F frid sq cq oid timeout_tag trigger_tag state_tag s =
     (case message_alloc_and_encode [state_tag, oid] of
        None \<Rightarrow> Fault
      | Some dummy \<Rightarrow>
          (let tdm = \<lparr>tdm_fr = \<lparr>fr_id = frid, fr_prefix = take (qm_len dummy) (qm_msg dummy)\<rparr>, tdm_sq = sq, tdm_cq = cq,
                 tdm_trsync_oid = oid, set_timeout_msgtag = timeout_tag, trigger_msgtag = trigger_tag,
                 last_status_clock = 0, expire_clock = 0, tdm_expire_ticks = 0, min_extend_ticks = 0,
                 tdm_ce = \<lparr>ce_last_clock = 0, ce_conv_clock = 0, ce_conv_time = f_of_int F 0, ce_est_freq = f_of_int F 0\<rparr>\<rparr>
           in Ret (length (tdm_list s)) (s\<lparr>tdm_list := tdm_list s @ [tdm]\<rparr>)))"

definition trdispatch_mcu_setup :: "nat \<Rightarrow> u64 \<Rightarrow> u64 \<Rightarrow> u64 \<Rightarrow> u64 \<Rightarrow> 't trdispatch \<Rightarrow> 't trdispatch" where
  "trdispatch_mcu_setup i status expire ticks ext_ticks s =
     upd_tdm i (\<lambda>m. m\<lparr>last_status_clock := status, expire_clock := expire, tdm_expire_ticks := ticks, min_extend_ticks := ext_ticks,
       tdm_ce := serialqueue_get_clock_est (sqs s (tdm_sq m))\<rparr>) s"

end
