(* ===== verification/Trdispatch_Props.thy ===== *)
theory Trdispatch_Props
  imports Trdispatch Serialqueue_Props Dispatch
begin

text \<open>
  Properties of the dispatch of triggers on the host: a trigger that one micro-controller reports is sent
  once to all of them, and a micro-controller is allowed to go on only as far as the reports of the others reach.
\<close>

section \<open>Messages\<close>

definition msg_payload :: "queue_message \<Rightarrow> u8 list" where
  "msg_payload m = take (qm_len m) (qm_msg m)"

lemma encode_three:
  "\<exists>qm. message_alloc_and_encode [a, b, c] = Some qm \<and> msg_payload qm = concat (map encode_int [a, b, c]) \<and> 0 < qm_len qm"
proof -
  have l: "length (encode_int v) \<le> 5" "0 < length (encode_int v)" for v using encode_int_length [of v] by simp_all
  have s: "0 + length (concat (map encode_int [a, b, c])) \<le> MESSAGE_PAYLOAD_MAX"
    using l(1) [of a] l(1) [of b] l(1) [of c] by (simp add: MESSAGE_PAYLOAD_MAX_def message_consts)
  have m: "length (qm_msg message_alloc) = MESSAGE_MAX" by (simp add: message_alloc_def)
  obtain q mem where e: "encode_loop [a, b, c] 0 (qm_msg message_alloc) = Some (q, mem)"
    using encode_loop_ok [OF _ m, of 0 "[a, b, c]"] by auto
  note eb = encode_loop_bytes [OF e s m]
  have "take q mem = concat (map encode_int [a, b, c])" using conjunct2 [OF eb] by (simp only: take_0 append_Nil)
  moreover have "0 < q" using conjunct1 [OF eb] l(2) [of a] by simp
  ultimately show ?thesis by (simp add: message_alloc_and_encode_def e msg_payload_def del: encode_loop.simps)
qed

text \<open>
  \<open>added s s' P\<close>: to the command queue \<open>c\<close> of the serial queue \<open>q\<close>, the messages with the payloads \<open>P q c\<close> were
  added, and nothing else of the connection was changed.
\<close>

definition upcoming :: "'t trdispatch \<Rightarrow> nat \<Rightarrow> nat \<Rightarrow> queue_message list" where
  "upcoming s q c = upcoming_queue (cqs (sqs s q) c)"

definition added :: "'t trdispatch \<Rightarrow> 't trdispatch \<Rightarrow> (nat \<Rightarrow> nat \<Rightarrow> u8 list list) \<Rightarrow> bool" where
  "added s s' P \<longleftrightarrow> (\<forall>q c. \<exists>ms. upcoming s' q c = upcoming s q c @ ms \<and> map msg_payload ms = P q c) \<and>
     (\<forall>q. link_state (sqs s' q) = link_state (sqs s q) \<and> input_state (sqs s' q) = input_state (sqs s q) \<and> sq_ce (sqs s' q) = sq_ce (sqs s q))"

lemma added_refl: "added s s (\<lambda>_ _. [])"
  by (simp add: added_def)

lemma added_trans:
  assumes "added s s1 P" "added s1 s2 Q"
  shows "added s s2 (\<lambda>q c. P q c @ Q q c)"
proof -
  have "\<exists>ms. upcoming s2 q c = upcoming s q c @ ms \<and> map msg_payload ms = P q c @ Q q c" for q c
  proof -
    obtain m1 m2 where "upcoming s1 q c = upcoming s q c @ m1" "map msg_payload m1 = P q c"
      "upcoming s2 q c = upcoming s1 q c @ m2" "map msg_payload m2 = Q q c" using assms unfolding added_def by meson
    then show ?thesis by (intro exI [of _ "m1 @ m2"]) simp
  qed
  then show ?thesis using assms by (simp add: added_def)
qed

lemma fix_min_payload [simp]: "msg_payload (fix_min_clock qm) = msg_payload qm"
  by (simp add: msg_payload_def fix_min_clock_def)

lemma send_one_added:
  assumes "0 < qm_len qm"
  shows "added s (upd_sq q (serialqueue_send_one c qm) s) (\<lambda>q' c'. if q' = q \<and> c' = c then [msg_payload qm] else [])"
proof -
  let ?s = "sqs s q" and ?s' = "serialqueue_send_one c qm (sqs s q)"
  have l: "qm_len (fix_min_clock qm) = qm_len qm" by (simp add: fix_min_clock_def)
  have 1: "upcoming_queue (cqs ?s' c') = upcoming_queue (cqs ?s c') @ (if c' = c then [fix_min_clock qm] else [])" for c'
    using assms by (simp add: serialqueue_send_one_def serialqueue_send_batch_def l Let_def kick_bg_thread_def set_cq_def)
  have 2: "link_state ?s' = link_state ?s" "input_state ?s' = input_state ?s" "sq_ce ?s' = sq_ce ?s"
    by (simp_all add: serialqueue_send_one_def serialqueue_send_batch_def Let_def kick_bg_thread_def set_cq_def link_state_def input_state_def)
  show ?thesis using 1 2 by (simp add: added_def upcoming_def upd_sq_def)
qed

section \<open>A trigger is sent to all\<close>

definition trigger_payload :: "u32 \<Rightarrow> 't trdispatch_mcu \<Rightarrow> u8 list" where
  "trigger_payload reason m = concat (map encode_int [trigger_msgtag m, tdm_trsync_oid m, reason])"

lemma send_trigger_added:
  "\<exists>s'. send_trsync_trigger i s = Ret () s' \<and> tdm_list s' = tdm_list s \<and> dispatch_reason s' = dispatch_reason s \<and>
     td_can_trigger s' = td_can_trigger s \<and>
     added s s' (\<lambda>q c. if q = tdm_sq (tdm_list s ! i) \<and> c = tdm_cq (tdm_list s ! i)
                        then [trigger_payload (dispatch_reason s) (tdm_list s ! i)] else [])"
proof -
  let ?m = "tdm_list s ! i"
  obtain qm where qm: "message_alloc_and_encode [trigger_msgtag ?m, tdm_trsync_oid ?m, dispatch_reason s] = Some qm"
    "msg_payload qm = trigger_payload (dispatch_reason s) ?m" "0 < qm_len qm"
    using encode_three [of "trigger_msgtag ?m" "tdm_trsync_oid ?m" "dispatch_reason s"] unfolding trigger_payload_def by blast
  show ?thesis using send_one_added [OF qm(3), of s "tdm_sq ?m" "tdm_cq ?m", unfolded qm(2)] qm(1)
    by (simp add: send_trsync_trigger_def Let_def) (simp add: upd_sq_def)
qed

lemma send_triggers_added:
  "\<exists>s'. send_triggers is s = Ret () s' \<and> tdm_list s' = tdm_list s \<and> td_can_trigger s' = td_can_trigger s \<and>
     added s s' (\<lambda>q c. map (trigger_payload (dispatch_reason s)) (filter (\<lambda>m. q = tdm_sq m \<and> c = tdm_cq m) (map (\<lambda>i. tdm_list s ! i) is)))"
proof (induction "is" arbitrary: s)
  case Nil
  then show ?case using added_refl by simp
next
  case (Cons i "is")
  obtain s1 where 1: "send_trsync_trigger i s = Ret () s1" "tdm_list s1 = tdm_list s" "dispatch_reason s1 = dispatch_reason s"
    "td_can_trigger s1 = td_can_trigger s"
    "added s s1 (\<lambda>q c. if q = tdm_sq (tdm_list s ! i) \<and> c = tdm_cq (tdm_list s ! i)
                        then [trigger_payload (dispatch_reason s) (tdm_list s ! i)] else [])"
    using send_trigger_added [of i s] by blast
  from Cons.IH [of s1] obtain s' where 2: "send_triggers is s1 = Ret () s'" "tdm_list s' = tdm_list s" "td_can_trigger s' = td_can_trigger s"
    "added s1 s' (\<lambda>q c. map (trigger_payload (dispatch_reason s)) (filter (\<lambda>m. q = tdm_sq m \<and> c = tdm_cq m) (map (\<lambda>i. tdm_list s ! i) is)))"
    unfolding 1(2-4) by blast
  have e: "(if q = tdm_sq (tdm_list s ! i) \<and> c = tdm_cq (tdm_list s ! i) then [trigger_payload (dispatch_reason s) (tdm_list s ! i)] else []) @
      map (trigger_payload (dispatch_reason s)) (filter (\<lambda>m. q = tdm_sq m \<and> c = tdm_cq m) (map (\<lambda>i. tdm_list s ! i) is)) =
      map (trigger_payload (dispatch_reason s)) (filter (\<lambda>m. q = tdm_sq m \<and> c = tdm_cq m) (map (\<lambda>i. tdm_list s ! i) (i # is)))" for q c
    by simp
  show ?case using added_trans [OF 1(5) 2(4)] 1(1) 2(1-3) unfolding e by simp
qed

text \<open>What a well formed report holds.\<close>

definition report :: "u8 list \<Rightarrow> nat \<Rightarrow> u32 \<Rightarrow> u32 \<Rightarrow> u32 \<Rightarrow> bool" where
  "report data len oid can_trigger clock \<longleftrightarrow>
     (\<exists>vs. msgblock_decode 5 data len = Some (0, vs) \<and> vs ! 1 = oid \<and> vs ! 2 = can_trigger \<and> vs ! 4 = clock)"

lemma handle_trigger:
  assumes "report data len (tdm_trsync_oid (tdm_list s ! i)) 0 clock" "td_can_trigger s"
  shows "\<exists>s'. handle_trsync_state F i data len s = Ret () s' \<and> tdm_list s' = tdm_list s \<and> \<not> td_can_trigger s' \<and>
    added s s' (\<lambda>q c. map (trigger_payload (dispatch_reason s)) (filter (\<lambda>m. q = tdm_sq m \<and> c = tdm_cq m) (tdm_list s)))"
proof -
  let ?s = "s\<lparr>td_can_trigger := False\<rparr>"
  have h: "handle_trsync_state F i data len s = send_triggers [0..<length (tdm_list s)] ?s"
    using assms by (auto simp: handle_trsync_state_def report_def)
  obtain s' where s': "send_triggers [0..<length (tdm_list s)] ?s = Ret () s'" "tdm_list s' = tdm_list s" "\<not> td_can_trigger s'"
    "added ?s s' (\<lambda>q c. map (trigger_payload (dispatch_reason s)) (filter (\<lambda>m. q = tdm_sq m \<and> c = tdm_cq m)
        (map (\<lambda>i. tdm_list s ! i) [0..<length (tdm_list s)])))"
    using send_triggers_added [of "[0..<length (tdm_list s)]" ?s] by auto
  have "added s s' P = added ?s s' P" for P by (simp add: added_def upcoming_def)
  then show ?thesis using h s' by (simp add: map_nth)
qed

lemma handle_after_trigger:
  assumes "\<not> td_can_trigger s"
  shows "handle_trsync_state F i data len s \<in> {Ret () s, Fault}"
  using assms by (auto simp: handle_trsync_state_def split: option.splits)

section \<open>Timeouts follow the other reports\<close>

text \<open>The comparisons of C doubles without NaN; \<open>- 0.\<close> and \<open>0.\<close> are equal to them.\<close>

definition fp_order :: "'t fp \<Rightarrow> bool" where
  "fp_order F \<longleftrightarrow> (\<forall>x y. f_less F x y \<longrightarrow> \<not> f_less F y x) \<and>
     (\<forall>x y z. \<not> f_less F x y \<longrightarrow> \<not> f_less F y z \<longrightarrow> \<not> f_less F x z) \<and>
     (\<forall>x y. f_eq F x y \<longleftrightarrow> \<not> f_less F x y \<and> \<not> f_less F y x)"

text \<open>\<open>t\<close> is the least of the times of \<open>D\<close>.\<close>

definition least :: "'t fp \<Rightarrow> (nat \<Rightarrow> 't) \<Rightarrow> nat set \<Rightarrow> 't \<Rightarrow> bool" where
  "least F T D t \<longleftrightarrow> (\<exists>j \<in> D. t = T j) \<and> (\<forall>j \<in> D. \<not> f_less F (T j) t)"

text \<open>What the search knows after the micro-controllers \<open>D\<close>.\<close>

definition searched :: "'t fp \<Rightarrow> (nat \<Rightarrow> 't) \<Rightarrow> nat set \<Rightarrow> 't \<Rightarrow> 't \<Rightarrow> nat option \<Rightarrow> bool" where
  "searched F T D mn nx mt \<longleftrightarrow>
     (case mt of None \<Rightarrow> D = {} \<and> mn = PR_NEVER F \<and> nx = PR_NEVER F
      | Some m \<Rightarrow> m \<in> D \<and> mn = T m \<and> least F T D mn \<and> (if D = {m} then nx = PR_NEVER F else least F T (D - {m}) nx))"

definition status_time :: "'t fp \<Rightarrow> 't trdispatch \<Rightarrow> nat \<Rightarrow> 't" where
  "status_time F s i = clock_to_time F (tdm_ce (tdm_list s ! i)) (last_status_clock (tdm_list s ! i))"

lemma least_insert:
  assumes "fp_order F"
  shows "least F T D t \<Longrightarrow> \<not> f_less F (T i) t \<Longrightarrow> least F T (insert i D) t"
    "(\<And>j. j \<in> D \<Longrightarrow> \<not> f_less F (T j) u) \<Longrightarrow> f_less F (T i) u \<Longrightarrow> least F T (insert i D) (T i)"
proof -
  assume "least F T D t" "\<not> f_less F (T i) t"
  then show "least F T (insert i D) t" by (auto simp: least_def)
next
  assume a: "\<And>j. j \<in> D \<Longrightarrow> \<not> f_less F (T j) u" "f_less F (T i) u"
  have "\<not> f_less F (T i) (T i)" using assms unfolding fp_order_def by blast
  moreover have "\<not> f_less F (T j) (T i)" if "j \<in> D" for j
    using assms a(1) [OF that] a(2) unfolding fp_order_def by blast
  ultimately show "least F T (insert i D) (T i)" by (auto simp: least_def)
qed

lemma search_step:
  assumes o: "fp_order F" and s: "searched F T D mn nx mt" and i: "i \<notin> D" and n: "f_less F (T i) (PR_NEVER F)"
  shows "if f_less F (T i) nx then (if f_less F (T i) mn then searched F T (insert i D) (T i) mn (Some i)
      else searched F T (insert i D) mn (T i) mt) else searched F T (insert i D) mn nx mt"
proof (cases mt)
  case None
  then have "D = {}" "mn = PR_NEVER F" "nx = PR_NEVER F" using s by (simp_all add: searched_def)
  moreover have "\<not> f_less F (T i) (T i)" using o unfolding fp_order_def by blast
  ultimately show ?thesis using n by (simp add: searched_def least_def)
next
  case (Some m)
  then have m: "m \<in> D" "mn = T m" "least F T D mn" "if D = {m} then nx = PR_NEVER F else least F T (D - {m}) nx"
    using s unfolding Some searched_def option.case by blast+
  have im: "i \<noteq> m" "insert i D \<noteq> {m}" "insert i D - {i} = D" "insert i D \<noteq> {i}" "insert i D - {m} = insert i (D - {m})"
    using i m(1) by auto
  have lo: "\<And>j. j \<in> D \<Longrightarrow> \<not> f_less F (T j) mn" using m(3) by (simp add: least_def)
  show ?thesis
  proof (cases "f_less F (T i) nx")
    case less: True
    show ?thesis
    proof (cases "f_less F (T i) mn")
      case True
      have "least F T (insert i D) (T i)" 
        by (rule least_insert(2) [where F = F and T = T and D = D and i = i and u = mn]) (rule o, rule lo, assumption, rule True)
      then show ?thesis using less True m(3) im by (simp add: searched_def)
    next
      case False
      have "least F T (insert i (D - {m})) (T i)"
      proof (rule least_insert(2) [where F = F and T = T and D = "D - {m}" and i = i and u = nx])
        show "fp_order F" "f_less F (T i) nx" by (rule o, rule less)
        fix j assume "j \<in> D - {m}"
        then show "\<not> f_less F (T j) nx" using m(4) by (auto simp: least_def split: if_splits)
      qed
      then show ?thesis using less False Some m least_insert(1) [OF o m(3) False] im by (simp add: searched_def)
    qed
  next
    case False
    then have D: "D \<noteq> {m}" using m(4) n by auto
    then have nx: "least F T (D - {m}) nx" using m(4) by simp
    have "\<not> f_less F nx mn" using nx lo by (auto simp: least_def)
    then have "\<not> f_less F (T i) mn" using o False unfolding fp_order_def by blast
    then show ?thesis
      using False Some m D im least_insert(1) [OF o m(3)] least_insert(1) [OF o nx False] by (simp add: searched_def)
  qed
qed

lemma find_min_searched:
  assumes o: "fp_order F"
  shows "searched F (status_time F s) D mn nx mt \<Longrightarrow> \<forall>j \<in> set is. f_less F (status_time F s j) (PR_NEVER F) \<Longrightarrow> distinct is \<Longrightarrow> set is \<inter> D = {} \<Longrightarrow>
    find_min_times F s is mn nx mt = (mn', nx', mt') \<Longrightarrow> searched F (status_time F s) (D \<union> set is) mn' nx' mt'"
proof (induction "is" arbitrary: D mn nx mt)
  case (Cons i "is")
  let ?T = "status_time F s"
  have st: "if f_less F (?T i) nx then (if f_less F (?T i) mn then searched F ?T (insert i D) (?T i) mn (Some i)
      else searched F ?T (insert i D) mn (?T i) mt) else searched F ?T (insert i D) mn nx mt"
    by (rule search_step [OF o Cons.prems(1)]) (use Cons.prems(2,4) in simp_all)
  have d: "\<forall>j \<in> set is. f_less F (?T j) (PR_NEVER F)" "distinct is" "set is \<inter> insert i D = {}" "D \<union> set (i # is) = insert i D \<union> set is" using Cons.prems(2-4) by auto
  show ?case
    using st Cons.prems(5) Cons.IH [OF _ d(1-3)] unfolding d(4)
    by (auto simp: Let_def status_time_def [symmetric] split: if_splits)
qed simp

text \<open>The time up to which micro-controller \<open>k\<close> of \<open>n\<close> is covered: the least report of the others, its own if it is alone.\<close>

definition covered :: "'t fp \<Rightarrow> (nat \<Rightarrow> 't) \<Rightarrow> nat \<Rightarrow> nat \<Rightarrow> 't \<Rightarrow> bool" where
  "covered F T n k t \<longleftrightarrow> (if n = 1 then t = T k else least F T ({0..<n} - {k}) t)"

lemma searched_covered:
  assumes s: "searched F T {0..<n} mn nx mt" and o: "fp_order F" and n: "\<forall>j < n. f_less F (T j) (PR_NEVER F)" and k: "k < n"
  shows "covered F T n k (if mt = Some k then (if f_eq F nx (PR_NEVER F) then mn else nx) else mn)"
proof -
  obtain m where m: "mt = Some m" "m < n" "mn = T m" "least F T {0..<n} mn"
    "if {0..<n} = {m} then nx = PR_NEVER F else least F T ({0..<n} - {m}) nx"
    using s k unfolding searched_def by (cases mt) auto
  have one: "{0..<n} = {m} \<longleftrightarrow> n = 1" 
  proof
    assume "{0..<n} = {m}"
    then have "card {0..<n} = card {m}" by simp
    then show "n = 1" by simp
  qed (use m(2) in auto)
  have never: "f_eq F (PR_NEVER F) (PR_NEVER F)" "\<And>j. j < n \<Longrightarrow> \<not> f_eq F (T j) (PR_NEVER F)"
    using o n unfolding fp_order_def by blast+
  show ?thesis
  proof (cases "n = 1")
    case True
    then show ?thesis using m k never(1) one by (auto simp: covered_def)
  next
    case False
    then have l: "least F T ({0..<n} - {m}) nx" using m(5) one by simp
    then have "\<not> f_eq F nx (PR_NEVER F)" using never(2) by (auto simp: least_def)
    moreover have "least F T ({0..<n} - {k}) mn" if "k \<noteq> m" using m(2,3,4) that by (auto simp: least_def)
    ultimately show ?thesis using False l m(1) by (auto simp: covered_def)
  qed
qed

definition timeout_payload :: "u64 \<Rightarrow> 't trdispatch_mcu \<Rightarrow> u8 list" where
  "timeout_payload expire m = concat (map encode_int [set_timeout_msgtag m, tdm_trsync_oid m, ucast expire])"

lemma send_timeout_added:
  "\<exists>s'. send_trsync_set_timeout i s = Ret () s' \<and> tdm_list s' = tdm_list s \<and> td_can_trigger s' = td_can_trigger s \<and>
     added s s' (\<lambda>q c. if q = tdm_sq (tdm_list s ! i) \<and> c = tdm_cq (tdm_list s ! i)
                        then [timeout_payload (expire_clock (tdm_list s ! i)) (tdm_list s ! i)] else [])"
proof -
  let ?m = "tdm_list s ! i"
  obtain qm where qm: "message_alloc_and_encode [set_timeout_msgtag ?m, tdm_trsync_oid ?m, ucast (expire_clock ?m)] = Some qm"
    "msg_payload qm = timeout_payload (expire_clock ?m) ?m" "0 < qm_len qm"
    using encode_three [of "set_timeout_msgtag ?m" "tdm_trsync_oid ?m" "ucast (expire_clock ?m)"] unfolding timeout_payload_def by blast
  let ?qm = "qm\<lparr>req_clock := expire_clock ?m\<rparr>"
  have "0 < qm_len ?qm" "msg_payload ?qm = timeout_payload (expire_clock ?m) ?m" using qm(2,3) by (simp_all add: msg_payload_def)
  from send_one_added [OF this(1), of s "tdm_sq ?m" "tdm_cq ?m", unfolded this(2)] qm(1) show ?thesis
    by (simp add: send_trsync_set_timeout_def Let_def) (simp add: upd_sq_def)
qed

text \<open>Whether \<open>m\<close> is extended to the time \<open>t\<close>, and its new state.\<close>

definition new_expire :: "'t fp \<Rightarrow> 't \<Rightarrow> 't trdispatch_mcu \<Rightarrow> u64" where
  "new_expire F t m = clock_from_time F (tdm_ce m) t + tdm_expire_ticks m"

definition extends :: "'t fp \<Rightarrow> 't \<Rightarrow> 't trdispatch_mcu \<Rightarrow> bool" where
  "extends F t m \<longleftrightarrow> min_extend_ticks m \<le> new_expire F t m - expire_clock m"

definition extended :: "'t fp \<Rightarrow> 't \<Rightarrow> 't trdispatch_mcu \<Rightarrow> 't trdispatch_mcu" where
  "extended F t m = (if extends F t m then m\<lparr>expire_clock := new_expire F t m\<rparr> else m)"

lemma send_timeouts_added:
  fixes s :: "'t trdispatch"
  defines "T \<equiv> \<lambda>mn nx mt i. if mt = Some i then nx else mn"
  assumes "distinct is" "\<forall>i \<in> set is. i < length (tdm_list s)"
  shows "\<exists>s'. send_timeouts F mn nx mt is s = Ret () s' \<and> length (tdm_list s') = length (tdm_list s) \<and> td_can_trigger s' = td_can_trigger s \<and>
     (\<forall>k < length (tdm_list s). tdm_list s' ! k =
        (if k \<in> set is then extended F (T mn nx mt k) (tdm_list s ! k) else tdm_list s ! k)) \<and>
     added s s' (\<lambda>q c. map (\<lambda>i. timeout_payload (new_expire F (T mn nx mt i) (tdm_list s ! i)) (tdm_list s ! i))
       (filter (\<lambda>i. q = tdm_sq (tdm_list s ! i) \<and> c = tdm_cq (tdm_list s ! i) \<and> extends F (T mn nx mt i) (tdm_list s ! i)) is))"
  using assms(2,3)
proof (induction "is" arbitrary: s)
  case Nil
  then show ?case using added_refl by simp
next
  case (Cons i "is")
  let ?m = "tdm_list s ! i" and ?t = "T mn nx mt i"
  let ?s = "upd_tdm i (\<lambda>m. m\<lparr>expire_clock := new_expire F ?t ?m\<rparr>) s"
  define s1 where "s1 = (if extends F ?t ?m then (case send_trsync_set_timeout i ?s of Ret u s1 \<Rightarrow> s1 | _ \<Rightarrow> s) else s)"
  have i: "i < length (tdm_list s)" "i \<notin> set is" using Cons.prems by simp_all
  have tl: "tdm_list ?s = (tdm_list s)[i := ?m\<lparr>expire_clock := new_expire F ?t ?m\<rparr>]" by (simp add: upd_tdm_def)
  have ad: "added s x P = added ?s x P" for x P by (simp add: added_def upcoming_def upd_tdm_def)
  obtain s2 where s2: "send_trsync_set_timeout i ?s = Ret () s2" "tdm_list s2 = tdm_list ?s" "td_can_trigger s2 = td_can_trigger s"
    "added s s2 (\<lambda>q c. if q = tdm_sq ?m \<and> c = tdm_cq ?m then [timeout_payload (new_expire F ?t ?m) ?m] else [])"
  proof -
    have m: "tdm_list ?s ! i = ?m\<lparr>expire_clock := new_expire F ?t ?m\<rparr>" using i(1) by (simp add: tl)
    have p: "timeout_payload e (?m\<lparr>expire_clock := x\<rparr>) = timeout_payload e ?m" for e x by (simp add: timeout_payload_def)
    have c: "td_can_trigger ?s = td_can_trigger s" by (simp add: upd_tdm_def)
    have q: "tdm_sq (?m\<lparr>expire_clock := x\<rparr>) = tdm_sq ?m" "tdm_cq (?m\<lparr>expire_clock := x\<rparr>) = tdm_cq ?m"
      "expire_clock (?m\<lparr>expire_clock := x\<rparr>) = x" for x by simp_all
    show thesis using send_timeout_added [of i ?s] that unfolding ad m p c q by blast
  qed
  have 1: "(if extends F ?t ?m then send_trsync_set_timeout i ?s else Ret () s) = Ret () s1"
    "tdm_list s1 = (tdm_list s)[i := extended F ?t ?m]" "td_can_trigger s1 = td_can_trigger s"
    "added s s1 (\<lambda>q c. if q = tdm_sq ?m \<and> c = tdm_cq ?m \<and> extends F ?t ?m then [timeout_payload (new_expire F ?t ?m) ?m] else [])"
    using s2 tl added_refl [of s] by (simp_all add: s1_def extended_def)
  have u: "send_timeouts F mn nx mt (i # is) s = send_timeouts F mn nx mt is s1"
  proof -
    have "send_timeouts F mn nx mt (i # is) s =
        andthen (if extends F ?t ?m then send_trsync_set_timeout i ?s else Ret () s) (send_timeouts F mn nx mt is)"
      by (simp only: send_timeouts.simps Let_def extends_def new_expire_def T_def)
    then show ?thesis unfolding 1(1) by simp
  qed
  have same: "tdm_list s1 ! j = tdm_list s ! j" if "j \<in> set is" for j
  proof -
    have "j \<noteq> i" using that i(2) by blast
    then show ?thesis by (simp add: 1(2))
  qed
  have "distinct is" "\<forall>i \<in> set is. i < length (tdm_list s1)" using Cons.prems 1(2) by simp_all
  from Cons.IH [OF this] obtain s' where s': "send_timeouts F mn nx mt is s1 = Ret () s'" "length (tdm_list s') = length (tdm_list s)"
     "td_can_trigger s' = td_can_trigger s"
     "\<forall>k < length (tdm_list s). tdm_list s' ! k = (if k \<in> set is then extended F (T mn nx mt k) (tdm_list s1 ! k) else tdm_list s1 ! k)"
     "added s1 s' (\<lambda>q c. map (\<lambda>i. timeout_payload (new_expire F (T mn nx mt i) (tdm_list s1 ! i)) (tdm_list s1 ! i))
       (filter (\<lambda>i. q = tdm_sq (tdm_list s1 ! i) \<and> c = tdm_cq (tdm_list s1 ! i) \<and> extends F (T mn nx mt i) (tdm_list s1 ! i)) is))"
    using 1(2,3) by auto
  have f: "filter (\<lambda>i. q = tdm_sq (tdm_list s1 ! i) \<and> c = tdm_cq (tdm_list s1 ! i) \<and> extends F (T mn nx mt i) (tdm_list s1 ! i)) is =
      filter (\<lambda>i. q = tdm_sq (tdm_list s ! i) \<and> c = tdm_cq (tdm_list s ! i) \<and> extends F (T mn nx mt i) (tdm_list s ! i)) is" for q c
    using same by (intro filter_cong) simp_all
  have e: "(if q = tdm_sq ?m \<and> c = tdm_cq ?m \<and> extends F ?t ?m then [timeout_payload (new_expire F ?t ?m) ?m] else []) @
      map (\<lambda>i. timeout_payload (new_expire F (T mn nx mt i) (tdm_list s1 ! i)) (tdm_list s1 ! i))
       (filter (\<lambda>i. q = tdm_sq (tdm_list s1 ! i) \<and> c = tdm_cq (tdm_list s1 ! i) \<and> extends F (T mn nx mt i) (tdm_list s1 ! i)) is) =
      map (\<lambda>i. timeout_payload (new_expire F (T mn nx mt i) (tdm_list s ! i)) (tdm_list s ! i))
       (filter (\<lambda>i. q = tdm_sq (tdm_list s ! i) \<and> c = tdm_cq (tdm_list s ! i) \<and> extends F (T mn nx mt i) (tdm_list s ! i)) (i # is))" for q c
    unfolding f using same by auto
  have "\<forall>k < length (tdm_list s). tdm_list s' ! k =
      (if k \<in> set (i # is) then extended F (T mn nx mt k) (tdm_list s ! k) else tdm_list s ! k)"
    using s'(4) 1(2) i same by (auto simp: nth_list_update)
  moreover note added_trans [OF 1(4) s'(5), unfolded e]
  ultimately show ?case using s'(1-3) unfolding u by blast
qed

text \<open>The state after the report's clock is noted.\<close>

definition noted :: "nat \<Rightarrow> u32 \<Rightarrow> 't trdispatch \<Rightarrow> 't trdispatch" where
  "noted i clock s =
     (let ce = sq_ce (sqs s (tdm_sq (tdm_list s ! i)))
      in upd_tdm i (\<lambda>m. m\<lparr>tdm_ce := ce, last_status_clock := clock_from_clock32 (ce_last_clock ce) clock\<rparr>) s)"

lemma handle_report:
  assumes "report data len (tdm_trsync_oid (tdm_list s ! i)) v clock" "v \<noteq> 0" "td_can_trigger s" "fp_order F"
    "\<forall>j < length (tdm_list s). f_less F (status_time F (noted i clock s) j) (PR_NEVER F)"
  shows "\<exists>s' t. handle_trsync_state F i data len s = Ret () s' \<and> td_can_trigger s' \<and>
    (\<forall>k < length (tdm_list s). covered F (status_time F (noted i clock s)) (length (tdm_list s)) k (t k) \<and>
       tdm_list s' ! k = extended F (t k) (tdm_list (noted i clock s) ! k)) \<and>
    added s s' (\<lambda>q c. map (\<lambda>k. timeout_payload (new_expire F (t k) (tdm_list (noted i clock s) ! k)) (tdm_list (noted i clock s) ! k))
       (filter (\<lambda>k. q = tdm_sq (tdm_list s ! k) \<and> c = tdm_cq (tdm_list s ! k) \<and> extends F (t k) (tdm_list (noted i clock s) ! k))
         [0..<length (tdm_list s)]))"
proof -
  let ?s = "noted i clock s" and ?n = "length (tdm_list s)"
  have n: "length (tdm_list ?s) = ?n" by (simp add: noted_def upd_tdm_def Let_def)
  have same: "tdm_sq (tdm_list ?s ! k) = tdm_sq (tdm_list s ! k)" "tdm_cq (tdm_list ?s ! k) = tdm_cq (tdm_list s ! k)" if "k < ?n" for k
    using that by (cases "k = i"; simp add: noted_def upd_tdm_def Let_def)+
  obtain mn nx mt where f: "find_min_times F ?s [0..<?n] (PR_NEVER F) (PR_NEVER F) None = (mn, nx, mt)" by (metis prod_cases3)
  let ?nx = "if f_eq F nx (PR_NEVER F) then mn else nx"
  define t where "t k = (if mt = Some k then ?nx else mn)" for k
  have "searched F (status_time F ?s) {} (PR_NEVER F) (PR_NEVER F) None" by (simp add: searched_def)
  from find_min_searched [OF assms(4) this _ _ _ f] assms(5) have sr: "searched F (status_time F ?s) {0..<?n} mn nx mt"
    by simp
  have cov: "\<forall>k < ?n. covered F (status_time F ?s) ?n k (t k)"
    using searched_covered [OF sr assms(4,5)] by (simp add: t_def)
  have h: "handle_trsync_state F i data len s = send_timeouts F mn ?nx mt [0..<?n] ?s"
  proof -
    obtain vs where "msgblock_decode 5 data len = Some (0, vs)" "vs ! 1 = tdm_trsync_oid (tdm_list s ! i)" "vs ! 2 = v" "vs ! 4 = clock"
      using assms(1) unfolding report_def by blast
    then show ?thesis using assms(2,3) n f
      by (simp add: handle_trsync_state_def Let_def noted_def serialqueue_get_clock_est_def)
  qed
  have ad: "added s x P = added ?s x P" for x P by (simp add: added_def upcoming_def noted_def upd_tdm_def Let_def)
  have fl: "filter (\<lambda>k. q = tdm_sq (tdm_list ?s ! k) \<and> c = tdm_cq (tdm_list ?s ! k) \<and> extends F (t k) (tdm_list ?s ! k)) [0..<?n] =
      filter (\<lambda>k. q = tdm_sq (tdm_list s ! k) \<and> c = tdm_cq (tdm_list s ! k) \<and> extends F (t k) (tdm_list ?s ! k)) [0..<?n]" for q c
    using same by (intro filter_cong) simp_all
  obtain s' where s': "send_timeouts F mn ?nx mt [0..<?n] ?s = Ret () s'" "td_can_trigger s' = td_can_trigger ?s"
     "\<forall>k < ?n. tdm_list s' ! k = extended F (t k) (tdm_list ?s ! k)"
     "added ?s s' (\<lambda>q c. map (\<lambda>k. timeout_payload (new_expire F (t k) (tdm_list ?s ! k)) (tdm_list ?s ! k))
       (filter (\<lambda>k. q = tdm_sq (tdm_list ?s ! k) \<and> c = tdm_cq (tdm_list ?s ! k) \<and> extends F (t k) (tdm_list ?s ! k)) [0..<?n]))"
    using send_timeouts_added [of "[0..<?n]" ?s F mn ?nx mt] unfolding n t_def by auto
  have "td_can_trigger s'" using s'(2) assms(3) by (simp add: noted_def upd_tdm_def Let_def)
  then show ?thesis using h s'(1,3) s'(4) [folded ad, unfolded fl] cov by (intro exI [of _ s'] exI [of _ t]) simp
qed

section \<open>The dispatch of triggers\<close>

text \<open>
  C16: The first report that a micro-controller has been triggered makes the host send the command to trigger to every
  micro-controller of the move once, with the reason of the dispatch, and nothing else; whatever is reported afterwards,
  until the next start, sends nothing.
\<close>

theorem trigger_sent_once:
  assumes "report data len (tdm_trsync_oid (tdm_list s ! i)) 0 clock" "td_can_trigger s"
  shows "\<exists>s'. handle_trsync_state F i data len s = Ret () s' \<and>
    added s s' (\<lambda>q c. map (trigger_payload (dispatch_reason s)) (filter (\<lambda>m. q = tdm_sq m \<and> c = tdm_cq m) (tdm_list s))) \<and>
    (\<forall>j data' len'. handle_trsync_state F j data' len' s' \<in> {Ret () s', Fault})"
  using handle_trigger [OF assms] handle_after_trigger by blast

text \<open>
  After a report that a micro-controller goes on, the timeout of each one is computed from the least time of the last
  reports of the others (its own if there is no other): a micro-controller can go on only as far as every other one
  has been heard of. Its new timeout is sent to it when it is at least \<open>min_extend_ticks\<close> away from the old
  one, and nothing else is sent.
\<close>

theorem timeouts_follow_others:
  assumes "report data len (tdm_trsync_oid (tdm_list s ! i)) v clock" "v \<noteq> 0" "td_can_trigger s" "fp_order F"
    "\<forall>j < length (tdm_list s). f_less F (status_time F (noted i clock s) j) (PR_NEVER F)"
  shows "\<exists>s' t. handle_trsync_state F i data len s = Ret () s' \<and> td_can_trigger s' \<and>
    (\<forall>k < length (tdm_list s). covered F (status_time F (noted i clock s)) (length (tdm_list s)) k (t k) \<and>
       tdm_list s' ! k = extended F (t k) (tdm_list (noted i clock s) ! k)) \<and>
    added s s' (\<lambda>q c. map (\<lambda>k. timeout_payload (new_expire F (t k) (tdm_list (noted i clock s) ! k)) (tdm_list (noted i clock s) ! k))
       (filter (\<lambda>k. q = tdm_sq (tdm_list s ! k) \<and> c = tdm_cq (tdm_list s ! k) \<and> extends F (t k) (tdm_list (noted i clock s) ! k))
         [0..<length (tdm_list s)]))"
  by (rule handle_report [OF assms])

subsection \<open>Instances\<close>

text \<open>Two micro-controllers with clocks of one tick per unit of time; times are integers.\<close>

definition td_fp :: "int fp" where
  "td_fp = \<lparr>f_lit = (\<lambda>x. if x = ''9999999999999999.'' then 9999999999999999 else 0), f_of_int = (\<lambda>n. n),
     f_add = (+), f_sub = (-), f_mul = (*), f_div = (div), f_neg = uminus, f_less = (<), f_le = (\<le>), f_eq = (=), f_abs = abs,
     f_ceil = (\<lambda>n. n), f_sqrt = (\<lambda>n. n), f_sin = (\<lambda>n. 0), f_cos = (\<lambda>n. 1), f_atan2 = (\<lambda>y x. 0), f_i64 = (\<lambda>n. n), f_u64 = (\<lambda>n. n)\<rparr>"

definition td_mcu :: "nat \<Rightarrow> u64 \<Rightarrow> u64 \<Rightarrow> int trdispatch_mcu" where
  "td_mcu q status expire = \<lparr>tdm_fr = \<lparr>fr_id = q, fr_prefix = []\<rparr>, tdm_sq = q, tdm_cq = 0, tdm_trsync_oid = 2, set_timeout_msgtag = 6,
     trigger_msgtag = 7, last_status_clock = status, expire_clock = expire, tdm_expire_ticks = 100, min_extend_ticks = 50,
     tdm_ce = \<lparr>ce_last_clock = 1000, ce_conv_clock = 0, ce_conv_time = 0, ce_est_freq = 1\<rparr>\<rparr>"

definition td_two :: "u64 \<Rightarrow> int trdispatch" where
  "td_two expire = \<lparr>tdm_list = [td_mcu 0 1000 1090, td_mcu 1 1001 expire], td_is_active = True, td_can_trigger = True, dispatch_reason = 3,
     sqs = (\<lambda>_. serialqueue_set_clock_est 1 0 0 1000 (serialqueue_alloc td_fp SQT_UART 0))\<rparr>"

text \<open>Reports: tag, oid, whether a trigger is still possible, reason, clock 1001.\<close>

definition td_data :: "u8 \<Rightarrow> u8 list" where
  "td_data v = [11, 0x10, 5, 2, v, 0, 0x87, 0x69, 0, 0, 0x7e]"

lemma td_reports: "report (td_data 0) 11 2 0 1001" "report (td_data 1) 11 2 1 1001"
proof -
  have "msgblock_decode 5 (td_data 0) 11 = Some (0, [5, 2, 0, 0, 1001])" "msgblock_decode 5 (td_data 1) 11 = Some (0, [5, 2, 1, 0, 1001])"
    by code_simp+
  then show "report (td_data 0) 11 2 0 1001" "report (td_data 1) 11 2 1 1001" by (simp_all add: report_def)
qed

lemma td_order: "fp_order td_fp"
  by (auto simp: fp_order_def td_fp_def)

lemma td_oid: "tdm_trsync_oid (tdm_list (td_two e) ! 0) = 2" "td_can_trigger (td_two e)"
  by (simp_all add: td_two_def td_mcu_def)

theorem trigger_sent_once_witness:
  "\<exists>s'. handle_trsync_state td_fp 0 (td_data 0) 11 (td_two 1090) = Ret () s' \<and>
    (\<exists>ms. upcoming s' 1 0 = upcoming (td_two 1090) 1 0 @ ms \<and> map msg_payload ms = [[7, 2, 3]])"
proof -
  have p: "map (trigger_payload (dispatch_reason (td_two 1090))) (filter (\<lambda>m. 1 = tdm_sq m \<and> 0 = tdm_cq m) (tdm_list (td_two 1090))) = [[7, 2, 3]]"
    by code_simp
  obtain s' where s': "handle_trsync_state td_fp 0 (td_data 0) 11 (td_two 1090) = Ret () s'"
    "added (td_two 1090) s' (\<lambda>q c. map (trigger_payload (dispatch_reason (td_two 1090)))
      (filter (\<lambda>m. q = tdm_sq m \<and> c = tdm_cq m) (tdm_list (td_two 1090))))"
    using trigger_sent_once [of "td_data 0" 11 "td_two 1090" 0 1001 td_fp] td_reports(1) td_oid by auto
  then show ?thesis using p unfolding added_def by metis
qed

lemma td_noted:
  "map (\<lambda>m. (tdm_sq m, last_status_clock m, expire_clock m, clock_from_time td_fp (tdm_ce m) 1001)) (tdm_list (noted 0 1001 (td_two e))) =
     [(0, 1001, 1090, 1001), (1, 1001, e, 1001)]"
  "map (\<lambda>m. clock_to_time td_fp (tdm_ce m) (last_status_clock m)) (tdm_list (noted 0 1001 (td_two e))) = [1001, 1001]"
  by (simp_all add: noted_def upd_tdm_def td_two_def td_mcu_def Let_def serialqueue_set_clock_est_def clock_from_clock32_def
      clock_from_time_def clock_to_time_def td_fp_def)

lemma td_times: "\<forall>j < 2. status_time td_fp (noted 0 1001 (td_two e)) j = 1001"
proof -
  obtain a b where ab: "tdm_list (noted 0 1001 (td_two e)) = [a, b]" using td_noted(1) [of e] by (auto simp: map_eq_Cons_conv)
  then have "clock_to_time td_fp (tdm_ce a) (last_status_clock a) = 1001" "clock_to_time td_fp (tdm_ce b) (last_status_clock b) = 1001"
    using td_noted(2) [of e] by simp_all
  then show ?thesis using ab by (auto simp: status_time_def less_2_cases_iff)
qed

lemma td_covered:
  assumes "covered td_fp (status_time td_fp (noted 0 1001 (td_two e))) 2 1 t"
  shows "t = 1001"
proof -
  have "{0..<2} - {1} = {0 :: nat}" by auto
  then show ?thesis using assms td_times [of e] by (simp add: covered_def least_def)
qed

lemma td_extended:
  "expire_clock (extended td_fp 1001 (tdm_list (noted 0 1001 (td_two e)) ! 1)) = (if 50 \<le> 1101 - e then 1101 else e)"
proof -
  obtain a b where ab: "tdm_list (noted 0 1001 (td_two e)) = [a, b]" "expire_clock b = e" "clock_from_time td_fp (tdm_ce b) 1001 = 1001"
    using td_noted(1) [of e] by (auto simp: map_eq_Cons_conv)
  moreover have "min_extend_ticks b = 50" "tdm_expire_ticks b = 100"
    using ab(1) by (auto simp: noted_def upd_tdm_def td_two_def td_mcu_def Let_def)
  ultimately show ?thesis by (simp add: extended_def extends_def new_expire_def)
qed

lemma td_len: "length (tdm_list (td_two e)) = 2" "f_less td_fp 1001 (PR_NEVER td_fp)"
  by (simp_all add: td_two_def td_fp_def PR_NEVER_def)

theorem timeouts_follow_others_witness:
  "\<exists>s'. handle_trsync_state td_fp 0 (td_data 1) 11 (td_two 1040) = Ret () s' \<and> expire_clock (tdm_list s' ! 1) = 1101"
proof -
  have n: "\<forall>j < length (tdm_list (td_two 1040)). f_less td_fp (status_time td_fp (noted 0 1001 (td_two 1040)) j) (PR_NEVER td_fp)"
    using td_times [of 1040] td_len by simp
  have r: "report (td_data 1) 11 (tdm_trsync_oid (tdm_list (td_two 1040) ! 0)) 1 1001" using td_reports(2) td_oid(1) by simp
  from timeouts_follow_others [OF r one_neq_zero td_oid(2) td_order n] obtain s' t where
    h: "handle_trsync_state td_fp 0 (td_data 1) 11 (td_two 1040) = Ret () s'" and
    k: "\<forall>k < length (tdm_list (td_two 1040)). covered td_fp (status_time td_fp (noted 0 1001 (td_two 1040))) (length (tdm_list (td_two 1040))) k (t k) \<and>
      tdm_list s' ! k = extended td_fp (t k) (tdm_list (noted 0 1001 (td_two 1040)) ! k)" by (elim exE conjE)
  have c: "covered td_fp (status_time td_fp (noted 0 1001 (td_two 1040))) 2 1 (t 1)"
    "tdm_list s' ! 1 = extended td_fp (t 1) (tdm_list (noted 0 1001 (td_two 1040)) ! 1)"
    using k [rule_format, of 1] by (simp_all add: td_len(1))
  have "t 1 = 1001" by (rule td_covered [OF c(1)])
  then show ?thesis using h c(2) td_extended [of 1040] by simp
qed

text \<open>
  The comparison with \<open>min_extend_ticks\<close> is meant to be signed, but the conversions of C make it one of unsigned
  numbers: a new timeout that is earlier than the old one passes it. Here the timeout of the second micro-controller is
  moved from 1102 back to 1101, although it should be changed only by at least 50 ticks ahead.
\<close>

theorem timeout_moves_back:
  "\<exists>s'. handle_trsync_state td_fp 0 (td_data 1) 11 (td_two 1102) = Ret () s' \<and> expire_clock (tdm_list s' ! 1) = 1101 \<and>
    expire_clock (tdm_list (td_two 1102) ! 1) = 1102 \<and> min_extend_ticks (tdm_list (td_two 1102) ! 1) = 50"
proof -
  have n: "\<forall>j < length (tdm_list (td_two 1102)). f_less td_fp (status_time td_fp (noted 0 1001 (td_two 1102)) j) (PR_NEVER td_fp)"
    using td_times [of 1102] td_len by simp
  have r: "report (td_data 1) 11 (tdm_trsync_oid (tdm_list (td_two 1102) ! 0)) 1 1001" using td_reports(2) td_oid(1) by simp
  from handle_report [OF r one_neq_zero td_oid(2) td_order n] obtain s' t where
    h: "handle_trsync_state td_fp 0 (td_data 1) 11 (td_two 1102) = Ret () s'" and
    k: "\<forall>k < length (tdm_list (td_two 1102)). covered td_fp (status_time td_fp (noted 0 1001 (td_two 1102))) (length (tdm_list (td_two 1102))) k (t k) \<and>
      tdm_list s' ! k = extended td_fp (t k) (tdm_list (noted 0 1001 (td_two 1102)) ! k)" by (elim exE conjE)
  have c: "covered td_fp (status_time td_fp (noted 0 1001 (td_two 1102))) 2 1 (t 1)"
    "tdm_list s' ! 1 = extended td_fp (t 1) (tdm_list (noted 0 1001 (td_two 1102)) ! 1)"
    using k [rule_format, of 1] by (simp_all add: td_len(1))
  have "t 1 = 1001" by (rule td_covered [OF c(1)])
  moreover have "(50 :: u64) \<le> 1101 - 1102" by (simp add: word_le_nat_alt unsigned_minus_1_eq_mask mask_eq_exp_minus_1)
  ultimately show ?thesis using h c(2) td_extended [of 1102] by (simp add: td_two_def td_mcu_def)
qed

end
