(* ===== verification/Trapq.thy ===== *)
theory Trapq
  imports Floating
begin

text \<open>
  The queue of moves with trapezoidal velocity, \<open>klipper/klippy/chelper/trapq.c\<close>. Definitions only.
\<close>

section \<open>State\<close>

record 't coord =
  cx :: 't
  cy :: 't
  cz :: 't

record 't move =
  print_time :: 't
  move_t :: 't
  start_v :: 't
  half_accel :: 't
  start_pos :: "'t coord"
  axes_r :: "'t coord"

text \<open>
  The linked lists as lists, from the head to the tail. \<open>moves\<close> begins and ends with its sentinel; a move is known
  by its position.
\<close>

record 't trapq =
  moves :: "'t move list"
  history :: "'t move list"

record 't pull_move =
  pm_print_time :: 't
  pm_move_t :: 't
  pm_start_v :: 't
  pm_accel :: 't
  pm_start :: "'t coord"
  pm_r :: "'t coord"

section \<open>Moves\<close>

definition coord_zero :: "'t fp \<Rightarrow> 't coord" where
  "coord_zero F = \<lparr>cx = f_zero F, cy = f_zero F, cz = f_zero F\<rparr>"

definition move_alloc :: "'t fp \<Rightarrow> 't move" where
  "move_alloc F = \<lparr>print_time = f_zero F, move_t = f_zero F, start_v = f_zero F, half_accel = f_zero F,
     start_pos = coord_zero F, axes_r = coord_zero F\<rparr>"

definition move_get_distance :: "'t fp \<Rightarrow> 't move \<Rightarrow> 't \<Rightarrow> 't" where
  "move_get_distance F m move_time =
     f_mul F (f_add F (start_v m) (f_mul F (half_accel m) move_time)) move_time"

definition move_get_coord :: "'t fp \<Rightarrow> 't move \<Rightarrow> 't \<Rightarrow> 't coord" where
  "move_get_coord F m move_time =
     (let move_dist = move_get_distance F m move_time
      in \<lparr>cx = f_add F (cx (start_pos m)) (f_mul F (cx (axes_r m)) move_dist),
          cy = f_add F (cy (start_pos m)) (f_mul F (cy (axes_r m)) move_dist),
          cz = f_add F (cz (start_pos m)) (f_mul F (cz (axes_r m)) move_dist)\<rparr>)"

text \<open>The end of a move, which the code computes in many places.\<close>

definition move_end_time :: "'t fp \<Rightarrow> 't move \<Rightarrow> 't" where
  "move_end_time F m = f_add F (print_time m) (move_t m)"

section \<open>The queue\<close>

definition NEVER_TIME :: "'t fp \<Rightarrow> 't" where "NEVER_TIME F = f_lit F ''9999999999999999.9''"
definition MAX_NULL_MOVE :: "'t fp \<Rightarrow> 't" where "MAX_NULL_MOVE F = f_lit F ''1.0''"

definition trapq_alloc :: "'t fp \<Rightarrow> 't trapq" where
  "trapq_alloc F =
     \<lparr>moves = [move_alloc F, (move_alloc F)\<lparr>print_time := NEVER_TIME F, move_t := NEVER_TIME F\<rparr>], history = []\<rparr>"

text \<open>\<open>list_add_before(&m->node, &tail_sentinel->node)\<close>, and a store to the tail sentinel.\<close>

definition add_before_tail :: "'t move \<Rightarrow> 't move list \<Rightarrow> 't move list" where
  "add_before_tail m ms = butlast ms @ [m, last ms]"

definition upd_tail :: "('t move \<Rightarrow> 't move) \<Rightarrow> 't move list \<Rightarrow> 't move list" where
  "upd_tail f ms = butlast ms @ [f (last ms)]"

definition trapq_check_sentinels :: "'t fp \<Rightarrow> 't trapq \<Rightarrow> 't trapq" where
  "trapq_check_sentinels F tq =
     (if f_true F (print_time (last (moves tq))) then tq
      else if length (moves tq) = 2 then tq\<lparr>moves := upd_tail (print_time_update (\<lambda>_. NEVER_TIME F)) (moves tq)\<rparr>
      else (let m = last (butlast (moves tq))
            in tq\<lparr>moves := upd_tail (\<lambda>t. t\<lparr>print_time := move_end_time F m, start_pos := move_get_coord F m (move_t m)\<rparr>)
                     (moves tq)\<rparr>))"

definition null_move :: "'t fp \<Rightarrow> 't move \<Rightarrow> 't move \<Rightarrow> 't move" where
  "null_move F prev m =
     (let t = (if f_eq F (print_time prev) (f_zero F) \<and> f_less F (MAX_NULL_MOVE F) (print_time m)
               then f_sub F (print_time m) (MAX_NULL_MOVE F) else move_end_time F prev)
      in (move_alloc F)\<lparr>start_pos := start_pos m, print_time := t, move_t := f_sub F (print_time m) t\<rparr>)"

definition trapq_add_move :: "'t fp \<Rightarrow> 't move \<Rightarrow> 't trapq \<Rightarrow> 't trapq" where
  "trapq_add_move F m tq =
     (let prev = last (butlast (moves tq));
          ms = (if f_less F (move_end_time F prev) (print_time m)
                then add_before_tail (null_move F prev m) (moves tq) else moves tq)
      in tq\<lparr>moves := upd_tail (print_time_update (\<lambda>_. f_zero F)) (add_before_tail m ms)\<rparr>)"

text \<open>
  The three parts of \<open>trapq_append\<close> are alike; the state is \<open>print_time\<close>, \<open>start_pos\<close> and the queue. The code does
  not advance the first two behind the last part, where they are not used again.
\<close>

definition append_part :: "'t fp \<Rightarrow> 't coord \<Rightarrow> 't \<Rightarrow> 't \<Rightarrow> 't \<Rightarrow> 't \<times> 't coord \<times> 't trapq \<Rightarrow> 't \<times> 't coord \<times> 't trapq" where
  "append_part F r t v ha = (\<lambda>(time, pos, tq).
     if f_true F t then
       (let m = \<lparr>print_time = time, move_t = t, start_v = v, half_accel = ha, start_pos = pos, axes_r = r\<rparr>
        in (f_add F time t, move_get_coord F m t, trapq_add_move F m tq))
     else (time, pos, tq))"

definition trapq_append :: "'t fp \<Rightarrow> 't \<Rightarrow> 't \<Rightarrow> 't \<Rightarrow> 't \<Rightarrow> 't coord \<Rightarrow> 't coord \<Rightarrow> 't \<Rightarrow> 't \<Rightarrow> 't \<Rightarrow> 't trapq \<Rightarrow> 't trapq" where
  "trapq_append F time accel_t cruise_t decel_t pos r v cruise_v accel tq =
     snd (snd (append_part F r decel_t cruise_v (f_mul F (f_neg F (f_lit F ''.5'')) accel)
       (append_part F r cruise_t cruise_v (f_zero F)
         (append_part F r accel_t v (f_mul F (f_lit F ''.5'') accel) (time, pos, tq)))))"

section \<open>Expiry\<close>

text \<open>The first loop of \<open>trapq_finalize_moves\<close>, over the moves between the sentinels.\<close>

fun finalize_loop :: "'t fp \<Rightarrow> 't \<Rightarrow> 't move list \<Rightarrow> 't move list \<Rightarrow> 't move list \<times> 't move list" where
  "finalize_loop F t [] hist = ([], hist)"
| "finalize_loop F t (m # ms) hist =
     (if f_less F t (move_end_time F m) then (m # ms, hist)
      else finalize_loop F t ms (if f_true F (start_v m) \<or> f_true F (half_accel m) then m # hist else hist))"

text \<open>The second loop, from the end of the history, which is kept down to its first entry.\<close>

definition free_old :: "'t fp \<Rightarrow> 't \<Rightarrow> 't move list \<Rightarrow> 't move list" where
  "free_old F t hist =
     (case hist of
        [] \<Rightarrow> []
      | latest # ms \<Rightarrow> latest # rev (dropWhile (\<lambda>m. \<not> f_less F t (move_end_time F m)) (rev ms)))"

definition trapq_finalize_moves :: "'t fp \<Rightarrow> 't \<Rightarrow> 't \<Rightarrow> 't trapq \<Rightarrow> 't trapq" where
  "trapq_finalize_moves F time clear_history_time tq =
     (let (ms, hist) = finalize_loop F time (butlast (tl (moves tq))) (history tq);
          tail = (if ms = [] then (last (moves tq))\<lparr>print_time := NEVER_TIME F\<rparr> else last (moves tq))
      in tq\<lparr>moves := hd (moves tq) # ms @ [tail], history := free_old F clear_history_time hist\<rparr>)"

fun prune_interrupted :: "'t fp \<Rightarrow> 't \<Rightarrow> 't move list \<Rightarrow> 't move list" where
  "prune_interrupted F time [] = []"
| "prune_interrupted F time (m # ms) =
     (if f_less F (print_time m) time then
        (if f_less F time (move_end_time F m) then m\<lparr>move_t := f_sub F time (print_time m)\<rparr> else m) # ms
      else prune_interrupted F time ms)"

definition trapq_set_position :: "'t fp \<Rightarrow> 't \<Rightarrow> 't coord \<Rightarrow> 't trapq \<Rightarrow> 't trapq" where
  "trapq_set_position F time pos tq =
     (let tq = trapq_finalize_moves F (NEVER_TIME F) (f_of_int F 0) tq
      in tq\<lparr>history := (move_alloc F)\<lparr>print_time := time, start_pos := pos\<rparr> # prune_interrupted F time (history tq)\<rparr>)"

section \<open>Reports\<close>

definition pull_of_move :: "'t fp \<Rightarrow> 't move \<Rightarrow> 't pull_move" where
  "pull_of_move F m =
     \<lparr>pm_print_time = print_time m, pm_move_t = move_t m, pm_start_v = start_v m,
      pm_accel = f_mul F (f_lit F ''2.'') (half_accel m), pm_start = start_pos m, pm_r = axes_r m\<rparr>"

fun extract_loop :: "'t fp \<Rightarrow> nat \<Rightarrow> 't \<Rightarrow> 't \<Rightarrow> 't move list \<Rightarrow> 't pull_move list" where
  "extract_loop F n start_time end_time [] = []"
| "extract_loop F n start_time end_time (m # ms) =
     (if f_le F (move_end_time F m) start_time \<or> n = 0 then []
      else if f_le F end_time (print_time m) then extract_loop F n start_time end_time ms
      else pull_of_move F m # extract_loop F (n - 1) start_time end_time ms)"

definition trapq_extract_old :: "'t fp \<Rightarrow> nat \<Rightarrow> 't \<Rightarrow> 't \<Rightarrow> 't trapq \<Rightarrow> 't pull_move list" where
  "trapq_extract_old F maxn start_time end_time tq = extract_loop F maxn start_time end_time (history tq)"

end
