(* ===== verification/Real_Arith.thy ===== *)
theory Real_Arith
  imports Floating Complex_Main
begin

text \<open>
  Exact real arithmetic as an instance of the host's floating point operations. A theorem over \<open>real_fp\<close> is about
  the formulas and the control flow of the code, not about rounding.
\<close>

section \<open>Constants\<close>

text \<open>The value of a decimal constant of the source.\<close>

definition digits :: "string \<Rightarrow> nat" where
  "digits s = foldl (\<lambda>n c. 10 * n + (of_char c - 48)) 0 s"

definition lit_real :: "string \<Rightarrow> real" where
  "lit_real s = (if s = ''M_PI'' then pi
     else (let a = takeWhile (\<lambda>c. c \<noteq> CHR ''.'') s; b = drop (Suc (length a)) s
           in real (digits (a @ b)) / 10 ^ length b))"

section \<open>The instance\<close>

definition atan2_real :: "real \<Rightarrow> real \<Rightarrow> real" where
  "atan2_real y x =
     (if x > 0 then arctan (y / x)
      else if x < 0 then (if y \<ge> 0 then arctan (y / x) + pi else arctan (y / x) - pi)
      else if y > 0 then pi / 2 else if y < 0 then - (pi / 2) else 0)"

definition trunc_real :: "real \<Rightarrow> int" where
  "trunc_real x = (if 0 \<le> x then \<lfloor>x\<rfloor> else \<lceil>x\<rceil>)"

definition real_fp :: "real fp" where
  "real_fp = \<lparr>f_lit = lit_real, f_of_int = of_int, f_add = (+), f_sub = (-), f_mul = (*), f_div = (/), f_neg = uminus,
     f_less = (<), f_le = (\<le>), f_eq = (=), f_abs = abs, f_ceil = (\<lambda>x. of_int \<lceil>x\<rceil>), f_sqrt = sqrt, f_sin = sin, f_cos = cos,
     f_atan2 = atan2_real, f_i64 = trunc_real, f_u64 = trunc_real\<rparr>"

lemma real_fp_simps [simp]:
  "f_lit real_fp = lit_real" "f_of_int real_fp = of_int" "f_add real_fp = (+)" "f_sub real_fp = (-)" "f_mul real_fp = (*)"
  "f_div real_fp = (/)" "f_neg real_fp = uminus" "f_less real_fp = (<)" "f_le real_fp = (\<le>)" "f_eq real_fp = (=)"
  "f_abs real_fp = abs" "f_ceil real_fp = (\<lambda>x. of_int \<lceil>x\<rceil>)" "f_sqrt real_fp = sqrt" "f_sin real_fp = sin" "f_cos real_fp = cos"
  "f_atan2 real_fp = atan2_real" "f_i64 real_fp = trunc_real" "f_u64 real_fp = trunc_real"
  by (simp_all add: real_fp_def)

text \<open>A billionth, the distance and the time that the step solver neglects.\<close>

definition tiny :: real where "tiny = 1 / 1000000000"

lemma tiny_pos: "0 < tiny"
  by (simp add: tiny_def)

lemma lit_real_simps [simp]:
  "lit_real ''0.'' = 0" "lit_real ''1.'' = 1" "lit_real ''1.0'' = 1" "lit_real ''.5'' = 1 / 2" "lit_real ''2.'' = 2"
  "lit_real ''3.'' = 3" "lit_real ''.25'' = 1 / 4" "lit_real ''1.5'' = 3 / 2" "lit_real ''500.'' = 500" "lit_real ''500.0'' = 500"
  "lit_real ''1000.'' = 1000" "lit_real ''M_PI'' = pi"
  "lit_real ''0.000100'' = 1 / 10000" "lit_real ''.000750'' = 3 / 4000"
  "lit_real ''.000000001'' = tiny" "lit_real ''.000000010'' = 10 * tiny"
  "lit_real ''9999999999999999.9'' = 99999999999999999 / 10"
  by (simp_all add: lit_real_def digits_def tiny_def)

lemma f_zero_real [simp]: "f_zero real_fp = 0"
  by (simp add: f_zero_def)

lemma f_true_real [simp]: "f_true real_fp x \<longleftrightarrow> x \<noteq> 0"
  by (simp add: f_true_def)

end
