(* ===== verification/Trapq_Props.thy ===== *)
theory Trapq_Props
  imports Trapq Real_Arith
begin

text \<open>
  The queue of moves, over exact real numbers: the positions that it describes are those of the trapezoidal velocity
  that was asked for, and the history holds the moves that ended.
\<close>

section \<open>Positions\<close>

text \<open>The position that a list of moves has at a time: that of the first move which has not ended.\<close>

definition position_at :: "real move list \<Rightarrow> real \<Rightarrow> real coord option" where
  "position_at ms t = map_option (\<lambda>m. move_get_coord real_fp m (t - print_time m)) (find (\<lambda>m. t < move_end_time real_fp m) ms)"

lemma move_end_real [simp]: "move_end_time real_fp m = print_time m + move_t m"
  by (simp add: move_end_time_def)


lemma MAX_NULL_MOVE_real [simp]: "MAX_NULL_MOVE real_fp = 1"
  by (simp add: MAX_NULL_MOVE_def)

text \<open>
  The moves between the sentinels follow each other without a gap, except behind the head sentinel.
\<close>

definition follows :: "real move \<Rightarrow> real move \<Rightarrow> bool" where
  "follows a b \<longleftrightarrow> print_time a + move_t a \<le> print_time b \<and> (move_t a \<noteq> 0 \<longrightarrow> print_time a + move_t a = print_time b)"

definition queue_ok :: "real trapq \<Rightarrow> bool" where
  "queue_ok tq \<longleftrightarrow>
     (\<exists>h ms tail. moves tq = h # ms @ [tail] \<and> print_time h = 0 \<and> move_t h = 0 \<and>
        successively follows (h # ms) \<and> (\<forall>m \<in> set ms. 0 < move_t m) \<and> (ms \<noteq> [] \<longrightarrow> 0 < print_time (last ms)))"

definition last_end :: "real trapq \<Rightarrow> real" where
  "last_end tq = move_end_time real_fp (last (butlast (moves tq)))"

lemma alloc_ok: "queue_ok (trapq_alloc real_fp)" "last_end (trapq_alloc real_fp) = 0"
  by (auto simp: queue_ok_def last_end_def trapq_alloc_def move_alloc_def)

text \<open>Everything before the end of the queue has ended by then.\<close>

lemma follows_ended:
  "successively follows ms \<Longrightarrow> \<forall>m \<in> set ms. 0 \<le> move_t m \<Longrightarrow>
    \<forall>m \<in> set ms. print_time m + move_t m \<le> print_time (last ms) + move_t (last ms)"
proof (induction ms)
  case (Cons a ms)
  show ?case
  proof (cases ms)
    case (Cons b bs)
    then have "print_time a + move_t a \<le> print_time b + move_t b" using Cons.prems by (auto simp: follows_def)
    moreover have "\<forall>m \<in> set ms. print_time m + move_t m \<le> print_time (last ms) + move_t (last ms)"
      using Cons.IH Cons.prems Cons by auto
    ultimately show ?thesis using Cons by auto
  qed simp
qed simp

section \<open>Adding a move\<close>

lemma trapq_add_move_real:
  "moves (trapq_add_move real_fp m tq) =
     butlast (moves tq) @ (if last_end tq < print_time m then [null_move real_fp (last (butlast (moves tq))) m] else []) @
       [m, (last (moves tq))\<lparr>print_time := 0\<rparr>]"
  by (simp add: trapq_add_move_def last_end_def add_before_tail_def upd_tail_def Let_def butlast_append)

lemma null_move_coord: "move_get_coord real_fp (null_move real_fp prev m) u = start_pos m"
  by (simp add: null_move_def Let_def move_get_coord_def move_get_distance_def move_alloc_def coord_zero_def)

lemma null_move_real:
  assumes "print_time prev + move_t prev < print_time m" "0 < print_time prev \<or> print_time prev = 0 \<and> move_t prev = 0"
  shows "print_time (null_move real_fp prev m) + move_t (null_move real_fp prev m) = print_time m"
    "0 < move_t (null_move real_fp prev m)" "follows prev (null_move real_fp prev m)"
  using assms by (auto simp: null_move_def Let_def follows_def)

lemma position_at_append:
  assumes "\<forall>m \<in> set ms. print_time m + move_t m \<le> t"
  shows "position_at (ms @ ms') t = position_at ms' t"
proof -
  have "find (\<lambda>m. t < move_end_time real_fp m) (ms @ ms') = find (\<lambda>m. t < move_end_time real_fp m) ms'"
    using assms by (induction ms) auto
  then show ?thesis by (simp add: position_at_def)
qed

lemma position_at_before:
  assumes "ms \<noteq> []" "t < print_time (last ms) + move_t (last ms)"
  shows "position_at (ms @ ms') t = position_at (ms @ ms'') t"
proof -
  have "find (\<lambda>m. t < move_end_time real_fp m) (ms @ ms1) = find (\<lambda>m. t < move_end_time real_fp m) ms" for ms1
    using assms
  proof (induction ms)
    case (Cons a ms)
    then show ?case by (cases "ms = []") auto
  qed simp
  then show ?thesis by (simp add: position_at_def)
qed

lemma position_at_Cons: "position_at (m # ms) t =
    (if t < print_time m + move_t m then Some (move_get_coord real_fp m (t - print_time m)) else position_at ms t)"
  by (simp add: position_at_def)

text \<open>What one more move changes.\<close>

lemma queue_move_ok:
  assumes "queue_ok tq" "last_end tq \<le> print_time m" "0 < print_time m" "0 < move_t m"
  shows "queue_ok (trapq_add_move real_fp m tq)" "last_end (trapq_add_move real_fp m tq) = print_time m + move_t m"
    "history (trapq_add_move real_fp m tq) = history tq"
    "position_at (moves (trapq_add_move real_fp m tq)) t =
       (if t < last_end tq then position_at (moves tq) t
        else if t < print_time m then Some (start_pos m)
        else if t < print_time m + move_t m then Some (move_get_coord real_fp m (t - print_time m))
        else position_at (moves (trapq_add_move real_fp m tq)) t)"
proof -
  obtain h ms tail where q: "moves tq = h # ms @ [tail]" "print_time h = 0" "move_t h = 0" "successively follows (h # ms)"
    "\<forall>m \<in> set ms. 0 < move_t m" "ms \<noteq> [] \<longrightarrow> 0 < print_time (last ms)" using assms(1) by (auto simp: queue_ok_def)
  let ?prev = "last (h # ms)" and ?tail = "tail\<lparr>print_time := 0\<rparr>"
  have bl: "butlast (moves tq) = h # ms" "last (moves tq) = tail" using q(1) by (simp_all add: butlast_append)
  have le: "last_end tq = print_time ?prev + move_t ?prev" by (simp add: last_end_def bl)
  have pv: "0 < print_time ?prev \<or> print_time ?prev = 0 \<and> move_t ?prev = 0" using q by auto
  let ?nl = "if last_end tq < print_time m then [null_move real_fp ?prev m] else []"
  have mv: "moves (trapq_add_move real_fp m tq) = (h # ms) @ ?nl @ [m, ?tail]"
    by (simp add: trapq_add_move_real bl del: last.simps)
  have n: "follows ?prev (null_move real_fp ?prev m)" "follows (null_move real_fp ?prev m) m" "0 < move_t (null_move real_fp ?prev m)"
    "print_time (null_move real_fp ?prev m) + move_t (null_move real_fp ?prev m) = print_time m"
    if "last_end tq < print_time m" using null_move_real [of ?prev m] that le pv by (auto simp: follows_def)
  have d: "follows ?prev m" if "\<not> last_end tq < print_time m" using that assms(2) le by (auto simp: follows_def)
  have "successively follows (?nl @ [m])" "follows ?prev (hd (?nl @ [m]))" using n d by auto
  then have "successively follows ((h # ms) @ ?nl @ [m])"
    using q(4) by (simp only: successively_append_iff list.distinct simp_thms)
  then have s: "successively follows (h # ms @ ?nl @ [m])" by simp
  show "queue_ok (trapq_add_move real_fp m tq)"
    unfolding queue_ok_def mv
    by (rule exI [of _ h], rule exI [of _ "ms @ ?nl @ [m]"], rule exI [of _ ?tail]) (use q s n assms(3,4) in auto)
  show "last_end (trapq_add_move real_fp m tq) = print_time m + move_t m"
    by (simp add: last_end_def mv butlast_append)
  show "history (trapq_add_move real_fp m tq) = history tq" by (simp add: trapq_add_move_def Let_def)
  have before: "\<forall>x \<in> set (h # ms). print_time x + move_t x \<le> last_end tq"
    unfolding le by (rule follows_ended [OF q(4)]) (use q(3,5) in auto)
  show "position_at (moves (trapq_add_move real_fp m tq)) t =
       (if t < last_end tq then position_at (moves tq) t
        else if t < print_time m then Some (start_pos m)
        else if t < print_time m + move_t m then Some (move_get_coord real_fp m (t - print_time m))
        else position_at (moves (trapq_add_move real_fp m tq)) t)"
  proof (cases "t < last_end tq")
    case True
    then have "position_at ((h # ms) @ ?nl @ [m, ?tail]) t = position_at ((h # ms) @ [tail]) t"
      by (intro position_at_before) (use le in auto)
    then show ?thesis using True unfolding mv q(1) by simp
  next
    case False
    then have e: "position_at ((h # ms) @ ?nl @ [m, ?tail]) t = position_at (?nl @ [m, ?tail]) t"
      by (intro position_at_append) (use before in fastforce)
    have "position_at (?nl @ [m, ?tail]) t =
        (if t < print_time m then Some (start_pos m)
         else if t < print_time m + move_t m then Some (move_get_coord real_fp m (t - print_time m))
         else position_at (?nl @ [m, ?tail]) t)"
      using False n assms(2) by (auto simp: position_at_Cons null_move_coord)
    then show ?thesis unfolding mv e if_not_P [OF False] .
  qed
qed

section \<open>Moves with trapezoidal velocity\<close>

text \<open>The distance after a time: speeding up, at constant speed, slowing down.\<close>

definition trapezoid :: "real \<Rightarrow> real \<Rightarrow> real \<Rightarrow> real \<Rightarrow> real \<Rightarrow> real \<Rightarrow> real" where
  "trapezoid accel_t cruise_t v cruise_v accel t =
     (let speed_up = (\<lambda>t. v * t + accel * t\<^sup>2 / 2)
      in if t < accel_t then speed_up t
         else if t < accel_t + cruise_t then speed_up accel_t + cruise_v * (t - accel_t)
         else (let u = t - accel_t - cruise_t in speed_up accel_t + cruise_v * cruise_t + cruise_v * u - accel * u\<^sup>2 / 2))"

definition along :: "real coord \<Rightarrow> real coord \<Rightarrow> real \<Rightarrow> real coord" where
  "along pos r d = \<lparr>cx = cx pos + cx r * d, cy = cy pos + cy r * d, cz = cz pos + cz r * d\<rparr>"

lemma move_coord_along: "move_get_coord real_fp m t = along (start_pos m) (axes_r m) ((start_v m + half_accel m * t) * t)"
  by (simp add: move_get_coord_def move_get_distance_def along_def Let_def)

lemma along_along: "along (along pos r a) r b = along pos r (a + b)"
  by (simp add: along_def algebra_simps)

lemma along_0 [simp]: "along pos r 0 = pos"
  by (simp add: along_def)

text \<open>One part of \<open>trapq_append\<close>, for a part that may be empty.\<close>

lemma append_part_ok:
  assumes "queue_ok tq" "last_end tq \<le> time" "0 < time" "0 \<le> d" "append_part real_fp r d v ha (time, pos, tq) = (time', pos', tq')"
  shows "queue_ok tq'" "last_end tq' \<le> time'" "d \<noteq> 0 \<Longrightarrow> last_end tq' = time'" "d = 0 \<Longrightarrow> tq' = tq" "time' = time + d" "pos' = along pos r ((v + ha * d) * d)"
    "history tq' = history tq"
    "t < last_end tq \<Longrightarrow> position_at (moves tq') t = position_at (moves tq) t"
    "last_end tq \<le> t \<Longrightarrow> t < time \<Longrightarrow> d \<noteq> 0 \<Longrightarrow> position_at (moves tq') t = Some pos"
    "time \<le> t \<Longrightarrow> t < time + d \<Longrightarrow> position_at (moves tq') t = Some (along pos r ((v + ha * (t - time)) * (t - time)))"
proof -
  let ?m = "\<lparr>print_time = time, move_t = d, start_v = v, half_accel = ha, start_pos = pos, axes_r = r\<rparr>"
  have "queue_ok tq' \<and> last_end tq' \<le> time' \<and> (d \<noteq> 0 \<longrightarrow> last_end tq' = time') \<and> (d = 0 \<longrightarrow> tq' = tq) \<and> time' = time + d \<and> pos' = along pos r ((v + ha * d) * d) \<and>
    history tq' = history tq \<and>
    (t < last_end tq \<longrightarrow> position_at (moves tq') t = position_at (moves tq) t) \<and>
    (last_end tq \<le> t \<longrightarrow> t < time \<longrightarrow> d \<noteq> 0 \<longrightarrow> position_at (moves tq') t = Some pos) \<and>
    (time \<le> t \<longrightarrow> t < time + d \<longrightarrow> position_at (moves tq') t = Some (along pos r ((v + ha * (t - time)) * (t - time))))"
  proof (cases "d = 0")
    case True
    then show ?thesis using assms by (auto simp: append_part_def)
  next
    case False
    have "last_end tq \<le> print_time ?m" "0 < print_time ?m" "0 < move_t ?m" using assms False by simp_all
    note k = queue_move_ok [OF assms(1) this]
    have e: "time' = time + d" "pos' = along pos r ((v + ha * d) * d)" "tq' = trapq_add_move real_fp ?m tq"
      using assms(5) False by (auto simp: append_part_def Let_def move_coord_along)
    show ?thesis unfolding e using k(1-3) k(4) [of t] assms(2) False by (auto simp: move_coord_along)
  qed
  then show "queue_ok tq'" "last_end tq' \<le> time'" "d \<noteq> 0 \<Longrightarrow> last_end tq' = time'" "d = 0 \<Longrightarrow> tq' = tq" "time' = time + d" "pos' = along pos r ((v + ha * d) * d)"
    "history tq' = history tq"
    "t < last_end tq \<Longrightarrow> position_at (moves tq') t = position_at (moves tq) t"
    "last_end tq \<le> t \<Longrightarrow> t < time \<Longrightarrow> d \<noteq> 0 \<Longrightarrow> position_at (moves tq') t = Some pos"
    "time \<le> t \<Longrightarrow> t < time + d \<Longrightarrow> position_at (moves tq') t = Some (along pos r ((v + ha * (t - time)) * (t - time)))"
    by blast+
qed

text \<open>Two parts that follow each other keep what the first one describes.\<close>

lemma append_part_keeps:
  assumes "queue_ok tq" "last_end tq \<le> time" "0 < time" "0 \<le> d" "append_part real_fp r d v ha (time, pos, tq) = (time', pos', tq')"
  shows "last_end tq \<le> last_end tq'" "t < last_end tq \<Longrightarrow> position_at (moves tq') t = position_at (moves tq) t"
proof -
  note k = append_part_ok [OF assms]
  show "last_end tq \<le> last_end tq'" using k(3-5) assms(2,4) by (cases "d = 0") auto
  show "t < last_end tq \<Longrightarrow> position_at (moves tq') t = position_at (moves tq) t" by (rule k(8))
qed

lemma append_positions:
  assumes "queue_ok tq" "last_end tq \<le> time" "0 < time" "0 \<le> accel_t" "0 \<le> cruise_t" "0 \<le> decel_t"
    "accel_t + cruise_t + decel_t \<noteq> 0" "tq' = trapq_append real_fp time accel_t cruise_t decel_t pos r v cruise_v accel tq"
  shows "queue_ok tq' \<and> last_end tq' = time + accel_t + cruise_t + decel_t \<and> history tq' = history tq \<and>
    (t < last_end tq \<longrightarrow> position_at (moves tq') t = position_at (moves tq) t) \<and>
    (last_end tq \<le> t \<and> t < time \<longrightarrow> position_at (moves tq') t = Some pos) \<and>
    (time \<le> t \<and> t < time + accel_t + cruise_t + decel_t \<longrightarrow>
       position_at (moves tq') t = Some (along pos r (trapezoid accel_t cruise_t v cruise_v accel (t - time))))"
proof -
  obtain t1 p1 q1 where 1: "append_part real_fp r accel_t v (1 / 2 * accel) (time, pos, tq) = (t1, p1, q1)" by (cases "append_part real_fp r accel_t v (1 / 2 * accel) (time, pos, tq)")
  obtain t2 p2 q2 where 2: "append_part real_fp r cruise_t cruise_v 0 (t1, p1, q1) = (t2, p2, q2)" by (cases "append_part real_fp r cruise_t cruise_v 0 (t1, p1, q1)")
  obtain t3 p3 q3 where 3: "append_part real_fp r decel_t cruise_v (- (1 / 2) * accel) (t2, p2, q2) = (t3, p3, q3)"
    by (cases "append_part real_fp r decel_t cruise_v (- (1 / 2) * accel) (t2, p2, q2)")
  have q3: "tq' = q3" using 1 2 3 assms(8) by (simp add: trapq_append_def)
  note a = append_part_ok [OF assms(1-4) 1] and a' = append_part_keeps [OF assms(1-4) 1]
  have t1: "0 < t1" using a(5) assms(3,4) by simp
  note b = append_part_ok [OF a(1,2) t1 assms(5) 2] and b' = append_part_keeps [OF a(1,2) t1 assms(5) 2]
  have t2: "0 < t2" using b(5) t1 assms(5) by simp
  note c = append_part_ok [OF b(1,2) t2 assms(6) 3] and c' = append_part_keeps [OF b(1,2) t2 assms(6) 3]
  have le: "last_end q3 = time + accel_t + cruise_t + decel_t"
  proof -
    consider "decel_t \<noteq> 0" | "decel_t = 0" "cruise_t \<noteq> 0" | "decel_t = 0" "cruise_t = 0" "accel_t \<noteq> 0" using assms(7) by force
    then show ?thesis
    proof cases
      case 1
      then show ?thesis using c(3,5) b(5) a(5) by linarith
    next
      case 2
      then show ?thesis using c(4) b(3,5) a(5) by auto
    next
      case 3
      then show ?thesis using c(4) b(4) a(3,5) by auto
    qed
  qed
  have before: "position_at (moves q3) t = position_at (moves tq) t" if "t < last_end tq"
    using a'(2) [of t] b'(2) [of t] c'(2) [of t] a'(1) b'(1) that by simp
  have gap: "position_at (moves q3) t = Some pos" if "last_end tq \<le> t" "t < time"
  proof -
    consider "accel_t \<noteq> 0" | "accel_t = 0" "cruise_t \<noteq> 0" | "accel_t = 0" "cruise_t = 0" "decel_t \<noteq> 0" using assms(7) by force
    then show ?thesis
    proof cases
      case 1
      then have "t < last_end q1" using a(3,5) assms(4) that by linarith
      then show ?thesis using a(9) [OF that 1] b'(2) [of t] c'(2) [of t] b'(1) by auto
    next
      case 2
      then have "t < last_end q2" "last_end q1 \<le> t" "t < t1" "p1 = pos" using a(4-6) b(3,5) assms(5) that by auto
      then show ?thesis using b(9) [of t] c'(2) [of t] 2 by auto
    next
      case 3
      then have "last_end q2 \<le> t" "t < t2" "p2 = pos" using a(4-6) b(4-6) that by auto
      then show ?thesis using c(9) [of t] 3 by auto
    qed
  qed
  have inside: "position_at (moves q3) t = Some (along pos r (trapezoid accel_t cruise_t v cruise_v accel (t - time)))"
    if "time \<le> t" "t < time + accel_t + cruise_t + decel_t"
  proof -
    consider (speed_up) "t < time + accel_t" | (cruise) "time + accel_t \<le> t" "t < time + accel_t + cruise_t"
      | (slow_down) "time + accel_t + cruise_t \<le> t" using that by linarith
    then show ?thesis
    proof cases
      case speed_up
      then have n: "accel_t \<noteq> 0" using that by auto
      have "t < last_end q1" "t < time + accel_t" using a(3) [OF n] a(5) speed_up by linarith+
      then have "position_at (moves q3) t = Some (along pos r ((v + 1 / 2 * accel * (t - time)) * (t - time)))"
        using a(10) [of t] that b'(2) [of t] c'(2) [of t] b'(1) by auto
      moreover have "(v + 1 / 2 * accel * (t - time)) * (t - time) = trapezoid accel_t cruise_t v cruise_v accel (t - time)"
        using speed_up by (simp add: trapezoid_def Let_def power2_eq_square algebra_simps)
      ultimately show ?thesis by simp
    next
      case cruise
      then have n: "cruise_t \<noteq> 0" by auto
      have "t < last_end q2" "t1 \<le> t" "t < t1 + cruise_t" using b(3) [OF n] b(5) a(5) cruise by linarith+
      then have "position_at (moves q3) t = Some (along p1 r ((cruise_v + 0 * (t - t1)) * (t - t1)))"
        using b(10) [of t] c'(2) [of t] by auto
      moreover have "(v + 1 / 2 * accel * accel_t) * accel_t + (cruise_v + 0 * (t - t1)) * (t - t1) =
          trapezoid accel_t cruise_t v cruise_v accel (t - time)"
        using cruise a(5) by (simp add: trapezoid_def Let_def power2_eq_square algebra_simps)
      ultimately show ?thesis using a(6) by (simp add: along_along)
    next
      case slow_down
      have "t2 \<le> t" "t < t2 + decel_t" using b(5) a(5) slow_down that by linarith+
      then have "position_at (moves q3) t = Some (along p2 r ((cruise_v + - (1 / 2) * accel * (t - t2)) * (t - t2)))"
        by (rule c(10))
      moreover have "(v + 1 / 2 * accel * accel_t) * accel_t + (cruise_v + 0 * cruise_t) * cruise_t +
          (cruise_v + - (1 / 2) * accel * (t - t2)) * (t - t2) = trapezoid accel_t cruise_t v cruise_v accel (t - time)"
      proof -
        have u: "t - time - accel_t - cruise_t = t - t2" "\<not> t - time < accel_t" "\<not> t - time < accel_t + cruise_t"
          using a(5) b(5) slow_down assms(5) by linarith+
        show ?thesis unfolding trapezoid_def Let_def u(1) if_not_P [OF u(2)] if_not_P [OF u(3)]
          by (simp add: power2_eq_square field_simps)
      qed
      ultimately show ?thesis using a(6) b(6) by (simp add: along_along)
    qed
  qed
  show ?thesis unfolding q3 using c(1,7) b(7) a(7) le before gap inside by auto
qed

text \<open>
  C29: The queue behind an appended move describes the positions of the trapezoidal velocity that was asked for, holds the
  position before it begins, and describes the same positions as before for earlier times.
\<close>

theorem append_is_trapezoid:
  assumes "queue_ok tq" "last_end tq \<le> time" "0 < time" "0 \<le> accel_t" "0 \<le> cruise_t" "0 \<le> decel_t"
    "accel_t + cruise_t + decel_t \<noteq> 0" "tq' = trapq_append real_fp time accel_t cruise_t decel_t pos r v cruise_v accel tq"
  shows "queue_ok tq' \<and> last_end tq' = time + accel_t + cruise_t + decel_t \<and> history tq' = history tq \<and>
    (t < last_end tq \<longrightarrow> position_at (moves tq') t = position_at (moves tq) t) \<and>
    (last_end tq \<le> t \<and> t < time \<longrightarrow> position_at (moves tq') t = Some pos) \<and>
    (time \<le> t \<and> t < time + accel_t + cruise_t + decel_t \<longrightarrow>
       position_at (moves tq') t = Some (along pos r (trapezoid accel_t cruise_t v cruise_v accel (t - time))))"
  using assms by (rule append_positions)

theorem append_is_trapezoid_witness:
  "\<exists>tq'. tq' = trapq_append real_fp 5 1 2 1 \<lparr>cx = 0, cy = 0, cz = 0\<rparr> \<lparr>cx = 1, cy = 0, cz = 0\<rparr> 0 10 10 (trapq_alloc real_fp) \<and>
     position_at (moves tq') 6 = Some \<lparr>cx = 5, cy = 0, cz = 0\<rparr>"
  using append_is_trapezoid [OF alloc_ok(1), of 5 1 2 1 _ "\<lparr>cx = 0, cy = 0, cz = 0\<rparr>" "\<lparr>cx = 1, cy = 0, cz = 0\<rparr>" 0 10 10 6]
  by (simp add: alloc_ok(2) along_def trapezoid_def)

section \<open>The history\<close>

text \<open>The moves between the sentinels.\<close>

definition inner :: "'t trapq \<Rightarrow> 't move list" where
  "inner tq = butlast (tl (moves tq))"

definition earlier :: "real move \<Rightarrow> real move \<Rightarrow> bool" where
  "earlier a b \<longleftrightarrow> print_time a + move_t a \<le> print_time b"

definition moving :: "real move \<Rightarrow> bool" where
  "moving m \<longleftrightarrow> start_v m \<noteq> 0 \<or> half_accel m \<noteq> 0"

text \<open>
  From the latest entry of the history back, every move ended before the next one began. Null moves do not get into the
  history; the first one may begin before the last move of the history ended.
\<close>

definition history_ok :: "real trapq \<Rightarrow> bool" where
  "history_ok tq \<longleftrightarrow> queue_ok tq \<and> sorted_wrt (\<lambda>a b. earlier b a) (history tq) \<and> (\<forall>m \<in> set (history tq). 0 \<le> move_t m) \<and>
     (\<forall>a \<in> set (history tq). \<forall>b \<in> set (inner tq). moving b \<longrightarrow> earlier a b)"














lemma extract_loop_eq:
  assumes "sorted_wrt (\<lambda>a b. earlier b a) hist" "\<forall>m \<in> set hist. 0 \<le> move_t m"
  shows "extract_loop real_fp n s e hist =
    map (pull_of_move real_fp) (take n (filter (\<lambda>m. print_time m < e \<and> s < print_time m + move_t m) hist))"
  using assms
proof (induction hist arbitrary: n)
  case (Cons m hist)
  show ?case
  proof (cases "print_time m + move_t m \<le> s")
    case True
    then have "\<forall>x \<in> set (m # hist). \<not> s < print_time x + move_t x" using Cons.prems by (auto simp: earlier_def)
    then have "filter (\<lambda>m. print_time m < e \<and> s < print_time m + move_t m) (m # hist) = []" by (auto simp: filter_empty_conv)
    then show ?thesis using True by simp
  next
    case False
    then show ?thesis using Cons by (cases n) auto
  qed
qed simp

text \<open>
  The report of the history has the moves that overlap the time asked for, latest first, up to the given number.
\<close>

theorem history_report:
  assumes "history_ok tq"
  shows "trapq_extract_old real_fp n start_time end_time tq =
    map (pull_of_move real_fp) (take n (filter (\<lambda>m. print_time m < end_time \<and> start_time < print_time m + move_t m) (history tq)))"
  using assms by (simp add: trapq_extract_old_def extract_loop_eq history_ok_def)

theorem history_report_witness:
  "trapq_extract_old real_fp 3 0 5 (trapq_set_position real_fp 2 \<lparr>cx = 7, cy = 0, cz = 0\<rparr> (trapq_alloc real_fp)) =
     map (pull_of_move real_fp) [(move_alloc real_fp)\<lparr>print_time := 2, start_pos := \<lparr>cx = 7, cy = 0, cz = 0\<rparr>\<rparr>]"
proof -
  let ?tq = "trapq_set_position real_fp 2 \<lparr>cx = 7, cy = 0, cz = 0\<rparr> (trapq_alloc real_fp)"
  have h: "history ?tq = [(move_alloc real_fp)\<lparr>print_time := 2, start_pos := \<lparr>cx = 7, cy = 0, cz = 0\<rparr>\<rparr>]"
    by (simp add: trapq_set_position_def trapq_finalize_moves_def trapq_alloc_def free_old_def Let_def)
  have "queue_ok ?tq"
    by (simp add: queue_ok_def trapq_set_position_def trapq_finalize_moves_def trapq_alloc_def Let_def move_alloc_def)
  moreover have "inner ?tq = []"
    by (simp add: inner_def trapq_set_position_def trapq_finalize_moves_def trapq_alloc_def Let_def)
  ultimately have "history_ok ?tq" by (simp add: history_ok_def h move_alloc_def)
  from history_report [OF this, of 3 0 5] show ?thesis by (simp add: h move_alloc_def)
qed

end
