(* ===== verification/Kinematics.thy ===== *)
theory Kinematics
  imports Trapq
begin

text \<open>
  The position of a stepper from a move and a time in it, for the kinds of printers in
  \<open>klipper/klippy/chelper/kin_*.c\<close>, as far as they need nothing but the moves: the solver and the kinematics that wrap
  another one follow in the theory \<open>Itersolve\<close>. Definitions only.
\<close>

section \<open>Arithmetic on coordinates\<close>

text \<open>\<open>dx*dx + dy*dy\<close> and \<open>a - dx*dx\<close> are written in many places.\<close>

abbreviation sqr :: "'t fp \<Rightarrow> 't \<Rightarrow> 't" where
  "sqr F x \<equiv> f_mul F x x"

section \<open>Cartesian, CoreXY and CoreXZ printers\<close>

definition cart_stepper_x_calc_position :: "'t fp \<Rightarrow> 't move \<Rightarrow> 't \<Rightarrow> 't" where
  "cart_stepper_x_calc_position F m t = cx (move_get_coord F m t)"

definition cart_stepper_y_calc_position :: "'t fp \<Rightarrow> 't move \<Rightarrow> 't \<Rightarrow> 't" where
  "cart_stepper_y_calc_position F m t = cy (move_get_coord F m t)"

definition cart_stepper_z_calc_position :: "'t fp \<Rightarrow> 't move \<Rightarrow> 't \<Rightarrow> 't" where
  "cart_stepper_z_calc_position F m t = cz (move_get_coord F m t)"

definition corexy_stepper_plus_calc_position :: "'t fp \<Rightarrow> 't move \<Rightarrow> 't \<Rightarrow> 't" where
  "corexy_stepper_plus_calc_position F m t = (let c = move_get_coord F m t in f_add F (cx c) (cy c))"

definition corexy_stepper_minus_calc_position :: "'t fp \<Rightarrow> 't move \<Rightarrow> 't \<Rightarrow> 't" where
  "corexy_stepper_minus_calc_position F m t = (let c = move_get_coord F m t in f_sub F (cx c) (cy c))"

definition corexz_stepper_plus_calc_position :: "'t fp \<Rightarrow> 't move \<Rightarrow> 't \<Rightarrow> 't" where
  "corexz_stepper_plus_calc_position F m t = (let c = move_get_coord F m t in f_add F (cx c) (cz c))"

definition corexz_stepper_minus_calc_position :: "'t fp \<Rightarrow> 't move \<Rightarrow> 't \<Rightarrow> 't" where
  "corexz_stepper_minus_calc_position F m t = (let c = move_get_coord F m t in f_sub F (cx c) (cz c))"

section \<open>Printers with arms and cables\<close>

record 't delta_stepper =
  dl_arm2 :: 't
  tower_x :: 't
  tower_y :: 't

definition delta_stepper_calc_position :: "'t fp \<Rightarrow> 't delta_stepper \<Rightarrow> 't move \<Rightarrow> 't \<Rightarrow> 't" where
  "delta_stepper_calc_position F ds m t =
     (let c = move_get_coord F m t; dx = f_sub F (tower_x ds) (cx c); dy = f_sub F (tower_y ds) (cy c)
      in f_add F (f_sqrt F (f_sub F (f_sub F (dl_arm2 ds) (sqr F dx)) (sqr F dy))) (cz c))"

record 't deltesian_stepper =
  dt_arm2 :: 't
  arm_x :: 't

definition deltesian_stepper_calc_position :: "'t fp \<Rightarrow> 't deltesian_stepper \<Rightarrow> 't move \<Rightarrow> 't \<Rightarrow> 't" where
  "deltesian_stepper_calc_position F ds m t =
     (let c = move_get_coord F m t; dx = f_sub F (cx c) (arm_x ds)
      in f_add F (f_sqrt F (f_sub F (dt_arm2 ds) (sqr F dx))) (cz c))"

definition winch_stepper_calc_position :: "'t fp \<Rightarrow> 't coord \<Rightarrow> 't move \<Rightarrow> 't \<Rightarrow> 't" where
  "winch_stepper_calc_position F anchor m t =
     (let c = move_get_coord F m t;
          dx = f_sub F (cx anchor) (cx c); dy = f_sub F (cy anchor) (cy c); dz = f_sub F (cz anchor) (cz c)
      in f_sqrt F (f_add F (f_add F (sqr F dx) (sqr F dy)) (sqr F dz)))"

definition rotary_two_arm_calc :: "'t fp \<Rightarrow> 't \<Rightarrow> 't \<Rightarrow> 't \<Rightarrow> 't \<Rightarrow> 't" where
  "rotary_two_arm_calc F dx dy upper_arm2 lower_arm2 =
     (let inv_dy = f_div F (f_lit F ''1.'') dy;
          c1 = f_mul F (f_mul F (f_lit F ''.5'') inv_dy)
                 (f_sub F (f_add F (f_add F (sqr F dx) (sqr F dy)) upper_arm2) lower_arm2);
          c2 = f_mul F dx inv_dy;
          scale = f_add F (sqr F c2) (f_lit F ''1.0'');
          scaled_elbow_x = f_add F (f_mul F c1 c2) (f_sqrt F (f_sub F (f_mul F scale upper_arm2) (sqr F c1)));
          scaled_elbow_y = f_sub F (f_mul F c1 scale) (f_mul F c2 scaled_elbow_x)
      in f_atan2 F scaled_elbow_y scaled_elbow_x)"

record 't rotary_stepper =
  rs_cos :: 't
  rs_sin :: 't
  shoulder_radius :: 't
  shoulder_height :: 't
  upper_arm2 :: 't
  lower_arm2 :: 't

definition rotary_stepper_calc_position :: "'t fp \<Rightarrow> 't rotary_stepper \<Rightarrow> 't move \<Rightarrow> 't \<Rightarrow> 't" where
  "rotary_stepper_calc_position F rs m t =
     (let c = move_get_coord F m t;
          sjz = f_sub F (f_mul F (cy c) (rs_cos rs)) (f_mul F (cx c) (rs_sin rs));
          sjx = f_sub F (f_add F (f_mul F (cx c) (rs_cos rs)) (f_mul F (cy c) (rs_sin rs))) (shoulder_radius rs);
          sjy = f_sub F (cz c) (shoulder_height rs)
      in rotary_two_arm_calc F sjx sjy (upper_arm2 rs) (f_sub F (lower_arm2 rs) (sqr F sjz)))"

section \<open>Polar printers\<close>

definition M_PI :: "'t fp \<Rightarrow> 't" where "M_PI F = f_lit F ''M_PI''"

definition polar_stepper_radius_calc_position :: "'t fp \<Rightarrow> 't move \<Rightarrow> 't \<Rightarrow> 't" where
  "polar_stepper_radius_calc_position F m t =
     (let c = move_get_coord F m t in f_sqrt F (f_add F (sqr F (cx c)) (sqr F (cy c))))"

text \<open>\<open>pos\<close> is \<open>sk->commanded_pos\<close>.\<close>

definition polar_stepper_angle_calc_position :: "'t fp \<Rightarrow> 't \<Rightarrow> 't move \<Rightarrow> 't \<Rightarrow> 't" where
  "polar_stepper_angle_calc_position F pos m t =
     (let c = move_get_coord F m t; angle = f_atan2 F (cy c) (cx c)
      in if f_less F (M_PI F) (f_sub F angle pos) then f_sub F angle (f_mul F (f_lit F ''2.'') (M_PI F))
         else if f_less F (f_sub F angle pos) (f_neg F (M_PI F)) then f_add F angle (f_mul F (f_lit F ''2.'') (M_PI F))
         else angle)"

definition polar_stepper_angle_post_fixup :: "'t fp \<Rightarrow> 't \<Rightarrow> 't" where
  "polar_stepper_angle_post_fixup F pos =
     (if f_less F pos (f_neg F (M_PI F)) then f_add F pos (f_mul F (f_of_int F 2) (M_PI F))
      else if f_less F (M_PI F) pos then f_sub F pos (f_mul F (f_of_int F 2) (M_PI F))
      else pos)"

section \<open>Extruder\<close>

definition extruder_integrate :: "'t fp \<Rightarrow> 't \<Rightarrow> 't \<Rightarrow> 't \<Rightarrow> 't \<Rightarrow> 't \<Rightarrow> 't" where
  "extruder_integrate F base v ha start fin =
     (let half_v = f_mul F (f_lit F ''.5'') v;
          sixth_a = f_mul F (f_div F (f_lit F ''1.'') (f_lit F ''3.'')) ha;
          at = (\<lambda>x. f_mul F x (f_add F base (f_mul F x (f_add F half_v (f_mul F x sixth_a)))))
      in f_sub F (at fin) (at start))"

definition extruder_integrate_time :: "'t fp \<Rightarrow> 't \<Rightarrow> 't \<Rightarrow> 't \<Rightarrow> 't \<Rightarrow> 't \<Rightarrow> 't" where
  "extruder_integrate_time F base v ha start fin =
     (let half_b = f_mul F (f_lit F ''.5'') base;
          third_v = f_mul F (f_div F (f_lit F ''1.'') (f_lit F ''3.'')) v;
          eighth_a = f_mul F (f_lit F ''.25'') ha;
          at = (\<lambda>x. f_mul F (f_mul F x x) (f_add F half_b (f_mul F x (f_add F third_v (f_mul F x eighth_a)))))
      in f_sub F (at fin) (at start))"

definition pa_move_integrate :: "'t fp \<Rightarrow> 't move \<Rightarrow> 't \<Rightarrow> 't \<Rightarrow> 't \<Rightarrow> 't \<Rightarrow> 't \<Rightarrow> 't" where
  "pa_move_integrate F m pressure_advance base start fin time_offset =
     (let start = (if f_less F start (f_zero F) then f_zero F else start);
          fin = (if f_less F (move_t m) fin then move_t m else fin);
          can_pressure_advance = f_true F (cy (axes_r m));
          pressure_advance = (if \<not> can_pressure_advance then f_zero F else pressure_advance);
          base = f_add F base (f_mul F pressure_advance (start_v m));
          v = f_add F (start_v m) (f_mul F (f_mul F pressure_advance (f_lit F ''2.'')) (half_accel m));
          ha = half_accel m;
          iext = extruder_integrate F base v ha start fin;
          wgt_ext = extruder_integrate_time F base v ha start fin
      in f_sub F wgt_ext (f_mul F time_offset iext))"

text \<open>
  The loops over the previous and over the next moves, from the move at position \<open>i\<close>. \<open>None\<close>: the loop left the
  list.
\<close>

fun pa_prev_loop :: "'t fp \<Rightarrow> 't \<Rightarrow> 't \<Rightarrow> 't move list \<Rightarrow> nat \<Rightarrow> 't \<Rightarrow> 't \<Rightarrow> 't option" where
  "pa_prev_loop F pressure_advance start_base ms i start res =
     (if \<not> f_less F start (f_zero F) then Some res
      else
        (case i of
           0 \<Rightarrow> None
         | Suc j \<Rightarrow>
             (let prev = ms ! j; start = f_add F start (move_t prev); base = f_sub F (cx (start_pos prev)) start_base
              in pa_prev_loop F pressure_advance start_base ms j start
                   (f_add F res (pa_move_integrate F prev pressure_advance base start (move_t prev) start)))))"

function pa_next_loop :: "'t fp \<Rightarrow> 't \<Rightarrow> 't \<Rightarrow> 't move list \<Rightarrow> nat \<Rightarrow> 't \<Rightarrow> 't \<Rightarrow> 't option" where
  "pa_next_loop F pressure_advance start_base ms i fin res =
     (if \<not> f_less F (move_t (ms ! i)) fin then Some res
      else if Suc i \<ge> length ms then None
      else
        (let fin = f_sub F fin (move_t (ms ! i)); m = ms ! Suc i; base = f_sub F (cx (start_pos m)) start_base
         in pa_next_loop F pressure_advance start_base ms (Suc i) fin
              (f_sub F res (pa_move_integrate F m pressure_advance base (f_zero F) fin fin))))"
  by pat_completeness auto
termination by (relation "measure (\<lambda>(F, p, b, ms, i, e, r). length ms - i)") auto

declare pa_prev_loop.simps [simp del] pa_next_loop.simps [simp del]

definition pa_range_integrate :: "'t fp \<Rightarrow> 't move list \<Rightarrow> nat \<Rightarrow> 't \<Rightarrow> 't \<Rightarrow> 't \<Rightarrow> 't option" where
  "pa_range_integrate F ms i move_time pressure_advance hst =
     (let m = ms ! i; start = f_sub F move_time hst; fin = f_add F move_time hst;
          start_base = cx (start_pos m);
          res = f_add F (f_zero F) (pa_move_integrate F m pressure_advance (f_zero F) start move_time start);
          res = f_sub F res (pa_move_integrate F m pressure_advance (f_zero F) move_time fin fin)
      in case pa_prev_loop F pressure_advance start_base ms i start res of
           None \<Rightarrow> None
         | Some res \<Rightarrow> pa_next_loop F pressure_advance start_base ms i fin res)"

record 't extruder_stepper =
  pressure_advance :: 't
  half_smooth_time :: 't
  inv_half_smooth_time2 :: 't

definition extruder_calc_position :: "'t fp \<Rightarrow> 't extruder_stepper \<Rightarrow> 't move list \<Rightarrow> nat \<Rightarrow> 't \<Rightarrow> 't option" where
  "extruder_calc_position F es ms i move_time =
     (let m = ms ! i; hst = half_smooth_time es
      in if \<not> f_true F hst then Some (f_add F (cx (start_pos m)) (move_get_distance F m move_time))
         else map_option (\<lambda>area. f_add F (cx (start_pos m)) (f_mul F area (inv_half_smooth_time2 es)))
                (pa_range_integrate F ms i move_time (pressure_advance es) hst))"

section \<open>Input shaper\<close>

text \<open>
  The pulses as pairs of \<open>t\<close> and \<open>a\<close>; \<open>num_pulses\<close> is the length of the list. The array has room for five.
\<close>

type_synonym 't shaper_pulses = "('t \<times> 't) list"

definition shift_pulses :: "'t fp \<Rightarrow> 't shaper_pulses \<Rightarrow> 't shaper_pulses" where
  "shift_pulses F sp =
     (let ts = foldl (\<lambda>ts (t, a). f_add F ts (f_mul F a t)) (f_zero F) sp
      in map (\<lambda>(t, a). (f_sub F t ts, a)) sp)"

definition init_shaper :: "'t fp \<Rightarrow> int \<Rightarrow> 't list \<Rightarrow> 't list \<Rightarrow> int \<times> 't shaper_pulses" where
  "init_shaper F n a t =
     (if n < 0 \<or> n > 5 then (-1, [])
      else
        (let sum_a = foldl (f_add F) (f_zero F) (take (nat n) a);
             inv_a = f_div F (f_lit F ''1.'') sum_a;
             sp = rev (map (\<lambda>i. (f_neg F (t ! i), f_mul F (a ! i) inv_a)) [0..<nat n])
         in (0, shift_pulses F sp)))"

datatype axis = Axis_X | Axis_Y | Axis_Z

definition axis_of :: "axis \<Rightarrow> 't coord \<Rightarrow> 't" where
  "axis_of ax c = (case ax of Axis_X \<Rightarrow> cx c | Axis_Y \<Rightarrow> cy c | Axis_Z \<Rightarrow> cz c)"

definition get_axis_position :: "'t fp \<Rightarrow> 't move \<Rightarrow> axis \<Rightarrow> 't \<Rightarrow> 't" where
  "get_axis_position F m ax move_time =
     (let axis_r = axis_of ax (axes_r m); start = axis_of ax (start_pos m); move_dist = move_get_distance F m move_time
      in f_add F start (f_mul F axis_r move_dist))"

text \<open>The two loops of \<open>get_axis_position_across_moves\<close>; the value is the move and the time in it.\<close>

fun walk_prev :: "'t fp \<Rightarrow> 't move list \<Rightarrow> nat \<Rightarrow> 't \<Rightarrow> (nat \<times> 't) option" where
  "walk_prev F ms i time =
     (if \<not> f_less F time (f_zero F) then Some (i, time)
      else (case i of 0 \<Rightarrow> None | Suc j \<Rightarrow> walk_prev F ms j (f_add F time (move_t (ms ! j)))))"

function walk_next :: "'t fp \<Rightarrow> 't move list \<Rightarrow> nat \<Rightarrow> 't \<Rightarrow> (nat \<times> 't) option" where
  "walk_next F ms i time =
     (if \<not> f_less F (move_t (ms ! i)) time then Some (i, time)
      else if Suc i \<ge> length ms then None
      else walk_next F ms (Suc i) (f_sub F time (move_t (ms ! i))))"
  by pat_completeness auto
termination by (relation "measure (\<lambda>(F, ms, i, t). length ms - i)") auto

declare walk_prev.simps [simp del] walk_next.simps [simp del]

definition get_axis_position_across_moves :: "'t fp \<Rightarrow> 't move list \<Rightarrow> nat \<Rightarrow> axis \<Rightarrow> 't \<Rightarrow> 't option" where
  "get_axis_position_across_moves F ms i ax time =
     (case walk_prev F ms i time of
        None \<Rightarrow> None
      | Some (i, time) \<Rightarrow>
          (case walk_next F ms i time of
             None \<Rightarrow> None
           | Some (i, time) \<Rightarrow> Some (get_axis_position F (ms ! i) ax time)))"

fun pulses_loop :: "'t fp \<Rightarrow> 't move list \<Rightarrow> nat \<Rightarrow> axis \<Rightarrow> 't \<Rightarrow> 't shaper_pulses \<Rightarrow> 't \<Rightarrow> 't option" where
  "pulses_loop F ms i ax move_time [] res = Some res"
| "pulses_loop F ms i ax move_time ((t, a) # sp) res =
     (case get_axis_position_across_moves F ms i ax (f_add F move_time t) of
        None \<Rightarrow> None
      | Some p \<Rightarrow> pulses_loop F ms i ax move_time sp (f_add F res (f_mul F a p)))"

text \<open>\<open>calc_position\<close> of the shaper.\<close>

definition shaper_calc_position :: "'t fp \<Rightarrow> 't move list \<Rightarrow> nat \<Rightarrow> axis \<Rightarrow> 't \<Rightarrow> 't shaper_pulses \<Rightarrow> 't option" where
  "shaper_calc_position F ms i ax move_time sp = pulses_loop F ms i ax move_time sp (f_zero F)"

end
