(* ===== verification/Step_Times.thy ===== *)
theory Step_Times
  imports Stepcompress Floating
begin

text \<open>
  The floating point part of \<open>klipper/klippy/chelper/stepcompress.c\<close>: the conversion of the times of the host into
  the clock of the micro-controller, and the operations of a stepper that use it.
\<close>

text \<open>\<open>struct stepcompress\<close> with its two floating point parameters.\<close>

record 't step_times =
  step_sc :: stepcompress
  mcu_time_offset :: 't
  mcu_freq :: 't

definition step_times_alloc :: "'t fp \<Rightarrow> u32 \<Rightarrow> 't step_times" where
  "step_times_alloc F oid = \<lparr>step_sc = stepcompress_alloc oid, mcu_time_offset = f_zero F, mcu_freq = f_zero F\<rparr>"

text \<open>An operation on \<open>struct stepcompress\<close> that computes with integers only.\<close>

definition on_sc :: "(stepcompress \<Rightarrow> (stepcompress, 'a) res) \<Rightarrow> 't step_times \<Rightarrow> ('t step_times, 'a) res" where
  "on_sc f st =
     (case f (step_sc st) of
        Ret a sc \<Rightarrow> Ret a (st\<lparr>step_sc := sc\<rparr>)
      | Shut e sc \<Rightarrow> Shut e (st\<lparr>step_sc := sc\<rparr>)
      | Fault \<Rightarrow> Fault)"

text \<open>The value that \<open>calc_last_step_print_time\<close> has left.\<close>

definition last_step_print_time :: "'t fp \<Rightarrow> 't step_times \<Rightarrow> 't" where
  "last_step_print_time F st =
     (case print_clock (step_sc st) of
        None \<Rightarrow> f_zero F
      | Some clock \<Rightarrow>
          f_add F (mcu_time_offset st) (f_div F (f_sub F (f_of_int F (uint clock)) (f_lit F ''.5'')) (mcu_freq st)))"

definition stepcompress_set_time :: "'t \<Rightarrow> 't \<Rightarrow> 't step_times \<Rightarrow> 't step_times" where
  "stepcompress_set_time time_offset freq st =
     st\<lparr>mcu_time_offset := time_offset, mcu_freq := freq, step_sc := calc_last_step_print_time (step_sc st)\<rparr>"

definition steppersync_set_time :: "'t \<Rightarrow> 't \<Rightarrow> 't step_times list \<Rightarrow> 't step_times list" where
  "steppersync_set_time time_offset freq scs = map (stepcompress_set_time time_offset freq) scs"

definition SDS_FILTER_TIME :: "'t fp \<Rightarrow> 't" where "SDS_FILTER_TIME F = f_lit F ''.000750''"

definition stepcompress_append :: "'t fp \<Rightarrow> int \<Rightarrow> 't \<Rightarrow> 't \<Rightarrow> 't step_times \<Rightarrow> ('t step_times, int) res" where
  "stepcompress_append F dir print_time step_time st =
     (let offset = f_sub F print_time (last_step_print_time F st);
          rel_sc = f_mul F (f_add F step_time offset) (mcu_freq st)
      in on_sc (append_step (\<lambda>diff. f_less F (f_of_int F diff) (f_mul F (SDS_FILTER_TIME F) (mcu_freq st)))
                  dir (of_int (f_u64 F rel_sc))) st)"

text \<open>The solution of the quadratic equation for a clock within a move.\<close>

definition solve_count :: "'t fp \<Rightarrow> int \<Rightarrow> int \<Rightarrow> int \<Rightarrow> int" where
  "solve_count F add interval ticks =
     (let a = f_mul F (f_lit F ''.5'') (f_of_int F add);
          b = f_sub F (f_of_int F interval) (f_mul F (f_lit F ''.5'') (f_of_int F add));
          c = f_of_int F (- ticks);
          d = f_sub F (f_mul F b b) (f_mul F (f_mul F (f_of_int F 4) a) c)
      in f_i64 F (f_div F (f_sub F (f_sqrt F d) b) (f_mul F (f_lit F ''2.'') a)))"

definition find_past_position :: "'t fp \<Rightarrow> u64 \<Rightarrow> 't step_times \<Rightarrow> int" where
  "find_past_position F clock st = stepcompress_find_past_position (solve_count F) clock (step_sc st)"

end
