(* ===== verification/Itersolve.thy ===== *)
theory Itersolve
  imports Kinematics Step_Times
begin

text \<open>
  The iterative solver, \<open>klipper/klippy/chelper/itersolve.c\<close>, which finds the times of the steps of a stepper from its
  position as a function of time, and the kinematics that wrap another one, \<open>kin_idex.c\<close> and \<open>kin_shaper.c\<close>.
  Definitions only.
\<close>

section \<open>State\<close>

text \<open>\<open>orig_sk\<close> points to another stepper. The callback of a carriage is set together with it.\<close>

record 't dual_carriage_stepper =
  dc_orig_sk :: "nat option"
  dc_m :: "'t move"
  x_scale :: 't
  x_offs :: 't
  y_scale :: 't
  y_offs :: 't

datatype shaper_cb = Cb_none | Cb_x | Cb_y | Cb_xy

record 't input_shaper =
  is_cb :: shaper_cb
  is_orig_sk :: "nat option"
  is_m :: "'t move"
  sx :: "'t shaper_pulses"
  sy :: "'t shaper_pulses"

text \<open>
  The structure around \<open>struct stepper_kinematics\<close> with its callback. \<open>No_kin\<close>: there is no callback.
\<close>

datatype 't kin =
    No_kin
  | Cartesian axis
  | Corexy_plus | Corexy_minus
  | Corexz_plus | Corexz_minus
  | Delta "'t delta_stepper"
  | Deltesian "'t deltesian_stepper"
  | Winch "'t coord"
  | Rotary_delta "'t rotary_stepper"
  | Polar_radius | Polar_angle
  | Extruder "'t extruder_stepper"
  | Dual_carriage "'t dual_carriage_stepper"
  | Input_shaper "'t input_shaper"

record 't stepper_kinematics =
  step_dist :: 't
  commanded_pos :: 't
  sk_sc :: "nat option"
  last_flush_time :: 't
  last_move_time :: 't
  sk_tq :: "nat option"
  active_flags :: u32
  gen_steps_pre_active :: 't
  gen_steps_post_active :: 't
  sk_kin :: "'t kin"

text \<open>The objects of the host: pointers are positions in these lists.\<close>

record 't motion =
  sks :: "'t stepper_kinematics list"
  trapqs :: "'t trapq list"
  scs :: "'t step_times list"

type_synonym ('t, 'a) motion_res = "('t motion, 'a) res"

definition upd_sk :: "nat \<Rightarrow> ('t stepper_kinematics \<Rightarrow> 't stepper_kinematics) \<Rightarrow> 't motion \<Rightarrow> 't motion" where
  "upd_sk k f s = s\<lparr>sks := (sks s)[k := f (sks s ! k)]\<rparr>"

definition set_kin :: "nat \<Rightarrow> 't kin \<Rightarrow> 't motion \<Rightarrow> 't motion" where
  "set_kin k kin s = upd_sk k (sk_kin_update (\<lambda>_. kin)) s"

definition upd_trapq :: "nat \<Rightarrow> ('t trapq \<Rightarrow> 't trapq) \<Rightarrow> 't motion \<Rightarrow> 't motion" where
  "upd_trapq q f s = s\<lparr>trapqs := (trapqs s)[q := f (trapqs s ! q)]\<rparr>"

text \<open>A call into the step compression of a stepper.\<close>

definition call_sc :: "nat \<Rightarrow> ('t step_times \<Rightarrow> ('t step_times, 'a) res) \<Rightarrow> 't motion \<Rightarrow> ('t, 'a) motion_res" where
  "call_sc k f s =
     (case sk_sc (sks s ! k) of
        None \<Rightarrow> Fault
      | Some c \<Rightarrow>
          if c \<ge> length (scs s) then Fault
          else (case f (scs s ! c) of
                  Ret a st \<Rightarrow> Ret a (s\<lparr>scs := (scs s)[c := st]\<rparr>)
                | Shut e st \<Rightarrow> Shut e (s\<lparr>scs := (scs s)[c := st]\<rparr>)
                | Fault \<Rightarrow> Fault))"

definition AF_X :: u32 where "AF_X = 1"
definition AF_Y :: u32 where "AF_Y = 2"
definition AF_Z :: u32 where "AF_Z = 4"

section \<open>The position callback\<close>

definition DUMMY_T :: "'t fp \<Rightarrow> 't" where "DUMMY_T F = f_lit F ''500.0''"

text \<open>The callbacks that do not call another one, for the move \<open>i\<close> of a list.\<close>

definition own_position :: "'t fp \<Rightarrow> 't stepper_kinematics \<Rightarrow> 't move list \<Rightarrow> nat \<Rightarrow> 't \<Rightarrow> 't option" where
  "own_position F sk ms i t =
     (case sk_kin sk of
        Cartesian ax \<Rightarrow>
          Some ((case ax of Axis_X \<Rightarrow> cart_stepper_x_calc_position | Axis_Y \<Rightarrow> cart_stepper_y_calc_position
                          | Axis_Z \<Rightarrow> cart_stepper_z_calc_position) F (ms ! i) t)
      | Corexy_plus \<Rightarrow> Some (corexy_stepper_plus_calc_position F (ms ! i) t)
      | Corexy_minus \<Rightarrow> Some (corexy_stepper_minus_calc_position F (ms ! i) t)
      | Corexz_plus \<Rightarrow> Some (corexz_stepper_plus_calc_position F (ms ! i) t)
      | Corexz_minus \<Rightarrow> Some (corexz_stepper_minus_calc_position F (ms ! i) t)
      | Delta ds \<Rightarrow> Some (delta_stepper_calc_position F ds (ms ! i) t)
      | Deltesian ds \<Rightarrow> Some (deltesian_stepper_calc_position F ds (ms ! i) t)
      | Winch anchor \<Rightarrow> Some (winch_stepper_calc_position F anchor (ms ! i) t)
      | Rotary_delta rs \<Rightarrow> Some (rotary_stepper_calc_position F rs (ms ! i) t)
      | Polar_radius \<Rightarrow> Some (polar_stepper_radius_calc_position F (ms ! i) t)
      | Polar_angle \<Rightarrow> Some (polar_stepper_angle_calc_position F (commanded_pos sk) (ms ! i) t)
      | Extruder es \<Rightarrow> extruder_calc_position F es ms i t
      | _ \<Rightarrow> None)"

text \<open>The move that a carriage passes on.\<close>

definition dual_carriage_move :: "'t fp \<Rightarrow> 't dual_carriage_stepper \<Rightarrow> 't move \<Rightarrow> 't \<Rightarrow> 't move" where
  "dual_carriage_move F dc m t =
     (let pos = move_get_coord F m t
      in (dc_m dc)\<lparr>start_pos :=
           \<lparr>cx = f_add F (f_mul F (cx pos) (x_scale dc)) (x_offs dc),
            cy = f_add F (f_mul F (cy pos) (y_scale dc)) (y_offs dc), cz = cz pos\<rparr>\<rparr>)"

text \<open>
  The move that a shaper passes on; \<open>Some None\<close>: it calls the other callback with the same arguments. \<open>None\<close>: there
  is no callback, or a pulse is outside the list.
\<close>

definition shaper_x_move :: "'t fp \<Rightarrow> 't input_shaper \<Rightarrow> 't move list \<Rightarrow> nat \<Rightarrow> 't \<Rightarrow> 't move option option" where
  "shaper_x_move F is ms i t =
     (if sx is = [] then Some None
      else map_option (\<lambda>x. Some ((is_m is)\<lparr>start_pos := (start_pos (is_m is))\<lparr>cx := x\<rparr>\<rparr>))
             (shaper_calc_position F ms i Axis_X t (sx is)))"

definition shaper_y_move :: "'t fp \<Rightarrow> 't input_shaper \<Rightarrow> 't move list \<Rightarrow> nat \<Rightarrow> 't \<Rightarrow> 't move option option" where
  "shaper_y_move F is ms i t =
     (if sy is = [] then Some None
      else map_option (\<lambda>y. Some ((is_m is)\<lparr>start_pos := (start_pos (is_m is))\<lparr>cy := y\<rparr>\<rparr>))
             (shaper_calc_position F ms i Axis_Y t (sy is)))"

definition shaper_xy_move :: "'t fp \<Rightarrow> 't input_shaper \<Rightarrow> 't move list \<Rightarrow> nat \<Rightarrow> 't \<Rightarrow> 't move option option" where
  "shaper_xy_move F is ms i t =
     (if sx is = [] \<and> sy is = [] then Some None
      else
        (let c = move_get_coord F (ms ! i) t
         in case (if sx is = [] then Some (cx c) else shaper_calc_position F ms i Axis_X t (sx is)) of
              None \<Rightarrow> None
            | Some x \<Rightarrow>
                (case (if sy is = [] then Some (cy c) else shaper_calc_position F ms i Axis_Y t (sy is)) of
                   None \<Rightarrow> None
                 | Some y \<Rightarrow> Some (Some ((is_m is)\<lparr>start_pos := c\<lparr>cx := x, cy := y\<rparr>\<rparr>)))))"

definition shaper_move :: "'t fp \<Rightarrow> 't input_shaper \<Rightarrow> 't move list \<Rightarrow> nat \<Rightarrow> 't \<Rightarrow> 't move option option" where
  "shaper_move F is ms i t =
     (case is_cb is of
        Cb_none \<Rightarrow> None
      | Cb_x \<Rightarrow> shaper_x_move F is ms i t
      | Cb_y \<Rightarrow> shaper_y_move F is ms i t
      | Cb_xy \<Rightarrow> shaper_xy_move F is ms i t)"

text \<open>
  \<open>sk->calc_position_cb(sk, m, t)\<close> for the stepper \<open>k\<close> and the move \<open>i\<close> of \<open>ms\<close>. The structures of a carriage and of a
  shaper hold the move that they pass on, which is in no list. The fuel bounds the depth of the calls: the number of
  steppers is enough unless \<open>orig_sk\<close> pointers form a cycle, in which case the C code would not return either.
\<close>

fun calc_position_cb :: "'t fp \<Rightarrow> nat \<Rightarrow> nat \<Rightarrow> 't move list \<Rightarrow> nat \<Rightarrow> 't \<Rightarrow> 't motion \<Rightarrow> ('t, 't) motion_res" where
  "calc_position_cb F 0 k ms i t s = Fault"
| "calc_position_cb F (Suc n) k ms i t s =
     (if k \<ge> length (sks s) then Fault
      else
        (case sk_kin (sks s ! k) of
           Dual_carriage dc \<Rightarrow>
             (case dc_orig_sk dc of
                None \<Rightarrow> Fault
              | Some orig \<Rightarrow>
                  (let m = dual_carriage_move F dc (ms ! i) t
                   in calc_position_cb F n orig [m] 0 (DUMMY_T F) (set_kin k (Dual_carriage (dc\<lparr>dc_m := m\<rparr>)) s)))
         | Input_shaper is \<Rightarrow>
             (case is_orig_sk is of
                None \<Rightarrow> Fault
              | Some orig \<Rightarrow>
                  (case shaper_move F is ms i t of
                     None \<Rightarrow> Fault
                   | Some None \<Rightarrow> calc_position_cb F n orig ms i t s
                   | Some (Some m) \<Rightarrow>
                       calc_position_cb F n orig [m] 0 (DUMMY_T F) (set_kin k (Input_shaper (is\<lparr>is_m := m\<rparr>)) s)))
         | _ \<Rightarrow> (case own_position F (sks s ! k) ms i t of None \<Rightarrow> Fault | Some p \<Rightarrow> Ret p s)))"

definition calc_position_of :: "'t fp \<Rightarrow> nat \<Rightarrow> 't move list \<Rightarrow> nat \<Rightarrow> 't \<Rightarrow> 't motion \<Rightarrow> ('t, 't) motion_res" where
  "calc_position_of F k ms i t s = calc_position_cb F (length (sks s)) k ms i t s"

text \<open>\<open>sk->post_cb\<close>, which only the angle of a polar printer has.\<close>

definition post_cb :: "'t fp \<Rightarrow> nat \<Rightarrow> 't motion \<Rightarrow> 't motion" where
  "post_cb F k s =
     (case sk_kin (sks s ! k) of
        Polar_angle \<Rightarrow> upd_sk k (\<lambda>sk. sk\<lparr>commanded_pos := polar_stepper_angle_post_fixup F (commanded_pos sk)\<rparr>) s
      | _ \<Rightarrow> s)"

section \<open>Step times of a move\<close>

text \<open>The local variables of \<open>itersolve_gen_steps_range\<close>.\<close>

record 't seek =
  og_time :: 't
  og_pos :: 't
  g_time :: 't
  g_pos :: 't
  seek_dir :: int
  target :: 't
  last_time :: 't
  low_time :: 't
  high_time :: 't
  is_dir_change :: bool
  have_bracket :: bool
  check_oscillate :: bool

definition SEEK_TIME_RESET :: "'t fp \<Rightarrow> 't" where "SEEK_TIME_RESET F = f_lit F ''0.000100''"

definition clamp :: "'t fp \<Rightarrow> 't \<Rightarrow> 't \<Rightarrow> 't" where
  "clamp F fin t = (if f_less F fin t then fin else t)"

definition step_target :: "'t fp \<Rightarrow> 't \<Rightarrow> int \<Rightarrow> 't \<Rightarrow> 't" where
  "step_target F half_step dir x =
     (if dir \<noteq> 0 then f_add F (f_add F x half_step) half_step else f_sub F (f_sub F x half_step) half_step)"

definition seek_init :: "'t fp \<Rightarrow> 't \<Rightarrow> 't \<Rightarrow> 't \<Rightarrow> 't \<Rightarrow> int \<Rightarrow> 't seek" where
  "seek_init F half_step pos start fin dir =
     \<lparr>og_time = start, og_pos = pos, g_time = start, g_pos = pos, seek_dir = dir,
      target = f_add F pos (if dir \<noteq> 0 then half_step else f_neg F half_step),
      last_time = start, low_time = start, high_time = clamp F fin (f_add F start (SEEK_TIME_RESET F)),
      is_dir_change = False, have_bracket = False, check_oscillate = False\<rparr>"

text \<open>The next time to look at; \<open>None\<close>: there are no more steps.\<close>

definition next_guess :: "'t fp \<Rightarrow> 't \<Rightarrow> 't seek \<Rightarrow> ('t \<times> 't seek) option" where
  "next_guess F fin g =
     (let guess_dist = f_sub F (g_pos g) (target g);
          og_dist = f_sub F (og_pos g) (target g);
          next_time = f_div F (f_sub F (f_mul F (og_time g) guess_dist) (f_mul F (g_time g) og_dist))
                        (f_sub F guess_dist og_dist)
      in if f_less F (low_time g) next_time \<and> f_less F next_time (high_time g) then Some (next_time, g)
         else if have_bracket g then
           Some (f_mul F (f_add F (low_time g) (high_time g)) (f_lit F ''.5''), g\<lparr>check_oscillate := False\<rparr>)
         else if f_le F fin (g_time g) then None
         else Some (high_time g,
                g\<lparr>high_time := clamp F fin (f_sub F (f_mul F (f_lit F ''2.'') (high_time g)) (last_time g))\<rparr>))"

definition move_guess :: "'t \<Rightarrow> 't \<Rightarrow> 't seek \<Rightarrow> 't seek" where
  "move_guess t pos g = g\<lparr>og_time := g_time g, og_pos := g_pos g, g_time := t, g_pos := pos\<rparr>"

text \<open>The new bounds when the guess is not close to the target; \<open>rel_dist\<close> is negative before the target.\<close>

definition update_bounds :: "'t fp \<Rightarrow> 't \<Rightarrow> 't \<Rightarrow> 't seek \<Rightarrow> 't seek" where
  "update_bounds F half_step rel_dist g =
     (if f_less F (f_zero F) rel_dist then
        (let g = (if have_bracket g \<and> f_le F (og_time g) (low_time g) then
                    (if check_oscillate g then g\<lparr>og_time := g_time g, og_pos := g_pos g\<rparr> else g)\<lparr>check_oscillate := True\<rparr>
                  else g)
         in g\<lparr>high_time := g_time g, have_bracket := True\<rparr>)
      else if f_less F rel_dist (f_neg F (f_add F (f_add F half_step half_step) (f_lit F ''.000000010''))) then
        (let dir = (if seek_dir g = 0 then 1 else 0)
         in g\<lparr>seek_dir := dir, target := step_target F half_step dir (target g), low_time := last_time g,
              high_time := g_time g, is_dir_change := True, have_bracket := True, check_oscillate := False\<rparr>)
      else g\<lparr>low_time := g_time g\<rparr>)"

text \<open>The variables for the search of the next step, after one was found at the last guess.\<close>

definition next_search :: "'t fp \<Rightarrow> 't \<Rightarrow> 't \<Rightarrow> 't seek \<Rightarrow> 't seek" where
  "next_search F half_step fin g =
     (let delta = f_mul F (f_lit F ''1.5'') (f_sub F (g_time g) (last_time g));
          delta = (if f_less F delta (f_lit F ''.000000001'') then f_lit F ''.000000001'' else delta);
          delta = (if is_dir_change g \<and> f_less F (SEEK_TIME_RESET F) delta then SEEK_TIME_RESET F else delta)
      in g\<lparr>target := step_target F half_step (seek_dir g) (target g), last_time := g_time g, low_time := g_time g,
           high_time := clamp F fin (f_add F (g_time g) delta),
           is_dir_change := False, have_bracket := False, check_oscillate := False\<rparr>)"

text \<open>
  What to do at a new guess: search on (the flag tells whether a pending step is committed first), or submit a step.
\<close>

datatype action = Search bool | Submit

definition seek_update :: "'t fp \<Rightarrow> 't \<Rightarrow> 't \<Rightarrow> 't \<Rightarrow> 't seek \<Rightarrow> action \<times> 't seek" where
  "seek_update F half_step t pos g =
     (let g = move_guess t pos g;
          guess_dist = f_sub F pos (target g);
          rel_dist = (if seek_dir g \<noteq> 0 then guess_dist else f_neg F guess_dist);
          far = f_less F (f_lit F ''.000000001'') (f_abs F guess_dist);
          g = (if far then update_bounds F half_step rel_dist g else g)
      in if far \<and> (\<not> have_bracket g \<or> f_less F (f_lit F ''.000000001'') (f_sub F (high_time g) (low_time g)))
         then (Search (\<not> is_dir_change g \<and> f_le F (f_neg F half_step) rel_dist), g)
         else (Submit, g))"

text \<open>How a round ends: the search goes on, or a step was found, or there are no more, or the function returns an error.\<close>

datatype outcome = Go_on | Stepped | No_more | Failed int

definition seek_round ::
    "'t fp \<Rightarrow> nat \<Rightarrow> 't move list \<Rightarrow> nat \<Rightarrow> 't \<Rightarrow> 't \<Rightarrow> 't seek \<Rightarrow> 't motion \<Rightarrow> ('t, outcome \<times> 't seek) motion_res" where
  "seek_round F k ms i half_step fin g s =
     (case next_guess F fin g of
        None \<Rightarrow> Ret (No_more, g) s
      | Some (next_time, g) \<Rightarrow>
          bnd (calc_position_of F k ms i next_time s) (\<lambda>pos s.
            case seek_update F half_step next_time pos g of
              (Search commit, g) \<Rightarrow>
                (if commit then bnd (call_sc k (on_sc stepcompress_commit) s) (\<lambda>_ s. Ret (Go_on, g) s)
                 else Ret (Go_on, g) s)
            | (Submit, g) \<Rightarrow>
                bnd (call_sc k (stepcompress_append F (seek_dir g) (print_time (ms ! i)) (g_time g)) s) (\<lambda>ret s.
                  if ret \<noteq> 0 then Ret (Failed ret, g) s
                  else Ret (Stepped, next_search F half_step fin g) s)))"

text \<open>The loop, which may run forever: then it has no value.\<close>

partial_function (option) seek_loop ::
    "'t fp \<Rightarrow> nat \<Rightarrow> 't move list \<Rightarrow> nat \<Rightarrow> 't \<Rightarrow> 't \<Rightarrow> 't seek \<Rightarrow> 't motion \<Rightarrow> ('t, outcome \<times> 't seek) motion_res option" where
  "seek_loop F k ms i half_step fin g s =
     (case seek_round F k ms i half_step fin g s of
        Ret (out, g) s \<Rightarrow> (if out = Go_on \<or> out = Stepped then seek_loop F k ms i half_step fin g s else Some (Ret (out, g) s))
      | Shut e s \<Rightarrow> Some (Shut e s)
      | Fault \<Rightarrow> Some Fault)"

definition seek_step_dir :: "nat \<Rightarrow> 't motion \<Rightarrow> int option" where
  "seek_step_dir k s =
     (case sk_sc (sks s ! k) of
        None \<Rightarrow> None
      | Some c \<Rightarrow> if c \<ge> length (scs s) then None else Some (stepcompress_get_step_dir (step_sc (scs s ! c))))"

definition seek_finish :: "'t fp \<Rightarrow> nat \<Rightarrow> 't \<Rightarrow> outcome \<Rightarrow> 't seek \<Rightarrow> 't motion \<Rightarrow> ('t, int) motion_res" where
  "seek_finish F k half_step out g s =
     (case out of
        Failed ret \<Rightarrow> Ret ret s
      | _ \<Rightarrow>
          (let pos = f_sub F (target g) (if seek_dir g \<noteq> 0 then half_step else f_neg F half_step)
           in Ret 0 (post_cb F k (upd_sk k (commanded_pos_update (\<lambda>_. pos)) s))))"

text \<open>The part of the move that lies between two times, in times of the move.\<close>

definition move_start :: "'t fp \<Rightarrow> 't move \<Rightarrow> 't \<Rightarrow> 't" where
  "move_start F m abs_start =
     (let start = f_sub F abs_start (print_time m) in if f_less F start (f_zero F) then f_zero F else start)"

definition move_fin :: "'t fp \<Rightarrow> 't move \<Rightarrow> 't \<Rightarrow> 't" where
  "move_fin F m abs_end = clamp F (move_t m) (f_sub F abs_end (print_time m))"

definition itersolve_gen_steps_range ::
    "'t fp \<Rightarrow> nat \<Rightarrow> 't move list \<Rightarrow> nat \<Rightarrow> 't \<Rightarrow> 't \<Rightarrow> 't motion \<Rightarrow> ('t, int) motion_res option" where
  "itersolve_gen_steps_range F k ms i abs_start abs_end s =
     (let sk = sks s ! k; m = ms ! i;
          half_step = f_mul F (f_lit F ''.5'') (step_dist sk);
          start = move_start F m abs_start;
          fin = move_fin F m abs_end
      in case seek_step_dir k s of
           None \<Rightarrow> Some Fault
         | Some dir \<Rightarrow>
             (case seek_loop F k ms i half_step fin (seek_init F half_step (commanded_pos sk) start fin dir) s of
                None \<Rightarrow> None
              | Some r \<Rightarrow> Some (bnd r (\<lambda>og. seek_finish F k half_step (fst og) (snd og)))))"

section \<open>Step times of the queue\<close>

definition check_active :: "'t fp \<Rightarrow> 't stepper_kinematics \<Rightarrow> 't move \<Rightarrow> bool" where
  "check_active F sk m \<longleftrightarrow>
     active_flags sk AND AF_X \<noteq> 0 \<and> f_true F (cx (axes_r m)) \<or>
     active_flags sk AND AF_Y \<noteq> 0 \<and> f_true F (cy (axes_r m)) \<or>
     active_flags sk AND AF_Z \<noteq> 0 \<and> f_true F (cz (axes_r m))"

text \<open>Calls that may not return. The C value of the calls here is an error code that ends the caller.\<close>

definition and_ok :: "('t, int) motion_res option \<Rightarrow> ('t motion \<Rightarrow> ('t, int) motion_res option) \<Rightarrow> ('t, int) motion_res option" where
  "and_ok r f =
     (case r of
        None \<Rightarrow> None
      | Some (Ret ret s) \<Rightarrow> if ret \<noteq> 0 then Some (Ret ret s) else f s
      | Some e \<Rightarrow> Some e)"

text \<open>\<open>while (t >= m->print_time + m->move_t) m = list_next_entry(m, node)\<close>; \<open>None\<close>: the loop left the list.\<close>

function find_move :: "'t fp \<Rightarrow> 't \<Rightarrow> 't move list \<Rightarrow> nat \<Rightarrow> nat option" where
  "find_move F t ms i =
     (if i \<ge> length ms then None
      else if f_le F (move_end_time F (ms ! i)) t then find_move F t ms (Suc i) else Some i)"
  by pat_completeness auto
termination by (relation "measure (\<lambda>(F, t, ms, i). length ms - i)") auto

text \<open>The loop back over the skipped moves that steps must be generated for.\<close>

fun back_up :: "'t fp \<Rightarrow> 't \<Rightarrow> 't move list \<Rightarrow> nat \<Rightarrow> nat \<Rightarrow> nat option" where
  "back_up F abs_start ms skip pm =
     (if skip - 1 \<noteq> 0 \<and> f_less F abs_start (print_time (ms ! pm))
      then (case pm of 0 \<Rightarrow> None | Suc pm \<Rightarrow> back_up F abs_start ms (skip - 1) pm)
      else Some pm)"

fun gen_moves :: "'t fp \<Rightarrow> nat \<Rightarrow> 't move list \<Rightarrow> 't \<Rightarrow> 't \<Rightarrow> nat list \<Rightarrow> 't motion \<Rightarrow> ('t, int) motion_res option" where
  "gen_moves F k ms abs_start flush_time [] s = Some (Ret 0 s)"
| "gen_moves F k ms abs_start flush_time (pm # pms) s =
     and_ok (itersolve_gen_steps_range F k ms pm abs_start flush_time s) (gen_moves F k ms abs_start flush_time pms)"

definition gen_before ::
    "'t fp \<Rightarrow> nat \<Rightarrow> 't move list \<Rightarrow> nat \<Rightarrow> 't \<Rightarrow> 't \<Rightarrow> nat \<Rightarrow> 't \<Rightarrow> 't motion \<Rightarrow> ('t, int) motion_res option" where
  "gen_before F k ms i last_flush flush_time skip force s =
     (let sk = sks s ! k
      in if skip \<noteq> 0 \<and> f_true F (gen_steps_pre_active sk) then
           (let abs_start = f_sub F (print_time (ms ! i)) (gen_steps_pre_active sk);
                abs_start = (if f_less F abs_start last_flush then last_flush else abs_start);
                abs_start = (if f_less F abs_start force then force else abs_start)
            in case i of
                 0 \<Rightarrow> Some Fault
               | Suc j \<Rightarrow>
                   (case back_up F abs_start ms skip j of
                      None \<Rightarrow> Some Fault
                    | Some pm \<Rightarrow> gen_moves F k ms abs_start flush_time [pm..<i] s))
         else Some (Ret 0 s))"

text \<open>The loop over the moves from the position \<open>i\<close>.\<close>

function generate_loop ::
    "'t fp \<Rightarrow> nat \<Rightarrow> 't move list \<Rightarrow> 't \<Rightarrow> 't \<Rightarrow> nat \<Rightarrow> nat \<Rightarrow> 't \<Rightarrow> 't motion \<Rightarrow> ('t, int) motion_res option" where
  "generate_loop F k ms last_flush flush_time i skip force s =
     (if i \<ge> length ms then Some Fault
      else
        (let m = ms ! i; move_end = move_end_time F m; sk = sks s ! k
         in if check_active F sk m then
              and_ok (gen_before F k ms i last_flush flush_time skip force s) (\<lambda>s.
                and_ok (itersolve_gen_steps_range F k ms i last_flush flush_time s) (\<lambda>s.
                  if f_le F flush_time move_end then
                    Some (Ret 0 (upd_sk k (last_move_time_update (\<lambda>_. flush_time)) s))
                  else
                    (let s = upd_sk k (last_move_time_update (\<lambda>_. move_end)) s
                     in generate_loop F k ms last_flush flush_time (Suc i) 0
                          (f_add F move_end (gen_steps_post_active (sks s ! k))) s)))
            else
              and_ok (if f_less F (print_time m) force
                      then itersolve_gen_steps_range F k ms i last_flush
                             (if f_less F flush_time force then flush_time else force) s
                      else Some (Ret 0 s)) (\<lambda>s.
                if f_le F (f_add F flush_time (gen_steps_pre_active (sks s ! k))) move_end then Some (Ret 0 s)
                else generate_loop F k ms last_flush flush_time (Suc i)
                       (if f_less F (print_time m) force then 1 else Suc skip) force s)))"
  by pat_completeness auto
termination by (relation "measure (\<lambda>(F, k, ms, l, f, i, skip, force, s). length ms - i)") auto

declare find_move.simps [simp del] back_up.simps [simp del] generate_loop.simps [simp del]

definition itersolve_generate_steps :: "'t fp \<Rightarrow> nat \<Rightarrow> 't \<Rightarrow> 't motion \<Rightarrow> ('t, int) motion_res option" where
  "itersolve_generate_steps F k flush_time s =
     (let sk = sks s ! k; last_flush = last_flush_time sk;
          s = upd_sk k (last_flush_time_update (\<lambda>_. flush_time)) s
      in case sk_tq sk of
           None \<Rightarrow> Some (Ret 0 s)
         | Some q \<Rightarrow>
             (let s = upd_trapq q (trapq_check_sentinels F) s; ms = moves (trapqs s ! q)
              in case find_move F last_flush ms 0 of
                   None \<Rightarrow> Some Fault
                 | Some i \<Rightarrow>
                     generate_loop F k ms last_flush flush_time i 0
                       (f_add F (last_move_time sk) (gen_steps_post_active sk)) s))"

section \<open>Interface\<close>

text \<open>The loop of \<open>itersolve_check_active\<close>.\<close>

function active_loop :: "'t fp \<Rightarrow> 't stepper_kinematics \<Rightarrow> 't move list \<Rightarrow> 't \<Rightarrow> nat \<Rightarrow> 't option" where
  "active_loop F sk ms flush_time i =
     (if i \<ge> length ms then None
      else if check_active F sk (ms ! i) then Some (print_time (ms ! i))
      else if f_le F flush_time (move_end_time F (ms ! i)) then Some (f_zero F)
      else active_loop F sk ms flush_time (Suc i))"
  by pat_completeness auto
termination by (relation "measure (\<lambda>(F, sk, ms, t, i). length ms - i)") auto

declare active_loop.simps [simp del]

definition itersolve_check_active :: "'t fp \<Rightarrow> nat \<Rightarrow> 't \<Rightarrow> 't motion \<Rightarrow> ('t, 't) motion_res" where
  "itersolve_check_active F k flush_time s =
     (let sk = sks s ! k
      in case sk_tq sk of
           None \<Rightarrow> Ret (f_zero F) s
         | Some q \<Rightarrow>
             (let s = upd_trapq q (trapq_check_sentinels F) s; ms = moves (trapqs s ! q)
              in case find_move F (last_flush_time sk) ms 0 of
                   None \<Rightarrow> Fault
                 | Some i \<Rightarrow> (case active_loop F sk ms flush_time i of None \<Rightarrow> Fault | Some t \<Rightarrow> Ret t s)))"

definition itersolve_is_active_axis :: "'t stepper_kinematics \<Rightarrow> char \<Rightarrow> bool" where
  "itersolve_is_active_axis sk ax \<longleftrightarrow>
     (if (of_char ax :: nat) < of_char CHR ''x'' \<or> of_char CHR ''z'' < (of_char ax :: nat) then False
      else active_flags sk AND push_bit (of_char ax - of_char CHR ''x'') AF_X \<noteq> 0)"

definition itersolve_set_trapq :: "nat \<Rightarrow> nat option \<Rightarrow> 't motion \<Rightarrow> 't motion" where
  "itersolve_set_trapq k q s = upd_sk k (\<lambda>sk. sk\<lparr>sk_tq := q\<rparr>) s"

definition itersolve_set_stepcompress :: "nat \<Rightarrow> nat option \<Rightarrow> 't \<Rightarrow> 't motion \<Rightarrow> 't motion" where
  "itersolve_set_stepcompress k sc dist s = upd_sk k (\<lambda>sk. sk\<lparr>sk_sc := sc, step_dist := dist\<rparr>) s"

definition itersolve_calc_position_from_coord :: "'t fp \<Rightarrow> nat \<Rightarrow> 't coord \<Rightarrow> 't motion \<Rightarrow> ('t, 't) motion_res" where
  "itersolve_calc_position_from_coord F k c s =
     calc_position_of F k [(move_alloc F)\<lparr>start_pos := c, move_t := f_lit F ''1000.''\<rparr>] 0 (f_lit F ''500.'') s"

definition itersolve_set_position :: "'t fp \<Rightarrow> nat \<Rightarrow> 't coord \<Rightarrow> 't motion \<Rightarrow> ('t, unit) motion_res" where
  "itersolve_set_position F k c s =
     bnd (itersolve_calc_position_from_coord F k c s) (\<lambda>pos s. Ret () (upd_sk k (commanded_pos_update (\<lambda>_. pos)) s))"

definition itersolve_get_commanded_pos :: "nat \<Rightarrow> 't motion \<Rightarrow> 't" where
  "itersolve_get_commanded_pos k s = commanded_pos (sks s ! k)"

section \<open>Allocation of steppers\<close>

definition sk_zero :: "'t fp \<Rightarrow> 't stepper_kinematics" where
  "sk_zero F = \<lparr>step_dist = f_zero F, commanded_pos = f_zero F, sk_sc = None, last_flush_time = f_zero F,
     last_move_time = f_zero F, sk_tq = None, active_flags = 0, gen_steps_pre_active = f_zero F,
     gen_steps_post_active = f_zero F, sk_kin = No_kin\<rparr>"

definition cartesian_stepper_alloc :: "'t fp \<Rightarrow> char \<Rightarrow> 't stepper_kinematics" where
  "cartesian_stepper_alloc F ax =
     (if ax = CHR ''x'' then (sk_zero F)\<lparr>sk_kin := Cartesian Axis_X, active_flags := AF_X\<rparr>
      else if ax = CHR ''y'' then (sk_zero F)\<lparr>sk_kin := Cartesian Axis_Y, active_flags := AF_Y\<rparr>
      else if ax = CHR ''z'' then (sk_zero F)\<lparr>sk_kin := Cartesian Axis_Z, active_flags := AF_Z\<rparr>
      else sk_zero F)"

definition corexy_stepper_alloc :: "'t fp \<Rightarrow> char \<Rightarrow> 't stepper_kinematics" where
  "corexy_stepper_alloc F typ =
     (sk_zero F)\<lparr>sk_kin := (if typ = CHR ''+'' then Corexy_plus else if typ = CHR ''-'' then Corexy_minus else No_kin),
        active_flags := AF_X OR AF_Y\<rparr>"

definition corexz_stepper_alloc :: "'t fp \<Rightarrow> char \<Rightarrow> 't stepper_kinematics" where
  "corexz_stepper_alloc F typ =
     (sk_zero F)\<lparr>sk_kin := (if typ = CHR ''+'' then Corexz_plus else if typ = CHR ''-'' then Corexz_minus else No_kin),
        active_flags := AF_X OR AF_Z\<rparr>"

definition delta_stepper_alloc :: "'t fp \<Rightarrow> 't \<Rightarrow> 't \<Rightarrow> 't \<Rightarrow> 't stepper_kinematics" where
  "delta_stepper_alloc F arm2 x y =
     (sk_zero F)\<lparr>sk_kin := Delta \<lparr>dl_arm2 = arm2, tower_x = x, tower_y = y\<rparr>, active_flags := AF_X OR AF_Y OR AF_Z\<rparr>"

definition deltesian_stepper_alloc :: "'t fp \<Rightarrow> 't \<Rightarrow> 't \<Rightarrow> 't stepper_kinematics" where
  "deltesian_stepper_alloc F arm2 x =
     (sk_zero F)\<lparr>sk_kin := Deltesian \<lparr>dt_arm2 = arm2, arm_x = x\<rparr>, active_flags := AF_X OR AF_Z\<rparr>"

definition winch_stepper_alloc :: "'t fp \<Rightarrow> 't \<Rightarrow> 't \<Rightarrow> 't \<Rightarrow> 't stepper_kinematics" where
  "winch_stepper_alloc F x y z =
     (sk_zero F)\<lparr>sk_kin := Winch \<lparr>cx = x, cy = y, cz = z\<rparr>, active_flags := AF_X OR AF_Y OR AF_Z\<rparr>"

definition rotary_delta_stepper_alloc :: "'t fp \<Rightarrow> 't \<Rightarrow> 't \<Rightarrow> 't \<Rightarrow> 't \<Rightarrow> 't \<Rightarrow> 't stepper_kinematics" where
  "rotary_delta_stepper_alloc F radius height angle upper_arm lower_arm =
     (sk_zero F)\<lparr>sk_kin := Rotary_delta \<lparr>rs_cos = f_cos F angle, rs_sin = f_sin F angle, shoulder_radius = radius,
          shoulder_height = height, upper_arm2 = f_mul F upper_arm upper_arm, lower_arm2 = f_mul F lower_arm lower_arm\<rparr>,
        active_flags := AF_X OR AF_Y OR AF_Z\<rparr>"

definition polar_stepper_alloc :: "'t fp \<Rightarrow> char \<Rightarrow> 't stepper_kinematics" where
  "polar_stepper_alloc F typ =
     (sk_zero F)\<lparr>sk_kin := (if typ = CHR ''r'' then Polar_radius else if typ = CHR ''a'' then Polar_angle else No_kin),
        active_flags := AF_X OR AF_Y\<rparr>"

definition extruder_stepper_alloc :: "'t fp \<Rightarrow> 't stepper_kinematics" where
  "extruder_stepper_alloc F =
     (sk_zero F)\<lparr>sk_kin := Extruder \<lparr>pressure_advance = f_zero F, half_smooth_time = f_zero F, inv_half_smooth_time2 = f_zero F\<rparr>,
        active_flags := AF_X\<rparr>"

definition dual_carriage_alloc :: "'t fp \<Rightarrow> 't stepper_kinematics" where
  "dual_carriage_alloc F =
     (sk_zero F)\<lparr>sk_kin := Dual_carriage \<lparr>dc_orig_sk = None,
          dc_m = (move_alloc F)\<lparr>move_t := f_mul F (f_lit F ''2.'') (DUMMY_T F)\<rparr>,
          x_scale = f_zero F, x_offs = f_zero F, y_scale = f_zero F, y_offs = f_zero F\<rparr>\<rparr>"

definition input_shaper_alloc :: "'t fp \<Rightarrow> 't stepper_kinematics" where
  "input_shaper_alloc F =
     (sk_zero F)\<lparr>sk_kin := Input_shaper \<lparr>is_cb = Cb_none, is_orig_sk = None,
          is_m = (move_alloc F)\<lparr>move_t := f_mul F (f_lit F ''2.'') (DUMMY_T F)\<rparr>, sx = [], sy = []\<rparr>\<rparr>"

section \<open>Parameters of the kinematics\<close>

text \<open>The functions follow a \<open>container_of\<close>: \<open>Fault\<close> when the stepper is not of their kind.\<close>

definition extruder_set_pressure_advance :: "'t fp \<Rightarrow> nat \<Rightarrow> 't \<Rightarrow> 't \<Rightarrow> 't motion \<Rightarrow> ('t, unit) motion_res" where
  "extruder_set_pressure_advance F k pa smooth_time s =
     (case sk_kin (sks s ! k) of
        Extruder es \<Rightarrow>
          (let hst = f_mul F smooth_time (f_lit F ''.5'');
               es = es\<lparr>half_smooth_time := hst\<rparr>;
               es = (if \<not> f_true F hst then es
                     else es\<lparr>inv_half_smooth_time2 := f_div F (f_lit F ''1.'') (f_mul F hst hst), pressure_advance := pa\<rparr>)
           in Ret () (upd_sk k (\<lambda>sk. sk\<lparr>gen_steps_pre_active := hst, gen_steps_post_active := hst, sk_kin := Extruder es\<rparr>) s))
      | _ \<Rightarrow> Fault)"

definition dual_carriage_set_sk :: "nat \<Rightarrow> nat \<Rightarrow> 't motion \<Rightarrow> ('t, unit) motion_res" where
  "dual_carriage_set_sk k orig s =
     (case sk_kin (sks s ! k) of
        Dual_carriage dc \<Rightarrow>
          Ret () (upd_sk k (\<lambda>sk. sk\<lparr>active_flags := active_flags (sks s ! orig),
                                    sk_kin := Dual_carriage (dc\<lparr>dc_orig_sk := Some orig\<rparr>)\<rparr>) s)
      | _ \<Rightarrow> Fault)"

text \<open>The flags after a change of the scale of an axis with the flag \<open>af\<close>.\<close>

definition scale_flags :: "'t fp \<Rightarrow> u32 \<Rightarrow> 't \<Rightarrow> u32 \<Rightarrow> u32 \<Rightarrow> u32" where
  "scale_flags F af scale orig_flags flags =
     (if \<not> f_true F scale then flags AND NOT af
      else if orig_flags AND af \<noteq> 0 then flags OR af
      else flags)"

definition dual_carriage_set_transform :: "'t fp \<Rightarrow> nat \<Rightarrow> char \<Rightarrow> 't \<Rightarrow> 't \<Rightarrow> 't motion \<Rightarrow> ('t, int) motion_res" where
  "dual_carriage_set_transform F k ax scale offs s =
     (case sk_kin (sks s ! k) of
        Dual_carriage dc \<Rightarrow>
          if ax \<noteq> CHR ''x'' \<and> ax \<noteq> CHR ''y'' then Ret (-1) s
          else
            (let af = (if ax = CHR ''x'' then AF_X else AF_Y);
                 dc' = (if ax = CHR ''x'' then dc\<lparr>x_scale := scale, x_offs := offs\<rparr> else dc\<lparr>y_scale := scale, y_offs := offs\<rparr>)
             in case dc_orig_sk dc of
                  None \<Rightarrow>
                    if f_true F scale then Fault
                    else Ret 0 (upd_sk k (\<lambda>sk. sk\<lparr>sk_kin := Dual_carriage dc', active_flags := active_flags sk AND NOT af\<rparr>) s)
                | Some orig \<Rightarrow>
                    Ret 0 (upd_sk k (\<lambda>sk. sk\<lparr>sk_kin := Dual_carriage dc',
                             active_flags := scale_flags F af scale (active_flags (sks s ! orig)) (active_flags sk)\<rparr>) s))
      | _ \<Rightarrow> Fault)"

definition input_shaper_set_sk :: "nat \<Rightarrow> nat \<Rightarrow> 't motion \<Rightarrow> ('t, int) motion_res" where
  "input_shaper_set_sk k orig s =
     (case sk_kin (sks s ! k) of
        Input_shaper is \<Rightarrow>
          (let osk = sks s ! orig;
               cb = (if active_flags osk = AF_X then Some Cb_x
                     else if active_flags osk = AF_Y then Some Cb_y
                     else if active_flags osk AND (AF_X OR AF_Y) \<noteq> 0 then Some Cb_xy
                     else None)
           in case cb of
                None \<Rightarrow> Ret (-1) s
              | Some cb \<Rightarrow>
                  Ret 0 (upd_sk k (\<lambda>sk. sk\<lparr>sk_kin := Input_shaper (is\<lparr>is_cb := cb, is_orig_sk := Some orig\<rparr>),
                           active_flags := active_flags osk, commanded_pos := commanded_pos osk,
                           last_flush_time := last_flush_time osk, last_move_time := last_move_time osk\<rparr>) s))
      | _ \<Rightarrow> Fault)"

definition shaper_note_generation_time :: "'t fp \<Rightarrow> 't input_shaper \<Rightarrow> 't stepper_kinematics \<Rightarrow> 't stepper_kinematics" where
  "shaper_note_generation_time F is sk =
     (let (pre, post) =
            (if active_flags sk AND AF_X \<noteq> 0 \<and> sx is \<noteq> [] then (fst (last (sx is)), f_neg F (fst (hd (sx is))))
             else (f_zero F, f_zero F));
          (pre, post) =
            (if active_flags sk AND AF_Y \<noteq> 0 \<and> sy is \<noteq> [] then
               (if f_less F pre (fst (last (sy is))) then fst (last (sy is)) else pre,
                if f_less F post (f_neg F (fst (hd (sy is)))) then f_neg F (fst (hd (sy is))) else post)
             else (pre, post))
      in sk\<lparr>gen_steps_pre_active := pre, gen_steps_post_active := post\<rparr>)"

definition input_shaper_set_shaper_params :: "'t fp \<Rightarrow> nat \<Rightarrow> char \<Rightarrow> int \<Rightarrow> 't list \<Rightarrow> 't list \<Rightarrow> 't motion \<Rightarrow> ('t, int) motion_res" where
  "input_shaper_set_shaper_params F k ax n a t s =
     (if ax \<noteq> CHR ''x'' \<and> ax \<noteq> CHR ''y'' then Ret (-1) s
      else
        (case sk_kin (sks s ! k) of
           Input_shaper is \<Rightarrow>
             (case is_orig_sk is of
                None \<Rightarrow> Fault
              | Some orig \<Rightarrow>
                  if active_flags (sks s ! orig) AND (if ax = CHR ''x'' then AF_X else AF_Y) \<noteq> 0 then
                    (let (status, sp) = init_shaper F n a t;
                         is = (if ax = CHR ''x'' then is\<lparr>sx := sp\<rparr> else is\<lparr>sy := sp\<rparr>)
                     in Ret status (upd_sk k (\<lambda>sk. (shaper_note_generation_time F is sk)\<lparr>sk_kin := Input_shaper is\<rparr>) s))
                  else Ret 0 s)
         | _ \<Rightarrow> Fault))"

definition input_shaper_get_step_generation_window :: "'t fp \<Rightarrow> 't stepper_kinematics \<Rightarrow> 't" where
  "input_shaper_get_step_generation_window F sk =
     (if f_less F (gen_steps_post_active sk) (gen_steps_pre_active sk) then gen_steps_pre_active sk
      else gen_steps_post_active sk)"

end
