(* ===== verification/Kinematics_Props.thy ===== *)
theory Kinematics_Props
  imports Itersolve Real_Arith
begin

text \<open>
  The positions of the steppers, over exact real numbers: arms reach the point of the head, pressure advance and input
  shaping do what their comments say, and a move in which the solver takes a stepper for idle does not move it.
\<close>

section \<open>Arms\<close>

lemma atan2_real:
  assumes "x \<noteq> 0 \<or> y \<noteq> 0"
  shows "sqrt (x\<^sup>2 + y\<^sup>2) * cos (atan2_real y x) = x" "sqrt (x\<^sup>2 + y\<^sup>2) * sin (atan2_real y x) = y"
    "- pi < atan2_real y x" "atan2_real y x \<le> pi"
proof -
  have r: "sqrt (x\<^sup>2 + y\<^sup>2) = \<bar>x\<bar> * sqrt (1 + (y / x)\<^sup>2)" if "x \<noteq> 0"
  proof -
    have "x\<^sup>2 + y\<^sup>2 = x\<^sup>2 * (1 + (y / x)\<^sup>2)" using that by (simp add: field_simps)
    then show ?thesis by (simp add: real_sqrt_mult)
  qed
  have s: "sqrt (1 + (y / x)\<^sup>2) \<noteq> 0"
    by (metis add_pos_nonneg less_irrefl real_sqrt_gt_zero zero_le_power2 zero_less_one)
  have c: "cos (arctan (y / x)) = 1 / sqrt (1 + (y / x)\<^sup>2)" "sin (arctan (y / x)) = (y / x) / sqrt (1 + (y / x)\<^sup>2)"
    by (rule cos_arctan, rule sin_arctan)
  have b: "- (pi / 2) < arctan (y / x)" "arctan (y / x) < pi / 2" using arctan_lbound arctan_ubound by auto
  have "sqrt (x\<^sup>2 + y\<^sup>2) * cos (atan2_real y x) = x \<and> sqrt (x\<^sup>2 + y\<^sup>2) * sin (atan2_real y x) = y \<and>
    - pi < atan2_real y x \<and> atan2_real y x \<le> pi"
  proof (cases "x = 0")
    case True
    have "- (pi / 2) \<le> pi" using pi_gt_zero by linarith
    with True show ?thesis using assms by (auto simp: atan2_real_def)
  next
    case False
    have neg: "x < 0 \<Longrightarrow> 0 \<le> y \<Longrightarrow> y / x \<le> 0" "x < 0 \<Longrightarrow> y < 0 \<Longrightarrow> 0 < y / x" by (simp_all add: divide_nonneg_neg divide_neg_neg)
    then have "x < 0 \<Longrightarrow> 0 \<le> y \<Longrightarrow> arctan (y / x) \<le> 0" "x < 0 \<Longrightarrow> y < 0 \<Longrightarrow> 0 < arctan (y / x)" by auto
    then show ?thesis using False r [OF False] s b pi_gt_zero
      by (auto simp: atan2_real_def c cos_diff sin_diff cos_add sin_add)
  qed
  then show "sqrt (x\<^sup>2 + y\<^sup>2) * cos (atan2_real y x) = x" "sqrt (x\<^sup>2 + y\<^sup>2) * sin (atan2_real y x) = y"
    "- pi < atan2_real y x" "atan2_real y x \<le> pi" by auto
qed

text \<open>The elbow, at the end of the upper arm, is a lower arm away from the joint of the head.\<close>

lemma two_arm:
  assumes "dy \<noteq> 0" "0 < ua2"
    "((dx\<^sup>2 + dy\<^sup>2 + ua2 - la2) / (2 * dy))\<^sup>2 \<le> ((dx / dy)\<^sup>2 + 1) * ua2"
  shows "(dx - sqrt ua2 * cos (rotary_two_arm_calc real_fp dx dy ua2 la2))\<^sup>2 +
    (dy - sqrt ua2 * sin (rotary_two_arm_calc real_fp dx dy ua2 la2))\<^sup>2 = la2"
proof -
  define c1 c2 sc X Y where "c1 = (dx\<^sup>2 + dy\<^sup>2 + ua2 - la2) / (2 * dy)" "c2 = dx / dy" "sc = c2\<^sup>2 + 1"
    "X = c1 * c2 + sqrt (sc * ua2 - c1\<^sup>2)" "Y = c1 * sc - c2 * X"
  note d = this
  have a: "rotary_two_arm_calc real_fp dx dy ua2 la2 = atan2_real Y X"
  proof -
    have "1 / 2 * (1 / dy) * (dx * dx + dy * dy + ua2 - la2) = c1" "dx * (1 / dy) = c2" by (simp_all add: d(1,2) power2_eq_square)
    then show ?thesis
      by (simp only: rotary_two_arm_calc_def Let_def real_fp_simps lit_real_simps) (simp only: d(3-5) power2_eq_square)
  qed
  have sq: "(sqrt (sc * ua2 - c1\<^sup>2))\<^sup>2 = sc * ua2 - c1\<^sup>2" using assms(3) by (simp add: d)
  have sc: "0 < sc" by (simp add: d add_nonneg_pos)
  have "Y = c1 - c2 * sqrt (sc * ua2 - c1\<^sup>2)" by (simp add: d(4,5)) (simp add: d(3) power2_eq_square algebra_simps)
  then have "X\<^sup>2 + Y\<^sup>2 = c1\<^sup>2 * sc + sc * (sqrt (sc * ua2 - c1\<^sup>2))\<^sup>2"
    by (simp add: d(4)) (simp add: d(3) power2_eq_square algebra_simps)
  then have r: "X\<^sup>2 + Y\<^sup>2 = sc\<^sup>2 * ua2" unfolding sq by (simp add: power2_eq_square algebra_simps)
  have "X \<noteq> 0 \<or> Y \<noteq> 0" using r sc assms(2) by auto
  note t = atan2_real(1,2) [OF this]
  have sr: "sqrt (X\<^sup>2 + Y\<^sup>2) = sc * sqrt ua2" using sc by (simp add: r real_sqrt_mult)
  define ex ey where "ex = sqrt ua2 * cos (atan2_real Y X)" "ey = sqrt ua2 * sin (atan2_real Y X)"
  note e = this
  have E: "sc * ex = X" "sc * ey = Y" using t by (simp_all add: e sr mult.assoc)
  have "sc\<^sup>2 * (ex\<^sup>2 + ey\<^sup>2) = sc\<^sup>2 * ua2" using r E by (simp flip: E add: power_mult_distrib algebra_simps)
  then have el: "ex\<^sup>2 + ey\<^sup>2 = ua2" using sc by simp
  have "sc * (ey + c2 * ex) = sc * c1" using E by (simp add: d(5) algebra_simps)
  then have "ey + c2 * ex = c1" using sc by simp
  then have "2 * dy * (ey + dx / dy * ex) = 2 * dy * ((dx\<^sup>2 + dy\<^sup>2 + ua2 - la2) / (2 * dy))" by (simp add: d(1,2))
  then have "2 * (dy * ey + dx * ex) = dx\<^sup>2 + dy\<^sup>2 + ua2 - la2" using assms(1) by (simp add: distrib_left mult.assoc)
  then show ?thesis unfolding a e [symmetric] using el by (simp add: power2_eq_square algebra_simps)
qed

text \<open>
  C37: The stepper positions of printers with arms and cables reach the head: the lengths of the arms come out, when the head
  is in their range.
\<close>

theorem arms_reach_head:
  assumes "c = move_get_coord real_fp m t"
  shows "((tower_x ds - cx c)\<^sup>2 + (tower_y ds - cy c)\<^sup>2 \<le> dl_arm2 ds \<longrightarrow>
      (delta_stepper_calc_position real_fp ds m t - cz c)\<^sup>2 + (tower_x ds - cx c)\<^sup>2 + (tower_y ds - cy c)\<^sup>2 = dl_arm2 ds \<and>
      cz c \<le> delta_stepper_calc_position real_fp ds m t) \<and>
    ((cx c - arm_x dt)\<^sup>2 \<le> dt_arm2 dt \<longrightarrow>
      (deltesian_stepper_calc_position real_fp dt m t - cz c)\<^sup>2 + (cx c - arm_x dt)\<^sup>2 = dt_arm2 dt \<and>
      cz c \<le> deltesian_stepper_calc_position real_fp dt m t) \<and>
    (winch_stepper_calc_position real_fp anchor m t)\<^sup>2 = (cx anchor - cx c)\<^sup>2 + (cy anchor - cy c)\<^sup>2 + (cz anchor - cz c)\<^sup>2 \<and>
    (let x = cx c * rs_cos rs + cy c * rs_sin rs - shoulder_radius rs; y = cz c - shoulder_height rs;
         z = cy c * rs_cos rs - cx c * rs_sin rs; arm = rotary_stepper_calc_position real_fp rs m t; ua = sqrt (upper_arm2 rs)
     in y \<noteq> 0 \<and> 0 < upper_arm2 rs \<and>
        ((x\<^sup>2 + y\<^sup>2 + upper_arm2 rs - (lower_arm2 rs - z\<^sup>2)) / (2 * y))\<^sup>2 \<le> ((x / y)\<^sup>2 + 1) * upper_arm2 rs \<longrightarrow>
        (x - ua * cos arm)\<^sup>2 + (y - ua * sin arm)\<^sup>2 + z\<^sup>2 = lower_arm2 rs)"
proof -
  have 1: "delta_stepper_calc_position real_fp ds m t = sqrt (dl_arm2 ds - (tower_x ds - cx c)\<^sup>2 - (tower_y ds - cy c)\<^sup>2) + cz c"
    by (simp add: delta_stepper_calc_position_def assms Let_def power2_eq_square)
  have 2: "deltesian_stepper_calc_position real_fp dt m t = sqrt (dt_arm2 dt - (cx c - arm_x dt)\<^sup>2) + cz c"
    by (simp add: deltesian_stepper_calc_position_def assms Let_def power2_eq_square)
  have 3: "winch_stepper_calc_position real_fp anchor m t = sqrt ((cx anchor - cx c)\<^sup>2 + (cy anchor - cy c)\<^sup>2 + (cz anchor - cz c)\<^sup>2)"
    by (simp add: winch_stepper_calc_position_def assms Let_def power2_eq_square)
  have 4: "rotary_stepper_calc_position real_fp rs m t =
      rotary_two_arm_calc real_fp (cx c * rs_cos rs + cy c * rs_sin rs - shoulder_radius rs) (cz c - shoulder_height rs)
        (upper_arm2 rs) (lower_arm2 rs - (cy c * rs_cos rs - cx c * rs_sin rs)\<^sup>2)"
    by (simp add: rotary_stepper_calc_position_def assms Let_def power2_eq_square)
  show ?thesis unfolding 1 2 3 4 Let_def using two_arm by auto
qed

theorem arms_reach_head_witness:
  "(delta_stepper_calc_position real_fp \<lparr>dl_arm2 = 25, tower_x = 3, tower_y = 0\<rparr> (move_alloc real_fp) 0)\<^sup>2 + 9 = 25"
  using arms_reach_head [OF refl, of "\<lparr>dl_arm2 = 25, tower_x = 3, tower_y = 0\<rparr>" "move_alloc real_fp" 0]
  by (simp add: move_alloc_def move_get_coord_def coord_zero_def Let_def)

section \<open>Polar printers\<close>

text \<open>
  Radius and angle of a polar printer are the coordinates of the head, and the angle is at most half a turn away from
  the commanded one, as long as that is kept between a negative and a positive half turn, which the fix at the end of
  every move does.
\<close>

theorem polar_shortest_turn:
  assumes "c = move_get_coord real_fp m t" "cx c \<noteq> 0 \<or> cy c \<noteq> 0" "- pi \<le> pos" "pos \<le> pi"
    "r = polar_stepper_radius_calc_position real_fp m t" "a = polar_stepper_angle_calc_position real_fp pos m t"
  shows "r * cos a = cx c \<and> r * sin a = cy c \<and> \<bar>a - pos\<bar> \<le> pi \<and>
    - pi \<le> polar_stepper_angle_post_fixup real_fp a \<and> polar_stepper_angle_post_fixup real_fp a \<le> pi \<and>
    cos (polar_stepper_angle_post_fixup real_fp a) = cos a \<and> sin (polar_stepper_angle_post_fixup real_fp a) = sin a"
proof -
  let ?b = "atan2_real (cy c) (cx c)"
  have r: "r = sqrt ((cx c)\<^sup>2 + (cy c)\<^sup>2)"
    by (simp add: assms(5) polar_stepper_radius_calc_position_def assms(1) Let_def power2_eq_square)
  have a: "a = (if pi < ?b - pos then ?b - 2 * pi else if ?b - pos < - pi then ?b + 2 * pi else ?b)"
    by (simp add: assms(6) polar_stepper_angle_calc_position_def assms(1) Let_def M_PI_def)
  note b = atan2_real [OF assms(2)]
  have cs: "cos a = cos ?b" "sin a = sin ?b" by (simp_all add: a cos_diff sin_diff)
  have d: "\<bar>a - pos\<bar> \<le> pi" using b(3,4) assms(3,4) by (auto simp: a)
  have f: "polar_stepper_angle_post_fixup real_fp a = (if a < - pi then a + 2 * pi else if pi < a then a - 2 * pi else a)"
    by (simp add: polar_stepper_angle_post_fixup_def M_PI_def)
  have e: "\<bar>a\<bar> \<le> 2 * pi" using d assms(3,4) by linarith
  show ?thesis using b(1,2) d e cs unfolding f r by (auto simp: cos_diff sin_diff)
qed

theorem polar_shortest_turn_witness:
  "polar_stepper_radius_calc_position real_fp ((move_alloc real_fp)\<lparr>start_pos := \<lparr>cx = 3, cy = 4, cz = 0\<rparr>\<rparr>) 0 *
     cos (polar_stepper_angle_calc_position real_fp 0 ((move_alloc real_fp)\<lparr>start_pos := \<lparr>cx = 3, cy = 4, cz = 0\<rparr>\<rparr>) 0) = 3"
proof -
  let ?m = "(move_alloc real_fp)\<lparr>start_pos := \<lparr>cx = 3, cy = 4, cz = 0\<rparr>\<rparr>"
  have c: "move_get_coord real_fp ?m 0 = \<lparr>cx = 3, cy = 4, cz = 0\<rparr>"
    by (simp add: move_alloc_def move_get_coord_def coord_zero_def Let_def)
  then show ?thesis using polar_shortest_turn [OF refl, of ?m 0 0, OF _ _ _ refl refl] by simp
qed

section \<open>Pressure advance\<close>

lemma extruder_integrate_derivative:
  "((\<lambda>e. extruder_integrate real_fp base v ha s e) has_real_derivative base + e * (v + e * ha)) (at e)"
  "((\<lambda>e. extruder_integrate_time real_fp base v ha s e) has_real_derivative e * (base + e * (v + e * ha))) (at e)"
  by (auto simp: extruder_integrate_def extruder_integrate_time_def Let_def algebra_simps intro!: derivative_eq_intros)

text \<open>
  C32: When the smoothing window lies within one move, the extruder is at the nominal position, advanced in proportion to the
  nominal velocity if the move allows it, and shifted by the constant that averaging adds to a motion with acceleration.
\<close>

theorem pressure_advance_smooths:
  assumes "hst = half_smooth_time es" "0 < hst" "inv_half_smooth_time2 es = 1 / (hst * hst)" "hst \<le> t" "t + hst \<le> move_t (ms ! i)"
    "pa = (if cy (axes_r (ms ! i)) \<noteq> 0 then pressure_advance es else 0)"
  shows "extruder_calc_position real_fp es ms i t =
    Some (cx (start_pos (ms ! i)) + move_get_distance real_fp (ms ! i) t + pa * (start_v (ms ! i) + 2 * half_accel (ms ! i) * t) +
      half_accel (ms ! i) * hst\<^sup>2 / 6)"
proof -
  let ?m = "ms ! i"
  have p: "pa_prev_loop real_fp (pressure_advance es) b ms i (t - hst) res = Some res" for b res
    using assms(4) by (simp add: pa_prev_loop.simps)
  have n: "pa_next_loop real_fp (pressure_advance es) b ms i (t + hst) res = Some res" for b res
    using assms(5) by (simp add: pa_next_loop.simps)
  have a: "pa_move_integrate real_fp ?m (pressure_advance es) 0 (t - hst) t (t - hst) -
      pa_move_integrate real_fp ?m (pressure_advance es) 0 t (t + hst) (t + hst) =
    hst\<^sup>2 * (move_get_distance real_fp ?m t + pa * (start_v ?m + 2 * half_accel ?m * t) + half_accel ?m * hst\<^sup>2 / 6)"
    using assms(2,4,5) unfolding assms(6)
    by (auto simp: pa_move_integrate_def extruder_integrate_def extruder_integrate_time_def move_get_distance_def Let_def
        power2_eq_square field_simps)
  have "pa_range_integrate real_fp ms i t (pressure_advance es) hst =
    Some (hst\<^sup>2 * (move_get_distance real_fp ?m t + pa * (start_v ?m + 2 * half_accel ?m * t) + half_accel ?m * hst\<^sup>2 / 6))"
    by (simp add: pa_range_integrate_def Let_def p n a)
  then show ?thesis using assms(1-3) by (simp add: extruder_calc_position_def Let_def power2_eq_square)
qed

theorem pressure_advance_smooths_witness:
  "extruder_calc_position real_fp \<lparr>pressure_advance = 1 / 20, half_smooth_time = 1 / 50, inv_half_smooth_time2 = 2500\<rparr>
     [\<lparr>print_time = 1, move_t = 2, start_v = 10, half_accel = 0, start_pos = \<lparr>cx = 5, cy = 0, cz = 0\<rparr>, axes_r = \<lparr>cx = 1, cy = 1, cz = 0\<rparr>\<rparr>]
     0 1 = Some (31 / 2)"
  using pressure_advance_smooths [of "1 / 50" "\<lparr>pressure_advance = 1 / 20, half_smooth_time = 1 / 50, inv_half_smooth_time2 = 2500\<rparr>"
      1 "[\<lparr>print_time = 1, move_t = 2, start_v = 10, half_accel = 0, start_pos = \<lparr>cx = 5, cy = 0, cz = 0\<rparr>, axes_r = \<lparr>cx = 1, cy = 1, cz = 0\<rparr>\<rparr>]" 0 "1 / 20"]
  by (simp add: move_get_distance_def)

section \<open>Input shaping\<close>

lemma foldl_add: "foldl (+) (x :: real) ys = x + sum_list ys"
  by (induction ys arbitrary: x) (simp_all add: add.assoc)

lemma foldl_pulses: "foldl (\<lambda>ts (t, a). ts + a * t) (x :: real) sp = x + sum_list (map (\<lambda>(t, a). a * t) sp)"
  by (induction sp arbitrary: x) (auto simp: add.assoc)

lemma pulses_loop_sum:
  assumes "\<And>t a. (t, a) \<in> set sp \<Longrightarrow> get_axis_position_across_moves real_fp ms i ax (time + t) = Some (f (time + t))"
  shows "pulses_loop real_fp ms i ax time sp res = Some (res + sum_list (map (\<lambda>(t, a). a * f (time + t)) sp))"
  using assms
proof (induction sp arbitrary: res)
  case (Cons x sp)
  obtain t a where x: "x = (t, a)" by (cases x)
  have "pulses_loop real_fp ms i ax time sp (res + a * f (time + t)) =
      Some (res + a * f (time + t) + sum_list (map (\<lambda>(t, a). a * f (time + t)) sp))"
    by (rule Cons.IH) (use Cons.prems in auto)
  then show ?case using Cons.prems [of t a] by (simp add: x add.assoc)
qed simp

text \<open>The weights of the pulses add up to one and their mean time is zero.\<close>

definition balanced :: "real shaper_pulses \<Rightarrow> bool" where
  "balanced sp \<longleftrightarrow> sum_list (map snd sp) = 1 \<and> sum_list (map (\<lambda>(t, a). a * t) sp) = 0"

lemma sum_list_shift: "sum_list (map (\<lambda>(t, a). a * (t - ts)) sp) = sum_list (map (\<lambda>(t, a). a * t) sp) - ts * sum_list (map snd sp)"
  for ts :: real
  by (induction sp) (auto simp: algebra_simps)

lemma init_shaper_balanced:
  assumes "init_shaper real_fp n a t = (0, sp)" "sum_list (take (nat n) a) \<noteq> 0" "nat n \<le> length a"
  shows "balanced sp \<and> length sp = nat n"
proof -
  have n: "0 \<le> n" "n \<le> 5" using assms(1) by (auto simp: init_shaper_def split: if_splits)
  let ?s = "sum_list (take (nat n) a)"
  let ?sp = "rev (map (\<lambda>i. (- (t ! i), a ! i * (1 / ?s))) [0..<nat n])"
  let ?ts = "sum_list (map (\<lambda>(t, a). a * t) ?sp)"
  have sp: "sp = map (\<lambda>(t, a). (t - ?ts, a)) ?sp"
    using assms(1) n by (simp add: init_shaper_def shift_pulses_def foldl_add foldl_pulses Let_def)
  have "take (nat n) a = map ((!) a) [0..<nat n]" using assms(3) by (simp add: list_eq_iff_nth_eq)
  moreover have "map snd ?sp = rev (map (\<lambda>i. a ! i * (1 / ?s)) [0..<nat n])" by (simp add: rev_map comp_def)
  ultimately have "sum_list (map snd ?sp) = ?s * (1 / ?s)" by (simp only: sum_list_rev sum_list_mult_const)
  then have 1: "sum_list (map snd ?sp) = 1" using assms(2) by simp
  have s: "map snd sp = map snd ?sp" "length sp = nat n" by (simp_all add: sp comp_def split_def)
  have "sum_list (map (\<lambda>(t, a). a * t) sp) = sum_list (map (\<lambda>(t, a). a * (t - ?ts)) ?sp)"
    by (simp add: sp comp_def split_def)
  then show ?thesis using s(2) unfolding balanced_def s(1) sum_list_shift 1 by simp
qed

lemma balanced_linear:
  assumes "balanced sp"
  shows "sum_list (map (\<lambda>(t, a). a * (pos + v * (time + t))) sp) = pos + v * time"
proof -
  have "sum_list (map (\<lambda>(t, a). a * (pos + v * (time + t))) sp) =
      (pos + v * time) * sum_list (map snd sp) + v * sum_list (map (\<lambda>(t, a). a * t) sp)"
    by (induction sp) (auto simp: algebra_simps)
  then show ?thesis using assms by (simp add: balanced_def)
qed

text \<open>
  An input shaper, as it is set up from amplitudes and times, does not change a motion at constant speed, also when its
  pulses fall into different moves.
\<close>

theorem shaper_keeps_constant_speed:
  assumes "init_shaper real_fp n a t = (0, sp)" "sum_list (take (nat n) a) \<noteq> 0" "nat n \<le> length a"
    "\<And>pt pa. (pt, pa) \<in> set sp \<Longrightarrow> get_axis_position_across_moves real_fp ms i ax (time + pt) = Some (pos + v * (time + pt))"
  shows "shaper_calc_position real_fp ms i ax time sp = Some (pos + v * time)"
  using balanced_linear [of sp pos v time] init_shaper_balanced [OF assms(1-3)]
    pulses_loop_sum [of sp ms i ax time "\<lambda>x. pos + v * x" 0, OF assms(4)]
  by (simp add: shaper_calc_position_def)

theorem shaper_keeps_constant_speed_witness:
  "shaper_calc_position real_fp
     [\<lparr>print_time = 1, move_t = 2, start_v = 10, half_accel = 0, start_pos = \<lparr>cx = 5, cy = 0, cz = 0\<rparr>, axes_r = \<lparr>cx = 1, cy = 0, cz = 0\<rparr>\<rparr>]
     0 Axis_X 1 (snd (init_shaper real_fp 2 [1, 3] [0, 1 / 4])) = Some 15"
proof -
  let ?ms = "[\<lparr>print_time = 1, move_t = 2, start_v = 10, half_accel = 0, start_pos = \<lparr>cx = 5, cy = 0, cz = 0\<rparr>, axes_r = \<lparr>cx = 1, cy = 0, cz = 0\<rparr>\<rparr>]"
  have i: "init_shaper real_fp 2 [1, 3] [0, 1 / 4] = (0, [(- 1 / 16, 3 / 4), (3 / 16, 1 / 4)])"
    by (simp add: init_shaper_def shift_pulses_def Let_def numeral_2_eq_2)
  have p: "get_axis_position_across_moves real_fp ?ms 0 Axis_X (1 + pt) = Some (5 + 10 * (1 + pt))" if "-1 \<le> pt" "pt \<le> 1" for pt
    using that by (simp add: get_axis_position_across_moves_def walk_prev.simps walk_next.simps get_axis_position_def axis_of_def
        move_get_distance_def)
  have q: "get_axis_position_across_moves real_fp ?ms 0 Axis_X (1 + pt) = Some (5 + 10 * (1 + pt))"
    if "(pt, pa) \<in> set [(- 1 / 16, 3 / 4), (3 / 16, 1 / 4)]" for pt pa :: real by (rule p) (use that in auto)
  show ?thesis using shaper_keeps_constant_speed [OF i _ _ q] by (simp add: i)
qed

section \<open>Idle moves\<close>

text \<open>The kinematics whose position depends on the coordinates only, and the axes that they use.\<close>

fun uses_axes :: "'t kin \<Rightarrow> u32 option" where
  "uses_axes (Cartesian Axis_X) = Some AF_X"
| "uses_axes (Cartesian Axis_Y) = Some AF_Y"
| "uses_axes (Cartesian Axis_Z) = Some AF_Z"
| "uses_axes Corexy_plus = Some (AF_X OR AF_Y)"
| "uses_axes Corexy_minus = Some (AF_X OR AF_Y)"
| "uses_axes Corexz_plus = Some (AF_X OR AF_Z)"
| "uses_axes Corexz_minus = Some (AF_X OR AF_Z)"
| "uses_axes (Delta ds) = Some (AF_X OR AF_Y OR AF_Z)"
| "uses_axes (Deltesian ds) = Some (AF_X OR AF_Z)"
| "uses_axes (Winch c) = Some (AF_X OR AF_Y OR AF_Z)"
| "uses_axes (Rotary_delta rs) = Some (AF_X OR AF_Y OR AF_Z)"
| "uses_axes Polar_radius = Some (AF_X OR AF_Y)"
| "uses_axes Polar_angle = Some (AF_X OR AF_Y)"
| "uses_axes _ = None"

definition same_axes :: "u32 \<Rightarrow> 't coord \<Rightarrow> 't coord \<Rightarrow> bool" where
  "same_axes af c c' \<longleftrightarrow> (af AND AF_X \<noteq> 0 \<longrightarrow> cx c = cx c') \<and> (af AND AF_Y \<noteq> 0 \<longrightarrow> cy c = cy c') \<and> (af AND AF_Z \<noteq> 0 \<longrightarrow> cz c = cz c')"

lemmas position_defs = cart_stepper_x_calc_position_def cart_stepper_y_calc_position_def cart_stepper_z_calc_position_def
  corexy_stepper_plus_calc_position_def corexy_stepper_minus_calc_position_def corexz_stepper_plus_calc_position_def
  corexz_stepper_minus_calc_position_def delta_stepper_calc_position_def deltesian_stepper_calc_position_def
  winch_stepper_calc_position_def rotary_stepper_calc_position_def polar_stepper_radius_calc_position_def
  polar_stepper_angle_calc_position_def

lemma AF_bits [simp]:
  "AF_X \<noteq> 0" "AF_Y \<noteq> 0" "AF_Z \<noteq> 0"
  "AF_X AND AF_X = 1" "AF_X AND AF_Y = 0" "AF_X AND AF_Z = 0" "AF_Y AND AF_X = 0" "AF_Y AND AF_Y = 2" "AF_Y AND AF_Z = 0"
  "AF_Z AND AF_X = 0" "AF_Z AND AF_Y = 0" "AF_Z AND AF_Z = 4" "AF_X OR AF_Y = 3" "AF_X OR AF_Z = 5"
  "AF_X OR AF_Y OR AF_Z = 7" "3 AND AF_X = 1" "3 AND AF_Y = 2" "3 AND AF_Z = 0" "5 AND AF_X = 1" "5 AND AF_Y = 0" "5 AND AF_Z = 4"
  "7 AND AF_X = 1" "7 AND AF_Y = 2" "7 AND AF_Z = 4"
  by (simp_all add: AF_X_def AF_Y_def AF_Z_def)

lemma AF_distinct: "AF_X \<noteq> AF_Y" "AF_X \<noteq> AF_Z" "AF_Y \<noteq> AF_Z" "AF_Y \<noteq> AF_X" "AF_Z \<noteq> AF_X" "AF_Z \<noteq> AF_Y"
  by (simp_all add: AF_X_def AF_Y_def AF_Z_def)

lemma flag_bits:
  "(f AND NOT AF_X) AND AF_Y = f AND AF_Y" "(f AND NOT AF_X) AND AF_Z = f AND AF_Z"
  "(f AND NOT AF_Y) AND AF_X = f AND AF_X" "(f AND NOT AF_Y) AND AF_Z = f AND AF_Z"
  "(f OR AF_X) AND AF_Y = f AND AF_Y" "(f OR AF_X) AND AF_Z = f AND AF_Z" "(f OR AF_X) AND AF_X = AF_X"
  "(f OR AF_Y) AND AF_X = f AND AF_X" "(f OR AF_Y) AND AF_Z = f AND AF_Z" "(f OR AF_Y) AND AF_Y = AF_Y"
  by (simp_all add: and.assoc bit.conj_disj_distrib2 AF_X_def AF_Y_def AF_Z_def and.left_commute)

lemma own_position_axes:
  assumes "uses_axes (sk_kin sk) = Some af" "same_axes af (move_get_coord F (ms ! i) t) (move_get_coord F (ms' ! j) u)"
  shows "own_position F sk ms i t = own_position F sk ms' j u \<and> own_position F sk ms i t \<noteq> None"
  using assms
  by (cases "sk_kin sk" rule: uses_axes.cases) (auto simp: own_position_def position_defs same_axes_def Let_def)

text \<open>A stepper is set up well if its active flags name all axes that its position depends on.\<close>

definition flags_cover :: "'t stepper_kinematics \<Rightarrow> bool" where
  "flags_cover sk \<longleftrightarrow> (\<exists>af. uses_axes (sk_kin sk) = Some af \<and> af AND active_flags sk = af)"

lemma alloc_flags_cover:
  "ax \<in> {CHR ''x'', CHR ''y'', CHR ''z''} \<Longrightarrow> flags_cover (cartesian_stepper_alloc F ax)"
  "typ \<in> {CHR ''+'', CHR ''-''} \<Longrightarrow> flags_cover (corexy_stepper_alloc F typ)"
  "typ \<in> {CHR ''+'', CHR ''-''} \<Longrightarrow> flags_cover (corexz_stepper_alloc F typ)"
  "flags_cover (delta_stepper_alloc F arm2 x y)" "flags_cover (deltesian_stepper_alloc F arm2 x)"
  "flags_cover (winch_stepper_alloc F x y z)" "flags_cover (rotary_delta_stepper_alloc F r hh a u l)"
  "typ \<in> {CHR ''r'', CHR ''a''} \<Longrightarrow> flags_cover (polar_stepper_alloc F typ)"
  by (auto simp: flags_cover_def cartesian_stepper_alloc_def corexy_stepper_alloc_def corexz_stepper_alloc_def delta_stepper_alloc_def
      deltesian_stepper_alloc_def winch_stepper_alloc_def rotary_delta_stepper_alloc_def polar_stepper_alloc_def)

text \<open>The axes in which a move does not go stay where they are.\<close>

lemma idle_axes:
  assumes "\<not> check_active real_fp sk m"
  shows "same_axes (active_flags sk) (move_get_coord real_fp m t) (move_get_coord real_fp m u)"
  using assms by (auto simp: check_active_def same_axes_def move_get_coord_def Let_def)

lemma same_axes_mono: "same_axes af c c' \<Longrightarrow> af' AND af = af' \<Longrightarrow> same_axes af' c c'"
proof -
  assume a: "same_axes af c c'" and s: "af' AND af = af'"
  have "af AND x = 0 \<Longrightarrow> af' AND x = 0" for x using s by (metis and.assoc and_zero_eq)
  then show ?thesis using a unfolding same_axes_def by blast
qed

text \<open>A carriage that wraps a stepper of the kinds above: the flag of an axis is only off when the scale is zero.\<close>

definition carriage_ok :: "real motion \<Rightarrow> nat \<Rightarrow> real dual_carriage_stepper \<Rightarrow> nat \<Rightarrow> bool" where
  "carriage_ok s k dc orig \<longleftrightarrow>
     k < length (sks s) \<and> orig < length (sks s) \<and> k \<noteq> orig \<and> sk_kin (sks s ! k) = Dual_carriage dc \<and> dc_orig_sk dc = Some orig \<and>
     flags_cover (sks s ! orig) \<and> start_v (dc_m dc) = 0 \<and> half_accel (dc_m dc) = 0 \<and>
     (\<forall>af \<in> {AF_X, AF_Y, AF_Z}. active_flags (sks s ! orig) AND af \<noteq> 0 \<longrightarrow>
        active_flags (sks s ! k) AND af \<noteq> 0 \<or> af = AF_X \<and> x_scale dc = 0 \<or> af = AF_Y \<and> y_scale dc = 0)"

lemma own_calc:
  assumes "k < length (sks s)" "uses_axes (sk_kin (sks s ! k)) = Some af"
  shows "calc_position_cb F (Suc n) k ms i t s =
    (case own_position F (sks s ! k) ms i t of None \<Rightarrow> Fault | Some p \<Rightarrow> Ret p s)"
  using assms by (cases "sk_kin (sks s ! k)") auto

lemma idle_own:
  assumes "k < length (sks s)" "flags_cover (sks s ! k)" "\<not> check_active real_fp (sks s ! k) (ms ! i)"
  shows "\<exists>p. calc_position_of real_fp k ms i t s = Ret p s \<and> calc_position_of real_fp k ms i u s = Ret p s"
proof -
  obtain n where n: "length (sks s) = Suc n" using assms(1) by (cases "length (sks s)") auto
  obtain af where af: "uses_axes (sk_kin (sks s ! k)) = Some af" "af AND active_flags (sks s ! k) = af"
    using assms(2) by (auto simp: flags_cover_def)
  have "same_axes af (move_get_coord real_fp (ms ! i) t) (move_get_coord real_fp (ms ! i) u)"
    by (rule same_axes_mono [OF idle_axes [OF assms(3)] af(2)])
  then have "own_position real_fp (sks s ! k) ms i t = own_position real_fp (sks s ! k) ms i u \<and>
      own_position real_fp (sks s ! k) ms i t \<noteq> None" by (rule own_position_axes [OF af(1)])
  then obtain p where "own_position real_fp (sks s ! k) ms i t = Some p" "own_position real_fp (sks s ! k) ms i u = Some p"
    by (metis option.exhaust)
  then show ?thesis by (simp add: calc_position_of_def n own_calc [OF assms(1) af(1)] del: calc_position_cb.simps)
qed

lemma carriage_coord:
  assumes "start_v (dc_m dc) = 0" "half_accel (dc_m dc) = 0" "c = move_get_coord real_fp m t"
  shows "move_get_coord real_fp (dual_carriage_move real_fp dc m t) u =
    \<lparr>cx = cx c * x_scale dc + x_offs dc, cy = cy c * y_scale dc + y_offs dc, cz = cz c\<rparr>"
  using assms by (simp add: dual_carriage_move_def Let_def move_get_coord_def [of _ "dual_carriage_move _ _ _ _"] move_get_distance_def)
    (simp add: move_get_coord_def move_get_distance_def Let_def)

lemma idle_carriage:
  assumes "carriage_ok s k dc orig" "\<not> check_active real_fp (sks s ! k) (ms ! i)"
  shows "\<exists>p s1 s2. calc_position_of real_fp k ms i t s = Ret p s1 \<and> calc_position_of real_fp k ms i u s = Ret p s2"
proof -
  have c: "k < length (sks s)" "orig < length (sks s)" "k \<noteq> orig" "sk_kin (sks s ! k) = Dual_carriage dc" "dc_orig_sk dc = Some orig"
    "flags_cover (sks s ! orig)" "start_v (dc_m dc) = 0" "half_accel (dc_m dc) = 0"
    "\<forall>af \<in> {AF_X, AF_Y, AF_Z}. active_flags (sks s ! orig) AND af \<noteq> 0 \<longrightarrow>
        active_flags (sks s ! k) AND af \<noteq> 0 \<or> af = AF_X \<and> x_scale dc = 0 \<or> af = AF_Y \<and> y_scale dc = 0"
    using assms(1) by (simp_all add: carriage_ok_def)
  obtain n where n: "length (sks s) = Suc (Suc n)" using c(1-3) by (cases "length (sks s)"; cases "length (sks s) - 1") auto
  obtain af where af: "uses_axes (sk_kin (sks s ! orig)) = Some af" "af AND active_flags (sks s ! orig) = af"
    using c(6) by (auto simp: flags_cover_def)
  let ?m = "dual_carriage_move real_fp dc (ms ! i)"
  have "same_axes (active_flags (sks s ! orig)) (move_get_coord real_fp (?m t) 500) (move_get_coord real_fp (?m u) 500)"
    using idle_axes [OF assms(2), of t u] c(9) by (auto simp: carriage_coord [OF c(7,8) refl] same_axes_def AF_distinct)
  then have "same_axes af (move_get_coord real_fp ([?m t] ! 0) 500) (move_get_coord real_fp ([?m u] ! 0) 500)"
    using same_axes_mono af(2) by fastforce
  note o = own_position_axes [OF af(1) this]
  have "\<exists>s'. calc_position_of real_fp k ms i x s =
      (case own_position real_fp (sks s ! orig) [?m x] 0 500 of None \<Rightarrow> Fault | Some p \<Rightarrow> Ret p s')" for x
  proof -
    let ?s = "set_kin k (Dual_carriage (dc\<lparr>dc_m := ?m x\<rparr>)) s"
    have s: "orig < length (sks ?s)" "sks ?s ! orig = sks s ! orig" using c(2,3) by (simp_all add: set_kin_def upd_sk_def)
    have "calc_position_cb real_fp (Suc n) orig [?m x] 0 500 ?s =
        (case own_position real_fp (sks s ! orig) [?m x] 0 500 of None \<Rightarrow> Fault | Some p \<Rightarrow> Ret p ?s)"
      using own_calc [OF s(1)] af(1) unfolding s(2) by blast
    moreover have "calc_position_of real_fp k ms i x s = calc_position_cb real_fp (Suc n) orig [?m x] 0 500 ?s"
      unfolding calc_position_of_def n using c(1,4,5)
      by (subst calc_position_cb.simps(2)) (simp add: DUMMY_T_def Let_def del: calc_position_cb.simps)
    ultimately show ?thesis by auto
  qed
  from this [of t] this [of u] obtain s1 s2 where
    "calc_position_of real_fp k ms i t s =
      (case own_position real_fp (sks s ! orig) [?m t] 0 500 of None \<Rightarrow> Fault | Some p \<Rightarrow> Ret p s1)"
    "calc_position_of real_fp k ms i u s =
      (case own_position real_fp (sks s ! orig) [?m u] 0 500 of None \<Rightarrow> Fault | Some p \<Rightarrow> Ret p s2)" by blast
  then show ?thesis using o by (auto split: option.splits)
qed

text \<open>A move in y, and an x stepper with an idle carriage around it.\<close>

definition demo_move_y :: "real move" where
  "demo_move_y = \<lparr>print_time = 1, move_t = 2, start_v = 10, half_accel = 0, start_pos = \<lparr>cx = 5, cy = 0, cz = 0\<rparr>,
     axes_r = \<lparr>cx = 0, cy = 1, cz = 0\<rparr>\<rparr>"

definition two_steppers :: "real motion" where
  "two_steppers = \<lparr>sks = [cartesian_stepper_alloc real_fp (CHR ''x''), dual_carriage_alloc real_fp], trapqs = [], scs = []\<rparr>"

text \<open>
  C33: While the solver takes a move for idle, the stepper does not move: its position is the same at all times of the move.
  This holds for every kind of printer whose position depends on the coordinates, and for a carriage around it.
\<close>

theorem idle_moves_do_not_step:
  assumes "\<not> check_active real_fp (sks s ! k) (ms ! i)"
    "k < length (sks s) \<and> flags_cover (sks s ! k) \<or> (\<exists>dc orig. carriage_ok s k dc orig)"
  shows "\<exists>p s1 s2. calc_position_of real_fp k ms i t s = Ret p s1 \<and> calc_position_of real_fp k ms i u s = Ret p s2"
  using assms(2) idle_own [OF _ _ assms(1)] idle_carriage [OF _ assms(1)] by blast

theorem idle_moves_do_not_step_witness:
  "\<exists>p s1 s2. calc_position_of real_fp 0 [demo_move_y] 0 0 two_steppers = Ret p s1 \<and>
     calc_position_of real_fp 0 [demo_move_y] 0 1 two_steppers = Ret p s2"
  by (rule idle_moves_do_not_step) (simp_all add: two_steppers_def check_active_def demo_move_y_def alloc_flags_cover,
      simp add: cartesian_stepper_alloc_def)

text \<open>
  The calls that set up a carriage keep its flags such that idle moves are told apart.
\<close>

theorem carriage_flags_kept:
  assumes "k < length (sks s)" "orig < length (sks s)" "k \<noteq> orig" "flags_cover (sks s ! orig)"
  shows "(sk_kin (sks s ! k) = Dual_carriage dc \<and> start_v (dc_m dc) = 0 \<and> half_accel (dc_m dc) = 0 \<longrightarrow>
      (\<exists>s'. dual_carriage_set_sk k orig s = Ret () s' \<and> carriage_ok s' k (dc\<lparr>dc_orig_sk := Some orig\<rparr>) orig)) \<and>
    (carriage_ok s k dc orig \<longrightarrow>
      (\<exists>ret s' dc'. dual_carriage_set_transform real_fp k ax scale offs s = Ret ret s' \<and> carriage_ok s' k dc' orig))"
proof (intro conjI impI)
  assume a: "sk_kin (sks s ! k) = Dual_carriage dc \<and> start_v (dc_m dc) = 0 \<and> half_accel (dc_m dc) = 0"
  then show "\<exists>s'. dual_carriage_set_sk k orig s = Ret () s' \<and> carriage_ok s' k (dc\<lparr>dc_orig_sk := Some orig\<rparr>) orig"
    using assms by (auto simp: dual_carriage_set_sk_def carriage_ok_def upd_sk_def)
next
  assume a: "carriage_ok s k dc orig"
  let ?sk = "sks s ! k" and ?o = "active_flags (sks s ! orig)"
  have c: "sk_kin ?sk = Dual_carriage dc" "dc_orig_sk dc = Some orig" "start_v (dc_m dc) = 0" "half_accel (dc_m dc) = 0"
    and f: "?o AND AF_X \<noteq> 0 \<Longrightarrow> active_flags ?sk AND AF_X \<noteq> 0 \<or> x_scale dc = 0"
    "?o AND AF_Y \<noteq> 0 \<Longrightarrow> active_flags ?sk AND AF_Y \<noteq> 0 \<or> y_scale dc = 0"
    "?o AND AF_Z \<noteq> 0 \<Longrightarrow> active_flags ?sk AND AF_Z \<noteq> 0"
    using a by (auto simp: carriage_ok_def AF_distinct)
  show "\<exists>ret s' dc'. dual_carriage_set_transform real_fp k ax scale offs s = Ret ret s' \<and> carriage_ok s' k dc' orig"
  proof (cases "ax = CHR ''x'' \<or> ax = CHR ''y''")
    case False
    then show ?thesis using a c by (auto simp: dual_carriage_set_transform_def)
  next
    case True
    let ?af = "if ax = CHR ''x'' then AF_X else AF_Y"
    let ?dc = "if ax = CHR ''x'' then dc\<lparr>x_scale := scale, x_offs := offs\<rparr> else dc\<lparr>y_scale := scale, y_offs := offs\<rparr>"
    let ?fl = "scale_flags real_fp ?af scale ?o (active_flags ?sk)"
    let ?s = "upd_sk k (\<lambda>sk. sk\<lparr>sk_kin := Dual_carriage ?dc, active_flags := ?fl\<rparr>) s"
    have "dual_carriage_set_transform real_fp k ax scale offs s = Ret 0 ?s"
      using True c by (auto simp: dual_carriage_set_transform_def Let_def upd_sk_def)
    moreover have "carriage_ok ?s k ?dc orig"
      unfolding carriage_ok_def using assms c f True
      by (auto simp: upd_sk_def scale_flags_def AF_distinct flag_bits)
    ultimately show ?thesis by blast
  qed
qed

theorem carriage_flags_kept_witness:
  "\<exists>s' dc. dual_carriage_set_sk 1 0 two_steppers = Ret () s' \<and> carriage_ok s' 1 dc 0"
proof -
  let ?dc = "\<lparr>dc_orig_sk = None, dc_m = (move_alloc real_fp)\<lparr>move_t := 1000\<rparr>, x_scale = 0, x_offs = 0, y_scale = 0, y_offs = 0\<rparr>"
  have k: "sk_kin (sks two_steppers ! 1) = Dual_carriage ?dc" "start_v (dc_m ?dc) = 0" "half_accel (dc_m ?dc) = 0"
    by (simp_all add: two_steppers_def dual_carriage_alloc_def move_alloc_def DUMMY_T_def)
  have "flags_cover (sks two_steppers ! 0)" "1 < length (sks two_steppers)" "0 < length (sks two_steppers)"
    by (simp_all add: two_steppers_def alloc_flags_cover)
  from carriage_flags_kept [OF this(2,3) _ this(1)] k show ?thesis by fastforce
qed

end
