(* ===== verification/Itersolve_Search.thy ===== *)
theory Itersolve_Search
  imports Itersolve Real_Arith
begin

text \<open>
  The search for one step of the iterative solver, over exact real numbers: what is known about its variables, that a
  step is found close to its place, and that the search ends. The position is a function \<open>p\<close> of time that does not
  change faster than \<open>L\<close>.
\<close>

section \<open>The search with a position function\<close>

definition seek_eval :: "(real \<Rightarrow> real) \<Rightarrow> real \<Rightarrow> real \<Rightarrow> real seek \<Rightarrow> (action \<times> real seek) option" where
  "seek_eval p h fin g =
     (case next_guess real_fp fin g of
        None \<Rightarrow> None
      | Some (t, g) \<Rightarrow> Some (seek_update real_fp h t (p t) g))"

text \<open>The search ends: it finds a step or the end of the time after finitely many guesses.\<close>

inductive search_ends :: "(real \<Rightarrow> real) \<Rightarrow> real \<Rightarrow> real \<Rightarrow> real seek \<Rightarrow> bool" for p h fin where
  no_more: "seek_eval p h fin g = None \<Longrightarrow> search_ends p h fin g"
| submit: "seek_eval p h fin g = Some (Submit, g') \<Longrightarrow> search_ends p h fin g"
| search: "seek_eval p h fin g = Some (Search c, g') \<Longrightarrow> search_ends p h fin g' \<Longrightarrow> search_ends p h fin g"

text \<open>The direction as a sign, and how far the position at a time is past the target.\<close>

definition sgn_dir :: "'t seek \<Rightarrow> real" where
  "sgn_dir g = (if seek_dir g \<noteq> 0 then 1 else -1)"

definition past :: "(real \<Rightarrow> real) \<Rightarrow> real seek \<Rightarrow> real \<Rightarrow> real" where
  "past p g t = sgn_dir g * (p t - target g)"

text \<open>The tolerance at the boundary between two steps.\<close>

definition slack :: "real \<Rightarrow> real" where "slack L = L * tiny + 10 * tiny"

definition seek_ok :: "(real \<Rightarrow> real) \<Rightarrow> real \<Rightarrow> real \<Rightarrow> real \<Rightarrow> real \<Rightarrow> real seek \<Rightarrow> bool" where
  "seek_ok p h L start fin g \<longleftrightarrow>
     start \<le> last_time g \<and> last_time g \<le> low_time g \<and> low_time g \<le> high_time g \<and> high_time g \<le> fin \<and>
     - (2 * h) - slack L \<le> past p g (last_time g) \<and> past p g (last_time g) \<le> slack L \<and> past p g (low_time g) \<le> slack L \<and>
     (if have_bracket g then past p g (high_time g) > 0 \<and> (g_time g = low_time g \<or> g_time g = high_time g)
      else g_time g = low_time g \<and> - (2 * h) - slack L \<le> past p g (low_time g) \<and>
           \<not> is_dir_change g \<and> \<not> check_oscillate g \<and> (last_time g < high_time g \<or> fin \<le> g_time g))"

text \<open>What holds in addition once a guess was made: it was not close to the target.\<close>

definition guessed :: "(real \<Rightarrow> real) \<Rightarrow> real seek \<Rightarrow> bool" where
  "guessed p g \<longleftrightarrow> g_pos g = p (g_time g) \<and> tiny < \<bar>past p g (g_time g)\<bar> \<and>
     (have_bracket g \<longrightarrow> tiny < high_time g - low_time g) \<and> (\<not> have_bracket g \<longrightarrow> past p g (low_time g) < 0)"

definition lipschitz :: "(real \<Rightarrow> real) \<Rightarrow> real \<Rightarrow> real \<Rightarrow> real \<Rightarrow> bool" where
  "lipschitz p L a b \<longleftrightarrow> (\<forall>t u. a \<le> t \<and> t \<le> b \<and> a \<le> u \<and> u \<le> b \<longrightarrow> \<bar>p t - p u\<bar> \<le> L * \<bar>t - u\<bar>)"

section \<open>One guess\<close>

lemma seek_time_reset_real [simp]: "SEEK_TIME_RESET real_fp = 1 / 10000"
  by (simp add: SEEK_TIME_RESET_def)

lemma clamp_real [simp]: "clamp real_fp fin t = min fin t"
  by (simp add: clamp_def min_def)

definition secant :: "real seek \<Rightarrow> real" where
  "secant g = (og_time g * (g_pos g - target g) - g_time g * (og_pos g - target g)) / ((g_pos g - target g) - (og_pos g - target g))"

lemma next_guess_real:
  "next_guess real_fp fin g =
     (if low_time g < secant g \<and> secant g < high_time g then Some (secant g, g)
      else if have_bracket g then Some ((low_time g + high_time g) / 2, g\<lparr>check_oscillate := False\<rparr>)
      else if fin \<le> g_time g then None
      else Some (high_time g, g\<lparr>high_time := min fin (2 * high_time g - last_time g)\<rparr>))"
  by (simp add: next_guess_def secant_def Let_def)

definition flipped :: "real \<Rightarrow> real seek \<Rightarrow> real seek" where
  "flipped h g = (let dir = (if seek_dir g = 0 then 1 else 0)
     in g\<lparr>seek_dir := dir, target := step_target real_fp h dir (target g), low_time := last_time g,
          high_time := g_time g, is_dir_change := True, have_bracket := True, check_oscillate := False\<rparr>)"

definition passed :: "real seek \<Rightarrow> real seek" where
  "passed g =
     (if have_bracket g \<and> og_time g \<le> low_time g then
        (if check_oscillate g then g\<lparr>og_time := g_time g, og_pos := g_pos g\<rparr> else g)\<lparr>check_oscillate := True\<rparr>
      else g)\<lparr>high_time := g_time g, have_bracket := True\<rparr>"

lemma step_target_real: "step_target real_fp h d x = (if d \<noteq> 0 then x + 2 * h else x - 2 * h)"
  by (simp add: step_target_def)

lemma update_bounds_real:
  "update_bounds real_fp h r g =
     (if 0 < r then passed g else if r < - (2 * h + 10 * tiny) then flipped h g else g\<lparr>low_time := g_time g\<rparr>)"
  by (simp add: update_bounds_def passed_def flipped_def Let_def)

lemma seek_update_real:
  "seek_update real_fp h t pos g =
     (let g1 = move_guess t pos g; r = sgn_dir g * (pos - target g); far = tiny < \<bar>pos - target g\<bar>;
          g2 = (if far then update_bounds real_fp h r g1 else g1)
      in if far \<and> (\<not> have_bracket g2 \<or> tiny < high_time g2 - low_time g2)
         then (Search (\<not> is_dir_change g2 \<and> - h \<le> r), g2) else (Submit, g2))"
  by (auto simp: seek_update_def Let_def move_guess_def sgn_dir_def)

text \<open>The position that corresponds to the steps so far: it is in the middle between the two boundaries.\<close>

definition base :: "real \<Rightarrow> real seek \<Rightarrow> real" where
  "base h g = target g - sgn_dir g * h"

lemma next_guess_some:
  assumes "next_guess real_fp fin g = Some (t, g1)" "seek_ok p h L start fin g"
  shows "\<exists>hi co. g1 = g\<lparr>high_time := hi, check_oscillate := co\<rparr> \<and> low_time g \<le> t \<and> t \<le> high_time g \<and> high_time g \<le> hi \<and> hi \<le> fin \<and>
    (have_bracket g \<longrightarrow> hi = high_time g) \<and> (\<not> have_bracket g \<longrightarrow> \<not> co \<and> last_time g < hi)"
proof -
  have o: "last_time g \<le> low_time g" "low_time g \<le> high_time g" "high_time g \<le> fin"
    "\<not> have_bracket g \<Longrightarrow> g_time g = low_time g \<and> \<not> check_oscillate g \<and> (last_time g < high_time g \<or> fin \<le> g_time g)"
    using assms(2) by (auto simp: seek_ok_def)
  let ?in = "low_time g < secant g \<and> secant g < high_time g"
  note n = assms(1) [unfolded next_guess_real]
  consider (secant) "?in" | (middle) "\<not> ?in" "have_bracket g" | (beyond) "\<not> ?in" "\<not> have_bracket g" by blast
  then show ?thesis
  proof cases
    case secant
    with n have "t = secant g" "g1 = g" by auto
    then show ?thesis using o secant by (intro exI [of _ "high_time g"] exI [of _ "check_oscillate g"]) auto
  next
    case middle
    with n have "t = (low_time g + high_time g) / 2" "g1 = g\<lparr>check_oscillate := False\<rparr>" by auto
    then show ?thesis using o middle by (intro exI [of _ "high_time g"] exI [of _ False]) auto
  next
    case beyond
    with n have b: "g_time g < fin" by (auto simp: if_not_P split: if_splits)
    with n beyond have "t = high_time g" "g1 = g\<lparr>high_time := min fin (2 * high_time g - last_time g)\<rparr>"
      by auto
    then show ?thesis using o beyond b
      by (intro exI [of _ "min fin (2 * high_time g - last_time g)"] exI [of _ "check_oscillate g"]) auto
  qed
qed

lemma slack_pos: "0 \<le> L \<Longrightarrow> 10 * tiny \<le> slack L"
  by (simp add: slack_def less_imp_le [OF tiny_pos])

text \<open>The fields after the three cases of a guess.\<close>

lemma guess_fields [simp]:
  "past p (move_guess t pos g) x = past p g x" "past p (passed g) x = past p g x" "past p (g\<lparr>low_time := lo\<rparr>) x = past p g x"
  "past p (g\<lparr>high_time := hi, check_oscillate := co\<rparr>) x = past p g x" "past p (flipped h g) x = - past p g x - 2 * h"
  "base h (move_guess t pos g) = base h g" "base h (passed g) = base h g" "base h (g\<lparr>low_time := lo\<rparr>) = base h g"
  "base h (g\<lparr>high_time := hi, check_oscillate := co\<rparr>) = base h g" "base h (flipped h g) = base h g"
  by (auto simp: past_def base_def sgn_dir_def move_guess_def passed_def flipped_def step_target_real Let_def algebra_simps)

lemma passed_sel [simp]:
  "last_time (passed g) = last_time g" "low_time (passed g) = low_time g" "high_time (passed g) = g_time g"
  "g_time (passed g) = g_time g" "g_pos (passed g) = g_pos g" "have_bracket (passed g)" "is_dir_change (passed g) = is_dir_change g"
  by (simp_all add: passed_def)

lemma flipped_sel [simp]:
  "last_time (flipped h g) = last_time g" "low_time (flipped h g) = last_time g" "high_time (flipped h g) = g_time g"
  "g_time (flipped h g) = g_time g" "g_pos (flipped h g) = g_pos g" "have_bracket (flipped h g)" "is_dir_change (flipped h g)"
  "\<not> check_oscillate (flipped h g)" "og_time (flipped h g) = og_time g" "og_pos (flipped h g) = og_pos g"
  by (simp_all add: flipped_def Let_def)

lemma move_guess_sel [simp]:
  "last_time (move_guess t pos g) = last_time g" "low_time (move_guess t pos g) = low_time g"
  "high_time (move_guess t pos g) = high_time g" "g_time (move_guess t pos g) = t" "g_pos (move_guess t pos g) = pos"
  "og_time (move_guess t pos g) = g_time g" "og_pos (move_guess t pos g) = g_pos g"
  "have_bracket (move_guess t pos g) = have_bracket g" "is_dir_change (move_guess t pos g) = is_dir_change g"
  "check_oscillate (move_guess t pos g) = check_oscillate g" "sgn_dir (move_guess t pos g) = sgn_dir g"
  "target (move_guess t pos g) = target g"
  by (simp_all add: move_guess_def sgn_dir_def)

definition after_guess :: "(real \<Rightarrow> real) \<Rightarrow> real seek \<Rightarrow> real \<Rightarrow> real \<Rightarrow> bool \<Rightarrow> real seek" where
  "after_guess p g t hi co = move_guess t (p t) (g\<lparr>high_time := hi, check_oscillate := co\<rparr>)"

lemma after_guess_sel [simp]:
  "last_time (after_guess p g t hi co) = last_time g" "low_time (after_guess p g t hi co) = low_time g"
  "high_time (after_guess p g t hi co) = hi" "g_time (after_guess p g t hi co) = t" "g_pos (after_guess p g t hi co) = p t"
  "og_time (after_guess p g t hi co) = g_time g" "og_pos (after_guess p g t hi co) = g_pos g"
  "have_bracket (after_guess p g t hi co) = have_bracket g" "is_dir_change (after_guess p g t hi co) = is_dir_change g"
  "check_oscillate (after_guess p g t hi co) = co" "past q (after_guess p g t hi co) x = past q g x"
  "base h (after_guess p g t hi co) = base h g"
  by (simp_all add: after_guess_def)

lemma abs_past: "\<bar>past p g t\<bar> = \<bar>p t - target g\<bar>"
  by (simp add: past_def sgn_dir_def abs_mult)

text \<open>
  How the guess \<open>t\<close> ends: \<open>hi\<close> and \<open>co\<close> are the changes of \<open>next_guess\<close>, there are four cases for the result.
\<close>

definition guess_end :: "(real \<Rightarrow> real) \<Rightarrow> real \<Rightarrow> real \<Rightarrow> real seek \<Rightarrow> real \<Rightarrow> real \<Rightarrow> bool \<Rightarrow> action \<Rightarrow> real seek \<Rightarrow> bool" where
  "guess_end p h fin g t hi co act g2 \<longleftrightarrow>
     low_time g \<le> t \<and> t \<le> high_time g \<and> high_time g \<le> hi \<and> hi \<le> fin \<and> (have_bracket g \<longrightarrow> hi = high_time g) \<and>
     (\<not> have_bracket g \<longrightarrow> \<not> co \<and> last_time g < hi) \<and>
     (let g1 = after_guess p g t hi co; r = past p g t; far = tiny < \<bar>r\<bar>
      in g2 = (if \<not> far then g1 else if 0 < r then passed g1 else if r < - (2 * h + 10 * tiny) then flipped h g1
               else g1\<lparr>low_time := t\<rparr>) \<and>
         act = (if far \<and> (\<not> have_bracket g2 \<or> tiny < high_time g2 - low_time g2)
                then Search (\<not> is_dir_change g2 \<and> - h \<le> r) else Submit))"

lemma seek_eval_end:
  assumes "seek_eval p h fin g = Some (act, g2)" "seek_ok p h L start fin g"
  shows "\<exists>t hi co. next_guess real_fp fin g = Some (t, g\<lparr>high_time := hi, check_oscillate := co\<rparr>) \<and> guess_end p h fin g t hi co act g2"
proof -
  obtain t g1 where n: "next_guess real_fp fin g = Some (t, g1)" "seek_update real_fp h t (p t) g1 = (act, g2)"
    using assms(1) by (auto simp: seek_eval_def split: option.splits)
  obtain hi co where s: "g1 = g\<lparr>high_time := hi, check_oscillate := co\<rparr>" "low_time g \<le> t" "t \<le> high_time g" "high_time g \<le> hi" "hi \<le> fin"
    "have_bracket g \<longrightarrow> hi = high_time g" "\<not> have_bracket g \<longrightarrow> \<not> co \<and> last_time g < hi"
    using next_guess_some [OF n(1) assms(2)] by blast
  have r: "sgn_dir g1 * (p t - target g1) = past p g t" "\<bar>p t - target g1\<bar> = \<bar>past p g t\<bar>"
    by (simp_all add: s(1) abs_past) (simp add: past_def sgn_dir_def)
  have "seek_update real_fp h t (p t) g1 = (act, g2)" by (rule n(2))
  with r have "guess_end p h fin g t hi co act g2"
    unfolding guess_end_def after_guess_def seek_update_real Let_def s(1) [symmetric] update_bounds_real
    using s(2-7) by (auto split: if_splits)
  with n(1) s(1) show ?thesis by blast
qed

lemma seek_eval_keeps:
  assumes "seek_eval p h fin g = Some (act, g2)" "seek_ok p h L start fin g"
  shows "base h g2 = base h g" "last_time g2 = last_time g" "g_pos g2 = p (g_time g2)" "last_time g \<le> g_time g2" "g_time g2 \<le> fin"
proof -
  have l: "last_time g \<le> low_time g" "high_time g \<le> fin" using assms(2) by (auto simp: seek_ok_def)
  obtain t hi co where e: "guess_end p h fin g t hi co act g2" using seek_eval_end [OF assms] by blast
  show "base h g2 = base h g" "last_time g2 = last_time g" "g_pos g2 = p (g_time g2)" "last_time g \<le> g_time g2" "g_time g2 \<le> fin"
    using e l by (simp_all add: guess_end_def Let_def split: if_splits)
qed

lemma lipschitzD: "lipschitz p L a b \<Longrightarrow> a \<le> t \<Longrightarrow> t \<le> u \<Longrightarrow> u \<le> b \<Longrightarrow> \<bar>p u - p t\<bar> \<le> L * (u - t)"
  unfolding lipschitz_def by (metis abs_of_nonneg diff_ge_0_iff_ge order_trans)

lemma past_lipschitz:
  assumes "lipschitz p L a b" "a \<le> t" "t \<le> u" "u \<le> b"
  shows "\<bar>past p g u - past p g t\<bar> \<le> L * (u - t)"
proof -
  have "past p g u - past p g t = sgn_dir g * (p u - p t)" by (simp add: past_def algebra_simps)
  then show ?thesis using lipschitzD [OF assms] by (simp add: sgn_dir_def abs_mult)
qed

lemma seek_eval_search:
  assumes "seek_eval p h fin g = Some (Search c, g2)" "seek_ok p h L start fin g" "0 \<le> L" "0 < h"
  shows "seek_ok p h L start fin g2" "guessed p g2"
proof -
  have l: "start \<le> last_time g" "last_time g \<le> low_time g" "high_time g \<le> fin" "low_time g \<le> high_time g"
    "- (2 * h) - slack L \<le> past p g (last_time g)" "past p g (last_time g) \<le> slack L" "past p g (low_time g) \<le> slack L"
    "have_bracket g \<Longrightarrow> past p g (high_time g) > 0"
    "\<not> have_bracket g \<Longrightarrow> \<not> is_dir_change g"
    using assms(2) by (auto simp: seek_ok_def)
  obtain t hi co where e: "guess_end p h fin g t hi co (Search c) g2" using seek_eval_end [OF assms(1,2)] by blast
  then have c: "low_time g \<le> t" "t \<le> high_time g" "high_time g \<le> hi" "hi \<le> fin"
    "have_bracket g \<longrightarrow> hi = high_time g" "\<not> have_bracket g \<longrightarrow> \<not> co \<and> last_time g < hi" by (simp_all add: guess_end_def)
  let ?g1 = "after_guess p g t hi co" and ?r = "past p g t"
  have far: "tiny < \<bar>?r\<bar>" "\<not> have_bracket g2 \<or> tiny < high_time g2 - low_time g2"
    using e by (simp_all add: guess_end_def Let_def split: if_splits)
  have s: "10 * tiny \<le> slack L" "0 < tiny" using slack_pos [OF assms(3)] tiny_pos by simp_all
  consider (passed) "0 < ?r" "g2 = passed ?g1" | (flipped) "?r < - (2 * h + 10 * tiny)" "g2 = flipped h ?g1"
    | (low) "?r \<le> 0" "- (2 * h + 10 * tiny) \<le> ?r" "g2 = ?g1\<lparr>low_time := t\<rparr>"
    using e far(1) by (auto simp: guess_end_def Let_def not_less split: if_splits)
  then have "seek_ok p h L start fin g2 \<and> guessed p g2"
  proof cases
    case passed
    then show ?thesis using l c s far by (auto simp: seek_ok_def guessed_def)
  next
    case flipped
    then show ?thesis using l c s far assms(4) by (auto simp: seek_ok_def guessed_def)
  next
    case low
    then show ?thesis using l c s far by (auto simp: seek_ok_def guessed_def)
  qed
  then show "seek_ok p h L start fin g2" "guessed p g2" by auto
qed

lemma seek_eval_submit:
  assumes "seek_eval p h fin g = Some (Submit, g2)" "seek_ok p h L start fin g" "0 \<le> L" "0 < h" "lipschitz p L start fin"
  shows "- slack L \<le> past p g2 (g_time g2)" "past p g2 (g_time g2) \<le> slack L + L * tiny"
proof -
  have l: "start \<le> last_time g" "last_time g \<le> low_time g" "high_time g \<le> fin" "low_time g \<le> high_time g"
    "- (2 * h) - slack L \<le> past p g (last_time g)" "past p g (last_time g) \<le> slack L" "past p g (low_time g) \<le> slack L"
    "have_bracket g \<Longrightarrow> past p g (high_time g) > 0"
    using assms(2) by (auto simp: seek_ok_def)
  obtain t hi co where e: "guess_end p h fin g t hi co (Submit) g2" using seek_eval_end [OF assms(1,2)] by blast
  then have c: "low_time g \<le> t" "t \<le> high_time g" "high_time g \<le> hi" "hi \<le> fin"
    "have_bracket g \<longrightarrow> hi = high_time g" "\<not> have_bracket g \<longrightarrow> \<not> co \<and> last_time g < hi" by (simp_all add: guess_end_def)
  let ?g1 = "after_guess p g t hi co" and ?r = "past p g t"
  have s: "10 * tiny \<le> slack L" "0 < tiny" "L * tiny \<le> slack L" "0 \<le> L * tiny" using slack_pos [OF assms(3)] assms(3) tiny_pos by (simp_all add: slack_def less_imp_le)
  have near: "\<bar>past p g u - past p g v\<bar> \<le> L * tiny" if "start \<le> v" "v \<le> u" "u \<le> fin" "u - v \<le> tiny" for u v
  proof -
    have "L * (u - v) \<le> L * tiny" by (rule mult_left_mono [OF that(4) assms(3)])
    with past_lipschitz [OF assms(5) that(1-3), of g] show ?thesis by linarith
  qed
  consider (close) "\<bar>?r\<bar> \<le> tiny" "g2 = ?g1" | (passed) "0 < ?r" "g2 = passed ?g1" "t - low_time g \<le> tiny"
    | (flipped) "?r < - (2 * h + 10 * tiny)" "g2 = flipped h ?g1" "t - last_time g \<le> tiny"
    | (low) "?r \<le> 0" "g2 = ?g1\<lparr>low_time := t\<rparr>" "have_bracket g" "high_time g - t \<le> tiny"
    using e c(5) by (auto simp: guess_end_def Let_def not_less split: if_splits)
  then have "- slack L \<le> past p g2 (g_time g2) \<and> past p g2 (g_time g2) \<le> slack L + L * tiny"
  proof cases
    case close
    then show ?thesis using s by auto
  next
    case passed
    then show ?thesis using near [of "low_time g" t] l c s by simp
  next
    case flipped
    then show ?thesis using near [of "last_time g" t] l c s by simp
  next
    case low
    then show ?thesis using near [of t "high_time g"] l c s by simp
  qed
  then show "- slack L \<le> past p g2 (g_time g2)" "past p g2 (g_time g2) \<le> slack L + L * tiny" by auto
qed

text \<open>The search for the next step starts well, as long as a step is long enough to be seen.\<close>

lemma next_search_ok:
  assumes "- slack L \<le> past p g (g_time g)" "past p g (g_time g) \<le> slack L + L * tiny" "0 \<le> L" "slack L \<le> h"
    "start \<le> last_time g" "last_time g \<le> g_time g" "g_time g \<le> fin"
  shows "seek_ok p h L start fin (next_search real_fp h fin g)"
    "past p (next_search real_fp h fin g) (g_time g) < - tiny"
    "base h (next_search real_fp h fin g) = base h g + sgn_dir g * (2 * h)"
    "last_time (next_search real_fp h fin g) = g_time g" "g_time (next_search real_fp h fin g) = g_time g"
    "g_pos (next_search real_fp h fin g) = g_pos g" "\<not> have_bracket (next_search real_fp h fin g)"
proof -
  let ?g = "next_search real_fp h fin g"
  have s: "0 < tiny" "slack L = L * tiny + 10 * tiny" "0 \<le> L * tiny" using assms(3) tiny_pos by (simp_all add: slack_def less_imp_le)
  let ?a = "3 / 2 * (g_time g - last_time g)"
  let ?b = "if ?a < tiny then tiny else ?a"
  let ?d = "if is_dir_change g \<and> 1 / 10000 < ?b then 1 / 10000 else ?b"
  have "high_time ?g = min fin (g_time g + ?d)" by (simp add: next_search_def Let_def)
  moreover have "0 < ?d" using s(1) by auto
  ultimately have d: "\<exists>d > 0. high_time ?g = min fin (g_time g + d)" by blast
  have p: "past p ?g x = past p g x - 2 * h" for x
    by (auto simp: next_search_def Let_def past_def sgn_dir_def step_target_real algebra_simps)
  show sel: "last_time ?g = g_time g" "g_time ?g = g_time g" "g_pos ?g = g_pos g" "\<not> have_bracket ?g"
    by (simp_all add: next_search_def Let_def)
  have sel': "low_time ?g = g_time g" "\<not> is_dir_change ?g" "\<not> check_oscillate ?g"
    by (simp_all add: next_search_def Let_def)
  show "base h ?g = base h g + sgn_dir g * (2 * h)"
    by (auto simp: next_search_def Let_def base_def sgn_dir_def step_target_real)
  show "past p ?g (g_time g) < - tiny" using assms(2,4) s by (simp add: p)
  show "seek_ok p h L start fin ?g"
    unfolding seek_ok_def using assms s d sel sel' p [of "g_time g"] by auto
qed

section \<open>The search ends\<close>

text \<open>Both guesses that the secant goes through are on the position function.\<close>

definition regular :: "(real \<Rightarrow> real) \<Rightarrow> real \<Rightarrow> real \<Rightarrow> real seek \<Rightarrow> bool" where
  "regular p start fin g \<longleftrightarrow> g_pos g = p (g_time g) \<and> og_pos g = p (og_time g) \<and> start \<le> og_time g \<and> og_time g \<le> fin \<and>
     start \<le> g_time g \<and> g_time g \<le> fin"

lemma ok_times: "seek_ok p h L start fin g \<Longrightarrow> start \<le> last_time g \<and> last_time g \<le> low_time g \<and> low_time g \<le> high_time g \<and> high_time g \<le> fin"
  by (simp add: seek_ok_def)

lemma ok_guess_time: "seek_ok p h L start fin g \<Longrightarrow> start \<le> g_time g \<and> g_time g \<le> fin"
  by (auto simp: seek_ok_def split: if_splits)

lemma seek_eval_regular:
  assumes "seek_eval p h fin g = Some (act, g2)" "seek_ok p h L start fin g" "g_pos g = p (g_time g)"
  shows "regular p start fin g2"
proof -
  obtain t hi co where e: "guess_end p h fin g t hi co act g2" using seek_eval_end [OF assms(1,2)] by blast
  have t: "start \<le> t" "t \<le> fin" using e ok_times [OF assms(2)] by (auto simp: guess_end_def)
  show ?thesis using e t ok_guess_time [OF assms(2)] assms(3)
    by (auto simp: guess_end_def Let_def regular_def passed_def split: if_splits)
qed

text \<open>The secant stays away from the last guess, because that was away from the target.\<close>

lemma secant_moves:
  assumes "lipschitz p L start fin" "0 < L" "regular p start fin g" "tiny < \<bar>past p g (g_time g)\<bar>" "secant g \<noteq> 0"
  shows "tiny / L \<le> \<bar>secant g - g_time g\<bar>" "og_time g \<noteq> g_time g"
proof -
  let ?gd = "g_pos g - target g" and ?od = "og_pos g - target g"
  have gd: "tiny < \<bar>?gd\<bar>" using assms(3,4) by (simp add: abs_past regular_def)
  have den: "?gd - ?od \<noteq> 0" using assms(5) by (auto simp: secant_def)
  have lip: "\<bar>?gd - ?od\<bar> \<le> L * \<bar>og_time g - g_time g\<bar>"
    using assms(1,3) by (auto simp: lipschitz_def regular_def abs_minus_commute)
  have "secant g * (?gd - ?od) = og_time g * ?gd - g_time g * ?od" using den by (simp add: secant_def)
  then have "(secant g - g_time g) * (?gd - ?od) = (og_time g - g_time g) * ?gd" by (simp add: algebra_simps)
  then have "\<bar>secant g - g_time g\<bar> * \<bar>?gd - ?od\<bar> = \<bar>og_time g - g_time g\<bar> * \<bar>?gd\<bar>" by (metis abs_mult)
  moreover have "\<bar>secant g - g_time g\<bar> * \<bar>?gd - ?od\<bar> \<le> \<bar>secant g - g_time g\<bar> * (L * \<bar>og_time g - g_time g\<bar>)"
    by (rule mult_left_mono [OF lip]) simp
  moreover have o: "0 < \<bar>og_time g - g_time g\<bar>" using lip den by (auto simp: zero_less_mult_iff)
  ultimately have "\<bar>?gd\<bar> \<le> \<bar>secant g - g_time g\<bar> * L"
    by (metis mult.commute mult.left_commute mult_le_cancel_left_pos)
  then show "tiny / L \<le> \<bar>secant g - g_time g\<bar>" using gd assms(2) by (simp add: divide_le_eq)
  show "og_time g \<noteq> g_time g" using o by auto
qed

text \<open>How far the search is in a bracket, when its ends did not come closer.\<close>

definition phase :: "real seek \<Rightarrow> nat" where
  "phase g =
     (if og_time g = g_time g \<and> og_pos g = g_pos g then 0
      else if g_time g = low_time g then (if check_oscillate g then 1 else 3)
      else (if check_oscillate g then 2 else 4))"

lemma phase_bound: "phase g \<le> 4"
  by (simp add: phase_def)

lemma bracket_round:
  assumes e: "seek_eval p h fin g = Some (Search c, g2)" and ok: "seek_ok p h L start fin g" and "guessed p g"
    and "regular p start fin g" "have_bracket g" and lip: "lipschitz p L start fin" and L: "0 < L" and "0 < h" "0 \<le> start"
  shows "have_bracket g2" "last_time g2 = last_time g" "high_time g2 \<le> high_time g"
    "high_time g2 \<le> high_time g - 2 * h / L \<or>
     high_time g2 - low_time g2 \<le> high_time g - low_time g - min (tiny / L) (tiny / 2) \<or>
     high_time g2 - low_time g2 \<le> high_time g - low_time g \<and> phase g2 < phase g"
proof -
  let ?d = "min (tiny / L) (tiny / 2)"
  obtain t hi co where n: "next_guess real_fp fin g = Some (t, g\<lparr>high_time := hi, check_oscillate := co\<rparr>)"
    and e': "guess_end p h fin g t hi co (Search c) g2" using seek_eval_end [OF e ok] by blast
  have o: "low_time g < high_time g" "tiny < high_time g - low_time g" "tiny < \<bar>past p g (g_time g)\<bar>" "0 < past p g (high_time g)"
    "g_time g = low_time g \<or> g_time g = high_time g" "start \<le> low_time g" "high_time g \<le> fin" "last_time g \<le> low_time g"
    using assms(3,5) ok tiny_pos by (auto simp: guessed_def seek_ok_def)
  have t: "low_time g \<le> t" "t \<le> high_time g" "hi = high_time g" using e' assms(5) by (auto simp: guess_end_def)
  have far: "tiny < \<bar>past p g t\<bar>" using e' by (auto simp: guess_end_def Let_def split: if_splits)
  let ?g1 = "after_guess p g t hi co"
  consider (passed) "0 < past p g t" "g2 = passed ?g1" | (flipped) "past p g t < - (2 * h + 10 * tiny)" "g2 = flipped h ?g1"
    | (low) "past p g t \<le> 0" "g2 = ?g1\<lparr>low_time := t\<rparr>"
    using e' far by (auto simp: guess_end_def Let_def not_less split: if_splits)
  note ends = this
  show "have_bracket g2" "last_time g2 = last_time g" "high_time g2 \<le> high_time g" using ends t assms(5) by (cases; simp)+
  have flip: "t \<le> high_time g - 2 * h / L" if "past p g t < - (2 * h + 10 * tiny)"
  proof -
    have "\<bar>past p g (high_time g) - past p g t\<bar> \<le> L * (high_time g - t)"
      by (rule past_lipschitz [OF lip]) (use t o ok_times [OF ok] in auto)
    then have "2 * h \<le> L * (high_time g - t)" using that o(4) tiny_pos by linarith
    then have "2 * h / L \<le> high_time g - t" using L by (simp add: divide_le_eq mult.commute)
    then show ?thesis by simp
  qed
  consider (secant) "t = secant g" "co = check_oscillate g" "low_time g < t" "t < high_time g"
    | (middle) "t = (low_time g + high_time g) / 2" "co = False"
  proof (cases "low_time g < secant g \<and> secant g < high_time g")
    case True
    then have "g = g\<lparr>high_time := hi, check_oscillate := co\<rparr>" "t = secant g" using n by (auto simp: next_guess_real)
    then have "check_oscillate g = co" by (metis seek.select_convs(12) seek.surjective seek.update_convs(12))
    then show ?thesis using True \<open>t = secant g\<close> that(1) by auto
  next
    case False
    then have "g\<lparr>check_oscillate := False\<rparr> = g\<lparr>high_time := hi, check_oscillate := co\<rparr>" "t = (low_time g + high_time g) / 2"
      using n assms(5) by (auto simp: next_guess_real)
    then have "co = False" by (metis seek.select_convs(12) seek.surjective seek.update_convs(12))
    then show ?thesis using that(2) \<open>t = (low_time g + high_time g) / 2\<close> by blast
  qed
  then show "high_time g2 \<le> high_time g - 2 * h / L \<or>
     high_time g2 - low_time g2 \<le> high_time g - low_time g - ?d \<or>
     high_time g2 - low_time g2 \<le> high_time g - low_time g \<and> phase g2 < phase g"
  proof cases
    case middle
    have d: "?d \<le> high_time g - t" "?d \<le> t - low_time g" using o(2) by (auto simp: middle min_def field_simps)
    show ?thesis using ends
    proof cases
      case passed
      then show ?thesis using d t by simp
    next
      case flipped
      then show ?thesis using flip by simp
    next
      case low
      then show ?thesis using d t by simp
    qed
  next
    case secant
    have "secant g \<noteq> 0" using secant o assms(9) by auto
    note m = secant_moves [OF lip L assms(4) o(3) this]
    have d: "?d \<le> \<bar>t - g_time g\<bar>" using m secant by (simp add: min_le_iff_disj)
    show ?thesis using ends
    proof cases
      case passed
      then show ?thesis using d t o(5) m(2) secant assms(5) by (auto simp: phase_def passed_def after_guess_def move_guess_def)
    next
      case flipped
      then show ?thesis using flip by simp
    next
      case low
      then show ?thesis using d t o(5) m(2) secant by (auto simp: phase_def after_guess_def move_guess_def)
    qed
  qed
qed

end
