(* ===== verification/Itersolve_Ends.thy ===== *)
theory Itersolve_Ends
  imports Itersolve_Search
begin

text \<open>
  The search for a step ends: in a bracket, because it becomes shorter by a fixed amount every few guesses, and before
  there is one, because the guesses go forward and the limit doubles.
\<close>

section \<open>In a bracket\<close>

lemma bracket_ends:
  assumes "lipschitz p L start fin" "0 < L" "0 < h" "0 \<le> start"
  shows "seek_ok p h L start fin g \<Longrightarrow> guessed p g \<Longrightarrow> regular p start fin g \<Longrightarrow> have_bracket g \<Longrightarrow>
    high_time g - last_time g \<le> real q * (2 * h / L) \<Longrightarrow>
    high_time g - low_time g \<le> real m * min (tiny / L) (tiny / 2) \<Longrightarrow> search_ends p h fin g"
proof (induction q arbitrary: g m)
  case 0
  then show ?case using ok_times [OF 0(1)] tiny_pos by (auto simp: guessed_def)
next
  case (Suc q)
  let ?d = "min (tiny / L) (tiny / 2)"
  have d: "0 < ?d" using tiny_pos assms(2) by simp
  have "\<forall>g m. 5 * m + phase g = N \<longrightarrow> seek_ok p h L start fin g \<longrightarrow> guessed p g \<longrightarrow> regular p start fin g \<longrightarrow> have_bracket g \<longrightarrow>
      high_time g - last_time g \<le> real (Suc q) * (2 * h / L) \<longrightarrow> high_time g - low_time g \<le> real m * ?d \<longrightarrow> search_ends p h fin g" for N
  proof (induction N rule: less_induct)
    case (less N)
    show ?case
    proof (intro allI impI)
      fix g m
      assume N: "5 * m + phase g = N" and a: "seek_ok p h L start fin g" "guessed p g" "regular p start fin g" "have_bracket g"
        "high_time g - last_time g \<le> real (Suc q) * (2 * h / L)" "high_time g - low_time g \<le> real m * ?d"
      show "search_ends p h fin g"
      proof (cases "seek_eval p h fin g")
        case None
        then show ?thesis by (rule search_ends.no_more)
      next
        case (Some r)
        obtain act g2 where r: "r = (act, g2)" by (cases r)
        show ?thesis
        proof (cases act)
          case Submit
          then show ?thesis using Some r by (auto intro: search_ends.submit)
        next
          case (Search c)
          have e: "seek_eval p h fin g = Some (Search c, g2)" using Some r Search by simp
          note k = seek_eval_search [OF e a(1) less_imp_le [OF assms(2)] assms(3)] and
            b = bracket_round [OF e a(1-4) assms] and
            l = seek_eval_regular [OF e a(1)]
          have reg: "regular p start fin g2" using l a(2) by (simp add: guessed_def)
          have w: "tiny < high_time g - low_time g" "tiny < high_time g2 - low_time g2"
            using a(2,4) k(2) b(1) by (auto simp: guessed_def)
          have q: "high_time g2 - last_time g2 \<le> real (Suc q) * (2 * h / L)" using a(5) b(2,3) by simp
          have "search_ends p h fin g2" using b(4)
          proof (elim disjE conjE)
            assume f: "high_time g2 \<le> high_time g - 2 * h / L"
            have "high_time g2 - last_time g2 \<le> real q * (2 * h / L)" using f a(5) b(2)
              unfolding of_nat_Suc distrib_right mult_1 by linarith
            moreover have "high_time g2 - low_time g2 \<le> real (nat \<lceil>(high_time g2 - low_time g2) / ?d\<rceil>) * ?d"
            proof -
              have "(high_time g2 - low_time g2) / ?d \<le> real (nat \<lceil>(high_time g2 - low_time g2) / ?d\<rceil>)" by linarith
              then show ?thesis using d by (simp add: divide_le_eq)
            qed
            ultimately show ?thesis by (rule Suc.IH [OF k reg b(1)])
          next
            assume f: "high_time g2 - low_time g2 \<le> high_time g - low_time g - ?d"
            have "m \<noteq> 0" using a(6) w tiny_pos by (cases m) auto
            then obtain j where j: "m = Suc j" by (cases m) auto
            have "high_time g2 - low_time g2 \<le> real j * ?d" using f a(6) by (simp add: j algebra_simps)
            moreover have "5 * j + phase g2 < N" using N j phase_bound [of g2] by simp
            ultimately show ?thesis using less.IH k reg b(1) q by blast
          next
            assume f: "high_time g2 - low_time g2 \<le> high_time g - low_time g" "phase g2 < phase g"
            have "high_time g2 - low_time g2 \<le> real m * ?d" using f a(6) by simp
            moreover have "5 * m + phase g2 < N" using N f(2) by simp
            ultimately show ?thesis using less.IH k reg b(1) q by blast
          qed
          then show ?thesis by (rule search_ends.search [OF e])
        qed
      qed
    qed
  qed
  then show ?case using Suc.prems by blast
qed

lemma enough: "0 < d \<Longrightarrow> \<exists>n. x \<le> real n * d"
proof -
  assume d: "0 < d"
  obtain n where "x / d \<le> real n" using real_arch_simple by blast
  then show ?thesis using d by (auto simp: divide_le_eq)
qed

lemma bracket_search_ends:
  assumes "lipschitz p L start fin" "0 < L" "0 < h" "0 \<le> start"
    "seek_ok p h L start fin g" "guessed p g" "regular p start fin g" "have_bracket g"
  shows "search_ends p h fin g"
proof -
  obtain q where "high_time g - last_time g \<le> real q * (2 * h / L)" using enough [of "2 * h / L"] assms(2,3) by auto
  moreover obtain m where "high_time g - low_time g \<le> real m * min (tiny / L) (tiny / 2)"
    using enough [of "min (tiny / L) (tiny / 2)"] assms(2) tiny_pos by auto
  ultimately show ?thesis by (rule bracket_ends [OF assms])
qed

section \<open>Without a bracket\<close>

lemma open_round:
  assumes e: "seek_eval p h fin g = Some (Search c, g2)" and ok: "seek_ok p h L start fin g" and "guessed p g"
    and "regular p start fin g" "\<not> have_bracket g" "\<not> have_bracket g2" and lip: "lipschitz p L start fin" and L: "0 < L" and "0 \<le> start"
  shows "last_time g2 = last_time g" "low_time g < fin"
    "low_time g + tiny / L \<le> low_time g2 \<and> high_time g2 = high_time g \<or>
     low_time g \<le> low_time g2 \<and> high_time g2 = min fin (2 * high_time g - last_time g) \<and> (high_time g = fin \<longrightarrow> low_time g2 = fin)"
proof -
  obtain t hi co where n: "next_guess real_fp fin g = Some (t, g\<lparr>high_time := hi, check_oscillate := co\<rparr>)"
    and e': "guess_end p h fin g t hi co (Search c) g2" using seek_eval_end [OF e ok] by blast
  have o: "g_time g = low_time g" "start \<le> low_time g" "high_time g \<le> fin" "tiny < \<bar>past p g (g_time g)\<bar>"
    using ok assms(3,5) by (auto simp: seek_ok_def guessed_def)
  have g2: "g2 = (after_guess p g t hi co)\<lparr>low_time := t\<rparr>"
    using e' assms(6) by (auto simp: guess_end_def Let_def split: if_splits)
  then show "last_time g2 = last_time g" by simp
  have s: "low_time g2 = t" "high_time g2 = hi" using g2 by simp_all
  have sel: "hi = high_time g'" if "g\<lparr>high_time := hi, check_oscillate := co\<rparr> = g'" for g' using that by auto
  show "low_time g < fin" using n assms(5) o by (auto simp: next_guess_real split: if_splits)
  show "low_time g + tiny / L \<le> low_time g2 \<and> high_time g2 = high_time g \<or>
     low_time g \<le> low_time g2 \<and> high_time g2 = min fin (2 * high_time g - last_time g) \<and> (high_time g = fin \<longrightarrow> low_time g2 = fin)"
  proof (cases "low_time g < secant g \<and> secant g < high_time g")
    case True
    then have t: "t = secant g" "g\<lparr>high_time := hi, check_oscillate := co\<rparr> = g" using n by (auto simp: next_guess_real)
    have "secant g \<noteq> 0" using True o assms(9) by auto
    then have "tiny / L \<le> \<bar>secant g - g_time g\<bar>" by (rule secant_moves(1) [OF lip L assms(4) o(4)])
    then show ?thesis using True t(1) sel [OF t(2)] o(1) s by auto
  next
    case False
    then have t: "t = high_time g" "g\<lparr>high_time := hi, check_oscillate := co\<rparr> = g\<lparr>high_time := min fin (2 * high_time g - last_time g)\<rparr>"
      using n assms(5) by (auto simp: next_guess_real split: if_splits)
    then show ?thesis using s sel [OF t(2)] ok_times [OF ok] by simp
  qed
qed

lemma open_ends:
  assumes "lipschitz p L start fin" "0 < L" "0 < h" "0 \<le> start"
  shows "seek_ok p h L start fin g \<Longrightarrow> guessed p g \<Longrightarrow> regular p start fin g \<Longrightarrow> n + m = N \<Longrightarrow>
    fin - last_time g \<le> 2 ^ n * (high_time g - last_time g) \<Longrightarrow> fin - low_time g \<le> real m * (tiny / L) \<Longrightarrow> search_ends p h fin g"
proof (induction N arbitrary: g n m rule: less_induct)
  case (less N)
  show ?case
  proof (cases "have_bracket g")
    case True
    then show ?thesis using bracket_search_ends [OF assms less.prems(1-3)] by simp
  next
    case nb: False
    show ?thesis
    proof (cases "seek_eval p h fin g")
      case None
      then show ?thesis by (rule search_ends.no_more)
    next
      case (Some r)
      obtain act g2 where r: "r = (act, g2)" by (cases r)
      show ?thesis
      proof (cases act)
        case Submit
        then show ?thesis using Some r by (auto intro: search_ends.submit)
      next
        case (Search c)
        have e: "seek_eval p h fin g = Some (Search c, g2)" using Some r Search by simp
        note k = seek_eval_search [OF e less.prems(1) less_imp_le [OF assms(2)] assms(3)]
        have reg: "regular p start fin g2"
          using seek_eval_regular [OF e less.prems(1)] less.prems(2) by (simp add: guessed_def)
        have "search_ends p h fin g2"
        proof (cases "have_bracket g2")
          case True
          then show ?thesis using bracket_search_ends [OF assms k reg] by simp
        next
          case False
          note o = open_round [OF e less.prems(1-3) nb False assms(1,2,4)]
          have t: "last_time g \<le> low_time g" "high_time g \<le> fin" "low_time g \<le> high_time g"
            using ok_times [OF less.prems(1)] by auto
          from o(3) show ?thesis
          proof (elim disjE conjE)
            assume f: "low_time g + tiny / L \<le> low_time g2" "high_time g2 = high_time g"
            have "m \<noteq> 0" using less.prems(6) o(2) by (cases m) auto
            then obtain j where j: "m = Suc j" by (cases m) auto
            have "fin - low_time g2 \<le> real j * (tiny / L)" using less.prems(6) f(1) by (simp add: j algebra_simps)
            moreover have "fin - last_time g2 \<le> 2 ^ n * (high_time g2 - last_time g2)" using less.prems(5) f(2) o(1) by simp
            moreover have "n + j < N" using less.prems(4) j by simp
            ultimately show ?thesis using less.IH k reg by blast
          next
            assume f: "low_time g \<le> low_time g2" "high_time g2 = min fin (2 * high_time g - last_time g)"
              "high_time g = fin \<longrightarrow> low_time g2 = fin"
            show ?thesis
            proof (cases "high_time g = fin")
              case True
              have "m \<noteq> 0" using less.prems(6) o(2) by (cases m) auto
              then obtain j where j: "m = Suc j" by (cases m) auto
              have "fin - low_time g2 \<le> real j * (tiny / L)" using f(3) True tiny_pos assms(2) by simp
              moreover have "high_time g \<le> high_time g2" using f(2) True t by simp
              then have "2 ^ n * (high_time g - last_time g) \<le> 2 ^ n * (high_time g2 - last_time g2)" using o(1) by simp
              then have "fin - last_time g2 \<le> 2 ^ n * (high_time g2 - last_time g2)" using less.prems(5) o(1) by linarith
              moreover have "n + j < N" using less.prems(4) j by simp
              ultimately show ?thesis using less.IH k reg by blast
            next
              case False
              then have "n \<noteq> 0" using less.prems(5) t by (cases n) auto
              then obtain j where j: "n = Suc j" by (cases n) auto
              have "fin - last_time g2 \<le> 2 ^ j * (high_time g2 - last_time g2)"
              proof (cases "fin \<le> 2 * high_time g - last_time g")
                case True
                have "(1 :: real) * (fin - last_time g) \<le> 2 ^ j * (fin - last_time g)" by (rule mult_right_mono) (use t in auto)
                then show ?thesis using True f(2) o(1) by simp
              next
                case False
                then have "high_time g2 - last_time g2 = 2 * (high_time g - last_time g)" using f(2) o(1) by simp
                then show ?thesis using less.prems(5) o(1) by (simp only: j power_Suc mult.assoc mult.left_commute)
              qed
              moreover have "fin - low_time g2 \<le> real m * (tiny / L)" using less.prems(6) f(1) by simp
              moreover have "j + m < N" using less.prems(4) j by simp
              ultimately show ?thesis using less.IH k reg by blast
            qed
          qed
        qed
        then show ?thesis by (rule search_ends.search [OF e])
      qed
    qed
  qed
qed

lemma regular_search_ends:
  assumes "lipschitz p L start fin" "0 < L" "0 < h" "0 \<le> start"
    "seek_ok p h L start fin g" "guessed p g" "regular p start fin g"
  shows "search_ends p h fin g"
proof (cases "have_bracket g")
  case True
  then show ?thesis using bracket_search_ends [OF assms] by simp
next
  case False
  show ?thesis
  proof (cases "fin \<le> g_time g")
    case True
    then have "next_guess real_fp fin g = None" using False assms(5) by (auto simp: next_guess_real seek_ok_def)
    then show ?thesis by (intro search_ends.no_more) (simp add: seek_eval_def)
  next
    case le: False
    then have l: "0 < high_time g - last_time g" using False assms(5) by (auto simp: seek_ok_def)
    obtain n where "(fin - last_time g) / (high_time g - last_time g) < 2 ^ n"
      using real_arch_pow [of "2 :: real"] by auto
    then have "fin - last_time g \<le> 2 ^ n * (high_time g - last_time g)" using l by (simp add: divide_less_eq less_imp_le)
    moreover obtain m where "fin - low_time g \<le> real m * (tiny / L)" using enough [of "tiny / L"] assms(2) tiny_pos by auto
    ultimately show ?thesis by (rule open_ends [OF assms refl])
  qed
qed

text \<open>The first two guesses make the secant regular.\<close>

lemma seek_step_search:
  assumes "\<And>c g2. seek_eval p h fin g = Some (Search c, g2) \<Longrightarrow> search_ends p h fin g2"
  shows "search_ends p h fin g"
proof (cases "seek_eval p h fin g")
  case None
  then show ?thesis by (rule search_ends.no_more)
next
  case (Some r)
  obtain act g2 where "r = (act, g2)" by (cases r)
  then show ?thesis using Some assms by (cases act) (auto intro: search_ends.submit search_ends.search)
qed

lemma every_search_ends:
  assumes "lipschitz p L start fin" "0 < L" "0 < h" "0 \<le> start" "seek_ok p h L start fin g"
  shows "search_ends p h fin g"
proof (rule seek_step_search)
  fix c g2
  assume 1: "seek_eval p h fin g = Some (Search c, g2)"
  note k = seek_eval_search [OF 1 assms(5) less_imp_le [OF assms(2)] assms(3)]
  show "search_ends p h fin g2"
  proof (rule seek_step_search)
    fix c' g3
    assume 2: "seek_eval p h fin g2 = Some (Search c', g3)"
    note k' = seek_eval_search [OF 2 k(1) less_imp_le [OF assms(2)] assms(3)]
    have "regular p start fin g3" using seek_eval_regular [OF 2 k(1)] k(2) by (simp add: guessed_def)
    then show "search_ends p h fin g3" by (rule regular_search_ends [OF assms(1-4) k'])
  qed
qed

end
