(* ===== verification/Itersolve_Props.thy ===== *)
theory Itersolve_Props
  imports Itersolve_Ends
begin

text \<open>
  The iterative solver follows the position of a stepper: what it hands to the step compression for the time of one
  move, over exact real numbers.
\<close>

section \<open>The loop\<close>

text \<open>
  The position callback of stepper \<open>k\<close> for the move \<open>i\<close> is the function \<open>p\<close> of the time from \<open>start\<close> to \<open>fin\<close>. It may
  change the steppers within \<open>J\<close>, as the wrapping kinematics do. The steps go to the step compression object \<open>c\<close>.
\<close>

definition position_source ::
    "nat \<Rightarrow> real move list \<Rightarrow> nat \<Rightarrow> (real stepper_kinematics list \<Rightarrow> bool) \<Rightarrow> (real \<Rightarrow> real) \<Rightarrow> nat \<Rightarrow> real \<Rightarrow> real \<Rightarrow> bool" where
  "position_source k ms i J p c start fin \<longleftrightarrow>
     (\<forall>S. J S \<longrightarrow> k < length S \<and> sk_sc (S ! k) = Some c \<and> sk_kin (S ! k) \<noteq> Polar_angle) \<and>
     (\<forall>s t. J (sks s) \<and> start \<le> t \<and> t \<le> fin \<longrightarrow>
        (\<exists>S. calc_position_of real_fp k ms i t s = Ret (p t) (s\<lparr>sks := S\<rparr>) \<and> J S))"

text \<open>The calls that a step compression object gets; the list has the directions and times of the steps appended.\<close>

inductive step_calls :: "real \<Rightarrow> real step_times \<Rightarrow> (int \<times> real) list \<Rightarrow> real step_times \<Rightarrow> bool" for pt st where
  start: "step_calls pt st [] st"
| commit: "step_calls pt st tr st1 \<Longrightarrow> on_sc stepcompress_commit st1 = Ret r st2 \<Longrightarrow> step_calls pt st tr st2"
| append: "step_calls pt st tr st1 \<Longrightarrow> stepcompress_append real_fp d pt t st1 = Ret 0 st2 \<Longrightarrow> step_calls pt st (tr @ [(d, t)]) st2"

text \<open>
  Each step is at a time when the position is within \<open>e\<close> of the boundary half a step (\<open>h\<close>) further, times increase.
\<close>

definition step_sign :: "int \<Rightarrow> real" where
  "step_sign d = (if d \<noteq> 0 then 1 else -1)"

fun steps_track :: "(real \<Rightarrow> real) \<Rightarrow> real \<Rightarrow> real \<Rightarrow> real \<Rightarrow> real \<Rightarrow> (int \<times> real) list \<Rightarrow> real \<Rightarrow> real \<Rightarrow> bool" where
  "steps_track p e h pos t0 [] pos' t1 \<longleftrightarrow> pos' = pos \<and> t0 = t1"
| "steps_track p e h pos t0 ((d, t) # tr) pos' t1 \<longleftrightarrow>
     t0 \<le> t \<and> \<bar>p t - (pos + step_sign d * h)\<bar> \<le> e \<and> steps_track p e h (pos + step_sign d * (2 * h)) t tr pos' t1"

lemma steps_track_snoc:
  "steps_track p e h pos t0 (tr @ [(d, t)]) pos' t1 \<longleftrightarrow>
     (\<exists>q u. steps_track p e h pos t0 tr q u \<and> u \<le> t \<and> \<bar>p t - (q + step_sign d * h)\<bar> \<le> e \<and> pos' = q + step_sign d * (2 * h) \<and> t1 = t)"
  by (induction tr arbitrary: pos t0) auto

inductive seek_runs ::
    "nat \<Rightarrow> real move list \<Rightarrow> nat \<Rightarrow> real \<Rightarrow> real \<Rightarrow> real seek \<Rightarrow> real motion \<Rightarrow> (int \<times> real) list \<Rightarrow> real seek \<Rightarrow> real motion \<Rightarrow> bool"
  for k ms i h fin g s where
  start: "seek_runs k ms i h fin g s [] g s"
| go_on: "seek_runs k ms i h fin g s tr g1 s1 \<Longrightarrow> seek_round real_fp k ms i h fin g1 s1 = Ret (Go_on, g2) s2 \<Longrightarrow>
    seek_runs k ms i h fin g s tr g2 s2"
| stepped: "seek_runs k ms i h fin g s tr g1 s1 \<Longrightarrow> seek_round real_fp k ms i h fin g1 s1 = Ret (Stepped, g2) s2 \<Longrightarrow>
    seek_runs k ms i h fin g s (tr @ [(seek_dir g2, g_time g2)]) g2 s2"

lemma seek_runs_trans:
  assumes "seek_runs k ms i h fin g1 s1 tr2 g2 s2" "seek_runs k ms i h fin g s tr1 g1 s1"
  shows "seek_runs k ms i h fin g s (tr1 @ tr2) g2 s2"
  using assms by (induction rule: seek_runs.induct)
    (auto intro: seek_runs.go_on seek_runs.stepped simp flip: append_assoc)


text \<open>The round in which the loop returns.\<close>

definition returned_by ::
    "nat \<Rightarrow> real move list \<Rightarrow> nat \<Rightarrow> real \<Rightarrow> real \<Rightarrow> real seek \<Rightarrow> real motion \<Rightarrow> (real, outcome \<times> real seek) motion_res \<Rightarrow> bool" where
  "returned_by k ms i h fin g s r \<longleftrightarrow>
     (\<forall>out g' s'. r = Ret (out, g') s' \<longrightarrow>
        (\<exists>tr g1 s1. seek_runs k ms i h fin g s tr g1 s1 \<and> seek_round real_fp k ms i h fin g1 s1 = Ret (out, g') s' \<and>
           out \<noteq> Go_on \<and> out \<noteq> Stepped))"

lemma seek_loop_result:
  assumes "seek_loop F k ms i h fin g s = Some r"
  shows "F = real_fp \<longrightarrow> returned_by k ms i h fin g s r"
proof (rule seek_loop.raw_induct [of "\<lambda>F k ms i h fin g s r. F = real_fp \<longrightarrow> returned_by k ms i h fin g s r", OF _ assms], intro impI)
  fix loop and F :: "real fp" and k ms i h fin g s r
  assume IH: "\<And>F k ms i h fin g s r. loop F k ms i h fin g s = Some r \<Longrightarrow> F = real_fp \<longrightarrow> returned_by k ms i h fin g s r"
    and eq: "(case seek_round F k ms i h fin g s of
        Ret (out, g) s \<Rightarrow> (if out = Go_on \<or> out = Stepped then loop F k ms i h fin g s else Some (Ret (out, g) s))
      | Shut e s \<Rightarrow> Some (Shut e s)
      | Fault \<Rightarrow> Some Fault) = Some r" and F: "F = real_fp"
  show "returned_by k ms i h fin g s r"
  proof (cases "seek_round real_fp k ms i h fin g s")
    case (Ret a s1)
    obtain out g1 where a: "a = (out, g1)" by (cases a)
    show ?thesis
    proof (cases "out = Go_on \<or> out = Stepped")
      case True
      then have "returned_by k ms i h fin g1 s1 r" using eq IH [of F k ms i h fin g1 s1 r] by (simp add: F Ret a)
      moreover have "\<exists>tr. seek_runs k ms i h fin g s tr g1 s1"
        using True Ret seek_runs.start [of k ms i h fin g s] unfolding a by (blast intro: seek_runs.go_on seek_runs.stepped)
      ultimately show ?thesis unfolding returned_by_def using seek_runs_trans by metis
    next
      case False
      then have "r = Ret (out, g1) s1" using eq by (simp add: F Ret a)
      then show ?thesis unfolding returned_by_def using False Ret a seek_runs.start [of k ms i h fin g s] by blast
    qed
  qed (use eq in \<open>auto simp: F returned_by_def\<close>)
qed

section \<open>What a round keeps\<close>

lemma call_sc_eq:
  "sk_sc (sks s ! k) = Some c \<Longrightarrow> c < length (scs s) \<Longrightarrow>
     call_sc k f s = (case f (scs s ! c) of
                  Ret a st \<Rightarrow> Ret a (s\<lparr>scs := (scs s)[c := st]\<rparr>)
                | Shut e st \<Rightarrow> Shut e (s\<lparr>scs := (scs s)[c := st]\<rparr>)
                | Fault \<Rightarrow> Fault)"
  by (simp add: call_sc_def)

text \<open>The state during the loop, which began in the state \<open>s0\<close> with the position \<open>pos\<close>.\<close>

definition seeking ::
    "(real \<Rightarrow> real) \<Rightarrow> (real stepper_kinematics list \<Rightarrow> bool) \<Rightarrow> nat \<Rightarrow> real \<Rightarrow> real \<Rightarrow> real \<Rightarrow> real \<Rightarrow> real \<Rightarrow> real \<Rightarrow> real motion \<Rightarrow>
      (int \<times> real) list \<Rightarrow> real seek \<Rightarrow> real motion \<Rightarrow> bool" where
  "seeking p J c pt h L start fin pos s0 tr g s \<longleftrightarrow>
     seek_ok p h L start fin g \<and> J (sks s) \<and> c < length (scs s) \<and>
     (\<exists>st. step_calls pt (scs s0 ! c) tr st \<and> scs s = (scs s0)[c := st]) \<and> trapqs s = trapqs s0 \<and>
     steps_track p (slack L + L * tiny) h pos start tr (base h g) (last_time g)"

lemma seek_round_search:
  assumes "position_source k ms i J p c start fin" "J (sks s)" "seek_ok p h L start fin g"
    "seek_eval p h fin g = Some (act, g2)"
  shows "\<exists>S. J S \<and> seek_round real_fp k ms i h fin g s =
     (case act of
        Search commit \<Rightarrow>
          (if commit then bnd (call_sc k (on_sc stepcompress_commit) (s\<lparr>sks := S\<rparr>)) (\<lambda>_ s. Ret (Go_on, g2) s)
           else Ret (Go_on, g2) (s\<lparr>sks := S\<rparr>))
      | Submit \<Rightarrow>
          bnd (call_sc k (stepcompress_append real_fp (seek_dir g2) (print_time (ms ! i)) (g_time g2)) (s\<lparr>sks := S\<rparr>)) (\<lambda>ret s.
            if ret \<noteq> 0 then Ret (Failed ret, g2) s else Ret (Stepped, next_search real_fp h fin g2) s))"
proof -
  obtain t hi co where n: "next_guess real_fp fin g = Some (t, g\<lparr>high_time := hi, check_oscillate := co\<rparr>)"
    and e: "guess_end p h fin g t hi co act g2" using seek_eval_end [OF assms(4,3)] by blast
  have "start \<le> t" "t \<le> fin" using e ok_times [OF assms(3)] by (auto simp: guess_end_def)
  then obtain S where S: "calc_position_of real_fp k ms i t s = Ret (p t) (s\<lparr>sks := S\<rparr>)" "J S"
    using assms(1,2) unfolding position_source_def by blast
  have u: "seek_update real_fp h t (p t) (g\<lparr>high_time := hi, check_oscillate := co\<rparr>) = (act, g2)"
    using assms(4) n by (simp add: seek_eval_def)
  show ?thesis
    by (rule exI [of _ S]) (simp add: S seek_round_def n u split: action.splits)
qed

lemma seek_round_keeps:
  assumes "position_source k ms i J p c start fin" "lipschitz p L start fin" "0 \<le> L" "0 < h" "slack L \<le> h"
    "seeking p J c (print_time (ms ! i)) h L start fin pos s0 tr g s" "c < length (scs s0)"
    "seek_round real_fp k ms i h fin g s = Ret (out, g2) s2"
  shows "out = Go_on \<Longrightarrow> seeking p J c (print_time (ms ! i)) h L start fin pos s0 tr g2 s2"
    "out = Stepped \<Longrightarrow> seeking p J c (print_time (ms ! i)) h L start fin pos s0 (tr @ [(seek_dir g2, g_time g2)]) g2 s2"
    "out = No_more \<Longrightarrow> g2 = g \<and> s2 = s \<and> \<not> have_bracket g \<and> fin \<le> g_time g"
    "out = Failed r \<Longrightarrow> r \<noteq> 0"
proof -
  let ?pt = "print_time (ms ! i)"
  have a: "seek_ok p h L start fin g" "J (sks s)" "c < length (scs s)" "trapqs s = trapqs s0"
    "steps_track p (slack L + L * tiny) h pos start tr (base h g) (last_time g)" using assms(6) by (auto simp: seeking_def)
  obtain st where st: "step_calls ?pt (scs s0 ! c) tr st" "scs s = (scs s0)[c := st]" using assms(6) by (auto simp: seeking_def)
  have sc: "\<And>S. J S \<Longrightarrow> sk_sc (S ! k) = Some c" using assms(1) by (auto simp: position_source_def)
  have "(out = Go_on \<longrightarrow> seeking p J c ?pt h L start fin pos s0 tr g2 s2) \<and>
    (out = Stepped \<longrightarrow> seeking p J c ?pt h L start fin pos s0 (tr @ [(seek_dir g2, g_time g2)]) g2 s2) \<and>
    (out = No_more \<longrightarrow> g2 = g \<and> s2 = s \<and> \<not> have_bracket g \<and> fin \<le> g_time g) \<and> (out = Failed r \<longrightarrow> r \<noteq> 0)"
  proof (cases "seek_eval p h fin g")
    case None
    then have n: "next_guess real_fp fin g = None" by (simp add: seek_eval_def split: option.splits prod.splits)
    then have "\<not> have_bracket g \<and> fin \<le> g_time g" by (auto simp: next_guess_real split: if_splits)
    then show ?thesis using assms(8) n by (auto simp: seek_round_def)
  next
    case (Some x)
    obtain act g1 where x: "x = (act, g1)" by (cases x)
    have e: "seek_eval p h fin g = Some (act, g1)" using Some x by simp
    obtain S where S: "J S" "seek_round real_fp k ms i h fin g s =
     (case act of
        Search commit \<Rightarrow>
          (if commit then bnd (call_sc k (on_sc stepcompress_commit) (s\<lparr>sks := S\<rparr>)) (\<lambda>_ s. Ret (Go_on, g1) s)
           else Ret (Go_on, g1) (s\<lparr>sks := S\<rparr>))
      | Submit \<Rightarrow>
          bnd (call_sc k (stepcompress_append real_fp (seek_dir g1) ?pt (g_time g1)) (s\<lparr>sks := S\<rparr>)) (\<lambda>ret s.
            if ret \<noteq> 0 then Ret (Failed ret, g1) s else Ret (Stepped, next_search real_fp h fin g1) s))"
      using seek_round_search [OF assms(1) a(2,1) e] by blast
    have c: "call_sc k f (s\<lparr>sks := S\<rparr>) = (case f st of
                  Ret a st \<Rightarrow> Ret a (s\<lparr>sks := S, scs := (scs s0)[c := st]\<rparr>)
                | Shut e st \<Rightarrow> Shut e (s\<lparr>sks := S, scs := (scs s0)[c := st]\<rparr>)
                | Fault \<Rightarrow> Fault)" for f :: "real step_times \<Rightarrow> (real step_times, int) res"
      using sc [OF S(1)] assms(7) by (cases "f st") (simp_all add: call_sc_eq st(2))
    note keep = seek_eval_keeps [OF e a(1)]
    show ?thesis
    proof (cases act)
      case (Search cm)
      have k: "seek_ok p h L start fin g1" using seek_eval_search [OF _ a(1) assms(3,4)] e Search by blast
      show ?thesis
      proof (cases "cm")
        case True
        then obtain ret st2 where r: "on_sc stepcompress_commit st = Ret ret st2" "out = Go_on" "g2 = g1"
          "s2 = s\<lparr>sks := S, scs := (scs s0)[c := st2]\<rparr>"
          using assms(8) by (auto simp: S(2) Search c bnd_eq_Ret split: res.splits)
        then show ?thesis using k S(1) a keep st step_calls.commit [OF st(1) r(1)] assms(7) by (auto simp: seeking_def)
      next
        case False
        then show ?thesis using assms(8) k S(1) a keep st by (auto simp: S(2) Search seeking_def)
      qed
    next
      case Submit
      obtain ret st2 where r: "stepcompress_append real_fp (seek_dir g1) ?pt (g_time g1) st = Ret ret st2"
        "s2 = s\<lparr>sks := S, scs := (scs s0)[c := st2]\<rparr>" "if ret \<noteq> 0 then out = Failed ret \<and> g2 = g1 else out = Stepped \<and> g2 = next_search real_fp h fin g1"
        using assms(8) by (auto simp: S(2) Submit c bnd_eq_Ret split: res.splits if_splits)
      show ?thesis
      proof (cases "ret = 0")
        case False
        then show ?thesis using r(3) by auto
      next
        case True
        have e': "seek_eval p h fin g = Some (Submit, g1)" using e Submit by simp
        note sub = seek_eval_submit [OF e' a(1) assms(3,4,2)]
        have l: "start \<le> last_time g1" "last_time g1 \<le> g_time g1" "g_time g1 \<le> fin" using keep ok_times [OF a(1)] by auto
        note nx = next_search_ok [OF sub assms(3,5) l]
        have d: "seek_dir g2 = seek_dir g1" "g_time g2 = g_time g1" using True r(3) by (auto simp: next_search_def Let_def)
        have sg: "sgn_dir g1 = step_sign (seek_dir g1)" by (simp add: sgn_dir_def step_sign_def)
        have "\<bar>p (g_time g1) - (base h g + step_sign (seek_dir g1) * h)\<bar> = \<bar>past p g1 (g_time g1)\<bar>"
          using keep(1) by (simp add: abs_past) (simp add: base_def sg)
        then have "\<bar>p (g_time g1) - (base h g + step_sign (seek_dir g1) * h)\<bar> \<le> slack L + L * tiny"
          using sub mult_nonneg_nonneg [OF assms(3) less_imp_le [OF tiny_pos]] by auto
        then have "steps_track p (slack L + L * tiny) h pos start (tr @ [(seek_dir g2, g_time g2)]) (base h g2) (last_time g2)"
          using a(5) keep r(3) True nx(3,4) l unfolding steps_track_snoc d by (auto simp: sg)
        moreover have "step_calls ?pt (scs s0 ! c) (tr @ [(seek_dir g2, g_time g2)]) st2"
          unfolding d by (rule step_calls.append [OF st(1)]) (use r(1) True in simp)
        ultimately show ?thesis using True r nx(1) S(1) a(4) assms(7) by (auto simp: seeking_def)
      qed
    qed
  qed
  then show "out = Go_on \<Longrightarrow> seeking p J c ?pt h L start fin pos s0 tr g2 s2"
    "out = Stepped \<Longrightarrow> seeking p J c ?pt h L start fin pos s0 (tr @ [(seek_dir g2, g_time g2)]) g2 s2"
    "out = No_more \<Longrightarrow> g2 = g \<and> s2 = s \<and> \<not> have_bracket g \<and> fin \<le> g_time g" "out = Failed r \<Longrightarrow> r \<noteq> 0" by blast+
qed

lemma seek_runs_keeps:
  assumes "seek_runs k ms i h fin g s tr g' s'"
    "position_source k ms i J p c start fin" "lipschitz p L start fin" "0 \<le> L" "0 < h" "slack L \<le> h"
    "seeking p J c (print_time (ms ! i)) h L start fin pos s0 tr0 g s" "c < length (scs s0)"
  shows "seeking p J c (print_time (ms ! i)) h L start fin pos s0 (tr0 @ tr) g' s'"
  using assms(1)
proof induction
  case start
  then show ?case using assms(7) by simp
next
  case (go_on tr g1 s1 g2 s2)
  then show ?case using seek_round_keeps(1) [OF assms(2-6) go_on.IH assms(8) go_on.hyps(2)] by simp
next
  case (stepped tr g1 s1 g2 s2)
  then show ?case using seek_round_keeps(2) [OF assms(2-6) stepped.IH assms(8) stepped.hyps(2)] by simp
qed

lemma seek_init_ok:
  assumes "0 \<le> start" "start \<le> fin" "\<bar>p start - pos\<bar> \<le> h + slack L" "0 < h"
  shows "seek_ok p h L start fin (seek_init real_fp h pos start fin dir)" "base h (seek_init real_fp h pos start fin dir) = pos"
    "last_time (seek_init real_fp h pos start fin dir) = start"
proof -
  let ?g = "seek_init real_fp h pos start fin dir"
  have sel: "last_time ?g = start" "low_time ?g = start" "g_time ?g = start" "high_time ?g = min fin (start + 1 / 10000)"
    "\<not> have_bracket ?g" "\<not> is_dir_change ?g" "\<not> check_oscillate ?g" by (simp_all add: seek_init_def)
  have p: "past p ?g start = (if dir \<noteq> 0 then p start - pos else pos - p start) - h"
    by (simp add: past_def sgn_dir_def seek_init_def)
  show "seek_ok p h L start fin ?g" using assms by (auto simp: seek_ok_def sel p)
  show "base h ?g = pos" by (simp add: base_def sgn_dir_def seek_init_def)
  show "last_time ?g = start" by (rule sel)
qed

section \<open>The function\<close>

text \<open>The part of the move for which steps are generated, in times of the move.\<close>

definition range_start :: "real move \<Rightarrow> real \<Rightarrow> real" where
  "range_start m abs_start = max 0 (abs_start - print_time m)"

definition range_fin :: "real move \<Rightarrow> real \<Rightarrow> real" where
  "range_fin m abs_end = min (move_t m) (abs_end - print_time m)"

lemma move_range_real: "move_start real_fp m t = range_start m t" "move_fin real_fp m t = range_fin m t"
  by (simp_all add: move_start_def move_fin_def range_start_def range_fin_def Let_def)

text \<open>What must hold for a stepper before steps are generated.\<close>

definition stepper_ready ::
    "nat \<Rightarrow> real move list \<Rightarrow> nat \<Rightarrow> real \<Rightarrow> real \<Rightarrow> (real \<Rightarrow> real) \<Rightarrow> nat \<Rightarrow> real \<Rightarrow> (real stepper_kinematics list \<Rightarrow> bool) \<Rightarrow> real motion \<Rightarrow> bool" where
  "stepper_ready k ms i abs_start abs_end p c L J s \<longleftrightarrow>
     (let start = range_start (ms ! i) abs_start; fin = range_fin (ms ! i) abs_end; h = step_dist (sks s ! k) / 2
      in position_source k ms i J p c start fin \<and> lipschitz p L start fin \<and> 0 < L \<and> slack L \<le> h \<and> start \<le> fin \<and>
         J (sks s) \<and> c < length (scs s) \<and> \<bar>p start - commanded_pos (sks s ! k)\<bar> \<le> h + slack L)"

lemma gen_steps_loop:
  assumes "stepper_ready k ms i abs_start abs_end p c L J s"
  shows "\<exists>g. seeking p J c (print_time (ms ! i)) (step_dist (sks s ! k) / 2) L (range_start (ms ! i) abs_start)
      (range_fin (ms ! i) abs_end) (commanded_pos (sks s ! k)) s [] g s \<and>
    itersolve_gen_steps_range real_fp k ms i abs_start abs_end s =
      (case seek_loop real_fp k ms i (step_dist (sks s ! k) / 2) (range_fin (ms ! i) abs_end) g s of
         None \<Rightarrow> None
       | Some r \<Rightarrow> Some (bnd r (\<lambda>og. seek_finish real_fp k (step_dist (sks s ! k) / 2) (fst og) (snd og))))"
proof -
  let ?h = "step_dist (sks s ! k) / 2" and ?start = "range_start (ms ! i) abs_start" and ?fin = "range_fin (ms ! i) abs_end"
    and ?pos = "commanded_pos (sks s ! k)"
  have r: "position_source k ms i J p c ?start ?fin" "0 < L" "slack L \<le> ?h" "?start \<le> ?fin" "J (sks s)" "c < length (scs s)"
    "\<bar>p ?start - ?pos\<bar> \<le> ?h + slack L" using assms by (simp_all add: stepper_ready_def Let_def)
  have h: "0 < ?h" using r(3) slack_pos [of L] r(2) tiny_pos by simp
  have sc: "sk_sc (sks s ! k) = Some c" using r(1,5) by (auto simp: position_source_def)
  let ?dir = "stepcompress_get_step_dir (step_sc (scs s ! c))"
  let ?g = "seek_init real_fp ?h ?pos ?start ?fin ?dir"
  have "0 \<le> ?start" by (simp add: range_start_def)
  note i = seek_init_ok [of ?start ?fin p ?pos ?h L ?dir, OF this r(4,7) h]
  have ha: "1 / 2 * step_dist (sks s ! k) = ?h" by simp
  have "seeking p J c (print_time (ms ! i)) ?h L ?start ?fin ?pos s [] ?g s"
    using i r by (auto simp: seeking_def intro: step_calls.start)
  moreover have "itersolve_gen_steps_range real_fp k ms i abs_start abs_end s =
      (case seek_loop real_fp k ms i ?h ?fin ?g s of
         None \<Rightarrow> None
       | Some r \<Rightarrow> Some (bnd r (\<lambda>og. seek_finish real_fp k ?h (fst og) (snd og))))"
    using sc r(6)
    by (simp add: itersolve_gen_steps_range_def Let_def seek_step_dir_def move_range_real)
  ultimately show ?thesis by blast
qed




text \<open>
  C1: When the solver returns without an error, it has submitted steps each of which is at a time when the position is at the
  boundary of the step, in order of time; afterwards the commanded position is moved by exactly these steps and is
  within half a step of the position at the end of the time.
\<close>

theorem solver_tracks_position:
  assumes "stepper_ready k ms i abs_start abs_end p c L J s"
    "itersolve_gen_steps_range real_fp k ms i abs_start abs_end s = Some (Ret 0 s')"
  shows "\<exists>tr last. step_calls (print_time (ms ! i)) (scs s ! c) tr (scs s' ! c) \<and>
    steps_track p (slack L + L * tiny) (step_dist (sks s ! k) / 2) (commanded_pos (sks s ! k)) (range_start (ms ! i) abs_start)
      tr (commanded_pos (sks s' ! k)) last \<and> last \<le> range_fin (ms ! i) abs_end \<and>
    \<bar>p (range_fin (ms ! i) abs_end) - commanded_pos (sks s' ! k)\<bar> \<le> step_dist (sks s ! k) / 2 + slack L \<and>
    (\<forall>c'. c' \<noteq> c \<longrightarrow> scs s' ! c' = scs s ! c') \<and> trapqs s' = trapqs s"
proof -
  let ?h = "step_dist (sks s ! k) / 2" and ?start = "range_start (ms ! i) abs_start" and ?fin = "range_fin (ms ! i) abs_end"
    and ?pos = "commanded_pos (sks s ! k)"
  have r: "position_source k ms i J p c ?start ?fin" "lipschitz p L ?start ?fin" "0 < L" "slack L \<le> ?h" "c < length (scs s)"
    using assms(1) by (simp_all add: stepper_ready_def Let_def)
  have h: "0 < ?h" using r(4) slack_pos [of L] r(3) tiny_pos by simp
  obtain g where g: "seeking p J c (print_time (ms ! i)) ?h L ?start ?fin ?pos s [] g s"
    "itersolve_gen_steps_range real_fp k ms i abs_start abs_end s =
      (case seek_loop real_fp k ms i ?h ?fin g s of None \<Rightarrow> None
       | Some r \<Rightarrow> Some (bnd r (\<lambda>og. seek_finish real_fp k ?h (fst og) (snd og))))"
    using gen_steps_loop [OF assms(1)] by (elim exE conjE) (rule that)
  then obtain r where "seek_loop real_fp k ms i ?h ?fin g s = Some r" "bnd r (\<lambda>og. seek_finish real_fp k ?h (fst og) (snd og)) = Ret 0 s'"
    using assms(2) by (cases "seek_loop real_fp k ms i ?h ?fin g s") simp_all
  then obtain out g1 s1 where l: "seek_loop real_fp k ms i ?h ?fin g s = Some (Ret (out, g1) s1)"
    "seek_finish real_fp k ?h out g1 s1 = Ret 0 s'" by (auto simp: bnd_eq_Ret)
  obtain tr g0 s0 where t: "seek_runs k ms i ?h ?fin g s tr g0 s0" "seek_round real_fp k ms i ?h ?fin g0 s0 = Ret (out, g1) s1"
    "out \<noteq> Go_on" "out \<noteq> Stepped" using seek_loop_result [OF l(1)] by (auto simp: returned_by_def)
  note k = seek_runs_keeps [OF t(1) r(1,2) less_imp_le [OF r(3)] h r(4) g(1) r(5), simplified]
  note e = seek_round_keeps [OF r(1,2) less_imp_le [OF r(3)] h r(4) k r(5) t(2)]
  have out: "out = No_more" using e(4) l(2) t(3,4) by (cases out) (auto simp: seek_finish_def)
  have g0: "g1 = g0" "s1 = s0" "\<not> have_bracket g0" "?fin \<le> g_time g0" using e(3) [OF out] by auto
  have ok: "seek_ok p ?h L ?start ?fin g0" "J (sks s0)" using k by (auto simp: seeking_def)
  have J: "k < length (sks s0)" "sk_kin (sks s0 ! k) \<noteq> Polar_angle" using r(1) ok(2) by (auto simp: position_source_def)
  have fin: "low_time g0 = ?fin" "- (2 * ?h) - slack L \<le> past p g0 (low_time g0)" "past p g0 (low_time g0) \<le> slack L"
    using ok(1) g0 by (auto simp: seek_ok_def)
  have s': "s' = upd_sk k (commanded_pos_update (\<lambda>_. base ?h g0)) s0"
    using l(2) J by (auto simp: seek_finish_def out g0 base_def sgn_dir_def post_cb_def upd_sk_def Let_def split: kin.splits)
  then have pos: "commanded_pos (sks s' ! k) = base ?h g0" "scs s' = scs s0" "trapqs s' = trapqs s0"
    using J(1) by (simp_all add: upd_sk_def)
  have "\<bar>p ?fin - base ?h g0\<bar> = \<bar>past p g0 ?fin + ?h\<bar>" by (auto simp: past_def base_def sgn_dir_def)
  then have "\<bar>p ?fin - base ?h g0\<bar> \<le> ?h + slack L" using fin by auto
  then show ?thesis using k ok_times [OF ok(1)] r(5) unfolding pos seeking_def by fastforce
qed

subsection \<open>Instances\<close>

text \<open>The kinematics that do not wrap another one do not change the steppers.\<close>

lemma own_position_source:
  assumes "k < length S" "sk_sc (S ! k) = Some c" "sk_kin (S ! k) \<noteq> Polar_angle"
    "\<And>t. start \<le> t \<Longrightarrow> t \<le> fin \<Longrightarrow> own_position real_fp (S ! k) ms i t = Some (p t)"
  shows "position_source k ms i (\<lambda>S'. S' = S) p c start fin"
proof -
  have "calc_position_of real_fp k ms i t s = Ret (p t) s" if "sks s = S" "start \<le> t" "t \<le> fin" for s t
  proof -
    obtain n where n: "length S = Suc n" using assms(1) by (cases "length S") auto
    show ?thesis using assms(1) assms(4) [OF that(2,3)] that(1)
      by (cases "sk_kin (S ! k)") (simp_all add: calc_position_of_def n own_position_def)
  qed
  moreover have "s\<lparr>sks := S\<rparr> = s" if "sks s = S" for s :: "real motion" using that by auto
  ultimately show ?thesis using assms(1-3) by (auto simp: position_source_def)
qed

text \<open>A Cartesian stepper for the x axis, steps of one unit, and a move at 8000 units per second for a 10000th of a second.\<close>

definition demo_move_x :: "real move" where
  "demo_move_x = \<lparr>print_time = 0, move_t = 1 / 10000, start_v = 8000, half_accel = 0,
     start_pos = \<lparr>cx = 0, cy = 0, cz = 0\<rparr>, axes_r = \<lparr>cx = 1, cy = 0, cz = 0\<rparr>\<rparr>"

definition demo_sk :: "real stepper_kinematics" where
  "demo_sk = (cartesian_stepper_alloc real_fp CHR ''x'')\<lparr>step_dist := 1, sk_sc := Some 0\<rparr>"

definition demo_motion :: "real motion" where
  "demo_motion = \<lparr>sks = [demo_sk], trapqs = [], scs = [\<lparr>step_sc = stepcompress_alloc 3, mcu_time_offset = 0, mcu_freq = 1000000\<rparr>]\<rparr>"

lemma demo_sk_sel [simp]:
  "step_dist demo_sk = 1" "commanded_pos demo_sk = 0" "sk_sc demo_sk = Some 0" "sk_kin demo_sk = Cartesian Axis_X"
  by (simp_all add: demo_sk_def cartesian_stepper_alloc_def sk_zero_def)

lemma demo_position: "own_position real_fp demo_sk [demo_move_x] 0 t = Some (8000 * t)"
  by (simp add: own_position_def cart_stepper_x_calc_position_def move_get_coord_def move_get_distance_def demo_move_x_def)

lemma demo_ready: "stepper_ready 0 [demo_move_x] 0 0 1 (\<lambda>t. 8000 * t) 0 8000 (\<lambda>S. S = [demo_sk]) demo_motion"
proof -
  have r: "range_start ([demo_move_x] ! 0) 0 = 0" "range_fin ([demo_move_x] ! 0) 1 = 1 / 10000"
    by (simp_all add: range_start_def range_fin_def demo_move_x_def)
  have "position_source 0 [demo_move_x] 0 (\<lambda>S. S = [demo_sk]) (\<lambda>t. 8000 * t) 0 0 (1 / 10000)"
    by (rule own_position_source) (simp_all add: demo_position)
  moreover have "lipschitz (\<lambda>t. 8000 * t) 8000 0 (1 / 10000)"
    by (auto simp: lipschitz_def abs_if)
  ultimately show ?thesis
    unfolding stepper_ready_def Let_def r by (simp add: demo_motion_def slack_def tiny_def)
qed


text \<open>The rounds of the loop: the direction changes, a step is found at 1/16000, and no other one.\<close>

definition demo_seek :: "real \<Rightarrow> real \<Rightarrow> real \<Rightarrow> real \<Rightarrow> int \<Rightarrow> real \<Rightarrow> real \<Rightarrow> real \<Rightarrow> bool \<Rightarrow> real seek" where
  "demo_seek ot op gt gp dir tgt la low br =
     \<lparr>og_time = ot, og_pos = op, g_time = gt, g_pos = gp, seek_dir = dir, target = tgt, last_time = la, low_time = low,
      high_time = 1 / 10000, is_dir_change = br, have_bracket = br, check_oscillate = False\<rparr>"

lemma demo_calc:
  "sks s = [demo_sk] \<Longrightarrow> calc_position_of real_fp 0 [demo_move_x] 0 t s = Ret (8000 * t) s"
  by (simp add: calc_position_of_def demo_position)

definition demo_motion' :: "real motion" where
  "demo_motion' = demo_motion\<lparr>scs := [\<lparr>step_sc = (stepcompress_alloc 3)\<lparr>next_step_clock := 62, next_step_dir := 1\<rparr>,
      mcu_time_offset = 0, mcu_freq = 1000000\<rparr>]\<rparr>"

lemma demo_append:
  "call_sc 0 (stepcompress_append real_fp 1 0 (1 / 16000)) demo_motion = Ret 0 demo_motion'"
  by (simp add: call_sc_def demo_motion_def demo_motion'_def stepcompress_append_def Let_def last_step_print_time_def stepcompress_alloc_def
      on_sc_def append_step_def trunc_real_def)

lemma demo_sel: "sks demo_motion = [demo_sk]" "sks demo_motion' = [demo_sk]" "print_time demo_move_x = 0"
  by (simp_all add: demo_motion_def demo_motion'_def demo_move_x_def)

lemmas demo_round_defs = seek_round_def next_guess_real secant_def demo_seek_def demo_calc seek_update_real Let_def move_guess_def
  update_bounds_real flipped_def passed_def step_target_real sgn_dir_def tiny_def

lemma demo_rounds:
  "seek_round real_fp 0 [demo_move_x] 0 (1 / 2) (1 / 10000) (demo_seek 0 0 0 0 0 (- (1 / 2)) 0 0 False) demo_motion =
     Ret (Go_on, demo_seek 0 0 (1 / 10000) (4 / 5) 1 (1 / 2) 0 0 True) demo_motion"
  "seek_round real_fp 0 [demo_move_x] 0 (1 / 2) (1 / 10000) (demo_seek 0 0 (1 / 10000) (4 / 5) 1 (1 / 2) 0 0 True) demo_motion =
     Ret (Stepped, demo_seek (1 / 10000) (4 / 5) (1 / 16000) (1 / 2) 1 (3 / 2) (1 / 16000) (1 / 16000) False) demo_motion'"
  "seek_round real_fp 0 [demo_move_x] 0 (1 / 2) (1 / 10000)
       (demo_seek (1 / 10000) (4 / 5) (1 / 16000) (1 / 2) 1 (3 / 2) (1 / 16000) (1 / 16000) False) demo_motion' =
     Ret (Go_on, demo_seek (1 / 16000) (1 / 2) (1 / 10000) (4 / 5) 1 (3 / 2) (1 / 16000) (1 / 10000) False) demo_motion'"
  "seek_round real_fp 0 [demo_move_x] 0 (1 / 2) (1 / 10000)
       (demo_seek (1 / 16000) (1 / 2) (1 / 10000) (4 / 5) 1 (3 / 2) (1 / 16000) (1 / 10000) False) demo_motion' =
     Ret (No_more, demo_seek (1 / 16000) (1 / 2) (1 / 10000) (4 / 5) 1 (3 / 2) (1 / 16000) (1 / 10000) False) demo_motion'"
  subgoal
    by (simp add: demo_round_defs demo_sel)
  subgoal
    using demo_append by (simp add: demo_round_defs demo_sel next_search_def)
  subgoal
    by (simp add: demo_round_defs demo_sel)
  subgoal
    by (simp add: demo_round_defs)
  done

lemma demo_steps:
  "itersolve_gen_steps_range real_fp 0 [demo_move_x] 0 0 1 demo_motion = Some (Ret 0 (upd_sk 0 (commanded_pos_update (\<lambda>_. 1)) demo_motion'))"
proof -
  have i: "seek_init real_fp (1 / 2) 0 0 (1 / 10000) 0 = demo_seek 0 0 0 0 0 (- (1 / 2)) 0 0 False"
    by (simp add: seek_init_def demo_seek_def)
  have r: "move_start real_fp demo_move_x 0 = 0" "move_fin real_fp demo_move_x 1 = 1 / 10000"
    by (simp_all add: move_range_real range_start_def range_fin_def demo_move_x_def)
  have d: "seek_step_dir 0 demo_motion = Some 0"
    by (simp add: seek_step_dir_def demo_motion_def stepcompress_get_step_dir_def stepcompress_alloc_def)
  have "seek_loop real_fp 0 [demo_move_x] 0 (1 / 2) (1 / 10000) (demo_seek 0 0 0 0 0 (- (1 / 2)) 0 0 False) demo_motion =
      Some (Ret (No_more, demo_seek (1 / 16000) (1 / 2) (1 / 10000) (4 / 5) 1 (3 / 2) (1 / 16000) (1 / 10000) False) demo_motion')"
    by (simp add: seek_loop.simps demo_rounds)
  then show ?thesis
    by (simp add: itersolve_gen_steps_range_def Let_def demo_sel d r i seek_finish_def) (simp add: demo_seek_def post_cb_def upd_sk_def demo_sel)
qed

theorem solver_tracks_position_witness:
  "\<exists>s'. itersolve_gen_steps_range real_fp 0 [demo_move_x] 0 0 1 demo_motion = Some (Ret 0 s') \<and> commanded_pos (sks s' ! 0) = 1 \<and>
    (\<exists>tr last. step_calls (print_time ([demo_move_x] ! 0)) (scs demo_motion ! 0) tr (scs s' ! 0) \<and>
      steps_track (\<lambda>t. 8000 * t) (slack 8000 + 8000 * tiny) (step_dist (sks demo_motion ! 0) / 2) (commanded_pos (sks demo_motion ! 0))
        (range_start ([demo_move_x] ! 0) 0) tr (commanded_pos (sks s' ! 0)) last \<and> last \<le> range_fin ([demo_move_x] ! 0) 1)"
  using demo_steps solver_tracks_position [OF demo_ready demo_steps] by (auto simp: upd_sk_def demo_sel)

end
