(* ===== verification/Step_Times_Props.thy ===== *)
theory Step_Times_Props
  imports Step_Times Real_Arith
begin

text \<open>
  The position of a stepper in the past: \<open>stepcompress_find_past_position\<close> solves a quadratic equation to count the
  steps of a move that are due at a clock. Over exact arithmetic the count is right for moves that speed up and that
  slow down, and the position is the sum of all steps up to that clock.
\<close>

section \<open>Steps of a move\<close>

text \<open>The clock of step \<open>n\<close> of a move, relative to the clock of the last step before it.\<close>

definition step_offset :: "int \<Rightarrow> int \<Rightarrow> nat \<Rightarrow> int" where
  "step_offset interval add n = interval * int n + add * (int n * (int n - 1) div 2)"

text \<open>The number of steps of a history entry that are due at a clock, and the distance they go.\<close>

definition steps_due :: "history_steps \<Rightarrow> u64 \<Rightarrow> nat set" where
  "steps_due hs clock =
     {n. 1 \<le> n \<and> n \<le> nat \<bar>hs_step_count hs\<bar> \<and>
         uint (hs_first_clock hs) + step_offset (hs_interval hs) (hs_add hs) n - hs_interval hs \<le> uint clock}"

definition signed_steps :: "u64 \<Rightarrow> history_steps \<Rightarrow> int" where
  "signed_steps clock hs = (if hs_step_count hs < 0 then - int (card (steps_due hs clock)) else int (card (steps_due hs clock)))"

text \<open>The steps of an entry go forward in time, and the last one is at its \<open>last_clock\<close>.\<close>

definition entry_ok :: "history_steps \<Rightarrow> bool" where
  "entry_ok hs \<longleftrightarrow>
     (let n = nat \<bar>hs_step_count hs\<bar> in
        1 \<le> n \<and> 0 \<le> hs_interval hs \<and> (\<forall>i \<in> {1..<n}. 0 < hs_interval hs + hs_add hs * int i) \<and>
        uint (hs_last_clock hs) = uint (hs_first_clock hs) + step_offset (hs_interval hs) (hs_add hs) n - hs_interval hs \<and>
        uint (hs_last_clock hs) < uint (hs_first_clock hs) + 2 ^ 31)"

text \<open>The entries of a history follow each other in time and position, from \<open>base\<close> to \<open>pos\<close>.\<close>

fun chained :: "int \<Rightarrow> int \<Rightarrow> history_steps list \<Rightarrow> bool" where
  "chained base pos [] = (pos = base)"
| "chained base pos (hs # hss) =
     (entry_ok hs \<and> pos = start_position hs + hs_step_count hs \<and> (\<forall>h \<in> set hss. hs_last_clock h < hs_first_clock hs) \<and>
      chained base (start_position hs) hss)"

section \<open>The quadratic equation\<close>

lemma step_offset_real:
  "real_of_int (step_offset interval add n) = (of_int add / 2) * (real n * real n) + (of_int interval - of_int add / 2) * real n"
proof -
  have h: "real_of_int (int n * (int n - 1) div 2) = real n * (real n - 1) / 2"
    using real_of_int_div [of 2 "int n * (int n - 1)"] by simp
  show ?thesis unfolding step_offset_def of_int_add of_int_mult h by (simp add: field_simps)
qed

lemma step_offset_Suc: "step_offset interval add (Suc n) = step_offset interval add n + interval + add * int n"
proof -
  have "real_of_int (step_offset interval add (Suc n)) = real_of_int (step_offset interval add n + interval + add * int n)"
    by (simp add: step_offset_real field_simps)
  then show ?thesis by linarith
qed

lemma step_offset_1 [simp]: "step_offset interval add (Suc 0) = interval"
  by (simp add: step_offset_def)

lemma solve_root:
  assumes "add \<noteq> 0" "0 \<le> interval" "\<forall>i \<in> {1..<N}. 0 < interval + add * int i" "1 \<le> n" "n \<le> N"
    "ticks < step_offset interval add N" "interval \<le> ticks"
  shows "step_offset interval add n \<le> ticks \<longleftrightarrow>
    real n \<le> (sqrt ((of_int interval - of_int add / 2) * (of_int interval - of_int add / 2) + 2 * of_int add * of_int ticks)
        - (of_int interval - of_int add / 2)) / of_int add"
proof -
  let ?a = "of_int add :: real" and ?b = "of_int interval - of_int add / 2 :: real"
  let ?D = "?b * ?b + 2 * ?a * of_int ticks"
  define q where "q m = ?a * real m + ?b" for m
  have sq: "2 * ?a * (of_int (step_offset interval add m) - of_int ticks) = q m * q m - ?D" for m
    by (simp add: step_offset_real q_def field_simps)
  have le: "step_offset interval add m \<le> ticks \<longleftrightarrow> real_of_int (step_offset interval add m) - of_int ticks \<le> 0" for m by simp
  show ?thesis
  proof (cases "0 < add")
    case True
    have "0 < ?a * (real n - 1 / 2)" using True assms(4) by (intro mult_pos_pos) auto
    then have q: "0 < q n" using assms(2) unfolding q_def by (simp add: algebra_simps)
    have "step_offset interval add n \<le> ticks \<longleftrightarrow> 2 * ?a * (of_int (step_offset interval add n) - of_int ticks) \<le> 0"
      unfolding le using True by (simp add: mult_le_0_iff)
    also have "\<dots> \<longleftrightarrow> q n \<le> sqrt ?D" unfolding sq using real_le_rsqrt [of "q n" ?D] q
      by (metis abs_of_pos diff_le_0_iff_le power2_eq_square real_sqrt_abs2 real_sqrt_le_iff)
    also have "\<dots> \<longleftrightarrow> real n \<le> (sqrt ?D - ?b) / ?a" using True by (simp add: q_def field_simps)
    finally show ?thesis .
  next
    case False
    then have a: "?a < 0" using assms(1) by simp
    have "2 * ?a * (of_int (step_offset interval add N) - of_int ticks) < 0"
      using mult_neg_pos [of "2 * ?a" "of_int (step_offset interval add N) - of_int ticks"] a assms(6) by simp
    then have DN: "q N * q N < ?D" unfolding sq by simp
    then have qN: "\<bar>q N\<bar> < sqrt ?D" by (metis real_sqrt_abs2 real_sqrt_less_iff)
    have div: "real m \<le> (sqrt ?D - ?b) / ?a \<longleftrightarrow> sqrt ?D \<le> q m" for m
      using a by (simp add: q_def le_divide_eq algebra_simps)
    show ?thesis
    proof (cases "n = N")
      case True
      then show ?thesis using assms(6) qN by (simp add: div)
    next
      case n: False
      then have "0 < interval + add * int n" using assms(3-5) by auto
      then have "0 < real_of_int interval + ?a * real n" by (metis of_int_0_less_iff of_int_add of_int_mult of_int_of_nat_eq)
      then have q: "0 < q n" using a by (simp add: q_def algebra_simps)
      have "step_offset interval add n \<le> ticks \<longleftrightarrow> 0 \<le> 2 * ?a * (of_int (step_offset interval add n) - of_int ticks)"
        unfolding le using a by (simp add: zero_le_mult_iff mult_less_0_iff)
      also have "\<dots> \<longleftrightarrow> sqrt ?D \<le> q n" unfolding sq using q
        by (metis abs_of_pos diff_ge_0_iff_ge real_sqrt_abs2 real_sqrt_le_iff)
      finally show ?thesis by (simp add: div)
    qed
  qed
qed

lemma count_upto:
  assumes "\<And>n. 1 \<le> n \<Longrightarrow> n \<le> N \<Longrightarrow> P n \<longleftrightarrow> real n \<le> r" "1 \<le> N" "P 1" "\<not> P N"
  shows "trunc_real r = int (card {n. 1 \<le> n \<and> n \<le> N \<and> P n})"
proof -
  have r: "1 \<le> r" "r < real N" using assms(1) [of 1] assms(1) [of N] assms(2-4) by auto
  then have "{n. 1 \<le> n \<and> n \<le> N \<and> P n} = {1..nat \<lfloor>r\<rfloor>}"
    using assms(1) by (auto simp: le_nat_iff le_floor_iff)
  then show ?thesis using r by (simp add: trunc_real_def)
qed

lemma solve_count_real:
  "solve_count real_fp add interval ticks =
    trunc_real ((sqrt ((of_int interval - of_int add / 2) * (of_int interval - of_int add / 2) + 2 * of_int add * of_int ticks)
        - (of_int interval - of_int add / 2)) / of_int add)"
  by (simp add: solve_count_def Let_def)

lemma solve_count_exact:
  assumes "add \<noteq> 0" "0 \<le> interval" "\<forall>i \<in> {1..<N}. 0 < interval + add * int i" "1 \<le> N"
    "ticks < step_offset interval add N" "interval \<le> ticks"
  shows "solve_count real_fp add interval ticks = int (card {n. 1 \<le> n \<and> n \<le> N \<and> step_offset interval add n \<le> ticks})"
  unfolding solve_count_real
  by (rule count_upto, rule solve_root [OF assms(1-3) _ _ assms(5,6)]) (use assms(4-6) in auto)

lemma le_div_int: "0 < k \<Longrightarrow> (n::int) \<le> m div k \<longleftrightarrow> n * k \<le> m"
proof
  assume k: "0 < k" and "n \<le> m div k"
  then have "n * k \<le> m div k * k" by (simp add: mult_right_mono)
  also have "\<dots> \<le> m" using div_mult_mod_eq [of m k] pos_mod_sign [OF k, of m] by linarith
  finally show "n * k \<le> m" .
next
  assume k: "0 < k" and "n * k \<le> m"
  then have "n * k div k \<le> m div k" by (intro zdiv_mono1) auto
  then show "n \<le> m div k" using k by simp
qed

lemma even_count_exact:
  assumes "0 < interval" "1 \<le> N" "ticks < step_offset interval 0 N" "interval \<le> ticks"
  shows "c_div ticks interval = int (card {n. 1 \<le> n \<and> n \<le> N \<and> step_offset interval 0 n \<le> ticks})"
proof -
  have n: "step_offset interval 0 n \<le> ticks \<longleftrightarrow> int n \<le> ticks div interval" for n
    using assms(1) by (simp add: step_offset_def le_div_int mult.commute)
  have m: "int m \<le> ticks div interval \<longleftrightarrow> m \<le> nat (ticks div interval)" for m
    using assms(1,4) by (simp add: le_nat_iff pos_imp_zdiv_nonneg_iff)
  have "\<not> N \<le> nat (ticks div interval)" using n [of N] m [of N] assms(3) by simp
  then have "1 \<le> k \<and> k \<le> N \<and> step_offset interval 0 k \<le> ticks \<longleftrightarrow> 1 \<le> k \<and> k \<le> nat (ticks div interval)" for k
    using n [of k] m [of k] by linarith
  then have "{n. 1 \<le> n \<and> n \<le> N \<and> step_offset interval 0 n \<le> ticks} = {1..nat (ticks div interval)}"
    unfolding atLeastAtMost_def atLeast_def atMost_def by auto
  then have "card {n. 1 \<le> n \<and> n \<le> N \<and> step_offset interval 0 n \<le> ticks} = nat (ticks div interval)" by simp
  moreover have "0 \<le> ticks div interval" using assms(1,4) by (intro pos_imp_zdiv_nonneg_iff [THEN iffD2]) auto
  ultimately show ?thesis using assms(1,4) by (simp only: c_div_def) simp
qed

section \<open>Entries of the history\<close>

lemma step_offset_mono:
  assumes "\<forall>i \<in> {1..<N}. 0 < interval + add * int i" "1 \<le> n" "n \<le> m" "m \<le> N"
  shows "step_offset interval add n \<le> step_offset interval add m"
  using assms(3,4)
proof (induction m rule: dec_induct)
  case (step m)
  then have "0 < interval + add * int m" using assms(1,2) by auto
  then show ?case using step by (simp add: step_offset_Suc)
qed simp

lemma entry_before: "entry_ok hs \<Longrightarrow> clock < hs_first_clock hs \<Longrightarrow> signed_steps clock hs = 0"
proof -
  assume e: "entry_ok hs" and c: "clock < hs_first_clock hs"
  have "\<not> uint (hs_first_clock hs) + step_offset (hs_interval hs) (hs_add hs) n - hs_interval hs \<le> uint clock"
    if "1 \<le> n" "n \<le> nat \<bar>hs_step_count hs\<bar>" for n
    using step_offset_mono [of "nat \<bar>hs_step_count hs\<bar>" "hs_interval hs" "hs_add hs" 1 n] e c that
    by (simp add: entry_ok_def Let_def word_less_def)
  then have "steps_due hs clock = {}" unfolding steps_due_def by blast
  then show ?thesis by (simp add: signed_steps_def)
qed

lemma entry_after: "entry_ok hs \<Longrightarrow> hs_last_clock hs \<le> clock \<Longrightarrow> signed_steps clock hs = hs_step_count hs"
proof -
  assume e: "entry_ok hs" and c: "hs_last_clock hs \<le> clock"
  let ?N = "nat \<bar>hs_step_count hs\<bar>"
  have "uint (hs_first_clock hs) + step_offset (hs_interval hs) (hs_add hs) n - hs_interval hs \<le> uint clock"
    if "1 \<le> n" "n \<le> ?N" for n
    using step_offset_mono [of ?N "hs_interval hs" "hs_add hs" n ?N] e c that
    by (simp add: entry_ok_def Let_def word_le_def)
  then have "steps_due hs clock = {1..?N}" unfolding steps_due_def by auto
  then show ?thesis by (auto simp: signed_steps_def)
qed

lemma sint_ucast_small: "uint (d::u64) < 2 ^ 31 \<Longrightarrow> sint (ucast d :: u32) = uint d"
  using signed_take_bit_int_eq_self [of 31 "uint d"] order_trans [OF _ uint_ge_0, of "- 2147483648" d]
  by (simp add: sint_uint unsigned_ucast_eq take_bit_int_eq_self)

lemma entry_within:
  assumes "entry_ok hs" "hs_first_clock hs \<le> clock" "clock < hs_last_clock hs"
    "ticks = sint (ucast (clock - hs_first_clock hs) :: u32) + hs_interval hs"
  shows "(if hs_add hs = 0 then c_div ticks (hs_interval hs) else solve_count real_fp (hs_add hs) (hs_interval hs) ticks)
    = int (card (steps_due hs clock))"
proof -
  let ?N = "nat \<bar>hs_step_count hs\<bar>"
  have e: "1 \<le> ?N" "0 \<le> hs_interval hs" "\<forall>i \<in> {1..<?N}. 0 < hs_interval hs + hs_add hs * int i"
    "uint (hs_last_clock hs) = uint (hs_first_clock hs) + step_offset (hs_interval hs) (hs_add hs) ?N - hs_interval hs"
    "uint (hs_last_clock hs) < uint (hs_first_clock hs) + 2 ^ 31"
    using assms(1) by (simp_all add: entry_ok_def Let_def)
  have c: "uint (hs_first_clock hs) \<le> uint clock" "uint clock < uint (hs_last_clock hs)"
    using assms(2,3) by (simp_all add: word_le_def word_less_def)
  have d: "uint (clock - hs_first_clock hs) = uint clock - uint (hs_first_clock hs)"
    using c(1) by (rule uint_sub_lem [THEN iffD1])
  have "ticks = uint clock - uint (hs_first_clock hs) + hs_interval hs"
    unfolding assms(4) using d c e(5) by (simp add: sint_ucast_small)
  then have t: "hs_interval hs \<le> ticks" "ticks < step_offset (hs_interval hs) (hs_add hs) ?N"
    "steps_due hs clock = {n. 1 \<le> n \<and> n \<le> ?N \<and> step_offset (hs_interval hs) (hs_add hs) n \<le> ticks}"
    using c e(4) by (auto simp: steps_due_def)
  show ?thesis
  proof (cases "hs_add hs = 0")
    case True
    have "?N \<noteq> 1" using t(1,2) by auto
    then have "0 < hs_interval hs" using e(1,3) True by auto
    then show ?thesis using even_count_exact [of "hs_interval hs" ?N ticks] e(1) t True by simp
  next
    case False
    then show ?thesis using solve_count_exact [OF False e(2,3,1) t(2,1)] t(3) by simp
  qed
qed

lemma chained_total:
  "chained base pos hss \<Longrightarrow> (\<forall>h \<in> set hss. hs_last_clock h \<le> clock) \<Longrightarrow> base + (\<Sum>h \<leftarrow> hss. signed_steps clock h) = pos"
proof (induction hss arbitrary: pos)
  case (Cons h hss)
  then have "base + (\<Sum>h \<leftarrow> hss. signed_steps clock h) = start_position h" by auto
  then show ?case using Cons.prems by (simp add: entry_after)
qed simp

lemma find_position_chained:
  "chained base pos hss \<Longrightarrow>
    find_position (solve_count real_fp) clock pos hss = base + (\<Sum>h \<leftarrow> hss. signed_steps clock h)"
proof (induction hss arbitrary: pos)
  case (Cons hs hss)
  show ?case
  proof (cases "clock < hs_first_clock hs")
    case True
    then show ?thesis using Cons by (simp add: entry_before)
  next
    case False
    then have "\<forall>h \<in> set hss. hs_last_clock h \<le> clock" using Cons.prems by fastforce
    then have o: "base + (\<Sum>h \<leftarrow> hss. signed_steps clock h) = start_position hs" using Cons.prems by (intro chained_total) auto
    show ?thesis
    proof (cases "hs_last_clock hs \<le> clock")
      case True
      then show ?thesis using False o Cons.prems by (simp add: entry_after)
    next
      case l: False
      then show ?thesis using False o entry_within [OF _ _ _ refl, of hs clock] Cons.prems
        by (simp add: signed_steps_def [of clock hs] Let_def del: not_less)
    qed
  qed
qed simp

section \<open>New moves\<close>

text \<open>A move whose steps go forward in time and stay within the range of the clock.\<close>

definition forward_move :: "u64 \<Rightarrow> step_move \<Rightarrow> bool" where
  "forward_move first_clock move \<longleftrightarrow>
     (let n = unat (mv_count move); d = step_offset (uint (mv_interval move)) (sint (mv_add move)) n - uint (mv_interval move) in
        1 \<le> n \<and> uint (mv_interval move) < 2 ^ 31 \<and> (\<forall>i \<in> {1..<n}. 0 < uint (mv_interval move) + sint (mv_add move) * int i) \<and>
        d < 2 ^ 31 \<and> uint first_clock + d < 2 ^ 64)"

lemma forward_ticks:
  assumes "1 \<le> n" "0 \<le> d" "d < 2 ^ 31" "d = step_offset (uint interval) (sint add) n - uint interval"
  shows "uint (scast (add :: 16 word) * of_nat (n * (n - 1) div 2) + interval * of_nat (n - 1) :: u32) = d"
proof -
  have n: "int (n * (n - 1) div 2) = int n * (int n - 1) div 2" "int (n - 1) = int n - 1" using assms(1) by (simp_all add: zdiv_int of_nat_diff)
  have "scast add * of_nat (n * (n - 1) div 2) + interval * of_nat (n - 1)
      = (of_int (sint add * int (n * (n - 1) div 2) + uint interval * int (n - 1)) :: u32)" by simp
  also have "sint add * int (n * (n - 1) div 2) + uint interval * int (n - 1) = d"
    unfolding n assms(4) step_offset_def by (simp add: algebra_simps)
  finally show ?thesis using assms(2,3) by (simp add: uint_word_of_int_eq take_bit_int_eq_self)
qed

lemma add_move_chained:
  assumes "chained base (last_position sc) (history_list sc)" "forward_move first_clock move"
    "\<forall>h \<in> set (history_list sc). hs_last_clock h < first_clock" "add_move first_clock move sc = Ret () sc'"
  shows "chained base (last_position sc') (history_list sc')"
proof -
  let ?n = "unat (mv_count move)" and ?i = "uint (mv_interval move)" and ?a = "sint (mv_add move)"
  let ?d = "step_offset ?i ?a ?n - ?i"
  let ?last = "first_clock + ucast (scast (mv_add move) * of_nat (?n * (?n - 1) div 2) + mv_interval move * of_nat (?n - 1) :: u32)"
  have m: "1 \<le> ?n" "?i < 2 ^ 31" "\<forall>i \<in> {1..<?n}. 0 < ?i + ?a * int i" "?d < 2 ^ 31" "uint first_clock + ?d < 2 ^ 64"
    using assms(2) by (simp_all add: forward_move_def Let_def)
  have d0: "0 \<le> ?d" using step_offset_mono [OF m(3), of 1 ?n] m(1) by simp
  have "uint (ucast (scast (mv_add move) * of_nat (?n * (?n - 1) div 2) + mv_interval move * of_nat (?n - 1) :: u32) :: u64) = ?d"
    using forward_ticks [OF m(1) d0 m(4) refl] d0 m(4) by (simp add: unsigned_ucast_eq take_bit_int_eq_self)
  then have l: "uint ?last = uint first_clock + ?d" using d0 m(5) by (simp add: uint_plus_simple_iff word_le_def uint_plus_if_size word_size)
  have i: "sint (mv_interval move) = ?i"
    using m(2) signed_take_bit_int_eq_self [of 31 ?i] order_trans [OF _ uint_ge_0, of "- 2147483648" "mv_interval move"]
    by (simp add: sint_uint)
  show ?thesis using assms(1,3,4) l i m d0
    by (auto simp: add_move_def Let_def entry_ok_def queue_msg_def split: option.splits)
qed

section \<open>The position at a clock\<close>

text \<open>
  C30: The position of a stepper at a clock of the past is the position before its history plus all steps that are due
  at that clock, forward and backward: the quadratic equation counts the steps of the move in progress exactly, for even
  moves and for moves that speed up or slow down. A move that the compression adds at the end keeps the history such.
\<close>

theorem past_position_exact:
  assumes "chained base (last_position (step_sc st)) (history_list (step_sc st))"
  shows "find_past_position real_fp clock st = base + (\<Sum>h \<leftarrow> history_list (step_sc st). signed_steps clock h) \<and>
    (forward_move first_clock move \<and> (\<forall>h \<in> set (history_list (step_sc st)). hs_last_clock h < first_clock) \<and>
       add_move first_clock move (step_sc st) = Ret () sc' \<longrightarrow>
     chained base (last_position sc') (history_list sc') \<and>
     find_past_position real_fp clock (st\<lparr>step_sc := sc'\<rparr>) = base + (\<Sum>h \<leftarrow> history_list sc'. signed_steps clock h))"
proof -
  have past: "find_past_position real_fp clock (st\<lparr>step_sc := sc\<rparr>) = base + (\<Sum>h \<leftarrow> history_list sc. signed_steps clock h)"
    if "chained base (last_position sc) (history_list sc)" for sc
    using find_position_chained [OF that] by (simp add: find_past_position_def stepcompress_find_past_position_def)
  show ?thesis using past [OF assms] past add_move_chained [OF assms] by fastforce
qed

text \<open>A move of four steps that slows down, and the position in the middle of it.\<close>

definition demo_past :: "real step_times" where
  "demo_past = (step_times_alloc real_fp 1)\<lparr>step_sc := (stepcompress_alloc 1)\<lparr>last_position := 4,
     history_list := [\<lparr>hs_first_clock = 1000, hs_last_clock = 1360, start_position = 0, hs_step_count = 4,
       hs_interval = 100, hs_add = 10\<rparr>]\<rparr>\<rparr>"

theorem past_position_exact_witness:
  "find_past_position real_fp 1300 demo_past = 3"
proof -
  let ?h = "\<lparr>hs_first_clock = 1000, hs_last_clock = 1360, start_position = 0, hs_step_count = 4, hs_interval = 100, hs_add = 10\<rparr>"
  have c: "chained 0 (last_position (step_sc demo_past)) (history_list (step_sc demo_past))"
    by (simp add: demo_past_def entry_ok_def Let_def step_offset_def)
  have "{1::nat..4} = {1, 2, 3, 4}" by auto
  moreover have "steps_due ?h 1300 = {n \<in> {1..4}. 900 + step_offset 100 10 n \<le> 1300}" by (auto simp: steps_due_def)
  ultimately have "steps_due ?h 1300 = {1, 2, 3}" by (auto simp: step_offset_def)
  then have "signed_steps 1300 ?h = 3" by (simp add: signed_steps_def)
  then show ?thesis using past_position_exact [OF c, of 1300] by (simp add: demo_past_def)
qed

end
