(* ===== verification/Bus.thy ===== *)
theory Bus
  imports Move_Pool
begin

text \<open>
  Messages on serial buses: \<open>klipper/src/spicmds.c\<close> and \<open>spi_software.c\<close>, \<open>i2ccmds.c\<close> and \<open>i2c_software.c\<close>.
  Definitions only. What a chip answers depends on what was sent to it: the state keeps all events on
  the lines in a log, and reads of a line are a function of that log.
\<close>

section \<open>Lines\<close>

text \<open>
  An output is driven to a level; an input with a pull-up is released. The last four are calls of the board's hardware
  buses, with the configuration that its setup function returned.
\<close>

datatype bus_event =
    Pin_write u32 bool
  | Pin_release u32
  | Spi_prepare nat
  | Spi_transfer nat "u8 list"
  | I2c_write nat "u8 list"
  | I2c_read nat "u8 list" nat

text \<open>
  The outside: the level of an input line after a log of events, the answers of the hardware buses byte by byte (an error
  is the message of a shutdown), and the options of the build.
\<close>

record bus_env =
  line :: "bus_event list \<Rightarrow> u32 \<Rightarrow> bool"
  want_software_spi :: bool
  want_software_i2c :: bool
  spi_setup :: "u32 \<Rightarrow> u8 \<Rightarrow> u32 \<Rightarrow> string + nat"
  spi_answer :: "bus_event list \<Rightarrow> nat \<Rightarrow> u8 list \<Rightarrow> nat \<Rightarrow> u8"
  i2c_setup :: "u32 \<Rightarrow> u32 \<Rightarrow> u8 \<Rightarrow> string + nat"
  i2c_write_error :: "bus_event list \<Rightarrow> nat \<Rightarrow> u8 list \<Rightarrow> string option"
  i2c_answer :: "bus_event list \<Rightarrow> nat \<Rightarrow> u8 list \<Rightarrow> nat \<Rightarrow> string + (nat \<Rightarrow> u8)"

section \<open>State\<close>

record spi_software =
  ss_miso :: u32
  ss_mosi :: u32
  ss_sclk :: u32
  ss_mode :: u8

text \<open>The union of \<open>struct spidev_s\<close>.\<close>

datatype spi_bus = No_bus | Spi_hardware nat | Spi_software spi_software

record spidev_s =
  spi_bus :: spi_bus
  spi_pin :: u32
  spi_flags :: u8

definition SF_HAVE_PIN :: u8 where "SF_HAVE_PIN = 1"
definition SF_SOFTWARE :: u8 where "SF_SOFTWARE = 2"
definition SF_HARDWARE :: u8 where "SF_HARDWARE = 4"
definition SF_CS_ACTIVE_HIGH :: u8 where "SF_CS_ACTIVE_HIGH = 8"

record spidev_shutdown_s =
  sd_spi :: "u8 option"
  shutdown_msg :: "u8 list"

record i2c_software =
  is_scl :: u32
  is_sda :: u32
  is_addr :: u8
  is_ticks :: u32

record i2cdev_s =
  i2c_config :: "nat option"
  i2c_soft :: "i2c_software option"
  i2c_flags :: u8

definition IF_SOFTWARE :: u8 where "IF_SOFTWARE = 1"
definition IF_HARDWARE :: u8 where "IF_HARDWARE = 2"

record bus_sys = mcu +
  bus_log :: "bus_event list"
  spidevs :: "u8 \<Rightarrow> spidev_s"
  spi_shutdowns :: "u8 \<Rightarrow> spidev_shutdown_s"
  i2cdevs :: "u8 \<Rightarrow> i2cdev_s"

definition spidev_zero :: spidev_s where
  "spidev_zero = \<lparr>spi_bus = No_bus, spi_pin = 0, spi_flags = 0\<rparr>"

definition i2cdev_zero :: i2cdev_s where
  "i2cdev_zero = \<lparr>i2c_config = None, i2c_soft = None, i2c_flags = 0\<rparr>"

definition upd_spi :: "u8 \<Rightarrow> (spidev_s \<Rightarrow> spidev_s) \<Rightarrow> 'a bus_sys_scheme \<Rightarrow> 'a bus_sys_scheme" where
  "upd_spi oid f s = s\<lparr>spidevs := (spidevs s)(oid := f (spidevs s oid))\<rparr>"

definition upd_i2c :: "u8 \<Rightarrow> (i2cdev_s \<Rightarrow> i2cdev_s) \<Rightarrow> 'a bus_sys_scheme \<Rightarrow> 'a bus_sys_scheme" where
  "upd_i2c oid f s = s\<lparr>i2cdevs := (i2cdevs s)(oid := f (i2cdevs s oid))\<rparr>"

definition log_event :: "bus_event \<Rightarrow> 'a bus_sys_scheme \<Rightarrow> 'a bus_sys_scheme" where
  "log_event e s = s\<lparr>bus_log := bus_log s @ [e]\<rparr>"

definition pin_write :: "u32 \<Rightarrow> bool \<Rightarrow> 'a bus_sys_scheme \<Rightarrow> 'a bus_sys_scheme" where
  "pin_write pin v s = log_event (Pin_write pin v) (gpio_out_write pin v s)"

definition pin_toggle :: "u32 \<Rightarrow> 'a bus_sys_scheme \<Rightarrow> 'a bus_sys_scheme" where
  "pin_toggle pin s = pin_write pin (\<not> pin_out s pin) s"

definition pin_release :: "u32 \<Rightarrow> 'a bus_sys_scheme \<Rightarrow> 'a bus_sys_scheme" where
  "pin_release pin s = log_event (Pin_release pin) s"

definition pin_out_setup :: "board \<Rightarrow> u32 \<Rightarrow> bool \<Rightarrow> 'a bus_sys_scheme \<Rightarrow> ('a bus_sys_scheme, u32) res" where
  "pin_out_setup bd pin v s =
     (if out_pin_ok bd pin then Ret pin (pin_write pin v s) else Shut ''Not an output pin'' s)"

definition pin_in_setup :: "board \<Rightarrow> u32 \<Rightarrow> 'a bus_sys_scheme \<Rightarrow> ('a bus_sys_scheme, u32) res" where
  "pin_in_setup bd pin s =
     (if in_pin_ok bd pin then Ret pin (pin_release pin s) else Shut ''Not a valid input pin'' s)"

definition read_pin :: "bus_env \<Rightarrow> u32 \<Rightarrow> 'a bus_sys_scheme \<Rightarrow> bool" where
  "read_pin env pin s = line env (bus_log s) pin"

section \<open>SPI by software\<close>

definition spi_software_prepare :: "spi_software \<Rightarrow> 'a bus_sys_scheme \<Rightarrow> 'a bus_sys_scheme" where
  "spi_software_prepare ss s = pin_write (ss_sclk ss) (bit_set (ss_mode ss) 0x02) s"

text \<open>The loop over the bits of a byte, with the number of rounds left.\<close>

fun spi_bits :: "bus_env \<Rightarrow> spi_software \<Rightarrow> nat \<Rightarrow> u8 \<Rightarrow> u8 \<Rightarrow> 'a bus_sys_scheme \<Rightarrow> u8 \<times> 'a bus_sys_scheme" where
  "spi_bits env ss 0 outbuf inbuf s = (inbuf, s)"
| "spi_bits env ss (Suc n) outbuf inbuf s =
     (if bit_set (ss_mode ss) 0x01 then
        (let s = pin_toggle (ss_sclk ss) s;
             s = pin_write (ss_mosi ss) (bit_set outbuf 0x80) s;
             outbuf = push_bit 1 outbuf;
             s = pin_toggle (ss_sclk ss) s;
             inbuf = push_bit 1 inbuf OR of_flag (read_pin env (ss_miso ss) s)
         in spi_bits env ss n outbuf inbuf s)
      else
        (let s = pin_write (ss_mosi ss) (bit_set outbuf 0x80) s;
             outbuf = push_bit 1 outbuf;
             s = pin_toggle (ss_sclk ss) s;
             inbuf = push_bit 1 inbuf OR of_flag (read_pin env (ss_miso ss) s);
             s = pin_toggle (ss_sclk ss) s
         in spi_bits env ss n outbuf inbuf s))"

text \<open>\<open>data\<close> are the bytes from the pointer to the end of the message; the value is what they are afterwards.\<close>

fun spi_software_transfer ::
    "bus_env \<Rightarrow> spi_software \<Rightarrow> bool \<Rightarrow> nat \<Rightarrow> u8 list \<Rightarrow> 'a bus_sys_scheme \<Rightarrow> ('a bus_sys_scheme, u8 list) res" where
  "spi_software_transfer env ss receive_data 0 data s = Ret data s"
| "spi_software_transfer env ss receive_data (Suc len) [] s = Fault"
| "spi_software_transfer env ss receive_data (Suc len) (b # data) s =
     (let (inbuf, s) = spi_bits env ss 8 b 0 s
      in bnd (spi_software_transfer env ss receive_data len data s) (\<lambda>data s.
           Ret ((if receive_data then inbuf else b) # data) s))"

section \<open>SPI devices\<close>

text \<open>The functions of the board.\<close>

definition spi_prepare :: "nat \<Rightarrow> 'a bus_sys_scheme \<Rightarrow> 'a bus_sys_scheme" where
  "spi_prepare cfg s = log_event (Spi_prepare cfg) s"

definition spi_transfer ::
    "bus_env \<Rightarrow> nat \<Rightarrow> bool \<Rightarrow> nat \<Rightarrow> u8 list \<Rightarrow> 'a bus_sys_scheme \<Rightarrow> ('a bus_sys_scheme, u8 list) res" where
  "spi_transfer env cfg receive_data len data s =
     (if length data < len then Fault
      else Ret (if receive_data then map (spi_answer env (bus_log s) cfg (take len data)) [0..<len] @ drop len data else data)
             (log_event (Spi_transfer cfg (take len data)) s))"

definition command_config_spi :: "board \<Rightarrow> nat \<Rightarrow> u32 list \<Rightarrow> 'a bus_sys_scheme \<Rightarrow> ('a bus_sys_scheme, unit) res" where
  "command_config_spi bd sz args s =
     (let oid = ucast (args ! 0); cs_active_high = (int_fast8 bd (args ! 2) \<noteq> 0)
      in bnd (oid_alloc bd oid T_spi sz s) (\<lambda>_ s.
         bnd (pin_out_setup bd (args ! 1) (\<not> cs_active_high) (upd_spi oid (\<lambda>_. spidev_zero) s)) (\<lambda>pin s.
           Ret () (upd_spi oid (\<lambda>d. d\<lparr>spi_pin := pin,
             spi_flags := spi_flags d OR SF_HAVE_PIN OR (if cs_active_high then SF_CS_ACTIVE_HIGH else 0)\<rparr>) s))))"

definition command_config_spi_without_cs ::
    "board \<Rightarrow> nat \<Rightarrow> u32 list \<Rightarrow> 'a bus_sys_scheme \<Rightarrow> ('a bus_sys_scheme, unit) res" where
  "command_config_spi_without_cs bd sz args s =
     (let oid = ucast (args ! 0)
      in bnd (oid_alloc bd oid T_spi sz s) (\<lambda>_ s. Ret () (upd_spi oid (\<lambda>_. spidev_zero) s)))"

definition spidev_oid_lookup :: "u8 \<Rightarrow> 'a bus_sys_scheme \<Rightarrow> ('a bus_sys_scheme, u8 option) res" where
  "spidev_oid_lookup oid s = bnd (oid_lookup oid T_spi s) (\<lambda>p s. Ret (map_option (\<lambda>_. oid) p) s)"

definition command_spi_set_bus :: "bus_env \<Rightarrow> u32 list \<Rightarrow> 'a bus_sys_scheme \<Rightarrow> ('a bus_sys_scheme, unit) res" where
  "command_spi_set_bus env args s =
     (let oid = ucast (args ! 0); mode = ucast (args ! 2) :: u8
      in with_oid oid T_spi (\<lambda>s.
           if mode > 3 \<or> bit_set (spi_flags (spidevs s oid)) (SF_SOFTWARE OR SF_HARDWARE) then Shut ''Invalid spi config'' s
           else
             (case spi_setup env (args ! 1) mode (args ! 3) of
                Inl e \<Rightarrow> Shut e s
              | Inr cfg \<Rightarrow>
                  Ret () (upd_spi oid (\<lambda>d. d\<lparr>spi_bus := Spi_hardware cfg, spi_flags := spi_flags d OR SF_HARDWARE\<rparr>) s))) s)"

definition spidev_set_software_bus :: "u8 \<Rightarrow> spi_software \<Rightarrow> 'a bus_sys_scheme \<Rightarrow> ('a bus_sys_scheme, unit) res" where
  "spidev_set_software_bus oid ss s =
     (if bit_set (spi_flags (spidevs s oid)) (SF_SOFTWARE OR SF_HARDWARE) then Shut ''Invalid spi config'' s
      else Ret () (upd_spi oid (\<lambda>d. d\<lparr>spi_bus := Spi_software ss, spi_flags := spi_flags d OR SF_SOFTWARE\<rparr>) s))"

definition command_spi_set_software_bus ::
    "board \<Rightarrow> nat \<Rightarrow> u32 list \<Rightarrow> 'a bus_sys_scheme \<Rightarrow> ('a bus_sys_scheme, unit) res" where
  "command_spi_set_software_bus bd sz args s =
     (let mode = ucast (args ! 4) :: u8; oid = ucast (args ! 0)
      in if mode > 3 then Shut ''Invalid spi config'' s
         else
           bnd (spidev_oid_lookup oid s) (\<lambda>p s.
           bnd (alloc_chunk bd sz s) (\<lambda>_ s.
           bnd (pin_in_setup bd (args ! 1) s) (\<lambda>miso s.
           bnd (pin_out_setup bd (args ! 2) False s) (\<lambda>mosi s.
           bnd (pin_out_setup bd (args ! 3) False s) (\<lambda>sclk s.
             case p of
               None \<Rightarrow> Fault
             | Some oid \<Rightarrow>
                 spidev_set_software_bus oid \<lparr>ss_miso = miso, ss_mosi = mosi, ss_sclk = sclk, ss_mode = mode\<rparr> s))))))"

definition spidev_have_cs_pin :: "u8 \<Rightarrow> 'a bus_sys_scheme \<Rightarrow> bool" where
  "spidev_have_cs_pin oid s \<longleftrightarrow> bit_set (spi_flags (spidevs s oid)) SF_HAVE_PIN"

definition spidev_get_cs_pin :: "u8 \<Rightarrow> 'a bus_sys_scheme \<Rightarrow> u32" where
  "spidev_get_cs_pin oid s = spi_pin (spidevs s oid)"

definition spidev_transfer ::
    "bus_env \<Rightarrow> u8 \<Rightarrow> bool \<Rightarrow> nat \<Rightarrow> u8 list \<Rightarrow> 'a bus_sys_scheme \<Rightarrow> ('a bus_sys_scheme, u8 list) res" where
  "spidev_transfer env oid receive_data data_len data s =
     (let d = spidevs s oid; flags = spi_flags d; soft = want_software_spi env \<and> bit_set flags SF_SOFTWARE
      in if \<not> bit_set flags (SF_SOFTWARE OR SF_HARDWARE) then Ret data s
         else
           (let cs = (\<lambda>act s. if bit_set flags SF_HAVE_PIN then pin_write (spi_pin d) (act = bit_set flags SF_CS_ACTIVE_HIGH) s else s)
            in case spi_bus d of
                 No_bus \<Rightarrow> Fault
               | Spi_software ss \<Rightarrow>
                   if \<not> soft then Fault
                   else
                     bnd (spi_software_transfer env ss receive_data data_len data (cs True (spi_software_prepare ss s)))
                       (\<lambda>data s. Ret data (cs False s))
               | Spi_hardware cfg \<Rightarrow>
                   if soft then Fault
                   else
                     bnd (spi_transfer env cfg receive_data data_len data (cs True (spi_prepare cfg s)))
                       (\<lambda>data s. Ret data (cs False s))))"

text \<open>\<open>mem\<close> gives the bytes that a pointer in a command leads to.\<close>

definition command_spi_transfer ::
    "bus_env \<Rightarrow> (u32 \<Rightarrow> u8 list) \<Rightarrow> u32 list \<Rightarrow> 'a bus_sys_scheme \<Rightarrow> ('a bus_sys_scheme, unit) res" where
  "command_spi_transfer env mem args s =
     (let oid = ucast (args ! 0); data_len = unat (ucast (args ! 1) :: u8)
      in with_oid oid T_spi (\<lambda>s.
           bnd (spidev_transfer env oid True data_len (mem (args ! 2)) s) (\<lambda>data s.
             Ret () (sendf ''spi_transfer_response'' [RInt (ucast oid), RBytes (take data_len data)] s))) s)"

definition command_spi_send ::
    "bus_env \<Rightarrow> (u32 \<Rightarrow> u8 list) \<Rightarrow> u32 list \<Rightarrow> 'a bus_sys_scheme \<Rightarrow> ('a bus_sys_scheme, unit) res" where
  "command_spi_send env mem args s =
     (let oid = ucast (args ! 0); data_len = unat (ucast (args ! 1) :: u8)
      in with_oid oid T_spi (\<lambda>s. bnd (spidev_transfer env oid False data_len (mem (args ! 2)) s) (\<lambda>_ s. Ret () s)) s)"

text \<open>\<open>sz\<close> is the size of the structure without its message.\<close>

definition command_config_spi_shutdown ::
    "board \<Rightarrow> nat \<Rightarrow> (u32 \<Rightarrow> u8 list) \<Rightarrow> u32 list \<Rightarrow> 'a bus_sys_scheme \<Rightarrow> ('a bus_sys_scheme, unit) res" where
  "command_config_spi_shutdown bd sz mem args s =
     (let oid = ucast (args ! 0); len = unat (ucast (args ! 2) :: u8)
      in bnd (spidev_oid_lookup (ucast (args ! 1)) s) (\<lambda>p s.
         bnd (oid_alloc bd oid T_spi_shutdown (sz + len) s) (\<lambda>_ s.
           Ret () (s\<lparr>spi_shutdowns := (spi_shutdowns s)(oid :=
             \<lparr>sd_spi = p, shutdown_msg = take len (mem (args ! 3))\<rparr>)\<rparr>))))"

definition spidev_shutdown :: "bus_env \<Rightarrow> 'a bus_sys_scheme \<Rightarrow> ('a bus_sys_scheme, unit) res" where
  "spidev_shutdown env s =
     andthen (foreach_oid T_spi (\<lambda>oid s.
         let d = spidevs s oid
         in Ret () (if bit_set (spi_flags d) SF_HAVE_PIN
                    then pin_write (spi_pin d) (\<not> bit_set (spi_flags d) SF_CS_ACTIVE_HIGH) s else s)) s) (\<lambda>s.
       foreach_oid T_spi_shutdown (\<lambda>oid s.
         let sd = spi_shutdowns s oid
         in case sd_spi sd of
              None \<Rightarrow> Fault
            | Some spi \<Rightarrow>
                bnd (spidev_transfer env spi False (length (shutdown_msg sd)) (shutdown_msg sd) s) (\<lambda>_ s. Ret () s)) s)"

section \<open>I2C by software\<close>

text \<open>
  Both lines are wired with pull-ups: a high level is a released line. The delays between the steps only read the clock;
  they are \<open>i2c_delay\<close> below, the steps here are the changes of the lines.
\<close>

definition nsecs_to_ticks :: "u32 \<Rightarrow> u32 \<Rightarrow> u32" where
  "nsecs_to_ticks freq ns = timer_from_us freq (ns * 1000) div 1000000"

text \<open>\<open>while (t > timer_read_time())\<close> over the values that the clock reads give; \<open>None\<close>: they ran out.\<close>

fun i2c_delay_loop :: "u32 \<Rightarrow> u32 list \<Rightarrow> u32 list option" where
  "i2c_delay_loop t [] = None"
| "i2c_delay_loop t (now # nows) = (if t > now then i2c_delay_loop t nows else Some nows)"

definition i2c_delay :: "u32 \<Rightarrow> u32 \<Rightarrow> u32 list \<Rightarrow> u32 list option" where
  "i2c_delay freq ticks nows =
     (case nows of [] \<Rightarrow> None | now # nows \<Rightarrow> i2c_delay_loop (now + nsecs_to_ticks freq ticks) nows)"

definition i2c_software_send_ack :: "i2c_software \<Rightarrow> bool \<Rightarrow> 'a bus_sys_scheme \<Rightarrow> 'a bus_sys_scheme" where
  "i2c_software_send_ack is ack s =
     (let s = (if ack then pin_release (is_sda is) s else pin_write (is_sda is) False s);
          s = pin_release (is_scl is) s
      in pin_write (is_scl is) False s)"

definition i2c_software_read_ack :: "bus_env \<Rightarrow> i2c_software \<Rightarrow> 'a bus_sys_scheme \<Rightarrow> bool \<times> 'a bus_sys_scheme" where
  "i2c_software_read_ack env is s =
     (let s = pin_release (is_sda is) s;
          s = pin_release (is_scl is) s;
          nack = read_pin env (is_sda is) s;
          s = pin_write (is_scl is) False s
      in (nack, pin_release (is_sda is) s))"

fun i2c_send_bits :: "i2c_software \<Rightarrow> nat \<Rightarrow> u8 \<Rightarrow> 'a bus_sys_scheme \<Rightarrow> 'a bus_sys_scheme" where
  "i2c_send_bits is 0 b s = s"
| "i2c_send_bits is (Suc n) b s =
     (let s = (if bit_set b 0x80 then pin_release (is_sda is) s else pin_write (is_sda is) False s);
          s = pin_release (is_scl is) s;
          s = pin_write (is_scl is) False s
      in i2c_send_bits is n (push_bit 1 b) s)"

definition i2c_software_send_byte :: "bus_env \<Rightarrow> i2c_software \<Rightarrow> u8 \<Rightarrow> 'a bus_sys_scheme \<Rightarrow> ('a bus_sys_scheme, unit) res" where
  "i2c_software_send_byte env is b s =
     (case i2c_software_read_ack env is (i2c_send_bits is 8 b s) of
        (nack, s) \<Rightarrow> if nack then Shut ''soft_i2c NACK'' s else Ret () s)"

fun i2c_read_bits :: "bus_env \<Rightarrow> i2c_software \<Rightarrow> nat \<Rightarrow> u8 \<Rightarrow> 'a bus_sys_scheme \<Rightarrow> u8 \<times> 'a bus_sys_scheme" where
  "i2c_read_bits env is 0 b s = (b, s)"
| "i2c_read_bits env is (Suc n) b s =
     (let s = pin_release (is_scl is) s;
          b = push_bit 1 b OR of_flag (read_pin env (is_sda is) s);
          s = pin_write (is_scl is) False s
      in i2c_read_bits env is n b s)"

definition i2c_software_read_byte ::
    "bus_env \<Rightarrow> i2c_software \<Rightarrow> nat \<Rightarrow> 'a bus_sys_scheme \<Rightarrow> u8 \<times> 'a bus_sys_scheme" where
  "i2c_software_read_byte env is remaining s =
     (let (b, s) = i2c_read_bits env is 8 0 (pin_release (is_sda is) s);
          s = pin_release (is_sda is) s
      in (b, i2c_software_send_ack is (remaining = 0) s))"

definition i2c_software_start :: "bus_env \<Rightarrow> i2c_software \<Rightarrow> u8 \<Rightarrow> 'a bus_sys_scheme \<Rightarrow> ('a bus_sys_scheme, unit) res" where
  "i2c_software_start env is addr s =
     (let s = pin_release (is_sda is) s;
          s = pin_release (is_scl is) s;
          s = pin_write (is_sda is) False s;
          s = pin_write (is_scl is) False s
      in i2c_software_send_byte env is addr s)"

definition i2c_software_stop :: "i2c_software \<Rightarrow> 'a bus_sys_scheme \<Rightarrow> 'a bus_sys_scheme" where
  "i2c_software_stop is s =
     (let s = pin_write (is_sda is) False s;
          s = pin_release (is_scl is) s
      in pin_release (is_sda is) s)"

fun i2c_send_bytes :: "bus_env \<Rightarrow> i2c_software \<Rightarrow> nat \<Rightarrow> u8 list \<Rightarrow> 'a bus_sys_scheme \<Rightarrow> ('a bus_sys_scheme, unit) res" where
  "i2c_send_bytes env is 0 bs s = Ret () s"
| "i2c_send_bytes env is (Suc n) [] s = Fault"
| "i2c_send_bytes env is (Suc n) (b # bs) s =
     andthen (i2c_software_send_byte env is b s) (i2c_send_bytes env is n bs)"

definition i2c_software_write ::
    "bus_env \<Rightarrow> i2c_software \<Rightarrow> u8 \<Rightarrow> u8 list \<Rightarrow> 'a bus_sys_scheme \<Rightarrow> ('a bus_sys_scheme, unit) res" where
  "i2c_software_write env is write_len write s =
     andthen (i2c_software_start env is (is_addr is) s) (\<lambda>s.
     andthen (i2c_send_bytes env is (unat write_len) write s) (\<lambda>s.
       Ret () (i2c_software_stop is s)))"

fun i2c_read_bytes :: "bus_env \<Rightarrow> i2c_software \<Rightarrow> nat \<Rightarrow> 'a bus_sys_scheme \<Rightarrow> u8 list \<times> 'a bus_sys_scheme" where
  "i2c_read_bytes env is 0 s = ([], s)"
| "i2c_read_bytes env is (Suc n) s =
     (let (b, s) = i2c_software_read_byte env is n s; (bs, s) = i2c_read_bytes env is n s in (b # bs, s))"

definition i2c_software_read ::
    "bus_env \<Rightarrow> i2c_software \<Rightarrow> u8 \<Rightarrow> u8 list \<Rightarrow> u8 \<Rightarrow> 'a bus_sys_scheme \<Rightarrow> ('a bus_sys_scheme, u8 list) res" where
  "i2c_software_read env is reg_len reg read_len s =
     andthen (if reg_len \<noteq> 0 then
                andthen (i2c_software_start env is (is_addr is) s) (i2c_send_bytes env is (unat reg_len) reg)
              else Ret () s) (\<lambda>s.
     andthen (i2c_software_start env is (is_addr is OR 0x01) s) (\<lambda>s.
       let (bs, s) = i2c_read_bytes env is (unat read_len) s in Ret bs (i2c_software_stop is s)))"

section \<open>I2C devices\<close>

text \<open>The functions of the board. A device without a configuration has a null pointer in it.\<close>

definition i2c_write :: "bus_env \<Rightarrow> nat option \<Rightarrow> u8 \<Rightarrow> u8 list \<Rightarrow> 'a bus_sys_scheme \<Rightarrow> ('a bus_sys_scheme, unit) res" where
  "i2c_write env cfg len data s =
     (case cfg of
        None \<Rightarrow> Fault
      | Some c \<Rightarrow>
          if length data < unat len then Fault
          else
            (let data = take (unat len) data; t = log_event (I2c_write c data) s
             in case i2c_write_error env (bus_log s) c data of None \<Rightarrow> Ret () t | Some e \<Rightarrow> Shut e t))"

definition i2c_read ::
    "bus_env \<Rightarrow> nat option \<Rightarrow> u8 \<Rightarrow> u8 list \<Rightarrow> u8 \<Rightarrow> 'a bus_sys_scheme \<Rightarrow> ('a bus_sys_scheme, u8 list) res" where
  "i2c_read env cfg reg_len reg read_len s =
     (case cfg of
        None \<Rightarrow> Fault
      | Some c \<Rightarrow>
          if length reg < unat reg_len then Fault
          else
            (let reg = take (unat reg_len) reg; t = log_event (I2c_read c reg (unat read_len)) s
             in case i2c_answer env (bus_log s) c reg (unat read_len) of Inl e \<Rightarrow> Shut e t | Inr b \<Rightarrow> Ret (map b [0..<unat read_len]) t))"

definition command_config_i2c :: "board \<Rightarrow> nat \<Rightarrow> u32 list \<Rightarrow> 'a bus_sys_scheme \<Rightarrow> ('a bus_sys_scheme, unit) res" where
  "command_config_i2c bd sz args s =
     (let oid = ucast (args ! 0)
      in bnd (oid_alloc bd oid T_i2c sz s) (\<lambda>_ s. Ret () (upd_i2c oid (\<lambda>_. i2cdev_zero) s)))"

definition i2cdev_oid_lookup :: "u8 \<Rightarrow> 'a bus_sys_scheme \<Rightarrow> ('a bus_sys_scheme, u8 option) res" where
  "i2cdev_oid_lookup oid s = bnd (oid_lookup oid T_i2c s) (\<lambda>p s. Ret (map_option (\<lambda>_. oid) p) s)"

definition command_i2c_set_bus :: "bus_env \<Rightarrow> u32 list \<Rightarrow> 'a bus_sys_scheme \<Rightarrow> ('a bus_sys_scheme, unit) res" where
  "command_i2c_set_bus env args s =
     (let addr = ucast (args ! 3 AND 0x7f) :: u8
      in bnd (i2cdev_oid_lookup (ucast (args ! 0)) s) (\<lambda>p s.
           case i2c_setup env (args ! 1) (args ! 2) addr of
             Inl e \<Rightarrow> Shut e s
           | Inr cfg \<Rightarrow>
               (case p of
                  None \<Rightarrow> Fault
                | Some oid \<Rightarrow> Ret () (upd_i2c oid (\<lambda>d. d\<lparr>i2c_config := Some cfg, i2c_flags := i2c_flags d OR IF_HARDWARE\<rparr>) s))))"

definition i2cdev_set_software_bus :: "u8 \<Rightarrow> i2c_software \<Rightarrow> 'a bus_sys_scheme \<Rightarrow> 'a bus_sys_scheme" where
  "i2cdev_set_software_bus oid is s = upd_i2c oid (\<lambda>d. d\<lparr>i2c_soft := Some is, i2c_flags := i2c_flags d OR IF_SOFTWARE\<rparr>) s"

definition command_i2c_set_software_bus ::
    "board \<Rightarrow> nat \<Rightarrow> u32 list \<Rightarrow> 'a bus_sys_scheme \<Rightarrow> ('a bus_sys_scheme, unit) res" where
  "command_i2c_set_software_bus bd sz args s =
     bnd (i2cdev_oid_lookup (ucast (args ! 0)) s) (\<lambda>p s.
     bnd (alloc_chunk bd sz s) (\<lambda>_ s.
     bnd (pin_in_setup bd (args ! 1) s) (\<lambda>scl s.
     bnd (pin_out_setup bd (args ! 1) True s) (\<lambda>_ s.
     bnd (pin_in_setup bd (args ! 2) s) (\<lambda>sda s.
     bnd (pin_out_setup bd (args ! 2) True s) (\<lambda>_ s.
       case p of
         None \<Rightarrow> Fault
       | Some oid \<Rightarrow>
           Ret () (i2cdev_set_software_bus oid
             \<lparr>is_scl = scl, is_sda = sda, is_addr = push_bit 1 (ucast (args ! 4 AND 0x7f)),
              is_ticks = 1000000 div 100 div 2\<rparr> s)))))))"

text \<open>Writing and reading by the bus that a device has.\<close>

definition dev_write :: "bus_env \<Rightarrow> u8 \<Rightarrow> u8 \<Rightarrow> u8 list \<Rightarrow> 'a bus_sys_scheme \<Rightarrow> ('a bus_sys_scheme, unit) res" where
  "dev_write env oid len data s =
     (let d = i2cdevs s oid
      in if want_software_i2c env \<and> bit_set (i2c_flags d) IF_SOFTWARE
         then (case i2c_soft d of None \<Rightarrow> Fault | Some is \<Rightarrow> i2c_software_write env is len data s)
         else i2c_write env (i2c_config d) len data s)"

definition dev_read :: "bus_env \<Rightarrow> u8 \<Rightarrow> u8 \<Rightarrow> u8 list \<Rightarrow> u8 \<Rightarrow> 'a bus_sys_scheme \<Rightarrow> ('a bus_sys_scheme, u8 list) res" where
  "dev_read env oid reg_len reg len s =
     (let d = i2cdevs s oid
      in if want_software_i2c env \<and> bit_set (i2c_flags d) IF_SOFTWARE
         then (case i2c_soft d of None \<Rightarrow> Fault | Some is \<Rightarrow> i2c_software_read env is reg_len reg len s)
         else i2c_read env (i2c_config d) reg_len reg len s)"

definition command_i2c_write ::
    "bus_env \<Rightarrow> (u32 \<Rightarrow> u8 list) \<Rightarrow> u32 list \<Rightarrow> 'a bus_sys_scheme \<Rightarrow> ('a bus_sys_scheme, unit) res" where
  "command_i2c_write env mem args s =
     (let oid = ucast (args ! 0)
      in with_oid oid T_i2c (dev_write env oid (ucast (args ! 1)) (mem (args ! 2))) s)"

definition command_i2c_read ::
    "bus_env \<Rightarrow> (u32 \<Rightarrow> u8 list) \<Rightarrow> u32 list \<Rightarrow> 'a bus_sys_scheme \<Rightarrow> ('a bus_sys_scheme, unit) res" where
  "command_i2c_read env mem args s =
     (let oid = ucast (args ! 0)
      in with_oid oid T_i2c (\<lambda>s.
           bnd (dev_read env oid (ucast (args ! 1)) (mem (args ! 2)) (ucast (args ! 3)) s) (\<lambda>data s.
             Ret () (sendf ''i2c_read_response'' [RInt (ucast oid), RBytes data] s))) s)"

text \<open>The loop that clears and sets bits; the masks are the two halves of the last argument.\<close>

definition modify_bits :: "nat \<Rightarrow> u8 list \<Rightarrow> u8 list \<Rightarrow> u8 list" where
  "modify_bits n clear_set data =
     map (\<lambda>i. (data ! i AND NOT (clear_set ! i)) OR clear_set ! (n + i)) [0..<n]"

definition command_i2c_modify_bits ::
    "bus_env \<Rightarrow> (u32 \<Rightarrow> u8 list) \<Rightarrow> u32 list \<Rightarrow> 'a bus_sys_scheme \<Rightarrow> ('a bus_sys_scheme, unit) res" where
  "command_i2c_modify_bits env mem args s =
     (let oid = ucast (args ! 0)
      in bnd (oid_lookup oid T_i2c s) (\<lambda>p s.
           let reg_len = ucast (args ! 1) :: u8; reg = mem (args ! 2)
           in if args ! 3 mod 2 \<noteq> 0 then Shut ''i2c_modify_bits: Odd number of bits!'' s
              else
                (let data_len = ucast (args ! 3 div 2) :: u8
                 in deref p (\<lambda>s.
                      bnd (dev_read env oid reg_len reg data_len s) (\<lambda>data s.
                        dev_write env oid (reg_len + data_len)
                          (take (unat reg_len) reg @ modify_bits (unat data_len) (mem (args ! 4)) data) s)) s)))"

end
