(* ===== verification/Bus_Props.thy ===== *)
theory Bus_Props
  imports Bus Kernel_Correct
begin

text \<open>
  What goes over the wires of the buses that are driven by software. A chip on the bus is a function from what it has
  been sent to the level that it puts on its line.
\<close>

section \<open>Events on lines\<close>

text \<open>The level that a line was driven to last.\<close>

fun level :: "u32 \<Rightarrow> bool \<Rightarrow> bus_event list \<Rightarrow> bool" where
  "level p v [] = v"
| "level p v (Pin_write q x # es) = level p (if q = p then x else v) es"
| "level p v (e # es) = level p v es"

lemma level_append [simp]: "level p v (es @ fs) = level p (level p v es) fs"
  by (induction p v es rule: level.induct) simp_all

text \<open>An operation that changes nothing but lines.\<close>

definition lines_only :: "'a bus_sys_scheme \<Rightarrow> bus_event list \<Rightarrow> 'a bus_sys_scheme \<Rightarrow> bool" where
  "lines_only s es s' \<longleftrightarrow> s' = s\<lparr>pin_out := pin_out s', bus_log := bus_log s @ es\<rparr> \<and> (\<forall>p. pin_out s' p = level p (pin_out s p) es)"


lemma lines_only_log: "lines_only s es s' \<Longrightarrow> bus_log s' = bus_log s @ es"
  unfolding lines_only_def by (erule conjE, erule ssubst) simp

lemma lines_only_out: "lines_only s es s' \<Longrightarrow> pin_out s' p = level p (pin_out s p) es"
  by (simp add: lines_only_def)

lemma lines_only_Nil: "lines_only s [] s"
  by (simp add: lines_only_def)

lemma lines_only_append:
  assumes "lines_only s es s'" "lines_only s' fs s''"
  shows "lines_only s (es @ fs) s''"
proof -
  have "s'' = s'\<lparr>pin_out := pin_out s'', bus_log := bus_log s' @ fs\<rparr>" using assms(2) by (simp add: lines_only_def)
  also have "s' = s\<lparr>pin_out := pin_out s', bus_log := bus_log s @ es\<rparr>" using assms(1) by (simp add: lines_only_def)
  finally have "s'' = s\<lparr>pin_out := pin_out s'', bus_log := bus_log s @ es @ fs\<rparr>" by simp
  then show ?thesis using lines_only_out [OF assms(1)] lines_only_out [OF assms(2)] by (simp add: lines_only_def)
qed

lemma pin_write_lines [simp]: "lines_only s [Pin_write p v] (pin_write p v s)"
  by (simp add: lines_only_def pin_write_def log_event_def gpio_out_write_def)

lemma pin_toggle_lines [simp]: "lines_only s [Pin_write p (\<not> pin_out s p)] (pin_toggle p s)"
  by (simp add: pin_toggle_def)

lemma pin_release_lines [simp]: "lines_only s [Pin_release p] (pin_release p s)"
  by (simp add: lines_only_def pin_release_def log_event_def)

section \<open>Bits of bytes\<close>

fun top_bits :: "nat \<Rightarrow> u8 \<Rightarrow> bool list" where
  "top_bits 0 b = []"
| "top_bits (Suc n) b = bit_set b 0x80 # top_bits n (push_bit 1 b)"

definition bits_of :: "u8 \<Rightarrow> bool list" where
  "bits_of b = map (\<lambda>i. bit b (7 - i)) [0..<8]"

definition shift_in :: "u8 \<Rightarrow> bool \<Rightarrow> u8" where
  "shift_in b v = push_bit 1 b OR of_flag v"

definition byte_of :: "bool list \<Rightarrow> u8" where
  "byte_of vs = foldl shift_in 0 vs"

lemma bit_set_80: "bit_set b 0x80 \<longleftrightarrow> bit (b :: u8) 7"
proof -
  have m: "(0x80 :: u8) = push_bit 7 1" by simp
  show ?thesis unfolding bit_set_def m by (metis and_exp_eq_0_iff_not_bit push_bit_of_1)
qed

lemma bit_shift_left: "bit (push_bit n (b :: u8)) i \<longleftrightarrow> n \<le> i \<and> i < 8 \<and> bit b (i - n)"
  using bit_push_bit_iff [of n b i] by simp

lemma top_bits_map: "n \<le> 8 \<Longrightarrow> top_bits n b = map (\<lambda>i. bit b (7 - i)) [0..<n]"
proof (induction n arbitrary: b)
  case (Suc n)
  have "top_bits (Suc n) b = bit b 7 # map (\<lambda>i. bit (push_bit 1 b) (7 - i)) [0..<n]"
    using Suc by (simp only: top_bits.simps bit_set_80)
  also have "\<dots> = map (\<lambda>i. bit b (7 - i)) [0..<Suc n]"
    unfolding map_upt_Suc using Suc.prems by (simp only: bit_shift_left) auto
  finally show ?case .
qed simp

lemma bits_of_top: "bits_of b = top_bits 8 b"
  by (simp add: bits_of_def top_bits_map)

lemma length_top_bits [simp]: "length (top_bits n b) = n"
  by (induction n arbitrary: b) simp_all

lemma bit_shift_in: "bit (shift_in b v) i \<longleftrightarrow> i < 8 \<and> (if i = 0 then v else bit b (i - 1))"
  unfolding shift_in_def bit_or_iff bit_shift_left by (cases i) (auto simp: of_flag_def bit_1_iff)

lemma byte_bits: "byte_of (bits_of b) = b"
proof (rule bit_eqI)
  fix i assume "possible_bit TYPE(u8) i"
  then have "i < 8" by simp
  then have "i \<in> {0, 1, 2, 3, 4, 5, 6, 7}" by auto
  then show "bit (byte_of (bits_of b)) i = bit b i"
    by (auto simp: byte_of_def bits_of_def numeral_eq_Suc upt_rec bit_shift_in)
qed

section \<open>A chip on the SPI bus\<close>

text \<open>
  The bits that a chip takes in: the level of \<open>mosi\<close> at the sampling edges of the clock. The modes differ in the level of
  the idle clock and in whether the edge away from it or back to it samples.
\<close>

definition spi_idle :: "spi_software \<Rightarrow> bool" where
  "spi_idle ss = bit_set (ss_mode ss) 0x02"

definition spi_late :: "spi_software \<Rightarrow> bool" where
  "spi_late ss = bit_set (ss_mode ss) 0x01"

fun clocked :: "spi_software \<Rightarrow> bool \<Rightarrow> bool \<Rightarrow> bus_event list \<Rightarrow> bool list" where
  "clocked ss m c [] = []"
| "clocked ss m c (Pin_write p v # es) =
     (if p = ss_sclk ss then
        (if v \<noteq> c \<and> (v = spi_idle ss) = spi_late ss then [m] else []) @ clocked ss m v es
      else clocked ss (if p = ss_mosi ss then v else m) c es)"
| "clocked ss m c (e # es) = clocked ss m c es"

lemma clocked_append:
  "ss_mosi ss \<noteq> ss_sclk ss \<Longrightarrow>
    clocked ss m c (es @ fs) = clocked ss m c es @ clocked ss (level (ss_mosi ss) m es) (level (ss_sclk ss) c es) fs"
  by (induction ss m c es rule: clocked.induct) auto

text \<open>
  A chip answers each bit with a level on \<open>miso\<close> that depends on the bits it has taken in since \<open>s\<close>.
\<close>

definition spi_chip :: "bus_env \<Rightarrow> spi_software \<Rightarrow> (bool list \<Rightarrow> bool) \<Rightarrow> 'a bus_sys_scheme \<Rightarrow> bool" where
  "spi_chip env ss answer s \<longleftrightarrow>
     (\<forall>es. line env (bus_log s @ es) (ss_miso ss) =
        answer (clocked ss (pin_out s (ss_mosi ss)) (pin_out s (ss_sclk ss)) es))"

fun replies :: "(bool list \<Rightarrow> bool) \<Rightarrow> bool list \<Rightarrow> bool list" where
  "replies answer [] = []"
| "replies answer (b # bs) = answer [b] # replies (\<lambda>x. answer (b # x)) bs"

lemma replies_append: "replies f (bs @ cs) = replies f bs @ replies (\<lambda>x. f (bs @ x)) cs"
  by (induction bs arbitrary: f) simp_all

lemma length_replies [simp]: "length (replies f bs) = length bs"
  by (induction bs arbitrary: f) simp_all

definition spi_ready :: "spi_software \<Rightarrow> 'a bus_sys_scheme \<Rightarrow> bool" where
  "spi_ready ss s \<longleftrightarrow> ss_mosi ss \<noteq> ss_sclk ss \<and> pin_out s (ss_sclk ss) = spi_idle ss"

text \<open>What a part of a transfer does that sends \<open>bs\<close>.\<close>

definition spi_sends :: "spi_software \<Rightarrow> bool list \<Rightarrow> 'a bus_sys_scheme \<Rightarrow> bus_event list \<Rightarrow> 'a bus_sys_scheme \<Rightarrow> bool" where
  "spi_sends ss bs s es s' \<longleftrightarrow> lines_only s es s' \<and> spi_ready ss s' \<and>
     clocked ss (pin_out s (ss_mosi ss)) (pin_out s (ss_sclk ss)) es = bs \<and>
     (\<forall>e \<in> set es. \<exists>v. e = Pin_write (ss_mosi ss) v \<or> e = Pin_write (ss_sclk ss) v)"

lemma spi_sends_Nil: "spi_ready ss s \<Longrightarrow> spi_sends ss [] s [] s"
  by (simp add: spi_sends_def lines_only_Nil)

lemma spi_sends_append:
  assumes "spi_sends ss bs s es s'" "spi_sends ss cs s' fs s''"
  shows "spi_sends ss (bs @ cs) s (es @ fs) s''"
  using assms lines_only_append [of s es s' fs s'']
  by (auto simp: spi_sends_def spi_ready_def clocked_append lines_only_out)

lemma spi_chip_after:
  assumes "spi_chip env ss answer s" "spi_sends ss bs s es s'"
  shows "spi_chip env ss (\<lambda>x. answer (bs @ x)) s'"
  using assms by (auto simp: spi_chip_def spi_sends_def spi_ready_def lines_only_log lines_only_out clocked_append)

text \<open>One bit: in both orders of the steps, the chip samples the bit, and the code reads its answer after that.\<close>

lemma spi_bit:
  assumes "spi_ready ss s" "spi_chip env ss answer s"
  shows "\<exists>es s'. spi_sends ss [bit_set outbuf 0x80] s es s' \<and>
    spi_bits env ss (Suc n) outbuf inbuf s =
      spi_bits env ss n (push_bit 1 outbuf) (shift_in inbuf (answer [bit_set outbuf 0x80])) s'"
proof -
  let ?m = "ss_mosi ss" and ?c = "ss_sclk ss" and ?i = "spi_idle ss" and ?b = "bit_set outbuf 0x80"
  have r: "?m \<noteq> ?c" "pin_out s ?c = ?i" using assms(1) by (simp_all add: spi_ready_def)
  have chip: "line env (bus_log s @ es) (ss_miso ss) = answer (clocked ss (pin_out s ?m) ?i es)" for es
    using assms(2) r(2) by (simp add: spi_chip_def)
  show ?thesis
  proof (cases "spi_late ss")
    case True
    let ?s1 = "pin_write ?m ?b (pin_toggle ?c s)"
    let ?s' = "pin_toggle ?c ?s1"
    let ?es = "[Pin_write ?c (\<not> ?i), Pin_write ?m ?b, Pin_write ?c ?i]"
    have l: "lines_only s ([Pin_write ?c (\<not> ?i)] @ [Pin_write ?m ?b]) ?s1"
      using lines_only_append [OF pin_toggle_lines [of s ?c] pin_write_lines [of "pin_toggle ?c s" ?m ?b]] r(2) by simp
    then have "pin_out ?s1 ?c = (\<not> ?i)" using lines_only_out [OF l, of ?c] r(1) by auto
    then have l': "lines_only s ?es ?s'" using lines_only_append [OF l pin_toggle_lines [of ?s1 ?c]] by simp
    have "spi_sends ss [?b] s ?es ?s'"
      using l' r True lines_only_out [OF l', of ?c] by (simp add: spi_sends_def spi_ready_def)
    moreover have "read_pin env (ss_miso ss) ?s' = answer [?b]"
      using r True by (simp add: read_pin_def lines_only_log [OF l'] chip)
    ultimately show ?thesis using True by (intro exI [of _ ?es] exI [of _ ?s']) (simp add: spi_late_def Let_def shift_in_def)
  next
    case False
    let ?s1 = "pin_toggle ?c (pin_write ?m ?b s)"
    let ?s' = "pin_toggle ?c ?s1"
    let ?es = "[Pin_write ?m ?b, Pin_write ?c (\<not> ?i), Pin_write ?c ?i]"
    have "pin_out (pin_write ?m ?b s) ?c = ?i" using lines_only_out [OF pin_write_lines [of s ?m ?b], of ?c] r by auto
    then have l: "lines_only s ([Pin_write ?m ?b] @ [Pin_write ?c (\<not> ?i)]) ?s1"
      using lines_only_append [OF pin_write_lines [of s ?m ?b] pin_toggle_lines [of "pin_write ?m ?b s" ?c]] by simp
    then have "pin_out ?s1 ?c = (\<not> ?i)" using lines_only_out [OF l, of ?c] r(1) by auto
    then have l': "lines_only s ?es ?s'" using lines_only_append [OF l pin_toggle_lines [of ?s1 ?c]] by simp
    have "spi_sends ss [?b] s ?es ?s'"
      using l' r False lines_only_out [OF l', of ?c] by (auto simp: spi_sends_def spi_ready_def)
    moreover have "read_pin env (ss_miso ss) ?s1 = answer [?b]"
      using r False lines_only_log [OF l] by (auto simp: read_pin_def chip)
    ultimately show ?thesis using False by (intro exI [of _ ?es] exI [of _ ?s']) (simp add: spi_late_def Let_def shift_in_def)
  qed
qed

lemma spi_bits_spec:
  assumes "spi_ready ss s" "spi_chip env ss answer s"
  shows "\<exists>es s'. spi_sends ss (top_bits n outbuf) s es s' \<and>
    spi_bits env ss n outbuf inbuf s = (foldl shift_in inbuf (replies answer (top_bits n outbuf)), s')"
  using assms
proof (induction n arbitrary: outbuf inbuf s answer)
  case 0
  then show ?case by (auto intro!: exI [of _ "[]"] spi_sends_Nil)
next
  case (Suc n)
  obtain es s1 where 1: "spi_sends ss [bit_set outbuf 0x80] s es s1"
    "spi_bits env ss (Suc n) outbuf inbuf s =
      spi_bits env ss n (push_bit 1 outbuf) (shift_in inbuf (answer [bit_set outbuf 0x80])) s1"
    using spi_bit [OF Suc.prems] by blast
  have "spi_ready ss s1" using 1(1) by (simp add: spi_sends_def)
  from Suc.IH [OF this spi_chip_after [OF Suc.prems(2) 1(1)], of "push_bit 1 outbuf"]
  obtain fs s' where 2: "spi_sends ss (top_bits n (push_bit 1 outbuf)) s1 fs s'"
    "spi_bits env ss n (push_bit 1 outbuf) (shift_in inbuf (answer [bit_set outbuf 0x80])) s1 =
      (foldl shift_in (shift_in inbuf (answer [bit_set outbuf 0x80]))
        (replies (\<lambda>x. answer ([bit_set outbuf 0x80] @ x)) (top_bits n (push_bit 1 outbuf))), s')" by blast
  show ?case using spi_sends_append [OF 1(1) 2(1)] 1(2) 2(2) by (intro exI [of _ "es @ fs"] exI [of _ s']) simp
qed

text \<open>The bytes that a chip answers to a message.\<close>

fun reply_bytes :: "(bool list \<Rightarrow> bool) \<Rightarrow> u8 list \<Rightarrow> u8 list" where
  "reply_bytes answer [] = []"
| "reply_bytes answer (b # data) = byte_of (replies answer (bits_of b)) # reply_bytes (\<lambda>x. answer (bits_of b @ x)) data"

lemma length_reply_bytes [simp]: "length (reply_bytes answer data) = length data"
  by (induction data arbitrary: answer) simp_all

lemma spi_software_transfer_spec:
  assumes "spi_ready ss s" "spi_chip env ss answer s" "len \<le> length data"
  shows "\<exists>es s'. spi_sends ss (concat (map bits_of (take len data))) s es s' \<and>
    spi_software_transfer env ss receive len data s =
      Ret (if receive then reply_bytes answer (take len data) @ drop len data else data) s'"
  using assms
proof (induction len arbitrary: data s answer)
  case 0
  then show ?case by (auto intro!: exI [of _ "[]"] spi_sends_Nil)
next
  case (Suc len)
  obtain b bs where d: "data = b # bs" "len \<le> length bs" using Suc.prems(3) by (cases data) auto
  obtain es s1 where 1: "spi_sends ss (bits_of b) s es s1"
    "spi_bits env ss 8 b 0 s = (byte_of (replies answer (bits_of b)), s1)"
    using spi_bits_spec [OF Suc.prems(1,2), of 8 b 0] by (auto simp: bits_of_top byte_of_def)
  have "spi_ready ss s1" using 1(1) by (simp add: spi_sends_def)
  from Suc.IH [OF this spi_chip_after [OF Suc.prems(2) 1(1)] d(2)]
  obtain fs s' where 2: "spi_sends ss (concat (map bits_of (take len bs))) s1 fs s'"
    "spi_software_transfer env ss receive len bs s1 =
      Ret (if receive then reply_bytes (\<lambda>x. answer (bits_of b @ x)) (take len bs) @ drop len bs else bs) s'" by blast
  show ?case using spi_sends_append [OF 1(1) 2(1)] 1(2) 2(2)
    by (intro exI [of _ "es @ fs"] exI [of _ s']) (simp add: d(1))
qed

text \<open>
  A transfer with a device whose chip select is another line: the clock goes to its idle level, the select line becomes
  active, the bits go out and the answers come in, and the select line becomes inactive.
\<close>

definition software_device :: "bus_env \<Rightarrow> spi_software \<Rightarrow> u8 \<Rightarrow> 'a bus_sys_scheme \<Rightarrow> bool" where
  "software_device env ss oid s \<longleftrightarrow>
     (let d = spidevs s oid
      in want_software_spi env \<and> spi_bus d = Spi_software ss \<and> bit_set (spi_flags d) SF_SOFTWARE \<and>
         ss_mosi ss \<noteq> ss_sclk ss \<and> bit_set (spi_flags d) SF_HAVE_PIN \<and> spi_pin d \<noteq> ss_mosi ss \<and> spi_pin d \<noteq> ss_sclk ss)"

definition selected :: "spi_software \<Rightarrow> u8 \<Rightarrow> 'a bus_sys_scheme \<Rightarrow> 'a bus_sys_scheme" where
  "selected ss oid s =
     pin_write (spi_pin (spidevs s oid)) (bit_set (spi_flags (spidevs s oid)) SF_CS_ACTIVE_HIGH) (spi_software_prepare ss s)"

text \<open>
  C14: A message to a device on a software bus goes out bit by bit, the most significant first, at the sampling edges of its
  mode and while its chip is selected, and the bytes read back are those that the chip answers, in any of the four modes.
\<close>

theorem spi_exchanges_bytes:
  fixes s :: "'a bus_sys_scheme"
  assumes "software_device env ss oid s" "spi_chip env ss answer (selected ss oid s)" "len \<le> length data"
  shows "\<exists>es s1 s'. spi_sends ss (concat (map bits_of (take len data))) (selected ss oid s) es s1 \<and>
    spidev_transfer env oid receive len data s =
      Ret (if receive then reply_bytes answer (take len data) @ drop len data else data) s' \<and>
    (let cs = spi_pin (spidevs s oid); act = bit_set (spi_flags (spidevs s oid)) SF_CS_ACTIVE_HIGH
     in bus_log s' = bus_log s @ [Pin_write (ss_sclk ss) (spi_idle ss), Pin_write cs act] @ es @ [Pin_write cs (\<not> act)] \<and>
        (\<forall>v. Pin_write cs v \<notin> set es))"
proof -
  let ?d = "spidevs s oid"
  have d: "want_software_spi env" "spi_bus ?d = Spi_software ss" "bit_set (spi_flags ?d) SF_SOFTWARE"
    "ss_mosi ss \<noteq> ss_sclk ss" "bit_set (spi_flags ?d) SF_HAVE_PIN" "spi_pin ?d \<noteq> ss_mosi ss" "spi_pin ?d \<noteq> ss_sclk ss"
    using assms(1) by (simp_all add: software_device_def Let_def)
  let ?act = "bit_set (spi_flags ?d) SF_CS_ACTIVE_HIGH" and ?s0 = "selected ss oid s"
  have l0: "lines_only s [Pin_write (ss_sclk ss) (spi_idle ss), Pin_write (spi_pin ?d) ?act] ?s0"
    using lines_only_append [OF pin_write_lines [of s "ss_sclk ss" "spi_idle ss"]
        pin_write_lines [of "pin_write (ss_sclk ss) (spi_idle ss) s" "spi_pin ?d" ?act]]
    by (simp add: selected_def spi_software_prepare_def spi_idle_def)
  have r: "spi_ready ss ?s0" using d(4,7) lines_only_out [OF l0, of "ss_sclk ss"] by (auto simp: spi_ready_def)
  obtain es s1 where 1: "spi_sends ss (concat (map bits_of (take len data))) ?s0 es s1"
    "spi_software_transfer env ss receive len data ?s0 =
      Ret (if receive then reply_bytes answer (take len data) @ drop len data else data) s1"
    using spi_software_transfer_spec [OF r assms(2,3)] by blast
  have fl: "bit_set (spi_flags ?d) (SF_SOFTWARE OR SF_HARDWARE)"
    using d(3) by (auto simp: bit_set_def bit.conj_disj_distrib or_eq_0_iff)
  have sd: "spidev_transfer env oid receive len data s =
      Ret (if receive then reply_bytes answer (take len data) @ drop len data else data) (pin_write (spi_pin ?d) (\<not> ?act) s1)"
    using 1(2) d fl by (simp add: spidev_transfer_def Let_def selected_def)
  have n: "Pin_write (spi_pin ?d) v \<notin> set es" for v using 1(1) d(6,7) by (auto simp: spi_sends_def)
  have "lines_only ?s0 es s1" using 1(1) by (simp add: spi_sends_def)
  then have "bus_log (pin_write (spi_pin ?d) (\<not> ?act) s1) =
      bus_log s @ [Pin_write (ss_sclk ss) (spi_idle ss), Pin_write (spi_pin ?d) ?act] @ es @ [Pin_write (spi_pin ?d) (\<not> ?act)]"
    using lines_only_log [OF l0] lines_only_log [OF pin_write_lines [of s1 "spi_pin ?d" "\<not> ?act"]]
    by (simp add: lines_only_log)
  then show ?thesis using 1(1) sd n by (auto simp: Let_def)
qed

text \<open>A wire from \<open>mosi\<close> to \<open>miso\<close> of a device in mode 3.\<close>

definition demo_ss :: spi_software where
  "demo_ss = \<lparr>ss_miso = 3, ss_mosi = 4, ss_sclk = 5, ss_mode = 3\<rparr>"

definition demo_wire :: bus_env where
  "demo_wire = \<lparr>line = \<lambda>log p. last (clocked demo_ss False True (drop 2 log)), want_software_spi = True, want_software_i2c = True,
     spi_setup = \<lambda>_ _ _. Inl [], spi_answer = \<lambda>_ _ _ _. 0, i2c_setup = \<lambda>_ _ _. Inl [],
     i2c_write_error = \<lambda>_ _ _. None, i2c_answer = \<lambda>_ _ _ _. Inl []\<rparr>"

definition demo_bus :: bus_sys where
  "demo_bus = mcu.extend (demo_mcu\<lparr>pin_out := \<lambda>_. False\<rparr>)
     (bus_sys.fields [] (\<lambda>_. \<lparr>spi_bus = Spi_software demo_ss, spi_pin = 6, spi_flags = 3\<rparr>)
        (\<lambda>_. \<lparr>sd_spi = None, shutdown_msg = []\<rparr>) (\<lambda>_. i2cdev_zero))"

lemma demo_bus_simps: "bus_log demo_bus = []" "pin_out demo_bus p = False"
  "spidevs demo_bus oid = \<lparr>spi_bus = Spi_software demo_ss, spi_pin = 6, spi_flags = 3\<rparr>"
  by (simp_all add: demo_bus_def mcu.defs bus_sys.defs)

lemma replies_last: "replies last bs = bs" "bs \<noteq> [] \<Longrightarrow> replies (\<lambda>x. last (y @ x)) bs = bs"
proof -
  have "replies f bs = bs" if "\<And>b x. f (x @ [b]) = b" for f
    using that
  proof (induction bs arbitrary: f)
    case (Cons b bs)
    from Cons.prems [of "[]" b] Cons.prems [of "b # x" for x] show ?case by (simp add: Cons.IH)
  qed simp
  then show "replies last bs = bs" "bs \<noteq> [] \<Longrightarrow> replies (\<lambda>x. last (y @ x)) bs = bs" by simp_all
qed

theorem spi_exchanges_bytes_witness:
  "\<exists>s'. spidev_transfer demo_wire 1 True 2 [0xa5, 0x3c] demo_bus = Ret [0xa5, 0x3c] s'"
proof -
  have d: "software_device demo_wire demo_ss 1 demo_bus"
    by (simp add: software_device_def demo_bus_simps demo_wire_def demo_ss_def bit_set_def SF_SOFTWARE_def SF_HAVE_PIN_def)
  have s: "bus_log (selected demo_ss 1 demo_bus) = [Pin_write 5 True, Pin_write 6 False]"
    "pin_out (selected demo_ss 1 demo_bus) 4 = False" "pin_out (selected demo_ss 1 demo_bus) 5 = True"
    by (simp_all add: selected_def spi_software_prepare_def pin_write_def log_event_def gpio_out_write_def demo_bus_simps
        demo_ss_def bit_set_def SF_CS_ACTIVE_HIGH_def)
  have c: "spi_chip demo_wire demo_ss last (selected demo_ss 1 demo_bus)"
    using s by (simp add: spi_chip_def demo_wire_def) (simp add: demo_ss_def)
  have "bits_of b \<noteq> []" for b by (simp add: bits_of_def)
  then have "reply_bytes last [0xa5, 0x3c] = [0xa5, 0x3c]" by (simp add: replies_last byte_bits)
  then show ?thesis using spi_exchanges_bytes [OF d c, of 2 "[0xa5, 0x3c]" True] by auto
qed

section \<open>The bus as its clients see it\<close>

text \<open>
  What the sensors rely on: a transfer with a device that is set up changes nothing but lines, and gives back as many
  bytes as it was given.
\<close>

locale byte_bus =
  fixes xfer :: "u8 \<Rightarrow> bool \<Rightarrow> nat \<Rightarrow> u8 list \<Rightarrow> 'a bus_sys_scheme \<Rightarrow> ('a bus_sys_scheme, u8 list) res"
    and usable :: "u8 \<Rightarrow> 'a bus_sys_scheme \<Rightarrow> bool"
  assumes xfer_returns: "usable dev s \<Longrightarrow> n \<le> length data \<Longrightarrow> \<exists>data' s'. xfer dev r n data s = Ret data' s'"
    and xfer_lines: "xfer dev r n data s = Ret data' s' \<Longrightarrow> (\<exists>es. lines_only s es s') \<and> length data' = length data"
    and usable_lines: "usable dev s \<Longrightarrow> lines_only s es s' \<Longrightarrow> usable dev s'"
begin

lemma exchange:
  assumes "usable dev s" "n \<le> length data"
  shows "\<exists>data' s' es. xfer dev r n data s = Ret data' s' \<and> length data' = length data \<and> lines_only s es s' \<and> usable dev s'"
  using xfer_returns [OF assms, of r] xfer_lines [of dev r n data s] usable_lines [OF assms(1)] by blast

lemma exchange_twice:
  assumes "usable dev s" "n \<le> length data" "m \<le> length rest"
  shows "\<exists>data' s1 rest' s' es. xfer dev r n data s = Ret data' s1 \<and> xfer dev q m rest s1 = Ret rest' s' \<and>
    length data' = length data \<and> length rest' = length rest \<and> lines_only s es s'"
proof -
  obtain data' s1 es where 1: "xfer dev r n data s = Ret data' s1" "length data' = length data" "lines_only s es s1" "usable dev s1"
    using exchange [OF assms(1,2), of r] by blast
  obtain rest' s' fs where 2: "xfer dev q m rest s1 = Ret rest' s'" "length rest' = length rest" "lines_only s1 fs s'"
    using exchange [OF 1(4) assms(3), of q] by blast
  show ?thesis using 1 2 lines_only_append [OF 1(3) 2(3)] by blast
qed

end

text \<open>The union of a device holds what its flags say.\<close>

definition bus_ok :: "bus_env \<Rightarrow> u8 \<Rightarrow> 'a bus_sys_scheme \<Rightarrow> bool" where
  "bus_ok env oid s \<longleftrightarrow>
     (let f = spi_flags (spidevs s oid); soft = want_software_spi env \<and> bit_set f SF_SOFTWARE
      in bit_set f (SF_SOFTWARE OR SF_HARDWARE) \<longrightarrow>
           (case spi_bus (spidevs s oid) of No_bus \<Rightarrow> False | Spi_software _ \<Rightarrow> soft | Spi_hardware _ \<Rightarrow> \<not> soft))"

lemma lines_only_spidevs: "lines_only s es s' \<Longrightarrow> spidevs s' = spidevs s"
  unfolding lines_only_def by (erule conjE, erule ssubst) simp

lemma spi_bits_lines: "\<exists>es. lines_only s es (snd (spi_bits env ss n outbuf inbuf s))"
proof (induction n arbitrary: outbuf inbuf s)
  case 0
  then show ?case using lines_only_Nil by fastforce
next
  case (Suc n)
  have t: "\<exists>es. lines_only s es s'" if "\<exists>es. lines_only s es s1" "\<exists>es. lines_only s1 es s'" for s1 s'
    using that lines_only_append by blast
  have 3: "\<exists>es. lines_only s es (pin_toggle a (pin_write b v (pin_toggle c s)))"
    "\<exists>es. lines_only s es (pin_toggle a (pin_toggle c (pin_write b v s)))" for a b c v
    by (meson lines_only_append pin_toggle_lines pin_write_lines)+
  show ?case unfolding spi_bits.simps Let_def using t [OF 3(1) Suc.IH] t [OF 3(2) Suc.IH] by simp
qed

lemma spi_software_transfer_lines:
  "len \<le> length data \<Longrightarrow> \<exists>data' s' es. spi_software_transfer env ss r len data s = Ret data' s' \<and>
     length data' = length data \<and> lines_only s es s'"
proof (induction env ss r len data s rule: spi_software_transfer.induct)
  case (1 env ss r data s)
  then show ?case using lines_only_Nil by fastforce
next
  case (3 env ss r len b data s)
  obtain x s1 where x: "spi_bits env ss 8 b 0 s = (x, s1)" by (cases "spi_bits env ss 8 b 0 s")
  then obtain es where 1: "lines_only s es s1" using spi_bits_lines [of s env ss 8 b 0] by auto
  obtain data' s' fs where 2: "spi_software_transfer env ss r len data s1 = Ret data' s'" "length data' = length data"
    "lines_only s1 fs s'" using "3.IH" [OF refl x [symmetric]] "3.prems" x by auto
  show ?case using x 2(1,2) lines_only_append [OF 1 2(3)] by (auto simp: x)
qed simp

lemma log_event_lines: "(\<And>p v. e \<noteq> Pin_write p v) \<Longrightarrow> lines_only s [e] (log_event e s)"
  by (cases e) (auto simp: lines_only_def log_event_def)

lemma cs_lines: "\<exists>es. lines_only s es (if b then pin_write p v s else s)"
  by (metis (full_types) pin_write_lines lines_only_Nil)

lemma lines_chain:
  "\<exists>es. lines_only s es s1 \<Longrightarrow> \<exists>es. lines_only s1 es s2 \<Longrightarrow> \<exists>es. lines_only s2 es s3 \<Longrightarrow> \<exists>es. lines_only s3 es s' \<Longrightarrow>
    \<exists>es. lines_only s es s'"
  using lines_only_append by blast

lemma spi_transfer_lines:
  "len \<le> length data \<Longrightarrow> \<exists>data' s' es. spi_transfer env cfg r len data s = Ret data' s' \<and> length data' = length data \<and> lines_only s es s'"
  using log_event_lines [of "Spi_transfer cfg (take len data)" s] by (auto simp: spi_transfer_def)

lemma spidev_transfer_short: "bit_set (spi_flags (spidevs s dev)) (SF_SOFTWARE OR SF_HARDWARE) \<Longrightarrow> length data < n \<Longrightarrow>
    \<not> returns (spidev_transfer env dev r n data s)"
proof -
  have s: "length data < n \<Longrightarrow> spi_software_transfer env ss r n data s = Fault" for ss s
  proof (induction n arbitrary: data s)
    case (Suc n)
    then show ?case by (cases data) (auto simp: split_beta)
  qed simp
  assume "bit_set (spi_flags (spidevs s dev)) (SF_SOFTWARE OR SF_HARDWARE)" "length data < n"
  then show ?thesis by (auto simp: spidev_transfer_def Let_def s spi_transfer_def split: spi_bus.splits)
qed

lemma spidev_transfer_spec:
  assumes "bus_ok env dev s" "n \<le> length data"
  shows "\<exists>data' s' es. spidev_transfer env dev r n data s = Ret data' s' \<and> length data' = length data \<and> lines_only s es s'"
proof -
  let ?d = "spidevs s dev"
  let ?f = "spi_flags ?d"
  let ?act = "bit_set ?f SF_CS_ACTIVE_HIGH"
  let ?cs = "\<lambda>a s. if bit_set ?f SF_HAVE_PIN then pin_write (spi_pin ?d) (a = ?act) s else s"
  show ?thesis
  proof (cases "bit_set ?f (SF_SOFTWARE OR SF_HARDWARE)")
    case False
    then show ?thesis using lines_only_Nil by (auto simp: spidev_transfer_def)
  next
    case True
    show ?thesis
    proof (cases "spi_bus ?d")
      case No_bus
      then show ?thesis using assms(1) True by (simp add: bus_ok_def)
    next
      case (Spi_hardware cfg)
      have soft: "\<not> (want_software_spi env \<and> bit_set ?f SF_SOFTWARE)" using assms(1) True Spi_hardware by (simp add: bus_ok_def Let_def)
      let ?s1 = "spi_prepare cfg s"
      obtain data' s3 where 1: "spi_transfer env cfg r n data (?cs True ?s1) = Ret data' s3" "length data' = length data"
        "\<exists>es. lines_only (?cs True ?s1) es s3" using spi_transfer_lines [OF assms(2)] by blast
      have "\<exists>es. lines_only s es ?s1" unfolding spi_prepare_def by (blast intro: log_event_lines)
      from lines_chain [OF this cs_lines 1(3) cs_lines] 1 soft True Spi_hardware show ?thesis
        by (auto simp: spidev_transfer_def Let_def)
    next
      case (Spi_software ss)
      have soft: "want_software_spi env \<and> bit_set ?f SF_SOFTWARE" using assms(1) True Spi_software by (simp add: bus_ok_def Let_def)
      let ?s1 = "spi_software_prepare ss s"
      obtain data' s3 where 1: "spi_software_transfer env ss r n data (?cs True ?s1) = Ret data' s3" "length data' = length data"
        "\<exists>es. lines_only (?cs True ?s1) es s3" using spi_software_transfer_lines [OF assms(2)] by blast
      have "\<exists>es. lines_only s es ?s1" unfolding spi_software_prepare_def by (blast intro: pin_write_lines)
      from lines_chain [OF this cs_lines 1(3) cs_lines] 1 soft True Spi_software show ?thesis
        by (auto simp: spidev_transfer_def Let_def)
    qed
  qed
qed

lemma spidev_transfer_lines:
  assumes "spidev_transfer env dev r n data s = Ret data' s'"
  shows "(\<exists>es. lines_only s es s') \<and> length data' = length data"
proof (cases "bit_set (spi_flags (spidevs s dev)) (SF_SOFTWARE OR SF_HARDWARE)")
  case False
  then show ?thesis using assms lines_only_Nil by (auto simp: spidev_transfer_def)
next
  case True
  then have "n \<le> length data" using spidev_transfer_short [OF True, of data n env r] assms by fastforce
  moreover have "bus_ok env dev s"
    using assms True by (auto simp: bus_ok_def spidev_transfer_def Let_def split: spi_bus.splits if_splits)
  ultimately show ?thesis using spidev_transfer_spec [of env dev s n data r] assms by auto
qed

lemma bus_ok_lines: "bus_ok env dev s \<Longrightarrow> lines_only s es s' \<Longrightarrow> bus_ok env dev s'"
  by (simp add: bus_ok_def lines_only_spidevs)

interpretation sp: byte_bus "spidev_transfer env" "bus_ok env" for env
proof
  fix dev s n r and data :: "u8 list"
  assume "bus_ok env dev s" "n \<le> length data"
  then show "\<exists>data' s'. spidev_transfer env dev r n data s = Ret data' s'"
    using spidev_transfer_spec [of env dev s n data r] by blast
qed (rule spidev_transfer_lines bus_ok_lines; assumption)+

section \<open>Signals on the I2C bus\<close>

text \<open>
  Start and stop conditions are changes of \<open>sda\<close> while \<open>scl\<close> is high; a high phase of \<open>scl\<close> without one carries a bit. The
  state is the level of \<open>scl\<close> and of \<open>sda\<close> as driven by the code, and whether the high phase is one of a bit so far.
\<close>

datatype i2c_sym = I2c_start | I2c_stop | I2c_bit bool

type_synonym i2c_state = "bool \<times> bool \<times> bool"

fun line_of :: "bus_event \<Rightarrow> (u32 \<times> bool) option" where
  "line_of (Pin_write p v) = Some (p, v)"
| "line_of (Pin_release p) = Some (p, True)"
| "line_of e = None"

definition i2c_edge :: "i2c_software \<Rightarrow> bus_event \<Rightarrow> i2c_state \<Rightarrow> i2c_sym list \<times> i2c_state" where
  "i2c_edge is e = (\<lambda>(scl, sda, clean).
     case line_of e of
       None \<Rightarrow> ([], (scl, sda, clean))
     | Some (p, v) \<Rightarrow>
         if p = is_scl is then
           (if v \<and> \<not> scl then ([], (True, sda, True))
            else if \<not> v \<and> scl then (if clean then [I2c_bit sda] else [], (False, sda, False))
            else ([], (scl, sda, clean)))
         else if p = is_sda is then
           (if scl \<and> v \<noteq> sda then ([if v then I2c_stop else I2c_start], (scl, v, False)) else ([], (scl, v, clean)))
         else ([], (scl, sda, clean)))"

fun i2c_run :: "i2c_software \<Rightarrow> i2c_state \<Rightarrow> bus_event list \<Rightarrow> i2c_sym list \<times> i2c_state" where
  "i2c_run is st [] = ([], st)"
| "i2c_run is st (e # es) =
     (let (a, st) = i2c_edge is e st; (b, st) = i2c_run is st es in (a @ b, st))"

lemma i2c_run_append:
  "i2c_run is st (es @ fs) =
    (let (a, st) = i2c_run is st es; (b, st) = i2c_run is st fs in (a @ b, st))"
  by (induction es arbitrary: st) (simp_all add: Let_def split_beta)

text \<open>
  A chip lets \<open>sda\<close> high or pulls it low, depending on the signals since the state \<open>s\<close>; the line is high when both the code
  and the chip let it.
\<close>

definition i2c_chip :: "bus_env \<Rightarrow> i2c_software \<Rightarrow> (i2c_sym list \<Rightarrow> bool) \<Rightarrow> i2c_state \<Rightarrow> 'a bus_sys_scheme \<Rightarrow> bool" where
  "i2c_chip env is answer st s \<longleftrightarrow>
     (\<forall>es. line env (bus_log s @ es) (is_sda is) =
        (case i2c_run is st es of (syms, (_, sda, _)) \<Rightarrow> sda \<and> answer syms))"

text \<open>What a part of a transaction does: it sends \<open>syms\<close> and leads from the line state \<open>st\<close> to \<open>st'\<close>.\<close>

definition i2c_sends ::
    "i2c_software \<Rightarrow> i2c_state \<Rightarrow> 'a bus_sys_scheme \<Rightarrow> i2c_sym list \<Rightarrow> i2c_state \<Rightarrow> 'a bus_sys_scheme \<Rightarrow> bool" where
  "i2c_sends is st s syms st' s' \<longleftrightarrow> (\<exists>es. lines_only s es s' \<and> i2c_run is st es = (syms, st'))"

lemma i2c_sends_Nil: "i2c_sends is st s [] st s"
  unfolding i2c_sends_def by (intro exI [of _ "[]"]) (simp add: lines_only_Nil)

lemma i2c_sends_trans:
  assumes "i2c_sends is st s x st' s'" "i2c_sends is st' s' y st'' s''"
  shows "i2c_sends is st s (x @ y) st'' s''"
  using assms lines_only_append unfolding i2c_sends_def by (fastforce simp: i2c_run_append)

lemma i2c_chip_after:
  "i2c_chip env is answer st s \<Longrightarrow> i2c_sends is st s x st' s' \<Longrightarrow> i2c_chip env is (\<lambda>y. answer (x @ y)) st' s'"
  by (auto simp: i2c_chip_def i2c_sends_def lines_only_log i2c_run_append split_beta Let_def)

lemma i2c_chip_read:
  "i2c_chip env is answer (scl, sda, c) s \<Longrightarrow> read_pin env (is_sda is) s = (sda \<and> answer [])"
  unfolding i2c_chip_def read_pin_def by (drule spec [of _ "[]"]) simp

lemma i2c_sends_write: "i2c_edge is (Pin_write p v) st = (x, st') \<Longrightarrow> i2c_sends is st s x st' (pin_write p v s)"
  unfolding i2c_sends_def by (intro exI [of _ "[Pin_write p v]"]) simp

lemma i2c_sends_release: "i2c_edge is (Pin_release p) st = (x, st') \<Longrightarrow> i2c_sends is st s x st' (pin_release p s)"
  unfolding i2c_sends_def by (intro exI [of _ "[Pin_release p]"]) simp

text \<open>The steps of the code, on lines that are different.\<close>

definition i2c_lines :: "i2c_software \<Rightarrow> bool" where
  "i2c_lines is \<longleftrightarrow> is_scl is \<noteq> is_sda is"

lemma i2c_moves:
  assumes "i2c_lines is"
  shows "i2c_sends is (False, d, False) s [] (True, d, True) (pin_release (is_scl is) s)"
    "i2c_sends is (True, d, c) s [] (True, d, c) (pin_release (is_scl is) s)"
    "i2c_sends is (True, d, True) s [I2c_bit d] (False, d, False) (pin_write (is_scl is) False s)"
    "i2c_sends is (True, d, False) s [] (False, d, False) (pin_write (is_scl is) False s)"
    "i2c_sends is (False, d, c) s [] (False, v, c) (if v then pin_release (is_sda is) s else pin_write (is_sda is) False s)"
    "i2c_sends is (False, d, c) s [] (False, True, c) (pin_release (is_sda is) s)"
    "i2c_sends is (False, d, c) s [] (False, False, c) (pin_write (is_sda is) False s)"
    "i2c_sends is (True, True, c) s [] (True, True, c) (pin_release (is_sda is) s)"
    "i2c_sends is (True, True, c) s [I2c_start] (True, False, False) (pin_write (is_sda is) False s)"
    "i2c_sends is (True, False, c) s [I2c_stop] (True, True, False) (pin_release (is_sda is) s)"
  using assms by (auto intro!: i2c_sends_write i2c_sends_release simp: i2c_edge_def i2c_lines_def)

text \<open>One clock with \<open>sda\<close> at \<open>v\<close>.\<close>

lemma i2c_clock:
  assumes "i2c_lines is"
  shows "i2c_sends is (False, d, False) s [I2c_bit v] (False, v, False)
    (pin_write (is_scl is) False (pin_release (is_scl is)
      (if v then pin_release (is_sda is) s else pin_write (is_sda is) False s)))"
  using i2c_sends_trans [OF i2c_sends_trans [OF i2c_moves(5) i2c_moves(1)] i2c_moves(3), OF assms assms assms, of d s v] by simp

lemma i2c_send_bits_spec:
  assumes "i2c_lines is"
  shows "\<exists>d'. i2c_sends is (False, d, False) s (map I2c_bit (top_bits n b)) (False, d', False) (i2c_send_bits is n b s)"
proof (induction n arbitrary: b s d)
  case 0
  then show ?case using i2c_sends_Nil by fastforce
next
  case (Suc n)
  let ?s = "pin_write (is_scl is) False (pin_release (is_scl is)
      (if bit_set b 0x80 then pin_release (is_sda is) s else pin_write (is_sda is) False s))"
  obtain d' where "i2c_sends is (False, bit_set b 0x80, False) ?s (map I2c_bit (top_bits n (push_bit 1 b))) (False, d', False)
      (i2c_send_bits is n (push_bit 1 b) ?s)" using Suc.IH by blast
  then show ?case using i2c_sends_trans [OF i2c_clock [OF assms, of d s "bit_set b 0x80"]] by (fastforce simp: Let_def)
qed

lemma i2c_read_ack_spec:
  assumes "i2c_lines is" "i2c_chip env is answer (False, d, False) s"
  shows "\<exists>s'. i2c_software_read_ack env is s = (answer [], s') \<and>
    i2c_sends is (False, d, False) s [I2c_bit True] (False, True, False) s'"
proof -
  let ?s1 = "pin_release (is_scl is) (pin_release (is_sda is) s)"
  have 1: "i2c_sends is (False, d, False) s [] (True, True, True) ?s1"
    using i2c_sends_trans [OF i2c_moves(6) i2c_moves(1), OF assms(1,1)] by simp
  have "read_pin env (is_sda is) ?s1 = answer []"
    using i2c_chip_read [OF i2c_chip_after [OF assms(2) 1]] by simp
  moreover have "i2c_sends is (False, d, False) s [I2c_bit True] (False, True, False)
      (pin_release (is_sda is) (pin_write (is_scl is) False ?s1))"
    using i2c_sends_trans [OF i2c_sends_trans [OF 1 i2c_moves(3)] i2c_moves(6), OF assms(1,1)] by simp
  ultimately show ?thesis by (simp add: i2c_software_read_ack_def Let_def)
qed

text \<open>The signals of a byte, with the clock for the acknowledgement of the receiver.\<close>

definition byte_frame :: "u8 \<Rightarrow> i2c_sym list" where
  "byte_frame b = map I2c_bit (bits_of b) @ [I2c_bit True]"

lemma i2c_send_byte_spec:
  assumes "i2c_lines is" "i2c_chip env is answer (False, d, False) s"
  shows "\<exists>s'. i2c_software_send_byte env is b s =
      (if answer (map I2c_bit (bits_of b)) then Shut ''soft_i2c NACK'' s' else Ret () s') \<and>
    i2c_sends is (False, d, False) s (byte_frame b) (False, True, False) s'"
proof -
  obtain d' where 1: "i2c_sends is (False, d, False) s (map I2c_bit (bits_of b)) (False, d', False) (i2c_send_bits is 8 b s)"
    using i2c_send_bits_spec [OF assms(1)] unfolding bits_of_top by blast
  obtain s' where 2: "i2c_software_read_ack env is (i2c_send_bits is 8 b s) = (answer (map I2c_bit (bits_of b)), s')"
    "i2c_sends is (False, d', False) (i2c_send_bits is 8 b s) [I2c_bit True] (False, True, False) s'"
    using i2c_read_ack_spec [OF assms(1) i2c_chip_after [OF assms(2) 1]] by auto
  show ?thesis using i2c_sends_trans [OF 1 2(2)] 2(1)
    by (auto simp: i2c_software_send_byte_def byte_frame_def)
qed

text \<open>Bytes up to the first one that is not acknowledged: whether all were, and the signals.\<close>

fun i2c_sent :: "(i2c_sym list \<Rightarrow> bool) \<Rightarrow> u8 list \<Rightarrow> bool \<times> i2c_sym list" where
  "i2c_sent answer [] = (True, [])"
| "i2c_sent answer (b # bs) =
     (if answer (map I2c_bit (bits_of b)) then (False, byte_frame b)
      else (case i2c_sent (\<lambda>y. answer (byte_frame b @ y)) bs of (ok, x) \<Rightarrow> (ok, byte_frame b @ x)))"

lemma i2c_send_bytes_spec:
  assumes "i2c_lines is" "i2c_chip env is answer (False, d, False) s" "n \<le> length bs"
  shows "\<exists>d' s'. i2c_sends is (False, d, False) s (snd (i2c_sent answer (take n bs))) (False, d', False) s' \<and>
    i2c_send_bytes env is n bs s = (if fst (i2c_sent answer (take n bs)) then Ret () s' else Shut ''soft_i2c NACK'' s')"
  using assms(2,3)
proof (induction n arbitrary: bs s d answer)
  case 0
  then show ?case using i2c_sends_Nil by fastforce
next
  case (Suc n)
  obtain b cs where bs: "bs = b # cs" "n \<le> length cs" using Suc.prems(2) by (cases bs) auto
  obtain s1 where 1: "i2c_software_send_byte env is b s =
      (if answer (map I2c_bit (bits_of b)) then Shut ''soft_i2c NACK'' s1 else Ret () s1)"
    "i2c_sends is (False, d, False) s (byte_frame b) (False, True, False) s1"
    using i2c_send_byte_spec [OF assms(1) Suc.prems(1)] by blast
  obtain d' s' where 2: "i2c_sends is (False, True, False) s1 (snd (i2c_sent (\<lambda>y. answer (byte_frame b @ y)) (take n cs)))
      (False, d', False) s'"
    "i2c_send_bytes env is n cs s1 =
      (if fst (i2c_sent (\<lambda>y. answer (byte_frame b @ y)) (take n cs)) then Ret () s' else Shut ''soft_i2c NACK'' s')"
    using Suc.IH [OF i2c_chip_after [OF Suc.prems(1) 1(2)] bs(2)] by blast
  show ?case
  proof (cases "answer (map I2c_bit (bits_of b))")
    case True
    then show ?thesis using 1 by (auto simp: bs(1))
  next
    case False
    then show ?thesis using 1(1) 2(2) i2c_sends_trans [OF 1(2) 2(1)] by (auto simp: bs(1) split_beta)
  qed
qed

text \<open>A transaction begins when both lines are high, or when \<open>scl\<close> is low as after a transaction that was broken off.\<close>

definition i2c_calm :: "i2c_state \<Rightarrow> bool" where
  "i2c_calm st = (case st of (scl, sda, clean) \<Rightarrow> if scl then sda else \<not> clean)"

lemma i2c_start_spec:
  assumes "i2c_lines is" "i2c_calm st" "i2c_chip env is answer st s"
  shows "\<exists>s'. i2c_sends is st s (I2c_start # byte_frame addr) (False, True, False) s' \<and>
    i2c_software_start env is addr s =
      (if answer (I2c_start # map I2c_bit (bits_of addr)) then Shut ''soft_i2c NACK'' s' else Ret () s')"
proof -
  let ?s1 = "pin_release (is_scl is) (pin_release (is_sda is) s)"
  let ?s2 = "pin_write (is_scl is) False (pin_write (is_sda is) False ?s1)"
  obtain scl sda c where st: "st = (scl, sda, c)" by (cases st)
  have "\<exists>c'. i2c_sends is st s [] (True, True, c') ?s1"
  proof (cases scl)
    case True
    then show ?thesis using i2c_sends_trans [OF i2c_moves(8) i2c_moves(2), OF assms(1,1)] assms(2) by (auto simp: st i2c_calm_def)
  next
    case False
    then show ?thesis using i2c_sends_trans [OF i2c_moves(6) i2c_moves(1), OF assms(1,1)] assms(2) by (auto simp: st i2c_calm_def)
  qed
  then obtain c' where 1: "i2c_sends is st s [] (True, True, c') ?s1" ..
  have 2: "i2c_sends is st s [I2c_start] (False, False, False) ?s2"
    using i2c_sends_trans [OF i2c_sends_trans [OF 1 i2c_moves(9)] i2c_moves(4), OF assms(1,1)] by simp
  obtain s' where 3: "i2c_software_send_byte env is addr ?s2 =
      (if answer (I2c_start # map I2c_bit (bits_of addr)) then Shut ''soft_i2c NACK'' s' else Ret () s')"
    "i2c_sends is (False, False, False) ?s2 (byte_frame addr) (False, True, False) s'"
    using i2c_send_byte_spec [OF assms(1) i2c_chip_after [OF assms(3) 2]] by auto
  show ?thesis using i2c_sends_trans [OF 2 3(2)] 3(1) by (auto simp: i2c_software_start_def)
qed

lemma i2c_stop_spec:
  assumes "i2c_lines is"
  shows "i2c_sends is (False, d, False) s [I2c_stop] (True, True, False) (i2c_software_stop is s)"
  using i2c_sends_trans [OF i2c_sends_trans [OF i2c_moves(7) i2c_moves(1)] i2c_moves(10), OF assms assms assms]
  by (simp add: i2c_software_stop_def)

text \<open>Reading: the code lets \<open>sda\<close> high for eight clocks, and then acknowledges every byte but the last.\<close>

fun read_frames :: "(i2c_sym list \<Rightarrow> bool) \<Rightarrow> nat \<Rightarrow> u8 list \<times> i2c_sym list" where
  "read_frames answer 0 = ([], [])"
| "read_frames answer (Suc n) =
     (let f = replicate 8 (I2c_bit True) @ [I2c_bit (n = 0)];
          (bs, x) = read_frames (\<lambda>y. answer (f @ y)) n
      in (byte_of (map (\<lambda>k. answer (replicate k (I2c_bit True))) [0..<8]) # bs, f @ x))"

lemma i2c_read_bits_spec:
  assumes "i2c_lines is" "i2c_chip env is answer (False, True, False) s"
  shows "\<exists>s'. i2c_sends is (False, True, False) s (replicate n (I2c_bit True)) (False, True, False) s' \<and>
    i2c_read_bits env is n b s = (foldl shift_in b (map (\<lambda>k. answer (replicate k (I2c_bit True))) [0..<n]), s')"
  using assms(2)
proof (induction n arbitrary: b s answer)
  case 0
  then show ?case using i2c_sends_Nil by fastforce
next
  case (Suc n)
  let ?s1 = "pin_release (is_scl is) s"
  let ?s2 = "pin_write (is_scl is) False ?s1"
  have 1: "i2c_sends is (False, True, False) s [] (True, True, True) ?s1" by (rule i2c_moves(1) [OF assms(1)])
  have r: "read_pin env (is_sda is) ?s1 = answer []" using i2c_chip_read [OF i2c_chip_after [OF Suc.prems 1]] by simp
  have 2: "i2c_sends is (False, True, False) s [I2c_bit True] (False, True, False) ?s2"
    using i2c_sends_trans [OF 1 i2c_moves(3) [OF assms(1)]] by simp
  obtain s' where 3: "i2c_sends is (False, True, False) ?s2 (replicate n (I2c_bit True)) (False, True, False) s'"
    "i2c_read_bits env is n (shift_in b (answer [])) ?s2 =
      (foldl shift_in (shift_in b (answer [])) (map (\<lambda>k. answer ([I2c_bit True] @ replicate k (I2c_bit True))) [0..<n]), s')"
    using Suc.IH [OF i2c_chip_after [OF Suc.prems 2]] by blast
  have "i2c_read_bits env is (Suc n) b s = i2c_read_bits env is n (shift_in b (answer [])) ?s2"
    by (simp only: i2c_read_bits.simps Let_def shift_in_def r)
  then show ?case
    using i2c_sends_trans [OF 2 3(1)] 3(2)
    by (intro exI [of _ s']) (simp add: map_upt_Suc del: upt_Suc i2c_read_bits.simps)
qed

lemma i2c_read_bytes_spec:
  assumes "i2c_lines is" "i2c_chip env is answer (False, d, False) s"
  shows "\<exists>d' s'. i2c_sends is (False, d, False) s (snd (read_frames answer n)) (False, d', False) s' \<and>
    i2c_read_bytes env is n s = (fst (read_frames answer n), s')"
  using assms(2)
proof (induction n arbitrary: s d answer)
  case 0
  then show ?case using i2c_sends_Nil by fastforce
next
  case (Suc n)
  let ?b = "byte_of (map (\<lambda>k. answer (replicate k (I2c_bit True))) [0..<8])"
  let ?f = "replicate 8 (I2c_bit True) @ [I2c_bit (n = 0)]"
  have 1: "i2c_sends is (False, d, False) s [] (False, True, False) (pin_release (is_sda is) s)" by (rule i2c_moves(6) [OF assms(1)])
  obtain s1 where 2: "i2c_sends is (False, True, False) (pin_release (is_sda is) s) (replicate 8 (I2c_bit True)) (False, True, False) s1"
    "i2c_read_bits env is 8 0 (pin_release (is_sda is) s) = (?b, s1)"
    using i2c_read_bits_spec [OF assms(1) i2c_chip_after [OF Suc.prems 1], of 8 0] by (auto simp: byte_of_def)
  let ?s2 = "i2c_software_send_ack is (n = 0) (pin_release (is_sda is) s1)"
  have 3: "i2c_sends is (False, True, False) s1 [I2c_bit (n = 0)] (False, n = 0, False) ?s2"
    using i2c_sends_trans [OF i2c_moves(6) i2c_clock, OF assms(1,1), of True s1 "n = 0"]
    by (simp add: i2c_software_send_ack_def Let_def split: if_splits)
  have 4: "i2c_sends is (False, d, False) s ?f (False, n = 0, False) ?s2"
    using i2c_sends_trans [OF i2c_sends_trans [OF 1 2(1)] 3] by simp
  obtain d' s' where 5: "i2c_sends is (False, n = 0, False) ?s2 (snd (read_frames (\<lambda>y. answer (?f @ y)) n)) (False, d', False) s'"
    "i2c_read_bytes env is n ?s2 = (fst (read_frames (\<lambda>y. answer (?f @ y)) n), s')"
    using Suc.IH [OF i2c_chip_after [OF Suc.prems 4]] by blast
  show ?case
    using i2c_sends_trans [OF 4 5(1)] 5(2) 2(2)
    by (intro exI [of _ d'] exI [of _ s']) (simp add: i2c_software_read_byte_def split_beta Let_def)
qed

text \<open>A write message up to its stop condition.\<close>

lemma i2c_message_spec:
  assumes "i2c_lines is" "i2c_calm st" "i2c_chip env is answer st s" "n \<le> length data"
  shows "\<exists>d' s'. i2c_sends is st s (I2c_start # snd (i2c_sent (\<lambda>y. answer (I2c_start # y)) (addr # take n data))) (False, d', False) s' \<and>
    andthen (i2c_software_start env is addr s) (i2c_send_bytes env is n data) =
      (if fst (i2c_sent (\<lambda>y. answer (I2c_start # y)) (addr # take n data)) then Ret () s' else Shut ''soft_i2c NACK'' s')"
proof -
  obtain s1 where 1: "i2c_sends is st s (I2c_start # byte_frame addr) (False, True, False) s1"
    "i2c_software_start env is addr s =
      (if answer (I2c_start # map I2c_bit (bits_of addr)) then Shut ''soft_i2c NACK'' s1 else Ret () s1)"
    using i2c_start_spec [OF assms(1-3)] by blast
  obtain d' s' where 2: "i2c_sends is (False, True, False) s1
      (snd (i2c_sent (\<lambda>y. answer ((I2c_start # byte_frame addr) @ y)) (take n data))) (False, d', False) s'"
    "i2c_send_bytes env is n data s1 =
      (if fst (i2c_sent (\<lambda>y. answer ((I2c_start # byte_frame addr) @ y)) (take n data)) then Ret () s' else Shut ''soft_i2c NACK'' s')"
    using i2c_send_bytes_spec [OF assms(1) i2c_chip_after [OF assms(3) 1(1)] assms(4)] by blast
  show ?thesis
  proof (cases "answer (I2c_start # map I2c_bit (bits_of addr))")
    case True
    then show ?thesis using 1 by auto
  next
    case False
    then show ?thesis using 1(2) 2(2) i2c_sends_trans [OF 1(1) 2(1)] by (auto simp: split_beta)
  qed
qed

text \<open>
  C17: A message to a chip on a software I2C bus is a start condition, the address and the bytes with one clock each for the
  acknowledgement, and a stop condition; the first byte that the chip does not acknowledge ends it in a shutdown.
\<close>

theorem i2c_writes_message:
  assumes "i2c_lines is" "i2c_calm st" "i2c_chip env is answer st s" "unat n \<le> length data"
    "i2c_sent (\<lambda>y. answer (I2c_start # y)) (is_addr is # take (unat n) data) = (ok, syms)"
  shows "\<exists>st' s'. i2c_sends is st s (I2c_start # syms @ (if ok then [I2c_stop] else [])) st' s' \<and> i2c_calm st' \<and>
    i2c_software_write env is n data s = (if ok then Ret () s' else Shut ''soft_i2c NACK'' s') \<and>
    (ok \<longrightarrow> syms = concat (map byte_frame (is_addr is # take (unat n) data)))"
proof -
  have all: "fst (i2c_sent f bs) \<Longrightarrow> snd (i2c_sent f bs) = concat (map byte_frame bs)" for f bs
    by (induction bs arbitrary: f) (auto simp: split_beta split: if_splits)
  obtain d' s1 where 1: "i2c_sends is st s (I2c_start # syms) (False, d', False) s1"
    "andthen (i2c_software_start env is (is_addr is) s) (i2c_send_bytes env is (unat n) data) =
      (if ok then Ret () s1 else Shut ''soft_i2c NACK'' s1)"
    using i2c_message_spec [OF assms(1-4), of "is_addr is"] unfolding assms(5) by auto
  have w: "i2c_software_write env is n data s =
      andthen (andthen (i2c_software_start env is (is_addr is) s) (i2c_send_bytes env is (unat n) data))
        (\<lambda>s. Ret () (i2c_software_stop is s))"
    unfolding i2c_software_write_def by (cases "i2c_software_start env is (is_addr is) s") simp_all
  show ?thesis
  proof (cases ok)
    case True
    then have "syms = concat (map byte_frame (is_addr is # take (unat n) data))"
      using all [of "\<lambda>y. answer (I2c_start # y)" "is_addr is # take (unat n) data"] assms(5) by (simp del: i2c_sent.simps)
    then show ?thesis using True i2c_sends_trans [OF 1(1) i2c_stop_spec [OF assms(1)]] 1(2) w
      by (intro exI [of _ "(True, True, False)"] exI [of _ "i2c_software_stop is s1"]) (simp add: i2c_calm_def)
  next
    case False
    then show ?thesis using 1 w by (intro exI [of _ "(False, d', False)"] exI [of _ s1]) (simp add: i2c_calm_def)
  qed
qed

text \<open>
  C18: Reading a register of a chip that acknowledges sends the register after the address, begins again with the read bit,
  and takes in the bytes that the chip puts on the line, acknowledging all but the last.
\<close>

theorem i2c_reads_register:
  assumes "i2c_lines is" "i2c_calm st" "i2c_chip env is answer st s" "unat m \<le> length reg" "0 < m"
    "i2c_sent (\<lambda>y. answer (I2c_start # y)) (is_addr is # take (unat m) reg) = (True, x)"
    "\<not> answer (I2c_start # x @ I2c_start # map I2c_bit (bits_of (is_addr is OR 1)))"
    "hdr = I2c_start # x @ I2c_start # byte_frame (is_addr is OR 1)"
    "read_frames (\<lambda>y. answer (hdr @ y)) (unat n) = (bs, z)"
  shows "\<exists>s'. i2c_sends is st s (hdr @ z @ [I2c_stop]) (True, True, False) s' \<and>
    i2c_software_read env is m reg n s = Ret bs s'"
proof -
  obtain d1 s1 where 1: "i2c_sends is st s (I2c_start # x) (False, d1, False) s1"
    "andthen (i2c_software_start env is (is_addr is) s) (i2c_send_bytes env is (unat m) reg) = Ret () s1"
    using i2c_message_spec [OF assms(1-4), of "is_addr is"] unfolding assms(6) by auto
  have "i2c_calm (False, d1, False)" by (simp add: i2c_calm_def)
  from i2c_start_spec [OF assms(1) this i2c_chip_after [OF assms(3) 1(1)], of "is_addr is OR 1"] obtain s2 where
    2: "i2c_sends is (False, d1, False) s1 (I2c_start # byte_frame (is_addr is OR 1)) (False, True, False) s2"
    "i2c_software_start env is (is_addr is OR 1) s1 = Ret () s2" using assms(7) by auto
  have 3: "i2c_sends is st s hdr (False, True, False) s2" using i2c_sends_trans [OF 1(1) 2(1)] by (simp add: assms(8))
  obtain d4 s4 where 4: "i2c_sends is (False, True, False) s2 z (False, d4, False) s4"
    "i2c_read_bytes env is (unat n) s2 = (bs, s4)"
    using i2c_read_bytes_spec [OF assms(1) i2c_chip_after [OF assms(3) 3], of "unat n"] unfolding assms(9) by auto
  have "m \<noteq> 0" using assms(5) by auto
  then have "i2c_software_read env is m reg n s = Ret bs (i2c_software_stop is s4)"
    using 1(2) 2(2) 4(2) by (simp add: i2c_software_read_def)
  then show ?thesis using i2c_sends_trans [OF i2c_sends_trans [OF 3 4(1)] i2c_stop_spec [OF assms(1)]] by fastforce
qed

text \<open>A chip that acknowledges all, and sends ones.\<close>

definition demo_i2c :: i2c_software where
  "demo_i2c = \<lparr>is_scl = 7, is_sda = 8, is_addr = 0x48, is_ticks = 5000\<rparr>"

definition demo_acks :: "i2c_sym list \<Rightarrow> bool" where
  "demo_acks syms \<longleftrightarrow> length (takeWhile (\<lambda>x. x \<noteq> I2c_start) (rev syms)) mod 9 \<noteq> 8"

definition demo_i2c_wire :: bus_env where
  "demo_i2c_wire = demo_wire\<lparr>line := \<lambda>log p.
     case i2c_run demo_i2c (True, True, False) log of (syms, (_, sda, _)) \<Rightarrow> sda \<and> demo_acks syms\<rparr>"

lemma demo_i2c_chip: "i2c_chip demo_i2c_wire demo_i2c demo_acks (True, True, False) demo_bus"
  by (simp add: i2c_chip_def demo_i2c_wire_def demo_bus_simps)

lemma demo_i2c_lines: "i2c_lines demo_i2c" "i2c_calm (True, True, False)"
  by (simp_all add: i2c_lines_def demo_i2c_def i2c_calm_def)

lemmas demo_i2c_bits = demo_acks_def byte_frame_def bits_of_def upt_rec

lemma demo_i2c_sent: "i2c_sent (\<lambda>y. demo_acks (I2c_start # y)) [0x48, 0x2a] = (True, byte_frame 0x48 @ byte_frame 0x2a)"
  by (simp add: demo_i2c_bits)

theorem i2c_writes_message_witness:
  "\<exists>st' s'. i2c_sends demo_i2c (True, True, False) demo_bus (I2c_start # byte_frame 0x48 @ byte_frame 0x2a @ [I2c_stop]) st' s' \<and>
    i2c_software_write demo_i2c_wire demo_i2c 1 [0x2a] demo_bus = Ret () s'"
  using i2c_writes_message [OF demo_i2c_lines demo_i2c_chip, of 1 "[0x2a]" True "byte_frame 0x48 @ byte_frame 0x2a"] demo_i2c_sent
  by (auto simp: demo_i2c_def)

theorem i2c_reads_register_witness:
  "\<exists>s'. i2c_software_read demo_i2c_wire demo_i2c 1 [0x2a] 2 demo_bus = Ret [0xff, 0xff] s'"
proof -
  have n: "\<not> demo_acks (I2c_start # (byte_frame 0x48 @ byte_frame 0x2a) @ I2c_start # map I2c_bit (bits_of (is_addr demo_i2c OR 1)))"
    by (simp add: demo_i2c_bits demo_i2c_def)
  let ?h = "I2c_start # (byte_frame 0x48 @ byte_frame 0x2a) @ I2c_start # byte_frame (is_addr demo_i2c OR 1)"
  have f: "\<exists>z. read_frames (\<lambda>y. demo_acks (?h @ y)) (unat (2 :: u8)) = ([0xff, 0xff], z)"
  proof -
    have "unat (2 :: u8) = Suc (Suc 0)" by simp
    moreover have "replicate 8 x = [x, x, x, x, x, x, x, x]" for x :: i2c_sym by (simp add: numeral_eq_Suc)
    ultimately show ?thesis by (simp only:) (simp add: demo_i2c_bits demo_i2c_def Let_def byte_of_def shift_in_def)
  qed
  show ?thesis
    using f i2c_reads_register [OF demo_i2c_lines demo_i2c_chip, of 1 "[0x2a]" "byte_frame 0x48 @ byte_frame 0x2a" ?h 2] n demo_i2c_sent
    by (auto simp: demo_i2c_def)
qed

end
