(* ===== verification/Accel.thy ===== *)
theory Accel
  imports Bus
begin

text \<open>
  Acceleration sensors: the buffer that collects measurements (\<open>klipper/src/sensor_bulk.c\<close>) and the three chips
  \<open>sensor_adxl345.c\<close> and \<open>sensor_lis2dw.c\<close> on SPI, \<open>sensor_mpu9250.c\<close> on I2C; of the host,
  the decoding of the ADXL345's samples. Definitions only.
\<close>

section \<open>Collected measurements\<close>

record sensor_bulk =
  sequence :: u16
  possible_overflows :: u16
  data_count :: u8
  sb_data :: "u8 list"

definition SB_SIZE :: nat where "SB_SIZE = 52"

definition bulk_zero :: sensor_bulk where
  "bulk_zero = \<lparr>sequence = 0, possible_overflows = 0, data_count = 0, sb_data = replicate SB_SIZE 0\<rparr>"

definition sensor_bulk_reset :: "sensor_bulk \<Rightarrow> sensor_bulk" where
  "sensor_bulk_reset sb = sb\<lparr>sequence := 0, possible_overflows := 0, data_count := 0\<rparr>"

definition sensor_bulk_report :: "u8 \<Rightarrow> sensor_bulk \<Rightarrow> 'a sched_scheme \<Rightarrow> sensor_bulk \<times> 'a sched_scheme" where
  "sensor_bulk_report oid sb s =
     (sb\<lparr>data_count := 0, sequence := sequence sb + 1\<rparr>,
      sendf ''sensor_bulk_data''
        [RInt (ucast oid), RInt (ucast (sequence sb)), RBytes (take (unat (data_count sb)) (sb_data sb))] s)"

definition sensor_bulk_status :: "u8 \<Rightarrow> u32 \<Rightarrow> u32 \<Rightarrow> u32 \<Rightarrow> sensor_bulk \<Rightarrow> 'a sched_scheme \<Rightarrow> 'a sched_scheme" where
  "sensor_bulk_status oid time1 query_ticks fifo sb s =
     sendf ''sensor_bulk_status''
       [RInt (ucast oid), RInt time1, RInt query_ticks, RInt (ucast (sequence sb)),
        RInt (ucast (data_count sb) + fifo), RInt (ucast (possible_overflows sb))] s"

text \<open>Stores behind the data so far; \<open>None\<close> when they leave the array.\<close>

definition bulk_store :: "u8 list \<Rightarrow> sensor_bulk \<Rightarrow> sensor_bulk option" where
  "bulk_store d sb =
     (if unat (data_count sb) + length d > SB_SIZE then None
      else Some (sb\<lparr>sb_data := blit (sb_data sb) (unat (data_count sb)) d, data_count := data_count sb + of_nat (length d)\<rparr>))"

text \<open>The report when there is no room for another \<open>n\<close> bytes.\<close>

definition report_full :: "nat \<Rightarrow> u8 \<Rightarrow> sensor_bulk \<Rightarrow> 'a sched_scheme \<Rightarrow> sensor_bulk \<times> 'a sched_scheme" where
  "report_full n oid sb s = (if unat (data_count sb) + n > SB_SIZE then sensor_bulk_report oid sb s else (sb, s))"

section \<open>State\<close>

text \<open>\<open>struct adxl345\<close> and \<open>struct lis2dw\<close> have the same fields.\<close>

record spi_accel =
  sa_rest_ticks :: u32
  sa_spi :: "u8 option"
  sa_flags :: u8
  sa_sb :: sensor_bulk

record mpu9250 =
  mp_rest_ticks :: u32
  mp_i2c :: "u8 option"
  fifo_max :: u16
  fifo_pkts_bytes :: u16
  mp_flags :: u8
  mp_sb :: sensor_bulk

record accel_sys = bus_sys +
  adxls :: "u8 \<Rightarrow> spi_accel"
  liss :: "u8 \<Rightarrow> spi_accel"
  mpus :: "u8 \<Rightarrow> mpu9250"
  adxl345_wake :: u8
  lis2dw_wake :: u8
  mpu9250_wake :: u8

definition accel_zero :: spi_accel where
  "accel_zero = \<lparr>sa_rest_ticks = 0, sa_spi = None, sa_flags = 0, sa_sb = bulk_zero\<rparr>"

definition mpu_zero :: mpu9250 where
  "mpu_zero = \<lparr>mp_rest_ticks = 0, mp_i2c = None, fifo_max = 0, fifo_pkts_bytes = 0, mp_flags = 0, mp_sb = bulk_zero\<rparr>"

abbreviation accel_timer :: "u8 \<Rightarrow> tid" where "accel_timer oid \<equiv> TObj (unat oid) 0"

definition upd_adxl :: "u8 \<Rightarrow> (spi_accel \<Rightarrow> spi_accel) \<Rightarrow> 'a accel_sys_scheme \<Rightarrow> 'a accel_sys_scheme" where
  "upd_adxl oid f s = s\<lparr>adxls := (adxls s)(oid := f (adxls s oid))\<rparr>"

definition upd_lis :: "u8 \<Rightarrow> (spi_accel \<Rightarrow> spi_accel) \<Rightarrow> 'a accel_sys_scheme \<Rightarrow> 'a accel_sys_scheme" where
  "upd_lis oid f s = s\<lparr>liss := (liss s)(oid := f (liss s oid))\<rparr>"

definition upd_mpu :: "u8 \<Rightarrow> (mpu9250 \<Rightarrow> mpu9250) \<Rightarrow> 'a accel_sys_scheme \<Rightarrow> 'a accel_sys_scheme" where
  "upd_mpu oid f s = s\<lparr>mpus := (mpus s)(oid := f (mpus s oid))\<rparr>"

definition AX_PENDING :: u8 where "AX_PENDING = 1"
definition LIS_PENDING :: u8 where "LIS_PENDING = 1"

definition wake_adxl :: "'a accel_sys_scheme \<Rightarrow> 'a accel_sys_scheme" where
  "wake_adxl s = sched_wake_task (\<lambda>f s. s\<lparr>adxl345_wake := f (adxl345_wake s)\<rparr>) s"

definition wake_lis :: "'a accel_sys_scheme \<Rightarrow> 'a accel_sys_scheme" where
  "wake_lis s = sched_wake_task (\<lambda>f s. s\<lparr>lis2dw_wake := f (lis2dw_wake s)\<rparr>) s"

definition wake_mpu :: "'a accel_sys_scheme \<Rightarrow> 'a accel_sys_scheme" where
  "wake_mpu s = sched_wake_task (\<lambda>f s. s\<lparr>mpu9250_wake := f (mpu9250_wake s)\<rparr>) s"

text \<open>\<open>clk\<close> gives the values of the clock reads that an operation makes, in their order.\<close>

definition start_timer :: "(nat \<Rightarrow> u32) \<Rightarrow> u32 \<Rightarrow> u8 \<Rightarrow> 'a sched_scheme \<Rightarrow> ('a sched_scheme, unit) res" where
  "start_timer clk rest_ticks oid s = sched_add_timer (clk 1) (clk 2) (accel_timer oid) (set_wake (accel_timer oid) (clk 0 + rest_ticks) s)"

section \<open>ADXL345\<close>

definition AR_DATAX0 :: u8 where "AR_DATAX0 = 0x32"
definition AR_FIFO_STATUS :: u8 where "AR_FIFO_STATUS = 0x39"
definition AM_READ :: u8 where "AM_READ = 0x80"
definition AM_MULTI :: u8 where "AM_MULTI = 0x40"
definition SET_FIFO_CTL :: u8 where "SET_FIFO_CTL = 0x90"
definition ADXL_BYTES_PER_SAMPLE :: nat where "ADXL_BYTES_PER_SAMPLE = 5"

definition adxl345_event :: "u8 \<Rightarrow> 'a accel_sys_scheme \<Rightarrow> ('a accel_sys_scheme, sf) res" where
  "adxl345_event oid s = Ret SF_DONE (wake_adxl (upd_adxl oid (\<lambda>ax. ax\<lparr>sa_flags := sa_flags ax OR AX_PENDING\<rparr>) s))"

definition command_config_adxl345 :: "board \<Rightarrow> nat \<Rightarrow> u32 list \<Rightarrow> 'a accel_sys_scheme \<Rightarrow> ('a accel_sys_scheme, unit) res" where
  "command_config_adxl345 bd sz args s =
     (let oid = ucast (args ! 0)
      in bnd (oid_alloc bd oid T_adxl345 sz s) (\<lambda>_ s.
           let s = set_func (accel_timer oid) (Some Fn_adxl345_event) (clear_timer (accel_timer oid) (upd_adxl oid (\<lambda>_. accel_zero) s))
           in bnd (spidev_oid_lookup (ucast (args ! 1)) s) (\<lambda>p s. Ret () (upd_adxl oid (\<lambda>ax. ax\<lparr>sa_spi := p\<rparr>) s))))"

definition adxl_reschedule_timer :: "(nat \<Rightarrow> u32) \<Rightarrow> u8 \<Rightarrow> 'a accel_sys_scheme \<Rightarrow> ('a accel_sys_scheme, unit) res" where
  "adxl_reschedule_timer clk oid s = start_timer clk (sa_rest_ticks (adxls s oid)) oid s"

text \<open>The sample of a message, with the fifo status that the rest of the function uses.\<close>

definition adxl_sample :: "u8 list \<Rightarrow> u8 list \<times> u8" where
  "adxl_sample msg =
     (let fifo_status = msg ! 8 AND NOT 0x80;
          bad = (\<lambda>b. b AND 0xf0 \<noteq> 0 \<and> b AND 0xf0 \<noteq> 0xf0)
      in if bad (msg ! 2) \<or> bad (msg ! 4) \<or> bad (msg ! 6) \<or> msg ! 7 \<noteq> SET_FIFO_CTL \<or> fifo_status > 32
         then (replicate 5 0xff, 0)
         else ([msg ! 1, msg ! 3, msg ! 5, (msg ! 2 AND 0x1f) OR push_bit 5 (msg ! 6),
                (msg ! 4 AND 0x1f) OR (push_bit 2 (msg ! 6) AND 0x60)], fifo_status))"

text \<open>The host's side of a sample, \<open>None\<close> for one counted as an error: \<open>_extract_samples\<close> of \<open>klippy/extras/adxl345.py\<close>.\<close>

definition adxl_decode :: "u8 list \<Rightarrow> (int \<times> int \<times> int) option" where
  "adxl_decode d =
     (let xlow = uint (d ! 0); ylow = uint (d ! 1); zlow = uint (d ! 2); xzhigh = uint (d ! 3); yzhigh = uint (d ! 4)
      in if yzhigh AND 0x80 \<noteq> 0 then None
         else Some ((xlow OR push_bit 8 (xzhigh AND 0x1f)) - push_bit 9 (xzhigh AND 0x10),
                    (ylow OR push_bit 8 (yzhigh AND 0x1f)) - push_bit 9 (yzhigh AND 0x10),
                    (zlow OR push_bit 3 (xzhigh AND 0xe0) OR push_bit 6 (yzhigh AND 0xe0)) - push_bit 7 (yzhigh AND 0x40)))"

definition adxl_query :: "bus_env \<Rightarrow> (nat \<Rightarrow> u32) \<Rightarrow> u8 \<Rightarrow> 'a accel_sys_scheme \<Rightarrow> ('a accel_sys_scheme, unit) res" where
  "adxl_query env clk oid s =
     (case sa_spi (adxls s oid) of
        None \<Rightarrow> Fault
      | Some spi \<Rightarrow>
          bnd (spidev_transfer env spi True 9 ((AR_DATAX0 OR AM_READ OR AM_MULTI) # replicate 8 0) s) (\<lambda>msg s.
            let (d, fifo_status) = adxl_sample msg
            in case bulk_store d (sa_sb (adxls s oid)) of
                 None \<Rightarrow> Fault
               | Some sb \<Rightarrow>
                   (let (sb, s) = report_full ADXL_BYTES_PER_SAMPLE oid sb s;
                        sb = (if fifo_status \<ge> 31 then sb\<lparr>possible_overflows := possible_overflows sb + 1\<rparr> else sb);
                        s = upd_adxl oid (\<lambda>ax. ax\<lparr>sa_sb := sb\<rparr>) s
                    in if fifo_status > 1 then Ret () (wake_adxl s)
                       else adxl_reschedule_timer clk oid (upd_adxl oid (\<lambda>ax. ax\<lparr>sa_flags := sa_flags ax AND NOT AX_PENDING\<rparr>) s))))"

definition command_query_adxl345 :: "(nat \<Rightarrow> u32) \<Rightarrow> u32 list \<Rightarrow> 'a accel_sys_scheme \<Rightarrow> ('a accel_sys_scheme, unit) res" where
  "command_query_adxl345 clk args s =
     (let oid = ucast (args ! 0)
      in with_oid oid T_adxl345 (\<lambda>s.
           andthen (sched_del_timer (accel_timer oid) s) (\<lambda>s.
             let s = upd_adxl oid (\<lambda>ax. ax\<lparr>sa_flags := 0\<rparr>) s
             in if args ! 1 = 0 then Ret () s
                else adxl_reschedule_timer clk oid
                       (upd_adxl oid (\<lambda>ax. ax\<lparr>sa_rest_ticks := args ! 1, sa_sb := sensor_bulk_reset (sa_sb ax)\<rparr>) s))) s)"

definition command_query_adxl345_status ::
    "bus_env \<Rightarrow> (nat \<Rightarrow> u32) \<Rightarrow> u32 list \<Rightarrow> 'a accel_sys_scheme \<Rightarrow> ('a accel_sys_scheme, unit) res" where
  "command_query_adxl345_status env clk args s =
     (let oid = ucast (args ! 0)
      in with_oid oid T_adxl345 (\<lambda>s.
           case sa_spi (adxls s oid) of
             None \<Rightarrow> Fault
           | Some spi \<Rightarrow>
               bnd (spidev_transfer env spi True 2 [AR_FIFO_STATUS OR AM_READ, 0] s) (\<lambda>msg s.
                 let fifo_status = msg ! 1 AND NOT 0x80
                 in if fifo_status > 32 then Ret () s
                    else Ret () (sensor_bulk_status oid (clk 0) (clk 1 - clk 0) (ucast fifo_status * of_nat ADXL_BYTES_PER_SAMPLE)
                                   (sa_sb (adxls s oid)) s))) s)"

definition adxl345_task :: "bus_env \<Rightarrow> (u8 \<Rightarrow> nat \<Rightarrow> u32) \<Rightarrow> 'a accel_sys_scheme \<Rightarrow> ('a accel_sys_scheme, unit) res" where
  "adxl345_task env clk s =
     (case sched_check_wake adxl345_wake (\<lambda>f s. s\<lparr>adxl345_wake := f (adxl345_wake s)\<rparr>) s of
        (False, s) \<Rightarrow> Ret () s
      | (True, s) \<Rightarrow>
          foreach_oid T_adxl345 (\<lambda>oid s.
            if bit_set (sa_flags (adxls s oid)) AX_PENDING then adxl_query env (clk oid) oid s else Ret () s) s)"

section \<open>LIS2DW\<close>

definition LIS_AR_DATAX0 :: u8 where "LIS_AR_DATAX0 = 0x28"
definition LIS_AM_READ :: u8 where "LIS_AM_READ = 0x80"
definition LIS_FIFO_SAMPLES :: u8 where "LIS_FIFO_SAMPLES = 0x2F"
definition LIS_BYTES_PER_SAMPLE :: nat where "LIS_BYTES_PER_SAMPLE = 6"

definition lis2dw_event :: "u8 \<Rightarrow> 'a accel_sys_scheme \<Rightarrow> ('a accel_sys_scheme, sf) res" where
  "lis2dw_event oid s = Ret SF_DONE (wake_lis (upd_lis oid (\<lambda>ax. ax\<lparr>sa_flags := sa_flags ax OR LIS_PENDING\<rparr>) s))"

definition command_config_lis2dw :: "board \<Rightarrow> nat \<Rightarrow> u32 list \<Rightarrow> 'a accel_sys_scheme \<Rightarrow> ('a accel_sys_scheme, unit) res" where
  "command_config_lis2dw bd sz args s =
     (let oid = ucast (args ! 0)
      in bnd (oid_alloc bd oid T_lis2dw sz s) (\<lambda>_ s.
           let s = set_func (accel_timer oid) (Some Fn_lis2dw_event) (clear_timer (accel_timer oid) (upd_lis oid (\<lambda>_. accel_zero) s))
           in bnd (spidev_oid_lookup (ucast (args ! 1)) s) (\<lambda>p s. Ret () (upd_lis oid (\<lambda>ax. ax\<lparr>sa_spi := p\<rparr>) s))))"

definition lis2dw_reschedule_timer :: "(nat \<Rightarrow> u32) \<Rightarrow> u8 \<Rightarrow> 'a accel_sys_scheme \<Rightarrow> ('a accel_sys_scheme, unit) res" where
  "lis2dw_reschedule_timer clk oid s = start_timer clk (sa_rest_ticks (liss s oid)) oid s"

definition lis2dw_query :: "bus_env \<Rightarrow> (nat \<Rightarrow> u32) \<Rightarrow> u8 \<Rightarrow> 'a accel_sys_scheme \<Rightarrow> ('a accel_sys_scheme, unit) res" where
  "lis2dw_query env clk oid s =
     (case sa_spi (liss s oid) of
        None \<Rightarrow> Fault
      | Some spi \<Rightarrow>
          bnd (spidev_transfer env spi True 7 ((LIS_AR_DATAX0 OR LIS_AM_READ) # replicate 6 0) s) (\<lambda>msg s.
          bnd (spidev_transfer env spi True 2 [LIS_FIFO_SAMPLES OR LIS_AM_READ, 0] s) (\<lambda>fifo s.
            let fifo_empty = fifo ! 1 AND 0x3F; fifo_ovrn = fifo ! 1 AND 0x40
            in case bulk_store (take 6 (drop 1 msg)) (sa_sb (liss s oid)) of
                 None \<Rightarrow> Fault
               | Some sb \<Rightarrow>
                   (let (sb, s) = report_full LIS_BYTES_PER_SAMPLE oid sb s;
                        sb = (if fifo_ovrn \<noteq> 0 then sb\<lparr>possible_overflows := possible_overflows sb + 1\<rparr> else sb);
                        s = upd_lis oid (\<lambda>ax. ax\<lparr>sa_sb := sb\<rparr>) s
                    in if fifo_empty = 0 then Ret () (wake_lis s)
                       else lis2dw_reschedule_timer clk oid (upd_lis oid (\<lambda>ax. ax\<lparr>sa_flags := sa_flags ax AND NOT LIS_PENDING\<rparr>) s)))))"

definition command_query_lis2dw :: "(nat \<Rightarrow> u32) \<Rightarrow> u32 list \<Rightarrow> 'a accel_sys_scheme \<Rightarrow> ('a accel_sys_scheme, unit) res" where
  "command_query_lis2dw clk args s =
     (let oid = ucast (args ! 0)
      in with_oid oid T_lis2dw (\<lambda>s.
           andthen (sched_del_timer (accel_timer oid) s) (\<lambda>s.
             let s = upd_lis oid (\<lambda>ax. ax\<lparr>sa_flags := 0\<rparr>) s
             in if args ! 1 = 0 then Ret () s
                else lis2dw_reschedule_timer clk oid
                       (upd_lis oid (\<lambda>ax. ax\<lparr>sa_rest_ticks := args ! 1, sa_sb := sensor_bulk_reset (sa_sb ax)\<rparr>) s))) s)"

definition command_query_lis2dw_status ::
    "bus_env \<Rightarrow> (nat \<Rightarrow> u32) \<Rightarrow> u32 list \<Rightarrow> 'a accel_sys_scheme \<Rightarrow> ('a accel_sys_scheme, unit) res" where
  "command_query_lis2dw_status env clk args s =
     (let oid = ucast (args ! 0)
      in with_oid oid T_lis2dw (\<lambda>s.
           case sa_spi (liss s oid) of
             None \<Rightarrow> Fault
           | Some spi \<Rightarrow>
               bnd (spidev_transfer env spi True 2 [LIS_FIFO_SAMPLES OR LIS_AM_READ, 0] s) (\<lambda>msg s.
                 Ret () (sensor_bulk_status oid (clk 0) (clk 1 - clk 0)
                   (ucast (msg ! 1 AND 0x1f) * of_nat LIS_BYTES_PER_SAMPLE) (sa_sb (liss s oid)) s))) s)"

definition lis2dw_task :: "bus_env \<Rightarrow> (u8 \<Rightarrow> nat \<Rightarrow> u32) \<Rightarrow> 'a accel_sys_scheme \<Rightarrow> ('a accel_sys_scheme, unit) res" where
  "lis2dw_task env clk s =
     (case sched_check_wake lis2dw_wake (\<lambda>f s. s\<lparr>lis2dw_wake := f (lis2dw_wake s)\<rparr>) s of
        (False, s) \<Rightarrow> Ret () s
      | (True, s) \<Rightarrow>
          foreach_oid T_lis2dw (\<lambda>oid s.
            if bit_set (sa_flags (liss s oid)) LIS_PENDING then lis2dw_query env (clk oid) oid s else Ret () s) s)"

section \<open>MPU9250\<close>

definition AR_FIFO_COUNT_H :: u8 where "AR_FIFO_COUNT_H = 0x72"
definition AR_FIFO :: u8 where "AR_FIFO = 0x74"
definition AR_INT_STATUS :: u8 where "AR_INT_STATUS = 0x3A"
definition FIFO_OVERFLOW_INT :: u8 where "FIFO_OVERFLOW_INT = 0x10"
definition BYTES_PER_BLOCK :: u16 where "BYTES_PER_BLOCK = 48"

definition mpu9250_event :: "u8 \<Rightarrow> 'a accel_sys_scheme \<Rightarrow> ('a accel_sys_scheme, sf) res" where
  "mpu9250_event oid s = Ret SF_DONE (wake_mpu (upd_mpu oid (\<lambda>mp. mp\<lparr>mp_flags := mp_flags mp OR AX_PENDING\<rparr>) s))"

definition command_config_mpu9250 :: "board \<Rightarrow> nat \<Rightarrow> u32 list \<Rightarrow> 'a accel_sys_scheme \<Rightarrow> ('a accel_sys_scheme, unit) res" where
  "command_config_mpu9250 bd sz args s =
     (let oid = ucast (args ! 0)
      in bnd (oid_alloc bd oid T_mpu9250 sz s) (\<lambda>_ s.
           let s = set_func (accel_timer oid) (Some Fn_mpu9250_event) (clear_timer (accel_timer oid) (upd_mpu oid (\<lambda>_. mpu_zero) s))
           in bnd (i2cdev_oid_lookup (ucast (args ! 1)) s) (\<lambda>p s. Ret () (upd_mpu oid (\<lambda>mp. mp\<lparr>mp_i2c := p\<rparr>) s))))"

definition mp9250_reschedule_timer :: "(nat \<Rightarrow> u32) \<Rightarrow> u8 \<Rightarrow> 'a accel_sys_scheme \<Rightarrow> ('a accel_sys_scheme, unit) res" where
  "mp9250_reschedule_timer clk oid s = start_timer clk (mp_rest_ticks (mpus s oid)) oid s"

text \<open>\<open>i2c_read(mp->i2c->i2c_config, 1, &reg, len, msg)\<close>\<close>

definition mpu_read :: "bus_env \<Rightarrow> u8 \<Rightarrow> u8 \<Rightarrow> u8 \<Rightarrow> 'a accel_sys_scheme \<Rightarrow> ('a accel_sys_scheme, u8 list) res" where
  "mpu_read env oid reg len s =
     (case mp_i2c (mpus s oid) of
        None \<Rightarrow> Fault
      | Some dev \<Rightarrow> i2c_read env (i2c_config (i2cdevs s dev)) 1 [reg] len s)"

definition fifo_bytes :: "u8 list \<Rightarrow> u16" where
  "fifo_bytes msg = push_bit 8 (ucast (msg ! 0 AND 0x1f)) OR ucast (msg ! 1)"

definition get_fifo_status :: "bus_env \<Rightarrow> u8 \<Rightarrow> 'a accel_sys_scheme \<Rightarrow> ('a accel_sys_scheme, u16) res" where
  "get_fifo_status env oid s =
     bnd (mpu_read env oid AR_FIFO_COUNT_H 2 s) (\<lambda>msg s.
       Ret (fifo_bytes msg)
         (upd_mpu oid (\<lambda>mp. if fifo_bytes msg > fifo_max mp then mp\<lparr>fifo_max := fifo_bytes msg\<rparr> else mp) s))"

definition mp9250_query :: "bus_env \<Rightarrow> (nat \<Rightarrow> u32) \<Rightarrow> u8 \<Rightarrow> 'a accel_sys_scheme \<Rightarrow> ('a accel_sys_scheme, unit) res" where
  "mp9250_query env clk oid s =
     andthen (if fifo_pkts_bytes (mpus s oid) < BYTES_PER_BLOCK
              then bnd (get_fifo_status env oid s) (\<lambda>n s. Ret () (upd_mpu oid (\<lambda>mp. mp\<lparr>fifo_pkts_bytes := n\<rparr>) s))
              else Ret () s) (\<lambda>s.
     andthen (if fifo_pkts_bytes (mpus s oid) \<ge> BYTES_PER_BLOCK
              then bnd (mpu_read env oid AR_FIFO (ucast BYTES_PER_BLOCK) s) (\<lambda>d s.
                     let mp = mpus s oid;
                         (sb, s) = sensor_bulk_report oid
                           ((mp_sb mp)\<lparr>sb_data := blit (sb_data (mp_sb mp)) 0 d, data_count := ucast BYTES_PER_BLOCK\<rparr>) s
                     in Ret () (upd_mpu oid (\<lambda>mp. mp\<lparr>mp_sb := sb, fifo_pkts_bytes := fifo_pkts_bytes mp - BYTES_PER_BLOCK\<rparr>) s))
              else Ret () s) (\<lambda>s.
       if fifo_pkts_bytes (mpus s oid) \<ge> BYTES_PER_BLOCK then Ret () (wake_mpu s)
       else mp9250_reschedule_timer clk oid (upd_mpu oid (\<lambda>mp. mp\<lparr>mp_flags := mp_flags mp AND NOT AX_PENDING\<rparr>) s)))"

definition command_query_mpu9250 :: "(nat \<Rightarrow> u32) \<Rightarrow> u32 list \<Rightarrow> 'a accel_sys_scheme \<Rightarrow> ('a accel_sys_scheme, unit) res" where
  "command_query_mpu9250 clk args s =
     (let oid = ucast (args ! 0)
      in with_oid oid T_mpu9250 (\<lambda>s.
           andthen (sched_del_timer (accel_timer oid) s) (\<lambda>s.
             let s = upd_mpu oid (\<lambda>mp. mp\<lparr>mp_flags := 0\<rparr>) s
             in if args ! 1 = 0 then Ret () s
                else mp9250_reschedule_timer clk oid
                       (upd_mpu oid (\<lambda>mp. mp\<lparr>mp_rest_ticks := args ! 1, mp_sb := sensor_bulk_reset (mp_sb mp), fifo_max := 0,
                          fifo_pkts_bytes := 0\<rparr>) s))) s)"

definition command_query_mpu9250_status ::
    "bus_env \<Rightarrow> (nat \<Rightarrow> u32) \<Rightarrow> u32 list \<Rightarrow> 'a accel_sys_scheme \<Rightarrow> ('a accel_sys_scheme, unit) res" where
  "command_query_mpu9250_status env clk args s =
     (let oid = ucast (args ! 0)
      in with_oid oid T_mpu9250 (\<lambda>s.
           bnd (mpu_read env oid AR_INT_STATUS 1 s) (\<lambda>int_msg s.
             let s = (if bit_set (int_msg ! 0) FIFO_OVERFLOW_INT
                      then upd_mpu oid (\<lambda>mp. mp\<lparr>mp_sb := (mp_sb mp)\<lparr>possible_overflows := possible_overflows (mp_sb mp) + 1\<rparr>\<rparr>) s
                      else s)
             in bnd (mpu_read env oid AR_FIFO_COUNT_H 2 s) (\<lambda>msg s.
                  Ret () (sensor_bulk_status oid (clk 0) (clk 1 - clk 0) (ucast (fifo_bytes msg)) (mp_sb (mpus s oid)) s)))) s)"

definition mpu9250_task :: "bus_env \<Rightarrow> (u8 \<Rightarrow> nat \<Rightarrow> u32) \<Rightarrow> 'a accel_sys_scheme \<Rightarrow> ('a accel_sys_scheme, unit) res" where
  "mpu9250_task env clk s =
     (case sched_check_wake mpu9250_wake (\<lambda>f s. s\<lparr>mpu9250_wake := f (mpu9250_wake s)\<rparr>) s of
        (False, s) \<Rightarrow> Ret () s
      | (True, s) \<Rightarrow>
          foreach_oid T_mpu9250 (\<lambda>oid s.
            if bit_set (mp_flags (mpus s oid)) AX_PENDING then mp9250_query env (clk oid) oid s else Ret () s) s)"

end
