(* ===== verification/Accel_Props.thy ===== *)
theory Accel_Props
  imports Accel Bus_Props
begin

text \<open>
  The measurements of the acceleration sensors arrive in order and complete in the reports, and the host decodes the packed
  samples of the ADXL345 to the values of the chip.
\<close>

section \<open>Reports\<close>

text \<open>The reports with measurements of an object among the messages sent: sequence number and data.\<close>

fun bulk_report :: "u8 \<Rightarrow> string \<times> rarg list \<Rightarrow> (u32 \<times> u8 list) list" where
  "bulk_report oid (f, [RInt x, RInt q, RBytes d]) = (if f = ''sensor_bulk_data'' \<and> x = ucast oid then [(q, d)] else [])"
| "bulk_report oid m = []"

definition bulk_reports :: "nat \<Rightarrow> u8 \<Rightarrow> 'a sched_scheme \<Rightarrow> (u32 \<times> u8 list) list" where
  "bulk_reports base oid s = concat (map (bulk_report oid) (drop base (sent s)))"

text \<open>
  Since \<open>base\<close> messages were sent, the reports and the buffer together hold the samples \<open>xs\<close>, the reports are
  numbered, and there is room for another \<open>n\<close> bytes.
\<close>

definition collected :: "nat \<Rightarrow> nat \<Rightarrow> u8 \<Rightarrow> sensor_bulk \<Rightarrow> 'a sched_scheme \<Rightarrow> u8 list list \<Rightarrow> bool" where
  "collected n base oid sb s xs \<longleftrightarrow>
     base \<le> length (sent s) \<and> length (sb_data sb) = SB_SIZE \<and> unat (data_count sb) + n \<le> SB_SIZE \<and>
     concat (map snd (bulk_reports base oid s)) @ take (unat (data_count sb)) (sb_data sb) = concat xs \<and>
     map fst (bulk_reports base oid s) = map (\<lambda>i. ucast (of_nat i :: u16)) [0..<length (bulk_reports base oid s)] \<and>
     sequence sb = of_nat (length (bulk_reports base oid s))"

lemma collected_start: "n \<le> SB_SIZE \<Longrightarrow> length (sb_data sb) = SB_SIZE \<Longrightarrow> collected n (length (sent s)) oid (sensor_bulk_reset sb) s []"
  by (simp add: collected_def bulk_reports_def sensor_bulk_reset_def)

lemma collected_sent: "sent s' = sent s \<Longrightarrow> collected n base oid sb s xs \<Longrightarrow> collected n base oid sb s' xs"
  by (simp add: collected_def bulk_reports_def)

lemma collected_overflows: "collected n base oid sb s xs \<Longrightarrow> collected n base oid (sb\<lparr>possible_overflows := k\<rparr>) s xs"
  by (simp add: collected_def)

lemma if_collected: "collected n base oid a s xs \<Longrightarrow> collected n base oid b s xs \<Longrightarrow> collected n base oid (if p then a else b) s xs"
  by simp

lemma collect_step:
  assumes "collected n base oid sb s xs" "length d = n" "n \<le> SB_SIZE"
  shows "\<exists>sb1 sb2 s2. bulk_store d sb = Some sb1 \<and> report_full n oid sb1 s = (sb2, s2) \<and> collected n base oid sb2 s2 (xs @ [d]) \<and>
    (s2 = s \<or> (\<exists>m. s2 = s\<lparr>sent := sent s @ [m]\<rparr>))"
proof -
  let ?c = "unat (data_count sb)"
  let ?sb1 = "sb\<lparr>sb_data := blit (sb_data sb) ?c d, data_count := data_count sb + of_nat (length d)\<rparr>"
  have c: "base \<le> length (sent s)" "length (sb_data sb) = SB_SIZE" "?c + n \<le> SB_SIZE"
    "concat (map snd (bulk_reports base oid s)) @ take ?c (sb_data sb) = concat xs"
    "map fst (bulk_reports base oid s) = map (\<lambda>i. ucast (of_nat i :: u16)) [0..<length (bulk_reports base oid s)]"
    "sequence sb = of_nat (length (bulk_reports base oid s))"
    using assms(1) by (simp_all add: collected_def)
  have st: "bulk_store d sb = Some ?sb1" using c(3) assms(2) by (simp add: bulk_store_def)
  have cnt: "unat (data_count sb + of_nat (length d)) = ?c + n"
    using c(3) assms(2) by (simp add: unat_word_ariths(1) unat_of_nat_small SB_SIZE_def)
  have all: "concat (map snd (bulk_reports base oid s)) @ take (?c + n) (blit (sb_data sb) ?c d) = concat (xs @ [d])"
    using c(2-4) assms(2) by (simp add: blit_def)
  have len: "length (blit (sb_data sb) ?c d) = SB_SIZE" using c(2,3) assms(2) by simp
  show ?thesis
  proof (cases "?c + n + n > SB_SIZE")
    case True
    let ?m = "(''sensor_bulk_data'', [RInt (ucast oid), RInt (ucast (sequence sb)), RBytes (take (?c + n) (blit (sb_data sb) ?c d))])"
    have r: "report_full n oid ?sb1 s = (?sb1\<lparr>data_count := 0, sequence := sequence sb + 1\<rparr>, s\<lparr>sent := sent s @ [?m]\<rparr>)"
      using True cnt by (simp add: report_full_def sensor_bulk_report_def sendf_def)
    have b: "bulk_reports base oid (s\<lparr>sent := sent s @ [?m]\<rparr>) =
        bulk_reports base oid s @ [(ucast (sequence sb), take (?c + n) (blit (sb_data sb) ?c d))]"
      using c(1) by (simp add: bulk_reports_def)
    have "collected n base oid (?sb1\<lparr>data_count := 0, sequence := sequence sb + 1\<rparr>) (s\<lparr>sent := sent s @ [?m]\<rparr>) (xs @ [d])"
      unfolding collected_def b using c all len assms(3) by simp
    then show ?thesis using st r by blast
  next
    case False
    have "report_full n oid ?sb1 s = (?sb1, s)" using False cnt by (simp add: report_full_def)
    moreover have "collected n base oid ?sb1 s (xs @ [d])" unfolding collected_def using c all len cnt False by simp
    ultimately show ?thesis using st by blast
  qed
qed

section \<open>Measurements in order\<close>

lemma lines_only_accel:
  fixes s s' :: "'a accel_sys_scheme"
  assumes "lines_only s es s'"
  shows "sent s' = sent s" "adxls s' = adxls s" "liss s' = liss s"
proof -
  have eq: "s' = s\<lparr>pin_out := pin_out s', bus_log := bus_log s @ es\<rparr>" using assms by (simp add: lines_only_def)
  show "sent s' = sent s" by (subst eq) simp
  show "adxls s' = adxls s" by (subst eq) simp
  show "liss s' = liss s" by (subst eq) simp
qed

lemma sent_simps [simp]:
  "sent (upd_adxl oid f s) = sent s" "sent (upd_lis oid f t) = sent t" "sent (wake_adxl s) = sent s" "sent (wake_lis t) = sent t"
  "adxls (wake_adxl s) = adxls s" "liss (wake_lis t) = liss t"
  "adxls (upd_adxl oid f s) oid = f (adxls s oid)" "liss (upd_lis oid f t) oid = f (liss t oid)"
  by (simp_all add: upd_adxl_def upd_lis_def wake_adxl_def wake_lis_def sched_wake_task_def sched_wake_tasks_def)

lemma five_fits: "5 \<le> SB_SIZE" and six_fits: "6 \<le> SB_SIZE" by (simp_all add: SB_SIZE_def)

text \<open>A chip on a hardware bus with one byte of data, five.\<close>

definition demo_chip :: bus_env where
  "demo_chip = demo_wire\<lparr>spi_answer := \<lambda>_ _ _ i. if i = 1 then 5 else 0\<rparr>"

definition demo_accel :: accel_sys where
  "demo_accel =
     (let ax = accel_zero\<lparr>sa_spi := Some 2, sa_flags := 1\<rparr>
      in bus_sys.extend (demo_bus\<lparr>spidevs := \<lambda>_. \<lparr>spi_bus = Spi_hardware 0, spi_pin = 6, spi_flags = 5\<rparr>\<rparr>)
           (accel_sys.fields (\<lambda>_. ax) (\<lambda>_. ax) (\<lambda>_. mpu_zero) 0 0 0))"

lemma demo_accel_simps:
  "spidevs demo_accel oid = \<lparr>spi_bus = Spi_hardware 0, spi_pin = 6, spi_flags = 5\<rparr>"
  "adxls demo_accel oid = accel_zero\<lparr>sa_spi := Some 2, sa_flags := 1\<rparr>"
  "liss demo_accel oid = accel_zero\<lparr>sa_spi := Some 2, sa_flags := 1\<rparr>"
  by (simp_all add: demo_accel_def Let_def bus_sys.defs accel_sys.defs)

lemma demo_accel_ok: "bus_ok demo_chip 2 demo_accel"
  by (simp add: bus_ok_def Let_def demo_accel_simps SF_SOFTWARE_def bit_set_def)

lemma demo_accel_collected:
  "n \<le> SB_SIZE \<Longrightarrow> collected n (length (sent demo_accel)) oid bulk_zero demo_accel []"
  using collected_start [of n bulk_zero demo_accel oid] by (simp add: bulk_zero_def sensor_bulk_reset_def)

lemma length_adxl_sample: "length (fst (adxl_sample msg)) = 5"
  by (simp add: adxl_sample_def Let_def)

text \<open>
  C15: Each query of the ADXL345 adds the sample of its message behind those collected before. The reports sent and the
  buffer together hold all samples in order, numbered without a gap, and the buffer is never left.
\<close>

theorem measurements_in_order:
  assumes "sa_spi (adxls s oid) = Some dev" "bus_ok env dev s" "collected 5 base oid (sa_sb (adxls s oid)) s xs"
  shows "\<exists>msg s0 s1.
    spidev_transfer env dev True 9 ((AR_DATAX0 OR AM_READ OR AM_MULTI) # replicate 8 0) s = Ret msg s0 \<and> length msg = 9 \<and>
    collected 5 base oid (sa_sb (adxls s1 oid)) s1 (xs @ [fst (adxl_sample msg)]) \<and>
    (adxl_query env clk oid s = Ret () s1 \<or> adxl_query env clk oid s = adxl_reschedule_timer clk oid s1)"
proof -
  obtain msg s0 es where x: "spidev_transfer env dev True 9 ((AR_DATAX0 OR AM_READ OR AM_MULTI) # replicate 8 0) s = Ret msg s0"
    "length msg = 9" "lines_only s es s0"
    using sp.exchange [OF assms(2), of 9 "(AR_DATAX0 OR AM_READ OR AM_MULTI) # replicate 8 0" True] by auto
  obtain d fifo where d: "adxl_sample msg = (d, fifo)" by (cases "adxl_sample msg")
  have l: "length d = 5" using length_adxl_sample [of msg] d by simp
  have "collected 5 base oid (sa_sb (adxls s0 oid)) s0 xs"
    using collected_sent [OF _ assms(3), of s0] lines_only_accel [OF x(3)] by simp
  from collect_step [OF this l five_fits] obtain sb1 sb2 s2 where st: "bulk_store d (sa_sb (adxls s0 oid)) = Some sb1"
    "report_full 5 oid sb1 s0 = (sb2, s2)" "collected 5 base oid sb2 s2 (xs @ [d])"
    "s2 = s0 \<or> (\<exists>m. s2 = s0\<lparr>sent := sent s0 @ [m]\<rparr>)" by blast
  let ?sb = "if fifo \<ge> 31 then sb2\<lparr>possible_overflows := possible_overflows sb2 + 1\<rparr> else sb2"
  let ?t = "upd_adxl oid (\<lambda>ax. ax\<lparr>sa_sb := ?sb\<rparr>) s2"
  have c: "collected 5 base oid ?sb t (xs @ [d])" if "sent t = sent s2" for t :: "'a accel_sys_scheme"
    using st(3) by (intro collected_sent [OF that]) (simp add: collected_overflows)
  have q: "adxl_query env clk oid s =
      (if fifo > 1 then Ret () (wake_adxl ?t)
       else adxl_reschedule_timer clk oid (upd_adxl oid (\<lambda>ax. ax\<lparr>sa_flags := sa_flags ax AND NOT AX_PENDING\<rparr>) ?t))"
    using assms(1) x(1) d st(1,2) by (simp add: adxl_query_def ADXL_BYTES_PER_SAMPLE_def Let_def)
  show ?thesis
  proof (cases "fifo > 1")
    case True
    then show ?thesis using q x(1,2) d c [of "wake_adxl ?t"] by (intro exI [of _ msg] exI [of _ s0] exI [of _ "wake_adxl ?t"]) simp
  next
    case False
    then show ?thesis using q x(1,2) d c [of "upd_adxl oid (\<lambda>ax. ax\<lparr>sa_flags := sa_flags ax AND NOT AX_PENDING\<rparr>) ?t"]
      by (intro exI [of _ msg] exI [of _ s0] exI [of _ "upd_adxl oid (\<lambda>ax. ax\<lparr>sa_flags := sa_flags ax AND NOT AX_PENDING\<rparr>) ?t"]) simp
  qed
qed

theorem measurements_in_order_witness:
  "\<exists>msg s1. length msg = 9 \<and>
    collected 5 (length (sent demo_accel)) 1 (sa_sb (adxls s1 1)) s1 [fst (adxl_sample msg)] \<and>
    (adxl_query demo_chip of_nat 1 demo_accel = Ret () s1 \<or> adxl_query demo_chip of_nat 1 demo_accel = adxl_reschedule_timer of_nat 1 s1)"
  using measurements_in_order [of demo_accel 1 2 demo_chip "length (sent demo_accel)" "[]" of_nat] demo_accel_ok
    demo_accel_collected [OF five_fits] by (auto simp: demo_accel_simps accel_zero_def)

text \<open>
  C38: The LIS2DW is looked at again at once when its fifo is empty, and is left until the next timer when samples wait in
  it: the count of waiting samples is taken for the opposite flag.
\<close>

theorem lis2dw_sleeps_on_data:
  assumes "sa_spi (liss s oid) = Some dev" "bus_ok env dev s" "collected 6 base oid (sa_sb (liss s oid)) s xs"
  shows "\<exists>msg s0 fifo s' s1.
    spidev_transfer env dev True 7 ((LIS_AR_DATAX0 OR LIS_AM_READ) # replicate 6 0) s = Ret msg s0 \<and>
    spidev_transfer env dev True 2 [LIS_FIFO_SAMPLES OR LIS_AM_READ, 0] s0 = Ret fifo s' \<and>
    collected 6 base oid (sa_sb (liss s1 oid)) s1 (xs @ [take 6 (drop 1 msg)]) \<and>
    lis2dw_query env clk oid s = (if fifo ! 1 AND 0x3f = 0 then Ret () s1 else lis2dw_reschedule_timer clk oid s1) \<and>
    (if fifo ! 1 AND 0x3f = 0 then lis2dw_wake s1 = 1 \<and> sa_flags (liss s1 oid) = sa_flags (liss s oid)
     else sa_flags (liss s1 oid) = sa_flags (liss s oid) AND NOT LIS_PENDING)"
proof -
  obtain msg s0 fifo s' es where x: "spidev_transfer env dev True 7 ((LIS_AR_DATAX0 OR LIS_AM_READ) # replicate 6 0) s = Ret msg s0"
    "spidev_transfer env dev True 2 [LIS_FIFO_SAMPLES OR LIS_AM_READ, 0] s0 = Ret fifo s'" "length msg = 7" "lines_only s es s'"
    using sp.exchange_twice [OF assms(2), of 7 "(LIS_AR_DATAX0 OR LIS_AM_READ) # replicate 6 0" 2 "[LIS_FIFO_SAMPLES OR LIS_AM_READ, 0]"
        True True] by auto
  let ?d = "take 6 (drop 1 msg)"
  have l: "length ?d = 6" using x(3) by simp
  have "collected 6 base oid (sa_sb (liss s' oid)) s' xs"
    using collected_sent [OF _ assms(3), of s'] lines_only_accel [OF x(4)] by simp
  from collect_step [OF this l six_fits] obtain sb1 sb2 s2 where st: "bulk_store ?d (sa_sb (liss s' oid)) = Some sb1"
    "report_full 6 oid sb1 s' = (sb2, s2)" "collected 6 base oid sb2 s2 (xs @ [?d])"
    "s2 = s' \<or> (\<exists>m. s2 = s'\<lparr>sent := sent s' @ [m]\<rparr>)" by blast
  let ?sb = "if fifo ! 1 AND 0x40 \<noteq> 0 then sb2\<lparr>possible_overflows := possible_overflows sb2 + 1\<rparr> else sb2"
  let ?t = "upd_lis oid (\<lambda>ax. ax\<lparr>sa_sb := ?sb\<rparr>) s2"
  define s1 where "s1 = (if fifo ! 1 AND 0x3f = 0 then wake_lis ?t
    else upd_lis oid (\<lambda>ax. ax\<lparr>sa_flags := sa_flags ax AND NOT LIS_PENDING\<rparr>) ?t)"
  have s1: "sent s1 = sent s2" "sa_sb (liss s1 oid) = ?sb" by (simp_all add: s1_def)
  have c: "collected 6 base oid (sa_sb (liss s1 oid)) s1 (xs @ [?d])"
    unfolding s1(2) by (rule collected_sent [OF s1(1)]) (rule if_collected [OF collected_overflows [OF st(3)] st(3)])
  have q: "lis2dw_query env clk oid s = (if fifo ! 1 AND 0x3f = 0 then Ret () s1 else lis2dw_reschedule_timer clk oid s1)"
    using assms(1) x(1,2) st(1,2) lines_only_accel [OF x(4)] by (simp add: lis2dw_query_def LIS_BYTES_PER_SAMPLE_def Let_def s1_def)
  have f: "sa_flags (liss s2 oid) = sa_flags (liss s oid)" using st(4) lines_only_accel [OF x(4)] by auto
  have w: "lis2dw_wake s1 = 1 \<and> sa_flags (liss s1 oid) = sa_flags (liss s oid)" if "fifo ! 1 AND 0x3f = 0"
    using that f by (simp add: s1_def) (simp add: wake_lis_def sched_wake_task_def)
  have n: "sa_flags (liss s1 oid) = sa_flags (liss s oid) AND NOT LIS_PENDING" if "fifo ! 1 AND 0x3f \<noteq> 0"
    using that f by (simp add: s1_def)
  show ?thesis using x(1,2) c q w n by (intro exI [of _ msg] exI [of _ s0] exI [of _ fifo] exI [of _ s'] exI [of _ s1]) simp
qed

theorem lis2dw_sleeps_on_data_witness:
  "\<exists>s1. lis2dw_query demo_chip of_nat 1 demo_accel = lis2dw_reschedule_timer of_nat 1 s1 \<and> sa_flags (liss s1 1) = 0"
proof -
  obtain msg s0 fifo s' s1 where
    m: "spidev_transfer demo_chip 2 True 7 ((LIS_AR_DATAX0 OR LIS_AM_READ) # replicate 6 0) demo_accel = Ret msg s0"
    and f: "spidev_transfer demo_chip 2 True 2 [LIS_FIFO_SAMPLES OR LIS_AM_READ, 0] s0 = Ret fifo s'"
    and q: "lis2dw_query demo_chip of_nat 1 demo_accel = (if fifo ! 1 AND 0x3f = 0 then Ret () s1 else lis2dw_reschedule_timer of_nat 1 s1)"
      "if fifo ! 1 AND 0x3f = 0 then lis2dw_wake s1 = 1 \<and> sa_flags (liss s1 1) = sa_flags (liss demo_accel 1)
       else sa_flags (liss s1 1) = sa_flags (liss demo_accel 1) AND NOT LIS_PENDING"
    using lis2dw_sleeps_on_data [of demo_accel 1 2 demo_chip "length (sent demo_accel)" "[]" of_nat] demo_accel_ok
      demo_accel_collected [OF six_fits] by (auto simp: demo_accel_simps accel_zero_def)
  have "spidevs s0 2 = spidevs demo_accel 2"
    using sp.exchange [OF demo_accel_ok, of 7 "(LIS_AR_DATAX0 OR LIS_AM_READ) # replicate 6 0" True] m by (auto dest: lines_only_spidevs)
  then have "fifo ! 1 = 5"
    using f by (auto simp: demo_accel_simps spidev_transfer_def Let_def bit_set_def SF_SOFTWARE_def SF_HARDWARE_def SF_HAVE_PIN_def
        spi_transfer_def demo_chip_def upt_rec split: if_splits)
  then show ?thesis using q by (auto simp: demo_accel_simps LIS_PENDING_def)
qed

section \<open>The packed samples of the ADXL345\<close>

lemma byte_eqI:
  "bit v 0 = bit w 0 \<Longrightarrow> bit v 1 = bit w 1 \<Longrightarrow> bit v 2 = bit w 2 \<Longrightarrow> bit v 3 = bit w 3 \<Longrightarrow>
   bit v 4 = bit w 4 \<Longrightarrow> bit v 5 = bit w 5 \<Longrightarrow> bit v 6 = bit w 6 \<Longrightarrow> bit v 7 = bit w 7 \<Longrightarrow> v = w" for v w :: u8
proof (rule bit_word_eqI)
  fix n
  assume b: "bit v 0 = bit w 0" "bit v 1 = bit w 1" "bit v 2 = bit w 2" "bit v 3 = bit w 3"
    "bit v 4 = bit w 4" "bit v 5 = bit w 5" "bit v 6 = bit w 6" "bit v 7 = bit w 7" and n: "n < LENGTH(8)"
  have "n \<in> set [0..<8]" using n by simp
  moreover have "[0..<8] = [0, 1, 2, 3, 4, 5, 6, 7]" by (simp add: upt_rec)
  ultimately show "bit v n = bit w n" using b by auto
qed

lemma high_of_sint:
  fixes hi :: u8
  assumes "-16 \<le> sint hi" "sint hi \<le> 15"
  shows "hi \<in> word_of_int ` {-16, -15, -14, -13, -12, -11, -10, -9, -8, -7, -6, -5, -4, -3, -2, -1, 0, 1, 2, 3, 4, 5, 6, 7, 8, 9, 10, 11, 12, 13, 14, 15}"
proof (rule image_eqI [of _ _ "sint hi"])
  have "sint hi \<in> set [-16..15]" using assms unfolding set_upto by simp
  moreover have "[-16..15] = [-16, -15, -14, -13, -12, -11, -10, -9, -8, -7, -6, -5, -4, -3, -2, -1, 0, 1, 2, 3, 4, 5, 6, 7, 8, 9, 10, 11, 12, 13, 14, 15]" by (simp add: upto_rec1)
  ultimately show "sint hi \<in> {-16, -15, -14, -13, -12, -11, -10, -9, -8, -7, -6, -5, -4, -3, -2, -1, 0, 1, 2, 3, 4, 5, 6, 7, 8, 9, 10, 11, 12, 13, 14, 15}"
    by (simp only: list.set)
qed simp

lemma high_nibble: "hi AND 0xf0 = 0 \<or> hi AND 0xf0 = 0xf0 \<longleftrightarrow> -16 \<le> sint hi \<and> sint hi \<le> 15" for hi :: u8
proof
  assume h: "hi AND 0xf0 = 0 \<or> hi AND 0xf0 = 0xf0"
  have "uint (hi AND 0xf) \<le> 15" using word_and_le1 [of hi "0xf"] by (simp add: word_le_def)
  then have "uint (hi AND 0xf) \<in> set [0..15]" unfolding set_upto by simp
  moreover have "[0..15] = [0, 1, 2, 3, 4, 5, 6, 7, 8, 9, 10, 11, 12, 13, 14, 15]" by (simp add: upto_rec1)
  ultimately have n: "uint (hi AND 0xf) \<in> {0, 1, 2, 3, 4, 5, 6, 7, 8, 9, 10, 11, 12, 13, 14, 15}"
    by (simp only: list.set)
  have "hi = (hi AND 0xf0) OR word_of_int (uint (hi AND 0xf))"
    unfolding word_of_int_uint by (rule byte_eqI) (simp_all add: bit_simps)
  then have m: "hi \<in> {word_of_int (uint (hi AND 0xf)), 0xf0 OR word_of_int (uint (hi AND 0xf))}"
    using h by (metis insertI1 insertI2 or.left_neutral)
  have "-16 \<le> sint w \<and> sint w \<le> 15" if "w \<in> {word_of_int n, 0xf0 OR word_of_int n}" "n \<in> {0, 1, 2, 3, 4, 5, 6, 7, 8, 9, 10, 11, 12, 13, 14, 15}" for w :: u8 and n
    using that by (elim insertE emptyE) simp_all
  from this [OF m n] show "-16 \<le> sint hi \<and> sint hi \<le> 15" .
next
  assume "-16 \<le> sint hi \<and> sint hi \<le> 15"
  then have "hi \<in> word_of_int ` {-16, -15, -14, -13, -12, -11, -10, -9, -8, -7, -6, -5, -4, -3, -2, -1, 0, 1, 2, 3, 4, 5, 6, 7, 8, 9, 10, 11, 12, 13, 14, 15}"
    by (intro high_of_sint) simp_all
  then show "hi AND 0xf0 = 0 \<or> hi AND 0xf0 = 0xf0" by (elim imageE insertE emptyE) simp_all
qed

text \<open>The value of an axis in the registers of the chip, and the 13 bit range that it keeps.\<close>

definition axis :: "u8 \<Rightarrow> u8 \<Rightarrow> int" where
  "axis lo hi = 256 * sint hi + uint lo"

definition axis_ok :: "u8 \<Rightarrow> u8 \<Rightarrow> bool" where
  "axis_ok lo hi \<longleftrightarrow> -4096 \<le> axis lo hi \<and> axis lo hi \<le> 4095"

lemma axis_ok_high: "axis_ok lo hi \<longleftrightarrow> -16 \<le> sint hi \<and> sint hi \<le> 15"
proof -
  have "0 \<le> uint lo" "uint lo < 256" using uint_lt2p [of lo] by simp_all
  then have "-4096 \<le> 256 * sint hi + uint lo \<longleftrightarrow> -16 \<le> sint hi" "256 * sint hi + uint lo \<le> 4095 \<longleftrightarrow> sint hi \<le> 15" by linarith+
  then show ?thesis unfolding axis_ok_def axis_def by blast
qed

lemma byte_or_high: "c mod 256 = 0 \<Longrightarrow> uint b OR c = uint b + c" for b :: u8 and c :: int
proof -
  assume "c mod 256 = 0"
  then obtain k where c: "c = push_bit 8 k" by (auto simp: push_bit_eq_mult mod_eq_0_iff_dvd mult.commute elim!: dvdE)
  have "take_bit 8 (uint b) = uint b" using uint_lt2p [of b] by (simp add: take_bit_int_eq_self)
  then show ?thesis using concat_bit_eq [of 8 "uint b" k] by (simp add: c concat_bit_def)
qed

lemma uint_mask: "uint w AND uint m = uint (w AND m)" for w m :: u8
  by (simp add: uint_and)

lemmas byte_masks = uint_mask [of _ "0x1f", simplified] uint_mask [of _ "0x10", simplified] uint_mask [of _ "0xe0", simplified]
  uint_mask [of _ "0x40", simplified] uint_mask [of _ "0x80", simplified]

lemma packed_masks:
  fixes a b :: u8
  shows "((a AND 0x1f) OR push_bit 5 b) AND 0x1f = a AND 0x1f"
    "((a AND 0x1f) OR push_bit 5 b) AND 0x10 = a AND 0x10"
    "((a AND 0x1f) OR push_bit 5 b) AND 0xe0 = push_bit 5 b"
    "((a AND 0x1f) OR (push_bit 2 b AND 0x60)) AND 0x1f = a AND 0x1f"
    "((a AND 0x1f) OR (push_bit 2 b AND 0x60)) AND 0x10 = a AND 0x10"
    "((a AND 0x1f) OR (push_bit 2 b AND 0x60)) AND 0xe0 = push_bit 2 b AND 0x60"
    "((a AND 0x1f) OR (push_bit 2 b AND 0x60)) AND 0x40 = push_bit 2 b AND 0x40"
    "((a AND 0x1f) OR (push_bit 2 b AND 0x60)) AND 0x80 = 0"
  by (rule byte_eqI; simp add: bit_simps)+

lemma axis_decode:
  assumes "-16 \<le> sint hi" "sint hi \<le> 15"
  shows "(uint lo OR push_bit 8 (uint (hi AND 0x1f))) - push_bit 9 (uint (hi AND 0x10)) = axis lo hi"
    "(uint lo OR push_bit 3 (uint (push_bit 5 hi)) OR push_bit 6 (uint (push_bit 2 hi AND 0x60))) - push_bit 7 (uint (push_bit 2 hi AND 0x40))
     = axis lo hi"
proof -
  have "uint lo OR push_bit 8 (uint (hi AND 0x1f)) = uint lo + push_bit 8 (uint (hi AND 0x1f))"
    by (rule byte_or_high) (simp add: push_bit_eq_mult)
  moreover have "push_bit 8 (uint (hi AND 0x1f)) - push_bit 9 (uint (hi AND 0x10)) = 256 * sint hi"
    using high_of_sint [OF assms] by (auto simp: mask_eq_exp_minus_1)
  ultimately show "(uint lo OR push_bit 8 (uint (hi AND 0x1f))) - push_bit 9 (uint (hi AND 0x10)) = axis lo hi"
    by (simp add: axis_def)
  let ?c = "push_bit 3 (uint (push_bit 5 hi)) OR push_bit 6 (uint (push_bit 2 hi AND 0x60))"
  have "?c mod 256 = 0 \<and> ?c - push_bit 7 (uint (push_bit 2 hi AND 0x40)) = 256 * sint hi"
    using high_of_sint [OF assms] by (auto simp: mask_eq_exp_minus_1)
  then show "(uint lo OR ?c) - push_bit 7 (uint (push_bit 2 hi AND 0x40)) = axis lo hi"
    using byte_or_high [of ?c lo] by (simp add: axis_def)
qed

lemma replicate_five: "replicate 5 x = [x, x, x, x, x]"
  by (simp add: numeral_eq_Suc)

text \<open>
  C19: The host decodes the packed sample of a message to the three values in the registers of the chip, as long as these
  have the 13 bits of the chip and the message ends as it should; any other message reaches the host as an error.
\<close>

theorem adxl_sample_decodes:
  "adxl_decode (fst (adxl_sample msg)) =
     (if axis_ok (msg ! 1) (msg ! 2) \<and> axis_ok (msg ! 3) (msg ! 4) \<and> axis_ok (msg ! 5) (msg ! 6) \<and>
         msg ! 7 = SET_FIFO_CTL \<and> msg ! 8 AND 0x7f \<le> 32
      then Some (axis (msg ! 1) (msg ! 2), axis (msg ! 3) (msg ! 4), axis (msg ! 5) (msg ! 6)) else None)"
proof -
  have bad: "hi AND 0xf0 \<noteq> 0 \<and> hi AND 0xf0 \<noteq> 0xf0 \<longleftrightarrow> \<not> axis_ok lo hi" for lo hi
    using high_nibble [of hi] axis_ok_high [of lo hi] by blast
  have err: "adxl_decode (replicate 5 0xff) = None" by (simp add: adxl_decode_def Let_def replicate_five)
  have neg: "NOT 0x80 = (0x7f :: u8)" by simp
  show ?thesis
  proof (cases "axis_ok (msg ! 1) (msg ! 2) \<and> axis_ok (msg ! 3) (msg ! 4) \<and> axis_ok (msg ! 5) (msg ! 6) \<and>
         msg ! 7 = SET_FIFO_CTL \<and> msg ! 8 AND 0x7f \<le> 32")
    case True
    then have s: "fst (adxl_sample msg) = [msg ! 1, msg ! 3, msg ! 5, (msg ! 2 AND 0x1f) OR push_bit 5 (msg ! 6),
                (msg ! 4 AND 0x1f) OR (push_bit 2 (msg ! 6) AND 0x60)]"
      unfolding adxl_sample_def Let_def neg bad [of _ "msg ! 1"] using bad by auto
    have "adxl_decode (fst (adxl_sample msg)) = Some (axis (msg ! 1) (msg ! 2), axis (msg ! 3) (msg ! 4), axis (msg ! 5) (msg ! 6))"
      using True unfolding s adxl_decode_def Let_def by (simp add: byte_masks packed_masks axis_ok_high axis_decode)
    then show ?thesis using True by simp
  next
    case False
    then have "fst (adxl_sample msg) = replicate 5 0xff"
      unfolding adxl_sample_def Let_def neg using bad by auto
    then show ?thesis using False err by simp
  qed
qed

end
