(* ===== verification/Probes.thy ===== *)
theory Probes
  imports Accel
begin

text \<open>
  Sensors on SPI that are read on a schedule: \<open>klipper/src/thermocouple.c\<close>, which shuts down on repeated faults, and the
  magnetic angle sensors of \<open>sensor_angle.c\<close>. Definitions only. \<open>clk\<close> gives the values of the clock reads
  of an operation, in their order; a wait that no reading ends is \<open>Fault\<close>.
\<close>

section \<open>State\<close>

definition TS_CHIP_MAX31855 :: u8 where "TS_CHIP_MAX31855 = 0"
definition TS_CHIP_MAX31856 :: u8 where "TS_CHIP_MAX31856 = 1"
definition TS_CHIP_MAX31865 :: u8 where "TS_CHIP_MAX31865 = 2"
definition TS_CHIP_MAX6675 :: u8 where "TS_CHIP_MAX6675 = 3"

record thermocouple_spi =
  th_rest_time :: u32
  th_min_value :: u32
  th_max_value :: u32
  th_spi :: "u8 option"
  max_invalid :: u8
  invalid_count :: u8
  th_chip_type :: u8
  th_flags :: u8

definition TS_PENDING :: u8 where "TS_PENDING = 1"

definition SA_CHIP_A1333 :: u8 where "SA_CHIP_A1333 = 0"
definition SA_CHIP_AS5047D :: u8 where "SA_CHIP_AS5047D = 1"
definition SA_CHIP_TLE5012B :: u8 where "SA_CHIP_TLE5012B = 2"
definition SA_CHIP_MAX :: u8 where "SA_CHIP_MAX = 3"

record spi_angle =
  an_rest_ticks :: u32
  an_spi :: "u8 option"
  an_flags :: u8
  an_chip_type :: u8
  time_shift :: u8
  an_overflow :: u8
  an_sb :: sensor_bulk

definition SA_PENDING :: u8 where "SA_PENDING = 4"
definition TCODE_ERROR :: u8 where "TCODE_ERROR = 0xff"
definition SE_OVERFLOW :: u32 where "SE_OVERFLOW = 0"
definition SE_SCHEDULE :: u32 where "SE_SCHEDULE = 1"
definition SE_SPI_TIME :: u32 where "SE_SPI_TIME = 2"
definition SE_CRC :: u32 where "SE_CRC = 3"
definition SE_DUP :: u32 where "SE_DUP = 4"
definition SE_NO_ANGLE :: u32 where "SE_NO_ANGLE = 5"

record probe_sys = bus_sys +
  thermos :: "u8 \<Rightarrow> thermocouple_spi"
  angles :: "u8 \<Rightarrow> spi_angle"
  thermocouple_wake :: u8
  angle_wake :: u8

definition thermo_zero :: thermocouple_spi where
  "thermo_zero = \<lparr>th_rest_time = 0, th_min_value = 0, th_max_value = 0, th_spi = None, max_invalid = 0, invalid_count = 0,
     th_chip_type = 0, th_flags = 0\<rparr>"

definition angle_zero :: spi_angle where
  "angle_zero = \<lparr>an_rest_ticks = 0, an_spi = None, an_flags = 0, an_chip_type = 0, time_shift = 0, an_overflow = 0,
     an_sb = bulk_zero\<rparr>"

definition upd_thermo :: "u8 \<Rightarrow> (thermocouple_spi \<Rightarrow> thermocouple_spi) \<Rightarrow> 'a probe_sys_scheme \<Rightarrow> 'a probe_sys_scheme" where
  "upd_thermo oid f s = s\<lparr>thermos := (thermos s)(oid := f (thermos s oid))\<rparr>"

definition upd_angle :: "u8 \<Rightarrow> (spi_angle \<Rightarrow> spi_angle) \<Rightarrow> 'a probe_sys_scheme \<Rightarrow> 'a probe_sys_scheme" where
  "upd_angle oid f s = s\<lparr>angles := (angles s)(oid := f (angles s oid))\<rparr>"

abbreviation probe_timer :: "u8 \<Rightarrow> tid" where "probe_timer oid \<equiv> TObj (unat oid) 0"

section \<open>Thermocouples\<close>

definition thermocouple_event :: "u8 \<Rightarrow> 'a probe_sys_scheme \<Rightarrow> ('a probe_sys_scheme, sf) res" where
  "thermocouple_event oid s =
     (let s = sched_wake_task (\<lambda>f s. s\<lparr>thermocouple_wake := f (thermocouple_wake s)\<rparr>) s;
          s = upd_thermo oid (\<lambda>th. th\<lparr>th_flags := th_flags th OR TS_PENDING\<rparr>) s
      in Ret SF_RESCHEDULE (set_wake (probe_timer oid) (wake s (probe_timer oid) + th_rest_time (thermos s oid)) s))"

definition command_config_thermocouple :: "board \<Rightarrow> nat \<Rightarrow> u32 list \<Rightarrow> 'a probe_sys_scheme \<Rightarrow> ('a probe_sys_scheme, unit) res" where
  "command_config_thermocouple bd sz args s =
     (let oid = ucast (args ! 0); chip_type = ucast (args ! 2)
      in if chip_type > TS_CHIP_MAX6675 then Shut ''Invalid thermocouple chip type'' s
         else bnd (oid_alloc bd oid T_thermocouple sz s) (\<lambda>_ s.
           let s = set_func (probe_timer oid) (Some Fn_thermocouple_event)
                     (clear_timer (probe_timer oid) (upd_thermo oid (\<lambda>_. thermo_zero) s))
           in bnd (spidev_oid_lookup (ucast (args ! 1)) s) (\<lambda>p s.
                Ret () (upd_thermo oid (\<lambda>th. th\<lparr>th_spi := p, th_chip_type := chip_type\<rparr>) s))))"

definition command_query_thermocouple :: "(nat \<Rightarrow> u32) \<Rightarrow> u32 list \<Rightarrow> 'a probe_sys_scheme \<Rightarrow> ('a probe_sys_scheme, unit) res" where
  "command_query_thermocouple clk args s =
     (let oid = ucast (args ! 0)
      in with_oid oid T_thermocouple (\<lambda>s.
           andthen (sched_del_timer (probe_timer oid) s) (\<lambda>s.
             let s = upd_thermo oid (\<lambda>th. th\<lparr>th_rest_time := args ! 2\<rparr>) (set_wake (probe_timer oid) (args ! 1) s)
             in if args ! 2 = 0 then Ret () s
                else sched_add_timer (clk 0) (clk 1) (probe_timer oid)
                       (upd_thermo oid (\<lambda>th. th\<lparr>th_min_value := args ! 3, th_max_value := args ! 4,
                          max_invalid := ucast (args ! 5), invalid_count := 0\<rparr>) s))) s)"

definition thermocouple_respond :: "u32 \<Rightarrow> u32 \<Rightarrow> u8 \<Rightarrow> u8 \<Rightarrow> 'a probe_sys_scheme \<Rightarrow> ('a probe_sys_scheme, unit) res" where
  "thermocouple_respond next_begin_time value fault oid s =
     (let s = sendf ''thermocouple_result'' [RInt (ucast oid), RInt next_begin_time, RInt value, RInt (ucast fault)] s;
          th = thermos s oid;
          reset = (\<lambda>s. Ret () (upd_thermo oid (\<lambda>th. th\<lparr>invalid_count := 0\<rparr>) s))
      in if fault \<noteq> 0 \<or> value < th_min_value th \<or> value > th_max_value th then
           (let s = upd_thermo oid (\<lambda>th. th\<lparr>invalid_count := invalid_count th + 1\<rparr>) s
            in if invalid_count (thermos s oid) < max_invalid (thermos s oid) then Ret () s
               else andthen (sched_try_shutdown ''Thermocouple reader fault'' s) reset)
         else reset s)"

text \<open>\<open>be32_to_cpu\<close> of the four bytes of a message, \<open>be16_to_cpu\<close> of two.\<close>

definition be32 :: "u8 list \<Rightarrow> u32" where
  "be32 m = push_bit 24 (ucast (m ! 0)) OR push_bit 16 (ucast (m ! 1)) OR push_bit 8 (ucast (m ! 2)) OR ucast (m ! 3)"

definition be16 :: "u8 list \<Rightarrow> u16" where
  "be16 m = push_bit 8 (ucast (m ! 0)) OR ucast (m ! 1)"

text \<open>A transfer through the device pointer of the sensor.\<close>

definition thermo_transfer :: "bus_env \<Rightarrow> u8 \<Rightarrow> nat \<Rightarrow> u8 list \<Rightarrow> 'a probe_sys_scheme \<Rightarrow> ('a probe_sys_scheme, u8 list) res" where
  "thermo_transfer env oid n msg s =
     (case th_spi (thermos s oid) of None \<Rightarrow> Fault | Some spi \<Rightarrow> spidev_transfer env spi True n msg s)"

definition thermocouple_handle_max31855 :: "bus_env \<Rightarrow> u32 \<Rightarrow> u8 \<Rightarrow> 'a probe_sys_scheme \<Rightarrow> ('a probe_sys_scheme, unit) res" where
  "thermocouple_handle_max31855 env next_begin_time oid s =
     bnd (thermo_transfer env oid 4 [0, 0, 0, 0] s) (\<lambda>msg s.
       thermocouple_respond next_begin_time (be32 msg) (ucast (be32 msg AND 0x07)) oid s)"

definition thermocouple_handle_max31856 :: "bus_env \<Rightarrow> u32 \<Rightarrow> u8 \<Rightarrow> 'a probe_sys_scheme \<Rightarrow> ('a probe_sys_scheme, unit) res" where
  "thermocouple_handle_max31856 env next_begin_time oid s =
     bnd (thermo_transfer env oid 4 [0x0C, 0, 0, 0] s) (\<lambda>msg s.
       let value = be32 msg AND 0x00ffffff
       in bnd (thermo_transfer env oid 2 (msg[0 := 0x0F, 1 := 0]) s) (\<lambda>msg s.
            thermocouple_respond next_begin_time value (msg ! 1) oid s))"

definition thermocouple_handle_max31865 :: "bus_env \<Rightarrow> u32 \<Rightarrow> u8 \<Rightarrow> 'a probe_sys_scheme \<Rightarrow> ('a probe_sys_scheme, unit) res" where
  "thermocouple_handle_max31865 env next_begin_time oid s =
     bnd (thermo_transfer env oid 3 [0x01, 0, 0, 0] s) (\<lambda>msg s.
       let value = drop_bit 8 (be32 msg) AND 0xffff
       in bnd (thermo_transfer env oid 2 (msg[0 := 0x07, 1 := 0]) s) (\<lambda>msg s.
            thermocouple_respond next_begin_time value ((msg ! 1 AND NOT 0x03) OR ucast (value AND 0x0001)) oid s))"

definition thermocouple_handle_max6675 :: "bus_env \<Rightarrow> u32 \<Rightarrow> u8 \<Rightarrow> 'a probe_sys_scheme \<Rightarrow> ('a probe_sys_scheme, unit) res" where
  "thermocouple_handle_max6675 env next_begin_time oid s =
     bnd (thermo_transfer env oid 2 [0, 0] s) (\<lambda>msg s.
       thermocouple_respond next_begin_time (ucast (be16 msg)) (ucast (be16 msg AND 0x06)) oid s)"

text \<open>The body of the task's loop.\<close>

definition thermocouple_read :: "bus_env \<Rightarrow> u8 \<Rightarrow> 'a probe_sys_scheme \<Rightarrow> ('a probe_sys_scheme, unit) res" where
  "thermocouple_read env oid s =
     (if \<not> bit_set (th_flags (thermos s oid)) TS_PENDING then Ret () s
      else
        (let next_begin_time = wake s (probe_timer oid);
             s = upd_thermo oid (\<lambda>th. th\<lparr>th_flags := th_flags th AND NOT TS_PENDING\<rparr>) s;
             chip = th_chip_type (thermos s oid)
         in if chip = TS_CHIP_MAX31855 then thermocouple_handle_max31855 env next_begin_time oid s
            else if chip = TS_CHIP_MAX31856 then thermocouple_handle_max31856 env next_begin_time oid s
            else if chip = TS_CHIP_MAX31865 then thermocouple_handle_max31865 env next_begin_time oid s
            else if chip = TS_CHIP_MAX6675 then thermocouple_handle_max6675 env next_begin_time oid s
            else Ret () s))"

definition thermocouple_task :: "bus_env \<Rightarrow> 'a probe_sys_scheme \<Rightarrow> ('a probe_sys_scheme, unit) res" where
  "thermocouple_task env s =
     (case sched_check_wake thermocouple_wake (\<lambda>f s. s\<lparr>thermocouple_wake := f (thermocouple_wake s)\<rparr>) s of
        (False, s) \<Rightarrow> Ret () s
      | (True, s) \<Rightarrow> foreach_oid T_thermocouple (thermocouple_read env) s)"

section \<open>Angle sensors\<close>

definition MAX_SPI_READ_TIME :: "u32 \<Rightarrow> u32" where "MAX_SPI_READ_TIME freq = timer_from_us freq 50"
definition ANGLE_BYTES_PER_SAMPLE :: nat where "ANGLE_BYTES_PER_SAMPLE = 3"

definition angle_event :: "u8 \<Rightarrow> 'a probe_sys_scheme \<Rightarrow> ('a probe_sys_scheme, sf) res" where
  "angle_event oid s =
     (let s = upd_angle oid (\<lambda>sa. if bit_set (an_flags sa) SA_PENDING then sa\<lparr>an_overflow := an_overflow sa + 1\<rparr>
                                  else sa\<lparr>an_flags := an_flags sa OR SA_PENDING\<rparr>) s;
          s = sched_wake_task (\<lambda>f s. s\<lparr>angle_wake := f (angle_wake s)\<rparr>) s
      in Ret SF_RESCHEDULE (set_wake (probe_timer oid) (wake s (probe_timer oid) + an_rest_ticks (angles s oid)) s))"

definition command_config_spi_angle :: "board \<Rightarrow> nat \<Rightarrow> u32 list \<Rightarrow> 'a probe_sys_scheme \<Rightarrow> ('a probe_sys_scheme, unit) res" where
  "command_config_spi_angle bd sz args s =
     (let oid = ucast (args ! 0); chip_type = ucast (args ! 2)
      in if chip_type > SA_CHIP_MAX then Shut ''Invalid spi_angle chip type'' s
         else bnd (oid_alloc bd oid T_spi_angle sz s) (\<lambda>_ s.
           let s = set_func (probe_timer oid) (Some Fn_angle_event) (clear_timer (probe_timer oid) (upd_angle oid (\<lambda>_. angle_zero) s))
           in bnd (spidev_oid_lookup (ucast (args ! 1)) s) (\<lambda>p s.
                case p of
                  None \<Rightarrow> Fault
                | Some spi \<Rightarrow>
                    (let s = upd_angle oid (\<lambda>sa. sa\<lparr>an_spi := p\<rparr>) s
                     in if \<not> spidev_have_cs_pin spi s then Shut ''angle sensor requires cs pin'' s
                        else Ret () (upd_angle oid (\<lambda>sa. sa\<lparr>an_chip_type := chip_type\<rparr>) s)))))"

definition angle_check_report :: "u8 \<Rightarrow> 'a probe_sys_scheme \<Rightarrow> 'a probe_sys_scheme" where
  "angle_check_report oid s =
     (let (sb, s) = report_full ANGLE_BYTES_PER_SAMPLE oid (an_sb (angles s oid)) s
      in upd_angle oid (\<lambda>sa. sa\<lparr>an_sb := sb\<rparr>) s)"

definition angle_add :: "u8 \<Rightarrow> u8 \<Rightarrow> u32 \<Rightarrow> 'a probe_sys_scheme \<Rightarrow> ('a probe_sys_scheme, unit) res" where
  "angle_add oid tcode data s =
     (case bulk_store [tcode, ucast data, ucast (drop_bit 8 data)] (an_sb (angles s oid)) of
        None \<Rightarrow> Fault
      | Some sb \<Rightarrow> Ret () (upd_angle oid (\<lambda>sa. sa\<lparr>an_sb := sb\<rparr>) s))"

definition angle_add_error :: "u8 \<Rightarrow> u32 \<Rightarrow> 'a probe_sys_scheme \<Rightarrow> ('a probe_sys_scheme, unit) res" where
  "angle_add_error oid error_code s = angle_add oid TCODE_ERROR error_code s"

text \<open>Shifts by 32 bits and more are not defined.\<close>

definition angle_add_data :: "u8 \<Rightarrow> u32 \<Rightarrow> u32 \<Rightarrow> u32 \<Rightarrow> 'a probe_sys_scheme \<Rightarrow> ('a probe_sys_scheme, unit) res" where
  "angle_add_data oid stime mtime angle s =
     (let ts = time_shift (angles s oid);
          tdiff = (if ts \<noteq> 0 then drop_bit (unat ts) (mtime - stime + push_bit (unat (ts - 1)) 1) else mtime - stime)
      in if ts \<ge> 32 then Fault
         else if tdiff \<ge> ucast TCODE_ERROR then angle_add_error oid SE_SCHEDULE s
         else angle_add oid (ucast tdiff) angle s)"

text \<open>A transfer through the device pointer of the sensor.\<close>

definition angle_transfer ::
    "bus_env \<Rightarrow> u8 \<Rightarrow> bool \<Rightarrow> nat \<Rightarrow> u8 list \<Rightarrow> 'a probe_sys_scheme \<Rightarrow> ('a probe_sys_scheme, u8 list) res" where
  "angle_transfer env oid receive_data n msg s =
     (case an_spi (angles s oid) of None \<Rightarrow> Fault | Some spi \<Rightarrow> spidev_transfer env spi receive_data n msg s)"

definition a1333_query :: "bus_env \<Rightarrow> u32 \<Rightarrow> (nat \<Rightarrow> u32) \<Rightarrow> u8 \<Rightarrow> u32 \<Rightarrow> 'a probe_sys_scheme \<Rightarrow> ('a probe_sys_scheme, unit) res" where
  "a1333_query env freq clk oid stime s =
     bnd (angle_transfer env oid True 2 [0x32, 0x00] s) (\<lambda>msg s.
       if clk 1 - clk 0 > MAX_SPI_READ_TIME freq then angle_add_error oid SE_SPI_TIME s
       else if bit_set (msg ! 0) 0x80 then angle_add_error oid SE_CRC s
       else angle_add_data oid stime (clk 0) (push_bit 9 (ucast (msg ! 0)) OR push_bit 1 (ucast (msg ! 1))) s)"

text \<open>The parity of a byte, in its lowest bit.\<close>

definition fold_parity :: "u8 \<Rightarrow> u8" where
  "fold_parity p = (let p = p XOR drop_bit 4 p; p = p XOR drop_bit 2 p in p XOR drop_bit 1 p)"

definition as5047d_query :: "bus_env \<Rightarrow> u32 \<Rightarrow> (nat \<Rightarrow> u32) \<Rightarrow> u8 \<Rightarrow> u32 \<Rightarrow> 'a probe_sys_scheme \<Rightarrow> ('a probe_sys_scheme, unit) res" where
  "as5047d_query env freq clk oid stime s =
     bnd (angle_transfer env oid False 2 [0x7F, 0xFE] s) (\<lambda>_ s.
       if clk 1 - clk 0 > MAX_SPI_READ_TIME freq then angle_add_error oid SE_SPI_TIME s
       else bnd (angle_transfer env oid True 2 [0xC0, 0x00] s) (\<lambda>msg s.
         if bit_set (fold_parity (msg ! 0 XOR msg ! 1)) 1 then angle_add_error oid SE_CRC s
         else if bit_set (msg ! 0) 0x40 then angle_add_error oid SE_NO_ANGLE s
         else angle_add_data oid stime (clk 1) (push_bit 10 (ucast (msg ! 0)) OR push_bit 2 (ucast (msg ! 1))) s))"

fun crc8_bits :: "nat \<Rightarrow> u8 \<Rightarrow> u8" where
  "crc8_bits 0 crc = crc"
| "crc8_bits (Suc n) crc = crc8_bits n (if bit_set crc 0x80 then push_bit 1 crc XOR 0x1d else push_bit 1 crc)"

definition crc8 :: "u8 \<Rightarrow> u8 \<Rightarrow> u8" where
  "crc8 crc data = crc8_bits 8 (crc XOR data)"

text \<open>The loop of \<open>udelay\<close> from clock read \<open>i\<close>: the index after the read that ends it.\<close>

partial_function (option) udelay_loop :: "(nat \<Rightarrow> u32) \<Rightarrow> u32 \<Rightarrow> nat \<Rightarrow> nat option" where
  "udelay_loop clk end i = (if timer_is_before end (clk i) then Some (Suc i) else udelay_loop clk end (Suc i))"

definition udelay :: "u32 \<Rightarrow> (nat \<Rightarrow> u32) \<Rightarrow> u32 \<Rightarrow> nat \<Rightarrow> nat option" where
  "udelay freq clk usecs i = udelay_loop clk (clk i + timer_from_us freq usecs) (Suc i)"

text \<open>The null message that latches the data: the time of the rising edge and the state.\<close>

definition tle_latch :: "u32 \<Rightarrow> (nat \<Rightarrow> u32) \<Rightarrow> u8 \<Rightarrow> 'a probe_sys_scheme \<Rightarrow> ('a probe_sys_scheme, u32) res" where
  "tle_latch freq clk oid s =
     (case an_spi (angles s oid) of
        None \<Rightarrow> Fault
      | Some spi \<Rightarrow>
          (let cs_pin = spidev_get_cs_pin spi s; s = pin_write cs_pin False s
           in case udelay freq clk 1 0 of None \<Rightarrow> Fault | Some j \<Rightarrow> Ret (clk j) (pin_write cs_pin True s)))"

definition tle5012b_query :: "bus_env \<Rightarrow> u32 \<Rightarrow> (nat \<Rightarrow> u32) \<Rightarrow> u8 \<Rightarrow> u32 \<Rightarrow> 'a probe_sys_scheme \<Rightarrow> ('a probe_sys_scheme, unit) res" where
  "tle5012b_query env freq clk oid stime s =
     bnd (tle_latch freq clk oid s) (\<lambda>mtime s.
     bnd (angle_transfer env oid True 10 ([0x84, 0x23] @ replicate 8 0) s) (\<lambda>msg s.
       if NOT (fold (\<lambda>i crc. crc8 crc (msg ! i)) [2..<8] 0x05) \<noteq> msg ! 9 then angle_add_error oid SE_CRC s
       else if \<not> bit_set (msg ! 8) 0x10 then angle_add_error oid SE_NO_ANGLE s
       else if \<not> bit_set (msg ! 2) 0x80 then angle_add_error oid SE_DUP s
       else if mtime - stime > timer_from_us freq 1365 then angle_add_error oid SE_SCHEDULE s
       else angle_add oid (drop_bit 1 (msg ! 6) AND 0x3f) (push_bit 9 (ucast (msg ! 2)) OR push_bit 1 (ucast (msg ! 3))) s))"

definition command_query_spi_angle :: "(nat \<Rightarrow> u32) \<Rightarrow> u32 list \<Rightarrow> 'a probe_sys_scheme \<Rightarrow> ('a probe_sys_scheme, unit) res" where
  "command_query_spi_angle clk args s =
     (let oid = ucast (args ! 0)
      in with_oid oid T_spi_angle (\<lambda>s.
           andthen (sched_del_timer (probe_timer oid) s) (\<lambda>s.
             let s = upd_angle oid (\<lambda>sa. sa\<lparr>an_flags := 0\<rparr>) s
             in if args ! 2 = 0 then Ret () s
                else sched_add_timer (clk 0) (clk 1) (probe_timer oid)
                       (upd_angle oid (\<lambda>sa. sa\<lparr>an_rest_ticks := args ! 2, an_sb := sensor_bulk_reset (an_sb sa),
                          time_shift := ucast (args ! 3)\<rparr>) (set_wake (probe_timer oid) (args ! 1) s)))) s)"

text \<open>\<open>mem\<close> gives the bytes that a pointer in a command leads to.\<close>

definition command_spi_angle_transfer ::
    "bus_env \<Rightarrow> u32 \<Rightarrow> (nat \<Rightarrow> u32) \<Rightarrow> (u32 \<Rightarrow> u8 list) \<Rightarrow> u32 list \<Rightarrow> 'a probe_sys_scheme \<Rightarrow> ('a probe_sys_scheme, unit) res" where
  "command_spi_angle_transfer env freq clk mem args s =
     (let oid = ucast (args ! 0); data_len = unat (ucast (args ! 1) :: u8)
      in with_oid oid T_spi_angle (\<lambda>s.
           let chip = an_chip_type (angles s oid);
               respond = (\<lambda>mtime n data s.
                 Ret () (sendf ''spi_angle_transfer_response'' [RInt (ucast oid), RInt mtime, RBytes (take n data)] s))
           in if chip = SA_CHIP_TLE5012B then
                bnd (tle_latch freq clk oid s) (\<lambda>mtime s.
                bnd (angle_transfer env oid True data_len (mem (args ! 2)) s) (\<lambda>data s. respond mtime data_len data s))
              else
                bnd (angle_transfer env oid True data_len (mem (args ! 2)) s) (\<lambda>data s.
                  respond (if chip = SA_CHIP_AS5047D then clk 1 else clk 0)
                    (if clk 1 - clk 0 > MAX_SPI_READ_TIME freq then 0 else data_len) data s)) s)"

text \<open>The loop over the overflows of the task, and the body of the task's loop.\<close>

fun add_overflows :: "u8 \<Rightarrow> nat \<Rightarrow> 'a probe_sys_scheme \<Rightarrow> ('a probe_sys_scheme, unit) res" where
  "add_overflows oid 0 s = Ret () s"
| "add_overflows oid (Suc n) s =
     andthen (angle_add_error oid SE_OVERFLOW s) (\<lambda>s. add_overflows oid n (angle_check_report oid s))"

definition angle_read :: "bus_env \<Rightarrow> u32 \<Rightarrow> (nat \<Rightarrow> u32) \<Rightarrow> u8 \<Rightarrow> 'a probe_sys_scheme \<Rightarrow> ('a probe_sys_scheme, unit) res" where
  "angle_read env freq clk oid s =
     (if \<not> bit_set (an_flags (angles s oid)) SA_PENDING then Ret () s
      else
        (let stime = wake s (probe_timer oid) - an_rest_ticks (angles s oid);
             overflow = an_overflow (angles s oid);
             s = upd_angle oid (\<lambda>sa. sa\<lparr>an_flags := 0, an_overflow := 0\<rparr>) s
         in andthen (add_overflows oid (unat overflow) s) (\<lambda>s.
              let chip = an_chip_type (angles s oid)
              in andthen (if chip = SA_CHIP_A1333 then a1333_query env freq clk oid stime s
                          else if chip = SA_CHIP_AS5047D then as5047d_query env freq clk oid stime s
                          else if chip = SA_CHIP_TLE5012B then tle5012b_query env freq clk oid stime s
                          else Ret () s) (\<lambda>s. Ret () (angle_check_report oid s)))))"

definition spi_angle_task :: "bus_env \<Rightarrow> u32 \<Rightarrow> (u8 \<Rightarrow> nat \<Rightarrow> u32) \<Rightarrow> 'a probe_sys_scheme \<Rightarrow> ('a probe_sys_scheme, unit) res" where
  "spi_angle_task env freq clk s =
     (case sched_check_wake angle_wake (\<lambda>f s. s\<lparr>angle_wake := f (angle_wake s)\<rparr>) s of
        (False, s) \<Rightarrow> Ret () s
      | (True, s) \<Rightarrow> foreach_oid T_spi_angle (\<lambda>oid. angle_read env freq (clk oid) oid) s)"

end
