(* ===== verification/Probes_Props.thy ===== *)
theory Probes_Props
  imports Probes Accel_Props
begin

text \<open>
  A thermocouple shuts the firmware down exactly when enough readings in a row are bad; an angle sensor adds one entry for
  each overflow and one for the reading, in order.
\<close>

section \<open>Runs of bad readings\<close>

definition has_run :: "nat \<Rightarrow> ('b \<Rightarrow> bool) \<Rightarrow> 'b list \<Rightarrow> bool" where
  "has_run m P rs \<longleftrightarrow> (\<exists>i. i + m \<le> length rs \<and> list_all P (take m (drop i rs)))"

lemma has_run_Nil: "0 < m \<Longrightarrow> \<not> has_run m P []"
  by (simp add: has_run_def)

lemma has_run_Cons: "has_run m P (r # rs) \<longleftrightarrow> (m \<le> Suc (length rs) \<and> list_all P (take m (r # rs))) \<or> has_run m P rs"
proof
  assume "has_run m P (r # rs)"
  then obtain i where "i + m \<le> length (r # rs)" "list_all P (take m (drop i (r # rs)))" by (auto simp: has_run_def)
  then show "(m \<le> Suc (length rs) \<and> list_all P (take m (r # rs))) \<or> has_run m P rs" by (cases i) (auto simp: has_run_def)
next
  assume "(m \<le> Suc (length rs) \<and> list_all P (take m (r # rs))) \<or> has_run m P rs"
  then show "has_run m P (r # rs)"
  proof
    assume "m \<le> Suc (length rs) \<and> list_all P (take m (r # rs))"
    then show ?thesis unfolding has_run_def by (intro exI [of _ 0]) simp
  next
    assume "has_run m P rs"
    then obtain i where "i + m \<le> length rs" "list_all P (take m (drop i rs))" by (auto simp: has_run_def)
    then show ?thesis unfolding has_run_def by (intro exI [of _ "Suc i"]) simp
  qed
qed

text \<open>With \<open>k\<close> bad readings counted so far.\<close>

definition run_from :: "nat \<Rightarrow> nat \<Rightarrow> ('b \<Rightarrow> bool) \<Rightarrow> 'b list \<Rightarrow> bool" where
  "run_from k m P rs \<longleftrightarrow> (m - k \<le> length rs \<and> list_all P (take (m - k) rs)) \<or> has_run m P rs"

lemma list_all_take_mono: "list_all P (take m rs) \<Longrightarrow> n \<le> m \<Longrightarrow> list_all P (take n rs)"
  by (metis list_all_iff in_set_takeD min.absorb1 take_take)

lemma run_from_zero: "run_from 0 m P rs \<longleftrightarrow> has_run m P rs"
  by (auto simp: run_from_def has_run_def intro: exI [of _ 0])

lemma run_from_Nil: "k < m \<Longrightarrow> \<not> run_from k m P []"
  by (simp add: run_from_def has_run_def)

lemma run_from_bad:
  assumes "P r" "k < m"
  shows "run_from k m P (r # rs) \<longleftrightarrow> Suc k = m \<or> run_from (Suc k) m P rs"
proof (cases "Suc k = m")
  case True
  then have "m - k = 1" by simp
  then show ?thesis using True assms(1) by (simp add: run_from_def)
next
  case False
  obtain j where j: "m - k = Suc j" "m - Suc k = j" using assms(2) by (metis Suc_diff_Suc)
  have "list_all P (take (Suc j) (r # rs))" if "list_all P (take m (r # rs))"
    using list_all_take_mono [OF that, of "Suc j"] j(1) by linarith
  then show ?thesis using False j assms by (auto simp: run_from_def has_run_Cons)
qed

lemma run_from_good:
  assumes "\<not> P r" "k < m"
  shows "run_from k m P (r # rs) \<longleftrightarrow> run_from 0 m P rs"
proof -
  obtain i j where "m - k = Suc j" "m = Suc i" using assms(2) by (metis Suc_diff_Suc Suc_pred diff_0_eq_0 not_gr_zero not_less0)
  then show ?thesis using assms(1) unfolding run_from_zero by (auto simp: run_from_def has_run_Cons)
qed

section \<open>Thermocouples\<close>

definition bad_reading :: "thermocouple_spi \<Rightarrow> u32 \<times> u32 \<times> u8 \<Rightarrow> bool" where
  "bad_reading th r = (case r of (_, value, fault) \<Rightarrow> fault \<noteq> 0 \<or> value < th_min_value th \<or> value > th_max_value th)"

definition thermo_msg :: "u8 \<Rightarrow> u32 \<times> u32 \<times> u8 \<Rightarrow> string \<times> rarg list" where
  "thermo_msg oid r = (case r of (clock, value, fault) \<Rightarrow>
     (''thermocouple_result'', [RInt (ucast oid), RInt clock, RInt value, RInt (ucast fault)]))"

text \<open>The readings of one sensor, one after the other.\<close>

fun thermo_run :: "u8 \<Rightarrow> (u32 \<times> u32 \<times> u8) list \<Rightarrow> 'a probe_sys_scheme \<Rightarrow> ('a probe_sys_scheme, unit) res" where
  "thermo_run oid [] s = Ret () s"
| "thermo_run oid ((clock, value, fault) # rs) s = andthen (thermocouple_respond clock value fault oid s) (thermo_run oid rs)"

lemma count_up: "unat k < max 1 (unat m) \<Longrightarrow> unat (k + 1) = Suc (unat k)" for k m :: u8
  using unsigned_less [of m, where ?'a = nat] by (simp add: unat_word_ariths(1) max_def split: if_splits)

lemma respond_bad:
  fixes s :: "'a probe_sys_scheme"
  assumes "bad_reading (thermos s oid) (c, v, f)" "unat (invalid_count (thermos s oid)) < max 1 (unat (max_invalid (thermos s oid)))"
  shows "\<exists>s1. sent s1 = sent s @ [thermo_msg oid (c, v, f)] \<and> shutdown_status s1 = shutdown_status s \<and>
    thermos s1 oid = (thermos s oid)\<lparr>invalid_count := invalid_count (thermos s oid) + 1\<rparr> \<and>
    thermocouple_respond c v f oid s =
      (if Suc (unat (invalid_count (thermos s oid))) < max 1 (unat (max_invalid (thermos s oid))) then Ret () s1
       else andthen (sched_try_shutdown ''Thermocouple reader fault'' s1) (\<lambda>s. Ret () (upd_thermo oid (\<lambda>th. th\<lparr>invalid_count := 0\<rparr>) s)))"
proof -
  let ?th = "thermos s oid"
  let ?s1 = "upd_thermo oid (\<lambda>th. th\<lparr>invalid_count := invalid_count th + 1\<rparr>) (s\<lparr>sent := sent s @ [thermo_msg oid (c, v, f)]\<rparr>)"
  have u: "unat (invalid_count ?th + 1) = Suc (unat (invalid_count ?th))" by (rule count_up [OF assms(2)])
  have "invalid_count ?th + 1 < max_invalid ?th \<longleftrightarrow> Suc (unat (invalid_count ?th)) < max 1 (unat (max_invalid ?th))"
    unfolding word_less_nat_alt u by auto
  moreover have "thermocouple_respond c v f oid s =
      (if invalid_count ?th + 1 < max_invalid ?th then Ret () ?s1
       else andthen (sched_try_shutdown ''Thermocouple reader fault'' ?s1) (\<lambda>s. Ret () (upd_thermo oid (\<lambda>th. th\<lparr>invalid_count := 0\<rparr>) s)))"
    using assms(1) by (simp add: thermocouple_respond_def Let_def sendf_def thermo_msg_def bad_reading_def upd_thermo_def)
  ultimately show ?thesis by (intro exI [of _ ?s1]) (simp add: upd_thermo_def)
qed

lemma respond_good:
  "\<not> bad_reading (thermos s oid) (c, v, f) \<Longrightarrow>
   thermocouple_respond c v f oid s =
     Ret () (upd_thermo oid (\<lambda>th. th\<lparr>invalid_count := 0\<rparr>) (s\<lparr>sent := sent s @ [thermo_msg oid (c, v, f)]\<rparr>))"
  by (auto simp: thermocouple_respond_def Let_def sendf_def thermo_msg_def bad_reading_def upd_thermo_def)

lemma bad_reading_count [simp]: "bad_reading (th\<lparr>invalid_count := n\<rparr>) r = bad_reading th r"
  by (simp add: bad_reading_def)

lemma thermo_run_from:
  fixes s :: "'a probe_sys_scheme"
  assumes "th = thermos s oid" "unat (invalid_count th) < max 1 (unat (max_invalid th))" "shutdown_status s = 0"
  shows "if run_from (unat (invalid_count th)) (max 1 (unat (max_invalid th))) (bad_reading th) rs
    then \<exists>s'. thermo_run oid rs s = Shut ''Thermocouple reader fault'' s'
    else \<exists>s'. thermo_run oid rs s = Ret () s' \<and> sent s' = sent s @ map (thermo_msg oid) rs"
  using assms
proof (induction rs arbitrary: s th)
  case Nil
  then show ?case by (simp add: run_from_Nil)
next
  case (Cons r rs)
  obtain c v f where r: "r = (c, v, f)" by (cases r)
  let ?k = "unat (invalid_count th)" and ?m = "max 1 (unat (max_invalid th))"
  show ?case
  proof (cases "bad_reading th r")
    case True
    obtain s1 where s1: "sent s1 = sent s @ [thermo_msg oid r]" "shutdown_status s1 = 0"
      "thermos s1 oid = th\<lparr>invalid_count := invalid_count th + 1\<rparr>"
      "thermocouple_respond c v f oid s = (if Suc ?k < ?m then Ret () s1
       else andthen (sched_try_shutdown ''Thermocouple reader fault'' s1) (\<lambda>s. Ret () (upd_thermo oid (\<lambda>th. th\<lparr>invalid_count := 0\<rparr>) s)))"
      using respond_bad [of s oid c v f] True Cons.prems r by auto
    show ?thesis
    proof (cases "Suc ?k = ?m")
      case last: True
      then show ?thesis using s1 run_from_bad [of "bad_reading th" r ?k ?m rs] True Cons.prems(2) r
        by (simp add: sched_try_shutdown_def sched_shutdown_def)
    next
      case False
      then have l: "Suc ?k < ?m" using Cons.prems(2) by linarith
      have "unat (invalid_count th + 1) = Suc ?k" by (rule count_up [OF Cons.prems(2)])
      then show ?thesis using s1 l Cons.IH [of "th\<lparr>invalid_count := invalid_count th + 1\<rparr>" s1] False
          run_from_bad [of "bad_reading th" r ?k ?m rs] True Cons.prems(2) r
        by (auto split: if_splits)
    qed
  next
    case False
    let ?s1 = "upd_thermo oid (\<lambda>th. th\<lparr>invalid_count := 0\<rparr>) (s\<lparr>sent := sent s @ [thermo_msg oid r]\<rparr>)"
    have t: "thermos ?s1 oid = th\<lparr>invalid_count := 0\<rparr>" "sent ?s1 = sent s @ [thermo_msg oid r]" "shutdown_status ?s1 = 0"
      using Cons.prems by (simp_all add: upd_thermo_def)
    have "thermo_run oid (r # rs) s = thermo_run oid rs ?s1"
      using respond_good [of s oid c v f] False Cons.prems(1) r by simp
    then show ?thesis using t Cons.IH [of "th\<lparr>invalid_count := 0\<rparr>" ?s1] run_from_good [of "bad_reading th" r ?k ?m rs] False Cons.prems(2)
      by (auto split: if_splits)
  qed
qed

text \<open>
  C20: From a new query on, a thermocouple shuts the firmware down exactly if as many readings in a row as the query allows
  are faulty or out of range. Otherwise every reading is reported.
\<close>

theorem thermocouple_fault_run:
  assumes "invalid_count (thermos s oid) = 0" "shutdown_status s = 0"
  shows "if has_run (max 1 (unat (max_invalid (thermos s oid)))) (bad_reading (thermos s oid)) rs
    then \<exists>s'. thermo_run oid rs s = Shut ''Thermocouple reader fault'' s'
    else \<exists>s'. thermo_run oid rs s = Ret () s' \<and> sent s' = sent s @ map (thermo_msg oid) rs"
  using thermo_run_from [of "thermos s oid" s oid rs] assms by (simp add: run_from_zero)

definition demo_probe :: probe_sys where
  "demo_probe = bus_sys.extend (demo_bus\<lparr>spidevs := \<lambda>_. \<lparr>spi_bus = Spi_hardware 0, spi_pin = 6, spi_flags = 5\<rparr>\<rparr>)
     (probe_sys.fields (\<lambda>_. thermo_zero\<lparr>th_spi := Some 2, th_max_value := 1000, max_invalid := 2\<rparr>)
        (\<lambda>_. angle_zero\<lparr>an_spi := Some 2, an_flags := SA_PENDING, an_overflow := 1, an_chip_type := 2\<rparr>) 0 0)"

lemma demo_probe_simps:
  "spidevs demo_probe oid = \<lparr>spi_bus = Spi_hardware 0, spi_pin = 6, spi_flags = 5\<rparr>"
  "thermos demo_probe oid = thermo_zero\<lparr>th_spi := Some 2, th_max_value := 1000, max_invalid := 2\<rparr>"
  "angles demo_probe oid = angle_zero\<lparr>an_spi := Some 2, an_flags := SA_PENDING, an_overflow := 1, an_chip_type := 2\<rparr>"
  "shutdown_status demo_probe = 0"
  by (simp_all add: demo_probe_def bus_sys.defs probe_sys.defs demo_bus_def mcu.defs demo_mcu_def sched.defs sched_init_def)

theorem thermocouple_fault_run_witness:
  "\<exists>s'. thermo_run 1 [(0, 20, 0), (1, 5000, 0), (2, 30, 1)] demo_probe = Shut ''Thermocouple reader fault'' s'"
proof -
  have "has_run 2 (bad_reading (thermos demo_probe 1)) [(0, 20, 0), (1, 5000, 0), (2, 30, 1)]"
    unfolding has_run_def
    by (intro exI [of _ 1]) (simp add: demo_probe_simps thermo_zero_def bad_reading_def)
  moreover have "max 1 (unat (max_invalid (thermos demo_probe 1))) = 2" "invalid_count (thermos demo_probe 1) = 0"
    by (simp_all add: demo_probe_simps thermo_zero_def)
  ultimately show ?thesis
    using thermocouple_fault_run [of demo_probe 1 "[(0, 20, 0), (1, 5000, 0), (2, 30, 1)]"] demo_probe_simps(4)
    by (simp only: if_True)
qed

section \<open>Angle sensors\<close>

lemma lines_only_probe:
  fixes s s' :: "'a probe_sys_scheme"
  assumes "lines_only s es s'"
  shows "sent s' = sent s" "angles s' = angles s" "spidevs s' = spidevs s"
proof -
  have eq: "s' = s\<lparr>pin_out := pin_out s', bus_log := bus_log s @ es\<rparr>" using assms by (simp add: lines_only_def)
  show "sent s' = sent s" by (subst eq) simp
  show "angles s' = angles s" by (subst eq) simp
  show "spidevs s' = spidevs s" by (subst eq) simp
qed

text \<open>An entry of the buffer: a time code with an angle, or an error code.\<close>

definition angle_entry :: "u8 list \<Rightarrow> bool" where
  "angle_entry d \<longleftrightarrow> length d = 3 \<and> (d ! 0 = 0xff \<longrightarrow> d ! 1 \<le> 5 \<and> d ! 2 = 0)"

text \<open>What a query does: it drives lines only, and adds one entry.\<close>

definition adds_entry :: "u8 \<Rightarrow> 'a probe_sys_scheme \<Rightarrow> ('a probe_sys_scheme, unit) res \<Rightarrow> bool" where
  "adds_entry oid s r \<longleftrightarrow> (\<exists>es s1 t d. lines_only s es s1 \<and> r = angle_add oid t d s1 \<and> angle_entry [t, ucast d, ucast (drop_bit 8 d)])"

lemma adds_entry_lines: "lines_only s es s1 \<Longrightarrow> adds_entry oid s1 r \<Longrightarrow> adds_entry oid s r"
  unfolding adds_entry_def by (blast intro: lines_only_append)

lemma adds_error: "e \<in> {0, 1, 2, 3, 4, 5} \<Longrightarrow> adds_entry oid s (angle_add_error oid e s)"
  unfolding adds_entry_def angle_add_error_def
  by (intro exI [of _ "[]"] exI [of _ s] exI [of _ TCODE_ERROR] exI [of _ e] conjI lines_only_Nil refl)
    (auto simp: angle_entry_def TCODE_ERROR_def)

lemmas error_codes = SE_OVERFLOW_def SE_SCHEDULE_def SE_SPI_TIME_def SE_CRC_def SE_DUP_def SE_NO_ANGLE_def

lemma adds_add: "t \<noteq> 0xff \<Longrightarrow> adds_entry oid s (angle_add oid t d s)"
  unfolding adds_entry_def
  by (intro exI [of _ "[]"] exI [of _ s] exI [of _ t] exI [of _ d] conjI lines_only_Nil refl) (simp add: angle_entry_def)

lemma adds_data:
  assumes "time_shift (angles s oid) < 32"
  shows "adds_entry oid s (angle_add_data oid st mt a s)"
proof -
  let ?ts = "time_shift (angles s oid)"
  let ?d = "if ?ts \<noteq> 0 then drop_bit (unat ?ts) (mt - st + push_bit (unat (?ts - 1)) 1) else mt - st"
  have d: "(ucast d :: u8) \<noteq> 0xff" if "\<not> ucast TCODE_ERROR \<le> d" for d :: u32
  proof
    assume "(ucast d :: u8) = 0xff"
    then have "unat (ucast d :: u8) = 255" by simp
    moreover have "unat d < 255" using that by (simp add: TCODE_ERROR_def word_le_nat_alt)
    ultimately show False by (simp add: unsigned_ucast_eq take_bit_nat_eq_self)
  qed
  show ?thesis using assms adds_error [of SE_SCHEDULE] adds_add [OF d]
    by (auto simp: angle_add_data_def Let_def error_codes not_le)
qed

lemma adds_angle_transfer:
  assumes "an_spi (angles s oid) = Some dev" "bus_ok env dev s" "n \<le> length msg"
    and "\<And>msg' s' es. lines_only s es s' \<Longrightarrow> bus_ok env dev s' \<Longrightarrow> angles s' = angles s \<Longrightarrow> adds_entry oid s' (f msg' s')"
  shows "adds_entry oid s (bnd (angle_transfer env oid r n msg s) f)"
  using sp.exchange [OF assms(2,3), of r] assms(1,4) adds_entry_lines lines_only_probe(2)
  by (fastforce simp: angle_transfer_def)

lemma adds_query:
  assumes "an_spi (angles s oid) = Some dev" "bus_ok env dev s" "time_shift (angles s oid) < 32"
  shows "adds_entry oid s (a1333_query env freq clk oid st s)" "adds_entry oid s (as5047d_query env freq clk oid st s)"
proof -
  have t: "time_shift (angles s' oid) < 32" "an_spi (angles s' oid) = Some dev" if "angles s' = angles s" for s' :: "'a probe_sys_scheme"
    using that assms by simp_all
  show "adds_entry oid s (a1333_query env freq clk oid st s)"
    unfolding a1333_query_def by (rule adds_angle_transfer [OF assms(1,2)]) (auto simp: error_codes intro!: adds_error adds_data t)
  show "adds_entry oid s (as5047d_query env freq clk oid st s)"
    unfolding as5047d_query_def
    by (rule adds_angle_transfer [OF assms(1,2)])
      (auto simp: error_codes intro!: adds_error adds_data t adds_angle_transfer)
qed

text \<open>A wait ends at a read that is past its end.\<close>

lemma udelay_loop_ends: "i \<le> j \<Longrightarrow> timer_is_before t (clk j) \<Longrightarrow> \<exists>k. udelay_loop clk t i = Some k"
proof (induction "j - i" arbitrary: i)
  case 0
  then show ?case by (simp add: udelay_loop.simps)
next
  case (Suc n)
  then have "n = j - Suc i" "Suc i \<le> j" by simp_all
  then show ?case using Suc(1) [of "Suc i"] Suc.prems by (simp add: udelay_loop.simps [of clk t i])
qed

lemma adds_tle:
  fixes s :: "'a probe_sys_scheme"
  assumes "an_spi (angles s oid) = Some dev" "bus_ok env dev s" "1 \<le> j" "timer_is_before (clk 0 + timer_from_us freq 1) (clk j)"
  shows "adds_entry oid s (tle5012b_query env freq clk oid st s)"
proof -
  obtain k where k: "udelay freq clk 1 0 = Some k" using udelay_loop_ends [of 1 j] assms(3,4) by (auto simp: udelay_def)
  let ?s1 = "pin_write (spidev_get_cs_pin dev s) True (pin_write (spidev_get_cs_pin dev s) False s)"
  have l: "tle_latch freq clk oid s = Ret (clk k) ?s1" using assms(1) k by (simp add: tle_latch_def Let_def)
  obtain es where es: "lines_only s es ?s1" using lines_only_append [OF pin_write_lines pin_write_lines] by blast
  have six: "b AND 0x3f \<noteq> 0xff" for b :: u8
  proof
    assume "b AND 0x3f = 0xff"
    then have "bit (b AND 0x3f) 7 = bit (0xff :: u8) 7" by simp
    then show False by (simp add: bit_simps)
  qed
  have "adds_entry oid ?s1 (tle5012b_query env freq clk oid st s)"
    unfolding tle5012b_query_def l bnd_simps
    by (rule adds_angle_transfer [of _ _ dev])
      (use assms(1,2) lines_only_probe(2) [OF es] bus_ok_lines [OF assms(2) es] six in \<open>auto simp: error_codes intro!: adds_error adds_add\<close>)
  then show ?thesis by (rule adds_entry_lines [OF es])
qed

lemma three_fits: "3 \<le> SB_SIZE" by (simp add: SB_SIZE_def)

text \<open>One entry added and reported.\<close>

lemma collect_add:
  fixes s :: "'a probe_sys_scheme"
  assumes "lines_only s es s0" "collected 3 base oid (an_sb (angles s oid)) s xs"
  shows "\<exists>s1. angle_add oid t w s0 = Ret () s1 \<and>
    (let s2 = angle_check_report oid s1
     in collected 3 base oid (an_sb (angles s2 oid)) s2 (xs @ [[t, ucast w, ucast (drop_bit 8 w)]]) \<and> spidevs s2 = spidevs s \<and>
        angles s2 oid = (angles s oid)\<lparr>an_sb := an_sb (angles s2 oid)\<rparr>)"
proof -
  let ?d = "[t, ucast w, ucast (drop_bit 8 w)]"
  have "collected 3 base oid (an_sb (angles s oid)) s0 xs"
    using collected_sent [OF _ assms(2)] lines_only_probe(1) [OF assms(1)] by blast
  from collect_step [OF this _ three_fits, of ?d] obtain sb1 where st: "bulk_store ?d (an_sb (angles s oid)) = Some sb1"
    by auto
  let ?s1 = "upd_angle oid (\<lambda>sa. sa\<lparr>an_sb := sb1\<rparr>) s0"
  have r: "angle_add oid t w s0 = Ret () ?s1" using st lines_only_probe(2) [OF assms(1)] by (simp add: angle_add_def)
  have "collected 3 base oid (an_sb (angles s oid)) ?s1 xs"
    using collected_sent [OF _ assms(2), of ?s1] lines_only_probe(1) [OF assms(1)] by (simp add: upd_angle_def)
  from collect_step [OF this _ three_fits, of ?d] obtain sb2 s2 where f: "report_full 3 oid sb1 ?s1 = (sb2, s2)"
    "collected 3 base oid sb2 s2 (xs @ [?d])" "s2 = ?s1 \<or> (\<exists>m. s2 = ?s1\<lparr>sent := sent ?s1 @ [m]\<rparr>)"
    using st by auto
  have c: "angle_check_report oid ?s1 = upd_angle oid (\<lambda>sa. sa\<lparr>an_sb := sb2\<rparr>) s2"
    using f(1) by (simp add: angle_check_report_def ANGLE_BYTES_PER_SAMPLE_def upd_angle_def)
  have "collected 3 base oid sb2 (upd_angle oid (\<lambda>sa. sa\<lparr>an_sb := sb2\<rparr>) s2) (xs @ [?d])"
    by (rule collected_sent [OF _ f(2)]) (simp add: upd_angle_def)
  moreover have "angles s2 oid = (angles s oid)\<lparr>an_sb := sb1\<rparr>" "spidevs s2 = spidevs s"
    using f(3) lines_only_probe [OF assms(1)] by (auto simp: upd_angle_def)
  ultimately show ?thesis unfolding r Let_def res.inject
    by (intro exI [of _ ?s1] conjI refl; unfold c; simp add: upd_angle_def)
qed

lemma collect_entry:
  fixes s :: "'a probe_sys_scheme"
  assumes "adds_entry oid s r" "collected 3 base oid (an_sb (angles s oid)) s xs"
  shows "\<exists>s1 d. r = Ret () s1 \<and> angle_entry d \<and>
    (let s2 = angle_check_report oid s1
     in collected 3 base oid (an_sb (angles s2 oid)) s2 (xs @ [d]) \<and> spidevs s2 = spidevs s \<and>
        angles s2 oid = (angles s oid)\<lparr>an_sb := an_sb (angles s2 oid)\<rparr>)"
proof -
  obtain es s0 t w where e: "lines_only s es s0" "r = angle_add oid t w s0" "angle_entry [t, ucast w, ucast (drop_bit 8 w)]"
    using assms(1) by (auto simp: adds_entry_def)
  from collect_add [OF e(1) assms(2), of t w] e(2,3) show ?thesis by blast
qed

lemma add_overflows_collects:
  fixes s :: "'a probe_sys_scheme"
  assumes "collected 3 base oid (an_sb (angles s oid)) s xs"
  shows "\<exists>s'. add_overflows oid n s = Ret () s' \<and> spidevs s' = spidevs s \<and>
    collected 3 base oid (an_sb (angles s' oid)) s' (xs @ replicate n [0xff, 0, 0]) \<and>
    angles s' oid = (angles s oid)\<lparr>an_sb := an_sb (angles s' oid)\<rparr>"
  using assms
proof (induction n arbitrary: s xs)
  case 0
  then show ?case by simp
next
  case (Suc n)
  from collect_add [OF lines_only_Nil Suc.prems, of TCODE_ERROR SE_OVERFLOW] obtain s1 where
    s1: "angle_add_error oid SE_OVERFLOW s = Ret () s1"
    "collected 3 base oid (an_sb (angles (angle_check_report oid s1) oid)) (angle_check_report oid s1) (xs @ [[0xff, 0, 0]])"
    "spidevs (angle_check_report oid s1) = spidevs s"
    "angles (angle_check_report oid s1) oid = (angles s oid)\<lparr>an_sb := an_sb (angles (angle_check_report oid s1) oid)\<rparr>"
    by (auto simp: Let_def angle_add_error_def TCODE_ERROR_def SE_OVERFLOW_def)
  from Suc.IH [OF s1(2)] obtain s' where s': "add_overflows oid n (angle_check_report oid s1) = Ret () s'"
    "spidevs s' = spidevs s" "collected 3 base oid (an_sb (angles s' oid)) s' ((xs @ [[0xff, 0, 0]]) @ replicate n [0xff, 0, 0])"
    "angles s' oid = (angles (angle_check_report oid s1) oid)\<lparr>an_sb := an_sb (angles s' oid)\<rparr>"
    using s1(3) by auto
  have "angles s' oid = (angles s oid)\<lparr>an_sb := an_sb (angles s' oid)\<rparr>" by (subst s'(4), subst s1(4)) simp
  then show ?case using s' s1(1) by simp
qed

text \<open>
  C23: A reading of an angle sensor adds an entry for each overflow of the schedule and one for the reading, an angle or an
  error, to those before. Reports and buffer together hold all entries in order, and the buffer is never left.
\<close>

theorem angle_entries_in_order:
  fixes s :: "'a probe_sys_scheme"
  assumes "an_spi (angles s oid) = Some dev" "bus_ok env dev s" "time_shift (angles s oid) < 32"
    and "an_chip_type (angles s oid) < SA_CHIP_MAX" "bit_set (an_flags (angles s oid)) SA_PENDING"
    and "1 \<le> j" "timer_is_before (clk 0 + timer_from_us freq 1) (clk j)"
    and "collected 3 base oid (an_sb (angles s oid)) s xs"
  shows "\<exists>d s'. angle_read env freq clk oid s = Ret () s' \<and> angle_entry d \<and>
    collected 3 base oid (an_sb (angles s' oid)) s' (xs @ replicate (unat (an_overflow (angles s oid))) [0xff, 0, 0] @ [d]) \<and>
    an_flags (angles s' oid) = 0 \<and> an_overflow (angles s' oid) = 0"
proof -
  let ?n = "unat (an_overflow (angles s oid))"
  let ?s0 = "upd_angle oid (\<lambda>sa. sa\<lparr>an_flags := 0, an_overflow := 0\<rparr>) s"
  let ?st = "wake s (probe_timer oid) - an_rest_ticks (angles s oid)"
  have "collected 3 base oid (an_sb (angles ?s0 oid)) ?s0 xs"
    using collected_sent [OF _ assms(8), of ?s0] by (simp add: upd_angle_def)
  from add_overflows_collects [OF this, of ?n] obtain s1 where s1: "add_overflows oid ?n ?s0 = Ret () s1"
    "spidevs s1 = spidevs s" "collected 3 base oid (an_sb (angles s1 oid)) s1 (xs @ replicate ?n [0xff, 0, 0])"
    "angles s1 oid = (angles ?s0 oid)\<lparr>an_sb := an_sb (angles s1 oid)\<rparr>"
    by (auto simp: upd_angle_def)
  have a: "an_spi (angles s1 oid) = Some dev" "time_shift (angles s1 oid) < 32" "an_chip_type (angles s1 oid) = an_chip_type (angles s oid)"
    "an_flags (angles s1 oid) = 0" "an_overflow (angles s1 oid) = 0"
    by (subst s1(4), simp add: upd_angle_def assms)+
  have b: "bus_ok env dev s1" using assms(2) s1(2) by (simp add: bus_ok_def)
  let ?q = "if an_chip_type (angles s1 oid) = SA_CHIP_A1333 then a1333_query env freq clk oid ?st s1
            else if an_chip_type (angles s1 oid) = SA_CHIP_AS5047D then as5047d_query env freq clk oid ?st s1
            else if an_chip_type (angles s1 oid) = SA_CHIP_TLE5012B then tle5012b_query env freq clk oid ?st s1 else Ret () s1"
  have "w \<in> {0, 1, 2}" if "w < 3" for w :: u8
  proof -
    have "unat w < 3" using that by (simp add: word_less_nat_alt)
    then have "unat w \<in> {0, 1, 2}" by auto
    then have "(of_nat (unat w) :: u8) \<in> {0, 1, 2}" by (elim insertE emptyE) simp_all
    then show ?thesis by simp
  qed
  then have "an_chip_type (angles s oid) \<in> {SA_CHIP_A1333, SA_CHIP_AS5047D, SA_CHIP_TLE5012B}"
    using assms(4) by (simp add: SA_CHIP_MAX_def SA_CHIP_A1333_def SA_CHIP_AS5047D_def SA_CHIP_TLE5012B_def)
  then have "adds_entry oid s1 ?q"
    using adds_query [OF a(1) b a(2)] adds_tle [OF a(1) b assms(6,7)] a(3) by auto
  from collect_entry [OF this s1(3)] obtain s2 d where s2: "?q = Ret () s2" "angle_entry d"
    "collected 3 base oid (an_sb (angles (angle_check_report oid s2) oid)) (angle_check_report oid s2) (xs @ replicate ?n [0xff, 0, 0] @ [d])"
    "angles (angle_check_report oid s2) oid = (angles s1 oid)\<lparr>an_sb := an_sb (angles (angle_check_report oid s2) oid)\<rparr>"
    by (auto simp: Let_def)
  have "angle_read env freq clk oid s = Ret () (angle_check_report oid s2)"
    using assms(5) s1(1) s2(1) by (simp add: angle_read_def Let_def)
  moreover have "an_flags (angles (angle_check_report oid s2) oid) = 0" "an_overflow (angles (angle_check_report oid s2) oid) = 0"
    by (subst s2(4), simp add: a)+
  ultimately show ?thesis using s2(2,3) by blast
qed

theorem angle_entries_in_order_witness:
  "\<exists>d s'. angle_read demo_chip 1000000 of_nat 1 demo_probe = Ret () s' \<and> angle_entry d \<and>
    collected 3 (length (sent demo_probe)) 1 (an_sb (angles s' 1)) s' [[0xff, 0, 0], d]"
proof -
  have "collected 3 (length (sent demo_probe)) 1 (an_sb (angles demo_probe 1)) demo_probe []"
    using collected_start [OF three_fits, of bulk_zero demo_probe 1]
    by (simp add: demo_probe_simps angle_zero_def bulk_zero_def sensor_bulk_reset_def)
  moreover have "bus_ok demo_chip 2 demo_probe"
    by (simp add: bus_ok_def Let_def demo_probe_simps SF_SOFTWARE_def bit_set_def)
  moreover have "timer_is_before (of_nat 0 + timer_from_us 1000000 1) (of_nat 2)"
    by (simp add: timer_is_before_def timer_from_us_def)
  ultimately show ?thesis
    using angle_entries_in_order [of demo_probe 1 2 demo_chip 2 of_nat 1000000 "length (sent demo_probe)" "[]"]
    by (auto simp: demo_probe_simps angle_zero_def SA_CHIP_MAX_def bit_set_def SA_PENDING_def)
qed

end

