(* ===== verification/Displays.thy ===== *)
theory Displays
  imports Bus
begin

text \<open>
  Displays and lights that are driven by pins with timing: \<open>klipper/src/lcd_hd44780.c\<close>, \<open>lcd_st7920.c\<close> and
  \<open>neopixel.c\<close> (its ARM variant). Definitions only. \<open>clk i\<close> is the value of the \<open>i\<close>-th read of the clock; the
  operations take the index of their first read and return the index after their last. A wait that no read ends
  is \<open>Fault\<close>.
\<close>

section \<open>Waiting\<close>

text \<open>\<open>while (p(timer_read_time())) irq_poll();\<close>\<close>

partial_function (option) spin :: "(u32 \<Rightarrow> bool) \<Rightarrow> (nat \<Rightarrow> u32) \<Rightarrow> nat \<Rightarrow> nat option" where
  "spin p clk i = (if p (clk i) then spin p clk (Suc i) else Some (Suc i))"

definition ndelay :: "board \<Rightarrow> (nat \<Rightarrow> u32) \<Rightarrow> u32 \<Rightarrow> nat \<Rightarrow> nat option" where
  "ndelay bd clk nsecs i =
     (if mach_avr bd then Some i
      else (let end_time = clk i + nsecs_to_ticks (clock_freq bd) nsecs in spin (\<lambda>now. timer_is_before now end_time) clk (Suc i)))"

text \<open>\<open>while (timer_read_time() - last_cmd_time < wait_ticks)\<close>\<close>

definition wait_since :: "(nat \<Rightarrow> u32) \<Rightarrow> u32 \<Rightarrow> u32 \<Rightarrow> nat \<Rightarrow> nat option" where
  "wait_since clk t0 ticks i = spin (\<lambda>now. now - t0 < ticks) clk i"

definition waited :: "nat option \<Rightarrow> (nat \<Rightarrow> ('s, 'b) res) \<Rightarrow> ('s, 'b) res" where
  "waited w f = (case w of None \<Rightarrow> Fault | Some i \<Rightarrow> f i)"

section \<open>State\<close>

record hd44780 =
  hd_last_cmd_time :: u32
  hd_cmd_wait_ticks :: u32
  hd_last :: u8
  hd_rs :: u32
  hd_e :: u32
  hd_d4 :: u32
  hd_d5 :: u32
  hd_d6 :: u32
  hd_d7 :: u32

record st7920 =
  st_last_cmd_time :: u32
  st_sync_wait_ticks :: u32
  st_cmd_wait_ticks :: u32
  st_sclk :: u32
  st_sid :: u32

record neopixel_s =
  np_pin :: u32
  bit_max_ticks :: u32
  last_req_time :: u32
  reset_min_ticks :: u32
  np_data :: "u8 list"

record display_sys = bus_sys +
  hds :: "u8 \<Rightarrow> hd44780"
  sts :: "u8 \<Rightarrow> st7920"
  neos :: "u8 \<Rightarrow> neopixel_s"

definition hd_zero :: hd44780 where
  "hd_zero = \<lparr>hd_last_cmd_time = 0, hd_cmd_wait_ticks = 0, hd_last = 0, hd_rs = 0, hd_e = 0, hd_d4 = 0, hd_d5 = 0, hd_d6 = 0, hd_d7 = 0\<rparr>"

definition st_zero :: st7920 where
  "st_zero = \<lparr>st_last_cmd_time = 0, st_sync_wait_ticks = 0, st_cmd_wait_ticks = 0, st_sclk = 0, st_sid = 0\<rparr>"

definition upd_hd :: "u8 \<Rightarrow> (hd44780 \<Rightarrow> hd44780) \<Rightarrow> 'a display_sys_scheme \<Rightarrow> 'a display_sys_scheme" where
  "upd_hd oid f s = s\<lparr>hds := (hds s)(oid := f (hds s oid))\<rparr>"

definition upd_st :: "u8 \<Rightarrow> (st7920 \<Rightarrow> st7920) \<Rightarrow> 'a display_sys_scheme \<Rightarrow> 'a display_sys_scheme" where
  "upd_st oid f s = s\<lparr>sts := (sts s)(oid := f (sts s oid))\<rparr>"

definition upd_neo :: "u8 \<Rightarrow> (neopixel_s \<Rightarrow> neopixel_s) \<Rightarrow> 'a display_sys_scheme \<Rightarrow> 'a display_sys_scheme" where
  "upd_neo oid f s = s\<lparr>neos := (neos s)(oid := f (neos s oid))\<rparr>"

text \<open>\<open>mem\<close> gives the bytes that a pointer in a command leads to; \<open>pointed\<close> are the \<open>n\<close> that the command names.\<close>

definition pointed :: "(u32 \<Rightarrow> u8 list) \<Rightarrow> u32 \<Rightarrow> nat \<Rightarrow> (u8 list \<Rightarrow> ('s, 'b) res) \<Rightarrow> ('s, 'b) res" where
  "pointed mem p n f = (if length (mem p) < n then Fault else f (take n (mem p)))"

section \<open>HD44780\<close>

definition hd44780_xmit_bits ::
    "board \<Rightarrow> (nat \<Rightarrow> u32) \<Rightarrow> u8 \<Rightarrow> hd44780 \<Rightarrow> nat \<Rightarrow> 'a bus_sys_scheme \<Rightarrow> ('a bus_sys_scheme, nat) res" where
  "hd44780_xmit_bits bd clk toggle h i s =
     (let s = pin_toggle (hd_e h) s;
          s = (if bit_set toggle 0x10 then pin_toggle (hd_d4 h) s else s);
          s = (if bit_set toggle 0x20 then pin_toggle (hd_d5 h) s else s);
          s = (if bit_set toggle 0x40 then pin_toggle (hd_d6 h) s else s);
          s = (if bit_set toggle 0x80 then pin_toggle (hd_d7 h) s else s)
      in waited (ndelay bd clk 230 i) (\<lambda>i. Ret i (pin_toggle (hd_e h) s)))"

definition hd44780_xmit_byte ::
    "board \<Rightarrow> (nat \<Rightarrow> u32) \<Rightarrow> u8 \<Rightarrow> u8 \<Rightarrow> nat \<Rightarrow> 'a display_sys_scheme \<Rightarrow> ('a display_sys_scheme, nat) res" where
  "hd44780_xmit_byte bd clk oid data i s =
     bnd (hd44780_xmit_bits bd clk (hd_last (hds s oid) XOR data) (hds s oid) i s) (\<lambda>i s.
       let s = upd_hd oid (\<lambda>h. h\<lparr>hd_last := push_bit 4 data\<rparr>) s
       in waited (ndelay bd clk (500 - 230) i) (\<lambda>i.
            hd44780_xmit_bits bd clk (data XOR hd_last (hds s oid)) (hds s oid) i s))"

text \<open>The loop over the bytes, with the time of the last command.\<close>

fun hd44780_xmit_loop ::
    "board \<Rightarrow> (nat \<Rightarrow> u32) \<Rightarrow> u8 \<Rightarrow> u8 list \<Rightarrow> u32 \<Rightarrow> nat \<Rightarrow> 'a display_sys_scheme \<Rightarrow> ('a display_sys_scheme, u32 \<times> nat) res" where
  "hd44780_xmit_loop bd clk oid [] last_cmd_time i s = Ret (last_cmd_time, i) s"
| "hd44780_xmit_loop bd clk oid (b # data) last_cmd_time i s =
     waited (wait_since clk last_cmd_time (hd_cmd_wait_ticks (hds s oid)) i) (\<lambda>i.
       bnd (hd44780_xmit_byte bd clk oid b i s) (\<lambda>i s. hd44780_xmit_loop bd clk oid data (clk i) (Suc i) s))"

definition hd44780_xmit ::
    "board \<Rightarrow> (nat \<Rightarrow> u32) \<Rightarrow> u8 \<Rightarrow> u8 list \<Rightarrow> nat \<Rightarrow> 'a display_sys_scheme \<Rightarrow> ('a display_sys_scheme, nat) res" where
  "hd44780_xmit bd clk oid data i s =
     bnd (hd44780_xmit_loop bd clk oid data (hd_last_cmd_time (hds s oid)) i s) (\<lambda>(t, i) s.
       Ret i (upd_hd oid (\<lambda>h. h\<lparr>hd_last_cmd_time := t\<rparr>) s))"

text \<open>\<open>strict\<close> is the option \<open>CONFIG_HAVE_STRICT_TIMING\<close>.\<close>

definition command_config_hd44780 ::
    "bool \<Rightarrow> board \<Rightarrow> nat \<Rightarrow> (nat \<Rightarrow> u32) \<Rightarrow> u32 list \<Rightarrow> 'a display_sys_scheme \<Rightarrow> ('a display_sys_scheme, unit) res" where
  "command_config_hd44780 strict bd sz clk args s =
     (let oid = ucast (args ! 0)
      in bnd (oid_alloc bd oid T_hd44780 sz s) (\<lambda>_ s.
         bnd (pin_out_setup bd (args ! 1) False (upd_hd oid (\<lambda>_. hd_zero) s)) (\<lambda>p s.
         bnd (pin_out_setup bd (args ! 2) False (upd_hd oid (\<lambda>h. h\<lparr>hd_rs := p\<rparr>) s)) (\<lambda>p s.
         bnd (pin_out_setup bd (args ! 3) False (upd_hd oid (\<lambda>h. h\<lparr>hd_e := p\<rparr>) s)) (\<lambda>p s.
         bnd (pin_out_setup bd (args ! 4) False (upd_hd oid (\<lambda>h. h\<lparr>hd_d4 := p\<rparr>) s)) (\<lambda>p s.
         bnd (pin_out_setup bd (args ! 5) False (upd_hd oid (\<lambda>h. h\<lparr>hd_d5 := p\<rparr>) s)) (\<lambda>p s.
         bnd (pin_out_setup bd (args ! 6) False (upd_hd oid (\<lambda>h. h\<lparr>hd_d6 := p\<rparr>) s)) (\<lambda>p s.
           let s = upd_hd oid (\<lambda>h. h\<lparr>hd_d7 := p\<rparr>) s
           in if \<not> strict then Ret () (upd_hd oid (\<lambda>h. h\<lparr>hd_cmd_wait_ticks := args ! 7\<rparr>) s)
              else bnd (hd44780_xmit_byte bd clk oid 0 1 s) (\<lambda>i s.
                let diff = clk i - clk 0
                in Ret () (if args ! 7 > diff then upd_hd oid (\<lambda>h. h\<lparr>hd_cmd_wait_ticks := args ! 7 - diff\<rparr>) s else s))))))))))"

text \<open>The two commands differ in the level of \<open>rs\<close>.\<close>

definition hd44780_send ::
    "bool \<Rightarrow> board \<Rightarrow> (nat \<Rightarrow> u32) \<Rightarrow> (u32 \<Rightarrow> u8 list) \<Rightarrow> u32 list \<Rightarrow> 'a display_sys_scheme \<Rightarrow> ('a display_sys_scheme, unit) res" where
  "hd44780_send rs bd clk mem args s =
     (let oid = ucast (args ! 0)
      in with_oid oid T_hd44780 (\<lambda>s.
           let s = pin_write (hd_rs (hds s oid)) rs s
           in pointed mem (args ! 2) (unat (ucast (args ! 1) :: u8)) (\<lambda>data.
                bnd (hd44780_xmit bd clk oid data 0 s) (\<lambda>_ s. Ret () s))) s)"

definition command_hd44780_send_cmds ::
    "board \<Rightarrow> (nat \<Rightarrow> u32) \<Rightarrow> (u32 \<Rightarrow> u8 list) \<Rightarrow> u32 list \<Rightarrow> 'a display_sys_scheme \<Rightarrow> ('a display_sys_scheme, unit) res" where
  "command_hd44780_send_cmds = hd44780_send False"

definition command_hd44780_send_data ::
    "board \<Rightarrow> (nat \<Rightarrow> u32) \<Rightarrow> (u32 \<Rightarrow> u8 list) \<Rightarrow> u32 list \<Rightarrow> 'a display_sys_scheme \<Rightarrow> ('a display_sys_scheme, unit) res" where
  "command_hd44780_send_data = hd44780_send True"

definition hd44780_shutdown :: "'a display_sys_scheme \<Rightarrow> ('a display_sys_scheme, unit) res" where
  "hd44780_shutdown s =
     foreach_oid T_hd44780 (\<lambda>oid s.
       let h = hds s oid;
           s = fold (\<lambda>p s. pin_write p False s) [hd_rs h, hd_e h, hd_d4 h, hd_d5 h, hd_d6 h, hd_d7 h] s
       in Ret () (upd_hd oid (\<lambda>h. h\<lparr>hd_last := 0\<rparr>) s)) s"

section \<open>ST7920\<close>

definition SYNC_CMD :: u8 where "SYNC_CMD = 0xf8"
definition SYNC_DATA :: u8 where "SYNC_DATA = 0xfa"

text \<open>The loop over the bits, with the number of rounds left.\<close>

fun st7920_bits ::
    "board \<Rightarrow> (nat \<Rightarrow> u32) \<Rightarrow> st7920 \<Rightarrow> nat \<Rightarrow> u8 \<Rightarrow> nat \<Rightarrow> 'a bus_sys_scheme \<Rightarrow> ('a bus_sys_scheme, nat) res" where
  "st7920_bits bd clk h 0 data i s = Ret i s"
| "st7920_bits bd clk h (Suc n) data i s =
     (let (s, data) = (if bit_set data 0x80 then (pin_toggle (st_sid h) s, NOT data) else (s, data))
      in waited (ndelay bd clk 200 i) (\<lambda>i.
           let s = pin_toggle (st_sclk h) s
           in waited (ndelay bd clk 200 i) (\<lambda>i.
                st7920_bits bd clk h n (push_bit 1 data) i (pin_toggle (st_sclk h) s))))"

definition st7920_xmit_byte ::
    "board \<Rightarrow> (nat \<Rightarrow> u32) \<Rightarrow> st7920 \<Rightarrow> u8 \<Rightarrow> nat \<Rightarrow> 'a bus_sys_scheme \<Rightarrow> ('a bus_sys_scheme, nat) res" where
  "st7920_xmit_byte bd clk h data i s = st7920_bits bd clk h 8 data i s"

text \<open>A byte of a transfer: its upper half, the wait, its lower half.\<close>

definition st7920_xmit_cmd ::
    "board \<Rightarrow> (nat \<Rightarrow> u32) \<Rightarrow> st7920 \<Rightarrow> u8 \<Rightarrow> u32 \<Rightarrow> u32 \<Rightarrow> nat \<Rightarrow> 'a bus_sys_scheme \<Rightarrow> ('a bus_sys_scheme, nat) res" where
  "st7920_xmit_cmd bd clk h cmd last_cmd_time wait_ticks i s =
     bnd (st7920_xmit_byte bd clk h (cmd AND 0xf0) i s) (\<lambda>i s.
     waited (wait_since clk last_cmd_time wait_ticks i) (\<lambda>i.
       st7920_xmit_byte bd clk h (push_bit 4 cmd) i s))"

text \<open>The bytes after the first, with the time of the last one.\<close>

fun st7920_xmit_rest ::
    "board \<Rightarrow> (nat \<Rightarrow> u32) \<Rightarrow> st7920 \<Rightarrow> u8 list \<Rightarrow> u32 \<Rightarrow> nat \<Rightarrow> 'a bus_sys_scheme \<Rightarrow> ('a bus_sys_scheme, u32 \<times> nat) res" where
  "st7920_xmit_rest bd clk h [] last_cmd_time i s = Ret (last_cmd_time, i) s"
| "st7920_xmit_rest bd clk h (cmd # cmds) last_cmd_time i s =
     bnd (st7920_xmit_cmd bd clk h cmd last_cmd_time (st_cmd_wait_ticks h) i s) (\<lambda>i s.
       st7920_xmit_rest bd clk h cmds (clk i) (Suc i) s)"

definition st7920_xmit ::
    "board \<Rightarrow> (nat \<Rightarrow> u32) \<Rightarrow> u8 \<Rightarrow> u8 list \<Rightarrow> nat \<Rightarrow> 'a display_sys_scheme \<Rightarrow> ('a display_sys_scheme, nat) res" where
  "st7920_xmit bd clk oid cmds i s =
     (case cmds of
        [] \<Rightarrow> Ret i s
      | cmd # cmds \<Rightarrow>
          (let h = sts s oid
           in bnd (st7920_xmit_cmd bd clk h cmd (st_last_cmd_time h) (st_sync_wait_ticks h) i s) (\<lambda>i s.
              bnd (st7920_xmit_rest bd clk h cmds (clk i) (Suc i) s) (\<lambda>(t, i) s.
                Ret i (upd_st oid (\<lambda>h. h\<lparr>st_last_cmd_time := t\<rparr>) s)))))"

definition command_config_st7920 ::
    "bool \<Rightarrow> board \<Rightarrow> nat \<Rightarrow> (nat \<Rightarrow> u32) \<Rightarrow> u32 list \<Rightarrow> 'a display_sys_scheme \<Rightarrow> ('a display_sys_scheme, unit) res" where
  "command_config_st7920 strict bd sz clk args s =
     (let oid = ucast (args ! 0)
      in bnd (oid_alloc bd oid T_st7920 sz s) (\<lambda>_ s.
         bnd (pin_out_setup bd (args ! 2) False (upd_st oid (\<lambda>_. st_zero) s)) (\<lambda>p s.
         bnd (pin_out_setup bd (args ! 3) False (upd_st oid (\<lambda>h. h\<lparr>st_sclk := p\<rparr>) s)) (\<lambda>p s.
         bnd (pin_out_setup bd (args ! 1) True (upd_st oid (\<lambda>h. h\<lparr>st_sid := p\<rparr>) s)) (\<lambda>_ s.
           if \<not> strict then Ret () (upd_st oid (\<lambda>h. h\<lparr>st_sync_wait_ticks := args ! 4, st_cmd_wait_ticks := args ! 5\<rparr>) s)
           else
             bnd (st7920_xmit_byte bd clk (sts s oid) SYNC_CMD 0 s) (\<lambda>i s.
             bnd (st7920_xmit_byte bd clk (sts s oid) 0x20 i s) (\<lambda>i s.
             bnd (st7920_xmit_byte bd clk (sts s oid) 0x00 (Suc i) s) (\<lambda>j s.
               let diff = clk j - clk i;
                   s = upd_st oid (\<lambda>h. h\<lparr>st_last_cmd_time := clk j\<rparr>) s;
                   s = (if args ! 4 > diff then upd_st oid (\<lambda>h. h\<lparr>st_sync_wait_ticks := args ! 4 - diff\<rparr>) s else s)
               in Ret () (if args ! 5 > diff then upd_st oid (\<lambda>h. h\<lparr>st_cmd_wait_ticks := args ! 5 - diff\<rparr>) s else s)))))))))"

text \<open>The two commands differ in the byte that starts them.\<close>

definition st7920_send ::
    "u8 \<Rightarrow> board \<Rightarrow> (nat \<Rightarrow> u32) \<Rightarrow> (u32 \<Rightarrow> u8 list) \<Rightarrow> u32 list \<Rightarrow> 'a display_sys_scheme \<Rightarrow> ('a display_sys_scheme, unit) res" where
  "st7920_send sync bd clk mem args s =
     (let oid = ucast (args ! 0)
      in with_oid oid T_st7920 (\<lambda>s.
           bnd (st7920_xmit_byte bd clk (sts s oid) sync 0 s) (\<lambda>i s.
             pointed mem (args ! 2) (unat (ucast (args ! 1) :: u8)) (\<lambda>data.
               bnd (st7920_xmit bd clk oid data i s) (\<lambda>_ s. Ret () s)))) s)"

definition command_st7920_send_cmds ::
    "board \<Rightarrow> (nat \<Rightarrow> u32) \<Rightarrow> (u32 \<Rightarrow> u8 list) \<Rightarrow> u32 list \<Rightarrow> 'a display_sys_scheme \<Rightarrow> ('a display_sys_scheme, unit) res" where
  "command_st7920_send_cmds = st7920_send SYNC_CMD"

definition command_st7920_send_data ::
    "board \<Rightarrow> (nat \<Rightarrow> u32) \<Rightarrow> (u32 \<Rightarrow> u8 list) \<Rightarrow> u32 list \<Rightarrow> 'a display_sys_scheme \<Rightarrow> ('a display_sys_scheme, unit) res" where
  "command_st7920_send_data = st7920_send SYNC_DATA"

definition st7920_shutdown :: "'a display_sys_scheme \<Rightarrow> ('a display_sys_scheme, unit) res" where
  "st7920_shutdown s =
     foreach_oid T_st7920 (\<lambda>oid s. Ret () (pin_write (st_sid (sts s oid)) False (pin_write (st_sclk (sts s oid)) False s))) s"

section \<open>Neopixel\<close>

definition neopixel_check_elapsed :: "u32 \<Rightarrow> u32 \<Rightarrow> u32 \<Rightarrow> bool" where
  "neopixel_check_elapsed t1 t2 ticks \<longleftrightarrow> t2 - t1 \<ge> ticks"

text \<open>The index of the read that ends the wait is one less than the value.\<close>

definition neopixel_delay :: "(nat \<Rightarrow> u32) \<Rightarrow> u32 \<Rightarrow> u32 \<Rightarrow> nat \<Rightarrow> nat option" where
  "neopixel_delay clk start ticks i = spin (\<lambda>now. \<not> neopixel_check_elapsed start now ticks) clk i"

definition PULSE_LONG_TICKS :: "board \<Rightarrow> u32" where "PULSE_LONG_TICKS bd = nsecs_to_ticks (clock_freq bd) 650"
definition PULSE_SHORT_TICKS :: "board \<Rightarrow> u32" where "PULSE_SHORT_TICKS bd = nsecs_to_ticks (clock_freq bd) 200"
definition BIT_MIN_TICKS :: "board \<Rightarrow> u32" where "BIT_MIN_TICKS bd = nsecs_to_ticks (clock_freq bd) 1250"

definition command_config_neopixel :: "board \<Rightarrow> nat \<Rightarrow> u32 list \<Rightarrow> 'a display_sys_scheme \<Rightarrow> ('a display_sys_scheme, unit) res" where
  "command_config_neopixel bd sz args s =
     bnd (pin_out_setup bd (args ! 1) False s) (\<lambda>pin s.
       let data_size = ucast (args ! 2) :: u16; oid = ucast (args ! 0)
       in if bit_set data_size 0x8000 then Shut ''Invalid neopixel data_size'' s
          else bnd (oid_alloc bd oid T_neopixel (sz + unat data_size) s) (\<lambda>_ s.
            Ret () (upd_neo oid (\<lambda>_. \<lparr>np_pin = pin, bit_max_ticks = args ! 3, last_req_time = 0, reset_min_ticks = args ! 4,
              np_data = replicate (unat data_size) 0\<rparr>) s)))"

text \<open>
  One bit: whether it was in time, the time of its start and the next clock read. On \<open>goto fail\<close> in the first branch the
  pulse has not ended yet.
\<close>

definition neopixel_bit ::
    "board \<Rightarrow> (nat \<Rightarrow> u32) \<Rightarrow> neopixel_s \<Rightarrow> bool \<Rightarrow> u32 \<Rightarrow> nat \<Rightarrow> 'a bus_sys_scheme \<Rightarrow> ('a bus_sys_scheme, bool \<times> u32 \<times> nat) res" where
  "neopixel_bit bd clk n one last_start i s =
     waited (neopixel_delay clk last_start (BIT_MIN_TICKS bd) i) (\<lambda>i.
       let start = clk i; s = pin_toggle (np_pin n) s; late = neopixel_check_elapsed last_start start (bit_max_ticks n)
       in if one then
            (if late then Ret (False, last_start, Suc i) s
             else waited (neopixel_delay clk start (PULSE_LONG_TICKS bd) (Suc i)) (\<lambda>i.
                  let s = pin_toggle (np_pin n) s
                  in waited (neopixel_delay clk (clk i) (PULSE_SHORT_TICKS bd) (Suc i)) (\<lambda>i. Ret (True, start, i) s)))
          else
            waited (neopixel_delay clk start (PULSE_SHORT_TICKS bd) (Suc i)) (\<lambda>i.
              let s = pin_toggle (np_pin n) s
              in Ret (if late then (False, last_start, i) else (True, start, i)) s))"

fun neopixel_byte ::
    "board \<Rightarrow> (nat \<Rightarrow> u32) \<Rightarrow> neopixel_s \<Rightarrow> nat \<Rightarrow> u8 \<Rightarrow> u32 \<Rightarrow> nat \<Rightarrow> 'a bus_sys_scheme
      \<Rightarrow> ('a bus_sys_scheme, bool \<times> u32 \<times> nat) res" where
  "neopixel_byte bd clk n 0 byte last_start i s = Ret (True, last_start, i) s"
| "neopixel_byte bd clk n (Suc bits) byte last_start i s =
     bnd (neopixel_bit bd clk n (bit_set byte 0x80) last_start i s) (\<lambda>(ok, last_start, i) s.
       if ok then neopixel_byte bd clk n bits (push_bit 1 byte) last_start i s else Ret (False, last_start, i) s)"

fun neopixel_bytes ::
    "board \<Rightarrow> (nat \<Rightarrow> u32) \<Rightarrow> neopixel_s \<Rightarrow> u8 list \<Rightarrow> u32 \<Rightarrow> nat \<Rightarrow> 'a bus_sys_scheme \<Rightarrow> ('a bus_sys_scheme, bool \<times> u32 \<times> nat) res" where
  "neopixel_bytes bd clk n [] last_start i s = Ret (True, last_start, i) s"
| "neopixel_bytes bd clk n (b # data) last_start i s =
     bnd (neopixel_byte bd clk n 8 b last_start i s) (\<lambda>(ok, last_start, i) s.
       if ok then neopixel_bytes bd clk n data last_start i s else Ret (False, last_start, i) s)"

text \<open>Whether the data was sent.\<close>

definition send_data :: "board \<Rightarrow> (nat \<Rightarrow> u32) \<Rightarrow> u8 \<Rightarrow> 'a display_sys_scheme \<Rightarrow> ('a display_sys_scheme, bool) res" where
  "send_data bd clk oid s =
     (let n = neos s oid
      in waited (wait_since clk (last_req_time n) (reset_min_ticks n) 0) (\<lambda>i.
         bnd (neopixel_bytes bd clk n (np_data n) (clk i) (Suc i) s) (\<lambda>(ok, _, i) s.
           let s = (if ok then s else pin_write (np_pin n) False s)
           in Ret ok (upd_neo oid (\<lambda>n. n\<lparr>last_req_time := clk i\<rparr>) s))))"

definition command_neopixel_update ::
    "(u32 \<Rightarrow> u8 list) \<Rightarrow> u32 list \<Rightarrow> 'a display_sys_scheme \<Rightarrow> ('a display_sys_scheme, unit) res" where
  "command_neopixel_update mem args s =
     (let oid = ucast (args ! 0); pos = args ! 1; data_len = ucast (args ! 2) :: u8
      in with_oid oid T_neopixel (\<lambda>s.
           if bit_set pos 0x8000 \<or> pos + ucast data_len > of_nat (length (np_data (neos s oid)))
           then Shut ''Invalid neopixel update command'' s
           else pointed mem (args ! 3) (unat data_len) (\<lambda>data.
             if unat pos + unat data_len > length (np_data (neos s oid)) then Fault
             else Ret () (upd_neo oid (\<lambda>n. n\<lparr>np_data := blit (np_data n) (unat pos) data\<rparr>) s))) s)"

definition command_neopixel_send :: "board \<Rightarrow> (nat \<Rightarrow> u32) \<Rightarrow> u32 list \<Rightarrow> 'a display_sys_scheme \<Rightarrow> ('a display_sys_scheme, unit) res" where
  "command_neopixel_send bd clk args s =
     (let oid = ucast (args ! 0)
      in with_oid oid T_neopixel (\<lambda>s.
           bnd (send_data bd clk oid s) (\<lambda>ok s. Ret () (sendf ''neopixel_result'' [RInt (ucast oid), RInt (of_flag ok)] s))) s)"

end
