(* ===== verification/Displays_Props.thy ===== *)
theory Displays_Props
  imports Displays Bus_Props
begin

text \<open>
  What the displays take in: the HD44780 at the falling edges of its enable line, the ST7920 at the rising edges of its
  clock; and the bounds of the neopixel's buffer.
\<close>

section \<open>Waits end\<close>

text \<open>Between two reads the clock moves on, by less than a quarter of its range.\<close>

definition clock_runs :: "(nat \<Rightarrow> u32) \<Rightarrow> bool" where
  "clock_runs clk \<longleftrightarrow> (\<forall>i. clk (Suc i) \<noteq> clk i \<and> clk (Suc i) - clk i \<le> 0x40000000)"

lemma spin_ends: "i \<le> j \<Longrightarrow> \<not> p (clk j) \<Longrightarrow> \<exists>k. spin p clk i = Some k"
proof (induction "j - i" arbitrary: i)
  case 0
  then show ?case by (simp add: spin.simps)
next
  case (Suc n)
  then have "n = j - Suc i" "Suc i \<le> j" by simp_all
  then show ?case using Suc(1) [of "Suc i"] Suc.prems by (simp add: spin.simps [of p clk i])
qed

lemma clock_reaches:
  assumes "clock_runs clk" "w \<le> 0xc0000000"
  shows "\<exists>j\<ge>i. w \<le> unat (clk j - base)"
proof (induction "2 ^ 32 - unat (clk i - base)" arbitrary: i rule: less_induct)
  case less
  show ?case
  proof (cases "w \<le> unat (clk i - base)")
    case False
    let ?d = "clk (Suc i) - clk i"
    have "?d \<noteq> 0" "unat ?d \<le> 0x40000000" using assms(1) by (auto simp: clock_runs_def word_le_nat_alt)
    then have d: "0 < unat ?d" "unat ?d \<le> 0x40000000" by (auto simp: unat_gt_0)
    have s: "clk (Suc i) - base = (clk i - base) + ?d" by simp
    have "unat (clk (Suc i) - base) = unat (clk i - base) + unat ?d"
      unfolding s by (subst unat_word_ariths(1)) (use False d(2) assms(2) in simp)
    moreover have "unat (clk (Suc i) - base) < 2 ^ 32" using unsigned_less [of "clk (Suc i) - base", where ?'a = nat] by simp
    ultimately have "2 ^ 32 - unat (clk (Suc i) - base) < 2 ^ 32 - unat (clk i - base)" using d(1) by linarith
    from less [OF this] obtain j where "j \<ge> Suc i" "w \<le> unat (clk j - base)" by blast
    then show ?thesis by (auto intro: exI [of _ j])
  qed auto
qed

lemma wait_since_ends:
  assumes "clock_runs clk" "ticks \<le> 0xc0000000"
  shows "\<exists>k. wait_since clk t0 ticks i = Some k"
proof -
  have "unat ticks \<le> 0xc0000000" using assms(2) by (simp add: word_le_nat_alt)
  from clock_reaches [OF assms(1) this, of i t0] obtain j where "j \<ge> i" "unat ticks \<le> unat (clk j - t0)" by blast
  then show ?thesis unfolding wait_since_def by (intro spin_ends [of i j]) (simp_all add: not_less word_le_nat_alt)
qed

lemma ndelay_ends:
  assumes "clock_runs clk"
  shows "\<exists>k. ndelay bd clk ns i = Some k"
proof (cases "mach_avr bd")
  case False
  let ?e = "clk i + nsecs_to_ticks (clock_freq bd) ns"
  obtain j where j: "j \<ge> Suc i" "0x80000000 \<le> unat (clk j - (?e + 0x80000000))"
    using clock_reaches [OF assms, where w = "0x80000000" and i = "Suc i" and base = "?e + 0x80000000"] by auto
  have "clk j - (?e + 0x80000000) = (clk j - ?e) - 0x80000000" by simp
  then have "0x80000000 \<le> unat ((clk j - ?e) - 0x80000000)" using j(2) by metis
  moreover have "unat (clk j - ?e) < 2 ^ 32" using unsigned_less [of "clk j - ?e", where ?'a = nat] by simp
  ultimately have "\<not> timer_is_before (clk j) ?e"
    unfolding before_unat by (subst (asm) unat_sub_if') (simp add: word_le_nat_alt split: if_splits)
  then show ?thesis using False spin_ends [where p = "\<lambda>now. timer_is_before now ?e", OF j(1)] by (simp add: ndelay_def Let_def)
qed (simp add: ndelay_def)

section \<open>Lines of a display\<close>

text \<open>Whatever else changes, the lines change by these events.\<close>

definition drove :: "'a bus_sys_scheme \<Rightarrow> bus_event list \<Rightarrow> 'a bus_sys_scheme \<Rightarrow> bool" where
  "drove s es s' \<longleftrightarrow> bus_log s' = bus_log s @ es \<and> (\<forall>p. pin_out s' p = level p (pin_out s p) es)"

lemma drove_Nil: "drove s [] s"
  by (simp add: drove_def)

lemma drove_append: "drove s es s' \<Longrightarrow> drove s' fs s'' \<Longrightarrow> drove s (es @ fs) s''"
  by (simp add: drove_def)

lemma lines_only_drove: "lines_only s es s' \<Longrightarrow> drove s es s'"
  by (simp add: drove_def lines_only_log lines_only_out)

lemma drove_out: "drove s es s' \<Longrightarrow> pin_out s' = (\<lambda>p. level p (pin_out s p) es)"
  by (auto simp: drove_def)

text \<open>A line that is toggled or not.\<close>

lemma toggle_if_out: "pin_out (if b then pin_toggle p s else s) = (pin_out s)(p := (pin_out s p \<noteq> b))"
  by (auto simp: pin_toggle_def pin_write_def log_event_def gpio_out_write_def)

lemma toggle_out: "pin_out (pin_toggle p s) = (pin_out s)(p := \<not> pin_out s p)"
  by (simp add: pin_toggle_def pin_write_def log_event_def gpio_out_write_def)

lemma toggle_if_lines: "lines_only s (if b then [Pin_write p (\<not> pin_out s p)] else []) (if b then pin_toggle p s else s)"
  by (simp add: lines_only_Nil)

section \<open>HD44780\<close>

text \<open>What the chip takes in: its data lines, the highest first, at each falling edge of the enable line.\<close>

definition nibble :: "hd44780 \<Rightarrow> (u32 \<Rightarrow> bool) \<Rightarrow> bool list" where
  "nibble h lv = map lv [hd_d7 h, hd_d6 h, hd_d5 h, hd_d4 h]"

fun hd_strobes :: "hd44780 \<Rightarrow> (u32 \<Rightarrow> bool) \<Rightarrow> bus_event list \<Rightarrow> bool list list" where
  "hd_strobes h lv [] = []"
| "hd_strobes h lv (Pin_write p v # es) =
     (if p = hd_e h \<and> lv p \<and> \<not> v then [nibble h lv] else []) @ hd_strobes h (lv(p := v)) es"
| "hd_strobes h lv (e # es) = hd_strobes h lv es"

lemma hd_strobes_append: "hd_strobes h lv (es @ fs) = hd_strobes h lv es @ hd_strobes h (\<lambda>p. level p (lv p) es) fs"
proof (induction h lv es rule: hd_strobes.induct)
  case (2 h lv p v es)
  have e: "(\<lambda>q. level q (lv q) (Pin_write p v # es)) = (\<lambda>q. level q ((lv(p := v)) q) es)" by auto
  show ?case using 2 by (simp only: hd_strobes.simps append.simps e append_assoc)
qed simp_all

lemma hd_strobes_drove: "drove s es s' \<Longrightarrow> hd_strobes h (pin_out s) (es @ fs) = hd_strobes h (pin_out s) es @ hd_strobes h (pin_out s') fs"
  by (simp add: hd_strobes_append drove_out)

definition hd_pins :: "hd44780 \<Rightarrow> u32 list" where
  "hd_pins h = [hd_e h, hd_d4 h, hd_d5 h, hd_d6 h, hd_d7 h]"

text \<open>Between transfers the enable line is low and the data lines hold the upper half of \<open>last\<close>.\<close>

definition hd_ready :: "hd44780 \<Rightarrow> (u32 \<Rightarrow> bool) \<Rightarrow> bool" where
  "hd_ready h lv \<longleftrightarrow> distinct (hd_pins h) \<and> \<not> lv (hd_e h) \<and> nibble h lv = take 4 (bits_of (hd_last h))"

lemma strobe_none: "p \<noteq> hd_e h \<Longrightarrow> hd_strobes h lv (if b then [Pin_write p v] else []) = []"
  "\<not> lv p \<Longrightarrow> hd_strobes h lv [Pin_write p (\<not> lv p)] = []"
  by auto

lemma bits_of_explicit: "bits_of b = [bit b 7, bit b 6, bit b 5, bit b 4, bit b 3, bit b 2, bit b 1, bit b 0]"
  by (simp add: bits_of_def upt_rec)

lemma bit_set_masks:
  "bit_set b 0x10 \<longleftrightarrow> bit (b :: u8) 4" "bit_set b 0x20 \<longleftrightarrow> bit b 5" "bit_set b 0x40 \<longleftrightarrow> bit b 6"
proof -
  have m: "(0x10 :: u8) = push_bit 4 1" "(0x20 :: u8) = push_bit 5 1" "(0x40 :: u8) = push_bit 6 1" by simp_all
  show "bit_set b 0x10 \<longleftrightarrow> bit b 4" "bit_set b 0x20 \<longleftrightarrow> bit b 5" "bit_set b 0x40 \<longleftrightarrow> bit b 6"
    unfolding bit_set_def m by (metis and_exp_eq_0_iff_not_bit push_bit_of_1)+
qed

lemma xmit_bits_strobe:
  assumes "clock_runs clk" "distinct (hd_pins h)" "\<not> pin_out s (hd_e h)"
    and "nibble h (pin_out s) = take 4 (bits_of old)" "toggle = old XOR new"
  shows "\<exists>j s' es. hd44780_xmit_bits bd clk toggle h i s = Ret j s' \<and> lines_only s es s' \<and>
    hd_strobes h (pin_out s) es = [take 4 (bits_of new)] \<and> \<not> pin_out s' (hd_e h) \<and>
    nibble h (pin_out s') = take 4 (bits_of new) \<and> (\<forall>p. p \<notin> set (hd_pins h) \<longrightarrow> pin_out s' p = pin_out s p)"
proof -
  obtain j where j: "ndelay bd clk 230 i = Some j" using ndelay_ends [OF assms(1)] by blast
  let ?b = "\<lambda>k. bit toggle k"
  define s1 where "s1 = pin_toggle (hd_e h) s"
  define s2 where "s2 = (if ?b 4 then pin_toggle (hd_d4 h) s1 else s1)"
  define s3 where "s3 = (if ?b 5 then pin_toggle (hd_d5 h) s2 else s2)"
  define s4 where "s4 = (if ?b 6 then pin_toggle (hd_d6 h) s3 else s3)"
  define s5 where "s5 = (if ?b 7 then pin_toggle (hd_d7 h) s4 else s4)"
  define es where "es = [Pin_write (hd_e h) (\<not> pin_out s (hd_e h))] @
    (if ?b 4 then [Pin_write (hd_d4 h) (\<not> pin_out s1 (hd_d4 h))] else []) @
    (if ?b 5 then [Pin_write (hd_d5 h) (\<not> pin_out s2 (hd_d5 h))] else []) @
    (if ?b 6 then [Pin_write (hd_d6 h) (\<not> pin_out s3 (hd_d6 h))] else []) @
    (if ?b 7 then [Pin_write (hd_d7 h) (\<not> pin_out s4 (hd_d7 h))] else []) @
    [Pin_write (hd_e h) (\<not> pin_out s5 (hd_e h))]"
  note out = s1_def s2_def s3_def s4_def s5_def toggle_if_out toggle_out
  have l: "lines_only s [Pin_write (hd_e h) (\<not> pin_out s (hd_e h))] s1"
    "lines_only s1 (if ?b 4 then [Pin_write (hd_d4 h) (\<not> pin_out s1 (hd_d4 h))] else []) s2"
    "lines_only s2 (if ?b 5 then [Pin_write (hd_d5 h) (\<not> pin_out s2 (hd_d5 h))] else []) s3"
    "lines_only s3 (if ?b 6 then [Pin_write (hd_d6 h) (\<not> pin_out s3 (hd_d6 h))] else []) s4"
    "lines_only s4 (if ?b 7 then [Pin_write (hd_d7 h) (\<not> pin_out s4 (hd_d7 h))] else []) s5"
    unfolding s5_def s4_def s3_def s2_def s1_def by (rule toggle_if_lines pin_toggle_lines)+
  note none = hd_strobes_drove [OF lines_only_drove [OF l(1)]] hd_strobes_drove [OF lines_only_drove [OF l(2)]]
    hd_strobes_drove [OF lines_only_drove [OF l(3)]] hd_strobes_drove [OF lines_only_drove [OF l(4)]]
    hd_strobes_drove [OF lines_only_drove [OF l(5)]]
  note l = lines_only_append [OF l(1) lines_only_append [OF l(2) lines_only_append [OF l(3) lines_only_append [OF l(4)
    lines_only_append [OF l(5) pin_toggle_lines]]]]]
  have r: "hd44780_xmit_bits bd clk toggle h i s = Ret j (pin_toggle (hd_e h) s5)"
    by (simp add: hd44780_xmit_bits_def Let_def waited_def j bit_set_masks bit_set_80 s1_def s2_def s3_def s4_def s5_def)
  have d: "hd_e h \<noteq> hd_d4 h" "hd_e h \<noteq> hd_d5 h" "hd_e h \<noteq> hd_d6 h" "hd_e h \<noteq> hd_d7 h" "hd_d4 h \<noteq> hd_d5 h" "hd_d4 h \<noteq> hd_d6 h"
    "hd_d4 h \<noteq> hd_d7 h" "hd_d5 h \<noteq> hd_d6 h" "hd_d5 h \<noteq> hd_d7 h" "hd_d6 h \<noteq> hd_d7 h"
    using assms(2) by (simp_all add: hd_pins_def)
  have o: "pin_out s (hd_d7 h) = bit old 7" "pin_out s (hd_d6 h) = bit old 6" "pin_out s (hd_d5 h) = bit old 5"
    "pin_out s (hd_d4 h) = bit old 4"
    using assms(4) by (simp_all add: nibble_def bits_of_explicit)
  have x: "(bit old k \<noteq> bit toggle k) = bit new k" if "k < 8" for k
    using that by (auto simp: assms(5) bit_xor_iff)
  have five: "pin_out s5 (hd_e h)" "nibble h (pin_out s5) = take 4 (bits_of new)"
    "\<And>p. p \<notin> set (hd_pins h) \<Longrightarrow> pin_out s5 p = pin_out s p"
    using d d [symmetric] x [of 4] x [of 5] x [of 6] x [of 7] assms(3)
    by (simp_all add: out nibble_def bits_of_explicit o hd_pins_def)
  have "hd_strobes h (pin_out s) es = hd_strobes h (pin_out s5) [Pin_write (hd_e h) (\<not> pin_out s5 (hd_e h))]"
    unfolding es_def none by (simp only: strobe_none(1) [OF d(1) [symmetric]] strobe_none(1) [OF d(2) [symmetric]]
      strobe_none(1) [OF d(3) [symmetric]] strobe_none(1) [OF d(4) [symmetric]] strobe_none(2) [of "pin_out s", OF assms(3)] append_Nil)
  then have st: "hd_strobes h (pin_out s) es = [take 4 (bits_of new)]" using five by simp
  have f: "\<not> pin_out (pin_toggle (hd_e h) s5) (hd_e h)" "nibble h (pin_out (pin_toggle (hd_e h) s5)) = take 4 (bits_of new)"
    "\<And>p. p \<notin> set (hd_pins h) \<Longrightarrow> pin_out (pin_toggle (hd_e h) s5) p = pin_out s p"
    using five d [symmetric] by (simp_all add: toggle_out nibble_def hd_pins_def)
  show ?thesis using r l [of "hd_e h", folded es_def] st f by blast
qed

lemma lines_only_displays:
  fixes s s' :: "'a display_sys_scheme"
  assumes "lines_only s es s'"
  shows "hds s' = hds s" "sts s' = sts s"
proof -
  have eq: "s' = s\<lparr>pin_out := pin_out s', bus_log := bus_log s @ es\<rparr>" using assms by (simp add: lines_only_def)
  show "hds s' = hds s" by (subst eq) simp
  show "sts s' = sts s" by (subst eq) simp
qed

lemma upd_hd_simps [simp]:
  "hds (upd_hd oid f s) oid = f (hds s oid)" "pin_out (upd_hd oid f s) = pin_out s" "bus_log (upd_hd oid f s) = bus_log s"
  by (simp_all add: upd_hd_def)

text \<open>The fields that a transfer changes do not matter to what the chip sees.\<close>

lemma hd_same_pins [simp]:
  "nibble (h\<lparr>hd_last := l\<rparr>) = nibble h" "hd_pins (h\<lparr>hd_last := l\<rparr>) = hd_pins h"
  "hd_ready (h\<lparr>hd_last_cmd_time := t\<rparr>) = hd_ready h"
  by (auto simp: nibble_def hd_pins_def hd_ready_def fun_eq_iff)

lemma hd_same_strobes [simp]: "hd_strobes (h\<lparr>hd_last := l\<rparr>) lv es = hd_strobes h lv es"
  by (induction h lv es rule: hd_strobes.induct) (auto simp del: fun_upd_apply)

lemma xmit_byte_strobes:
  fixes s :: "'a display_sys_scheme"
  assumes "clock_runs clk" "hd_ready (hds s oid) (pin_out s)"
  shows "\<exists>j s' es. hd44780_xmit_byte bd clk oid data i s = Ret j s' \<and> drove s es s' \<and>
    hds s' oid = (hds s oid)\<lparr>hd_last := push_bit 4 data\<rparr> \<and>
    hd_strobes (hds s oid) (pin_out s) es = [take 4 (bits_of data), drop 4 (bits_of data)] \<and>
    hd_ready (hds s' oid) (pin_out s') \<and> (\<forall>p. p \<notin> set (hd_pins (hds s oid)) \<longrightarrow> pin_out s' p = pin_out s p)"
proof -
  let ?h = "hds s oid"
  have a: "distinct (hd_pins ?h)" "\<not> pin_out s (hd_e ?h)" "nibble ?h (pin_out s) = take 4 (bits_of (hd_last ?h))"
    using assms(2) by (simp_all add: hd_ready_def)
  from xmit_bits_strobe [OF assms(1) a refl, where new = data and bd = bd and i = i] obtain j s1 es where
    1: "hd44780_xmit_bits bd clk (hd_last ?h XOR data) ?h i s = Ret j s1" "lines_only s es s1"
    "hd_strobes ?h (pin_out s) es = [take 4 (bits_of data)]" "\<not> pin_out s1 (hd_e ?h)"
    "nibble ?h (pin_out s1) = take 4 (bits_of data)" "\<forall>p. p \<notin> set (hd_pins ?h) \<longrightarrow> pin_out s1 p = pin_out s p" by blast
  let ?s2 = "upd_hd oid (\<lambda>h. h\<lparr>hd_last := push_bit 4 data\<rparr>) s1" and ?h2 = "?h\<lparr>hd_last := push_bit 4 data\<rparr>"
  have h2: "hds ?s2 oid = ?h2" using lines_only_displays(1) [OF 1(2)] by simp
  obtain k where k: "ndelay bd clk (500 - 230) j = Some k" using ndelay_ends [OF assms(1)] by blast
  have b: "distinct (hd_pins ?h2)" "\<not> pin_out ?s2 (hd_e ?h2)" "nibble ?h2 (pin_out ?s2) = take 4 (bits_of data)"
    using a(1) 1(4,5) by simp_all
  from xmit_bits_strobe [OF assms(1) b refl, where new = "push_bit 4 data" and bd = bd and i = k] obtain m s3 fs where
    2: "hd44780_xmit_bits bd clk (data XOR push_bit 4 data) ?h2 k ?s2 = Ret m s3" "lines_only ?s2 fs s3"
    "hd_strobes ?h2 (pin_out ?s2) fs = [take 4 (bits_of (push_bit 4 data))]" "\<not> pin_out s3 (hd_e ?h2)"
    "nibble ?h2 (pin_out s3) = take 4 (bits_of (push_bit 4 data))"
    "\<forall>p. p \<notin> set (hd_pins ?h2) \<longrightarrow> pin_out s3 p = pin_out ?s2 p" by blast
  have low: "take 4 (bits_of (push_bit 4 data)) = drop 4 (bits_of data)"
    by (simp add: bits_of_explicit bit_shift_left del: bit_push_bit_iff)
  have h3: "hds s3 oid = ?h2" using lines_only_displays(1) [OF 2(2)] h2 by simp
  have "hd44780_xmit_byte bd clk oid data i s = Ret m s3"
    using 1(1) 2(1) k h2 by (simp add: hd44780_xmit_byte_def waited_def Let_def)
  moreover have "drove s (es @ fs) s3"
    using drove_append [of s es ?s2 fs s3] lines_only_drove [OF 1(2)] lines_only_drove [OF 2(2)] by (simp add: drove_def)
  moreover have "hd_strobes ?h (pin_out s) (es @ fs) = [take 4 (bits_of data), drop 4 (bits_of data)]"
    using 1(3) 2(3) low by (simp add: hd_strobes_drove [OF lines_only_drove [OF 1(2)]])
  moreover have "hd_ready (hds s3 oid) (pin_out s3)"
    unfolding h3 hd_ready_def using a(1) 2(4,5) by simp
  moreover have "\<forall>p. p \<notin> set (hd_pins ?h) \<longrightarrow> pin_out s3 p = pin_out s p" using 1(6) 2(6) by simp
  ultimately show ?thesis using h3 by blast
qed

lemma xmit_loop_strobes:
  fixes s :: "'a display_sys_scheme"
  assumes "clock_runs clk" "hd_ready (hds s oid) (pin_out s)" "hd_cmd_wait_ticks (hds s oid) \<le> 0xc0000000"
  shows "\<exists>t j s' es. hd44780_xmit_loop bd clk oid data t0 i s = Ret (t, j) s' \<and> drove s es s' \<and>
    hd_strobes (hds s oid) (pin_out s) es = concat (map (\<lambda>b. [take 4 (bits_of b), drop 4 (bits_of b)]) data) \<and>
    hd_ready (hds s' oid) (pin_out s') \<and> hd_cmd_wait_ticks (hds s' oid) = hd_cmd_wait_ticks (hds s oid) \<and>
    (\<forall>p. p \<notin> set (hd_pins (hds s oid)) \<longrightarrow> pin_out s' p = pin_out s p)"
  using assms
proof (induction data arbitrary: t0 i s)
  case Nil
  then show ?case by (auto intro!: exI [of _ "[]"] drove_Nil)
next
  case (Cons b data)
  let ?h = "hds s oid"
  obtain j where j: "wait_since clk t0 (hd_cmd_wait_ticks ?h) i = Some j" using wait_since_ends [OF assms(1) Cons.prems(3)] by blast
  from xmit_byte_strobes [OF assms(1) Cons.prems(2), of bd b j] obtain k s1 es where
    1: "hd44780_xmit_byte bd clk oid b j s = Ret k s1" "drove s es s1" "hds s1 oid = ?h\<lparr>hd_last := push_bit 4 b\<rparr>"
    "hd_strobes ?h (pin_out s) es = [take 4 (bits_of b), drop 4 (bits_of b)]" "hd_ready (hds s1 oid) (pin_out s1)"
    "\<forall>p. p \<notin> set (hd_pins ?h) \<longrightarrow> pin_out s1 p = pin_out s p" by blast
  have w: "hd_cmd_wait_ticks (hds s1 oid) \<le> 0xc0000000" using Cons.prems(3) 1(3) by simp
  from Cons.IH [OF assms(1) 1(5) w, of "clk k" "Suc k"] obtain t m s' fs where
    2: "hd44780_xmit_loop bd clk oid data (clk k) (Suc k) s1 = Ret (t, m) s'" "drove s1 fs s'"
    "hd_strobes (hds s1 oid) (pin_out s1) fs = concat (map (\<lambda>b. [take 4 (bits_of b), drop 4 (bits_of b)]) data)"
    "hd_ready (hds s' oid) (pin_out s')" "hd_cmd_wait_ticks (hds s' oid) = hd_cmd_wait_ticks (hds s1 oid)"
    "\<forall>p. p \<notin> set (hd_pins (hds s1 oid)) \<longrightarrow> pin_out s' p = pin_out s1 p" by blast
  have "hd_strobes ?h (pin_out s) (es @ fs) = concat (map (\<lambda>b. [take 4 (bits_of b), drop 4 (bits_of b)]) (b # data))"
    using 1(3,4) 2(3) by (simp add: hd_strobes_drove [OF 1(2)])
  then show ?case using j 1 2 drove_append [OF 1(2) 2(2)]
    by (intro exI [of _ t] exI [of _ m] exI [of _ s'] exI [of _ "es @ fs"]) (simp add: waited_def)
qed

text \<open>
  C21: A transfer to the HD44780 ends, and the chip takes in every byte, the upper half and then the lower half, at
  two falling edges of the enable line. It leaves the lines ready for the next transfer and touches no others.
\<close>

theorem hd44780_shows_bytes:
  assumes "clock_runs clk" "hd_ready (hds s oid) (pin_out s)" "hd_cmd_wait_ticks (hds s oid) \<le> 0xc0000000"
  shows "\<exists>j s' es. hd44780_xmit bd clk oid data i s = Ret j s' \<and> bus_log s' = bus_log s @ es \<and>
    hd_strobes (hds s oid) (pin_out s) es = concat (map (\<lambda>b. [take 4 (bits_of b), drop 4 (bits_of b)]) data) \<and>
    hd_ready (hds s' oid) (pin_out s') \<and> (\<forall>p. p \<notin> set (hd_pins (hds s oid)) \<longrightarrow> pin_out s' p = pin_out s p)"
proof -
  obtain t j s' es where x: "hd44780_xmit_loop bd clk oid data (hd_last_cmd_time (hds s oid)) i s = Ret (t, j) s'" "drove s es s'"
    "hd_strobes (hds s oid) (pin_out s) es = concat (map (\<lambda>b. [take 4 (bits_of b), drop 4 (bits_of b)]) data)"
    "hd_ready (hds s' oid) (pin_out s')" "\<forall>p. p \<notin> set (hd_pins (hds s oid)) \<longrightarrow> pin_out s' p = pin_out s p"
    using xmit_loop_strobes [OF assms] by blast
  then show ?thesis
    by (intro exI [of _ j] exI [of _ "upd_hd oid (\<lambda>h. h\<lparr>hd_last_cmd_time := t\<rparr>) s'"] exI [of _ es])
      (simp add: hd44780_xmit_def drove_def)
qed

section \<open>ST7920\<close>

text \<open>The chip takes in \<open>sid\<close> at each rising edge of \<open>sclk\<close>, as an SPI chip does in its first mode.\<close>

definition st_chip :: "st7920 \<Rightarrow> spi_software" where
  "st_chip h = \<lparr>ss_miso = 0, ss_mosi = st_sid h, ss_sclk = st_sclk h, ss_mode = 0\<rparr>"

definition st_seen :: "st7920 \<Rightarrow> (u32 \<Rightarrow> bool) \<Rightarrow> bus_event list \<Rightarrow> bool list" where
  "st_seen h lv es = clocked (st_chip h) (lv (st_sid h)) (lv (st_sclk h)) es"

lemma st_seen_drove:
  "drove s es s' \<Longrightarrow> st_sid h \<noteq> st_sclk h \<Longrightarrow> st_seen h (pin_out s) (es @ fs) = st_seen h (pin_out s) es @ st_seen h (pin_out s') fs"
  by (simp add: st_seen_def clocked_append st_chip_def drove_out)

text \<open>Between bytes both lines are low.\<close>

definition st_ready :: "st7920 \<Rightarrow> (u32 \<Rightarrow> bool) \<Rightarrow> bool" where
  "st_ready h lv \<longleftrightarrow> st_sid h \<noteq> st_sclk h \<and> \<not> lv (st_sclk h) \<and> \<not> lv (st_sid h)"

lemma top_bits_not: "n \<le> 7 \<Longrightarrow> top_bits n (push_bit 1 (NOT b)) = map Not (top_bits n (push_bit 1 b))" for b :: u8
proof -
  assume n: "n \<le> 7"
  then have "n \<le> 8" by simp
  moreover have "bit (push_bit 1 (NOT b)) (7 - i) = (\<not> bit (push_bit 1 b) (7 - i))" if "i \<in> set [0..<n]" for i
    unfolding bit_shift_left using that n by (auto simp: bit_not_iff)
  ultimately show ?thesis by (simp only: top_bits_map map_map comp_def cong: map_cong)
qed

lemma st7920_bits_seen:
  assumes "clock_runs clk" "st_sid h \<noteq> st_sclk h" "\<not> pin_out s (st_sclk h)" "n \<le> 8"
  shows "\<exists>j s' es. st7920_bits bd clk h n data i s = Ret j s' \<and> lines_only s es s' \<and>
    st_seen h (pin_out s) es = map (\<lambda>v. v \<noteq> pin_out s (st_sid h)) (top_bits n data) \<and> \<not> pin_out s' (st_sclk h) \<and>
    pin_out s' (st_sid h) = last (pin_out s (st_sid h) # st_seen h (pin_out s) es)"
  using assms(3,4)
proof (induction n arbitrary: data i s)
  case 0
  then show ?case by (auto intro!: exI [of _ "[]"] lines_only_Nil simp: st_seen_def)
next
  case (Suc n)
  obtain j where j: "ndelay bd clk 200 i = Some j" using ndelay_ends [OF assms(1)] by blast
  obtain k where k: "ndelay bd clk 200 j = Some k" using ndelay_ends [OF assms(1)] by blast
  let ?v = "bit_set data 0x80" and ?l = "pin_out s (st_sid h)"
  define s1 where "s1 = (if ?v then pin_toggle (st_sid h) s else s)"
  let ?s3 = "pin_toggle (st_sclk h) (pin_toggle (st_sclk h) s1)"
  define d where "d = push_bit 1 (if ?v then NOT data else data)"
  have n: "n \<le> 8" using Suc.prems(2) by simp
  have o: "pin_out s1 = (pin_out s)(st_sid h := (?l \<noteq> ?v))" unfolding s1_def by (rule toggle_if_out)
  have l1: "lines_only s (if ?v then [Pin_write (st_sid h) (\<not> ?l)] else []) s1" unfolding s1_def by (rule toggle_if_lines)
  have l3: "lines_only s1 [Pin_write (st_sclk h) True, Pin_write (st_sclk h) False] ?s3"
    using lines_only_append [OF pin_toggle_lines pin_toggle_lines, of s1 "st_sclk h" "st_sclk h"] Suc.prems(1) assms(2)
    by (simp add: o toggle_out)
  have o3: "pin_out ?s3 = pin_out s1" by (auto simp: toggle_out)
  have "\<not> pin_out ?s3 (st_sclk h)" using Suc.prems(1) assms(2) by (simp add: o3 o)
  from Suc.IH [OF this n, of d k] obtain m s' es where
    r: "st7920_bits bd clk h n d k ?s3 = Ret m s'" "lines_only ?s3 es s'"
    "st_seen h (pin_out ?s3) es = map (\<lambda>v. v \<noteq> pin_out ?s3 (st_sid h)) (top_bits n d)" "\<not> pin_out s' (st_sclk h)"
    "pin_out s' (st_sid h) = last (pin_out ?s3 (st_sid h) # st_seen h (pin_out ?s3) es)" by blast
  let ?es = "(if ?v then [Pin_write (st_sid h) (\<not> ?l)] else []) @ [Pin_write (st_sclk h) True, Pin_write (st_sclk h) False] @ es"
  have "lines_only s ?es s'" by (rule lines_only_append [OF l1 lines_only_append [OF l3 r(2)]])
  moreover have "st7920_bits bd clk h (Suc n) data i s = Ret m s'"
    using r(1) unfolding s1_def d_def
    by (cases ?v) (simp_all only: st7920_bits.simps waited_def Let_def option.case prod.case if_True if_False j k)
  moreover have seen: "st_seen h (pin_out s) ?es = (?v \<noteq> ?l) # st_seen h (pin_out ?s3) es"
  proof -
    have "st_seen h (pin_out s) (if ?v then [Pin_write (st_sid h) (\<not> ?l)] else []) = []"
      using assms(2) by (simp add: st_seen_def st_chip_def)
    moreover have "st_seen h (pin_out s1) [Pin_write (st_sclk h) True, Pin_write (st_sclk h) False] = [?v \<noteq> ?l]"
      using assms(2) Suc.prems(1) by (auto simp: st_seen_def st_chip_def spi_idle_def spi_late_def bit_set_def o)
    ultimately show ?thesis
      using st_seen_drove [OF lines_only_drove [OF l1] assms(2)] st_seen_drove [OF lines_only_drove [OF l3] assms(2)] by simp
  qed
  moreover have "map (\<lambda>v. v \<noteq> pin_out ?s3 (st_sid h)) (top_bits n d) = map (\<lambda>v. v \<noteq> ?l) (top_bits n (push_bit 1 data))"
    using Suc.prems(2) top_bits_not [of n data] assms(2) by (auto simp: o3 o d_def simp del: push_bit_Suc push_bit_numeral)
  ultimately show ?case using r(3-5) o3 o assms(2)
    by (intro exI [of _ m] exI [of _ s'] exI [of _ ?es]) (auto simp: bit_set_80)
qed

text \<open>Bytes that end with a zero leave \<open>sid\<close> low; a transfer consists of such bytes.\<close>

lemma st_byte_seen:
  assumes "clock_runs clk" "st_ready h (pin_out s)" "\<not> bit data 0"
  shows "\<exists>j s' es. st7920_xmit_byte bd clk h data i s = Ret j s' \<and> lines_only s es s' \<and>
    st_seen h (pin_out s) es = bits_of data \<and> st_ready h (pin_out s')"
proof -
  have r: "st_sid h \<noteq> st_sclk h" "\<not> pin_out s (st_sclk h)" "\<not> pin_out s (st_sid h)" using assms(2) by (simp_all add: st_ready_def)
  have "last (bits_of data) = bit data 0" "bits_of data \<noteq> []" by (simp_all add: bits_of_explicit)
  then show ?thesis using st7920_bits_seen [OF assms(1) r(1,2), of 8 bd data i] r assms(3)
    by (auto simp: st7920_xmit_byte_def st_ready_def bits_of_top [symmetric])
qed

definition halves :: "u8 \<Rightarrow> bool list" where
  "halves b = bits_of (b AND 0xf0) @ bits_of (push_bit 4 b)"

lemma st_cmd_seen:
  assumes "clock_runs clk" "st_ready h (pin_out s)" "ticks \<le> 0xc0000000"
  shows "\<exists>j s' es. st7920_xmit_cmd bd clk h cmd t0 ticks i s = Ret j s' \<and> lines_only s es s' \<and>
    st_seen h (pin_out s) es = halves cmd \<and> st_ready h (pin_out s')"
proof -
  have b: "\<not> bit (cmd AND 0xf0) 0" "\<not> bit (push_bit 4 cmd) 0" by (simp_all add: bit_and_iff bit_shift_left del: bit_push_bit_iff)
  from st_byte_seen [OF assms(1,2) b(1), of bd i] obtain j s1 es where
    1: "st7920_xmit_byte bd clk h (cmd AND 0xf0) i s = Ret j s1" "lines_only s es s1" "st_seen h (pin_out s) es = bits_of (cmd AND 0xf0)"
    "st_ready h (pin_out s1)" by blast
  obtain k where k: "wait_since clk t0 ticks j = Some k" using wait_since_ends [OF assms(1,3)] by blast
  from st_byte_seen [OF assms(1) 1(4) b(2), of bd k] obtain m s2 fs where
    2: "st7920_xmit_byte bd clk h (push_bit 4 cmd) k s1 = Ret m s2" "lines_only s1 fs s2" "st_seen h (pin_out s1) fs = bits_of (push_bit 4 cmd)"
    "st_ready h (pin_out s2)" by blast
  have "st_sid h \<noteq> st_sclk h" using assms(2) by (simp add: st_ready_def)
  from st_seen_drove [OF lines_only_drove [OF 1(2)] this, of fs] have "st_seen h (pin_out s) (es @ fs) = halves cmd"
    by (simp only: 1(3) 2(3) halves_def)
  moreover have "st7920_xmit_cmd bd clk h cmd t0 ticks i s = Ret m s2"
    using 1(1) 2(1) k by (simp only: st7920_xmit_cmd_def waited_def bnd_simps option.case)
  ultimately show ?thesis using lines_only_append [OF 1(2) 2(2)] 2(4) by blast
qed

lemma st_rest_seen:
  assumes "clock_runs clk" "st_ready h (pin_out s)" "st_cmd_wait_ticks h \<le> 0xc0000000"
  shows "\<exists>t j s' es. st7920_xmit_rest bd clk h cmds t0 i s = Ret (t, j) s' \<and> lines_only s es s' \<and>
    st_seen h (pin_out s) es = concat (map halves cmds) \<and> st_ready h (pin_out s')"
  using assms(2)
proof (induction cmds arbitrary: t0 i s)
  case Nil
  then show ?case by (auto intro!: exI [of _ "[]"] lines_only_Nil simp: st_seen_def)
next
  case (Cons c cmds)
  from st_cmd_seen [OF assms(1) Cons.prems assms(3), of bd c t0 i] obtain j s1 es where
    1: "st7920_xmit_cmd bd clk h c t0 (st_cmd_wait_ticks h) i s = Ret j s1" "lines_only s es s1"
    "st_seen h (pin_out s) es = halves c" "st_ready h (pin_out s1)" by blast
  from Cons.IH [OF 1(4), of "clk j" "Suc j"] obtain t m s2 fs where
    2: "st7920_xmit_rest bd clk h cmds (clk j) (Suc j) s1 = Ret (t, m) s2" "lines_only s1 fs s2"
    "st_seen h (pin_out s1) fs = concat (map halves cmds)" "st_ready h (pin_out s2)" by blast
  have "st_sid h \<noteq> st_sclk h" using assms(2) by (simp add: st_ready_def)
  from st_seen_drove [OF lines_only_drove [OF 1(2)] this, of fs] show ?case
    using 1 2 lines_only_append [OF 1(2) 2(2)]
    by (intro exI [of _ t] exI [of _ m] exI [of _ s2] exI [of _ "es @ fs"]) simp
qed

lemma st_xmit_seen:
  fixes s :: "'a display_sys_scheme"
  assumes "clock_runs clk" "st_ready (sts s oid) (pin_out s)"
    and "st_sync_wait_ticks (sts s oid) \<le> 0xc0000000" "st_cmd_wait_ticks (sts s oid) \<le> 0xc0000000"
  shows "\<exists>j s' es. st7920_xmit bd clk oid cmds i s = Ret j s' \<and> drove s es s' \<and>
    st_seen (sts s oid) (pin_out s) es = concat (map halves cmds) \<and> st_ready (sts s oid) (pin_out s')"
proof (cases cmds)
  case Nil
  then show ?thesis using assms(2) by (auto intro!: exI [of _ "[]"] drove_Nil simp: st7920_xmit_def st_seen_def)
next
  case (Cons c rest)
  let ?h = "sts s oid"
  from st_cmd_seen [OF assms(1-3), of bd c "st_last_cmd_time ?h" i] obtain j s1 es where
    1: "st7920_xmit_cmd bd clk ?h c (st_last_cmd_time ?h) (st_sync_wait_ticks ?h) i s = Ret j s1" "lines_only s es s1"
    "st_seen ?h (pin_out s) es = halves c" "st_ready ?h (pin_out s1)" by blast
  from st_rest_seen [OF assms(1) 1(4) assms(4), of bd rest "clk j" "Suc j"] obtain t m s2 fs where
    2: "st7920_xmit_rest bd clk ?h rest (clk j) (Suc j) s1 = Ret (t, m) s2" "lines_only s1 fs s2"
    "st_seen ?h (pin_out s1) fs = concat (map halves rest)" "st_ready ?h (pin_out s2)" by blast
  let ?s3 = "upd_st oid (\<lambda>h. h\<lparr>st_last_cmd_time := t\<rparr>) s2"
  have "st_sid ?h \<noteq> st_sclk ?h" using assms(2) by (simp add: st_ready_def)
  from st_seen_drove [OF lines_only_drove [OF 1(2)] this, of fs] have "st_seen ?h (pin_out s) (es @ fs) = concat (map halves cmds)"
    using 1(3) 2(3) Cons by simp
  moreover have "st7920_xmit bd clk oid cmds i s = Ret m ?s3" using 1(1) 2(1) Cons by (simp add: st7920_xmit_def Let_def)
  moreover have "drove s (es @ fs) ?s3"
    using drove_append [OF lines_only_drove [OF 1(2)] lines_only_drove [OF 2(2)]] by (simp add: drove_def upd_st_def)
  moreover have "st_ready ?h (pin_out ?s3)" using 2(4) by (simp add: upd_st_def)
  ultimately show ?thesis by blast
qed

text \<open>
  C22: A command to the ST7920 ends, and the chip takes in the byte that starts it and then the two halves of each byte, with
  both lines low again at its end.
\<close>

theorem st7920_shows_bytes:
  assumes "clock_runs clk" "oid_lookup oid T_st7920 s = Ret (Some p) s" "oid = ucast (args ! 0)"
    and "st_ready (sts s oid) (pin_out s)"
    and "st_sync_wait_ticks (sts s oid) \<le> 0xc0000000" "st_cmd_wait_ticks (sts s oid) \<le> 0xc0000000"
    and "n = unat (ucast (args ! 1) :: u8)" "n \<le> length (mem (args ! 2))" "\<not> bit sync 0"
  shows "\<exists>s' es. st7920_send sync bd clk mem args s = Ret () s' \<and> bus_log s' = bus_log s @ es \<and>
    st_seen (sts s oid) (pin_out s) es = bits_of sync @ concat (map halves (take n (mem (args ! 2)))) \<and>
    st_ready (sts s oid) (pin_out s')"
proof -
  let ?h = "sts s oid"
  from st_byte_seen [OF assms(1,4,9), of bd 0] obtain j s1 es where
    1: "st7920_xmit_byte bd clk ?h sync 0 s = Ret j s1" "lines_only s es s1" "st_seen ?h (pin_out s) es = bits_of sync"
    "st_ready ?h (pin_out s1)" by blast
  have h: "sts s1 oid = ?h" using lines_only_displays(2) [OF 1(2)] by simp
  from st_xmit_seen [of clk s1 oid bd "take n (mem (args ! 2))" j] assms(1,5,6) 1(4) obtain m s2 fs where
    2: "st7920_xmit bd clk oid (take n (mem (args ! 2))) j s1 = Ret m s2" "drove s1 fs s2"
    "st_seen ?h (pin_out s1) fs = concat (map halves (take n (mem (args ! 2))))" "st_ready ?h (pin_out s2)" by (auto simp: h)
  have ne: "st_sid ?h \<noteq> st_sclk ?h" using assms(4) by (simp add: st_ready_def)
  have "st7920_send sync bd clk mem args s = Ret () s2"
    using assms(2,3,7,8) 1(1) 2(1) by (simp add: st7920_send_def Let_def with_oid_def deref_def pointed_def)
  moreover have "st_seen ?h (pin_out s) (es @ fs) = bits_of sync @ concat (map halves (take n (mem (args ! 2))))"
    using st_seen_drove [OF lines_only_drove [OF 1(2)] ne, of fs] 1(3) 2(3) by simp
  moreover have "bus_log s2 = bus_log s @ (es @ fs)" using lines_only_log [OF 1(2)] 2(2) by (simp add: drove_def)
  ultimately show ?thesis using 2(4) by blast
qed

section \<open>The buffer of the lights\<close>

lemma bit_set_8000: "bit_set w 0x8000 \<longleftrightarrow> odd (unat (w :: u32) div 2 ^ 15)"
proof -
  have m: "(0x8000 :: u32) = push_bit 15 1" by simp
  have "bit_set w 0x8000 \<longleftrightarrow> bit w 15" unfolding bit_set_def m by (metis and_exp_eq_0_iff_not_bit push_bit_of_1)
  also have "\<dots> \<longleftrightarrow> bit (unat w) 15" by (simp add: bit_unsigned_iff)
  finally show ?thesis by (simp add: bit_iff_odd)
qed

lemma no_wrap:
  assumes "\<not> bit_set pos 0x8000" "pos + ucast len \<le> of_nat m" "m \<le> 0x7fff"
  shows "unat (pos :: u32) + unat (len :: u8) \<le> m"
proof -
  have p: "unat pos < 2 ^ 32" using unsigned_less [of pos, where ?'a = nat] by simp
  have l: "unat len < 256" using unsigned_less [of len, where ?'a = nat] by simp
  have "unat pos + unat len < 2 ^ 32"
  proof (rule ccontr)
    assume "\<not> ?thesis"
    then have "2 ^ 32 - 2 ^ 15 \<le> unat pos" using l by simp
    then have "unat pos div 2 ^ 15 = 131071" using p by (intro div_nat_eqI) simp_all
    then show False using assms(1) by (simp add: bit_set_8000)
  qed
  then have "unat (pos + ucast len) = unat pos + unat len" by (simp add: unat_word_ariths(1) unsigned_ucast_eq take_bit_nat_eq_self l)
  moreover have "unat (of_nat m :: u32) = m" using assms(3) by (simp add: unat_of_nat_small)
  ultimately show ?thesis using assms(2) by (simp add: word_le_nat_alt)
qed

text \<open>
  C39: An update of the lights is refused or lies inside their data, for every position and length that a command can
  hold. The sum of both does not wrap because positions of 32768 and more are refused first.
\<close>

theorem neopixel_update_in_bounds:
  assumes "oid_lookup oid T_neopixel s = Ret (Some p) s" "oid = ucast (args ! 0)" "length (np_data (neos s oid)) \<le> 0x7fff"
    and "n = unat (ucast (args ! 2) :: u8)" "n \<le> length (mem (args ! 3))"
  shows "command_neopixel_update mem args s = Shut ''Invalid neopixel update command'' s \<or>
    (unat (args ! 1) + n \<le> length (np_data (neos s oid)) \<and>
     command_neopixel_update mem args s =
       Ret () (upd_neo oid (\<lambda>x. x\<lparr>np_data := blit (np_data x) (unat (args ! 1)) (take n (mem (args ! 3)))\<rparr>) s))"
proof (cases "bit_set (args ! 1) 0x8000 \<or> args ! 1 + ucast (ucast (args ! 2) :: u8) > (of_nat (length (np_data (neos s oid))) :: u32)")
  case True
  then show ?thesis using assms(1,2) by (simp add: command_neopixel_update_def Let_def with_oid_def deref_def)
next
  case False
  then have b: "unat (args ! 1) + n \<le> length (np_data (neos s oid))"
    using no_wrap [of "args ! 1" "ucast (args ! 2)"] assms(3,4) by (simp add: not_less)
  then have "command_neopixel_update mem args s =
       Ret () (upd_neo oid (\<lambda>x. x\<lparr>np_data := blit (np_data x) (unat (args ! 1)) (take n (mem (args ! 3)))\<rparr>) s)"
    using False assms(1,2,4,5) by (simp add: command_neopixel_update_def Let_def with_oid_def deref_def pointed_def)
  then show ?thesis using b by blast
qed

section \<open>Examples\<close>

definition demo_display :: display_sys where
  "demo_display = bus_sys.extend
     (demo_bus\<lparr>oids := Some [\<lparr>os_type = Some T_st7920, os_data = Some 104\<rparr>, \<lparr>os_type = Some T_neopixel, os_data = Some 168\<rparr>],
        oid_count := 2\<rparr>)
     (display_sys.fields (\<lambda>_. hd_zero\<lparr>hd_e := 1, hd_d4 := 2, hd_d5 := 3, hd_d6 := 4, hd_d7 := 5\<rparr>)
        (\<lambda>_. st_zero\<lparr>st_sclk := 1, st_sid := 2\<rparr>)
        (\<lambda>_. \<lparr>np_pin = 7, bit_max_ticks = 0, last_req_time = 0, reset_min_ticks = 0, np_data = [0, 0, 0]\<rparr>))"

lemma demo_display_simps:
  "pin_out demo_display p = False" "hds demo_display oid = hd_zero\<lparr>hd_e := 1, hd_d4 := 2, hd_d5 := 3, hd_d6 := 4, hd_d7 := 5\<rparr>"
  "sts demo_display oid = st_zero\<lparr>st_sclk := 1, st_sid := 2\<rparr>" "np_data (neos demo_display oid) = [0, 0, 0]"
  "oid_lookup 0 T_st7920 demo_display = Ret (Some 104) demo_display" "oid_lookup 1 T_neopixel demo_display = Ret (Some 168) demo_display"
  by (simp_all add: demo_display_def demo_bus_def mcu.defs bus_sys.defs display_sys.defs oid_lookup_def word_le_nat_alt)

lemma demo_clock: "clock_runs of_nat"
  by (simp add: clock_runs_def)

theorem hd44780_shows_bytes_witness:
  "\<exists>j s' es. hd44780_xmit demo_board of_nat 0 [0x2a] 0 demo_display = Ret j s' \<and> bus_log s' = bus_log demo_display @ es \<and>
    hd_strobes (hds demo_display 0) (pin_out demo_display) es = [[False, False, True, False], [True, False, True, False]]"
proof -
  have "hd_ready (hds demo_display 0) (pin_out demo_display)"
    by (simp add: hd_ready_def hd_pins_def nibble_def bits_of_explicit demo_display_simps hd_zero_def)
  moreover have "bits_of 0x2a = [False, False, True, False, True, False, True, False]" by (simp add: bits_of_explicit)
  ultimately show ?thesis
    using hd44780_shows_bytes [OF demo_clock, of demo_display 0 demo_board "[0x2a]" 0] by (auto simp: demo_display_simps hd_zero_def)
qed

theorem st7920_shows_bytes_witness:
  "\<exists>s' es. command_st7920_send_data demo_board of_nat (\<lambda>_. [0x2a]) [0, 1, 0] demo_display = Ret () s' \<and>
    bus_log s' = bus_log demo_display @ es \<and>
    st_seen (sts demo_display 0) (pin_out demo_display) es = bits_of SYNC_DATA @ bits_of 0x20 @ bits_of 0xa0"
proof -
  have "st_ready (sts demo_display 0) (pin_out demo_display)"
    by (simp add: st_ready_def demo_display_simps st_zero_def)
  moreover have "\<not> bit SYNC_DATA 0" by (simp add: SYNC_DATA_def)
  moreover have "halves 0x2a = bits_of 0x20 @ bits_of 0xa0" by (simp add: halves_def bits_of_explicit)
  ultimately show ?thesis
    using st7920_shows_bytes [OF demo_clock demo_display_simps(5), of "[0, 1, 0]" 1 "\<lambda>_. [0x2a]" SYNC_DATA demo_board]
    unfolding command_st7920_send_data_def by (force simp: demo_display_simps st_zero_def)
qed

theorem neopixel_update_in_bounds_witness:
  "command_neopixel_update (\<lambda>_. [7, 8]) [1, 1, 2, 0] demo_display =
     Ret () (upd_neo 1 (\<lambda>x. x\<lparr>np_data := blit (np_data x) 1 [7, 8]\<rparr>) demo_display) \<or>
   command_neopixel_update (\<lambda>_. [7, 8]) [1, 1, 2, 0] demo_display = Shut ''Invalid neopixel update command'' demo_display"
  using neopixel_update_in_bounds [OF demo_display_simps(6), of "[1, 1, 2, 0]" 2 "\<lambda>_. [7, 8]"] by (auto simp: demo_display_simps)

end
