(* ===== verification/Sdio.thy ===== *)
theory Sdio
  imports Bus
begin

text \<open>
  Commands on memory: transfers with an SD card through a buffer (\<open>klipper/src/sdiocmds.c\<close>) and the debugging commands of
  \<open>debugcmds.c\<close>. Definitions only.
\<close>

section \<open>State\<close>

text \<open>
  The board's side of the bus: the configuration that \<open>sdio_setup\<close> returns (or the message of a shutdown), error
  codes of preparing, sending and transferring, and what the card answers. The \<open>nat\<close> counts the calls so far.
\<close>

record sdio_env =
  sdio_setup :: "u32 \<Rightarrow> string + nat"
  sdio_prepare_error :: "nat \<Rightarrow> nat \<Rightarrow> bool \<Rightarrow> u32 \<Rightarrow> u32 \<Rightarrow> u8"
  sdio_command :: "nat \<Rightarrow> nat \<Rightarrow> u8 \<Rightarrow> u32 \<Rightarrow> u8 \<Rightarrow> u8 \<times> u8 list"
  sdio_read :: "nat \<Rightarrow> nat \<Rightarrow> u32 \<Rightarrow> u8 \<times> (nat \<Rightarrow> u8)"
  sdio_write_error :: "nat \<Rightarrow> nat \<Rightarrow> u8 list \<Rightarrow> u8"

record sdiodev_s =
  sdio_config :: nat
  sd_blocksize :: u32
  sd_speed :: u32
  data_buffer :: "u8 list"

record sdio_sys = mcu +
  sdios :: "u8 \<Rightarrow> sdiodev_s"
  sdio_calls :: nat
  sdio_speed :: "nat \<Rightarrow> u32"
  card_writes :: "u8 list list"
  memory :: "u32 \<Rightarrow> u8"

definition SDIO_BUFFER :: nat where "SDIO_BUFFER = 4096"
definition TIMEOUT_MSEC :: u32 where "TIMEOUT_MSEC = 500"

definition sdio_zero :: sdiodev_s where
  "sdio_zero = \<lparr>sdio_config = 0, sd_blocksize = 0, sd_speed = 0, data_buffer = replicate SDIO_BUFFER 0\<rparr>"

definition upd_sdio :: "u8 \<Rightarrow> (sdiodev_s \<Rightarrow> sdiodev_s) \<Rightarrow> 'a sdio_sys_scheme \<Rightarrow> 'a sdio_sys_scheme" where
  "upd_sdio oid f s = s\<lparr>sdios := (sdios s)(oid := f (sdios s oid))\<rparr>"

definition called :: "'a sdio_sys_scheme \<Rightarrow> 'a sdio_sys_scheme" where
  "called s = s\<lparr>sdio_calls := Suc (sdio_calls s)\<rparr>"

section \<open>SD card\<close>

definition command_config_sdio :: "board \<Rightarrow> nat \<Rightarrow> u32 list \<Rightarrow> 'a sdio_sys_scheme \<Rightarrow> ('a sdio_sys_scheme, unit) res" where
  "command_config_sdio bd sz args s =
     (let oid = ucast (args ! 0)
      in bnd (oid_alloc bd oid T_sdio sz s) (\<lambda>_ s.
           Ret () (upd_sdio oid (\<lambda>_. sdio_zero\<lparr>sd_blocksize := args ! 1, sd_speed := 400000\<rparr>) s)))"

definition command_sdio_set_bus :: "sdio_env \<Rightarrow> u32 list \<Rightarrow> 'a sdio_sys_scheme \<Rightarrow> ('a sdio_sys_scheme, unit) res" where
  "command_sdio_set_bus env args s =
     (let oid = ucast (args ! 0)
      in with_oid oid T_sdio (\<lambda>s.
           case sdio_setup env (args ! 1) of
             Inl e \<Rightarrow> Shut e s
           | Inr cfg \<Rightarrow> Ret () (upd_sdio oid (\<lambda>d. d\<lparr>sdio_config := cfg\<rparr>) s)) s)"

definition command_sdio_set_speed :: "u32 list \<Rightarrow> 'a sdio_sys_scheme \<Rightarrow> ('a sdio_sys_scheme, unit) res" where
  "command_sdio_set_speed args s =
     (let oid = ucast (args ! 0)
      in with_oid oid T_sdio (\<lambda>s.
           let s = upd_sdio oid (\<lambda>d. d\<lparr>sd_speed := args ! 1\<rparr>) s
           in Ret () (s\<lparr>sdio_speed := (sdio_speed s)(sdio_config (sdios s oid) := args ! 1)\<rparr>)) s)"

definition command_sdio_send_command :: "sdio_env \<Rightarrow> u32 list \<Rightarrow> 'a sdio_sys_scheme \<Rightarrow> ('a sdio_sys_scheme, unit) res" where
  "command_sdio_send_command env args s =
     (let oid = ucast (args ! 0) :: u8
      in with_oid oid T_sdio (\<lambda>s.
           case sdio_command env (sdio_calls s) (sdio_config (sdios s oid)) (ucast (args ! 1)) (args ! 2) (ucast (args ! 3)) of
             (err, response) \<Rightarrow>
               Ret () (sendf ''sdio_send_command_response'' [RInt (ucast oid), RInt (ucast err), RBytes response] (called s))) s)"

text \<open>The start of a transfer: the error of preparing it or of its command.\<close>

definition sdio_start :: "sdio_env \<Rightarrow> bool \<Rightarrow> u8 \<Rightarrow> u32 list \<Rightarrow> 'a sdio_sys_scheme \<Rightarrow> u8 \<times> 'a sdio_sys_scheme" where
  "sdio_start env reads oid args s =
     (let d = sdios s oid;
          timeout = TIMEOUT_MSEC * sd_speed d div 1000;
          err = sdio_prepare_error env (sdio_calls s) (sdio_config d) reads (sd_blocksize d) timeout;
          s = called s
      in if err \<noteq> 0 then (err, s)
         else (fst (sdio_command env (sdio_calls s) (sdio_config d) (ucast (args ! 1)) (args ! 2) 1), called s))"

definition command_sdio_read_data :: "sdio_env \<Rightarrow> u32 list \<Rightarrow> 'a sdio_sys_scheme \<Rightarrow> ('a sdio_sys_scheme, unit) res" where
  "command_sdio_read_data env args s =
     (let oid = ucast (args ! 0) :: u8;
          respond = (\<lambda>err len s. Ret () (sendf ''sdio_read_data_response'' [RInt (ucast oid), RInt (ucast err), RInt len] s))
      in with_oid oid T_sdio (\<lambda>s.
           let (err, s) = sdio_start env True oid args s; d = sdios s oid
           in if err \<noteq> 0 then respond err 0 s
              else if unat (sd_blocksize d) \<le> SDIO_BUFFER then
                (case sdio_read env (sdio_calls s) (sdio_config d) (sd_blocksize d) of
                   (err, bytes) \<Rightarrow>
                     respond err (sd_blocksize d)
                       (upd_sdio oid (\<lambda>d. d\<lparr>data_buffer := blit (data_buffer d) 0 (map bytes [0..<unat (sd_blocksize d)])\<rparr>) (called s)))
              else respond err 0 s) s)"

definition command_sdio_write_data :: "sdio_env \<Rightarrow> u32 list \<Rightarrow> 'a sdio_sys_scheme \<Rightarrow> ('a sdio_sys_scheme, unit) res" where
  "command_sdio_write_data env args s =
     (let oid = ucast (args ! 0) :: u8;
          respond = (\<lambda>err len s. Ret () (sendf ''sdio_write_data_response'' [RInt (ucast oid), RInt (ucast err), RInt len] s))
      in with_oid oid T_sdio (\<lambda>s.
           let (err, s) = sdio_start env False oid args s; d = sdios s oid
           in if err \<noteq> 0 then respond err 0 s
              else if unat (sd_blocksize d) \<le> SDIO_BUFFER then
                (let block = take (unat (sd_blocksize d)) (data_buffer d)
                 in respond (sdio_write_error env (sdio_calls s) (sdio_config d) block) (sd_blocksize d)
                      ((called s)\<lparr>card_writes := card_writes s @ [block]\<rparr>))
              else respond err 0 s) s)"

text \<open>The test of the sum of offset and length; what it lets through may still leave the buffer.\<close>

definition buffer_range :: "u32 \<Rightarrow> u8 \<Rightarrow> bool" where
  "buffer_range offset len \<longleftrightarrow> offset + ucast len \<le> of_nat SDIO_BUFFER"

definition command_sdio_read_data_buffer :: "u32 list \<Rightarrow> 'a sdio_sys_scheme \<Rightarrow> ('a sdio_sys_scheme, unit) res" where
  "command_sdio_read_data_buffer args s =
     (let oid = ucast (args ! 0) :: u8; offset = args ! 1; len = ucast (args ! 2) :: u8
      in with_oid oid T_sdio (\<lambda>s.
           let n = (if buffer_range offset len then unat len else 0)
           in if 0 < n \<and> unat offset + n > SDIO_BUFFER then Fault
              else Ret () (sendf ''sdio_read_data_buffer_response'' [RInt (ucast oid),
                     RBytes (take n (drop (unat offset) (data_buffer (sdios s oid))))] s)) s)"

text \<open>\<open>mem\<close> gives the bytes that a pointer in a command leads to.\<close>

definition command_sdio_write_data_buffer ::
    "(u32 \<Rightarrow> u8 list) \<Rightarrow> u32 list \<Rightarrow> 'a sdio_sys_scheme \<Rightarrow> ('a sdio_sys_scheme, unit) res" where
  "command_sdio_write_data_buffer mem args s =
     (let oid = ucast (args ! 0) :: u8; offset = args ! 1; len = ucast (args ! 2) :: u8
      in with_oid oid T_sdio (\<lambda>s.
           if \<not> buffer_range offset len then Ret () s
           else if length (mem (args ! 3)) < unat len \<or> (0 < unat len \<and> unat offset + unat len > SDIO_BUFFER) then Fault
           else Ret () (upd_sdio oid (\<lambda>d. d\<lparr>data_buffer := blit (data_buffer d) (unat offset) (take (unat len) (mem (args ! 3)))\<rparr>) s)) s)"

section \<open>Debugging commands\<close>

text \<open>Words in memory, the low byte first.\<close>

definition readb :: "u32 \<Rightarrow> 'a sdio_sys_scheme \<Rightarrow> u8" where
  "readb p s = memory s p"

definition readw :: "u32 \<Rightarrow> 'a sdio_sys_scheme \<Rightarrow> u16" where
  "readw p s = ucast (memory s p) OR push_bit 8 (ucast (memory s (p + 1)))"

definition readl :: "u32 \<Rightarrow> 'a sdio_sys_scheme \<Rightarrow> u32" where
  "readl p s = ucast (memory s p) OR push_bit 8 (ucast (memory s (p + 1))) OR push_bit 16 (ucast (memory s (p + 2)))
     OR push_bit 24 (ucast (memory s (p + 3)))"

definition writeb :: "u32 \<Rightarrow> u8 \<Rightarrow> 'a sdio_sys_scheme \<Rightarrow> 'a sdio_sys_scheme" where
  "writeb p v s = s\<lparr>memory := (memory s)(p := v)\<rparr>"

definition writew :: "u32 \<Rightarrow> u16 \<Rightarrow> 'a sdio_sys_scheme \<Rightarrow> 'a sdio_sys_scheme" where
  "writew p v s = writeb (p + 1) (ucast (drop_bit 8 v)) (writeb p (ucast v) s)"

definition writel :: "u32 \<Rightarrow> u32 \<Rightarrow> 'a sdio_sys_scheme \<Rightarrow> 'a sdio_sys_scheme" where
  "writel p v s = writew (p + 2) (ucast (drop_bit 16 v)) (writew p (ucast v) s)"

definition command_debug_read :: "u32 list \<Rightarrow> 'a sdio_sys_scheme \<Rightarrow> ('a sdio_sys_scheme, unit) res" where
  "command_debug_read args s =
     (let order = ucast (args ! 0) :: u8; ptr = args ! 1;
          v = (if order = 1 then ucast (readw ptr s) else if order = 2 then readl ptr s else ucast (readb ptr s))
      in Ret () (sendf ''debug_result'' [RInt v] s))"

definition command_debug_write :: "u32 list \<Rightarrow> 'a sdio_sys_scheme \<Rightarrow> ('a sdio_sys_scheme, unit) res" where
  "command_debug_write args s =
     (let order = ucast (args ! 0) :: u8; ptr = args ! 1; v = args ! 2
      in Ret () (if order = 1 then writew ptr (ucast v) s else if order = 2 then writel ptr v s else writeb ptr (ucast v) s))"

definition command_debug_ping :: "(u32 \<Rightarrow> u8 list) \<Rightarrow> u32 list \<Rightarrow> 'a sdio_sys_scheme \<Rightarrow> ('a sdio_sys_scheme, unit) res" where
  "command_debug_ping mem args s =
     (let len = unat (ucast (args ! 0) :: u8)
      in if length (mem (args ! 1)) < len then Fault else Ret () (sendf ''pong'' [RBytes (take len (mem (args ! 1)))] s))"

definition command_debug_nop :: "u32 list \<Rightarrow> 'a sdio_sys_scheme \<Rightarrow> ('a sdio_sys_scheme, unit) res" where
  "command_debug_nop args s = Ret () s"

end
