(* ===== verification/Sdio_Props.thy ===== *)
theory Sdio_Props
  imports Sdio Kernel_Correct
begin

text \<open>Where the commands on memory stay: the buffer of an SD card, and the memory that the debugging commands read back.\<close>

lemma unat_len: "unat (ucast len :: u32) = unat (len :: u8)"
  using unsigned_less [of len, where ?'a = nat] by (simp add: unsigned_ucast_eq take_bit_nat_eq_self)

lemma buffer_range_wraps:
  assumes "buffer_range offset len" "0 < unat len"
  shows "unat offset + unat len > SDIO_BUFFER \<longleftrightarrow> 2 ^ 32 \<le> unat offset + unat len"
proof -
  have p: "unat offset < 2 ^ 32" using unsigned_less [of offset, where ?'a = nat] by simp
  have "unat (of_nat SDIO_BUFFER :: u32) = SDIO_BUFFER" by (simp add: SDIO_BUFFER_def)
  then have "(unat offset + unat len) mod 2 ^ 32 \<le> SDIO_BUFFER"
    using assms(1) by (simp add: buffer_range_def word_le_nat_alt unat_word_ariths(1) unat_len)
  then show ?thesis by (cases "unat offset + unat len < 2 ^ 32") (auto simp: SDIO_BUFFER_def)
qed

lemma wraps_in_range:
  assumes "2 ^ 32 \<le> unat offset + unat len"
  shows "buffer_range offset len"
proof -
  have p: "unat offset < 2 ^ 32" "unat len < 256"
    using unsigned_less [of offset, where ?'a = nat] unsigned_less [of len, where ?'a = nat] by simp_all
  then have "(unat offset + unat len) mod 2 ^ 32 = unat offset + unat len - 2 ^ 32" using assms by (simp add: mod_if)
  then have "(unat offset + unat len) mod 2 ^ 32 \<le> 4096" using p by linarith
  then show ?thesis by (simp add: buffer_range_def SDIO_BUFFER_def word_le_nat_alt unat_word_ariths(1) unat_len)
qed

text \<open>
  C40: A write to the buffer of an SD card stores inside the buffer, stores nothing, or, exactly when the sum of offset and
  length passes 32 bits, stores in front of the buffer.
\<close>

theorem sdio_write_leaves_buffer:
  assumes "oid_lookup oid T_sdio s = Ret (Some p) s" "oid = ucast (args ! 0)"
    and "n = unat (ucast (args ! 2) :: u8)" "n \<le> length (mem (args ! 3))"
  shows "command_sdio_write_data_buffer mem args s =
    (if 2 ^ 32 \<le> unat (args ! 1) + n then Fault
     else if unat (args ! 1) + n \<le> SDIO_BUFFER then
       Ret () (upd_sdio oid (\<lambda>d. d\<lparr>data_buffer := blit (data_buffer d) (unat (args ! 1)) (take n (mem (args ! 3)))\<rparr>) s)
     else Ret () s)"
proof -
  let ?len = "ucast (args ! 2) :: u8"
  have r: "command_sdio_write_data_buffer mem args s =
      (if \<not> buffer_range (args ! 1) ?len then Ret () s
       else if 0 < n \<and> unat (args ! 1) + n > SDIO_BUFFER then Fault
       else Ret () (upd_sdio oid (\<lambda>d. d\<lparr>data_buffer := blit (data_buffer d) (unat (args ! 1)) (take n (mem (args ! 3)))\<rparr>) s))"
    using assms by (simp add: command_sdio_write_data_buffer_def Let_def with_oid_def deref_def)
  have p: "unat (args ! 1) < 2 ^ 32" using unsigned_less [of "args ! 1", where ?'a = nat] by simp
  show ?thesis
  proof (cases "2 ^ 32 \<le> unat (args ! 1) + n")
    case True
    then have "buffer_range (args ! 1) ?len" "0 < n" using wraps_in_range [of "args ! 1" ?len] assms(3) p by auto
    then show ?thesis using r True buffer_range_wraps [of "args ! 1" ?len] assms(3) by simp
  next
    case False
    have "unat (ucast ?len :: u32) = n" by (simp only: assms(3) unat_len)
    then have "buffer_range (args ! 1) ?len \<longleftrightarrow> unat (args ! 1) + n \<le> SDIO_BUFFER"
      using False by (simp only: buffer_range_def SDIO_BUFFER_def word_le_nat_alt unat_word_ariths(1)) simp
    then show ?thesis using r False by auto
  qed
qed

definition demo_sdio :: sdio_sys where
  "demo_sdio = mcu.extend (demo_mcu\<lparr>oids := Some [\<lparr>os_type = Some T_sdio, os_data = Some 104\<rparr>], oid_count := 1\<rparr>)
     (sdio_sys.fields (\<lambda>_. sdio_zero) 0 (\<lambda>_. 0) [] (\<lambda>_. 0))"

theorem sdio_write_leaves_buffer_witness:
  "command_sdio_write_data_buffer (\<lambda>_. replicate 32 1) [0, 0xfffffff0, 32, 0] demo_sdio = Fault"
proof -
  have "oid_lookup 0 T_sdio demo_sdio = Ret (Some 104) demo_sdio"
    by (simp add: demo_sdio_def oid_lookup_def mcu.defs sdio_sys.defs)
  from sdio_write_leaves_buffer [OF this, of "[0, 0xfffffff0, 32, 0]" 32 "\<lambda>_. replicate 32 1"] show ?thesis by simp
qed

text \<open>
  What a debugging command writes is what the next one reads at the same address, cut to the width of the access.
\<close>

theorem debug_round_trip:
  "\<exists>s'. command_debug_write [order, p, v] s = Ret () s' \<and>
    command_debug_read [order, p] s' =
      Ret () (sendf ''debug_result''
        [RInt (if ucast order = (1 :: u8) then v AND 0xffff else if ucast order = (2 :: u8) then v else v AND 0xff)] s')"
proof -
  have ne: "p + 1 \<noteq> p" "p + 2 \<noteq> p" "p + 3 \<noteq> p" "p + 2 \<noteq> p + 1" "p + 3 \<noteq> p + 1" "p + 3 \<noteq> p + 2" by simp_all
  have m: "(0xff :: u32) = mask 8" "(0xffff :: u32) = mask 16" by (simp_all add: mask_eq_exp_minus_1)
  have b: "ucast (readb p (writeb p (ucast v) s)) = v AND 0xff"
    unfolding m by (rule bit_word_eqI) (auto simp: readb_def writeb_def bit_simps)
  have w: "ucast (readw p (writew p (ucast v) s)) = v AND 0xffff"
    unfolding m by (rule bit_word_eqI) (auto simp: readw_def writew_def writeb_def ne bit_simps)
  have l: "readl p (writel p v s) = v"
  proof (rule bit_word_eqI)
    fix n
    assume "n < LENGTH(32)"
    then show "bit (readl p (writel p v s)) n = bit v n"
      by (cases "24 \<le> n") (auto simp: readl_def writel_def writew_def writeb_def ne bit_simps add.assoc)
  qed
  show ?thesis using b w l by (simp add: command_debug_write_def command_debug_read_def Let_def)
qed

end
